(* ===== verification/Prelude.thy ===== *)
theory Prelude
  imports Main
begin

text \<open>
  Shared vocabulary of the development: results with errors as values, tables as lists of rows
  with lookup and update by key, and the named collections the component proofs use.
  \<^item> \<open>row_simps\<close> collects rewrite rules on tables (\<open>lookup_by\<close>, \<open>update_by\<close>);
  \<^item> \<open>frame_simps\<close> collects the facts that an operation leaves part of the state alone.
\<close>

named_theorems row_simps
named_theorems frame_simps

type_synonym uuid = nat
type_synonym msec = int

section \<open>Results\<close>

abbreviation fails :: "'e + 'a \<Rightarrow> bool" where
  "fails r \<equiv> (\<exists>e. r = Inl e)"

fun bindE :: "'e + 'a \<Rightarrow> ('a \<Rightarrow> 'e + 'b) \<Rightarrow> 'e + 'b" where
  "bindE (Inl e) f = Inl e"
| "bindE (Inr x) f = f x"

lemma bindE_Inr_iff: "bindE m f = Inr y \<longleftrightarrow> (\<exists>x. m = Inr x \<and> f x = Inr y)"
  by (cases m) auto

text \<open>Effects: a step takes the state and leaves one, with a result or an error. An error ends the
  sequence and keeps the state reached, as an exception outside a transaction does.\<close>

type_synonym ('s, 'e, 'a) step = "'s \<Rightarrow> ('e + 'a) \<times> 's"

definition ret :: "'a \<Rightarrow> ('s, 'e, 'a) step" where
  "ret x = (\<lambda>s. (Inr x, s))"

definition throw :: "'e \<Rightarrow> ('s, 'e, 'a) step" where
  "throw e = (\<lambda>s. (Inl e, s))"

definition andThen :: "('s, 'e, 'a) step \<Rightarrow> ('a \<Rightarrow> ('s, 'e, 'b) step) \<Rightarrow> ('s, 'e, 'b) step" where
  "andThen m f = (\<lambda>s. case m s of (Inl e, s') \<Rightarrow> (Inl e, s') | (Inr x, s') \<Rightarrow> f x s')"

definition guard :: "bool \<Rightarrow> 'e \<Rightarrow> ('s, 'e, unit) step" where
  "guard b e = (if b then ret () else throw e)"

definition asks :: "('s \<Rightarrow> 'a) \<Rightarrow> ('s, 'e, 'a) step" where
  "asks f = (\<lambda>s. (Inr (f s), s))"

definition update :: "('s \<Rightarrow> 's) \<Rightarrow> ('s, 'e, unit) step" where
  "update f = (\<lambda>s. (Inr (), f s))"

definition raised :: "('e + 'a) \<Rightarrow> ('s, 'e, 'a) step" where
  "raised r = (\<lambda>s. (r, s))"

text \<open>A transaction: an error takes the state back to where it began.\<close>

definition atomically :: "('s, 'e, 'a) step \<Rightarrow> ('s, 'e, 'a) step" where
  "atomically m = (\<lambda>s. case m s of (Inl e, s') \<Rightarrow> (Inl e, s) | (Inr x, s') \<Rightarrow> (Inr x, s'))"

lemma atomically_Inr: "atomically m s = (Inr x, s') \<longleftrightarrow> m s = (Inr x, s')"
  by (auto simp: atomically_def split: prod.splits sum.splits)

lemma atomically_Inl: "atomically m s = (Inl e, s') \<Longrightarrow> s' = s"
  by (auto simp: atomically_def split: prod.splits sum.splits)

lemma step_simps [simp]:
  "ret x s = (Inr x, s)" "throw e s = (Inl e, s)"
  "asks g s = (Inr (g s), s)" "update h s = (Inr (), h s)" "raised r s = (r, s)"
  "guard b e s = (if b then Inr () else Inl e, s)"
  by (simp_all add: ret_def throw_def asks_def update_def raised_def guard_def)

lemma andThen_Inr_iff:
  "andThen m f s = (Inr y, s') \<longleftrightarrow> (\<exists>x s1. m s = (Inr x, s1) \<and> f x s1 = (Inr y, s'))"
  by (auto simp: andThen_def split: prod.splits sum.splits)

lemma andThen_simps [simp]:
  "m s = (Inr x, s1) \<Longrightarrow> andThen m f s = f x s1"
  "m s = (Inl e, s1) \<Longrightarrow> andThen m f s = (Inl e, s1)"
  by (simp_all add: andThen_def)

text \<open>A property of the state kept by every part is kept by the sequence.\<close>

definition keeps :: "('s \<Rightarrow> 's \<Rightarrow> bool) \<Rightarrow> ('s, 'e, 'a) step \<Rightarrow> bool" where
  "keeps R m \<longleftrightarrow> (\<forall>s. R s (snd (m s)))"

lemma keepsD: "keeps R m \<Longrightarrow> m s = (r, s') \<Longrightarrow> R s s'"
  unfolding keeps_def by (metis snd_conv)

lemma keeps_andThen:
  assumes "\<And>a b c. R a b \<Longrightarrow> R b c \<Longrightarrow> R a c" and "keeps R m" and "\<And>x. keeps R (f x)"
  shows "keeps R (andThen m f)"
  unfolding keeps_def
proof
  fix s
  obtain r s1 where m: "m s = (r, s1)" by fastforce
  have "R s s1" using assms(2) m by (rule keepsD)
  moreover have "R s1 (snd (f x s1))" for x using assms(3) by (simp add: keeps_def)
  ultimately show "R s (snd (andThen m f s))"
    using assms(1) m by (cases r) (auto simp: andThen_def)
qed

lemma keeps_simple:
  assumes "\<And>s. R s s"
  shows "keeps R (ret x)" "keeps R (throw e)" "keeps R (asks g)" "keeps R (raised r)"
    "keeps R (guard b e)"
  using assms by (simp_all add: keeps_def)

text \<open>
  What every operation of a component keeps of the state is a preorder on states. Its laws, proved once:
  an operation keeps it when each of its statements does. Every theory that shows such a fact
  interprets this locale on its own relation.
\<close>

locale state_preorder =
  fixes R :: "'s \<Rightarrow> 's \<Rightarrow> bool"
  assumes stays: "R s s"
    and chains: "R a b \<Longrightarrow> R b c \<Longrightarrow> R a c"
begin

lemma kept_simple:
  "keeps R (ret x)" "keeps R (throw e)" "keeps R (asks g)" "keeps R (raised r)" "keeps R (guard b e)"
  "keeps R (\<lambda>s. (h s, s))"
  using stays by (simp_all add: keeps_def)

lemma kept_then: "keeps R m \<Longrightarrow> (\<And>x. keeps R (f x)) \<Longrightarrow> keeps R (andThen m f)"
  using chains by (rule keeps_andThen)

lemma kept_raised: "(\<And>x. r = Inr x \<Longrightarrow> keeps R (f x)) \<Longrightarrow> keeps R (andThen (raised r) f)"
  by (cases r) (auto simp: keeps_def andThen_def stays)

lemma kept_guard: "(b \<Longrightarrow> keeps R (f ())) \<Longrightarrow> keeps R (andThen (guard b e) f)"
  by (cases b) (auto simp: keeps_def andThen_def stays)

lemma kept_atomic: "keeps R m \<Longrightarrow> keeps R (atomically m)"
  by (auto simp: keeps_def atomically_def stays split: prod.split sum.split) (metis snd_conv)

lemma kept_update: "(\<And>s. R s (h s)) \<Longrightarrow> keeps R (update h)"
  by (simp add: keeps_def)

lemma kept_if: "(b \<Longrightarrow> keeps R m) \<Longrightarrow> (\<not> b \<Longrightarrow> keeps R n) \<Longrightarrow> keeps R (if b then m else n)"
  by simp

end

text \<open>
  A step from states with \<open>P\<close>: a result \<open>x\<close> leaves a state with \<open>Q x\<close>, an error one with \<open>X\<close>.
\<close>

definition leaves :: "('s \<Rightarrow> bool) \<Rightarrow> ('s, 'e, 'a) step \<Rightarrow> ('a \<Rightarrow> 's \<Rightarrow> bool) \<Rightarrow> ('s \<Rightarrow> bool) \<Rightarrow> bool" where
  "leaves P m Q X \<longleftrightarrow> (\<forall>s. P s \<longrightarrow> (case m s of (Inl e, s') \<Rightarrow> X s' | (Inr x, s') \<Rightarrow> Q x s'))"

lemma leaves_then:
  "leaves P m Q X \<Longrightarrow> (\<And>x. leaves (Q x) (f x) S X) \<Longrightarrow> leaves P (andThen m f) S X"
  by (fastforce simp: leaves_def andThen_def split: prod.splits sum.splits)

lemma leaves_read:
  "(\<And>s. P s \<Longrightarrow> X s) \<Longrightarrow> (\<And>x. leaves (\<lambda>s. P s \<and> g s = Inr x) (f x) S X) \<Longrightarrow> leaves P (andThen (\<lambda>s. (g s, s)) f) S X"
  by (fastforce simp: leaves_def andThen_def split: prod.splits sum.splits)

lemma leaves_glance:
  "(\<And>s. P s \<Longrightarrow> X s) \<Longrightarrow> (\<And>x. leaves P (f x) S X) \<Longrightarrow> leaves P (andThen (\<lambda>s. (g s, s)) f) S X"
  by (fastforce simp: leaves_def andThen_def split: prod.splits sum.splits)

lemma leaves_raised:
  "(\<And>s. P s \<Longrightarrow> X s) \<Longrightarrow> (\<And>x. r = Inr x \<Longrightarrow> leaves P (f x) S X) \<Longrightarrow> leaves P (andThen (raised r) f) S X"
  by (cases r) (auto simp: leaves_def)

lemma leaves_guard:
  "(\<And>s. P s \<Longrightarrow> X s) \<Longrightarrow> (b \<Longrightarrow> leaves P (f ()) S X) \<Longrightarrow> leaves P (andThen (guard b e) f) S X"
  by (cases b) (auto simp: leaves_def)

lemma leaves_ret: "(\<And>s. P s \<Longrightarrow> Q x s) \<Longrightarrow> leaves P (ret x) Q X"
  by (simp add: leaves_def)

lemma leaves_throw: "(\<And>s. P s \<Longrightarrow> X s) \<Longrightarrow> leaves P (throw e) Q X"
  by (simp add: leaves_def)

lemma leaves_update: "(\<And>s. P s \<Longrightarrow> Q () (h s)) \<Longrightarrow> leaves P (update h) Q X"
  by (simp add: leaves_def)

lemma leaves_update_then:
  "(\<And>s. P s \<Longrightarrow> P' (h s)) \<Longrightarrow> leaves P' (f ()) Q X \<Longrightarrow> leaves P (andThen (update h) f) Q X"
  by (simp add: leaves_def)

lemma leaves_weaken:
  "leaves P m Q X \<Longrightarrow> (\<And>s. P' s \<Longrightarrow> P s) \<Longrightarrow> (\<And>x s. Q x s \<Longrightarrow> Q' x s) \<Longrightarrow> (\<And>s. X s \<Longrightarrow> X' s) \<Longrightarrow> leaves P' m Q' X'"
  by (fastforce simp: leaves_def split: prod.splits sum.splits)

lemma leaves_facts: "(\<And>s. P s \<Longrightarrow> c) \<Longrightarrow> (c \<Longrightarrow> leaves P m Q X) \<Longrightarrow> leaves P m Q X"
  by (auto simp: leaves_def)

lemma leavesD: "leaves P m Q X \<Longrightarrow> P s \<Longrightarrow> m s = (r, s') \<Longrightarrow> (case r of Inl e \<Rightarrow> X s' | Inr x \<Rightarrow> Q x s')"
  by (fastforce simp: leaves_def split: sum.splits)

section \<open>Tables: lists of rows with a key\<close>

definition lookup_by :: "('r \<Rightarrow> 'k) \<Rightarrow> 'k \<Rightarrow> 'r list \<Rightarrow> 'r option" where
  "lookup_by key k rows = find (\<lambda>r. key r = k) rows"

definition update_by :: "('r \<Rightarrow> 'k) \<Rightarrow> 'k \<Rightarrow> ('r \<Rightarrow> 'r) \<Rightarrow> 'r list \<Rightarrow> 'r list" where
  "update_by key k f rows = map (\<lambda>r. if key r = k then f r else r) rows"

lemma lookup_by_Nil [simp, row_simps]: "lookup_by key k [] = None"
  by (simp add: lookup_by_def)

lemma lookup_by_Cons [simp, row_simps]:
  "lookup_by key k (r # rs) = (if key r = k then Some r else lookup_by key k rs)"
  by (simp add: lookup_by_def)

lemma lookup_by_append [row_simps]:
  "lookup_by key k (xs @ ys) =
     (case lookup_by key k xs of None \<Rightarrow> lookup_by key k ys | Some r \<Rightarrow> Some r)"
  by (induction xs) auto

lemma lookup_by_Some_mem: "lookup_by key k xs = Some r \<Longrightarrow> r \<in> set xs"
  by (induction xs) (auto split: if_splits)

lemma lookup_by_Some_key: "lookup_by key k xs = Some r \<Longrightarrow> key r = k"
  by (induction xs) (auto split: if_splits)

lemma lookup_by_None_iff: "lookup_by key k xs = None \<longleftrightarrow> k \<notin> key ` set xs"
  by (induction xs) auto

lemma lookup_by_distinct:
  "distinct (map key xs) \<Longrightarrow> r \<in> set xs \<Longrightarrow> lookup_by key (key r) xs = Some r"
  by (induction xs) (auto simp: image_iff)

lemma update_by_Nil [simp, row_simps]: "update_by key k f [] = []"
  by (simp add: update_by_def)

lemma update_by_Cons [simp, row_simps]:
  "update_by key k f (r # rs) = (if key r = k then f r else r) # update_by key k f rs"
  by (simp add: update_by_def)

lemma length_update_by [simp, row_simps]: "length (update_by key k f xs) = length xs"
  by (simp add: update_by_def)

lemma lookup_update_same:
  assumes "\<And>r. key r = k \<Longrightarrow> key (f r) = k"
  shows "lookup_by key k (update_by key k f xs) = map_option f (lookup_by key k xs)"
  using assms by (induction xs) auto

lemma lookup_update_other:
  assumes "\<And>r. key r = k \<Longrightarrow> key (f r) = k" and "k' \<noteq> k"
  shows "lookup_by key k' (update_by key k f xs) = lookup_by key k' xs"
  using assms by (induction xs) auto

lemma map_key_update_by:
  assumes "\<And>r. key r = k \<Longrightarrow> g (f r) = g r"
  shows "map g (update_by key k f xs) = map g xs"
  using assms by (induction xs) auto

lemma set_update_by: "r \<in> set (update_by key k f xs) \<Longrightarrow>
    r \<in> set xs \<or> (\<exists>r0 \<in> set xs. key r0 = k \<and> r = f r0)"
  by (induction xs) (auto split: if_splits)

lemma update_by_one:
  assumes "distinct (map key xs)" and "lookup_by key i xs = Some r"
  shows "update_by key i f xs = map (\<lambda>x. if x = r then f r else x) xs"
proof -
  have "key r = i" using lookup_by_Some_key [OF assms(2)] .
  moreover have "x = r" if "x \<in> set xs" "key x = i" for x
  proof -
    have "lookup_by key (key x) xs = Some x" by (rule lookup_by_distinct [OF assms(1) that(1)])
    then show ?thesis unfolding that(2) assms(2) by simp
  qed
  ultimately have "(if key x = i then f x else x) = (if x = r then f r else x)" if "x \<in> set xs" for x
    using that by metis
  then show ?thesis unfolding update_by_def by (intro map_cong refl) simp
qed

lemma list_all_update_by:
  assumes "list_all P xs" and "\<And>r. r \<in> set xs \<Longrightarrow> key r = k \<Longrightarrow> P r \<Longrightarrow> P (f r)"
  shows "list_all P (update_by key k f xs)"
  using assms by (induction xs) auto

section \<open>Sums over lists\<close>

lemma sum_list_filter_split:
  fixes f :: "'a \<Rightarrow> int"
  shows "sum_list (map f xs) =
    sum_list (map f (filter P xs)) + sum_list (map f (filter (\<lambda>x. \<not> P x) xs))"
  by (induction xs) auto

lemma sum_list_nonneg_int: "(\<And>x. x \<in> set xs \<Longrightarrow> 0 \<le> f x) \<Longrightarrow> 0 \<le> sum_list (map f xs :: int list)"
  by (induction xs) auto

end
