(* ===== verification/Errors.thy ===== *)
theory Errors
  imports Prelude
begin

text \<open>
  The error hierarchy of \<open>src/lib/errors.ts\<close> and the boundary that turns a thrown value into an
  HTTP response (\<open>src/lib/api-handler.ts\<close>). One constructor per class; the argument is the
  message. Message texts are abbreviated to a keyword throughout the development: only
  \<open>to_safe_error_response\<close> ever reads them. \<open>ForeignError\<close> is any thrown value that is not an
  \<open>AppError\<close>: a driver error, a failed constraint, a bug.
\<close>

datatype error =
    ConfigurationError string
  | ValidationError string
  | ScheduleRevisionRequiredError
  | FinancialIntegrityError string
  | ProviderLookupEvidenceError string
  | AuthenticationError string
  | ConflictError string
  | AccountDisabledError string
  | ForbiddenError string
  | StepUpRequiredError
  | CounterpartyMustSignFirstError
  | ProfileIncompleteError
  | RateLimitedError string
  | DependencyError string
  | ForeignError string

fun is_app_error :: "error \<Rightarrow> bool" where
  "is_app_error (ForeignError _) = False"
| "is_app_error _ = True"

text \<open>\<open>instanceof ValidationError\<close> and \<open>instanceof ForbiddenError\<close>, subclasses included.\<close>

fun is_validation_error :: "error \<Rightarrow> bool" where
  "is_validation_error (ValidationError _) = True"
| "is_validation_error ScheduleRevisionRequiredError = True"
| "is_validation_error (FinancialIntegrityError _) = True"
| "is_validation_error (ProviderLookupEvidenceError _) = True"
| "is_validation_error _ = False"

fun is_forbidden_error :: "error \<Rightarrow> bool" where
  "is_forbidden_error (ForbiddenError _) = True"
| "is_forbidden_error StepUpRequiredError = True"
| "is_forbidden_error CounterpartyMustSignFirstError = True"
| "is_forbidden_error ProfileIncompleteError = True"
| "is_forbidden_error _ = False"

fun status_code :: "error \<Rightarrow> int" where
  "status_code (ConfigurationError _) = 500"
| "status_code (ValidationError _) = 400"
| "status_code ScheduleRevisionRequiredError = 400"
| "status_code (FinancialIntegrityError _) = 400"
| "status_code (ProviderLookupEvidenceError _) = 400"
| "status_code (AuthenticationError _) = 401"
| "status_code (ConflictError _) = 409"
| "status_code (AccountDisabledError _) = 403"
| "status_code (ForbiddenError _) = 403"
| "status_code StepUpRequiredError = 403"
| "status_code CounterpartyMustSignFirstError = 403"
| "status_code ProfileIncompleteError = 403"
| "status_code (RateLimitedError _) = 429"
| "status_code (DependencyError _) = 503"
| "status_code (ForeignError _) = 500"

fun error_code :: "error \<Rightarrow> string" where
  "error_code (ConfigurationError _) = ''CONFIGURATION_ERROR''"
| "error_code (ValidationError _) = ''VALIDATION_ERROR''"
| "error_code ScheduleRevisionRequiredError = ''SCHEDULE_REVISION_REQUIRED''"
| "error_code (FinancialIntegrityError _) = ''VALIDATION_ERROR''"
| "error_code (ProviderLookupEvidenceError _) = ''VALIDATION_ERROR''"
| "error_code (AuthenticationError _) = ''UNAUTHENTICATED''"
| "error_code (ConflictError _) = ''CONFLICT''"
| "error_code (AccountDisabledError _) = ''ACCOUNT_DISABLED''"
| "error_code (ForbiddenError _) = ''FORBIDDEN''"
| "error_code StepUpRequiredError = ''STEP_UP_REQUIRED''"
| "error_code CounterpartyMustSignFirstError = ''COUNTERPARTY_MUST_SIGN_FIRST''"
| "error_code ProfileIncompleteError = ''PROFILE_INCOMPLETE''"
| "error_code (RateLimitedError _) = ''RATE_LIMITED''"
| "error_code (DependencyError _) = ''DEPENDENCY_UNAVAILABLE''"
| "error_code (ForeignError _) = ''INTERNAL_ERROR''"

fun error_message :: "error \<Rightarrow> string" where
  "error_message (ConfigurationError m) = m"
| "error_message (ValidationError m) = m"
| "error_message ScheduleRevisionRequiredError = ''FirstPaymentDatePassed''"
| "error_message (FinancialIntegrityError m) = m"
| "error_message (ProviderLookupEvidenceError m) = m"
| "error_message (AuthenticationError m) = m"
| "error_message (ConflictError m) = m"
| "error_message (AccountDisabledError m) = m"
| "error_message (ForbiddenError m) = m"
| "error_message StepUpRequiredError = ''StepUpRequired''"
| "error_message CounterpartyMustSignFirstError = ''CounterpartyMustSignFirst''"
| "error_message ProfileIncompleteError = ''CompleteYourProfile''"
| "error_message (RateLimitedError m) = m"
| "error_message (DependencyError m) = m"
| "error_message (ForeignError m) = m"

text \<open>Operational errors are expected conditions; a configuration error is not.\<close>

fun is_operational :: "error \<Rightarrow> bool" where
  "is_operational (ConfigurationError _) = False"
| "is_operational e = is_app_error e"

record safe_error_response =
  safe_message :: string
  safe_code :: string
  safe_status :: int

definition to_safe_error_response :: "error \<Rightarrow> safe_error_response" where
  "to_safe_error_response e =
     (if is_app_error e
      then \<lparr>safe_message = error_message e, safe_code = error_code e, safe_status = status_code e\<rparr>
      else \<lparr>safe_message = ''UnexpectedError'', safe_code = ''INTERNAL_ERROR'', safe_status = 500\<rparr>)"

definition is_server_fault :: "int \<Rightarrow> bool" where
  "is_server_fault s \<longleftrightarrow> 500 \<le> s"

section \<open>The route boundary\<close>

text \<open>A route returns its handler's own response or the JSON error body; a failure is also logged
  with full detail under the same correlation id, which the body carries for a server fault.\<close>

datatype 'r response =
    Handled 'r
  | ErrorBody (body_code: string) (body_message: string) (correlation: "uuid option")
      (http_status: int)

record log_line =
  log_correlation :: uuid
  log_route :: string
  log_status :: int
  log_code :: string
  log_error :: string

definition with_error_handling ::
    "string \<Rightarrow> ('a \<Rightarrow> error + 'r) \<Rightarrow> uuid \<Rightarrow> 'a \<Rightarrow> 'r response \<times> log_line list" where
  "with_error_handling route handler fresh args =
     (case handler args of
        Inr r \<Rightarrow> (Handled r, [])
      | Inl e \<Rightarrow>
         (let safe = to_safe_error_response e in
          (ErrorBody (safe_code safe) (safe_message safe)
             (if is_server_fault (safe_status safe) then Some fresh else None) (safe_status safe),
           [\<lparr>log_correlation = fresh, log_route = route, log_status = safe_status safe,
             log_code = safe_code safe, log_error = error_message e\<rparr>])))"

lemma status_code_client_range: "400 \<le> status_code e \<and> status_code e \<le> 503"
  by (cases e) simp_all

lemma subclass_status:
  "is_validation_error e \<Longrightarrow> status_code e = 400"
  "is_forbidden_error e \<Longrightarrow> status_code e = 403"
  by (cases e; simp)+

text \<open>
  A correlation id is returned exactly for a server fault (a configuration error, an unavailable
  dependency or an unexpected error), and it is the id of the log line of the same request.
\<close>

theorem correlation_iff_server_fault:
  assumes "with_error_handling route handler c args = (ErrorBody code msg corr st, logs)"
  shows "(corr \<noteq> None \<longleftrightarrow> 500 \<le> st) \<and> map log_correlation logs = [c] \<and>
    (corr = None \<or> corr = Some c) \<and>
    (\<exists>e. handler args = Inl e \<and>
      (500 \<le> st \<longleftrightarrow> (\<exists>m. e \<in> {ConfigurationError m, DependencyError m, ForeignError m})))"
proof -
  obtain e where e: "handler args = Inl e"
    using assms by (cases "handler args") (auto simp: with_error_handling_def)
  then show ?thesis using assms
    by (cases e) (auto simp: with_error_handling_def to_safe_error_response_def is_server_fault_def
        Let_def)
qed

theorem correlation_iff_server_fault_witness:
  "\<exists>e. (\<lambda>_. Inl (DependencyError ''db'') :: error + unit) () = Inl e"
  using correlation_iff_server_fault
    [of "''r''" "\<lambda>_. Inl (DependencyError ''db'') :: error + unit" 7 "()"
        "''DEPENDENCY_UNAVAILABLE''" "''db''" "Some 7" 503
        "[\<lparr>log_correlation = 7, log_route = ''r'', log_status = 503,
           log_code = ''DEPENDENCY_UNAVAILABLE'', log_error = ''db''\<rparr>]"]
  by (simp add: with_error_handling_def to_safe_error_response_def is_server_fault_def Let_def)

end
