(* ===== verification/JsNumber.thy ===== *)
theory JsNumber
  imports Prelude "HOL-Library.Log_Nat"
begin

text \<open>
  The arithmetic of the source language on integer amounts. A JavaScript number is an IEEE double:
  an integer of magnitude at most \<open>2 ^ 53\<close> is represented exactly, and the result of an addition,
  a subtraction, a multiplication or a division is the nearest double (ties to even). The amounts
  of the program are integer minor units, so the model keeps them as \<open>int\<close> and rounds each result
  by \<open>js_int\<close>; the lemmas say where the rounding is the identity. Overflow to infinity (beyond
  \<open>2 ^ 1024\<close>) does not occur on the amounts the program reads. \<open>int4_ok\<close> is the range of the
  \<open>integer\<close> columns of the database.
\<close>

definition max_safe :: int where
  "max_safe = 9007199254740991"

definition safe_int :: "int \<Rightarrow> bool" where
  "safe_int n \<longleftrightarrow> \<bar>n\<bar> \<le> max_safe"

definition int4_ok :: "int \<Rightarrow> bool" where
  "int4_ok n \<longleftrightarrow> -2147483648 \<le> n \<and> n \<le> 2147483647"

lemma int4_ok_safe: "int4_ok n \<Longrightarrow> safe_int n"
  unfolding int4_ok_def safe_int_def max_safe_def by arith

text \<open>Division rounded to the nearest integer, ties to even.\<close>

definition half_even :: "int \<Rightarrow> int \<Rightarrow> int" where
  "half_even a b =
     (let q = a div b; r = a mod b
      in if 2 * r < b \<or> (2 * r = b \<and> even q) then q else q + 1)"

definition js_int :: "int \<Rightarrow> int" where
  "js_int n =
     (if \<bar>n\<bar> \<le> 9007199254740992 then n
      else (let u = 2 ^ nat (bitlen \<bar>n\<bar> - 53) in half_even n u * u))"

definition js_add :: "int \<Rightarrow> int \<Rightarrow> int" where
  "js_add a b = js_int (a + b)"

definition js_sub :: "int \<Rightarrow> int \<Rightarrow> int" where
  "js_sub a b = js_int (a - b)"

definition js_mul :: "int \<Rightarrow> int \<Rightarrow> int" where
  "js_mul a b = js_int (a * b)"

lemma js_int_exact: "\<bar>n\<bar> \<le> 9007199254740992 \<Longrightarrow> js_int n = n"
  by (simp add: js_int_def)

lemma js_int_safe [simp]: "safe_int n \<Longrightarrow> js_int n = n"
  by (simp add: js_int_def safe_int_def max_safe_def)

lemma js_add_exact: "safe_int (a + b) \<Longrightarrow> js_add a b = a + b"
  by (simp add: js_add_def)

lemma js_sub_exact: "safe_int (a - b) \<Longrightarrow> js_sub a b = a - b"
  by (simp add: js_sub_def)

lemma js_mul_exact: "safe_int (a * b) \<Longrightarrow> js_mul a b = a * b"
  by (simp add: js_mul_def)

lemma half_even_neg:
  assumes "0 < b" and "a \<le> - b"
  shows "half_even a b < 0"
proof -
  have d: "a = a div b * b + a mod b" and m: "0 \<le> a mod b" "a mod b < b"
    using assms(1) by simp_all
  have "a div b \<le> (- b) div b"
    using assms by (intro zdiv_mono1) auto
  moreover have "(- b) div b = -1" using assms(1) by (simp add: int_div_pos_eq [of "- b" b "-1" 0])
  ultimately have "a div b \<le> -1" by simp
  have "a mod b = 0" if "a div b = -1"
  proof -
    have "a = - b + a mod b" using d that by simp
    then show ?thesis using m assms(2) by linarith
  qed
  then have "a div b \<le> -2 \<or> a mod b = 0" using \<open>a div b \<le> -1\<close> by linarith
  then show ?thesis
    using assms(1) \<open>a div b \<le> -1\<close> by (auto simp: half_even_def Let_def)
qed

lemma half_even_nonneg:
  assumes "0 < b" and "0 \<le> a"
  shows "0 \<le> half_even a b"
  using assms by (auto simp: half_even_def Let_def pos_imp_zdiv_nonneg_iff)

text \<open>Rounding keeps the sign, so a test \<open>x < 0\<close> on a rounded result decides the exact one.\<close>

lemma js_int_neg_iff: "js_int n < 0 \<longleftrightarrow> n < 0"
proof (cases "\<bar>n\<bar> \<le> 9007199254740992")
  case True
  then show ?thesis by (simp add: js_int_def)
next
  case False
  define k where "k = nat (bitlen \<bar>n\<bar> - 53)"
  have b: "2 ^ nat (bitlen \<bar>n\<bar> - 1) \<le> \<bar>n\<bar>"
    using False bitlen_bounds [of "\<bar>n\<bar>"] by linarith
  have "k \<le> nat (bitlen \<bar>n\<bar> - 1)" by (simp add: k_def)
  then have "(2::int) ^ k \<le> 2 ^ nat (bitlen \<bar>n\<bar> - 1)" by simp
  with b have le: "2 ^ k \<le> \<bar>n\<bar>" by linarith
  have eq: "js_int n = half_even n (2 ^ k) * 2 ^ k"
    using False by (simp add: js_int_def k_def Let_def)
  show ?thesis
  proof (cases "n < 0")
    case True
    with le have "n \<le> - (2 ^ k)" by linarith
    then have "half_even n (2 ^ k) < 0" by (intro half_even_neg) simp_all
    then show ?thesis using True eq by (simp add: mult_less_0_iff)
  next
    case False
    then have "0 \<le> half_even n (2 ^ k)" by (intro half_even_nonneg) simp_all
    then show ?thesis using False eq by (simp add: mult_less_0_iff)
  qed
qed

section \<open>Math.ceil of a quotient\<close>

text \<open>
  \<open>Math.ceil(a / b)\<close> on positive integers: the quotient is rounded to the nearest double, whose
  53-bit significand is \<open>half_even (a * 2 ^ s) b\<close> for the shift \<open>s\<close> that puts the scaled quotient
  into \<open>[2 ^ 52, 2 ^ 53)\<close>, and the double is then rounded up.
\<close>

definition div_shift :: "int \<Rightarrow> int \<Rightarrow> nat" where
  "div_shift a b =
     (let s = nat (52 + bitlen b - bitlen a)
      in if a * 2 ^ s < b * 2 ^ 52 then Suc s else s)"

definition js_ceil_div :: "int \<Rightarrow> int \<Rightarrow> int" where
  "js_ceil_div a b =
     (let s = div_shift a b; m = half_even (a * 2 ^ s) b in - ((- m) div 2 ^ s))"

definition ceil_div :: "int \<Rightarrow> int \<Rightarrow> int" where
  "ceil_div a b = - ((- a) div b)"

lemma div_shift_normal:
  assumes "0 < a" and "a < 2 ^ 53" and "0 < b"
  shows "b * 2 ^ 52 \<le> a * 2 ^ div_shift a b"
proof -
  define s where "s = nat (52 + bitlen b - bitlen a)"
  have ba: "2 ^ nat (bitlen a - 1) \<le> a" and bb: "b < 2 ^ nat (bitlen b)"
    using assms bitlen_bounds [of a] bitlen_bounds [of b] by auto
  have la: "1 \<le> bitlen a" "bitlen a \<le> 53"
    using assms by (auto simp: bitlen_le_iff_power bitlen_ge_iff_power)
  have lb: "1 \<le> bitlen b"
    using assms by (auto simp: bitlen_ge_iff_power)
  have e: "nat (bitlen a - 1) + Suc s = nat (bitlen b) + 52"
    using la lb by (simp add: s_def)
  have "b * 2 ^ 52 \<le> 2 ^ nat (bitlen b) * 2 ^ 52" using bb by simp
  also have "\<dots> = (2::int) ^ (nat (bitlen a - 1) + Suc s)" by (simp only: e power_add)
  also have "\<dots> \<le> a * 2 ^ Suc s" using ba by (simp add: power_add)
  finally have "b * 2 ^ 52 \<le> a * 2 ^ Suc s" .
  then show ?thesis by (auto simp: div_shift_def Let_def s_def not_less)
qed

lemma ceil_div_eq: "0 < b \<Longrightarrow> (q - 1) * b < a \<Longrightarrow> a \<le> q * b \<Longrightarrow> ceil_div a b = q"
proof -
  assume b: "0 < b" and lo: "(q - 1) * b < a" and hi: "a \<le> q * b"
  have "(- a) div b = - q"
    by (rule int_div_pos_eq [where r = "q * b - a"]) (use lo hi in \<open>auto simp: algebra_simps\<close>)
  then show ?thesis by (simp add: ceil_div_def)
qed

text \<open>The rounded quotient never changes the ceiling of two safe integers.\<close>

lemma js_ceil_div_exact:
  assumes a: "0 < a" "a < 2 ^ 53" and b: "0 < b"
  shows "js_ceil_div a b = ceil_div a b"
proof -
  define s where "s = div_shift a b"
  define m where "m = half_even (a * 2 ^ s) b"
  define q r where "q = a div b" and "r = a mod b"
  have qr: "a = q * b + r" "0 \<le> r" "r < b" using b by (auto simp: q_def r_def)
  have half: "b < 2 ^ Suc s"
  proof -
    have "b * 2 ^ 52 \<le> a * 2 ^ s" using div_shift_normal [OF a b] by (simp add: s_def)
    also have "\<dots> < 2 ^ 53 * 2 ^ s" using a(2) by simp
    finally show ?thesis by simp
  qed
  define t where "t = r * 2 ^ s"
  have t: "a * 2 ^ s = q * 2 ^ s * b + t" by (simp add: qr(1) t_def algebra_simps)
  have t0: "0 \<le> t" by (simp add: t_def qr(2))
  have tdiv: "(a * 2 ^ s) div b = q * 2 ^ s + t div b" "(a * 2 ^ s) mod b = t mod b"
    using b by (simp_all add: t)
  have tb: "t div b < 2 ^ s"
  proof -
    have "t < b * 2 ^ s" using qr(3) by (simp add: t_def)
    moreover have "t div b * b \<le> t" using b by (simp add: minus_mod_eq_div_mult [symmetric])
    ultimately have "t div b * b < 2 ^ s * b" by (simp add: mult.commute)
    then show ?thesis using b by (simp only: mult_less_cancel_right_pos)
  qed
  have up: "m \<le> (q + 1) * 2 ^ s"
    using tb by (auto simp: m_def half_even_def tdiv Let_def algebra_simps)
  show ?thesis
  proof (cases "r = 0")
    case True
    then have "m = q * 2 ^ s" using b by (simp add: m_def half_even_def tdiv Let_def t_def)
    then have "ceil_div m (2 ^ s) = q" by (intro ceil_div_eq) simp_all
    then have "js_ceil_div a b = q"
      by (simp add: js_ceil_div_def ceil_div_def Let_def m_def [symmetric] s_def [symmetric])
    moreover have "ceil_div a b = q"
      by (rule ceil_div_eq) (use b qr True in \<open>auto simp: algebra_simps\<close>)
    ultimately show ?thesis by simp
  next
    case False
    then have "1 \<le> r" using qr(2) by linarith
    then have "2 ^ Suc s \<le> r * 2 ^ Suc s" by simp
    with half have "b < r * 2 ^ Suc s" by linarith
    then have big: "b < 2 * t" by (simp add: t_def mult.left_commute)
    have "q * 2 ^ s < m"
    proof (cases "t div b = 0")
      case True
      then have "t mod b = t" by (metis add_0 mult_zero_right div_mult_mod_eq mult.commute)
      then show ?thesis using big True by (simp add: m_def half_even_def tdiv Let_def)
    next
      case False
      then have "0 < t div b" using t0 b pos_imp_zdiv_nonneg_iff [of b t] by linarith
      then show ?thesis by (auto simp: m_def half_even_def tdiv Let_def)
    qed
    then have "ceil_div m (2 ^ s) = q + 1"
      using up by (intro ceil_div_eq) simp_all
    then have "js_ceil_div a b = q + 1"
      by (simp add: js_ceil_div_def ceil_div_def Let_def m_def [symmetric] s_def [symmetric])
    moreover have "ceil_div a b = q + 1"
      by (rule ceil_div_eq) (use b qr False in \<open>auto simp: algebra_simps\<close>)
    ultimately show ?thesis by simp
  qed
qed

lemma ceil_div_bounds:
  assumes "0 < b"
  shows "(ceil_div a b - 1) * b < a" and "a \<le> ceil_div a b * b"
proof -
  define x y where "x = (- a) div b * b" and "y = (- a) mod b"
  have d: "x + y = - a" and m: "0 \<le> y" "y < b"
    using assms by (simp_all add: x_def y_def)
  have e: "ceil_div a b * b = - x" by (simp add: ceil_div_def x_def)
  show "a \<le> ceil_div a b * b" using d m(1) unfolding e by linarith
  have "(ceil_div a b - 1) * b = - x - b" using e by (simp add: left_diff_distrib)
  then show "(ceil_div a b - 1) * b < a" using d m(2) by linarith
qed

lemma ceil_div_pos: "0 < a \<Longrightarrow> 0 < b \<Longrightarrow> 1 \<le> ceil_div a b"
  using ceil_div_bounds(2) [of b a] by (smt (verit) mult_nonneg_nonneg mult_minus_left)

end
