(* ===== verification/CalendarDates.thy ===== *)
theory CalendarDates
  imports JsNumber
begin

text \<open>
  The calendar of the language's \<open>Date\<close> objects, as far as the program uses it: day numbers since
  1970-01-01 in the proleptic Gregorian calendar (\<open>day_from_year\<close> and \<open>make_day\<close> are the
  definitions of the language standard), their inverse \<open>civil\<close>, and \<open>Date.UTC\<close> with its rule
  that a year 0..99 means 1900..1999. A time value outside \<open>8.64e15\<close> milliseconds is an invalid
  date, here \<open>None\<close>.
\<close>

definition is_leap :: "int \<Rightarrow> bool" where
  "is_leap y \<longleftrightarrow> y mod 4 = 0 \<and> (y mod 100 \<noteq> 0 \<or> y mod 400 = 0)"

definition day_from_year :: "int \<Rightarrow> int" where
  "day_from_year y =
     365 * (y - 1970) + (y - 1969) div 4 - (y - 1901) div 100 + (y - 1601) div 400"

text \<open>Days of the year before month \<open>m\<close>, months counted from 0.\<close>

definition before_month :: "bool \<Rightarrow> int \<Rightarrow> int" where
  "before_month leap m =
     (let l = (if leap then 1 else 0) in
      if m \<le> 0 then 0 else if m = 1 then 31 else if m = 2 then 59 + l
      else if m = 3 then 90 + l else if m = 4 then 120 + l else if m = 5 then 151 + l
      else if m = 6 then 181 + l else if m = 7 then 212 + l else if m = 8 then 243 + l
      else if m = 9 then 273 + l else if m = 10 then 304 + l else if m = 11 then 334 + l
      else 365 + l)"

definition days_in_month :: "int \<Rightarrow> int \<Rightarrow> int" where
  "days_in_month y m =
     before_month (is_leap y) m - before_month (is_leap y) (m - 1)"

definition make_day :: "int \<Rightarrow> int \<Rightarrow> int \<Rightarrow> int" where
  "make_day y m d =
     (let ym = y + m div 12; mn = m mod 12
      in day_from_year ym + before_month (is_leap ym) mn + d - 1)"

definition year_of_day :: "int \<Rightarrow> int" where
  "year_of_day n =
     (let g = 1970 + (400 * n) div 146097
      in if n < day_from_year g then g - 1
         else if day_from_year (g + 1) \<le> n then g + 1 else g)"

text \<open>The month (from 0) of a day of the year (from 0).\<close>

definition month_of :: "bool \<Rightarrow> int \<Rightarrow> int" where
  "month_of leap d =
     (let l = (if leap then 1 else 0) in
      if d < 31 then 0 else if d < 59 + l then 1 else if d < 90 + l then 2
      else if d < 120 + l then 3 else if d < 151 + l then 4 else if d < 181 + l then 5
      else if d < 212 + l then 6 else if d < 243 + l then 7 else if d < 273 + l then 8
      else if d < 304 + l then 9 else if d < 334 + l then 10 else 11)"

text \<open>A day number read back as year, month (1..12) and day of the month.\<close>

definition civil :: "int \<Rightarrow> int \<times> int \<times> int" where
  "civil n =
     (let y = year_of_day n; d = n - day_from_year y; m = month_of (is_leap y) d
      in (y, m + 1, d - before_month (is_leap y) m + 1))"

definition ms_per_day :: int where "ms_per_day = 86400000"

definition max_time :: int where "max_time = 8640000000000000"

definition time_clip :: "int \<Rightarrow> int option" where
  "time_clip t = (if \<bar>t\<bar> \<le> max_time then Some t else None)"

definition utc_year :: "int \<Rightarrow> int" where
  "utc_year y = (if 0 \<le> y \<and> y \<le> 99 then 1900 + y else y)"

text \<open>\<open>Date.UTC(y, m, d)\<close> with \<open>m\<close> from 0, and the fields read from a time value.\<close>

definition date_utc :: "int \<Rightarrow> int \<Rightarrow> int \<Rightarrow> int option" where
  "date_utc y m d = time_clip (make_day (utc_year y) m d * ms_per_day)"

definition utc_fields :: "int \<Rightarrow> int \<times> int \<times> int" where
  "utc_fields t = civil (t div ms_per_day)"

section \<open>Years\<close>

lemma div_Suc_int:
  fixes x n :: int
  assumes "0 < n"
  shows "(x + 1) div n = x div n + (if n dvd x + 1 then 1 else 0)"
proof -
  define q r where "q = x div n" and "r = x mod n"
  have x: "x = n * q + r" "0 \<le> r" "r < n" using assms by (simp_all add: q_def r_def)
  show ?thesis
  proof (cases "r = n - 1")
    case True
    have "(x + 1) div n = q + 1"
      by (rule int_div_pos_eq [where r = 0]) (use x True assms in \<open>auto simp: algebra_simps\<close>)
    moreover have "n dvd x + 1" using x True by simp
    ultimately show ?thesis by (simp add: q_def)
  next
    case False
    have "(x + 1) div n = q" "(x + 1) mod n = r + 1"
      using x False assms
      by (auto intro!: int_div_pos_eq [where r = "r + 1"] int_mod_pos_eq [where q = q])
    then show ?thesis using x(2) by (simp add: dvd_eq_mod_eq_0 q_def)
  qed
qed

lemma dvd_shift: "n dvd k \<Longrightarrow> n dvd y - k \<longleftrightarrow> n dvd (y :: int)"
  by (metis diff_add_cancel dvd_add_left_iff)

lemma div_bounds: "0 < n \<Longrightarrow> n * (x div n) \<le> x \<and> (x :: int) < n * (x div n) + n"
  by (simp add: minus_mod_eq_mult_div [symmetric])

lemma day_from_year_Suc: "day_from_year (y + 1) = day_from_year y + (if is_leap y then 366 else 365)"
proof -
  have a: "(y - 1968) div 4 = (y - 1969) div 4 + (if 4 dvd y then 1 else 0)"
    using div_Suc_int [of 4 "y - 1969"] by (simp add: dvd_shift)
  have b: "(y - 1900) div 100 = (y - 1901) div 100 + (if 100 dvd y then 1 else 0)"
    using div_Suc_int [of 100 "y - 1901"] by (simp add: dvd_shift)
  have c: "(y - 1600) div 400 = (y - 1601) div 400 + (if 400 dvd y then 1 else 0)"
    using div_Suc_int [of 400 "y - 1601"] by (simp add: dvd_shift)
  have d: "100 dvd y \<Longrightarrow> 4 dvd y" "400 dvd y \<Longrightarrow> 100 dvd y"
    by (auto elim: dvd_trans [rotated])
  have l: "is_leap y \<longleftrightarrow> 4 dvd y \<and> (\<not> 100 dvd y \<or> 400 dvd y)"
    by (simp only: is_leap_def dvd_eq_mod_eq_0)
  have e: "y + 1 - 1969 = y - 1968" "y + 1 - 1901 = y - 1900" "y + 1 - 1601 = y - 1600"
    by simp_all
  define p q r where "p = (y - 1969) div 4" and "q = (y - 1901) div 100"
    and "r = (y - 1601) div 400"
  have y: "day_from_year y = 365 * (y - 1970) + p - q + r"
    by (simp only: day_from_year_def p_def q_def r_def)
  have y1: "day_from_year (y + 1) = 365 * (y + 1 - 1970) + (p + (if 4 dvd y then 1 else 0))
      - (q + (if 100 dvd y then 1 else 0)) + (r + (if 400 dvd y then 1 else 0))"
    by (simp only: day_from_year_def e a b c p_def q_def r_def)
  consider "\<not> 4 dvd y" "\<not> 100 dvd y" "\<not> 400 dvd y" | "4 dvd y" "\<not> 100 dvd y" "\<not> 400 dvd y"
    | "4 dvd y" "100 dvd y" "\<not> 400 dvd y" | "4 dvd y" "100 dvd y" "400 dvd y"
    using d by blast
  then show ?thesis unfolding l y y1 by cases simp_all
qed

lemma day_from_year_step_pos: "day_from_year y < day_from_year (y + 1)"
  by (simp add: day_from_year_Suc)

lemma day_from_year_mono: "y \<le> z \<Longrightarrow> day_from_year y \<le> day_from_year z"
proof (induction z rule: int_ge_induct)
  case base
  then show ?case by simp
next
  case (step i)
  then show ?case using day_from_year_step_pos [of i] by linarith
qed

lemma year_unique:
  assumes "day_from_year y \<le> n" "n < day_from_year (y + 1)"
    and "day_from_year z \<le> n" "n < day_from_year (z + 1)"
  shows "y = z"
proof (rule ccontr)
  assume "y \<noteq> z"
  then consider "y + 1 \<le> z" | "z + 1 \<le> y" by linarith
  then show False
    using assms day_from_year_mono [of "y + 1" z] day_from_year_mono [of "z + 1" y]
    by cases linarith+
qed

lemma year_of_day_bounds:
  "day_from_year (year_of_day n) \<le> n \<and> n < day_from_year (year_of_day n + 1)"
proof -
  define g where "g = 1970 + (400 * n) div 146097"
  have g: "146097 * (g - 1970) \<le> 400 * n" "400 * n < 146097 * (g - 1969)"
    using div_bounds [of 146097 "400 * n"] unfolding g_def by simp_all
  have lo: "day_from_year (g - 1) \<le> n"
    using g div_bounds [of 4 "g - 1970"] div_bounds [of 100 "g - 1902"]
      div_bounds [of 400 "g - 1602"]
    unfolding day_from_year_def by simp
  have hi: "n < day_from_year (g + 2)"
    using g div_bounds [of 4 "g - 1967"] div_bounds [of 100 "g - 1899"]
      div_bounds [of 400 "g - 1599"]
    unfolding day_from_year_def by simp
  show ?thesis
    using lo hi unfolding year_of_day_def Let_def g_def [symmetric]
    by (auto simp: add.commute)
qed

section \<open>Months and days\<close>

lemma month_index:
  fixes m :: int
  assumes "0 \<le> m" "m \<le> 11"
  shows "m \<in> {0, 1, 2, 3, 4, 5, 6, 7, 8, 9, 10, 11}"
  using assms unfolding insert_iff empty_iff by presburger

lemma month_of_bounds:
  assumes "0 \<le> d" and "d < (if leap then 366 else 365)"
  shows "0 \<le> month_of leap d \<and> month_of leap d \<le> 11 \<and>
    before_month leap (month_of leap d) \<le> d \<and> d < before_month leap (month_of leap d + 1)"
  using assms by (auto simp: month_of_def before_month_def Let_def)

lemma month_of_unique:
  assumes "0 \<le> m" "m \<le> 11" and "before_month leap m \<le> d" "d < before_month leap (m + 1)"
  shows "month_of leap d = m"
proof -
  from month_index [OF assms(1,2)] show ?thesis using assms(3,4)
    by (cases leap; elim insertE emptyE) (simp_all add: month_of_def before_month_def Let_def)
qed

lemma before_month_range:
  assumes "0 \<le> m" "m \<le> 11"
  shows "0 \<le> before_month leap m \<and>
    before_month leap m < before_month leap (m + 1) \<and>
    before_month leap (m + 1) \<le> (if leap then 366 else 365)"
proof -
  from month_index [OF assms] show ?thesis by (elim insertE emptyE) (auto simp: before_month_def Let_def)
qed

lemma days_in_month_range:
  assumes "1 \<le> m" "m \<le> 12"
  shows "28 \<le> days_in_month y m \<and> days_in_month y m \<le> 31"
proof -
  define k where "k = m - 1"
  have "k \<in> {0, 1, 2, 3, 4, 5, 6, 7, 8, 9, 10, 11}" "m = k + 1"
    using month_index [of k] assms by (auto simp: k_def)
  then show ?thesis
    by (elim insertE emptyE) (auto simp: days_in_month_def before_month_def Let_def)
qed

definition valid_civil :: "int \<Rightarrow> int \<Rightarrow> int \<Rightarrow> bool" where
  "valid_civil y m d \<longleftrightarrow> 1 \<le> m \<and> m \<le> 12 \<and> 1 \<le> d \<and> d \<le> days_in_month y m"

lemma make_day_civil:
  "1 \<le> m \<Longrightarrow> m \<le> 12 \<Longrightarrow>
    make_day y (m - 1) d = day_from_year y + before_month (is_leap y) (m - 1) + d - 1"
  by (simp add: make_day_def)

lemma civil_make_day:
  assumes "valid_civil y m d"
  shows "civil (make_day y (m - 1) d) = (y, m, d)"
proof -
  let ?l = "is_leap y"
  let ?n = "make_day y (m - 1) d"
  have m: "1 \<le> m" "m \<le> 12" and d: "1 \<le> d" "d \<le> days_in_month y m"
    using assms by (auto simp: valid_civil_def)
  have n: "?n = day_from_year y + before_month ?l (m - 1) + d - 1"
    using make_day_civil m by simp
  have r: "0 \<le> before_month ?l (m - 1)" "before_month ?l m \<le> (if ?l then 366 else 365)"
    using before_month_range [of "m - 1" ?l] m by auto
  have d2: "before_month ?l (m - 1) + d - 1 < before_month ?l m"
    using d(2) by (simp add: days_in_month_def)
  have "day_from_year y \<le> ?n" "?n < day_from_year (y + 1)"
    using n r d d2 by (auto simp: day_from_year_Suc split: if_splits)
  then have y: "year_of_day ?n = y"
    using year_unique year_of_day_bounds by blast
  have "month_of ?l (?n - day_from_year y) = m - 1"
    by (rule month_of_unique) (use m d n d2 in auto)
  with y show ?thesis unfolding civil_def Let_def by (simp add: n)
qed

lemma civil_valid:
  assumes "civil n = (y, m, d)"
  shows "valid_civil y m d" and "make_day y (m - 1) d = n"
proof -
  let ?y = "year_of_day n"
  let ?d = "n - day_from_year ?y"
  let ?m = "month_of (is_leap ?y) ?d"
  have e: "y = ?y" "m = ?m + 1" "d = ?d - before_month (is_leap ?y) ?m + 1"
    using assms by (auto simp: civil_def Let_def)
  have b: "0 \<le> ?d" "?d < (if is_leap ?y then 366 else 365)"
    using year_of_day_bounds [of n] by (auto simp: day_from_year_Suc split: if_splits)
  note mb = month_of_bounds [OF b]
  show v: "valid_civil y m d"
    using mb unfolding valid_civil_def e days_in_month_def by auto
  show "make_day y (m - 1) d = n"
    using make_day_civil [of m y d] v by (simp add: valid_civil_def e)
qed

lemma make_day_shift: "make_day y m d + k = make_day y m (d + k)"
  by (simp add: make_day_def Let_def)

lemma make_day_month_mono:
  assumes "1 \<le> m" "m \<le> 12" "1 \<le> d" "d \<le> days_in_month y m"
  shows "day_from_year y \<le> make_day y (m - 1) d \<and> make_day y (m - 1) d < day_from_year (y + 1)"
  using assms before_month_range [of "m - 1" "is_leap y"]
  by (auto simp: make_day_civil days_in_month_def day_from_year_Suc split: if_splits)

text \<open>The last day of a month, as the code reads it: day 0 of the month after.\<close>

lemma civil_last_day:
  assumes "0 \<le> m" "m \<le> 11"
  shows "civil (make_day y (m + 1) 0) = (y, m + 1, days_in_month y (m + 1))"
proof -
  have dim: "1 \<le> days_in_month y (m + 1)" using days_in_month_range [of "m + 1" y] assms by auto
  have v: "valid_civil y (m + 1) (days_in_month y (m + 1))"
    using assms dim by (simp add: valid_civil_def)
  have "make_day y (m + 1) 0 = make_day y m (days_in_month y (m + 1))"
  proof (cases "m = 11")
    case True
    have e: "(12::int) div 12 = 1" "(12::int) mod 12 = 0" by simp_all
    show ?thesis unfolding True
      by (simp add: make_day_def Let_def days_in_month_def before_month_def day_from_year_Suc)
  next
    case False
    then show ?thesis using assms by (simp add: make_day_def Let_def days_in_month_def)
  qed
  then show ?thesis using civil_make_day [OF v] by simp
qed

section \<open>Time values in range\<close>

lemma utc_fields_day [simp]: "utc_fields (n * ms_per_day) = civil n"
  by (simp add: utc_fields_def ms_per_day_def)

lemma day_from_year_range:
  assumes "100 \<le> y" and "y \<le> 200000"
  shows "- 690000 < day_from_year y" and "day_from_year y < 72400000"
  using assms div_bounds [of 4 "y - 1969"] div_bounds [of 100 "y - 1901"]
    div_bounds [of 400 "y - 1601"]
  unfolding day_from_year_def by simp_all

lemma date_utc_in_range:
  assumes "100 \<le> y" and "\<bar>make_day y m d\<bar> \<le> 100000000"
  shows "date_utc y m d = Some (make_day y m d * ms_per_day)"
proof -
  have "\<bar>make_day y m d * ms_per_day\<bar> \<le> max_time"
    using assms(2) by (simp add: ms_per_day_def max_time_def abs_mult)
  then show ?thesis using assms(1) by (simp add: date_utc_def utc_year_def time_clip_def)
qed

lemma make_day_range:
  assumes "100 \<le> y" "y \<le> 200000" "0 \<le> m" "m \<le> 11" "\<bar>d\<bar> \<le> 1000000"
  shows "\<bar>make_day y m d\<bar> \<le> 75000000"
  using assms day_from_year_range [of y] before_month_range [of m "is_leap y"]
  by (auto simp: make_day_def split: if_splits)

end
