(* ===== verification/Schedule.thy ===== *)
theory Schedule
  imports CalendarDates Errors
begin

text \<open>
  The payment schedule of an agreement (\<open>src/lib/agreements/schedule.ts\<close>): ISO dates read and
  written, the next due dates, and \<open>compute_schedule\<close>, which divides the balance after the first
  payment into installments and puts the remainder into the last one. \<open>Date.parse\<close> is the
  engine's: a month 1..12 and a day 1..31 are accepted, whatever the month's length.
\<close>

datatype payment_frequency = Weekly | Biweekly | Monthly

record schedule_input =
  currentPrincipal :: int
  firstPayment :: int
  installmentAmount :: int
  frequency :: payment_frequency
  firstPaymentDate :: string

record schedule_item =
  sequenceNumber :: int
  dueDate :: string
  itemAmount :: int

record computed_schedule =
  items :: "schedule_item list"
  finalPayment :: int
  numberOfInstallments :: int

section \<open>ISO dates\<close>

definition is_digit :: "char \<Rightarrow> bool" where
  "is_digit c \<longleftrightarrow> c \<in> set ''0123456789''"

definition digits :: string where
  "digits = ''0123456789''"

definition digit_val :: "char \<Rightarrow> int" where
  "digit_val c = int (length (takeWhile (\<lambda>x. x \<noteq> c) digits))"

definition number_of :: "string \<Rightarrow> int" where
  "number_of s = foldl (\<lambda>n c. 10 * n + digit_val c) 0 s"

fun iso_pattern :: "string \<Rightarrow> bool" where
  "iso_pattern [a, b, c, d, x, e, f, y, g, h] \<longleftrightarrow>
     list_all is_digit [a, b, c, d, e, f, g, h] \<and> x = CHR ''-'' \<and> y = CHR ''-''"
| "iso_pattern _ \<longleftrightarrow> False"

definition iso_fields :: "string \<Rightarrow> int \<times> int \<times> int" where
  "iso_fields s =
     (number_of (take 4 s), number_of (take 2 (drop 5 s)), number_of (take 2 (drop 8 s)))"

definition parse_iso_date :: "string \<Rightarrow> error + (int \<times> int \<times> int)" where
  "parse_iso_date s =
     (if \<not> iso_pattern s then Inl (ValidationError ''firstPaymentDate'')
      else (case iso_fields s of (y, m, d) \<Rightarrow>
        if 1 \<le> m \<and> m \<le> 12 \<and> 1 \<le> d \<and> d \<le> 31 then Inr (y, m, d)
        else Inl (ValidationError ''firstPaymentDate'')))"

definition digit_char :: "int \<Rightarrow> char" where
  "digit_char n = digits ! nat n"

text \<open>The decimal digits of a non-negative number.\<close>

function show_digits :: "int \<Rightarrow> string" where
  "show_digits n = (if n < 10 then [digit_char n] else show_digits (n div 10) @ [digit_char (n mod 10)])"
  by pat_completeness auto
termination
  by (relation "measure nat") auto

declare show_digits.simps [simp del]

definition show_int :: "int \<Rightarrow> string" where
  "show_int n = (if n < 0 then CHR ''-'' # show_digits (- n) else show_digits n)"

definition pad_start :: "nat \<Rightarrow> string \<Rightarrow> string" where
  "pad_start k s = replicate (k - length s) (CHR ''0'') @ s"

text \<open>The day is absent where the date object is invalid (\<open>NaN\<close>).\<close>

definition format_iso_date :: "int \<Rightarrow> int \<Rightarrow> int option \<Rightarrow> string" where
  "format_iso_date y m d =
     pad_start 4 (show_int y) @ ''-'' @ pad_start 2 (show_int m) @ ''-'' @
     (case d of Some d \<Rightarrow> pad_start 2 (show_int d) | None \<Rightarrow> ''NaN'')"

definition today_iso :: "msec \<Rightarrow> string" where
  "today_iso now =
     (case utc_fields now of (y, m, d) \<Rightarrow>
        take 10 ((if 0 \<le> y \<and> y \<le> 9999 then pad_start 4 (show_int y)
                  else (if y < 0 then ''-'' else ''+'') @ pad_start 6 (show_int \<bar>y\<bar>))
                 @ ''-'' @ pad_start 2 (show_int m) @ ''-'' @ pad_start 2 (show_int d)))"

text \<open>An invalid due date (not a time value) compares as not past.\<close>

definition is_past_date :: "string \<Rightarrow> msec \<Rightarrow> error + bool" where
  "is_past_date isoDate now =
     bindE (parse_iso_date isoDate) (\<lambda>(y, m, d).
     bindE (parse_iso_date (today_iso now)) (\<lambda>(ty, tm, td).
       Inr (case (date_utc y (m - 1) d, date_utc ty (tm - 1) td) of
              (Some due, Some today) \<Rightarrow> due < today
            | _ \<Rightarrow> False)))"

definition add_frequency_interval ::
    "string \<Rightarrow> payment_frequency \<Rightarrow> int \<Rightarrow> error + string" where
  "add_frequency_interval isoDate freq k =
     bindE (parse_iso_date isoDate) (\<lambda>(year, month, day).
       if freq = Weekly \<or> freq = Biweekly then
         (let daysToAdd = (if freq = Weekly then 7 else 14) * k in
          Inr (case Option.bind (date_utc year (month - 1) day)
                      (\<lambda>base. time_clip (base + daysToAdd * 24 * 60 * 60 * 1000)) of
                 None \<Rightarrow> ''0NaN-NaN-NaN''
               | Some t \<Rightarrow> (case utc_fields t of (y, m, d) \<Rightarrow> format_iso_date y m (Some d))))
       else
         (let targetMonthIndex = (month - 1) + k;
              targetYear = year + targetMonthIndex div 12;
              targetMonth = targetMonthIndex mod 12;
              daysInTargetMonth =
                map_option (\<lambda>t. snd (snd (utc_fields t))) (date_utc targetYear (targetMonth + 1) 0)
          in Inr (format_iso_date targetYear (targetMonth + 1)
                    (map_option (min day) daysInTargetMonth))))"

section \<open>The schedule\<close>

fun installments_from :: "schedule_input \<Rightarrow> int \<Rightarrow> nat \<Rightarrow> error + schedule_item list" where
  "installments_from inp seq 0 = Inr []"
| "installments_from inp seq (Suc n) =
     bindE (add_frequency_interval (firstPaymentDate inp) (frequency inp) seq) (\<lambda>d.
     bindE (installments_from inp (seq + 1) n) (\<lambda>rest.
       Inr (\<lparr>sequenceNumber = seq, dueDate = d, itemAmount = installmentAmount inp\<rparr> # rest)))"

definition compute_schedule :: "schedule_input \<Rightarrow> error + computed_schedule" where
  "compute_schedule inp =
     (if \<not> safe_int (currentPrincipal inp) \<or> currentPrincipal inp < 0 then
        Inl (ValidationError ''currentPrincipalMinorUnits'')
      else if \<not> safe_int (firstPayment inp) \<or> firstPayment inp < 0 then
        Inl (ValidationError ''firstPaymentMinorUnits'')
      else if currentPrincipal inp < firstPayment inp then
        Inl (ValidationError ''firstPaymentExceedsPrincipal'')
      else
        (let remaining = js_sub (currentPrincipal inp) (firstPayment inp);
             firstItem = \<lparr>sequenceNumber = 0, dueDate = firstPaymentDate inp,
                          itemAmount = firstPayment inp\<rparr>
         in if remaining = 0 then
              Inr \<lparr>items = [firstItem], finalPayment = firstPayment inp, numberOfInstallments = 0\<rparr>
            else if \<not> safe_int (installmentAmount inp) \<or> installmentAmount inp \<le> 0 then
              Inl (ValidationError ''installmentAmountMinorUnits'')
            else
              (let n = js_ceil_div remaining (installmentAmount inp) in
               bindE (installments_from inp 1 (nat (n - 1))) (\<lambda>later.
                 (let final = js_sub remaining (js_mul (installmentAmount inp) (js_sub n 1)) in
                  bindE (add_frequency_interval (firstPaymentDate inp) (frequency inp) n) (\<lambda>d.
                    Inr \<lparr>items = firstItem # later @
                             [\<lparr>sequenceNumber = n, dueDate = d, itemAmount = final\<rparr>],
                         finalPayment = final, numberOfInstallments = n\<rparr>))))))"


text \<open>A sample agreement: 650 in total, 100 first, then 300 each month from 31 January.\<close>

definition sample_input :: schedule_input where
  "sample_input = \<lparr>currentPrincipal = 650, firstPayment = 100, installmentAmount = 300,
     frequency = Monthly, firstPaymentDate = ''2026-01-31''\<rparr>"

definition sample_schedule :: computed_schedule where
  "sample_schedule = \<lparr>items = [\<lparr>sequenceNumber = 0, dueDate = ''2026-01-31'', itemAmount = 100\<rparr>,
       \<lparr>sequenceNumber = 1, dueDate = ''2026-02-28'', itemAmount = 300\<rparr>,
       \<lparr>sequenceNumber = 2, dueDate = ''2026-03-31'', itemAmount = 250\<rparr>],
     finalPayment = 250, numberOfInstallments = 2\<rparr>"

lemma compute_sample: "compute_schedule sample_input = Inr sample_schedule"
  by code_simp

section \<open>Amounts and sequence numbers\<close>

lemma installments_from_shape:
  "installments_from inp seq n = Inr xs \<Longrightarrow>
     length xs = n \<and> map itemAmount xs = replicate n (installmentAmount inp) \<and>
     map sequenceNumber xs = map (\<lambda>i. seq + int i) [0..<n] \<and>
     (\<forall>it \<in> set xs. add_frequency_interval (firstPaymentDate inp) (frequency inp)
        (sequenceNumber it) = Inr (dueDate it))"
proof (induction n arbitrary: seq xs)
  case 0
  then show ?case by simp
next
  case (Suc n)
  then obtain d rest where d: "add_frequency_interval (firstPaymentDate inp) (frequency inp) seq = Inr d"
    and r: "installments_from inp (seq + 1) n = Inr rest"
    and xs: "xs = \<lparr>sequenceNumber = seq, dueDate = d, itemAmount = installmentAmount inp\<rparr> # rest"
    by (auto simp: bindE_Inr_iff)
  have "map (\<lambda>i. seq + int i) [0..<Suc n] = seq # map (\<lambda>i. (seq + 1) + int i) [0..<n]"
    by (simp add: map_upt_Suc add.assoc del: upt_Suc)
  then show ?case using Suc.IH [OF r] by (simp add: xs d)
qed

lemma safe_remaining:
  assumes "safe_int p" "0 \<le> f" "f \<le> p"
  shows "js_sub p f = p - f" and "safe_int (p - f)"
  using assms by (auto simp: js_sub_def safe_int_def max_safe_def intro: js_int_exact)

lemma installment_count:
  assumes "safe_int r" "0 < r" "0 < a"
  shows "js_ceil_div r a = ceil_div r a" and "1 \<le> ceil_div r a"
    and "js_sub r (js_mul a (js_sub (ceil_div r a) 1)) = r - a * (ceil_div r a - 1)"
    and "0 < r - a * (ceil_div r a - 1)" and "r - a * (ceil_div r a - 1) \<le> a"
proof -
  let ?n = "ceil_div r a"
  have r: "r < 2 ^ 53" using assms(1) by (simp add: safe_int_def max_safe_def)
  show "js_ceil_div r a = ?n" by (rule js_ceil_div_exact [OF assms(2) r assms(3)])
  show n1: "1 \<le> ?n" by (rule ceil_div_pos [OF assms(2,3)])
  have lo: "a * (?n - 1) < r" and hi: "r \<le> a * ?n"
    using ceil_div_bounds [of a r] assms(3) by (simp_all add: mult.commute)
  show "0 < r - a * (?n - 1)" using lo by simp
  show "r - a * (?n - 1) \<le> a" using hi by (simp add: right_diff_distrib)
  have "?n - 1 \<le> a * (?n - 1)" using n1 assms(3) by (simp add: mult_le_cancel_right1)
  then have nr: "?n - 1 < r" using lo by linarith
  have s1: "safe_int (?n - 1)" using n1 nr assms(1) by (simp add: safe_int_def)
  have s2: "safe_int (a * (?n - 1))" using n1 lo assms by (simp add: safe_int_def)
  have s3: "safe_int (r - a * (?n - 1))"
  proof -
    have "0 \<le> a * (?n - 1)" using n1 assms(3) by simp
    then show ?thesis using lo assms(1) by (simp add: safe_int_def)
  qed
  show "js_sub r (js_mul a (js_sub ?n 1)) = r - a * (?n - 1)"
    by (simp add: js_sub_exact [OF s1] js_mul_exact [OF s2] js_sub_exact [OF s3])
qed

text \<open>What a computed schedule is, case by case; every property of the amounts comes from here.\<close>

lemma compute_schedule_cases:
  assumes "compute_schedule inp = Inr s"
  obtains (cleared) "firstPayment inp = currentPrincipal inp"
      "s = \<lparr>items = [\<lparr>sequenceNumber = 0, dueDate = firstPaymentDate inp,
                       itemAmount = firstPayment inp\<rparr>],
            finalPayment = firstPayment inp, numberOfInstallments = 0\<rparr>"
      "0 \<le> firstPayment inp"
  | (installments) r n later d where
      "r = currentPrincipal inp - firstPayment inp" "0 < r" "0 < installmentAmount inp"
      "safe_int r" "0 \<le> firstPayment inp" "n = ceil_div r (installmentAmount inp)"
      "installments_from inp 1 (nat (n - 1)) = Inr later"
      "add_frequency_interval (firstPaymentDate inp) (frequency inp) n = Inr d"
      "s = \<lparr>items = \<lparr>sequenceNumber = 0, dueDate = firstPaymentDate inp,
                      itemAmount = firstPayment inp\<rparr> # later @
                   [\<lparr>sequenceNumber = n, dueDate = d,
                     itemAmount = r - installmentAmount inp * (n - 1)\<rparr>],
            finalPayment = r - installmentAmount inp * (n - 1), numberOfInstallments = n\<rparr>"
proof -
  let ?p = "currentPrincipal inp" and ?f = "firstPayment inp" and ?a = "installmentAmount inp"
  have g: "safe_int ?p" "0 \<le> ?p" "0 \<le> ?f" "?f \<le> ?p"
    using assms by (auto simp: compute_schedule_def split: if_splits)
  note rem = safe_remaining [OF g(1,3,4)]
  show thesis
  proof (cases "?p = ?f")
    case True
    then show thesis using assms rem g cleared
      by (simp add: compute_schedule_def Let_def split: if_splits)
  next
    case False
    then have r0: "0 < ?p - ?f" using g by simp
    have a: "0 < ?a" using assms rem r0
      by (auto simp: compute_schedule_def Let_def split: if_splits)
    note ic = installment_count [OF rem(2) r0 a]
    from assms g r0 a False obtain later d where
      "installments_from inp 1 (nat (ceil_div (?p - ?f) ?a - 1)) = Inr later"
      "add_frequency_interval (firstPaymentDate inp) (frequency inp) (ceil_div (?p - ?f) ?a) = Inr d"
      "s = \<lparr>items = \<lparr>sequenceNumber = 0, dueDate = firstPaymentDate inp, itemAmount = ?f\<rparr> # later @
              [\<lparr>sequenceNumber = ceil_div (?p - ?f) ?a, dueDate = d,
                itemAmount = ?p - ?f - ?a * (ceil_div (?p - ?f) ?a - 1)\<rparr>],
            finalPayment = ?p - ?f - ?a * (ceil_div (?p - ?f) ?a - 1),
            numberOfInstallments = ceil_div (?p - ?f) ?a\<rparr>"
      by (auto simp: compute_schedule_def Let_def rem ic(1,3) bindE_Inr_iff split: if_splits)
    then show thesis by (intro installments) (use rem r0 a g in auto)
  qed
qed

text \<open>
  No money is lost or invented: the amounts of a computed schedule add up to the principal,
  exactly, for every amount the code accepts (although the code divides in floating point).
\<close>

theorem schedule_total:
  assumes "compute_schedule inp = Inr s"
  shows "sum_list (map itemAmount (items s)) = currentPrincipal inp"
  using assms
proof (cases rule: compute_schedule_cases)
  case cleared
  then show ?thesis by simp
next
  case (installments r n later d)
  have "1 \<le> n" using installments ceil_div_pos by simp
  moreover have "sum_list (map itemAmount later) = (n - 1) * installmentAmount inp"
    using installments_from_shape [OF installments(7)] \<open>1 \<le> n\<close>
    by (simp add: sum_list_replicate)
  ultimately show ?thesis using installments by (simp add: mult.commute)
qed

theorem schedule_total_witness:
  "sum_list (map itemAmount (items sample_schedule)) = currentPrincipal sample_input"
  by (rule schedule_total [OF compute_sample])

text \<open>
  The shape of a schedule: items are numbered 0, 1, ... without a gap, every installment but
  the last is exactly the agreed amount, and the last is positive and at most that amount.
\<close>

theorem schedule_shape:
  assumes "compute_schedule inp = Inr s"
  shows "map sequenceNumber (items s) = map int [0..<length (items s)] \<and>
    int (length (items s)) = numberOfInstallments s + 1 \<and>
    (numberOfInstallments s \<noteq> 0 \<longrightarrow>
       butlast (tl (map itemAmount (items s)))
         = replicate (nat (numberOfInstallments s - 1)) (installmentAmount inp) \<and>
       last (map itemAmount (items s)) = finalPayment s \<and>
       0 < finalPayment s \<and> finalPayment s \<le> installmentAmount inp)"
  using assms
proof (cases rule: compute_schedule_cases)
  case cleared
  then show ?thesis by simp
next
  case (installments r n later d)
  have n1: "1 \<le> n" using installments ceil_div_pos by simp
  note ic = installment_count [OF installments(4,2,3)]
  note sh = installments_from_shape [OF installments(7)]
  define k where "k = nat (n - 1)"
  have k: "n = int k + 1" using n1 by (simp add: k_def)
  have len: "length (items s) = Suc (Suc k)" using sh installments(9) by (simp add: k_def)
  have "[0..<Suc (Suc k)] = 0 # map Suc [0..<k] @ [Suc k]"
    by (simp add: map_Suc_upt upt_conv_Cons)
  then have "map int [0..<Suc (Suc k)] = 0 # map (\<lambda>i. 1 + int i) [0..<k] @ [n]"
    by (simp add: k del: upt_Suc)
  then show ?thesis using sh ic installments(6,9) k len by (simp add: k_def [symmetric] butlast_append)
qed

theorem schedule_shape_witness:
  "numberOfInstallments sample_schedule = 2 \<and> 0 < finalPayment sample_schedule \<and>
   finalPayment sample_schedule \<le> 300"
  using schedule_shape [OF compute_sample] by (simp add: sample_schedule_def sample_input_def)

section \<open>Dates of the schedule\<close>

lemma number_of_range:
  "list_all is_digit s \<Longrightarrow> 0 \<le> number_of s \<and> number_of s < 10 ^ length s"
proof (induction s rule: rev_induct)
  case Nil
  then show ?case by (simp add: number_of_def)
next
  case (snoc c s)
  have "length (takeWhile (\<lambda>x. x \<noteq> c) digits) < 10"
  proof -
    have "c \<in> set digits" using snoc.prems by (simp add: is_digit_def digits_def)
    then show ?thesis by (auto simp: digits_def)
  qed
  then have "0 \<le> digit_val c \<and> digit_val c < 10" by (simp add: digit_val_def)
  then show ?case using snoc by (simp add: number_of_def)
qed

lemma iso_pattern_digits:
  assumes "iso_pattern s"
  shows "list_all is_digit (take 4 s)" and "length (take 4 s) = 4"
  using assms by (cases s rule: iso_pattern.cases; simp)+

lemma parse_iso_date_range:
  assumes "parse_iso_date s = Inr (y, m, d)"
  shows "0 \<le> y" "y \<le> 9999" "1 \<le> m" "m \<le> 12" "1 \<le> d" "d \<le> 31"
proof -
  have p: "iso_pattern s" and f: "iso_fields s = (y, m, d)"
    and r: "1 \<le> m" "m \<le> 12" "1 \<le> d" "d \<le> 31"
    using assms by (auto simp: parse_iso_date_def split: if_splits prod.splits)
  show "1 \<le> m" "m \<le> 12" "1 \<le> d" "d \<le> 31" using r by simp_all
  have "y = number_of (take 4 s)" using f by (simp add: iso_fields_def)
  then show "0 \<le> y" "y \<le> 9999"
    using number_of_range [OF iso_pattern_digits(1) [OF p]] iso_pattern_digits(2) [OF p] by simp_all
qed

lemma digit_char_val:
  assumes "0 \<le> n" "n < 10"
  shows "digit_val (digit_char n) = n" and "is_digit (digit_char n)"
proof -
  have "n \<in> {0, 1, 2, 3, 4, 5, 6, 7, 8, 9}"
    using assms unfolding insert_iff empty_iff by presburger
  then show "digit_val (digit_char n) = n" and "is_digit (digit_char n)"
    by (elim insertE emptyE; simp add: digit_val_def digit_char_def digits_def is_digit_def)+
qed

lemma pad_two:
  assumes "0 \<le> n" "n < 100"
  shows "pad_start 2 (show_int n) = [digit_char (n div 10), digit_char (n mod 10)]"
proof (cases "n < 10")
  case True
  then show ?thesis using assms
    by (simp add: show_int_def show_digits.simps [of n] pad_start_def digit_char_def digits_def)
next
  case False
  then have "n div 10 < 10" using assms by simp
  then show ?thesis using assms False
    by (simp add: show_int_def show_digits.simps [of n] show_digits.simps [of "n div 10"] pad_start_def)
qed

lemma pad_four:
  assumes "0 \<le> n" "n < 10000"
  shows "pad_start 4 (show_int n) = [digit_char (n div 1000), digit_char (n div 100 mod 10),
    digit_char (n div 10 mod 10), digit_char (n mod 10)]"
proof -
  have z: "digit_char 0 = CHR ''0''" by (simp add: digit_char_def digits_def)
  have d: "n div 10 div 10 = n div 100" "n div 100 div 10 = n div 1000"
    by (simp_all add: zdiv_zmult2_eq [symmetric])
  consider "n < 10" | "10 \<le> n" "n < 100" | "100 \<le> n" "n < 1000" | "1000 \<le> n" by linarith
  then show ?thesis
  proof cases
    case 1
    then show ?thesis using assms z
      by (simp add: show_int_def show_digits.simps [of n] pad_start_def numeral_eq_Suc)
  next
    case 2
    then have "n div 10 < 10" "n div 100 = 0" "n div 1000 = 0" by simp_all
    then show ?thesis using assms 2 z
      by (simp add: show_int_def show_digits.simps [of n] show_digits.simps [of "n div 10"]
          pad_start_def numeral_eq_Suc)
  next
    case 3
    then have "\<not> n div 10 < 10" "n div 100 < 10" "n div 1000 = 0" by simp_all
    then show ?thesis using assms 3 z d
      by (simp add: show_int_def show_digits.simps [of n] show_digits.simps [of "n div 10"]
          show_digits.simps [of "n div 100"] pad_start_def)
  next
    case 4
    then have "\<not> n div 10 < 10" "\<not> n div 100 < 10" "n div 1000 < 10" using assms by simp_all
    then show ?thesis using assms 4 d
      by (simp add: show_int_def show_digits.simps [of n] show_digits.simps [of "n div 10"]
          show_digits.simps [of "n div 100"] show_digits.simps [of "n div 1000"] pad_start_def)
  qed
qed

text \<open>
  C35. Reading what was written: every date of a year 0..9999 that \<open>formatIsoDate\<close> writes is parsed
  back to the same year, month and day.
\<close>

theorem parse_format_roundtrip:
  assumes "0 \<le> y" "y \<le> 9999" "1 \<le> m" "m \<le> 12" "1 \<le> d" "d \<le> 31"
  shows "parse_iso_date (format_iso_date y m (Some d)) = Inr (y, m, d)"
proof -
  let ?c = digit_char
  have s: "format_iso_date y m (Some d) = [?c (y div 1000), ?c (y div 100 mod 10), ?c (y div 10 mod 10),
      ?c (y mod 10), CHR ''-'', ?c (m div 10), ?c (m mod 10), CHR ''-'', ?c (d div 10), ?c (d mod 10)]"
    using assms by (simp add: format_iso_date_def pad_two pad_four)
  have r: "0 \<le> y div 1000" "y div 1000 < 10" "0 \<le> m div 10" "m div 10 < 10" "0 \<le> d div 10"
    "d div 10 < 10" using assms by simp_all
  have v: "10 * (10 * (10 * (y div 1000) + y div 100 mod 10) + y div 10 mod 10) + y mod 10 = y"
  proof -
    have d: "y div 10 div 10 = y div 100" "y div 100 div 10 = y div 1000"
      by (simp_all add: zdiv_zmult2_eq [symmetric])
    have "y = 10 * (y div 10) + y mod 10" "y div 10 = 10 * (y div 100) + y div 10 mod 10"
      "y div 100 = 10 * (y div 1000) + y div 100 mod 10"
      using mult_div_mod_eq [of 10 y] mult_div_mod_eq [of 10 "y div 10"]
        mult_div_mod_eq [of 10 "y div 100"] unfolding d by simp_all
    then show ?thesis by metis
  qed
  show ?thesis
    using assms r v by (simp add: s parse_iso_date_def iso_fields_def number_of_def digit_char_val)
qed

theorem parse_format_roundtrip_witness:
  "parse_iso_date (format_iso_date 2028 2 (Some 29)) = Inr (2028, 2, 29)"
  by (rule parse_format_roundtrip) simp_all

text \<open>
  Monthly due dates: the date \<open>k\<close> months after the first payment lies exactly \<open>k\<close> months later
  and keeps its day of the month, or takes the last day of a shorter month; it is never carried
  over into the month after. (The bound keeps the year to four digits; below year 100 the
  language's two-digit-year rule interferes, as the first finding of the manifest describes.)
\<close>

theorem monthly_due_date:
  assumes "parse_iso_date s = Inr (y, m, d)" and "100 \<le> y" and "0 \<le> k" and "k \<le> 100000"
    and "y' = y + (m - 1 + k) div 12" and "m' = (m - 1 + k) mod 12 + 1"
  shows "add_frequency_interval s Monthly k
      = Inr (format_iso_date y' m' (Some (min d (days_in_month y' m')))) \<and>
    12 * y' + m' = 12 * y + m + k \<and> valid_civil y' m' (min d (days_in_month y' m'))"
proof -
  note r = parse_iso_date_range [OF assms(1)]
  let ?i = "m - 1 + k"
  have m': "1 \<le> m'" "m' \<le> 12" unfolding assms(6) by (simp_all add: add1_zle_eq flip: zle_add1_eq_le)
  have i: "0 \<le> ?i" "?i \<le> 100011" using r assms by simp_all
  have y': "100 \<le> y'" "y' \<le> 200000"
    using i r assms(2) div_bounds [of 12 ?i] unfolding assms(5) by linarith+
  have "\<bar>make_day y' (m' - 1) (days_in_month y' m')\<bar> \<le> 75000000"
    using y' m' days_in_month_range [of m' y'] by (intro make_day_range) auto
  moreover have c: "civil (make_day y' m' 0) = (y', m', days_in_month y' m')"
    using civil_last_day [of "m' - 1" y'] m' by simp
  moreover have "make_day y' m' 0 = make_day y' (m' - 1) (days_in_month y' m')"
    using civil_valid(2) [OF c] by simp
  ultimately have u: "date_utc y' m' 0 = Some (make_day y' m' 0 * ms_per_day)"
    using y' by (intro date_utc_in_range) simp_all
  have "add_frequency_interval s Monthly k
      = Inr (format_iso_date y' m' (Some (min d (days_in_month y' m'))))"
    using assms(1) u c by (simp add: add_frequency_interval_def assms(5,6) [symmetric] Let_def)
  moreover have "12 * y' + m' = 12 * y + m + k"
    unfolding assms(5,6) using mult_div_mod_eq [of 12 ?i] by simp
  moreover have "valid_civil y' m' (min d (days_in_month y' m'))"
    using m' r days_in_month_range [of m' y'] by (simp add: valid_civil_def)
  ultimately show ?thesis by blast
qed

theorem monthly_due_date_witness:
  "add_frequency_interval ''2027-12-31'' Monthly 2 = Inr (format_iso_date 2028 2 (Some 29))"
proof -
  have "parse_iso_date ''2027-12-31'' = Inr (2027, 12, 31)" by code_simp
  from monthly_due_date [OF this, of 2 2028 2] show ?thesis
    by (simp add: days_in_month_def before_month_def is_leap_def)
qed

text \<open>
  Weekly and biweekly due dates: the \<open>k\<close>-th date is the calendar date exactly \<open>7 k\<close> (or
  \<open>14 k\<close>) days after the first payment.
\<close>

theorem weekly_due_date:
  assumes "parse_iso_date s = Inr (y, m, d)" and "100 \<le> y" and "0 \<le> k" and "k \<le> 100000"
    and "freq \<noteq> Monthly" and "step = (if freq = Weekly then 7 else 14)"
    and "civil (make_day y (m - 1) d + step * k) = (y', m', d')"
  shows "add_frequency_interval s freq k = Inr (format_iso_date y' m' (Some d')) \<and>
    make_day y' (m' - 1) d' = make_day y (m - 1) d + step * k"
proof -
  note r = parse_iso_date_range [OF assms(1)]
  let ?n = "make_day y (m - 1) d"
  have n: "\<bar>?n\<bar> \<le> 75000000" using r assms(2) by (intro make_day_range) auto
  have b: "date_utc y (m - 1) d = Some (?n * ms_per_day)"
    using assms(2) n by (intro date_utc_in_range) simp_all
  have st: "0 \<le> step * k" "step * k \<le> 1400000" using assms(3,4,6) by auto
  have "\<bar>?n + step * k\<bar> \<le> 100000000" using n st by linarith
  then have "\<bar>(?n + step * k) * ms_per_day\<bar> \<le> max_time"
    by (simp add: abs_mult ms_per_day_def max_time_def)
  then have "time_clip (?n * ms_per_day + step * k * 24 * 60 * 60 * 1000)
      = Some ((?n + step * k) * ms_per_day)"
    by (simp add: time_clip_def ms_per_day_def algebra_simps)
  moreover have "freq = Weekly \<or> freq = Biweekly" using assms(5) by (cases freq) auto
  ultimately have "add_frequency_interval s freq k = Inr (format_iso_date y' m' (Some d'))"
    using assms(1,7) b by (simp add: add_frequency_interval_def assms(6) [symmetric] Let_def)
  then show ?thesis using civil_valid(2) [OF assms(7)] by blast
qed

theorem weekly_due_date_witness:
  "add_frequency_interval ''2026-12-25'' Biweekly 1 = Inr (format_iso_date 2027 1 (Some 8))"
proof -
  have "parse_iso_date ''2026-12-25'' = Inr (2026, 12, 25)" by code_simp
  moreover have "civil (make_day 2026 (12 - 1) 25 + 14 * 1) = (2027, 1, 8)" by code_simp
  ultimately show ?thesis
    using weekly_due_date [of "''2026-12-25''" 2026 12 25 1 Biweekly 14 2027 1 8] by simp
qed

end
