(* ===== verification/AuditTrail.thy ===== *)
theory AuditTrail
  imports Schedule
begin

text \<open>
  The append-only, hash-chained audit trail (\<open>src/lib/audit\<close>): \<open>canonicalize\<close> and
  \<open>compute_audit_event_hash\<close> of \<open>hash.ts\<close>, \<open>append_audit_event\<close> of the repository, which runs
  under the chain's advisory lock and is therefore one atomic step, and \<open>AuditService.record\<close>.
  SHA-256 is the parameter \<open>sha256\<close> of the environment \<open>env\<close>, next to the secret pepper and the
  clock. Rows are kept in the order of their serial ids.
\<close>

text \<open>\<open>Date.toISOString\<close> of a time of a four-digit year.\<close>

definition to_iso_string :: "msec \<Rightarrow> string" where
  "to_iso_string t =
     today_iso t @ ''T'' @ pad_start 2 (show_int (t div 3600000 mod 24)) @ '':'' @
     pad_start 2 (show_int (t div 60000 mod 60)) @ '':'' @
     pad_start 2 (show_int (t div 1000 mod 60)) @ ''.'' @ pad_start 3 (show_int (t mod 1000)) @ ''Z''"

section \<open>JSON values\<close>

text \<open>\<open>JDec\<close> is a number that is not an integer, as it is printed.\<close>

datatype json =
    JNull
  | JBool bool
  | JNum int
  | JDec string
  | JStr string
  | JArr "json list"
  | JObj "(string \<times> json) list"

definition hex_digit :: "int \<Rightarrow> char" where
  "hex_digit n = ''0123456789abcdef'' ! nat n"

definition quote_char :: char where "quote_char = CHR 0x22"

definition json_escape :: "char \<Rightarrow> string" where
  "json_escape c =
     (if c = quote_char \<or> c = CHR 0x5C then [CHR 0x5C, c]
      else if c = CHR 0x08 then [CHR 0x5C, CHR ''b'']
      else if c = CHR 0x09 then [CHR 0x5C, CHR ''t'']
      else if c = CHR 0x0A then [CHR 0x5C, CHR ''n'']
      else if c = CHR 0x0C then [CHR 0x5C, CHR ''f'']
      else if c = CHR 0x0D then [CHR 0x5C, CHR ''r'']
      else if of_char c < (32 :: int) then
        [CHR 0x5C] @ ''u00'' @ [hex_digit (of_char c div 16), hex_digit (of_char c mod 16)]
      else [c])"

definition json_string :: "string \<Rightarrow> string" where
  "json_string s = [quote_char] @ concat (map json_escape s) @ [quote_char]"

fun join_with :: "string \<Rightarrow> string list \<Rightarrow> string" where
  "join_with sep [] = []"
| "join_with sep [x] = x"
| "join_with sep (x # xs) = x @ sep @ join_with sep xs"

fun stringify :: "json \<Rightarrow> string" where
  "stringify JNull = ''null''"
| "stringify (JBool b) = (if b then ''true'' else ''false'')"
| "stringify (JNum n) = show_int n"
| "stringify (JDec s) = s"
| "stringify (JStr s) = json_string s"
| "stringify (JArr xs) = ''['' @ join_with '','' (map stringify xs) @ '']''"
| "stringify (JObj kvs) =
     ''{'' @ join_with '','' (map (\<lambda>(k, v). json_string k @ '':'' @ stringify v) kvs) @ ''}''"

section \<open>Events\<close>

text \<open>An optional property of the payload: absent, \<open>null\<close>, or a value.\<close>

datatype 'a optional = Undefined | Null | Value 'a

datatype profile_kind = PersonalProfile | BusinessProfile

record audit_payload =
  actorUserId :: "uuid option"
  actorRole :: "string option"
  profileKind :: "profile_kind option"
  profileId :: "uuid option"
  auditAgreementId :: "uuid option"
  action :: string
  occurredAt :: string
  ipAddress :: "string option"
  deviceInfo :: json
  previousValue :: json
  newValue :: json
  reason :: "string option"
  authStrength :: "string option"
  relatedDocumentId :: "uuid option"
  relatedCaseId :: "uuid option"
  targetResourceType :: "string optional"
  targetResourceId :: "uuid optional"
  providerEventId :: "string optional"

record audit_row = audit_payload +
  auditId :: nat
  eventHash :: string
  previousEventHash :: "string option"

definition json_opt :: "('a \<Rightarrow> json) \<Rightarrow> 'a option \<Rightarrow> json" where
  "json_opt f x = (case x of None \<Rightarrow> JNull | Some v \<Rightarrow> f v)"

definition json_uuid :: "uuid \<Rightarrow> json" where "json_uuid u = JStr (show_int (int u))"

definition json_kind :: "profile_kind \<Rightarrow> json" where
  "json_kind k = JStr (case k of PersonalProfile \<Rightarrow> ''personal'' | BusinessProfile \<Rightarrow> ''business'')"

text \<open>\<open>JSON.stringify\<close> drops a key whose value is \<open>undefined\<close>.\<close>

definition json_key :: "string \<Rightarrow> ('a \<Rightarrow> json) \<Rightarrow> 'a optional \<Rightarrow> (string \<times> json) list" where
  "json_key k f x = (case x of Undefined \<Rightarrow> [] | Null \<Rightarrow> [(k, JNull)] | Value v \<Rightarrow> [(k, f v)])"

text \<open>The keys in the fixed order of \<open>PAYLOAD_KEYS\<close>.\<close>

definition canonicalize :: "'x audit_payload_scheme \<Rightarrow> string" where
  "canonicalize p = stringify (JObj
     ([(''actorUserId'', json_opt json_uuid (actorUserId p)),
       (''actorRole'', json_opt JStr (actorRole p)),
       (''profileKind'', json_opt json_kind (profileKind p)),
       (''profileId'', json_opt json_uuid (profileId p)),
       (''agreementId'', json_opt json_uuid (auditAgreementId p)),
       (''action'', JStr (action p)),
       (''occurredAt'', JStr (occurredAt p)),
       (''ipAddress'', json_opt JStr (ipAddress p)),
       (''deviceInfo'', deviceInfo p),
       (''previousValue'', previousValue p),
       (''newValue'', newValue p),
       (''reason'', json_opt JStr (reason p)),
       (''authStrength'', json_opt JStr (authStrength p)),
       (''relatedDocumentId'', json_opt json_uuid (relatedDocumentId p)),
       (''relatedCaseId'', json_opt json_uuid (relatedCaseId p))]
      @ json_key ''targetResourceType'' JStr (targetResourceType p)
      @ json_key ''targetResourceId'' json_uuid (targetResourceId p)
      @ json_key ''providerEventId'' JStr (providerEventId p)))"

record env =
  sha256 :: "string \<Rightarrow> string"
  auditSecret :: string
  clock :: msec

definition compute_audit_event_hash ::
    "(string \<Rightarrow> string) \<Rightarrow> 'x audit_payload_scheme \<Rightarrow> string option \<Rightarrow> string \<Rightarrow> string" where
  "compute_audit_event_hash sha p prev secret =
     sha (secret @ (case prev of None \<Rightarrow> ''GENESIS'' | Some h \<Rightarrow> h) @ canonicalize p)"

section \<open>Appending\<close>

text \<open>What the row keeps of an optional property: an absent one is stored as SQL NULL.\<close>

definition stored :: "'a optional \<Rightarrow> 'a optional" where
  "stored x = (case x of Undefined \<Rightarrow> Null | y \<Rightarrow> y)"

definition to_insert_values ::
    "audit_payload \<Rightarrow> nat \<Rightarrow> string \<Rightarrow> string option \<Rightarrow> audit_row" where
  "to_insert_values p i h prev =
     audit_payload.extend
       (p\<lparr>targetResourceType := stored (targetResourceType p),
          targetResourceId := stored (targetResourceId p),
          providerEventId := stored (providerEventId p)\<rparr>)
       (audit_row.fields i h prev)"

definition last_event :: "audit_row list \<Rightarrow> audit_row option" where
  "last_event rows = (if rows = [] then None else Some (last rows))"

definition next_audit_id :: "audit_row list \<Rightarrow> nat" where
  "next_audit_id rows = (case last_event rows of None \<Rightarrow> 1 | Some r \<Rightarrow> Suc (auditId r))"

definition find_by_provider_event :: "string optional \<Rightarrow> string \<Rightarrow> audit_row list \<Rightarrow> audit_row option" where
  "find_by_provider_event pe act rows =
     (case pe of
        Value s \<Rightarrow> if s = [] then None
                   else find (\<lambda>r. providerEventId r = Value s \<and> action r = act) rows
      | _ \<Rightarrow> None)"

definition append_audit_event :: "env \<Rightarrow> audit_payload \<Rightarrow> audit_row list \<Rightarrow> audit_row \<times> audit_row list" where
  "append_audit_event E p rows =
     (case find_by_provider_event (providerEventId p) (action p) rows of
        Some r \<Rightarrow> (r, rows)
      | None \<Rightarrow>
          (let prev = map_option eventHash (last_event rows);
               h = compute_audit_event_hash (sha256 E) p prev (auditSecret E);
               r = to_insert_values p (next_audit_id rows) h prev
           in (r, rows @ [r])))"

text \<open>\<open>AuditService.record\<close> with the production repository.\<close>

definition record_audit :: "env \<Rightarrow> audit_payload \<Rightarrow> audit_row list \<Rightarrow> audit_row list" where
  "record_audit E p rows = snd (append_audit_event E p rows)"

definition blank_audit :: "string \<Rightarrow> msec \<Rightarrow> audit_payload" where
  "blank_audit act t =
     \<lparr>actorUserId = None, actorRole = None, profileKind = None, profileId = None,
      auditAgreementId = None, action = act, occurredAt = to_iso_string t, ipAddress = None, deviceInfo = JNull,
      previousValue = JNull, newValue = JNull, reason = None, authStrength = None,
      relatedDocumentId = None, relatedCaseId = None, targetResourceType = Undefined,
      targetResourceId = Undefined, providerEventId = Undefined\<rparr>"

section \<open>The chain\<close>

text \<open>A chain: ids strictly increase and each row names the hash of the row before it.\<close>

fun linked :: "string option \<Rightarrow> audit_row list \<Rightarrow> bool" where
  "linked prev [] \<longleftrightarrow> True"
| "linked prev (r # rs) \<longleftrightarrow> previousEventHash r = prev \<and> linked (Some (eventHash r)) rs"

definition chain_ok :: "audit_row list \<Rightarrow> bool" where
  "chain_ok rows \<longleftrightarrow> linked None rows \<and> sorted_wrt (<) (map auditId rows)"

lemma linked_append:
  "linked prev (xs @ [r]) \<longleftrightarrow> linked prev xs \<and>
     previousEventHash r = (if xs = [] then prev else Some (eventHash (last xs)))"
  by (induction xs arbitrary: prev) auto

lemma to_insert_values_simps [simp]:
  "previousEventHash (to_insert_values p i h prev) = prev"
  "eventHash (to_insert_values p i h prev) = h"
  "auditId (to_insert_values p i h prev) = i"
  "action (to_insert_values p i h prev) = action p"
  "providerEventId (to_insert_values p i h prev) = stored (providerEventId p)"
  "auditAgreementId (to_insert_values p i h prev) = auditAgreementId p"
  by (simp_all add: to_insert_values_def audit_payload.extend_def audit_row.fields_def)

lemma append_audit_event_cases:
  obtains (dup) r where "append_audit_event E p rows = (r, rows)" "r \<in> set rows"
      "action r = action p" "providerEventId r = providerEventId p"
  | (fresh) r where "append_audit_event E p rows = (r, rows @ [r])"
      "r = to_insert_values p (next_audit_id rows)
         (compute_audit_event_hash (sha256 E) p (map_option eventHash (last_event rows)) (auditSecret E))
         (map_option eventHash (last_event rows))"
      "find_by_provider_event (providerEventId p) (action p) rows = None"
proof (cases "find_by_provider_event (providerEventId p) (action p) rows")
  case None
  then show thesis using fresh by (simp add: append_audit_event_def Let_def)
next
  case (Some r)
  then have "r \<in> set rows \<and> action r = action p \<and> providerEventId r = providerEventId p"
    by (auto simp: find_by_provider_event_def find_Some_iff split: optional.splits if_splits)
  then show thesis using Some dup by (simp add: append_audit_event_def)
qed

lemma next_audit_id_greater:
  "sorted_wrt (<) (map auditId rows) \<Longrightarrow> r \<in> set rows \<Longrightarrow> auditId r < next_audit_id rows"
  by (induction rows rule: rev_induct)
    (auto simp: next_audit_id_def last_event_def sorted_wrt_append)

lemma append_keeps_chain:
  assumes "chain_ok rows"
  shows "chain_ok (snd (append_audit_event E p rows))"
proof (cases rule: append_audit_event_cases [of E p rows])
  case (dup r)
  then show ?thesis using assms by simp
next
  case (fresh r)
  have "linked None (rows @ [r])"
    using assms fresh(2) by (simp add: linked_append chain_ok_def last_event_def)
  moreover have "sorted_wrt (<) (map auditId (rows @ [r]))"
    using assms fresh(2) next_audit_id_greater by (auto simp: sorted_wrt_append chain_ok_def)
  ultimately show ?thesis using fresh(1) by (simp add: chain_ok_def)
qed

lemma record_audit_prefix: "\<exists>suffix. record_audit E p rows = rows @ suffix"
  by (cases rule: append_audit_event_cases [of E p rows]) (auto simp: record_audit_def)

fun record_all :: "env \<Rightarrow> audit_payload list \<Rightarrow> audit_row list \<Rightarrow> audit_row list" where
  "record_all E [] rows = rows"
| "record_all E (p # ps) rows = record_all E ps (record_audit E p rows)"

text \<open>
  The trail is append-only and never forks: whatever events are recorded, in whatever order the
  lock grants them, the rows already there stay as they are and the rows form one chain, each row
  naming the hash of its predecessor.
\<close>

theorem audit_trail_append_only:
  assumes "chain_ok rows"
  shows "chain_ok (record_all E ps rows) \<and> take (length rows) (record_all E ps rows) = rows"
  using assms
proof (induction ps arbitrary: rows)
  case Nil
  then show ?case by simp
next
  case (Cons p ps)
  obtain s where s: "record_audit E p rows = rows @ s" using record_audit_prefix by blast
  have "chain_ok (record_audit E p rows)"
    using append_keeps_chain [OF Cons.prems] by (simp add: record_audit_def)
  then have "chain_ok (record_all E ps (rows @ s)) \<and>
      take (length (rows @ s)) (record_all E ps (rows @ s)) = rows @ s"
    using Cons.IH [of "rows @ s"] s by simp
  then have c: "chain_ok (record_all E (p # ps) rows)"
    and t: "take (length rows + length s) (record_all E (p # ps) rows) = rows @ s"
    using s by simp_all
  have "take (length rows) (record_all E (p # ps) rows) = take (length rows) (rows @ s)"
    by (simp only: t [symmetric] take_take) simp
  then show ?case using c by simp
qed

theorem audit_trail_append_only_witness:
  "chain_ok (record_all \<lparr>sha256 = (\<lambda>s. s), auditSecret = ''k'', clock = 0\<rparr>
     [blank_audit ''a'' 0, blank_audit ''b'' 1] [])"
  using audit_trail_append_only [of "[]" "\<lparr>sha256 = (\<lambda>s. s), auditSecret = ''k'', clock = 0\<rparr>"
      "[blank_audit ''a'' 0, blank_audit ''b'' 1]"]
  by (simp add: chain_ok_def)

section \<open>The text that is hashed\<close>

lemma canonicalize_starts: "\<exists>rest. canonicalize p = CHR ''{'' # rest"
  by (simp add: canonicalize_def)

lemma prefix_unique:
  assumes "u @ c # a = v @ c # b" and "c \<notin> set u" and "c \<notin> set v"
  shows "u = v \<and> a = b"
  using assms
proof (induction u arbitrary: v)
  case Nil
  then show ?case by (cases v) auto
next
  case (Cons x u)
  then show ?case by (cases v) auto
qed

text \<open>A digest for samples, without collisions: eight letters per character.\<close>

definition letter_code :: "char \<Rightarrow> string" where
  "letter_code c = map (\<lambda>b. if b then CHR ''1'' else CHR ''0'')
     [digit0 c, digit1 c, digit2 c, digit3 c, digit4 c, digit5 c, digit6 c, digit7 c]"

definition toy_digest :: "string \<Rightarrow> string" where
  "toy_digest s = concat (map letter_code s)"

lemma letter_code_inject: "letter_code c = letter_code d \<Longrightarrow> c = d"
  by (cases c; cases d) (simp add: letter_code_def split: if_splits)

lemma inj_toy_digest: "inj toy_digest"
proof (rule injI)
  fix s t :: string
  have len: "length (letter_code c) = 8" and ne: "letter_code c \<noteq> []" for c
    by (simp_all add: letter_code_def)
  show "toy_digest s = toy_digest t \<Longrightarrow> s = t"
  proof (induction s arbitrary: t)
    case Nil
    then show ?case using ne by (cases t) (auto simp: toy_digest_def)
  next
    case (Cons c s)
    then obtain d t' where t: "t = d # t'" using ne by (cases t) (auto simp: toy_digest_def)
    have "letter_code c = letter_code d" "toy_digest s = toy_digest t'"
      using Cons.prems len by (simp_all add: toy_digest_def t)
    then show ?case using Cons.IH letter_code_inject by (simp add: t)
  qed
qed

definition toy_env :: env where
  "toy_env = \<lparr>sha256 = toy_digest, auditSecret = ''k'', clock = 1790000000000\<rparr>"

end
