(* ===== verification/AuditLaws.thy ===== *)
theory AuditLaws
  imports AuditTrail
begin

text \<open>
  What the hash chain of \<open>AuditTrail\<close> protects. The text that is hashed can be read in one way only, so
  it determines every field; a trail as recorded passes recomputation from its own rows, and the hash of
  its last row, kept elsewhere, fixes the content of every row before it, unless a collision of the digest
  is at hand. The JSON columns are taken as they were written.
\<close>

section \<open>Reading JSON back\<close>

text \<open>A number that is not an integer is a text of digits and marks that no integer has.\<close>

definition number_char :: "char \<Rightarrow> bool" where
  "number_char c \<longleftrightarrow> is_digit c \<or> c \<in> set ''-.+eE''"

definition number_text :: "string \<Rightarrow> bool" where
  "number_text x \<longleftrightarrow> x \<noteq> [] \<and> list_all number_char x \<and> (is_digit (hd x) \<or> hd x = CHR ''-'')"

fun json_ok :: "json \<Rightarrow> bool" where
  "json_ok JNull = True"
| "json_ok (JBool b) = True"
| "json_ok (JNum n) = True"
| "json_ok (JDec x) = (number_text x \<and> x \<notin> range show_int)"
| "json_ok (JStr x) = True"
| "json_ok (JArr xs) = list_all json_ok xs"
| "json_ok (JObj kvs) = list_all (\<lambda>(k, v). json_ok v) kvs"

text \<open>The end of a value: nothing, or what separates it from the next.\<close>

definition stops :: "string \<Rightarrow> bool" where
  "stops r \<longleftrightarrow> r = [] \<or> hd r \<in> set '',]}''"

lemma show_digits_text: "0 \<le> n \<Longrightarrow> show_digits n \<noteq> [] \<and> list_all is_digit (show_digits n)"
proof (induction n rule: show_digits.induct)
  case (1 n)
  show ?case
    using 1 digit_char_val(2) by (subst (1 2) show_digits.simps) auto
qed

lemma show_digits_value: "0 \<le> n \<Longrightarrow> number_of (show_digits n) = n"
proof (induction n rule: show_digits.induct)
  case (1 n)
  have app: "number_of (xs @ [c]) = 10 * number_of xs + digit_val c" for xs c by (simp add: number_of_def)
  show ?case
  proof (cases "n < 10")
    case True
    then show ?thesis using 1(2) by (subst show_digits.simps) (simp add: number_of_def digit_char_val)
  next
    case False
    then show ?thesis using 1 by (subst show_digits.simps) (simp add: app digit_char_val)
  qed
qed

lemma show_int_text: "number_text (show_int n)"
proof -
  have d: "show_digits m \<noteq> [] \<and> list_all number_char (show_digits m) \<and> is_digit (hd (show_digits m))" if "0 \<le> m" for m
    using show_digits_text [OF that] by (auto simp: list_all_iff number_char_def)
  show ?thesis
  proof (cases "n < 0")
    case True
    then have "list_all number_char (show_digits (- n))" using d [of "- n"] by simp
    then show ?thesis using True by (simp add: number_text_def show_int_def) (simp add: number_char_def)
  next
    case False
    then show ?thesis using d [of n] by (simp add: number_text_def show_int_def)
  qed
qed

lemma show_int_inject: "show_int m = show_int n \<Longrightarrow> m = n"
proof -
  assume e: "show_int m = show_int n"
  have nominus: "show_digits k \<noteq> CHR ''-'' # x" if "0 \<le> k" for k x
    using show_digits_text [OF that] by (auto simp: is_digit_def)
  consider "m < 0" "n < 0" | "m < 0" "0 \<le> n" | "0 \<le> m" "n < 0" | "0 \<le> m" "0 \<le> n" by linarith
  then show "m = n"
  proof cases
    case 1
    then have "show_digits (- m) = show_digits (- n)" using e by (simp add: show_int_def)
    then have "number_of (show_digits (- m)) = number_of (show_digits (- n))" by simp
    then show ?thesis using show_digits_value [of "- m"] show_digits_value [of "- n"] 1 by linarith
  next
    case 2
    then have "CHR ''-'' # show_digits (- m) = show_digits n" using e by (simp add: show_int_def)
    then show ?thesis using nominus [OF 2(2)] by metis
  next
    case 3
    then have "show_digits m = CHR ''-'' # show_digits (- n)" using e by (simp add: show_int_def)
    then show ?thesis using nominus [OF 3(1)] by blast
  next
    case 4
    then have "show_digits m = show_digits n" using e by (simp add: show_int_def)
    then have "number_of (show_digits m) = number_of (show_digits n)" by simp
    then show ?thesis using show_digits_value [of m] show_digits_value [of n] 4 by linarith
  qed
qed

text \<open>Numbers: a text of number characters ends where something else begins.\<close>

lemma stop_no_number: "stops r \<Longrightarrow> takeWhile number_char r = []"
  by (cases r) (auto simp: stops_def number_char_def is_digit_def)

lemma number_unique:
  assumes "x @ r = y @ r'" and "number_text x" and "number_text y" and "stops r" and "stops r'"
  shows "x = y \<and> r = r'"
proof -
  have "takeWhile number_char (z @ q) = z" if "number_text z" "stops q" for z q
    using that stop_no_number [OF that(2)] by (subst takeWhile_append2) (auto simp: number_text_def list_all_iff)
  then have "x = y" using assms by metis
  then show ?thesis using assms(1) by simp
qed

text \<open>Strings: an escaped character tells where it ends, and a quote ends the string.\<close>

lemma hex_inject:
  assumes "0 \<le> m" "m < 16" "0 \<le> n" "n < 16" and "hex_digit m = hex_digit n"
  shows "m = n"
proof -
  have "nat m = nat n"
    using nth_eq_iff_index_eq [of "''0123456789abcdef''" "nat m" "nat n"] assms by (simp add: hex_digit_def)
  then show ?thesis using assms by simp
qed

lemma escape_unique:
  assumes "json_escape c @ r = json_escape d @ r'"
  shows "c = d \<and> r = r'"
proof -
  have hex: "c = d" if "hex_digit (of_char c div 16) = hex_digit (of_char d div 16)" "hex_digit (of_char c mod 16) = hex_digit (of_char d mod 16)"
    "(of_char c :: int) < 32" "(of_char d :: int) < 32"
  proof -
    have "0 \<le> (of_char e :: int)" for e :: char by (metis of_nat_0_le_iff of_nat_of_char)
    then have "0 \<le> (of_char c div 16 :: int)" "0 \<le> (of_char d div 16 :: int)"
      by (simp_all add: pos_imp_zdiv_nonneg_iff)
    then have "of_char c div 16 = (of_char d div 16 :: int)" "of_char c mod 16 = (of_char d mod 16 :: int)"
      using that by (auto intro!: hex_inject)
    then have "of_char c = (of_char d :: int)" by (metis div_mult_mod_eq)
    then show ?thesis by simp
  qed
  show ?thesis
    using assms hex by (auto simp: json_escape_def quote_char_def split: if_splits)
qed

lemma escape_no_quote: "json_escape c @ r \<noteq> quote_char # r'"
  by (auto simp: json_escape_def quote_char_def split: if_splits)

lemma string_unique:
  assumes "json_string x @ r = json_string y @ r'"
  shows "x = y \<and> r = r'"
proof -
  have "concat (map json_escape x) @ quote_char # r = concat (map json_escape y) @ quote_char # r'"
    using assms by (simp add: json_string_def)
  then show ?thesis
  proof (induction x arbitrary: y)
    case Nil
    then show ?case using escape_no_quote by (cases y) (auto simp: eq_commute)
  next
    case (Cons c x)
    show ?case
    proof (cases y)
      case Nil
      then show ?thesis using Cons.prems escape_no_quote by (auto simp: eq_commute)
    next
      case (Cons d y')
      then show ?thesis using Cons.prems Cons.IH escape_unique [of c _ d] by fastforce
    qed
  qed
qed

text \<open>Lists: what separates the elements also tells where the list ends.\<close>

lemma join_snoc: "join_with sep (x # xs) = x @ concat (map (\<lambda>y. sep @ y) xs)"
  by (induction xs arbitrary: x) auto

lemma tail_unique:
  assumes "\<And>x y r r'. x \<in> set xs \<Longrightarrow> y \<in> set ys \<Longrightarrow> f x @ r = f y @ r' \<Longrightarrow> stops r \<Longrightarrow> stops r' \<Longrightarrow> x = y \<and> r = r'"
    and "c \<in> set '']}''"
    and "concat (map (\<lambda>y. '','' @ f y) xs) @ c # r = concat (map (\<lambda>y. '','' @ f y) ys) @ c # r'"
  shows "xs = ys \<and> r = r'"
  using assms
proof (induction xs arbitrary: ys)
  case Nil
  then show ?case by (cases ys) auto
next
  case (Cons x xs)
  obtain y zs where ys: "ys = y # zs" using Cons.prems(2,3) by (cases ys) auto
  have st: "stops (concat (map (\<lambda>y. '','' @ f y) vs) @ c # q)" for vs q
    using Cons.prems(2) by (cases vs) (auto simp: stops_def)
  have "x = y \<and> concat (map (\<lambda>y. '','' @ f y) xs) @ c # r = concat (map (\<lambda>y. '','' @ f y) zs) @ c # r'"
    by (rule Cons.prems(1)) (use Cons.prems(3) st in \<open>simp_all add: ys\<close>)
  then show ?case using Cons.IH [of zs] Cons.prems(1,2) by (auto simp: ys)
qed

lemma list_unique:
  assumes "\<And>x y r r'. x \<in> set xs \<Longrightarrow> y \<in> set ys \<Longrightarrow> f x @ r = f y @ r' \<Longrightarrow> stops r \<Longrightarrow> stops r' \<Longrightarrow> x = y \<and> r = r'"
    and "c \<in> set '']}''" and "\<And>x q. x \<in> set xs \<union> set ys \<Longrightarrow> \<not> stops (f x @ q)"
    and "join_with '','' (map f xs) @ c # r = join_with '','' (map f ys) @ c # r'"
  shows "xs = ys \<and> r = r'"
proof (cases xs)
  case Nil
  have "ys = []"
  proof (rule ccontr)
    assume "ys \<noteq> []"
    then obtain y zs where y: "ys = y # zs" by (cases ys) auto
    have "\<not> stops (c # r)" using assms(3) [of y] assms(4) y Nil by (simp add: join_snoc)
    then show False using assms(2) by (auto simp: stops_def)
  qed
  then show ?thesis using assms(4) Nil by simp
next
  case (Cons x xs')
  obtain y zs where ys: "ys = y # zs"
  proof (cases ys)
    case Nil
    have "\<not> stops (c # r')" using assms(3) [of x] assms(4) Nil Cons by (simp add: join_snoc) metis
    then show thesis using assms(2) by (auto simp: stops_def)
  qed
  have st: "stops (concat (map (\<lambda>y. '','' @ f y) vs) @ c # q)" for vs q
    using assms(2) by (cases vs) (auto simp: stops_def)
  have e: "f x @ concat (map (\<lambda>y. '','' @ f y) xs') @ c # r = f y @ concat (map (\<lambda>y. '','' @ f y) zs) @ c # r'"
    using assms(4) by (simp add: Cons ys join_snoc comp_def)
  have 1: "x = y \<and> concat (map (\<lambda>y. '','' @ f y) xs') @ c # r = concat (map (\<lambda>y. '','' @ f y) zs) @ c # r'"
    by (rule assms(1) [OF _ _ e st st]) (simp_all add: Cons ys)
  have "xs' = zs \<and> r = r'"
    by (rule tail_unique [OF _ assms(2) conjunct2 [OF 1]]) (use assms(1) in \<open>auto simp: Cons ys\<close>)
  then show ?thesis using 1 by (simp add: Cons ys)
qed

text \<open>The first character of a value tells its kind.\<close>

lemma number_first: "number_text x \<Longrightarrow> \<exists>c t. x = c # t \<and> (is_digit c \<or> c = CHR ''-'')"
  by (cases x) (auto simp: number_text_def)

lemma stringify_first:
  assumes "json_ok x"
  shows "\<exists>c t. stringify x = c # t \<and> (case x of JNull \<Rightarrow> c = CHR ''n'' | JBool b \<Rightarrow> c = (if b then CHR ''t'' else CHR ''f'')
    | JNum n \<Rightarrow> is_digit c \<or> c = CHR ''-'' | JDec d \<Rightarrow> is_digit c \<or> c = CHR ''-'' | JStr d \<Rightarrow> c = quote_char
    | JArr xs \<Rightarrow> c = CHR ''['' | JObj kvs \<Rightarrow> c = CHR ''{'')"
  using assms number_first show_int_text by (cases x) (auto simp: json_string_def)

lemma value_no_stop: "json_ok x \<Longrightarrow> \<not> stops (stringify x @ q)"
  using stringify_first [of x] by (cases x) (auto simp: stops_def is_digit_def quote_char_def)

text \<open>The text of a value determines it, whatever follows.\<close>

lemma stringify_unique:
  assumes "stringify x @ r = stringify y @ r'" and "json_ok x" and "json_ok y" and "stops r" and "stops r'"
  shows "x = y \<and> r = r'"
  using assms
proof (induction x arbitrary: y r r')
  case JNull
  then show ?case using stringify_first [of y] by (cases y) (auto simp: is_digit_def quote_char_def split: if_splits)
next
  case (JBool b)
  then show ?case using stringify_first [of y] by (cases y) (auto simp: is_digit_def quote_char_def split: if_splits)
next
  case (JNum n)
  have "(\<exists>m. y = JNum m) \<or> (\<exists>d. y = JDec d)"
    using JNum stringify_first [of y] stringify_first [of "JNum n"]
    by (cases y) (auto simp: is_digit_def quote_char_def split: if_splits)
  then show ?case using JNum number_unique [OF _ show_int_text] show_int_text show_int_inject by fastforce
next
  case (JDec d)
  have "(\<exists>m. y = JNum m) \<or> (\<exists>d. y = JDec d)"
    using JDec stringify_first [of y] stringify_first [of "JDec d"]
    by (cases y) (auto simp: is_digit_def quote_char_def split: if_splits)
  then show ?case using JDec number_unique [of d r _ r'] show_int_text by fastforce
next
  case (JStr d)
  have "\<exists>e. y = JStr e"
    using JStr stringify_first [of y] stringify_first [of "JStr d"]
    by (cases y) (auto simp: is_digit_def quote_char_def split: if_splits)
  then show ?case using JStr string_unique [of d r] by auto
next
  case (JArr xs)
  obtain ys where y: "y = JArr ys"
    using JArr.prems stringify_first [of y] by (cases y) (auto simp: is_digit_def quote_char_def split: if_splits)
  have "xs = ys \<and> r = r'"
  proof (rule list_unique [where f = stringify and c = "CHR '']''"])
    show "join_with '','' (map stringify xs) @ CHR '']'' # r = join_with '','' (map stringify ys) @ CHR '']'' # r'"
      using JArr.prems(1) by (simp add: y)
    show "\<not> stops (stringify v @ q)" if "v \<in> set xs \<union> set ys" for v q
      using that JArr.prems(2,3) by (intro value_no_stop) (auto simp: y list_all_iff)
    show "u = v \<and> q = q'" if "u \<in> set xs" "v \<in> set ys" "stringify u @ q = stringify v @ q'" "stops q" "stops q'" for u v q q'
      using that JArr.IH [OF that(1,3)] JArr.prems(2,3) by (simp add: y list_all_iff)
  qed simp
  then show ?case by (simp add: y)
next
  case (JObj xs)
  obtain ys where y: "y = JObj ys"
    using JObj.prems stringify_first [of y] by (cases y) (auto simp: is_digit_def quote_char_def split: if_splits)
  let ?f = "\<lambda>(k, v). json_string k @ '':'' @ stringify v"
  have "xs = ys \<and> r = r'"
  proof (rule list_unique [where f = ?f and c = "CHR ''}''"])
    show "join_with '','' (map ?f xs) @ CHR ''}'' # r = join_with '','' (map ?f ys) @ CHR ''}'' # r'"
      using JObj.prems(1) by (simp add: y)
    show "\<not> stops (?f v @ q)" for v q
      by (cases v) (simp add: stops_def json_string_def quote_char_def)
    fix u v q q'
    assume a: "u \<in> set xs" "v \<in> set ys" "?f u @ q = ?f v @ q'" "stops q" "stops q'"
    obtain k m l n where uv: "u = (k, m)" "v = (l, n)" by (cases u; cases v)
    have "json_string k @ '':'' @ stringify m @ q = json_string l @ '':'' @ stringify n @ q'"
      using a(3) by (simp add: uv)
    then have e: "k = l" "stringify m @ q = stringify n @ q'" using string_unique by blast+
    have "m = n \<and> q = q'"
      by (rule JObj.IH [OF a(1)]) (use a e(2) JObj.prems(2,3) in \<open>auto simp: uv y list_all_iff\<close>)
    then show "u = v \<and> q = q'" by (simp add: uv e(1))
  qed simp
  then show ?case by (simp add: y)
qed

lemma stringify_inject: "stringify x = stringify y \<Longrightarrow> json_ok x \<Longrightarrow> json_ok y \<Longrightarrow> x = y"
  using stringify_unique [of x "[]" y "[]"] by (simp add: stops_def)

section \<open>The canonical text of an event\<close>

definition payload_ok :: "'x audit_payload_scheme \<Rightarrow> bool" where
  "payload_ok p \<longleftrightarrow> json_ok (deviceInfo p) \<and> json_ok (previousValue p) \<and> json_ok (newValue p)"

lemma json_opt_inject:
  assumes "\<And>v w. f v = f w \<Longrightarrow> v = w" and "\<And>v. f v \<noteq> JNull"
  shows "json_opt f x = json_opt f y \<longleftrightarrow> x = y"
  using assms(2) [THEN not_sym] assms by (auto simp: json_opt_def split: option.splits)

lemma json_uuid_inject: "json_uuid u = json_uuid v \<longleftrightarrow> u = v"
  using show_int_inject [of "int u" "int v"] by (auto simp: json_uuid_def)

lemma json_kind_inject: "json_kind k = json_kind l \<longleftrightarrow> k = l"
  by (cases k; cases l) (simp_all add: json_kind_def)

lemma json_opts:
  "json_opt json_uuid a = json_opt json_uuid b \<longleftrightarrow> a = b"
  "json_opt JStr c = json_opt JStr d \<longleftrightarrow> c = d"
  "json_opt json_kind k = json_opt json_kind l \<longleftrightarrow> k = l"
proof -
  show "json_opt json_uuid a = json_opt json_uuid b \<longleftrightarrow> a = b"
    by (rule json_opt_inject) (simp_all add: json_uuid_inject, simp add: json_uuid_def)
  show "json_opt JStr c = json_opt JStr d \<longleftrightarrow> c = d" by (rule json_opt_inject) simp_all
  show "json_opt json_kind k = json_opt json_kind l \<longleftrightarrow> k = l"
    by (rule json_opt_inject) (simp_all add: json_kind_inject, simp add: json_kind_def)
qed

lemma json_ok_opts: "json_ok (json_opt json_uuid a)" "json_ok (json_opt JStr c)" "json_ok (json_opt json_kind k)"
  by (simp_all add: json_opt_def json_uuid_def json_kind_def split: option.split)

text \<open>The optional keys: each is there or not, and its name tells which one it is.\<close>

lemma json_key_unique:
  assumes "json_key k f x @ r = json_key k f y @ r'" and "k \<notin> fst ` set r" and "k \<notin> fst ` set r'"
    and "\<And>v w. f v = f w \<Longrightarrow> v = w" and "\<And>v. f v \<noteq> JNull"
  shows "x = y \<and> r = r'"
  using assms by (cases x; cases y; auto simp: json_key_def; metis)

lemma json_key_keys: "fst ` set (json_key k f x) \<subseteq> {k}"
  by (cases x) (auto simp: json_key_def)

lemma json_key_last:
  assumes "json_key k f x = json_key k f y" and "\<And>v w. f v = f w \<Longrightarrow> v = w" and "\<And>v. f v \<noteq> JNull"
  shows "x = y"
  using json_key_unique [of k f x "[]" y "[]"] assms by simp

lemma json_key_ok: "(\<And>v. json_ok (f v)) \<Longrightarrow> list_all (\<lambda>(k, v). json_ok v) (json_key k f x)"
  by (cases x) (simp_all add: json_key_def)

text \<open>The keys that are always there, and those that may be absent.\<close>

definition fixed_keys :: "'x audit_payload_scheme \<Rightarrow> (string \<times> json) list" where
  "fixed_keys p =
     [(''actorUserId'', json_opt json_uuid (actorUserId p)),
      (''actorRole'', json_opt JStr (actorRole p)),
      (''profileKind'', json_opt json_kind (profileKind p)),
      (''profileId'', json_opt json_uuid (profileId p)),
      (''agreementId'', json_opt json_uuid (auditAgreementId p)),
      (''action'', JStr (action p)),
      (''occurredAt'', JStr (occurredAt p)),
      (''ipAddress'', json_opt JStr (ipAddress p)),
      (''deviceInfo'', deviceInfo p),
      (''previousValue'', previousValue p),
      (''newValue'', newValue p),
      (''reason'', json_opt JStr (reason p)),
      (''authStrength'', json_opt JStr (authStrength p)),
      (''relatedDocumentId'', json_opt json_uuid (relatedDocumentId p)),
      (''relatedCaseId'', json_opt json_uuid (relatedCaseId p))]"

definition optional_keys :: "'x audit_payload_scheme \<Rightarrow> (string \<times> json) list" where
  "optional_keys p = json_key ''targetResourceType'' JStr (targetResourceType p) @
     json_key ''targetResourceId'' json_uuid (targetResourceId p) @ json_key ''providerEventId'' JStr (providerEventId p)"

lemma canonical_keys: "canonicalize p = stringify (JObj (fixed_keys p @ optional_keys p))"
  by (simp only: canonicalize_def fixed_keys_def optional_keys_def)

lemma canonical_ok: "payload_ok p \<Longrightarrow> json_ok (JObj (fixed_keys p @ optional_keys p))"
proof -
  assume "payload_ok p"
  then have "list_all (\<lambda>(k, v). json_ok v) (fixed_keys p)"
    by (simp add: fixed_keys_def payload_ok_def json_ok_opts)
  moreover have "list_all (\<lambda>(k, v). json_ok v) (optional_keys p)"
    unfolding optional_keys_def list_all_append by (intro conjI json_key_ok) (simp_all add: json_uuid_def)
  ultimately show ?thesis by simp
qed

lemma fixed_keys_inject:
  "fixed_keys p = fixed_keys q \<Longrightarrow> actorUserId p = actorUserId q \<and> actorRole p = actorRole q \<and> profileKind p = profileKind q \<and>
      profileId p = profileId q \<and> auditAgreementId p = auditAgreementId q \<and> action p = action q \<and>
      occurredAt p = occurredAt q \<and> ipAddress p = ipAddress q \<and> deviceInfo p = deviceInfo q \<and>
      previousValue p = previousValue q \<and> newValue p = newValue q \<and> reason p = reason q \<and>
      authStrength p = authStrength q \<and> relatedDocumentId p = relatedDocumentId q \<and> relatedCaseId p = relatedCaseId q"
  unfolding fixed_keys_def by (simp only: list.inject prod.inject json.inject json_opts simp_thms)

lemma optional_keys_inject:
  assumes "optional_keys p = optional_keys q"
  shows "targetResourceType p = targetResourceType q \<and> targetResourceId p = targetResourceId q \<and>
    providerEventId p = providerEventId q"
proof -
  have keys: "fst ` set (json_key ''targetResourceId'' json_uuid a) \<subseteq> {''targetResourceId''}"
    "fst ` set (json_key ''providerEventId'' JStr b) \<subseteq> {''providerEventId''}" for a b
    by (rule json_key_keys)+
  have uuid: "json_uuid v = json_uuid w \<Longrightarrow> v = w" "json_uuid v \<noteq> JNull" for v w
    by (simp add: json_uuid_inject) (simp add: json_uuid_def)
  have no1: "''targetResourceType'' \<notin> fst ` set (json_key ''targetResourceId'' json_uuid a @ json_key ''providerEventId'' JStr b)" for a b
    using keys(1) [of a] keys(2) [of b] by (auto simp: image_Un)
  have no2: "''targetResourceId'' \<notin> fst ` set (json_key ''providerEventId'' JStr b)" for b
    using keys(2) [of b] by auto
  have 1: "targetResourceType p = targetResourceType q \<and>
      json_key ''targetResourceId'' json_uuid (targetResourceId p) @ json_key ''providerEventId'' JStr (providerEventId p) =
      json_key ''targetResourceId'' json_uuid (targetResourceId q) @ json_key ''providerEventId'' JStr (providerEventId q)"
    by (rule json_key_unique [OF assms [unfolded optional_keys_def] no1 no1]) simp_all
  have 2: "targetResourceId p = targetResourceId q \<and>
      json_key ''providerEventId'' JStr (providerEventId p) = json_key ''providerEventId'' JStr (providerEventId q)"
    by (rule json_key_unique [OF conjunct2 [OF 1] no2 no2]) (rule uuid, assumption, rule uuid)
  have "providerEventId p = providerEventId q"
    by (rule json_key_last [OF conjunct2 [OF 2]]) simp_all
  then show ?thesis using 1 2 by blast
qed

lemma canonicalize_inject:
  assumes "canonicalize p = canonicalize q" and "payload_ok p" and "payload_ok q"
  shows "audit_payload.truncate p = audit_payload.truncate q"
proof -
  have "JObj (fixed_keys p @ optional_keys p) = JObj (fixed_keys q @ optional_keys q)"
    using assms(1) unfolding canonical_keys
    by (rule stringify_inject) (rule canonical_ok, rule assms)+
  then have "fixed_keys p @ optional_keys p = fixed_keys q @ optional_keys q" by (simp only: json.inject)
  moreover have "length (fixed_keys p) = length (fixed_keys q)" by (simp add: fixed_keys_def)
  ultimately have "fixed_keys p = fixed_keys q" "optional_keys p = optional_keys q"
    using append_eq_append_conv by blast+
  then show ?thesis using fixed_keys_inject [of p q] optional_keys_inject [of p q]
    by (simp add: audit_payload.truncate_def)
qed

section \<open>Recomputing the chain from the rows\<close>

text \<open>
  An auditor with the secret reads the fields of the row. SQL NULL in one of the three optional columns
  stands for \<open>null\<close> or for an absent property, so there are up to eight texts the row can have been
  hashed as.
\<close>

definition readings :: "'a optional \<Rightarrow> 'a optional list" where
  "readings x = (case x of Value v \<Rightarrow> [Value v] | _ \<Rightarrow> [Undefined, Null])"

definition row_readings :: "audit_row \<Rightarrow> audit_payload list" where
  "row_readings r = concat (map (\<lambda>a. concat (map (\<lambda>b. map (\<lambda>c.
     (audit_payload.truncate r)\<lparr>targetResourceType := a, targetResourceId := b, providerEventId := c\<rparr>)
     (readings (providerEventId r))) (readings (targetResourceId r)))) (readings (targetResourceType r)))"

fun trail_verifies :: "env \<Rightarrow> string option \<Rightarrow> audit_row list \<Rightarrow> bool" where
  "trail_verifies E prev [] \<longleftrightarrow> True"
| "trail_verifies E prev (r # rs) \<longleftrightarrow> previousEventHash r = prev \<and>
     list_ex (\<lambda>p. eventHash r = compute_audit_event_hash (sha256 E) p prev (auditSecret E)) (row_readings r) \<and>
     trail_verifies E (Some (eventHash r)) rs"

text \<open>What a row says; its serial id is not hashed.\<close>

definition row_content :: "audit_row \<Rightarrow> audit_payload \<times> string \<times> string option" where
  "row_content r = ((audit_payload.truncate r)\<lparr>targetResourceType := stored (targetResourceType r),
     targetResourceId := stored (targetResourceId r), providerEventId := stored (providerEventId r)\<rparr>,
     eventHash r, previousEventHash r)"

definition hash_before :: "audit_row list \<Rightarrow> string option" where
  "hash_before rs = map_option eventHash (last_event rs)"

definition row_verifies :: "env \<Rightarrow> string option \<Rightarrow> audit_row \<Rightarrow> bool" where
  "row_verifies E prev r \<longleftrightarrow> previousEventHash r = prev \<and>
     list_ex (\<lambda>p. eventHash r = compute_audit_event_hash (sha256 E) p prev (auditSecret E)) (row_readings r)"

lemma trail_snoc:
  "trail_verifies E prev (rs @ [r]) \<longleftrightarrow> trail_verifies E prev rs \<and>
     row_verifies E (if rs = [] then prev else Some (eventHash (last rs))) r"
  by (induction rs arbitrary: prev) (auto simp: row_verifies_def)

lemma trail_snoc_start:
  "trail_verifies E None (rs @ [r]) \<longleftrightarrow> trail_verifies E None rs \<and> row_verifies E (hash_before rs) r"
  by (simp add: trail_snoc hash_before_def last_event_def)

lemma row_readings_mem:
  "p \<in> set (row_readings r) \<longleftrightarrow> (\<exists>a \<in> set (readings (targetResourceType r)). \<exists>b \<in> set (readings (targetResourceId r)).
     \<exists>c \<in> set (readings (providerEventId r)).
       p = (audit_payload.truncate r)\<lparr>targetResourceType := a, targetResourceId := b, providerEventId := c\<rparr>)"
  by (simp only: row_readings_def set_concat set_map UN_iff image_iff bex_simps)

lemma reading_stored: "a \<in> set (readings x) \<Longrightarrow> stored a = stored x"
  by (cases x) (auto simp: readings_def stored_def)

lemma stored_reading: "x \<in> set (readings (stored x))"
  by (cases x) (simp_all add: readings_def stored_def)

lemma reading_fields:
  assumes "p \<in> set (row_readings r)"
  shows "p\<lparr>targetResourceType := stored (targetResourceType p), targetResourceId := stored (targetResourceId p),
      providerEventId := stored (providerEventId p)\<rparr> = fst (row_content r)"
    and "payload_ok p \<longleftrightarrow> payload_ok r"
proof -
  obtain a b c where p: "stored a = stored (targetResourceType r)" "stored b = stored (targetResourceId r)"
      "stored c = stored (providerEventId r)"
      "p = (audit_payload.truncate r)\<lparr>targetResourceType := a, targetResourceId := b, providerEventId := c\<rparr>"
    using assms reading_stored unfolding row_readings_mem by metis
  show "p\<lparr>targetResourceType := stored (targetResourceType p), targetResourceId := stored (targetResourceId p),
      providerEventId := stored (providerEventId p)\<rparr> = fst (row_content r)"
    using p(1-3) by (simp add: p(4) row_content_def)
  show "payload_ok p \<longleftrightarrow> payload_ok r" by (simp add: p(4) payload_ok_def audit_payload.truncate_def)
qed

lemma recorded_reading: "p \<in> set (row_readings (to_insert_values p i h prev))"
proof -
  let ?r = "to_insert_values p i h prev"
  have f: "targetResourceType ?r = stored (targetResourceType p)" "targetResourceId ?r = stored (targetResourceId p)"
    "providerEventId ?r = stored (providerEventId p)"
    "p = (audit_payload.truncate ?r)\<lparr>targetResourceType := targetResourceType p, targetResourceId := targetResourceId p,
       providerEventId := providerEventId p\<rparr>"
    by (simp_all add: to_insert_values_def audit_payload.extend_def audit_row.fields_def audit_payload.truncate_def)
  show ?thesis
    unfolding row_readings_mem f(1-3)
    by (intro bexI [OF _ stored_reading]) (rule f(4))
qed

lemma recorded_verifies: "trail_verifies E None rows \<Longrightarrow> trail_verifies E None (record_all E ps rows)"
proof (induction ps arbitrary: rows)
  case (Cons p ps)
  have "trail_verifies E None (record_audit E p rows)"
  proof (cases rule: append_audit_event_cases [of E p rows])
    case (dup r)
    then show ?thesis using Cons.prems by (simp add: record_audit_def)
  next
    case (fresh r)
    have "row_verifies E (hash_before rows) r"
      using recorded_reading by (auto simp: fresh(2) row_verifies_def hash_before_def list_ex_iff)
    then show ?thesis using Cons.prems fresh(1) by (simp add: record_audit_def trail_snoc_start)
  qed
  then show ?case using Cons.IH by simp
qed simp

lemma recorded_rows_ok: "list_all payload_ok ps \<Longrightarrow> list_all payload_ok rows \<Longrightarrow> list_all payload_ok (record_all E ps rows)"
proof (induction ps arbitrary: rows)
  case (Cons p ps)
  have "payload_ok (to_insert_values p i h prev)" for i h prev
    using Cons.prems(1) by (simp add: payload_ok_def to_insert_values_def audit_payload.extend_def audit_row.fields_def)
  then have "list_all payload_ok (record_audit E p rows)"
    using Cons.prems(2) by (cases rule: append_audit_event_cases [of E p rows]) (simp_all add: record_audit_def)
  then show ?case using Cons by simp
qed simp

section \<open>One hash fixes the trail\<close>

definition hex_text :: "string \<Rightarrow> bool" where
  "hex_text x \<longleftrightarrow> set x \<subseteq> set ''0123456789abcdef''"

definition collision :: "env \<Rightarrow> bool" where
  "collision E \<longleftrightarrow> (\<exists>x y. x \<noteq> y \<and> sha256 E x = sha256 E y)"

lemma row_hash_hex: "row_verifies E prev r \<Longrightarrow> (\<And>x. hex_text (sha256 E x)) \<Longrightarrow> hex_text (eventHash r)"
  by (auto simp: row_verifies_def list_ex_iff compute_audit_event_hash_def)

lemma trail_last_hex:
  assumes "trail_verifies E None rs" and "\<And>x. hex_text (sha256 E x)"
  shows "hash_before rs = None \<or> (\<exists>h. hash_before rs = Some h \<and> hex_text h)"
proof (cases rs rule: rev_cases)
  case (snoc ys r)
  then show ?thesis using assms row_hash_hex by (auto simp: trail_snoc_start hash_before_def last_event_def)
qed (simp add: hash_before_def last_event_def)

text \<open>Equal hashes: the same text was hashed, after the same predecessor.\<close>

lemma equal_hash:
  assumes "row_verifies E prev r" and "row_verifies E prev' r'" and "eventHash r = eventHash r'"
    and "payload_ok r" and "payload_ok r'" and "\<not> collision E"
    and "prev = None \<or> (\<exists>h. prev = Some h \<and> hex_text h)" and "prev' = None \<or> (\<exists>h. prev' = Some h \<and> hex_text h)"
  shows "prev = prev' \<and> row_content r = row_content r'"
proof -
  obtain p q where p: "p \<in> set (row_readings r)" "eventHash r = compute_audit_event_hash (sha256 E) p prev (auditSecret E)"
    and q: "q \<in> set (row_readings r')" "eventHash r' = compute_audit_event_hash (sha256 E) q prev' (auditSecret E)"
    using assms(1,2) by (auto simp: row_verifies_def list_ex_iff)
  define u v where uv: "u = (case prev of None \<Rightarrow> ''GENESIS'' | Some h \<Rightarrow> h)" "v = (case prev' of None \<Rightarrow> ''GENESIS'' | Some h \<Rightarrow> h)"
  have "sha256 E (auditSecret E @ u @ canonicalize p) = sha256 E (auditSecret E @ v @ canonicalize q)"
    using p(2) q(2) assms(3) by (simp add: compute_audit_event_hash_def uv)
  then have e: "u @ canonicalize p = v @ canonicalize q"
    using assms(6) unfolding collision_def by (metis same_append_eq)
  obtain a b where ab: "canonicalize p = CHR ''{'' # a" "canonicalize q = CHR ''{'' # b" using canonicalize_starts by metis
  have nb: "CHR ''{'' \<notin> set u" "CHR ''{'' \<notin> set v"
    using assms(7,8) by (auto simp: uv hex_text_def)
  have same: "u = v" "canonicalize p = canonicalize q"
    using prefix_unique [OF e [unfolded ab] nb] ab by simp_all
  have g: "\<not> hex_text ''GENESIS''" by (simp add: hex_text_def)
  have "prev = prev'" using same(1) assms(7,8) g by (auto simp: uv)
  moreover have "p = q"
  proof -
    have "payload_ok p" "payload_ok q" using reading_fields(2) p(1) q(1) assms(4,5) by blast+
    then have "audit_payload.truncate p = audit_payload.truncate q" using canonicalize_inject same(2) by blast
    then show ?thesis by (cases p; cases q) (simp add: audit_payload.truncate_def)
  qed
  then have "fst (row_content r) = fst (row_content r')"
    using reading_fields(1) [OF p(1)] reading_fields(1) [OF q(1)] by simp
  ultimately show ?thesis using assms(1-3) by (simp add: row_content_def row_verifies_def)
qed

lemma same_last_hash:
  assumes "trail_verifies E None rs" and "trail_verifies E None rs'" and "hash_before rs = hash_before rs'"
    and "list_all payload_ok rs" and "list_all payload_ok rs'" and "\<not> collision E" and "\<And>x. hex_text (sha256 E x)"
  shows "map row_content rs = map row_content rs'"
  using assms(1-5)
proof (induction rs arbitrary: rs' rule: rev_induct)
  case Nil
  then show ?case by (cases rs' rule: rev_cases) (auto simp: hash_before_def last_event_def)
next
  case (snoc r rs)
  obtain ys r' where rs': "rs' = ys @ [r']"
    using snoc.prems(3) by (cases rs' rule: rev_cases) (auto simp: hash_before_def last_event_def)
  have v: "trail_verifies E None rs" "row_verifies E (hash_before rs) r"
    "trail_verifies E None ys" "row_verifies E (hash_before ys) r'"
    using snoc.prems(1,2) by (simp_all add: rs' trail_snoc_start)
  have "eventHash r = eventHash r'" using snoc.prems(3) by (simp add: rs' hash_before_def last_event_def)
  then have "hash_before rs = hash_before ys \<and> row_content r = row_content r'"
    using snoc.prems(4,5) by (intro equal_hash [OF v(2,4) _ _ _ assms(6)] trail_last_hex [OF v(1) assms(7)]
        trail_last_hex [OF v(3) assms(7)]) (simp_all add: rs')
  then show ?case using snoc.IH [OF v(1,3)] snoc.prems(4,5) by (simp add: rs')
qed


text \<open>The only other row with the hash of the first event, under a digest without collisions, is that event.\<close>

lemma toy_hex: "hex_text (sha256 toy_env x)"
  by (induction x) (auto simp: toy_env_def hex_text_def toy_digest_def letter_code_def)

lemma toy_no_collision: "\<not> collision toy_env"
  using inj_toy_digest by (auto simp: collision_def toy_env_def dest: injD)


end
