(* ===== verification/Store.thy ===== *)
theory Store
  imports AuditTrail
begin

text \<open>
  The database rows the financial core reads and writes (\<open>src/db/schema\<close>): agreements and their
  versions, installments, payment attempts, the ledger's journal and accounts, and the audit trail,
  as one record \<open>db\<close> of tables. A table is the list of its rows in insertion order. A UUID primary
  key drawn by \<open>gen_random_uuid()\<close> is the next value of a counter: the program uses nothing of an
  identifier but its being new. An operation that runs in one database transaction is one function
  on \<open>db\<close>; an error inside it leaves the state as it was.
\<close>

datatype agreement_status =
    Draft | AwaitingDebtorAcknowledgment | AwaitingCreditorAcceptance | AwaitingSignatures
  | Signed | FirstPaymentPending | Active | PastDue | Disputed | PausedByAmendment
  | PaidInFull | SettledInFull | MutuallyCanceled | Closed

datatype installment_status = InstScheduled | InstPaid | InstPastDue | InstWaived

datatype payment_status =
    PPending | PSucceeded | PFailed | PCanceled | PRefunded | PDisputed | PReversed
  | PScheduled | PSubmitted | PProcessing | PReturned

datatype account_type =
    ProcessorClearing | CreditorProceedsPayable | PlatformFeeRevenue | ProcessorFeeExpense
  | CreditorClawbackExposure | AdminAdjustmentSuspense

datatype entry_type =
  PaymentCleared | Refund | Reversal | Payout | DisputeAdjustment | AdminAdjustment

datatype direction = Debit | Credit

datatype payment_method = Ach | DebitCard | ManualOffPlatform

text \<open>A party of an agreement: which profile of which kind.\<close>

type_synonym profile_ref = "profile_kind \<times> uuid"

record agreement_row =
  agId :: uuid
  agStatus :: agreement_status
  agCurrentVersion :: "uuid option"
  agCreditor :: profile_ref
  agDebtor :: profile_ref
  agCurrency :: string
  agCreatedBy :: uuid
  agRelationship :: "uuid option"

datatype party_role = Creditor | Debtor

datatype fee_allocation = CreditorPays | DebtorPays | SplitEvenly

text \<open>The terms of a version, one \<open>jsonb\<close> value in the database.\<close>

record agreement_terms =
  tmCategory :: string
  tmDescription :: string
  tmOriginal :: int
  tmPrevious :: int
  tmPrincipal :: int
  tmFirst :: int
  tmInstallment :: int
  tmFirstDate :: string
  tmFinal :: int
  tmCount :: int
  tmPayoff :: string
  tmHardship :: string
  tmPartial :: string
  tmSettlement :: string
  tmDispute :: string
  tmEvidence :: "string list"

record version_row =
  avId :: uuid
  avAgreement :: uuid
  avNumber :: int
  avParent :: "uuid option"
  avOriginal :: bool
  avProducedBy :: string
  avFrequency :: payment_frequency
  avFee :: fee_allocation
  avTerms :: agreement_terms
  avHash :: "string option"
  avCreditorSigned :: "msec option"
  avDebtorSigned :: "msec option"
  avSigned :: "msec option"

abbreviation avPrincipal :: "version_row \<Rightarrow> int" where
  "avPrincipal v \<equiv> tmPrincipal (avTerms v)"

record party_row =
  pyAgreement :: uuid
  pyRole :: party_role
  pyProfile :: profile_ref

text \<open>Who signed which version, in what capacity, over which hash.\<close>

record signature_row =
  sgId :: uuid
  sgVersion :: uuid
  sgUser :: uuid
  sgProfile :: profile_ref
  sgRole :: party_role
  sgAuthority :: "string option"
  sgTitle :: "string option"
  sgConsent :: bool
  sgConsentVersion :: string
  sgMethod :: string
  sgIp :: string
  sgDevice :: json
  sgTimezone :: string
  sgHash :: string
  sgAt :: msec

record installment_row =
  inId :: uuid
  inVersion :: uuid
  inSequence :: int
  inDueDate :: string
  inAmount :: int
  inStatus :: installment_status

record payment_row =
  paId :: uuid
  paKey :: string
  paPayer :: profile_ref
  paRecipient :: profile_ref
  paAmount :: int
  paCurrency :: string
  paAgreement :: "uuid option"
  paStatus :: payment_status
  paProviderName :: string
  paProviderId :: "string option"
  paFailureReason :: "string option"
  paInstallment :: "uuid option"
  paMethod :: "payment_method option"
  paRecordedBy :: "uuid option"
  paConfirmedAt :: "msec option"
  paPayoutInitiated :: "msec option"
  paPayoutCompleted :: "msec option"
  paBank :: "uuid option"
  paLifecycleChecked :: "msec option"
  paRepairNext :: "msec option"
  paSettlement :: "uuid option"
  paCreatedAt :: msec
  paUpdatedAt :: msec

record posting =
  poAccount :: uuid
  poType :: account_type
  poDirection :: direction
  poAmount :: int

record journal_entry =
  jeId :: uuid
  jeType :: entry_type
  jeAgreement :: uuid
  jePayment :: uuid
  jeCurrency :: string
  jeReason :: "string option"
  jePostings :: "posting list"

record account_row =
  acId :: uuid
  acType :: account_type
  acAgreement :: uuid

text \<open>The webhook inbox: one row per provider event, with its processing state, lease and claim.\<close>

datatype processing_status = EvReceived | EvProcessing | EvProcessed | EvFailed

datatype event_source = SignedWebhook | ProviderLookup

record webhook_row =
  weId :: uuid
  weProvider :: string
  weEventId :: string
  weType :: string
  weSource :: event_source
  weVerified :: bool
  wePayload :: json
  weReceivedAt :: msec
  weProcessedAt :: "msec option"
  weStatus :: processing_status
  weAttempts :: int
  weStartedAt :: "msec option"
  weLastFailedAt :: "msec option"
  weErrorCode :: "string option"
  weNextRetry :: "msec option"
  weLease :: "msec option"
  weToken :: "uuid option"
  weProviderPayment :: "string option"
  weAppliedAt :: "msec option"
  weFrom :: "payment_status option"
  weTo :: "payment_status option"

datatype exception_type =
    MissingProviderTransaction | UnmatchedProviderTransaction | AmountMismatch | CurrencyMismatch
  | DuplicateTransaction | StatusMismatch | ReversalRefundMismatch | StalePendingSettlement
  | InternalPostingFailure | ProviderEventWithoutState | ProcessorFeeMismatch | PlatformFeeMismatch
  | ProviderIdentityMismatch

record exception_row =
  exId :: uuid
  exType :: exception_type
  exPayment :: "uuid option"
  exEvent :: "string option"
  exDetails :: json
  exOpen :: bool
  exDetectedAt :: msec
  exResolvedAt :: "msec option"
  exResolvedBy :: "uuid option"
  exResolution :: "string option"

text \<open>Retries of a failed charge, proposals to pay part of an installment, claims that a payment
  was unauthorized.\<close>

datatype retry_status = RtScheduled | RtClaimed | RtFired | RtCanceled

record retry_row =
  rtId :: uuid
  rtOriginal :: uuid
  rtInstallment :: uuid
  rtAgreement :: uuid
  rtScheduledFor :: msec
  rtStatus :: retry_status
  rtResulting :: "uuid option"
  rtFiredAt :: "msec option"
  rtCanceledAt :: "msec option"
  rtCanceledReason :: "string option"
  rtToken :: "uuid option"
  rtNextResolution :: "msec option"

datatype partial_status = PpProposed | PpAwaitingPayment | PpApplied | PpRejected | PpExpired

record partial_row =
  ppId :: uuid
  ppAgreement :: uuid
  ppInstallment :: "uuid option"
  ppStatus :: partial_status
  ppProposingRole :: party_role
  ppProposedBy :: profile_ref
  ppAmount :: int
  ppDate :: string
  ppExplanation :: "string option"
  ppRemainder :: "string option"
  ppRejectedReason :: "string option"
  ppRejectedAt :: "msec option"
  ppPayment :: "uuid option"
  ppAppliedAt :: "msec option"
  ppExpiredAt :: "msec option"
  ppUpdatedAt :: msec

datatype claim_category = UnauthorizedAch | UnauthorizedDebitCard | ProcessorDispute

datatype claim_status = ClaimOpen | ClaimUpheld | ClaimDenied

record claim_row =
  clId :: uuid
  clPayment :: uuid
  clStatus :: claim_status
  clCategory :: claim_category
  clExplanation :: string
  clBy :: profile_ref
  clByUser :: uuid
  clMandate :: "string option"
  clSignature :: "string option"
  clIdentity :: "string option"
  clIp :: "string option"
  clDevice :: json
  clNotes :: "string option"
  clResolvedBy :: "uuid option"
  clResolvedAt :: "msec option"

text \<open>Changes to an agreement in force: amendments, settlements, cancellation requests, disputes.\<close>

datatype amendment_status = AmProposed | AmAwaitingSignatures | AmSigned | AmApplied | AmRejected | AmWithdrawn

datatype amendment_change = NewDate | TemporaryPause | ReducedInstallment | RevisedSchedule | GeneralChange

record amendment_row =
  amId :: uuid
  amAgreement :: uuid
  amChange :: amendment_change
  amStatus :: amendment_status
  amRole :: party_role
  amBy :: profile_ref
  amReason :: string
  amRelief :: "string option"
  amEffective :: "string option"
  amFrequency :: payment_frequency
  amFee :: fee_allocation
  amTerms :: agreement_terms
  amCreditorSigned :: "msec option"
  amDebtorSigned :: "msec option"
  amSigned :: "msec option"
  amResulting :: "uuid option"
  amRejectedReason :: "string option"
  amRejectedAt :: "msec option"
  amWithdrawnReason :: "string option"
  amWithdrawnAt :: "msec option"
  amUpdatedAt :: msec

datatype settlement_status = SeProposed | SeAwaitingPayment | SeRejected | SeCompleted | SeConsequenceApplied

datatype settlement_mode = OneTime | Scheduled

datatype settlement_consequence = RestoreOriginal | RestoreStated | ForgivePermanently | PriorAgreementControls

record settlement_terms =
  stBalance :: int
  stAmount :: int
  stForgiven :: int
  stDeadline :: string
  stMode :: settlement_mode
  stConsequence :: settlement_consequence
  stStated :: "int option"

record settlement_row =
  seId :: uuid
  seAgreement :: uuid
  seStatus :: settlement_status
  seRole :: party_role
  seBy :: profile_ref
  seTerms :: settlement_terms
  seRejectedReason :: "string option"
  seRejectedAt :: "msec option"
  seAcceptedAt :: "msec option"
  seCompletedAt :: "msec option"
  seResolved :: "settlement_consequence option"
  seRestored :: "int option"
  seForgiven :: "int option"
  seResolvedAt :: "msec option"
  seUpdatedAt :: msec

record settlement_payment_row =
  slProposal :: uuid
  slPayment :: uuid
  slAmount :: int

datatype cancellation_status = CrPending | CrAccepted | CrRejected

record cancellation_row =
  crId :: uuid
  crAgreement :: uuid
  crStatus :: cancellation_status
  crRole :: party_role
  crBy :: profile_ref
  crReason :: string
  crDecidedBy :: "profile_ref option"
  crRejectedReason :: "string option"
  crDecidedAt :: "msec option"
  crUpdatedAt :: msec

datatype dispute_status = DiOpened | DiUnderReview | DiResolvedNoChange | DiResolvedWithAmendment | DiRestricted | DiClosed

datatype dispute_category =
  DebtDoesNotExist | IncorrectAmount | EvidenceChallenged | AdministrationChallenged | OtherDispute

record dispute_row =
  diId :: uuid
  diAgreement :: uuid
  diStatus :: dispute_status
  diCategory :: dispute_category
  diExplanation :: string
  diRole :: party_role
  diBy :: profile_ref
  diByUser :: uuid
  diResponse :: "string option"
  diRespondedBy :: "uuid option"
  diRespondedAt :: "msec option"
  diNotes :: "string option"
  diResolvedAt :: "msec option"
  diAmendment :: "uuid option"
  diRestrictedReason :: "string option"
  diRestrictedBy :: "uuid option"
  diRestrictedAt :: "msec option"
  diLiftedAt :: "msec option"
  diClosedAt :: "msec option"
  diUpdatedAt :: msec

text \<open>Evidence attached to an agreement, and its witnesses.\<close>

datatype evidence_type = Invoice | Receipt | Contract | Estimate | PurchaseOrder | ProofOfDelivery
  | ProofOfCompletedWork | PriorPaymentRecord | OtherEvidence

datatype evidence_visibility = Shared | Private

record evidence_row =
  evId :: uuid
  evAgreement :: uuid
  evUploader :: uuid
  evType :: evidence_type
  evDescription :: "string option"
  evPath :: string
  evHash :: string
  evSize :: int
  evContentType :: string
  evPostSigning :: bool
  evVisibility :: evidence_visibility
  evForWitnesses :: bool
  evDisputeFlag :: bool
  evWithdrawn :: bool

record witness_row =
  wiId :: uuid
  wiAgreement :: uuid
  wiUser :: uuid
  wiAddedBy :: uuid
  wiVersion :: "uuid option"
  wiAttestedAt :: "msec option"
  wiIp :: "string option"
  wiDevice :: json

record db =
  nextId :: uuid
  agreements :: "agreement_row list"
  versions :: "version_row list"
  parties :: "party_row list"
  signatures :: "signature_row list"
  installments :: "installment_row list"
  payments :: "payment_row list"
  accounts :: "account_row list"
  entries :: "journal_entry list"
  webhooks :: "webhook_row list"
  exceptions :: "exception_row list"
  retries :: "retry_row list"
  partials :: "partial_row list"
  claims :: "claim_row list"
  amendments :: "amendment_row list"
  settlements :: "settlement_row list"
  settlementPayments :: "settlement_payment_row list"
  cancellations :: "cancellation_row list"
  disputes :: "dispute_row list"
  evidences :: "evidence_row list"
  witnesses :: "witness_row list"
  audits :: "audit_row list"

definition audit :: "env \<Rightarrow> audit_payload \<Rightarrow> db \<Rightarrow> db" where
  "audit E p s = s\<lparr>audits := record_audit E p (audits s)\<rparr>"

lemma audit_frame [simp, frame_simps]:
  "nextId (audit E p s) = nextId s"
  "agreements (audit E p s) = agreements s"
  "versions (audit E p s) = versions s"
  "parties (audit E p s) = parties s"
  "signatures (audit E p s) = signatures s"
  "installments (audit E p s) = installments s"
  "payments (audit E p s) = payments s"
  "accounts (audit E p s) = accounts s"
  "entries (audit E p s) = entries s"
  "webhooks (audit E p s) = webhooks s"
  "exceptions (audit E p s) = exceptions s"
  "retries (audit E p s) = retries s"
  "partials (audit E p s) = partials s"
  "claims (audit E p s) = claims s"
  "amendments (audit E p s) = amendments s"
  "settlements (audit E p s) = settlements s"
  "settlementPayments (audit E p s) = settlementPayments s"
  "cancellations (audit E p s) = cancellations s"
  "disputes (audit E p s) = disputes s"
  "evidences (audit E p s) = evidences s"
  "witnesses (audit E p s) = witnesses s"
  by (simp_all add: audit_def)

abbreviation find_agreement :: "uuid \<Rightarrow> db \<Rightarrow> agreement_row option" where
  "find_agreement i s \<equiv> lookup_by agId i (agreements s)"

abbreviation find_version :: "uuid \<Rightarrow> db \<Rightarrow> version_row option" where
  "find_version i s \<equiv> lookup_by avId i (versions s)"

abbreviation find_installment :: "uuid \<Rightarrow> db \<Rightarrow> installment_row option" where
  "find_installment i s \<equiv> lookup_by inId i (installments s)"

abbreviation find_payment :: "uuid \<Rightarrow> db \<Rightarrow> payment_row option" where
  "find_payment i s \<equiv> lookup_by paId i (payments s)"

abbreviation find_webhook :: "uuid \<Rightarrow> db \<Rightarrow> webhook_row option" where
  "find_webhook i s \<equiv> lookup_by weId i (webhooks s)"

abbreviation find_retry :: "uuid \<Rightarrow> db \<Rightarrow> retry_row option" where
  "find_retry i s \<equiv> lookup_by rtId i (retries s)"

abbreviation find_partial :: "uuid \<Rightarrow> db \<Rightarrow> partial_row option" where
  "find_partial i s \<equiv> lookup_by ppId i (partials s)"

abbreviation find_claim :: "uuid \<Rightarrow> db \<Rightarrow> claim_row option" where
  "find_claim i s \<equiv> lookup_by clId i (claims s)"

abbreviation find_amendment :: "uuid \<Rightarrow> db \<Rightarrow> amendment_row option" where
  "find_amendment i s \<equiv> lookup_by amId i (amendments s)"

abbreviation find_settlement :: "uuid \<Rightarrow> db \<Rightarrow> settlement_row option" where
  "find_settlement i s \<equiv> lookup_by seId i (settlements s)"

abbreviation find_cancellation :: "uuid \<Rightarrow> db \<Rightarrow> cancellation_row option" where
  "find_cancellation i s \<equiv> lookup_by crId i (cancellations s)"

abbreviation find_dispute :: "uuid \<Rightarrow> db \<Rightarrow> dispute_row option" where
  "find_dispute i s \<equiv> lookup_by diId i (disputes s)"

abbreviation find_evidence :: "uuid \<Rightarrow> db \<Rightarrow> evidence_row option" where
  "find_evidence i s \<equiv> lookup_by evId i (evidences s)"

definition empty_db :: db where
  "empty_db = \<lparr>nextId = 1, agreements = [], versions = [], parties = [], signatures = [], installments = [], payments = [],
     accounts = [], entries = [], webhooks = [], exceptions = [], retries = [],
     partials = [], claims = [], amendments = [], settlements = [], settlementPayments = [],
     cancellations = [], disputes = [], evidences = [], witnesses = [], audits = []\<rparr>"

end
