(* ===== verification/Ledger.thy ===== *)
theory Ledger
  imports Store
begin

text \<open>
  The double-entry ledger (\<open>src/lib/ledger/ledgerService.ts\<close> over its two repositories): accounts
  found or created per agreement, the append-only journal with its unique index on
  \<open>(payment_attempt_id, entry_type)\<close>, and the four posting operations. A posting operation checks
  for an existing entry, builds a balanced set of postings and inserts it; an insertion the index
  refuses is answered with the entry that won the race.

  The journal is used through the locale \<open>unique_journal\<close>: what a lookup returns after an insertion,
  and that an insertion never changes another key. Its lemmas (at most one entry per key, idempotent
  get-or-insert) are proved there and interpreted on the repository model.
\<close>

section \<open>Accounts\<close>

definition find_account :: "account_type \<Rightarrow> uuid \<Rightarrow> account_row list \<Rightarrow> account_row option" where
  "find_account ty ag rows = lookup_by (\<lambda>a. (acType a, acAgreement a)) (ty, ag) rows"

definition find_or_create_account :: "account_type \<Rightarrow> uuid \<Rightarrow> db \<Rightarrow> uuid \<times> db" where
  "find_or_create_account ty ag s =
     (case find_account ty ag (accounts s) of
        Some a \<Rightarrow> (acId a, s)
      | None \<Rightarrow> (nextId s,
          s\<lparr>accounts := accounts s @ [\<lparr>acId = nextId s, acType = ty, acAgreement = ag\<rparr>],
            nextId := Suc (nextId s)\<rparr>))"

section \<open>The journal\<close>

abbreviation entry_key :: "journal_entry \<Rightarrow> uuid \<times> entry_type" where
  "entry_key e \<equiv> (jePayment e, jeType e)"

definition find_by_payment_and_type :: "uuid \<Rightarrow> entry_type \<Rightarrow> db \<Rightarrow> journal_entry option" where
  "find_by_payment_and_type p ty s = lookup_by entry_key (p, ty) (entries s)"

record entry_input =
  eiType :: entry_type
  eiAgreement :: uuid
  eiPayment :: uuid
  eiCurrency :: string
  eiReason :: "string option"
  eiPostings :: "posting list"

text \<open>The columns of a posting: a positive amount that fits the \<open>integer\<close> type.\<close>

definition posting_row_ok :: "posting \<Rightarrow> bool" where
  "posting_row_ok p \<longleftrightarrow> 0 < poAmount p \<and> int4_ok (poAmount p)"

text \<open>One transaction: entry row and postings, or nothing.\<close>

definition insert_entry :: "entry_input \<Rightarrow> db \<Rightarrow> error + (journal_entry \<times> db)" where
  "insert_entry inp s =
     (if find_by_payment_and_type (eiPayment inp) (eiType inp) s \<noteq> None
      then Inl (ForeignError ''ledger_journal_entry_payment_type_unique'')
      else if \<not> list_all posting_row_ok (eiPostings inp)
      then Inl (ForeignError ''ledger_posting_amount'')
      else (let e = \<lparr>jeId = nextId s, jeType = eiType inp, jeAgreement = eiAgreement inp,
                     jePayment = eiPayment inp, jeCurrency = eiCurrency inp,
                     jeReason = eiReason inp, jePostings = eiPostings inp\<rparr>
            in Inr (e, s\<lparr>entries := entries s @ [e], nextId := Suc (nextId s)\<rparr>)))"

definition list_for_agreement :: "uuid \<Rightarrow> db \<Rightarrow> journal_entry list" where
  "list_for_agreement ag s = filter (\<lambda>e. jeAgreement e = ag) (entries s)"

definition list_for_payment_attempt :: "uuid \<Rightarrow> db \<Rightarrow> journal_entry list" where
  "list_for_payment_attempt p s = filter (\<lambda>e. jePayment e = p) (entries s)"

section \<open>Checks\<close>

definition assert_non_negative_integer :: "int \<Rightarrow> string \<Rightarrow> error option" where
  "assert_non_negative_integer v label =
     (if \<not> safe_int v \<or> v < 0 then Some (FinancialIntegrityError label) else None)"

fun posting_totals :: "posting list \<Rightarrow> int \<Rightarrow> int \<Rightarrow> error + (int \<times> int)" where
  "posting_totals [] debits credits = Inr (debits, credits)"
| "posting_totals (p # ps) debits credits =
     (case assert_non_negative_integer (poAmount p) ''amountMinorUnits'' of
        Some e \<Rightarrow> Inl e
      | None \<Rightarrow> (if poDirection p = Debit
                 then posting_totals ps (js_add debits (poAmount p)) credits
                 else posting_totals ps debits (js_add credits (poAmount p))))"

definition assert_balanced :: "posting list \<Rightarrow> error option" where
  "assert_balanced ps =
     (case posting_totals ps 0 0 of
        Inl e \<Rightarrow> Some e
      | Inr (debits, credits) \<Rightarrow>
          if debits \<noteq> credits then Some (ConfigurationError ''LedgerNotBalanced'') else None)"

section \<open>Posting\<close>

text \<open>The postings as the audit trail keeps them.\<close>

definition account_type_name :: "account_type \<Rightarrow> string" where
  "account_type_name t = (case t of
      ProcessorClearing \<Rightarrow> ''processor_clearing''
    | CreditorProceedsPayable \<Rightarrow> ''creditor_proceeds_payable''
    | PlatformFeeRevenue \<Rightarrow> ''platform_fee_revenue''
    | ProcessorFeeExpense \<Rightarrow> ''processor_fee_expense''
    | CreditorClawbackExposure \<Rightarrow> ''creditor_clawback_exposure''
    | AdminAdjustmentSuspense \<Rightarrow> ''admin_adjustment_suspense'')"

definition direction_name :: "direction \<Rightarrow> string" where
  "direction_name d = (case d of Debit \<Rightarrow> ''debit'' | Credit \<Rightarrow> ''credit'')"

definition entry_type_name :: "entry_type \<Rightarrow> string" where
  "entry_type_name t = (case t of PaymentCleared \<Rightarrow> ''payment_cleared'' | Refund \<Rightarrow> ''refund''
     | Reversal \<Rightarrow> ''reversal'' | Payout \<Rightarrow> ''payout''
     | DisputeAdjustment \<Rightarrow> ''dispute_adjustment'' | AdminAdjustment \<Rightarrow> ''admin_adjustment'')"

definition record_ledger_audit ::
    "env \<Rightarrow> journal_entry \<Rightarrow> string \<Rightarrow> uuid option \<Rightarrow> string \<Rightarrow> db \<Rightarrow> db" where
  "record_ledger_audit E e act actor role s =
     audit E ((blank_audit act (clock E))
       \<lparr>actorUserId := actor, actorRole := Some role, auditAgreementId := Some (jeAgreement e),
        newValue := JArr (map (\<lambda>p. JObj [(''accountType'', JStr (account_type_name (poType p))),
            (''direction'', JStr (direction_name (poDirection p))),
            (''amountMinorUnits'', JNum (poAmount p))]) (jePostings e)),
        reason := jeReason e, targetResourceType := Value ''ledger_journal_entry'',
        targetResourceId := Value (jeId e)\<rparr>) s"

text \<open>Insertion with the race re-check: a refused insertion returns the winner's entry, if any.\<close>

definition insert_idempotently :: "entry_input \<Rightarrow> db \<Rightarrow> error + (journal_entry \<times> db)" where
  "insert_idempotently inp s =
     (case insert_entry inp s of
        Inr r \<Rightarrow> Inr r
      | Inl err \<Rightarrow>
          (case find_by_payment_and_type (eiPayment inp) (eiType inp) s of
             Some raced \<Rightarrow> Inr (raced, s)
           | None \<Rightarrow> Inl err))"

record cleared_input =
  ciPayment :: uuid
  ciAgreement :: uuid
  ciCurrency :: string
  ciGross :: int
  ciProcessorFee :: "int option"
  ciPlatformFee :: "int option"

definition fee_or_zero :: "int option \<Rightarrow> int" where
  "fee_or_zero f = (case f of None \<Rightarrow> 0 | Some n \<Rightarrow> n)"

text \<open>A leg is pushed, and its account created, only for a positive amount.\<close>

definition push_credit ::
    "account_type \<Rightarrow> uuid \<Rightarrow> int \<Rightarrow> posting list \<times> db \<Rightarrow> posting list \<times> db" where
  "push_credit ty ag amount ps_s =
     (if 0 < amount then
        (case find_or_create_account ty ag (snd ps_s) of (acc, s') \<Rightarrow>
          (fst ps_s @ [\<lparr>poAccount = acc, poType = ty, poDirection = Credit, poAmount = amount\<rparr>], s'))
      else ps_s)"

text \<open>
  An operation returns its result or error with the database it leaves: an account created before a
  later failure stays, since only the journal insertion is a transaction.
\<close>

definition post_payment_cleared ::
    "env \<Rightarrow> cleared_input \<Rightarrow> db \<Rightarrow> (error + journal_entry) \<times> db" where
  "post_payment_cleared E inp s =
     (case find_by_payment_and_type (ciPayment inp) PaymentCleared s of
        Some existing \<Rightarrow> (Inr existing, s)
      | None \<Rightarrow>
         (let processorFee = fee_or_zero (ciProcessorFee inp);
              platformFee = fee_or_zero (ciPlatformFee inp)
          in case assert_non_negative_integer (ciGross inp) ''grossAmountMinorUnits'' of
               Some e \<Rightarrow> (Inl e, s)
             | None \<Rightarrow>
          (case assert_non_negative_integer processorFee ''processorFeeMinorUnits'' of
               Some e \<Rightarrow> (Inl e, s)
             | None \<Rightarrow>
          (case assert_non_negative_integer platformFee ''platformFeeMinorUnits'' of
               Some e \<Rightarrow> (Inl e, s)
             | None \<Rightarrow>
          (if ciGross inp = 0 then (Inl (FinancialIntegrityError ''grossAmountZero''), s)
           else
             (let creditorNet = js_sub (js_sub (ciGross inp) processorFee) platformFee
              in if creditorNet < 0 then (Inl (FinancialIntegrityError ''feesExceedGross''), s)
                 else
                   (case find_or_create_account ProcessorClearing (ciAgreement inp) s of (acc, s0) \<Rightarrow>
                    (case push_credit ProcessorFeeExpense (ciAgreement inp) processorFee
                         (push_credit PlatformFeeRevenue (ciAgreement inp) platformFee
                         (push_credit CreditorProceedsPayable (ciAgreement inp) creditorNet
                           ([\<lparr>poAccount = acc, poType = ProcessorClearing, poDirection = Debit,
                              poAmount = ciGross inp\<rparr>], s0)))
                     of (ps, s1) \<Rightarrow>
                       (case assert_balanced ps of
                          Some e \<Rightarrow> (Inl e, s1)
                        | None \<Rightarrow>
                            (case insert_idempotently
                               \<lparr>eiType = PaymentCleared, eiAgreement = ciAgreement inp,
                                eiPayment = ciPayment inp, eiCurrency = ciCurrency inp,
                                eiReason = None, eiPostings = ps\<rparr> s1 of
                               Inl e \<Rightarrow> (Inl e, s1)
                             | Inr (entry, s2) \<Rightarrow>
                                 (Inr entry, record_ledger_audit E entry ''ledger_payment_cleared''
                                    None ''ledger_system'' s2)))))))))))"

definition opposite :: "direction \<Rightarrow> direction" where
  "opposite d = (if d = Debit then Credit else Debit)"

definition find_leg :: "account_type \<Rightarrow> journal_entry \<Rightarrow> posting option" where
  "find_leg ty e = find (\<lambda>p. poType p = ty) (jePostings e)"

text \<open>The postings of a reversal: a clawback after a payout, the mirror image before.\<close>

definition reversal_postings ::
    "journal_entry \<Rightarrow> journal_entry option \<Rightarrow> db \<Rightarrow> (error + posting list) \<times> db" where
  "reversal_postings clearEntry payoutEntry s =
     (case payoutEntry of
        Some _ \<Rightarrow>
          (case find_leg CreditorProceedsPayable clearEntry of
             None \<Rightarrow> (Inl (ConfigurationError ''missingCreditorLeg''), s)
           | Some leg \<Rightarrow>
              (case find_or_create_account CreditorClawbackExposure (jeAgreement clearEntry) s of
                 (clawback, s1) \<Rightarrow>
              (case find_or_create_account ProcessorClearing (jeAgreement clearEntry) s1 of
                 (clearing, s2) \<Rightarrow>
                 (Inr [\<lparr>poAccount = clawback, poType = CreditorClawbackExposure,
                        poDirection = Debit, poAmount = poAmount leg\<rparr>,
                       \<lparr>poAccount = clearing, poType = ProcessorClearing,
                        poDirection = Credit, poAmount = poAmount leg\<rparr>], s2))))
      | None \<Rightarrow>
          (Inr (map (\<lambda>p. p\<lparr>poDirection := opposite (poDirection p)\<rparr>) (jePostings clearEntry)), s))"

definition automatic_reversal :: "entry_type \<Rightarrow> bool" where
  "automatic_reversal t \<longleftrightarrow> t = Refund \<or> t = Reversal \<or> t = DisputeAdjustment"

definition reverse_payment ::
    "env \<Rightarrow> uuid \<Rightarrow> entry_type \<Rightarrow> string option \<Rightarrow> db \<Rightarrow> (error + journal_entry) \<times> db" where
  "reverse_payment E pay ty why s =
     (case find_by_payment_and_type pay ty s of
        Some existing \<Rightarrow> (Inr existing, s)
      | None \<Rightarrow>
         (case find_by_payment_and_type pay PaymentCleared s of
            None \<Rightarrow> (Inl (ValidationError ''NotCleared''), s)
          | Some clearEntry \<Rightarrow>
             (case reversal_postings clearEntry (find_by_payment_and_type pay Payout s) s of
                (Inl e, s1) \<Rightarrow> (Inl e, s1)
              | (Inr ps, s1) \<Rightarrow>
                 (case assert_balanced ps of
                    Some e \<Rightarrow> (Inl e, s1)
                  | None \<Rightarrow>
                     (case insert_idempotently
                        \<lparr>eiType = ty, eiAgreement = jeAgreement clearEntry, eiPayment = pay,
                         eiCurrency = jeCurrency clearEntry, eiReason = why, eiPostings = ps\<rparr> s1 of
                        Inl e \<Rightarrow> (Inl e, s1)
                      | Inr (entry, s2) \<Rightarrow>
                          (Inr entry, record_ledger_audit E entry (''ledger_'' @ entry_type_name ty)
                             None ''ledger_system'' s2))))))"

definition post_payout :: "env \<Rightarrow> uuid \<Rightarrow> string option \<Rightarrow> db \<Rightarrow> (error + journal_entry) \<times> db" where
  "post_payout E pay why s =
     (case find_by_payment_and_type pay Payout s of
        Some existing \<Rightarrow> (Inr existing, s)
      | None \<Rightarrow>
         (case find_by_payment_and_type pay PaymentCleared s of
            None \<Rightarrow> (Inl (ValidationError ''NotCleared''), s)
          | Some clearEntry \<Rightarrow>
             (if list_ex (\<lambda>ty. find_by_payment_and_type pay ty s \<noteq> None)
                   [Refund, Reversal, DisputeAdjustment]
              then (Inl (ValidationError ''RefundedReversedOrDisputed''), s)
              else (case find_leg CreditorProceedsPayable clearEntry of
                 None \<Rightarrow> (Inl (ValidationError ''NoCreditorProceeds''), s)
               | Some leg \<Rightarrow>
                   (case find_or_create_account ProcessorClearing (jeAgreement clearEntry) s of
                      (clearing, s1) \<Rightarrow>
                      (let ps = [\<lparr>poAccount = poAccount leg, poType = CreditorProceedsPayable,
                                  poDirection = Debit, poAmount = poAmount leg\<rparr>,
                                 \<lparr>poAccount = clearing, poType = ProcessorClearing,
                                  poDirection = Credit, poAmount = poAmount leg\<rparr>]
                       in case assert_balanced ps of
                            Some e \<Rightarrow> (Inl e, s1)
                          | None \<Rightarrow>
                             (case insert_idempotently
                                \<lparr>eiType = Payout, eiAgreement = jeAgreement clearEntry,
                                 eiPayment = pay, eiCurrency = jeCurrency clearEntry,
                                 eiReason = why, eiPostings = ps\<rparr> s1 of
                                Inl e \<Rightarrow> (Inl e, s1)
                              | Inr (entry, s2) \<Rightarrow>
                                  (Inr entry, record_ledger_audit E entry ''ledger_payout''
                                     None ''ledger_system'' s2))))))))"

record adjustment_input =
  aiPayment :: uuid
  aiAgreement :: uuid
  aiCurrency :: string
  aiTarget :: account_type
  aiDirection :: direction
  aiAmount :: int
  aiReason :: string
  aiActor :: uuid

definition is_space :: "char \<Rightarrow> bool" where
  "is_space c \<longleftrightarrow> c \<in> {CHR '' '', CHR 0x09, CHR 0x0A, CHR 0x0B, CHR 0x0C, CHR 0x0D, CHR 0xA0}"

text \<open>\<open>!text.trim()\<close>\<close>

definition blank_text :: "string \<Rightarrow> bool" where
  "blank_text s \<longleftrightarrow> list_all is_space s"

text \<open>The one posting that may not repeat: a second adjustment is a conflict, also when raced.\<close>

definition post_admin_adjustment ::
    "env \<Rightarrow> adjustment_input \<Rightarrow> db \<Rightarrow> (error + journal_entry) \<times> db" where
  "post_admin_adjustment E inp s =
     (if blank_text (aiReason inp) then (Inl (ValidationError ''ReasonRequired''), s)
      else case assert_non_negative_integer (aiAmount inp) ''amountMinorUnits'' of
        Some e \<Rightarrow> (Inl e, s)
      | None \<Rightarrow>
     (if aiAmount inp = 0 then (Inl (ValidationError ''amountZero''), s)
      else case find_by_payment_and_type (aiPayment inp) AdminAdjustment s of
        Some _ \<Rightarrow> (Inl (ConflictError ''AdjustmentAlreadyPosted''), s)
      | None \<Rightarrow>
     (case find_or_create_account (aiTarget inp) (aiAgreement inp) s of (target, s1) \<Rightarrow>
     (case find_or_create_account AdminAdjustmentSuspense (aiAgreement inp) s1 of (susp, s2) \<Rightarrow>
        (let ps = [\<lparr>poAccount = target, poType = aiTarget inp,
                    poDirection = aiDirection inp, poAmount = aiAmount inp\<rparr>,
                   \<lparr>poAccount = susp, poType = AdminAdjustmentSuspense,
                    poDirection = opposite (aiDirection inp), poAmount = aiAmount inp\<rparr>]
         in case assert_balanced ps of
              Some e \<Rightarrow> (Inl e, s2)
            | None \<Rightarrow>
               (case insert_entry
                  \<lparr>eiType = AdminAdjustment, eiAgreement = aiAgreement inp, eiPayment = aiPayment inp,
                   eiCurrency = aiCurrency inp, eiReason = Some (aiReason inp), eiPostings = ps\<rparr> s2 of
                  Inr (entry, s3) \<Rightarrow>
                    (Inr entry, record_ledger_audit E entry ''ledger_admin_adjustment''
                       (Some (aiActor inp)) ''platform_owner'' s3)
                | Inl e \<Rightarrow>
                    (case find_by_payment_and_type (aiPayment inp) AdminAdjustment s2 of
                       Some _ \<Rightarrow> (Inl (ConflictError ''AdjustmentAlreadyPosted''), s2)
                     | None \<Rightarrow> (Inl e, s2))))))))"

section \<open>The journal interface\<close>

text \<open>What the posting operations rely on: an insertion under a key that is taken is refused, a
  successful one is found under its key and leaves the other keys alone.\<close>

definition get_or_insert ::
    "('k \<Rightarrow> 's \<Rightarrow> 'e option) \<Rightarrow> ('i \<Rightarrow> 's \<Rightarrow> 'err + ('e \<times> 's)) \<Rightarrow> ('i \<Rightarrow> 'k) \<Rightarrow>
     'i \<Rightarrow> 's \<Rightarrow> 'err + ('e \<times> 's)" where
  "get_or_insert look ins key i s =
     (case ins i s of
        Inr r \<Rightarrow> Inr r
      | Inl err \<Rightarrow> (case look (key i) s of Some raced \<Rightarrow> Inr (raced, s) | None \<Rightarrow> Inl err))"

text \<open>Any number of callers whose insertions the database takes in the order of the list.\<close>

fun insert_all ::
    "('i \<Rightarrow> 's \<Rightarrow> 'err + ('e \<times> 's)) \<Rightarrow> 'i list \<Rightarrow> 's \<Rightarrow> ('err + 'e) list \<times> 's" where
  "insert_all f [] s = ([], s)"
| "insert_all f (i # is) s =
     (case f i s of
        Inl err \<Rightarrow> (case insert_all f is s of (rs, s') \<Rightarrow> (Inl err # rs, s'))
      | Inr (e, s1) \<Rightarrow> (case insert_all f is s1 of (rs, s') \<Rightarrow> (Inr e # rs, s')))"

locale unique_journal =
  fixes look :: "'k \<Rightarrow> 's \<Rightarrow> 'e option"
    and ins :: "'i \<Rightarrow> 's \<Rightarrow> 'err + ('e \<times> 's)"
    and key :: "'i \<Rightarrow> 'k"
  assumes insert_found: "ins i s = Inr (e, s') \<Longrightarrow> look (key i) s' = Some e"
    and insert_other: "ins i s = Inr (e, s') \<Longrightarrow> k \<noteq> key i \<Longrightarrow> look k s' = look k s"
    and insert_fresh: "ins i s = Inr (e, s') \<Longrightarrow> look (key i) s = None"
begin

lemma goi_found: "get_or_insert look ins key i s = Inr (e, s') \<Longrightarrow> look (key i) s' = Some e"
  by (auto simp: get_or_insert_def dest: insert_found split: sum.splits option.splits)

lemma goi_stable:
  assumes "get_or_insert look ins key i s = Inr (e, s')" and "look k s = Some e0"
  shows "look k s' = Some e0"
proof (cases "ins i s")
  case (Inl err)
  then show ?thesis using assms by (auto simp: get_or_insert_def split: option.splits)
next
  case (Inr r)
  then have i: "ins i s = Inr (e, s')" using assms by (simp add: get_or_insert_def)
  then have "k \<noteq> key i" using insert_fresh [OF i] assms(2) by auto
  then show ?thesis using insert_other [OF i] assms(2) by simp
qed

lemma goi_loser:
  assumes "look (key i) s = Some e"
  shows "get_or_insert look ins key i s = Inr (e, s)"
proof (cases "ins i s")
  case (Inl err)
  then show ?thesis using assms by (simp add: get_or_insert_def)
next
  case (Inr r)
  then show ?thesis using assms insert_fresh [of i s "fst r" "snd r"] by auto
qed

lemma all_stable:
  "insert_all (get_or_insert look ins key) is s = (rs, s') \<Longrightarrow> look k s = Some e \<Longrightarrow>
    look k s' = Some e"
proof (induction "is" arbitrary: s rs)
  case Nil
  then show ?case by simp
next
  case (Cons i "is")
  show ?case
  proof (cases "get_or_insert look ins key i s")
    case (Inl err)
    then show ?thesis using Cons by (auto split: prod.splits)
  next
    case (Inr r)
    then obtain e1 s1 where r: "get_or_insert look ins key i s = Inr (e1, s1)" by (cases r) auto
    have "look k s1 = Some e" using goi_stable [OF r Cons.prems(2)] .
    then show ?thesis using Cons.IH [of s1] Cons.prems(1) r by (auto split: prod.splits)
  qed
qed

text \<open>Whoever asked, and in whatever order the insertions were taken: every caller that got an entry
  under a key got the entry that is stored there in the end.\<close>

lemma all_agree:
  "insert_all (get_or_insert look ins key) is s = (rs, s') \<Longrightarrow> n < length is \<Longrightarrow>
    rs ! n = Inr e \<Longrightarrow> look (key (is ! n)) s' = Some e"
proof (induction "is" arbitrary: s rs n)
  case Nil
  then show ?case by simp
next
  case (Cons i "is")
  show ?case
  proof (cases "get_or_insert look ins key i s")
    case (Inl err)
    then show ?thesis using Cons by (cases n) (auto split: prod.splits)
  next
    case (Inr r)
    then obtain e1 s1 where r: "get_or_insert look ins key i s = Inr (e1, s1)" by (cases r) auto
    obtain rs1 where rs1: "insert_all (get_or_insert look ins key) is s1 = (rs1, s')"
      "rs = Inr e1 # rs1"
      using Cons.prems(1) r by (auto split: prod.splits)
    show ?thesis
    proof (cases n)
      case 0
      then show ?thesis using all_stable [OF rs1(1) goi_found [OF r]] Cons.prems(3) rs1(2) by simp
    next
      case (Suc m)
      then show ?thesis using Cons.IH [OF rs1(1), of m] Cons.prems(2,3) rs1(2) by simp
    qed
  qed
qed

end

definition input_key :: "entry_input \<Rightarrow> uuid \<times> entry_type" where
  "input_key i = (eiPayment i, eiType i)"

definition journal_lookup :: "uuid \<times> entry_type \<Rightarrow> db \<Rightarrow> journal_entry option" where
  "journal_lookup k s = find_by_payment_and_type (fst k) (snd k) s"

interpretation lj: unique_journal journal_lookup insert_entry input_key
proof unfold_locales
  fix i s e s'
  assume i: "insert_entry i s = Inr (e, s')"
  then show "journal_lookup (input_key i) s = None"
    by (auto simp: insert_entry_def journal_lookup_def input_key_def split: if_splits)
  then show "journal_lookup (input_key i) s' = Some e"
    using i by (auto simp: insert_entry_def journal_lookup_def input_key_def Let_def
        find_by_payment_and_type_def lookup_by_append split: if_splits)
next
  fix i s e s' and k :: "uuid \<times> entry_type"
  assume "insert_entry i s = Inr (e, s')" "k \<noteq> input_key i"
  then show "journal_lookup k s' = journal_lookup k s"
    by (cases k) (auto simp: insert_entry_def journal_lookup_def input_key_def Let_def
        find_by_payment_and_type_def lookup_by_append split: if_splits option.splits)
qed

lemma insert_idempotently_goi:
  "insert_idempotently = get_or_insert journal_lookup insert_entry input_key"
  by (intro ext) (simp add: insert_idempotently_def get_or_insert_def journal_lookup_def input_key_def
      split: sum.split option.split)

lemmas find_as_lookup = journal_lookup_def [of "(p, ty)" for p ty, simplified, symmetric]

lemma insert_idempotently_found:
  "insert_idempotently i s = Inr (e, s') \<Longrightarrow>
     find_by_payment_and_type (eiPayment i) (eiType i) s' = Some e"
  using lj.goi_found [of i s e s']
  by (simp add: insert_idempotently_goi journal_lookup_def input_key_def)

lemma insert_idempotently_stable:
  "insert_idempotently i s = Inr (e, s') \<Longrightarrow> find_by_payment_and_type p ty s = Some e0 \<Longrightarrow>
     find_by_payment_and_type p ty s' = Some e0"
  using lj.goi_stable [of i s e s' "(p, ty)" e0]
  by (simp add: insert_idempotently_goi journal_lookup_def)

text \<open>
  Racing posters never double-post: let any number of callers, all past their own check,
  insert for any payments in any order. Every caller that gets an entry gets the one entry the
  journal holds for its payment and type in the end.
\<close>

theorem racing_posters_agree:
  assumes "insert_all insert_idempotently is s = (rs, s')" and "n < length is" and "rs ! n = Inr e"
  shows "find_by_payment_and_type (eiPayment (is ! n)) (eiType (is ! n)) s' = Some e"
  using lj.all_agree [of "is" s rs s' n e] assms
  by (simp add: insert_idempotently_goi journal_lookup_def input_key_def)

definition sample_entry_input :: "uuid \<Rightarrow> int \<Rightarrow> entry_input" where
  "sample_entry_input p n = \<lparr>eiType = PaymentCleared, eiAgreement = 1, eiPayment = p,
     eiCurrency = ''USD'', eiReason = None,
     eiPostings = [\<lparr>poAccount = 1, poType = ProcessorClearing, poDirection = Debit, poAmount = n\<rparr>,
                   \<lparr>poAccount = 2, poType = CreditorProceedsPayable, poDirection = Credit,
                    poAmount = n\<rparr>]\<rparr>"

lemma sample_race:
  "insert_all insert_idempotently [sample_entry_input 7 100, sample_entry_input 7 250] empty_db
    = (let e = \<lparr>jeId = 1, jeType = PaymentCleared, jeAgreement = 1, jePayment = 7,
         jeCurrency = ''USD'', jeReason = None, jePostings = eiPostings (sample_entry_input 7 100)\<rparr>
       in ([Inr e, Inr e], empty_db\<lparr>entries := [e], nextId := 2\<rparr>))"
  by (simp add: sample_entry_input_def insert_idempotently_def insert_entry_def empty_db_def
      find_by_payment_and_type_def posting_row_ok_def int4_ok_def Let_def)

theorem racing_posters_agree_witness:
  "\<exists>e. find_by_payment_and_type 7 PaymentCleared
      (snd (insert_all insert_idempotently [sample_entry_input 7 100, sample_entry_input 7 250] empty_db))
    = Some e \<and> jePostings e = eiPostings (sample_entry_input 7 100)"
proof -
  have "eiPayment (sample_entry_input 7 250) = 7" "eiType (sample_entry_input 7 250) = PaymentCleared"
    by (simp_all add: sample_entry_input_def)
  then show ?thesis
    using racing_posters_agree [OF sample_race [unfolded Let_def], of 1]
    by (simp only: sample_race Let_def snd_conv) simp
qed

end
