(* ===== verification/LedgerLaws.thy ===== *)
theory LedgerLaws
  imports Ledger
begin

text \<open>
  What the posting operations of the ledger keep: the journal's invariant \<open>ledger_ok\<close> (one entry
  per payment and type, one account per type and agreement, every entry exactly balanced with
  positive legs on accounts of its own agreement), the append-only growth of the journal, and the
  functional behaviour of clearing, reversal, payout and adjustment.
\<close>

section \<open>Totals\<close>

definition debits :: "posting list \<Rightarrow> int" where
  "debits ps = sum_list (map (\<lambda>p. if poDirection p = Debit then poAmount p else 0) ps)"

definition credits :: "posting list \<Rightarrow> int" where
  "credits ps = sum_list (map (\<lambda>p. if poDirection p = Credit then poAmount p else 0) ps)"

lemma debits_simps [simp]:
  "debits [] = 0"
  "debits (p # ps) = (if poDirection p = Debit then poAmount p else 0) + debits ps"
  "debits (ps @ qs) = debits ps + debits qs"
  by (simp_all add: debits_def)

lemma credits_simps [simp]:
  "credits [] = 0"
  "credits (p # ps) = (if poDirection p = Credit then poAmount p else 0) + credits ps"
  "credits (ps @ qs) = credits ps + credits qs"
  by (simp_all add: credits_def)

lemma totals_nonneg:
  "list_all (\<lambda>p. 0 \<le> poAmount p) ps \<Longrightarrow> 0 \<le> debits ps \<and> 0 \<le> credits ps"
  by (induction ps) auto

lemma posting_totals_exact:
  assumes "list_all (\<lambda>p. 0 \<le> poAmount p) ps" and "0 \<le> d" and "0 \<le> c"
    and "d + debits ps \<le> max_safe" and "c + credits ps \<le> max_safe"
  shows "posting_totals ps d c = Inr (d + debits ps, c + credits ps)"
  using assms
proof (induction ps arbitrary: d c)
  case Nil
  then show ?case by simp
next
  case (Cons p ps)
  have n: "0 \<le> poAmount p" "0 \<le> debits ps" "0 \<le> credits ps" "list_all (\<lambda>p. 0 \<le> poAmount p) ps"
    using Cons.prems(1) totals_nonneg by auto
  show ?case
  proof (cases "poDirection p")
    case Debit
    have s: "safe_int (poAmount p)" "js_add d (poAmount p) = d + poAmount p"
      using Cons.prems n Debit by (auto intro!: js_add_exact simp: safe_int_def)
    show ?thesis
      using Cons.IH [of "d + poAmount p" c] Cons.prems n s Debit
      by (simp add: assert_non_negative_integer_def algebra_simps)
  next
    case Credit
    have s: "safe_int (poAmount p)" "js_add c (poAmount p) = c + poAmount p"
      using Cons.prems n Credit by (auto intro!: js_add_exact simp: safe_int_def)
    show ?thesis
      using Cons.IH [of d "c + poAmount p"] Cons.prems n s Credit
      by (simp add: assert_non_negative_integer_def algebra_simps)
  qed
qed

lemma posting_totals_negative:
  "\<not> list_all (\<lambda>p. 0 \<le> poAmount p) ps \<Longrightarrow> \<exists>e. posting_totals ps d c = Inl e"
  by (induction ps arbitrary: d c) (auto simp: assert_non_negative_integer_def)

lemma assert_balanced_iff:
  assumes "\<bar>debits ps\<bar> \<le> max_safe" and "\<bar>credits ps\<bar> \<le> max_safe"
  shows "assert_balanced ps = None \<longleftrightarrow> list_all (\<lambda>p. 0 \<le> poAmount p) ps \<and> debits ps = credits ps"
proof (cases "list_all (\<lambda>p. 0 \<le> poAmount p) ps")
  case True
  then show ?thesis
    using posting_totals_exact [OF True, of 0 0] totals_nonneg [OF True] assms
    by (simp add: assert_balanced_def)
next
  case False
  then show ?thesis using posting_totals_negative [OF False, of 0 0] by (auto simp: assert_balanced_def)
qed

text \<open>
  \<open>assertBalanced\<close> is exact: on any postings whose amounts sum to at most \<open>2^53 - 1\<close>, it lets
  through exactly those with non-negative amounts and equal debit and credit totals, although it
  adds in floating point.
\<close>

theorem assert_balanced_exact:
  assumes "\<bar>debits ps\<bar> \<le> max_safe" and "\<bar>credits ps\<bar> \<le> max_safe"
  shows "assert_balanced ps = None \<longleftrightarrow> list_all (\<lambda>p. 0 \<le> poAmount p) ps \<and> debits ps = credits ps"
  using assms by (rule assert_balanced_iff)

theorem assert_balanced_exact_witness:
  "assert_balanced (eiPostings (sample_entry_input 7 100)) = None"
  using assert_balanced_exact [of "eiPostings (sample_entry_input 7 100)"]
  by (simp add: sample_entry_input_def max_safe_def)

section \<open>The invariant\<close>

definition leg_ok :: "db \<Rightarrow> uuid \<Rightarrow> posting \<Rightarrow> bool" where
  "leg_ok s ag p \<longleftrightarrow> posting_row_ok p \<and>
     list_ex (\<lambda>a. acId a = poAccount p \<and> acType a = poType p \<and> acAgreement a = ag) (accounts s)"

definition entry_ok :: "db \<Rightarrow> journal_entry \<Rightarrow> bool" where
  "entry_ok s e \<longleftrightarrow> jePostings e \<noteq> [] \<and> list_all (leg_ok s (jeAgreement e)) (jePostings e) \<and>
     debits (jePostings e) = credits (jePostings e) \<and> int4_ok (debits (jePostings e))"

definition ledger_ok :: "db \<Rightarrow> bool" where
  "ledger_ok s \<longleftrightarrow> distinct (map entry_key (entries s)) \<and>
     distinct (map (\<lambda>a. (acType a, acAgreement a)) (accounts s)) \<and>
     list_all (entry_ok s) (entries s)"

text \<open>What posting leaves alone: every other table; accounts and trail only grow.\<close>

definition only_ledger_grew :: "db \<Rightarrow> db \<Rightarrow> bool" where
  "only_ledger_grew s s' \<longleftrightarrow> nextId s \<le> nextId s' \<and> agreements s' = agreements s \<and> versions s' = versions s \<and>
     installments s' = installments s \<and> payments s' = payments s \<and>
     webhooks s' = webhooks s \<and> exceptions s' = exceptions s \<and>
     retries s' = retries s \<and> partials s' = partials s \<and> claims s' = claims s \<and>
     take (length (accounts s)) (accounts s') = accounts s \<and>
     take (length (entries s)) (entries s') = entries s \<and>
     take (length (audits s)) (audits s') = audits s"

lemma only_ledger_grew_refl [simp]: "only_ledger_grew s s"
  by (simp add: only_ledger_grew_def)

lemma take_prefix_trans:
  assumes "take (length xs) ys = xs" and "take (length ys) zs = ys"
  shows "take (length xs) zs = xs"
proof -
  have "length xs \<le> length ys" by (metis assms(1) length_take min.cobounded1)
  then have "take (length xs) zs = take (length xs) (take (length ys) zs)" by simp
  then show ?thesis using assms by simp
qed

lemma only_ledger_grew_trans:
  "only_ledger_grew s s' \<Longrightarrow> only_ledger_grew s' s'' \<Longrightarrow> only_ledger_grew s s''"
  unfolding only_ledger_grew_def by (auto intro: take_prefix_trans)

lemma take_prefix_obtain:
  assumes "take (length xs) ys = xs"
  obtains zs where "ys = xs @ zs"
  using assms by (metis append_take_drop_id)

lemma leg_ok_mono:
  assumes "leg_ok s ag p" and "only_ledger_grew s s'"
  shows "leg_ok s' ag p"
proof -
  obtain zs where "accounts s' = accounts s @ zs"
    using assms(2) take_prefix_obtain unfolding only_ledger_grew_def by metis
  then show ?thesis using assms(1) by (auto simp: leg_ok_def)
qed

lemma legs_ok_mono:
  "list_all (leg_ok s ag) ps \<Longrightarrow> only_ledger_grew s s' \<Longrightarrow> list_all (leg_ok s' ag) ps"
  by (auto simp: list_all_iff intro: leg_ok_mono)

lemma entry_ok_mono: "entry_ok s e \<Longrightarrow> only_ledger_grew s s' \<Longrightarrow> entry_ok s' e"
  by (auto simp: entry_ok_def intro: legs_ok_mono)

text \<open>Accounts are created with a new key, so the keys stay distinct.\<close>

lemma find_or_create_account_props:
  assumes "find_or_create_account ty ag s = (acc, s')" and "ledger_ok s"
  shows "only_ledger_grew s s' \<and> entries s' = entries s \<and> audits s' = audits s \<and> ledger_ok s' \<and>
    (0 < n \<and> int4_ok n \<longrightarrow>
      leg_ok s' ag \<lparr>poAccount = acc, poType = ty, poDirection = d, poAmount = n\<rparr>)"
proof (cases "find_account ty ag (accounts s)")
  case (Some a)
  then have "a \<in> set (accounts s)" "(acType a, acAgreement a) = (ty, ag)"
    unfolding find_account_def by (fact lookup_by_Some_mem, fact lookup_by_Some_key)
  then show ?thesis using Some assms
    by (auto simp: find_or_create_account_def leg_ok_def posting_row_ok_def list_ex_iff)
next
  case None
  let ?a = "\<lparr>acId = nextId s, acType = ty, acAgreement = ag\<rparr>"
  have s': "s' = s\<lparr>accounts := accounts s @ [?a], nextId := Suc (nextId s)\<rparr>" and acc: "acc = nextId s"
    using assms(1) None by (auto simp: find_or_create_account_def)
  have g: "only_ledger_grew s s'" by (simp add: s' only_ledger_grew_def)
  have "(ty, ag) \<notin> (\<lambda>a. (acType a, acAgreement a)) ` set (accounts s)"
    using None lookup_by_None_iff unfolding find_account_def by metis
  then have "ledger_ok s'"
    using assms(2) entry_ok_mono [OF _ g] unfolding ledger_ok_def
    by (auto simp: s' list_all_iff)
  then show ?thesis using g by (auto simp: s' acc leg_ok_def posting_row_ok_def)
qed

section \<open>The posting contract\<close>

text \<open>
  What every posting operation promises for its key: an error leaves the journal as it was; a result
  is either the entry that was already there, or the one entry appended under a key that was free.
\<close>

definition posts :: "uuid \<times> entry_type \<Rightarrow> db \<Rightarrow> (error + journal_entry) \<times> db \<Rightarrow> bool" where
  "posts k s r \<longleftrightarrow> only_ledger_grew s (snd r) \<and> ledger_ok (snd r) \<and>
     (case fst r of
        Inl _ \<Rightarrow> entries (snd r) = entries s
      | Inr e \<Rightarrow> journal_lookup k (snd r) = Some e \<and>
          (case journal_lookup k s of
             Some e0 \<Rightarrow> e = e0 \<and> entries (snd r) = entries s
           | None \<Rightarrow> entries (snd r) = entries s @ [e]))"

lemma postsD:
  assumes "posts k s r"
  shows "only_ledger_grew s (snd r)" and "ledger_ok (snd r)"
  using assms unfolding posts_def by blast+

lemma posts_error: "ledger_ok s \<Longrightarrow> posts k s (Inl e, s)"
  by (simp add: posts_def)

lemma posts_existing: "ledger_ok s \<Longrightarrow> journal_lookup k s = Some e \<Longrightarrow> posts k s (Inr e, s)"
  by (simp add: posts_def)

lemma posts_error_grew:
  "only_ledger_grew s s' \<Longrightarrow> ledger_ok s' \<Longrightarrow> entries s' = entries s \<Longrightarrow> posts k s (Inl e, s')"
  by (simp add: posts_def)

lemma audit_grew:
  assumes "only_ledger_grew s s'"
  shows "only_ledger_grew s (audit E p s')"
proof -
  obtain suffix where "record_audit E p (audits s') = audits s' @ suffix"
    using record_audit_prefix by blast
  then have "only_ledger_grew s' (audit E p s')" by (simp add: only_ledger_grew_def audit_def)
  then show ?thesis using assms only_ledger_grew_trans by blast
qed

lemma leg_ok_cong: "accounts s' = accounts s \<Longrightarrow> leg_ok s' ag p = leg_ok s ag p"
  by (simp add: leg_ok_def)

lemma ledger_ok_cong:
  assumes "accounts s' = accounts s" and "entries s' = entries s"
  shows "ledger_ok s' = ledger_ok s"
proof -
  have "entry_ok s' = entry_ok s"
    by (rule ext) (simp add: entry_ok_def list_all_iff leg_ok_cong [OF assms(1)])
  then show ?thesis by (simp add: ledger_ok_def assms)
qed

lemma insertion_posts:
  assumes "ledger_ok s" and "list_all (leg_ok s (eiAgreement i)) (eiPostings i)"
    and "eiPostings i \<noteq> []" and "debits (eiPostings i) = credits (eiPostings i)"
    and "int4_ok (debits (eiPostings i))" and free: "journal_lookup (input_key i) s = None"
  obtains e s' where "insert_entry i s = Inr (e, s')" "insert_idempotently i s = Inr (e, s')"
    "jePostings e = eiPostings i" "jeAgreement e = eiAgreement i" "jeCurrency e = eiCurrency i"
    "ledger_ok s'" "only_ledger_grew s s'" "entries s' = entries s @ [e]" "entry_key e = input_key i"
proof -
  let ?e = "\<lparr>jeId = nextId s, jeType = eiType i, jeAgreement = eiAgreement i,
     jePayment = eiPayment i, jeCurrency = eiCurrency i, jeReason = eiReason i,
     jePostings = eiPostings i\<rparr>"
  let ?s = "s\<lparr>entries := entries s @ [?e], nextId := Suc (nextId s)\<rparr>"
  have free: "find_by_payment_and_type (eiPayment i) (eiType i) s = None"
    using free by (simp add: journal_lookup_def input_key_def)
  have rows: "list_all posting_row_ok (eiPostings i)"
    using assms(2) by (auto simp: list_all_iff leg_ok_def)
  have ins: "insert_entry i s = Inr (?e, ?s)"
    using free rows by (simp add: insert_entry_def Let_def)
  have g: "only_ledger_grew s ?s" by (simp add: only_ledger_grew_def)
  have "entry_key ?e \<notin> entry_key ` set (entries s)"
    using free unfolding find_by_payment_and_type_def lookup_by_None_iff by simp
  moreover have "entry_ok ?s ?e"
    using assms(2-5) legs_ok_mono [OF assms(2) g] by (simp add: entry_ok_def)
  moreover have "list_all (entry_ok ?s) (entries s)"
    using assms(1) entry_ok_mono [OF _ g] by (auto simp: ledger_ok_def list_all_iff)
  ultimately have "ledger_ok ?s" using assms(1) by (auto simp: ledger_ok_def)
  moreover have "insert_idempotently i s = Inr (?e, ?s)"
    unfolding insert_idempotently_def ins by simp
  ultimately show thesis
    using that [OF ins] g by (simp add: input_key_def)
qed

lemma posts_inserted:
  assumes "journal_lookup k s = None" and "only_ledger_grew s s1" and "entries s1 = entries s"
    and "only_ledger_grew s1 s2" and "ledger_ok s2" and "entries s2 = entries s1 @ [e]"
    and "entry_key e = k"
  shows "posts k s (Inr e, record_ledger_audit E e act actor role s2)"
proof -
  have l: "lookup_by entry_key k (entries s @ [e]) = Some e"
    using assms(1,7) by (simp add: journal_lookup_def find_by_payment_and_type_def lookup_by_append)
  let ?s = "record_ledger_audit E e act actor role s2"
  have "only_ledger_grew s ?s" unfolding record_ledger_audit_def
    by (rule audit_grew) (rule only_ledger_grew_trans [OF assms(2,4)])
  moreover have "ledger_ok ?s"
    using ledger_ok_cong [of ?s s2] assms(5) by (simp add: record_ledger_audit_def)
  moreover have "entries ?s = entries s @ [e]" using assms(3,6) by (simp add: record_ledger_audit_def)
  ultimately show ?thesis using l assms(1)
    by (simp add: posts_def journal_lookup_def find_by_payment_and_type_def)
qed

section \<open>The four operations keep the contract\<close>

lemma push_credit_props:
  assumes "push_credit ty ag n (ps, s) = (ps', s')" and "ledger_ok s" and "0 \<le> n"
  shows "only_ledger_grew s s' \<and> entries s' = entries s \<and> ledger_ok s' \<and>
    (int4_ok n \<and> list_all (leg_ok s ag) ps \<longrightarrow> list_all (leg_ok s' ag) ps') \<and>
    debits ps' = debits ps \<and> credits ps' = credits ps + n \<and>
    map (\<lambda>p. (poType p, poDirection p, poAmount p)) ps' =
      map (\<lambda>p. (poType p, poDirection p, poAmount p)) ps @ (if 0 < n then [(ty, Credit, n)] else [])"
proof (cases "0 < n")
  case True
  obtain acc s1 where f: "find_or_create_account ty ag s = (acc, s1)" by fastforce
  note props = find_or_create_account_props [OF f assms(2), of n Credit]
  have "list_all (leg_ok s ag) ps \<Longrightarrow> list_all (leg_ok s1 ag) ps" using legs_ok_mono props by blast
  then show ?thesis using props assms(1) True by (auto simp: push_credit_def f)
next
  case False
  then show ?thesis using assms by (simp add: push_credit_def)
qed

abbreviation leg_view :: "posting \<Rightarrow> account_type \<times> direction \<times> int" where
  "leg_view p \<equiv> (poType p, poDirection p, poAmount p)"

text \<open>The legs of a clearing entry, as a function of the amounts.\<close>

definition cleared_legs :: "int \<Rightarrow> int \<Rightarrow> int \<Rightarrow> (account_type \<times> direction \<times> int) list" where
  "cleared_legs gross processor platform =
     [(ProcessorClearing, Debit, gross)]
     @ (if 0 < gross - processor - platform
        then [(CreditorProceedsPayable, Credit, gross - processor - platform)] else [])
     @ (if 0 < platform then [(PlatformFeeRevenue, Credit, platform)] else [])
     @ (if 0 < processor then [(ProcessorFeeExpense, Credit, processor)] else [])"

definition cleared_amounts_ok :: "int \<Rightarrow> int \<Rightarrow> int \<Rightarrow> bool" where
  "cleared_amounts_ok gross processor platform \<longleftrightarrow>
     0 < gross \<and> 0 \<le> processor \<and> 0 \<le> platform \<and> processor + platform \<le> gross"

lemma js_net:
  assumes "safe_int g" "safe_int p" "safe_int q" "0 \<le> g" "0 \<le> p" "0 \<le> q"
  shows "js_sub (js_sub g p) q < 0 \<longleftrightarrow> g < p + q"
    and "p + q \<le> g \<Longrightarrow> js_sub (js_sub g p) q = g - p - q"
proof -
  have "safe_int (g - p)" using assms by (auto simp: safe_int_def)
  then have e: "js_sub g p = g - p" by (rule js_sub_exact)
  then show "js_sub (js_sub g p) q < 0 \<longleftrightarrow> g < p + q"
    unfolding e js_sub_def [of _ q] js_int_neg_iff by auto
  show "js_sub (js_sub g p) q = g - p - q" if "p + q \<le> g"
    unfolding e by (rule js_sub_exact) (use that assms in \<open>auto simp: safe_int_def\<close>)
qed

text \<open>The postings of a clearing entry: created accounts, balanced legs.\<close>

lemma cleared_postings:
  assumes ok: "ledger_ok s" and amounts: "cleared_amounts_ok g p q"
    and acc: "find_or_create_account ProcessorClearing ag s = (acc, s0)"
    and push: "push_credit ProcessorFeeExpense ag p (push_credit PlatformFeeRevenue ag q
        (push_credit CreditorProceedsPayable ag (g - p - q)
          ([\<lparr>poAccount = acc, poType = ProcessorClearing, poDirection = Debit, poAmount = g\<rparr>], s0)))
      = (ps, s1)"
  shows "only_ledger_grew s s1 \<and> entries s1 = entries s \<and> ledger_ok s1 \<and>
    (int4_ok g \<longrightarrow> list_all (leg_ok s1 ag) ps) \<and> debits ps = g \<and> credits ps = g \<and>
    map leg_view ps = cleared_legs g p q"
proof -
  let ?l = "[\<lparr>poAccount = acc, poType = ProcessorClearing, poDirection = Debit, poAmount = g\<rparr>]"
  have n: "0 \<le> p" "0 \<le> q" "0 \<le> g - p - q" "0 < g"
    "int4_ok g \<Longrightarrow> int4_ok p \<and> int4_ok q \<and> int4_ok (g - p - q)"
    using amounts by (auto simp: cleared_amounts_ok_def int4_ok_def)
  have a: "only_ledger_grew s s0 \<and> entries s0 = entries s \<and> ledger_ok s0 \<and>
      (int4_ok g \<longrightarrow> list_all (leg_ok s0 ag) ?l)"
    using find_or_create_account_props [OF acc ok, of g Debit] n by simp
  obtain ps2 s2 where 2: "push_credit CreditorProceedsPayable ag (g - p - q) (?l, s0) = (ps2, s2)"
    by fastforce
  obtain ps3 s3 where 3: "push_credit PlatformFeeRevenue ag q (ps2, s2) = (ps3, s3)" by fastforce
  have 4: "push_credit ProcessorFeeExpense ag p (ps3, s3) = (ps, s1)" using push 2 3 by simp
  note p2 = push_credit_props [OF 2 _ n(3)]
  note p3 = push_credit_props [OF 3 _ n(2)]
  note p4 = push_credit_props [OF 4 _ n(1)]
  have ok2: "ledger_ok s0" "ledger_ok s2" "ledger_ok s3" using a p2 p3 by blast+
  have "only_ledger_grew s s1"
    using a p2 [OF ok2(1)] p3 [OF ok2(2)] p4 [OF ok2(3)] only_ledger_grew_trans by blast
  moreover have "map leg_view ps = cleared_legs g p q"
    using p2 [OF ok2(1)] p3 [OF ok2(2)] p4 [OF ok2(3)] by (simp add: cleared_legs_def)
  moreover have "debits ps = g \<and> credits ps = g"
    using p2 [OF ok2(1)] p3 [OF ok2(2)] p4 [OF ok2(3)] by simp
  ultimately show ?thesis
    using a p2 [OF ok2(1)] p3 [OF ok2(2)] p4 [OF ok2(3)] n(5) by simp
qed

lemma leg_view_all: "map leg_view ps = vs \<Longrightarrow>
    list_all (\<lambda>p. P (poAmount p)) ps = list_all (\<lambda>(_, _, n). P n) vs"
  by (auto simp: list_all_iff)

lemma cleared_legs_nonneg:
  "cleared_amounts_ok g p q \<Longrightarrow> list_all (\<lambda>(_, _, n). 0 \<le> n) (cleared_legs g p q)"
  by (simp add: cleared_legs_def cleared_amounts_ok_def)

lemma cleared_legs_hd: "map leg_view ps = cleared_legs g p q \<Longrightarrow>
    ps \<noteq> [] \<and> poAmount (hd ps) = g"
  by (cases ps) (auto simp: cleared_legs_def)

lemma insert_refused:
  assumes "p \<in> set (eiPostings i)" and "\<not> int4_ok (poAmount p)"
    and "journal_lookup (input_key i) s = None"
  shows "insert_idempotently i s = Inl (ForeignError ''ledger_posting_amount'')"
  using assms by (auto simp: insert_idempotently_def insert_entry_def journal_lookup_def
      input_key_def list_all_iff posting_row_ok_def)

lemma cleared_safe: "cleared_amounts_ok g p q \<Longrightarrow> safe_int g \<Longrightarrow> safe_int p \<and> safe_int q"
  by (auto simp: cleared_amounts_ok_def safe_int_def)

text \<open>\<open>postPaymentCleared\<close> without an existing entry: refused arguments, an amount the column
  refuses, or the entry.\<close>

lemma post_payment_cleared_cases:
  fixes i :: cleared_input
  assumes g_def: "g = ciGross i" and p_def: "p = fee_or_zero (ciProcessorFee i)"
    and q_def: "q = fee_or_zero (ciPlatformFee i)" and k_def: "k = (ciPayment i, PaymentCleared)"
    and ok: "ledger_ok s" and free: "journal_lookup k s = None"
  obtains (refused) e where "post_payment_cleared E i s = (Inl (FinancialIntegrityError e), s)"
      "\<not> (cleared_amounts_ok g p q \<and> safe_int g)"
  | (overflow) e s' where "post_payment_cleared E i s = (Inl e, s')" "cleared_amounts_ok g p q"
      "\<not> int4_ok g" "only_ledger_grew s s'" "ledger_ok s'" "entries s' = entries s"
  | (posted) e s' where "post_payment_cleared E i s = (Inr e, s')" "cleared_amounts_ok g p q"
      "int4_ok g" "posts k s (Inr e, s')" "map leg_view (jePostings e) = cleared_legs g p q"
      "jeAgreement e = ciAgreement i" "jeCurrency e = ciCurrency i"
proof (cases "cleared_amounts_ok g p q \<and> safe_int g")
  case False
  have f: "find_by_payment_and_type (ciPayment i) PaymentCleared s = None"
    using free by (simp add: k_def journal_lookup_def)
  have "\<exists>e. post_payment_cleared E i s = (Inl (FinancialIntegrityError e), s)"
    using False js_net(1) [of g p q]
    by (auto simp: post_payment_cleared_def f assert_non_negative_integer_def Let_def
        cleared_amounts_ok_def g_def [symmetric] p_def [symmetric] q_def [symmetric])
  then show thesis using refused False by blast
next
  case True
  then have am: "cleared_amounts_ok g p q" and sg: "safe_int g" by blast+
  have f: "find_by_payment_and_type (ciPayment i) PaymentCleared s = None"
    using free by (simp add: k_def journal_lookup_def)
  have sp: "safe_int p" "safe_int q" using cleared_safe [OF am sg] by blast+
  have n: "0 < g" "0 \<le> p" "0 \<le> q" "p + q \<le> g" using am by (simp_all add: cleared_amounts_ok_def)
  have net: "js_sub (js_sub g p) q = g - p - q" using js_net(2) [of g p q] sg sp n by simp
  obtain acc s0 where acc: "find_or_create_account ProcessorClearing (ciAgreement i) s = (acc, s0)"
    by fastforce
  obtain ps s1 where ps: "push_credit ProcessorFeeExpense (ciAgreement i) p
      (push_credit PlatformFeeRevenue (ciAgreement i) q
      (push_credit CreditorProceedsPayable (ciAgreement i) (g - p - q)
        ([\<lparr>poAccount = acc, poType = ProcessorClearing, poDirection = Debit, poAmount = g\<rparr>], s0)))
      = (ps, s1)" by fastforce
  note pp = cleared_postings [OF ok am acc ps]
  have bal: "assert_balanced ps = None"
    using assert_balanced_iff [of ps] pp n(1) sg
      leg_view_all [of ps _ "\<lambda>n. 0 \<le> n"] cleared_legs_nonneg [OF am]
    by (auto simp: safe_int_def)
  define inp where "inp = \<lparr>eiType = PaymentCleared, eiAgreement = ciAgreement i,
     eiPayment = ciPayment i, eiCurrency = ciCurrency i, eiReason = None, eiPostings = ps\<rparr>"
  have run: "post_payment_cleared E i s = (case insert_idempotently inp s1 of
      Inl e \<Rightarrow> (Inl e, s1)
    | Inr (entry, s2) \<Rightarrow> (Inr entry, record_ledger_audit E entry ''ledger_payment_cleared''
         None ''ledger_system'' s2))"
    using n sg sp net
    by (simp add: post_payment_cleared_def f assert_non_negative_integer_def Let_def
        g_def [symmetric] p_def [symmetric] q_def [symmetric] acc ps bal inp_def)
  have key: "input_key inp = k" by (simp add: inp_def input_key_def k_def)
  have free1: "journal_lookup (input_key inp) s1 = None"
    using free pp key by (simp add: journal_lookup_def find_by_payment_and_type_def)
  show thesis
  proof (cases "int4_ok g")
    case False
    have "insert_idempotently inp s1 = Inl (ForeignError ''ledger_posting_amount'')"
      by (rule insert_refused [OF _ _ free1, of "hd ps"])
        (use cleared_legs_hd [of ps g p q] pp False in \<open>simp_all add: inp_def\<close>)
    then show thesis using overflow [OF _ am False] run pp by simp
  next
    case True
    have ok1: "ledger_ok s1" using pp by blast
    have legs: "list_all (leg_ok s1 (eiAgreement inp)) (eiPostings inp)" "eiPostings inp \<noteq> []"
      "debits (eiPostings inp) = credits (eiPostings inp)" "int4_ok (debits (eiPostings inp))"
      using pp True cleared_legs_hd [of ps g p q] by (simp_all add: inp_def)
    obtain e s2 where e: "insert_idempotently inp s1 = Inr (e, s2)" "jePostings e = ps"
      "jeAgreement e = ciAgreement i" "jeCurrency e = ciCurrency i" "ledger_ok s2"
      "only_ledger_grew s1 s2" "entries s2 = entries s1 @ [e]" "entry_key e = k"
      by (rule insertion_posts [OF ok1 legs free1, unfolded key], rule that) (simp_all add: inp_def)
    show thesis
    proof (rule posted [OF _ am True])
      show "post_payment_cleared E i s = (Inr e, record_ledger_audit E e
          ''ledger_payment_cleared'' None ''ledger_system'' s2)" by (simp add: run e(1))
      show "posts k s (Inr e, record_ledger_audit E e ''ledger_payment_cleared'' None ''ledger_system'' s2)"
        by (rule posts_inserted [OF free, of s1 s2 e]) (use pp e in simp_all)
    qed (use pp e in simp_all)
  qed
qed

text \<open>The common tail of the other operations: balanced legs, then one insertion.\<close>

lemma balanced_legs_pass:
  assumes "list_all (leg_ok s ag) ps" and "debits ps = credits ps" and "int4_ok (debits ps)"
  shows "assert_balanced ps = None"
proof -
  have "list_all (\<lambda>p. 0 \<le> poAmount p) ps"
    using assms(1) by (auto simp: list_all_iff leg_ok_def posting_row_ok_def)
  then show ?thesis
    using assms(2,3) totals_nonneg int4_ok_safe [of "debits ps"]
    by (subst assert_balanced_iff) (auto simp: safe_int_def)
qed

lemma tail_posts:
  assumes "journal_lookup k s = None" and "only_ledger_grew s s1" and "ledger_ok s1"
    and "entries s1 = entries s" and "list_all (leg_ok s1 (eiAgreement i)) (eiPostings i)"
    and "eiPostings i \<noteq> []" and "debits (eiPostings i) = credits (eiPostings i)"
    and "int4_ok (debits (eiPostings i))" and "input_key i = k"
  obtains e s2 where "insert_entry i s1 = Inr (e, s2)" "insert_idempotently i s1 = Inr (e, s2)"
    "jePostings e = eiPostings i" "jeAgreement e = eiAgreement i" "jeCurrency e = eiCurrency i"
    "\<And>act actor role. posts k s (Inr e, record_ledger_audit E e act actor role s2)"
proof -
  have free: "journal_lookup (input_key i) s1 = None"
    using assms(1,4,9) by (simp add: journal_lookup_def find_by_payment_and_type_def)
  show thesis
  proof (rule insertion_posts [OF assms(3,5-8) free])
    fix e s2
    assume e: "insert_entry i s1 = Inr (e, s2)" "insert_idempotently i s1 = Inr (e, s2)"
      "jePostings e = eiPostings i" "jeAgreement e = eiAgreement i" "jeCurrency e = eiCurrency i"
      "ledger_ok s2" "only_ledger_grew s1 s2" "entries s2 = entries s1 @ [e]"
      "entry_key e = input_key i"
    have "posts k s (Inr e, record_ledger_audit E e act actor role s2)" for act actor role
      by (rule posts_inserted [OF assms(1), of s1 s2 e]) (use assms e in simp_all)
    then show thesis using that e by blast
  qed
qed

lemma opposite_simps [simp]:
  "opposite Debit = Credit" "opposite Credit = Debit"
  "opposite d = Debit \<longleftrightarrow> d = Credit" "opposite d = Credit \<longleftrightarrow> d = Debit" "opposite d \<noteq> d"
  by (cases d, simp_all add: opposite_def)+

abbreviation mirror :: "posting list \<Rightarrow> posting list" where
  "mirror ps \<equiv> map (\<lambda>p. p\<lparr>poDirection := opposite (poDirection p)\<rparr>) ps"

lemma mirror_props:
  "debits (mirror ps) = credits ps" "credits (mirror ps) = debits ps"
  "list_all (leg_ok s ag) (mirror ps) = list_all (leg_ok s ag) ps"
  by (induction ps) (simp_all add: leg_ok_def posting_row_ok_def)

lemma find_leg_ok:
  assumes "find_leg ty e = Some leg" and "entry_ok s e"
  shows "leg_ok s (jeAgreement e) leg" and "poType leg = ty" and "0 < poAmount leg"
    and "int4_ok (poAmount leg)"
proof -
  have "leg \<in> set (jePostings e)" "poType leg = ty"
    using assms(1) by (auto simp: find_leg_def find_Some_iff)
  then show "leg_ok s (jeAgreement e) leg" "poType leg = ty" "0 < poAmount leg"
    "int4_ok (poAmount leg)"
    using assms(2) by (auto simp: entry_ok_def list_all_iff leg_ok_def posting_row_ok_def)
qed

lemma journal_lookup_ok:
  assumes "journal_lookup k s = Some e" and "ledger_ok s"
  shows "entry_ok s e" and "entry_key e = k"
proof -
  have "e \<in> set (entries s)"
    using assms(1) by (auto simp: journal_lookup_def find_by_payment_and_type_def
        dest: lookup_by_Some_mem)
  then show "entry_ok s e" using assms(2) by (simp add: ledger_ok_def list_all_iff)
  show "entry_key e = k"
    using lookup_by_Some_key [of entry_key k "entries s" e] assms(1)
    by (cases k) (simp add: journal_lookup_def find_by_payment_and_type_def)
qed

text \<open>\<open>reversePayment\<close>: nothing cleared, a clearing entry without creditor leg to claw back, or the
  reversal: the mirror image before a payout, the clawback of the creditor's share after it.\<close>

lemma reverse_payment_cases:
  assumes ok: "ledger_ok s" and free: "journal_lookup (pay, ty) s = None"
  obtains (not_cleared) "reverse_payment E pay ty why s = (Inl (ValidationError ''NotCleared''), s)"
      "journal_lookup (pay, PaymentCleared) s = None"
  | (no_leg) c where "reverse_payment E pay ty why s
        = (Inl (ConfigurationError ''missingCreditorLeg''), s)"
      "journal_lookup (pay, PaymentCleared) s = Some c" "journal_lookup (pay, Payout) s \<noteq> None"
      "find_leg CreditorProceedsPayable c = None"
  | (clawed) c leg e s' where "reverse_payment E pay ty why s = (Inr e, s')"
      "journal_lookup (pay, PaymentCleared) s = Some c" "journal_lookup (pay, Payout) s \<noteq> None"
      "find_leg CreditorProceedsPayable c = Some leg" "posts (pay, ty) s (Inr e, s')"
      "map leg_view (jePostings e) = [(CreditorClawbackExposure, Debit, poAmount leg),
         (ProcessorClearing, Credit, poAmount leg)]" "jeAgreement e = jeAgreement c"
  | (mirrored) c e s' where "reverse_payment E pay ty why s = (Inr e, s')"
      "journal_lookup (pay, PaymentCleared) s = Some c" "journal_lookup (pay, Payout) s = None"
      "posts (pay, ty) s (Inr e, s')" "jePostings e = mirror (jePostings c)"
      "jeAgreement e = jeAgreement c"
proof (cases "journal_lookup (pay, PaymentCleared) s")
  case None
  then show thesis using not_cleared free by (simp add: reverse_payment_def journal_lookup_def)
next
  case (Some c)
  note c = Some and c_ok = journal_lookup_ok [OF Some ok]
  let ?inp = "\<lambda>ps. \<lparr>eiType = ty, eiAgreement = jeAgreement c, eiPayment = pay,
     eiCurrency = jeCurrency c, eiReason = why, eiPostings = ps\<rparr>"
  have key: "input_key (?inp ps) = (pay, ty)" for ps by (simp add: input_key_def)
  have run: "reverse_payment E pay ty why s =
      (case insert_idempotently (?inp ps) s1 of Inl e \<Rightarrow> (Inl e, s1)
       | Inr (entry, s2) \<Rightarrow> (Inr entry, record_ledger_audit E entry (''ledger_'' @ entry_type_name ty)
            None ''ledger_system'' s2))"
    if "reversal_postings c (journal_lookup (pay, Payout) s) s = (Inr ps, s1)"
      "assert_balanced ps = None" for ps s1
    using that free c by (simp add: reverse_payment_def journal_lookup_def)
  show thesis
  proof (cases "journal_lookup (pay, Payout) s")
    case None
    let ?ps = "mirror (jePostings c)"
    have rp: "reversal_postings c (journal_lookup (pay, Payout) s) s = (Inr ?ps, s)"
      by (simp add: None reversal_postings_def)
    have legs: "list_all (leg_ok s (jeAgreement c)) ?ps" "?ps \<noteq> []" "debits ?ps = credits ?ps"
      "int4_ok (debits ?ps)" using c_ok(1) by (auto simp: entry_ok_def mirror_props)
    show thesis
    proof (rule tail_posts [OF free only_ledger_grew_refl ok refl, of "?inp ?ps"])
      fix e s2 assume e: "insert_idempotently (?inp ?ps) s = Inr (e, s2)"
        "jePostings e = eiPostings (?inp ?ps)" "jeAgreement e = eiAgreement (?inp ?ps)"
        "\<And>act actor role. posts (pay, ty) s (Inr e, record_ledger_audit E e act actor role s2)"
      show thesis
        by (rule mirrored [OF _ c None e(4)])
          (use e run [OF rp balanced_legs_pass [OF legs(1,3,4)]] in simp_all)
    qed (use legs key in simp_all)
  next
    case (Some payout)
    then have po: "journal_lookup (pay, Payout) s \<noteq> None" by simp
    show thesis
    proof (cases "find_leg CreditorProceedsPayable c")
      case None
      then show thesis using no_leg [OF _ c po] c free Some
        by (simp add: reverse_payment_def journal_lookup_def reversal_postings_def)
    next
      case (Some leg)
      note leg = find_leg_ok [OF Some c_ok(1)]
      obtain cb s1 where 1: "find_or_create_account CreditorClawbackExposure (jeAgreement c) s = (cb, s1)"
        by fastforce
      obtain pc s2 where 2: "find_or_create_account ProcessorClearing (jeAgreement c) s1 = (pc, s2)"
        by fastforce
      let ?ps = "[\<lparr>poAccount = cb, poType = CreditorClawbackExposure,
                   poDirection = Debit, poAmount = poAmount leg\<rparr>,
                  \<lparr>poAccount = pc, poType = ProcessorClearing,
                   poDirection = Credit, poAmount = poAmount leg\<rparr>]"
      have rp: "reversal_postings c (journal_lookup (pay, Payout) s) s = (Inr ?ps, s2)"
        using po Some by (auto simp: reversal_postings_def 1 2)
      note p1 = find_or_create_account_props [OF 1 ok, of "poAmount leg" Debit]
      then have p2: "only_ledger_grew s1 s2 \<and> entries s2 = entries s1 \<and> ledger_ok s2 \<and>
          leg_ok s2 (jeAgreement c) \<lparr>poAccount = pc, poType = ProcessorClearing,
            poDirection = Credit, poAmount = poAmount leg\<rparr>"
        using find_or_create_account_props [OF 2, of "poAmount leg" Credit] leg(3,4) by blast
      have g: "only_ledger_grew s s2" using p1 p2 only_ledger_grew_trans by blast
      have legs: "list_all (leg_ok s2 (jeAgreement c)) ?ps" "?ps \<noteq> []" "debits ?ps = credits ?ps"
        "int4_ok (debits ?ps)" using p1 p2 leg(3,4) leg_ok_mono by auto
      have same: "ledger_ok s2" "entries s2 = entries s" using p1 p2 by simp_all
      show thesis
      proof (rule tail_posts [OF free g same, of "?inp ?ps"])
        fix e s3 assume e: "insert_idempotently (?inp ?ps) s2 = Inr (e, s3)"
          "jePostings e = eiPostings (?inp ?ps)" "jeAgreement e = eiAgreement (?inp ?ps)"
          "\<And>act actor role. posts (pay, ty) s (Inr e, record_ledger_audit E e act actor role s3)"
        show thesis
          by (rule clawed [OF _ c po Some e(4)])
            (use e run [OF rp balanced_legs_pass [OF legs(1,3,4)]] in simp_all)
      qed (use legs key in simp_all)
    qed
  qed
qed

definition reversed_or_disputed :: "uuid \<Rightarrow> db \<Rightarrow> bool" where
  "reversed_or_disputed pay s \<longleftrightarrow>
     list_ex (\<lambda>ty. journal_lookup (pay, ty) s \<noteq> None) [Refund, Reversal, DisputeAdjustment]"

lemma post_payout_cases:
  assumes ok: "ledger_ok s" and free: "journal_lookup (pay, Payout) s = None"
  obtains (refused) why' where "post_payout E pay why s = (Inl (ValidationError why'), s)"
      "journal_lookup (pay, PaymentCleared) s = None \<or> reversed_or_disputed pay s \<or>
       (\<exists>c. journal_lookup (pay, PaymentCleared) s = Some c \<and> find_leg CreditorProceedsPayable c = None)"
  | (paid) c leg e s' where "post_payout E pay why s = (Inr e, s')"
      "journal_lookup (pay, PaymentCleared) s = Some c" "\<not> reversed_or_disputed pay s"
      "find_leg CreditorProceedsPayable c = Some leg" "posts (pay, Payout) s (Inr e, s')"
      "map leg_view (jePostings e) = [(CreditorProceedsPayable, Debit, poAmount leg),
         (ProcessorClearing, Credit, poAmount leg)]" "jeAgreement e = jeAgreement c"
proof (cases "journal_lookup (pay, PaymentCleared) s")
  case None
  then show thesis using refused free by (simp add: post_payout_def journal_lookup_def)
next
  case (Some c)
  note c = Some and c_ok = journal_lookup_ok [OF Some ok]
  show thesis
  proof (cases "reversed_or_disputed pay s \<or> find_leg CreditorProceedsPayable c = None")
    case True
    then have "\<exists>w. post_payout E pay why s = (Inl (ValidationError w), s)"
      using c free by (auto simp: post_payout_def journal_lookup_def reversed_or_disputed_def)
    then show thesis using refused True c by blast
  next
    case False
    then obtain leg where l: "find_leg CreditorProceedsPayable c = Some leg" by blast
    note leg = find_leg_ok [OF l c_ok(1)]
    obtain pc s1 where 1: "find_or_create_account ProcessorClearing (jeAgreement c) s = (pc, s1)"
      by fastforce
    note p1 = find_or_create_account_props [OF 1 ok, of "poAmount leg" Credit]
    let ?ps = "[\<lparr>poAccount = poAccount leg, poType = CreditorProceedsPayable,
                 poDirection = Debit, poAmount = poAmount leg\<rparr>,
                \<lparr>poAccount = pc, poType = ProcessorClearing,
                 poDirection = Credit, poAmount = poAmount leg\<rparr>]"
    let ?inp = "\<lparr>eiType = Payout, eiAgreement = jeAgreement c, eiPayment = pay,
       eiCurrency = jeCurrency c, eiReason = why, eiPostings = ?ps\<rparr>"
    have "leg_ok s (jeAgreement c) \<lparr>poAccount = poAccount leg, poType = CreditorProceedsPayable,
        poDirection = Debit, poAmount = poAmount leg\<rparr>"
      using leg by (simp add: leg_ok_def posting_row_ok_def)
    then have legs: "list_all (leg_ok s1 (jeAgreement c)) ?ps" "?ps \<noteq> []" "debits ?ps = credits ?ps"
      "int4_ok (debits ?ps)" using p1 leg(3,4) leg_ok_mono by auto
    have run: "post_payout E pay why s =
        (case insert_idempotently ?inp s1 of Inl e \<Rightarrow> (Inl e, s1)
         | Inr (entry, s2) \<Rightarrow> (Inr entry, record_ledger_audit E entry ''ledger_payout''
              None ''ledger_system'' s2))"
      using False free c l balanced_legs_pass [OF legs(1,3,4)]
      by (simp add: post_payout_def journal_lookup_def reversed_or_disputed_def 1)
    show thesis
    proof (rule tail_posts [OF free, of s1 ?inp])
      fix e s3 assume e: "insert_idempotently ?inp s1 = Inr (e, s3)"
        "jePostings e = eiPostings ?inp" "jeAgreement e = eiAgreement ?inp"
        "\<And>act actor role. posts (pay, Payout) s (Inr e, record_ledger_audit E e act actor role s3)"
      show thesis by (rule paid [OF _ c _ l e(4)]) (use e run False in simp_all)
    qed (use legs p1 in \<open>simp_all add: input_key_def\<close>)
  qed
qed

lemma post_admin_adjustment_cases:
  assumes ok: "ledger_ok s"
  obtains (refused) e where "post_admin_adjustment E i s = (Inl e, s)"
      "blank_text (aiReason i) \<or> aiAmount i \<le> 0 \<or> \<not> safe_int (aiAmount i)"
  | (taken) "post_admin_adjustment E i s = (Inl (ConflictError ''AdjustmentAlreadyPosted''), s)"
      "journal_lookup (aiPayment i, AdminAdjustment) s \<noteq> None"
  | (overflow) e s' where "post_admin_adjustment E i s = (Inl e, s')" "\<not> int4_ok (aiAmount i)"
      "only_ledger_grew s s'" "ledger_ok s'" "entries s' = entries s"
  | (adjusted) e s' where "post_admin_adjustment E i s = (Inr e, s')"
      "journal_lookup (aiPayment i, AdminAdjustment) s = None"
      "posts (aiPayment i, AdminAdjustment) s (Inr e, s')"
      "map leg_view (jePostings e) = [(aiTarget i, aiDirection i, aiAmount i),
         (AdminAdjustmentSuspense, opposite (aiDirection i), aiAmount i)]"
proof (cases "blank_text (aiReason i) \<or> aiAmount i \<le> 0 \<or> \<not> safe_int (aiAmount i)")
  case True
  then have "\<exists>e. post_admin_adjustment E i s = (Inl e, s)"
    by (auto simp: post_admin_adjustment_def assert_non_negative_integer_def)
  then show thesis using refused True by blast
next
  case False
  then have n: "\<not> blank_text (aiReason i)" "0 < aiAmount i" "safe_int (aiAmount i)" by auto
  show thesis
  proof (cases "journal_lookup (aiPayment i, AdminAdjustment) s")
    case (Some e)
    then show thesis using taken n
      by (simp add: post_admin_adjustment_def assert_non_negative_integer_def journal_lookup_def)
  next
    case None
    let ?d = "aiDirection i" and ?n = "aiAmount i"
    obtain a s1 where 1: "find_or_create_account (aiTarget i) (aiAgreement i) s = (a, s1)" by fastforce
    obtain b s2 where 2: "find_or_create_account AdminAdjustmentSuspense (aiAgreement i) s1 = (b, s2)"
      by fastforce
    let ?ps = "[\<lparr>poAccount = a, poType = aiTarget i, poDirection = ?d, poAmount = ?n\<rparr>,
                \<lparr>poAccount = b, poType = AdminAdjustmentSuspense,
                 poDirection = opposite ?d, poAmount = ?n\<rparr>]"
    define inp where "inp = \<lparr>eiType = AdminAdjustment, eiAgreement = aiAgreement i,
       eiPayment = aiPayment i, eiCurrency = aiCurrency i, eiReason = Some (aiReason i),
       eiPostings = ?ps\<rparr>"
    note p1 = find_or_create_account_props [OF 1 ok, of ?n ?d]
    then have p2: "only_ledger_grew s1 s2 \<and> entries s2 = entries s1 \<and> ledger_ok s2 \<and>
        (int4_ok ?n \<longrightarrow> leg_ok s2 (aiAgreement i) \<lparr>poAccount = b, poType = AdminAdjustmentSuspense,
          poDirection = opposite ?d, poAmount = ?n\<rparr>)"
      using find_or_create_account_props [OF 2, of ?n "opposite ?d"] n(2) by blast
    have g: "only_ledger_grew s s2" "ledger_ok s2" "entries s2 = entries s"
      using p1 p2 only_ledger_grew_trans [of s s1 s2] by simp_all
    have bal: "debits ?ps = credits ?ps" "debits ?ps = ?n" by (cases ?d; simp)+
    have key: "input_key inp = (aiPayment i, AdminAdjustment)" by (simp add: inp_def input_key_def)
    have pass: "assert_balanced ?ps = None"
      using assert_balanced_iff [of ?ps] bal n by (simp add: safe_int_def)
    have run: "post_admin_adjustment E i s = (case insert_entry inp s2 of
          Inr (entry, s3) \<Rightarrow> (Inr entry, record_ledger_audit E entry ''ledger_admin_adjustment''
             (Some (aiActor i)) ''platform_owner'' s3)
        | Inl e \<Rightarrow> (case find_by_payment_and_type (aiPayment i) AdminAdjustment s2 of
             Some _ \<Rightarrow> (Inl (ConflictError ''AdjustmentAlreadyPosted''), s2) | None \<Rightarrow> (Inl e, s2)))"
      using n None pass by (simp add: post_admin_adjustment_def assert_non_negative_integer_def
          journal_lookup_def 1 2 Let_def inp_def)
    show thesis
    proof (cases "int4_ok ?n")
      case False
      have "find_by_payment_and_type (aiPayment i) AdminAdjustment s2 = None"
        using None g(3) by (simp add: journal_lookup_def find_by_payment_and_type_def)
      moreover then have "insert_entry inp s2 = Inl (ForeignError ''ledger_posting_amount'')"
        using False by (simp add: insert_entry_def inp_def posting_row_ok_def)
      ultimately show thesis using overflow [OF _ False g] run by simp
    next
      case True
      have legs: "list_all (leg_ok s2 (aiAgreement i)) ?ps"
        using p1 p2 n True leg_ok_mono by auto
      show thesis
      proof (rule tail_posts [OF None g, of inp])
        fix e s3 assume e: "insert_entry inp s2 = Inr (e, s3)" "jePostings e = eiPostings inp"
          "\<And>act actor role. posts (aiPayment i, AdminAdjustment) s
             (Inr e, record_ledger_audit E e act actor role s3)"
        show thesis by (rule adjusted [OF _ None e(3)]) (use e run in \<open>simp_all add: inp_def\<close>)
      qed (use legs bal True key in \<open>simp_all add: inp_def\<close>)
    qed
  qed
qed

section \<open>Any sequence of postings\<close>

datatype ledger_op =
    PostCleared cleared_input
  | ReversePayment uuid entry_type "string option"
  | PostPayout uuid "string option"
  | PostAdminAdjustment adjustment_input

fun run_op :: "env \<Rightarrow> ledger_op \<Rightarrow> db \<Rightarrow> (error + journal_entry) \<times> db" where
  "run_op E (PostCleared i) s = post_payment_cleared E i s"
| "run_op E (ReversePayment p ty why) s = reverse_payment E p ty why s"
| "run_op E (PostPayout p why) s = post_payout E p why s"
| "run_op E (PostAdminAdjustment i) s = post_admin_adjustment E i s"

fun op_key :: "ledger_op \<Rightarrow> uuid \<times> entry_type" where
  "op_key (PostCleared i) = (ciPayment i, PaymentCleared)"
| "op_key (ReversePayment p ty why) = (p, ty)"
| "op_key (PostPayout p why) = (p, Payout)"
| "op_key (PostAdminAdjustment i) = (aiPayment i, AdminAdjustment)"

definition run_ops :: "env \<Rightarrow> ledger_op list \<Rightarrow> db \<Rightarrow> db" where
  "run_ops E ops s = fold (\<lambda>op s. snd (run_op E op s)) ops s"

definition repeatable :: "ledger_op \<Rightarrow> bool" where
  "repeatable op = (case op of PostAdminAdjustment _ \<Rightarrow> False | _ \<Rightarrow> True)"

lemma run_op_existing:
  assumes "journal_lookup (op_key op) s = Some e" and "repeatable op"
  shows "run_op E op s = (Inr e, s)"
  using assms by (cases op) (simp_all add: journal_lookup_def post_payment_cleared_def
      reverse_payment_def post_payout_def repeatable_def)

lemma run_op_posts:
  assumes "ledger_ok s"
  shows "posts (op_key op) s (run_op E op s)"
proof (cases "repeatable op \<and> journal_lookup (op_key op) s \<noteq> None")
  case True
  then obtain e where "journal_lookup (op_key op) s = Some e" by blast
  then show ?thesis using run_op_existing True posts_existing [OF assms] by simp
next
  case new: False
  show ?thesis
  proof (cases op)
    case (PostCleared i)
    then have "journal_lookup (ciPayment i, PaymentCleared) s = None"
      using new by (simp add: repeatable_def)
    then show ?thesis
      by (cases rule: post_payment_cleared_cases
          [OF refl refl refl refl assms, of i, where E = E])
        (simp_all add: PostCleared posts_error assms posts_error_grew)
  next
    case (ReversePayment p ty why)
    then have "journal_lookup (p, ty) s = None" using new by (simp add: repeatable_def)
    then show ?thesis
      by (cases rule: reverse_payment_cases [OF assms, of p ty, where E = E and why = why])
        (simp_all add: ReversePayment posts_error assms)
  next
    case (PostPayout p why)
    then have "journal_lookup (p, Payout) s = None" using new by (simp add: repeatable_def)
    then show ?thesis
      by (cases rule: post_payout_cases [OF assms, of p, where E = E and why = why])
        (simp_all add: PostPayout posts_error assms)
  next
    case (PostAdminAdjustment i)
    show ?thesis
      by (cases rule: post_admin_adjustment_cases [OF assms, where i = i and E = E])
        (simp_all add: PostAdminAdjustment posts_error assms posts_error_grew)
  qed
qed

lemma run_ops_keep:
  assumes "ledger_ok s"
  shows "ledger_ok (run_ops E ops s) \<and> only_ledger_grew s (run_ops E ops s)"
  using assms
proof (induction ops arbitrary: s)
  case Nil
  then show ?case by (simp add: run_ops_def)
next
  case (Cons op ops)
  let ?s = "snd (run_op E op s)"
  have k: "only_ledger_grew s ?s" "ledger_ok ?s"
    using postsD [OF run_op_posts [OF Cons.prems]] by blast+
  have "run_ops E (op # ops) s = run_ops E ops ?s" by (simp add: run_ops_def)
  then show ?case using Cons.IH [OF k(2)] k(1) only_ledger_grew_trans by metis
qed

text \<open>
  C3. The ledger is always in balance: whatever sequence of clearings, reversals, payouts and
  adjustments runs, successful or refused, the journal keeps every entry it had, holds at most one
  entry per payment and type and at most one account per type and agreement, and every entry has
  equal debits and credits, positive legs and accounts of its own agreement.
\<close>

theorem ledger_always_balanced:
  assumes "ledger_ok s"
  shows "ledger_ok (run_ops E ops s) \<and> only_ledger_grew s (run_ops E ops s)"
  using run_ops_keep [OF assms] .

lemma empty_ledger_ok: "ledger_ok empty_db"
  by (simp add: ledger_ok_def empty_db_def)

definition sample_clearing :: cleared_input where
  "sample_clearing = \<lparr>ciPayment = 7, ciAgreement = 1, ciCurrency = ''USD'', ciGross = 10000,
     ciProcessorFee = Some 320, ciPlatformFee = Some 180\<rparr>"

theorem ledger_always_balanced_witness:
  "ledger_ok (run_ops toy_env [PostCleared sample_clearing, PostPayout 7 None,
     ReversePayment 7 DisputeAdjustment None] empty_db)"
  using ledger_always_balanced [OF empty_ledger_ok] by blast

text \<open>
  Clearing is all or nothing and loses no cent. With no entry yet, \<open>postPaymentCleared\<close>
  succeeds exactly when the gross is positive, the fees are non-negative and together at most the
  gross, and the gross fits the amount column; the entry then debits the gross to processor clearing
  and credits net, platform fee and processor fee, leaving out the empty legs.
\<close>

theorem clearing_splits_gross:
  fixes i :: cleared_input
  defines "p \<equiv> fee_or_zero (ciProcessorFee i)" and "q \<equiv> fee_or_zero (ciPlatformFee i)"
  assumes "ledger_ok s" and "journal_lookup (ciPayment i, PaymentCleared) s = None"
  shows "(case post_payment_cleared E i s of
      (Inr e, s') \<Rightarrow> cleared_amounts_ok (ciGross i) p q \<and> int4_ok (ciGross i) \<and>
        map leg_view (jePostings e) = cleared_legs (ciGross i) p q \<and>
        jeAgreement e = ciAgreement i \<and> entries s' = entries s @ [e]
    | (Inl _, s') \<Rightarrow> \<not> (cleared_amounts_ok (ciGross i) p q \<and> int4_ok (ciGross i)) \<and>
        entries s' = entries s)"
proof (cases rule: post_payment_cleared_cases [OF refl refl refl refl assms(3,4), where E = E])
  case (1 e)
  then show ?thesis using int4_ok_safe by (auto simp: p_def q_def)
next
  case (2 e s')
  then show ?thesis by (simp add: p_def q_def)
next
  case (3 e s')
  then show ?thesis using assms(4) by (simp add: p_def q_def posts_def)
qed

theorem clearing_splits_gross_witness:
  "\<exists>e. entries (snd (post_payment_cleared toy_env sample_clearing empty_db)) = [e] \<and>
     map leg_view (jePostings e) = [(ProcessorClearing, Debit, 10000),
       (CreditorProceedsPayable, Credit, 9500), (PlatformFeeRevenue, Credit, 180),
       (ProcessorFeeExpense, Credit, 320)]"
proof -
  have "journal_lookup (ciPayment sample_clearing, PaymentCleared) empty_db = None"
    by (simp add: journal_lookup_def find_by_payment_and_type_def empty_db_def)
  then show ?thesis
    using clearing_splits_gross [OF empty_ledger_ok, of sample_clearing toy_env]
    by (auto simp: sample_clearing_def fee_or_zero_def cleared_amounts_ok_def cleared_legs_def
        int4_ok_def empty_db_def split: prod.splits sum.splits)
qed

section \<open>Exactly once\<close>

lemma journal_lookup_grew:
  assumes "only_ledger_grew s s'" and "journal_lookup k s = Some e"
  shows "journal_lookup k s' = Some e"
proof -
  obtain zs where "entries s' = entries s @ zs"
    using assms(1) take_prefix_obtain unfolding only_ledger_grew_def by metis
  then show ?thesis using assms(2)
    by (simp add: journal_lookup_def find_by_payment_and_type_def lookup_by_append)
qed

lemma posts_found: "posts k s (Inr e, s') \<Longrightarrow> journal_lookup k s' = Some e"
  by (simp add: posts_def)

text \<open>
  Exactly once: after a clearing, reversal or payout has answered with an entry, repeating the
  call at any later time, with any other postings in between, answers with the same entry and
  changes nothing.
\<close>

theorem posting_exactly_once:
  assumes "ledger_ok s" and "repeatable op" and "run_op E op s = (Inr e, s')"
    and "later = run_ops E ops s'"
  shows "run_op E op later = (Inr e, later)"
proof -
  have p: "posts (op_key op) s (Inr e, s')" using run_op_posts [OF assms(1), of op E] assms(3) by simp
  have "ledger_ok s'" using postsD(2) [OF p] by simp
  then have "only_ledger_grew s' later" using run_ops_keep assms(4) by blast
  then have "journal_lookup (op_key op) later = Some e"
    using journal_lookup_grew posts_found [OF p] by blast
  then show ?thesis using run_op_existing assms(2) by blast
qed

theorem posting_exactly_once_witness:
  "\<exists>e s'. post_payment_cleared toy_env sample_clearing empty_db = (Inr e, s') \<and>
     post_payment_cleared toy_env sample_clearing (run_ops toy_env [PostPayout 7 None] s')
       = (Inr e, run_ops toy_env [PostPayout 7 None] s')"
proof -
  have f: "journal_lookup (ciPayment sample_clearing, PaymentCleared) empty_db = None"
    by (simp add: journal_lookup_def find_by_payment_and_type_def empty_db_def)
  obtain e s' where "run_op toy_env (PostCleared sample_clearing) empty_db = (Inr e, s')"
    by (cases rule: post_payment_cleared_cases [OF refl refl refl refl empty_ledger_ok f, where E = toy_env])
      (simp_all add: sample_clearing_def fee_or_zero_def cleared_amounts_ok_def safe_int_def
        max_safe_def int4_ok_def)
  then show ?thesis
    using posting_exactly_once [OF empty_ledger_ok _ _ refl, of "PostCleared sample_clearing" toy_env e s'
        "[PostPayout 7 None]"]
    by (auto simp: repeatable_def)
qed

text \<open>
  An administrative adjustment is posted at most once per payment: once one is in the journal,
  every further attempt, whatever its target and amount and whatever was posted since, is refused
  and leaves the database as it was.
\<close>

theorem adjustment_only_once:
  assumes "ledger_ok s" and "post_admin_adjustment E i s = (Inr e, s')"
    and "later = run_ops E ops s'" and "aiPayment j = aiPayment i"
  shows "\<exists>err. post_admin_adjustment E j later = (Inl err, later)"
proof -
  have p: "posts (op_key (PostAdminAdjustment i)) s (Inr e, s')"
    using run_op_posts [OF assms(1), of "PostAdminAdjustment i" E] assms(2) by simp
  have "ledger_ok s'" using postsD(2) [OF p] by simp
  then have "only_ledger_grew s' later" using run_ops_keep assms(3) by blast
  then have "journal_lookup (aiPayment j, AdminAdjustment) later = Some e"
    using journal_lookup_grew posts_found [OF p] assms(4) by simp
  then show ?thesis
    by (auto simp: post_admin_adjustment_def journal_lookup_def split: option.split)
qed

definition sample_adjustment :: adjustment_input where
  "sample_adjustment = \<lparr>aiPayment = 7, aiAgreement = 1, aiCurrency = ''USD'',
     aiTarget = CreditorProceedsPayable, aiDirection = Credit, aiAmount = 250,
     aiReason = ''goodwill'', aiActor = 3\<rparr>"

theorem adjustment_only_once_witness:
  "\<exists>err s'. post_admin_adjustment toy_env (sample_adjustment\<lparr>aiAmount := 99\<rparr>)
     (snd (post_admin_adjustment toy_env sample_adjustment empty_db)) = (Inl err, s')"
proof -
  have n: "\<not> blank_text (aiReason sample_adjustment)" "journal_lookup k empty_db = None" for k
    by (simp_all add: sample_adjustment_def blank_text_def is_space_def journal_lookup_def
        find_by_payment_and_type_def empty_db_def)
  obtain e s' where r: "post_admin_adjustment toy_env sample_adjustment empty_db = (Inr e, s')"
    by (cases rule: post_admin_adjustment_cases [OF empty_ledger_ok, where i = sample_adjustment
          and E = toy_env]) (use n in \<open>simp_all add: sample_adjustment_def safe_int_def
        max_safe_def int4_ok_def\<close>)
  show ?thesis
    using adjustment_only_once [OF empty_ledger_ok r, of s' "[]" "sample_adjustment\<lparr>aiAmount := 99\<rparr>"]
    by (simp add: run_ops_def r) blast
qed

section \<open>Reversals\<close>

text \<open>What an entry moves on an account, debits counted positive.\<close>

definition net :: "uuid \<Rightarrow> posting list \<Rightarrow> int" where
  "net acc ps = debits (filter (\<lambda>p. poAccount p = acc) ps) - credits (filter (\<lambda>p. poAccount p = acc) ps)"

lemma net_mirror: "net acc (mirror ps) = - net acc ps"
  by (induction ps) (auto simp: net_def)

text \<open>
  A reversal takes back exactly what is still there. Before the payout it cancels the clearing
  entry on every account, fees included; after the payout it claws back exactly the creditor's
  share, which is what the payout moved. Nothing is reversed that never cleared.
\<close>

theorem reversal_takes_back:
  assumes "ledger_ok s" and "journal_lookup (pay, ty) s = None"
    and "reverse_payment E pay ty why s = (Inr e, s')"
  shows "\<exists>c. journal_lookup (pay, PaymentCleared) s = Some c \<and> jeAgreement e = jeAgreement c \<and>
    entries s' = entries s @ [e] \<and>
    (if journal_lookup (pay, Payout) s = None
     then \<forall>acc. net acc (jePostings c) + net acc (jePostings e) = 0
     else \<exists>leg. find_leg CreditorProceedsPayable c = Some leg \<and>
       map leg_view (jePostings e) = [(CreditorClawbackExposure, Debit, poAmount leg),
         (ProcessorClearing, Credit, poAmount leg)])"
  using assms(3)
proof (cases rule: reverse_payment_cases [OF assms(1,2), where E = E and why = why])
  case (3 c leg e' s'')
  then show ?thesis using assms(2,3) by (auto simp: posts_def)
next
  case (4 c e' s'')
  then show ?thesis using assms(2,3) by (auto simp: posts_def net_mirror)
qed auto

definition sample_cleared_db :: db where
  "sample_cleared_db = empty_db\<lparr>nextId := 4,
     accounts := [\<lparr>acId = 1, acType = ProcessorClearing, acAgreement = 1\<rparr>,
                  \<lparr>acId = 2, acType = CreditorProceedsPayable, acAgreement = 1\<rparr>],
     entries := [\<lparr>jeId = 3, jeType = PaymentCleared, jeAgreement = 1, jePayment = 7,
                  jeCurrency = ''USD'', jeReason = None,
                  jePostings = eiPostings (sample_entry_input 7 100)\<rparr>]\<rparr>"

lemma sample_cleared_ok: "ledger_ok sample_cleared_db"
  by (simp add: ledger_ok_def sample_cleared_db_def empty_db_def sample_entry_input_def entry_ok_def
      leg_ok_def posting_row_ok_def int4_ok_def)

theorem reversal_takes_back_witness:
  "\<exists>e s'. reverse_payment toy_env 7 Refund None sample_cleared_db = (Inr e, s') \<and>
     net 1 (jePostings e) = -100"
proof -
  have l: "journal_lookup (7, Refund) sample_cleared_db = None"
    "journal_lookup (7, Payout) sample_cleared_db = None"
    "\<exists>c. journal_lookup (7, PaymentCleared) sample_cleared_db = Some c \<and> net 1 (jePostings c) = 100"
    by (simp_all add: journal_lookup_def find_by_payment_and_type_def sample_cleared_db_def
        sample_entry_input_def net_def)
  obtain e s' where r: "reverse_payment toy_env 7 Refund None sample_cleared_db = (Inr e, s')"
    by (cases rule: reverse_payment_cases [OF sample_cleared_ok l(1), where E = toy_env and why = None])
      (use l in auto)
  obtain c where c: "journal_lookup (7, PaymentCleared) sample_cleared_db = Some c"
    "net 1 (jePostings c) = 100" using l(3) by blast
  have "\<forall>acc. net acc (jePostings c) + net acc (jePostings e) = 0"
    using reversal_takes_back [OF sample_cleared_ok l(1) r] l(2) c(1) by auto
  then have "net 1 (jePostings e) = -100" using c(2) by (metis add_eq_0_iff)
  then show ?thesis using r by blast
qed

section \<open>Payouts never follow a reversal\<close>

definition payout_order :: "journal_entry list \<Rightarrow> bool" where
  "payout_order es \<longleftrightarrow> sorted_wrt (\<lambda>a b. \<not> (jePayment a = jePayment b \<and>
     automatic_reversal (jeType a) \<and> jeType b = Payout)) es"

text \<open>The reversal operation takes one of the three automatic entry types.\<close>

definition typed_op :: "ledger_op \<Rightarrow> bool" where
  "typed_op op = (case op of ReversePayment _ ty _ \<Rightarrow> automatic_reversal ty | _ \<Rightarrow> True)"

lemma journal_lookup_None: "journal_lookup (p, ty) s = None \<longleftrightarrow>
    (\<forall>e \<in> set (entries s). \<not> (jePayment e = p \<and> jeType e = ty))"
  unfolding journal_lookup_def find_by_payment_and_type_def lookup_by_None_iff by auto

lemma run_op_payout_order:
  assumes "ledger_ok s" and "typed_op op" and "payout_order (entries s)"
  shows "payout_order (entries (snd (run_op E op s)))"
proof (cases "entries (snd (run_op E op s)) = entries s")
  case False
  have p: "posts (op_key op) s (run_op E op s)" by (rule run_op_posts [OF assms(1)])
  then obtain e where e: "fst (run_op E op s) = Inr e" "journal_lookup (op_key op) s = None"
      "entries (snd (run_op E op s)) = entries s @ [e]"
      "journal_lookup (op_key op) (snd (run_op E op s)) = Some e"
    using False by (auto simp: posts_def split: sum.splits option.splits)
  have k: "entry_key e = op_key op"
    by (rule journal_lookup_ok(2) [OF e(4) postsD(2) [OF p]])
  have "\<not> (jePayment a = jePayment e \<and> automatic_reversal (jeType a) \<and> jeType e = Payout)"
    if "a \<in> set (entries s)" for a
  proof
    assume a: "jePayment a = jePayment e \<and> automatic_reversal (jeType a) \<and> jeType e = Payout"
    then obtain why where op: "op = PostPayout (jePayment e) why"
      using k assms(2) by (cases op) (auto simp: typed_op_def automatic_reversal_def)
    have r: "reversed_or_disputed (jePayment e) s"
      using a that by (auto simp: reversed_or_disputed_def journal_lookup_None automatic_reversal_def)
    have f: "journal_lookup (jePayment e, Payout) s = None" using e(2) by (simp add: op)
    have "\<exists>err. fst (run_op E op s) = Inl err"
      by (cases rule: post_payout_cases [OF assms(1) f, where E = E and why = why])
        (use r in \<open>simp_all add: op\<close>)
    then show False using e(1) by simp
  qed
  then show ?thesis using assms(3) e(3) by (simp add: payout_order_def sorted_wrt_append)
qed (simp add: assms(3))

text \<open>
  No payout leaves after the money has been taken back: in every journal the ledger can reach,
  a payout entry never comes after a refund, reversal or dispute entry of its payment.
\<close>

theorem no_payout_after_reversal:
  assumes "ledger_ok s" and "payout_order (entries s)" and "list_all typed_op ops"
  shows "payout_order (entries (run_ops E ops s))"
  using assms
proof (induction ops arbitrary: s)
  case Nil
  then show ?case by (simp add: run_ops_def)
next
  case (Cons op ops)
  let ?s = "snd (run_op E op s)"
  have "run_ops E (op # ops) s = run_ops E ops ?s" by (simp add: run_ops_def)
  moreover have "ledger_ok ?s" using postsD(2) [OF run_op_posts [OF Cons.prems(1)]] .
  ultimately show ?case
    using Cons.IH [of ?s] Cons.prems run_op_payout_order [of s op E] by simp
qed

theorem no_payout_after_reversal_witness:
  "payout_order (entries (run_ops toy_env [ReversePayment 7 Refund None, PostPayout 7 None]
     sample_cleared_db))"
  by (rule no_payout_after_reversal [OF sample_cleared_ok])
    (simp_all add: payout_order_def sample_cleared_db_def typed_op_def automatic_reversal_def)

end
