(* ===== verification/Balances.thy ===== *)
theory Balances
  imports LedgerLaws
begin

text \<open>
  Balances reconstructed from the journal (\<open>src/lib/ledger/balanceService.ts\<close> and
  \<open>installmentSettlement.ts\<close>): the entries grouped by payment in a \<open>Map\<close> (an association list in
  insertion order), each cleared payment classified as paid or reversed, the totals, the agreement
  balance and the settlement of an installment. The laws connect the reconstruction to the posting
  operations of the ledger.
\<close>

section \<open>Classification\<close>

datatype outcome = OutcomePaid | OutcomeReversed

text \<open>\<open>byPayment.set(id, [...list, entry])\<close>: a known key keeps its place, a new one comes last.\<close>

fun push_entry ::
    "journal_entry \<Rightarrow> (uuid \<times> journal_entry list) list \<Rightarrow> (uuid \<times> journal_entry list) list" where
  "push_entry e [] = [(jePayment e, [e])]"
| "push_entry e ((k, es) # m) =
     (if k = jePayment e then (k, es @ [e]) # m else (k, es) # push_entry e m)"

definition by_payment :: "journal_entry list \<Rightarrow> (uuid \<times> journal_entry list) list" where
  "by_payment es = foldl (\<lambda>m e. push_entry e m) [] es"

definition gross_leg :: "journal_entry \<Rightarrow> posting option" where
  "gross_leg e = find (\<lambda>p. poType p = ProcessorClearing \<and> poDirection p = Debit) (jePostings e)"

definition classify_one :: "journal_entry list \<Rightarrow> (outcome \<times> int) option" where
  "classify_one es =
     (case find (\<lambda>e. jeType e = PaymentCleared) es of
        None \<Rightarrow> None
      | Some clearEntry \<Rightarrow>
          (case gross_leg clearEntry of
             None \<Rightarrow> None
           | Some leg \<Rightarrow>
               Some (if list_ex (\<lambda>e. automatic_reversal (jeType e)) es
                     then OutcomeReversed else OutcomePaid, poAmount leg)))"

definition classify_payment_attempts :: "journal_entry list \<Rightarrow> (uuid \<times> outcome \<times> int) list" where
  "classify_payment_attempts es =
     List.map_filter (\<lambda>(pay, pes). map_option (Pair pay) (classify_one pes)) (by_payment es)"

text \<open>Amounts paid and reversed.\<close>

definition reconstruct_paid_and_reversed :: "journal_entry list \<Rightarrow> int \<times> int" where
  "reconstruct_paid_and_reversed es =
     foldl (\<lambda>(paid, revd) (_, out, n).
       if out = OutcomeReversed then (paid, js_add revd n) else (js_add paid n, revd))
       (0, 0) (classify_payment_attempts es)"

section \<open>Balance of an agreement\<close>

datatype settlement_state = Unpaid | PartiallyPaid | FullyPaid | Overpaid

record agreement_balance =
  abAgreement :: uuid
  abCurrency :: string
  abPrincipal :: int
  abPaid :: int
  abReversed :: int
  abRemaining :: int
  abState :: settlement_state

text \<open>\<open>getPrincipal\<close>: the principal of the current version, if there is one.\<close>

definition get_principal :: "uuid \<Rightarrow> db \<Rightarrow> (int \<times> string) option" where
  "get_principal ag s =
     (case find_agreement ag s of
        None \<Rightarrow> None
      | Some a \<Rightarrow>
          (case agCurrentVersion a of
             None \<Rightarrow> None
           | Some v \<Rightarrow> map_option (\<lambda>row. (avPrincipal row, agCurrency a)) (find_version v s)))"

definition settlement_state_of :: "int \<Rightarrow> int \<Rightarrow> settlement_state" where
  "settlement_state_of paid princ =
     (if paid \<le> 0 then Unpaid
      else if paid < princ then PartiallyPaid
      else if paid = princ then FullyPaid
      else Overpaid)"

definition get_agreement_balance :: "uuid \<Rightarrow> db \<Rightarrow> error + agreement_balance" where
  "get_agreement_balance ag s =
     (case get_principal ag s of
        None \<Rightarrow> Inl (ValidationError ''noTerms'')
      | Some (princ, currency) \<Rightarrow>
          (case reconstruct_paid_and_reversed (list_for_agreement ag s) of
             (paid, revd) \<Rightarrow>
               Inr \<lparr>abAgreement = ag, abCurrency = currency, abPrincipal = princ,
                    abPaid = paid, abReversed = revd,
                    abRemaining = js_sub princ paid,
                    abState = settlement_state_of paid princ\<rparr>))"

section \<open>Settlement of an installment\<close>

record settlement_snapshot =
  ssInstallment :: uuid
  ssAmount :: int
  ssSettled :: int
  ssRemaining :: int
  ssSatisfied :: bool
  ssContributing :: "uuid list"

definition compute_installment_settlement ::
    "uuid \<Rightarrow> int \<Rightarrow> journal_entry list \<Rightarrow> settlement_snapshot" where
  "compute_installment_settlement i amount es =
     (let paid = fst (reconstruct_paid_and_reversed es)
      in \<lparr>ssInstallment = i, ssAmount = amount, ssSettled = paid,
          ssRemaining = js_sub amount paid, ssSatisfied = (amount \<le> paid),
          ssContributing =
            map fst (filter (\<lambda>(_, out, _). out = OutcomePaid) (classify_payment_attempts es))\<rparr>)"

section \<open>The reconstruction as a sum\<close>

definition group_total :: "(journal_entry list \<Rightarrow> int) \<Rightarrow> (uuid \<times> journal_entry list) list \<Rightarrow> int" where
  "group_total f m = sum_list (map (\<lambda>(_, es). f es) m)"

definition paid_value :: "journal_entry list \<Rightarrow> int" where
  "paid_value es = (case classify_one es of Some (OutcomePaid, n) \<Rightarrow> n | _ \<Rightarrow> 0)"

definition reversed_value :: "journal_entry list \<Rightarrow> int" where
  "reversed_value es = (case classify_one es of Some (OutcomeReversed, n) \<Rightarrow> n | _ \<Rightarrow> 0)"

text \<open>The mathematical totals, without rounding.\<close>

definition total_paid :: "journal_entry list \<Rightarrow> int" where
  "total_paid es = group_total paid_value (by_payment es)"

definition total_reversed :: "journal_entry list \<Rightarrow> int" where
  "total_reversed es = group_total reversed_value (by_payment es)"

lemma push_entry_lookup:
  "map_of (push_entry e m) k =
     (if k = jePayment e then Some ((case map_of m k of None \<Rightarrow> [] | Some es \<Rightarrow> es) @ [e])
      else map_of m k)"
  by (induction e m rule: push_entry.induct) auto

lemma push_entry_keys:
  "fst ` set (push_entry e m) = insert (jePayment e) (fst ` set m)"
  "distinct (map fst m) \<Longrightarrow> distinct (map fst (push_entry e m))"
  by (induction e m rule: push_entry.induct) auto

lemma by_payment_snoc: "by_payment (es @ [e]) = push_entry e (by_payment es)"
  by (simp add: by_payment_def)

lemma by_payment_distinct: "distinct (map fst (by_payment es))"
  by (induction es rule: rev_induct) (simp_all add: by_payment_snoc push_entry_keys, simp add: by_payment_def)

abbreviation entries_of :: "uuid \<Rightarrow> journal_entry list \<Rightarrow> journal_entry list" where
  "entries_of p es \<equiv> filter (\<lambda>e. jePayment e = p) es"

lemma by_payment_lookup:
  "map_of (by_payment es) p = (if entries_of p es = [] then None else Some (entries_of p es))"
proof (induction es rule: rev_induct)
  case Nil
  then show ?case by (simp add: by_payment_def)
next
  case (snoc e es)
  then show ?case by (auto simp: by_payment_snoc push_entry_lookup)
qed

lemma group_total_push:
  assumes "distinct (map fst m)" and "f [] = 0"
  shows "group_total f (push_entry e m) = group_total f m
    + f ((case map_of m (jePayment e) of None \<Rightarrow> [] | Some es \<Rightarrow> es) @ [e])
    - f (case map_of m (jePayment e) of None \<Rightarrow> [] | Some es \<Rightarrow> es)"
  using assms
proof (induction e m rule: push_entry.induct)
  case (1 e)
  then show ?case by (simp add: group_total_def)
next
  case (2 e k es m)
  then have "map_of m k = None" by (simp add: map_of_eq_None_iff)
  then show ?case using 2 by (auto simp: group_total_def)
qed

lemma group_total_snoc:
  assumes "f [] = 0"
  shows "group_total f (by_payment (es @ [e])) = group_total f (by_payment es)
    + f (entries_of (jePayment e) es @ [e]) - f (entries_of (jePayment e) es)"
  using group_total_push [where f = f and m = "by_payment es" and e = e, OF by_payment_distinct assms]
  by (simp add: by_payment_snoc by_payment_lookup split: if_splits)

lemma value_Nil [simp]: "paid_value [] = 0" "reversed_value [] = 0"
  by (simp_all add: paid_value_def reversed_value_def classify_one_def)

text \<open>Appending one entry changes the totals only through its own payment.\<close>

lemma total_paid_snoc:
  "total_paid (es @ [e]) = total_paid es
    + paid_value (entries_of (jePayment e) es @ [e]) - paid_value (entries_of (jePayment e) es)"
  unfolding total_paid_def by (rule group_total_snoc) simp

lemma total_reversed_snoc:
  "total_reversed (es @ [e]) = total_reversed es
    + reversed_value (entries_of (jePayment e) es @ [e])
    - reversed_value (entries_of (jePayment e) es)"
  unfolding total_reversed_def by (rule group_total_snoc) simp

text \<open>Positive legs: the classified amounts are positive, so partial sums stay below the total.\<close>

definition positive_entries :: "journal_entry list \<Rightarrow> bool" where
  "positive_entries es \<longleftrightarrow> list_all (\<lambda>e. list_all (\<lambda>p. 0 < poAmount p) (jePostings e)) es"

lemma gross_leg_positive:
  "positive_entries es \<Longrightarrow> e \<in> set es \<Longrightarrow> gross_leg e = Some p \<Longrightarrow> 0 < poAmount p"
  by (auto simp: positive_entries_def gross_leg_def list_all_iff find_Some_iff)

lemma classify_one_positive:
  "positive_entries es \<Longrightarrow> classify_one es = Some (out, n) \<Longrightarrow> 0 < n"
  by (auto simp: classify_one_def find_Some_iff split: option.splits
      intro: gross_leg_positive [OF _ nth_mem])

lemma value_nonneg:
  assumes "positive_entries es"
  shows "0 \<le> paid_value es" and "0 \<le> reversed_value es"
  using classify_one_positive [OF assms]
  by (fastforce simp: paid_value_def reversed_value_def split: option.splits outcome.splits)+

lemma by_payment_positive:
  assumes "positive_entries es" and "(k, pes) \<in> set (by_payment es)"
  shows "positive_entries pes"
proof -
  have "map_of (by_payment es) k = Some pes"
    using assms(2) by_payment_distinct by simp
  then have "pes = entries_of k es" by (simp add: by_payment_lookup split: if_splits)
  then show ?thesis using assms(1) by (auto simp: positive_entries_def list_all_iff)
qed

lemma fold_values:
  assumes "\<forall>(k, es) \<in> set m. positive_entries es" and "0 \<le> a" and "0 \<le> b"
    and "a + group_total paid_value m \<le> max_safe" and "b + group_total reversed_value m \<le> max_safe"
  shows "foldl (\<lambda>(paid, revd) (_, out, n).
       if out = OutcomeReversed then (paid, js_add revd n) else (js_add paid n, revd)) (a, b)
       (List.map_filter (\<lambda>(pay, pes). map_option (Pair pay) (classify_one pes)) m)
     = (a + group_total paid_value m, b + group_total reversed_value m)"
  using assms
proof (induction m arbitrary: a b)
  case Nil
  then show ?case by (simp add: group_total_def List.map_filter_def)
next
  case (Cons km m)
  obtain k es where km: "km = (k, es)" by (cases km)
  have rest: "\<forall>(k, es) \<in> set m. positive_entries es" "positive_entries es"
    using Cons.prems(1) km by auto
  have nn: "0 \<le> group_total paid_value m" "0 \<le> group_total reversed_value m"
    unfolding group_total_def by (rule sum_list_nonneg_int; use rest(1) value_nonneg in auto)+
  have g: "group_total f ((k, es) # m) = f es + group_total f m" for f by (simp add: group_total_def)
  note prems = Cons.prems [unfolded km]
  show ?case
  proof (cases "classify_one es")
    case None
    then have v: "paid_value es = 0" "reversed_value es = 0"
      by (simp_all add: paid_value_def reversed_value_def)
    show ?thesis using Cons.IH [OF rest(1) prems(2,3)] prems(4,5) None
      by (simp add: g v km)
  next
    case (Some on)
    obtain out n where on: "on = (out, n)" by (cases on)
    have n: "0 < n" using classify_one_positive rest(2) Some on by blast
    show ?thesis
    proof (cases out)
      case OutcomePaid
      have v: "paid_value es = n" "reversed_value es = 0"
        using Some on OutcomePaid by (simp_all add: paid_value_def reversed_value_def)
      have "js_add a n = a + n"
        using prems(2,4) n nn by (intro js_add_exact) (simp add: safe_int_def g v)
      then show ?thesis using Cons.IH [OF rest(1), of "a + n" b] prems n Some on OutcomePaid
        by (simp add: g v km)
    next
      case OutcomeReversed
      have v: "paid_value es = 0" "reversed_value es = n"
        using Some on OutcomeReversed by (simp_all add: paid_value_def reversed_value_def)
      have "js_add b n = b + n"
        using prems(3,5) n nn by (intro js_add_exact) (simp add: safe_int_def g v)
      then show ?thesis using Cons.IH [OF rest(1), of a "b + n"] prems n Some on OutcomeReversed
        by (simp add: g v km)
    qed
  qed
qed

definition safe_journal :: "journal_entry list \<Rightarrow> bool" where
  "safe_journal es \<longleftrightarrow> positive_entries es \<and>
     total_paid es \<le> max_safe \<and> total_reversed es \<le> max_safe"

lemma reconstruct_exact:
  "safe_journal es \<Longrightarrow> reconstruct_paid_and_reversed es = (total_paid es, total_reversed es)"
  unfolding reconstruct_paid_and_reversed_def classify_payment_attempts_def total_paid_def
    total_reversed_def safe_journal_def
  by (subst fold_values) (use by_payment_positive in auto)

lemma total_paid_nonneg: "positive_entries es \<Longrightarrow> 0 \<le> total_paid es"
  unfolding total_paid_def group_total_def
  by (rule sum_list_nonneg_int) (use by_payment_positive value_nonneg in auto)

lemma ledger_ok_positive: "ledger_ok s \<Longrightarrow> positive_entries (filter P (entries s))"
  by (auto simp: ledger_ok_def positive_entries_def list_all_iff entry_ok_def leg_ok_def
      posting_row_ok_def)

section \<open>Balances follow the postings\<close>

text \<open>Clearing entries open with the gross, and every reversal has its clearing entry.\<close>

definition opens_with_gross :: "journal_entry \<Rightarrow> bool" where
  "opens_with_gross e \<longleftrightarrow>
     (case gross_leg e of None \<Rightarrow> False | Some leg \<Rightarrow> poAmount leg = debits (jePostings e))"

definition backed :: "db \<Rightarrow> bool" where
  "backed s \<longleftrightarrow> list_all (\<lambda>e.
     (jeType e = PaymentCleared \<longrightarrow> opens_with_gross e) \<and>
     (automatic_reversal (jeType e) \<longrightarrow>
        list_ex (\<lambda>c. entry_key c = (jePayment e, PaymentCleared) \<and> jeAgreement c = jeAgreement e)
          (entries s))) (entries s)"

lemma cleared_legs_open:
  assumes "map leg_view (jePostings e) = cleared_legs g p q"
  shows "opens_with_gross e \<and> debits (jePostings e) = g"
proof -
  obtain leg rest where e: "jePostings e = leg # rest"
    "leg_view leg = (ProcessorClearing, Debit, g)" "map leg_view rest = tl (cleared_legs g p q)"
    using assms by (cases "jePostings e") (auto simp: cleared_legs_def)
  have "debits rest = 0"
  proof -
    have "list_all (\<lambda>p. poDirection p = Credit) rest"
      using e(3) by (auto simp: cleared_legs_def list_all_iff map_eq_append_conv split: if_splits)
    then show ?thesis by (induction rest) auto
  qed
  then show ?thesis using e by (simp add: opens_with_gross_def gross_leg_def)
qed

lemma new_entry_props:
  assumes "ledger_ok s" and "typed_op op" and "run_op E op s = (Inr e, s')"
    and "journal_lookup (op_key op) s = None"
  shows "entries s' = entries s @ [e] \<and> entry_key e = op_key op \<and>
    (jeType e = PaymentCleared \<longrightarrow> opens_with_gross e) \<and>
    (automatic_reversal (jeType e) \<longrightarrow>
      (\<exists>c. journal_lookup (jePayment e, PaymentCleared) s = Some c \<and> jeAgreement c = jeAgreement e))"
proof -
  have p: "posts (op_key op) s (Inr e, s')" using run_op_posts [OF assms(1), of op E] assms(3) by simp
  have en: "entries s' = entries s @ [e]" using p assms(4) by (simp add: posts_def)
  have k: "entry_key e = op_key op"
    using journal_lookup_ok(2) [OF posts_found [OF p]] postsD(2) [OF p] by simp
  have "jeType e = PaymentCleared \<longrightarrow> opens_with_gross e"
  proof
    assume "jeType e = PaymentCleared"
    then obtain i where op: "op = PostCleared i"
      using k assms(2) by (cases op) (auto simp: typed_op_def automatic_reversal_def)
    show "opens_with_gross e"
      by (cases rule: post_payment_cleared_cases [OF refl refl refl refl assms(1), of i, where E = E])
        (use assms(3,4) op cleared_legs_open in auto)
  qed
  moreover have "automatic_reversal (jeType e) \<longrightarrow>
      (\<exists>c. journal_lookup (jePayment e, PaymentCleared) s = Some c \<and> jeAgreement c = jeAgreement e)"
  proof
    assume a: "automatic_reversal (jeType e)"
    then obtain pay ty why where op: "op = ReversePayment pay ty why" "jePayment e = pay"
      using k by (cases op) (auto simp: automatic_reversal_def)
    have f: "journal_lookup (pay, ty) s = None" using assms(4) op by simp
    show "\<exists>c. journal_lookup (jePayment e, PaymentCleared) s = Some c \<and> jeAgreement c = jeAgreement e"
      by (cases rule: reverse_payment_cases [OF assms(1) f, where E = E and why = why])
        (use assms(3) op in auto)
  qed
  ultimately show ?thesis using en k by blast
qed

lemma journal_lookup_mem: "journal_lookup k s = Some e \<Longrightarrow> e \<in> set (entries s) \<and> entry_key e = k"
  unfolding journal_lookup_def find_by_payment_and_type_def prod.collapse
  by (blast dest: lookup_by_Some_mem lookup_by_Some_key)

lemma backed_new:
  assumes "ledger_ok s" and "typed_op op" and "backed s"
  shows "backed (snd (run_op E op s))"
proof (cases "entries (snd (run_op E op s)) = entries s")
  case True
  then show ?thesis using assms(3) by (simp add: backed_def)
next
  case False
  have p: "posts (op_key op) s (run_op E op s)" by (rule run_op_posts [OF assms(1)])
  then obtain e where e: "run_op E op s = (Inr e, snd (run_op E op s))"
      "journal_lookup (op_key op) s = None"
    using False by (cases "run_op E op s") (auto simp: posts_def split: sum.splits option.splits)
  note n = new_entry_props [OF assms(1,2) e]
  have "automatic_reversal (jeType e) \<Longrightarrow> list_ex (\<lambda>c. entry_key c = (jePayment e, PaymentCleared) \<and>
      jeAgreement c = jeAgreement e) (entries s)"
    using n journal_lookup_mem by (fastforce simp: list_ex_iff)
  then show ?thesis using assms(3) n
    by (auto simp: backed_def list_all_iff list_ex_iff)
qed

abbreviation clear_of :: "journal_entry list \<Rightarrow> journal_entry option" where
  "clear_of es \<equiv> find (\<lambda>e. jeType e = PaymentCleared) es"

abbreviation has_reversal :: "journal_entry list \<Rightarrow> bool" where
  "has_reversal es \<equiv> list_ex (\<lambda>e. automatic_reversal (jeType e)) es"

lemma find_append: "find P (xs @ ys) = (case find P xs of None \<Rightarrow> find P ys | Some x \<Rightarrow> Some x)"
  by (induction xs) auto

lemma gross_leg_open:
  "opens_with_gross e \<Longrightarrow> \<exists>leg. gross_leg e = Some leg \<and> poAmount leg = debits (jePostings e)"
  by (auto simp: opens_with_gross_def split: option.splits)

lemma paid_value_clear:
  assumes "clear_of es = Some c" and "opens_with_gross c"
  shows "paid_value es = (if has_reversal es then 0 else debits (jePostings c))"
  using gross_leg_open [OF assms(2)] assms(1) by (auto simp: paid_value_def classify_one_def)

lemma paid_value_no_clear: "clear_of es = None \<Longrightarrow> paid_value es = 0"
  by (simp add: paid_value_def classify_one_def)

lemma paid_value_snoc:
  assumes "\<And>c. clear_of (es @ [e]) = Some c \<Longrightarrow> opens_with_gross c"
    and "jeType e = PaymentCleared \<Longrightarrow> clear_of es = None \<and> \<not> has_reversal es"
  shows "paid_value (es @ [e]) - paid_value es =
    (if jeType e = PaymentCleared then debits (jePostings e)
     else if automatic_reversal (jeType e) \<and> \<not> has_reversal es
     then (case clear_of es of Some c \<Rightarrow> - debits (jePostings c) | None \<Rightarrow> 0) else 0)"
proof (cases "clear_of es")
  case None
  then show ?thesis using assms
    by (auto simp: paid_value_no_clear find_append paid_value_clear automatic_reversal_def)
next
  case (Some c)
  then have ne: "jeType e \<noteq> PaymentCleared" using assms(2) by auto
  have c: "clear_of (es @ [e]) = Some c" using Some by (simp add: find_append)
  show ?thesis
    using paid_value_clear [OF Some] paid_value_clear [OF c] assms(1) [OF c] Some ne by simp
qed

text \<open>Within a sound journal the entries of a payment in its agreement decide its lookups.\<close>

lemma clear_of_lookup:
  assumes "ledger_ok s" and "journal_lookup (p, PaymentCleared) s = Some c" and "jeAgreement c = ag"
  shows "clear_of (entries_of p (list_for_agreement ag s)) = Some c"
proof -
  have c: "c \<in> set (entries s)" "entry_key c = (p, PaymentCleared)"
    using journal_lookup_mem [OF assms(2)] by auto
  have "\<exists>c'. clear_of (entries_of p (list_for_agreement ag s)) = Some c'"
    using c assms(3) by (auto simp: find_None_iff list_for_agreement_def
        simp flip: not_None_eq)
  then obtain c' where c': "clear_of (entries_of p (list_for_agreement ag s)) = Some c'" by blast
  then have "c' \<in> set (entries s)" "entry_key c' = (p, PaymentCleared)"
    by (auto simp: find_Some_iff list_for_agreement_def dest!: nth_mem [of _ "filter _ _"])
  then have "c' = c" using c assms(1) by (auto simp: ledger_ok_def distinct_map inj_on_def)
  then show ?thesis using c' by simp
qed

lemma clear_of_none:
  assumes "journal_lookup (p, PaymentCleared) s = None"
  shows "clear_of (entries_of p (list_for_agreement ag s)) = None"
  using assms by (auto simp: find_None_iff list_for_agreement_def journal_lookup_None)

lemma has_reversal_lookup:
  assumes "ledger_ok s" and "backed s" and "\<And>c. journal_lookup (p, PaymentCleared) s = Some c \<Longrightarrow>
    jeAgreement c = ag"
  shows "has_reversal (entries_of p (list_for_agreement ag s)) = reversed_or_disputed p s"
proof -
  have "jeAgreement e = ag" if e: "e \<in> set (entries s)" "jePayment e = p" "automatic_reversal (jeType e)"
    for e
  proof -
    obtain c where c: "c \<in> set (entries s)" "entry_key c = (p, PaymentCleared)"
      "jeAgreement c = jeAgreement e"
      using assms(2) e by (auto simp: backed_def list_all_iff list_ex_iff)
    have "journal_lookup (p, PaymentCleared) s = Some c"
      using lookup_by_distinct [of entry_key "entries s" c] assms(1) c
      by (simp add: journal_lookup_def find_by_payment_and_type_def ledger_ok_def)
    then show ?thesis using assms(3) c(3) by simp
  qed
  then show ?thesis
    by (auto simp: list_ex_iff list_for_agreement_def reversed_or_disputed_def journal_lookup_None
        automatic_reversal_def simp flip: not_None_eq)
qed

lemma list_for_agreement_new:
  "entries s' = entries s @ [e] \<Longrightarrow> list_for_agreement ag s' =
     list_for_agreement ag s @ (if jeAgreement e = ag then [e] else [])"
  by (simp add: list_for_agreement_def)

lemma backed_open: "backed s \<Longrightarrow> c \<in> set (entries s) \<Longrightarrow> jeType c = PaymentCleared \<Longrightarrow> opens_with_gross c"
  by (auto simp: backed_def list_all_iff)

lemma reversal_needs_clear:
  assumes "backed s" and "reversed_or_disputed p s"
  shows "journal_lookup (p, PaymentCleared) s \<noteq> None"
  using assms by (auto simp: backed_def list_all_iff list_ex_iff reversed_or_disputed_def
      journal_lookup_None automatic_reversal_def simp flip: not_None_eq)

definition gross_of_clear :: "uuid \<Rightarrow> db \<Rightarrow> int" where
  "gross_of_clear p s = (case journal_lookup (p, PaymentCleared) s of
     Some c \<Rightarrow> debits (jePostings c) | None \<Rightarrow> 0)"

lemma total_paid_new_entry:
  assumes "ledger_ok s" and "backed s" and "typed_op op" and "run_op E op s = (Inr e, s')"
    and "journal_lookup (op_key op) s = None" and "jeAgreement e = ag"
  shows "total_paid (list_for_agreement ag s @ [e]) = total_paid (list_for_agreement ag s) +
    (if jeType e = PaymentCleared then debits (jePostings e)
     else if automatic_reversal (jeType e) \<and> \<not> reversed_or_disputed (jePayment e) s
     then - gross_of_clear (jePayment e) s else 0)"
proof -
  let ?p = "jePayment e" and ?es = "entries_of (jePayment e) (list_for_agreement ag s)"
  note n = new_entry_props [OF assms(1,3-5)]
  have open1: "opens_with_gross c" if "clear_of (?es @ [e]) = Some c" for c
  proof -
    have "c \<in> set ?es \<or> c = e" "jeType c = PaymentCleared"
      using that by (auto simp: find_Some_iff nth_append split: if_splits dest!: nth_mem)
    then show ?thesis using n backed_open [OF assms(2)] by (auto simp: list_for_agreement_def)
  qed
  have first: "clear_of ?es = None \<and> \<not> has_reversal ?es" if t: "jeType e = PaymentCleared"
  proof -
    have none: "journal_lookup (?p, PaymentCleared) s = None" using n t assms(5) by auto
    then have "\<not> reversed_or_disputed ?p s" using reversal_needs_clear [OF assms(2)] by blast
    then show ?thesis using clear_of_none [OF none] has_reversal_lookup [OF assms(1,2), of ?p ag] none
      by simp
  qed
  have rev: "has_reversal ?es = reversed_or_disputed ?p s \<and>
      (case clear_of ?es of Some c \<Rightarrow> - debits (jePostings c) | None \<Rightarrow> 0) = - gross_of_clear ?p s"
    if rv: "automatic_reversal (jeType e)"
  proof -
    obtain c where c: "journal_lookup (?p, PaymentCleared) s = Some c" "jeAgreement c = ag"
      using n rv assms(6) by auto
    then show ?thesis
      using clear_of_lookup [OF assms(1) c] has_reversal_lookup [OF assms(1,2), of ?p ag]
      by (simp add: gross_of_clear_def)
  qed
  show ?thesis
    using total_paid_snoc [of "list_for_agreement ag s" e] paid_value_snoc [OF open1 first] rev
    by (auto simp: automatic_reversal_def)
qed

text \<open>
  C6. The balance follows the ledger to the cent: the amount an agreement counts as paid rises by
  the gross of each new clearing, falls by the gross of the cleared payment at its first refund,
  reversal or dispute entry, and is left alone by payouts, adjustments, further reversals and every
  posting of another agreement.
\<close>

theorem balance_follows_postings:
  assumes "ledger_ok s" and "backed s" and "typed_op op" and "run_op E op s = (Inr e, s')"
    and "journal_lookup (op_key op) s = None"
    and "safe_journal (list_for_agreement ag s)" and "safe_journal (list_for_agreement ag s')"
  shows "fst (reconstruct_paid_and_reversed (list_for_agreement ag s')) =
    fst (reconstruct_paid_and_reversed (list_for_agreement ag s)) +
    (if jeAgreement e \<noteq> ag then 0
     else if jeType e = PaymentCleared then debits (jePostings e)
     else if automatic_reversal (jeType e) \<and> \<not> reversed_or_disputed (jePayment e) s
     then - gross_of_clear (jePayment e) s else 0)"
  using total_paid_new_entry [OF assms(1-5)] new_entry_props [OF assms(1,3-5)]
    reconstruct_exact [OF assms(6)] reconstruct_exact [OF assms(7)]
  by (auto simp: list_for_agreement_new)

theorem balance_follows_postings_witness:
  "fst (reconstruct_paid_and_reversed (list_for_agreement 1
     (snd (reverse_payment toy_env 7 Refund None sample_cleared_db)))) = 0"
proof -
  have l: "journal_lookup (7, Refund) sample_cleared_db = None"
    "journal_lookup (7, Payout) sample_cleared_db = None"
    "\<exists>c. journal_lookup (7, PaymentCleared) sample_cleared_db = Some c"
    "\<not> reversed_or_disputed 7 sample_cleared_db" "gross_of_clear 7 sample_cleared_db = 100"
    by (simp_all add: journal_lookup_def find_by_payment_and_type_def sample_cleared_db_def
        sample_entry_input_def reversed_or_disputed_def gross_of_clear_def)
  obtain c e s' where r: "reverse_payment toy_env 7 Refund None sample_cleared_db = (Inr e, s')"
    "journal_lookup (7, PaymentCleared) sample_cleared_db = Some c" "jeAgreement e = jeAgreement c"
    by (cases rule: reverse_payment_cases [OF sample_cleared_ok l(1), where E = toy_env and why = None])
      (use l in auto)
  have b: "backed sample_cleared_db"
    by (simp add: backed_def sample_cleared_db_def opens_with_gross_def gross_leg_def
        sample_entry_input_def automatic_reversal_def)
  have c: "jeAgreement c = 1" using r(2) by (auto simp: journal_lookup_def
        find_by_payment_and_type_def sample_cleared_db_def)
  let ?op = "ReversePayment 7 Refund None"
  have run: "run_op toy_env ?op sample_cleared_db = (Inr e, s')" using r(1) by simp
  have n: "entries s' = entries sample_cleared_db @ [e]" "jePayment e = 7" "jeType e = Refund"
    using new_entry_props [OF sample_cleared_ok _ run] l(1)
    by (auto simp: typed_op_def automatic_reversal_def)
  have before: "safe_journal (list_for_agreement 1 sample_cleared_db) \<and>
      total_paid (list_for_agreement 1 sample_cleared_db) = 100"
    by (simp add: safe_journal_def list_for_agreement_def sample_cleared_db_def positive_entries_def
        sample_entry_input_def total_paid_def total_reversed_def group_total_def by_payment_def
        paid_value_def reversed_value_def classify_one_def gross_leg_def automatic_reversal_def
        max_safe_def)
  have pos: "positive_entries (list_for_agreement 1 s')"
    using ledger_ok_positive postsD(2) [OF run_op_posts [OF sample_cleared_ok], of toy_env ?op] r(1)
    by (simp add: list_for_agreement_def)
  have after: "safe_journal (list_for_agreement 1 s')"
    using pos r(3) n by (simp add: safe_journal_def list_for_agreement_new c list_for_agreement_def
        sample_cleared_db_def sample_entry_input_def total_paid_def total_reversed_def
        group_total_def by_payment_def paid_value_def reversed_value_def classify_one_def
        gross_leg_def automatic_reversal_def max_safe_def)
  show ?thesis
    using balance_follows_postings [OF sample_cleared_ok b _ run _ _ after] before l r(1,3) c n
      reconstruct_exact [of "list_for_agreement 1 sample_cleared_db"]
    by (simp add: typed_op_def automatic_reversal_def)
qed

end
