(* ===== verification/Completion.thy ===== *)
theory Completion
  imports Balances
begin

text \<open>
  Installment guards and agreement completion: the checks every payment path runs inside its own
  transaction (\<open>installmentSettlementTx.ts\<close>), the evidence of completion
  (\<open>agreementCompletionEvidenceTx.ts\<close>), the decision that completes or activates an agreement
  (\<open>drizzleAtomicAgreementCompletionDecider.ts\<close>, \<open>checkAndAdvance\<close>) and the one that reopens it
  when a payment is taken back (\<open>recomputeAfterSupersession\<close>). Each transaction locks the agreement
  row first, so it is one function on the database.
\<close>

section \<open>Guards inside a payment transaction\<close>

definition unresolved :: "payment_status \<Rightarrow> bool" where
  "unresolved st \<longleftrightarrow> st = PPending \<or> st = PScheduled \<or> st = PSubmitted \<or> st = PProcessing"

text \<open>The query: open attempts of the installment under another key, and succeeded ones without a
  clearing entry, the attempt itself excepted.\<close>

definition competing :: "uuid \<Rightarrow> string \<Rightarrow> uuid option \<Rightarrow> db \<Rightarrow> payment_row \<Rightarrow> bool" where
  "competing inst key excl s p \<longleftrightarrow>
     paInstallment p = Some inst \<and> paKey p \<noteq> key \<and>
     (unresolved (paStatus p) \<or>
      (paStatus p = PSucceeded \<and>
       \<not> list_ex (\<lambda>e. jePayment e = paId p \<and> jeType e = PaymentCleared) (entries s))) \<and>
     excl \<noteq> Some (paId p)"

definition assert_no_competing_attempt :: "uuid \<Rightarrow> string \<Rightarrow> uuid option \<Rightarrow> db \<Rightarrow> error option" where
  "assert_no_competing_attempt inst key excl s =
     (if list_ex (competing inst key excl s) (payments s)
      then Some (ValidationError ''UnresolvedAttemptExists'') else None)"

text \<open>The joined row is missing unless installment, version and agreement all exist.\<close>

definition assert_installment_belongs :: "uuid \<Rightarrow> uuid \<Rightarrow> db \<Rightarrow> error option" where
  "assert_installment_belongs inst ag s =
     (case find_installment inst s of
        None \<Rightarrow> Some (ValidationError ''InstallmentNotFound'')
      | Some i \<Rightarrow>
     (case find_version (inVersion i) s of
        None \<Rightarrow> Some (ValidationError ''InstallmentNotFound'')
      | Some v \<Rightarrow>
     (case find_agreement (avAgreement v) s of
        None \<Rightarrow> Some (ValidationError ''InstallmentNotFound'')
      | Some a \<Rightarrow>
          (if avAgreement v \<noteq> ag then Some (ValidationError ''InstallmentOfOtherAgreement'')
           else if Some (inVersion i) \<noteq> agCurrentVersion a
           then Some (ValidationError ''InstallmentSuperseded'')
           else None))))"

definition installment_entries :: "uuid \<Rightarrow> db \<Rightarrow> journal_entry list" where
  "installment_entries inst s =
     (let ids = map paId (filter (\<lambda>p. paInstallment p = Some inst) (payments s))
      in if ids = [] then [] else filter (\<lambda>e. jePayment e \<in> set ids) (entries s))"

definition installment_settlement_tx ::
    "uuid \<Rightarrow> db \<Rightarrow> (settlement_snapshot \<times> string \<times> installment_status) option" where
  "installment_settlement_tx inst s =
     (case find_installment inst s of
        None \<Rightarrow> None
      | Some i \<Rightarrow>
          Some (compute_installment_settlement inst (inAmount i) (installment_entries inst s),
                inDueDate i, inStatus i))"

definition has_installment_schedule :: "uuid \<Rightarrow> db \<Rightarrow> bool" where
  "has_installment_schedule v s = list_ex (\<lambda>i. inVersion i = v) (installments s)"

section \<open>Evidence\<close>

record completion_evidence =
  evState :: settlement_state
  evPaid :: int
  evInstallments :: "(installment_status \<times> string) list"
  evAllSatisfied :: bool

definition satisfied_or_waived :: "db \<Rightarrow> installment_row \<Rightarrow> bool" where
  "satisfied_or_waived s i \<longleftrightarrow> inStatus i = InstWaived \<or>
     (case installment_settlement_tx (inId i) s of
        None \<Rightarrow> False
      | Some (snap, _, _) \<Rightarrow> ssSatisfied snap)"

definition completion_evidence_tx :: "uuid \<Rightarrow> db \<Rightarrow> completion_evidence option" where
  "completion_evidence_tx ag s =
     (case Option.bind (find_agreement ag s) agCurrentVersion of
        None \<Rightarrow> None
      | Some v \<Rightarrow>
     (case find_version v s of
        None \<Rightarrow> None
      | Some version \<Rightarrow>
          (let paid = fst (reconstruct_paid_and_reversed (list_for_agreement ag s));
               rows = filter (\<lambda>i. inVersion i = v) (installments s)
           in Some \<lparr>evState = settlement_state_of paid (avPrincipal version), evPaid = paid,
                    evInstallments = map (\<lambda>i. (inStatus i, inDueDate i)) rows,
                    evAllSatisfied = list_all (satisfied_or_waived s) rows\<rparr>)))"

text \<open>The condition under which an agreement is complete.\<close>

definition settled_evidence :: "completion_evidence \<Rightarrow> bool" where
  "settled_evidence ev \<longleftrightarrow> (evState ev = FullyPaid \<or> evState ev = Overpaid) \<and> evAllSatisfied ev"

section \<open>Completion and activation\<close>

definition set_agreement_status :: "uuid \<Rightarrow> agreement_status \<Rightarrow> db \<Rightarrow> db" where
  "set_agreement_status ag st s =
     s\<lparr>agreements := update_by agId ag (\<lambda>a. a\<lparr>agStatus := st\<rparr>) (agreements s)\<rparr>"

definition completion_payload :: "env \<Rightarrow> uuid \<Rightarrow> string \<Rightarrow> int \<Rightarrow> audit_payload" where
  "completion_payload E ag act paid =
     (blank_audit act (clock E))
       \<lparr>actorRole := Some ''ledger_system'', auditAgreementId := Some ag,
        newValue := JObj [(''amountPaidMinorUnits'', JNum paid)],
        targetResourceType := Value ''agreement'', targetResourceId := Value ag\<rparr>"

definition awaiting_payment :: "agreement_status \<Rightarrow> bool" where
  "awaiting_payment st \<longleftrightarrow> st = FirstPaymentPending \<or> st = Active \<or> st = PastDue"

text \<open>\<open>decideAndApply\<close>: evidence, decision, status and audit row in one transaction.\<close>

definition decide_and_apply ::
    "env \<Rightarrow> uuid \<Rightarrow> db \<Rightarrow> (agreement_status \<times> int) option \<times> db" where
  "decide_and_apply E ag s =
     (case find_agreement ag s of
        None \<Rightarrow> (None, s)
      | Some a \<Rightarrow>
     (if \<not> awaiting_payment (agStatus a) then (None, s)
      else case completion_evidence_tx ag s of
        None \<Rightarrow> (None, s)
      | Some ev \<Rightarrow>
          (if settled_evidence ev
           then (Some (PaidInFull, evPaid ev),
                 audit E (completion_payload E ag ''agreement_paid_in_full'' (evPaid ev))
                   (set_agreement_status ag PaidInFull s))
           else if agStatus a = FirstPaymentPending \<and> 0 < evPaid ev
           then (Some (Active, evPaid ev),
                 audit E (completion_payload E ag ''agreement_activated'' (evPaid ev))
                   (set_agreement_status ag Active s))
           else (None, s))))"

text \<open>\<open>UPDATE \<dots> WHERE status IN \<dots>\<close> of the agreement repository.\<close>

definition update_status_if_currently_in ::
    "uuid \<Rightarrow> agreement_status list \<Rightarrow> agreement_status \<Rightarrow> db \<Rightarrow> bool \<times> db" where
  "update_status_if_currently_in ag expected st s =
     (case find_agreement ag s of
        None \<Rightarrow> (False, s)
      | Some a \<Rightarrow> if agStatus a \<in> set expected then (True, set_agreement_status ag st s) else (False, s))"

text \<open>The reader behind \<open>areAllNonWaivedInstallmentsSatisfied\<close>: no version means nothing is owed.\<close>

definition all_installments_satisfied :: "uuid \<Rightarrow> db \<Rightarrow> bool" where
  "all_installments_satisfied ag s =
     (case Option.bind (find_agreement ag s) agCurrentVersion of
        None \<Rightarrow> True
      | Some v \<Rightarrow> list_all (satisfied_or_waived s) (filter (\<lambda>i. inVersion i = v) (installments s)))"

text \<open>
  \<open>checkAndAdvance\<close>: the atomic decider when it is wired in, else separate reads and a guarded
  update. \<open>useInst\<close> says whether the installment check is wired in. A balance that cannot be
  computed is a \<open>ValidationError\<close> and ends the call.
\<close>

definition check_and_advance :: "bool \<Rightarrow> bool \<Rightarrow> env \<Rightarrow> uuid \<Rightarrow> db \<Rightarrow> db" where
  "check_and_advance atomic useInst E ag s =
     (if atomic then snd (decide_and_apply E ag s)
      else case find_agreement ag s of
        None \<Rightarrow> s
      | Some a \<Rightarrow>
     (if \<not> awaiting_payment (agStatus a) then s
      else case get_agreement_balance ag s of
        Inl _ \<Rightarrow> s
      | Inr bal \<Rightarrow>
          (if abState bal = FullyPaid \<or> abState bal = Overpaid
           then (if useInst \<and> \<not> all_installments_satisfied ag s then s
                 else case update_status_if_currently_in ag [agStatus a] PaidInFull s of
                        (True, s') \<Rightarrow>
                          audit E (completion_payload E ag ''agreement_paid_in_full'' (abPaid bal)) s'
                      | (False, s') \<Rightarrow> s')
           else if agStatus a = FirstPaymentPending \<and> 0 < abPaid bal
           then (case update_status_if_currently_in ag [FirstPaymentPending] Active s of
                   (True, s') \<Rightarrow>
                     audit E (completion_payload E ag ''agreement_activated'' (abPaid bal)) s'
                 | (False, s') \<Rightarrow> s')
           else s)))"

section \<open>Reopening\<close>

text \<open>\<open>list.some\<close> with a test that may raise: the first hit or error decides.\<close>

fun any_overdue :: "msec \<Rightarrow> (installment_status \<times> string) list \<Rightarrow> error + bool" where
  "any_overdue now [] = Inr False"
| "any_overdue now ((st, due) # rest) =
     (if st \<noteq> InstPaid \<and> st \<noteq> InstWaived
      then (case is_past_date due now of
              Inl e \<Rightarrow> Inl e
            | Inr past \<Rightarrow> if past then Inr True else any_overdue now rest)
      else any_overdue now rest)"

text \<open>\<open>recomputeAfterSupersession\<close>: an error rolls the transaction back.\<close>

definition recompute_after_supersession ::
    "env \<Rightarrow> uuid \<Rightarrow> string \<Rightarrow> db \<Rightarrow> error + db" where
  "recompute_after_supersession E ag event s =
     (case find_agreement ag s of
        None \<Rightarrow> Inr s
      | Some a \<Rightarrow>
     (if list_ex (\<lambda>r. providerEventId r = Value event \<and>
           action r = ''agreement_reopened_by_supersession'') (audits s) then Inr s
      else if agStatus a \<noteq> PaidInFull \<and> agStatus a \<noteq> Active then Inr s
      else case completion_evidence_tx ag s of
        None \<Rightarrow> Inr s
      | Some ev \<Rightarrow>
     (if settled_evidence ev then Inr s
      else bindE (any_overdue (clock E) (evInstallments ev)) (\<lambda>overdue.
        let target = (if overdue then PastDue else Active)
        in if target = agStatus a then Inr s
           else Inr (audit E
             ((completion_payload E ag ''agreement_reopened_by_supersession'' (evPaid ev))
                \<lparr>providerEventId := Value event\<rparr>)
             (set_agreement_status ag target s))))))"

section \<open>What the decisions depend on\<close>

lemma set_agreement_status_frame [simp, frame_simps]:
  "nextId (set_agreement_status ag st s) = nextId s"
  "versions (set_agreement_status ag st s) = versions s"
  "installments (set_agreement_status ag st s) = installments s"
  "payments (set_agreement_status ag st s) = payments s"
  "accounts (set_agreement_status ag st s) = accounts s"
  "entries (set_agreement_status ag st s) = entries s"
  "webhooks (set_agreement_status ag st s) = webhooks s"
  "exceptions (set_agreement_status ag st s) = exceptions s"
  "retries (set_agreement_status ag st s) = retries s"
  "partials (set_agreement_status ag st s) = partials s"
  "claims (set_agreement_status ag st s) = claims s"
  "audits (set_agreement_status ag st s) = audits s"
  by (simp_all add: set_agreement_status_def)

lemma find_set_status:
  "find_agreement x (set_agreement_status ag st s) =
     (if x = ag then map_option (\<lambda>a. a\<lparr>agStatus := st\<rparr>) (find_agreement x s)
      else find_agreement x s)"
  by (simp add: set_agreement_status_def lookup_update_same lookup_update_other)

lemma installment_settlement_cong:
  assumes "installments s' = installments s" "payments s' = payments s" "entries s' = entries s"
  shows "installment_settlement_tx i s' = installment_settlement_tx i s"
  unfolding installment_settlement_tx_def installment_entries_def assms by (rule refl)

lemma satisfied_cong:
  assumes "installments s' = installments s" "payments s' = payments s" "entries s' = entries s"
  shows "satisfied_or_waived s' = satisfied_or_waived s"
  by (rule ext) (simp add: satisfied_or_waived_def installment_settlement_cong [OF assms])

lemma completion_evidence_cong:
  assumes "Option.bind (find_agreement ag s') agCurrentVersion =
      Option.bind (find_agreement ag s) agCurrentVersion"
    and "versions s' = versions s" "installments s' = installments s" "payments s' = payments s"
      "entries s' = entries s"
  shows "completion_evidence_tx ag s' = completion_evidence_tx ag s"
  unfolding completion_evidence_tx_def list_for_agreement_def assms satisfied_cong [OF assms(3-5)]
  by (rule refl)

lemma evidence_after_status [simp]:
  "completion_evidence_tx ag (audit E p (set_agreement_status ag st s)) = completion_evidence_tx ag s"
  by (rule completion_evidence_cong) (simp_all add: find_set_status, cases "find_agreement ag s", simp_all)

lemma settled_iff:
  "settled_evidence ev \<longleftrightarrow> (evState ev = FullyPaid \<or> evState ev = Overpaid) \<and> evAllSatisfied ev"
  by (rule settled_evidence_def)

lemma state_settled_iff:
  "settlement_state_of paid p = FullyPaid \<or> settlement_state_of paid p = Overpaid \<longleftrightarrow>
     0 < paid \<and> p \<le> paid"
  by (auto simp: settlement_state_of_def)

text \<open>The mathematical meaning of complete: the money that stayed covers the principal, and each
  installment of the current version that is not waived is covered by its own payments.\<close>

definition fully_covered :: "uuid \<Rightarrow> version_row \<Rightarrow> db \<Rightarrow> bool" where
  "fully_covered ag v s \<longleftrightarrow>
     0 < total_paid (list_for_agreement ag s) \<and>
     avPrincipal v \<le> total_paid (list_for_agreement ag s) \<and>
     (\<forall>i \<in> set (installments s). inVersion i = avId v \<and> inStatus i \<noteq> InstWaived \<longrightarrow>
        inAmount i \<le> total_paid (installment_entries (inId i) s))"

definition rows_sound :: "db \<Rightarrow> bool" where
  "rows_sound s \<longleftrightarrow> distinct (map inId (installments s)) \<and>
     list_all (\<lambda>a. safe_journal (list_for_agreement (agId a) s)) (agreements s) \<and>
     list_all (\<lambda>i. safe_journal (installment_entries (inId i) s)) (installments s)"

lemma satisfied_iff:
  assumes "rows_sound s" and "i \<in> set (installments s)"
  shows "satisfied_or_waived s i \<longleftrightarrow> inStatus i = InstWaived \<or>
    inAmount i \<le> total_paid (installment_entries (inId i) s)"
proof -
  have f: "find_installment (inId i) s = Some i"
    using assms by (intro lookup_by_distinct) (auto simp: rows_sound_def)
  have "reconstruct_paid_and_reversed (installment_entries (inId i) s) =
      (total_paid (installment_entries (inId i) s), total_reversed (installment_entries (inId i) s))"
    using assms by (intro reconstruct_exact) (auto simp: rows_sound_def list_all_iff)
  then show ?thesis
    by (simp add: satisfied_or_waived_def installment_settlement_tx_def f
        compute_installment_settlement_def Let_def)
qed

lemma evidence_settled_iff:
  assumes "rows_sound s" and "find_agreement ag s = Some a" and "agCurrentVersion a = Some (avId v)"
    and "find_version (avId v) s = Some v"
  shows "\<exists>ev. completion_evidence_tx ag s = Some ev \<and> evPaid ev = total_paid (list_for_agreement ag s) \<and>
    evState ev = settlement_state_of (evPaid ev) (avPrincipal v) \<and>
    (settled_evidence ev \<longleftrightarrow> fully_covered ag v s)"
proof -
  have "agId a = ag" "a \<in> set (agreements s)"
    using assms(2) by (auto dest: lookup_by_Some_mem lookup_by_Some_key)
  then have r: "reconstruct_paid_and_reversed (list_for_agreement ag s) =
      (total_paid (list_for_agreement ag s), total_reversed (list_for_agreement ag s))"
    using assms(1) by (intro reconstruct_exact) (auto simp: rows_sound_def list_all_iff)
  have "list_all (satisfied_or_waived s) (filter (\<lambda>i. inVersion i = avId v) (installments s)) \<longleftrightarrow>
      (\<forall>i \<in> set (installments s). inVersion i = avId v \<and> inStatus i \<noteq> InstWaived \<longrightarrow>
        inAmount i \<le> total_paid (installment_entries (inId i) s))"
    using satisfied_iff [OF assms(1)] by (auto simp: list_all_iff)
  then show ?thesis
    by (simp add: completion_evidence_tx_def assms(2-4) r Let_def settled_evidence_def
        state_settled_iff fully_covered_def)
qed

abbreviation status_of :: "uuid \<Rightarrow> db \<Rightarrow> agreement_status option" where
  "status_of ag s \<equiv> map_option agStatus (find_agreement ag s)"

text \<open>
  C5. An agreement is completed exactly when it is covered: the decision moves an agreement that
  awaits payment to \<open>paid_in_full\<close> if and only if the payments that were not taken back sum to its
  principal or more and every installment that is not waived is covered by its own payments; it
  activates a pending one on its first money, and otherwise changes nothing. The audit trail gets
  one row for each change of status.
\<close>

theorem completion_exactly_when_covered:
  assumes "rows_sound s" and "find_agreement ag s = Some a" and "agCurrentVersion a = Some (avId v)"
    and "find_version (avId v) s = Some v" and "awaiting_payment (agStatus a)"
    and "decide_and_apply E ag s = (res, s')"
  shows "status_of ag s' = Some
      (if fully_covered ag v s then PaidInFull
       else if agStatus a = FirstPaymentPending \<and> 0 < total_paid (list_for_agreement ag s) then Active
       else agStatus a) \<and>
    (\<forall>other. other \<noteq> ag \<longrightarrow> find_agreement other s' = find_agreement other s) \<and>
    (s' = s \<longleftrightarrow> res = None) \<and> (res \<noteq> None \<longrightarrow> length (audits s') = Suc (length (audits s))) \<and>
    entries s' = entries s \<and> payments s' = payments s \<and> installments s' = installments s"
proof -
  obtain ev where ev: "completion_evidence_tx ag s = Some ev"
      "evPaid ev = total_paid (list_for_agreement ag s)" "settled_evidence ev \<longleftrightarrow> fully_covered ag v s"
    using evidence_settled_iff [OF assms(1-4)] by blast
  have grow: "length (audits (audit E (completion_payload E ag act n) t)) = Suc (length (audits t))"
    for act n t
    by (cases rule: append_audit_event_cases [of E "completion_payload E ag act n" "audits t"])
      (auto simp: audit_def record_audit_def completion_payload_def blank_audit_def
        append_audit_event_def find_by_provider_event_def Let_def)
  have neq: "audit E (completion_payload E ag act n) (set_agreement_status ag st s) \<noteq> s" for act n st
    using grow [of act n "set_agreement_status ag st s"] by (metis n_not_Suc_n set_agreement_status_frame(12))
  show ?thesis
    using assms(2,5,6) ev(2,3) grow neq
    by (auto simp: decide_and_apply_def ev(1) find_set_status split: if_splits)
qed

text \<open>The decision is taken once: a second run finds nothing left to do.\<close>

lemma decide_twice:
  assumes "decide_and_apply E ag s = (res, s')"
  shows "decide_and_apply E' ag s' = (None, s') \<or> res = None"
  using assms
  by (auto simp: decide_and_apply_def find_set_status awaiting_payment_def split: option.splits if_splits)

definition sample_payment :: "uuid \<Rightarrow> payment_status \<Rightarrow> int \<Rightarrow> payment_row" where
  "sample_payment i st n = \<lparr>paId = i, paKey = ''k1'', paPayer = (PersonalProfile, 101),
     paRecipient = (PersonalProfile, 102), paAmount = n, paCurrency = ''USD'', paAgreement = Some 1,
     paStatus = st, paProviderName = ''sandbox'', paProviderId = Some ''p1'', paFailureReason = None,
     paInstallment = Some 20, paMethod = Some Ach, paRecordedBy = None, paConfirmedAt = None,
     paPayoutInitiated = None, paPayoutCompleted = None, paBank = None, paLifecycleChecked = None,
     paRepairNext = None, paSettlement = None, paCreatedAt = 0, paUpdatedAt = 0\<rparr>"

definition sample_terms :: agreement_terms where
  "sample_terms = \<lparr>tmCategory = ''loan'', tmDescription = ''d'', tmOriginal = 100, tmPrevious = 0,
     tmPrincipal = 100, tmFirst = 100, tmInstallment = 0, tmFirstDate = ''2026-01-31'', tmFinal = 100,
     tmCount = 0, tmPayoff = ''p'', tmHardship = ''h'', tmPartial = ''q'', tmSettlement = ''s'',
     tmDispute = ''c'', tmEvidence = []\<rparr>"

definition sample_version :: version_row where
  "sample_version = \<lparr>avId = 10, avAgreement = 1, avNumber = 1, avParent = None, avOriginal = True,
     avProducedBy = ''initial_signing'', avFrequency = Monthly, avFee = DebtorPays, avTerms = sample_terms,
     avHash = None, avCreditorSigned = None, avDebtorSigned = None, avSigned = None\<rparr>"

definition sample_agreement :: "agreement_status \<Rightarrow> agreement_row" where
  "sample_agreement st = \<lparr>agId = 1, agStatus = st, agCurrentVersion = Some 10,
     agCreditor = (PersonalProfile, 102), agDebtor = (PersonalProfile, 101), agCurrency = ''USD'',
     agCreatedBy = 102, agRelationship = None\<rparr>"

text \<open>One agreement of 100 in one installment, its payment 7 cleared.\<close>

definition sample_paid_db :: "agreement_status \<Rightarrow> db" where
  "sample_paid_db st = sample_cleared_db
     \<lparr>nextId := 30, agreements := [sample_agreement st], versions := [sample_version],
      installments := [\<lparr>inId = 20, inVersion = 10, inSequence = 1, inDueDate = ''2026-01-31'',
         inAmount = 100, inStatus = InstScheduled\<rparr>],
      payments := [sample_payment 7 PSucceeded 100]\<rparr>"

lemmas journal_defs = safe_journal_def positive_entries_def total_paid_def total_reversed_def
  group_total_def by_payment_def paid_value_def reversed_value_def classify_one_def gross_leg_def
  automatic_reversal_def max_safe_def list_for_agreement_def installment_entries_def

lemma sample_paid_simps [simp]:
  "agreements (sample_paid_db st) = [sample_agreement st]"
  "versions (sample_paid_db st) = [sample_version]"
  "payments (sample_paid_db st) = [sample_payment 7 PSucceeded 100]"
  "entries (sample_paid_db st) = entries sample_cleared_db"
  "accounts (sample_paid_db st) = accounts sample_cleared_db"
  "audits (sample_paid_db st) = []"
  "agId (sample_agreement st) = 1" "agStatus (sample_agreement st) = st"
  "agCurrentVersion (sample_agreement st) = Some 10" "avId sample_version = 10"
  "avPrincipal sample_version = 100"
  by (simp_all add: sample_paid_db_def sample_agreement_def sample_version_def sample_terms_def sample_cleared_db_def
      empty_db_def)

lemma sample_paid_sound: "rows_sound (sample_paid_db st)"
  by (simp add: rows_sound_def journal_defs sample_cleared_db_def sample_entry_input_def
      sample_payment_def) (simp add: sample_paid_db_def journal_defs sample_entry_input_def)

lemma sample_paid_covered: "fully_covered 1 sample_version (sample_paid_db st)"
  by (simp add: fully_covered_def journal_defs sample_cleared_db_def sample_entry_input_def
      sample_payment_def) (simp add: sample_paid_db_def)

theorem completion_exactly_when_covered_witness:
  "status_of 1 (snd (decide_and_apply toy_env 1 (sample_paid_db FirstPaymentPending))) = Some PaidInFull"
proof -
  obtain res s' where r: "decide_and_apply toy_env 1 (sample_paid_db FirstPaymentPending) = (res, s')"
    by fastforce
  show ?thesis
    using completion_exactly_when_covered [OF sample_paid_sound _ _ _ _ r, of
        "sample_agreement FirstPaymentPending" sample_version] sample_paid_covered r
    by (simp add: awaiting_payment_def)
qed

section \<open>What a reopening keeps\<close>

lemma audit_appended:
  assumes "providerEventId p = Undefined \<or> find_by_provider_event (providerEventId p) (action p) (audits s) = None"
  shows "\<exists>r. audits (audit E p s) = audits s @ [r] \<and> action r = action p \<and>
    providerEventId r = stored (providerEventId p)"
proof -
  have "find_by_provider_event (providerEventId p) (action p) (audits s) = None"
    using assms by (auto simp: find_by_provider_event_def)
  then show ?thesis
    by (cases rule: append_audit_event_cases [of E p "audits s"])
      (auto simp: audit_def record_audit_def append_audit_event_def Let_def)
qed

definition reopened_by :: "string \<Rightarrow> db \<Rightarrow> bool" where
  "reopened_by event s \<longleftrightarrow> list_ex (\<lambda>r. providerEventId r = Value event \<and>
     action r = ''agreement_reopened_by_supersession'') (audits s)"

lemma recompute_cases:
  assumes "recompute_after_supersession E ag event s = Inr s'" and "find_agreement ag s = Some a"
  obtains (same) "s' = s" "reopened_by event s \<or> (agStatus a \<noteq> PaidInFull \<and> agStatus a \<noteq> Active) \<or>
      completion_evidence_tx ag s = None \<or>
      (\<exists>ev. completion_evidence_tx ag s = Some ev \<and> (settled_evidence ev \<or> agStatus a = Active))"
  | (reopened) ev target where "completion_evidence_tx ag s = Some ev" "\<not> settled_evidence ev"
      "\<not> reopened_by event s" "target \<noteq> agStatus a" "agStatus a = PaidInFull \<or> agStatus a = Active"
      "any_overdue (clock E) (evInstallments ev) = Inr (target = PastDue)"
      "target = Active \<or> target = PastDue" "status_of ag s' = Some target" "reopened_by event s'"
      "\<And>other. other \<noteq> ag \<Longrightarrow> find_agreement other s' = find_agreement other s"
      "entries s' = entries s" "payments s' = payments s" "installments s' = installments s"
proof -
  have free: "\<not> reopened_by event s \<Longrightarrow> find_by_provider_event (Value event)
      ''agreement_reopened_by_supersession'' (audits s) = None"
    by (auto simp: reopened_by_def find_by_provider_event_def list_ex_iff find_None_iff)
  show thesis
  proof (cases "reopened_by event s \<or> (agStatus a \<noteq> PaidInFull \<and> agStatus a \<noteq> Active) \<or>
      completion_evidence_tx ag s = None")
    case True
    then have "s' = s" using assms
      by (auto simp: recompute_after_supersession_def reopened_by_def split: if_splits)
    then show thesis using same True by blast
  next
    case False
    then obtain ev where ev: "completion_evidence_tx ag s = Some ev" by blast
    have st: "agStatus a = PaidInFull \<or> agStatus a = Active" and m: "\<not> reopened_by event s"
      using False by auto
    show thesis
    proof (cases "settled_evidence ev")
      case True
      then have "s' = s" using assms ev m st
        by (auto simp: recompute_after_supersession_def reopened_by_def)
      then show thesis using same True ev by blast
    next
      case unsettled: False
      obtain b where b: "any_overdue (clock E) (evInstallments ev) = Inr b"
        using assms ev m st unsettled
        by (auto simp: recompute_after_supersession_def reopened_by_def bindE_Inr_iff)
      define target where "target = (if b then PastDue else Active)"
      let ?p = "(completion_payload E ag ''agreement_reopened_by_supersession'' (evPaid ev))
                \<lparr>providerEventId := Value event\<rparr>"
      have s': "s' = (if target = agStatus a then s
          else audit E ?p (set_agreement_status ag target s))"
        using assms ev m st unsettled b
        by (auto simp: recompute_after_supersession_def reopened_by_def target_def Let_def)
      show thesis
      proof (cases "target = agStatus a")
        case True
        then have "agStatus a = Active" using st by (auto simp: target_def split: if_splits)
        then show thesis using same s' True ev by auto
      next
        case False
        obtain r where r: "audits (audit E ?p (set_agreement_status ag target s)) = audits s @ [r]"
          "action r = action ?p" "providerEventId r = stored (providerEventId ?p)"
          using audit_appended [of ?p "set_agreement_status ag target s" E] free [OF m]
          by (auto simp: completion_payload_def blank_audit_def)
        have "reopened_by event s'"
          using r False by (simp add: s' reopened_by_def completion_payload_def blank_audit_def
              stored_def)
        then show thesis
          using reopened [OF ev unsettled m False st] b False assms(2) s'
          by (auto simp: target_def find_set_status)
      qed
    qed
  qed
qed

text \<open>
  Taking the money back reopens the agreement: if a completed agreement was paid to the cent
  and one of its payments is refunded, reversed or disputed, the recomputation that follows takes
  the agreement out of \<open>paid_in_full\<close> again, to \<open>past_due\<close> or \<open>active\<close>, whatever else is in the
  database.
\<close>

theorem reversal_reopens_agreement:
  assumes "ledger_ok s" and "backed s" and "rows_sound s1"
    and "find_agreement ag s = Some a" and "agStatus a = PaidInFull"
    and "agCurrentVersion a = Some (avId v)" and "find_version (avId v) s = Some v"
    and "total_paid (list_for_agreement ag s) = avPrincipal v"
    and "automatic_reversal ty" and "\<not> reversed_or_disputed pay s"
    and "reverse_payment E pay ty why s = (Inr e, s1)" and "jeAgreement e = ag"
    and "\<not> reopened_by event s1" and "recompute_after_supersession E ag event s1 = Inr s2"
  shows "total_paid (list_for_agreement ag s2) < avPrincipal v \<and>
    (status_of ag s2 = Some Active \<or> status_of ag s2 = Some PastDue)"
proof -
  let ?op = "ReversePayment pay ty why"
  have f: "journal_lookup (pay, ty) s = None"
    using assms(9,10) by (auto simp: reversed_or_disputed_def automatic_reversal_def)
  have ty: "typed_op ?op" using assms(9) by (simp add: typed_op_def)
  have run: "run_op E ?op s = (Inr e, s1)" using assms(11) by simp
  note n = new_entry_props [OF assms(1) ty run]
  have k: "entries s1 = entries s @ [e]" "jePayment e = pay" "jeType e = ty" using n f by auto
  obtain c where c: "journal_lookup (pay, PaymentCleared) s = Some c" "jeAgreement c = ag"
    using n f k assms(9,12) by auto
  have c_ok: "entry_ok s c" and cm: "c \<in> set (entries s)" "jeType c = PaymentCleared"
    using journal_lookup_ok [OF c(1) assms(1)] journal_lookup_mem [OF c(1)] by auto
  obtain leg where leg: "gross_leg c = Some leg" "poAmount leg = debits (jePostings c)"
    using gross_leg_open [OF backed_open [OF assms(2) cm]] by blast
  have "leg \<in> set (jePostings c)" using leg(1) by (auto simp: gross_leg_def find_Some_iff)
  then have pos: "0 < debits (jePostings c)"
    using leg(2) c_ok by (auto simp: entry_ok_def list_all_iff leg_ok_def posting_row_ok_def)
  have new: "total_paid (list_for_agreement ag s1) =
      total_paid (list_for_agreement ag s) - debits (jePostings c)"
    using total_paid_new_entry [OF assms(1,2) ty run _ assms(12)] f k assms(9,10,12) c(1)
    by (auto simp: list_for_agreement_new gross_of_clear_def automatic_reversal_def)
  have g: "only_ledger_grew s s1"
    using postsD(1) [OF run_op_posts [OF assms(1), of ?op E]] run by simp
  have rows: "find_agreement ag s1 = Some a" "find_version (avId v) s1 = Some v"
    using g assms(4,7) by (simp_all add: only_ledger_grew_def)
  obtain ev where ev: "completion_evidence_tx ag s1 = Some ev"
      "settled_evidence ev \<longleftrightarrow> fully_covered ag v s1"
    using evidence_settled_iff [OF assms(3) rows(1) assms(6) rows(2)] by blast
  have "\<not> settled_evidence ev" using ev(2) new pos assms(8) by (simp add: fully_covered_def)
  then show ?thesis
    using assms(5,13) ev(1) new pos assms(8)
    by (cases rule: recompute_cases [OF assms(14) rows(1)]) (auto simp: list_for_agreement_def)
qed

lemma sample_paid_ledger: "ledger_ok (sample_paid_db st) \<and> backed (sample_paid_db st)"
  using sample_cleared_ok ledger_ok_cong [of "sample_paid_db st" sample_cleared_db]
  by (simp add: backed_def sample_cleared_db_def opens_with_gross_def gross_leg_def
      sample_entry_input_def automatic_reversal_def)

definition sample_refund :: journal_entry where
  "sample_refund = \<lparr>jeId = 30, jeType = Refund, jeAgreement = 1, jePayment = 7, jeCurrency = ''USD'',
     jeReason = None, jePostings = mirror (eiPostings (sample_entry_input 7 100))\<rparr>"

definition sample_refunded_db :: "agreement_status \<Rightarrow> db" where
  "sample_refunded_db st = (sample_paid_db st)
     \<lparr>entries := entries (sample_paid_db st) @ [sample_refund], nextId := 31\<rparr>"

lemma sample_refund_run:
  "reverse_payment E 7 Refund None (sample_paid_db st) =
     (Inr sample_refund, record_ledger_audit E sample_refund ''ledger_refund'' None ''ledger_system''
       (sample_refunded_db st))"
  by (simp add: reverse_payment_def find_by_payment_and_type_def reversal_postings_def
      sample_cleared_db_def sample_entry_input_def assert_balanced_def assert_non_negative_integer_def
      safe_int_def max_safe_def js_add_def js_int_def insert_idempotently_def insert_entry_def
      posting_row_ok_def int4_ok_def Let_def sample_refund_def sample_refunded_db_def
      entry_type_name_def)
    (simp add: sample_paid_db_def)

lemma sample_refunded_sound:
  "rows_sound (record_ledger_audit E sample_refund act actor role (sample_refunded_db st))"
  by (simp add: rows_sound_def record_ledger_audit_def sample_refunded_db_def sample_refund_def
      journal_defs sample_cleared_db_def sample_entry_input_def sample_payment_def)
    (simp add: sample_paid_db_def journal_defs sample_entry_input_def)

lemma recompute_defined:
  assumes "\<And>ev. completion_evidence_tx ag s = Some ev \<Longrightarrow>
    \<exists>b. any_overdue (clock E) (evInstallments ev) = Inr b"
  shows "\<exists>s'. recompute_after_supersession E ag event s = Inr s'"
  using assms by (auto simp: recompute_after_supersession_def Let_def split: option.splits)

lemma sample_past: "is_past_date ''2026-01-31'' (clock toy_env) = Inr True"
  by code_simp

theorem reversal_reopens_agreement_witness:
  "\<exists>s2. recompute_after_supersession toy_env 1 ''evt''
     (snd (reverse_payment toy_env 7 Refund None (sample_paid_db PaidInFull))) = Inr s2 \<and>
   status_of 1 s2 \<in> {Some Active, Some PastDue}"
proof -
  let ?s = "sample_paid_db PaidInFull"
  define s1 where "s1 = snd (reverse_payment toy_env 7 Refund None ?s)"
  have s1: "s1 = record_ledger_audit toy_env sample_refund ''ledger_refund'' None ''ledger_system''
      (sample_refunded_db PaidInFull)" by (simp add: s1_def sample_refund_run)
  have r: "reverse_payment toy_env 7 Refund None ?s = (Inr sample_refund, s1)"
    by (simp add: s1_def sample_refund_run)
  have l: "\<not> reversed_or_disputed 7 ?s" "total_paid (list_for_agreement 1 ?s) = 100"
    by (simp_all add: journal_lookup_def find_by_payment_and_type_def sample_cleared_db_def
        sample_entry_input_def reversed_or_disputed_def journal_defs)
  have ok: "ledger_ok ?s" "backed ?s" using sample_paid_ledger by blast+
  have fresh: "\<not> reopened_by ''evt'' s1"
    by (simp add: s1 reopened_by_def record_ledger_audit_def audit_def record_audit_def
        append_audit_event_def find_by_provider_event_def blank_audit_def Let_def stored_def
        sample_refunded_db_def)
  have "\<exists>b. any_overdue (clock toy_env) (evInstallments ev) = Inr b"
    if "completion_evidence_tx 1 s1 = Some ev" for ev
  proof -
    have "evInstallments ev = [(InstScheduled, ''2026-01-31'')]"
      using that by (auto simp: s1 completion_evidence_tx_def record_ledger_audit_def
          sample_refunded_db_def Let_def) (simp add: sample_paid_db_def)
    then show ?thesis using sample_past by auto
  qed
  then obtain s2 where s2: "recompute_after_supersession toy_env 1 ''evt'' s1 = Inr s2"
    using recompute_defined by blast
  show ?thesis
    using reversal_reopens_agreement [OF ok _ _ _ _ _ _ _ l(1) r _ fresh s2, of
        "sample_agreement PaidInFull" sample_version] sample_refunded_sound l(2) s2
    by (simp add: s1 [symmetric] sample_refund_run automatic_reversal_def)
      (simp add: s1 sample_refund_def)
qed

text \<open>
  A webhook reopens an agreement at most once: after an event has reopened it, no redelivery of
  that event changes the database again, however the clock and everything but the trail's history
  have moved on; and no recomputation ever touches the money.
\<close>

theorem reopened_at_most_once:
  assumes "recompute_after_supersession E ag event s = Inr s1"
    and "status_of ag s1 \<noteq> status_of ag s" and "take (length (audits s1)) (audits s2) = audits s1"
  shows "recompute_after_supersession E2 ag event s2 = Inr s2 \<and> entries s1 = entries s \<and>
    payments s1 = payments s \<and> installments s1 = installments s"
proof -
  obtain a where a: "find_agreement ag s = Some a"
    using assms(1,2) by (cases "find_agreement ag s") (auto simp: recompute_after_supersession_def)
  have m: "reopened_by event s1 \<and> entries s1 = entries s \<and> payments s1 = payments s \<and>
      installments s1 = installments s"
    by (cases rule: recompute_cases [OF assms(1) a]) (use assms(2) in auto)
  obtain zs where "audits s2 = audits s1 @ zs" using take_prefix_obtain [OF assms(3)] .
  then have "reopened_by event s2" using m by (auto simp: reopened_by_def)
  then show ?thesis using m
    by (auto simp: recompute_after_supersession_def reopened_by_def split: option.split)
qed

theorem reopened_at_most_once_witness:
  "\<exists>s1 s2. recompute_after_supersession toy_env 1 ''evt'' s1 = Inr s2 \<and> status_of 1 s2 = Some PastDue \<and>
     recompute_after_supersession toy_env 1 ''evt'' s2 = Inr s2"
proof -
  let ?s = "(sample_paid_db PaidInFull)\<lparr>entries := []\<rparr>"
  have ev: "\<exists>ev. completion_evidence_tx 1 ?s = Some ev \<and> \<not> settled_evidence ev \<and>
      evInstallments ev = [(InstScheduled, ''2026-01-31'')]"
    by (auto simp: completion_evidence_tx_def Let_def settled_evidence_def list_for_agreement_def
        reconstruct_paid_and_reversed_def classify_payment_attempts_def by_payment_def
        List.map_filter_def settlement_state_of_def) (simp add: sample_paid_db_def)
  then obtain s2 where s2: "recompute_after_supersession toy_env 1 ''evt'' ?s = Inr s2"
    "status_of 1 s2 = Some PastDue"
    using sample_past by (auto simp: recompute_after_supersession_def Let_def find_set_status)
  have "recompute_after_supersession toy_env 1 ''evt'' s2 = Inr s2"
    using reopened_at_most_once [OF s2(1), of s2 toy_env] s2(2) by auto
  then show ?thesis using s2 by blast
qed

end
