(* ===== verification/PaymentStates.thy ===== *)
theory PaymentStates
  imports Completion
begin

text \<open>
  The life of a payment attempt: the legal-transition matrix and its permanence check
  (\<open>paymentService.ts\<close>), the writes of the payment repository
  (\<open>drizzlePaymentAttemptRepository.ts\<close>), the webhook inbox with its leases and claim tokens
  (\<open>drizzlePaymentWebhookEventRepository.ts\<close>), and the coordinator that applies a transition
  together with its marker on the claimed event (\<open>paymentTransitionCoordinator.ts\<close>). The clock of
  the environment is the time of the call.
\<close>

section \<open>The transition matrix\<close>

text \<open>The table in its textual order: destination and allowed sources.\<close>

definition allowed_source_statuses :: "(payment_status \<times> payment_status list) list" where
  "allowed_source_statuses =
     [(PSucceeded, [PPending, PScheduled, PSubmitted, PProcessing]),
      (PFailed, [PPending, PScheduled, PSubmitted, PProcessing]),
      (PRefunded, [PSucceeded]),
      (PReturned, [PSucceeded]),
      (PDisputed, [PSucceeded]),
      (PReversed, [PSucceeded]),
      (PCanceled, [PPending, PScheduled])]"

definition allowed_sources :: "payment_status \<Rightarrow> payment_status list" where
  "allowed_sources dest = (case map_of allowed_source_statuses dest of None \<Rightarrow> [] | Some ss \<Rightarrow> ss)"

definition permanently_illegal :: "payment_status \<Rightarrow> payment_status \<Rightarrow> bool" where
  "permanently_illegal current dest =
     (let allowed = allowed_sources dest
      in if \<not> list_ex (\<lambda>(_, sources). current \<in> set sources) allowed_source_statuses then True
         else let next = map fst (filter (\<lambda>(_, sources). current \<in> set sources) allowed_source_statuses)
              in \<not> (current \<in> set allowed \<or> list_ex (\<lambda>n. n \<in> set allowed) next))"

section \<open>Writes of the payment repository\<close>

record payment_fields =
  pfProviderId :: "string option"
  pfFailure :: "string option"

definition no_fields :: payment_fields where
  "no_fields = \<lparr>pfProviderId = None, pfFailure = None\<rparr>"

text \<open>\<open>SET status, updated_at, ...fields\<close>\<close>

definition with_status ::
    "env \<Rightarrow> payment_status \<Rightarrow> payment_fields \<Rightarrow> payment_row \<Rightarrow> payment_row" where
  "with_status E st f p =
     p\<lparr>paStatus := st, paUpdatedAt := clock E,
       paProviderId := (case pfProviderId f of None \<Rightarrow> paProviderId p | Some x \<Rightarrow> Some x),
       paFailureReason := (case pfFailure f of None \<Rightarrow> paFailureReason p | Some x \<Rightarrow> Some x)\<rparr>"

definition set_payment :: "uuid \<Rightarrow> (payment_row \<Rightarrow> payment_row) \<Rightarrow> db \<Rightarrow> db" where
  "set_payment i f s = s\<lparr>payments := update_by paId i f (payments s)\<rparr>"

text \<open>The unique index on the provider's payment id.\<close>

definition provider_id_taken :: "uuid \<Rightarrow> payment_fields \<Rightarrow> db \<Rightarrow> bool" where
  "provider_id_taken i f s =
     (case pfProviderId f of
        None \<Rightarrow> False
      | Some x \<Rightarrow> list_ex (\<lambda>p. paId p \<noteq> i \<and> paProviderId p = Some x) (payments s))"

definition update_status ::
    "env \<Rightarrow> uuid \<Rightarrow> payment_status \<Rightarrow> payment_fields \<Rightarrow> (db, error, payment_row) step" where
  "update_status E i st f s =
     (case find_payment i s of
        None \<Rightarrow> (Inl (ConfigurationError ''payment_attempt_update''), s)
      | Some p \<Rightarrow>
          if provider_id_taken i f s
          then (Inl (ForeignError ''payment_attempt_provider_payment_id_unique''), s)
          else (Inr (with_status E st f p), set_payment i (with_status E st f) s))"

definition update_status_if_legal ::
    "env \<Rightarrow> uuid \<Rightarrow> payment_status \<Rightarrow> payment_fields \<Rightarrow> payment_status list \<Rightarrow>
     (db, error, payment_row option) step" where
  "update_status_if_legal E i st f sources s =
     (case find_payment i s of
        None \<Rightarrow> (Inr None, s)
      | Some p \<Rightarrow>
          if paStatus p \<notin> set sources then (Inr None, s)
          else if provider_id_taken i f s
          then (Inl (ForeignError ''payment_attempt_provider_payment_id_unique''), s)
          else (Inr (Some (with_status E st f p)), set_payment i (with_status E st f) s))"

definition mark_payment ::
    "env \<Rightarrow> uuid \<Rightarrow> (payment_row \<Rightarrow> payment_row) \<Rightarrow> string \<Rightarrow> (db, error, payment_row) step" where
  "mark_payment E i f op s =
     (case find_payment i s of
        None \<Rightarrow> (Inl (ConfigurationError op), s)
      | Some p \<Rightarrow> (Inr ((f p)\<lparr>paUpdatedAt := clock E\<rparr>),
                   set_payment i (\<lambda>p. (f p)\<lparr>paUpdatedAt := clock E\<rparr>) s))"

definition repo_confirm_manual_payment :: "env \<Rightarrow> uuid \<Rightarrow> msec \<Rightarrow> (db, error, payment_row) step" where
  "repo_confirm_manual_payment E i t =
     mark_payment E i (\<lambda>p. p\<lparr>paConfirmedAt := Some t\<rparr>) ''payment_attempt confirmManualPayment''"

definition mark_payout_completed :: "env \<Rightarrow> uuid \<Rightarrow> msec \<Rightarrow> (db, error, payment_row) step" where
  "mark_payout_completed E i t =
     mark_payment E i (\<lambda>p. p\<lparr>paPayoutCompleted := Some t\<rparr>) ''payment_attempt markPayoutCompleted''"

definition mark_payout_initiated :: "env \<Rightarrow> uuid \<Rightarrow> msec \<Rightarrow> (db, error, payment_row) step" where
  "mark_payout_initiated E i t =
     mark_payment E i (\<lambda>p. p\<lparr>paPayoutInitiated := Some t\<rparr>) ''payment_attempt markPayoutInitiated''"

definition mark_lifecycle_checked :: "uuid \<Rightarrow> msec \<Rightarrow> db \<Rightarrow> db" where
  "mark_lifecycle_checked i t = set_payment i (\<lambda>p. p\<lparr>paLifecycleChecked := Some t\<rparr>)"

definition mark_financial_repair_deferred :: "uuid \<Rightarrow> msec \<Rightarrow> db \<Rightarrow> db" where
  "mark_financial_repair_deferred i t = set_payment i (\<lambda>p. p\<lparr>paRepairNext := Some t\<rparr>)"

definition find_by_idempotency_key :: "string \<Rightarrow> db \<Rightarrow> payment_row option" where
  "find_by_idempotency_key k s = lookup_by paKey k (payments s)"

definition find_by_provider_payment_id :: "string \<Rightarrow> db \<Rightarrow> payment_row option" where
  "find_by_provider_payment_id x s = lookup_by paProviderId (Some x) (payments s)"

definition find_open_by_installment :: "uuid \<Rightarrow> db \<Rightarrow> payment_row option" where
  "find_open_by_installment inst s =
     find (\<lambda>p. paInstallment p = Some inst \<and> unresolved (paStatus p)) (payments s)"

definition list_recent_by_payer :: "profile_ref \<Rightarrow> msec \<Rightarrow> db \<Rightarrow> payment_row list" where
  "list_recent_by_payer payer since s =
     filter (\<lambda>p. paPayer p = payer \<and> since \<le> paCreatedAt p) (payments s)"

text \<open>\<open>ORDER BY updated_at, id LIMIT n\<close>\<close>

definition oldest_first :: "nat \<Rightarrow> payment_row list \<Rightarrow> payment_row list" where
  "oldest_first n ps = take n (sort_key paUpdatedAt (sort_key paId ps))"

definition repair_due :: "msec \<Rightarrow> payment_row \<Rightarrow> bool" where
  "repair_due now p = (case paRepairNext p of None \<Rightarrow> True | Some t \<Rightarrow> t \<le> now)"

definition has_entry :: "db \<Rightarrow> uuid \<Rightarrow> entry_type \<Rightarrow> bool" where
  "has_entry s i ty = list_ex (\<lambda>e. jePayment e = i \<and> jeType e = ty) (entries s)"

definition list_missing_clearing_candidates :: "nat \<Rightarrow> msec \<Rightarrow> db \<Rightarrow> payment_row list" where
  "list_missing_clearing_candidates n now s =
     oldest_first n (filter (\<lambda>p. paStatus p = PSucceeded \<and> repair_due now p \<and>
       \<not> has_entry s (paId p) PaymentCleared) (payments s))"

definition list_lifecycle_repair_candidates :: "nat \<Rightarrow> db \<Rightarrow> payment_row list" where
  "list_lifecycle_repair_candidates n s =
     oldest_first n (filter (\<lambda>p. paStatus p = PSucceeded \<and>
       (case Option.bind (paAgreement p) (\<lambda>ag. find_agreement ag s) of
          None \<Rightarrow> False | Some a \<Rightarrow> awaiting_payment (agStatus a)) \<and>
       paLifecycleChecked p = None \<and> has_entry s (paId p) PaymentCleared) (payments s))"

definition list_missing_reversal_candidates :: "nat \<Rightarrow> msec \<Rightarrow> db \<Rightarrow> payment_row list" where
  "list_missing_reversal_candidates n now s =
     oldest_first n (filter (\<lambda>p. repair_due now p \<and>
       ((paStatus p = PRefunded \<and> \<not> has_entry s (paId p) Refund) \<or>
        (paStatus p = PReturned \<and> \<not> has_entry s (paId p) Reversal) \<or>
        (paStatus p = PReversed \<and> \<not> has_entry s (paId p) Reversal) \<or>
        (paStatus p = PDisputed \<and> \<not> has_entry s (paId p) DisputeAdjustment))) (payments s))"

section \<open>Insertion\<close>

record pending_input =
  piKey :: string
  piPayer :: profile_ref
  piRecipient :: profile_ref
  piAmount :: int
  piCurrency :: string
  piAgreement :: "uuid option"
  piProvider :: string
  piInstallment :: "uuid option"
  piInitial :: "payment_status option"
  piMethod :: "payment_method option"
  piRecordedBy :: "uuid option"
  piBank :: "uuid option"
  piSettlement :: "uuid option"

definition pending_row :: "env \<Rightarrow> uuid \<Rightarrow> pending_input \<Rightarrow> payment_row" where
  "pending_row E i inp =
     \<lparr>paId = i, paKey = piKey inp, paPayer = piPayer inp, paRecipient = piRecipient inp,
      paAmount = piAmount inp, paCurrency = piCurrency inp, paAgreement = piAgreement inp,
      paStatus = (case piInitial inp of None \<Rightarrow> PPending | Some st \<Rightarrow> st),
      paProviderName = piProvider inp, paProviderId = None, paFailureReason = None,
      paInstallment = piInstallment inp, paMethod = piMethod inp, paRecordedBy = piRecordedBy inp,
      paConfirmedAt = None, paPayoutInitiated = None, paPayoutCompleted = None,
      paBank = piBank inp, paLifecycleChecked = None, paRepairNext = None,
      paSettlement = piSettlement inp, paCreatedAt = clock E, paUpdatedAt = clock E\<rparr>"

text \<open>The constraints of the table: unique key, positive amount, \<open>integer\<close> column.\<close>

definition insert_pending :: "env \<Rightarrow> pending_input \<Rightarrow> (db, error, payment_row) step" where
  "insert_pending E inp s =
     (if piAmount inp \<le> 0 then (Inl (ForeignError ''payment_attempt_amount_positive''), s)
      else if \<not> int4_ok (piAmount inp) then (Inl (ForeignError ''integer out of range''), s)
      else if find_by_idempotency_key (piKey inp) s \<noteq> None
      then (Inl (ForeignError ''payment_attempt_idempotency_key_unique''), s)
      else let p = pending_row E (nextId s) inp
           in (Inr p, s\<lparr>payments := payments s @ [p], nextId := Suc (nextId s)\<rparr>))"

section \<open>The webhook inbox\<close>

text \<open>\<open>payload[k]\<close>: the last of duplicate keys wins, as in \<open>JSON.parse\<close>.\<close>

definition json_get :: "string \<Rightarrow> json \<Rightarrow> json option" where
  "json_get k j = (case j of JObj kvs \<Rightarrow> map_of (rev kvs) k | _ \<Rightarrow> None)"

definition json_get_string :: "string \<Rightarrow> json \<Rightarrow> string option" where
  "json_get_string k j = (case json_get k j of Some (JStr x) \<Rightarrow> Some x | _ \<Rightarrow> None)"

definition extract_provider_payment_id :: "json \<Rightarrow> string option" where
  "extract_provider_payment_id payload = json_get_string ''providerPaymentId'' payload"

definition find_by_provider_event_id :: "string \<Rightarrow> string \<Rightarrow> db \<Rightarrow> webhook_row option" where
  "find_by_provider_event_id pr ev s =
     lookup_by (\<lambda>w. (weProvider w, weEventId w)) (pr, ev) (webhooks s)"

text \<open>A conflicting insert answers \<open>null\<close>. The claim token is new.\<close>

definition try_insert_and_claim ::
    "env \<Rightarrow> string \<Rightarrow> string \<Rightarrow> string \<Rightarrow> event_source \<Rightarrow> bool \<Rightarrow> json \<Rightarrow> msec \<Rightarrow> db \<Rightarrow>
     webhook_row option \<times> db" where
  "try_insert_and_claim E pr ev ty src verified payload leaseMs s =
     (if find_by_provider_event_id pr ev s \<noteq> None then (None, s)
      else let w = \<lparr>weId = nextId s, weProvider = pr, weEventId = ev, weType = ty, weSource = src,
             weVerified = verified, wePayload = payload, weReceivedAt = clock E,
             weProcessedAt = None, weStatus = EvProcessing, weAttempts = 1,
             weStartedAt = Some (clock E), weLastFailedAt = None, weErrorCode = None,
             weNextRetry = None, weLease = Some (clock E + leaseMs),
             weToken = Some (Suc (nextId s)),
             weProviderPayment = extract_provider_payment_id payload,
             weAppliedAt = None, weFrom = None, weTo = None\<rparr>
           in (Some w, s\<lparr>webhooks := webhooks s @ [w], nextId := Suc (Suc (nextId s))\<rparr>))"

datatype claim_outcome = Claimed webhook_row | Duplicate | InProgress | NotDue

definition claimed :: "env \<Rightarrow> uuid \<Rightarrow> msec \<Rightarrow> webhook_row \<Rightarrow> webhook_row" where
  "claimed E token leaseMs w =
     w\<lparr>weStatus := EvProcessing, weAttempts := weAttempts w + 1, weStartedAt := Some (clock E),
       weLease := Some (clock E + leaseMs), weToken := Some token\<rparr>"

definition set_webhook :: "uuid \<Rightarrow> (webhook_row \<Rightarrow> webhook_row) \<Rightarrow> db \<Rightarrow> db" where
  "set_webhook i f s = s\<lparr>webhooks := update_by weId i f (webhooks s)\<rparr>"

definition live_lease :: "msec \<Rightarrow> webhook_row \<Rightarrow> bool" where
  "live_lease now w = (case weLease w of None \<Rightarrow> False | Some t \<Rightarrow> now < t)"

definition claim_existing_for_processing ::
    "env \<Rightarrow> string \<Rightarrow> string \<Rightarrow> msec \<Rightarrow> db \<Rightarrow> claim_outcome \<times> db" where
  "claim_existing_for_processing E pr ev leaseMs s =
     (case find_by_provider_event_id pr ev s of
        None \<Rightarrow> (Duplicate, s)
      | Some w \<Rightarrow>
          (if weStatus w = EvProcessed then (Duplicate, s)
           else if weStatus w = EvProcessing \<and> live_lease (clock E) w then (InProgress, s)
           else if weStatus w = EvFailed \<and>
             (case weNextRetry w of None \<Rightarrow> True | Some t \<Rightarrow> clock E < t) then (NotDue, s)
           else let token = nextId s
                in (Claimed (claimed E token leaseMs w),
                    (set_webhook (weId w) (claimed E token leaseMs) s)\<lparr>nextId := Suc token\<rparr>)))"

definition recoverable :: "msec \<Rightarrow> webhook_row \<Rightarrow> bool" where
  "recoverable now w \<longleftrightarrow>
     weStatus w = EvReceived \<or>
     (weStatus w = EvFailed \<and> (case weNextRetry w of None \<Rightarrow> False | Some t \<Rightarrow> t \<le> now)) \<or>
     (weStatus w = EvProcessing \<and> (case weLease w of None \<Rightarrow> False | Some t \<Rightarrow> t \<le> now))"

fun claim_each :: "env \<Rightarrow> msec \<Rightarrow> uuid list \<Rightarrow> db \<Rightarrow> webhook_row list \<times> db" where
  "claim_each E leaseMs [] s = ([], s)"
| "claim_each E leaseMs (i # ids) s =
     (case find_webhook i s of
        None \<Rightarrow> claim_each E leaseMs ids s
      | Some w \<Rightarrow>
          (let token = nextId s;
               s' = (set_webhook i (claimed E token leaseMs) s)\<lparr>nextId := Suc token\<rparr>
           in case claim_each E leaseMs ids s' of
                (ws, s'') \<Rightarrow> (claimed E token leaseMs w # ws, s'')))"

definition claim_batch_for_recovery ::
    "env \<Rightarrow> nat \<Rightarrow> msec \<Rightarrow> db \<Rightarrow> webhook_row list \<times> db" where
  "claim_batch_for_recovery E n leaseMs s =
     claim_each E leaseMs
       (map weId (take n (sort_key weReceivedAt (filter (recoverable (clock E)) (webhooks s))))) s"

text \<open>The three ways to finish, each fenced by the claim token.\<close>

definition finish_event ::
    "uuid \<Rightarrow> uuid \<Rightarrow> (webhook_row \<Rightarrow> webhook_row) \<Rightarrow> db \<Rightarrow> db" where
  "finish_event i token f =
     set_webhook i (\<lambda>w. if weToken w = Some token then f w else w)"

definition mark_processed :: "env \<Rightarrow> uuid \<Rightarrow> uuid \<Rightarrow> db \<Rightarrow> db" where
  "mark_processed E i token =
     finish_event i token (\<lambda>w. w\<lparr>weProcessedAt := Some (clock E), weStatus := EvProcessed,
       weLease := None, weNextRetry := None\<rparr>)"

definition mark_failed_retryable :: "env \<Rightarrow> uuid \<Rightarrow> uuid \<Rightarrow> string \<Rightarrow> msec \<Rightarrow> db \<Rightarrow> db" where
  "mark_failed_retryable E i token code t =
     finish_event i token (\<lambda>w. w\<lparr>weStatus := EvFailed, weErrorCode := Some code,
       weLastFailedAt := Some (clock E), weNextRetry := Some t, weLease := None\<rparr>)"

definition mark_failed_permanent :: "env \<Rightarrow> uuid \<Rightarrow> uuid \<Rightarrow> string \<Rightarrow> db \<Rightarrow> db" where
  "mark_failed_permanent E i token code =
     finish_event i token (\<lambda>w. w\<lparr>weStatus := EvFailed, weErrorCode := Some code,
       weLastFailedAt := Some (clock E), weNextRetry := None, weLease := None\<rparr>)"

definition trusted_source :: "webhook_row \<Rightarrow> bool" where
  "trusted_source w \<longleftrightarrow>
     (weSource w = SignedWebhook \<and> weVerified w) \<or> (weSource w = ProviderLookup \<and> \<not> weVerified w)"

text \<open>At most two rows are read: enough to tell a single event from an ambiguous set.\<close>

definition find_trusted_financial_events ::
    "string \<Rightarrow> string \<Rightarrow> string \<Rightarrow> db \<Rightarrow> webhook_row list" where
  "find_trusted_financial_events pr pid ty s =
     take 2 (sort_key weReceivedAt (filter (\<lambda>w. weProvider w = pr \<and>
       weProviderPayment w = Some pid \<and> weType w = ty \<and> weStatus w = EvProcessed \<and>
       trusted_source w) (webhooks s)))"

definition find_canonical_transition_evidence ::
    "string \<Rightarrow> string \<Rightarrow> payment_status \<Rightarrow> db \<Rightarrow> webhook_row option" where
  "find_canonical_transition_evidence pr pid st s =
     (case take 2 (filter (\<lambda>w. weProvider w = pr \<and> weProviderPayment w = Some pid \<and>
        weTo w = Some st \<and> weAppliedAt w \<noteq> None \<and> trusted_source w) (webhooks s)) of
        [w] \<Rightarrow> Some w
      | _ \<Rightarrow> None)"

section \<open>The transition coordinator\<close>

datatype transition_result =
    Applied payment_row payment_status
  | Rejected payment_row

definition stale_transition_claim :: error where
  "stale_transition_claim = ForeignError ''payment_webhook_stale_transition_claim''"

text \<open>Payment and marker in one transaction: a claim that is no longer current rolls both back.\<close>

definition apply_transition ::
    "env \<Rightarrow> uuid \<Rightarrow> uuid \<Rightarrow> uuid \<Rightarrow> payment_status \<Rightarrow> payment_fields \<Rightarrow> payment_status list \<Rightarrow>
     (db, error, transition_result) step" where
  "apply_transition E pay event token st f sources s =
     (case find_payment pay s of
        None \<Rightarrow> (Inl (ConfigurationError ''payment_attempt not found''), s)
      | Some p \<Rightarrow>
     (if paStatus p \<notin> set sources then (Inr (Rejected p), s)
      else if provider_id_taken pay f s
      then (Inl (ForeignError ''payment_attempt_provider_payment_id_unique''), s)
      else case find_webhook event s of
        None \<Rightarrow> (Inl stale_transition_claim, s)
      | Some w \<Rightarrow>
          (if weToken w \<noteq> Some token then (Inl stale_transition_claim, s)
           else (Inr (Applied (with_status E st f p) (paStatus p)),
                 set_webhook event (\<lambda>w. w\<lparr>weAppliedAt := Some (clock E),
                     weFrom := Some (paStatus p), weTo := Some st\<rparr>)
                   (set_payment pay (with_status E st f) s)))))"

section \<open>Reachability in the matrix\<close>

definition legal_step :: "payment_status \<Rightarrow> payment_status \<Rightarrow> bool" where
  "legal_step a b \<longleftrightarrow> a \<in> set (allowed_sources b)"

lemma legal_step_table:
  "legal_step a b \<longleftrightarrow>
     (unresolved a \<and> (b = PSucceeded \<or> b = PFailed)) \<or>
     (a = PSucceeded \<and> (b = PRefunded \<or> b = PReturned \<or> b = PDisputed \<or> b = PReversed)) \<or>
     ((a = PPending \<or> a = PScheduled) \<and> b = PCanceled)"
  by (cases a; cases b) (simp_all add: legal_step_def allowed_sources_def
      allowed_source_statuses_def unresolved_def)

definition settled_status :: "payment_status \<Rightarrow> bool" where
  "settled_status st \<longleftrightarrow> \<not> unresolved st \<and> st \<noteq> PSucceeded"

lemma settled_final: "legal_step\<^sup>*\<^sup>* a b \<Longrightarrow> settled_status a \<Longrightarrow> b = a"
  by (induction rule: converse_rtranclp_induct)
    (auto simp: legal_step_table settled_status_def unresolved_def)

lemma reach_two: "legal_step\<^sup>+\<^sup>+ a b \<longleftrightarrow> legal_step a b \<or> (\<exists>c. legal_step a c \<and> legal_step c b)"
proof
  assume "legal_step\<^sup>+\<^sup>+ a b"
  then show "legal_step a b \<or> (\<exists>c. legal_step a c \<and> legal_step c b)"
    by (induction rule: tranclp_induct) (auto simp: legal_step_table unresolved_def)
qed (auto intro: tranclp.trancl_into_trancl)

text \<open>
  Looking one hop ahead is enough: a rejected transition is declared permanent exactly when no
  sequence of legal transitions whatever leads from the current status to the requested one. So a
  stale event is only ever discarded when it could never become legal, and a premature one is kept
  for a retry.
\<close>

theorem permanently_illegal_iff_unreachable:
  "permanently_illegal current dest \<longleftrightarrow> \<not> legal_step\<^sup>+\<^sup>+ current dest"
  unfolding reach_two legal_step_table
  by (cases current; cases dest)
    (auto simp: permanently_illegal_def allowed_sources_def allowed_source_statuses_def
      unresolved_def)

section \<open>Claims and leases\<close>

definition lease_ms :: msec where
  "lease_ms = 2 * 60 * 1000"

datatype inbox_op =
    Deliver string string string event_source bool json
  | ClaimExisting string string
  | ClaimBatch nat
  | MarkProcessed uuid uuid
  | MarkRetryable uuid uuid string msec
  | MarkPermanent uuid uuid string
  | Transition uuid uuid uuid payment_status payment_fields "payment_status list"

fun inbox_run :: "env \<Rightarrow> inbox_op \<Rightarrow> db \<Rightarrow> db" where
  "inbox_run E (Deliver pr ev ty src v payload) s =
     snd (try_insert_and_claim E pr ev ty src v payload lease_ms s)"
| "inbox_run E (ClaimExisting pr ev) s = snd (claim_existing_for_processing E pr ev lease_ms s)"
| "inbox_run E (ClaimBatch n) s = snd (claim_batch_for_recovery E n lease_ms s)"
| "inbox_run E (MarkProcessed i t) s = mark_processed E i t s"
| "inbox_run E (MarkRetryable i t c r) s = mark_failed_retryable E i t c r s"
| "inbox_run E (MarkPermanent i t c) s = mark_failed_permanent E i t c s"
| "inbox_run E (Transition pay i t st f ss) s = snd (apply_transition E pay i t st f ss s)"

text \<open>Any worker takes any step at any time: the order of the steps and the clock are free.\<close>

inductive inbox_step :: "db \<Rightarrow> db \<Rightarrow> bool" where
  inbox_step: "inbox_step s (inbox_run E op s)"

inductive_simps inbox_step_iff: "inbox_step s s'"

definition inbox_ok :: "db \<Rightarrow> bool" where
  "inbox_ok s \<longleftrightarrow> distinct (map weId (webhooks s)) \<and>
     list_all (\<lambda>w. weId w < nextId s) (webhooks s)"

text \<open>Event \<open>i\<close> is known and its current claim is not \<open>t\<close>.\<close>

definition superseded :: "uuid \<Rightarrow> uuid \<Rightarrow> db \<Rightarrow> bool" where
  "superseded i t s \<longleftrightarrow> t < nextId s \<and> i < nextId s \<and>
     list_all (\<lambda>w. weId w = i \<longrightarrow> weToken w \<noteq> Some t) (webhooks s)"

lemma set_webhook_frame [simp, frame_simps]:
  "nextId (set_webhook i f s) = nextId s" "payments (set_webhook i f s) = payments s"
  "entries (set_webhook i f s) = entries s" "agreements (set_webhook i f s) = agreements s"
  "accounts (set_webhook i f s) = accounts s" "audits (set_webhook i f s) = audits s"
  "exceptions (set_webhook i f s) = exceptions s" "installments (set_webhook i f s) = installments s"
  "versions (set_webhook i f s) = versions s" "retries (set_webhook i f s) = retries s"
  "partials (set_webhook i f s) = partials s" "claims (set_webhook i f s) = claims s"
  "webhooks (set_webhook i f s) = update_by weId i f (webhooks s)"
  by (simp_all add: set_webhook_def)

lemma set_payment_frame [simp, frame_simps]:
  "nextId (set_payment i f s) = nextId s" "webhooks (set_payment i f s) = webhooks s"
  "entries (set_payment i f s) = entries s" "agreements (set_payment i f s) = agreements s"
  "accounts (set_payment i f s) = accounts s" "audits (set_payment i f s) = audits s"
  "exceptions (set_payment i f s) = exceptions s" "installments (set_payment i f s) = installments s"
  "versions (set_payment i f s) = versions s" "retries (set_payment i f s) = retries s"
  "partials (set_payment i f s) = partials s" "claims (set_payment i f s) = claims s"
  "payments (set_payment i f s) = update_by paId i f (payments s)"
  by (simp_all add: set_payment_def)

lemma claimed_simps [simp]:
  "weId (claimed E t l w) = weId w" "weToken (claimed E t l w) = Some t"
  "weProvider (claimed E t l w) = weProvider w" "weEventId (claimed E t l w) = weEventId w"
  "weAppliedAt (claimed E t l w) = weAppliedAt w"
  by (simp_all add: claimed_def)

lemma update_absent: "k \<notin> key ` set rows \<Longrightarrow> update_by key k f rows = rows"
  by (induction rows) auto

lemma update_fixed: "(\<And>r. r \<in> set rows \<Longrightarrow> key r = k \<Longrightarrow> f r = r) \<Longrightarrow> update_by key k f rows = rows"
  by (induction rows) auto

lemma superseded_set_webhook:
  assumes "superseded i t s" and "\<And>w. weId (f w) = weId w"
    and "\<And>w. weToken w \<noteq> Some t \<Longrightarrow> weToken (f w) \<noteq> Some t"
  shows "superseded i t (set_webhook j f s)"
proof -
  have "list_all (\<lambda>w. weId w = i \<longrightarrow> weToken w \<noteq> Some t) (update_by weId j f (webhooks s))"
    by (rule list_all_update_by) (use assms in \<open>auto simp: superseded_def\<close>)
  then show ?thesis using assms(1) by (simp add: superseded_def)
qed

lemma superseded_more: "superseded i t s \<Longrightarrow> superseded i t (s\<lparr>nextId := Suc (nextId s)\<rparr>)"
  by (simp add: superseded_def)

lemma superseded_claim:
  assumes "superseded i t s"
  shows "superseded i t ((set_webhook j (claimed E (nextId s) l) s)\<lparr>nextId := Suc (nextId s)\<rparr>)"
proof -
  have "nextId s \<noteq> t" using assms by (simp add: superseded_def)
  then have "superseded i t (set_webhook j (claimed E (nextId s) l) s)"
    using assms by (intro superseded_set_webhook) auto
  then show ?thesis using superseded_more by fastforce
qed

lemma superseded_claim_each:
  "superseded i t s \<Longrightarrow> superseded i t (snd (claim_each E l ids s))"
proof (induction E l ids s rule: claim_each.induct)
  case (2 E l j ids s)
  show ?case
  proof (cases "find_webhook j s")
    case None
    then show ?thesis using 2 by simp
  next
    case (Some w)
    then show ?thesis using 2(2) [OF Some refl refl superseded_claim [OF 2(3)]]
      by (auto simp: Let_def split: prod.splits)
  qed
qed simp

lemma superseded_finish:
  assumes "superseded i t s" and "\<And>w. weId (f w) = weId w" and "\<And>w. weToken (f w) = weToken w"
  shows "superseded i t (finish_event j u f s)"
  unfolding finish_event_def by (rule superseded_set_webhook) (use assms in auto)

lemma superseded_step:
  assumes "superseded i t s"
  shows "superseded i t (inbox_run E op s)"
proof (cases op)
  case (Deliver pr ev ty src v payload)
  then show ?thesis using assms by (auto simp: try_insert_and_claim_def superseded_def Let_def)
next
  case (ClaimExisting pr ev)
  then show ?thesis using assms superseded_claim [OF assms]
    by (auto simp: claim_existing_for_processing_def Let_def split: option.splits)
next
  case (ClaimBatch n)
  then show ?thesis using superseded_claim_each [OF assms] by (simp add: claim_batch_for_recovery_def)
next
  case (MarkProcessed j u)
  then show ?thesis using superseded_finish [OF assms] by (simp add: mark_processed_def)
next
  case (MarkRetryable j u c r)
  then show ?thesis using superseded_finish [OF assms] by (simp add: mark_failed_retryable_def)
next
  case (MarkPermanent j u c)
  then show ?thesis using superseded_finish [OF assms] by (simp add: mark_failed_permanent_def)
next
  case (Transition pay j u st f ss)
  have "superseded i t (set_payment pay g s)" for g using assms by (simp add: superseded_def)
  then have "superseded i t (set_webhook j h (set_payment pay g s))"
    if "\<And>w. weId (h w) = weId w" "\<And>w. weToken (h w) = weToken w" for g h
    using that by (intro superseded_set_webhook) auto
  then show ?thesis using assms Transition
    by (auto simp: apply_transition_def split: option.splits)
qed

lemma superseded_reach: "inbox_step\<^sup>*\<^sup>* s s' \<Longrightarrow> superseded i t s \<Longrightarrow> superseded i t s'"
  by (induction rule: rtranclp_induct) (auto simp: inbox_step_iff superseded_step)

lemma superseded_finish_noop: "superseded i t s \<Longrightarrow> finish_event i t f s = s"
  unfolding finish_event_def set_webhook_def
  by (subst update_fixed) (auto simp: superseded_def list_all_iff)

text \<open>
  A worker whose claim was taken over can do nothing any more. Once an event carries another
  claim token, then whatever the workers do from there in whatever order and at whatever times, the
  old token stays dead: it can neither mark the event processed or failed nor apply its transition
  to a payment.
\<close>

theorem stale_claim_is_fenced:
  assumes "inbox_ok s" and "find_webhook i s = Some w" and "weToken w \<noteq> Some t" and "t < nextId s"
    and "inbox_step\<^sup>*\<^sup>* s s'"
  shows "mark_processed E i t s' = s' \<and> mark_failed_retryable E i t code r s' = s' \<and>
    mark_failed_permanent E i t code s' = s' \<and> snd (apply_transition E pay i t st f ss s') = s'"
proof -
  have w: "w \<in> set (webhooks s)" "weId w = i"
    using assms(2) by (auto dest: lookup_by_Some_mem lookup_by_Some_key)
  have "weToken v \<noteq> Some t" if "v \<in> set (webhooks s)" "weId v = i" for v
  proof -
    have "find_webhook i s = Some v"
      using lookup_by_distinct [of weId "webhooks s" v] assms(1) that by (simp add: inbox_ok_def)
    then show ?thesis using assms(2,3) by simp
  qed
  then have "superseded i t s" using w assms(1,4) by (auto simp: superseded_def inbox_ok_def list_all_iff)
  then have sup: "superseded i t s'" using superseded_reach [OF assms(5)] by blast
  have "snd (apply_transition E pay i t st f ss s') = s'"
  proof (cases "find_webhook i s'")
    case (Some v)
    then have "weToken v \<noteq> Some t"
      using sup by (auto simp: superseded_def list_all_iff dest: lookup_by_Some_mem lookup_by_Some_key)
    then show ?thesis using Some by (simp add: apply_transition_def split: option.split)
  qed (simp add: apply_transition_def split: option.split)
  then show ?thesis
    using superseded_finish_noop [OF sup]
    by (simp add: mark_processed_def mark_failed_retryable_def mark_failed_permanent_def)
qed

definition sample_event :: webhook_row where
  "sample_event = \<lparr>weId = 40, weProvider = ''sandbox'', weEventId = ''e1'',
     weType = ''payment.succeeded'', weSource = SignedWebhook, weVerified = True,
     wePayload = JObj [(''providerPaymentId'', JStr ''p1'')], weReceivedAt = 0, weProcessedAt = None,
     weStatus = EvProcessing, weAttempts = 1, weStartedAt = Some 0, weLastFailedAt = None,
     weErrorCode = None, weNextRetry = None, weLease = Some 120000, weToken = Some 41,
     weProviderPayment = Some ''p1'', weAppliedAt = None, weFrom = None, weTo = None\<rparr>"

definition sample_inbox_db :: db where
  "sample_inbox_db = (sample_paid_db FirstPaymentPending)
     \<lparr>nextId := 42, webhooks := [sample_event], payments := [sample_payment 7 PPending 100]\<rparr>"

theorem stale_claim_is_fenced_witness:
  "(let s' = inbox_run toy_env (ClaimExisting ''sandbox'' ''e1'') sample_inbox_db;
        s'' = inbox_run toy_env (ClaimBatch 5) s'
    in snd (apply_transition toy_env 7 40 41 PSucceeded no_fields (allowed_sources PSucceeded) s'') = s'')"
proof -
  let ?s = "inbox_run toy_env (ClaimExisting ''sandbox'' ''e1'') sample_inbox_db"
  have s: "webhooks ?s = [claimed toy_env 42 lease_ms sample_event]" "nextId ?s = 43"
    by (simp_all add: claim_existing_for_processing_def find_by_provider_event_id_def
        sample_inbox_db_def sample_event_def live_lease_def toy_env_def)
  have "inbox_step\<^sup>*\<^sup>* ?s (inbox_run toy_env (ClaimBatch 5) ?s)"
    by (rule r_into_rtranclp) (rule inbox_step)
  then show ?thesis
    using stale_claim_is_fenced [of ?s 40 "claimed toy_env 42 lease_ms sample_event" 41]
    by (simp add: s inbox_ok_def Let_def del: inbox_run.simps) (simp add: sample_event_def del: inbox_run.simps)
qed

text \<open>The state that the workers can reach from an empty inbox is well formed.\<close>

lemma inbox_ok_set: "inbox_ok s \<Longrightarrow> (\<And>w. weId (f w) = weId w) \<Longrightarrow> inbox_ok (set_webhook j f s)"
  by (auto simp: inbox_ok_def map_key_update_by list_all_iff dest: set_update_by)

lemma inbox_ok_next: "inbox_ok s \<Longrightarrow> inbox_ok (s\<lparr>nextId := Suc (nextId s)\<rparr>)"
  by (auto simp: inbox_ok_def list_all_iff less_SucI)

lemma inbox_ok_claim: "inbox_ok s \<Longrightarrow>
    inbox_ok ((set_webhook j (claimed E t l) s)\<lparr>nextId := Suc (nextId s)\<rparr>)"
  using inbox_ok_next [OF inbox_ok_set, of s "claimed E t l" j] by simp

lemma inbox_ok_claim_each: "inbox_ok s \<Longrightarrow> inbox_ok (snd (claim_each E l ids s))"
proof (induction E l ids s rule: claim_each.induct)
  case (2 E l j ids s)
  show ?case
  proof (cases "find_webhook j s")
    case (Some w)
    then show ?thesis using 2(2) [OF Some refl refl inbox_ok_claim [OF 2(3)]]
      by (auto simp: Let_def split: prod.splits)
  qed (use 2 in simp)
qed simp

lemma inbox_ok_payment: "inbox_ok (set_payment i f s) = inbox_ok s"
  by (simp add: inbox_ok_def)

lemma inbox_ok_step: "inbox_ok s \<Longrightarrow> inbox_ok (inbox_run E op s)"
proof (cases op)
  case (Deliver pr ev ty src v payload)
  assume "inbox_ok s"
  then show ?thesis using Deliver
    by (auto simp: try_insert_and_claim_def inbox_ok_def list_all_iff less_SucI Let_def)
next
  case (Transition pay j u st f ss)
  assume ok: "inbox_ok s"
  have "inbox_ok (set_webhook j h (set_payment pay g s))" if "\<And>w. weId (h w) = weId w" for g h
    using that ok by (intro inbox_ok_set) (simp_all add: inbox_ok_payment)
  then show ?thesis using Transition ok by (auto simp: apply_transition_def split: option.splits)
qed (auto simp: claim_existing_for_processing_def claim_batch_for_recovery_def mark_processed_def
    mark_failed_retryable_def mark_failed_permanent_def finish_event_def Let_def
    intro: inbox_ok_claim inbox_ok_claim_each inbox_ok_set split: option.splits)

section \<open>Payments only move along the matrix\<close>

text \<open>What a payment was asked for; no status change touches it.\<close>

definition payment_terms ::
    "payment_row \<Rightarrow> string \<times> profile_ref \<times> profile_ref \<times> int \<times> string \<times> uuid option \<times> uuid option" where
  "payment_terms p =
     (paKey p, paPayer p, paRecipient p, paAmount p, paCurrency p, paAgreement p, paInstallment p)"

definition moved_legally :: "payment_row list \<Rightarrow> payment_row list \<Rightarrow> bool" where
  "moved_legally ps ps' \<longleftrightarrow> map paId ps' = map paId ps \<and>
     list_all2 (\<lambda>p p'. legal_step\<^sup>*\<^sup>* (paStatus p) (paStatus p') \<and>
       payment_terms p' = payment_terms p) ps ps'"

lemma with_status_simps [simp]:
  "paId (with_status E st f p) = paId p" "paStatus (with_status E st f p) = st"
  "paAmount (with_status E st f p) = paAmount p" "paCurrency (with_status E st f p) = paCurrency p"
  "paAgreement (with_status E st f p) = paAgreement p"
  "paInstallment (with_status E st f p) = paInstallment p" "paKey (with_status E st f p) = paKey p"
  "paPayer (with_status E st f p) = paPayer p" "paRecipient (with_status E st f p) = paRecipient p"
  "paProviderName (with_status E st f p) = paProviderName p"
  by (simp_all add: with_status_def)

lemma with_status_terms [simp]: "payment_terms (with_status E st f p) = payment_terms p"
  by (simp add: payment_terms_def)

text \<open>A transition as the webhook service asks for it: with the sources of the matrix.\<close>

fun matrix_op :: "inbox_op \<Rightarrow> bool" where
  "matrix_op (Transition pay i t st f ss) \<longleftrightarrow> ss = allowed_sources st"
| "matrix_op _ \<longleftrightarrow> True"

lemma moved_refl: "moved_legally ps ps"
  by (simp add: moved_legally_def list_all2_same)

lemma moved_trans: "moved_legally ps qs \<Longrightarrow> moved_legally qs rs \<Longrightarrow> moved_legally ps rs"
  unfolding moved_legally_def list_all2_conv_all_nth
proof (intro conjI allI impI; (elim conjE)?)
  fix n
  assume "\<forall>n < length ps. legal_step\<^sup>*\<^sup>* (paStatus (ps ! n)) (paStatus (qs ! n)) \<and>
      payment_terms (qs ! n) = payment_terms (ps ! n)"
    "\<forall>n < length qs. legal_step\<^sup>*\<^sup>* (paStatus (qs ! n)) (paStatus (rs ! n)) \<and>
      payment_terms (rs ! n) = payment_terms (qs ! n)"
    "n < length ps" "length ps = length qs"
  then show "legal_step\<^sup>*\<^sup>* (paStatus (ps ! n)) (paStatus (rs ! n))"
    "payment_terms (rs ! n) = payment_terms (ps ! n)"
    using rtranclp_trans [of legal_step "paStatus (ps ! n)" "paStatus (qs ! n)" "paStatus (rs ! n)"]
    by simp_all
qed simp_all

lemma moved_update:
  assumes "distinct (map paId ps)" and "lookup_by paId i ps = Some p" and "legal_step (paStatus p) st"
  shows "moved_legally ps (update_by paId i (with_status E st f) ps)"
proof -
  have "legal_step\<^sup>*\<^sup>* (paStatus q) st" if "q \<in> set ps" "paId q = i" for q
    using lookup_by_distinct [OF assms(1) that(1)] assms(2,3) that(2) by simp
  then show ?thesis
    by (auto simp: moved_legally_def map_key_update_by update_by_def list_all2_conv_all_nth)
qed

lemma payments_claim_each: "payments (snd (claim_each E l ids s)) = payments s"
  by (induction E l ids s rule: claim_each.induct) (auto simp: Let_def split: option.splits prod.splits)

lemma moved_step:
  assumes "distinct (map paId (payments s))" and "matrix_op op"
  shows "moved_legally (payments s) (payments (inbox_run E op s))"
proof (cases op)
  case (Transition pay i t st f ss)
  then show ?thesis using assms moved_refl moved_update
    by (auto simp: apply_transition_def legal_step_def split: option.splits)
qed (auto simp: try_insert_and_claim_def claim_existing_for_processing_def claim_batch_for_recovery_def
    mark_processed_def mark_failed_retryable_def mark_failed_permanent_def finish_event_def Let_def
    moved_refl payments_claim_each split: option.splits)

definition inbox_run_all :: "(env \<times> inbox_op) list \<Rightarrow> db \<Rightarrow> db" where
  "inbox_run_all ops s = fold (\<lambda>(E, op). inbox_run E op) ops s"

lemma moved_run:
  assumes "distinct (map paId (payments s))" and "list_all (matrix_op \<circ> snd) ops"
  shows "moved_legally (payments s) (payments (inbox_run_all ops s))"
  using assms
proof (induction ops arbitrary: s)
  case Nil
  then show ?case by (simp add: inbox_run_all_def moved_refl)
next
  case (Cons eop ops)
  obtain E op where eop: "eop = (E, op)" by (cases eop)
  have m: "moved_legally (payments s) (payments (inbox_run E op s))"
    using moved_step Cons.prems eop by simp
  then have "distinct (map paId (payments (inbox_run E op s)))"
    using Cons.prems(1) by (simp add: moved_legally_def)
  then have "moved_legally (payments (inbox_run E op s)) (payments (inbox_run_all ops (inbox_run E op s)))"
    using Cons by simp
  then show ?case using moved_trans [OF m] by (simp add: inbox_run_all_def eop)
qed

text \<open>
  C4. No event, however late, repeated or out of order, moves a payment against the matrix: over any
  run of the inbox by any workers, a payment that has failed, was canceled, refunded, returned,
  disputed or reversed never changes its status again, a cleared one never becomes failed or
  canceled, and its key, parties, amount, currency, agreement and installment are the ones it was
  created with.
\<close>

theorem webhooks_never_regress_payments:
  assumes "distinct (map paId (payments s))" and "list_all (matrix_op \<circ> snd) ops"
    and "find_payment i s = Some p"
  shows "\<exists>p'. find_payment i (inbox_run_all ops s) = Some p' \<and>
    (settled_status (paStatus p) \<longrightarrow> paStatus p' = paStatus p) \<and>
    (paStatus p = PSucceeded \<longrightarrow> paStatus p' \<noteq> PFailed \<and> paStatus p' \<noteq> PCanceled \<and>
       \<not> unresolved (paStatus p')) \<and>
    payment_terms p' = payment_terms p"
proof -
  let ?qs = "payments (inbox_run_all ops s)"
  have m: "moved_legally (payments s) ?qs" by (rule moved_run [OF assms(1,2)])
  have p: "p \<in> set (payments s)" "paId p = i"
    using assms(3) by (auto dest: lookup_by_Some_mem lookup_by_Some_key)
  then obtain n where n: "n < length (payments s)" "payments s ! n = p" by (auto simp: in_set_conv_nth)
  have len: "length ?qs = length (payments s)" using m by (metis length_map moved_legally_def)
  have id: "paId (?qs ! n) = i"
  proof -
    have "map paId ?qs ! n = map paId (payments s) ! n" using m by (simp add: moved_legally_def)
    then show ?thesis using n p len by simp
  qed
  have "distinct (map paId ?qs)" using m assms(1) by (simp add: moved_legally_def)
  then have f: "find_payment i (inbox_run_all ops s) = Some (?qs ! n)"
    using lookup_by_distinct [of paId ?qs "?qs ! n"] n len id by simp
  have r: "legal_step\<^sup>*\<^sup>* (paStatus p) (paStatus (?qs ! n))" "payment_terms (?qs ! n) = payment_terms p"
    using m n by (auto simp: moved_legally_def list_all2_conv_all_nth)
  have "paStatus p = PSucceeded \<Longrightarrow> paStatus (?qs ! n) = PSucceeded \<or>
      paStatus (?qs ! n) \<in> {PRefunded, PReturned, PDisputed, PReversed}"
    using r(1) by (induction rule: rtranclp_induct) (auto simp: legal_step_table unresolved_def)
  then show ?thesis using f r settled_final [OF r(1)] by (auto simp: unresolved_def)
qed

theorem webhooks_never_regress_payments_witness:
  "\<exists>p'. find_payment 7 (inbox_run_all
      [(toy_env, Transition 7 40 41 PSucceeded no_fields (allowed_sources PSucceeded)),
       (toy_env, Transition 7 40 41 PFailed no_fields (allowed_sources PFailed))]
      (sample_inbox_db\<lparr>payments := [sample_payment 7 PCanceled 100]\<rparr>)) = Some p' \<and>
    paStatus p' = PCanceled"
  using webhooks_never_regress_payments [of "sample_inbox_db\<lparr>payments := [sample_payment 7 PCanceled 100]\<rparr>"
      "[(toy_env, Transition 7 40 41 PSucceeded no_fields (allowed_sources PSucceeded)),
       (toy_env, Transition 7 40 41 PFailed no_fields (allowed_sources PFailed))]" 7
      "sample_payment 7 PCanceled 100"]
  by (auto simp: sample_payment_def settled_status_def unresolved_def)

end
