(* ===== verification/Payments.thy ===== *)
theory Payments
  imports PaymentStates
begin

text \<open>
  Payment intake (\<open>src/lib/payments/paymentService.ts\<close>): reservation of an attempt with its replay
  check, limits and guards, the atomic reservation inside an installment's ceiling
  (\<open>drizzleInstallmentAwarePaymentReserver.ts\<close>), the atomic manual payment
  (\<open>drizzleAtomicManualPaymentPoster.ts\<close>), submission to the provider, cancellation, refund and
  manual confirmation. The provider, the identity and verification services and the settings are
  the parameter \<open>pay_deps\<close>; the optional dependencies are wired as in \<open>getPaymentService.ts\<close>.
  Notifications, which never fail a payment, are left out.
\<close>

section \<open>Dependencies and limits\<close>

text \<open>A setting is the parsed environment variable, \<open>None\<close> when it is unset or not a number.\<close>

record pay_deps =
  ownerOf :: "profile_ref \<Rightarrow> uuid option"
  fullyVerified :: "profile_ref \<Rightarrow> bool"
  settlementAwaiting :: "uuid \<Rightarrow> uuid \<Rightarrow> db \<Rightarrow> bool"
  initiationEnabled :: bool
  maxPaymentEnv :: "int option"
  reviewThresholdEnv :: "int option"
  dailyAmountEnv :: "int option"
  dailyCountEnv :: "int option"
  providerName :: string
  providerCreate :: "payment_row \<Rightarrow> error + (payment_status \<times> string)"
  providerCancel :: "string \<Rightarrow> error + bool"
  providerRefund :: "string \<Rightarrow> error option"
  installmentHook :: "payment_row \<Rightarrow> (db, error, unit) step"

definition read_positive_int_env :: "int option \<Rightarrow> int \<Rightarrow> int" where
  "read_positive_int_env parsed fallback =
     (case parsed of None \<Rightarrow> fallback | Some n \<Rightarrow> if safe_int n \<and> 0 < n then n else fallback)"

definition max_payment :: "pay_deps \<Rightarrow> int" where
  "max_payment D = read_positive_int_env (maxPaymentEnv D) 1000000"

definition review_threshold :: "pay_deps \<Rightarrow> int" where
  "review_threshold D = read_positive_int_env (reviewThresholdEnv D) 200000"

definition daily_amount_limit :: "pay_deps \<Rightarrow> int" where
  "daily_amount_limit D = read_positive_int_env (dailyAmountEnv D) 5000000"

definition daily_attempt_limit :: "pay_deps \<Rightarrow> int" where
  "daily_attempt_limit D = read_positive_int_env (dailyCountEnv D) 20"

definition rolling_window_ms :: msec where
  "rolling_window_ms = 24 * 60 * 60 * 1000"

definition non_moving :: "payment_status \<Rightarrow> bool" where
  "non_moving st \<longleftrightarrow> st = PFailed \<or> st = PCanceled"

definition summarize_recent_activity :: "payment_row list \<Rightarrow> int \<times> int" where
  "summarize_recent_activity ps =
     (foldl (\<lambda>n p. if non_moving (paStatus p) then n else js_add n (paAmount p)) 0 ps,
      int (length ps))"

section \<open>Guards\<close>

definition get_parties :: "uuid \<Rightarrow> db \<Rightarrow> (profile_ref \<times> profile_ref) option" where
  "get_parties ag s = map_option (\<lambda>a. (agCreditor a, agDebtor a)) (find_agreement ag s)"

text \<open>A balance that cannot be computed does not block.\<close>

definition assert_not_overpaying :: "uuid \<Rightarrow> int \<Rightarrow> db \<Rightarrow> error option" where
  "assert_not_overpaying ag amount s =
     (case get_agreement_balance ag s of
        Inl _ \<Rightarrow> None
      | Inr bal \<Rightarrow> if abRemaining bal < amount then Some (ValidationError ''Overpayment'') else None)"

definition schedule_exists :: "uuid \<Rightarrow> db \<Rightarrow> bool" where
  "schedule_exists ag s =
     (case Option.bind (find_agreement ag s) agCurrentVersion of
        None \<Rightarrow> False
      | Some v \<Rightarrow> has_installment_schedule v s)"

definition assert_installment_linkage ::
    "pay_deps \<Rightarrow> uuid \<Rightarrow> uuid option \<Rightarrow> uuid option \<Rightarrow> db \<Rightarrow> error option" where
  "assert_installment_linkage D ag inst settlement s =
     (if inst \<noteq> None then None
      else if \<not> schedule_exists ag s then None
      else if (case settlement of None \<Rightarrow> False | Some sp \<Rightarrow> settlementAwaiting D sp ag s) then None
      else Some (ValidationError ''InstallmentLinkageRequired''))"

definition verified_settlement ::
    "pay_deps \<Rightarrow> uuid option \<Rightarrow> uuid option \<Rightarrow> db \<Rightarrow> error + uuid option" where
  "verified_settlement D agreement settlement s =
     (case settlement of
        None \<Rightarrow> Inr None
      | Some sp \<Rightarrow>
          (case agreement of
             None \<Rightarrow> Inl (ValidationError ''SettlementNeedsAgreement'')
           | Some ag \<Rightarrow> Inr (if settlementAwaiting D sp ag s then Some sp else None)))"

record payment_request =
  rqKey :: string
  rqPayer :: profile_ref
  rqRecipient :: profile_ref
  rqAmount :: int
  rqCurrency :: string
  rqAgreement :: "uuid option"
  rqActor :: uuid
  rqInstallment :: "uuid option"
  rqSettlement :: "uuid option"
  rqMethod :: "payment_method option"
  rqBank :: "uuid option"

definition matches_request :: "payment_row \<Rightarrow> payment_request \<Rightarrow> bool" where
  "matches_request p r \<longleftrightarrow>
     paPayer p = rqPayer r \<and> paRecipient p = rqRecipient r \<and> paAgreement p = rqAgreement r \<and>
     paAmount p = rqAmount r \<and> paCurrency p = rqCurrency r \<and>
     paInstallment p = rqInstallment r \<and> paMethod p = rqMethod r \<and> paBank p = rqBank r \<and>
     paSettlement p = rqSettlement r"

text \<open>An existing attempt under the key: the same request by its payer, or an error.\<close>

definition replay :: "pay_deps \<Rightarrow> payment_request \<Rightarrow> payment_row \<Rightarrow> error + payment_row \<times> bool" where
  "replay D r p =
     (if \<not> matches_request p r then Inl (ValidationError ''IdempotencyKeyReused'')
      else if ownerOf D (paPayer p) \<noteq> Some (rqActor r) then Inl (ForbiddenError ''NotPayer'')
      else Inr (p, True))"

section \<open>Reservation inside an installment's ceiling\<close>

text \<open>\<open>reserveWithinInstallmentCeiling\<close>: one transaction under the locks of agreement and
  installment.\<close>

definition reserve_within_ceiling ::
    "env \<Rightarrow> pending_input \<Rightarrow> uuid \<Rightarrow> uuid \<Rightarrow> (db, error, payment_row) step" where
  "reserve_within_ceiling E inp ag inst s =
     (if find_agreement ag s = None then (Inl (ValidationError ''AgreementNotFound''), s)
      else if find_installment inst s = None then (Inl (ValidationError ''InstallmentNotFound''), s)
      else case assert_installment_belongs inst ag s of
        Some e \<Rightarrow> (Inl e, s)
      | None \<Rightarrow>
     (case assert_no_competing_attempt inst (piKey inp) None s of
        Some e \<Rightarrow> (Inl e, s)
      | None \<Rightarrow>
          (if (case installment_settlement_tx inst s of
                 None \<Rightarrow> False | Some (snap, _, _) \<Rightarrow> ssRemaining snap < piAmount inp)
           then (Inl (ValidationError ''InstallmentOverpayment''), s)
           else insert_pending E inp s)))"

section \<open>The atomic manual payment\<close>

record manual_input =
  maKey :: string
  maAgreement :: uuid
  maPayer :: profile_ref
  maRecipient :: profile_ref
  maAmount :: int
  maCurrency :: string
  maRecordedBy :: uuid
  maInstallment :: "uuid option"
  maSettlement :: "uuid option"

definition manual_pending :: "manual_input \<Rightarrow> pending_input" where
  "manual_pending m = \<lparr>piKey = maKey m, piPayer = maPayer m, piRecipient = maRecipient m,
     piAmount = maAmount m, piCurrency = maCurrency m, piAgreement = Some (maAgreement m),
     piProvider = ''manual'', piInstallment = maInstallment m, piInitial = Some PSucceeded,
     piMethod = Some ManualOffPlatform, piRecordedBy = Some (maRecordedBy m), piBank = None,
     piSettlement = maSettlement m\<rparr>"

definition manual_checks :: "manual_input \<Rightarrow> db \<Rightarrow> error option" where
  "manual_checks m s =
     (case find_agreement (maAgreement m) s of
        None \<Rightarrow> Some (ValidationError ''AgreementNotFound'')
      | Some a \<Rightarrow>
     (case agCurrentVersion a of
        None \<Rightarrow> Some (ValidationError ''noTerms'')
      | Some v \<Rightarrow>
     (case find_version v s of
        None \<Rightarrow> Some (ConfigurationError ''agreement_version not found'')
      | Some version \<Rightarrow>
     (if js_sub (avPrincipal version)
           (fst (reconstruct_paid_and_reversed (list_for_agreement (maAgreement m) s))) < maAmount m
      then Some (ValidationError ''Overpayment'')
      else case maInstallment m of
        None \<Rightarrow> None
      | Some inst \<Rightarrow>
     (case assert_installment_belongs inst (maAgreement m) s of
        Some e \<Rightarrow> Some e
      | None \<Rightarrow>
     (case assert_no_competing_attempt inst (maKey m) None s of
        Some e \<Rightarrow> Some e
      | None \<Rightarrow>
          (if (case installment_settlement_tx inst s of
                 None \<Rightarrow> False | Some (snap, _, _) \<Rightarrow> ssRemaining snap < maAmount m)
           then Some (ValidationError ''InstallmentOverpayment'') else None)))))))"

text \<open>Payment row, accounts, entry and postings together, or nothing at all.\<close>

definition post_manual_payment_atomically ::
    "env \<Rightarrow> manual_input \<Rightarrow> (db, error, payment_row) step" where
  "post_manual_payment_atomically E m s =
     (case manual_checks m s of
        Some e \<Rightarrow> (Inl e, s)
      | None \<Rightarrow>
     (case insert_pending E (manual_pending m) s of
        (Inl e, _) \<Rightarrow> (Inl e, s)
      | (Inr p, s1) \<Rightarrow>
     (case find_or_create_account ProcessorClearing (maAgreement m) s1 of (clearing, s2) \<Rightarrow>
     (case find_or_create_account CreditorProceedsPayable (maAgreement m) s2 of (payable, s3) \<Rightarrow>
     (case insert_entry \<lparr>eiType = PaymentCleared, eiAgreement = maAgreement m, eiPayment = paId p,
         eiCurrency = maCurrency m, eiReason = None,
         eiPostings = [\<lparr>poAccount = clearing, poType = ProcessorClearing,
                        poDirection = Debit, poAmount = maAmount m\<rparr>,
                       \<lparr>poAccount = payable, poType = CreditorProceedsPayable,
                        poDirection = Credit, poAmount = maAmount m\<rparr>]\<rparr> s3 of
        Inl e \<Rightarrow> (Inl e, s)
      | Inr (entry, s4) \<Rightarrow> (Inr p, s4))))))"

section \<open>The service\<close>

definition status_name :: "payment_status \<Rightarrow> string" where
  "status_name st = (case st of PPending \<Rightarrow> ''pending'' | PSucceeded \<Rightarrow> ''succeeded''
     | PFailed \<Rightarrow> ''failed'' | PCanceled \<Rightarrow> ''canceled'' | PRefunded \<Rightarrow> ''refunded''
     | PDisputed \<Rightarrow> ''disputed'' | PReversed \<Rightarrow> ''reversed'' | PScheduled \<Rightarrow> ''scheduled''
     | PSubmitted \<Rightarrow> ''submitted'' | PProcessing \<Rightarrow> ''processing'' | PReturned \<Rightarrow> ''returned'')"

definition record_payment_audit ::
    "env \<Rightarrow> payment_row \<Rightarrow> string \<Rightarrow> uuid option \<Rightarrow> string option \<Rightarrow> json \<Rightarrow> db \<Rightarrow> db" where
  "record_payment_audit E p act actor ip device =
     audit E ((blank_audit act (clock E))
       \<lparr>actorUserId := actor,
        actorRole := Some (case actor of None \<Rightarrow> ''payment_provider'' | Some _ \<Rightarrow> ''personal_user''),
        profileKind := Some (fst (paPayer p)), profileId := Some (snd (paPayer p)),
        auditAgreementId := paAgreement p, ipAddress := ip, deviceInfo := device,
        newValue := JStr (status_name (paStatus p)), reason := paFailureReason p,
        targetResourceType := Value ''payment_attempt'', targetResourceId := Value (paId p)\<rparr>)"

definition reserve_checks :: "pay_deps \<Rightarrow> env \<Rightarrow> payment_request \<Rightarrow> db \<Rightarrow> error + uuid option" where
  "reserve_checks D E r s =
     (if \<not> initiationEnabled D then Inl (DependencyError ''PaymentInitiationDisabled'')
      else if rqInstallment r \<noteq> None \<and> rqAgreement r = None
      then Inl (ValidationError ''InstallmentNeedsAgreement'')
      else if ownerOf D (rqPayer r) \<noteq> Some (rqActor r) then Inl (ForbiddenError ''NotPayer'')
      else if (case Option.bind (rqAgreement r) (\<lambda>ag. get_parties ag s) of
                 None \<Rightarrow> False
               | Some (creditor, debtor) \<Rightarrow> debtor \<noteq> rqPayer r \<or> creditor \<noteq> rqRecipient r)
      then Inl (ForbiddenError ''PartiesMismatch'')
      else if \<not> safe_int (rqAmount r) \<or> rqAmount r \<le> 0
      then Inl (ValidationError ''amountMinorUnits'')
      else if max_payment D < rqAmount r then Inl (ValidationError ''MaxPaymentExceeded'')
      else case summarize_recent_activity
          (list_recent_by_payer (rqPayer r) (clock E - rolling_window_ms) s) of
        (recentAmount, recentCount) \<Rightarrow>
     (if daily_amount_limit D < js_add recentAmount (rqAmount r)
      then Inl (ValidationError ''DailyAmountExceeded'')
      else if daily_attempt_limit D < recentCount + 1
      then Inl (ValidationError ''DailyAttemptsExceeded'')
      else case (case rqAgreement r of
                   None \<Rightarrow> None
                 | Some ag \<Rightarrow>
                     (case assert_not_overpaying ag (rqAmount r) s of
                        Some e \<Rightarrow> Some e
                      | None \<Rightarrow> assert_installment_linkage D ag (rqInstallment r) (rqSettlement r) s)) of
        Some e \<Rightarrow> Inl e
      | None \<Rightarrow>
     (if \<not> fullyVerified D (rqPayer r) then Inl (ValidationError ''PayerNotVerified'')
      else if \<not> fullyVerified D (rqRecipient r) then Inl (ValidationError ''RecipientNotVerified'')
      else verified_settlement D (rqAgreement r) (rqSettlement r) s)))"

definition request_pending ::
    "pay_deps \<Rightarrow> payment_request \<Rightarrow> uuid option \<Rightarrow> payment_status option \<Rightarrow> pending_input" where
  "request_pending D r settlement initial = \<lparr>piKey = rqKey r, piPayer = rqPayer r,
     piRecipient = rqRecipient r, piAmount = rqAmount r, piCurrency = rqCurrency r,
     piAgreement = rqAgreement r, piProvider = providerName D, piInstallment = rqInstallment r,
     piInitial = initial, piMethod = rqMethod r, piRecordedBy = None, piBank = rqBank r,
     piSettlement = settlement\<rparr>"

text \<open>\<open>reserveAttempt\<close>: the flag says that the key was already used.\<close>

definition reserve_attempt ::
    "pay_deps \<Rightarrow> env \<Rightarrow> payment_request \<Rightarrow> payment_status option \<Rightarrow>
     (db, error, payment_row \<times> bool) step" where
  "reserve_attempt D E r initial s =
     (case find_by_idempotency_key (rqKey r) s of
        Some existing \<Rightarrow> (replay D r existing, s)
      | None \<Rightarrow>
     (case reserve_checks D E r s of
        Inl e \<Rightarrow> (Inl e, s)
      | Inr settlement \<Rightarrow>
     (let inp = request_pending D r settlement initial;
          inserted = (case (rqInstallment r, rqAgreement r) of
                        (Some inst, Some ag) \<Rightarrow> reserve_within_ceiling E inp ag inst s
                      | _ \<Rightarrow> insert_pending E inp s)
      in case inserted of
           (Inr p, s1) \<Rightarrow>
             (Inr (p, False),
              if review_threshold D \<le> rqAmount r
              then record_payment_audit E p ''payment_flagged_for_review'' (Some (rqActor r)) None JNull s1
              else s1)
         | (Inl e, s1) \<Rightarrow>
             (case find_by_idempotency_key (rqKey r) s1 of
                Some raced \<Rightarrow> (replay D r raced, s1)
              | None \<Rightarrow> (Inl e, s1)))))"

datatype access_mode = PayerOrRecipient | RecipientOnly | PayerOnly

definition get_authorized_record ::
    "pay_deps \<Rightarrow> uuid \<Rightarrow> uuid \<Rightarrow> access_mode \<Rightarrow> db \<Rightarrow> error + payment_row" where
  "get_authorized_record D i actor mode s =
     (case find_payment i s of
        None \<Rightarrow> Inl (ValidationError ''PaymentNotFound'')
      | Some p \<Rightarrow>
          (let isPayer = (ownerOf D (paPayer p) = Some actor);
               isRecipient = (ownerOf D (paRecipient p) = Some actor)
           in if mode = RecipientOnly \<and> \<not> isRecipient then Inl (ForbiddenError ''RecipientOnly'')
              else if mode = PayerOnly \<and> \<not> isPayer then Inl (ForbiddenError ''PayerOnly'')
              else if mode = PayerOrRecipient \<and> \<not> isPayer \<and> \<not> isRecipient
              then Inl (ForbiddenError ''NoAccess'')
              else Inr p))"

text \<open>The \<open>catch\<close> around the provider call: whatever failed, the attempt is marked failed.\<close>

definition fail_creation ::
    "env \<Rightarrow> uuid \<Rightarrow> uuid \<Rightarrow> string option \<Rightarrow> json \<Rightarrow> string \<Rightarrow> string \<Rightarrow>
     (db, error, payment_row) step" where
  "fail_creation E i actor ip device why msg =
     andThen (update_status E i PFailed \<lparr>pfProviderId = None, pfFailure = Some why\<rparr>) (\<lambda>failed.
     andThen (update (record_payment_audit E failed ''payment_creation_failed'' (Some actor) ip device)) (\<lambda>_.
     throw (ValidationError msg)))"

text \<open>\<open>submitToProvider\<close>. \<open>finalGuard\<close> is the caller's last check before money can move.\<close>

definition submit_to_provider ::
    "pay_deps \<Rightarrow> env \<Rightarrow> payment_row \<Rightarrow> uuid \<Rightarrow> string option \<Rightarrow> json \<Rightarrow> (db, error, unit) step \<Rightarrow>
     (db, error, payment_row) step" where
  "submit_to_provider D E p actor ip device finalGuard s =
     (if paAgreement p = None
      then fail_creation E (paId p) actor ip device ''noAgreement'' ''ProviderPaymentNeedsAgreement'' s
      else
        (case andThen finalGuard (\<lambda>_.
              andThen (raised (providerCreate D p)) (\<lambda>(st, pid).
              andThen (update_status E (paId p)
                (if st = PPending \<and> paStatus p = PSubmitted then PProcessing else st)
                \<lparr>pfProviderId = Some pid, pfFailure = None\<rparr>) (\<lambda>updated.
              andThen (update (record_payment_audit E updated ''payment_created'' (Some actor) ip device)) (\<lambda>_.
              ret updated)))) s of
           (Inr updated, s1) \<Rightarrow> (Inr updated, s1)
         | (Inl e, s1) \<Rightarrow>
             fail_creation E (paId p) actor ip device (error_message e) ''PaymentNotCreated'' s1))"

definition create_payment ::
    "pay_deps \<Rightarrow> env \<Rightarrow> payment_request \<Rightarrow> string option \<Rightarrow> json \<Rightarrow> (db, error, payment_row) step" where
  "create_payment D E r ip device =
     andThen (reserve_attempt D E r None) (\<lambda>(p, alreadyResolved).
     if alreadyResolved then ret p
     else submit_to_provider D E p (rqActor r) ip device (ret ()))"

definition schedule_payment ::
    "pay_deps \<Rightarrow> env \<Rightarrow> payment_request \<Rightarrow> payment_status \<Rightarrow> (db, error, payment_row) step" where
  "schedule_payment D E r initial =
     andThen (reserve_attempt D E r (Some initial)) (\<lambda>(p, _). ret p)"

definition submit_pending ::
    "pay_deps \<Rightarrow> env \<Rightarrow> uuid \<Rightarrow> uuid \<Rightarrow> string option \<Rightarrow> json \<Rightarrow> (db, error, unit) step \<Rightarrow>
     (db, error, payment_row) step" where
  "submit_pending D E i actor ip device finalGuard s =
     (case get_authorized_record D i actor PayerOnly s of
        Inl e \<Rightarrow> (Inl e, s)
      | Inr p \<Rightarrow>
          (if paStatus p \<noteq> PScheduled then (Inl (ValidationError ''OnlyScheduled''), s)
           else andThen (update_status E (paId p) PSubmitted no_fields) (\<lambda>submitted.
             submit_to_provider D E submitted actor ip device finalGuard) s))"

definition cancel_payment ::
    "pay_deps \<Rightarrow> env \<Rightarrow> uuid \<Rightarrow> uuid \<Rightarrow> (db, error, payment_row) step" where
  "cancel_payment D E i actor s =
     (case get_authorized_record D i actor PayerOrRecipient s of
        Inl e \<Rightarrow> (Inl e, s)
      | Inr p \<Rightarrow>
          (if paStatus p \<noteq> PPending \<and> paStatus p \<noteq> PScheduled
           then (Inl (ValidationError ''OnlyPendingOrScheduled''), s)
           else case (if paStatus p = PScheduled then Inr True
                      else providerCancel D (case paProviderId p of None \<Rightarrow> [] | Some x \<Rightarrow> x)) of
             Inl e \<Rightarrow> (Inl e, s)
           | Inr permitted \<Rightarrow>
               (if \<not> permitted then (Inl (ValidationError ''CancellationRefused''), s)
                else andThen (update_status E (paId p) PCanceled no_fields) (\<lambda>updated.
                  andThen (update (record_payment_audit E updated ''payment_canceled'' (Some actor) None JNull))
                    (\<lambda>_. ret updated)) s)))"

definition refund_payment ::
    "pay_deps \<Rightarrow> env \<Rightarrow> uuid \<Rightarrow> uuid \<Rightarrow> (db, error, payment_row) step" where
  "refund_payment D E i actor s =
     (case get_authorized_record D i actor RecipientOnly s of
        Inl e \<Rightarrow> (Inl e, s)
      | Inr p \<Rightarrow>
          (if paStatus p \<noteq> PSucceeded then (Inl (ValidationError ''OnlySucceeded''), s)
           else case paProviderId p of
             None \<Rightarrow> (Inl (ConfigurationError ''missingProviderPaymentId''), s)
           | Some pid \<Rightarrow>
               (if pid = [] then (Inl (ConfigurationError ''missingProviderPaymentId''), s)
                else case providerRefund D pid of
                  Some e \<Rightarrow> (Inl e, s)
                | None \<Rightarrow>
                    andThen (update_status E (paId p) PRefunded no_fields) (\<lambda>updated.
                    andThen (update (record_payment_audit E updated ''payment_refunded'' (Some actor) None JNull))
                      (\<lambda>_. ret updated)) s)))"

record manual_request =
  mrKey :: string
  mrAgreement :: uuid
  mrAmount :: int
  mrActor :: uuid
  mrInstallment :: "uuid option"
  mrSettlement :: "uuid option"

definition matches_manual_request ::
    "payment_row \<Rightarrow> manual_request \<Rightarrow> profile_ref \<Rightarrow> profile_ref \<Rightarrow> bool" where
  "matches_manual_request p r creditor debtor \<longleftrightarrow>
     paMethod p = Some ManualOffPlatform \<and> paAgreement p = Some (mrAgreement r) \<and>
     paAmount p = mrAmount r \<and> paInstallment p = mrInstallment r \<and>
     paSettlement p = mrSettlement r \<and> paRecordedBy p = Some (mrActor r) \<and>
     paPayer p = debtor \<and> paRecipient p = creditor"

definition manual_request_checks ::
    "pay_deps \<Rightarrow> manual_request \<Rightarrow> uuid option \<Rightarrow> db \<Rightarrow> error + uuid option" where
  "manual_request_checks D r debtorOwner s =
     (if debtorOwner \<noteq> Some (mrActor r) then Inl (ForbiddenError ''BorrowerOnly'')
      else if \<not> safe_int (mrAmount r) \<or> mrAmount r \<le> 0 then Inl (ValidationError ''amountMinorUnits'')
      else case assert_not_overpaying (mrAgreement r) (mrAmount r) s of
        Some e \<Rightarrow> Inl e
      | None \<Rightarrow>
     (case assert_installment_linkage D (mrAgreement r) (mrInstallment r) (mrSettlement r) s of
        Some e \<Rightarrow> Inl e
      | None \<Rightarrow> verified_settlement D (Some (mrAgreement r)) (mrSettlement r) s))"

text \<open>\<open>recordManualOffPlatformPayment\<close> with the atomic poster: after the posting come the installment
  hook, the completion check and the audit row.\<close>

definition record_manual_payment ::
    "pay_deps \<Rightarrow> env \<Rightarrow> manual_request \<Rightarrow> (db, error, payment_row) step" where
  "record_manual_payment D E r s =
     (case get_parties (mrAgreement r) s of
        None \<Rightarrow> (Inl (ValidationError ''AgreementNotFound''), s)
      | Some (creditor, debtor) \<Rightarrow>
     (case find_by_idempotency_key (mrKey r) s of
        Some existing \<Rightarrow>
          (if \<not> matches_manual_request existing r creditor debtor
           then (Inl (ValidationError ''IdempotencyKeyReused''), s)
           else if ownerOf D debtor \<noteq> Some (mrActor r) then (Inl (ForbiddenError ''BorrowerOnly''), s)
           else (Inr existing, s))
      | None \<Rightarrow>
     (case manual_request_checks D r (ownerOf D debtor) s of
        Inl e \<Rightarrow> (Inl e, s)
      | Inr settlement \<Rightarrow>
     (case post_manual_payment_atomically E \<lparr>maKey = mrKey r, maAgreement = mrAgreement r,
         maPayer = debtor, maRecipient = creditor, maAmount = mrAmount r, maCurrency = ''USD'',
         maRecordedBy = mrActor r, maInstallment = mrInstallment r, maSettlement = settlement\<rparr> s of
        (Inl e, s1) \<Rightarrow>
          (case find_by_idempotency_key (mrKey r) s1 of
             Some raced \<Rightarrow>
               (if matches_manual_request raced r creditor debtor then (Inr raced, s1)
                else (Inl (ValidationError ''IdempotencyKeyReused''), s1))
           | None \<Rightarrow> (Inl e, s1))
      | (Inr p, s1) \<Rightarrow>
          andThen (installmentHook D p) (\<lambda>_.
          andThen (update (check_and_advance True True E (mrAgreement r))) (\<lambda>_.
          andThen (update (record_payment_audit E p ''manual_payment_recorded'' (Some (mrActor r)) None JNull))
            (\<lambda>_. ret p))) s1))))"

definition confirm_manual_payment ::
    "pay_deps \<Rightarrow> env \<Rightarrow> uuid \<Rightarrow> uuid \<Rightarrow> (db, error, payment_row) step" where
  "confirm_manual_payment D E i actor s =
     (case find_payment i s of
        None \<Rightarrow> (Inl (ValidationError ''PaymentNotFound''), s)
      | Some p \<Rightarrow>
          (if paMethod p \<noteq> Some ManualOffPlatform then (Inl (ValidationError ''OnlyManual''), s)
           else if ownerOf D (paRecipient p) \<noteq> Some actor then (Inl (ForbiddenError ''RecipientOnly''), s)
           else if paConfirmedAt p \<noteq> None then (Inr p, s)
           else andThen (repo_confirm_manual_payment E (paId p) (clock E)) (\<lambda>updated.
             andThen (update (record_payment_audit E updated ''manual_payment_confirmed'' (Some actor) None JNull))
               (\<lambda>_. ret updated)) s))"

end
