(* ===== verification/Collection.thy ===== *)
theory Collection
  imports Payments
begin

text \<open>
  No installment is collected twice: the invariant that ties the reservation guards of
  \<open>Payments\<close> and \<open>Completion\<close>, the payment states and the ledger together. The exposure of an
  installment is what its payments have settled plus what its open attempts may still settle; every
  step of the payment paths keeps it within the installment's amount, the one exception being a
  status written after a stale read that brings a closed payment back, and that exception is real.
\<close>

section \<open>Exposure\<close>

definition open_attempt :: "db \<Rightarrow> payment_row \<Rightarrow> bool" where
  "open_attempt s p \<longleftrightarrow> unresolved (paStatus p) \<or>
     (paStatus p = PSucceeded \<and> \<not> has_entry s (paId p) PaymentCleared)"

definition open_amount :: "uuid \<Rightarrow> db \<Rightarrow> int" where
  "open_amount inst s =
     sum_list (map (\<lambda>p. if paInstallment p = Some inst \<and> open_attempt s p then paAmount p else 0)
       (payments s))"

definition exposure :: "uuid \<Rightarrow> db \<Rightarrow> int" where
  "exposure inst s = total_paid (installment_entries inst s) + open_amount inst s"

definition known_payments :: "db \<Rightarrow> bool" where
  "known_payments s \<longleftrightarrow> distinct (map paId (payments s)) \<and>
     list_all (\<lambda>p. paId p < nextId s \<and> 0 < paAmount p) (payments s) \<and>
     list_all (\<lambda>e. jePayment e < nextId s) (entries s)"

definition within_ceiling :: "db \<Rightarrow> bool" where
  "within_ceiling s \<longleftrightarrow>
     list_all (\<lambda>i. int4_ok (inAmount i) \<and> exposure (inId i) s \<le> inAmount i) (installments s)"

definition collect_ok :: "db \<Rightarrow> bool" where
  "collect_ok s \<longleftrightarrow> ledger_ok s \<and> backed s \<and> known_payments s \<and>
     distinct (map inId (installments s)) \<and> within_ceiling s"

section \<open>Exact remaining amounts\<close>

lemma fold_paid:
  assumes "\<forall>(k, es) \<in> set m. positive_entries es" and "0 \<le> a"
    and "a + group_total paid_value m \<le> max_safe"
  shows "fst (foldl (\<lambda>(paid, revd) (_, out, n).
       if out = OutcomeReversed then (paid, js_add revd n) else (js_add paid n, revd)) (a, b)
       (List.map_filter (\<lambda>(pay, pes). map_option (Pair pay) (classify_one pes)) m))
     = a + group_total paid_value m"
  using assms
proof (induction m arbitrary: a b)
  case Nil
  then show ?case by (simp add: group_total_def List.map_filter_def)
next
  case (Cons km m)
  obtain k es where km: "km = (k, es)" by (cases km)
  have rest: "\<forall>(k, es) \<in> set m. positive_entries es" "positive_entries es"
    using Cons.prems(1) km by auto
  have nn: "0 \<le> group_total paid_value m"
    unfolding group_total_def by (rule sum_list_nonneg_int) (use rest(1) value_nonneg in auto)
  have g: "group_total paid_value ((k, es) # m) = paid_value es + group_total paid_value m"
    by (simp add: group_total_def)
  note prems = Cons.prems [unfolded km g]
  show ?case
  proof (cases "classify_one es")
    case None
    then have "paid_value es = 0" by (simp add: paid_value_def)
    then show ?thesis using Cons.IH [OF rest(1) prems(2)] prems(3) None by (simp add: g km)
  next
    case (Some on)
    obtain out n where on: "on = (out, n)" by (cases on)
    have n: "0 < n" using classify_one_positive rest(2) Some on by blast
    show ?thesis
    proof (cases out)
      case OutcomePaid
      have v: "paid_value es = n" using Some on OutcomePaid by (simp add: paid_value_def)
      have "js_add a n = a + n"
        using prems(2,3) n nn v by (intro js_add_exact) (simp add: safe_int_def)
      then show ?thesis using Cons.IH [OF rest(1), of "a + n" b] prems n v Some on OutcomePaid
        by (simp add: g km)
    next
      case OutcomeReversed
      have v: "paid_value es = 0" using Some on OutcomeReversed by (simp add: paid_value_def)
      then show ?thesis using Cons.IH [OF rest(1) prems(2), of "js_add b n"] prems Some on OutcomeReversed
        by (simp add: g km)
    qed
  qed
qed

lemma reconstruct_paid_exact:
  assumes "positive_entries es" and "total_paid es \<le> max_safe"
  shows "fst (reconstruct_paid_and_reversed es) = total_paid es"
  using fold_paid [of "by_payment es" 0 0] assms by_payment_positive [OF assms(1)]
  by (auto simp: reconstruct_paid_and_reversed_def classify_payment_attempts_def total_paid_def)

lemma installment_entries_filter:
  "installment_entries inst s =
     filter (\<lambda>e. \<exists>p \<in> set (payments s). paInstallment p = Some inst \<and> paId p = jePayment e) (entries s)"
proof -
  have "(jePayment e \<in> set (map paId (filter (\<lambda>p. paInstallment p = Some inst) (payments s)))) =
      (\<exists>p \<in> set (payments s). paInstallment p = Some inst \<and> paId p = jePayment e)"
    for e :: journal_entry
    by (auto simp: image_iff)
  then show ?thesis
    by (auto simp: installment_entries_def Let_def filter_empty_conv intro!: filter_cong)
qed

lemma installment_entries_positive: "ledger_ok s \<Longrightarrow> positive_entries (installment_entries inst s)"
  unfolding installment_entries_filter by (rule ledger_ok_positive)

lemma open_amount_nonneg: "known_payments s \<Longrightarrow> 0 \<le> open_amount inst s"
  unfolding open_amount_def
  by (rule sum_list_nonneg_int) (auto simp: known_payments_def list_all_iff)

lemma remaining_exact:
  assumes "collect_ok s" and "find_installment inst s = Some i"
  shows "installment_settlement_tx inst s = Some (compute_installment_settlement inst (inAmount i)
      (installment_entries inst s), inDueDate i, inStatus i) \<and>
    ssRemaining (compute_installment_settlement inst (inAmount i) (installment_entries inst s))
      = inAmount i - total_paid (installment_entries inst s)"
proof -
  have i: "i \<in> set (installments s)" "inId i = inst"
    using assms(2) by (auto dest: lookup_by_Some_mem lookup_by_Some_key)
  have pos: "positive_entries (installment_entries inst s)"
    using assms(1) installment_entries_positive by (simp add: collect_ok_def)
  have b: "0 \<le> total_paid (installment_entries inst s)"
    "total_paid (installment_entries inst s) \<le> inAmount i" "int4_ok (inAmount i)"
    using total_paid_nonneg [OF pos] assms(1) i open_amount_nonneg [of s inst]
    by (auto simp: collect_ok_def within_ceiling_def list_all_iff exposure_def)
  have safe: "total_paid (installment_entries inst s) \<le> max_safe"
    "safe_int (inAmount i - total_paid (installment_entries inst s))"
    using b by (auto simp: int4_ok_def max_safe_def safe_int_def)
  show ?thesis
    using reconstruct_paid_exact [OF pos safe(1)] js_sub_exact [OF safe(2)] assms(2)
    by (simp add: installment_settlement_tx_def compute_installment_settlement_def Let_def)
qed

section \<open>Reservation\<close>

lemma sum_list_zero: "(\<And>x. x \<in> set xs \<Longrightarrow> f x = 0) \<Longrightarrow> sum_list (map f xs) = (0 :: int)"
  by (induction xs) auto

lemma has_entry_fresh:
  "known_payments s \<Longrightarrow> \<not> has_entry s (nextId s) ty"
  by (auto simp: known_payments_def has_entry_def list_all_iff list_ex_iff)

lemma installment_entries_new_payment:
  assumes "known_payments s" and "paId p = nextId s"
  shows "installment_entries inst (s\<lparr>payments := payments s @ [p], nextId := n\<rparr>)
    = installment_entries inst s"
  unfolding installment_entries_filter
  using assms by (auto simp: known_payments_def list_all_iff intro!: filter_cong)

lemma open_attempt_cong: "entries s' = entries s \<Longrightarrow> open_attempt s' p = open_attempt s p"
  by (simp add: open_attempt_def has_entry_def)

lemma open_amount_new_payment:
  "open_amount inst (s\<lparr>payments := payments s @ [p], nextId := n\<rparr>) =
     open_amount inst s + (if paInstallment p = Some inst \<and> open_attempt s p then paAmount p else 0)"
  by (simp add: open_amount_def open_attempt_def has_entry_def)

lemma open_amount_zero:
  assumes "assert_no_competing_attempt inst key None s = None"
    and "find_by_idempotency_key key s = None"
  shows "open_amount inst s = 0"
proof -
  have k: "paKey p \<noteq> key" if "p \<in> set (payments s)" for p
    using assms(2) that by (auto simp: find_by_idempotency_key_def lookup_by_None_iff)
  have "\<not> (paInstallment p = Some inst \<and> open_attempt s p)" if "p \<in> set (payments s)" for p
    using assms(1) that k [OF that]
    by (auto simp: assert_no_competing_attempt_def competing_def open_attempt_def has_entry_def
        list_ex_iff split: if_splits)
  then show ?thesis unfolding open_amount_def by (intro sum_list_zero) auto
qed

lemma insert_pending_keeps:
  assumes "collect_ok s" and "insert_pending E inp s = (Inr p, s')"
    and "\<And>i inst. piInstallment inp = Some inst \<Longrightarrow> find_installment inst s = Some i \<Longrightarrow>
      exposure inst s + piAmount inp \<le> inAmount i"
  shows "collect_ok s' \<and> find_payment (paId p) s' = Some p \<and> p = pending_row E (nextId s) inp \<and>
    payments s' = payments s @ [p] \<and> entries s' = entries s \<and> accounts s' = accounts s"
proof -
  have s': "s' = s\<lparr>payments := payments s @ [p], nextId := Suc (nextId s)\<rparr>"
    and p: "p = pending_row E (nextId s) inp" and n: "0 < piAmount inp"
    using assms(2) by (auto simp: insert_pending_def Let_def split: if_splits)
  have ps: "paId p = nextId s" "paAmount p = piAmount inp" "paInstallment p = piInstallment inp"
    by (simp_all add: p pending_row_def)
  have ok: "ledger_ok s'" "backed s'" using assms(1) ledger_ok_cong [of s' s]
    by (simp_all add: s' collect_ok_def backed_def)
  have known: "known_payments s'"
    using assms(1) n ps by (auto simp: s' collect_ok_def known_payments_def list_all_iff less_SucI)
  have "exposure (inId i) s' \<le> inAmount i \<and> int4_ok (inAmount i)" if i: "i \<in> set (installments s)" for i
  proof -
    have old: "exposure (inId i) s \<le> inAmount i" "int4_ok (inAmount i)"
      using assms(1) i by (auto simp: collect_ok_def within_ceiling_def list_all_iff)
    have f: "find_installment (inId i) s = Some i"
      using assms(1) i by (intro lookup_by_distinct) (auto simp: collect_ok_def)
    have "exposure (inId i) s' = exposure (inId i) s +
        (if paInstallment p = Some (inId i) \<and> open_attempt s p then paAmount p else 0)"
      using installment_entries_new_payment [OF _ ps(1)] assms(1)
      by (simp add: exposure_def s' open_amount_new_payment collect_ok_def)
    then show ?thesis using old assms(3) [OF _ f] ps by auto
  qed
  then have "within_ceiling s'" by (auto simp: within_ceiling_def list_all_iff s')
  moreover have "find_payment (paId p) s' = Some p"
    using lookup_by_distinct [of paId "payments s'" p] known by (simp add: known_payments_def s')
  ultimately show ?thesis using ok known assms(1) p by (simp add: collect_ok_def s')
qed

lemma reserve_keeps:
  assumes "collect_ok s" and "reserve_within_ceiling E inp ag inst s = (Inr p, s')"
    and "piInstallment inp = Some inst"
  shows "collect_ok s'"
proof -
  obtain i where i: "find_installment inst s = Some i"
    using assms(2) by (cases "find_installment inst s") (auto simp: reserve_within_ceiling_def split: if_splits)
  note r = remaining_exact [OF assms(1) i]
  have c: "assert_no_competing_attempt inst (piKey inp) None s = None"
    "piAmount inp \<le> inAmount i - total_paid (installment_entries inst s)"
    "insert_pending E inp s = (Inr p, s')"
    using assms(2) r by (auto simp: reserve_within_ceiling_def split: if_splits option.splits)
  then have "find_by_idempotency_key (piKey inp) s = None"
    by (auto simp: insert_pending_def split: if_splits)
  then have "open_amount inst s = 0" using open_amount_zero [OF c(1)] by blast
  then have "exposure inst s + piAmount inp \<le> inAmount i" using c(2) by (simp add: exposure_def)
  then show ?thesis
    using insert_pending_keeps [OF assms(1) c(3)] assms(3) i by auto
qed

section \<open>Posting\<close>

lemma paid_value_bound:
  assumes "positive_entries es" and "\<And>c. clear_of (es @ [e]) = Some c \<Longrightarrow> opens_with_gross c"
    and "jeType e = PaymentCleared \<Longrightarrow> clear_of es = None"
  shows "paid_value (es @ [e]) \<le> paid_value es +
    (if jeType e = PaymentCleared then max 0 (debits (jePostings e)) else 0)"
proof (cases "clear_of es")
  case None
  show ?thesis
  proof (cases "jeType e = PaymentCleared")
    case True
    then have "clear_of (es @ [e]) = Some e" using None by (simp add: find_append)
    then show ?thesis using paid_value_clear assms(2) None True by (auto simp: paid_value_no_clear)
  next
    case False
    then show ?thesis using None by (simp add: paid_value_no_clear find_append)
  qed
next
  case (Some c)
  then have ne: "jeType e \<noteq> PaymentCleared" using assms(3) by auto
  have c: "clear_of (es @ [e]) = Some c" using Some by (simp add: find_append)
  show ?thesis using paid_value_clear [OF Some] paid_value_clear [OF c] assms(2) [OF c] ne
      value_nonneg(1) [OF assms(1)] by (auto split: if_splits)
qed

lemma sum_list_drop_one:
  fixes f g :: "'a \<Rightarrow> int"
  assumes "distinct (map key xs)" and "x \<in> set xs" and "g x = 0"
    and "\<And>y. y \<in> set xs \<Longrightarrow> key y \<noteq> key x \<Longrightarrow> g y \<le> f y"
  shows "sum_list (map g xs) \<le> sum_list (map f xs) - f x"
  using assms
proof (induction xs)
  case (Cons y xs)
  show ?case
  proof (cases "y = x")
    case True
    have "sum_list (map g xs) \<le> sum_list (map f xs)"
      by (rule sum_list_mono) (use Cons.prems True in \<open>auto simp: image_iff\<close>)
    then show ?thesis using True Cons.prems(3) by simp
  next
    case False
    then have "x \<in> set xs" "key y \<noteq> key x" using Cons.prems by (auto simp: image_iff)
    then show ?thesis using Cons.IH Cons.prems(1,3) Cons.prems(4) [of y] Cons.prems(4) by fastforce
  qed
qed simp

text \<open>A new entry of a payment: a clearing entry only for a payment that stands uncleared, for
  exactly its amount.\<close>

lemma new_entry_keeps:
  assumes "collect_ok s" and "only_ledger_grew s s'" and "ledger_ok s'" and "backed s'"
    and "entries s' = entries s @ [e]" and "jePayment e < nextId s"
    and "jeType e = PaymentCleared \<Longrightarrow> \<exists>p. find_payment (jePayment e) s = Some p \<and>
      paStatus p = PSucceeded \<and> debits (jePostings e) = paAmount p \<and>
      journal_lookup (jePayment e, PaymentCleared) s = None"
  shows "collect_ok s'"
proof -
  have tables: "payments s' = payments s" "installments s' = installments s" "nextId s \<le> nextId s'"
    using assms(2) by (simp_all add: only_ledger_grew_def)
  have known: "known_payments s'"
    using assms(1,5,6) tables
    by (auto simp: collect_ok_def known_payments_def list_all_iff intro: less_le_trans)
  have he: "has_entry s' q ty \<longleftrightarrow> has_entry s q ty \<or> (q = jePayment e \<and> ty = jeType e)" for q ty
    by (auto simp: has_entry_def assms(5))
  have "exposure inst s' \<le> exposure inst s" for inst
  proof -
    let ?P = "\<lambda>e. \<exists>p \<in> set (payments s). paInstallment p = Some inst \<and> paId p = jePayment e"
    let ?es = "installment_entries inst s"
    have ie: "installment_entries inst s' = ?es @ (if ?P e then [e] else [])"
      by (simp add: installment_entries_filter tables assms(5))
    show ?thesis
    proof (cases "?P e")
      case False
      have "open_amount inst s' \<le> open_amount inst s"
        unfolding open_amount_def tables
        by (rule sum_list_mono) (use assms(1) he in \<open>auto simp: open_attempt_def collect_ok_def
            known_payments_def list_all_iff less_imp_le\<close>)
      then show ?thesis using ie False by (simp add: exposure_def)
    next
      case True
      then obtain p where p: "p \<in> set (payments s)" "paInstallment p = Some inst" "paId p = jePayment e"
        by blast
      have fp: "find_payment (jePayment e) s = Some p"
        using lookup_by_distinct [of paId "payments s" p] p assms(1)
        by (simp add: collect_ok_def known_payments_def)
      let ?pes = "entries_of (jePayment e) ?es"
      have pos: "positive_entries ?pes"
        using ledger_ok_positive assms(1)
        by (simp add: installment_entries_filter collect_ok_def)
      have opens: "opens_with_gross c" if "clear_of (?pes @ [e]) = Some c" for c
      proof -
        have "c \<in> set (entries s') \<and> jeType c = PaymentCleared"
          using that assms(5) by (auto simp: find_Some_iff nth_append installment_entries_filter
              split: if_splits dest!: nth_mem)
        then show ?thesis using backed_open [OF assms(4)] by blast
      qed
      have first: "clear_of ?pes = None" if "jeType e = PaymentCleared"
        using assms(7) [OF that] by (auto simp: find_None_iff journal_lookup_None
            installment_entries_filter)
      have delta: "total_paid (?es @ [e]) \<le> total_paid ?es +
          (if jeType e = PaymentCleared then max 0 (debits (jePostings e)) else 0)"
        using total_paid_snoc [of ?es e] paid_value_bound [of ?pes e, OF pos opens first] by simp
      show ?thesis
      proof (cases "jeType e = PaymentCleared")
        case False
        have "open_amount inst s' = open_amount inst s"
          using False by (simp add: open_amount_def tables open_attempt_def he)
        then show ?thesis using ie True delta False by (simp add: exposure_def)
      next
        case clear: True
        have st: "paStatus p = PSucceeded" "debits (jePostings e) = paAmount p"
          "\<not> has_entry s (paId p) PaymentCleared"
          using assms(7) [OF clear] fp p(3) by (auto simp: journal_lookup_None has_entry_def list_ex_iff)
        have "open_amount inst s' \<le> open_amount inst s -
            (if paInstallment p = Some inst \<and> open_attempt s p then paAmount p else 0)"
          unfolding open_amount_def tables
          by (rule sum_list_drop_one [where key = paId])
            (use assms(1) p st he clear in \<open>auto simp: open_attempt_def collect_ok_def
              known_payments_def list_all_iff unresolved_def less_imp_le\<close>)
        then have "open_amount inst s' \<le> open_amount inst s - paAmount p"
          using p(2) st by (simp add: open_attempt_def)
        moreover have "0 < paAmount p"
          using assms(1) p(1) by (auto simp: collect_ok_def known_payments_def list_all_iff)
        ultimately show ?thesis using ie True delta clear st(2) by (simp add: exposure_def)
      qed
    qed
  qed
  then have "within_ceiling s'"
    using assms(1) tables by (force simp: collect_ok_def within_ceiling_def list_all_iff intro: order_trans)
  then show ?thesis using assms(1,3,4) known tables by (simp add: collect_ok_def)
qed

lemma same_entries_keeps:
  assumes "collect_ok s" and "only_ledger_grew s s'" and "ledger_ok s'" and "entries s' = entries s"
  shows "collect_ok s'"
proof -
  have tables: "payments s' = payments s" "installments s' = installments s" "nextId s \<le> nextId s'"
    using assms(2) by (simp_all add: only_ledger_grew_def)
  have "exposure inst s' = exposure inst s" for inst
    by (simp add: exposure_def installment_entries_filter open_amount_def open_attempt_def
        has_entry_def tables assms(4))
  then show ?thesis using assms tables
    by (auto simp: collect_ok_def backed_def within_ceiling_def known_payments_def list_all_iff
        intro: less_le_trans)
qed

definition posting_request_ok :: "ledger_op \<Rightarrow> db \<Rightarrow> bool" where
  "posting_request_ok op s \<longleftrightarrow> typed_op op \<and>
     (case find_payment (fst (op_key op)) s of
        None \<Rightarrow> False
      | Some p \<Rightarrow> (case op of PostCleared i \<Rightarrow> paStatus p = PSucceeded \<and> ciGross i = paAmount p
                   | _ \<Rightarrow> True))"

lemma posting_keeps:
  assumes "collect_ok s" and "posting_request_ok op s"
  shows "collect_ok (snd (run_op E op s))"
proof -
  have ok: "ledger_ok s" "backed s" using assms(1) by (simp_all add: collect_ok_def)
  have ty: "typed_op op" using assms(2) by (simp add: posting_request_ok_def)
  obtain p where p: "find_payment (fst (op_key op)) s = Some p"
    using assms(2) by (auto simp: posting_request_ok_def split: option.splits)
  have post: "posts (op_key op) s (run_op E op s)" by (rule run_op_posts [OF ok(1)])
  note g = postsD [OF post]
  show ?thesis
  proof (cases "entries (snd (run_op E op s)) = entries s")
    case True
    then show ?thesis using same_entries_keeps [OF assms(1) g] by blast
  next
    case False
    then obtain e where e: "run_op E op s = (Inr e, snd (run_op E op s))"
        "journal_lookup (op_key op) s = None"
      using post by (cases "run_op E op s") (auto simp: posts_def split: sum.splits option.splits)
    note n = new_entry_props [OF ok(1) ty e]
    have "paId p < nextId s" "paId p = fst (op_key op)"
      using p assms(1) by (auto simp: collect_ok_def known_payments_def list_all_iff
          dest: lookup_by_Some_mem lookup_by_Some_key)
    then have id: "jePayment e < nextId s" "fst (op_key op) = jePayment e" using n by (metis fst_conv)+
    show ?thesis
    proof (rule new_entry_keeps [OF assms(1) g backed_new [OF ok(1) ty ok(2)] _ id(1)])
      show "entries (snd (run_op E op s)) = entries s @ [e]" using n by blast
      assume clear: "jeType e = PaymentCleared"
      then obtain i where op: "op = PostCleared i"
        using n ty by (cases op) (auto simp: typed_op_def automatic_reversal_def)
      have "debits (jePostings e) = ciGross i"
        by (cases rule: post_payment_cleared_cases [OF refl refl refl refl ok(1), of i, where E = E])
          (use e op cleared_legs_open in auto)
      then show "\<exists>p. find_payment (jePayment e) s = Some p \<and> paStatus p = PSucceeded \<and>
          debits (jePostings e) = paAmount p \<and> journal_lookup (jePayment e, PaymentCleared) s = None"
        using assms(2) p id(2) op e(2) by (auto simp: posting_request_ok_def)
    qed
  qed
qed

section \<open>Status changes\<close>

text \<open>A status write that cannot raise the exposure: an open attempt goes anywhere, any other payment
  stays as it is or is closed.\<close>

definition may_move :: "payment_status \<Rightarrow> payment_status \<Rightarrow> bool" where
  "may_move a b \<longleftrightarrow> unresolved a \<or> settled_status b \<or> a = b"

lemma legal_may_move: "legal_step a b \<Longrightarrow> may_move a b"
  by (auto simp: legal_step_table may_move_def settled_status_def unresolved_def)

lemma move_keeps:
  assumes "collect_ok s" and "find_payment i s = Some p" and "may_move (paStatus p) st"
  shows "collect_ok (set_payment i (with_status E st f) s)"
proof -
  let ?s = "set_payment i (with_status E st f) s"
  have d: "distinct (map paId (payments s))" using assms(1) by (simp add: collect_ok_def known_payments_def)
  have uniq: "q = p" if "q \<in> set (payments s)" "paId q = i" for q
    using lookup_by_distinct [OF d that(1)] assms(2) that(2) by simp
  have ids: "map paId (payments ?s) = map paId (payments s)" by (simp add: map_key_update_by)
  have known: "known_payments ?s"
    using assms(1) ids by (auto simp: collect_ok_def known_payments_def list_all_iff dest!: set_update_by)
  have he: "has_entry ?s q ty = has_entry s q ty" for q ty by (simp add: has_entry_def)
  have ex: "exposure inst ?s \<le> exposure inst s" for inst
  proof -
    have "(\<exists>q \<in> set (payments ?s). paInstallment q = Some inst \<and> paId q = n) =
        (\<exists>q \<in> set (payments s). paInstallment q = Some inst \<and> paId q = n)" for n
      unfolding set_payment_frame update_by_def set_map bex_simps(7) by (intro bex_cong) auto
    then have ie: "installment_entries inst ?s = installment_entries inst s"
      by (simp only: installment_entries_filter set_payment_frame)
    have "open_amount inst ?s \<le> open_amount inst s"
    proof -
      have "(if paInstallment q' = Some inst \<and> open_attempt ?s q' then paAmount q' else 0)
          \<le> (if paInstallment q = Some inst \<and> open_attempt s q then paAmount q else 0)"
        if q: "q \<in> set (payments s)" "q' = (if paId q = i then with_status E st f q else q)" for q q'
        using uniq q assms(1,3)
        by (auto simp: open_attempt_def he may_move_def settled_status_def collect_ok_def
            known_payments_def list_all_iff less_imp_le)
      then show ?thesis
        unfolding open_amount_def set_payment_frame update_by_def map_map comp_def
        by (intro sum_list_mono) auto
    qed
    then show ?thesis using ie by (simp add: exposure_def)
  qed
  have "within_ceiling ?s"
    using assms(1) ex by (force simp: collect_ok_def within_ceiling_def list_all_iff intro: order_trans)
  then show ?thesis using assms(1) known ledger_ok_cong [of ?s s]
    by (simp add: collect_ok_def backed_def)
qed

lemma collect_ok_webhook: "collect_ok (set_webhook i f s) = collect_ok s"
proof -
  have "exposure inst (set_webhook i f s) = exposure inst s" for inst
    by (simp add: exposure_def installment_entries_filter open_amount_def open_attempt_def has_entry_def)
  then show ?thesis using ledger_ok_cong [of "set_webhook i f s" s]
    by (simp add: collect_ok_def backed_def within_ceiling_def known_payments_def)
qed

lemma transition_keeps:
  assumes "collect_ok s"
  shows "collect_ok (snd (apply_transition E pay ev t st f (allowed_sources st) s))"
  using assms move_keeps [OF assms, of pay _ st] legal_may_move
  by (auto simp: apply_transition_def collect_ok_webhook legal_step_def split: option.split)

section \<open>Manual payments\<close>

lemma manual_keeps:
  assumes "collect_ok s"
  shows "collect_ok (snd (post_manual_payment_atomically E m s))"
proof (cases "\<exists>p s'. post_manual_payment_atomically E m s = (Inr p, s')")
  case False
  then have "snd (post_manual_payment_atomically E m s) = s"
    by (auto simp: post_manual_payment_atomically_def split: option.splits prod.splits sum.splits)
  then show ?thesis using assms by simp
next
  case True
  then obtain p s' where r: "post_manual_payment_atomically E m s = (Inr p, s')" by blast
  have mc: "manual_checks m s = None"
    using r by (auto simp: post_manual_payment_atomically_def split: option.splits)
  obtain s1 where i: "insert_pending E (manual_pending m) s = (Inr p, s1)"
    using r mc by (auto simp: post_manual_payment_atomically_def split: prod.splits sum.splits)
  have room: "exposure inst s + maAmount m \<le> inAmount j"
    if "maInstallment m = Some inst" "find_installment inst s = Some j" for inst j
  proof -
    have c: "assert_no_competing_attempt inst (maKey m) None s = None"
      "maAmount m \<le> inAmount j - total_paid (installment_entries inst s)"
      using mc that remaining_exact [OF assms that(2)]
      by (auto simp: manual_checks_def split: option.splits if_splits)
    have "find_by_idempotency_key (maKey m) s = None"
      using i by (auto simp: insert_pending_def manual_pending_def split: if_splits)
    then show ?thesis using open_amount_zero [OF c(1)] c(2) by (simp add: exposure_def)
  qed
  have s1: "collect_ok s1" "find_payment (paId p) s1 = Some p" "entries s1 = entries s"
    "p = pending_row E (nextId s) (manual_pending m)"
  proof -
    have "collect_ok s1 \<and> find_payment (paId p) s1 = Some p \<and>
        p = pending_row E (nextId s) (manual_pending m) \<and> payments s1 = payments s @ [p] \<and>
        entries s1 = entries s \<and> accounts s1 = accounts s"
      by (rule insert_pending_keeps [OF assms i]) (use room in \<open>simp add: manual_pending_def\<close>)
    then show "collect_ok s1" "find_payment (paId p) s1 = Some p" "entries s1 = entries s"
      "p = pending_row E (nextId s) (manual_pending m)" by blast+
  qed
  have p: "paStatus p = PSucceeded" "paAmount p = maAmount m" "paId p = nextId s"
    by (simp_all add: s1(4) pending_row_def manual_pending_def)
  have n: "0 < maAmount m" "int4_ok (maAmount m)"
    using i by (auto simp: insert_pending_def manual_pending_def split: if_splits)
  obtain a s2 where 2: "find_or_create_account ProcessorClearing (maAgreement m) s1 = (a, s2)" by fastforce
  obtain b s3 where 3: "find_or_create_account CreditorProceedsPayable (maAgreement m) s2 = (b, s3)"
    by fastforce
  define inp where "inp = \<lparr>eiType = PaymentCleared, eiAgreement = maAgreement m, eiPayment = paId p,
     eiCurrency = maCurrency m, eiReason = None,
     eiPostings = [\<lparr>poAccount = a, poType = ProcessorClearing, poDirection = Debit,
        poAmount = maAmount m\<rparr>, \<lparr>poAccount = b, poType = CreditorProceedsPayable,
        poDirection = Credit, poAmount = maAmount m\<rparr>]\<rparr>"
  have l1: "ledger_ok s1" using s1(1) by (simp add: collect_ok_def)
  note p2 = find_or_create_account_props [OF 2 l1, of "maAmount m" Debit]
  then have p3: "only_ledger_grew s2 s3 \<and> entries s3 = entries s2 \<and> ledger_ok s3 \<and>
      leg_ok s3 (maAgreement m) \<lparr>poAccount = b, poType = CreditorProceedsPayable,
        poDirection = Credit, poAmount = maAmount m\<rparr>"
    using find_or_create_account_props [OF 3, of "maAmount m" Credit] n by blast
  have g3: "only_ledger_grew s1 s3" "ledger_ok s3" "entries s3 = entries s1"
    using p2 p3 only_ledger_grew_trans [of s1 s2 s3] by simp_all
  have legs: "list_all (leg_ok s3 (eiAgreement inp)) (eiPostings inp)" "eiPostings inp \<noteq> []"
    "debits (eiPostings inp) = credits (eiPostings inp)" "int4_ok (debits (eiPostings inp))"
    using p2 p3 n leg_ok_mono by (auto simp: inp_def)
  have free0: "journal_lookup (paId p, PaymentCleared) s1 = None"
    using has_entry_fresh [of s PaymentCleared] assms p(3) s1(3)
    by (auto simp: journal_lookup_None has_entry_def list_ex_iff collect_ok_def)
  have free: "journal_lookup (input_key inp) s3 = None"
    using free0 g3(3) by (simp add: inp_def input_key_def journal_lookup_None)
  show ?thesis
  proof (rule insertion_posts [OF g3(2) legs free])
    fix e s4
    assume e: "insert_entry inp s3 = Inr (e, s4)" "jePostings e = eiPostings inp" "ledger_ok s4"
      "only_ledger_grew s3 s4" "entries s4 = entries s3 @ [e]" "entry_key e = input_key inp"
    have s': "s' = s4" using r mc i 2 3 e(1)
      by (simp add: post_manual_payment_atomically_def inp_def)
    have ke: "jePayment e = paId p" "jeType e = PaymentCleared"
      using e(6) by (simp_all add: inp_def input_key_def)
    have "opens_with_gross e"
      by (simp add: opens_with_gross_def gross_leg_def e(2) inp_def)
    then have "backed s4" using s1(1) e(5) g3(3) ke
      by (auto simp: backed_def collect_ok_def list_all_iff automatic_reversal_def)
    moreover have "only_ledger_grew s1 s4" using g3(1) e(4) only_ledger_grew_trans by blast
    moreover have "jePayment e < nextId s1"
      using s1(1,2) ke(1) by (auto simp: collect_ok_def known_payments_def list_all_iff
          dest: lookup_by_Some_mem)
    ultimately have "collect_ok s4"
      using new_entry_keeps [OF s1(1) _ e(3)] e(2,5) g3(3) ke s1(2) p free0 by (simp add: inp_def)
    then show ?thesis by (simp add: r s')
  qed
qed

section \<open>The whole of the payment paths\<close>

lemma collect_ok_audit: "collect_ok (audit E p s) = collect_ok s"
proof -
  have "exposure inst (audit E p s) = exposure inst s" for inst
    by (simp add: exposure_def installment_entries_filter open_amount_def open_attempt_def has_entry_def)
  then show ?thesis using ledger_ok_cong [of "audit E p s" s]
    by (simp add: collect_ok_def backed_def within_ceiling_def known_payments_def)
qed

lemma insert_pending_error: "insert_pending E inp s = (Inl e, s') \<Longrightarrow> s' = s"
  by (auto simp: insert_pending_def Let_def split: if_splits)

lemma reserve_ceiling_error: "reserve_within_ceiling E inp ag inst s = (Inl e, s') \<Longrightarrow> s' = s"
  by (auto simp: reserve_within_ceiling_def dest: insert_pending_error split: if_splits option.splits)

lemma reserve_attempt_keeps:
  assumes "collect_ok s"
  shows "collect_ok (snd (reserve_attempt D E r initial s))"
proof (cases "find_by_idempotency_key (rqKey r) s")
  case (Some p)
  then show ?thesis using assms by (simp add: reserve_attempt_def)
next
  case None
  show ?thesis
  proof (cases "reserve_checks D E r s")
    case (Inl e)
    then show ?thesis using assms None by (simp add: reserve_attempt_def)
  next
    case (Inr settlement)
    let ?inp = "request_pending D r settlement initial"
    define inserted where "inserted = (case (rqInstallment r, rqAgreement r) of
        (Some inst, Some ag) \<Rightarrow> reserve_within_ceiling E ?inp ag inst s
      | _ \<Rightarrow> insert_pending E ?inp s)"
    obtain res s1 where ins: "inserted = (res, s1)" by fastforce
    have "collect_ok s1"
    proof (cases res)
      case (Inl e)
      then have "s1 = s" using ins insert_pending_error reserve_ceiling_error
        by (auto simp: inserted_def split: option.splits)
      then show ?thesis using assms by simp
    next
      case (Inr p)
      show ?thesis
      proof (cases "rqInstallment r")
        case None
        then have i: "insert_pending E ?inp s = (Inr p, s1)" using ins \<open>res = Inr p\<close>
          by (simp add: inserted_def)
        show ?thesis
          using insert_pending_keeps [OF assms i] None by (simp add: request_pending_def)
      next
        case (Some inst)
        then obtain ag where ag: "rqAgreement r = Some ag"
          using \<open>reserve_checks D E r s = Inr settlement\<close>
          by (cases "rqAgreement r") (auto simp: reserve_checks_def split: if_splits)
        have "reserve_within_ceiling E ?inp ag inst s = (Inr p, s1)"
          using ins Some ag \<open>res = Inr p\<close> by (simp add: inserted_def)
        then show ?thesis using reserve_keeps [OF assms] Some by (simp add: request_pending_def)
      qed
    qed
    moreover have "\<exists>b. snd (reserve_attempt D E r initial s) = s1 \<or>
        snd (reserve_attempt D E r initial s) = record_payment_audit E b
          ''payment_flagged_for_review'' (Some (rqActor r)) None JNull s1"
      using None Inr ins
      by (auto simp: reserve_attempt_def inserted_def Let_def split: sum.splits option.splits)
    ultimately show ?thesis by (auto simp: record_payment_audit_def collect_ok_audit)
  qed
qed

text \<open>
  The steps of the payment paths, each a transaction of its own, taken by any number of callers in
  any order: reservation of an attempt, a manual payment, a webhook transition, a status write of the
  service, a posting. \<open>submitPending\<close>, \<open>cancelPayment\<close>, \<open>refundPayment\<close> and \<open>submitToProvider\<close> write
  the status unconditionally, whatever they read before, so the step does too.
\<close>

inductive collect_step :: "db \<Rightarrow> db \<Rightarrow> bool" where
  attempt: "collect_step s (snd (reserve_attempt D E r initial s))"
| manual: "collect_step s (snd (post_manual_payment_atomically E m s))"
| transition: "collect_step s (snd (apply_transition E pay ev t st f (allowed_sources st) s))"
| status_write: "collect_step s (snd (update_status E i st f s))"
| posting: "posting_request_ok op s \<Longrightarrow> collect_step s (snd (run_op E op s))"

text \<open>A write after a stale read: it takes a payment that is no longer open to an open status, or to
  succeeded.\<close>

definition reopening_write :: "db \<Rightarrow> db \<Rightarrow> bool" where
  "reopening_write s s' \<longleftrightarrow> (\<exists>E i st f p. find_payment i s = Some p \<and> \<not> unresolved (paStatus p) \<and>
     paStatus p \<noteq> st \<and> (unresolved st \<or> st = PSucceeded) \<and> s' = snd (update_status E i st f s))"

lemma write_keeps:
  assumes "collect_ok s" and "\<not> reopening_write s (snd (update_status E i st f s))"
  shows "collect_ok (snd (update_status E i st f s))"
proof (cases "find_payment i s")
  case None
  then show ?thesis using assms(1) by (simp add: update_status_def)
next
  case (Some p)
  then have "may_move (paStatus p) st"
    using assms(2) unfolding reopening_write_def may_move_def settled_status_def by blast
  then show ?thesis using move_keeps [OF assms(1) Some] assms(1) Some by (simp add: update_status_def)
qed

lemma collect_step_keeps:
  "collect_step s s' \<Longrightarrow> collect_ok s \<Longrightarrow> \<not> reopening_write s s' \<Longrightarrow> collect_ok s'"
  by (induction rule: collect_step.induct)
    (simp_all add: reserve_attempt_keeps manual_keeps transition_keeps write_keeps posting_keeps)

text \<open>A step that is not such a write.\<close>

definition fresh_step :: "db \<Rightarrow> db \<Rightarrow> bool" where
  "fresh_step s s' \<longleftrightarrow> collect_step s s' \<and> \<not> reopening_write s s'"

lemma collect_reach: "fresh_step\<^sup>*\<^sup>* s s' \<Longrightarrow> collect_ok s \<Longrightarrow> collect_ok s'"
  by (induction rule: rtranclp_induct) (auto simp: fresh_step_def intro: collect_step_keeps)


definition sample_open_db :: db where
  "sample_open_db = empty_db\<lparr>nextId := 42, agreements := [sample_agreement FirstPaymentPending],
     versions := [sample_version],
     installments := [\<lparr>inId = 20, inVersion = 10, inSequence = 1, inDueDate = ''2026-01-31'',
        inAmount = 100, inStatus = InstScheduled\<rparr>],
     payments := [sample_payment 7 PSucceeded 60]\<rparr>"

lemma sample_open_ok: "collect_ok sample_open_db"
  by (simp add: collect_ok_def ledger_ok_def backed_def known_payments_def within_ceiling_def
      sample_open_db_def empty_db_def sample_payment_def exposure_def installment_entries_filter
      open_amount_def open_attempt_def has_entry_def total_paid_def by_payment_def group_total_def
      int4_ok_def unresolved_def)

definition sample_gross :: cleared_input where
  "sample_gross = \<lparr>ciPayment = 7, ciAgreement = 1, ciCurrency = ''USD'', ciGross = 60,
     ciProcessorFee = None, ciPlatformFee = None\<rparr>"


section \<open>The stale write\<close>

text \<open>One installment of 100 and one scheduled attempt over all of it; the second attempt is paid by
  hand.\<close>

definition stale_start :: db where
  "stale_start = sample_open_db\<lparr>payments := [sample_payment 7 PScheduled 100]\<rparr>"

definition stale_deps :: pay_deps where
  "stale_deps = \<lparr>ownerOf = (\<lambda>p. Some (snd p)), fullyVerified = (\<lambda>_. True),
     settlementAwaiting = (\<lambda>_ _ _. False), initiationEnabled = True, maxPaymentEnv = None,
     reviewThresholdEnv = None, dailyAmountEnv = None, dailyCountEnv = None,
     providerName = ''sandbox'', providerCreate = (\<lambda>_. Inr (PSucceeded, ''p1'')),
     providerCancel = (\<lambda>_. Inr True), providerRefund = (\<lambda>_. None), installmentHook = (\<lambda>_. ret ())\<rparr>"

definition stale_manual :: manual_input where
  "stale_manual = \<lparr>maKey = ''k2'', maAgreement = 1, maPayer = (PersonalProfile, 101),
     maRecipient = (PersonalProfile, 102), maAmount = 100, maCurrency = ''USD'', maRecordedBy = 101,
     maInstallment = Some 20, maSettlement = None\<rparr>"

definition stale_env :: env where
  "stale_env = \<lparr>sha256 = (\<lambda>_. ''h''), auditSecret = ''k'', clock = 0\<rparr>"

text \<open>The record \<open>submitPending\<close> reads, and what it does after the read, over the database as it is
  by then.\<close>

definition stale_record :: "error + payment_row" where
  "stale_record = get_authorized_record stale_deps 7 101 PayerOnly stale_start"

definition submit_after_read :: "(db, error, payment_row) step" where
  "submit_after_read =
     andThen (raised stale_record) (\<lambda>p.
     andThen (update_status stale_env (paId p) PSubmitted no_fields) (\<lambda>submitted.
     submit_to_provider stale_deps stale_env submitted 101 None JNull (ret ())))"

definition stale_canceled :: "(error + payment_row) \<times> db" where
  "stale_canceled = cancel_payment stale_deps stale_env 7 101 stale_start"

definition stale_paid :: "(error + payment_row) \<times> db" where
  "stale_paid = post_manual_payment_atomically stale_env stale_manual (snd stale_canceled)"

definition stale_submitted :: "(error + payment_row) \<times> db" where
  "stale_submitted = submit_after_read (snd stale_paid)"

definition stale_cleared :: "(error + journal_entry) \<times> db" where
  "stale_cleared = run_op stale_env (PostCleared (sample_gross\<lparr>ciGross := 100\<rparr>)) (snd stale_submitted)"

lemma stale_start_ok: "collect_ok stale_start"
  by (simp add: stale_start_def collect_ok_def ledger_ok_def backed_def known_payments_def
      within_ceiling_def sample_open_db_def empty_db_def sample_payment_def exposure_def
      installment_entries_filter open_amount_def open_attempt_def has_entry_def total_paid_def
      by_payment_def group_total_def int4_ok_def unresolved_def)

lemma stale_read: "map_sum id paStatus stale_record = Inr PScheduled"
  by code_simp

lemma stale_guards:
  "\<not> isl (fst stale_canceled) \<and> \<not> isl (fst stale_paid) \<and>
   map_sum id paStatus (fst stale_submitted) = Inr PSucceeded \<and> \<not> isl (fst stale_cleared)"
  by code_simp

lemma stale_outcome:
  "map inAmount (installments stale_start) = [100] \<and>
   map inAmount (installments (snd stale_cleared)) = [100] \<and>
   total_paid (installment_entries 20 (snd stale_cleared)) = 200"
  by code_simp

lemma stale_refused:
  "fst (submit_pending stale_deps stale_env 7 101 None JNull (ret ()) (snd stale_paid))
     = Inl (ValidationError ''OnlyScheduled'')"
  by code_simp

lemma stale_sequential:
  "submit_pending stale_deps stale_env 7 101 None JNull (ret ()) stale_start = submit_after_read stale_start"
proof (cases stale_record)
  case (Inl e)
  show ?thesis using stale_read unfolding Inl by simp
next
  case (Inr p)
  have "paStatus p = PScheduled" using stale_read unfolding Inr by simp
  then show ?thesis
    using Inr by (simp add: submit_pending_def submit_after_read_def stale_record_def andThen_def)
qed


end
