(* ===== verification/Retries.thy ===== *)
theory Retries
  imports Collection
begin

text \<open>
  What happens to an installment when its payment fails, succeeds or is taken back
  (\<open>failedPayments/\<close>): the business-day calendar of retries, the installment and retry repositories,
  and the three transactions of \<open>failedPaymentRetryCoordinator.ts\<close> that the webhook handler calls
  through \<open>FailedPaymentWorkflowService\<close>. Notifications to the parties are a parameter that may fail.
\<close>

section \<open>Business days\<close>

text \<open>\<open>getUTCDay\<close>: 1 January 1970 was a Thursday.\<close>

definition week_day :: "msec \<Rightarrow> int" where
  "week_day t = (t div ms_per_day + 4) mod 7"

definition business_day :: "msec \<Rightarrow> bool" where
  "business_day t \<longleftrightarrow> week_day t \<noteq> 0 \<and> week_day t \<noteq> 6"

text \<open>\<open>setUTCDate(getUTCDate() + 1)\<close> moves on by one day of 24 hours.\<close>

function add_business_days :: "msec \<Rightarrow> int \<Rightarrow> msec" where
  "add_business_days t remaining =
     (if remaining \<le> 0 then t
      else add_business_days (t + ms_per_day)
             (if business_day (t + ms_per_day) then remaining - 1 else remaining))"
  by pat_completeness auto

lemma week_day_next: "week_day (t + ms_per_day) = (week_day t + 1) mod 7"
proof -
  have "(t + ms_per_day) div ms_per_day = t div ms_per_day + 1" by (simp add: ms_per_day_def)
  then show ?thesis by (simp add: week_day_def mod_simps algebra_simps)
qed

text \<open>How many days of the weekend lie directly ahead.\<close>

definition weekend_ahead :: "msec \<Rightarrow> nat" where
  "weekend_ahead t = (if week_day t = 5 then 2 else if week_day t = 6 then 1 else 0)"

lemma weekend_ahead_step:
  "\<not> business_day (t + ms_per_day) \<Longrightarrow> weekend_ahead (t + ms_per_day) < weekend_ahead t"
  "weekend_ahead t \<le> 2"
proof -
  have "0 \<le> week_day t" "week_day t < 7" by (simp_all add: week_day_def)
  then have "week_day t \<in> {0, 1, 2, 3, 4, 5, 6}" by auto
  then show "\<not> business_day (t + ms_per_day) \<Longrightarrow> weekend_ahead (t + ms_per_day) < weekend_ahead t"
    "weekend_ahead t \<le> 2"
    by (auto simp: weekend_ahead_def business_day_def week_day_next)
qed

termination add_business_days
proof (relation "measure (\<lambda>(t, n). 3 * nat n + weekend_ahead t)", goal_cases)
  case (2 t n)
  show ?case
    using 2 weekend_ahead_step(1) [of t] weekend_ahead_step(2) [of "t + ms_per_day"]
    by (cases "business_day (t + ms_per_day)") auto
qed simp

declare add_business_days.simps [simp del]

section \<open>Installments\<close>

definition set_installment :: "uuid \<Rightarrow> (installment_row \<Rightarrow> installment_row) \<Rightarrow> db \<Rightarrow> db" where
  "set_installment i f s = s\<lparr>installments := update_by inId i f (installments s)\<rparr>"

definition set_installment_status :: "uuid \<Rightarrow> installment_status \<Rightarrow> db \<Rightarrow> db" where
  "set_installment_status i st = set_installment i (\<lambda>r. r\<lparr>inStatus := st\<rparr>)"

text \<open>\<open>UPDATE \<dots> WHERE status <> 'paid'\<close>.\<close>

definition mark_past_due :: "uuid \<Rightarrow> db \<Rightarrow> db" where
  "mark_past_due i = set_installment i (\<lambda>r. if inStatus r = InstPaid then r else r\<lparr>inStatus := InstPastDue\<rparr>)"

definition mark_paid :: "uuid \<Rightarrow> db \<Rightarrow> db" where
  "mark_paid i = set_installment_status i InstPaid"

definition mark_scheduled :: "uuid \<Rightarrow> db \<Rightarrow> db" where
  "mark_scheduled i = set_installment_status i InstScheduled"

definition find_due_date :: "uuid \<Rightarrow> db \<Rightarrow> string option" where
  "find_due_date i s = map_option inDueDate (find_installment i s)"

definition update_due_date :: "uuid \<Rightarrow> string \<Rightarrow> db \<Rightarrow> db" where
  "update_due_date i due = set_installment i (\<lambda>r. r\<lparr>inDueDate := due\<rparr>)"

section \<open>The retry table\<close>

definition set_retry :: "uuid \<Rightarrow> (retry_row \<Rightarrow> retry_row) \<Rightarrow> db \<Rightarrow> db" where
  "set_retry i f s = s\<lparr>retries := update_by rtId i f (retries s)\<rparr>"

definition find_by_original :: "uuid \<Rightarrow> db \<Rightarrow> retry_row option" where
  "find_by_original p s = find (\<lambda>r. rtOriginal r = p) (retries s)"

definition find_by_resulting :: "uuid \<Rightarrow> db \<Rightarrow> retry_row option" where
  "find_by_resulting p s = find (\<lambda>r. rtResulting r = Some p) (retries s)"

text \<open>The index \<open>payment_retry_original_payment_attempt_unique\<close> and the foreign keys refuse an insert.\<close>

definition insert_retry ::
    "env \<Rightarrow> uuid \<Rightarrow> uuid \<Rightarrow> uuid \<Rightarrow> msec \<Rightarrow> (db, error, retry_row) step" where
  "insert_retry E original inst ag due s =
     (if find_by_original original s \<noteq> None then (Inl (ForeignError ''unique_violation''), s)
      else if find_payment original s = None \<or> find_installment inst s = None \<or> find_agreement ag s = None
      then (Inl (ForeignError ''foreign_key_violation''), s)
      else let r = \<lparr>rtId = nextId s, rtOriginal = original, rtInstallment = inst, rtAgreement = ag,
             rtScheduledFor = due, rtStatus = RtScheduled, rtResulting = None, rtFiredAt = None,
             rtCanceledAt = None, rtCanceledReason = None, rtToken = None, rtNextResolution = None\<rparr>
           in (Inr r, s\<lparr>retries := retries s @ [r], nextId := Suc (nextId s)\<rparr>))"

text \<open>The text of a key: \<open>retry-${id}\<close>.\<close>

definition retry_key :: "uuid \<Rightarrow> string" where
  "retry_key i = ''retry-'' @ show_int (int i)"

definition retry_audit :: "env \<Rightarrow> string \<Rightarrow> uuid \<Rightarrow> audit_payload" where
  "retry_audit E act i =
     (blank_audit act (clock E))\<lparr>actorRole := Some ''payment_provider'',
        targetResourceType := Value ''payment_retry'', targetResourceId := Value i\<rparr>"

section \<open>A failed payment\<close>

datatype failure_result = AlreadySettled | RetryScheduled uuid bool

definition settled_status_of :: "uuid \<Rightarrow> db \<Rightarrow> bool" where
  "settled_status_of inst s \<longleftrightarrow>
     (case find_installment inst s of
        None \<Rightarrow> False
      | Some i \<Rightarrow> inStatus i = InstPaid \<or> inStatus i = InstWaived)"

definition satisfied_now :: "uuid \<Rightarrow> db \<Rightarrow> bool" where
  "satisfied_now inst s \<longleftrightarrow>
     (case installment_settlement_tx inst s of None \<Rightarrow> False | Some (snap, _, _) \<Rightarrow> ssSatisfied snap)"

text \<open>The body of the transaction of \<open>coordinateFailure\<close>, under the locks of agreement and
  installment. \<open>delay\<close> is the number of business days.\<close>

definition failure_transaction ::
    "env \<Rightarrow> int \<Rightarrow> uuid \<Rightarrow> payment_row \<Rightarrow> (db, error, failure_result) step" where
  "failure_transaction E delay inst p s =
     (case paAgreement p of
        None \<Rightarrow> (Inl (ConfigurationError ''noAgreementId''), s)
      | Some ag \<Rightarrow>
     (if find_agreement ag s = None then (Inl (ConfigurationError ''agreement not found''), s)
      else if settled_status_of inst s \<or> satisfied_now inst s then (Inr AlreadySettled, s)
      else let s1 = set_installment_status inst InstPastDue s
           in if find_by_resulting (paId p) s1 \<noteq> None then (Inr AlreadySettled, s1)
              else case find_by_original (paId p) s1 of
                Some r \<Rightarrow> (Inr (RetryScheduled (rtId r) True), s1)
              | None \<Rightarrow>
                  andThen (insert_retry E (paId p) inst ag (add_business_days (clock E) delay))
                    (\<lambda>r. ret (RetryScheduled (rtId r) False)) s1))"

definition coordinate_failure ::
    "env \<Rightarrow> int \<Rightarrow> uuid \<Rightarrow> payment_row \<Rightarrow> (db, error, failure_result) step" where
  "coordinate_failure E delay inst p s =
     (case atomically (failure_transaction E delay inst p) s of
        (Inl e, s1) \<Rightarrow> (Inl e, s1)
      | (Inr (RetryScheduled r False), s1) \<Rightarrow>
          (Inr (RetryScheduled r False),
           audit E ((retry_audit E ''payment_retry_scheduled'' r)
             \<lparr>profileKind := Some (fst (paPayer p)), profileId := Some (snd (paPayer p)),
              auditAgreementId := paAgreement p\<rparr>) s1)
      | (Inr res, s1) \<Rightarrow> (Inr res, s1))"

section \<open>A succeeded payment\<close>

definition has_anchor :: "db \<Rightarrow> retry_row \<Rightarrow> bool" where
  "has_anchor s r \<longleftrightarrow> list_ex (\<lambda>p. paKey p = retry_key (rtId r)) (payments s)"

text \<open>Only a retry without a payment row of its own can still be canceled.\<close>

definition cancelable :: "uuid \<Rightarrow> db \<Rightarrow> retry_row \<Rightarrow> bool" where
  "cancelable inst s r \<longleftrightarrow> rtInstallment r = inst \<and>
     (rtStatus r = RtScheduled \<or> rtStatus r = RtClaimed) \<and> \<not> has_anchor s r"

definition canceled_by :: "env \<Rightarrow> string \<Rightarrow> retry_row \<Rightarrow> retry_row" where
  "canceled_by E why r =
     r\<lparr>rtStatus := RtCanceled, rtCanceledAt := Some (clock E), rtCanceledReason := Some why\<rparr>"

definition cancel_open_retries :: "env \<Rightarrow> uuid \<Rightarrow> db \<Rightarrow> uuid list \<times> db" where
  "cancel_open_retries E inst s =
     (map rtId (filter (cancelable inst s) (retries s)),
      s\<lparr>retries := map (\<lambda>r. if cancelable inst s r
          then canceled_by E ''A payment for this installment succeeded.'' r else r) (retries s)\<rparr>)"

definition success_transaction :: "env \<Rightarrow> uuid \<Rightarrow> (db, error, uuid list \<times> bool) step" where
  "success_transaction E inst s =
     (case (find_installment inst s, installment_settlement_tx inst s) of
        (Some i, Some (snap, _, _)) \<Rightarrow>
          (if \<not> ssSatisfied snap
           then (if inStatus i = InstWaived then (Inr ([], False), s)
                 else case is_past_date (inDueDate i) (clock E) of
                   Inl e \<Rightarrow> (Inl e, s)
                 | Inr past \<Rightarrow>
                     (Inr ([], False),
                      set_installment_status inst (if past then InstPastDue else InstScheduled) s))
           else (case cancel_open_retries E inst (set_installment_status inst InstPaid s) of
                   (ids, s1) \<Rightarrow> (Inr (ids, True), s1)))
      | _ \<Rightarrow> (Inr ([], False), s))"

fun audit_canceled :: "env \<Rightarrow> uuid list \<Rightarrow> db \<Rightarrow> db" where
  "audit_canceled E [] s = s"
| "audit_canceled E (i # is) s =
     audit_canceled E is (audit E ((retry_audit E ''payment_retry_canceled'' i)
       \<lparr>reason := Some ''A payment for this installment succeeded.''\<rparr>) s)"

definition coordinate_success :: "env \<Rightarrow> uuid \<Rightarrow> (db, error, uuid list \<times> bool) step" where
  "coordinate_success E inst =
     andThen (atomically (success_transaction E inst)) (\<lambda>(ids, done).
     andThen (update (audit_canceled E ids)) (\<lambda>_. ret (ids, done)))"

section \<open>A payment that was taken back\<close>

datatype supersession_result =
    AlreadyCompensated | NotPaid | StillSatisfied | WaivedPreserved | Reopened installment_status

definition reopened_action :: string where
  "reopened_action = ''installment_reopened_by_supersession''"

definition not_required_action :: string where
  "not_required_action = ''installment_reopen_not_required_by_supersession''"

definition not_required_disposition :: "json \<Rightarrow> supersession_result" where
  "not_required_disposition v =
     (if json_get_string ''disposition'' v = Some ''still_satisfied'' then StillSatisfied
      else if json_get_string ''disposition'' v = Some ''waived_preserved'' then WaivedPreserved
      else NotPaid)"

text \<open>The event's own earlier outcome, from the trail; both actions are unique per event.\<close>

definition earlier_outcome :: "string \<Rightarrow> db \<Rightarrow> supersession_result option" where
  "earlier_outcome event s =
     map_option (\<lambda>r. if action r = reopened_action then AlreadyCompensated
         else not_required_disposition (newValue r))
       (find (\<lambda>r. providerEventId r = Value event \<and>
          (action r = reopened_action \<or> action r = not_required_action)) (audits s))"

definition status_json :: "installment_status \<Rightarrow> json" where
  "status_json st = JStr (case st of InstScheduled \<Rightarrow> ''scheduled'' | InstPaid \<Rightarrow> ''paid''
     | InstPastDue \<Rightarrow> ''past_due'' | InstWaived \<Rightarrow> ''waived'')"

definition supersession_audit ::
    "env \<Rightarrow> uuid \<Rightarrow> payment_row \<Rightarrow> string \<Rightarrow> string \<Rightarrow> json \<Rightarrow> json \<Rightarrow> string \<Rightarrow> db \<Rightarrow> db" where
  "supersession_audit E inst p event act old new why =
     audit E ((blank_audit act (clock E))
       \<lparr>actorRole := Some ''payment_provider'', profileKind := Some (fst (paPayer p)),
        profileId := Some (snd (paPayer p)), auditAgreementId := paAgreement p,
        previousValue := old, newValue := new, reason := Some why,
        targetResourceType := Value ''installment_schedule_item'', targetResourceId := Value inst,
        providerEventId := Value event\<rparr>)"

text \<open>\<open>coordinateSupersession\<close>. The reopening is decided by the money that stays on the installment,
  never by its stored status; a waiver is never revoked.\<close>

definition supersession_transaction ::
    "env \<Rightarrow> uuid \<Rightarrow> payment_row \<Rightarrow> string \<Rightarrow> (db, error, supersession_result) step" where
  "supersession_transaction E inst p event s =
     (case earlier_outcome event s of
        Some res \<Rightarrow> (Inr res, s)
      | None \<Rightarrow>
     (if map_option inStatus (find_installment inst s) = Some InstWaived
      then (Inr WaivedPreserved,
            supersession_audit E inst p event not_required_action
              (JObj [(''installmentStatus'', JStr ''waived'')])
              (JObj [(''disposition'', JStr ''waived_preserved''),
                     (''supersedingPaymentStatus'', JStr (status_name (paStatus p)))])
              ''WaiverNeverRevoked'' s)
      else case installment_settlement_tx inst s of
        None \<Rightarrow>
          (Inr NotPaid,
           supersession_audit E inst p event not_required_action
             (JObj [(''installmentStatus'', JNull), (''settledMinorUnits'', JNull)])
             (JObj [(''disposition'', JStr ''not_paid''),
                    (''supersedingPaymentStatus'', JStr (status_name (paStatus p)))])
             ''NotSatisfied'' s)
      | Some (snap, due, st) \<Rightarrow>
          (if ssSatisfied snap
           then (Inr StillSatisfied,
                 supersession_audit E inst p event not_required_action
                   (JObj [(''installmentStatus'', status_json st),
                          (''settledMinorUnits'', JNum (ssSettled snap))])
                   (JObj [(''disposition'', JStr ''still_satisfied''),
                          (''supersedingPaymentStatus'', JStr (status_name (paStatus p)))])
                   ''StillSatisfied'' s)
           else case is_past_date due (clock E) of
             Inl e \<Rightarrow> (Inl e, s)
           | Inr past \<Rightarrow>
               (let new = (if past then InstPastDue else InstScheduled)
                in (Inr (Reopened new),
                    supersession_audit E inst p event reopened_action
                      (JObj [(''installmentStatus'', JStr ''paid'')])
                      (JObj [(''installmentStatus'', status_json new),
                             (''supersedingPaymentStatus'', JStr (status_name (paStatus p)))])
                      ''TakenBack'' (set_installment_status inst new s))))))"

definition coordinate_supersession ::
    "env \<Rightarrow> uuid \<Rightarrow> payment_row \<Rightarrow> string \<Rightarrow> (db, error, supersession_result) step" where
  "coordinate_supersession E inst p event s =
     (case earlier_outcome event s of
        Some res \<Rightarrow> (Inr res, s)
      | None \<Rightarrow> atomically (supersession_transaction E inst p event) s)"

section \<open>The workflow the webhook handler calls\<close>

text \<open>\<open>notify_parties p\<close> is the outcome of \<open>notifyBothParties\<close> for the event \<open>payment_failed\<close>.\<close>

record workflow_deps =
  retryDelay :: int
  notify_parties :: "payment_row \<Rightarrow> string option \<Rightarrow> error + unit"

definition handle_payment_failed ::
    "workflow_deps \<Rightarrow> env \<Rightarrow> payment_row \<Rightarrow> string option \<Rightarrow> (db, error, unit) step" where
  "handle_payment_failed W E p category =
     (case paInstallment p of
        None \<Rightarrow> ret ()
      | Some inst \<Rightarrow>
          andThen (coordinate_failure E (retryDelay W) inst p) (\<lambda>res.
          if res = AlreadySettled then ret () else raised (notify_parties W p category)))"

definition handle_payment_succeeded :: "env \<Rightarrow> payment_row \<Rightarrow> (db, error, unit) step" where
  "handle_payment_succeeded E p =
     (case paInstallment p of
        None \<Rightarrow> ret ()
      | Some inst \<Rightarrow> andThen (coordinate_success E inst) (\<lambda>_. ret ()))"

definition handle_payment_superseded :: "env \<Rightarrow> payment_row \<Rightarrow> string \<Rightarrow> (db, error, unit) step" where
  "handle_payment_superseded E p event =
     (case paInstallment p of
        None \<Rightarrow> ret ()
      | Some inst \<Rightarrow> andThen (coordinate_supersession E inst p event) (\<lambda>_. ret ()))"

section \<open>The retry date\<close>

text \<open>The business days among the next \<open>d\<close> days.\<close>

definition business_days_within :: "msec \<Rightarrow> nat \<Rightarrow> nat" where
  "business_days_within t d =
     length (filter (\<lambda>k. business_day (t + int k * ms_per_day)) [1..<Suc d])"

lemma business_days_within_Suc:
  "business_days_within t (Suc d) =
     (if business_day (t + ms_per_day) then 1 else 0) + business_days_within (t + ms_per_day) d"
proof -
  have l: "[1..<Suc (Suc d)] = 1 # map Suc [1..<Suc d]"
    by (simp add: map_Suc_upt upt_conv_Cons del: upt_Suc)
  have f: "(\<lambda>k. business_day (t + int k * ms_per_day)) \<circ> Suc =
      (\<lambda>k. business_day (t + ms_per_day + int k * ms_per_day))"
    by (rule ext) (simp add: algebra_simps)
  show ?thesis
    unfolding business_days_within_def l filter.simps filter_map f by (auto simp del: upt_Suc)
qed

text \<open>The number of calendar days, in closed form.\<close>

definition calendar_days :: "int \<Rightarrow> int \<Rightarrow> int" where
  "calendar_days w n =
     (if w = 0 then n + 2 * ((n - 1) div 5)
      else if w = 6 then n + 1 + 2 * ((n - 1) div 5)
      else n + 2 * ((w + n - 1) div 5))"

lemma week_day_cases: "week_day t \<in> {0, 1, 2, 3, 4, 5, 6}"
proof -
  have "0 \<le> week_day t" "week_day t < 7" by (simp_all add: week_day_def)
  then show ?thesis by auto
qed

lemma calendar_days_step:
  assumes "0 < n" and "w = week_day t"
  shows "calendar_days w n = 1 + (if business_day (t + ms_per_day)
      then (if n = 1 then 0 else calendar_days (week_day (t + ms_per_day)) (n - 1))
      else calendar_days (week_day (t + ms_per_day)) n)"
proof -
  have "(4 + n) div 5 = 1 + (n - 1) div 5" by presburger
  then show ?thesis
    using week_day_cases [of t] assms
    by (auto simp: calendar_days_def business_day_def week_day_next)
qed

lemma add_business_days_closed:
  "0 < n \<Longrightarrow> add_business_days t n = t + calendar_days (week_day t) n * ms_per_day"
proof (induction t n rule: add_business_days.induct)
  case (1 t n)
  let ?t = "t + ms_per_day"
  have "add_business_days t n = ?t + (calendar_days (week_day t) n - 1) * ms_per_day"
    using 1 calendar_days_step [of n "week_day t" t]
    by (subst add_business_days.simps) (auto simp: add_business_days.simps [of _ 0])
  then show ?case by (simp add: algebra_simps)
qed

lemma calendar_days_range:
  fixes w n :: int
  assumes "0 < n" and "0 \<le> w" and "w < 7"
  shows "0 < calendar_days w n \<and> calendar_days w n \<le> n + 2 * ((n + 4) div 5)"
proof (cases "w = 0 \<or> w = 6")
  case True
  have "0 \<le> (n - 1) div 5 \<and> (n + 4) div 5 = 1 + (n - 1) div 5" using assms(1) by presburger
  then show ?thesis using True assms(1) by (auto simp: calendar_days_def)
next
  case False
  then have w: "1 \<le> w" "w \<le> 5" using assms by auto
  have "0 \<le> (w + n - 1) div 5" using w assms(1) by (simp add: pos_imp_zdiv_nonneg_iff)
  moreover have "(w + n - 1) div 5 \<le> (n + 4) div 5" using w by (intro zdiv_mono1) auto
  ultimately show ?thesis using False assms(1) by (auto simp: calendar_days_def)
qed

lemma calendar_days_bound: "0 < n \<Longrightarrow> 0 < calendar_days (week_day t) n \<and>
    calendar_days (week_day t) n \<le> n + 2 * ((n + 4) div 5)"
  by (rule calendar_days_range) (simp_all add: week_day_def)

lemma business_days_counted:
  assumes "0 < n"
  shows "int (business_days_within t (nat (calendar_days (week_day t) n))) = n \<and>
    business_day (add_business_days t n)"
  using assms
proof (induction t n rule: add_business_days.induct)
  case (1 t n)
  let ?t = "t + ms_per_day" and ?m = "if business_day (t + ms_per_day) then n - 1 else n"
  have pos: "0 < calendar_days (week_day t) n" using calendar_days_bound 1(2) by blast
  then obtain d where d: "nat (calendar_days (week_day t) n) = Suc d"
    by (metis not0_implies_Suc not_le zero_less_nat_eq le_zero_eq)
  have a: "add_business_days t n = add_business_days ?t ?m"
    using 1(2) by (subst add_business_days.simps) simp
  show ?case
  proof (cases "?m = 0")
    case True
    then have "business_day ?t" "n = 1" using 1(2) by (auto split: if_splits)
    moreover have "d = 0" using calendar_days_step [OF 1(2) refl, of t] d \<open>n = 1\<close> \<open>business_day ?t\<close> by simp
    moreover have "business_days_within ?t 0 = 0" by (simp add: business_days_within_def)
    moreover have "add_business_days t n = ?t"
      using a True by (simp add: add_business_days.simps [of _ 0])
    ultimately show ?thesis
      unfolding d by (simp add: business_days_within_Suc)
  next
    case False
    then have m: "0 < ?m" using 1(2) by (auto split: if_splits)
    have "d = nat (calendar_days (week_day ?t) ?m)"
      using calendar_days_step [OF 1(2) refl, of t] d False by (auto split: if_splits)
    then show ?thesis
      using 1(1) [OF _ m] 1(2) m by (auto simp: a d business_days_within_Suc)
  qed
qed

text \<open>
  C39. The retry date is right: the loop ends for every start and delay, and for a positive number
  \<open>n\<close> of business days it stops on the first day, \<open>d\<close> calendar days later at the same time of day,
  such that exactly \<open>n\<close> of the \<open>d\<close> days are not weekend days; that day is itself a business day, and
  \<open>d\<close> is at most \<open>n + 2 \<lceil>n / 5\<rceil>\<close>.
\<close>

theorem retry_date_exact:
  assumes "0 < n"
  shows "\<exists>d. add_business_days t n = t + int d * ms_per_day \<and> business_days_within t d = nat n \<and>
    business_day (t + int d * ms_per_day) \<and> (\<forall>d' < d. business_days_within t d' < nat n) \<and>
    int d \<le> n + 2 * ((n + 4) div 5)"
proof -
  define d where "d = nat (calendar_days (week_day t) n)"
  have d: "int d = calendar_days (week_day t) n" "0 < d"
    using calendar_days_bound [OF assms, of t] by (simp_all add: d_def)
  have e: "add_business_days t n = t + int d * ms_per_day"
    by (simp add: d add_business_days_closed [OF assms])
  have c: "business_days_within t d = nat n" "business_day (t + int d * ms_per_day)"
    using business_days_counted [OF assms, of t] e by (auto simp: d_def)
  have "business_days_within t d' < nat n" if "d' < d" for d'
  proof -
    have u: "[1..<Suc d] = [1..<d] @ [d]" using d(2) by simp
    have v: "[1..<d] = [1..<Suc d'] @ [Suc d'..<d]" using that upt_add_eq_append [of 1 "Suc d'" "d - Suc d'"] by simp
    have "business_days_within t d' < business_days_within t d"
      unfolding business_days_within_def u v using c(2) by (simp del: upt_Suc)
    then show ?thesis using c(1) by simp
  qed
  then show ?thesis using e c d(1) calendar_days_bound [OF assms, of t] by (intro exI [of _ d]) auto
qed

text \<open>Friday, 2 January 1970, plus three business days is Wednesday, 7 January.\<close>

theorem retry_date_exact_witness:
  "add_business_days ms_per_day 3 = 6 * ms_per_day \<and> business_day (6 * ms_per_day)"
proof -
  have c: "calendar_days (week_day ms_per_day) 3 = 5"
    by (simp add: calendar_days_def week_day_def ms_per_day_def)
  have "add_business_days ms_per_day 3 = 6 * ms_per_day"
    using add_business_days_closed [of 3 ms_per_day] by (simp add: c)
  then show ?thesis using retry_date_exact [of 3 ms_per_day] by auto
qed

section \<open>What the coordinators do to the database\<close>

lemma set_installment_frame [simp, frame_simps]:
  "nextId (set_installment i f s) = nextId s" "payments (set_installment i f s) = payments s"
  "entries (set_installment i f s) = entries s" "agreements (set_installment i f s) = agreements s"
  "accounts (set_installment i f s) = accounts s" "audits (set_installment i f s) = audits s"
  "versions (set_installment i f s) = versions s" "retries (set_installment i f s) = retries s"
  "webhooks (set_installment i f s) = webhooks s" "exceptions (set_installment i f s) = exceptions s"
  "partials (set_installment i f s) = partials s" "claims (set_installment i f s) = claims s"
  by (simp_all add: set_installment_def)

lemma find_set_installment_status:
  "find_installment j (set_installment_status i st s) =
     (if j = i then map_option (\<lambda>r. r\<lparr>inStatus := st\<rparr>) (find_installment j s) else find_installment j s)"
  by (simp add: set_installment_status_def set_installment_def lookup_update_same lookup_update_other)

lemma set_status_frame [simp, frame_simps]:
  "nextId (set_installment_status i st s) = nextId s" "payments (set_installment_status i st s) = payments s"
  "entries (set_installment_status i st s) = entries s"
  "agreements (set_installment_status i st s) = agreements s"
  "audits (set_installment_status i st s) = audits s" "retries (set_installment_status i st s) = retries s"
  by (simp_all add: set_installment_status_def)

lemma find_by_retry_frame [simp]:
  "find_by_original p (set_installment_status i st s) = find_by_original p s"
  "find_by_resulting p (set_installment_status i st s) = find_by_resulting p s"
  "find_by_original p (audit E q s) = find_by_original p s"
  "find_by_resulting p (audit E q s) = find_by_resulting p s"
  by (simp_all add: find_by_original_def find_by_resulting_def)

lemma settlement_after_status:
  "installment_settlement_tx i (set_installment_status j st s) =
     map_option (\<lambda>(snap, due, old). (snap, due, if i = j then st else old)) (installment_settlement_tx i s)"
  by (auto simp: installment_settlement_tx_def find_set_installment_status installment_entries_def
      split: option.split)

lemma satisfied_after_status [simp]: "satisfied_now i (set_installment_status j st s) = satisfied_now i s"
  by (auto simp: satisfied_now_def settlement_after_status split: option.split)

lemma settlement_after_audit [simp]:
  "installment_settlement_tx i (audit E p s) = installment_settlement_tx i s"
  by (rule installment_settlement_cong) simp_all

lemma satisfied_after_audit [simp]: "satisfied_now i (audit E p s) = satisfied_now i s"
  by (simp add: satisfied_now_def)

lemma coordinate_failure_cases:
  assumes "coordinate_failure E delay inst p s = (Inr res, s')"
  obtains (settled) "res = AlreadySettled" "s' = s" "settled_status_of inst s \<or> satisfied_now inst s"
  | (own) r where "res = AlreadySettled" "s' = set_installment_status inst InstPastDue s"
      "find_by_resulting (paId p) s = Some r" "\<not> satisfied_now inst s" "\<not> settled_status_of inst s"
  | (known) r where "res = RetryScheduled (rtId r) True" "s' = set_installment_status inst InstPastDue s"
      "find_by_original (paId p) s = Some r" "find_by_resulting (paId p) s = None"
      "\<not> satisfied_now inst s" "\<not> settled_status_of inst s"
  | (new) r a where "res = RetryScheduled (rtId r) False" "find_by_original (paId p) s = None"
      "find_by_resulting (paId p) s = None" "retries s' = retries s @ [r]" "rtId r = nextId s"
      "rtOriginal r = paId p" "rtInstallment r = inst" "rtStatus r = RtScheduled" "rtResulting r = None"
      "rtScheduledFor r = add_business_days (clock E) delay"
      "s' = audit E a (set_installment_status inst InstPastDue s
         \<lparr>retries := retries s @ [r], nextId := Suc (nextId s)\<rparr>)"
      "\<not> satisfied_now inst s" "\<not> settled_status_of inst s"
proof -
  let ?s1 = "set_installment_status inst InstPastDue s"
  obtain ag where ag: "paAgreement p = Some ag" "find_agreement ag s \<noteq> None"
    using assms by (auto simp: coordinate_failure_def atomically_def failure_transaction_def
        split: option.splits if_splits)
  show thesis
  proof (cases "settled_status_of inst s \<or> satisfied_now inst s")
    case True
    then have "res = AlreadySettled \<and> s' = s"
      using assms ag by (auto simp: coordinate_failure_def atomically_def failure_transaction_def)
    then show thesis using settled True by blast
  next
    case open_inst: False
    show thesis
    proof (cases "find_by_resulting (paId p) s")
      case (Some r)
      then have "res = AlreadySettled \<and> s' = ?s1"
        using assms ag open_inst by (auto simp: coordinate_failure_def atomically_def failure_transaction_def)
      then show thesis using own Some open_inst by blast
    next
      case not_retry: None
      show thesis
      proof (cases "find_by_original (paId p) s")
        case (Some r)
        then have "res = RetryScheduled (rtId r) True \<and> s' = ?s1"
          using assms ag open_inst not_retry
          by (auto simp: coordinate_failure_def atomically_def failure_transaction_def)
        then show thesis using known Some not_retry open_inst by blast
      next
        case None
        define due where "due = add_business_days (clock E) delay"
        obtain r s2 where i: "insert_retry E (paId p) inst ag due ?s1 = (Inr r, s2)"
          using assms ag open_inst not_retry None
          by (cases "insert_retry E (paId p) inst ag due ?s1"; cases "fst (insert_retry E (paId p) inst ag due ?s1)")
            (auto simp: coordinate_failure_def atomically_def failure_transaction_def andThen_def due_def)
        obtain a where res: "res = RetryScheduled (rtId r) False" "s' = audit E a s2"
          using assms ag open_inst not_retry None i
          by (auto simp: coordinate_failure_def atomically_def failure_transaction_def due_def)
        have r: "rtId r = nextId s \<and> rtOriginal r = paId p \<and> rtInstallment r = inst \<and>
            rtStatus r = RtScheduled \<and> rtResulting r = None \<and> rtScheduledFor r = due"
          using i by (auto simp: insert_retry_def Let_def split: if_splits)
        have s2: "s2 = ?s1\<lparr>retries := retries s @ [r], nextId := Suc (nextId s)\<rparr>"
          using i by (auto simp: insert_retry_def Let_def split: if_splits)
        show thesis
          by (rule new [of r a]) (use res r s2 None not_retry open_inst in \<open>simp_all add: due_def\<close>)
      qed
    qed
  qed
qed

definition retries_kept :: "db \<Rightarrow> db \<Rightarrow> bool" where
  "retries_kept s t \<longleftrightarrow> (\<forall>r \<in> set (retries s). \<exists>r' \<in> set (retries t). rtOriginal r' = rtOriginal r \<and>
     (rtResulting r \<noteq> None \<longrightarrow> rtResulting r' = rtResulting r))"

lemma find_by_original_None: "find_by_original p s = None \<longleftrightarrow> (\<forall>r \<in> set (retries s). rtOriginal r \<noteq> p)"
  by (auto simp: find_by_original_def find_None_iff)

lemma find_by_original_Some: "find_by_original p s = Some r \<Longrightarrow> r \<in> set (retries s) \<and> rtOriginal r = p"
  by (auto simp: find_by_original_def find_Some_iff)

lemma no_second_retry:
  assumes "coordinate_failure E delay inst p s = (Inr res, s')" and "find_by_original (paId p) s \<noteq> None"
  shows "retries s' = retries s \<and> audits s' = audits s"
  using assms(1) by (cases rule: coordinate_failure_cases) (use assms(2) in auto)

text \<open>
  A failed charge gets one retry and no more: \<open>coordinateFailure\<close> adds at most one retry, on the
  configured business day, and only for a payment that is nobody's retry, that has none yet, and whose
  installment is neither settled, waived nor covered by other money. Once it has answered with a
  retry, no later delivery of the failure adds a second one or writes to the trail again, however the
  retries have moved on; and it never touches payments or the ledger.
\<close>

theorem failure_schedules_one_retry:
  assumes "coordinate_failure E delay inst p s = (Inr res, s')"
  shows "(retries s' = retries s \<or>
     (\<exists>r. retries s' = retries s @ [r] \<and> res = RetryScheduled (rtId r) False \<and> rtOriginal r = paId p \<and>
        rtInstallment r = inst \<and> rtStatus r = RtScheduled \<and>
        rtScheduledFor r = add_business_days (clock E) delay \<and>
        (\<forall>q \<in> set (retries s). rtOriginal q \<noteq> paId p \<and> rtResulting q \<noteq> Some (paId p)) \<and>
        \<not> satisfied_now inst s \<and> \<not> settled_status_of inst s)) \<and>
    payments s' = payments s \<and> entries s' = entries s \<and>
    (res \<noteq> AlreadySettled \<longrightarrow> (\<forall>t E2 d2 res2 t2. retries_kept s' t \<longrightarrow>
       coordinate_failure E2 d2 inst p t = (Inr res2, t2) \<longrightarrow> retries t2 = retries t \<and> audits t2 = audits t))"
proof -
  have later: "find_by_original (paId p) t \<noteq> None"
    if k: "retries_kept s' t" and r: "r \<in> set (retries s')" "rtOriginal r = paId p" for t r
  proof -
    obtain r' where "r' \<in> set (retries t)" "rtOriginal r' = paId p"
      using k r by (auto simp: retries_kept_def)
    then show ?thesis by (auto simp: find_by_original_None)
  qed
  from assms show ?thesis
  proof (cases rule: coordinate_failure_cases)
    case (known r)
    have r: "r \<in> set (retries s')" "rtOriginal r = paId p"
      using find_by_original_Some [OF known(3)] known(2) by simp_all
    have "retries t2 = retries t \<and> audits t2 = audits t"
      if "retries_kept s' t" "coordinate_failure E2 d2 inst p t = (Inr res2, t2)" for t E2 d2 res2 t2
      using no_second_retry [OF that(2) later [OF that(1) r]] .
    then show ?thesis using known(2) by simp
  next
    case (new r a)
    have r: "r \<in> set (retries s')" "rtOriginal r = paId p" using new(4,6) by simp_all
    have "retries t2 = retries t \<and> audits t2 = audits t"
      if "retries_kept s' t" "coordinate_failure E2 d2 inst p t = (Inr res2, t2)" for t E2 d2 res2 t2
      using no_second_retry [OF that(2) later [OF that(1) r]] .
    moreover have "\<forall>q \<in> set (retries s). rtOriginal q \<noteq> paId p \<and> rtResulting q \<noteq> Some (paId p)"
      using new(2,3) by (auto simp: find_by_original_None find_by_resulting_def find_None_iff)
    moreover have "payments s' = payments s \<and> entries s' = entries s" by (simp add: new(11))
    ultimately show ?thesis using new by blast
  qed simp_all
qed

definition sample_failed_db :: db where
  "sample_failed_db = sample_open_db\<lparr>payments := [sample_payment 7 PFailed 60]\<rparr>"

lemma sample_failed_rows [simp]:
  "payments sample_failed_db = [sample_payment 7 PFailed 60]" "entries sample_failed_db = []"
  "agreements sample_failed_db = [sample_agreement FirstPaymentPending]" "retries sample_failed_db = []"
  "installments sample_failed_db = [\<lparr>inId = 20, inVersion = 10, inSequence = 1, inDueDate = ''2026-01-31'',
     inAmount = 100, inStatus = InstScheduled\<rparr>]"
  "nextId sample_failed_db = 42" "paId (sample_payment i st n) = i"
  "paAgreement (sample_payment i st n) = Some 1" "paInstallment (sample_payment i st n) = Some 20"
  "paStatus (sample_payment i st n) = st" "paKey (sample_payment i st n) = ''k1''"
  by (simp_all add: sample_failed_db_def sample_open_db_def empty_db_def sample_payment_def)

lemma sample_failed_uncovered [simp]:
  "satisfied_now 20 sample_failed_db \<longleftrightarrow> False" "settled_status_of 20 sample_failed_db \<longleftrightarrow> False"
  by (simp_all add: satisfied_now_def settled_status_of_def installment_settlement_tx_def
      installment_entries_def compute_installment_settlement_def reconstruct_paid_and_reversed_def
      classify_payment_attempts_def by_payment_def List.map_filter_def Let_def)

lemma sample_failure_runs:
  "\<exists>r s'. coordinate_failure toy_env 3 20 (sample_payment 7 PFailed 60) sample_failed_db =
     (Inr (RetryScheduled 42 False), s') \<and> retries s' = [r]"
  by (simp add: coordinate_failure_def atomically_def failure_transaction_def find_by_original_def
      find_by_resulting_def insert_retry_def Let_def andThen_def find_set_installment_status)

theorem failure_schedules_one_retry_witness:
  "\<exists>r s'. coordinate_failure toy_env 3 20 (sample_payment 7 PFailed 60) sample_failed_db =
     (Inr (RetryScheduled 42 False), s') \<and> retries s' = [r] \<and>
     (\<forall>res2 t2. coordinate_failure toy_env 9 20 (sample_payment 7 PFailed 60) s' = (Inr res2, t2) \<longrightarrow>
        retries t2 = [r])"
proof -
  obtain r s' where r: "coordinate_failure toy_env 3 20 (sample_payment 7 PFailed 60) sample_failed_db =
      (Inr (RetryScheduled 42 False), s')" "retries s' = [r]"
    using sample_failure_runs by blast
  have "retries_kept s' s'" by (auto simp: retries_kept_def)
  then show ?thesis using failure_schedules_one_retry [OF r(1)] r by auto
qed

section \<open>The installment follows the ledger\<close>

lemma settlement_sound:
  assumes "rows_sound s" and "find_installment inst s = Some i"
  shows "\<exists>snap. installment_settlement_tx inst s = Some (snap, inDueDate i, inStatus i) \<and>
    (ssSatisfied snap \<longleftrightarrow> inAmount i \<le> total_paid (installment_entries inst s))"
proof -
  have i: "i \<in> set (installments s)" "inId i = inst"
    using lookup_by_Some_mem [OF assms(2)] lookup_by_Some_key [OF assms(2)] by simp_all
  have "reconstruct_paid_and_reversed (installment_entries inst s) =
      (total_paid (installment_entries inst s), total_reversed (installment_entries inst s))"
    using assms(1) i by (intro reconstruct_exact) (auto simp: rows_sound_def list_all_iff)
  then show ?thesis
    by (simp add: installment_settlement_tx_def assms(2) compute_installment_settlement_def Let_def)
qed

lemma audit_canceled_frame [simp, frame_simps]:
  "installments (audit_canceled E ids s) = installments s" "retries (audit_canceled E ids s) = retries s"
  "payments (audit_canceled E ids s) = payments s" "entries (audit_canceled E ids s) = entries s"
  "agreements (audit_canceled E ids s) = agreements s" "nextId (audit_canceled E ids s) = nextId s"
  by (induction ids arbitrary: s) simp_all

lemma success_transaction_cases:
  assumes "success_transaction E inst s = (Inr (ids, covered), s')" and "find_installment inst s = Some i"
    and "installment_settlement_tx inst s = Some (snap, due, st)"
  obtains (open_waived) "\<not> ssSatisfied snap" "inStatus i = InstWaived" "s' = s" "\<not> covered"
  | (open_due) past where "\<not> ssSatisfied snap" "inStatus i \<noteq> InstWaived" "\<not> covered"
      "is_past_date (inDueDate i) (clock E) = Inr past"
      "s' = set_installment_status inst (if past then InstPastDue else InstScheduled) s"
  | (paid) "ssSatisfied snap" "covered"
      "(ids, s') = cancel_open_retries E inst (set_installment_status inst InstPaid s)"
  using assms by (auto simp: success_transaction_def split: if_splits sum.splits prod.splits)

lemma cancel_open_frame [simp, frame_simps]:
  "installments (snd (cancel_open_retries E i s)) = installments s"
  "payments (snd (cancel_open_retries E i s)) = payments s"
  "entries (snd (cancel_open_retries E i s)) = entries s"
  by (simp_all add: cancel_open_retries_def)

lemma canceled_leaves_anchored:
  assumes "r \<in> set (retries (snd (cancel_open_retries E inst s)))" and "rtInstallment r = inst"
    and "rtStatus r = RtScheduled \<or> rtStatus r = RtClaimed"
  shows "has_anchor s r"
proof -
  have m: "retries (snd (cancel_open_retries E inst s)) = map (\<lambda>q. if cancelable inst s q
      then canceled_by E ''A payment for this installment succeeded.'' q else q) (retries s)"
    by (simp add: cancel_open_retries_def)
  obtain q where q: "r = (if cancelable inst s q
      then canceled_by E ''A payment for this installment succeeded.'' q else q)"
    using assms(1) unfolding m set_map by (elim imageE)
  have "rtStatus (canceled_by E why q) = RtCanceled" for why by (simp add: canceled_by_def)
  then have "\<not> cancelable inst s q" using q assms(3) by (auto split: if_splits)
  then show ?thesis using q assms(2,3) by (auto simp: cancelable_def)
qed

lemma anchor_cong: "payments s' = payments s \<Longrightarrow> has_anchor s' r = has_anchor s r"
  by (simp add: has_anchor_def)

text \<open>
  A success settles exactly what the ledger covers. \<open>coordinateSuccess\<close> marks the installment paid
  if and only if the payments that stayed cover its amount; otherwise it shows it due or past due by
  the calendar, or leaves a waiver. Once covered, no retry of it that has not reached a payment row of
  its own can still fire; uncovered, no retry is canceled. Other installments, the payments and the
  ledger are untouched.
\<close>

theorem success_settles_what_is_covered:
  assumes "rows_sound s" and "find_installment inst s = Some i"
    and "coordinate_success E inst s = (Inr (ids, covered), s')"
  shows "(covered \<longleftrightarrow> inAmount i \<le> total_paid (installment_entries inst s)) \<and>
    map_option inStatus (find_installment inst s') = Some
      (if covered then InstPaid else if inStatus i = InstWaived then InstWaived
       else if is_past_date (inDueDate i) (clock E) = Inr True then InstPastDue else InstScheduled) \<and>
    (\<forall>j. j \<noteq> inst \<longrightarrow> find_installment j s' = find_installment j s) \<and>
    (covered \<longrightarrow> (\<forall>r \<in> set (retries s'). rtInstallment r = inst \<and>
       (rtStatus r = RtScheduled \<or> rtStatus r = RtClaimed) \<longrightarrow> has_anchor s' r)) \<and>
    (\<not> covered \<longrightarrow> retries s' = retries s) \<and> payments s' = payments s \<and> entries s' = entries s"
proof -
  obtain s1 where t: "success_transaction E inst s = (Inr (ids, covered), s1)" "s' = audit_canceled E ids s1"
    using assms(3) by (auto simp: coordinate_success_def andThen_Inr_iff atomically_Inr)
  obtain snap where snap: "installment_settlement_tx inst s = Some (snap, inDueDate i, inStatus i)"
      "ssSatisfied snap \<longleftrightarrow> inAmount i \<le> total_paid (installment_entries inst s)"
    using settlement_sound [OF assms(1,2)] by blast
  from t(1) assms(2) snap(1) show ?thesis
  proof (cases rule: success_transaction_cases)
    case open_waived
    then show ?thesis using snap(2) assms(2) t(2) by simp
  next
    case (open_due past)
    then show ?thesis using snap(2) assms(2) t(2) by (simp add: find_set_installment_status)
  next
    case paid
    let ?m = "set_installment_status inst InstPaid s"
    have s1: "s1 = snd (cancel_open_retries E inst ?m)" using paid(3) by (metis snd_conv)
    have "has_anchor s' r" if "r \<in> set (retries s')" "rtInstallment r = inst"
        "rtStatus r = RtScheduled \<or> rtStatus r = RtClaimed" for r
      using canceled_leaves_anchored [of r E inst ?m] that anchor_cong [of s' ?m r]
      by (simp add: t(2) s1)
    then show ?thesis
      using paid snap(2) assms(2) by (auto simp: t(2) s1 find_set_installment_status)
  qed
qed

lemma earlier_outcome_None:
  "earlier_outcome event s = None \<Longrightarrow> act = reopened_action \<or> act = not_required_action \<Longrightarrow>
     find_by_provider_event (Value event) act (audits s) = None"
  by (auto simp: earlier_outcome_def find_by_provider_event_def find_None_iff)

lemma earlier_outcome_found:
  assumes "r \<in> set (audits s)" and "providerEventId r = Value event"
    and "action r = reopened_action \<or> action r = not_required_action"
  shows "earlier_outcome event s \<noteq> None"
  using assms by (auto simp: earlier_outcome_def find_None_iff)

lemma supersession_audited:
  assumes "earlier_outcome event s = None" and "act = reopened_action \<or> act = not_required_action"
    and "audits s1 = audits s" and "take (length (audits s')) (audits t) = audits s'"
    and "s' = supersession_audit E inst p event act old new why s1"
  shows "earlier_outcome event t \<noteq> None"
proof -
  obtain r where r: "audits s' = audits s1 @ [r]" "action r = act" "providerEventId r = Value event"
    using audit_appended [where E = E and s = s1] earlier_outcome_None [OF assms(1,2)] assms(3)
    unfolding assms(5) supersession_audit_def by (force simp: blank_audit_def stored_def)
  obtain zs where "audits t = audits s' @ zs" using take_prefix_obtain [OF assms(4)] .
  then show ?thesis using r assms(2) by (intro earlier_outcome_found [of r]) simp_all
qed

text \<open>
  Money taken back reopens an installment exactly when it is no longer covered, once per event.
  The first handling of the event puts the installment back to due or past due if and only if the
  payments that stayed do not cover it, unless it was waived, and touches no other installment, no
  payment and no entry; every later handling of the same event, whatever changed in between,
  leaves the database as it is.
\<close>

theorem supersession_reopens_once:
  assumes "rows_sound s" and "find_installment inst s = Some i" and "earlier_outcome event s = None"
    and "coordinate_supersession E inst p event s = (Inr res, s')"
  shows "map_option inStatus (find_installment inst s') = Some
      (if inStatus i = InstWaived \<or> inAmount i \<le> total_paid (installment_entries inst s) then inStatus i
       else if is_past_date (inDueDate i) (clock E) = Inr True then InstPastDue else InstScheduled) \<and>
    (\<forall>j. j \<noteq> inst \<longrightarrow> find_installment j s' = find_installment j s) \<and>
    payments s' = payments s \<and> entries s' = entries s \<and>
    (\<forall>t E2 inst2 p2. take (length (audits s')) (audits t) = audits s' \<longrightarrow>
       (\<exists>res2. coordinate_supersession E2 inst2 p2 event t = (Inr res2, t)))"
proof -
  have t: "supersession_transaction E inst p event s = (Inr res, s')"
    using assms(3,4) by (simp add: coordinate_supersession_def atomically_Inr)
  obtain snap where snap: "installment_settlement_tx inst s = Some (snap, inDueDate i, inStatus i)"
      "ssSatisfied snap \<longleftrightarrow> inAmount i \<le> total_paid (installment_entries inst s)"
    using settlement_sound [OF assms(1,2)] by blast
  have once: "\<exists>res2. coordinate_supersession E2 inst2 p2 event t = (Inr res2, t)"
    if "earlier_outcome event t \<noteq> None" for t E2 inst2 p2
    using that by (auto simp: coordinate_supersession_def)
  consider (same) act old new why where "s' = supersession_audit E inst p event act old new why s"
      "act = not_required_action" "inStatus i = InstWaived \<or> ssSatisfied snap"
    | (reopened) past old new why where "\<not> ssSatisfied snap" "inStatus i \<noteq> InstWaived"
      "is_past_date (inDueDate i) (clock E) = Inr past"
      "s' = supersession_audit E inst p event reopened_action old new why
         (set_installment_status inst (if past then InstPastDue else InstScheduled) s)"
    using t snap(1) assms(2,3)
    by (auto simp: supersession_transaction_def Let_def split: if_splits sum.splits)
  then show ?thesis
  proof cases
    case same
    have "earlier_outcome event t \<noteq> None" if "take (length (audits s')) (audits t) = audits s'" for t
      by (rule supersession_audited [OF assms(3) _ _ that same(1)]) (simp_all add: same(2))
    then show ?thesis using same snap(2) assms(2) once by (auto simp: supersession_audit_def)
  next
    case (reopened past)
    have "earlier_outcome event t \<noteq> None" if "take (length (audits s')) (audits t) = audits s'" for t
      by (rule supersession_audited [OF assms(3) _ _ that reopened(4)]) simp_all
    then show ?thesis
      using reopened snap(2) assms(2) once
      by (auto simp: supersession_audit_def find_set_installment_status)
  qed
qed

lemma sample_paid_installment:
  "find_installment 20 (sample_paid_db st) = Some \<lparr>inId = 20, inVersion = 10, inSequence = 1,
     inDueDate = ''2026-01-31'', inAmount = 100, inStatus = InstScheduled\<rparr>"
  "total_paid (installment_entries 20 (sample_paid_db st)) = 100"
  using sample_paid_covered [of st]
  by (simp_all add: journal_defs sample_cleared_db_def sample_entry_input_def sample_payment_def)
    (simp_all add: sample_paid_db_def)

theorem success_settles_what_is_covered_witness:
  "\<exists>ids s'. coordinate_success toy_env 20 (sample_paid_db Active) = (Inr (ids, True), s') \<and>
     map_option inStatus (find_installment 20 s') = Some InstPaid"
proof -
  let ?s = "sample_paid_db Active"
  obtain snap where "installment_settlement_tx 20 ?s = Some (snap, ''2026-01-31'', InstScheduled)"
      "ssSatisfied snap"
    using settlement_sound [OF sample_paid_sound sample_paid_installment(1)]
    by (auto simp: sample_paid_installment(2))
  then obtain ids s' where r: "coordinate_success toy_env 20 ?s = (Inr (ids, True), s')"
    by (cases "cancel_open_retries toy_env 20 (set_installment_status 20 InstPaid ?s)")
      (auto simp: coordinate_success_def success_transaction_def atomically_def andThen_def
        sample_paid_installment(1))
  show ?thesis
    using success_settles_what_is_covered [OF sample_paid_sound sample_paid_installment(1) r] r
    by (auto simp: sample_paid_installment(2))
qed

theorem supersession_reopens_once_witness:
  "\<exists>res s'. coordinate_supersession toy_env 20 (sample_payment 7 PRefunded 100) ''evt''
       (record_ledger_audit toy_env sample_refund ''ledger_refund'' None ''ledger_system'' (sample_refunded_db PaidInFull)) = (Inr res, s') \<and>
     map_option inStatus (find_installment 20 s') = Some InstPastDue"
proof -
  let ?s = "record_ledger_audit toy_env sample_refund ''ledger_refund'' None ''ledger_system'' (sample_refunded_db PaidInFull)"
  let ?i = "\<lparr>inId = 20, inVersion = 10, inSequence = 1, inDueDate = ''2026-01-31'',
     inAmount = 100, inStatus = InstScheduled\<rparr>"
  have i: "find_installment 20 ?s = Some ?i"
    using sample_paid_installment(1) [of PaidInFull]
    by (simp add: record_ledger_audit_def sample_refunded_db_def)
  have z: "total_paid (installment_entries 20 ?s) = 0"
    by (simp add: record_ledger_audit_def sample_refunded_db_def sample_refund_def
        journal_defs sample_cleared_db_def sample_entry_input_def sample_payment_def)
  have e: "earlier_outcome ''evt'' ?s = None"
    by (simp add: earlier_outcome_def record_ledger_audit_def audit_def record_audit_def
        append_audit_event_def find_by_provider_event_def blank_audit_def Let_def stored_def
        sample_refunded_db_def)
  obtain snap where snap: "installment_settlement_tx 20 ?s = Some (snap, ''2026-01-31'', InstScheduled)"
      "\<not> ssSatisfied snap"
    using settlement_sound [OF sample_refunded_sound i] by (auto simp: z)
  obtain res s' where r: "coordinate_supersession toy_env 20 (sample_payment 7 PRefunded 100) ''evt'' ?s
      = (Inr res, s')"
    using snap by (auto simp: coordinate_supersession_def supersession_transaction_def e i sample_past
        atomically_def Let_def)
  show ?thesis
    using supersession_reopens_once [OF sample_refunded_sound i e r] r by (auto simp: z sample_past)
qed

end
