(* ===== verification/Agreements.thy ===== *)
theory Agreements
  imports Completion
begin

text \<open>
  From a draft to a signed agreement (\<open>agreements/agreementService.ts\<close>): the repositories of
  agreements, versions, parties and schedules, the hash of a version's terms, the two transactions
  that sign and revise under the locks of agreement and version, and the negotiation between the
  parties. Each operation of the service is one function; each transaction inside it is a function
  of its own, so that the laws can also interleave transactions of different requests. Notifications
  and identity snapshots, whose errors the service swallows, are left out.
\<close>

section \<open>Who may act for a party\<close>

text \<open>Address and device of a request.\<close>

type_synonym request_context = "string option \<times> json"

text \<open>Owners of profiles, active staff of a business, staff with a capability.\<close>

record party_deps =
  partyOwner :: "profile_ref \<Rightarrow> uuid option"
  activeStaff :: "uuid \<Rightarrow> uuid \<Rightarrow> bool"
  staffCapability :: "uuid \<Rightarrow> uuid \<Rightarrow> string \<Rightarrow> bool"

text \<open>\<open>authorizeParty\<close>\<close>

definition authorize_party :: "party_deps \<Rightarrow> uuid \<Rightarrow> profile_ref \<Rightarrow> string option \<Rightarrow> bool" where
  "authorize_party A user party cap =
     (if partyOwner A party = Some user then True
      else if fst party = PersonalProfile then False
      else case cap of
        Some c \<Rightarrow> staffCapability A (snd party) user c
      | None \<Rightarrow> activeStaff A (snd party) user)"

abbreviation mayAct :: "party_deps \<Rightarrow> uuid \<Rightarrow> profile_ref \<Rightarrow> bool" where
  "mayAct A user party \<equiv> authorize_party A user party None"

definition party_of :: "party_role \<Rightarrow> agreement_row \<Rightarrow> profile_ref" where
  "party_of role a = (case role of Creditor \<Rightarrow> agCreditor a | Debtor \<Rightarrow> agDebtor a)"

definition other_party :: "party_role \<Rightarrow> party_role" where
  "other_party role = (case role of Creditor \<Rightarrow> Debtor | Debtor \<Rightarrow> Creditor)"

definition authorize_as_role ::
    "party_deps \<Rightarrow> agreement_row \<Rightarrow> party_role \<Rightarrow> uuid \<Rightarrow> string option \<Rightarrow> (db, error, unit) step" where
  "authorize_as_role A a role user cap =
     guard (authorize_party A user (party_of role a) cap) (ForbiddenError ''NoAccess'')"

definition authorize_either_party :: "party_deps \<Rightarrow> agreement_row \<Rightarrow> uuid \<Rightarrow> error + party_role" where
  "authorize_either_party A a user =
     (if mayAct A user (agCreditor a) then Inr Creditor
      else if mayAct A user (agDebtor a) then Inr Debtor
      else Inl (ForbiddenError ''NotAParty''))"

definition require_agreement :: "uuid \<Rightarrow> db \<Rightarrow> error + agreement_row" where
  "require_agreement ag s =
     (case find_agreement ag s of None \<Rightarrow> Inl (ValidationError ''AgreementNotFound'') | Some a \<Rightarrow> Inr a)"

definition require_version :: "uuid \<Rightarrow> db \<Rightarrow> error + version_row" where
  "require_version v s =
     (case find_version v s of None \<Rightarrow> Inl (ValidationError ''VersionNotFound'') | Some x \<Rightarrow> Inr x)"

definition require_current_version :: "agreement_row \<Rightarrow> db \<Rightarrow> error + version_row" where
  "require_current_version a s =
     (case agCurrentVersion a of None \<Rightarrow> Inl (ValidationError ''NoCurrentVersion'') | Some v \<Rightarrow> require_version v s)"

definition resolve_party_role :: "party_deps \<Rightarrow> uuid \<Rightarrow> uuid \<Rightarrow> db \<Rightarrow> error + party_role" where
  "resolve_party_role A ag user s = bindE (require_agreement ag s) (\<lambda>a. authorize_either_party A a user)"

definition require_creditor_capability ::
    "party_deps \<Rightarrow> uuid \<Rightarrow> uuid \<Rightarrow> string \<Rightarrow> db \<Rightarrow> error + unit" where
  "require_creditor_capability A ag user cap s =
     bindE (require_agreement ag s) (\<lambda>a.
       if authorize_party A user (agCreditor a) (Some cap) then Inr () else Inl (ForbiddenError cap))"

text \<open>\<open>getAgreement\<close>: the agreement with its current version, for a party.\<close>

definition get_agreement :: "party_deps \<Rightarrow> uuid \<Rightarrow> uuid \<Rightarrow> db \<Rightarrow> error + agreement_row" where
  "get_agreement A ag user s =
     bindE (require_agreement ag s) (\<lambda>a.
     bindE (authorize_either_party A a user) (\<lambda>_.
     bindE (require_current_version a s) (\<lambda>_. Inr a)))"

definition require_status :: "agreement_row \<Rightarrow> agreement_status \<Rightarrow> (db, error, unit) step" where
  "require_status a st = guard (agStatus a = st) (ValidationError ''WrongStatus'')"

definition pre_acceptance_statuses :: "agreement_status list" where
  "pre_acceptance_statuses = [Draft, AwaitingDebtorAcknowledgment, AwaitingCreditorAcceptance]"

definition relationship_shape :: "agreement_row \<Rightarrow> string" where
  "relationship_shape a =
     (case (fst (agCreditor a), fst (agDebtor a)) of
        (PersonalProfile, PersonalProfile) \<Rightarrow> ''P2P''
      | (BusinessProfile, PersonalProfile) \<Rightarrow> ''B2C''
      | (PersonalProfile, BusinessProfile) \<Rightarrow> ''C2B''
      | _ \<Rightarrow> ''B2B'')"

section \<open>Repositories\<close>

definition set_agreement :: "uuid \<Rightarrow> (agreement_row \<Rightarrow> agreement_row) \<Rightarrow> db \<Rightarrow> db" where
  "set_agreement i f s = s\<lparr>agreements := update_by agId i f (agreements s)\<rparr>"

definition set_version :: "uuid \<Rightarrow> (version_row \<Rightarrow> version_row) \<Rightarrow> db \<Rightarrow> db" where
  "set_version i f s = s\<lparr>versions := update_by avId i f (versions s)\<rparr>"

definition insert_agreement ::
    "profile_ref \<Rightarrow> profile_ref \<Rightarrow> string \<Rightarrow> uuid \<Rightarrow> db \<Rightarrow> agreement_row \<times> db" where
  "insert_agreement creditor debtor currency creator s =
     (let a = \<lparr>agId = nextId s, agStatus = Draft, agCurrentVersion = None, agCreditor = creditor,
        agDebtor = debtor, agCurrency = currency, agCreatedBy = creator, agRelationship = None\<rparr>
      in (a, s\<lparr>agreements := agreements s @ [a], nextId := Suc (nextId s)\<rparr>))"

definition set_current_version_id :: "uuid \<Rightarrow> uuid \<Rightarrow> db \<Rightarrow> db" where
  "set_current_version_id i v = set_agreement i (\<lambda>a. a\<lparr>agCurrentVersion := Some v\<rparr>)"

text \<open>\<open>applyAcceptanceTransitionAtomically\<close>\<close>

definition apply_acceptance :: "uuid \<Rightarrow> uuid \<Rightarrow> agreement_status list \<Rightarrow> agreement_status \<Rightarrow> db \<Rightarrow> bool \<times> db" where
  "apply_acceptance ag v expected st s =
     (case find_agreement ag s of
        None \<Rightarrow> (False, s)
      | Some a \<Rightarrow>
          (if agStatus a \<notin> set expected \<or> agCurrentVersion a \<noteq> Some v then (False, s)
           else case find_version v s of
             None \<Rightarrow> (False, s)
           | Some x \<Rightarrow> if avAgreement x \<noteq> ag then (False, s) else (True, set_agreement_status ag st s)))"

record version_input =
  viAgreement :: uuid
  viNumber :: int
  viParent :: "uuid option"
  viOriginal :: bool
  viProducedBy :: string
  viFrequency :: payment_frequency
  viFee :: fee_allocation
  viTerms :: agreement_terms

definition version_of_input :: "uuid \<Rightarrow> version_input \<Rightarrow> version_row" where
  "version_of_input i v =
     \<lparr>avId = i, avAgreement = viAgreement v, avNumber = viNumber v, avParent = viParent v,
      avOriginal = viOriginal v, avProducedBy = viProducedBy v, avFrequency = viFrequency v,
      avFee = viFee v, avTerms = viTerms v, avHash = None, avCreditorSigned = None,
      avDebtorSigned = None, avSigned = None\<rparr>"

text \<open>The index \<open>agreement_version_agreement_number_unique\<close>.\<close>

definition insert_version :: "version_input \<Rightarrow> (db, error, version_row) step" where
  "insert_version v s =
     (if list_ex (\<lambda>x. avAgreement x = viAgreement v \<and> avNumber x = viNumber v) (versions s)
      then (Inl (ForeignError ''agreement_version_agreement_number_unique''), s)
      else let x = version_of_input (nextId s) v
           in (Inr x, s\<lparr>versions := versions s @ [x], nextId := Suc (nextId s)\<rparr>))"

definition list_versions :: "uuid \<Rightarrow> db \<Rightarrow> version_row list" where
  "list_versions ag s = sort_key avNumber (filter (\<lambda>v. avAgreement v = ag) (versions s))"

definition update_terms :: "uuid \<Rightarrow> payment_frequency \<Rightarrow> fee_allocation \<Rightarrow> agreement_terms \<Rightarrow> db \<Rightarrow> db" where
  "update_terms i fr fee t = set_version i (\<lambda>v. v\<lparr>avFrequency := fr, avFee := fee, avTerms := t\<rparr>)"

definition signed_by :: "party_role \<Rightarrow> msec \<Rightarrow> version_row \<Rightarrow> version_row" where
  "signed_by role t v =
     (case role of Creditor \<Rightarrow> v\<lparr>avCreditorSigned := Some t\<rparr> | Debtor \<Rightarrow> v\<lparr>avDebtorSigned := Some t\<rparr>)"

definition record_version_signature :: "uuid \<Rightarrow> party_role \<Rightarrow> msec \<Rightarrow> db \<Rightarrow> db" where
  "record_version_signature i role t = set_version i (signed_by role t)"

definition lock_version :: "uuid \<Rightarrow> string \<Rightarrow> msec \<Rightarrow> db \<Rightarrow> db" where
  "lock_version i h t = set_version i (\<lambda>v. v\<lparr>avHash := Some h, avSigned := Some t\<rparr>)"

definition clear_signatures :: "uuid \<Rightarrow> db \<Rightarrow> db" where
  "clear_signatures i = set_version i (\<lambda>v. v\<lparr>avCreditorSigned := None, avDebtorSigned := None\<rparr>)"

definition insert_party :: "uuid \<Rightarrow> party_role \<Rightarrow> profile_ref \<Rightarrow> (db, error, unit) step" where
  "insert_party ag role p s =
     (if list_ex (\<lambda>x. pyAgreement x = ag \<and> pyRole x = role) (parties s)
      then (Inl (ForeignError ''agreement_party_agreement_role_unique''), s)
      else (Inr (), s\<lparr>parties := parties s @ [\<lparr>pyAgreement = ag, pyRole = role, pyProfile = p\<rparr>]\<rparr>))"

text \<open>
  What the columns of an installment accept: an existing calendar date (of a four-digit year) and
  integers of 32 bits. The rows of one statement go in together or not at all; the sequence numbers
  of a version are unique.
\<close>

definition date_column_ok :: "string \<Rightarrow> bool" where
  "date_column_ok d =
     (case parse_iso_date d of
        Inl _ \<Rightarrow> False
      | Inr (y, m, dd) \<Rightarrow> 1 \<le> y \<and>
          dd \<le> (if m = 2 then if y mod 4 = 0 \<and> (y mod 100 \<noteq> 0 \<or> y mod 400 = 0) then 29 else 28
                else if m = 4 \<or> m = 6 \<or> m = 9 \<or> m = 11 then 30 else 31))"

definition item_ok :: "schedule_item \<Rightarrow> bool" where
  "item_ok it \<longleftrightarrow> date_column_ok (dueDate it) \<and> int4_ok (itemAmount it) \<and> int4_ok (sequenceNumber it)"

definition installment_of :: "uuid \<Rightarrow> uuid \<Rightarrow> schedule_item \<Rightarrow> installment_row" where
  "installment_of v i it = \<lparr>inId = i, inVersion = v, inSequence = sequenceNumber it,
     inDueDate = dueDate it, inAmount = itemAmount it, inStatus = InstScheduled\<rparr>"

definition insert_items :: "uuid \<Rightarrow> schedule_item list \<Rightarrow> (db, error, unit) step" where
  "insert_items v its s =
     (if its = [] then (Inr (), s)
      else if \<not> list_all item_ok its then (Inl (ForeignError ''invalid column value''), s)
      else if \<not> distinct (map sequenceNumber its) \<or>
        list_ex (\<lambda>i. inVersion i = v \<and> inSequence i \<in> set (map sequenceNumber its)) (installments s)
      then (Inl (ForeignError ''installment_schedule_item_version_sequence_unique''), s)
      else (Inr (), s\<lparr>installments := installments s @
              map2 (installment_of v) [nextId s..<nextId s + length its] its,
            nextId := nextId s + length its\<rparr>))"

text \<open>\<open>replaceForVersion\<close>; an attempt that points to a replaced item keeps it from going.\<close>

definition delete_items :: "uuid \<Rightarrow> (db, error, unit) step" where
  "delete_items v s =
     (if list_ex (\<lambda>i. inVersion i = v \<and> (list_ex (\<lambda>p. paInstallment p = Some (inId i)) (payments s) \<or>
           list_ex (\<lambda>r. rtInstallment r = inId i) (retries s) \<or>
           list_ex (\<lambda>q. ppInstallment q = Some (inId i)) (partials s))) (installments s)
      then (Inl (ForeignError ''foreign_key_violation''), s)
      else (Inr (), s\<lparr>installments := filter (\<lambda>i. inVersion i \<noteq> v) (installments s)\<rparr>))"

definition replace_for_version :: "uuid \<Rightarrow> schedule_item list \<Rightarrow> (db, error, unit) step" where
  "replace_for_version v its = atomically (andThen (delete_items v) (\<lambda>_. insert_items v its))"

definition list_for_version :: "uuid \<Rightarrow> db \<Rightarrow> schedule_item list" where
  "list_for_version v s = map (\<lambda>i. \<lparr>sequenceNumber = inSequence i, dueDate = inDueDate i, itemAmount = inAmount i\<rparr>)
     (sort_key inSequence (filter (\<lambda>i. inVersion i = v) (installments s)))"

section \<open>The hash of a version\<close>

text \<open>The terms as the driver reads them back: a \<open>jsonb\<close> object lists its keys by length, then by
  byte.\<close>

definition terms_json :: "agreement_terms \<Rightarrow> json" where
  "terms_json t = JObj
     [(''category'', JStr (tmCategory t)), (''description'', JStr (tmDescription t)),
      (''hardshipRules'', JStr (tmHardship t)), (''settlementRules'', JStr (tmSettlement t)),
      (''disputeProcedure'', JStr (tmDispute t)), (''earlyPayoffTerms'', JStr (tmPayoff t)),
      (''firstPaymentDate'', JStr (tmFirstDate t)), (''partialPaymentRules'', JStr (tmPartial t)),
      (''numberOfInstallments'', JNum (tmCount t)), (''finalPaymentMinorUnits'', JNum (tmFinal t)),
      (''firstPaymentMinorUnits'', JNum (tmFirst t)), (''originalAmountMinorUnits'', JNum (tmOriginal t)),
      (''currentPrincipalMinorUnits'', JNum (tmPrincipal t)),
      (''previousPaymentsMinorUnits'', JNum (tmPrevious t)),
      (''installmentAmountMinorUnits'', JNum (tmInstallment t)),
      (''supportingEvidenceReferences'', JArr (map JStr (tmEvidence t)))]"

definition compute_version_hash :: "env \<Rightarrow> uuid \<Rightarrow> int \<Rightarrow> agreement_terms \<Rightarrow> string" where
  "compute_version_hash E ag n t = sha256 E (stringify (JObj
     [(''agreementId'', json_uuid ag), (''versionNumber'', JNum n), (''terms'', terms_json t)]))"

definition version_hash :: "env \<Rightarrow> version_row \<Rightarrow> string" where
  "version_hash E v = compute_version_hash E (avAgreement v) (avNumber v) (avTerms v)"

section \<open>Signing\<close>

record signing_evidence =
  evUser :: uuid
  evProfile :: profile_ref
  evRole :: party_role
  evAuthority :: "string option"
  evTitle :: "string option"
  evConsent :: bool
  evConsentVersion :: string
  evMethod :: string
  evIp :: string
  evDevice :: json
  evTimezone :: string

record signing_result =
  srAlready :: bool
  srBoth :: bool
  srHash :: "string option"
  srEvent :: "uuid option"
  srHashAtSigning :: "string option"

definition signature_of :: "party_role \<Rightarrow> version_row \<Rightarrow> msec option" where
  "signature_of role v = (case role of Creditor \<Rightarrow> avCreditorSigned v | Debtor \<Rightarrow> avDebtorSigned v)"

text \<open>The index \<open>signature_event_version_role_unique\<close>.\<close>

definition insert_signature_event ::
    "signing_evidence \<Rightarrow> uuid \<Rightarrow> string \<Rightarrow> msec \<Rightarrow> (db, error, uuid) step" where
  "insert_signature_event e v h t s =
     (if list_ex (\<lambda>g. sgVersion g = v \<and> sgRole g = evRole e) (signatures s)
      then (Inl (ForeignError ''signature_event_version_role_unique''), s)
      else (Inr (nextId s), s\<lparr>nextId := Suc (nextId s), signatures := signatures s @
        [\<lparr>sgId = nextId s, sgVersion = v, sgUser = evUser e, sgProfile = evProfile e, sgRole = evRole e,
          sgAuthority = evAuthority e, sgTitle = evTitle e, sgConsent = evConsent e,
          sgConsentVersion = evConsentVersion e, sgMethod = evMethod e, sgIp = evIp e,
          sgDevice = evDevice e, sgTimezone = evTimezone e, sgHash = h, sgAt = t\<rparr>]\<rparr>))"

text \<open>\<open>applySigningAtomically\<close>. Both dates are checked against the clock of the transaction.\<close>

definition date_passed :: "env \<Rightarrow> string \<Rightarrow> error option" where
  "date_passed E d =
     (case is_past_date d (clock E) of
        Inl e \<Rightarrow> Some e
      | Inr b \<Rightarrow> if b then Some ScheduleRevisionRequiredError else None)"

definition signing_checks :: "uuid \<Rightarrow> uuid \<Rightarrow> db \<Rightarrow> error + version_row" where
  "signing_checks ag v s =
     (case find_agreement ag s of
        None \<Rightarrow> Inl (ConfigurationError ''agreement not found'')
      | Some a \<Rightarrow>
     (if agStatus a \<noteq> AwaitingSignatures then Inl (ConflictError ''NoLongerAwaitingSignatures'')
      else if agCurrentVersion a \<noteq> Some v then Inl (ConflictError ''TermsRevised'')
      else case find_version v s of
        None \<Rightarrow> Inl (ConfigurationError ''agreement_version not found'')
      | Some x \<Rightarrow> if avAgreement x \<noteq> ag then Inl (ConflictError ''ForeignVersion'') else Inr x))"

definition signing_transaction ::
    "env \<Rightarrow> uuid \<Rightarrow> uuid \<Rightarrow> party_role \<Rightarrow> party_role \<Rightarrow> msec \<Rightarrow> signing_evidence option \<Rightarrow>
     (db, error, signing_result) step" where
  "signing_transaction E ag v role originator t evidence s =
     (case signing_checks ag v s of
        Inl e \<Rightarrow> (Inl e, s)
      | Inr x \<Rightarrow>
     (if signature_of role x \<noteq> None
      then (Inr \<lparr>srAlready = True, srBoth = False, srHash = None, srEvent = None, srHashAtSigning = None\<rparr>, s)
      else if role = originator \<and> signature_of (other_party originator) x = None
      then (Inl CounterpartyMustSignFirstError, s)
      else case date_passed E (tmFirstDate (avTerms x)) of
        Some e \<Rightarrow> (Inl e, s)
      | None \<Rightarrow>
          andThen (update (record_version_signature v role t)) (\<lambda>_.
          andThen (case evidence of
              None \<Rightarrow> ret (None, None)
            | Some e \<Rightarrow> andThen (insert_signature_event e v (version_hash E x) t) (\<lambda>i.
                ret (Some i, Some (version_hash E x)))) (\<lambda>(event, hash).
          if signature_of (other_party role) x = None
          then ret \<lparr>srAlready = False, srBoth = False, srHash = None, srEvent = event, srHashAtSigning = hash\<rparr>
          else andThen (update (lock_version v (version_hash E x) t)) (\<lambda>_.
            andThen (update (set_agreement_status ag Signed)) (\<lambda>_.
            andThen (update (set_agreement_status ag FirstPaymentPending)) (\<lambda>_.
            ret \<lparr>srAlready = False, srBoth = True, srHash = Some (version_hash E x), srEvent = event,
              srHashAtSigning = hash\<rparr>))))) s))"

definition apply_signing ::
    "env \<Rightarrow> uuid \<Rightarrow> uuid \<Rightarrow> party_role \<Rightarrow> party_role \<Rightarrow> msec \<Rightarrow> signing_evidence option \<Rightarrow>
     (db, error, signing_result) step" where
  "apply_signing E ag v role originator t evidence =
     atomically (signing_transaction E ag v role originator t evidence)"

section \<open>Revision\<close>

record revision_input =
  rvAgreement :: uuid
  rvBase :: uuid
  rvProducedBy :: string
  rvFrequency :: payment_frequency
  rvFee :: fee_allocation
  rvTerms :: agreement_terms
  rvSchedule :: "schedule_item list"

text \<open>The two revision transactions share their shape: the expected status, the base version, the new
  version with its schedule, and the move of the agreement.\<close>

definition revision_transaction ::
    "revision_input \<Rightarrow> agreement_status \<Rightarrow> agreement_status \<Rightarrow> (db, error, uuid \<times> int) step" where
  "revision_transaction r expected st s =
     (case find_agreement (rvAgreement r) s of
        None \<Rightarrow> (Inl (ConfigurationError ''agreement not found''), s)
      | Some a \<Rightarrow>
     (if agStatus a \<noteq> expected then (Inl (ConflictError ''StatusChanged''), s)
      else if agCurrentVersion a \<noteq> Some (rvBase r) then (Inl (ConflictError ''TermsRevised''), s)
      else case find_version (rvBase r) s of
        None \<Rightarrow> (Inl (ConfigurationError ''agreement_version not found''), s)
      | Some x \<Rightarrow>
     (if avAgreement x \<noteq> rvAgreement r then (Inl (ConflictError ''ForeignVersion''), s)
      else if avSigned x \<noteq> None then (Inl (ConflictError ''FullySigned''), s)
      else andThen (insert_version \<lparr>viAgreement = rvAgreement r, viNumber = avNumber x + 1,
             viParent = Some (avId x), viOriginal = False, viProducedBy = rvProducedBy r,
             viFrequency = rvFrequency r, viFee = rvFee r, viTerms = rvTerms r\<rparr>) (\<lambda>y.
           andThen (insert_items (avId y) (rvSchedule r)) (\<lambda>_.
           andThen (update (set_agreement (rvAgreement r)
             (\<lambda>a. a\<lparr>agCurrentVersion := Some (avId y), agStatus := st\<rparr>))) (\<lambda>_.
           ret (avId y, avNumber y)))) s)))"

definition apply_date_revision :: "revision_input \<Rightarrow> (db, error, uuid \<times> int) step" where
  "apply_date_revision r = atomically (revision_transaction
     (r\<lparr>rvProducedBy := ''first_payment_date_revision''\<rparr>) AwaitingSignatures AwaitingSignatures)"

definition apply_terms_revision ::
    "revision_input \<Rightarrow> agreement_status \<Rightarrow> agreement_status \<Rightarrow> (db, error, uuid \<times> int) step" where
  "apply_terms_revision r expected st = atomically (revision_transaction r expected st)"

section \<open>Deleting a draft\<close>

text \<open>
  The rows go version by version; a row elsewhere that points to the agreement, its versions or
  its installments (the foreign keys) stops the deletion. \<open>referenced\<close> speaks for the tables that are
  not in \<open>db\<close>.
\<close>

definition agreement_referenced :: "(uuid \<Rightarrow> bool) \<Rightarrow> uuid \<Rightarrow> db \<Rightarrow> bool" where
  "agreement_referenced referenced ag s \<longleftrightarrow> referenced ag \<or>
     list_ex (\<lambda>p. paAgreement p = Some ag) (payments s) \<or>
     list_ex (\<lambda>e. jeAgreement e = ag) (entries s) \<or> list_ex (\<lambda>c. acAgreement c = ag) (accounts s) \<or>
     list_ex (\<lambda>r. rtAgreement r = ag) (retries s) \<or> list_ex (\<lambda>q. ppAgreement q = ag) (partials s) \<or>
     list_ex (\<lambda>m. amAgreement m = ag) (amendments s) \<or> list_ex (\<lambda>q. seAgreement q = ag) (settlements s) \<or>
     list_ex (\<lambda>c. crAgreement c = ag) (cancellations s) \<or> list_ex (\<lambda>d. diAgreement d = ag) (disputes s) \<or>
     list_ex (\<lambda>d. evAgreement d = ag) (evidences s) \<or> list_ex (\<lambda>w. wiAgreement w = ag) (witnesses s) \<or>
     list_ex (\<lambda>v. avAgreement v = ag \<and> list_ex (\<lambda>g. sgVersion g = avId v) (signatures s)) (versions s)"

definition delete_draft_rows :: "(uuid \<Rightarrow> bool) \<Rightarrow> uuid \<Rightarrow> (db, error, unit) step" where
  "delete_draft_rows referenced ag s =
     (let vs = map avId (filter (\<lambda>v. avAgreement v = ag) (versions s))
      in if agreement_referenced referenced ag s \<or>
            list_ex (\<lambda>v. case delete_items v s of (Inl _, _) \<Rightarrow> True | _ \<Rightarrow> False) vs
         then (Inl (ValidationError ''RelatedRecords''), s)
         else (Inr (), s\<lparr>installments := filter (\<lambda>i. inVersion i \<notin> set vs) (installments s),
           versions := filter (\<lambda>v. avAgreement v \<noteq> ag) (versions s),
           parties := filter (\<lambda>p. pyAgreement p \<noteq> ag) (parties s),
           agreements := filter (\<lambda>a. agId a \<noteq> ag) (agreements s)\<rparr>))"

section \<open>Terms\<close>

record terms_input =
  tiCategory :: string
  tiDescription :: string
  tiOriginal :: int
  tiPrevious :: int
  tiFirst :: int
  tiInstallment :: int
  tiFrequency :: payment_frequency
  tiFirstDate :: string
  tiFee :: fee_allocation
  tiPayoff :: string
  tiHardship :: string
  tiPartial :: string
  tiSettlement :: string
  tiDispute :: string
  tiEvidence :: "string list option"

definition schedule_input_of :: "int \<Rightarrow> int \<Rightarrow> int \<Rightarrow> payment_frequency \<Rightarrow> string \<Rightarrow> schedule_input" where
  "schedule_input_of owed_now first inst fr d = \<lparr>currentPrincipal = owed_now, firstPayment = first,
     installmentAmount = inst, frequency = fr, firstPaymentDate = d\<rparr>"

definition build_terms :: "terms_input \<Rightarrow> error + agreement_terms \<times> schedule_item list" where
  "build_terms t =
     (if list_ex blank_text [tiCategory t, tiDescription t, tiPayoff t, tiHardship t, tiPartial t,
        tiSettlement t, tiDispute t] then Inl (ValidationError ''required'')
      else if \<not> safe_int (tiOriginal t) \<or> tiOriginal t \<le> 0 then Inl (ValidationError ''originalAmountMinorUnits'')
      else if \<not> safe_int (tiPrevious t) \<or> tiPrevious t < 0 then Inl (ValidationError ''previousPaymentsMinorUnits'')
      else let owed_now = js_sub (tiOriginal t) (tiPrevious t)
           in if owed_now < 0 then Inl (ValidationError ''previousPaymentsExceedOriginal'')
              else bindE (compute_schedule (schedule_input_of owed_now (tiFirst t) (tiInstallment t)
                  (tiFrequency t) (tiFirstDate t))) (\<lambda>c.
                Inr (\<lparr>tmCategory = tiCategory t, tmDescription = tiDescription t,
                   tmOriginal = tiOriginal t, tmPrevious = tiPrevious t, tmPrincipal = owed_now,
                   tmFirst = tiFirst t, tmInstallment = tiInstallment t, tmFirstDate = tiFirstDate t,
                   tmFinal = finalPayment c, tmCount = numberOfInstallments c, tmPayoff = tiPayoff t,
                   tmHardship = tiHardship t, tmPartial = tiPartial t, tmSettlement = tiSettlement t,
                   tmDispute = tiDispute t,
                   tmEvidence = (case tiEvidence t of None \<Rightarrow> [] | Some xs \<Rightarrow> xs)\<rparr>, items c)))"

section \<open>The service\<close>

text \<open>
  \<open>gdNamed\<close>: has the user given a name; \<open>gdConnect\<close>: propose (\<open>False\<close>) or confirm (\<open>True\<close>) the
  relationship of the two owners on behalf of a user; \<open>gdReferenced\<close>: rows of other tables that point
  to an agreement.
\<close>

record agreement_deps =
  gdParty :: party_deps
  gdNamed :: "uuid \<Rightarrow> bool"
  gdConnect :: "bool \<Rightarrow> agreement_row \<Rightarrow> uuid \<Rightarrow> uuid \<Rightarrow> uuid \<Rightarrow> (db, error, unit) step"
  gdReferenced :: "uuid \<Rightarrow> bool"

definition role_name :: "party_role \<Rightarrow> string" where
  "role_name role = (case role of Creditor \<Rightarrow> ''creditor'' | Debtor \<Rightarrow> ''debtor'')"

fun agreement_status_name :: "agreement_status \<Rightarrow> string" where
  "agreement_status_name Draft = ''draft''"
| "agreement_status_name AwaitingDebtorAcknowledgment = ''awaiting_debtor_acknowledgment''"
| "agreement_status_name AwaitingCreditorAcceptance = ''awaiting_creditor_acceptance''"
| "agreement_status_name AwaitingSignatures = ''awaiting_signatures''"
| "agreement_status_name Signed = ''signed''"
| "agreement_status_name FirstPaymentPending = ''first_payment_pending''"
| "agreement_status_name Active = ''active''"
| "agreement_status_name PastDue = ''past_due''"
| "agreement_status_name Disputed = ''disputed''"
| "agreement_status_name PausedByAmendment = ''paused_by_amendment''"
| "agreement_status_name PaidInFull = ''paid_in_full''"
| "agreement_status_name SettledInFull = ''settled_in_full''"
| "agreement_status_name MutuallyCanceled = ''mutually_canceled''"
| "agreement_status_name Closed = ''closed''"

definition agreement_audit :: "env \<Rightarrow> uuid \<Rightarrow> uuid \<Rightarrow> string \<Rightarrow> json \<Rightarrow> (db, error, unit) step" where
  "agreement_audit E ag actor act v = update (audit E ((blank_audit act (clock E))
     \<lparr>actorUserId := Some actor, actorRole := Some ''agreement_party'', auditAgreementId := Some ag,
      newValue := v\<rparr>))"

definition require_complete_name :: "agreement_deps \<Rightarrow> profile_ref \<Rightarrow> uuid \<Rightarrow> (db, error, unit) step" where
  "require_complete_name A profile user =
     guard (fst profile \<noteq> PersonalProfile \<or> gdNamed A user) ProfileIncompleteError"

text \<open>\<open>tryEstablishConnection\<close> swallows every error.\<close>

definition try_establish_connection :: "agreement_deps \<Rightarrow> bool \<Rightarrow> agreement_row \<Rightarrow> uuid \<Rightarrow> (db, error, unit) step" where
  "try_establish_connection A confirm a actor =
     update (\<lambda>s. case (partyOwner (gdParty A) (agCreditor a), partyOwner (gdParty A) (agDebtor a)) of
        (Some c, Some d) \<Rightarrow> snd (gdConnect A confirm a c d actor s)
      | _ \<Rightarrow> s)"

definition not_past :: "env \<Rightarrow> string \<Rightarrow> error \<Rightarrow> (db, error, unit) step" where
  "not_past E d e = andThen (raised (is_past_date d (clock E))) (\<lambda>past. guard (\<not> past) e)"

text \<open>The rows of a new agreement, statement by statement (this is no transaction).\<close>

definition insert_draft_rows ::
    "uuid \<Rightarrow> profile_ref \<Rightarrow> profile_ref \<Rightarrow> string \<Rightarrow> terms_input \<Rightarrow> agreement_terms \<Rightarrow> schedule_item list \<Rightarrow>
     (db, error, agreement_row) step" where
  "insert_draft_rows creator creditor debtor currency t terms schedule =
     andThen (\<lambda>s. case insert_agreement creditor debtor currency creator s of (a, s1) \<Rightarrow> (Inr a, s1)) (\<lambda>a.
     andThen (insert_version \<lparr>viAgreement = agId a, viNumber = 1, viParent = None, viOriginal = True,
         viProducedBy = ''initial_signing'', viFrequency = tiFrequency t, viFee = tiFee t, viTerms = terms\<rparr>) (\<lambda>v.
     andThen (update (set_current_version_id (agId a) (avId v))) (\<lambda>_.
     andThen (insert_party (agId a) Creditor creditor) (\<lambda>_.
     andThen (insert_party (agId a) Debtor debtor) (\<lambda>_.
     andThen (replace_for_version (avId v) schedule) (\<lambda>_. ret a))))))"

definition create_draft ::
    "agreement_deps \<Rightarrow> env \<Rightarrow> uuid \<Rightarrow> profile_ref \<Rightarrow> profile_ref \<Rightarrow> string option \<Rightarrow> terms_input \<Rightarrow>
     (db, error, agreement_row) step" where
  "create_draft A E creator creditor debtor currency t =
     andThen (guard (creditor \<noteq> debtor) (ValidationError ''SameProfile'')) (\<lambda>_.
     andThen (guard (authorize_party (gdParty A) creator creditor (Some ''create_agreement'') \<or>
         authorize_party (gdParty A) creator debtor (Some ''create_agreement''))
       (ForbiddenError ''NotAuthorizedForEitherParty'')) (\<lambda>_.
     andThen (raised (build_terms t)) (\<lambda>(terms, schedule).
     andThen (not_past E (tmFirstDate terms) (ValidationError ''FirstPaymentDatePast'')) (\<lambda>_.
     andThen (insert_draft_rows creator creditor debtor (case currency of None \<Rightarrow> ''USD'' | Some c \<Rightarrow> c)
       t terms schedule) (\<lambda>a.
     andThen (agreement_audit E (agId a) creator ''agreement_created''
       (JObj [(''relationshipShape'', JStr (relationship_shape a))])) (\<lambda>_.
     andThen (try_establish_connection A False a creator) (\<lambda>_.
     (\<lambda>s. (get_agreement (gdParty A) (agId a) creator s, s)))))))))"

text \<open>The beginning of every operation on an existing agreement.\<close>

definition with_agreement :: "uuid \<Rightarrow> (agreement_row \<Rightarrow> (db, error, 'a) step) \<Rightarrow> (db, error, 'a) step" where
  "with_agreement ag f = andThen (\<lambda>s. (require_agreement ag s, s)) f"

definition as_either_party :: "party_deps \<Rightarrow> agreement_row \<Rightarrow> uuid \<Rightarrow> (db, error, party_role) step" where
  "as_either_party A a user = raised (authorize_either_party A a user)"

definition delete_draft :: "agreement_deps \<Rightarrow> uuid \<Rightarrow> uuid \<Rightarrow> (db, error, unit) step" where
  "delete_draft A ag actor = with_agreement ag (\<lambda>a.
     andThen (require_status a Draft) (\<lambda>_.
     andThen (\<lambda>s. (resolve_party_role (gdParty A) ag (agCreatedBy a) s, s)) (\<lambda>originator.
     andThen (authorize_as_role (gdParty A) a originator actor (Some ''create_agreement'')) (\<lambda>_.
     delete_draft_rows (gdReferenced A) ag))))"

definition cancellation_json :: "party_role \<Rightarrow> agreement_row \<Rightarrow> (string \<times> json) \<Rightarrow> json" where
  "cancellation_json role a last_entry = JObj [(''cancelledByRole'', JStr (role_name role)),
     (''previousStatus'', JStr (agreement_status_name (agStatus a))),
     (''versionId'', json_opt json_uuid (agCurrentVersion a)), last_entry]"

definition cancel_agreement :: "agreement_deps \<Rightarrow> env \<Rightarrow> uuid \<Rightarrow> uuid \<Rightarrow> string \<Rightarrow> (db, error, agreement_row) step" where
  "cancel_agreement A E ag actor why =
     andThen (guard (\<not> blank_text why) (ValidationError ''ReasonRequired'')) (\<lambda>_. with_agreement ag (\<lambda>a.
     andThen (as_either_party (gdParty A) a actor) (\<lambda>role.
     let cancellable = [AwaitingDebtorAcknowledgment, AwaitingCreditorAcceptance, AwaitingSignatures]
     in andThen (guard (agStatus a \<in> set cancellable) (ValidationError ''NotCancellable'')) (\<lambda>_.
     andThen (\<lambda>s. case update_status_if_currently_in ag cancellable MutuallyCanceled s of
         (b, s1) \<Rightarrow> (if b then Inr () else Inl (ConflictError ''StateChanged''), s1)) (\<lambda>_.
     andThen (agreement_audit E ag actor ''agreement_cancelled''
       (cancellation_json role a (''reason'', JStr why))) (\<lambda>_.
     (\<lambda>s. (get_agreement (gdParty A) ag actor s, s))))))))"

definition mark_mutually_canceled ::
    "agreement_deps \<Rightarrow> env \<Rightarrow> uuid \<Rightarrow> uuid \<Rightarrow> uuid \<Rightarrow> (db, error, agreement_row) step" where
  "mark_mutually_canceled A E ag actor request = with_agreement ag (\<lambda>a.
     andThen (as_either_party (gdParty A) a actor) (\<lambda>role.
     andThen (guard (agStatus a \<in> {FirstPaymentPending, Active, PastDue}) (ValidationError ''NotCancellable'')) (\<lambda>_.
     andThen (update (set_agreement_status ag MutuallyCanceled)) (\<lambda>_.
     andThen (agreement_audit E ag actor ''agreement_cancelled''
       (cancellation_json role a (''cancellationRequestId'', json_uuid request))) (\<lambda>_.
     (\<lambda>s. (get_agreement (gdParty A) ag actor s, s)))))))"

definition submit_draft :: "agreement_deps \<Rightarrow> env \<Rightarrow> uuid \<Rightarrow> uuid \<Rightarrow> (db, error, unit) step" where
  "submit_draft A E ag actor = with_agreement ag (\<lambda>a.
     andThen (as_either_party (gdParty A) a actor) (\<lambda>_.
     andThen (require_status a Draft) (\<lambda>_.
     andThen (update (set_agreement_status ag AwaitingDebtorAcknowledgment)) (\<lambda>_.
     agreement_audit E ag actor ''agreement_submitted'' JNull))))"

definition acknowledge_debt :: "agreement_deps \<Rightarrow> env \<Rightarrow> uuid \<Rightarrow> uuid \<Rightarrow> (db, error, unit) step" where
  "acknowledge_debt A E ag actor = with_agreement ag (\<lambda>a.
     andThen (authorize_as_role (gdParty A) a Debtor actor None) (\<lambda>_.
     andThen (require_status a AwaitingDebtorAcknowledgment) (\<lambda>_.
     andThen (require_complete_name A (agDebtor a) actor) (\<lambda>_.
     andThen (update (set_agreement_status ag AwaitingCreditorAcceptance)) (\<lambda>_.
     agreement_audit E ag actor ''debtor_acknowledged'' JNull)))))"

section \<open>Terms are revised\<close>

definition revise_terms_before_signature ::
    "agreement_deps \<Rightarrow> env \<Rightarrow> uuid \<Rightarrow> uuid \<Rightarrow> terms_input \<Rightarrow> string \<Rightarrow> (db, error, agreement_row) step" where
  "revise_terms_before_signature A E ag actor t why =
     andThen (guard (\<not> blank_text why) (ValidationError ''ReasonRequired'')) (\<lambda>_. with_agreement ag (\<lambda>a.
     andThen (guard (agStatus a \<in> {AwaitingDebtorAcknowledgment, AwaitingCreditorAcceptance})
       (ValidationError ''NotUnderReview'')) (\<lambda>_.
     let role = (if agStatus a = AwaitingDebtorAcknowledgment then Debtor else Creditor)
     in andThen (authorize_as_role (gdParty A) a role actor None) (\<lambda>_.
     andThen (\<lambda>s. (require_current_version a s, s)) (\<lambda>v.
     andThen (guard (avSigned v = None) (ValidationError ''FullySigned'')) (\<lambda>_.
     andThen (raised (build_terms t)) (\<lambda>(terms, schedule).
     andThen (apply_terms_revision \<lparr>rvAgreement = ag, rvBase = avId v,
         rvProducedBy = role_name role @ ''_revision'', rvFrequency = tiFrequency t, rvFee = tiFee t,
         rvTerms = terms, rvSchedule = schedule\<rparr> (agStatus a)
       (if role = Debtor then AwaitingCreditorAcceptance else AwaitingDebtorAcknowledgment)) (\<lambda>(w, n).
     andThen (agreement_audit E ag actor ''agreement_terms_revised'' (JObj
       [(''previousVersionId'', json_uuid (avId v)), (''previousVersionNumber'', JNum (avNumber v)),
        (''newVersionId'', json_uuid w), (''newVersionNumber'', JNum n),
        (''proposedByRole'', JStr (role_name role)), (''reason'', JStr why)])) (\<lambda>_.
     (\<lambda>s. (get_agreement (gdParty A) ag actor s, s)))))))))))"

datatype creditor_decision =
    AcceptTerms
  | RejectTerms "string option"
  | CounterTerms "terms_input option" "string option"

definition accept_terms :: "agreement_deps \<Rightarrow> env \<Rightarrow> agreement_row \<Rightarrow> uuid \<Rightarrow> (db, error, unit) step" where
  "accept_terms A E a actor =
     andThen (require_complete_name A (agCreditor a) actor) (\<lambda>_.
     case agCurrentVersion a of
       None \<Rightarrow> throw (ValidationError ''NoCurrentVersion'')
     | Some v \<Rightarrow>
         andThen (\<lambda>s. case apply_acceptance (agId a) v [AwaitingCreditorAcceptance] AwaitingSignatures s of
           (b, s1) \<Rightarrow> (if b then Inr () else Inl (ConflictError ''TermsRevised''), s1)) (\<lambda>_.
         andThen (agreement_audit E (agId a) actor ''creditor_accepted'' JNull) (\<lambda>_.
         try_establish_connection A True a actor)))"

definition creditor_decide ::
    "agreement_deps \<Rightarrow> env \<Rightarrow> uuid \<Rightarrow> uuid \<Rightarrow> creditor_decision \<Rightarrow> (db, error, unit) step" where
  "creditor_decide A E ag actor decision = with_agreement ag (\<lambda>a.
     andThen (authorize_as_role (gdParty A) a Creditor actor (Some ''approve_agreement'')) (\<lambda>_.
     andThen (require_status a AwaitingCreditorAcceptance) (\<lambda>_.
     case decision of
       AcceptTerms \<Rightarrow> accept_terms A E a actor
     | RejectTerms why \<Rightarrow>
         andThen (update (set_agreement_status ag Draft)) (\<lambda>_.
         agreement_audit E ag actor ''creditor_rejected'' (JObj [(''reason'', json_opt JStr why)]))
     | CounterTerms None _ \<Rightarrow> throw (ValidationError ''CounterTermsRequired'')
     | CounterTerms (Some t) why \<Rightarrow>
         andThen (revise_terms_before_signature A E ag actor t
           (case why of None \<Rightarrow> ''The creditor proposed different terms.'' | Some w \<Rightarrow> w)) (\<lambda>_. ret ()))))"

definition revise_first_payment_date ::
    "agreement_deps \<Rightarrow> env \<Rightarrow> uuid \<Rightarrow> uuid \<Rightarrow> string \<Rightarrow> (db, error, agreement_row) step" where
  "revise_first_payment_date A E ag actor d = with_agreement ag (\<lambda>a.
     andThen (as_either_party (gdParty A) a actor) (\<lambda>_.
     andThen (require_status a AwaitingSignatures) (\<lambda>_.
     andThen (\<lambda>s. (require_current_version a s, s)) (\<lambda>v.
     andThen (guard (avSigned v = None) (ValidationError ''FullySigned'')) (\<lambda>_.
     andThen (not_past E d (ValidationError ''FirstPaymentDatePast'')) (\<lambda>_.
     andThen (raised (compute_schedule (schedule_input_of (tmPrincipal (avTerms v)) (tmFirst (avTerms v))
         (tmInstallment (avTerms v)) (avFrequency v) d))) (\<lambda>c.
     andThen (apply_date_revision \<lparr>rvAgreement = ag, rvBase = avId v, rvProducedBy = [],
         rvFrequency = avFrequency v, rvFee = avFee v,
         rvTerms = (avTerms v)\<lparr>tmFirstDate := d, tmFinal := finalPayment c, tmCount := numberOfInstallments c\<rparr>,
         rvSchedule = items c\<rparr>) (\<lambda>(w, n).
     andThen (agreement_audit E ag actor ''agreement_first_payment_date_revised'' (JObj
       [(''previousVersionId'', json_uuid (avId v)), (''previousVersionNumber'', JNum (avNumber v)),
        (''newVersionId'', json_uuid w), (''newVersionNumber'', JNum n),
        (''previousFirstPaymentDate'', JStr (tmFirstDate (avTerms v))), (''newFirstPaymentDate'', JStr d),
        (''priorSignatureInvalidated'', JBool (avCreditorSigned v \<noteq> None \<or> avDebtorSigned v \<noteq> None))])) (\<lambda>_.
     andThen (agreement_audit E ag actor ''agreement_action_required''
       (JObj [(''stage'', JStr ''review_revised_schedule'')])) (\<lambda>_.
     (\<lambda>s. (get_agreement (gdParty A) ag actor s, s))))))))))))"

section \<open>An agreement is signed\<close>

text \<open>The signature event, whether both have signed, the status reported, the hash.\<close>

record signing_reply =
  spEvent :: "uuid option"
  spSignedAt :: msec
  spBoth :: bool
  spStatus :: agreement_status
  spHash :: "string option"

definition sign_agreement_with_evidence ::
    "agreement_deps \<Rightarrow> env \<Rightarrow> uuid \<Rightarrow> uuid \<Rightarrow> signing_evidence option \<Rightarrow> (db, error, signing_reply) step" where
  "sign_agreement_with_evidence A E ag actor evidence = with_agreement ag (\<lambda>a.
     andThen (as_either_party (gdParty A) a actor) (\<lambda>role.
     andThen (require_status a AwaitingSignatures) (\<lambda>_.
     andThen (\<lambda>s. (require_current_version a s, s)) (\<lambda>v.
     andThen (guard (avSigned v = None) (ValidationError ''FullySigned'')) (\<lambda>_.
     andThen (guard (signature_of role v = None) (ValidationError ''AlreadySigned'')) (\<lambda>_.
     andThen (\<lambda>s. (resolve_party_role (gdParty A) ag (agCreatedBy a) s, s)) (\<lambda>originator.
     andThen (guard (role \<noteq> originator \<or> signature_of (other_party originator) v \<noteq> None)
       CounterpartyMustSignFirstError) (\<lambda>_.
     andThen (not_past E (tmFirstDate (avTerms v)) ScheduleRevisionRequiredError) (\<lambda>_.
     andThen (apply_signing E ag (avId v) role originator (clock E) evidence) (\<lambda>res.
     andThen (guard (\<not> srAlready res) (ValidationError ''AlreadySigned'')) (\<lambda>_.
     andThen (agreement_audit E ag actor ''agreement_signed_by_party''
       (JObj [(''role'', JStr (role_name role))])) (\<lambda>_.
     if \<not> srBoth res
     then ret \<lparr>spEvent = srEvent res, spSignedAt = clock E, spBoth = False, spStatus = agStatus a,
       spHash = srHashAtSigning res\<rparr>
     else andThen (agreement_audit E ag actor ''agreement_signed''
         (JObj [(''documentHash'', json_opt JStr (srHash res))])) (\<lambda>_.
       andThen (agreement_audit E ag actor ''agreement_first_payment_pending'' JNull) (\<lambda>_.
       ret \<lparr>spEvent = srEvent res, spSignedAt = clock E, spBoth = True,
         spStatus = FirstPaymentPending, spHash = srHashAtSigning res\<rparr>))))))))))))))"

text \<open>\<open>signAgreement\<close>: without evidence.\<close>

definition sign_agreement :: "agreement_deps \<Rightarrow> env \<Rightarrow> uuid \<Rightarrow> uuid \<Rightarrow> (db, error, unit) step" where
  "sign_agreement A E ag actor = andThen (sign_agreement_with_evidence A E ag actor None) (\<lambda>_. ret ())"

section \<open>The link to a relationship\<close>

definition ensure_relationship_linked ::
    "agreement_deps \<Rightarrow> uuid \<Rightarrow> uuid \<Rightarrow> (db, error, uuid option) step" where
  "ensure_relationship_linked A ag actor =
     andThen (\<lambda>s. (get_agreement (gdParty A) ag actor s, s)) (\<lambda>a.
     if agRelationship a \<noteq> None then ret (agRelationship a)
     else if agStatus a \<in> set pre_acceptance_statuses \<or> agStatus a = MutuallyCanceled then ret None
     else andThen (try_establish_connection A True a actor) (\<lambda>_.
       andThen (\<lambda>s. (get_agreement (gdParty A) ag actor s, s)) (\<lambda>b. ret (agRelationship b))))"

text \<open>The newest first (rows go in at the end); a page is a limit and an offset.\<close>

definition list_for_profile :: "profile_ref \<Rightarrow> (nat \<times> nat) option \<Rightarrow> db \<Rightarrow> agreement_row list" where
  "list_for_profile p page s =
     (let rows = rev (filter (\<lambda>a. agCreditor a = p \<or> agDebtor a = p) (agreements s))
      in case page of None \<Rightarrow> rows | Some (limit, offset) \<Rightarrow> take limit (drop offset rows))"

definition list_by_relationship_id :: "uuid \<Rightarrow> db \<Rightarrow> agreement_row list" where
  "list_by_relationship_id r s = rev (filter (\<lambda>a. agRelationship a = Some r) (agreements s))"

definition list_agreements ::
    "party_deps \<Rightarrow> uuid \<Rightarrow> profile_ref \<Rightarrow> (nat \<times> nat) option \<Rightarrow> db \<Rightarrow> error + agreement_row list" where
  "list_agreements A user p page s =
     (if mayAct A user p then Inr (list_for_profile p page s) else Inl (ForbiddenError ''NoAccess''))"

definition list_version_history :: "party_deps \<Rightarrow> uuid \<Rightarrow> uuid \<Rightarrow> db \<Rightarrow> error + version_row list" where
  "list_version_history A ag actor s =
     bindE (resolve_party_role A ag actor s) (\<lambda>_. Inr (list_versions ag s))"

section \<open>What a reader has seen\<close>

lemma get_agreement_row: "get_agreement A ag user s = Inr a \<Longrightarrow> find_agreement ag s = Some a"
  by (auto simp: get_agreement_def require_agreement_def bindE_Inr_iff split: option.splits)

lemma current_version_row:
  "require_current_version a s = Inr v \<Longrightarrow> agCurrentVersion a = Some (avId v) \<and> find_version (avId v) s = Some v"
  by (auto simp: require_current_version_def require_version_def dest: lookup_by_Some_key split: option.splits)

text \<open>A directory for examples: profiles own themselves.\<close>

definition sample_parties :: party_deps where
  "sample_parties = \<lparr>partyOwner = (\<lambda>p. Some (snd p)), activeStaff = (\<lambda>_ _. False), staffCapability = (\<lambda>_ _ _. False)\<rparr>"

end
