(* ===== verification/PartialPayments.thy ===== *)
theory PartialPayments
  imports Retries Agreements
begin

text \<open>
  Proposals to pay part of an installment (\<open>partialPayments/\<close>): the request repository, the
  negotiation between the parties, the correlation of a cleared payment with its proposal through the
  retry lineage, its automatic application, and the expiry that never discards a proposal whose
  payment may still clear. Ids print as decimal numbers here, so the id part of a key is any printed
  id instead of the pattern of a UUID. Whether a user may act for a profile is a parameter.
\<close>

section \<open>Keys\<close>

definition strip_prefix :: "string \<Rightarrow> string \<Rightarrow> string option" where
  "strip_prefix p s = (if take (length p) s = p then Some (drop (length p) s) else None)"

definition uuid_of_text :: "string \<Rightarrow> uuid option" where
  "uuid_of_text s =
     (if s \<noteq> [] \<and> list_all is_digit s \<and> show_int (number_of s) = s then Some (nat (number_of s)) else None)"

definition partial_payment_key :: "string \<Rightarrow> uuid option" where
  "partial_payment_key key = Option.bind (strip_prefix ''partial-payment-'' key) uuid_of_text"

definition retry_of_key :: "string \<Rightarrow> uuid option" where
  "retry_of_key key = Option.bind (strip_prefix ''retry-'' key) uuid_of_text"

section \<open>The request repository\<close>

definition set_partial :: "uuid \<Rightarrow> (partial_row \<Rightarrow> partial_row) \<Rightarrow> db \<Rightarrow> db" where
  "set_partial i f s = s\<lparr>partials := update_by ppId i f (partials s)\<rparr>"

text \<open>\<open>UPDATE \<dots> WHERE id = \<dots> RETURNING\<close>: without a row, the configuration error.\<close>

definition update_partial :: "uuid \<Rightarrow> (partial_row \<Rightarrow> partial_row) \<Rightarrow> (db, error, partial_row) step" where
  "update_partial i f s =
     (case find_partial i s of
        None \<Rightarrow> (Inl (ConfigurationError ''partial_payment_request found no row''), s)
      | Some r \<Rightarrow> (Inr (f r), set_partial i f s))"

record partial_input =
  pnAgreement :: uuid
  pnInstallment :: "uuid option"
  pnRole :: party_role
  pnBy :: profile_ref
  pnAmount :: int
  pnDate :: string
  pnExplanation :: "string option"
  pnRemainder :: "string option"

definition insert_partial :: "env \<Rightarrow> partial_input \<Rightarrow> (db, error, partial_row) step" where
  "insert_partial E n s =
     (if \<not> int4_ok (pnAmount n) then (Inl (ForeignError ''integer out of range''), s)
      else let r = \<lparr>ppId = nextId s, ppAgreement = pnAgreement n, ppInstallment = pnInstallment n,
             ppStatus = PpProposed, ppProposingRole = pnRole n, ppProposedBy = pnBy n,
             ppAmount = pnAmount n, ppDate = pnDate n, ppExplanation = pnExplanation n,
             ppRemainder = pnRemainder n, ppRejectedReason = None, ppRejectedAt = None,
             ppPayment = None, ppAppliedAt = None, ppExpiredAt = None, ppUpdatedAt = clock E\<rparr>
           in (Inr r, s\<lparr>partials := partials s @ [r], nextId := Suc (nextId s)\<rparr>))"

definition update_proposed_content ::
    "env \<Rightarrow> uuid \<Rightarrow> party_role \<Rightarrow> profile_ref \<Rightarrow> int \<Rightarrow> string \<Rightarrow> string option \<Rightarrow> string option \<Rightarrow>
     (db, error, partial_row) step" where
  "update_proposed_content E i role by amount date explanation remainder s =
     (if \<not> int4_ok amount then (Inl (ForeignError ''integer out of range''), s)
      else update_partial i (\<lambda>r. r\<lparr>ppProposingRole := role, ppProposedBy := by, ppAmount := amount,
        ppDate := date, ppExplanation := explanation, ppRemainder := remainder, ppUpdatedAt := clock E\<rparr>) s)"

definition partial_update_status :: "env \<Rightarrow> uuid \<Rightarrow> partial_status \<Rightarrow> (db, error, partial_row) step" where
  "partial_update_status E i st = update_partial i (\<lambda>r. r\<lparr>ppStatus := st, ppUpdatedAt := clock E\<rparr>)"

definition record_rejection :: "env \<Rightarrow> uuid \<Rightarrow> string option \<Rightarrow> (db, error, partial_row) step" where
  "record_rejection E i why = update_partial i (\<lambda>r. r\<lparr>ppStatus := PpRejected, ppRejectedReason := why,
     ppRejectedAt := Some (clock E), ppUpdatedAt := clock E\<rparr>)"

definition applied_to :: "env \<Rightarrow> uuid \<Rightarrow> partial_row \<Rightarrow> partial_row" where
  "applied_to E pay r = r\<lparr>ppStatus := PpApplied, ppPayment := Some pay, ppAppliedAt := Some (clock E),
     ppUpdatedAt := clock E\<rparr>"

definition record_applied :: "env \<Rightarrow> uuid \<Rightarrow> uuid \<Rightarrow> (db, error, partial_row) step" where
  "record_applied E i pay = update_partial i (applied_to E pay)"

datatype apply_result = NowApplied | AlreadyAppliedSame | AlreadyAppliedDifferent | NotAwaitingPayment

text \<open>\<open>UPDATE \<dots> WHERE status = 'awaiting_payment'\<close>, and what is there if it hit nothing.\<close>

definition apply_if_awaiting ::
    "env \<Rightarrow> uuid \<Rightarrow> uuid \<Rightarrow> (db, error, apply_result \<times> partial_row) step" where
  "apply_if_awaiting E i pay s =
     (case find_partial i s of
        None \<Rightarrow> (Inl (ConfigurationError ''applyIfAwaitingPayment found no row''), s)
      | Some r \<Rightarrow>
          (if ppStatus r = PpAwaitingPayment
           then (Inr (NowApplied, applied_to E pay r), set_partial i (applied_to E pay) s)
           else (Inr (if ppStatus r = PpApplied \<and> ppPayment r = Some pay then AlreadyAppliedSame
                      else if ppStatus r = PpApplied then AlreadyAppliedDifferent
                      else NotAwaitingPayment, r), s)))"

text \<open>Dates in the column compare as dates.\<close>

definition iso_before :: "string \<Rightarrow> string \<Rightarrow> bool" where
  "iso_before a b =
     (case (parse_iso_date a, parse_iso_date b) of
        (Inr (y, m, d), Inr (y', m', d')) \<Rightarrow> y < y' \<or> (y = y' \<and> (m < m' \<or> (m = m' \<and> d < d')))
      | _ \<Rightarrow> False)"

definition awaiting_past_date :: "msec \<Rightarrow> db \<Rightarrow> partial_row list" where
  "awaiting_past_date now s =
     filter (\<lambda>r. ppStatus r = PpAwaitingPayment \<and> iso_before (ppDate r) (today_iso now)) (partials s)"

section \<open>From a payment to its proposal\<close>

datatype lineage = Correlated uuid | NotCorrelated | UnknownLineage | MissingProposal uuid

definition max_lineage_hops :: nat where "max_lineage_hops = 25"

text \<open>A retry's payment belongs to the proposal its original payment belongs to.\<close>

fun resolve_lineage :: "nat \<Rightarrow> payment_row \<Rightarrow> db \<Rightarrow> lineage" where
  "resolve_lineage 0 p s = UnknownLineage"
| "resolve_lineage (Suc hops) p s =
     (case partial_payment_key (paKey p) of
        Some i \<Rightarrow> if find_partial i s = None then MissingProposal i else Correlated i
      | None \<Rightarrow>
     (case retry_of_key (paKey p) of
        None \<Rightarrow> NotCorrelated
      | Some r \<Rightarrow>
     (case find_retry r s of
        None \<Rightarrow> UnknownLineage
      | Some row \<Rightarrow>
     (case find_payment (rtOriginal row) s of
        None \<Rightarrow> UnknownLineage
      | Some next \<Rightarrow> resolve_lineage hops next s))))"

section \<open>Automatic application\<close>

datatype apply_outcome =
    LineageNotCorrelated | NotYetDurable uuid | AppliedTo uuid | AlreadyApplied uuid | ApplyConflict uuid

definition audit_exists :: "string \<Rightarrow> uuid \<Rightarrow> string \<Rightarrow> db \<Rightarrow> bool" where
  "audit_exists ty i act s \<longleftrightarrow> list_ex (\<lambda>r. targetResourceType r = Value ty \<and>
     targetResourceId r = Value i \<and> action r = act) (audits s)"

definition partial_evidence_audit ::
    "env \<Rightarrow> string \<Rightarrow> payment_row \<Rightarrow> uuid \<Rightarrow> json \<Rightarrow> string \<Rightarrow> db \<Rightarrow> db" where
  "partial_evidence_audit E act p i v why s =
     (if audit_exists ''partial_payment_request'' i act s then s
      else audit E ((blank_audit act (clock E))
        \<lparr>actorRole := Some ''payment_provider'', profileKind := Some (fst (paPayer p)),
         profileId := Some (snd (paPayer p)), auditAgreementId := paAgreement p, newValue := v,
         reason := Some why, targetResourceType := Value ''partial_payment_request'',
         targetResourceId := Value i\<rparr>) s)"

definition record_conflict_evidence ::
    "env \<Rightarrow> string \<Rightarrow> payment_row \<Rightarrow> uuid \<Rightarrow> (string \<times> json) list \<Rightarrow> db \<Rightarrow> db" where
  "record_conflict_evidence E kind p i extra =
     partial_evidence_audit E ''partial_payment_application_conflict'' p i
       (JObj ([(''conflictType'', JStr kind), (''paymentAttemptId'', json_uuid (paId p)),
         (''installmentScheduleItemId'', case paInstallment p of None \<Rightarrow> JNull | Some x \<Rightarrow> json_uuid x),
         (''amountMinorUnits'', JNum (paAmount p))] @ extra))
       (''Partial-payment application conflict: '' @ kind @ ''.'')"

definition superseded_status :: "payment_status \<Rightarrow> bool" where
  "superseded_status st \<longleftrightarrow> st = PRefunded \<or> st = PDisputed \<or> st = PReturned \<or> st = PReversed"

definition record_supersession_history :: "env \<Rightarrow> payment_row \<Rightarrow> uuid \<Rightarrow> db \<Rightarrow> db" where
  "record_supersession_history E p i =
     partial_evidence_audit E ''partial_payment_consuming_payment_superseded'' p i
       (JObj [(''paymentAttemptId'', json_uuid (paId p)), (''attemptStatus'', JStr (status_name (paStatus p)))])
       (''Superseded: '' @ status_name (paStatus p))"

text \<open>The checks between the cleared payment and the proposal; \<open>None\<close> lets the application go on.\<close>

definition application_conflict :: "partial_row \<Rightarrow> payment_row \<Rightarrow> string option" where
  "application_conflict r p =
     (if Some (ppAgreement r) \<noteq> paAgreement p then Some ''agreement_mismatch''
      else if ppInstallment r \<noteq> None \<and> ppInstallment r \<noteq> paInstallment p then Some ''installment_mismatch''
      else if ppAmount r \<noteq> paAmount p then Some ''amount_mismatch''
      else None)"

definition apply_correlated :: "env \<Rightarrow> payment_row \<Rightarrow> uuid \<Rightarrow> (db, error, apply_outcome) step" where
  "apply_correlated E p i s =
     (if find_by_payment_and_type (paId p) PaymentCleared s = None then (Inr (NotYetDurable i), s)
      else case find_partial i s of
        None \<Rightarrow> (Inr (ApplyConflict i),
                 record_conflict_evidence E ''partial_payment_key_missing_proposal'' p i [] s)
      | Some r \<Rightarrow>
     (case application_conflict r p of
        Some kind \<Rightarrow> (Inr (ApplyConflict i), record_conflict_evidence E kind p i [] s)
      | None \<Rightarrow>
     (case apply_if_awaiting E i (paId p) s of
        (Inl e, s1) \<Rightarrow> (Inl e, s1)
      | (Inr (res, cur), s1) \<Rightarrow>
          (if res = NowApplied \<or> res = AlreadyAppliedSame
           then (Inr (if res = NowApplied then AppliedTo i else AlreadyApplied i),
                 if superseded_status (paStatus p) then record_supersession_history E p i s1 else s1)
           else if res = AlreadyAppliedDifferent
           then (Inr (ApplyConflict i),
                 record_conflict_evidence E ''already_applied_to_different_attempt'' p i
                   [(''existingPaymentAttemptId'',
                     case ppPayment cur of None \<Rightarrow> JNull | Some x \<Rightarrow> json_uuid x)] s1)
           else (Inr (ApplyConflict i),
                 record_conflict_evidence E ''proposal_not_awaiting_payment'' p i
                   [(''requestStatus'', JStr (case ppStatus cur of PpProposed \<Rightarrow> ''proposed''
                       | PpAwaitingPayment \<Rightarrow> ''awaiting_payment'' | PpApplied \<Rightarrow> ''applied''
                       | PpRejected \<Rightarrow> ''rejected'' | PpExpired \<Rightarrow> ''expired''))] s1)))))"

definition apply_cleared_payment :: "env \<Rightarrow> uuid \<Rightarrow> (db, error, apply_outcome) step" where
  "apply_cleared_payment E pay s =
     (case find_payment pay s of
        None \<Rightarrow> (Inr LineageNotCorrelated, s)
      | Some p \<Rightarrow>
     (case resolve_lineage max_lineage_hops p s of
        NotCorrelated \<Rightarrow> (Inr LineageNotCorrelated, s)
      | UnknownLineage \<Rightarrow> (Inl (ConfigurationError ''lineage_resolution_unknown_or_exhausted''), s)
      | MissingProposal i \<Rightarrow>
          (Inr (ApplyConflict i),
           record_conflict_evidence E ''partial_payment_key_missing_proposal'' p i [] s)
      | Correlated i \<Rightarrow> apply_correlated E p i s))"

section \<open>Has the proposal's payment cleared?\<close>

datatype cleared_evidence = EvCleared | EvInFlight | EvNotCleared | EvUnknown

definition has_cleared_entry :: "uuid \<Rightarrow> db \<Rightarrow> bool" where
  "has_cleared_entry pay s \<longleftrightarrow> list_ex (\<lambda>e. jePayment e = pay \<and> jeType e = PaymentCleared) (entries s)"

datatype replacement = NoReplacement | PendingReplacement | UnknownReplacement | ReplacedBy payment_row

definition find_replacement :: "uuid \<Rightarrow> db \<Rightarrow> replacement" where
  "find_replacement original s =
     (case find_by_original original s of
        None \<Rightarrow> NoReplacement
      | Some r \<Rightarrow>
          (case rtStatus r of
             RtCanceled \<Rightarrow> NoReplacement
           | RtScheduled \<Rightarrow> PendingReplacement
           | RtClaimed \<Rightarrow> PendingReplacement
           | RtFired \<Rightarrow>
               (case (case Option.bind (rtResulting r) (\<lambda>p. find_payment p s) of
                        Some p \<Rightarrow> Some p
                      | None \<Rightarrow> find_by_idempotency_key (retry_key (rtId r)) s) of
                  None \<Rightarrow> UnknownReplacement
                | Some p \<Rightarrow> ReplacedBy p)))"

fun cleared_walk :: "nat \<Rightarrow> payment_row \<Rightarrow> db \<Rightarrow> cleared_evidence" where
  "cleared_walk 0 p s = EvUnknown"
| "cleared_walk (Suc hops) p s =
     (if has_cleared_entry (paId p) s then EvCleared
      else if paStatus p = PSucceeded \<or> unresolved (paStatus p) then EvInFlight
      else case find_replacement (paId p) s of
        NoReplacement \<Rightarrow> EvNotCleared
      | PendingReplacement \<Rightarrow> EvInFlight
      | UnknownReplacement \<Rightarrow> EvUnknown
      | ReplacedBy next \<Rightarrow> cleared_walk hops next s)"

definition partial_payment_text :: "uuid \<Rightarrow> string" where
  "partial_payment_text i = ''partial-payment-'' @ show_int (int i)"

definition partial_cleared_evidence :: "uuid \<Rightarrow> db \<Rightarrow> cleared_evidence" where
  "partial_cleared_evidence i s =
     (case find_by_idempotency_key (partial_payment_text i) s of
        None \<Rightarrow> EvNotCleared
      | Some p \<Rightarrow> cleared_walk max_lineage_hops p s)"

datatype expire_result = Expired partial_row | ExpireNotAwaiting | ClearedSkip | InFlightSkip | UnknownSkip

definition expire_if_safe :: "env \<Rightarrow> uuid \<Rightarrow> (db, error, expire_result) step" where
  "expire_if_safe E i s =
     (case find_partial i s of
        None \<Rightarrow> (Inl (ConfigurationError ''expireIfSafe found no row''), s)
      | Some r \<Rightarrow>
     (if find_agreement (ppAgreement r) s = None
      then (Inl (ConfigurationError ''agreement not found''), s)
      else if ppStatus r \<noteq> PpAwaitingPayment then (Inr ExpireNotAwaiting, s)
      else case partial_cleared_evidence i s of
        EvCleared \<Rightarrow> (Inr ClearedSkip, s)
      | EvInFlight \<Rightarrow> (Inr InFlightSkip, s)
      | EvUnknown \<Rightarrow> (Inr UnknownSkip, s)
      | EvNotCleared \<Rightarrow>
          (let f = (\<lambda>q. q\<lparr>ppStatus := PpExpired, ppExpiredAt := Some (clock E), ppUpdatedAt := clock E\<rparr>)
           in (Inr (Expired (f r)), set_partial i f s))))"

section \<open>The service\<close>

definition partial_audit ::
    "env \<Rightarrow> partial_row \<Rightarrow> uuid option \<Rightarrow> string \<Rightarrow> json \<Rightarrow> db \<Rightarrow> db" where
  "partial_audit E r actor act v =
     audit E ((blank_audit act (clock E))
       \<lparr>actorUserId := actor,
        actorRole := Some (if actor = None then ''scheduler'' else ''agreement_party''),
        profileKind := (if actor = None then None else Some (fst (ppProposedBy r))),
        profileId := (if actor = None then None else Some (snd (ppProposedBy r))),
        auditAgreementId := Some (ppAgreement r), newValue := v,
        targetResourceType := Value ''partial_payment_request'', targetResourceId := Value (ppId r)\<rparr>)"

definition audited ::
    "env \<Rightarrow> uuid option \<Rightarrow> string \<Rightarrow> json \<Rightarrow> (db, error, partial_row) step \<Rightarrow> (db, error, partial_row) step" where
  "audited E actor act v m =
     andThen m (\<lambda>r. andThen (update (partial_audit E r actor act v)) (\<lambda>_. ret r))"

definition propose_partial_payment ::
    "party_deps \<Rightarrow> env \<Rightarrow> uuid \<Rightarrow> int \<Rightarrow> string \<Rightarrow> string option \<Rightarrow> string option \<Rightarrow> uuid option \<Rightarrow>
     uuid \<Rightarrow> (db, error, partial_row) step" where
  "propose_partial_payment A E ag amount date explanation remainder inst actor =
     andThen (\<lambda>s. (resolve_party_role A ag actor s, s)) (\<lambda>role.
     andThen (guard (role = Debtor) (ForbiddenError ''BorrowerOnly'')) (\<lambda>_.
     andThen (guard (safe_int amount \<and> 0 < amount) (ValidationError ''proposedAmountMinorUnits'')) (\<lambda>_.
     andThen (\<lambda>s. (get_agreement A ag actor s, s)) (\<lambda>a.
     audited E (Some actor) ''partial_payment_proposed'' JNull
       (insert_partial E \<lparr>pnAgreement = ag, pnInstallment = inst, pnRole = Debtor, pnBy = agDebtor a,
          pnAmount = amount, pnDate = date, pnExplanation = explanation, pnRemainder = remainder\<rparr>)))))"

datatype partial_decision =
    AcceptPartial
  | RejectPartial "string option"
  | CounterPartial "int option" "string option" "string option" "string option"

definition or_else :: "'a option \<Rightarrow> 'a option \<Rightarrow> 'a option" where
  "or_else a b = (case a of None \<Rightarrow> b | Some _ \<Rightarrow> a)"

definition counter_partial ::
    "party_deps \<Rightarrow> env \<Rightarrow> partial_row \<Rightarrow> party_role \<Rightarrow> uuid \<Rightarrow> int option \<Rightarrow> string option \<Rightarrow>
     string option \<Rightarrow> string option \<Rightarrow> (db, error, partial_row) step" where
  "counter_partial A E r role actor amount date explanation remainder =
     (case (amount, date) of
        (Some n, Some d) \<Rightarrow>
          (if d = [] then throw (ValidationError ''CounterRequired'')
           else if \<not> safe_int n \<or> n \<le> 0 then throw (ValidationError ''counterAmountMinorUnits'')
           else andThen (\<lambda>s. (get_agreement A (ppAgreement r) actor s, s)) (\<lambda>a.
             audited E (Some actor) ''partial_payment_countered'' JNull
               (update_proposed_content E (ppId r) role
                  (if role = Creditor then agCreditor a else agDebtor a) n d
                  (or_else explanation (ppExplanation r)) (or_else remainder (ppRemainder r)))))
      | _ \<Rightarrow> throw (ValidationError ''CounterRequired''))"

definition decide_partial_payment ::
    "party_deps \<Rightarrow> env \<Rightarrow> uuid \<Rightarrow> uuid \<Rightarrow> partial_decision \<Rightarrow> (db, error, partial_row) step" where
  "decide_partial_payment A E i actor decision s =
     (case find_partial i s of
        None \<Rightarrow> (Inl (ValidationError ''PartialNotFound''), s)
      | Some r \<Rightarrow>
     (if ppStatus r \<noteq> PpProposed then (Inl (ValidationError ''NotProposed''), s)
      else case resolve_party_role A (ppAgreement r) actor s of
        Inl e \<Rightarrow> (Inl e, s)
      | Inr role \<Rightarrow>
     (if role = ppProposingRole r then (Inl (ForbiddenError ''OwnProposal''), s)
      else case (if role = Creditor
                 then require_creditor_capability A (ppAgreement r) actor ''approve_partial_payment'' s
                 else Inr ()) of
        Inl e \<Rightarrow> (Inl e, s)
      | Inr _ \<Rightarrow>
          (case decision of
             AcceptPartial \<Rightarrow> audited E (Some actor) ''partial_payment_accepted'' JNull
               (partial_update_status E (ppId r) PpAwaitingPayment) s
           | RejectPartial why \<Rightarrow> audited E (Some actor) ''partial_payment_rejected''
               (JObj [(''reason'', case why of None \<Rightarrow> JNull | Some x \<Rightarrow> JStr x)])
               (record_rejection E (ppId r) why) s
           | CounterPartial n d x y \<Rightarrow> counter_partial A E r role actor n d x y s))))"

definition record_partial_payment ::
    "party_deps \<Rightarrow> env \<Rightarrow> uuid \<Rightarrow> uuid \<Rightarrow> uuid \<Rightarrow> (db, error, partial_row) step" where
  "record_partial_payment A E i pay actor s =
     (case find_partial i s of
        None \<Rightarrow> (Inl (ValidationError ''PartialNotFound''), s)
      | Some r \<Rightarrow>
     (if ppStatus r \<noteq> PpAwaitingPayment then (Inl (ValidationError ''NotAwaitingPayment''), s)
      else case get_agreement A (ppAgreement r) actor s of
        Inl e \<Rightarrow> (Inl e, s)
      | Inr a \<Rightarrow>
     (case find_payment pay s of
        None \<Rightarrow> (Inl (ValidationError ''SucceededPaymentRequired''), s)
      | Some p \<Rightarrow>
          (if paStatus p \<noteq> PSucceeded then (Inl (ValidationError ''SucceededPaymentRequired''), s)
           else if paAgreement p \<noteq> Some (ppAgreement r) then (Inl (ValidationError ''OtherAgreement''), s)
           else if paPayer p \<noteq> agDebtor a then (Inl (ValidationError ''OtherPayer''), s)
           else if paRecipient p \<noteq> agCreditor a then (Inl (ValidationError ''OtherRecipient''), s)
           else if paAmount p \<noteq> ppAmount r then (Inl (ValidationError ''OtherAmount''), s)
           else if ppInstallment r \<noteq> None \<and> paInstallment p \<noteq> ppInstallment r
           then (Inl (ValidationError ''OtherInstallment''), s)
           else audited E (Some actor) ''partial_payment_applied''
             (JObj [(''paymentAttemptId'', json_uuid (paId p))])
             (record_applied E (ppId r) (paId p)) s))))"

text \<open>\<open>expireOverdue\<close>: the number of requests that did expire.\<close>

fun expire_each :: "env \<Rightarrow> partial_row list \<Rightarrow> int \<Rightarrow> (db, error, int) step" where
  "expire_each E [] n = ret n"
| "expire_each E (r # rs) n =
     andThen (expire_if_safe E (ppId r)) (\<lambda>res.
     case res of
       Expired q \<Rightarrow> andThen (update (partial_audit E q None ''partial_payment_expired'' JNull)) (\<lambda>_.
         expire_each E rs (n + 1))
     | _ \<Rightarrow> expire_each E rs n)"

definition expire_overdue :: "env \<Rightarrow> (db, error, int) step" where
  "expire_overdue E s = expire_each E (awaiting_past_date (clock E) s) 0 s"

section \<open>A request only moves forward\<close>

definition closed_request :: "partial_row \<Rightarrow> bool" where
  "closed_request r \<longleftrightarrow> ppStatus r = PpApplied \<or> ppStatus r = PpRejected \<or> ppStatus r = PpExpired"

text \<open>What may become of a row: closed ones stay as they are, accepted ones keep their terms.\<close>

definition advanced :: "partial_row \<Rightarrow> partial_row \<Rightarrow> bool" where
  "advanced r r' \<longleftrightarrow> ppId r' = ppId r \<and> ppAgreement r' = ppAgreement r \<and> ppInstallment r' = ppInstallment r \<and>
     (closed_request r \<longrightarrow> r' = r) \<and>
     (ppStatus r = PpAwaitingPayment \<longrightarrow> ppAmount r' = ppAmount r \<and> ppDate r' = ppDate r \<and>
        ppStatus r' \<noteq> PpProposed \<and> ppStatus r' \<noteq> PpRejected)"

definition paid_as_agreed :: "db \<Rightarrow> partial_row \<Rightarrow> bool" where
  "paid_as_agreed s r \<longleftrightarrow> (ppStatus r = PpApplied \<longrightarrow>
     (\<exists>p. ppPayment r = Some (paId p) \<and> find_payment (paId p) s = Some p \<and> paAmount p = ppAmount r \<and>
        paAgreement p = Some (ppAgreement r) \<and>
        (ppInstallment r \<noteq> None \<longrightarrow> paInstallment p = ppInstallment r)))"

definition partial_ok :: "db \<Rightarrow> bool" where
  "partial_ok s \<longleftrightarrow> distinct (map ppId (partials s)) \<and> list_all (\<lambda>r. ppId r < nextId s) (partials s) \<and>
     list_all (paid_as_agreed s) (partials s)"

definition no_money_moved :: "db \<Rightarrow> db \<Rightarrow> bool" where
  "no_money_moved s s' \<longleftrightarrow> agreements s' = agreements s \<and> versions s' = versions s \<and>
     installments s' = installments s \<and> payments s' = payments s \<and> accounts s' = accounts s \<and>
     entries s' = entries s \<and> retries s' = retries s"

definition partial_progress :: "db \<Rightarrow> db \<Rightarrow> bool" where
  "partial_progress s s' \<longleftrightarrow> no_money_moved s s' \<and> (partial_ok s \<longrightarrow> partial_ok s') \<and>
     (\<forall>i r. partial_ok s \<longrightarrow> find_partial i s = Some r \<longrightarrow>
        (\<exists>r'. find_partial i s' = Some r' \<and> advanced r r'))"

lemma advanced_refl: "advanced r r"
  by (simp add: advanced_def)

lemma advanced_trans: "advanced a b \<Longrightarrow> advanced b c \<Longrightarrow> advanced a c"
  by (cases "ppStatus b") (auto simp: advanced_def closed_request_def)

lemma progress_refl [simp]: "partial_progress s s"
  by (auto simp: partial_progress_def no_money_moved_def advanced_refl)

lemma progress_trans:
  assumes "partial_progress s s1" and "partial_progress s1 s2"
  shows "partial_progress s s2"
proof -
  have "\<exists>r'. find_partial i s2 = Some r' \<and> advanced r r'"
    if ok: "partial_ok s" and f: "find_partial i s = Some r" for i r
  proof -
    obtain r1 where r1: "find_partial i s1 = Some r1" "advanced r r1"
      using assms(1) ok f unfolding partial_progress_def by blast
    moreover have "partial_ok s1" using assms(1) ok by (simp add: partial_progress_def)
    ultimately show ?thesis
      using assms(2) advanced_trans unfolding partial_progress_def by blast
  qed
  then show ?thesis
    using assms by (simp add: partial_progress_def no_money_moved_def)
qed

lemma progress_audit: "partial_progress s (audit E p s)"
  by (auto simp: partial_progress_def no_money_moved_def partial_ok_def paid_as_agreed_def [abs_def]
      intro: advanced_refl)

lemma progress_set:
  assumes "find_partial i s = Some r" and "advanced r (f r)" and "\<And>x. ppId (f x) = ppId x"
    and "paid_as_agreed s (f r)"
  shows "partial_progress s (set_partial i f s)"
proof -
  let ?s = "set_partial i f s"
  have "partial_ok ?s" if ok: "partial_ok s"
  proof -
    have "paid_as_agreed ?s q" if q: "q \<in> set (partials ?s)" for q
    proof -
      have "q \<in> set (partials s) \<or> (\<exists>q0 \<in> set (partials s). ppId q0 = i \<and> q = f q0)"
        using set_update_by [of q ppId i f "partials s"] q by (simp add: set_partial_def)
      moreover have "q0 = r" if "q0 \<in> set (partials s)" "ppId q0 = i" for q0
        using lookup_by_distinct [of ppId "partials s" q0] ok that assms(1) by (simp add: partial_ok_def)
      ultimately have "paid_as_agreed s q"
        using ok assms(4) by (auto simp: partial_ok_def list_all_iff)
      then show ?thesis by (simp add: paid_as_agreed_def set_partial_def)
    qed
    moreover have "list_all (\<lambda>q. ppId q < nextId s) (update_by ppId i f (partials s))"
      using ok by (intro list_all_update_by) (simp_all add: partial_ok_def assms(3))
    moreover have "map ppId (update_by ppId i f (partials s)) = map ppId (partials s)"
      by (rule map_key_update_by) (simp add: assms(3))
    ultimately show ?thesis using ok by (simp add: partial_ok_def list_all_iff set_partial_def)
  qed
  moreover have "\<exists>q'. find_partial j ?s = Some q' \<and> advanced q q'" if "find_partial j s = Some q" for j q
    using that assms(1,2) lookup_update_same [of ppId i f "partials s"]
      lookup_update_other [of ppId i f j "partials s"] assms(3) advanced_refl
    by (cases "j = i") (auto simp: set_partial_def)
  ultimately show ?thesis by (simp add: partial_progress_def no_money_moved_def set_partial_def)
qed

lemma progress_andThen:
  assumes "partial_progress s (snd (m s))"
    and "\<And>x s1. m s = (Inr x, s1) \<Longrightarrow> partial_progress s1 (snd (f x s1))"
  shows "partial_progress s (snd (andThen m f s))"
  using assms progress_trans by (auto simp: andThen_def split: prod.splits sum.splits)

lemma progress_audited:
  assumes "partial_progress s (snd (m s))"
  shows "partial_progress s (snd (audited E actor act v m s))"
  unfolding audited_def partial_audit_def
  by (rule progress_andThen [where m = m and s = s], rule assms)
    (simp add: andThen_def progress_audit)

lemma update_partial_progress:
  assumes "find_partial i s = Some r" and "advanced r (f r)" and "\<And>x. ppId (f x) = ppId x"
    and "paid_as_agreed s (f r)"
  shows "partial_progress s (snd (update_partial i f s))"
  using progress_set [OF assms] assms(1) by (simp add: update_partial_def)

lemma insert_partial_progress: "partial_progress s (snd (insert_partial E n s))"
proof (cases "int4_ok (pnAmount n)")
  case True
  have fresh: "partial_ok s \<Longrightarrow> r \<in> set (partials s) \<Longrightarrow> ppId r \<noteq> nextId s" for r
    by (auto simp: partial_ok_def list_all_iff)
  show ?thesis
    using True fresh advanced_refl
    by (fastforce simp: insert_partial_def partial_progress_def no_money_moved_def partial_ok_def
        list_all_iff paid_as_agreed_def lookup_by_append Let_def)
qed (simp add: insert_partial_def)

lemma propose_progress:
  "partial_progress s (snd (propose_partial_payment A E ag amount date x y inst actor s))"
proof -
  have "partial_progress s (snd (audited E u a v (insert_partial E n) s))" for u a v n
    by (rule progress_audited [OF insert_partial_progress])
  then show ?thesis
    by (auto simp: propose_partial_payment_def andThen_def split: sum.splits)
qed

lemma apply_if_awaiting_progress:
  assumes "find_payment pay s = Some p" and "\<And>r. find_partial i s = Some r \<Longrightarrow> application_conflict r p = None"
  shows "partial_progress s (snd (apply_if_awaiting E i pay s))"
proof (cases "find_partial i s")
  case (Some r)
  have p: "paId p = pay" using lookup_by_Some_key [OF assms(1)] .
  show ?thesis
  proof (cases "ppStatus r = PpAwaitingPayment")
    case True
    have "partial_progress s (set_partial i (applied_to E pay) s)"
      using True assms(1) assms(2) [OF Some] p
      by (intro progress_set [OF Some])
        (auto simp: advanced_def closed_request_def applied_to_def paid_as_agreed_def
          application_conflict_def split: if_splits)
    then show ?thesis using Some True by (simp add: apply_if_awaiting_def)
  qed (simp add: apply_if_awaiting_def Some)
qed (simp add: apply_if_awaiting_def)

lemma evidence_audit_progress:
  "partial_progress s (partial_evidence_audit E act p i v why s)"
  by (simp add: partial_evidence_audit_def progress_audit)

lemma conflict_progress: "partial_progress s (record_conflict_evidence E kind p i extra s)"
  by (simp add: record_conflict_evidence_def evidence_audit_progress)

lemma apply_correlated_progress:
  assumes "find_payment (paId p) s = Some p"
  shows "partial_progress s (snd (apply_correlated E p i s))"
proof (cases "\<exists>r. find_partial i s = Some r \<and> application_conflict r p = None")
  case True
  have a: "partial_progress s (snd (apply_if_awaiting E i (paId p) s))"
    using True by (intro apply_if_awaiting_progress [OF assms]) auto
  have c: "partial_progress s (record_conflict_evidence E kind p i extra s1)"
      "partial_progress s (record_supersession_history E p i s1)"
    if "partial_progress s s1" for s1 kind extra
    using that progress_trans conflict_progress evidence_audit_progress
    by (auto simp: record_supersession_history_def)
  obtain res s1 where m: "apply_if_awaiting E i (paId p) s = (res, s1)" by fastforce
  then have s1: "partial_progress s s1" using a by simp
  show ?thesis
    using True m s1 c [OF s1] by (cases res) (auto simp: apply_correlated_def split: prod.splits)
next
  case False
  then show ?thesis
    by (auto simp: apply_correlated_def conflict_progress split: option.split)
qed

lemma apply_cleared_progress: "partial_progress s (snd (apply_cleared_payment E pay s))"
proof (cases "find_payment pay s")
  case (Some p)
  then have "find_payment (paId p) s = Some p" using lookup_by_Some_key [OF Some] by simp
  then show ?thesis
    by (simp add: apply_cleared_payment_def Some apply_correlated_progress conflict_progress
        split: lineage.split)
qed (simp add: apply_cleared_payment_def)

lemma expire_if_safe_progress: "partial_progress s (snd (expire_if_safe E i s))"
proof (cases "find_partial i s")
  case (Some r)
  have "partial_progress s (set_partial i (\<lambda>q. q\<lparr>ppStatus := PpExpired, ppExpiredAt := Some (clock E),
      ppUpdatedAt := clock E\<rparr>) s)" if "ppStatus r = PpAwaitingPayment"
    using that by (intro progress_set [OF Some]) (auto simp: advanced_def closed_request_def paid_as_agreed_def)
  then show ?thesis
    by (simp add: expire_if_safe_def Some Let_def split: cleared_evidence.split)
qed (simp add: expire_if_safe_def)

lemma expire_each_progress: "partial_progress s (snd (expire_each E rs n s))"
proof (induction rs arbitrary: n s)
  case (Cons r rs)
  have "partial_progress s1 (snd (andThen (update (partial_audit E q None a v)) (\<lambda>_. expire_each E rs k) s1))"
    for s1 q a v k
    using progress_trans [OF progress_audit Cons.IH]
    by (simp add: andThen_def partial_audit_def)
  then show ?case
    unfolding expire_each.simps(2)
    by (intro progress_andThen expire_if_safe_progress) (simp add: Cons.IH split: expire_result.split)
qed simp

lemma open_request_progress:
  assumes "find_partial i s = Some r" and "ppStatus r = PpProposed"
    and "\<And>x. ppId (f x) = ppId x \<and> ppAgreement (f x) = ppAgreement x \<and> ppInstallment (f x) = ppInstallment x"
    and "ppStatus (f r) \<noteq> PpApplied"
  shows "partial_progress s (snd (update_partial i f s))"
  using assms(2-4)
  by (intro update_partial_progress [OF assms(1)])
    (simp_all add: advanced_def closed_request_def paid_as_agreed_def)

lemma counter_progress:
  assumes "find_partial (ppId r) s = Some r" and "ppStatus r = PpProposed"
  shows "partial_progress s (snd (counter_partial A E r role actor n d x y s))"
proof -
  have "partial_progress s (snd (update_proposed_content E (ppId r) role by m e x' y' s))" for "by" m e x' y'
    using open_request_progress [OF assms, of "\<lambda>r. r\<lparr>ppProposingRole := role, ppProposedBy := by,
        ppAmount := m, ppDate := e, ppExplanation := x', ppRemainder := y', ppUpdatedAt := clock E\<rparr>"] assms(2)
    by (simp add: update_proposed_content_def)
  then have "partial_progress s (snd (audited E u a v (update_proposed_content E (ppId r) role by m e x' y') s))"
    for u a v "by" m e x' y'
    by (rule progress_audited)
  then show ?thesis
    by (auto simp: counter_partial_def andThen_def split: option.split sum.split)
qed

lemma decide_progress: "partial_progress s (snd (decide_partial_payment A E i actor dec s))"
proof (cases "find_partial i s")
  case (Some r)
  have r: "find_partial (ppId r) s = Some r" using lookup_by_Some_key [OF Some] Some by simp
  show ?thesis
  proof (cases "ppStatus r = PpProposed")
    case True
    note go = open_request_progress [OF r True]
    have accept: "partial_progress s (snd (partial_update_status E (ppId r) PpAwaitingPayment s))"
      unfolding partial_update_status_def by (rule go) simp_all
    have reject: "partial_progress s (snd (record_rejection E (ppId r) why s))" for why
      unfolding record_rejection_def by (rule go) simp_all
    show ?thesis
      by (simp add: decide_partial_payment_def Some True progress_audited accept reject
          counter_progress [OF r True] split: sum.split partial_decision.split)
  qed (simp add: decide_partial_payment_def Some)
qed (simp add: decide_partial_payment_def)

lemma record_partial_progress: "partial_progress s (snd (record_partial_payment A E i pay actor s))"
proof (cases "find_partial i s")
  case (Some r)
  have r: "find_partial (ppId r) s = Some r" using lookup_by_Some_key [OF Some] Some by simp
  show ?thesis
  proof (cases "find_payment pay s")
    case p: (Some p)
    have key: "paId p = pay" using lookup_by_Some_key [OF p] .
    have "partial_progress s (snd (record_applied E (ppId r) (paId p) s))"
      if "ppStatus r = PpAwaitingPayment" "paAgreement p = Some (ppAgreement r)" "paAmount p = ppAmount r"
        "ppInstallment r \<noteq> None \<longrightarrow> paInstallment p = ppInstallment r"
      unfolding record_applied_def using that p key
      by (intro update_partial_progress [OF r])
        (auto simp: advanced_def closed_request_def applied_to_def paid_as_agreed_def intro!: exI [of _ p])
    then show ?thesis
      by (auto simp: record_partial_payment_def Some p intro!: progress_audited split: sum.split)
  qed (simp add: record_partial_payment_def Some split: sum.split)
qed (simp add: record_partial_payment_def)

section \<open>Any sequence of operations\<close>

datatype partial_op =
    ProposeOp uuid int string "string option" "string option" "uuid option" uuid
  | DecideOp uuid uuid partial_decision
  | LinkOp uuid uuid uuid
  | ClearedOp uuid
  | ExpireOp

fun run_partial :: "party_deps \<Rightarrow> env \<times> partial_op \<Rightarrow> db \<Rightarrow> db" where
  "run_partial A (E, ProposeOp ag n d x y inst u) s = snd (propose_partial_payment A E ag n d x y inst u s)"
| "run_partial A (E, DecideOp i u dec) s = snd (decide_partial_payment A E i u dec s)"
| "run_partial A (E, LinkOp i pay u) s = snd (record_partial_payment A E i pay u s)"
| "run_partial A (E, ClearedOp pay) s = snd (apply_cleared_payment E pay s)"
| "run_partial A (E, ExpireOp) s = snd (expire_overdue E s)"

definition run_partials :: "party_deps \<Rightarrow> (env \<times> partial_op) list \<Rightarrow> db \<Rightarrow> db" where
  "run_partials A ops s = foldl (\<lambda>t op. run_partial A op t) s ops"

lemma run_partial_progress: "partial_progress s (run_partial A op s)"
  by (cases "(A, op, s)" rule: run_partial.cases)
    (simp_all add: propose_progress decide_progress record_partial_progress apply_cleared_progress
      expire_overdue_def expire_each_progress)

lemma run_partials_progress: "partial_progress s (run_partials A ops s)"
  unfolding run_partials_def
proof (induction ops arbitrary: s)
  case (Cons op ops)
  show ?case using progress_trans [OF run_partial_progress Cons.IH] by simp
qed simp

text \<open>
  A partial-payment request only moves forward, and what was agreed is what is paid. Whatever
  the parties, the webhook handler and the scheduler do in whatever order: a request that was
  applied, rejected or expired never changes again; once accepted its amount and date are fixed;
  an applied one names a payment of exactly that amount for that agreement and installment; and no
  operation on requests moves money or touches an agreement.
\<close>

theorem partial_request_moves_forward:
  assumes "partial_ok s" and "find_partial i s = Some r" and "s' = run_partials A ops s"
  shows "\<exists>r'. find_partial i s' = Some r' \<and> (closed_request r \<longrightarrow> r' = r) \<and>
    (ppStatus r = PpAwaitingPayment \<longrightarrow> ppAmount r' = ppAmount r \<and> ppDate r' = ppDate r \<and>
       ppStatus r' \<in> {PpAwaitingPayment, PpApplied, PpExpired}) \<and>
    (ppStatus r' = PpApplied \<longrightarrow> (\<exists>p. ppPayment r' = Some (paId p) \<and> find_payment (paId p) s' = Some p \<and>
       paAmount p = ppAmount r' \<and> paAgreement p = Some (ppAgreement r) \<and>
       (ppInstallment r \<noteq> None \<longrightarrow> paInstallment p = ppInstallment r))) \<and> no_money_moved s s'"
proof -
  have g: "partial_progress s s'" using run_partials_progress assms(3) by simp
  obtain r' where r': "find_partial i s' = Some r'" "advanced r r'"
    using g assms(1,2) unfolding partial_progress_def by blast
  have "partial_ok s'" using g assms(1) by (simp add: partial_progress_def)
  then have "paid_as_agreed s' r'"
    using lookup_by_Some_mem [OF r'(1)] by (auto simp: partial_ok_def list_all_iff)
  then show ?thesis
    using r' g by (cases "ppStatus r'") (auto simp: advanced_def paid_as_agreed_def partial_progress_def)
qed

section \<open>Two walks along the same lineage\<close>

text \<open>The application walks back from a payment to its proposal, the expiry walks forward from the
  proposal to its payments. \<open>lineage_to s p n q\<close>: \<open>q\<close> is \<open>n\<close> retries after \<open>p\<close>.\<close>

definition retried_as :: "db \<Rightarrow> payment_row \<Rightarrow> payment_row \<Rightarrow> bool" where
  "retried_as s p q \<longleftrightarrow> (\<exists>r \<in> set (retries s). paKey q = retry_key (rtId r) \<and> rtOriginal r = paId p \<and>
     q \<in> set (payments s))"

inductive lineage_to :: "db \<Rightarrow> payment_row \<Rightarrow> nat \<Rightarrow> payment_row \<Rightarrow> bool" for s where
  here: "lineage_to s p 0 p"
| next_retry: "retried_as s p q \<Longrightarrow> lineage_to s q n z \<Longrightarrow> lineage_to s p (Suc n) z"

lemma lineage_snoc: "lineage_to s p n q \<Longrightarrow> retried_as s q z \<Longrightarrow> lineage_to s p (Suc n) z"
  by (induction rule: lineage_to.induct) (auto intro: lineage_to.intros)

definition may_clear :: "db \<Rightarrow> payment_row \<Rightarrow> bool" where
  "may_clear s p \<longleftrightarrow> has_cleared_entry (paId p) s \<or> paStatus p = PSucceeded \<or> unresolved (paStatus p)"

text \<open>The primary keys and unique indexes of the two tables.\<close>

definition unique_rows :: "db \<Rightarrow> bool" where
  "unique_rows s \<longleftrightarrow> distinct (map paId (payments s)) \<and> distinct (map paKey (payments s)) \<and>
     distinct (map rtId (retries s)) \<and> distinct (map rtOriginal (retries s))"

text \<open>A retry that the walk of the expiry does not follow to the payment made under the retry's key: it
  is canceled, or it names another payment as its result.\<close>

definition sidetracked :: "db \<Rightarrow> payment_row \<Rightarrow> bool" where
  "sidetracked s q \<longleftrightarrow> (\<exists>r \<in> set (retries s). paKey q = retry_key (rtId r) \<and> q \<in> set (payments s) \<and>
     (rtStatus r = RtCanceled \<or> (\<exists>x. rtResulting r = Some x \<and> x \<noteq> paId q)))"

lemma strip_prefix_Some: "strip_prefix p x = Some t \<Longrightarrow> x = p @ t"
  by (auto simp: strip_prefix_def split: if_splits) (metis append_take_drop_id)

lemma uuid_of_text_Some: "uuid_of_text t = Some i \<Longrightarrow> t = show_int (int i)"
  using number_of_range [of t] by (auto simp: uuid_of_text_def split: if_splits)

lemma key_texts:
  "partial_payment_key k = Some i \<Longrightarrow> k = partial_payment_text i"
  "retry_of_key k = Some r \<Longrightarrow> k = retry_key r"
  by (auto simp: partial_payment_key_def retry_of_key_def partial_payment_text_def retry_key_def
      bind_eq_Some_conv dest!: strip_prefix_Some uuid_of_text_Some)

lemma resolve_chain:
  assumes "resolve_lineage n p s = Correlated i" and "p \<in> set (payments s)"
  shows "\<exists>p0 k. k < n \<and> p0 \<in> set (payments s) \<and> paKey p0 = partial_payment_text i \<and> lineage_to s p0 k p"
  using assms
proof (induction n arbitrary: p)
  case (Suc n)
  show ?case
  proof (cases "partial_payment_key (paKey p)")
    case None
    then obtain r row q where r: "retry_of_key (paKey p) = Some r" "find_retry r s = Some row"
        "find_payment (rtOriginal row) s = Some q" "resolve_lineage n q s = Correlated i"
      using Suc.prems(1) by (auto split: option.splits)
    obtain p0 k where c: "k < n" "p0 \<in> set (payments s)" "paKey p0 = partial_payment_text i" "lineage_to s p0 k q"
      using Suc.IH [OF r(4) lookup_by_Some_mem [OF r(3)]] by blast
    have "retried_as s q p"
      using r Suc.prems(2) lookup_by_Some_mem [OF r(2)] lookup_by_Some_key [OF r(2)]
        lookup_by_Some_key [OF r(3)] key_texts(2) [OF r(1)]
      by (auto simp: retried_as_def)
    then show ?thesis using c lineage_snoc by (metis Suc_mono)
  next
    case (Some j)
    then have "j = i" using Suc.prems(1) by (auto split: option.splits if_splits)
    then show ?thesis using Some key_texts(1) Suc.prems(2) here by blast
  qed
qed simp

lemma find_by_original_of:
  assumes "unique_rows s" and "r \<in> set (retries s)"
  shows "find_by_original (rtOriginal r) s = Some r"
  using assms lookup_by_distinct [of rtOriginal "retries s" r]
  by (simp add: unique_rows_def find_by_original_def lookup_by_def)

lemma find_by_key_of:
  assumes "unique_rows s" and "p \<in> set (payments s)" and "paKey p = k"
  shows "find_by_idempotency_key k s = Some p"
  using assms lookup_by_distinct [of paKey "payments s" p]
  by (simp add: unique_rows_def find_by_idempotency_key_def)

lemma replacement_of:
  assumes "unique_rows s" and "r \<in> set (retries s)" and "q \<in> set (payments s)"
    and "paKey q = retry_key (rtId r)" and "\<not> sidetracked s q"
  shows "find_replacement (rtOriginal r) s = PendingReplacement \<or> find_replacement (rtOriginal r) s = ReplacedBy q"
proof -
  have k: "find_by_idempotency_key (retry_key (rtId r)) s = Some q"
    by (rule find_by_key_of [OF assms(1,3,4)])
  have i: "find_payment (paId q) s = Some q"
    using lookup_by_distinct [of paId "payments s" q] assms(1,3) by (simp add: unique_rows_def)
  have "rtStatus r \<noteq> RtCanceled" "\<And>x. rtResulting r = Some x \<Longrightarrow> x = paId q"
    using assms(2-5) by (auto simp: sidetracked_def)
  then show ?thesis
    using k i by (cases "rtResulting r"; cases "rtStatus r")
      (auto simp: find_replacement_def find_by_original_of [OF assms(1,2)])
qed

lemma walk_stops_safely:
  assumes "lineage_to s p k q" and "unique_rows s" and "p \<in> set (payments s)" and "may_clear s q"
    and "k < hops" and "\<And>x n. lineage_to s x n q \<Longrightarrow> \<not> sidetracked s x"
  shows "cleared_walk hops p s = EvCleared \<or> cleared_walk hops p s = EvInFlight"
  using assms
proof (induction arbitrary: hops rule: lineage_to.induct)
  case (here p)
  then show ?case by (cases hops) (auto simp: may_clear_def)
next
  case (next_retry p p1 n z)
  obtain h where h: "hops = Suc h" "n < h" using next_retry.prems(4) by (cases hops) auto
  obtain r where r: "r \<in> set (retries s)" "paKey p1 = retry_key (rtId r)" "rtOriginal r = paId p"
      "p1 \<in> set (payments s)"
    using next_retry.hyps(1) by (auto simp: retried_as_def)
  have "\<not> sidetracked s p1" using next_retry.prems(5) next_retry.hyps(2) by blast
  then show ?case
    using replacement_of [OF next_retry.prems(1) r(1,4,2)]
      next_retry.IH [OF next_retry.prems(1) r(4) next_retry.prems(3) h(2) next_retry.prems(5)]
    by (auto simp: h(1) r(3))
qed

text \<open>
  C38. The expiry does not discard a proposal that is, or may yet be, paid. If the application would
  trace a payment back to the proposal, through however many retries, and that payment has cleared or is
  still under way, then the expiry, which walks the other way, leaves the proposal alone; the one
  exception is a payment that descends from a retry that was canceled after its payment was made, or that
  names another payment as its result, where the walk of the expiry leaves the lineage. The premise is
  that the keys and unique indexes of the two tables hold.
\<close>

theorem expiry_spares_paid_proposals:
  assumes "unique_rows s" and "find_payment pay s = Some p"
    and "resolve_lineage max_lineage_hops p s = Correlated i" and "may_clear s p"
    and "expire_if_safe E i s = (res, s')"
  shows "s' = s \<and> (\<forall>r. res \<noteq> Inr (Expired r)) \<or> (\<exists>x n. lineage_to s x n p \<and> sidetracked s x)"
proof (cases "\<exists>x n. lineage_to s x n p \<and> sidetracked s x")
  case False
  obtain p0 k where c: "k < max_lineage_hops" "p0 \<in> set (payments s)" "paKey p0 = partial_payment_text i"
      "lineage_to s p0 k p"
    using resolve_chain [OF assms(3) lookup_by_Some_mem [OF assms(2)]] by blast
  have "partial_cleared_evidence i s = cleared_walk max_lineage_hops p0 s"
    by (simp add: partial_cleared_evidence_def find_by_key_of [OF assms(1) c(2,3)])
  then have "partial_cleared_evidence i s = EvCleared \<or> partial_cleared_evidence i s = EvInFlight"
    using walk_stops_safely [OF c(4) assms(1) c(2) assms(4) c(1)] False by auto
  then show ?thesis using assms(5) by (auto simp: expire_if_safe_def split: option.splits if_splits)
qed simp

section \<open>A proposal paid by a retry\<close>

text \<open>Proposal 5 of 60: its payment 7 failed, retry 6 of it became payment 8, which cleared.\<close>

definition sample_request :: "partial_status \<Rightarrow> partial_row" where
  "sample_request st = \<lparr>ppId = 5, ppAgreement = 1, ppInstallment = Some 20, ppStatus = st,
     ppProposingRole = Debtor, ppProposedBy = (PersonalProfile, 101), ppAmount = 60,
     ppDate = ''2026-02-01'', ppExplanation = None, ppRemainder = None, ppRejectedReason = None,
     ppRejectedAt = None, ppPayment = None, ppAppliedAt = None, ppExpiredAt = None, ppUpdatedAt = 0\<rparr>"

definition sample_retry :: "retry_status \<Rightarrow> retry_row" where
  "sample_retry st = \<lparr>rtId = 6, rtOriginal = 7, rtInstallment = 20, rtAgreement = 1, rtScheduledFor = 0,
     rtStatus = st, rtResulting = Some 8, rtFiredAt = None, rtCanceledAt = None,
     rtCanceledReason = None, rtToken = Some 3, rtNextResolution = None\<rparr>"

definition sample_direct :: payment_row where
  "sample_direct = (sample_payment 7 PFailed 60)\<lparr>paKey := ''partial-payment-5''\<rparr>"

definition sample_charge :: payment_row where
  "sample_charge = (sample_payment 8 PSucceeded 60)\<lparr>paKey := ''retry-6''\<rparr>"

definition sample_partial_db :: db where
  "sample_partial_db = empty_db\<lparr>nextId := 50, agreements := [sample_agreement Active],
     versions := [sample_version], payments := [sample_direct, sample_charge],
     retries := [sample_retry RtFired], partials := [sample_request PpAwaitingPayment]\<rparr>"

lemma sample_partial_rows [simp]:
  "agreements sample_partial_db = [sample_agreement Active]" "versions sample_partial_db = [sample_version]"
  "payments sample_partial_db = [sample_direct, sample_charge]" "entries sample_partial_db = []"
  "retries sample_partial_db = [sample_retry RtFired]" "nextId sample_partial_db = 50"
  "partials sample_partial_db = [sample_request PpAwaitingPayment]"
  "paId sample_direct = 7" "paKey sample_direct = ''partial-payment-5''" "paStatus sample_direct = PFailed"
  "paId sample_charge = 8" "paKey sample_charge = ''retry-6''" "paStatus sample_charge = PSucceeded"
  "paAmount sample_charge = 60" "paAgreement sample_charge = Some 1" "paInstallment sample_charge = Some 20"
  "paPayer sample_charge = (PersonalProfile, 101)" "paRecipient sample_charge = (PersonalProfile, 102)"
  by (simp_all add: sample_partial_db_def sample_direct_def sample_charge_def sample_payment_def
      empty_db_def)

lemma sample_keys:
  "partial_payment_key ''partial-payment-5'' = Some 5" "partial_payment_key ''retry-6'' = None"
  "retry_of_key ''retry-6'' = Some 6" "retry_key 6 = ''retry-6''"
  by code_simp+

theorem expiry_spares_paid_proposals_witness:
  "snd (expire_if_safe toy_env 5 sample_partial_db) = sample_partial_db"
proof -
  have ok: "unique_rows sample_partial_db" by (simp add: unique_rows_def sample_retry_def)
  have f: "find_payment 8 sample_partial_db = Some sample_charge" by simp
  have l: "resolve_lineage max_lineage_hops sample_charge sample_partial_db = Correlated 5"
    by (simp add: max_lineage_hops_def eval_nat_numeral sample_keys)
      (simp add: sample_retry_def sample_keys sample_request_def)
  have m: "may_clear sample_partial_db sample_charge" by (simp add: may_clear_def)
  have "\<not> sidetracked sample_partial_db x" for x
    using sample_keys by (auto simp: sidetracked_def sample_retry_def)
  then show ?thesis
    using expiry_spares_paid_proposals [OF ok f l m, of toy_env
        "fst (expire_if_safe toy_env 5 sample_partial_db)" "snd (expire_if_safe toy_env 5 sample_partial_db)"]
    by auto
qed

text \<open>Everyone may act for everyone here.\<close>

definition sample_party :: party_deps where
  "sample_party = \<lparr>partyOwner = (\<lambda>_. Some 101), activeStaff = (\<lambda>_ _. False),
     staffCapability = (\<lambda>_ _ _. False)\<rparr>"

theorem partial_request_moves_forward_witness:
  "\<exists>r'. find_partial 5 (run_partials sample_party [(toy_env, LinkOp 5 8 101), (toy_env, ExpireOp)]
     sample_partial_db) = Some r' \<and> ppStatus r' = PpApplied \<and> ppPayment r' = Some 8 \<and> ppAmount r' = 60"
proof -
  let ?s1 = "run_partials sample_party [(toy_env, LinkOp 5 8 101)] sample_partial_db"
  have ok: "partial_ok sample_partial_db"
    by (simp add: partial_ok_def paid_as_agreed_def sample_request_def)
  have p1: "partial_ok ?s1"
    using run_partials_progress [of sample_partial_db sample_party "[(toy_env, LinkOp 5 8 101)]"] ok
    by (simp add: partial_progress_def)
  have one: "find_partial 5 ?s1 = Some (applied_to toy_env 8 (sample_request PpAwaitingPayment))"
    by (simp add: run_partials_def record_partial_payment_def sample_request_def get_agreement_def
        resolve_party_role_def require_agreement_def require_current_version_def
        require_version_def authorize_either_party_def
        authorize_party_def sample_agreement_def sample_party_def sample_version_def audited_def
        record_applied_def update_partial_def set_partial_def andThen_def partial_audit_def)
      (simp add: audit_def sample_request_def applied_to_def)
  have "closed_request (applied_to toy_env 8 (sample_request PpAwaitingPayment))"
    by (simp add: closed_request_def applied_to_def)
  then show ?thesis
    using partial_request_moves_forward [OF p1 one refl, of sample_party "[(toy_env, ExpireOp)]"]
    by (auto simp: run_partials_def applied_to_def sample_request_def)
qed

end
