(* ===== verification/Webhooks.thy ===== *)
theory Webhooks
  imports PartialPayments
begin

text \<open>
  The webhook handler (\<open>payments/paymentWebhookService.ts\<close>): signature check, insert-and-claim,
  processing of one event with every effect it has on payments, ledger, installments, agreements and
  the exception queue, the classification of failures, and the recovery batch. The provider's
  signature check and parser are parameters. Notifications to the parties and the risk signal at the
  end of a processing run inside \<open>try/catch\<close> blocks that swallow every error and are left out.
  An event name that is a property of \<open>Object.prototype\<close> is treated as unknown here.
\<close>

section \<open>The exception queue\<close>

definition find_open_exception ::
    "exception_type \<Rightarrow> uuid option \<Rightarrow> string option \<Rightarrow> db \<Rightarrow> exception_row option" where
  "find_open_exception ty p ev s =
     find (\<lambda>x. exType x = ty \<and> exOpen x \<and> exPayment x = p \<and> exEvent x = ev) (exceptions s)"

definition insert_exception ::
    "env \<Rightarrow> exception_type \<Rightarrow> uuid option \<Rightarrow> string option \<Rightarrow> json \<Rightarrow> db \<Rightarrow> exception_row \<times> db" where
  "insert_exception E ty p ev details s =
     (let x = \<lparr>exId = nextId s, exType = ty, exPayment = p, exEvent = ev, exDetails = details,
        exOpen = True, exDetectedAt = clock E, exResolvedAt = None, exResolvedBy = None,
        exResolution = None\<rparr>
      in (x, s\<lparr>exceptions := exceptions s @ [x], nextId := Suc (nextId s)\<rparr>))"

text \<open>\<open>ON CONFLICT DO NOTHING\<close> on the unique index of open exceptions.\<close>

definition ensure_open_exception ::
    "env \<Rightarrow> exception_type \<Rightarrow> uuid \<Rightarrow> string \<Rightarrow> json \<Rightarrow> db \<Rightarrow> db" where
  "ensure_open_exception E ty p ev details s =
     (if find_open_exception ty (Some p) (Some ev) s \<noteq> None then s
      else snd (insert_exception E ty (Some p) (Some ev) details s))"

section \<open>Events\<close>

definition event_type_status :: "string \<Rightarrow> payment_status option" where
  "event_type_status ty =
     (if ty = ''payment.succeeded'' then Some PSucceeded
      else if ty = ''payment.failed'' then Some PFailed
      else if ty = ''payment.refunded'' then Some PRefunded
      else if ty = ''payment.disputed'' then Some PDisputed
      else if ty = ''payment.returned'' then Some PReturned
      else if ty = ''payment.reversed'' then Some PReversed
      else None)"

definition superseding_event_type :: "payment_status \<Rightarrow> string option" where
  "superseding_event_type st =
     (case st of PRefunded \<Rightarrow> Some ''payment.refunded'' | PDisputed \<Rightarrow> Some ''payment.disputed''
      | PReturned \<Rightarrow> Some ''payment.returned'' | PReversed \<Rightarrow> Some ''payment.reversed'' | _ \<Rightarrow> None)"

definition reversal_entry_type :: "string \<Rightarrow> entry_type option" where
  "reversal_entry_type ty =
     (if ty = ''payment.refunded'' then Some Refund
      else if ty = ''payment.returned'' then Some Reversal
      else if ty = ''payment.disputed'' then Some DisputeAdjustment
      else if ty = ''payment.reversed'' then Some Reversal
      else None)"

definition max_retryable_attempts :: int where "max_retryable_attempts = 8"

definition compute_backoff_ms :: "int \<Rightarrow> int" where
  "compute_backoff_ms attempt = min (30000 * 2 ^ nat (max 0 (attempt - 1))) (30 * 60 * 1000)"

text \<open>The order of the tests matters: both evidence errors are validation errors, too.\<close>

definition classify_processing_failure :: "error \<Rightarrow> bool \<times> string" where
  "classify_processing_failure e =
     (case e of
        FinancialIntegrityError _ \<Rightarrow> (False, ''invalid_financial_data'')
      | ProviderLookupEvidenceError _ \<Rightarrow> (True, ''provider_lookup_evidence_incomplete_or_invalid'')
      | _ \<Rightarrow>
          (if is_validation_error e then (True, ''unresolved_financial_prerequisite'')
           else case e of
             ConfigurationError _ \<Rightarrow> (True, ''repairable_configuration_defect'')
           | _ \<Rightarrow> (True, ''transient_processing_error'')))"

section \<open>Reading the payload\<close>

text \<open>A number of the payload: an integer or the text of another number.\<close>

datatype number = WholeNumber int | OtherNumber string

definition data_number :: "string \<Rightarrow> json \<Rightarrow> number option" where
  "data_number k j =
     (case json_get k j of Some (JNum n) \<Rightarrow> Some (WholeNumber n)
      | Some (JDec d) \<Rightarrow> Some (OtherNumber d) | _ \<Rightarrow> None)"

definition number_json :: "number \<Rightarrow> json" where
  "number_json n = (case n of WholeNumber i \<Rightarrow> JNum i | OtherNumber d \<Rightarrow> JDec d)"

definition non_negative_integer :: "number option \<Rightarrow> int option" where
  "non_negative_integer n = (case n of Some (WholeNumber i) \<Rightarrow> if 0 \<le> i then Some i else None | _ \<Rightarrow> None)"

definition details_json :: "json \<Rightarrow> json \<Rightarrow> json" where
  "details_json expected actual = JObj [(''expected'', expected), (''actual'', actual)]"

type_synonym mismatch = "exception_type \<times> json \<times> json"

text \<open>The amount and currency checks shared by both conflict paths.\<close>

definition material_mismatches :: "payment_row \<Rightarrow> json \<Rightarrow> mismatch list" where
  "material_mismatches p data =
     (case data_number ''amountMinorUnits'' data of
        None \<Rightarrow> []
      | Some n \<Rightarrow> if n \<noteq> WholeNumber (paAmount p)
                 then [(AmountMismatch, JNum (paAmount p), number_json n)] else []) @
     (case json_get_string ''currency'' data of
        None \<Rightarrow> []
      | Some c \<Rightarrow> if c \<noteq> paCurrency p then [(CurrencyMismatch, JStr (paCurrency p), JStr c)] else [])"

fun record_mismatches :: "env \<Rightarrow> uuid \<Rightarrow> string \<Rightarrow> mismatch list \<Rightarrow> db \<Rightarrow> db" where
  "record_mismatches E p ev [] s = s"
| "record_mismatches E p ev ((ty, expected, actual) # ms) s =
     record_mismatches E p ev ms (ensure_open_exception E ty p ev (details_json expected actual) s)"

text \<open>The policy in production: no platform fee.\<close>

definition platform_fee :: "payment_row \<Rightarrow> int" where
  "platform_fee p = 0"

text \<open>\<open>validateFirstEventMaterialEvidence\<close>: true when the event must go no further.\<close>

definition validate_first_evidence :: "env \<Rightarrow> payment_row \<Rightarrow> json \<Rightarrow> string \<Rightarrow> db \<Rightarrow> bool \<times> db" where
  "validate_first_evidence E p data ev s =
     (material_mismatches p data \<noteq> [], record_mismatches E (paId p) ev (material_mismatches p data) s)"

section \<open>Conflicting late events\<close>

definition historically_compatible :: "payment_row \<Rightarrow> string \<Rightarrow> payment_status \<Rightarrow> db \<Rightarrow> bool" where
  "historically_compatible p ty attempted s \<longleftrightarrow>
     (case paProviderId p of
        None \<Rightarrow> False
      | Some pid \<Rightarrow> pid \<noteq> [] \<and> attempted \<in> set (allowed_sources (paStatus p)) \<and>
          list_ex (\<lambda>w. weAppliedAt w \<noteq> None \<and> weTo w = Some attempted)
            (find_trusted_financial_events (paProviderName p) pid ty s))"

definition posted_on :: "account_type \<Rightarrow> journal_entry \<Rightarrow> int" where
  "posted_on ty e = foldl (\<lambda>n p. js_add n (poAmount p)) 0 (filter (\<lambda>p. poType p = ty) (jePostings e))"

text \<open>The fee on the ledger, else the fee of the event that made the transition, if there is one.\<close>

definition known_processor_fee :: "payment_row \<Rightarrow> db \<Rightarrow> number option" where
  "known_processor_fee p s =
     (case find_by_payment_and_type (paId p) PaymentCleared s of
        Some e \<Rightarrow> Some (WholeNumber (posted_on ProcessorFeeExpense e))
      | None \<Rightarrow>
          Option.bind (find_canonical_transition_evidence (paProviderName p)
              (case paProviderId p of None \<Rightarrow> [] | Some x \<Rightarrow> x) PSucceeded s)
            (\<lambda>w. data_number ''processorFeeMinorUnits'' (wePayload w)))"

definition fee_mismatches :: "payment_row \<Rightarrow> json \<Rightarrow> db \<Rightarrow> mismatch list" where
  "fee_mismatches p data s =
     (case (data_number ''processorFeeMinorUnits'' data, known_processor_fee p s) of
        (Some n, Some posted) \<Rightarrow>
          if n \<noteq> posted then [(ProcessorFeeMismatch, number_json posted, number_json n)] else []
      | _ \<Rightarrow> []) @
     (case find_by_payment_and_type (paId p) PaymentCleared s of
        None \<Rightarrow> []
      | Some e \<Rightarrow> if platform_fee p \<noteq> posted_on PlatformFeeRevenue e
          then [(PlatformFeeMismatch, JNum (platform_fee p), JNum (posted_on PlatformFeeRevenue e))] else [])"

definition detect_conflict ::
    "env \<Rightarrow> payment_row \<Rightarrow> json \<Rightarrow> string \<Rightarrow> string \<Rightarrow> payment_status \<Rightarrow> db \<Rightarrow> db" where
  "detect_conflict E p data ev ty attempted s =
     record_mismatches E (paId p) ev
       (material_mismatches p data @
        (if attempted \<noteq> paStatus p \<and> \<not> historically_compatible p ty attempted s
         then [(StatusMismatch, JStr (status_name (paStatus p)), JStr (status_name attempted))] else []) @
        (if ty = ''payment.succeeded'' then fee_mismatches p data s else [])) s"

definition record_provider_mismatch :: "env \<Rightarrow> payment_row \<Rightarrow> string \<Rightarrow> string \<Rightarrow> db \<Rightarrow> db" where
  "record_provider_mismatch E p incoming ev =
     ensure_open_exception E ProviderIdentityMismatch (paId p) ev
       (JObj [(''expectedProvider'', JStr (paProviderName p)), (''actualProvider'', JStr incoming),
         (''providerPaymentId'', case paProviderId p of None \<Rightarrow> JNull | Some x \<Rightarrow> JStr x)])"

section \<open>Effects of an event\<close>

definition record_transition_audit ::
    "env \<Rightarrow> payment_row \<Rightarrow> string \<Rightarrow> string \<Rightarrow> payment_status \<Rightarrow> payment_status \<Rightarrow> db \<Rightarrow> db" where
  "record_transition_audit E p ev ty from to =
     audit E ((blank_audit (''payment_webhook_'' @ ty) (clock E))
       \<lparr>actorRole := Some ''payment_provider'', profileKind := Some (fst (paPayer p)),
        profileId := Some (snd (paPayer p)), auditAgreementId := paAgreement p,
        previousValue := JStr (status_name from), newValue := JStr (status_name to),
        targetResourceType := Value ''payment_attempt'', targetResourceId := Value (paId p),
        providerEventId := Value ev\<rparr>)"

text \<open>What a provider lookup must prove before it may post: every figure present, and consistent.\<close>

definition lookup_evidence_error :: "payment_row \<Rightarrow> json \<Rightarrow> error option" where
  "lookup_evidence_error p data =
     (let amount = non_negative_integer (data_number ''amountMinorUnits'' data);
          processor = non_negative_integer (data_number ''processorFeeMinorUnits'' data);
          platform = non_negative_integer (data_number ''platformFeeMinorUnits'' data)
      in if amount \<noteq> Some (paAmount p)
         then Some (ProviderLookupEvidenceError ''incomplete_or_mismatched_amount'')
         else if json_get_string ''currency'' data \<noteq> Some (paCurrency p)
         then Some (ProviderLookupEvidenceError ''incomplete_or_mismatched_currency'')
         else case processor of
           None \<Rightarrow> Some (ProviderLookupEvidenceError ''incomplete_processor_fee_evidence'')
         | Some fee \<Rightarrow>
        (if platform \<noteq> Some (platform_fee p)
         then Some (ProviderLookupEvidenceError ''incomplete_or_mismatched_platform_fee'')
         else if paAmount p < fee then Some (ProviderLookupEvidenceError ''excessive_processor_fee'')
         else if paAmount p < platform_fee p
         then Some (ProviderLookupEvidenceError ''excessive_platform_fee'')
         else if paAmount p < js_add fee (platform_fee p)
         then Some (ProviderLookupEvidenceError ''invalid_combined_fees'')
         else None))"

text \<open>A fee that is a number but no integer is refused by \<open>postPaymentCleared\<close>, unless the entry
  exists already.\<close>

definition post_cleared_event :: "env \<Rightarrow> payment_row \<Rightarrow> uuid \<Rightarrow> json \<Rightarrow> (db, error, unit) step" where
  "post_cleared_event E p ag data =
     (let post = (\<lambda>fee. andThen (post_payment_cleared E \<lparr>ciPayment = paId p, ciAgreement = ag,
            ciCurrency = paCurrency p, ciGross = paAmount p, ciProcessorFee = Some fee,
            ciPlatformFee = Some (platform_fee p)\<rparr>) (\<lambda>_. ret ()))
      in case data_number ''processorFeeMinorUnits'' data of
           Some (WholeNumber fee) \<Rightarrow> post fee
         | None \<Rightarrow> post 0
         | Some (OtherNumber _) \<Rightarrow>
             (\<lambda>s. if find_by_payment_and_type (paId p) PaymentCleared s \<noteq> None then (Inr (), s)
                  else (Inl (FinancialIntegrityError ''processorFeeMinorUnits''), s)))"

definition post_ledger_entry ::
    "env \<Rightarrow> string \<Rightarrow> payment_row \<Rightarrow> json \<Rightarrow> event_source \<Rightarrow> (db, error, unit) step" where
  "post_ledger_entry E ty p data source =
     (case paAgreement p of
        None \<Rightarrow> throw (ConfigurationError ''payment_webhook_ledger_blocked_no_agreement'')
      | Some ag \<Rightarrow>
     (if ty = ''payment.succeeded''
      then (case (if source = ProviderLookup then lookup_evidence_error p data else None) of
              Some e \<Rightarrow> throw e
            | None \<Rightarrow> post_cleared_event E p ag data)
      else case reversal_entry_type ty of
        None \<Rightarrow> ret ()
      | Some entry \<Rightarrow>
          andThen (reverse_payment E (paId p) entry (json_get_string ''reason'' data)) (\<lambda>_. ret ())))"

text \<open>\<open>applyPartialPaymentRequired\<close>.\<close>

definition apply_partial_required :: "env \<Rightarrow> payment_row \<Rightarrow> (db, error, unit) step" where
  "apply_partial_required E p =
     andThen (apply_cleared_payment E (paId p)) (\<lambda>res.
     case res of
       NotYetDurable _ \<Rightarrow> throw (ValidationError ''payment_webhook_partial_payment_not_yet_durable'')
     | _ \<Rightarrow> ret ())"

datatype disposition = ApplyEffects | SupersededSafely | WaitForSuperseding

definition success_disposition :: "payment_row \<Rightarrow> db \<Rightarrow> disposition" where
  "success_disposition p s =
     (if paStatus p = PSucceeded then ApplyEffects
      else case (superseding_event_type (paStatus p), paProviderId p) of
        (Some ty, Some pid) \<Rightarrow>
          (if pid \<noteq> [] \<and> list_ex (\<lambda>w. weAppliedAt w \<noteq> None \<and> weFrom w = Some PSucceeded \<and>
                weTo w = Some (paStatus p))
              (find_trusted_financial_events (paProviderName p) pid ty s)
           then SupersededSafely else WaitForSuperseding)
      | _ \<Rightarrow> WaitForSuperseding)"

definition run_failed_workflow ::
    "workflow_deps \<Rightarrow> env \<Rightarrow> payment_status \<Rightarrow> payment_row \<Rightarrow> string option \<Rightarrow> (db, error, unit) step" where
  "run_failed_workflow W E st p category =
     (if paInstallment p = None then ret ()
      else if st = PFailed then handle_payment_failed W E p category
      else if st = PSucceeded then handle_payment_succeeded E p
      else ret ())"

definition check_completion_required :: "env \<Rightarrow> payment_status \<Rightarrow> payment_row \<Rightarrow> (db, error, unit) step" where
  "check_completion_required E st p =
     (case paAgreement p of
        None \<Rightarrow> ret ()
      | Some ag \<Rightarrow>
          (if st \<noteq> PSucceeded then ret ()
           else update (\<lambda>s. mark_lifecycle_checked (paId p) (clock E) (check_and_advance True True E ag s))))"

definition supersession_required ::
    "env \<Rightarrow> payment_status \<Rightarrow> payment_row \<Rightarrow> string \<Rightarrow> (db, error, unit) step" where
  "supersession_required E st p ev =
     (if \<not> superseded_status st then ret ()
      else andThen (handle_payment_superseded E p ev) (\<lambda>_.
        case paAgreement p of
          None \<Rightarrow> ret ()
        | Some ag \<Rightarrow> (\<lambda>s. case recompute_after_supersession E ag ev s of
            Inl e \<Rightarrow> (Inl e, s) | Inr s' \<Rightarrow> (Inr (), s'))))"

text \<open>The last part of \<open>applyEvent\<close>: every effect is idempotent, and runs again after a crash.\<close>

definition run_effects ::
    "workflow_deps \<Rightarrow> env \<Rightarrow> webhook_row \<Rightarrow> payment_status \<Rightarrow> string option \<Rightarrow> payment_row \<Rightarrow>
     (db, error, unit) step" where
  "run_effects W E w st category p =
     andThen (post_ledger_entry E (weType w) p (wePayload w) (weSource w)) (\<lambda>_.
     if weType w = ''payment.succeeded''
     then andThen (apply_partial_required E p) (\<lambda>_.
       (\<lambda>s. case success_disposition p s of
          WaitForSuperseding \<Rightarrow>
            (Inl (ValidationError ''payment_webhook_historical_effect_awaiting_superseding_event''), s)
        | SupersededSafely \<Rightarrow> (Inr (), s)
        | ApplyEffects \<Rightarrow>
            andThen (run_failed_workflow W E st p category) (\<lambda>_. check_completion_required E st p) s))
     else andThen (run_failed_workflow W E st p category) (\<lambda>_.
       andThen (check_completion_required E st p) (\<lambda>_. supersession_required E st p (weEventId w))))"

section \<open>One event\<close>

definition apply_payout_required :: "env \<Rightarrow> payment_row \<Rightarrow> string \<Rightarrow> (db, error, unit) step" where
  "apply_payout_required E p ev =
     (if paAgreement p = None
      then throw (ConfigurationError ''payment_webhook_ledger_blocked_no_agreement'')
      else andThen (post_payout E (paId p) None) (\<lambda>_.
        andThen (if paPayoutCompleted p \<noteq> None then ret p
                 else mark_payout_completed E (paId p) (clock E)) (\<lambda>updated.
        update (audit E ((blank_audit ''payment_webhook_payout.paid'' (clock E))
          \<lparr>actorRole := Some ''payment_provider'', profileKind := Some (fst (paPayer updated)),
           profileId := Some (snd (paPayer updated)), auditAgreementId := paAgreement updated,
           newValue := (case paPayoutCompleted updated of None \<Rightarrow> JNull
             | Some t \<Rightarrow> JStr (to_iso_string t)),
           targetResourceType := Value ''payment_attempt'', targetResourceId := Value (paId updated),
           providerEventId := Value ev\<rparr>)))))"

text \<open>The transition, or its earlier result; \<open>None\<close> means that the event ends here.\<close>

definition transition_of_event ::
    "env \<Rightarrow> webhook_row \<Rightarrow> uuid \<Rightarrow> payment_status \<Rightarrow> string option \<Rightarrow> payment_row \<Rightarrow>
     (db, error, payment_row option) step" where
  "transition_of_event E w token st category p =
     (if weAppliedAt w = None
      then andThen (apply_transition E (paId p) (weId w) token st
          \<lparr>pfProviderId = None, pfFailure = category\<rparr> (allowed_sources st)) (\<lambda>res.
        case res of
          Rejected cur \<Rightarrow>
            (if permanently_illegal (paStatus cur) st
             then andThen (update (detect_conflict E cur (wePayload w) (weEventId w) (weType w) st))
               (\<lambda>_. ret None)
             else throw (ValidationError ''payment_webhook_transition_prerequisite_not_yet_met''))
        | Applied cur from \<Rightarrow>
            andThen (update (record_transition_audit E cur (weEventId w) (weType w) from st))
              (\<lambda>_. ret (Some cur)))
      else (\<lambda>s. let cur = (case find_payment (paId p) s of None \<Rightarrow> p | Some q \<Rightarrow> q)
                in (Inr (Some cur),
                    case weFrom w of
                      None \<Rightarrow> s
                    | Some from \<Rightarrow> record_transition_audit E cur (weEventId w) (weType w) from st s)))"

definition apply_status_event ::
    "workflow_deps \<Rightarrow> env \<Rightarrow> webhook_row \<Rightarrow> uuid \<Rightarrow> payment_status \<Rightarrow> payment_row \<Rightarrow>
     (db, error, unit) step" where
  "apply_status_event W E w token st p s =
     (let category = (if st = PFailed then json_get_string ''failureCategory'' (wePayload w) else None);
          first = (if weType w = ''payment.succeeded''
                   then validate_first_evidence E p (wePayload w) (weEventId w) s else (False, s))
      in if fst first then (Inr (), snd first)
         else andThen (transition_of_event E w token st category p) (\<lambda>cur.
           case cur of None \<Rightarrow> ret () | Some q \<Rightarrow> run_effects W E w st category q) (snd first))"

definition apply_event ::
    "workflow_deps \<Rightarrow> env \<Rightarrow> webhook_row \<Rightarrow> uuid \<Rightarrow> (db, error, unit) step" where
  "apply_event W E w token s =
     (if weType w \<noteq> ''payout.paid'' \<and> event_type_status (weType w) = None then (Inr (), s)
      else case json_get_string ''providerPaymentId'' (wePayload w) of
        None \<Rightarrow> (Inl (ValidationError ''payment_webhook_missing_provider_payment_id''), s)
      | Some pid \<Rightarrow>
     (if pid = [] then (Inl (ValidationError ''payment_webhook_missing_provider_payment_id''), s)
      else case find_by_provider_payment_id pid s of
        None \<Rightarrow> (Inl (ValidationError ''payment_webhook_no_matching_payment''), s)
      | Some p \<Rightarrow>
     (if paProviderName p \<noteq> weProvider w
      then (Inr (), record_provider_mismatch E p (weProvider w) (weEventId w) s)
      else if weType w = ''payout.paid'' then apply_payout_required E p (weEventId w) s
      else case event_type_status (weType w) of
        None \<Rightarrow> (Inr (), s)
      | Some st \<Rightarrow> apply_status_event W E w token st p s)))"

section \<open>Claim, process, finish\<close>

datatype webhook_reply = WebhookProcessed | WebhookDuplicate | WebhookAccepted

definition process_and_finalize ::
    "workflow_deps \<Rightarrow> env \<Rightarrow> webhook_row \<Rightarrow> db \<Rightarrow> webhook_reply \<times> db" where
  "process_and_finalize W E w s =
     (case weToken w of
        None \<Rightarrow> (WebhookAccepted, s)
      | Some token \<Rightarrow>
     (case apply_event W E w token s of
        (Inr _, s1) \<Rightarrow> (WebhookProcessed, mark_processed E (weId w) token s1)
      | (Inl e, s1) \<Rightarrow>
          (WebhookAccepted,
           if fst (classify_processing_failure e)
           then mark_failed_retryable E (weId w) token (snd (classify_processing_failure e))
             (clock E + compute_backoff_ms (weAttempts w)) s1
           else mark_failed_permanent E (weId w) token (snd (classify_processing_failure e)) s1)))"

definition claim_and_process ::
    "workflow_deps \<Rightarrow> env \<Rightarrow> string \<Rightarrow> string \<Rightarrow> string \<Rightarrow> json \<Rightarrow> event_source \<Rightarrow> bool \<Rightarrow> db \<Rightarrow>
     webhook_reply \<times> db" where
  "claim_and_process W E pr ev ty payload source verified s =
     (case try_insert_and_claim E pr ev ty source verified payload lease_ms s of
        (Some w, s1) \<Rightarrow> process_and_finalize W E w s1
      | (None, s1) \<Rightarrow>
          (case claim_existing_for_processing E pr ev lease_ms s1 of
             (Duplicate, s2) \<Rightarrow> (WebhookDuplicate, s2)
           | (InProgress, s2) \<Rightarrow> (WebhookAccepted, s2)
           | (NotDue, s2) \<Rightarrow> (WebhookAccepted, s2)
           | (Claimed w, s2) \<Rightarrow> process_and_finalize W E w s2))"

record provider_deps =
  verifyWebhookSignature :: "string \<Rightarrow> string \<Rightarrow> bool"
  parseWebhookEvent :: "string \<Rightarrow> error + (string \<times> string \<times> string \<times> json)"

definition receive_webhook ::
    "provider_deps \<Rightarrow> workflow_deps \<Rightarrow> env \<Rightarrow> string \<Rightarrow> string \<Rightarrow> (db, error, webhook_reply) step" where
  "receive_webhook P W E body signature s =
     (if \<not> verifyWebhookSignature P body signature
      then (Inl (ForbiddenError ''WebhookSignature''), s)
      else case parseWebhookEvent P body of
        Inl e \<Rightarrow> (Inl e, s)
      | Inr (pr, ev, ty, payload) \<Rightarrow>
          (case claim_and_process W E pr ev ty payload SignedWebhook True s of (r, s') \<Rightarrow> (Inr r, s')))"

definition receive_internal_event ::
    "workflow_deps \<Rightarrow> env \<Rightarrow> string \<Rightarrow> string \<Rightarrow> string \<Rightarrow> json \<Rightarrow> db \<Rightarrow> webhook_reply \<times> db" where
  "receive_internal_event W E pr ev ty payload =
     claim_and_process W E pr ev ty payload ProviderLookup False"

text \<open>\<open>recoverBatch\<close>: claimed, processed and failed.\<close>

fun process_each ::
    "workflow_deps \<Rightarrow> env \<Rightarrow> webhook_row list \<Rightarrow> int \<times> int \<Rightarrow> db \<Rightarrow> (int \<times> int) \<times> db" where
  "process_each W E [] n s = (n, s)"
| "process_each W E (w # ws) (ok, bad) s =
     (case process_and_finalize W E w s of (r, s') \<Rightarrow>
        process_each W E ws (if r = WebhookProcessed then (ok + 1, bad) else (ok, bad + 1)) s')"

definition recover_batch :: "workflow_deps \<Rightarrow> env \<Rightarrow> nat \<Rightarrow> db \<Rightarrow> (int \<times> int \<times> int) \<times> db" where
  "recover_batch W E n s =
     (case claim_batch_for_recovery E n lease_ms s of (ws, s1) \<Rightarrow>
     (case process_each W E ws (0, 0) s1 of ((ok, bad), s2) \<Rightarrow> ((int (length ws), ok, bad), s2)))"

end
