(* ===== verification/WebhookLaws.thy ===== *)
theory WebhookLaws
  imports Webhooks
begin

text \<open>
  What the webhook handler keeps and promises: the effects of one event, whatever it is and however
  it ends, seen from the rest of the database; the events it refuses; the fate of every accepted
  event; repeated delivery.
\<close>

section \<open>The effects of one event\<close>

text \<open>An event row without the markers of its transition: what belongs to its processing state.\<close>

definition inbox_view :: "webhook_row \<Rightarrow> webhook_row" where
  "inbox_view w = w\<lparr>weAppliedAt := None, weFrom := None, weTo := None\<rparr>"

definition payments_keyed :: "db \<Rightarrow> bool" where
  "payments_keyed s \<longleftrightarrow> distinct (map paId (payments s))"

definition effect :: "db \<Rightarrow> db \<Rightarrow> bool" where
  "effect s s' \<longleftrightarrow> (ledger_ok s \<and> payments_keyed s \<longrightarrow> ledger_ok s' \<and>
     moved_legally (payments s) (payments s') \<and> take (length (entries s)) (entries s') = entries s \<and>
     nextId s \<le> nextId s' \<and> map inbox_view (webhooks s') = map inbox_view (webhooks s))"

definition quiet :: "db \<Rightarrow> db \<Rightarrow> bool" where
  "quiet s s' \<longleftrightarrow> nextId s \<le> nextId s' \<and> webhooks s' = webhooks s \<and> payments s' = payments s \<and>
     entries s' = entries s \<and> accounts s' = accounts s"

lemma quiet_refl [simp]: "quiet s s"
  by (simp add: quiet_def)

lemma quiet_trans: "quiet a b \<Longrightarrow> quiet b c \<Longrightarrow> quiet a c"
  by (simp add: quiet_def)

lemma moved_keyed: "moved_legally (payments s) (payments s') \<Longrightarrow> payments_keyed s \<Longrightarrow> payments_keyed s'"
  by (simp add: moved_legally_def payments_keyed_def)

lemma effect_refl [simp]: "effect s s"
  by (simp add: effect_def moved_refl)

lemma effect_trans:
  assumes "effect a b" and "effect b c"
  shows "effect a c"
proof -
  have "ledger_ok c \<and> moved_legally (payments a) (payments c) \<and>
      take (length (entries a)) (entries c) = entries a \<and> nextId a \<le> nextId c \<and>
      map inbox_view (webhooks c) = map inbox_view (webhooks a)" if "ledger_ok a" "payments_keyed a"
  proof -
    have 1: "ledger_ok b" "moved_legally (payments a) (payments b)" "nextId a \<le> nextId b"
      "take (length (entries a)) (entries b) = entries a"
      "map inbox_view (webhooks b) = map inbox_view (webhooks a)"
      using assms(1) that by (simp_all add: effect_def)
    have 2: "ledger_ok c" "moved_legally (payments b) (payments c)" "nextId b \<le> nextId c"
      "take (length (entries b)) (entries c) = entries b"
      "map inbox_view (webhooks c) = map inbox_view (webhooks b)"
      using assms(2) 1 moved_keyed [OF 1(2) that(2)] by (simp_all add: effect_def)
    show ?thesis
      using moved_trans [OF 1(2) 2(2)] take_prefix_trans [OF 1(4) 2(4)] 1(3,5) 2(1,3,5) by simp
  qed
  then show ?thesis by (simp add: effect_def)
qed

lemma quiet_effect: "quiet s s' \<Longrightarrow> effect s s'"
  using ledger_ok_cong [of s' s] by (simp add: quiet_def effect_def moved_refl)

interpretation effects: state_preorder effect
  by unfold_locales (blast intro: effect_refl effect_trans)+

lemmas effect_andThen = effects.kept_then

lemmas effect_simple = effects.kept_simple

lemma keeps_quiet: "(\<And>s. quiet s (snd (m s))) \<Longrightarrow> keeps effect m"
  by (simp add: keeps_def quiet_effect)

lemma quiet_audit: "quiet s (audit E p s)"
  by (simp add: quiet_def)

lemma quiet_atomically: "quiet s (snd (m s)) \<Longrightarrow> quiet s (snd (atomically m s))"
  by (auto simp: atomically_def split: prod.splits sum.splits)

text \<open>Retries, installments, agreements, proposals, exceptions: none of this moves money.\<close>

lemma quiet_exception: "quiet s (ensure_open_exception E ty p ev d s)"
  by (simp add: ensure_open_exception_def insert_exception_def quiet_def Let_def)

lemma quiet_mismatches: "quiet s (record_mismatches E p ev ms s)"
  by (induction E p ev ms s rule: record_mismatches.induct) (auto intro: quiet_trans quiet_exception)

lemma quiet_failure: "quiet s (snd (coordinate_failure E d inst p s))"
proof -
  have "quiet s (snd (failure_transaction E d inst p s))"
    by (auto simp: failure_transaction_def quiet_def insert_retry_def Let_def andThen_def
        set_installment_status_def split: option.splits)
  then have "quiet s (snd (atomically (failure_transaction E d inst p) s))" by (rule quiet_atomically)
  then show ?thesis
    by (auto simp: coordinate_failure_def intro: quiet_trans quiet_audit
        split: prod.splits sum.splits failure_result.splits bool.splits)
qed

lemma quiet_audit_canceled: "quiet s (audit_canceled E is s)"
  by (induction E "is" s rule: audit_canceled.induct) (auto intro: quiet_trans quiet_audit)

lemma quiet_success: "quiet s (snd (coordinate_success E inst s))"
proof -
  have "quiet s (snd (success_transaction E inst s))"
    by (auto simp: success_transaction_def cancel_open_retries_def quiet_def set_installment_status_def
        split: option.splits sum.splits)
  then have q: "quiet s (snd (atomically (success_transaction E inst) s))" by (rule quiet_atomically)
  show ?thesis
    using q quiet_trans [OF _ quiet_audit_canceled]
    by (auto simp: coordinate_success_def andThen_def split: prod.splits sum.splits)
qed

lemma quiet_supersession_audit: "quiet s (supersession_audit E inst p ev act old new why s)"
  by (simp add: supersession_audit_def quiet_def)

lemma quiet_supersession: "quiet s (snd (coordinate_supersession E inst p ev s))"
proof -
  have i: "quiet s (set_installment_status inst st s)" for st
    by (simp add: quiet_def set_installment_status_def)
  have "quiet s (snd (supersession_transaction E inst p ev s))"
    using quiet_trans [OF i quiet_supersession_audit]
    by (auto simp: supersession_transaction_def Let_def quiet_supersession_audit
        split: option.splits sum.splits)
  then show ?thesis
    using quiet_atomically by (auto simp: coordinate_supersession_def split: option.splits)
qed

lemma quiet_evidence: "quiet s (partial_evidence_audit E act p i v why s)"
  by (simp add: partial_evidence_audit_def quiet_def)

lemma quiet_applied: "apply_if_awaiting E i pay s = (r, s1) \<Longrightarrow> quiet s s1"
  by (auto simp: apply_if_awaiting_def set_partial_def quiet_def split: option.splits if_splits)

lemma quiet_apply_correlated: "quiet s (snd (apply_correlated E p i s))"
proof -
  obtain r s1 where a: "apply_if_awaiting E i (paId p) s = (r, s1)" by fastforce
  have q: "quiet s s1" "\<And>act v why. quiet s (partial_evidence_audit E act p i v why s1)"
    using quiet_applied [OF a] quiet_trans quiet_evidence by blast+
  show ?thesis
    by (simp add: apply_correlated_def a record_conflict_evidence_def record_supersession_history_def
        quiet_evidence q split: option.split sum.split prod.split)
qed

lemma quiet_apply_cleared: "quiet s (snd (apply_cleared_payment E pay s))"
  by (simp add: apply_cleared_payment_def record_conflict_evidence_def quiet_evidence
      quiet_apply_correlated split: option.split lineage.split)

lemma quiet_completion: "quiet s (check_and_advance True True E ag s)"
  by (auto simp: check_and_advance_def decide_and_apply_def quiet_def set_agreement_status_def
      split: option.splits)

lemma quiet_recompute: "recompute_after_supersession E ag ev s = Inr s' \<Longrightarrow> quiet s s'"
  by (auto simp: recompute_after_supersession_def quiet_def set_agreement_status_def bindE_Inr_iff Let_def
      split: option.splits if_splits)

text \<open>Postings and the marks on a payment.\<close>

lemma effect_posting: "effect s (snd (run_op E op s))"
  using postsD [OF run_op_posts, of s E op] by (auto simp: effect_def only_ledger_grew_def moved_refl)

lemma moved_mark:
  assumes "\<And>p. paId (f p) = paId p \<and> paStatus (f p) = paStatus p \<and>
    payment_terms (f p) = payment_terms p"
  shows "moved_legally ps (update_by paId i f ps)"
  using assms by (auto simp: moved_legally_def update_by_def list_all2_conv_all_nth)

lemma effect_mark:
  assumes "\<And>p. paId (f p) = paId p \<and> paStatus (f p) = paStatus p \<and>
    payment_terms (f p) = payment_terms p"
  shows "effect s (set_payment i f s)"
  using moved_mark [OF assms, of "payments s" i] ledger_ok_cong [of "set_payment i f s" s]
  by (simp add: effect_def)

lemma inbox_view_map:
  "(\<And>w. inbox_view (f w) = inbox_view w) \<Longrightarrow> map inbox_view (update_by weId i f ws) = map inbox_view ws"
  by (induction ws) auto

lemma effect_transition:
  "effect s (snd (apply_transition E pay ev token st f (allowed_sources st) s))"
proof -
  have "effect s (set_webhook ev (\<lambda>w. w\<lparr>weAppliedAt := a, weFrom := b, weTo := c\<rparr>)
      (set_payment pay (with_status E st f) s))"
    if "find_payment pay s = Some p" "legal_step (paStatus p) st" for p a b c
  proof -
    have "moved_legally (payments s) (update_by paId pay (with_status E st f) (payments s))"
      if "payments_keyed s"
      using moved_update that \<open>find_payment pay s = Some p\<close> \<open>legal_step (paStatus p) st\<close>
      by (simp add: payments_keyed_def)
    then show ?thesis
      using ledger_ok_cong [of "set_webhook ev (\<lambda>w. w\<lparr>weAppliedAt := a, weFrom := b, weTo := c\<rparr>)
        (set_payment pay (with_status E st f) s)" s]
      by (simp add: effect_def inbox_view_map inbox_view_def)
  qed
  then show ?thesis by (auto simp: apply_transition_def legal_step_def split: option.split)
qed

text \<open>The effects of an event one after the other.\<close>

lemma keeps_postings:
  "keeps effect (post_payment_cleared E i)" "keeps effect (reverse_payment E q ty why)"
  "keeps effect (post_payout E q why)"
  using effect_posting [of _ E "PostCleared i"] effect_posting [of _ E "ReversePayment q ty why"]
    effect_posting [of _ E "PostPayout q why"]
  by (simp_all add: keeps_def)

lemma keeps_coordinators:
  "keeps effect (coordinate_failure E d inst p)" "keeps effect (coordinate_success E inst)"
  "keeps effect (coordinate_supersession E inst p ev)" "keeps effect (apply_cleared_payment E pay)"
  by (rule keeps_quiet, rule quiet_failure quiet_success quiet_supersession quiet_apply_cleared)+

lemma keeps_post_cleared: "keeps effect (post_cleared_event E p ag data)"
proof -
  have "keeps effect (andThen (post_payment_cleared E i) (\<lambda>_. ret ()))" for i
    by (intro effect_andThen keeps_postings effect_simple)
  then show ?thesis
    by (auto simp: post_cleared_event_def Let_def keeps_def split: option.split number.split)
qed

lemma keeps_post_ledger: "keeps effect (post_ledger_entry E ty p data src)"
proof -
  have "keeps effect (andThen (reverse_payment E i t why) (\<lambda>_. ret ()))" for i t why
    by (intro effect_andThen keeps_postings effect_simple)
  then show ?thesis
    by (simp add: post_ledger_entry_def keeps_post_cleared effect_simple split: option.split)
qed

lemma keeps_partial: "keeps effect (apply_partial_required E p)"
  unfolding apply_partial_required_def
  by (intro effect_andThen keeps_coordinators) (simp add: effect_simple split: apply_outcome.split)

lemma keeps_workflow: "keeps effect (run_failed_workflow W E st p c)"
  unfolding run_failed_workflow_def handle_payment_failed_def handle_payment_succeeded_def
  by (auto intro!: effect_andThen keeps_coordinators simp: effect_simple split: option.splits)

lemma keeps_completion: "keeps effect (check_completion_required E st p)"
proof -
  have "effect s (mark_lifecycle_checked (paId p) t (check_and_advance True True E ag s))" for s t ag
    unfolding mark_lifecycle_checked_def
    by (rule effect_trans [OF quiet_effect [OF quiet_completion]])
      (rule effect_mark, simp add: payment_terms_def)
  then show ?thesis
    by (auto simp: check_completion_required_def keeps_def split: option.split)
qed

lemma keeps_supersession: "keeps effect (supersession_required E st p ev)"
proof -
  have 1: "keeps effect (handle_payment_superseded E p ev)"
    by (auto simp: handle_payment_superseded_def effect_simple split: option.split
        intro!: effect_andThen keeps_coordinators)
  have "keeps effect (\<lambda>s. case recompute_after_supersession E ag ev s of
      Inl e \<Rightarrow> (Inl e, s) | Inr s' \<Rightarrow> (Inr (), s'))" for ag
    by (rule keeps_quiet) (auto dest: quiet_recompute split: sum.split)
  then show ?thesis using 1
    by (auto simp: supersession_required_def effect_simple split: option.split intro!: effect_andThen)
qed

lemma keeps_disposition:
  "keeps effect (\<lambda>s. case success_disposition p s of
          WaitForSuperseding \<Rightarrow> (Inl e, s)
        | SupersededSafely \<Rightarrow> (Inr (), s)
        | ApplyEffects \<Rightarrow>
            andThen (run_failed_workflow W E st p c) (\<lambda>_. check_completion_required E st p) s)"
  using effect_andThen [OF keeps_workflow, of "\<lambda>_. check_completion_required E st p" W E st p c]
  by (simp add: keeps_completion) (simp add: keeps_def split: disposition.split)

lemma keeps_effects: "keeps effect (run_effects W E w st c p)"
  unfolding run_effects_def
  by (intro effect_andThen keeps_post_ledger)
    (simp add: effect_andThen keeps_partial keeps_workflow keeps_completion keeps_supersession
      keeps_disposition)

lemma keeps_transition_of_event: "keeps effect (transition_of_event E w token st c p)"
proof -
  have 1: "keeps effect (apply_transition E (paId p) (weId w) token st f (allowed_sources st))" for f
    by (simp add: keeps_def effect_transition)
  have 2: "keeps effect (update (detect_conflict E cur d ev ty st))" for cur d ev ty
    by (rule keeps_quiet) (simp add: detect_conflict_def quiet_mismatches)
  have 3: "keeps effect (update (record_transition_audit E cur ev ty fr st))" for cur ev ty fr
    by (rule keeps_quiet) (simp add: record_transition_audit_def quiet_audit)
  have 4: "effect s (record_transition_audit E cur ev ty fr st s)" for cur ev ty fr s
    by (rule quiet_effect) (simp add: record_transition_audit_def quiet_audit)
  show ?thesis
  proof (cases "weAppliedAt w")
    case None
    then show ?thesis
      by (auto simp: transition_of_event_def effect_simple split: transition_result.split
          intro!: effect_andThen 1 2 3)
  next
    case (Some t)
    then show ?thesis
      by (simp add: transition_of_event_def keeps_def Let_def 4 split: option.split)
  qed
qed

lemma effect_apply_event: "effect s (snd (apply_event W E w token s))"
proof -
  have "keeps effect (apply_payout_required E p ev)" for p ev
  proof -
    have "effect s (snd (mark_payout_completed E i t s))" for i t s
      by (auto simp: mark_payout_completed_def mark_payment_def payment_terms_def intro: effect_mark
          split: option.split)
    then have 1: "keeps effect (mark_payout_completed E i t)" for i t by (simp add: keeps_def)
    have 3: "keeps effect (update (audit E a))" for a by (rule keeps_quiet) (simp add: quiet_audit)
    show ?thesis
      by (auto simp: apply_payout_required_def effect_simple intro!: effect_andThen 1 keeps_postings 3)
  qed
  then have payout: "effect s (snd (apply_payout_required E p ev s))" for p ev by (simp add: keeps_def)
  have status: "effect s (snd (apply_status_event W E w token st p s))" for st p
  proof -
    let ?c = "if st = PFailed then json_get_string ''failureCategory'' (wePayload w) else None"
    have "keeps effect (andThen (transition_of_event E w token st ?c p) (\<lambda>cur.
        case cur of None \<Rightarrow> ret () | Some q \<Rightarrow> run_effects W E w st ?c q))"
      by (intro effect_andThen keeps_transition_of_event) (simp add: effect_simple keeps_effects split: option.split)
    moreover have "quiet s (snd (validate_first_evidence E p (wePayload w) (weEventId w) s))"
      by (simp add: validate_first_evidence_def quiet_mismatches)
    ultimately show ?thesis
      unfolding apply_status_event_def Let_def keeps_def
      by (auto intro: quiet_effect effect_trans)
  qed
  have "quiet s (record_provider_mismatch E p pr ev s)" for p pr ev
    by (simp add: record_provider_mismatch_def quiet_exception)
  then show ?thesis
    using payout status quiet_effect by (simp add: apply_event_def split: option.split)
qed

section \<open>The handlers\<close>

text \<open>A signed delivery, a provider lookup of our own, a run of the recovery job.\<close>

datatype handler_op =
    ReceiveWebhook string string
  | ReceiveInternal string string string json
  | RecoverBatch nat

fun run_handler :: "provider_deps \<Rightarrow> workflow_deps \<Rightarrow> env \<Rightarrow> handler_op \<Rightarrow> db \<Rightarrow> db" where
  "run_handler P W E (ReceiveWebhook body signature) s = snd (receive_webhook P W E body signature s)"
| "run_handler P W E (ReceiveInternal pr ev ty payload) s = snd (receive_internal_event W E pr ev ty payload s)"
| "run_handler P W E (RecoverBatch n) s = snd (recover_batch W E n s)"

definition run_handlers ::
    "provider_deps \<Rightarrow> workflow_deps \<Rightarrow> (env \<times> handler_op) list \<Rightarrow> db \<Rightarrow> db" where
  "run_handlers P W ops s = fold (\<lambda>(E, op). run_handler P W E op) ops s"

lemma run_handlers_simps [simp]:
  "run_handlers P W [] s = s"
  "run_handlers P W ((E, op) # ops) s = run_handlers P W ops (run_handler P W E op s)"
  by (simp_all add: run_handlers_def)

text \<open>
  What it takes for a property of the database to survive every handler: it survives the claim of an
  event, the effects of an event and the three ways to finish one. \<open>mine\<close> says which events the
  handlers may claim, \<open>admissible\<close> in which environments they run.
\<close>

locale event_invariant =
  fixes Inv :: "db \<Rightarrow> bool" and admissible :: "env \<Rightarrow> bool" and mine :: "uuid \<Rightarrow> bool"
  assumes inserted: "admissible E \<Longrightarrow> Inv s \<Longrightarrow>
      Inv (snd (try_insert_and_claim E pr ev ty src v payload lease_ms s))"
    and claimable: "Inv s \<Longrightarrow> w \<in> set (webhooks s) \<Longrightarrow> weStatus w \<noteq> EvProcessed \<Longrightarrow> mine (weId w)"
    and claimed: "admissible E \<Longrightarrow> Inv s \<Longrightarrow> mine i \<Longrightarrow>
      Inv ((set_webhook i (claimed E (nextId s) lease_ms) s)\<lparr>nextId := Suc (nextId s)\<rparr>)"
    and applied: "Inv s \<Longrightarrow> Inv (snd (apply_event W E w token s))"
    and processed: "admissible E \<Longrightarrow> Inv s \<Longrightarrow> mine i \<Longrightarrow> Inv (mark_processed E i token s)"
    and permanent: "admissible E \<Longrightarrow> Inv s \<Longrightarrow> mine i \<Longrightarrow> \<not> fst (classify_processing_failure e) \<Longrightarrow>
      Inv (mark_failed_permanent E i token (snd (classify_processing_failure e)) s)"
    and retryable: "admissible E \<Longrightarrow> Inv s \<Longrightarrow> mine i \<Longrightarrow>
      Inv (mark_failed_retryable E i token code (clock E + compute_backoff_ms n) s)"
begin

lemma finalized:
  assumes "admissible E" and "Inv s" and "mine (weId w)"
  shows "Inv (snd (process_and_finalize W E w s))"
proof (cases "weToken w")
  case (Some token)
  obtain r s1 where a: "apply_event W E w token s = (r, s1)" by fastforce
  have "Inv s1" using applied [OF assms(2)] a by (metis snd_conv)
  then show ?thesis using Some a assms processed permanent retryable
    by (cases r) (simp_all add: process_and_finalize_def)
qed (simp add: process_and_finalize_def assms)

lemma each_finalized:
  "admissible E \<Longrightarrow> Inv s \<Longrightarrow> list_all (\<lambda>w. mine (weId w)) ws \<Longrightarrow> Inv (snd (process_each W E ws n s))"
proof (induction ws arbitrary: n s)
  case (Cons w ws)
  obtain ok bad where n: "n = (ok, bad)" by (cases n)
  obtain r s1 where p: "process_and_finalize W E w s = (r, s1)" by fastforce
  then have "Inv s1" using finalized [of E s w W] Cons.prems by simp
  then show ?case using Cons p n by simp
qed simp

lemma each_claimed:
  "admissible E \<Longrightarrow> Inv s \<Longrightarrow> list_all mine ids \<Longrightarrow> claim_each E lease_ms ids s = (ws, s') \<Longrightarrow>
   Inv s' \<and> list_all (\<lambda>w. mine (weId w)) ws"
proof (induction ids arbitrary: s ws)
  case (Cons i ids)
  show ?case
  proof (cases "find_webhook i s")
    case (Some w)
    let ?s = "(set_webhook i (claimed E (nextId s) lease_ms) s)\<lparr>nextId := Suc (nextId s)\<rparr>"
    obtain vs where vs: "claim_each E lease_ms ids ?s = (vs, s')"
        "ws = claimed E (nextId s) lease_ms w # vs"
      using Cons.prems(4) Some by (auto simp: Let_def split: prod.splits)
    have "Inv ?s" using claimed Cons.prems by simp
    then have "Inv s' \<and> list_all (\<lambda>w. mine (weId w)) vs" using Cons.IH [OF _ _ _ vs(1)] Cons.prems by simp
    moreover have "weId w = i" using Some by (rule lookup_by_Some_key)
    ultimately show ?thesis using vs(2) Cons.prems(3) by simp
  qed (use Cons in simp)
qed simp

lemma batch_claimed:
  assumes "admissible E" and "Inv s" and "claim_batch_for_recovery E n lease_ms s = (ws, s')"
  shows "Inv s' \<and> list_all (\<lambda>w. mine (weId w)) ws"
proof -
  let ?ws = "take n (sort_key weReceivedAt (filter (recoverable (clock E)) (webhooks s)))"
  have "set ?ws \<subseteq> set (filter (recoverable (clock E)) (webhooks s))"
    using set_take_subset [of n "sort_key weReceivedAt (filter (recoverable (clock E)) (webhooks s))"] by simp
  then have "list_all mine (map weId ?ws)"
    using claimable [OF assms(2)] by (fastforce simp: list_all_iff recoverable_def)
  then show ?thesis
    using each_claimed [OF assms(1,2)] assms(3) by (simp add: claim_batch_for_recovery_def)
qed

lemma claim_processed:
  assumes "admissible E" and "Inv s"
  shows "Inv (snd (claim_and_process W E pr ev ty payload src v s))"
proof -
  obtain c s1 where 1: "try_insert_and_claim E pr ev ty src v payload lease_ms s = (c, s1)" by fastforce
  have i1: "Inv s1" using inserted [OF assms] 1 by (metis snd_conv)
  show ?thesis
  proof (cases c)
    case (Some w)
    then have "w \<in> set (webhooks s1)" "weStatus w = EvProcessing"
      using 1 by (auto simp: try_insert_and_claim_def Let_def split: if_splits)
    then have "mine (weId w)" using claimable [OF i1] by simp
    then show ?thesis using 1 Some finalized assms(1) i1 by (simp add: claim_and_process_def)
  next
    case None
    obtain d s2 where 2: "claim_existing_for_processing E pr ev lease_ms s1 = (d, s2)" by fastforce
    have "Inv s2 \<and> (\<forall>w. d = Claimed w \<longrightarrow> mine (weId w))"
    proof (cases "find_by_provider_event_id pr ev s1")
      case (Some w)
      then have "w \<in> set (webhooks s1)" by (auto simp: find_by_provider_event_id_def dest: lookup_by_Some_mem)
      then show ?thesis
        using 2 Some claimable [OF i1, of w] claimed [OF assms(1) i1, of "weId w"] i1
        by (auto simp: claim_existing_for_processing_def Let_def split: if_splits)
    qed (use 2 i1 in \<open>auto simp: claim_existing_for_processing_def\<close>)
    then show ?thesis using 1 2 None finalized assms(1)
      by (simp add: claim_and_process_def split: claim_outcome.split)
  qed
qed

lemma handled:
  assumes "admissible E" and "Inv s"
  shows "Inv (run_handler P W E op s)"
proof (cases op)
  case (ReceiveWebhook body sig)
  have "Inv s'" if "claim_and_process W E pr ev ty payload src v s = (r, s')" for pr ev ty payload src v r s'
    using claim_processed [OF assms] that by (metis snd_conv)
  then show ?thesis using ReceiveWebhook assms(2)
    by (simp add: receive_webhook_def split: sum.split prod.split)
next
  case (ReceiveInternal pr ev ty payload)
  then show ?thesis using claim_processed [OF assms] by (simp add: receive_internal_event_def)
next
  case (RecoverBatch n)
  obtain ws s1 where 1: "claim_batch_for_recovery E n lease_ms s = (ws, s1)" by fastforce
  obtain ok bad s2 where 2: "process_each W E ws (0, 0) s1 = ((ok, bad), s2)" by (metis surj_pair)
  have "Inv s2" using each_finalized batch_claimed [OF assms 1] assms(1) 2 by (metis snd_conv)
  then show ?thesis using RecoverBatch 1 2 by (simp add: recover_batch_def)
qed

lemma all_handled: "list_all (admissible \<circ> fst) ops \<Longrightarrow> Inv s \<Longrightarrow> Inv (run_handlers P W ops s)"
proof (induction ops arbitrary: s)
  case (Cons eop ops)
  then show ?case using handled by (cases eop) simp
qed simp

end

section \<open>The books\<close>

definition books_ok :: "db \<Rightarrow> bool" where
  "books_ok s \<longleftrightarrow> ledger_ok s \<and> payments_keyed s"

text \<open>The books and the inbox as they were in \<open>s0\<close>, and what came after.\<close>

definition books_since :: "db \<Rightarrow> db \<Rightarrow> bool" where
  "books_since s0 s \<longleftrightarrow> books_ok s \<and> moved_legally (payments s0) (payments s) \<and>
     take (length (entries s0)) (entries s) = entries s0"

lemma books_since_refl: "books_ok s \<Longrightarrow> books_since s s"
  by (simp add: books_since_def moved_refl)

lemma effect_books_ok: "effect s s' \<Longrightarrow> books_ok s \<Longrightarrow> books_ok s'"
  using moved_keyed [of s s'] by (simp add: effect_def books_ok_def)

lemma effect_books:
  assumes "effect s s'" and "books_since s0 s"
  shows "books_since s0 s'"
proof -
  have 1: "books_ok s" "moved_legally (payments s0) (payments s)"
    "take (length (entries s0)) (entries s) = entries s0"
    using assms(2) by (simp_all add: books_since_def)
  have "moved_legally (payments s) (payments s')" "take (length (entries s)) (entries s') = entries s"
    using assms(1) 1(1) by (simp_all add: effect_def books_ok_def)
  then show ?thesis
    using effect_books_ok [OF assms(1) 1(1)] moved_trans [OF 1(2)] take_prefix_trans [OF 1(3)]
    by (simp add: books_since_def)
qed

lemma books_ok_cong:
  "payments s' = payments s \<Longrightarrow> entries s' = entries s \<Longrightarrow> accounts s' = accounts s \<Longrightarrow>
   books_ok s' = books_ok s"
  using ledger_ok_cong [of s' s] by (simp add: books_ok_def payments_keyed_def)

lemma books_since_cong:
  "payments s' = payments s \<Longrightarrow> entries s' = entries s \<Longrightarrow> accounts s' = accounts s \<Longrightarrow>
   books_since s0 s' = books_since s0 s"
  using books_ok_cong [of s' s] by (simp add: books_since_def)

lemma finish_frame [simp, frame_simps]:
  "payments (finish_event i t f s) = payments s" "entries (finish_event i t f s) = entries s"
  "accounts (finish_event i t f s) = accounts s" "nextId (finish_event i t f s) = nextId s"
  by (simp_all add: finish_event_def)

lemmas finish_defs = mark_processed_def mark_failed_permanent_def mark_failed_retryable_def

interpretation books: event_invariant "books_since s0" "\<lambda>_. True" "\<lambda>_. True" for s0
proof unfold_locales
  fix E s pr ev ty src v payload
  assume "books_since s0 s"
  then show "books_since s0 (snd (try_insert_and_claim E pr ev ty src v payload lease_ms s))"
    using books_since_cong [of "snd (try_insert_and_claim E pr ev ty src v payload lease_ms s)" s]
    by (simp add: try_insert_and_claim_def Let_def split: if_splits)
next
  fix W E w token s
  assume "books_since s0 s"
  then show "books_since s0 (snd (apply_event W E w token s))"
    by (rule effect_books [OF effect_apply_event])
qed (simp_all add: finish_defs books_since_cong [of "finish_event i t f s" s for i t f s]
    books_since_cong [of "(set_webhook i f s)\<lparr>nextId := n\<rparr>" s for i f s n])

text \<open>
  C11. No event of any provider, genuine or not, bends the books: over any sequence of signed
  deliveries, provider lookups and recovery runs, with any payloads and any outcomes of the effects,
  the ledger stays balanced, its journal is only appended to, payments keep their key, parties,
  amount, currency, agreement and installment, and their status only moves along the legal transitions.
\<close>

theorem handlers_keep_books:
  assumes "ledger_ok s" and "distinct (map paId (payments s))" and "s' = run_handlers P W ops s"
  shows "ledger_ok s' \<and> moved_legally (payments s) (payments s') \<and>
    take (length (entries s)) (entries s') = entries s"
proof -
  have "books_since s s'"
    unfolding assms(3) by (rule books.all_handled) (use assms books_since_refl in
      \<open>simp_all add: books_ok_def payments_keyed_def list_all_iff\<close>)
  then show ?thesis by (simp add: books_since_def books_ok_def)
qed

section \<open>No event is lost\<close>

text \<open>The one reason to give up on an event.\<close>

definition given_up :: "webhook_row \<Rightarrow> bool" where
  "given_up w \<longleftrightarrow> weStatus w = EvFailed \<and> weErrorCode w = Some ''invalid_financial_data''"

definition due_by :: "msec \<Rightarrow> webhook_row \<Rightarrow> bool" where
  "due_by t w \<longleftrightarrow> weStatus w = EvProcessed \<or> given_up w \<or> recoverable t w"

definition event_keys :: "db \<Rightarrow> (string \<times> string) list" where
  "event_keys s = map (\<lambda>w. (weProvider w, weEventId w)) (webhooks s)"

definition inbox_since :: "msec \<Rightarrow> db \<Rightarrow> db \<Rightarrow> bool" where
  "inbox_since t s0 s \<longleftrightarrow> books_ok s \<and> list_all (due_by t) (webhooks s) \<and>
     set (event_keys s0) \<subseteq> set (event_keys s)"

lemma backoff_range: "30000 \<le> compute_backoff_ms n \<and> compute_backoff_ms n \<le> 1800000"
proof -
  have "(1::int) \<le> 2 ^ nat (max 0 (n - 1))" by simp
  then show ?thesis unfolding compute_backoff_ms_def by linarith
qed

lemma permanent_code:
  "\<not> fst (classify_processing_failure e) \<Longrightarrow> snd (classify_processing_failure e) = ''invalid_financial_data''"
  by (simp add: classify_processing_failure_def split: error.splits if_splits)

lemma view_list_all:
  assumes "map inbox_view ws' = map inbox_view ws" and "\<And>w. Q (inbox_view w) = Q w"
  shows "list_all Q ws' = list_all Q ws"
proof -
  have "list_all Q vs = list_all Q (map inbox_view vs)" for vs by (simp add: list.pred_map comp_def assms(2))
  then show ?thesis using assms(1) by metis
qed

lemma view_map:
  assumes "map inbox_view ws' = map inbox_view ws" and "\<And>w. g (inbox_view w) = g w"
  shows "map g ws' = map g ws"
proof -
  have "map g vs = map g (map inbox_view vs)" for vs by (simp add: comp_def assms(2))
  then show ?thesis using assms(1) by metis
qed

lemma view_simps [simp]:
  "weProvider (inbox_view w) = weProvider w" "weEventId (inbox_view w) = weEventId w"
  "weId (inbox_view w) = weId w" "weStatus (inbox_view w) = weStatus w"
  "recoverable t (inbox_view w) = recoverable t w" "given_up (inbox_view w) = given_up w"
  "due_by t (inbox_view w) = due_by t w"
  by (simp_all add: inbox_view_def recoverable_def given_up_def due_by_def)

lemma list_all_set_webhook:
  assumes "list_all Q (webhooks s)" and "\<And>w. Q w \<Longrightarrow> Q (f w)"
  shows "list_all Q (webhooks (set_webhook i f s))"
  using assms by (auto simp: list_all_iff dest: set_update_by)

lemma inbox_set_webhook:
  assumes "inbox_since t s0 s" and "\<And>w. due_by t w \<Longrightarrow> due_by t (f w)"
    and "\<And>w. weProvider (f w) = weProvider w \<and> weEventId (f w) = weEventId w"
  shows "inbox_since t s0 (set_webhook i f s)"
  using assms list_all_set_webhook [of "due_by t" s f i] books_ok_cong [of "set_webhook i f s" s]
  by (simp add: inbox_since_def event_keys_def map_key_update_by)

lemma inbox_next: "inbox_since t s0 (s\<lparr>nextId := n\<rparr>) = inbox_since t s0 s"
  using books_ok_cong [of "s\<lparr>nextId := n\<rparr>" s] by (simp add: inbox_since_def event_keys_def)

lemma inbox_finish:
  assumes "inbox_since t s0 s" and "\<And>w. due_by t (f w)"
    and "\<And>w. weProvider (f w) = weProvider w \<and> weEventId (f w) = weEventId w"
  shows "inbox_since t s0 (finish_event i token f s)"
  unfolding finish_event_def by (rule inbox_set_webhook) (use assms in auto)

interpretation inbox: event_invariant "inbox_since t s0" "\<lambda>E :: env. clock E + 1800000 \<le> t" "\<lambda>_. True" for t s0
proof unfold_locales
  fix E :: env and s pr ev ty src v payload
  assume c: "clock E + 1800000 \<le> t" and i: "inbox_since t s0 s"
  let ?s = "snd (try_insert_and_claim E pr ev ty src v payload lease_ms s)"
  have "books_ok ?s" using i books_ok_cong [of ?s s]
    by (simp add: inbox_since_def try_insert_and_claim_def Let_def)
  then show "inbox_since t s0 ?s" using i c
    by (auto simp: inbox_since_def try_insert_and_claim_def Let_def event_keys_def due_by_def
        recoverable_def lease_ms_def split: if_splits)
next
  fix E :: env and s i
  assume "clock E + 1800000 \<le> t" and "inbox_since t s0 s"
  then show "inbox_since t s0 ((set_webhook i (claimed E (nextId s) lease_ms) s)\<lparr>nextId := Suc (nextId s)\<rparr>)"
    unfolding inbox_next
    by (intro inbox_set_webhook) (auto simp: claimed_def due_by_def recoverable_def lease_ms_def)
next
  fix W E w token s
  assume i: "inbox_since t s0 s"
  let ?s = "snd (apply_event W E w token s)"
  have v: "map inbox_view (webhooks ?s) = map inbox_view (webhooks s)" and b: "books_ok ?s"
    using effect_apply_event [of s W E w token] effect_books_ok i
    by (auto simp: effect_def inbox_since_def books_ok_def)
  show "inbox_since t s0 ?s"
    using i b view_list_all [OF v, of "due_by t"] view_map [OF v, of "\<lambda>w. (weProvider w, weEventId w)"]
    by (simp add: inbox_since_def event_keys_def)
next
  fix E :: env and s i token code n
  assume c: "clock E + 1800000 \<le> t" and i: "inbox_since t s0 s"
  show "inbox_since t s0 (mark_processed E i token s)"
    unfolding mark_processed_def by (rule inbox_finish [OF i]) (simp_all add: due_by_def)
  show "inbox_since t s0 (mark_failed_retryable E i token code (clock E + compute_backoff_ms n) s)"
    unfolding mark_failed_retryable_def
    by (rule inbox_finish [OF i]) (use c backoff_range [of n] in \<open>simp_all add: due_by_def recoverable_def\<close>)
next
  fix E s i e token
  assume i: "inbox_since t s0 s" and "\<not> fst (classify_processing_failure e)"
  then show "inbox_since t s0 (mark_failed_permanent E i token (snd (classify_processing_failure e)) s)"
    unfolding mark_failed_permanent_def
    by (intro inbox_finish [OF i]) (simp_all add: permanent_code due_by_def given_up_def)
qed simp

text \<open>A signed delivery that is answered is in the inbox.\<close>

lemma claim_and_process_in_inbox:
  assumes "inbox_since t s s" and "clock E + 1800000 \<le> t"
  shows "(pr, ev) \<in> set (event_keys (snd (claim_and_process W E pr ev ty payload src v s)))"
proof (cases "find_by_provider_event_id pr ev s")
  case (Some w)
  then have "(pr, ev) \<in> set (event_keys s)"
    by (force simp: event_keys_def find_by_provider_event_id_def
        dest: lookup_by_Some_mem lookup_by_Some_key)
  then show ?thesis
    using inbox.claim_processed [OF assms(2,1), of W pr ev ty payload src v] unfolding inbox_since_def by blast
next
  case None
  obtain w s1 where 1: "try_insert_and_claim E pr ev ty src v payload lease_ms s = (Some w, s1)"
    using None by (simp add: try_insert_and_claim_def Let_def)
  then have k: "(pr, ev) \<in> set (event_keys s1)"
    using None by (auto simp: try_insert_and_claim_def Let_def event_keys_def)
  have "inbox_since t s s1" using inbox.inserted [OF assms(2,1)] 1 by (metis snd_conv)
  then have "inbox_since t s1 s1" by (simp add: inbox_since_def)
  then have "inbox_since t s1 (snd (process_and_finalize W E w s1))"
    by (rule inbox.finalized [OF assms(2)]) simp
  then show ?thesis using k 1 by (auto simp: claim_and_process_def inbox_since_def)
qed

lemma key_found: "(pr, ev) \<in> set (event_keys s) \<Longrightarrow>
    \<exists>w. find_by_provider_event_id pr ev s = Some w \<and> w \<in> set (webhooks s)"
proof -
  assume "(pr, ev) \<in> set (event_keys s)"
  then have "find_by_provider_event_id pr ev s \<noteq> None"
    unfolding find_by_provider_event_id_def lookup_by_None_iff by (auto simp: event_keys_def image_iff)
  then show ?thesis by (auto simp: find_by_provider_event_id_def dest: lookup_by_Some_mem)
qed

text \<open>
  C7. An accepted event is never lost. Once a delivery has been answered without an error, its event
  is in the inbox for good; whatever deliveries, lookups and recovery runs follow, and however their
  effects fail, it has been processed, or been given up for invalid financial data, or is due for the
  recovery job at the latest half an hour after the last of them.
\<close>

theorem no_event_lost:
  assumes "ledger_ok s" and "distinct (map paId (payments s))"
    and "list_all (due_by (now + 30 * 60 * 1000)) (webhooks s)"
    and "receive_webhook P W E body signature s = (Inr reply, s1)"
    and "clock E \<le> now" and "list_all (\<lambda>(E, op). clock E \<le> now) ops"
    and "s' = run_handlers P W ops s1"
  shows "\<exists>pr ev ty payload w. verifyWebhookSignature P body signature \<and>
    parseWebhookEvent P body = Inr (pr, ev, ty, payload) \<and>
    find_by_provider_event_id pr ev s' = Some w \<and>
    (weStatus w = EvProcessed \<or> given_up w \<or> recoverable (now + 30 * 60 * 1000) w)"
proof -
  let ?t = "now + 1800000"
  have i: "inbox_since ?t s s"
    using assms(1-3) by (simp add: inbox_since_def books_ok_def payments_keyed_def)
  obtain pr ev ty payload where p: "verifyWebhookSignature P body signature"
      "parseWebhookEvent P body = Inr (pr, ev, ty, payload)"
      "claim_and_process W E pr ev ty payload SignedWebhook True s = (reply, s1)"
    using assms(4) by (auto simp: receive_webhook_def split: if_splits sum.splits prod.splits)
  have "inbox_since ?t s s1" "(pr, ev) \<in> set (event_keys s1)"
    using inbox.claim_processed [OF _ i, of E W pr ev ty payload SignedWebhook True]
      claim_and_process_in_inbox [OF i, of E pr ev W ty payload SignedWebhook True] assms(5) p(3)
    by simp_all
  then have "inbox_since ?t s1 s1" by (simp add: inbox_since_def)
  then have "inbox_since ?t s1 s'"
    unfolding assms(7) by (rule inbox.all_handled [rotated]) (use assms(6) in \<open>auto simp: list_all_iff\<close>)
  then have "(pr, ev) \<in> set (event_keys s')" "list_all (due_by ?t) (webhooks s')"
    using \<open>(pr, ev) \<in> set (event_keys s1)\<close> by (auto simp: inbox_since_def)
  then show ?thesis using p key_found by (force simp: list_all_iff due_by_def)
qed

section \<open>Recovery clears the backlog\<close>

definition nothing_due :: "msec \<Rightarrow> db \<Rightarrow> bool" where
  "nothing_due t s \<longleftrightarrow> books_ok s \<and> list_all (\<lambda>w. \<not> recoverable t w) (webhooks s)"

lemma nothing_due_next: "nothing_due t (s\<lparr>nextId := n\<rparr>) = nothing_due t s"
  using books_ok_cong [of "s\<lparr>nextId := n\<rparr>" s] by (simp add: nothing_due_def)

lemma nothing_due_set:
  assumes "nothing_due t s" and "\<And>w. \<not> recoverable t w \<Longrightarrow> \<not> recoverable t (f w)"
  shows "nothing_due t (set_webhook i f s)"
  using assms list_all_set_webhook [of "\<lambda>w. \<not> recoverable t w" s f i] books_ok_cong [of "set_webhook i f s" s]
  by (simp add: nothing_due_def)

interpretation backlog: event_invariant "nothing_due t" "\<lambda>E :: env. clock E = t" "\<lambda>_. True" for t
proof unfold_locales
  fix E :: env and s pr ev ty src v payload
  assume c: "clock E = t" and i: "nothing_due t s"
  let ?s = "snd (try_insert_and_claim E pr ev ty src v payload lease_ms s)"
  have "books_ok ?s" using i books_ok_cong [of ?s s]
    by (simp add: nothing_due_def try_insert_and_claim_def Let_def)
  then show "nothing_due t ?s" using i c
    by (auto simp: nothing_due_def try_insert_and_claim_def Let_def recoverable_def lease_ms_def)
next
  fix E :: env and s i
  assume "clock E = t" and "nothing_due t s"
  then show "nothing_due t ((set_webhook i (claimed E (nextId s) lease_ms) s)\<lparr>nextId := Suc (nextId s)\<rparr>)"
    unfolding nothing_due_next by (intro nothing_due_set) (auto simp: claimed_def recoverable_def lease_ms_def)
next
  fix W E w token s
  assume i: "nothing_due t s"
  let ?s = "snd (apply_event W E w token s)"
  have v: "map inbox_view (webhooks ?s) = map inbox_view (webhooks s)" and b: "books_ok ?s"
    using effect_apply_event [of s W E w token] effect_books_ok i
    by (auto simp: effect_def nothing_due_def books_ok_def)
  show "nothing_due t ?s"
    using i b view_list_all [OF v, of "\<lambda>w. \<not> recoverable t w"] by (simp add: nothing_due_def)
next
  fix E :: env and s i token code n
  assume c: "clock E = t" and i: "nothing_due t s"
  show "nothing_due t (mark_processed E i token s)"
    unfolding mark_processed_def finish_event_def
    by (rule nothing_due_set [OF i]) (simp add: recoverable_def)
  show "nothing_due t (mark_failed_retryable E i token code (clock E + compute_backoff_ms n) s)"
    unfolding mark_failed_retryable_def finish_event_def
    by (rule nothing_due_set [OF i]) (use c backoff_range [of n] in \<open>simp add: recoverable_def\<close>)
next
  fix E :: env and s i e token
  assume i: "nothing_due t s"
  show "nothing_due t (mark_failed_permanent E i token (snd (classify_processing_failure e)) s)"
    unfolding mark_failed_permanent_def finish_event_def
    by (rule nothing_due_set [OF i]) (simp add: recoverable_def)
qed simp

text \<open>Claiming what is due leaves nothing due.\<close>

lemma claim_clears:
  assumes "\<And>w. w \<in> set (webhooks s) \<Longrightarrow> recoverable (clock E) w \<Longrightarrow> weId w \<in> set ids"
    and "claim_each E lease_ms ids s = (ws, s')" and "w \<in> set (webhooks s')"
  shows "\<not> recoverable (clock E) w"
  using assms
proof (induction ids arbitrary: s ws)
  case (Cons i ids)
  show ?case
  proof (cases "find_webhook i s")
    case None
    then have "i \<notin> weId ` set (webhooks s)" by (simp add: lookup_by_None_iff)
    then show ?thesis using Cons None by (intro Cons.IH [of s ws]) force+
  next
    case (Some v)
    let ?s = "(set_webhook i (claimed E (nextId s) lease_ms) s)\<lparr>nextId := Suc (nextId s)\<rparr>"
    obtain vs where vs: "claim_each E lease_ms ids ?s = (vs, s')"
      using Cons.prems(2) Some by (auto simp: Let_def split: prod.splits)
    have "weId u \<in> set ids" if "u \<in> set (webhooks ?s)" "recoverable (clock E) u" for u
    proof -
      have "u \<in> set (webhooks s) \<and> weId u \<noteq> i"
        using that set_update_by
        by (auto simp: update_by_def claimed_def recoverable_def lease_ms_def split: if_splits)
      then show ?thesis using Cons.prems(1) that(2) by auto
    qed
    then show ?thesis using Cons.IH [OF _ vs Cons.prems(3)] by blast
  qed
qed auto

text \<open>The row of an event, without the markers of its transition.\<close>

definition row_view :: "uuid \<Rightarrow> db \<Rightarrow> webhook_row option" where
  "row_view i s = map_option inbox_view (find_webhook i s)"

lemma row_view_set:
  assumes "\<And>w. weId (f w) = weId w"
  shows "row_view j (set_webhook i f s) =
    (if j = i then map_option (inbox_view \<circ> f) (find_webhook i s) else row_view j s)"
  by (auto simp: row_view_def set_webhook_def option.map_comp lookup_update_same lookup_update_other assms)

lemma row_view_next [simp]: "row_view j (s\<lparr>nextId := n\<rparr>) = row_view j s"
  by (simp add: row_view_def)

lemma row_view_apply:
  assumes "books_ok s"
  shows "row_view j (snd (apply_event W E w token s)) = row_view j s"
proof -
  have lk: "map_option inbox_view (lookup_by weId j ws) = lookup_by weId j (map inbox_view ws)" for ws
    by (induction ws) auto
  have "map inbox_view (webhooks (snd (apply_event W E w token s))) = map inbox_view (webhooks s)"
    using effect_apply_event [of s W E w token] assms by (simp add: effect_def books_ok_def)
  then show ?thesis by (simp add: row_view_def lk)
qed

text \<open>How an event stands after it has been handed to the handler with the result \<open>res\<close>.\<close>

definition recovered :: "env \<Rightarrow> error + 'a \<Rightarrow> webhook_row \<Rightarrow> webhook_row \<Rightarrow> bool" where
  "recovered E res w w' \<longleftrightarrow> weId w' = weId w \<and> weProvider w' = weProvider w \<and> weEventId w' = weEventId w \<and>
     weType w' = weType w \<and> weSource w' = weSource w \<and> weVerified w' = weVerified w \<and> wePayload w' = wePayload w \<and>
     weReceivedAt w' = weReceivedAt w \<and> weAttempts w' = weAttempts w + 1 \<and> weLease w' = None \<and>
     (case res of
        Inr _ \<Rightarrow> weStatus w' = EvProcessed \<and> weNextRetry w' = None
      | Inl e \<Rightarrow> weStatus w' = EvFailed \<and> weErrorCode w' = Some (snd (classify_processing_failure e)) \<and>
          weNextRetry w' = (if fst (classify_processing_failure e)
            then Some (clock E + compute_backoff_ms (weAttempts w + 1)) else None))"

lemma view_facts:
  assumes "inbox_view u = inbox_view v"
  shows "weId u = weId v" "weProvider u = weProvider v" "weEventId u = weEventId v" "weType u = weType v"
    "weSource u = weSource v" "weVerified u = weVerified v" "wePayload u = wePayload v"
    "weReceivedAt u = weReceivedAt v" "weAttempts u = weAttempts v" "weLease u = weLease v" "weStatus u = weStatus v"
    "weErrorCode u = weErrorCode v" "weNextRetry u = weNextRetry v" "weToken u = weToken v"
  using assms by (cases u; cases v; simp add: inbox_view_def)+

lemma recovered_same: "inbox_view w'' = inbox_view w' \<Longrightarrow> recovered E res w w'' = recovered E res w w'"
  using view_facts [of w'' w'] by (simp only: recovered_def)

lemma row_view_other:
  assumes "books_ok s" and "j \<noteq> weId w" and "process_and_finalize W E w s = (r, s')"
  shows "row_view j s' = row_view j s"
proof (cases "weToken w")
  case (Some token)
  obtain res s1 where a: "apply_event W E w token s = (res, s1)" by fastforce
  have "row_view j s1 = row_view j s" using row_view_apply [OF assms(1), of j W E w token] a by simp
  then show ?thesis using assms(2,3) Some a
    by (cases res) (auto simp: process_and_finalize_def finish_defs finish_event_def row_view_set split: if_splits)
qed (use assms(3) in \<open>simp add: process_and_finalize_def\<close>)

lemma row_view_kept:
  assumes "books_ok s" and "j \<notin> weId ` set ws" and "process_each W E ws k s = (n, s')"
  shows "row_view j s' = row_view j s"
  using assms
proof (induction ws arbitrary: k s)
  case (Cons w ws)
  obtain r s1 where p: "process_and_finalize W E w s = (r, s1)" by fastforce
  have b: "books_ok s1" using books.finalized [OF TrueI books_since_refl [OF Cons.prems(1)] TrueI, where w = w and W = W and E = E] p
    by (simp add: books_since_def)
  show ?case using Cons.IH [OF b] Cons.prems p row_view_other [OF Cons.prems(1) _ p, of j]
    by (cases k) auto
qed auto

text \<open>One event: the handler is asked, and the row tells what it answered.\<close>

lemma finalize_recovers:
  assumes "books_ok s" and "row_view (weId w) s = Some (inbox_view (claimed E token lease_ms w))"
    and "process_and_finalize W E (claimed E token lease_ms w) s = (r, s')"
  shows "\<exists>w'. row_view (weId w) s' = Some (inbox_view w') \<and>
    recovered E (fst (apply_event W E (claimed E token lease_ms w) token s)) w w' \<and>
    (r = WebhookProcessed \<longleftrightarrow> weStatus w' = EvProcessed)"
proof -
  let ?v = "claimed E token lease_ms w"
  have v: "weToken ?v = Some token" "weId ?v = weId w" by (simp_all add: claimed_def)
  obtain res s1 where a: "apply_event W E ?v token s = (res, s1)" by fastforce
  have "row_view (weId w) s1 = Some (inbox_view ?v)"
    using row_view_apply [OF assms(1), of "weId w" W E ?v token] a assms(2) by simp
  then obtain u where u: "find_webhook (weId w) s1 = Some u" "inbox_view u = inbox_view ?v"
    by (auto simp: row_view_def)
  note f = view_facts [OF u(2), unfolded claimed_def, simplified]
  show ?thesis
    using assms(3) u(1) a v f
    by (cases res) (auto simp: process_and_finalize_def finish_defs finish_event_def row_view_set recovered_def
        claimed_def split: if_splits)
qed

lemma books_since_trans: "books_since a b \<Longrightarrow> books_since b c \<Longrightarrow> books_since a c"
  using moved_trans take_prefix_trans unfolding books_since_def by blast

text \<open>A batch of claimed events, each a row \<open>w\<close> with the token of its claim.\<close>

lemma each_recovers:
  assumes "books_ok s" and "distinct (map (\<lambda>(w, t). weId w) cs)"
    and "\<And>w t. (w, t) \<in> set cs \<Longrightarrow> row_view (weId w) s = Some (inbox_view (claimed E t lease_ms w))"
    and "process_each W E (map (\<lambda>(w, t). claimed E t lease_ms w) cs) (a, b) s = ((ok, bad), s')"
  shows "(\<forall>(w, t) \<in> set cs. \<exists>s1 w'. books_since s s1 \<and> books_since s1 s' \<and>
      row_view (weId w) s' = Some (inbox_view w') \<and> recovered E (fst (apply_event W E (claimed E t lease_ms w) t s1)) w w') \<and>
    ok = a + int (length (filter (\<lambda>(w, t). map_option weStatus (row_view (weId w) s') = Some EvProcessed) cs)) \<and>
    ok + bad = a + b + int (length cs)"
  using assms
proof (induction cs arbitrary: a b s)
  case (Cons c cs)
  obtain w t where c: "c = (w, t)" by (cases c)
  let ?v = "claimed E t lease_ms w"
  obtain r s1 where p: "process_and_finalize W E ?v s = (r, s1)" by fastforce
  have e: "process_each W E (map (\<lambda>(w, t). claimed E t lease_ms w) cs)
      (if r = WebhookProcessed then (a + 1, b) else (a, b + 1)) s1 = ((ok, bad), s')"
    using Cons.prems(4) p c by simp
  obtain w' where w': "row_view (weId w) s1 = Some (inbox_view w')"
      "recovered E (fst (apply_event W E ?v t s)) w w'" "r = WebhookProcessed \<longleftrightarrow> weStatus w' = EvProcessed"
    using finalize_recovers [OF Cons.prems(1) _ p] Cons.prems(3) c by auto
  have since: "books_since s s1"
    using books.finalized [OF TrueI books_since_refl [OF Cons.prems(1)] TrueI, where w = ?v and W = W and E = E] p by simp
  then have b1: "books_ok s1" by (simp add: books_since_def)
  have ids: "weId w \<notin> weId ` set (map (\<lambda>(w, t). claimed E t lease_ms w) cs)"
    using Cons.prems(2) c by (force simp: claimed_def)
  have rest: "row_view (weId v) s1 = Some (inbox_view (claimed E u lease_ms v))" if m: "(v, u) \<in> set cs" for v u
  proof -
    have "weId v \<noteq> weId ?v" using Cons.prems(2) c m by (force simp: claimed_def)
    then show ?thesis using row_view_other [OF Cons.prems(1) _ p] Cons.prems(3) m by simp
  qed
  have kept: "row_view (weId w) s' = row_view (weId w) s1" by (rule row_view_kept [OF b1 ids e])
  have after: "books_since s s'" "books_since s1 s'"
    using books.each_finalized [OF TrueI since, where W = W and E = E] e
      books.each_finalized [OF TrueI books_since_refl [OF b1], where W = W and E = E]
    by (simp_all add: list_all_iff) (metis snd_conv)+
  obtain a1 b1' where k: "(if r = WebhookProcessed then (a + 1, b) else (a, b + 1)) = (a1, b1')" by fastforce
  note ih = Cons.IH [OF b1 _ rest e [unfolded k]]
  have "distinct (map (\<lambda>(w, t). weId w) cs)" using Cons.prems(2) by simp
  note ih = ih [OF this]
  have one: "\<exists>s1 w'. books_since s s1 \<and> books_since s1 s' \<and> row_view (weId w) s' = Some (inbox_view w') \<and>
      recovered E (fst (apply_event W E ?v t s1)) w w'"
    using after(1) books_since_refl [OF Cons.prems(1)] w'(1,2) kept by metis
  have others: "\<exists>s1 w'. books_since s s1 \<and> books_since s1 s' \<and> row_view (weId v) s' = Some (inbox_view w') \<and>
      recovered E (fst (apply_event W E (claimed E u lease_ms v) u s1)) v w'" if "(v, u) \<in> set cs" for v u
    using ih that books_since_trans [OF since] by fast
  have "weStatus w' = EvProcessed \<longleftrightarrow> map_option weStatus (row_view (weId w) s') = Some EvProcessed"
    by (simp add: kept w'(1))
  then show ?case using one others ih k w'(3) unfolding c by (auto split: if_splits)
qed auto

text \<open>What a claim of several events leaves.\<close>

lemma claim_each_claims:
  assumes "distinct ids" and "\<And>i. i \<in> set ids \<Longrightarrow> find_webhook i s \<noteq> None"
    and "claim_each E lease_ms ids s = (ws, s')"
  shows "\<exists>cs. ws = map (\<lambda>(w, t). claimed E t lease_ms w) cs \<and> map (\<lambda>(w, t). weId w) cs = ids \<and>
    (\<forall>(w, t) \<in> set cs. find_webhook (weId w) s = Some w \<and>
       row_view (weId w) s' = Some (inbox_view (claimed E t lease_ms w))) \<and>
    (\<forall>j. j \<notin> set ids \<longrightarrow> row_view j s' = row_view j s)"
  using assms
proof (induction ids arbitrary: s ws)
  case (Cons i ids)
  let ?s = "(set_webhook i (claimed E (nextId s) lease_ms) s)\<lparr>nextId := Suc (nextId s)\<rparr>"
  obtain w where w: "find_webhook i s = Some w" using Cons.prems(2) [of i] by auto
  then have i: "weId w = i" by (rule lookup_by_Some_key)
  obtain vs where vs: "claim_each E lease_ms ids ?s = (vs, s')" "ws = claimed E (nextId s) lease_ms w # vs"
    using Cons.prems(3) w by (auto simp: Let_def split: prod.splits)
  have look: "find_webhook j ?s = find_webhook j s" if "j \<noteq> i" for j
    using that by (simp add: lookup_update_other claimed_def)
  have "find_webhook j ?s \<noteq> None" if j: "j \<in> set ids" for j
  proof -
    have "j \<noteq> i" "find_webhook j s \<noteq> None" using j Cons.prems(1) Cons.prems(2) [of j] by auto
    then show ?thesis using look [of j] by simp
  qed
  then obtain cs where cs: "vs = map (\<lambda>(w, t). claimed E t lease_ms w) cs" "map (\<lambda>(w, t). weId w) cs = ids"
      "\<forall>(w, t) \<in> set cs. find_webhook (weId w) ?s = Some w \<and>
         row_view (weId w) s' = Some (inbox_view (claimed E t lease_ms w))"
      "\<forall>j. j \<notin> set ids \<longrightarrow> row_view j s' = row_view j ?s"
    using Cons.IH [OF _ _ vs(1)] Cons.prems(1) by fastforce
  have own: "row_view i s' = Some (inbox_view (claimed E (nextId s) lease_ms w))"
    using cs(4) Cons.prems(1) w by (simp add: row_view_set claimed_def)
  have "find_webhook (weId v) s = Some v" if "(v, t) \<in> set cs" for v t
  proof -
    have "weId v \<in> set ids" using that cs(2) by force
    then have "weId v \<noteq> i" using Cons.prems(1) by auto
    then show ?thesis using cs(3) that look by fastforce
  qed
  then show ?case using cs vs(2) own w i Cons.prems(1)
    by (intro exI [of _ "(w, nextId s) # cs"]) (auto simp: row_view_set claimed_def)
qed auto

text \<open>
  C37. A recovery run that is large enough for the backlog deals with all of it. Every event that is due
  is claimed once and handed to the handler, between the start and the end of the run, and its row then
  tells how that went: processed if the handler succeeded, failed if it did not, with the class of the
  error and the time of the next attempt, or none if the error is permanent; its facts stay, its attempts
  are one more and its lease is gone. The rows of all other events stay. Afterwards nothing is due at
  that time any more, and the answer counts the events that were due, those of them that are now
  processed, and the rest.
\<close>

theorem recovery_clears_backlog:
  assumes "ledger_ok s" and "distinct (map paId (payments s))" and "distinct (map weId (webhooks s))"
    and "length (filter (recoverable (clock E)) (webhooks s)) \<le> n"
    and "recover_batch W E n s = ((all, ok, bad), s')"
  shows "list_all (\<lambda>w. \<not> recoverable (clock E) w) (webhooks s') \<and>
    (\<forall>w \<in> set (webhooks s). if recoverable (clock E) w
       then \<exists>t s1 w'. books_since s s1 \<and> books_since s1 s' \<and> row_view (weId w) s' = Some (inbox_view w') \<and>
         recovered E (fst (apply_event W E (claimed E t lease_ms w) t s1)) w w'
       else row_view (weId w) s' = Some (inbox_view w)) \<and>
    all = int (length (filter (recoverable (clock E)) (webhooks s))) \<and>
    ok = int (length (filter (\<lambda>w. recoverable (clock E) w \<and>
      map_option weStatus (row_view (weId w) s') = Some EvProcessed) (webhooks s))) \<and> all = ok + bad"
proof -
  let ?due = "filter (recoverable (clock E)) (webhooks s)"
  let ?q = "sort_key weReceivedAt ?due"
  obtain ws s1 where 1: "claim_each E lease_ms (map weId ?q) s = (ws, s1)"
      "process_each W E ws (0, 0) s1 = ((ok, bad), s')" "all = int (length ws)"
    using assms(4,5) by (auto simp: recover_batch_def claim_batch_for_recovery_def split: prod.splits)
  have find: "find_webhook (weId w) s = Some w" if "w \<in> set (webhooks s)" for w
    using assms(3) that by (intro lookup_by_distinct) auto
  have d: "distinct (map weId ?q)"
    using distinct_map_filter [OF assms(3), of "recoverable (clock E)"] by (simp add: distinct_map)
  have found: "find_webhook i s \<noteq> None" if "i \<in> set (map weId ?q)" for i using that find by auto
  obtain cs where cs: "ws = map (\<lambda>(w, t). claimed E t lease_ms w) cs" "map (\<lambda>(w, t). weId w) cs = map weId ?q"
      "\<forall>(w, t) \<in> set cs. find_webhook (weId w) s = Some w \<and> row_view (weId w) s1 = Some (inbox_view (claimed E t lease_ms w))"
      "\<forall>j. j \<notin> set (map weId ?q) \<longrightarrow> row_view j s1 = row_view j s"
    using claim_each_claims [OF d found 1(1)] by blast
  have rows: "map fst cs = ?q"
  proof -
    have "map fst cs = map (\<lambda>i. the (find_webhook i s)) (map (\<lambda>(w, t). weId w) cs)"
      using cs(3) by (auto simp: comp_def case_prod_beta)
    also have "\<dots> = ?q" unfolding cs(2) using find by (auto intro: map_idI simp: comp_def)
    finally show ?thesis .
  qed
  have since: "books_since s s1"
    using books.each_claimed [OF TrueI books_since_refl _ 1(1)] assms(1,2)
    by (simp add: books_ok_def payments_keyed_def list_all_iff)
  then have b1: "books_ok s1" by (simp add: books_since_def)
  have each: "(\<forall>(w, t) \<in> set cs. \<exists>s2 w'. books_since s1 s2 \<and> books_since s2 s' \<and>
      row_view (weId w) s' = Some (inbox_view w') \<and> recovered E (fst (apply_event W E (claimed E t lease_ms w) t s2)) w w') \<and>
    ok = 0 + int (length (filter (\<lambda>(w, t). map_option weStatus (row_view (weId w) s') = Some EvProcessed) cs)) \<and>
    ok + bad = 0 + 0 + int (length cs)"
    by (rule each_recovers [OF b1 _ _ 1(2) [unfolded cs(1)]]) (use cs(2,3) d in auto)
  have kept: "row_view j s' = row_view j s" if "j \<notin> weId ` set ?due" for j
  proof -
    have "weId (claimed E t lease_ms w) = weId w" for w t by (simp add: claimed_def)
    then have "map weId ws = map (\<lambda>(w, t). weId w) cs" by (simp add: cs(1) comp_def case_prod_beta)
    then have "weId ` set ws = weId ` set ?due" by (metis cs(2) list.set_map set_sort)
    then have "j \<notin> weId ` set ws" using that by simp
    then show ?thesis using row_view_kept [OF b1 _ 1(2)] cs(4) that by simp
  qed
  have "\<exists>t s2 w'. books_since s s2 \<and> books_since s2 s' \<and> row_view (weId w) s' = Some (inbox_view w') \<and>
      recovered E (fst (apply_event W E (claimed E t lease_ms w) t s2)) w w'"
    if w: "w \<in> set (webhooks s)" "recoverable (clock E) w" for w
  proof -
    have "w \<in> fst ` set cs" using w arg_cong [OF rows, of set] by simp
    then obtain t where "(w, t) \<in> set cs" by auto
    then show ?thesis using each books_since_trans [OF since] by fast
  qed
  moreover have "row_view (weId w) s' = Some (inbox_view w)"
    if w: "w \<in> set (webhooks s)" "\<not> recoverable (clock E) w" for w
  proof -
    have "weId w \<notin> weId ` set ?due" using w assms(3) by (auto simp: distinct_map dest: inj_onD)
    then show ?thesis using kept find [OF w(1)] by (simp add: row_view_def)
  qed
  moreover have "length cs = length ?due" using arg_cong [OF rows, of length] by simp
  moreover have "length (filter (\<lambda>(w, t). map_option weStatus (row_view (weId w) s') = Some EvProcessed) cs) =
      length (filter (\<lambda>w. recoverable (clock E) w \<and> map_option weStatus (row_view (weId w) s') = Some EvProcessed) (webhooks s))"
  proof -
    let ?P = "\<lambda>w. map_option weStatus (row_view (weId w) s') = Some EvProcessed"
    have "length (filter (\<lambda>(w, t). ?P w) cs) = length (filter ?P (map fst cs))"
      by (simp only: filter_map length_map comp_def case_prod_beta')
    also have "\<dots> = length (filter ?P ?due)" unfolding rows by (simp add: filter_sort)
    finally show ?thesis by (simp add: conj_commute)
  qed
  moreover have "list_all (\<lambda>w. \<not> recoverable (clock E) w) (webhooks s')"
  proof -
    have "list_all (\<lambda>w. \<not> recoverable (clock E) w) (webhooks s1)"
      using claim_clears [OF _ 1(1)] by (force simp: list_all_iff)
    then have "nothing_due (clock E) s1" using b1 by (simp add: nothing_due_def)
    then have "nothing_due (clock E) s'"
      using backlog.each_finalized [OF refl, of E s1 ws W "(0, 0)"] 1(2) by (simp add: list_all_iff)
    then show ?thesis by (simp add: nothing_due_def)
  qed
  ultimately show ?thesis using each 1(3) cs(1) by auto
qed

section \<open>Repeated delivery\<close>

text \<open>Event \<open>j\<close>, known to the provider as \<open>ev\<close>, is done.\<close>

definition done_event :: "uuid \<Rightarrow> string \<Rightarrow> string \<Rightarrow> db \<Rightarrow> bool" where
  "done_event j pr ev s \<longleftrightarrow> books_ok s \<and> inbox_ok s \<and>
     (case find_by_provider_event_id pr ev s of
        None \<Rightarrow> False | Some w \<Rightarrow> weId w = j \<and> weStatus w = EvProcessed)"

lemma find_event_set:
  assumes "\<And>w. weProvider (f w) = weProvider w \<and> weEventId (f w) = weEventId w"
  shows "find_by_provider_event_id pr ev (set_webhook i f s) =
    map_option (\<lambda>w. if weId w = i then f w else w) (find_by_provider_event_id pr ev s)"
proof -
  have "lookup_by (\<lambda>w. (weProvider w, weEventId w)) k (update_by weId i f ws) =
      map_option (\<lambda>w. if weId w = i then f w else w) (lookup_by (\<lambda>w. (weProvider w, weEventId w)) k ws)" for k ws
    using assms by (induction ws) auto
  then show ?thesis by (simp add: find_by_provider_event_id_def)
qed

lemma find_event_next [simp]:
  "find_by_provider_event_id pr ev (s\<lparr>nextId := n\<rparr>) = find_by_provider_event_id pr ev s"
  by (simp add: find_by_provider_event_id_def)

lemma find_event_view:
  assumes "map inbox_view (webhooks s') = map inbox_view (webhooks s)"
  shows "map_option inbox_view (find_by_provider_event_id pr ev s') =
    map_option inbox_view (find_by_provider_event_id pr ev s)"
proof -
  have "map_option inbox_view (lookup_by (\<lambda>w. (weProvider w, weEventId w)) k ws) =
      lookup_by (\<lambda>w. (weProvider w, weEventId w)) k (map inbox_view ws)" for k ws
    by (induction ws) auto
  then show ?thesis using assms by (simp add: find_by_provider_event_id_def)
qed

lemma effect_inbox_ok:
  assumes "effect s s'" and "books_ok s" and "inbox_ok s"
  shows "inbox_ok s'"
proof -
  have v: "map inbox_view (webhooks s') = map inbox_view (webhooks s)" and n: "nextId s \<le> nextId s'"
    using assms(1,2) by (simp_all add: effect_def books_ok_def)
  have "list_all (\<lambda>w. weId w < nextId s) (webhooks s')"
    using view_list_all [OF v, of "\<lambda>w. weId w < nextId s"] assms(3) by (simp add: inbox_ok_def)
  then have "list_all (\<lambda>w. weId w < nextId s') (webhooks s')"
    using n by (auto simp: list_all_iff intro: less_le_trans)
  then show ?thesis using view_map [OF v, of weId] assms(3) by (simp add: inbox_ok_def)
qed

lemma done_set_webhook:
  assumes "done_event j pr ev s" and "i \<noteq> j"
    and "\<And>w. weId (f w) = weId w \<and> weProvider (f w) = weProvider w \<and> weEventId (f w) = weEventId w"
  shows "done_event j pr ev (set_webhook i f s)"
  using assms inbox_ok_set [of s f i] books_ok_cong [of "set_webhook i f s" s]
  by (auto simp: done_event_def find_event_set split: option.splits)

interpretation finished: event_invariant "done_event j pr ev" "\<lambda>_. True" "\<lambda>i. i \<noteq> j" for j pr ev
proof unfold_locales
  fix E :: env and s p e ty src v payload
  assume d: "done_event j pr ev s"
  let ?s = "snd (try_insert_and_claim E p e ty src v payload lease_ms s)"
  have "inbox_ok ?s" using d inbox_ok_step [of s E "Deliver p e ty src v payload"] by (simp add: done_event_def)
  moreover have "books_ok ?s" using d books_ok_cong [of ?s s]
    by (simp add: done_event_def try_insert_and_claim_def Let_def)
  ultimately show "done_event j pr ev ?s" using d
    by (auto simp: done_event_def try_insert_and_claim_def Let_def find_by_provider_event_id_def
        lookup_by_append split: option.splits)
next
  fix s w
  assume d: "done_event j pr ev s" and w: "w \<in> set (webhooks s)" "weStatus w \<noteq> EvProcessed"
  then obtain v where v: "v \<in> set (webhooks s)" "weId v = j" "weStatus v = EvProcessed"
    by (auto simp: done_event_def find_by_provider_event_id_def dest: lookup_by_Some_mem split: option.splits)
  have "inj_on weId (set (webhooks s))" using d by (simp add: done_event_def inbox_ok_def distinct_map)
  then show "weId w \<noteq> j" using v w by (auto dest: inj_onD)
next
  fix E :: env and s i
  assume d: "done_event j pr ev s" and i: "i \<noteq> j"
  have "done_event j pr ev (set_webhook i (claimed E (nextId s) lease_ms) s)"
    by (rule done_set_webhook [OF d i]) (simp add: claimed_def)
  then show "done_event j pr ev ((set_webhook i (claimed E (nextId s) lease_ms) s)\<lparr>nextId := Suc (nextId s)\<rparr>)"
    using books_ok_cong [of "(set_webhook i (claimed E (nextId s) lease_ms) s)\<lparr>nextId := Suc (nextId s)\<rparr>" s]
      inbox_ok_claim [of s i E "nextId s" lease_ms] d
    by (simp add: done_event_def)
next
  fix W E w token s
  assume d: "done_event j pr ev s"
  note e = effect_apply_event [of s W E w token]
  have "map inbox_view (webhooks (snd (apply_event W E w token s))) = map inbox_view (webhooks s)"
    using e d by (simp add: effect_def done_event_def books_ok_def)
  note v = find_event_view [OF this, of pr ev]
  obtain a where a: "find_by_provider_event_id pr ev s = Some a" "weId a = j" "weStatus a = EvProcessed"
    using d by (auto simp: done_event_def split: option.splits)
  then obtain b where b: "find_by_provider_event_id pr ev (snd (apply_event W E w token s)) = Some b"
      "inbox_view b = inbox_view a"
    using v by auto
  have "weId b = j" "weStatus b = EvProcessed" using a b(2) view_simps(3,4) by metis+
  then show "done_event j pr ev (snd (apply_event W E w token s))"
    using d b(1) effect_inbox_ok [OF e] effect_books_ok [OF e] by (simp add: done_event_def)
qed (auto simp: finish_defs finish_event_def intro!: done_set_webhook)

text \<open>An answer that says so: the event is done.\<close>

lemma finalized_done:
  assumes "books_ok s" and "inbox_ok s" and "find_by_provider_event_id pr ev s = Some w"
    and "process_and_finalize W E w s = (WebhookProcessed, s')"
  shows "done_event (weId w) pr ev s'"
proof -
  obtain token x s1 where 1: "weToken w = Some token" "apply_event W E w token s = (Inr x, s1)"
      "s' = mark_processed E (weId w) token s1"
    using assms(4) by (auto simp: process_and_finalize_def split: option.splits prod.splits sum.splits)
  have e: "effect s s1" using effect_apply_event 1(2) by (metis snd_conv)
  then have "map inbox_view (webhooks s1) = map inbox_view (webhooks s)"
    using assms(1) by (simp add: effect_def books_ok_def)
  then obtain v where v: "find_by_provider_event_id pr ev s1 = Some v" "inbox_view v = inbox_view w"
    using find_event_view [of s1 s pr ev] assms(3) by auto
  have "weId v = weId w" using v(2) view_simps(3) by metis
  moreover have "weToken v = weToken w" using arg_cong [OF v(2), of weToken] by (simp add: inbox_view_def)
  moreover have "books_ok s'" using effect_books_ok [OF e assms(1)] books_ok_cong [of s' s1]
    by (simp add: 1(3) mark_processed_def)
  moreover have "inbox_ok s'"
    using inbox_ok_step [OF effect_inbox_ok [OF e assms(1,2)], of E "MarkProcessed (weId w) token"] 1(3) by simp
  ultimately show ?thesis
    using v(1) 1(1,3) by (simp add: done_event_def mark_processed_def finish_event_def find_event_set)
qed

lemma claimed_done:
  assumes "books_ok s" and "inbox_ok s"
    and "claim_and_process W E pr ev ty payload src v s = (WebhookProcessed, s')"
  shows "\<exists>j. done_event j pr ev s'"
proof (cases "find_by_provider_event_id pr ev s")
  case None
  obtain w s1 where 1: "try_insert_and_claim E pr ev ty src v payload lease_ms s = (Some w, s1)"
    using None by (simp add: try_insert_and_claim_def Let_def)
  have "inbox_ok s1" using inbox_ok_step [OF assms(2), of E "Deliver pr ev ty src v payload"] 1 by simp
  moreover have "books_ok s1" using assms(1) books_ok_cong [of s1 s] 1 None
    by (auto simp: try_insert_and_claim_def Let_def)
  moreover have "find_by_provider_event_id pr ev s1 = Some w" using 1 None
    by (auto simp: try_insert_and_claim_def Let_def find_by_provider_event_id_def lookup_by_append)
  ultimately show ?thesis using finalized_done [of s1 pr ev w W E s'] assms(3) 1
    by (auto simp: claim_and_process_def)
next
  case (Some u)
  obtain d s2 where 2: "claim_existing_for_processing E pr ev lease_ms s = (d, s2)" by fastforce
  have 1: "try_insert_and_claim E pr ev ty src v payload lease_ms s = (None, s)"
    using Some by (simp add: try_insert_and_claim_def)
  then obtain w where w: "d = Claimed w" "process_and_finalize W E w s2 = (WebhookProcessed, s')"
    using assms(3) 2 by (auto simp: claim_and_process_def split: claim_outcome.splits)
  then have s2: "s2 = (set_webhook (weId u) (claimed E (nextId s) lease_ms) s)\<lparr>nextId := Suc (nextId s)\<rparr>"
      "w = claimed E (nextId s) lease_ms u"
    using 2 Some by (auto simp: claim_existing_for_processing_def Let_def split: if_splits)
  have "inbox_ok s2" "books_ok s2"
    using inbox_ok_claim [OF assms(2)] assms(1) books_ok_cong [of s2 s] by (simp_all add: s2)
  moreover have "find_by_provider_event_id pr ev s2 = Some w"
    using Some by (simp add: s2 find_event_set claimed_def)
  ultimately show ?thesis using finalized_done w(2) by blast
qed

text \<open>
  C8. Exactly once: when a delivery has been answered as processed, every later delivery of the same
  event, signed or from a lookup, with whatever type and payload, after any other deliveries and
  recovery runs, is answered as a duplicate and leaves the database as it is.
\<close>

theorem redelivery_changes_nothing:
  assumes "ledger_ok s" and "distinct (map paId (payments s))" and "inbox_ok s"
    and "claim_and_process W E pr ev ty payload src v s = (WebhookProcessed, s1)"
    and "s' = run_handlers P W ops s1"
  shows "claim_and_process W' E' pr ev ty' payload' src' v' s' = (WebhookDuplicate, s')"
proof -
  obtain j where "done_event j pr ev s1"
    using claimed_done assms(1-4) by (force simp: books_ok_def payments_keyed_def)
  then have "done_event j pr ev s'"
    unfolding assms(5) by (rule finished.all_handled [rotated]) (simp add: list_all_iff)
  then show ?thesis
    by (auto simp: done_event_def claim_and_process_def try_insert_and_claim_def
        claim_existing_for_processing_def split: option.splits)
qed

section \<open>Events that do not match\<close>

text \<open>Recording mismatches adds exceptions and touches nothing else.\<close>

definition open_exception_for :: "uuid \<Rightarrow> string \<Rightarrow> exception_type \<Rightarrow> db \<Rightarrow> bool" where
  "open_exception_for p ev ty s \<longleftrightarrow> list_ex (\<lambda>x. exOpen x \<and> exPayment x = Some p \<and>
     exEvent x = Some ev \<and> exType x = ty) (exceptions s)"

lemma ensure_open_exception_adds:
  "\<exists>new n. ensure_open_exception E ty p ev d s = s\<lparr>exceptions := exceptions s @ new, nextId := n\<rparr> \<and>
     open_exception_for p ev ty (ensure_open_exception E ty p ev d s)"
proof (cases "find_open_exception ty (Some p) (Some ev) s")
  case None
  then show ?thesis
    by (auto simp: ensure_open_exception_def insert_exception_def Let_def open_exception_for_def)
next
  case (Some x)
  then have "open_exception_for p ev ty s"
    by (auto simp: find_open_exception_def open_exception_for_def list_ex_iff find_Some_iff)
  then show ?thesis using Some
    by (intro exI [of _ "[]"] exI [of _ "nextId s"]) (simp add: ensure_open_exception_def)
qed

lemma record_mismatches_adds:
  "\<exists>new n. record_mismatches E p ev ms s = s\<lparr>exceptions := exceptions s @ new, nextId := n\<rparr> \<and>
     (\<forall>ty. open_exception_for p ev ty s \<or> ty \<in> fst ` set ms \<longrightarrow>
        open_exception_for p ev ty (record_mismatches E p ev ms s))"
proof (induction E p ev ms s rule: record_mismatches.induct)
  case (1 E p ev s)
  show ?case by (rule exI [of _ "[]"], rule exI [of _ "nextId s"]) simp
next
  case (2 E p ev ty expected actual ms s)
  let ?s = "ensure_open_exception E ty p ev (details_json expected actual) s"
  obtain new n where 1: "?s = s\<lparr>exceptions := exceptions s @ new, nextId := n\<rparr>" "open_exception_for p ev ty ?s"
    using ensure_open_exception_adds by blast
  obtain new' n' where 2: "record_mismatches E p ev ms ?s = ?s\<lparr>exceptions := exceptions ?s @ new', nextId := n'\<rparr>"
      "\<forall>t. open_exception_for p ev t ?s \<or> t \<in> fst ` set ms \<longrightarrow>
        open_exception_for p ev t (record_mismatches E p ev ms ?s)"
    using 2 by blast
  have "record_mismatches E p ev ms ?s = s\<lparr>exceptions := exceptions s @ (new @ new'), nextId := n'\<rparr>"
    unfolding 2(1) by (subst 1(1), subst 1(1)) simp
  moreover have "open_exception_for p ev t s \<longrightarrow> open_exception_for p ev t ?s" for t
    by (subst 1(1)) (auto simp: open_exception_for_def)
  ultimately show ?case using 1(2) 2(2) by (intro exI [of _ "new @ new'"] exI [of _ n']) auto
qed

text \<open>
  C10. An event that does not fit the payment moves no money: when it comes from another provider
  than the payment's, or claims success for another amount or currency, then its whole effect is
  an open exception of the matching kind for a reviewer. Payments, ledger, installments, agreements,
  retries, proposals, inbox and trail are as they were.
\<close>

theorem mismatched_event_moves_nothing:
  assumes "weType w = ''payout.paid'' \<or> event_type_status (weType w) \<noteq> None"
    and "json_get_string ''providerPaymentId'' (wePayload w) = Some pid" and "pid \<noteq> []"
    and "find_by_provider_payment_id pid s = Some p"
    and "paProviderName p \<noteq> weProvider w \<or>
      (weType w = ''payment.succeeded'' \<and> material_mismatches p (wePayload w) \<noteq> [])"
  shows "\<exists>new n. apply_event W E w token s = (Inr (), s\<lparr>exceptions := exceptions s @ new, nextId := n\<rparr>) \<and>
    (\<exists>ty. ty \<in> (if paProviderName p \<noteq> weProvider w then {ProviderIdentityMismatch}
               else {AmountMismatch, CurrencyMismatch}) \<and>
       open_exception_for (paId p) (weEventId w) ty (s\<lparr>exceptions := exceptions s @ new, nextId := n\<rparr>))"
proof (cases "paProviderName p = weProvider w")
  case False
  let ?d = "JObj [(''expectedProvider'', JStr (paProviderName p)), (''actualProvider'', JStr (weProvider w)),
      (''providerPaymentId'', case paProviderId p of None \<Rightarrow> JNull | Some x \<Rightarrow> JStr x)]"
  have "apply_event W E w token s =
      (Inr (), ensure_open_exception E ProviderIdentityMismatch (paId p) (weEventId w) ?d s)"
    using False assms by (auto simp: apply_event_def record_provider_mismatch_def)
  then show ?thesis
    using ensure_open_exception_adds [of E ProviderIdentityMismatch "paId p" "weEventId w" ?d s] False
    by (metis insertI1)
next
  case True
  let ?ms = "material_mismatches p (wePayload w)"
  have ms: "weType w = ''payment.succeeded''" "?ms \<noteq> []" using True assms(5) by simp_all
  then have "apply_event W E w token s = (Inr (), record_mismatches E (paId p) (weEventId w) ?ms s)"
    using True assms by (simp add: apply_event_def event_type_status_def apply_status_event_def
        validate_first_evidence_def)
  moreover obtain ty where "ty \<in> fst ` set ?ms" using ms(2) by (cases ?ms) auto
  moreover from this have "ty \<in> {AmountMismatch, CurrencyMismatch}"
    by (auto simp: material_mismatches_def split: option.splits if_splits)
  ultimately show ?thesis
    using record_mismatches_adds [of E "paId p" "weEventId w" ?ms s] True by metis
qed

section \<open>A processed success is booked\<close>

lemma journal_prefix:
  assumes "take (length (entries s)) (entries s') = entries s"
    and "find_by_payment_and_type i ty s = Some e"
  shows "find_by_payment_and_type i ty s' = Some e"
proof -
  obtain zs where "entries s' = entries s @ zs" using assms(1) take_prefix_obtain by metis
  then show ?thesis using assms(2) by (simp add: find_by_payment_and_type_def lookup_by_append)
qed

definition booked_as :: "payment_row \<Rightarrow> uuid \<Rightarrow> db \<Rightarrow> db \<Rightarrow> bool" where
  "booked_as p ag s s' \<longleftrightarrow> (\<exists>e. find_by_payment_and_type (paId p) PaymentCleared s' = Some e \<and>
     (find_by_payment_and_type (paId p) PaymentCleared s = None \<longrightarrow>
        jeAgreement e = ag \<and> jeCurrency e = paCurrency p \<and>
        (\<exists>fee. 0 \<le> fee \<and> fee \<le> paAmount p \<and>
           map leg_view (jePostings e) = cleared_legs (paAmount p) fee 0)))"

lemma booked_later: "booked_as p ag s s1 \<Longrightarrow>
    take (length (entries s1)) (entries s2) = entries s1 \<Longrightarrow> booked_as p ag s s2"
  unfolding booked_as_def by (elim exE conjE, drule (1) journal_prefix) auto

lemma posted_books:
  assumes "ledger_ok s"
    and "post_payment_cleared E \<lparr>ciPayment = paId p, ciAgreement = ag, ciCurrency = paCurrency p,
      ciGross = paAmount p, ciProcessorFee = Some fee, ciPlatformFee = Some (platform_fee p)\<rparr> s = (Inr e, s')"
  shows "booked_as p ag s s'"
proof (cases "find_by_payment_and_type (paId p) PaymentCleared s")
  case (Some c)
  then have "s' = s" using assms(2) by (simp add: post_payment_cleared_def)
  then show ?thesis using Some by (simp add: booked_as_def)
next
  case None
  let ?i = "\<lparr>ciPayment = paId p, ciAgreement = ag, ciCurrency = paCurrency p,
      ciGross = paAmount p, ciProcessorFee = Some fee, ciPlatformFee = Some (platform_fee p)\<rparr>"
  have free: "journal_lookup (ciPayment ?i, PaymentCleared) s = None"
    using None by (simp add: journal_lookup_def)
  show ?thesis
  proof (cases rule: post_payment_cleared_cases [OF refl refl refl refl assms(1) free, where E = E])
    case (3 e' s2)
    have "e' = e" "s2 = s'" using 3(1) assms(2) by simp_all
    then have "find_by_payment_and_type (paId p) PaymentCleared s' = Some e"
      using 3(4) by (simp add: posts_def journal_lookup_def)
    then show ?thesis using 3(2,5,6,7) \<open>e' = e\<close>
      by (auto simp: booked_as_def fee_or_zero_def platform_fee_def cleared_amounts_ok_def)
  qed (use assms(2) in simp_all)
qed

lemma ledger_entry_books:
  assumes "ledger_ok s" and "post_ledger_entry E ''payment.succeeded'' p data src s = (Inr (), s')"
  shows "\<exists>ag. paAgreement p = Some ag \<and> booked_as p ag s s'"
proof -
  obtain ag where ag: "paAgreement p = Some ag" "post_cleared_event E p ag data s = (Inr (), s')"
    using assms(2) by (auto simp: post_ledger_entry_def split: option.splits if_splits)
  show ?thesis
  proof (cases "\<exists>d. data_number ''processorFeeMinorUnits'' data = Some (OtherNumber d)")
    case True
    then show ?thesis using ag by (auto simp: post_cleared_event_def booked_as_def split: if_splits)
  next
    case False
    then obtain fee e where "post_payment_cleared E \<lparr>ciPayment = paId p, ciAgreement = ag,
        ciCurrency = paCurrency p, ciGross = paAmount p, ciProcessorFee = Some fee,
        ciPlatformFee = Some (platform_fee p)\<rparr> s = (Inr e, s')"
      using ag(2) by (auto simp: post_cleared_event_def andThen_Inr_iff split: option.splits number.splits)
    then show ?thesis using posted_books [OF assms(1)] ag(1) by blast
  qed
qed

lemma run_effects_books:
  assumes "books_ok s" and "weType w = ''payment.succeeded''"
    and "run_effects W E w st c p s = (Inr (), s')"
  shows "\<exists>ag. paAgreement p = Some ag \<and> booked_as p ag s s'"
proof -
  define rest where "rest = (\<lambda>_ :: unit. andThen (apply_partial_required E p) (\<lambda>_.
       (\<lambda>s. case success_disposition p s of
          WaitForSuperseding \<Rightarrow>
            (Inl (ValidationError ''payment_webhook_historical_effect_awaiting_superseding_event''), s)
        | SupersededSafely \<Rightarrow> (Inr (), s)
        | ApplyEffects \<Rightarrow>
            andThen (run_failed_workflow W E st p c) (\<lambda>_. check_completion_required E st p) s)))"
  have split: "run_effects W E w st c p =
      andThen (post_ledger_entry E ''payment.succeeded'' p (wePayload w) (weSource w)) rest"
    using assms(2) by (simp add: run_effects_def rest_def)
  obtain s1 where 1: "post_ledger_entry E ''payment.succeeded'' p (wePayload w) (weSource w) s = (Inr (), s1)"
      "rest () s1 = (Inr (), s')"
    using assms(3) unfolding split by (auto simp: andThen_Inr_iff)
  have "keeps effect (rest ())"
    unfolding rest_def by (intro effect_andThen keeps_partial keeps_disposition)
  from keepsD [OF this 1(2)] have e: "effect s1 s'" .
  have "effect s s1" using keepsD [OF keeps_post_ledger 1(1)] .
  then have "books_ok s1" using effect_books_ok assms(1) by blast
  then have p: "take (length (entries s1)) (entries s') = entries s1"
    using e by (simp add: effect_def books_ok_def)
  have "ledger_ok s" using assms(1) by (simp add: books_ok_def)
  from ledger_entry_books [OF this 1(1)] show ?thesis using booked_later [OF _ p] by blast
qed

lemma transition_outcome:
  assumes "books_ok s" and "find_payment (paId p) s = Some p"
    and "transition_of_event E w token st c p s = (Inr res, s')"
  shows "entries s' = entries s \<and> books_ok s' \<and>
    (case res of
       None \<Rightarrow> weAppliedAt w = None \<and> permanently_illegal (paStatus p) st \<and> payments s' = payments s
     | Some q \<Rightarrow> paId q = paId p \<and> paAmount q = paAmount p \<and> paCurrency q = paCurrency p \<and>
         paAgreement q = paAgreement p)"
proof (cases "weAppliedAt w")
  case (Some t)
  then have "res = Some p \<and> quiet s s'" using assms(2,3)
    by (auto simp: transition_of_event_def record_transition_audit_def quiet_audit Let_def split: option.splits)
  then show ?thesis using assms(1) books_ok_cong [of s' s] by (simp add: quiet_def)
next
  case None
  let ?f = "\<lparr>pfProviderId = None, pfFailure = c\<rparr>"
  obtain r s1 where 1: "apply_transition E (paId p) (weId w) token st ?f (allowed_sources st) s = (Inr r, s1)"
    using assms(3) None by (auto simp: transition_of_event_def andThen_Inr_iff)
  have e: "effect s s1" using effect_transition 1 by (metis snd_conv)
  show ?thesis
  proof (cases r)
    case (Rejected cur)
    then have "cur = p" "s1 = s" using 1 assms(2)
      by (auto simp: apply_transition_def split: if_splits option.splits)
    then have "permanently_illegal (paStatus p) st \<and> res = None \<and>
        s' = detect_conflict E p (wePayload w) (weEventId w) (weType w) st s"
      using assms(3) None 1 Rejected
      by (auto simp: transition_of_event_def andThen_Inr_iff split: if_splits)
    moreover have "quiet s (detect_conflict E p (wePayload w) (weEventId w) (weType w) st s)"
      by (simp add: detect_conflict_def quiet_mismatches)
    ultimately show ?thesis using None assms(1) books_ok_cong [of s' s] by (simp add: quiet_def)
  next
    case (Applied q fr)
    have q: "q = with_status E st ?f p" "entries s1 = entries s"
      using 1 Applied assms(2) by (auto simp: apply_transition_def split: if_splits option.splits)
    have "res = Some q \<and> s' = record_transition_audit E q (weEventId w) (weType w) fr st s1"
      using assms(3) None 1 Applied by (auto simp: transition_of_event_def andThen_Inr_iff)
    then show ?thesis
      using q effect_books_ok [OF e assms(1)] books_ok_cong [of s' s1]
      by (simp add: record_transition_audit_def)
  qed
qed

text \<open>
  C9. A success that counts is booked in full: when a success event of the payment's provider, with
  the payment's amount and currency, has been processed, then either the payment could never succeed
  any more and neither payments nor journal have moved, or the payment's clearing entry is in the
  journal; an entry that was not there before belongs to the payment's agreement, debits exactly the
  payment's amount and splits it into the creditor's net and the processor's fee.
\<close>

theorem success_event_is_booked:
  assumes "ledger_ok s" and "distinct (map paId (payments s))" and "weType w = ''payment.succeeded''"
    and "json_get_string ''providerPaymentId'' (wePayload w) = Some pid" and "pid \<noteq> []"
    and "find_by_provider_payment_id pid s = Some p" and "paProviderName p = weProvider w"
    and "material_mismatches p (wePayload w) = []" and "apply_event W E w token s = (Inr (), s')"
  shows "(weAppliedAt w = None \<and> permanently_illegal (paStatus p) PSucceeded \<and>
      payments s' = payments s \<and> entries s' = entries s) \<or>
    (\<exists>ag. paAgreement p = Some ag \<and> booked_as p ag s s')"
proof -
  have ok: "books_ok s" using assms(1,2) by (simp add: books_ok_def payments_keyed_def)
  have "p \<in> set (payments s)"
    using assms(6) by (auto simp: find_by_provider_payment_id_def dest: lookup_by_Some_mem)
  then have p: "find_payment (paId p) s = Some p" using lookup_by_distinct [OF assms(2)] by simp
  have "apply_status_event W E w token PSucceeded p s = (Inr (), s')"
    using assms(3-9) by (simp add: apply_event_def event_type_status_def)
  then obtain res s1 where 1: "transition_of_event E w token PSucceeded None p s = (Inr res, s1)"
      "(case res of None \<Rightarrow> ret () | Some q \<Rightarrow> run_effects W E w PSucceeded None q) s1 = (Inr (), s')"
    using assms(3,8) by (auto simp: apply_status_event_def validate_first_evidence_def andThen_Inr_iff)
  note t = transition_outcome [OF ok p 1(1)]
  show ?thesis
  proof (cases res)
    case None
    then show ?thesis using t 1(2) by simp
  next
    case (Some q)
    then have q: "paId q = paId p" "paAmount q = paAmount p" "paCurrency q = paCurrency p"
      "paAgreement q = paAgreement p" "entries s1 = entries s" using t by simp_all
    then have b: "booked_as q ag s1 s' = booked_as p ag s s'" for ag
      by (simp add: booked_as_def find_by_payment_and_type_def)
    have "books_ok s1" "run_effects W E w PSucceeded None q s1 = (Inr (), s')" using t 1(2) Some by simp_all
    from run_effects_books [OF this(1) assms(3) this(2)] show ?thesis using q(4) b by metis
  qed
qed

section \<open>The properties at work\<close>

definition sample_parser :: "string \<Rightarrow> error + (string \<times> string \<times> string \<times> json)" where
  "sample_parser body = Inr (''sandbox'', ''e2'', ''payment.succeeded'',
     JObj [(''providerPaymentId'', JStr ''p1''), (''amountMinorUnits'', JNum 100),
           (''currency'', JStr ''USD''), (''processorFeeMinorUnits'', JNum 3)])"

definition sample_provider :: provider_deps where
  "sample_provider = \<lparr>verifyWebhookSignature = (\<lambda>body signature. signature = ''good''),
     parseWebhookEvent = sample_parser\<rparr>"

definition sample_workflow :: workflow_deps where
  "sample_workflow = \<lparr>retryDelay = 3, notify_parties = (\<lambda>_ _. Inr ())\<rparr>"

definition sample_claimed_event :: "int \<Rightarrow> webhook_row" where
  "sample_claimed_event n = sample_event\<lparr>wePayload := JObj [(''providerPaymentId'', JStr ''p1''),
     (''amountMinorUnits'', JNum n), (''currency'', JStr ''USD''), (''processorFeeMinorUnits'', JNum 3)]\<rparr>"

definition sample_webhook_db :: "int \<Rightarrow> db" where
  "sample_webhook_db n = empty_db\<lparr>nextId := 42, agreements := [sample_agreement FirstPaymentPending],
     webhooks := [sample_claimed_event n], payments := [(sample_payment 7 PPending 100)\<lparr>paInstallment := None\<rparr>]\<rparr>"

lemma sample_webhook_tables [simp]:
  "nextId (sample_webhook_db n) = 42" "webhooks (sample_webhook_db n) = [sample_claimed_event n]"
  "payments (sample_webhook_db n) = [(sample_payment 7 PPending 100)\<lparr>paInstallment := None\<rparr>]"
  "entries (sample_webhook_db n) = []" "accounts (sample_webhook_db n) = []"
  "exceptions (sample_webhook_db n) = []"
  by (simp_all add: sample_webhook_db_def empty_db_def)

lemma sample_webhook_ok: "ledger_ok (sample_webhook_db n)"
  using ledger_ok_cong [of "sample_webhook_db n" empty_db] empty_ledger_ok by (simp add: empty_db_def)

theorem handlers_keep_books_witness:
  "moved_legally (payments (sample_webhook_db 100))
     (payments (run_handlers sample_provider sample_workflow
       [(toy_env, ReceiveWebhook ''body'' ''good''), (toy_env, RecoverBatch 5)] (sample_webhook_db 100)))"
  using handlers_keep_books [OF sample_webhook_ok _ refl, of 100] by (simp del: run_handlers_simps)

theorem no_event_lost_witness:
  "\<exists>w. find_by_provider_event_id ''sandbox'' ''e2''
      (run_handlers sample_provider sample_workflow [(toy_env, RecoverBatch 5)]
        (snd (receive_webhook sample_provider sample_workflow toy_env ''body'' ''good'' (sample_webhook_db 100))))
      = Some w \<and>
    (weStatus w = EvProcessed \<or> given_up w \<or> recoverable (clock toy_env + 30 * 60 * 1000) w)"
proof -
  have due: "list_all (due_by (clock toy_env + 30 * 60 * 1000)) (webhooks (sample_webhook_db 100))"
    by (simp add: sample_claimed_event_def sample_event_def due_by_def recoverable_def toy_env_def)
  obtain reply s1 where r:
    "receive_webhook sample_provider sample_workflow toy_env ''body'' ''good'' (sample_webhook_db 100) = (Inr reply, s1)"
    by (cases "receive_webhook sample_provider sample_workflow toy_env ''body'' ''good'' (sample_webhook_db 100)")
      (auto simp: receive_webhook_def sample_provider_def sample_parser_def split: prod.splits)
  show ?thesis
    using no_event_lost [OF sample_webhook_ok _ due r _ _ refl, of "[(toy_env, RecoverBatch 5)]"] r
    by (simp del: run_handlers_simps) (simp add: sample_provider_def sample_parser_def del: run_handlers_simps)
qed

theorem recovery_clears_backlog_witness:
  "list_all (\<lambda>w. \<not> recoverable (clock toy_env) w)
     (webhooks (snd (recover_batch sample_workflow toy_env 1 (sample_webhook_db 100))))"
proof -
  obtain a b c s' where "recover_batch sample_workflow toy_env 1 (sample_webhook_db 100) = ((a, b, c), s')"
    by (metis surj_pair)
  then show ?thesis using recovery_clears_backlog [OF sample_webhook_ok, of 100 toy_env 1] by simp
qed

theorem redelivery_changes_nothing_witness:
  "(let s' = snd (claim_and_process sample_workflow toy_env ''sandbox'' ''e3'' ''ping'' JNull SignedWebhook True
        (sample_webhook_db 100))
    in claim_and_process sample_workflow toy_env ''sandbox'' ''e3'' ''payment.failed'' (JObj []) ProviderLookup False
         (run_handlers sample_provider sample_workflow [(toy_env, RecoverBatch 5)] s') =
       (WebhookDuplicate, run_handlers sample_provider sample_workflow [(toy_env, RecoverBatch 5)] s'))"
proof -
  have "fst (claim_and_process sample_workflow toy_env ''sandbox'' ''e3'' ''ping'' JNull SignedWebhook True
      (sample_webhook_db 100)) = WebhookProcessed"
    by (simp add: claim_and_process_def try_insert_and_claim_def find_by_provider_event_id_def Let_def
        sample_claimed_event_def sample_event_def process_and_finalize_def apply_event_def
        event_type_status_def)
  then obtain s1 where c: "claim_and_process sample_workflow toy_env ''sandbox'' ''e3'' ''ping'' JNull
      SignedWebhook True (sample_webhook_db 100) = (WebhookProcessed, s1)"
    by (metis fst_conv surj_pair)
  have "inbox_ok (sample_webhook_db 100)"
    by (simp add: inbox_ok_def sample_claimed_event_def sample_event_def)
  then show ?thesis
    using redelivery_changes_nothing [OF sample_webhook_ok _ _ c refl] c by (simp del: run_handlers_simps)
qed

lemma sample_found: "find_by_provider_payment_id ''p1'' (sample_webhook_db n) =
    Some ((sample_payment 7 PPending 100)\<lparr>paInstallment := None\<rparr>)"
  by (simp add: find_by_provider_payment_id_def sample_payment_def)

theorem mismatched_event_moves_nothing_witness:
  "\<exists>new n. apply_event sample_workflow toy_env (sample_claimed_event 90) 41 (sample_webhook_db 90) =
     (Inr (), (sample_webhook_db 90)\<lparr>exceptions := new, nextId := n\<rparr>) \<and> new \<noteq> []"
proof -
  have "\<exists>new n. apply_event sample_workflow toy_env (sample_claimed_event 90) 41 (sample_webhook_db 90) =
      (Inr (), (sample_webhook_db 90)\<lparr>exceptions := exceptions (sample_webhook_db 90) @ new, nextId := n\<rparr>) \<and>
    (\<exists>ty. ty \<in> (if paProviderName ((sample_payment 7 PPending 100)\<lparr>paInstallment := None\<rparr>) \<noteq>
          weProvider (sample_claimed_event 90) then {ProviderIdentityMismatch}
        else {AmountMismatch, CurrencyMismatch}) \<and>
      open_exception_for 7 ''e1'' ty
        ((sample_webhook_db 90)\<lparr>exceptions := exceptions (sample_webhook_db 90) @ new, nextId := n\<rparr>))"
    using mismatched_event_moves_nothing [of "sample_claimed_event 90" "''p1''" "sample_webhook_db 90",
        OF _ _ _ sample_found, of sample_workflow toy_env 41]
    by (simp add: sample_claimed_event_def sample_event_def event_type_status_def json_get_string_def
        json_get_def material_mismatches_def data_number_def sample_payment_def)
  then show ?thesis by (auto simp: open_exception_for_def)
qed

theorem success_event_is_booked_witness:
  "\<exists>s'. apply_event sample_workflow toy_env (sample_claimed_event 100) 41 (sample_webhook_db 100) = (Inr (), s') \<and>
     booked_as ((sample_payment 7 PPending 100)\<lparr>paInstallment := None\<rparr>) 1 (sample_webhook_db 100) s'"
proof -
  let ?p = "(sample_payment 7 PPending 100)\<lparr>paInstallment := None\<rparr>"
  let ?s = "sample_webhook_db 100" and ?w = "sample_claimed_event 100"
  let ?q = "with_status toy_env PSucceeded \<lparr>pfProviderId = None, pfFailure = None\<rparr> ?p"
  have mm: "material_mismatches ?p (wePayload ?w) = []"
    by (simp add: material_mismatches_def data_number_def json_get_string_def json_get_def
        sample_claimed_event_def sample_payment_def)
  define s1 where "s1 = record_transition_audit toy_env ?q ''e1'' ''payment.succeeded'' PPending PSucceeded
     (set_webhook 40 (\<lambda>w. w\<lparr>weAppliedAt := Some (clock toy_env), weFrom := Some PPending, weTo := Some PSucceeded\<rparr>)
       (set_payment 7 (with_status toy_env PSucceeded \<lparr>pfProviderId = None, pfFailure = None\<rparr>) ?s))"
  have t: "transition_of_event toy_env ?w 41 PSucceeded None ?p ?s = (Inr (Some ?q), s1)"
    by (simp add: transition_of_event_def sample_claimed_event_def sample_event_def apply_transition_def
        sample_payment_def allowed_sources_def allowed_source_statuses_def provider_id_taken_def
        s1_def andThen_def)
  have s1: "payments s1 = [?q]" "entries s1 = []" "ledger_ok s1"
    using ledger_ok_cong [of s1 ?s] sample_webhook_ok
    by (simp_all add: s1_def record_transition_audit_def sample_payment_def)
  let ?i = "\<lparr>ciPayment = paId ?q, ciAgreement = 1, ciCurrency = paCurrency ?q, ciGross = paAmount ?q,
      ciProcessorFee = Some 3, ciPlatformFee = Some (platform_fee ?q)\<rparr>"
  have free: "journal_lookup (ciPayment ?i, PaymentCleared) s1 = None"
    by (simp add: journal_lookup_def find_by_payment_and_type_def s1)
  obtain e s2 where 2: "post_payment_cleared toy_env ?i s1 = (Inr e, s2)" "payments s2 = [?q]"
    by (cases rule: post_payment_cleared_cases [OF refl refl refl refl s1(3) free, where E = toy_env])
      (simp_all add: fee_or_zero_def platform_fee_def sample_payment_def cleared_amounts_ok_def
        safe_int_def max_safe_def int4_ok_def posts_def only_ledger_grew_def s1(1))
  have led: "post_ledger_entry toy_env ''payment.succeeded'' ?q (wePayload ?w) SignedWebhook s1 = (Inr (), s2)"
    using 2(1) by (simp add: post_ledger_entry_def post_cleared_event_def sample_payment_def with_status_def
        data_number_def json_get_def sample_claimed_event_def platform_fee_def andThen_def)
  have part: "apply_partial_required toy_env ?q s2 = (Inr (), s2)"
    by (simp add: apply_partial_required_def apply_cleared_payment_def 2(2) max_lineage_hops_def andThen_def
        partial_payment_key_def retry_of_key_def eval_nat_numeral sample_payment_def strip_prefix_def)
  have "run_effects sample_workflow toy_env ?w PSucceeded None ?q s1 =
      (Inr (), snd (check_completion_required toy_env PSucceeded ?q s2))"
    using led part
    by (simp add: run_effects_def sample_claimed_event_def sample_event_def success_disposition_def
        run_failed_workflow_def check_completion_required_def with_status_def sample_payment_def)
  then obtain s' where "apply_event sample_workflow toy_env ?w 41 ?s = (Inr (), s')"
    using t mm sample_found
    by (simp add: apply_event_def event_type_status_def apply_status_event_def validate_first_evidence_def
        sample_claimed_event_def sample_event_def json_get_string_def json_get_def sample_payment_def)
  then show ?thesis
    using success_event_is_booked [of ?s ?w "''p1''" ?p, OF sample_webhook_ok _ _ _ _ sample_found _ mm]
    by (auto simp: sample_claimed_event_def sample_event_def json_get_string_def json_get_def
        sample_payment_def permanently_illegal_def allowed_sources_def allowed_source_statuses_def)
qed

end
