(* ===== verification/PaymentMethods.thy ===== *)
theory PaymentMethods
  imports WebhookLaws
begin

text \<open>
  How a provider payment is funded: bank mandates (\<open>ach/achMandateService.ts\<close>), debit cards
  (\<open>debitCard/debitCardMethodService.ts\<close>), the fees of a card payment
  (\<open>debitCard/cardFeeAllocation.ts\<close>) and the two payment services on top
  (\<open>ach/achPaymentService.ts\<close>, \<open>debitCard/debitCardPaymentService.ts\<close>). The tables of this part
  live beside \<open>db\<close>.
\<close>

section \<open>Tables\<close>

datatype mandate_status = MandateActive | MandateRevoked | MandateExpired

record mandate_row =
  mnId :: uuid
  mnAgreement :: uuid
  mnPayer :: profile_ref
  mnBankRef :: string
  mnFinancial :: "uuid option"
  mnStatus :: mandate_status
  mnAuthorizedAt :: msec
  mnRevokedAt :: "msec option"
  mnRevokedReason :: "string option"
  mnSupersedes :: "uuid option"

datatype card_status = CardActive | CardReplaced | CardExpiredStatus

record card_row =
  cdId :: uuid
  cdAgreement :: uuid
  cdPayer :: profile_ref
  cdToken :: string
  cdLast4 :: string
  cdBrand :: "string option"
  cdMonth :: int
  cdYear :: int
  cdStatus :: card_status
  cdRegisteredAt :: msec
  cdReplacedAt :: "msec option"
  cdReplacedReason :: "string option"
  cdSupersedes :: "uuid option"

record method_db =
  mdDb :: db
  mdMandates :: "mandate_row list"
  mdCards :: "card_row list"

type_synonym 'a method_step = "(method_db, error, 'a) step"

definition on_db :: "(db, error, 'a) step \<Rightarrow> 'a method_step" where
  "on_db m s = (case m (mdDb s) of (r, d) \<Rightarrow> (r, s\<lparr>mdDb := d\<rparr>))"

section \<open>Guards\<close>

definition require_owner :: "pay_deps \<Rightarrow> profile_ref \<Rightarrow> uuid \<Rightarrow> 'a method_step \<Rightarrow> 'a method_step" where
  "require_owner D profile actor m s =
     (if ownerOf D profile \<noteq> Some actor then (Inl (ForbiddenError ''OwnProfileOnly''), s) else m s)"

definition require_debtor :: "uuid \<Rightarrow> profile_ref \<Rightarrow> 'a method_step \<Rightarrow> 'a method_step" where
  "require_debtor ag payer m s =
     (case find_agreement ag (mdDb s) of
        None \<Rightarrow> (Inl (ValidationError ''AgreementNotFound''), s)
      | Some a \<Rightarrow> if agDebtor a \<noteq> payer then (Inl (ForbiddenError ''PayerIsNotDebtor''), s) else m s)"

section \<open>Mandates\<close>

definition find_active_mandate :: "uuid \<Rightarrow> method_db \<Rightarrow> mandate_row option" where
  "find_active_mandate ag s = find (\<lambda>m. mnAgreement m = ag \<and> mnStatus m = MandateActive) (mdMandates s)"

definition find_mandate :: "uuid \<Rightarrow> method_db \<Rightarrow> mandate_row option" where
  "find_mandate i s = lookup_by mnId i (mdMandates s)"

definition insert_mandate ::
    "env \<Rightarrow> uuid \<Rightarrow> profile_ref \<Rightarrow> string \<Rightarrow> uuid option \<Rightarrow> mandate_row method_step" where
  "insert_mandate E ag payer ref supersedes s =
     (let m = \<lparr>mnId = nextId (mdDb s), mnAgreement = ag, mnPayer = payer, mnBankRef = ref,
        mnFinancial = None, mnStatus = MandateActive, mnAuthorizedAt = clock E, mnRevokedAt = None,
        mnRevokedReason = None, mnSupersedes = supersedes\<rparr>
      in (Inr m, s\<lparr>mdMandates := mdMandates s @ [m], mdDb := (mdDb s)\<lparr>nextId := Suc (nextId (mdDb s))\<rparr>\<rparr>))"

definition revoked_mandate :: "env \<Rightarrow> string \<Rightarrow> mandate_row \<Rightarrow> mandate_row" where
  "revoked_mandate E why m =
     m\<lparr>mnStatus := MandateRevoked, mnRevokedAt := Some (clock E), mnRevokedReason := Some why\<rparr>"

definition mark_revoked :: "env \<Rightarrow> uuid \<Rightarrow> string \<Rightarrow> mandate_row method_step" where
  "mark_revoked E i why s =
     (case find_mandate i s of
        None \<Rightarrow> (Inl (ConfigurationError ''ach_mandate markRevoked found no row''), s)
      | Some m \<Rightarrow> (Inr (revoked_mandate E why m),
          s\<lparr>mdMandates := update_by mnId i (revoked_mandate E why) (mdMandates s)\<rparr>))"

definition mandate_status_name :: "mandate_status \<Rightarrow> string" where
  "mandate_status_name st = (case st of MandateActive \<Rightarrow> ''active'' | MandateRevoked \<Rightarrow> ''revoked''
     | MandateExpired \<Rightarrow> ''expired'')"

definition mandate_audit :: "env \<Rightarrow> mandate_row \<Rightarrow> string \<Rightarrow> uuid \<Rightarrow> string option \<Rightarrow> unit method_step" where
  "mandate_audit E m act actor why = update (\<lambda>s. s\<lparr>mdDb := audit E ((blank_audit act (clock E))
     \<lparr>actorUserId := Some actor, actorRole := Some ''personal_user'',
      profileKind := Some (fst (mnPayer m)), profileId := Some (snd (mnPayer m)),
      auditAgreementId := Some (mnAgreement m), newValue := JStr (mandate_status_name (mnStatus m)),
      reason := why, targetResourceType := Value ''ach_mandate'',
      targetResourceId := Value (mnId m)\<rparr>) (mdDb s)\<rparr>)"

definition authorize_mandate ::
    "pay_deps \<Rightarrow> env \<Rightarrow> uuid \<Rightarrow> profile_ref \<Rightarrow> string \<Rightarrow> uuid \<Rightarrow> mandate_row method_step" where
  "authorize_mandate D E ag payer ref actor =
     require_owner D payer actor (require_debtor ag payer (\<lambda>s.
       if find_active_mandate ag s \<noteq> None then (Inl (ConflictError ''MandateExists''), s)
       else andThen (insert_mandate E ag payer ref None) (\<lambda>m.
         andThen (mandate_audit E m ''ach_mandate_authorized'' actor None) (\<lambda>_. ret m)) s))"

definition revoke_mandate :: "pay_deps \<Rightarrow> env \<Rightarrow> uuid \<Rightarrow> uuid \<Rightarrow> string \<Rightarrow> mandate_row method_step" where
  "revoke_mandate D E i actor why s =
     (case find_mandate i s of
        None \<Rightarrow> (Inl (ValidationError ''MandateNotFound''), s)
      | Some m \<Rightarrow>
          (if mnStatus m \<noteq> MandateActive then (Inl (ValidationError ''OnlyActive''), s)
           else require_owner D (mnPayer m) actor
             (andThen (mark_revoked E (mnId m) why) (\<lambda>u.
              andThen (mandate_audit E u ''ach_mandate_revoked'' actor (Some why)) (\<lambda>_. ret u))) s))"

definition handle_bank_change ::
    "pay_deps \<Rightarrow> env \<Rightarrow> uuid \<Rightarrow> profile_ref \<Rightarrow> string \<Rightarrow> uuid \<Rightarrow> mandate_row method_step" where
  "handle_bank_change D E ag payer ref actor =
     require_owner D payer actor (require_debtor ag payer (\<lambda>s.
       andThen (case find_active_mandate ag s of
           None \<Rightarrow> ret ()
         | Some m \<Rightarrow> andThen (mark_revoked E (mnId m) ''Bank account changed.'') (\<lambda>_.
             mandate_audit E m ''ach_mandate_superseded'' actor (Some ''Bank account changed.'')))
         (\<lambda>_. andThen (insert_mandate E ag payer ref (map_option mnId (find_active_mandate ag s))) (\<lambda>m.
         andThen (mandate_audit E m ''ach_mandate_authorized'' actor
           (Some ''Re-authorized after bank change.'')) (\<lambda>_. ret m))) s))"

section \<open>Cards\<close>

definition find_active_card :: "uuid \<Rightarrow> method_db \<Rightarrow> card_row option" where
  "find_active_card ag s = find (\<lambda>c. cdAgreement c = ag \<and> cdStatus c = CardActive) (mdCards s)"

text \<open>A card is good to the end of its month, by the calendar of UTC.\<close>

definition card_expired :: "int \<Rightarrow> int \<Rightarrow> msec \<Rightarrow> bool" where
  "card_expired month year now =
     (case utc_fields now of (y, m, d) \<Rightarrow> if y \<noteq> year then year < y else month < m)"

definition require_valid_expiry :: "env \<Rightarrow> int \<Rightarrow> int \<Rightarrow> error option" where
  "require_valid_expiry E month year =
     (if month < 1 \<or> 12 < month then Some (ValidationError ''expiresAtMonth'')
      else if year < 2000 then Some (ValidationError ''expiresAtYear'')
      else if card_expired month year (clock E) then Some (ValidationError ''CardExpired'')
      else None)"

record card_input =
  kiToken :: string
  kiLast4 :: string
  kiBrand :: "string option"
  kiMonth :: int
  kiYear :: int

definition insert_card ::
    "env \<Rightarrow> uuid \<Rightarrow> profile_ref \<Rightarrow> card_input \<Rightarrow> uuid option \<Rightarrow> card_row method_step" where
  "insert_card E ag payer k supersedes s =
     (if \<not> int4_ok (kiYear k) then (Inl (ForeignError ''integer out of range''), s)
      else let c = \<lparr>cdId = nextId (mdDb s), cdAgreement = ag, cdPayer = payer, cdToken = kiToken k,
             cdLast4 = kiLast4 k, cdBrand = kiBrand k, cdMonth = kiMonth k, cdYear = kiYear k,
             cdStatus = CardActive, cdRegisteredAt = clock E, cdReplacedAt = None,
             cdReplacedReason = None, cdSupersedes = supersedes\<rparr>
           in (Inr c, s\<lparr>mdCards := mdCards s @ [c], mdDb := (mdDb s)\<lparr>nextId := Suc (nextId (mdDb s))\<rparr>\<rparr>))"

definition replaced_card :: "env \<Rightarrow> string \<Rightarrow> card_row \<Rightarrow> card_row" where
  "replaced_card E why c =
     c\<lparr>cdStatus := CardReplaced, cdReplacedAt := Some (clock E), cdReplacedReason := Some why\<rparr>"

definition mark_replaced :: "env \<Rightarrow> uuid \<Rightarrow> string \<Rightarrow> card_row method_step" where
  "mark_replaced E i why s =
     (case lookup_by cdId i (mdCards s) of
        None \<Rightarrow> (Inl (ConfigurationError ''debit_card_method markReplaced found no row''), s)
      | Some c \<Rightarrow> (Inr (replaced_card E why c),
          s\<lparr>mdCards := update_by cdId i (replaced_card E why) (mdCards s)\<rparr>))"

definition card_status_name :: "card_status \<Rightarrow> string" where
  "card_status_name st = (case st of CardActive \<Rightarrow> ''active'' | CardReplaced \<Rightarrow> ''replaced''
     | CardExpiredStatus \<Rightarrow> ''expired'')"

definition card_audit :: "env \<Rightarrow> card_row \<Rightarrow> string \<Rightarrow> uuid \<Rightarrow> string option \<Rightarrow> unit method_step" where
  "card_audit E c act actor why = update (\<lambda>s. s\<lparr>mdDb := audit E ((blank_audit act (clock E))
     \<lparr>actorUserId := Some actor, actorRole := Some ''personal_user'',
      profileKind := Some (fst (cdPayer c)), profileId := Some (snd (cdPayer c)),
      auditAgreementId := Some (cdAgreement c), newValue := JStr (card_status_name (cdStatus c)),
      reason := why, targetResourceType := Value ''debit_card_method'',
      targetResourceId := Value (cdId c)\<rparr>) (mdDb s)\<rparr>)"

definition register_card ::
    "pay_deps \<Rightarrow> env \<Rightarrow> uuid \<Rightarrow> profile_ref \<Rightarrow> card_input \<Rightarrow> uuid \<Rightarrow> card_row method_step" where
  "register_card D E ag payer k actor =
     require_owner D payer actor (require_debtor ag payer (\<lambda>s.
       case require_valid_expiry E (kiMonth k) (kiYear k) of
         Some e \<Rightarrow> (Inl e, s)
       | None \<Rightarrow>
      (if find_active_card ag s \<noteq> None then (Inl (ConflictError ''CardExists''), s)
       else andThen (insert_card E ag payer k None) (\<lambda>c.
         andThen (card_audit E c ''debit_card_method_registered'' actor None) (\<lambda>_. ret c)) s)))"

definition replace_card ::
    "pay_deps \<Rightarrow> env \<Rightarrow> uuid \<Rightarrow> profile_ref \<Rightarrow> card_input \<Rightarrow> string \<Rightarrow> uuid \<Rightarrow> card_row method_step" where
  "replace_card D E ag payer k why actor =
     require_owner D payer actor (require_debtor ag payer (\<lambda>s.
       case require_valid_expiry E (kiMonth k) (kiYear k) of
         Some e \<Rightarrow> (Inl e, s)
       | None \<Rightarrow>
      (case find_active_card ag s of
         None \<Rightarrow> (Inl (ValidationError ''NoActiveCard''), s)
       | Some old \<Rightarrow>
           andThen (mark_replaced E (cdId old) why) (\<lambda>_.
           andThen (card_audit E old ''debit_card_method_superseded'' actor (Some why)) (\<lambda>_.
           andThen (insert_card E ag payer k (Some (cdId old))) (\<lambda>c.
           andThen (card_audit E c ''debit_card_method_registered'' actor
             (Some ''Replaced an expiring or compromised card.'')) (\<lambda>_. ret c)))) s)))"

section \<open>The fees of a card payment\<close>

text \<open>
  \<open>Math.round(amount * 0.029) + 30\<close>. The double nearest to 0.029 is \<open>card_rate / 2^58\<close>; the product
  is rounded to the nearest double (\<open>js_int\<close> on the scaled value), and \<open>Math.round\<close> takes the
  nearest integer, ties upwards.
\<close>

definition card_rate :: int where "card_rate = 8358680908399641"

definition card_processor_fee :: "int \<Rightarrow> int" where
  "card_processor_fee amount = js_add ((2 * js_int (amount * card_rate) + 2 ^ 58) div 2 ^ 59) 30"

definition ach_fee :: int where "ach_fee = 0"

definition borrower_surcharge :: "fee_allocation \<Rightarrow> int \<Rightarrow> int \<Rightarrow> int" where
  "borrower_surcharge fa achFee cardFee = (if fa = CreditorPays then 0 else max 0 (js_sub cardFee achFee))"

record charge_breakdown =
  cbScheduled :: int
  cbFee :: int
  cbSurcharge :: int
  cbTotal :: int

definition get_fee_allocation :: "uuid \<Rightarrow> method_db \<Rightarrow> fee_allocation option" where
  "get_fee_allocation ag s =
     Option.bind (Option.bind (find_agreement ag (mdDb s)) agCurrentVersion)
       (\<lambda>v. map_option avFee (find_version v (mdDb s)))"

definition compute_charge_breakdown :: "uuid \<Rightarrow> int \<Rightarrow> method_db \<Rightarrow> error + charge_breakdown" where
  "compute_charge_breakdown ag amount s =
     (case get_fee_allocation ag s of
        None \<Rightarrow> Inl (ValidationError ''NoFeeAllocation'')
      | Some fa \<Rightarrow>
          (let fee = card_processor_fee amount; surcharge = borrower_surcharge fa ach_fee fee
           in Inr \<lparr>cbScheduled = amount, cbFee = fee, cbSurcharge = surcharge,
                cbTotal = js_add amount surcharge\<rparr>))"

section \<open>Payments by mandate\<close>

text \<open>What a caller asks for; the services add the method and, for a mandate, its account.\<close>

definition with_method ::
    "payment_method \<Rightarrow> uuid option \<Rightarrow> int \<Rightarrow> payment_request \<Rightarrow> payment_request" where
  "with_method m bank amount r = r\<lparr>rqMethod := Some m, rqBank := bank, rqAmount := amount\<rparr>"

definition require_active_mandate :: "uuid \<Rightarrow> method_db \<Rightarrow> error + mandate_row" where
  "require_active_mandate ag s =
     (case find_active_mandate ag s of
        None \<Rightarrow> Inl (ValidationError ''ActiveMandateRequired'') | Some m \<Rightarrow> Inr m)"

definition assert_no_open_attempt :: "uuid \<Rightarrow> unit method_step" where
  "assert_no_open_attempt inst s =
     (if find_open_by_installment inst (mdDb s) \<noteq> None
      then (Inl (ConflictError ''OpenAttemptExists''), s) else (Inr (), s))"

definition ach_schedule_installment ::
    "pay_deps \<Rightarrow> env \<Rightarrow> uuid \<Rightarrow> uuid \<Rightarrow> payment_request \<Rightarrow> payment_row method_step" where
  "ach_schedule_installment D E ag inst r s =
     (case require_active_mandate ag s of
        Inl e \<Rightarrow> (Inl e, s)
      | Inr m \<Rightarrow> andThen (assert_no_open_attempt inst) (\<lambda>_.
          on_db (schedule_payment D E (with_method Ach (mnFinancial m) (rqAmount r)
            (r\<lparr>rqAgreement := Some ag, rqInstallment := Some inst\<rparr>)) PScheduled)) s)"

text \<open>\<open>finalGuard\<close> runs right before the provider call.\<close>

definition ach_create_manual ::
    "pay_deps \<Rightarrow> env \<Rightarrow> uuid \<Rightarrow> payment_request \<Rightarrow> (db, error, unit) step \<Rightarrow> payment_row method_step" where
  "ach_create_manual D E ag r finalGuard s =
     (case require_active_mandate ag s of
        Inl e \<Rightarrow> (Inl e, s)
      | Inr m \<Rightarrow> on_db (andThen (schedule_payment D E (with_method Ach (mnFinancial m) (rqAmount r)
            (r\<lparr>rqAgreement := Some ag\<rparr>)) PScheduled) (\<lambda>p.
          if paStatus p \<noteq> PScheduled then ret p
          else submit_pending D E (paId p) (rqActor r) None JNull finalGuard)) s)"

text \<open>The submission time of a scheduled payment, the same in both services.\<close>

definition submit_scheduled_payment :: "pay_deps \<Rightarrow> env \<Rightarrow> uuid \<Rightarrow> uuid \<Rightarrow> payment_row method_step" where
  "submit_scheduled_payment D E pay actor = on_db (submit_pending D E pay actor None JNull (ret ()))"

section \<open>Payments by card\<close>

definition require_unexpired_card :: "env \<Rightarrow> uuid \<Rightarrow> method_db \<Rightarrow> error + card_row" where
  "require_unexpired_card E ag s =
     (case find_active_card ag s of
        None \<Rightarrow> Inl (ValidationError ''ActiveCardRequired'')
      | Some c \<Rightarrow> if card_expired (cdMonth c) (cdYear c) (clock E)
          then Inl (ValidationError ''CardExpired'') else Inr c)"

definition card_schedule_installment ::
    "pay_deps \<Rightarrow> env \<Rightarrow> uuid \<Rightarrow> uuid \<Rightarrow> payment_request \<Rightarrow> (payment_row \<times> charge_breakdown) method_step" where
  "card_schedule_installment D E ag inst r =
     andThen (\<lambda>s. (require_unexpired_card E ag s, s)) (\<lambda>_.
     andThen (assert_no_open_attempt inst) (\<lambda>_.
     andThen (\<lambda>s. (compute_charge_breakdown ag (rqAmount r) s, s)) (\<lambda>charge.
     andThen (on_db (schedule_payment D E (with_method DebitCard None (cbTotal charge)
       (r\<lparr>rqAgreement := Some ag, rqInstallment := Some inst\<rparr>)) PScheduled)) (\<lambda>p. ret (p, charge)))))"

definition card_create_manual ::
    "pay_deps \<Rightarrow> env \<Rightarrow> uuid \<Rightarrow> payment_request \<Rightarrow> (db, error, unit) step \<Rightarrow>
     (payment_row \<times> charge_breakdown) method_step" where
  "card_create_manual D E ag r finalGuard =
     andThen (\<lambda>s. (require_unexpired_card E ag s, s)) (\<lambda>_.
     andThen (\<lambda>s. (compute_charge_breakdown ag (rqAmount r) s, s)) (\<lambda>charge.
     andThen (on_db (andThen (schedule_payment D E (with_method DebitCard None (cbTotal charge)
         (r\<lparr>rqAgreement := Some ag\<rparr>)) PScheduled) (\<lambda>p.
       if paStatus p \<noteq> PScheduled then ret p
       else submit_pending D E (paId p) (rqActor r) None JNull finalGuard)))
     (\<lambda>p. ret (p, charge))))"

section \<open>What a retry submits\<close>

record prepared_retry =
  prAmount :: int
  prCurrency :: string
  prMethod :: payment_method
  prBank :: "uuid option"

text \<open>\<open>prepareRetrySubmission\<close> of the service that carries the original payment's method.\<close>

definition prepare_retry ::
    "env \<Rightarrow> payment_method \<Rightarrow> uuid \<Rightarrow> int \<Rightarrow> string \<Rightarrow> method_db \<Rightarrow> error + prepared_retry" where
  "prepare_retry E method ag amount currency s =
     (case method of
        Ach \<Rightarrow> bindE (require_active_mandate ag s) (\<lambda>m.
          Inr \<lparr>prAmount = amount, prCurrency = currency, prMethod = Ach, prBank = mnFinancial m\<rparr>)
      | DebitCard \<Rightarrow> bindE (require_unexpired_card E ag s) (\<lambda>_.
          bindE (compute_charge_breakdown ag amount s) (\<lambda>charge.
          Inr \<lparr>prAmount = cbTotal charge, prCurrency = currency, prMethod = DebitCard, prBank = None\<rparr>))
      | ManualOffPlatform \<Rightarrow> Inl (ForeignError ''ManualPaymentNeverRetried''))"

section \<open>The card fee in exact arithmetic\<close>

lemma half_even_bounds:
  assumes "0 < b"
  shows "a div b \<le> half_even a b" and "2 * (half_even a b * b) \<le> 2 * a + b"
proof -
  define q r where "q = a div b" and "r = a mod b"
  have d: "a = q * b + r" and m: "0 \<le> r" "r < b" using assms by (simp_all add: q_def r_def)
  show "a div b \<le> half_even a b" by (simp add: half_even_def Let_def)
  show "2 * (half_even a b * b) \<le> 2 * a + b"
    unfolding half_even_def Let_def q_def [symmetric] r_def [symmetric]
    using m by (cases "2 * r < b \<or> 2 * r = b \<and> even q") (simp_all add: d algebra_simps)
qed

text \<open>
  The card fee is exact although it is computed in doubles: for every amount the column can
  hold, \<open>Math.round(amount * 0.029) + 30\<close> is 2.9 percent rounded half up plus the fixed 30, in whole
  cents; no binary rounding of the rate or of the product shows.
\<close>

theorem card_fee_exact:
  assumes "0 \<le> amount" and "int4_ok amount"
  shows "card_processor_fee amount = (29 * amount + 500) div 1000 + 30"
proof -
  define P where "P = amount * card_rate"
  define N where "N = (29 * amount + 500) div 1000"
  have a: "0 \<le> amount" "amount \<le> 2147483647" using assms by (simp_all add: int4_ok_def)
  have N: "1000 * N \<le> 29 * amount + 500" "29 * amount + 500 < 1000 * N + 1000" unfolding N_def by simp_all
  have P: "1000 * P = 29 * 2 ^ 58 * amount + 424 * amount" by (simp add: P_def card_rate_def)
  have low: "2 ^ 57 * (2 * N - 1) \<le> P" using P N(1) a(1) by simp
  have up: "2 * P + 2 ^ 31 + 2 ^ 58 < 2 ^ 59 * (N + 1)" using P N(2) a(2) by simp
  have "2 ^ 57 * (2 * N - 1) \<le> js_int P \<and> 2 * js_int P \<le> 2 * P + 2 ^ 31"
  proof (cases "\<bar>P\<bar> \<le> 9007199254740992")
    case True
    then show ?thesis using low by (simp add: js_int_def)
  next
    case False
    define k where "k = nat (bitlen \<bar>P\<bar> - 53)"
    have "\<bar>P\<bar> < 2 ^ 84" using a by (simp add: P_def card_rate_def)
    then have "bitlen \<bar>P\<bar> \<le> 84" by (simp add: bitlen_le_iff_power)
    then have k: "k \<le> 31" by (simp add: k_def)
    have js: "js_int P = half_even P (2 ^ k) * 2 ^ k" using False by (simp add: js_int_def k_def Let_def)
    have "(2::int) ^ 57 = 2 ^ (57 - k) * 2 ^ k" using k by (simp add: power_add [symmetric])
    then have "2 ^ (57 - k) * (2 * N - 1) * 2 ^ k \<le> P" using low by (simp add: algebra_simps)
    then have "2 ^ (57 - k) * (2 * N - 1) \<le> P div 2 ^ k" using zdiv_mono1 [of "2 ^ (57 - k) * (2 * N - 1) * 2 ^ k" P "2 ^ k"] by simp
    then have "2 ^ (57 - k) * (2 * N - 1) \<le> half_even P (2 ^ k)"
      using half_even_bounds(1) [of "2 ^ k" P] by simp
    then have "2 ^ (57 - k) * (2 * N - 1) * 2 ^ k \<le> js_int P" unfolding js by simp
    moreover have "2 * js_int P \<le> 2 * P + 2 ^ k" unfolding js by (rule half_even_bounds) simp
    moreover have "(2::int) ^ k \<le> 2 ^ 31" using k by (rule power_increasing) simp
    ultimately show ?thesis using \<open>(2::int) ^ 57 = 2 ^ (57 - k) * 2 ^ k\<close> by (simp add: algebra_simps)
  qed
  then have "2 ^ 59 * N \<le> 2 * js_int P + 2 ^ 58" "2 * js_int P + 2 ^ 58 < 2 ^ 59 * (N + 1)"
    using up by simp_all
  then have "(2 * js_int P + 2 ^ 58) div 2 ^ 59 = N"
    by (intro int_div_pos_eq [of _ _ N "2 * js_int P + 2 ^ 58 - 2 ^ 59 * N"]) simp_all
  moreover have "safe_int (N + 30)" using N a by (simp add: safe_int_def max_safe_def)
  ultimately show ?thesis by (simp add: card_processor_fee_def P_def N_def js_add_def)
qed

theorem card_fee_exact_witness: "card_processor_fee 500 = 45 \<and> card_processor_fee 10000 = 320"
  using card_fee_exact [of 500] card_fee_exact [of 10000] by (simp add: int4_ok_def)

text \<open>The surcharge leaves the creditor what a mandate payment would have left.\<close>

lemma surcharge_keeps_creditor_net:
  assumes "0 < amount" and "amount \<le> 2000000000" and "fa \<noteq> CreditorPays"
  shows "cleared_legs (amount + borrower_surcharge fa ach_fee (card_processor_fee amount))
      (card_processor_fee amount) 0 =
    [(ProcessorClearing, Debit, amount + card_processor_fee amount),
     (CreditorProceedsPayable, Credit, amount), (ProcessorFeeExpense, Credit, card_processor_fee amount)]"
proof -
  have f: "card_processor_fee amount = (29 * amount + 500) div 1000 + 30"
    using assms by (intro card_fee_exact) (simp_all add: int4_ok_def)
  then have "30 \<le> card_processor_fee amount" "card_processor_fee amount \<le> 2147483647"
    using assms by simp_all
  then show ?thesis using assms
    by (simp add: borrower_surcharge_def ach_fee_def js_sub_def js_int_def cleared_legs_def)
qed

text \<open>A retry takes the amount of the failed charge, surcharge included, for the amount that was
  scheduled, and adds the surcharge again.\<close>

lemma retry_is_surcharged_again:
  assumes "require_unexpired_card E ag s = Inr c" and "get_fee_allocation ag s = Some fa"
    and "fa \<noteq> CreditorPays" and "0 < charged" and "charged \<le> 2000000000"
    and "prepare_retry E DebitCard ag charged cur s = Inr p"
  shows "prAmount p = charged + card_processor_fee charged \<and> charged < prAmount p"
proof -
  have f: "card_processor_fee charged = (29 * charged + 500) div 1000 + 30"
    using assms by (intro card_fee_exact) (simp_all add: int4_ok_def)
  then have b: "30 \<le> card_processor_fee charged" "card_processor_fee charged \<le> 2147483647"
    using assms(4,5) by simp_all
  then have "js_add charged (borrower_surcharge fa ach_fee (card_processor_fee charged)) =
      charged + card_processor_fee charged"
    using assms(3-5) by (simp add: borrower_surcharge_def ach_fee_def js_sub_def js_add_def js_int_def)
  then show ?thesis using assms b(1)
    by (auto simp: prepare_retry_def compute_charge_breakdown_def Let_def)
qed

section \<open>One active method per agreement\<close>

text \<open>Rows of a table that is keyed by \<open>key\<close>, of which \<open>act\<close> ones are in force.\<close>

definition one_active :: "('r \<Rightarrow> 'k) \<Rightarrow> ('r \<Rightarrow> bool) \<Rightarrow> 'r list \<Rightarrow> bool" where
  "one_active key act rows \<longleftrightarrow> (\<forall>k. length (filter (\<lambda>r. key r = k \<and> act r) rows) \<le> 1)"

lemma one_active_append:
  assumes "one_active key act rows" and "find (\<lambda>r. key r = key x \<and> act r) rows = None"
  shows "one_active key act (rows @ [x])"
proof -
  have "filter (\<lambda>r. key r = key x \<and> act r) rows = []"
    using assms(2) by (auto simp: find_None_iff filter_empty_conv)
  then show ?thesis using assms(1) by (auto simp: one_active_def)
qed

lemma filter_retired_length:
  assumes "\<And>r. \<not> act (f r)"
  shows "length (filter (\<lambda>r. key r = k \<and> act r) (update_by i_of i f rows)) \<le>
    length (filter (\<lambda>r. key r = k \<and> act r) rows)"
  using assms by (induction rows) auto

lemma one_active_retire:
  assumes "one_active key act rows" and "\<And>r. \<not> act (f r)"
  shows "one_active key act (update_by i_of i f rows)"
  using assms(1) filter_retired_length [of act f key _ i_of i rows, OF assms(2)]
  unfolding one_active_def by (meson le_trans)

text \<open>Retiring the one row in force leaves none.\<close>

lemma retire_found:
  assumes "one_active key act rows" and "find (\<lambda>r. key r = k \<and> act r) rows = Some x"
    and "\<And>r. \<not> act (f r)"
  shows "find (\<lambda>r. key r = k \<and> act r) (update_by i_of (i_of x) f rows) = None"
proof -
  let ?P = "\<lambda>r. key r = k \<and> act r"
  have "\<not> ?P r" if r: "r \<in> set (update_by i_of (i_of x) f rows)" for r
  proof (cases "r \<in> set rows")
    case True
    have x: "x \<in> set rows" "?P x" using assms(2) by (auto simp: find_Some_iff)
    have "length (filter ?P rows) \<le> 1" using assms(1) by (simp add: one_active_def)
    then have "\<And>a b. a \<in> set (filter ?P rows) \<Longrightarrow> b \<in> set (filter ?P rows) \<Longrightarrow> a = b"
      by (cases "filter ?P rows") auto
    then have "?P r \<Longrightarrow> r = x" using x True by auto
    moreover have "?P x \<Longrightarrow> r = x \<Longrightarrow> False"
      using r assms(3) by (auto simp: update_by_def split: if_splits)
    ultimately show ?thesis using x(2) by blast
  next
    case False
    then show ?thesis using set_update_by [OF r] assms(3) by auto
  qed
  then show ?thesis by (simp add: find_None_iff)
qed

definition active_mandate :: "mandate_row \<Rightarrow> bool" where
  "active_mandate m \<longleftrightarrow> mnStatus m = MandateActive"

definition active_card :: "card_row \<Rightarrow> bool" where
  "active_card c \<longleftrightarrow> cdStatus c = CardActive"

text \<open>Every method in force was given by the debtor of its agreement.\<close>

definition methods_ok :: "method_db \<Rightarrow> bool" where
  "methods_ok s \<longleftrightarrow> one_active mnAgreement active_mandate (mdMandates s) \<and>
     one_active cdAgreement active_card (mdCards s) \<and>
     list_all (\<lambda>m. map_option agDebtor (find_agreement (mnAgreement m) (mdDb s)) = Some (mnPayer m)) (mdMandates s) \<and>
     list_all (\<lambda>c. map_option agDebtor (find_agreement (cdAgreement c) (mdDb s)) = Some (cdPayer c)) (mdCards s)"

datatype method_op =
    AuthorizeMandate uuid profile_ref string uuid
  | RevokeMandate uuid uuid string
  | ChangeBank uuid profile_ref string uuid
  | RegisterCard uuid profile_ref card_input uuid
  | ReplaceCard uuid profile_ref card_input string uuid

fun run_method_op :: "pay_deps \<Rightarrow> env \<times> method_op \<Rightarrow> method_db \<Rightarrow> method_db" where
  "run_method_op D (E, AuthorizeMandate ag payer ref actor) s = snd (authorize_mandate D E ag payer ref actor s)"
| "run_method_op D (E, RevokeMandate i actor why) s = snd (revoke_mandate D E i actor why s)"
| "run_method_op D (E, ChangeBank ag payer ref actor) s = snd (handle_bank_change D E ag payer ref actor s)"
| "run_method_op D (E, RegisterCard ag payer k actor) s = snd (register_card D E ag payer k actor s)"
| "run_method_op D (E, ReplaceCard ag payer k why actor) s = snd (replace_card D E ag payer k why actor s)"

definition run_method_ops :: "pay_deps \<Rightarrow> (env \<times> method_op) list \<Rightarrow> method_db \<Rightarrow> method_db" where
  "run_method_ops D ops s = fold (run_method_op D) ops s"

lemma methods_ok_cong:
  assumes "agreements (mdDb s') = agreements (mdDb s)" and "mdMandates s' = mdMandates s"
    and "mdCards s' = mdCards s"
  shows "methods_ok s' = methods_ok s"
  using assms by (simp add: methods_ok_def)

lemma mandate_audit_ok: "methods_ok (snd (mandate_audit E m act actor why s)) = methods_ok s"
  by (rule methods_ok_cong) (simp_all add: mandate_audit_def)

lemma card_audit_ok: "methods_ok (snd (card_audit E c act actor why s)) = methods_ok s"
  by (rule methods_ok_cong) (simp_all add: card_audit_def)

lemma find_active_mandate_alt:
  "find_active_mandate ag s = find (\<lambda>m. mnAgreement m = ag \<and> active_mandate m) (mdMandates s)"
  by (simp add: find_active_mandate_def active_mandate_def)

lemma find_active_card_alt:
  "find_active_card ag s = find (\<lambda>c. cdAgreement c = ag \<and> active_card c) (mdCards s)"
  by (simp add: find_active_card_def active_card_def)

lemma insert_mandate_ok:
  assumes "methods_ok s" and "find_active_mandate ag s = None"
    and "map_option agDebtor (find_agreement ag (mdDb s)) = Some payer"
  shows "methods_ok (snd (insert_mandate E ag payer ref old s))"
  using assms one_active_append [of mnAgreement active_mandate "mdMandates s"]
  by (simp add: insert_mandate_def Let_def methods_ok_def find_active_mandate_alt)

lemma insert_card_ok:
  assumes "methods_ok s" and "find_active_card ag s = None"
    and "map_option agDebtor (find_agreement ag (mdDb s)) = Some payer"
  shows "methods_ok (snd (insert_card E ag payer k old s))"
  using assms one_active_append [of cdAgreement active_card "mdCards s"]
  by (simp add: insert_card_def Let_def methods_ok_def find_active_card_alt)

lemma revoked_inactive: "\<not> active_mandate (revoked_mandate E why m)"
  by (simp add: active_mandate_def revoked_mandate_def)

lemma replaced_inactive: "\<not> active_card (replaced_card E why c)"
  by (simp add: active_card_def replaced_card_def)

lemma mark_revoked_ok:
  assumes "methods_ok s"
  shows "methods_ok (snd (mark_revoked E i why s))"
proof -
  have "list_all (\<lambda>m. map_option agDebtor (find_agreement (mnAgreement m) (mdDb s)) = Some (mnPayer m))
      (update_by mnId i (revoked_mandate E why) (mdMandates s))"
    by (rule list_all_update_by) (use assms in \<open>auto simp: methods_ok_def revoked_mandate_def\<close>)
  then show ?thesis
    using assms one_active_retire [of mnAgreement active_mandate "mdMandates s" "revoked_mandate E why" mnId i] revoked_inactive
    by (simp add: mark_revoked_def methods_ok_def split: option.split)
qed

lemma mark_replaced_ok:
  assumes "methods_ok s"
  shows "methods_ok (snd (mark_replaced E i why s))"
proof -
  have "list_all (\<lambda>c. map_option agDebtor (find_agreement (cdAgreement c) (mdDb s)) = Some (cdPayer c))
      (update_by cdId i (replaced_card E why) (mdCards s))"
    by (rule list_all_update_by) (use assms in \<open>auto simp: methods_ok_def replaced_card_def\<close>)
  then show ?thesis
    using assms one_active_retire [of cdAgreement active_card "mdCards s" "replaced_card E why" cdId i] replaced_inactive
    by (simp add: mark_replaced_def methods_ok_def split: option.split)
qed

text \<open>Retiring the method in force makes room for the next one.\<close>

lemma mark_revoked_frees:
  assumes "methods_ok s" and "find_active_mandate ag s = Some m"
    and "mark_revoked E (mnId m) why s = (r, s')"
  shows "find_active_mandate ag s' = None \<and> agreements (mdDb s') = agreements (mdDb s)"
proof -
  have "m \<in> set (mdMandates s)" using assms(2) by (auto simp: find_active_mandate_def find_Some_iff)
  then have "find_mandate (mnId m) s \<noteq> None" unfolding find_mandate_def lookup_by_None_iff by simp
  then have "s' = s\<lparr>mdMandates := update_by mnId (mnId m) (revoked_mandate E why) (mdMandates s)\<rparr>"
    using assms(3) by (auto simp: mark_revoked_def split: option.splits)
  then show ?thesis
    using retire_found [OF _ assms(2) [unfolded find_active_mandate_alt], of "revoked_mandate E why" mnId]
      revoked_inactive assms(1)
    by (simp add: find_active_mandate_alt methods_ok_def)
qed

lemma mark_replaced_frees:
  assumes "methods_ok s" and "find_active_card ag s = Some c"
    and "mark_replaced E (cdId c) why s = (r, s')"
  shows "find_active_card ag s' = None \<and> agreements (mdDb s') = agreements (mdDb s)"
proof -
  have "c \<in> set (mdCards s)" using assms(2) by (auto simp: find_active_card_def find_Some_iff)
  then have "lookup_by cdId (cdId c) (mdCards s) \<noteq> None" unfolding lookup_by_None_iff by simp
  then have "s' = s\<lparr>mdCards := update_by cdId (cdId c) (replaced_card E why) (mdCards s)\<rparr>"
    using assms(3) by (auto simp: mark_replaced_def split: option.splits)
  then show ?thesis
    using retire_found [OF _ assms(2) [unfolded find_active_card_alt], of "replaced_card E why" cdId]
      replaced_inactive assms(1)
    by (simp add: find_active_card_alt methods_ok_def)
qed

lemma insert_mandate_then_audit:
  assumes "methods_ok s" and "find_active_mandate ag s = None"
    and "map_option agDebtor (find_agreement ag (mdDb s)) = Some payer"
  shows "methods_ok (snd (andThen (insert_mandate E ag payer ref old) (\<lambda>m.
    andThen (mandate_audit E m act actor why) (\<lambda>_. ret m)) s))"
  using insert_mandate_ok [OF assms, of E ref old] mandate_audit_ok
  by (auto simp: andThen_def split: prod.splits sum.splits) (metis snd_conv)+

lemma insert_card_then_audit:
  assumes "methods_ok s" and "find_active_card ag s = None"
    and "map_option agDebtor (find_agreement ag (mdDb s)) = Some payer"
  shows "methods_ok (snd (andThen (insert_card E ag payer k old) (\<lambda>c.
    andThen (card_audit E c act actor why) (\<lambda>_. ret c)) s))"
  using insert_card_ok [OF assms, of E k old] card_audit_ok
  by (auto simp: andThen_def split: prod.splits sum.splits) (metis snd_conv)+

lemma guarded_ok:
  assumes "methods_ok s" and "\<And>a. find_agreement ag (mdDb s) = Some a \<Longrightarrow> agDebtor a = payer \<Longrightarrow> methods_ok (snd (m s))"
  shows "methods_ok (snd (require_owner D payer actor (require_debtor ag payer m) s))"
  using assms by (auto simp: require_owner_def require_debtor_def split: option.split)

lemma authorize_ok: "methods_ok s \<Longrightarrow> methods_ok (snd (authorize_mandate D E ag payer ref actor s))"
  unfolding authorize_mandate_def by (rule guarded_ok) (auto intro: insert_mandate_then_audit)

lemma revoke_ok:
  assumes "methods_ok s"
  shows "methods_ok (snd (revoke_mandate D E i actor why s))"
proof -
  have "methods_ok (snd (andThen (mark_revoked E j why) (\<lambda>u.
      andThen (mandate_audit E u act actor w) (\<lambda>_. ret u)) s))" for j act w
    using mark_revoked_ok [OF assms, of E j why] mandate_audit_ok
    by (auto simp: andThen_def split: prod.splits sum.splits) (metis snd_conv)+
  then show ?thesis using assms
    by (simp add: revoke_mandate_def require_owner_def split: option.split)
qed

lemma bank_change_ok:
  assumes "methods_ok s"
  shows "methods_ok (snd (handle_bank_change D E ag payer ref actor s))"
  unfolding handle_bank_change_def
proof (rule guarded_ok [OF assms])
  fix a
  assume a: "find_agreement ag (mdDb s) = Some a" "agDebtor a = payer"
  let ?rest = "\<lambda>old. andThen (insert_mandate E ag payer ref old) (\<lambda>m.
      andThen (mandate_audit E m ''ach_mandate_authorized'' actor (Some ''Re-authorized after bank change.'')) (\<lambda>_. ret m))"
  show "methods_ok (snd (andThen (case find_active_mandate ag s of
           None \<Rightarrow> ret ()
         | Some m \<Rightarrow> andThen (mark_revoked E (mnId m) ''Bank account changed.'') (\<lambda>_.
             mandate_audit E m ''ach_mandate_superseded'' actor (Some ''Bank account changed.'')))
         (\<lambda>_. ?rest (map_option mnId (find_active_mandate ag s))) s))"
  proof (cases "find_active_mandate ag s")
    case None
    then show ?thesis using insert_mandate_then_audit [OF assms None] a by (simp add: andThen_def)
  next
    case (Some m)
    obtain r s1 where 1: "mark_revoked E (mnId m) ''Bank account changed.'' s = (r, s1)" by fastforce
    have "methods_ok s1" using mark_revoked_ok [OF assms] 1 by (metis snd_conv)
    moreover have f: "find_active_mandate ag s1 = None" "agreements (mdDb s1) = agreements (mdDb s)"
      using mark_revoked_frees [OF assms Some 1] by blast+
    moreover define s2 where "s2 = snd (mandate_audit E m ''ach_mandate_superseded'' actor
      (Some ''Bank account changed.'') s1)"
    ultimately have "methods_ok s2" "find_active_mandate ag s2 = None"
      "find_agreement ag (mdDb s2) = find_agreement ag (mdDb s)"
      using mandate_audit_ok by (auto simp: mandate_audit_def find_active_mandate_def)
    then have "methods_ok (snd (?rest (Some (mnId m)) s2))"
      using insert_mandate_then_audit [of s2 ag payer] a by simp
    then show ?thesis using Some 1 \<open>methods_ok s1\<close>
      by (cases r) (simp_all add: s2_def andThen_def mandate_audit_def)
  qed
qed

lemma register_ok: "methods_ok s \<Longrightarrow> methods_ok (snd (register_card D E ag payer k actor s))"
  unfolding register_card_def
  by (rule guarded_ok) (auto intro: insert_card_then_audit split: option.split)

lemma replace_ok:
  assumes "methods_ok s"
  shows "methods_ok (snd (replace_card D E ag payer k why actor s))"
  unfolding replace_card_def
proof (rule guarded_ok [OF assms])
  fix a
  assume a: "find_agreement ag (mdDb s) = Some a" "agDebtor a = payer"
  let ?rest = "\<lambda>old. andThen (insert_card E ag payer k old) (\<lambda>c.
      andThen (card_audit E c ''debit_card_method_registered'' actor
        (Some ''Replaced an expiring or compromised card.'')) (\<lambda>_. ret c))"
  have "methods_ok (snd (andThen (mark_replaced E (cdId old) why) (\<lambda>_.
      andThen (card_audit E old ''debit_card_method_superseded'' actor (Some why)) (\<lambda>_.
        ?rest (Some (cdId old)))) s))" if Some: "find_active_card ag s = Some old" for old
  proof -
    obtain r s1 where 1: "mark_replaced E (cdId old) why s = (r, s1)" by fastforce
    have "methods_ok s1" using mark_replaced_ok [OF assms] 1 by (metis snd_conv)
    moreover have f: "find_active_card ag s1 = None" "agreements (mdDb s1) = agreements (mdDb s)"
      using mark_replaced_frees [OF assms Some 1] by blast+
    moreover define s2 where "s2 = snd (card_audit E old ''debit_card_method_superseded'' actor (Some why) s1)"
    ultimately have "methods_ok s2" "find_active_card ag s2 = None"
      "find_agreement ag (mdDb s2) = find_agreement ag (mdDb s)"
      using card_audit_ok by (auto simp: card_audit_def find_active_card_def)
    then have "methods_ok (snd (?rest (Some (cdId old)) s2))"
      using insert_card_then_audit [of s2 ag payer] a by simp
    then show ?thesis using 1 \<open>methods_ok s1\<close>
      by (cases r) (simp_all add: s2_def andThen_def card_audit_def)
  qed
  then show "methods_ok (snd ((case require_valid_expiry E (kiMonth k) (kiYear k) of
         Some e \<Rightarrow> (Inl e, s)
       | None \<Rightarrow>
      (case find_active_card ag s of
         None \<Rightarrow> (Inl (ValidationError ''NoActiveCard''), s)
       | Some old \<Rightarrow>
           andThen (mark_replaced E (cdId old) why) (\<lambda>_.
           andThen (card_audit E old ''debit_card_method_superseded'' actor (Some why)) (\<lambda>_.
           ?rest (Some (cdId old)))) s))))"
    using assms by (simp split: option.split)
qed

lemma method_op_ok: "methods_ok s \<Longrightarrow> methods_ok (run_method_op D eop s)"
  by (cases "(D, eop, s)" rule: run_method_op.cases)
    (simp_all add: authorize_ok revoke_ok bank_change_ok register_ok replace_ok)

text \<open>
  An agreement is never charged through two methods of a kind, or by somebody else's: whatever
  mandates are authorized, revoked and moved to another bank and whatever cards are registered and
  replaced, by whom and when, every agreement has at most one active mandate and at most one active
  card, and each mandate and card on file was given by the debtor of its agreement.
\<close>

theorem one_method_per_agreement:
  assumes "methods_ok s"
  shows "methods_ok (run_method_ops D ops s)"
proof -
  have "methods_ok (fold (run_method_op D) ops s)"
    using assms by (induction ops arbitrary: s) (simp_all add: method_op_ok)
  then show ?thesis by (simp add: run_method_ops_def)
qed

definition sample_pay_deps :: pay_deps where
  "sample_pay_deps = \<lparr>ownerOf = (\<lambda>p. Some (snd p)), fullyVerified = (\<lambda>_. True),
     settlementAwaiting = (\<lambda>_ _ _. False), initiationEnabled = True, maxPaymentEnv = None,
     reviewThresholdEnv = None, dailyAmountEnv = None, dailyCountEnv = None,
     providerName = ''sandbox'', providerCreate = (\<lambda>p. Inr (PPending, ''p9'')),
     providerCancel = (\<lambda>_. Inr True), providerRefund = (\<lambda>_. None), installmentHook = (\<lambda>_. ret ())\<rparr>"

definition sample_method_db :: method_db where
  "sample_method_db = \<lparr>mdDb = empty_db\<lparr>agreements := [sample_agreement Active], versions := [sample_version]\<rparr>,
     mdMandates = [],
     mdCards = []\<rparr>"

theorem one_method_per_agreement_witness:
  "length (filter (\<lambda>m. mnAgreement m = 1 \<and> active_mandate m)
     (mdMandates (run_method_ops sample_pay_deps
       [(toy_env, AuthorizeMandate 1 (PersonalProfile, 101) ''bank-a'' 101),
        (toy_env, AuthorizeMandate 1 (PersonalProfile, 101) ''bank-b'' 101),
        (toy_env, ChangeBank 1 (PersonalProfile, 101) ''bank-c'' 101)] sample_method_db))) \<le> 1"
proof -
  have "methods_ok sample_method_db"
    by (simp add: methods_ok_def one_active_def sample_method_db_def)
  from one_method_per_agreement [OF this] show ?thesis
    unfolding methods_ok_def one_active_def by blast
qed

end
