(* ===== verification/RetryExecution.thy ===== *)
theory RetryExecution
  imports PaymentMethods
begin

text \<open>
  How a due retry reaches the provider (\<open>failedPayments/failedPaymentRetryCoordinator.ts\<close>,
  \<open>paymentRetryService.ts\<close>): the durable dispatch intent, the provider call under the installment
  lock, the resolution of ambiguous outcomes, and the scheduled job. The provider is a parameter that
  answers each call; what it was asked to charge is kept in a log beside the database. A
  transaction that holds the installment lock is one step; the test hooks are left out.
\<close>

section \<open>The provider and what it was asked\<close>

record charge =
  chKey :: string
  chAmount :: int
  chCurrency :: string
  chPayer :: profile_ref
  chRecipient :: profile_ref

text \<open>A charge is accepted under a payment id (pending or already decided), may or may not have
  arrived, or is refused with a message.\<close>

datatype create_outcome = Accepted string bool | AmbiguousResponse | CreateRefused string

record found_payment =
  fpId :: string
  fpStatus :: payment_status
  fpAmount :: int
  fpCurrency :: string
  fpFee :: int

record gateway =
  gwName :: string
  gwCreate :: "charge \<Rightarrow> create_outcome"
  gwLookup :: "string \<Rightarrow> error + found_payment option"

record fire_state =
  fsDb :: db
  fsCharges :: "charge list"

type_synonym 'a fire_step = "(fire_state, error, 'a) step"

definition in_db :: "(db, error, 'a) step \<Rightarrow> 'a fire_step" where
  "in_db m s = (case m (fsDb s) of (r, d) \<Rightarrow> (r, s\<lparr>fsDb := d\<rparr>))"

definition charge_of :: "payment_row \<Rightarrow> charge" where
  "charge_of p = \<lparr>chKey = paKey p, chAmount = paAmount p, chCurrency = paCurrency p,
     chPayer = paPayer p, chRecipient = paRecipient p\<rparr>"

section \<open>What is still owed\<close>

definition remaining_balance_tx :: "uuid \<Rightarrow> db \<Rightarrow> int option" where
  "remaining_balance_tx ag s =
     (case Option.bind (find_agreement ag s) agCurrentVersion of
        None \<Rightarrow> None
      | Some v \<Rightarrow> map_option (\<lambda>ver. js_sub (avPrincipal ver)
          (fst (reconstruct_paid_and_reversed (list_for_agreement ag s)))) (find_version v s))"

definition ceiling_error :: "uuid \<Rightarrow> int \<Rightarrow> db \<Rightarrow> error option" where
  "ceiling_error inst amount s =
     (case installment_settlement_tx inst s of
        None \<Rightarrow> None
      | Some (snap, _, _) \<Rightarrow>
          if ssRemaining snap < amount then Some (ValidationError ''InstallmentOverpayment'') else None)"

section \<open>The retry row\<close>

definition claimed_retry :: "uuid \<Rightarrow> retry_row \<Rightarrow> retry_row" where
  "claimed_retry token r = r\<lparr>rtStatus := RtClaimed, rtToken := Some token\<rparr>"

text \<open>\<open>claimRetryForExecution\<close>\<close>

datatype claim_result = ClaimedWith uuid | NotClaimed

definition claim_retry_for_execution :: "uuid \<Rightarrow> uuid \<Rightarrow> (db, error, claim_result) step" where
  "claim_retry_for_execution inst i s =
     (if satisfied_now inst s then (Inr NotClaimed, s)
      else case find_retry i s of
        None \<Rightarrow> (Inr NotClaimed, s)
      | Some r \<Rightarrow>
          (if rtStatus r \<noteq> RtScheduled then (Inr NotClaimed, s)
           else (Inr (ClaimedWith (nextId s)),
                 (set_retry i (claimed_retry (nextId s)) s)\<lparr>nextId := Suc (nextId s)\<rparr>)))"

definition confirm_execution_still_valid :: "uuid \<Rightarrow> uuid \<Rightarrow> db \<Rightarrow> bool" where
  "confirm_execution_still_valid i token s =
     (case find_retry i s of None \<Rightarrow> False | Some r \<Rightarrow> rtStatus r = RtClaimed \<and> rtToken r = Some token)"

text \<open>Fenced by token and status.\<close>

definition mark_retry_fired :: "uuid \<Rightarrow> uuid \<Rightarrow> uuid \<Rightarrow> msec \<Rightarrow> db \<Rightarrow> db" where
  "mark_retry_fired i token pay t = set_retry i (\<lambda>r.
     if rtToken r = Some token \<and> rtStatus r = RtClaimed
     then r\<lparr>rtStatus := RtFired, rtResulting := Some pay, rtFiredAt := Some t\<rparr> else r)"

definition mark_retry_execution_failed :: "env \<Rightarrow> uuid \<Rightarrow> uuid \<Rightarrow> string \<Rightarrow> db \<Rightarrow> db" where
  "mark_retry_execution_failed E i token why = set_retry i (\<lambda>r.
     if rtToken r = Some token \<and> rtStatus r = RtClaimed then canceled_by E why r else r)"

definition mark_retry_fired_if_claimed :: "env \<Rightarrow> uuid \<Rightarrow> db \<Rightarrow> db" where
  "mark_retry_fired_if_claimed E i s =
     (case Option.bind (find_retry i s) rtToken of
        None \<Rightarrow> s
      | Some token \<Rightarrow> set_retry i (\<lambda>r. if rtToken r = Some token \<and> rtStatus r = RtClaimed
          then r\<lparr>rtStatus := RtFired, rtFiredAt := Some (clock E)\<rparr> else r) s)"

text \<open>The repository's own writes.\<close>

definition mark_canceled :: "env \<Rightarrow> uuid \<Rightarrow> string \<Rightarrow> db \<Rightarrow> bool \<times> db" where
  "mark_canceled E i why s =
     (case find_retry i s of
        None \<Rightarrow> (False, s)
      | Some r \<Rightarrow> if rtStatus r = RtScheduled then (True, set_retry i (canceled_by E why) s) else (False, s))"

definition mark_resolution_deferred :: "uuid \<Rightarrow> msec \<Rightarrow> db \<Rightarrow> db" where
  "mark_resolution_deferred i t = set_retry i (\<lambda>r. r\<lparr>rtNextResolution := Some t\<rparr>)"

definition find_due_for_firing :: "msec \<Rightarrow> nat \<Rightarrow> db \<Rightarrow> retry_row list" where
  "find_due_for_firing now n s =
     take n (sort_key rtScheduledFor (sort_key rtId
       (filter (\<lambda>r. rtStatus r = RtScheduled \<and> rtScheduledFor r \<le> now) (retries s))))"

definition resolution_due :: "msec \<Rightarrow> retry_row \<Rightarrow> bool" where
  "resolution_due now r = (case rtNextResolution r of None \<Rightarrow> True | Some t \<Rightarrow> t \<le> now)"

text \<open>\<open>ORDER BY next_resolution_attempt_at NULLS FIRST, id\<close>\<close>

definition nulls_first :: "retry_row list \<Rightarrow> retry_row list" where
  "nulls_first rs = filter (\<lambda>r. rtNextResolution r = None) rs @
     sort_key (\<lambda>r. case rtNextResolution r of None \<Rightarrow> 0 | Some t \<Rightarrow> t)
       (filter (\<lambda>r. rtNextResolution r \<noteq> None) rs)"

definition find_claimed_for_resumption :: "msec \<Rightarrow> nat \<Rightarrow> db \<Rightarrow> retry_row list" where
  "find_claimed_for_resumption now n s =
     take n (nulls_first (sort_key rtId
       (filter (\<lambda>r. rtStatus r = RtClaimed \<and> resolution_due now r) (retries s))))"

section \<open>Phase A: the durable dispatch intent\<close>

datatype intent = NotClaimable | Ready uuid | AlreadyDispatched uuid

definition retry_pending ::
    "string \<Rightarrow> uuid \<Rightarrow> uuid \<Rightarrow> string \<Rightarrow> prepared_retry \<Rightarrow> profile_ref \<Rightarrow> profile_ref \<Rightarrow> pending_input" where
  "retry_pending key ag inst provider pr payer recipient =
     \<lparr>piKey = key, piPayer = payer, piRecipient = recipient, piAmount = prAmount pr,
      piCurrency = prCurrency pr, piAgreement = Some ag, piProvider = provider,
      piInstallment = Some inst, piInitial = Some PSubmitted, piMethod = Some (prMethod pr),
      piRecordedBy = None, piBank = prBank pr, piSettlement = None\<rparr>"

text \<open>\<open>establishDurableDispatchIntent\<close>: the claim, the attempt row and the link between them.\<close>

definition intent_transaction ::
    "env \<Rightarrow> uuid \<Rightarrow> uuid \<Rightarrow> pending_input \<Rightarrow> uuid \<Rightarrow> (db, error, intent) step" where
  "intent_transaction E inst i inp ag s =
     (if find_agreement ag s = None \<or> satisfied_now inst s \<or> assert_installment_belongs inst ag s \<noteq> None
      then (Inr NotClaimable, s)
      else case find_by_idempotency_key (piKey inp) s of
        Some p \<Rightarrow> (Inr (AlreadyDispatched (paId p)), s)
      | None \<Rightarrow>
     (if assert_no_competing_attempt inst (piKey inp) (map_option rtOriginal (find_retry i s)) s \<noteq> None
      then (Inr NotClaimable, s)
      else case find_retry i s of
        None \<Rightarrow> (Inr NotClaimable, s)
      | Some r \<Rightarrow>
     (if rtStatus r \<noteq> RtScheduled then (Inr NotClaimable, s)
      else andThen (update (\<lambda>s. (set_retry i (claimed_retry (nextId s)) s)\<lparr>nextId := Suc (nextId s)\<rparr>)) (\<lambda>_.
        andThen (insert_pending E inp) (\<lambda>p.
        andThen (update (set_retry i (\<lambda>r. r\<lparr>rtResulting := Some (paId p)\<rparr>))) (\<lambda>_.
        ret (Ready (paId p))))) s)))"

definition establish_durable_dispatch_intent ::
    "env \<Rightarrow> uuid \<Rightarrow> uuid \<Rightarrow> pending_input \<Rightarrow> uuid \<Rightarrow> (db, error, intent) step" where
  "establish_durable_dispatch_intent E inst i inp ag = atomically (intent_transaction E inst i inp ag)"

section \<open>Phase B: the provider call\<close>

datatype dispatch =
    DispatchNotClaimable | DispatchFailed string | DispatchAmbiguous
  | DispatchResolved payment_row | Dispatched payment_row

text \<open>Attempt failed and retry canceled, together.\<close>

definition close_attempt :: "env \<Rightarrow> uuid \<Rightarrow> uuid \<Rightarrow> string \<Rightarrow> string \<Rightarrow> db \<Rightarrow> db" where
  "close_attempt E pay i failure why s =
     set_retry i (canceled_by E why)
       (set_payment pay (\<lambda>p. p\<lparr>paStatus := PFailed, paFailureReason := Some failure\<rparr>) s)"

text \<open>The call and what is kept of its answer; the unique index on the provider's id may refuse it.\<close>

definition call_provider :: "gateway \<Rightarrow> env \<Rightarrow> uuid \<Rightarrow> payment_row \<Rightarrow> dispatch fire_step" where
  "call_provider G E i p s =
     (let s1 = s\<lparr>fsCharges := fsCharges s @ [charge_of p]\<rparr>
      in case gwCreate G (charge_of p) of
           AmbiguousResponse \<Rightarrow> (Inr DispatchAmbiguous, s1)
         | CreateRefused why \<Rightarrow>
             (Inr (DispatchFailed why),
              s1\<lparr>fsDb := close_attempt E (paId p) i why (''Firing failed: '' @ why) (fsDb s)\<rparr>)
         | Accepted pid pending \<Rightarrow>
             (if provider_id_taken (paId p) \<lparr>pfProviderId = Some pid, pfFailure = None\<rparr> (fsDb s)
              then (Inl (ForeignError ''payment_attempt_provider_payment_id_unique''), s1)
              else (Inr (Dispatched p), s1\<lparr>fsDb := set_payment (paId p)
                (\<lambda>q. q\<lparr>paStatus := if pending then PProcessing else paStatus q,
                  paProviderId := Some pid\<rparr>) (fsDb s)\<rparr>)))"

text \<open>The same order of checks before a first dispatch and before a repeated one: settled meanwhile,
  agreement balance, installment ceiling.\<close>

definition dispatch_checked ::
    "gateway \<Rightarrow> env \<Rightarrow> uuid \<Rightarrow> uuid \<Rightarrow> uuid option \<Rightarrow> dispatch \<Rightarrow> payment_row \<Rightarrow> dispatch fire_step" where
  "dispatch_checked G E inst i ag settled p s =
     (if satisfied_now inst (fsDb s)
      then (Inr settled, s\<lparr>fsDb := close_attempt E (paId p) i ''InstallmentSettled'' ''InstallmentSettled'' (fsDb s)\<rparr>)
      else if (case Option.bind ag (\<lambda>a. remaining_balance_tx a (fsDb s)) of
                 None \<Rightarrow> False | Some left \<Rightarrow> left < paAmount p)
      then (Inr (DispatchFailed ''Overpayment''),
            s\<lparr>fsDb := close_attempt E (paId p) i ''Overpayment'' ''Firing failed: Overpayment'' (fsDb s)\<rparr>)
      else case ceiling_error inst (paAmount p) (fsDb s) of
        Some e \<Rightarrow> (Inr (DispatchFailed (error_message e)),
          s\<lparr>fsDb := close_attempt E (paId p) i (error_message e) (''Firing failed: '' @ error_message e) (fsDb s)\<rparr>)
      | None \<Rightarrow> call_provider G E i p s)"

definition dispatch_transaction ::
    "gateway \<Rightarrow> env \<Rightarrow> uuid \<Rightarrow> uuid \<Rightarrow> uuid \<Rightarrow> uuid \<Rightarrow> dispatch fire_step" where
  "dispatch_transaction G E inst i pay ag s =
     (case find_payment pay (fsDb s) of
        None \<Rightarrow> (Inl (ConfigurationError ''anchor payment_attempt row not found''), s)
      | Some p \<Rightarrow>
          (if paStatus p \<noteq> PSubmitted then (Inr (DispatchResolved p), s)
           else dispatch_checked G E inst i (Some ag) DispatchNotClaimable p s))"

section \<open>Adopting the attempt of an older retry\<close>

datatype adoption = Adopted | AlreadyAdopted | AdoptionConflict | AdoptionNotApplicable

definition conflict_action :: "string \<Rightarrow> string" where
  "conflict_action kind = ''payment_retry_legacy_lineage_conflict_'' @ kind"

definition record_legacy_conflict ::
    "env \<Rightarrow> uuid \<Rightarrow> uuid \<Rightarrow> string \<Rightarrow> uuid option \<Rightarrow> db \<Rightarrow> db" where
  "record_legacy_conflict E i cand kind existing s =
     (if audit_exists ''payment_retry'' i (conflict_action kind) s then s
      else audit E ((blank_audit (conflict_action kind) (clock E))
        \<lparr>actorRole := Some ''payment_provider'',
         previousValue := JObj [(''existingResultingId'', json_opt json_uuid existing)],
         newValue := JObj [(''conflictType'', JStr kind), (''candidateAttemptId'', json_uuid cand)],
         reason := Some kind, targetResourceType := Value ''payment_retry'',
         targetResourceId := Value i\<rparr>) s)"

definition validate_and_adopt :: "env \<Rightarrow> uuid \<Rightarrow> uuid \<Rightarrow> (db, error, adoption) step" where
  "validate_and_adopt E i cand s =
     (case find_retry i s of
        None \<Rightarrow> (Inr AdoptionNotApplicable, s)
      | Some r \<Rightarrow>
     (if (case find_payment (rtOriginal r) s of
            None \<Rightarrow> True
          | Some o1 \<Rightarrow> paAgreement o1 \<noteq> Some (rtAgreement r) \<or> paInstallment o1 \<noteq> Some (rtInstallment r))
      then (Inr AdoptionConflict,
            record_legacy_conflict E i cand ''original_attempt_context_mismatch'' (rtResulting r) s)
      else case find_payment cand s of
        None \<Rightarrow> (Inr AdoptionNotApplicable, s)
      | Some c \<Rightarrow>
     (if paKey c \<noteq> retry_key i \<or> paAgreement c \<noteq> Some (rtAgreement r) \<or>
        paInstallment c \<noteq> Some (rtInstallment r)
      then (Inr AdoptionConflict, record_legacy_conflict E i cand ''identity_mismatch'' (rtResulting r) s)
      else if rtResulting r = None \<or> rtResulting r = Some cand
      then (Inr (if rtResulting r = Some cand then AlreadyAdopted else Adopted),
            set_retry i (\<lambda>r. r\<lparr>rtResulting := Some cand\<rparr>) s)
      else (Inr AdoptionConflict,
            record_legacy_conflict E i cand ''contradictory_resulting_attempt'' (rtResulting r) s))))"

datatype repair = Repaired | AlreadyComplete | RepairNotApplicable | RepairDeferred | RepairConflict

definition ambiguous_backoff_ms :: msec where "ambiguous_backoff_ms = 15 * 60 * 1000"

text \<open>\<open>repairLegacyLineageAndApply\<close>: an exception of the application defers the retry.\<close>

definition repair_and_apply :: "env \<Rightarrow> uuid \<Rightarrow> uuid \<Rightarrow> (db, error, repair) step" where
  "repair_and_apply E i cand =
     andThen (validate_and_adopt E i cand) (\<lambda>a.
     if a = AdoptionNotApplicable then ret RepairNotApplicable
     else if a = AdoptionConflict then ret RepairConflict
     else (\<lambda>s. case apply_cleared_payment E cand s of
         (Inl e, s1) \<Rightarrow> (Inr RepairDeferred, mark_resolution_deferred i (clock E + ambiguous_backoff_ms) s1)
       | (Inr res, s1) \<Rightarrow>
           (case res of
              AppliedTo _ \<Rightarrow> (Inr Repaired, s1)
            | AlreadyApplied _ \<Rightarrow> (Inr AlreadyComplete, s1)
            | LineageNotCorrelated \<Rightarrow> (Inr RepairNotApplicable, s1)
            | ApplyConflict _ \<Rightarrow>
                (Inr RepairConflict, record_legacy_conflict E i cand ''application'' (Some cand) s1)
            | NotYetDurable _ \<Rightarrow> (Inr RepairDeferred, s1))))"

text \<open>\<open>repairLegacyRetryLineage\<close>: fired retries of an unapplied proposal whose replacement has
  cleared and that carry no conflict yet.\<close>

definition legacy_candidate :: "msec \<Rightarrow> db \<Rightarrow> retry_row \<Rightarrow> bool" where
  "legacy_candidate now s r \<longleftrightarrow> rtStatus r = RtFired \<and>
     list_ex (\<lambda>o1. paId o1 = rtOriginal r \<and>
       list_ex (\<lambda>q. paKey o1 = partial_payment_text (ppId q) \<and> ppStatus q \<noteq> PpApplied) (partials s)) (payments s) \<and>
     list_ex (\<lambda>p. paKey p = retry_key (rtId r) \<and> has_cleared_entry (paId p) s) (payments s) \<and>
     \<not> list_ex (\<lambda>a. targetResourceType a = Value ''payment_retry'' \<and> targetResourceId a = Value (rtId r) \<and>
         strip_prefix (conflict_action []) (action a) \<noteq> None) (audits s) \<and>
     resolution_due now r"

fun repair_each :: "env \<Rightarrow> retry_row list \<Rightarrow> (db, error, unit) step" where
  "repair_each E [] = ret ()"
| "repair_each E (r # rs) = andThen (\<lambda>s. case find_by_idempotency_key (retry_key (rtId r)) s of
      None \<Rightarrow> (Inr RepairNotApplicable, s)
    | Some p \<Rightarrow> repair_and_apply E (rtId r) (paId p) s) (\<lambda>_. repair_each E rs)"

definition repair_legacy_lineage :: "env \<Rightarrow> nat \<Rightarrow> (db, error, nat) step" where
  "repair_legacy_lineage E n s =
     (let rs = take n (nulls_first (sort_key (\<lambda>r. case rtFiredAt r of None \<Rightarrow> 0 | Some t \<Rightarrow> t)
        (sort_key rtId (filter (legacy_candidate (clock E) s) (retries s)))))
      in andThen (repair_each E rs) (\<lambda>_. ret (length rs)) s)"

section \<open>The outcome of a dispatch\<close>

datatype resolution = Fired uuid | StillAmbiguous | NotApplicable | ClosedRetry

definition lookup_payload :: "found_payment \<Rightarrow> payment_row \<Rightarrow> json" where
  "lookup_payload f p = JObj [(''providerPaymentId'', JStr (fpId f)),
     (''amountMinorUnits'', JNum (fpAmount f)), (''currency'', JStr (fpCurrency f)),
     (''processorFeeMinorUnits'', JNum (fpFee f)), (''platformFeeMinorUnits'', JNum (platform_fee p))]"

text \<open>\<open>applyFoundOutcome\<close>: the row read before the call decides whether the provider's id is filled
  in; a decided payment goes through the same handler as a webhook.\<close>

definition apply_found_outcome ::
    "workflow_deps \<Rightarrow> gateway \<Rightarrow> env \<Rightarrow> payment_row \<Rightarrow> found_payment \<Rightarrow> uuid \<Rightarrow> uuid option \<Rightarrow>
     (db, error, resolution) step" where
  "apply_found_outcome W G E p f i token =
     andThen (\<lambda>s. if paProviderId p \<noteq> None then (Inr (), s)
       else if map_option paProviderId (find_payment (paId p) s) \<noteq> Some None then (Inr (), s)
       else if provider_id_taken (paId p) \<lparr>pfProviderId = Some (fpId f), pfFailure = None\<rparr> s
       then (Inl (ForeignError ''payment_attempt_provider_payment_id_unique''), s)
       else (Inr (), set_payment (paId p) (\<lambda>q. q\<lparr>paProviderId := Some (fpId f)\<rparr>) s)) (\<lambda>_.
     andThen (update (\<lambda>s.
       if fpStatus f = PSucceeded \<or> fpStatus f = PFailed
       then snd (receive_internal_event W E (gwName G) (''ambiguity-resolution:'' @ paKey p)
         (if fpStatus f = PSucceeded then ''payment.succeeded'' else ''payment.failed'')
         (lookup_payload f p) s)
       else set_payment (paId p) (\<lambda>q. if paStatus q = PSubmitted
         then q\<lparr>paStatus := PProcessing, paUpdatedAt := clock E\<rparr> else q) s)) (\<lambda>_.
     andThen (update (\<lambda>s. case token of None \<Rightarrow> s | Some t \<Rightarrow> mark_retry_fired i t (paId p) (clock E) s)) (\<lambda>_.
     ret (Fired (paId p)))))"

definition resolve_submitted_anchor ::
    "workflow_deps \<Rightarrow> gateway \<Rightarrow> env \<Rightarrow> payment_row \<Rightarrow> uuid \<Rightarrow> (db, error, resolution) step" where
  "resolve_submitted_anchor W G E p i s =
     (case gwLookup G (paKey p) of
        Inl e \<Rightarrow> (Inl e, s)
      | Inr None \<Rightarrow> (Inr StillAmbiguous, s)
      | Inr (Some f) \<Rightarrow> apply_found_outcome W G E p f i (Option.bind (find_retry i s) rtToken) s)"

datatype execution = ExecFired uuid | ExecAmbiguous uuid | ExecFailed string | ExecNotClaimable

text \<open>What follows the dispatch transaction, shared by its two callers.\<close>

definition adopt_resolved :: "env \<Rightarrow> uuid \<Rightarrow> uuid \<Rightarrow> (db, error, bool) step" where
  "adopt_resolved E i pay =
     andThen (repair_and_apply E i pay) (\<lambda>d.
     if d = RepairDeferred then ret False
     else andThen (update (mark_retry_fired_if_claimed E i)) (\<lambda>_. ret True))"

definition dispatch_provider_call ::
    "workflow_deps \<Rightarrow> gateway \<Rightarrow> env \<Rightarrow> uuid \<Rightarrow> uuid \<Rightarrow> uuid \<Rightarrow> uuid \<Rightarrow> execution fire_step" where
  "dispatch_provider_call W G E inst i pay ag =
     andThen (dispatch_transaction G E inst i pay ag) (\<lambda>d.
     case d of
       DispatchNotClaimable \<Rightarrow> ret ExecNotClaimable
     | DispatchFailed why \<Rightarrow> ret (ExecFailed why)
     | DispatchAmbiguous \<Rightarrow> ret (ExecAmbiguous pay)
     | DispatchResolved p \<Rightarrow>
         (if paStatus p = PFailed then ret (ExecFailed ''resulting_payment_attempt_failed'')
          else andThen (in_db (adopt_resolved E i (paId p))) (\<lambda>ok.
            ret (if ok then ExecFired (paId p) else ExecAmbiguous (paId p))))
     | Dispatched p \<Rightarrow>
         andThen (in_db (resolve_submitted_anchor W G E p i)) (\<lambda>res.
         ret (case res of Fired q \<Rightarrow> ExecFired q | _ \<Rightarrow> ExecAmbiguous (paId p))))"

definition claim_and_execute_retry ::
    "workflow_deps \<Rightarrow> gateway \<Rightarrow> env \<Rightarrow> retry_row \<Rightarrow> prepared_retry \<Rightarrow> profile_ref \<Rightarrow> profile_ref \<Rightarrow>
     execution fire_step" where
  "claim_and_execute_retry W G E r pr payer recipient =
     andThen (in_db (establish_durable_dispatch_intent E (rtInstallment r) (rtId r)
       (retry_pending (retry_key (rtId r)) (rtAgreement r) (rtInstallment r) (gwName G) pr payer recipient)
       (rtAgreement r))) (\<lambda>n.
     case n of
       NotClaimable \<Rightarrow> ret ExecNotClaimable
     | Ready p \<Rightarrow> dispatch_provider_call W G E (rtInstallment r) (rtId r) p (rtAgreement r)
     | AlreadyDispatched p \<Rightarrow> dispatch_provider_call W G E (rtInstallment r) (rtId r) p (rtAgreement r))"

section \<open>Ambiguous retries\<close>

definition not_found_transaction :: "gateway \<Rightarrow> env \<Rightarrow> uuid \<Rightarrow> uuid \<Rightarrow> payment_row \<Rightarrow> dispatch fire_step" where
  "not_found_transaction G E inst i existing s =
     (case find_payment (paId existing) (fsDb s) of
        None \<Rightarrow> (Inr (DispatchResolved existing), s)
      | Some p \<Rightarrow>
          (if paStatus p \<noteq> PSubmitted then (Inr (DispatchResolved p), s)
           else dispatch_checked G E inst i (paAgreement p) (DispatchFailed ''InstallmentSettled'') p s))"

definition resolve_not_found ::
    "workflow_deps \<Rightarrow> gateway \<Rightarrow> env \<Rightarrow> payment_row \<Rightarrow> uuid \<Rightarrow> uuid \<Rightarrow> resolution fire_step" where
  "resolve_not_found W G E existing inst i =
     andThen (not_found_transaction G E inst i existing) (\<lambda>d.
     case d of
       DispatchNotClaimable \<Rightarrow> ret ClosedRetry
     | DispatchFailed _ \<Rightarrow> ret ClosedRetry
     | DispatchAmbiguous \<Rightarrow> ret StillAmbiguous
     | DispatchResolved p \<Rightarrow>
         (if paStatus p = PSubmitted then ret StillAmbiguous
          else andThen (in_db (adopt_resolved E i (paId p))) (\<lambda>ok.
            ret (if ok then Fired (paId p) else StillAmbiguous)))
     | Dispatched p \<Rightarrow> in_db (resolve_submitted_anchor W G E p i))"

text \<open>\<open>resolveAmbiguousRetry\<close>: the token read at the start fences the final write.\<close>

definition resolve_ambiguous_retry ::
    "workflow_deps \<Rightarrow> gateway \<Rightarrow> env \<Rightarrow> uuid \<Rightarrow> resolution fire_step" where
  "resolve_ambiguous_retry W G E i s =
     (case find_retry i (fsDb s) of
        None \<Rightarrow> (Inr NotApplicable, s)
      | Some r \<Rightarrow>
     (if rtStatus r \<noteq> RtClaimed then (Inr NotApplicable, s)
      else case find_by_idempotency_key (retry_key i) (fsDb s) of
        None \<Rightarrow> (Inr NotApplicable, s)
      | Some p \<Rightarrow>
     (if paStatus p \<noteq> PSubmitted
      then andThen (in_db (adopt_resolved E i (paId p))) (\<lambda>ok.
        ret (if ok then Fired (paId p) else StillAmbiguous)) s
      else andThen (in_db (validate_and_adopt E i (paId p))) (\<lambda>a.
        if a = AdoptionNotApplicable then ret NotApplicable
        else if a = AdoptionConflict then ret StillAmbiguous
        else (\<lambda>s. case gwLookup G (retry_key i) of
            Inl e \<Rightarrow> (Inl e, s)
          | Inr (Some f) \<Rightarrow> in_db (apply_found_outcome W G E p f i (rtToken r)) s
          | Inr None \<Rightarrow> resolve_not_found W G E p (rtInstallment r) i s)) s)))"

section \<open>The job\<close>

definition assert_prelock_eligible ::
    "pay_deps \<Rightarrow> env \<Rightarrow> profile_ref \<Rightarrow> profile_ref \<Rightarrow> int \<Rightarrow> db \<Rightarrow> error option" where
  "assert_prelock_eligible D E payer recipient amount s =
     (if \<not> initiationEnabled D then Some (DependencyError ''PaymentInitiationDisabled'')
      else if \<not> safe_int amount \<or> amount \<le> 0 then Some (ValidationError ''amountMinorUnits'')
      else if max_payment D < amount then Some (ValidationError ''MaxPaymentExceeded'')
      else case summarize_recent_activity (list_recent_by_payer payer (clock E - rolling_window_ms) s) of
        (recentAmount, recentCount) \<Rightarrow>
     (if daily_amount_limit D < js_add recentAmount amount then Some (ValidationError ''DailyAmountExceeded'')
      else if daily_attempt_limit D < recentCount + 1 then Some (ValidationError ''DailyAttemptsExceeded'')
      else if \<not> fullyVerified D payer then Some (ValidationError ''PayerNotVerified'')
      else if \<not> fullyVerified D recipient then Some (ValidationError ''RecipientNotVerified'')
      else None))"

text \<open>
  A thrown object as the job looks at it: whether it is a \<open>DrizzleQueryError\<close>, its name and code where
  they are strings, and the object that caused it. The objects live in a heap, so a chain of causes
  may run in a circle.
\<close>

record thrown_node =
  tnQuery :: bool
  tnName :: "string option"
  tnCode :: "string option"
  tnCause :: "nat option"

definition is_database_fatal_signal :: "thrown_node \<Rightarrow> bool" where
  "is_database_fatal_signal n =
     (case tnCode n of
        None \<Rightarrow> False
      | Some code \<Rightarrow>
          code \<in> {''ECONNRESET'', ''ECONNREFUSED'', ''ETIMEDOUT'', ''EPIPE'', ''ENETUNREACH'', ''EHOSTUNREACH''} \<or>
          tnName n = Some ''PostgresError'' \<and>
          list_ex (\<lambda>pre. take 2 code = pre) [''08'', ''53'', ''57'', ''58''])"

fun fatal_within :: "nat \<Rightarrow> nat list \<Rightarrow> (nat \<Rightarrow> thrown_node) \<Rightarrow> nat option \<Rightarrow> bool" where
  "fatal_within 0 visited h node = False"
| "fatal_within (Suc k) visited h None = False"
| "fatal_within (Suc k) visited h (Some a) =
     (if a \<in> set visited then False
      else if is_database_fatal_signal (h a) then True
      else fatal_within k (a # visited) h (tnCause (h a)))"

definition is_fatal_infrastructure_error :: "(nat \<Rightarrow> thrown_node) \<Rightarrow> nat \<Rightarrow> bool" where
  "is_fatal_infrastructure_error h a = (tnQuery (h a) \<and> fatal_within 20 [] h (tnCause (h a)))"

text \<open>\<open>fdThrown\<close> tells which object stands behind an error.\<close>

record fire_deps =
  fdPay :: pay_deps
  fdWorkflow :: workflow_deps
  fdGateway :: gateway
  fdThrown :: "error \<Rightarrow> (nat \<Rightarrow> thrown_node) \<times> nat"

text \<open>Fired, canceled, ambiguous and resolved.\<close>

record fire_counts =
  fcFired :: nat
  fcCanceled :: nat
  fcAmbiguous :: nat
  fcResolved :: nat

text \<open>The mandates and cards of \<open>M\<close> are read beside the database of the moment.\<close>

definition fire_one :: "fire_deps \<Rightarrow> env \<Rightarrow> method_db \<Rightarrow> retry_row \<Rightarrow> payment_row \<Rightarrow> payment_method \<Rightarrow> execution fire_step" where
  "fire_one F E M r original m s =
     (case prepare_retry E m (rtAgreement r) (paAmount original) (paCurrency original) (M\<lparr>mdDb := fsDb s\<rparr>) of
        Inl e \<Rightarrow> (Inl e, s)
      | Inr pr \<Rightarrow>
     (case assert_prelock_eligible (fdPay F) E (paPayer original) (paRecipient original) (prAmount pr) (fsDb s) of
        Some e \<Rightarrow> (Inl e, s)
      | None \<Rightarrow>
          claim_and_execute_retry (fdWorkflow F) (fdGateway F) E r pr (paPayer original) (paRecipient original) s))"

fun fire_each :: "fire_deps \<Rightarrow> env \<Rightarrow> method_db \<Rightarrow> retry_row list \<Rightarrow> fire_counts \<Rightarrow> fire_state \<Rightarrow> fire_counts \<times> fire_state" where
  "fire_each F E M [] n s = (n, s)"
| "fire_each F E M (r # rs) n s =
     (case Option.bind (find_payment (rtOriginal r) (fsDb s)) (\<lambda>p. map_option (\<lambda>m. (p, m)) (paMethod p)) of
        None \<Rightarrow> fire_each F E M rs n s
      | Some (p, m) \<Rightarrow>
          (case fire_one F E M r p m s of
             (Inr (ExecFired _), s1) \<Rightarrow> fire_each F E M rs (n\<lparr>fcFired := fcFired n + 1\<rparr>) s1
           | (Inr (ExecAmbiguous _), s1) \<Rightarrow> fire_each F E M rs (n\<lparr>fcAmbiguous := fcAmbiguous n + 1\<rparr>) s1
           | (Inr (ExecFailed _), s1) \<Rightarrow> fire_each F E M rs (n\<lparr>fcCanceled := fcCanceled n + 1\<rparr>) s1
           | (Inr ExecNotClaimable, s1) \<Rightarrow> fire_each F E M rs n s1
           | (Inl e, s1) \<Rightarrow>
               (case mark_canceled E (rtId r) (''Firing failed: '' @ error_message e) (fsDb s1) of
                  (done, d) \<Rightarrow> fire_each F E M rs
                    (if done then n\<lparr>fcCanceled := fcCanceled n + 1\<rparr> else n) (s1\<lparr>fsDb := d\<rparr>))))"

text \<open>A lost database stops the resumption; any other error defers the one retry.\<close>

fun resume_each :: "fire_deps \<Rightarrow> env \<Rightarrow> retry_row list \<Rightarrow> fire_counts \<Rightarrow> fire_counts fire_step" where
  "resume_each F E [] n s = (Inr n, s)"
| "resume_each F E (r # rs) n s =
     (let deferred = (\<lambda>s1. s1\<lparr>fsDb := mark_resolution_deferred (rtId r) (clock E + ambiguous_backoff_ms) (fsDb s1)\<rparr>)
      in case resolve_ambiguous_retry (fdWorkflow F) (fdGateway F) E (rtId r) s of
           (Inr (Fired _), s1) \<Rightarrow> resume_each F E rs (n\<lparr>fcResolved := fcResolved n + 1\<rparr>) s1
         | (Inr ClosedRetry, s1) \<Rightarrow> resume_each F E rs n s1
         | (Inr _, s1) \<Rightarrow> resume_each F E rs n (deferred s1)
         | (Inl e, s1) \<Rightarrow>
             (if case_prod is_fatal_infrastructure_error (fdThrown F e) then (Inl e, s1)
              else resume_each F E rs n (deferred s1)))"

definition fire_due_retries :: "fire_deps \<Rightarrow> env \<Rightarrow> method_db \<Rightarrow> nat \<Rightarrow> fire_counts fire_step" where
  "fire_due_retries F E M limit s =
     (case fire_each F E M (find_due_for_firing (clock E) limit (fsDb s))
         \<lparr>fcFired = 0, fcCanceled = 0, fcAmbiguous = 0, fcResolved = 0\<rparr> s of
        (n, s1) \<Rightarrow> resume_each F E (find_claimed_for_resumption (clock E) limit (fsDb s1)) n s1)"

section \<open>The other operations of the retry service\<close>

definition retry_service_audit :: "env \<Rightarrow> string \<Rightarrow> payment_row option \<Rightarrow> json \<Rightarrow> string option \<Rightarrow> retry_row \<Rightarrow> db \<Rightarrow> db" where
  "retry_service_audit E act payer v why r = audit E ((blank_audit act (clock E))
     \<lparr>actorRole := Some ''payment_provider'', profileKind := map_option (fst \<circ> paPayer) payer,
      profileId := map_option (snd \<circ> paPayer) payer, auditAgreementId := Some (rtAgreement r),
      newValue := v, reason := why, targetResourceType := Value ''payment_retry'',
      targetResourceId := Value (rtId r)\<rparr>)"

definition schedule_retry_for_failed_payment ::
    "env \<Rightarrow> int \<Rightarrow> payment_row \<Rightarrow> (db, error, retry_row option) step" where
  "schedule_retry_for_failed_payment E delay p s =
     (case (paInstallment p, paAgreement p) of
        (Some inst, Some ag) \<Rightarrow>
          (if find_by_resulting (paId p) s \<noteq> None then (Inr None, s)
           else case find_by_original (paId p) s of
             Some r \<Rightarrow> (Inr (Some r), s)
           | None \<Rightarrow> andThen (insert_retry E (paId p) inst ag (add_business_days (clock E) delay)) (\<lambda>r.
               andThen (update (retry_service_audit E ''payment_retry_scheduled'' (Some p)
                 (JStr (to_iso_string (rtScheduledFor r))) None r)) (\<lambda>_. ret (Some r))) s)
      | _ \<Rightarrow> (Inr None, s))"

definition find_scheduled_for_installment :: "uuid \<Rightarrow> db \<Rightarrow> retry_row option" where
  "find_scheduled_for_installment inst s =
     find (\<lambda>r. rtInstallment r = inst \<and> rtStatus r = RtScheduled) (retries s)"

definition cancel_for_installment :: "env \<Rightarrow> uuid \<Rightarrow> string \<Rightarrow> db \<Rightarrow> db" where
  "cancel_for_installment E inst why s =
     (case find_scheduled_for_installment inst s of
        None \<Rightarrow> s
      | Some r \<Rightarrow>
          (case mark_canceled E (rtId r) why s of
             (done, s1) \<Rightarrow>
               if done then retry_service_audit E ''payment_retry_canceled'' None JNull (Some why) r s1 else s1))"

definition find_for_original_payment :: "pay_deps \<Rightarrow> uuid \<Rightarrow> uuid \<Rightarrow> db \<Rightarrow> retry_row option" where
  "find_for_original_payment D pay actor s =
     (case find_payment pay s of
        None \<Rightarrow> None
      | Some p \<Rightarrow>
          if ownerOf D (paPayer p) \<noteq> Some actor \<and> ownerOf D (paRecipient p) \<noteq> Some actor then None
          else find_by_original pay s)"

text \<open>\<open>markFired\<close> of the repository, without a fence.\<close>

definition mark_fired :: "uuid \<Rightarrow> uuid \<Rightarrow> msec \<Rightarrow> (db, error, unit) step" where
  "mark_fired i pay t s =
     (if find_retry i s = None then (Inl (ConfigurationError ''payment_retry markFired found no row''), s)
      else (Inr (), set_retry i (\<lambda>r. r\<lparr>rtStatus := RtFired, rtResulting := Some pay, rtFiredAt := Some t\<rparr>) s))"

text \<open>The job without a coordinator: each due retry is an ordinary manual payment.\<close>

definition fire_directly :: "pay_deps \<Rightarrow> env \<Rightarrow> retry_row \<Rightarrow> unit method_step" where
  "fire_directly D E r s =
     (case Option.bind (find_payment (rtOriginal r) (mdDb s)) (\<lambda>p. map_option (\<lambda>m. (p, m)) (paMethod p)) of
        None \<Rightarrow> (Inl (ForeignError ''OriginalPaymentMissing''), s)
      | Some (p, m) \<Rightarrow>
     (case ownerOf D (paPayer p) of
        None \<Rightarrow> (Inl (ForeignError ''PayerOwnerMissing''), s)
      | Some actor \<Rightarrow>
     (let rq = \<lparr>rqKey = retry_key (rtId r), rqPayer = paPayer p, rqRecipient = paRecipient p,
            rqAmount = paAmount p, rqCurrency = paCurrency p, rqAgreement = Some (rtAgreement r),
            rqActor = actor, rqInstallment = Some (rtInstallment r), rqSettlement = None,
            rqMethod = None, rqBank = None\<rparr>
      in andThen (case m of
             Ach \<Rightarrow> ach_create_manual D E (rtAgreement r) rq (ret ())
           | DebitCard \<Rightarrow> andThen (card_create_manual D E (rtAgreement r) rq (ret ())) (\<lambda>(q, _). ret q)
           | ManualOffPlatform \<Rightarrow> throw (ForeignError ''ManualPaymentNeverRetried''))
           (\<lambda>q. on_db (mark_fired (rtId r) (paId q) (clock E))) s)))"

fun fire_each_directly :: "pay_deps \<Rightarrow> env \<Rightarrow> retry_row list \<Rightarrow> nat \<times> nat \<Rightarrow> method_db \<Rightarrow> (nat \<times> nat) \<times> method_db" where
  "fire_each_directly D E [] n s = (n, s)"
| "fire_each_directly D E (r # rs) (fired, canceled) s =
     (case fire_directly D E r s of
        (Inr _, s1) \<Rightarrow> fire_each_directly D E rs (fired + 1, canceled) s1
      | (Inl e, s1) \<Rightarrow>
          (case mark_canceled E (rtId r) (''Firing failed: '' @ error_message e) (mdDb s1) of
             (done, d) \<Rightarrow> fire_each_directly D E rs (fired, if done then canceled + 1 else canceled) (s1\<lparr>mdDb := d\<rparr>)))"

end
