(* ===== verification/RetryLaws.thy ===== *)
theory RetryLaws
  imports RetryExecution
begin

text \<open>
  What the execution of retries guarantees: the provider is asked only for what is on file and what
  is owed (\<open>RetryExecution\<close>).
\<close>

section \<open>Attempts stay on file\<close>

text \<open>The unique indexes of the attempts and a balanced ledger.\<close>

definition filed :: "db \<Rightarrow> bool" where
  "filed d \<longleftrightarrow> books_ok d \<and> list_all (\<lambda>p. paId p < nextId d) (payments d) \<and> distinct (map paKey (payments d))"

definition kept :: "db \<Rightarrow> db \<Rightarrow> bool" where
  "kept d d' \<longleftrightarrow> (\<forall>p \<in> set (payments d). \<exists>p' \<in> set (payments d'). payment_terms p' = payment_terms p)"

definition files :: "db \<Rightarrow> db \<Rightarrow> bool" where
  "files d d' \<longleftrightarrow> (filed d \<longrightarrow> filed d' \<and> kept d d')"

lemma kept_refl [simp]: "kept d d"
  by (auto simp: kept_def)

lemma kept_trans: "kept a b \<Longrightarrow> kept b c \<Longrightarrow> kept a c"
  unfolding kept_def by metis

lemma files_refl [simp]: "files d d"
  by (simp add: files_def)

lemma files_trans: "files a b \<Longrightarrow> files b c \<Longrightarrow> files a c"
  unfolding files_def using kept_trans by blast

lemma moved_terms:
  assumes "moved_legally ps ps'"
  shows "map payment_terms ps' = map payment_terms ps"
  using assms by (auto simp: moved_legally_def list_all2_conv_all_nth intro: nth_equalityI)

lemma terms_key: "map payment_terms ps' = map payment_terms ps \<Longrightarrow> map paKey ps' = map paKey ps"
  by (drule arg_cong [of _ _ "map fst"]) (simp add: payment_terms_def comp_def)

lemma ids_below: "list_all (\<lambda>p. paId p < n) ps = list_all (\<lambda>i. i < n) (map paId ps)"
  by (simp add: list_all_iff)

lemma filed_move:
  assumes "filed d" and "books_ok d'" and "map paId (payments d') = map paId (payments d)"
    and "map payment_terms (payments d') = map payment_terms (payments d)" and "nextId d \<le> nextId d'"
  shows "filed d' \<and> kept d d'"
proof
  show "filed d'"
    using assms(1,2,5) terms_key [OF assms(4)]
    unfolding filed_def ids_below assms(3) by (auto simp: list_all_iff)
  have "payment_terms p \<in> set (map payment_terms (payments d'))" if "p \<in> set (payments d)" for p
    unfolding assms(4) using that by simp
  then show "kept d d'" unfolding kept_def by force
qed

lemma effect_files: "effect d d' \<Longrightarrow> files d d'"
  unfolding files_def
  by (intro impI filed_move)
    (auto simp: filed_def books_ok_def effect_def moved_terms moved_legally_def payments_keyed_def)

lemma quiet_files: "quiet d d' \<Longrightarrow> files d d'"
  by (rule effect_files [OF quiet_effect])

lemma files_set_payment:
  assumes "\<And>p. paId (f p) = paId p \<and> payment_terms (f p) = payment_terms p"
  shows "files d (set_payment i f d)"
proof -
  have m: "map paId (payments (set_payment i f d)) = map paId (payments d)"
    "map payment_terms (payments (set_payment i f d)) = map payment_terms (payments d)"
    using assms by (simp_all add: set_payment_def update_by_def)
  have "books_ok (set_payment i f d)" if "books_ok d"
    using that m(1) ledger_ok_cong [of "set_payment i f d" d]
    by (simp add: books_ok_def payments_keyed_def)
  then show ?thesis unfolding files_def
    by (intro impI filed_move) (use m in \<open>auto simp: filed_def\<close>)
qed

lemma files_insert: "files d (snd (insert_pending E inp d))"
proof -
  have "filed d' \<and> kept d d'" if "filed d" "d' = d\<lparr>payments := payments d @ [p], nextId := Suc (nextId d)\<rparr>"
    "paId p = nextId d" "find_by_idempotency_key (paKey p) d = None" for p d'
    using that ledger_ok_cong [of d' d]
    by (auto simp: filed_def kept_def books_ok_def payments_keyed_def list_all_iff less_SucI
        find_by_idempotency_key_def lookup_by_None_iff)
  then show ?thesis
    by (auto simp: insert_pending_def files_def Let_def pending_row_def)
qed

lemma files_atomically: "files d (snd (m d)) \<Longrightarrow> files d (snd (atomically m d))"
  by (auto simp: atomically_def split: prod.splits sum.splits)

interpretation filing: state_preorder files
  by unfold_locales (blast intro: files_refl files_trans)+

lemmas files_andThen = filing.kept_then

lemmas keeps_files_update = filing.kept_update

lemmas files_simple = filing.kept_simple

lemma quiet_set_retry: "quiet d (set_retry i f d)"
  by (simp add: quiet_def set_retry_def)

text \<open>An event raised by a provider lookup goes through the webhook handler.\<close>

definition filed_since :: "db \<Rightarrow> db \<Rightarrow> bool" where
  "filed_since d0 d \<longleftrightarrow> books_since d0 d \<and> nextId d0 \<le> nextId d"

interpretation on_file: event_invariant "filed_since d0" "\<lambda>_. True" "\<lambda>_. True" for d0
proof unfold_locales
  fix E s pr ev ty src v payload
  assume "filed_since d0 s"
  then show "filed_since d0 (snd (try_insert_and_claim E pr ev ty src v payload lease_ms s))"
    using books.inserted [OF TrueI, of d0 s E pr ev ty src v payload]
    by (auto simp: filed_since_def try_insert_and_claim_def Let_def)
next
  fix W E w token s
  assume "filed_since d0 s"
  then show "filed_since d0 (snd (apply_event W E w token s))"
    using effect_apply_event [of s W E w token] books.applied [of d0 s W E w token]
    by (auto simp: filed_since_def effect_def books_since_def books_ok_def)
qed (simp_all add: filed_since_def finish_defs books_since_cong [of "finish_event i t f s" s for i t f s]
    books_since_cong [of "(set_webhook i f s)\<lparr>nextId := n\<rparr>" s for i f s n])

lemma filed_since_files: "filed d0 \<Longrightarrow> filed_since d0 d \<Longrightarrow> filed d \<and> kept d0 d"
  by (rule filed_move) (auto simp: filed_since_def books_since_def moved_legally_def moved_terms)

lemma filed_since_refl: "filed d \<Longrightarrow> filed_since d d"
  by (simp add: filed_since_def filed_def books_since_refl)

lemma files_internal_event: "files d (snd (receive_internal_event W E pr ev ty payload d))"
  unfolding files_def receive_internal_event_def
  using filed_since_files on_file.claim_processed [OF TrueI filed_since_refl] by blast

lemma files_handler: "files d (run_handler P W E op d)"
  unfolding files_def using filed_since_files on_file.handled [OF TrueI filed_since_refl] by blast

section \<open>Charges\<close>

definition on_record :: "charge \<Rightarrow> db \<Rightarrow> bool" where
  "on_record c d \<longleftrightarrow> (\<exists>p \<in> set (payments d). charge_of p = c)"

definition fires :: "fire_state \<Rightarrow> fire_state \<Rightarrow> bool" where
  "fires s s' \<longleftrightarrow> (filed (fsDb s) \<longrightarrow> filed (fsDb s') \<and> kept (fsDb s) (fsDb s') \<and>
     (\<exists>cs. fsCharges s' = fsCharges s @ cs \<and> (\<forall>c \<in> set cs. on_record c (fsDb s'))))"

lemma charge_terms: "payment_terms p' = payment_terms p \<Longrightarrow> charge_of p' = charge_of p"
  by (simp add: payment_terms_def charge_of_def)

lemma record_kept: "kept d d' \<Longrightarrow> on_record c d \<Longrightarrow> on_record c d'"
  unfolding kept_def on_record_def using charge_terms by blast

lemma fires_refl [simp]: "fires s s"
  by (simp add: fires_def)

lemma fires_trans:
  assumes "fires a b" and "fires b c"
  shows "fires a c"
  unfolding fires_def
proof
  assume "filed (fsDb a)"
  then obtain cs ds where 1: "filed (fsDb b)" "kept (fsDb a) (fsDb b)" "fsCharges b = fsCharges a @ cs"
      "\<forall>x \<in> set cs. on_record x (fsDb b)"
    and 2: "filed (fsDb c)" "kept (fsDb b) (fsDb c)" "fsCharges c = fsCharges b @ ds"
      "\<forall>x \<in> set ds. on_record x (fsDb c)"
    using assms unfolding fires_def by blast
  then have "fsCharges c = fsCharges a @ (cs @ ds) \<and> (\<forall>x \<in> set (cs @ ds). on_record x (fsDb c))"
    using record_kept [OF 2(2)] by auto
  then show "filed (fsDb c) \<and> kept (fsDb a) (fsDb c) \<and>
      (\<exists>cs. fsCharges c = fsCharges a @ cs \<and> (\<forall>x \<in> set cs. on_record x (fsDb c)))"
    using 1(2) 2(1,2) kept_trans by blast
qed

lemma fires_db: "files (fsDb s) d \<Longrightarrow> fires s (s\<lparr>fsDb := d\<rparr>)"
  by (simp add: files_def fires_def)

lemma fires_in_db: "keeps files m \<Longrightarrow> keeps fires (in_db m)"
  by (auto simp: keeps_def in_db_def split: prod.split) (metis fires_db snd_conv)

interpretation firing: state_preorder fires
  by unfold_locales (blast intro: fires_refl fires_trans)+

lemmas fires_andThen = firing.kept_then

lemmas fires_simple = firing.kept_simple

lemma keeps_fires: "(\<And>s. fires s (snd (m s))) \<Longrightarrow> keeps fires m"
  by (simp add: keeps_def)

text \<open>A charge of an attempt on file.\<close>

lemma fires_charge:
  assumes "p \<in> set (payments (fsDb s))" and "files (fsDb s) d"
  shows "fires s (s\<lparr>fsCharges := fsCharges s @ [charge_of p], fsDb := d\<rparr>)"
proof -
  have "on_record (charge_of p) d" if "kept (fsDb s) d"
    using record_kept [OF that] assms(1) by (auto simp: on_record_def)
  then show ?thesis using assms(2) by (auto simp: fires_def files_def)
qed

lemma files_close: "files d (close_attempt E pay i failure why d)"
  unfolding close_attempt_def
  by (rule files_trans [OF files_set_payment quiet_files [OF quiet_set_retry]])
    (simp add: payment_terms_def)

lemma fires_call:
  assumes "p \<in> set (payments (fsDb s))"
  shows "fires s (snd (call_provider G E i p s))"
proof -
  have r: "s\<lparr>fsCharges := cs\<rparr> = s\<lparr>fsCharges := cs, fsDb := fsDb s\<rparr>" for cs by simp
  show ?thesis unfolding call_provider_def Let_def
    using fires_charge [OF assms files_refl] fires_charge [OF assms files_close]
      fires_charge [OF assms files_set_payment]
    by (auto split: create_outcome.split simp: payment_terms_def)
qed

lemma fires_checked:
  assumes "p \<in> set (payments (fsDb s))"
  shows "fires s (snd (dispatch_checked G E inst i ag settled p s))"
  using fires_call [OF assms] fires_db [OF files_close]
  by (auto simp: dispatch_checked_def split: option.split)

lemma found_mem: "find_payment i d = Some p \<Longrightarrow> p \<in> set (payments d)"
  by (rule lookup_by_Some_mem)

lemma fires_dispatch: "keeps fires (dispatch_transaction G E inst i pay ag)"
  by (rule keeps_fires) (auto simp: dispatch_transaction_def fires_checked found_mem split: option.split)

lemma fires_not_found: "keeps fires (not_found_transaction G E inst i p)"
  by (rule keeps_fires) (auto simp: not_found_transaction_def fires_checked found_mem split: option.split)

section \<open>Every operation of the execution\<close>

lemma quiet_conflict: "quiet d (record_legacy_conflict E i cand kind old d)"
  by (simp add: record_legacy_conflict_def quiet_audit)

lemma quiet_adopt: "quiet d (snd (validate_and_adopt E i cand d))"
  using quiet_conflict quiet_set_retry by (auto simp: validate_and_adopt_def split: option.split)

lemma quiet_deferred: "quiet d (mark_resolution_deferred i t d)"
  by (simp add: mark_resolution_deferred_def quiet_set_retry)

lemma keeps_repair: "keeps files (repair_and_apply E i cand)"
proof -
  have a: "files d (snd (apply_cleared_payment E cand d))" for d
    by (rule quiet_files [OF quiet_apply_cleared])
  have "files d (snd (case apply_cleared_payment E cand d of
         (Inl e, s1) \<Rightarrow> (Inr RepairDeferred, mark_resolution_deferred i (clock E + ambiguous_backoff_ms) s1)
       | (Inr res, s1) \<Rightarrow>
           (case res of
              AppliedTo _ \<Rightarrow> (Inr Repaired, s1)
            | AlreadyApplied _ \<Rightarrow> (Inr AlreadyComplete, s1)
            | LineageNotCorrelated \<Rightarrow> (Inr RepairNotApplicable, s1)
            | ApplyConflict _ \<Rightarrow>
                (Inr RepairConflict, record_legacy_conflict E i cand ''application'' (Some cand) s1)
            | NotYetDurable _ \<Rightarrow> (Inr RepairDeferred, s1))))" for d
    using a [of d] files_trans [OF a [of d] quiet_files [OF quiet_conflict]]
      files_trans [OF a [of d] quiet_files [OF quiet_deferred]]
    by (auto split: prod.splits sum.splits apply_outcome.splits)
  then show ?thesis unfolding repair_and_apply_def
    by (intro files_andThen) (auto simp: keeps_def quiet_files [OF quiet_adopt] files_simple)
qed

lemma quiet_fired_if_claimed: "quiet d (mark_retry_fired_if_claimed E i d)"
  by (simp add: mark_retry_fired_if_claimed_def quiet_set_retry split: option.split)

lemma keeps_adopt_resolved: "keeps files (adopt_resolved E i pay)"
  unfolding adopt_resolved_def
  by (intro files_andThen keeps_repair)
    (auto intro!: files_andThen keeps_files_update quiet_files quiet_fired_if_claimed simp: files_simple)

lemma keeps_found_outcome: "keeps files (apply_found_outcome W G E p f i token)"
proof -
  have 1: "keeps files (\<lambda>s. if paProviderId p \<noteq> None then (Inr (), s)
       else if map_option paProviderId (find_payment (paId p) s) \<noteq> Some None then (Inr (), s)
       else if provider_id_taken (paId p) \<lparr>pfProviderId = Some (fpId f), pfFailure = None\<rparr> s
       then (Inl (ForeignError ''payment_attempt_provider_payment_id_unique''), s)
       else (Inr (), set_payment (paId p) (\<lambda>q. q\<lparr>paProviderId := Some (fpId f)\<rparr>) s))"
    by (auto simp: keeps_def payment_terms_def intro!: files_set_payment)
  have 2: "files d (if b then snd (receive_internal_event W E pr ev ty payload d)
      else set_payment (paId p) (\<lambda>q. if paStatus q = PSubmitted
         then q\<lparr>paStatus := PProcessing, paUpdatedAt := clock E\<rparr> else q) d)" for d b pr ev ty payload
    using files_internal_event files_set_payment by (auto simp: payment_terms_def)
  have 3: "quiet d (case token of None \<Rightarrow> d | Some t \<Rightarrow> mark_retry_fired i t pay now d)" for d pay now
    by (simp add: mark_retry_fired_def quiet_set_retry split: option.split)
  show ?thesis unfolding apply_found_outcome_def
    by (intro files_andThen 1 keeps_files_update 2 quiet_files [OF 3] files_simple)
qed

lemma keeps_submitted_anchor: "keeps files (resolve_submitted_anchor W G E p i)"
  using keeps_found_outcome [of W G E p]
  by (auto simp: resolve_submitted_anchor_def keeps_def split: sum.split option.split)

lemma keeps_intent: "keeps files (establish_durable_dispatch_intent E inst i inp ag)"
proof -
  have "keeps files (andThen (update (\<lambda>s. (set_retry i (claimed_retry (nextId s)) s)\<lparr>nextId := Suc (nextId s)\<rparr>)) (\<lambda>_.
        andThen (insert_pending E inp) (\<lambda>p.
        andThen (update (set_retry i (\<lambda>r. r\<lparr>rtResulting := Some (paId p)\<rparr>))) (\<lambda>_.
        ret (Ready (paId p))))))"
    by (intro files_andThen keeps_files_update quiet_files files_simple quiet_set_retry)
      (auto simp: quiet_def set_retry_def keeps_def files_insert)
  then have "files s (snd (intent_transaction E inst i inp ag s))" for s
    unfolding intent_transaction_def keeps_def by (auto split: option.split)
  then show ?thesis by (simp add: establish_durable_dispatch_intent_def keeps_def files_atomically)
qed

lemma fires_if: "keeps fires m \<Longrightarrow> keeps fires n \<Longrightarrow> keeps fires (if b then m else n)"
  by simp

lemma keeps_provider_call: "keeps fires (dispatch_provider_call W G E inst i pay ag)"
  unfolding dispatch_provider_call_def
  by (intro fires_andThen fires_dispatch)
    (auto split: dispatch.split intro!: fires_andThen fires_in_db keeps_adopt_resolved
      keeps_submitted_anchor simp: fires_simple)

lemma keeps_execute: "keeps fires (claim_and_execute_retry W G E r pr payer recipient)"
  unfolding claim_and_execute_retry_def
  by (intro fires_andThen fires_in_db keeps_intent)
    (auto split: intent.split simp: fires_simple keeps_provider_call)

lemma keeps_resolve_not_found: "keeps fires (resolve_not_found W G E p inst i)"
  unfolding resolve_not_found_def
  by (intro fires_andThen fires_not_found)
    (auto split: dispatch.split intro!: fires_andThen fires_in_db keeps_adopt_resolved
      keeps_submitted_anchor simp: fires_simple)

lemma keeps_resolve: "keeps fires (resolve_ambiguous_retry W G E i)"
proof (rule keeps_fires)
  fix s
  have 1: "keeps fires (andThen (in_db (adopt_resolved E i (paId p))) (\<lambda>ok. ret (f ok)))" for p :: payment_row and f :: "bool \<Rightarrow> resolution"
    by (intro fires_andThen fires_in_db keeps_adopt_resolved fires_simple)
  have 2: "keeps fires (andThen (in_db (validate_and_adopt E i (paId p))) (\<lambda>a.
        if a = AdoptionNotApplicable then ret NotApplicable
        else if a = AdoptionConflict then ret StillAmbiguous
        else (\<lambda>s. case gwLookup G k of
            Inl e \<Rightarrow> (Inl e, s)
          | Inr (Some f) \<Rightarrow> in_db (apply_found_outcome W G E p f i t) s
          | Inr None \<Rightarrow> resolve_not_found W G E p inst i s)))" for p k t inst
  proof (intro fires_andThen fires_in_db fires_if fires_simple)
    show "keeps files (validate_and_adopt E i (paId p))"
      by (simp add: keeps_def quiet_files [OF quiet_adopt])
    show "keeps fires (\<lambda>s. case gwLookup G k of
            Inl e \<Rightarrow> (Inl e, s)
          | Inr (Some f) \<Rightarrow> in_db (apply_found_outcome W G E p f i t) s
          | Inr None \<Rightarrow> resolve_not_found W G E p inst i s)"
      using fires_in_db [OF keeps_found_outcome] keeps_resolve_not_found
      by (auto simp: keeps_def split: sum.split option.split)
  qed
  show "fires s (snd (resolve_ambiguous_retry W G E i s))"
    unfolding resolve_ambiguous_retry_def
    using 1 [unfolded keeps_def] 2 [unfolded keeps_def] by (auto split: option.split)
qed

section \<open>The job\<close>

lemma quiet_mark_canceled: "quiet d (snd (mark_canceled E i why d))"
  by (simp add: mark_canceled_def quiet_set_retry split: option.split)

lemma fires_fire_one: "fires s (snd (fire_one F E M r p m s))"
  using keeps_execute by (auto simp: fire_one_def keeps_def split: sum.split option.split)

lemma fires_fire_each: "fires s (snd (fire_each F E M rs n s))"
proof (induction rs arbitrary: n s)
  case (Cons r rs)
  note ih = fires_trans [OF _ Cons.IH]
  show ?case
  proof (cases "Option.bind (find_payment (rtOriginal r) (fsDb s)) (\<lambda>p. map_option (\<lambda>m. (p, m)) (paMethod p))")
    case None
    then show ?thesis using Cons.IH by simp
  next
    case (Some pm)
    obtain p m where pm: "pm = (p, m)" by fastforce
    obtain res s1 where 1: "fire_one F E M r p m s = (res, s1)" by fastforce
    have f: "fires s s1" using fires_fire_one 1 by (metis snd_conv)
    have c: "fires s (s1\<lparr>fsDb := snd (mark_canceled E (rtId r) why (fsDb s1))\<rparr>)" for why
      using fires_trans [OF f] fires_db [OF quiet_files [OF quiet_mark_canceled]] by blast
    show ?thesis
    proof (cases res)
      case (Inl e)
      obtain b d where d: "mark_canceled E (rtId r) (''Firing failed: '' @ error_message e) (fsDb s1) = (b, d)"
        by fastforce
      have "fires s (s1\<lparr>fsDb := d\<rparr>)" using c [of "''Firing failed: '' @ error_message e"] d by simp
      then show ?thesis using ih Some pm 1 Inl d by simp
    next
      case (Inr x)
      then show ?thesis using ih [OF f] Some pm 1 by (cases x) simp_all
    qed
  qed
qed simp

lemma fires_deferred: "fires s (s\<lparr>fsDb := mark_resolution_deferred i t (fsDb s)\<rparr>)"
  by (intro fires_db quiet_files quiet_deferred)

lemma fires_resume_each: "fires s (snd (resume_each F E rs n s))"
proof (induction rs arbitrary: n s)
  case (Cons r rs)
  obtain res s1 where 1: "resolve_ambiguous_retry (fdWorkflow F) (fdGateway F) E (rtId r) s = (res, s1)" by fastforce
  have f: "fires s s1" using keepsD [OF keeps_resolve 1] .
  note ih = fires_trans [OF f Cons.IH] fires_trans [OF fires_trans [OF f fires_deferred] Cons.IH]
  show ?case using ih f 1 by (auto simp: Let_def split: sum.split resolution.split)
qed simp

lemma fires_job: "fires s (snd (fire_due_retries F E M k s))"
proof -
  obtain n s1 where 1: "fire_each F E M (find_due_for_firing (clock E) k (fsDb s))
      \<lparr>fcFired = 0, fcCanceled = 0, fcAmbiguous = 0, fcResolved = 0\<rparr> s = (n, s1)" by fastforce
  then have "fires s s1" using fires_fire_each by (metis snd_conv)
  then show ?thesis using fires_trans [OF _ fires_resume_each] 1 by (simp add: fire_due_retries_def)
qed

text \<open>The scheduled job and the webhook endpoints, in any order.\<close>

datatype charge_op = FireDue fire_deps method_db nat | HandleEvent provider_deps workflow_deps handler_op

fun run_charge_op :: "env \<times> charge_op \<Rightarrow> fire_state \<Rightarrow> fire_state" where
  "run_charge_op (E, FireDue F M k) s = snd (fire_due_retries F E M k s)"
| "run_charge_op (E, HandleEvent P W op) s = s\<lparr>fsDb := run_handler P W E op (fsDb s)\<rparr>"

lemma fires_op: "fires s (run_charge_op eop s)"
  by (cases "(eop, s)" rule: run_charge_op.cases) (simp_all add: fires_job fires_db files_handler)

lemma fires_ops: "fires s (fold run_charge_op ops s)"
proof (induction ops arbitrary: s)
  case (Cons eop ops)
  show ?case using fires_trans [OF fires_op Cons.IH] by simp
qed simp


section \<open>A charge is owed\<close>

lemma in_db_charges: "in_db m s = (r, s') \<Longrightarrow> fsCharges s' = fsCharges s"
  by (auto simp: in_db_def split: prod.splits)

definition owed :: "uuid \<Rightarrow> uuid option \<Rightarrow> payment_row \<Rightarrow> db \<Rightarrow> bool" where
  "owed inst ag p d \<longleftrightarrow> paStatus p = PSubmitted \<and> \<not> satisfied_now inst d \<and> ceiling_error inst (paAmount p) d = None \<and>
     (\<forall>a left. ag = Some a \<longrightarrow> remaining_balance_tx a d = Some left \<longrightarrow> paAmount p \<le> left)"

lemma checked_charges:
  assumes "dispatch_checked G E inst i ag settled p s = (r, s')" and "paStatus p = PSubmitted"
  shows "fsCharges s' = fsCharges s \<or> fsCharges s' = fsCharges s @ [charge_of p] \<and> owed inst ag p (fsDb s)"
  using assms by (auto simp: dispatch_checked_def owed_def call_provider_def Let_def
      split: if_splits option.splits create_outcome.splits)

lemma dispatch_charges:
  assumes "dispatch_transaction G E inst i pay ag s = (r, s')"
  shows "fsCharges s' = fsCharges s \<or> (\<exists>p. find_payment pay (fsDb s) = Some p \<and>
    fsCharges s' = fsCharges s @ [charge_of p] \<and> owed inst (Some ag) p (fsDb s))"
  using assms checked_charges [of G E inst i "Some ag" DispatchNotClaimable _ s r s']
  by (auto simp: dispatch_transaction_def split: if_splits option.splits)

lemma after_db_charges:
  assumes "andThen (in_db m) (\<lambda>x. ret (f x)) s = (r, s')"
  shows "fsCharges s' = fsCharges s"
  using assms by (auto simp: andThen_def dest: in_db_charges split: prod.splits sum.splits)

lemma provider_call_charges:
  assumes "dispatch_provider_call W G E inst i pay ag s = (r, s')"
  shows "fsCharges s' = fsCharges s \<or> (\<exists>p. find_payment pay (fsDb s) = Some p \<and>
    fsCharges s' = fsCharges s @ [charge_of p] \<and> owed inst (Some ag) p (fsDb s))"
proof -
  obtain d s1 where 1: "dispatch_transaction G E inst i pay ag s = (d, s1)" by fastforce
  have "fsCharges s' = fsCharges s1"
    using assms 1
    by (auto simp: dispatch_provider_call_def andThen_def [of "dispatch_transaction G E inst i pay ag"]
        dest: after_db_charges split: sum.splits dispatch.splits if_splits)
  then show ?thesis using dispatch_charges [OF 1] by simp
qed

lemma resolve_not_found_charges:
  assumes "resolve_not_found W G E p inst i s = (r, s')"
  shows "fsCharges s' = fsCharges s \<or> (\<exists>q. find_payment (paId p) (fsDb s) = Some q \<and>
    fsCharges s' = fsCharges s @ [charge_of q] \<and> owed inst (paAgreement q) q (fsDb s))"
proof -
  obtain d s1 where 1: "not_found_transaction G E inst i p s = (d, s1)" by fastforce
  have "fsCharges s' = fsCharges s1"
    using assms 1
    by (auto simp: resolve_not_found_def andThen_def [of "not_found_transaction G E inst i p"]
        dest: after_db_charges in_db_charges split: sum.splits dispatch.splits if_splits)
  then show ?thesis
    using 1 checked_charges [of G E inst i _ "DispatchFailed ''InstallmentSettled''" _ s d s1]
    by (auto simp: not_found_transaction_def split: if_splits option.splits)
qed

lemma owed_amount:
  assumes "owed inst ag p d" and "rows_sound d" and "find_installment inst d = Some i" and "int4_ok (inAmount i)"
  shows "total_paid (installment_entries inst d) + paAmount p \<le> inAmount i"
proof -
  let ?es = "installment_entries inst d"
  have i: "i \<in> set (installments d)" "inId i = inst"
    using lookup_by_Some_mem [OF assms(3)] lookup_by_Some_key [OF assms(3)] by simp_all
  have safe: "safe_journal ?es" using assms(2) i by (auto simp: rows_sound_def list_all_iff)
  note r = reconstruct_exact [OF safe]
  have "total_paid ?es < inAmount i" "0 \<le> total_paid ?es"
    using assms(1,3) r total_paid_nonneg safe
    by (auto simp: owed_def satisfied_now_def installment_settlement_tx_def
        compute_installment_settlement_def Let_def safe_journal_def)
  then have "safe_int (inAmount i - total_paid ?es)"
    using assms(4) by (auto simp: int4_ok_def safe_int_def max_safe_def)
  then show ?thesis
    using assms(1,3) r js_sub_exact
    by (auto simp: owed_def ceiling_error_def installment_settlement_tx_def
        compute_installment_settlement_def Let_def split: if_splits)
qed

lemma owed_cong:
  assumes "installment_entries inst d' = installment_entries inst d" and "installments d' = installments d"
    and "entries d' = entries d" and "agreements d' = agreements d" and "versions d' = versions d"
  shows "owed inst ag p d' = owed inst ag p d"
proof -
  have "installment_settlement_tx inst d' = installment_settlement_tx inst d"
    unfolding installment_settlement_tx_def assms ..
  moreover have "remaining_balance_tx a d' = remaining_balance_tx a d" for a
    unfolding remaining_balance_tx_def list_for_agreement_def assms ..
  ultimately show ?thesis by (simp add: owed_def satisfied_now_def ceiling_error_def)
qed

lemma intent_ready:
  assumes "known_payments d" and "establish_durable_dispatch_intent E inst i inp ag d = (Inr (Ready q), d1)"
  shows "\<exists>p. find_payment q d1 = Some p \<and> paKey p = piKey inp \<and> 0 < paAmount p \<and>
    (\<forall>j ag p. owed j ag p d1 = owed j ag p d)"
proof -
  let ?d = "(set_retry i (claimed_retry (nextId d)) d)\<lparr>nextId := Suc (nextId d)\<rparr>"
  let ?p = "pending_row E (nextId ?d) inp"
  have d1: "q = paId ?p" "0 < piAmount inp"
    "d1 = set_retry i (\<lambda>r. r\<lparr>rtResulting := Some q\<rparr>) (?d\<lparr>payments := payments ?d @ [?p], nextId := Suc (nextId ?d)\<rparr>)"
    using assms(2)
    by (auto simp: establish_durable_dispatch_intent_def atomically_Inr intent_transaction_def andThen_def
        insert_pending_def Let_def split: if_splits option.splits prod.splits sum.splits)
  have k: "known_payments ?d"
    using assms(1) by (auto simp: known_payments_def set_retry_def list_all_iff less_SucI)
  have "installment_entries j d1 = installment_entries j d" for j
  proof -
    have "installment_entries j d1 = installment_entries j (?d\<lparr>payments := payments ?d @ [?p], nextId := Suc (nextId ?d)\<rparr>)"
      by (simp add: d1(3) installment_entries_def set_retry_def)
    also have "\<dots> = installment_entries j ?d" by (rule installment_entries_new_payment [OF k]) (simp add: pending_row_def)
    finally show ?thesis by (simp add: installment_entries_def set_retry_def)
  qed
  then have "owed j ag p d1 = owed j ag p d" for j ag p
    by (rule owed_cong) (simp_all add: d1(3) set_retry_def)
  moreover have "find_payment q d = None" using assms(1) d1(1)
    by (auto simp: known_payments_def list_all_iff lookup_by_None_iff pending_row_def)
  then have "find_payment q d1 = Some ?p" using d1(1) by (simp add: d1(3) set_retry_def lookup_by_append)
  ultimately show ?thesis using d1(2) by (auto simp: pending_row_def)
qed

lemma intent_again:
  assumes "known_payments d" and "establish_durable_dispatch_intent E inst i inp ag d = (Inr (AlreadyDispatched q), d1)"
  shows "d1 = d \<and> (\<exists>p. find_payment q d = Some p \<and> paKey p = piKey inp \<and> 0 < paAmount p)"
proof -
  obtain p where p: "d1 = d" "find_by_idempotency_key (piKey inp) d = Some p" "q = paId p"
    using assms(2)
    by (auto simp: establish_durable_dispatch_intent_def atomically_Inr intent_transaction_def andThen_def
        split: if_splits option.splits prod.splits sum.splits)
  have "p \<in> set (payments d)" "paKey p = piKey inp"
    using p(2) by (auto simp: find_by_idempotency_key_def dest: lookup_by_Some_mem lookup_by_Some_key)
  then show ?thesis using p(1,3) assms(1) lookup_by_distinct [of paId "payments d" p]
    by (auto simp: known_payments_def list_all_iff)
qed

lemma execute_charges:
  assumes "claim_and_execute_retry W G E r pr payer recipient s = (res, s')" and "known_payments (fsDb s)"
  shows "fsCharges s' = fsCharges s \<or> (\<exists>p. fsCharges s' = fsCharges s @ [charge_of p] \<and>
    paKey p = retry_key (rtId r) \<and> 0 < paAmount p \<and>
    owed (rtInstallment r) (Some (rtAgreement r)) p (fsDb s))"
proof -
  let ?inp = "retry_pending (retry_key (rtId r)) (rtAgreement r) (rtInstallment r) (gwName G) pr payer recipient"
  obtain n d1 where 1: "establish_durable_dispatch_intent E (rtInstallment r) (rtId r) ?inp (rtAgreement r) (fsDb s) = (n, d1)"
    by fastforce
  let ?s1 = "s\<lparr>fsDb := d1\<rparr>"
  have k: "piKey ?inp = retry_key (rtId r)" by (simp add: retry_pending_def)
  have c: "fsCharges s' = fsCharges s \<or> (\<exists>p. find_payment q d1 = Some p \<and>
      fsCharges s' = fsCharges s @ [charge_of p] \<and> owed (rtInstallment r) (Some (rtAgreement r)) p d1)"
    if "dispatch_provider_call W G E (rtInstallment r) (rtId r) q (rtAgreement r) ?s1 = (res, s')" for q
    using provider_call_charges [OF that] by simp
  have u: "claim_and_execute_retry W G E r pr payer recipient s = (case n of
      Inl e \<Rightarrow> (Inl e, ?s1) | Inr NotClaimable \<Rightarrow> (Inr ExecNotClaimable, ?s1)
    | Inr (Ready q) \<Rightarrow> dispatch_provider_call W G E (rtInstallment r) (rtId r) q (rtAgreement r) ?s1
    | Inr (AlreadyDispatched q) \<Rightarrow> dispatch_provider_call W G E (rtInstallment r) (rtId r) q (rtAgreement r) ?s1)"
    by (simp add: claim_and_execute_retry_def andThen_def in_db_def 1 split: sum.split intent.split)
  show ?thesis
  proof (cases n)
    case (Inl e)
    then show ?thesis using u assms(1) by auto
  next
    case (Inr x)
    show ?thesis
    proof (cases x)
      case NotClaimable
      then show ?thesis using u assms(1) Inr by auto
    next
      case (Ready q)
      then show ?thesis
        using u assms(1) Inr c [of q] intent_ready [OF assms(2), of E "rtInstallment r" "rtId r" ?inp "rtAgreement r" q d1] 1 k
        by auto
    next
      case (AlreadyDispatched q)
      then show ?thesis
        using u assms(1) Inr c [of q] intent_again [OF assms(2), of E "rtInstallment r" "rtId r" ?inp "rtAgreement r" q d1] 1 k
        by auto
    qed
  qed
qed

lemma adopt_accepted:
  assumes "validate_and_adopt E i cand d = (Inr a, d1)" and "a = Adopted \<or> a = AlreadyAdopted"
  shows "\<exists>r p. find_retry i d = Some r \<and> find_payment cand d = Some p \<and> paAgreement p = Some (rtAgreement r) \<and>
    d1 = set_retry i (\<lambda>r. r\<lparr>rtResulting := Some cand\<rparr>) d"
  using assms by (auto simp: validate_and_adopt_def split: if_splits option.splits)

lemma resolve_charges:
  assumes "resolve_ambiguous_retry W G E (rtId r) s = (res, s')" and "find_retry (rtId r) (fsDb s) = Some r"
    and "known_payments (fsDb s)"
  shows "fsCharges s' = fsCharges s \<or> (\<exists>p. fsCharges s' = fsCharges s @ [charge_of p] \<and>
    paKey p = retry_key (rtId r) \<and> 0 < paAmount p \<and>
    owed (rtInstallment r) (Some (rtAgreement r)) p (fsDb s))"
proof (cases "rtStatus r \<noteq> RtClaimed \<or> find_by_idempotency_key (retry_key (rtId r)) (fsDb s) = None")
  case True
  then show ?thesis using assms(1,2) by (auto simp: resolve_ambiguous_retry_def split: if_splits)
next
  case False
  then obtain p where p: "find_by_idempotency_key (retry_key (rtId r)) (fsDb s) = Some p" by auto
  then have m: "p \<in> set (payments (fsDb s))" "paKey p = retry_key (rtId r)"
    by (auto simp: find_by_idempotency_key_def dest: lookup_by_Some_mem lookup_by_Some_key)
  then have f: "find_payment (paId p) (fsDb s) = Some p" "0 < paAmount p"
    using assms(3) lookup_by_distinct [of paId "payments (fsDb s)" p]
    by (auto simp: known_payments_def list_all_iff)
  show ?thesis
  proof (cases "paStatus p = PSubmitted")
    case resolved: False
    then show ?thesis
      using assms(1,2) p False by (auto simp: resolve_ambiguous_retry_def dest: after_db_charges)
  next
    case True
    obtain a d1 where 1: "validate_and_adopt E (rtId r) (paId p) (fsDb s) = (a, d1)" by fastforce
    let ?s1 = "s\<lparr>fsDb := d1\<rparr>"
    have u: "(res, s') = (case a of Inl e \<Rightarrow> (Inl e, ?s1)
      | Inr a \<Rightarrow> (if a = AdoptionNotApplicable then (Inr NotApplicable, ?s1)
        else if a = AdoptionConflict then (Inr StillAmbiguous, ?s1)
        else case gwLookup G (retry_key (rtId r)) of
            Inl e \<Rightarrow> (Inl e, ?s1)
          | Inr (Some f) \<Rightarrow> in_db (apply_found_outcome W G E p f (rtId r) (rtToken r)) ?s1
          | Inr None \<Rightarrow> resolve_not_found W G E p (rtInstallment r) (rtId r) ?s1))"
      using assms(1,2) p False True 1
      by (cases a) (auto simp: resolve_ambiguous_retry_def andThen_def in_db_def)
    show ?thesis
    proof (cases "fsCharges s' = fsCharges s")
      case new: False
      then obtain b where b: "a = Inr b" "b = Adopted \<or> b = AlreadyAdopted"
        "resolve_not_found W G E p (rtInstallment r) (rtId r) ?s1 = (res, s')"
        using u in_db_charges [of "apply_found_outcome W G E p _ (rtId r) (rtToken r)" ?s1 res s']
        by (cases a) (auto split: if_splits sum.splits option.splits adoption.splits intro: adoption.exhaust)
      then have d1: "d1 = set_retry (rtId r) (\<lambda>r. r\<lparr>rtResulting := Some (paId p)\<rparr>) (fsDb s)"
        "paAgreement p = Some (rtAgreement r)"
        using adopt_accepted [of E "rtId r" "paId p" "fsDb s" b d1] 1 assms(2) f(1) by auto
      have "owed j ag q d1 = owed j ag q (fsDb s)" for j ag q
        by (rule owed_cong) (simp_all add: d1(1) set_retry_def installment_entries_def)
      moreover have "find_payment (paId p) d1 = Some p" using f(1) by (simp add: d1(1) set_retry_def)
      ultimately show ?thesis
        using resolve_not_found_charges [OF b(3)] new m(2) f(2) d1(2) by auto
    qed simp
  qed
qed

text \<open>
  C33. A retry charges only what is still owed: whether a due retry is claimed and sent or a claimed
  one is resumed after an unknown outcome, at most one new charge reaches the provider, it carries
  the key of that retry, and together with what is already settled it stays within the amount of the
  installment and within the remaining balance of the agreement, by the ledger as it stood when the
  operation began; an installment that is covered is never charged.
\<close>

theorem retry_charge_is_owed:
  assumes "known_payments (fsDb s)" and "rows_sound (fsDb s)" and "find_retry (rtId r) (fsDb s) = Some r"
    and "find_installment (rtInstallment r) (fsDb s) = Some i" and "int4_ok (inAmount i)"
    and "s' = snd (claim_and_execute_retry W G E r pr payer recipient s) \<or>
      s' = snd (resolve_ambiguous_retry W G E (rtId r) s)"
  shows "fsCharges s' = fsCharges s \<or>
    (\<exists>c. fsCharges s' = fsCharges s @ [c] \<and> chKey c = retry_key (rtId r) \<and> 0 < chAmount c \<and>
       total_paid (installment_entries (rtInstallment r) (fsDb s)) + chAmount c \<le> inAmount i \<and>
       (\<forall>left. remaining_balance_tx (rtAgreement r) (fsDb s) = Some left \<longrightarrow> chAmount c \<le> left))"
proof -
  have "fsCharges s' = fsCharges s \<or> (\<exists>p. fsCharges s' = fsCharges s @ [charge_of p] \<and>
      paKey p = retry_key (rtId r) \<and> 0 < paAmount p \<and>
      owed (rtInstallment r) (Some (rtAgreement r)) p (fsDb s))"
    using execute_charges [OF prod.collapse [symmetric] assms(1)]
      resolve_charges [OF prod.collapse [symmetric] assms(3,1)] assms(6) by blast
  moreover have "total_paid (installment_entries (rtInstallment r) (fsDb s)) + paAmount p \<le> inAmount i"
    if "owed (rtInstallment r) ag p (fsDb s)" for ag p
    using owed_amount [OF that assms(2,4,5)] .
  ultimately show ?thesis by (auto simp: charge_of_def) (auto simp: owed_def)
qed

section \<open>A failed payment of 60 and its retry\<close>

definition due_retry :: retry_row where
  "due_retry = \<lparr>rtId = 30, rtOriginal = 7, rtInstallment = 20, rtAgreement = 1, rtScheduledFor = 0,
     rtStatus = RtScheduled, rtResulting = None, rtFiredAt = None, rtCanceledAt = None,
     rtCanceledReason = None, rtToken = None, rtNextResolution = None\<rparr>"

definition sample_prepared :: prepared_retry where
  "sample_prepared = \<lparr>prAmount = 60, prCurrency = ''USD'', prMethod = Ach, prBank = None\<rparr>"

definition sample_fire :: fire_state where
  "sample_fire = \<lparr>fsDb = sample_failed_db\<lparr>retries := [due_retry]\<rparr>, fsCharges = []\<rparr>"

definition silent_gateway :: gateway where
  "silent_gateway = \<lparr>gwName = ''sandbox'', gwCreate = (\<lambda>_. AmbiguousResponse), gwLookup = (\<lambda>_. Inr None)\<rparr>"

abbreviation sample_execution :: "fire_state" where
  "sample_execution \<equiv> snd (claim_and_execute_retry sample_workflow silent_gateway toy_env due_retry
     sample_prepared (PersonalProfile, 101) (PersonalProfile, 102) sample_fire)"

lemma sample_execution_runs:
  "map (\<lambda>c. (chKey c, chAmount c)) (fsCharges sample_execution) = [(''retry-30'', 60)]"
  by code_simp

lemma sample_fire_ok:
  "known_payments (fsDb sample_fire)" "rows_sound (fsDb sample_fire)" "filed (fsDb sample_fire)"
  by (simp_all add: sample_fire_def known_payments_def rows_sound_def filed_def books_ok_def
      payments_keyed_def ledger_ok_def journal_defs sample_failed_db_def sample_open_db_def empty_db_def
      sample_payment_def sample_agreement_def)

definition sample_fire_deps :: fire_deps where
  "sample_fire_deps = \<lparr>fdPay = sample_pay_deps, fdWorkflow = sample_workflow, fdGateway = silent_gateway,
     fdThrown = (\<lambda>_. (\<lambda>_. \<lparr>tnQuery = False, tnName = None, tnCode = None, tnCause = None\<rparr>, 0))\<rparr>"


theorem retry_charge_is_owed_witness:
  "\<exists>c. fsCharges sample_execution = [c] \<and> chAmount c \<le> 100 \<and> chKey c = ''retry-30''"
proof -
  let ?i = "\<lparr>inId = 20, inVersion = 10, inSequence = 1, inDueDate = ''2026-01-31'',
     inAmount = 100, inStatus = InstScheduled\<rparr>"
  have r: "find_retry (rtId due_retry) (fsDb sample_fire) = Some due_retry"
    "find_installment (rtInstallment due_retry) (fsDb sample_fire) = Some ?i"
    by (simp_all add: sample_fire_def due_retry_def)
  have z: "total_paid (installment_entries (rtInstallment due_retry) (fsDb sample_fire)) = 0"
    by (simp add: sample_fire_def installment_entries_def total_paid_def by_payment_def group_total_def)
  have "fsCharges sample_fire = []" by (simp add: sample_fire_def)
  then show ?thesis
    using retry_charge_is_owed [OF sample_fire_ok(1,2) r _ disjI1 [OF refl], of sample_workflow
        silent_gateway toy_env sample_prepared "(PersonalProfile, 101)" "(PersonalProfile, 102)"]
      sample_execution_runs z
    by (auto simp: int4_ok_def)
qed

section \<open>Which errors stop the job\<close>

text \<open>The object \<open>k\<close> causes behind \<open>node\<close>.\<close>

fun cause_at :: "(nat \<Rightarrow> thrown_node) \<Rightarrow> nat option \<Rightarrow> nat \<Rightarrow> nat option" where
  "cause_at h node 0 = node"
| "cause_at h node (Suc k) = Option.bind (cause_at h node k) (\<lambda>a. tnCause (h a))"

lemma cause_at_None [simp]: "cause_at h None k = None"
  by (induction k) simp_all

lemma cause_at_shift: "cause_at h (Some a) (Suc k) = cause_at h (tnCause (h a)) k"
  by (induction k) simp_all

text \<open>What the walk has seen is harmless and leads only to what it has seen or to where it stands.\<close>

definition harmless_trail :: "(nat \<Rightarrow> thrown_node) \<Rightarrow> nat option \<Rightarrow> nat list \<Rightarrow> bool" where
  "harmless_trail h node vs \<longleftrightarrow> (\<forall>v \<in> set vs. \<not> is_database_fatal_signal (h v) \<and>
     (tnCause (h v) = node \<or> tnCause (h v) \<in> Some ` set vs))"

lemma trail_cycle:
  assumes "harmless_trail h (Some a) vs" and "a \<in> set vs"
  shows "cause_at h (Some a) k \<in> Some ` set vs"
  using assms by (induction k) (auto simp: harmless_trail_def)

lemma fatal_within_exact:
  "harmless_trail h node vs \<Longrightarrow> fatal_within k vs h node \<longleftrightarrow>
     (\<exists>j < k. \<exists>b. cause_at h node j = Some b \<and> is_database_fatal_signal (h b))"
proof (induction k vs h node rule: fatal_within.induct)
  case (3 k vs h a)
  show ?case
  proof (cases "a \<in> set vs")
    case True
    then have "\<not> is_database_fatal_signal (h b)" if "cause_at h (Some a) j = Some b" for j b
      using trail_cycle [OF 3(2) True, of j] that 3(2) by (auto simp: harmless_trail_def)
    then show ?thesis using True by auto
  next
    case new: False
    show ?thesis
    proof (cases "is_database_fatal_signal (h a)")
      case True
      then show ?thesis using new unfolding Ex_less_Suc2 by simp
    next
      case False
      have "harmless_trail h (tnCause (h a)) (a # vs)"
        using 3(2) False by (auto simp: harmless_trail_def)
      then have "fatal_within (Suc k) vs h (Some a) \<longleftrightarrow>
          (\<exists>j < k. \<exists>b. cause_at h (Some a) (Suc j) = Some b \<and> is_database_fatal_signal (h b))"
        using 3(1) [OF new False] new False unfolding cause_at_shift by simp
      also have "\<dots> \<longleftrightarrow> (\<exists>j < Suc k. \<exists>b. cause_at h (Some a) j = Some b \<and> is_database_fatal_signal (h b))"
        using False unfolding Ex_less_Suc2 by simp
      finally show ?thesis .
    qed
  qed
qed simp_all

text \<open>
  The job stops exactly when the database is lost: an error ends the resumption when it comes
  from a query and one of the twenty objects next in its chain of causes carries a fatal code of
  the database or of its connection; a chain that runs in a circle ends the search and hides none
  of them.
\<close>

theorem fatal_error_exact:
  "is_fatal_infrastructure_error h a \<longleftrightarrow> tnQuery (h a) \<and>
     (\<exists>k < 20. \<exists>b. cause_at h (tnCause (h a)) k = Some b \<and> is_database_fatal_signal (h b))"
proof -
  have "harmless_trail h (tnCause (h a)) []" by (simp add: harmless_trail_def)
  from fatal_within_exact [OF this] show ?thesis by (simp add: is_fatal_infrastructure_error_def)
qed

end
