(* ===== verification/Amendments.thy ===== *)
theory Amendments
  imports Agreements
begin

text \<open>
  Amendments of an agreement (\<open>amendments/amendmentService.ts\<close> over its two repositories): one party
  proposes new terms, the other accepts, rejects or counters them, both sign, and the second signature
  puts a new version in the place of the current one, in one transaction. Every write before that goes
  to the amendment's own row, unconditionally, after a check on the row that was read. Notifications,
  identity snapshots and documents, whose errors the service swallows, are left out.
\<close>

section \<open>The repository\<close>

record amendment_content =
  acRole :: party_role
  acBy :: profile_ref
  acReason :: string
  acRelief :: "string option"
  acEffective :: "string option"
  acFrequency :: payment_frequency
  acFee :: fee_allocation
  acTerms :: agreement_terms

text \<open>\<open>proposed_effective_date\<close> is a \<open>date\<close> column.\<close>

definition content_ok :: "amendment_content \<Rightarrow> bool" where
  "content_ok c \<longleftrightarrow> (case acEffective c of None \<Rightarrow> True | Some d \<Rightarrow> date_column_ok d)"

definition with_content :: "amendment_content \<Rightarrow> amendment_row \<Rightarrow> amendment_row" where
  "with_content c m = m\<lparr>amRole := acRole c, amBy := acBy c, amReason := acReason c, amRelief := acRelief c,
     amEffective := acEffective c, amFrequency := acFrequency c, amFee := acFee c, amTerms := acTerms c\<rparr>"

definition insert_amendment ::
    "env \<Rightarrow> uuid \<Rightarrow> amendment_change \<Rightarrow> amendment_content \<Rightarrow> (db, error, amendment_row) step" where
  "insert_amendment E ag change c s =
     (if \<not> content_ok c then (Inl (ForeignError ''invalid column value''), s)
      else let m = \<lparr>amId = nextId s, amAgreement = ag, amChange = change, amStatus = AmProposed,
             amRole = acRole c, amBy = acBy c, amReason = acReason c, amRelief = acRelief c,
             amEffective = acEffective c, amFrequency = acFrequency c, amFee = acFee c, amTerms = acTerms c,
             amCreditorSigned = None, amDebtorSigned = None, amSigned = None, amResulting = None,
             amRejectedReason = None, amRejectedAt = None, amWithdrawnReason = None, amWithdrawnAt = None,
             amUpdatedAt = clock E\<rparr>
           in (Inr m, s\<lparr>amendments := amendments s @ [m], nextId := Suc (nextId s)\<rparr>))"

text \<open>\<open>UPDATE \<dots> WHERE id RETURNING\<close>\<close>

definition update_amendment ::
    "env \<Rightarrow> uuid \<Rightarrow> string \<Rightarrow> (amendment_row \<Rightarrow> amendment_row) \<Rightarrow> (db, error, amendment_row) step" where
  "update_amendment E i op f s =
     (case find_amendment i s of
        None \<Rightarrow> (Inl (ConfigurationError op), s)
      | Some m \<Rightarrow> (Inr ((f m)\<lparr>amUpdatedAt := clock E\<rparr>),
          s\<lparr>amendments := update_by amId i (\<lambda>m. (f m)\<lparr>amUpdatedAt := clock E\<rparr>) (amendments s)\<rparr>))"

definition update_proposed_terms :: "env \<Rightarrow> uuid \<Rightarrow> amendment_content \<Rightarrow> (db, error, amendment_row) step" where
  "update_proposed_terms E i c =
     (if content_ok c then update_amendment E i ''amendment updateProposedTerms'' (with_content c)
      else throw (ForeignError ''invalid column value''))"

definition update_amendment_status :: "env \<Rightarrow> uuid \<Rightarrow> amendment_status \<Rightarrow> (db, error, amendment_row) step" where
  "update_amendment_status E i st = update_amendment E i ''amendment updateStatus'' (\<lambda>m. m\<lparr>amStatus := st\<rparr>)"

definition record_amendment_rejection :: "env \<Rightarrow> uuid \<Rightarrow> string option \<Rightarrow> (db, error, amendment_row) step" where
  "record_amendment_rejection E i why = update_amendment E i ''amendment recordRejection''
     (\<lambda>m. m\<lparr>amStatus := AmRejected, amRejectedReason := why, amRejectedAt := Some (clock E)\<rparr>)"

definition record_withdrawal :: "env \<Rightarrow> uuid \<Rightarrow> string option \<Rightarrow> (db, error, amendment_row) step" where
  "record_withdrawal E i why = update_amendment E i ''amendment recordWithdrawal''
     (\<lambda>m. m\<lparr>amStatus := AmWithdrawn, amWithdrawnReason := why, amWithdrawnAt := Some (clock E)\<rparr>)"

definition amendment_signed_by :: "party_role \<Rightarrow> msec \<Rightarrow> amendment_row \<Rightarrow> amendment_row" where
  "amendment_signed_by role t m =
     (case role of Creditor \<Rightarrow> m\<lparr>amCreditorSigned := Some t\<rparr> | Debtor \<Rightarrow> m\<lparr>amDebtorSigned := Some t\<rparr>)"

definition record_amendment_signature :: "env \<Rightarrow> uuid \<Rightarrow> party_role \<Rightarrow> (db, error, amendment_row) step" where
  "record_amendment_signature E i role =
     update_amendment E i ''amendment recordSignature'' (amendment_signed_by role (clock E))"

definition record_amendment_applied :: "env \<Rightarrow> uuid \<Rightarrow> uuid \<Rightarrow> (db, error, amendment_row) step" where
  "record_amendment_applied E i v = update_amendment E i ''amendment recordApplied''
     (\<lambda>m. m\<lparr>amStatus := AmApplied, amResulting := Some v\<rparr>)"

text \<open>The newest first.\<close>

definition list_amendments_for :: "uuid \<Rightarrow> db \<Rightarrow> amendment_row list" where
  "list_amendments_for ag s = rev (filter (\<lambda>m. amAgreement m = ag) (amendments s))"

section \<open>The transaction that applies an amendment\<close>

record amendment_application =
  apAgreement :: uuid
  apAmendment :: uuid
  apNumber :: int
  apParent :: uuid
  apFrequency :: payment_frequency
  apFee :: fee_allocation
  apTerms :: agreement_terms
  apSchedule :: "schedule_item list"
  apCreditorSigned :: "msec option"
  apDebtorSigned :: "msec option"
  apHash :: string
  apSignedAt :: msec
  apPause :: bool

definition amended_version :: "amendment_application \<Rightarrow> uuid \<Rightarrow> version_row" where
  "amended_version p i = \<lparr>avId = i, avAgreement = apAgreement p, avNumber = apNumber p, avParent = Some (apParent p),
     avOriginal = False, avProducedBy = ''amendment'', avFrequency = apFrequency p, avFee = apFee p,
     avTerms = apTerms p, avHash = Some (apHash p), avCreditorSigned = apCreditorSigned p,
     avDebtorSigned = apDebtorSigned p, avSigned = Some (apSignedAt p)\<rparr>"

definition insert_amended_version :: "amendment_application \<Rightarrow> (db, error, version_row) step" where
  "insert_amended_version p s =
     (if list_ex (\<lambda>x. avAgreement x = apAgreement p \<and> avNumber x = apNumber p) (versions s)
      then (Inl (ForeignError ''agreement_version_agreement_number_unique''), s)
      else let x = amended_version p (nextId s)
           in (Inr x, s\<lparr>versions := versions s @ [x], nextId := Suc (nextId s)\<rparr>))"

definition application_transaction :: "env \<Rightarrow> amendment_application \<Rightarrow> (db, error, uuid \<times> amendment_row) step" where
  "application_transaction E p =
     andThen (insert_amended_version p) (\<lambda>v.
     andThen (insert_items (avId v) (apSchedule p)) (\<lambda>_.
     andThen (update (set_agreement (apAgreement p) (\<lambda>a. a\<lparr>agCurrentVersion := Some (avId v),
       agStatus := (if apPause p then PausedByAmendment else agStatus a)\<rparr>))) (\<lambda>_.
     andThen (record_amendment_applied E (apAmendment p) (avId v)) (\<lambda>m. ret (avId v, m)))))"

definition apply_amendment_atomically :: "env \<Rightarrow> amendment_application \<Rightarrow> (db, error, uuid \<times> amendment_row) step" where
  "apply_amendment_atomically E p = atomically (application_transaction E p)"

section \<open>The service\<close>

fun change_name :: "amendment_change \<Rightarrow> string" where
  "change_name NewDate = ''new_date''"
| "change_name TemporaryPause = ''temporary_pause''"
| "change_name ReducedInstallment = ''reduced_installment''"
| "change_name RevisedSchedule = ''revised_schedule''"
| "change_name GeneralChange = ''general''"

definition amendment_audit ::
    "env \<Rightarrow> amendment_row \<Rightarrow> uuid \<Rightarrow> string \<Rightarrow> json \<Rightarrow> request_context \<Rightarrow> (db, error, unit) step" where
  "amendment_audit E m actor act v ctx = update (audit E ((blank_audit act (clock E))
     \<lparr>actorUserId := Some actor, actorRole := Some ''agreement_party'', profileKind := Some (fst (amBy m)),
      profileId := Some (snd (amBy m)), auditAgreementId := Some (amAgreement m), ipAddress := fst ctx,
      deviceInfo := snd ctx, newValue := v, targetResourceType := Value ''amendment'',
      targetResourceId := Value (amId m)\<rparr>))"

abbreviation no_context :: request_context where
  "no_context \<equiv> (None, JNull)"

definition require_amendment :: "uuid \<Rightarrow> db \<Rightarrow> error + amendment_row" where
  "require_amendment i s =
     (case find_amendment i s of None \<Rightarrow> Inl (ValidationError ''AmendmentNotFound'') | Some m \<Rightarrow> Inr m)"

record amendment_proposal =
  apChange :: amendment_change
  apReason :: string
  apRelief :: "string option"
  apEffective :: "string option"
  apProposed :: terms_input

definition content_of ::
    "party_role \<Rightarrow> agreement_row \<Rightarrow> string \<Rightarrow> string option \<Rightarrow> string option \<Rightarrow> terms_input \<Rightarrow> agreement_terms \<Rightarrow> amendment_content" where
  "content_of role a why relief effective t terms = \<lparr>acRole = role, acBy = party_of role a, acReason = why,
     acRelief = relief, acEffective = effective, acFrequency = tiFrequency t, acFee = tiFee t, acTerms = terms\<rparr>"

definition propose_amendment ::
    "party_deps \<Rightarrow> env \<Rightarrow> uuid \<Rightarrow> uuid \<Rightarrow> amendment_proposal \<Rightarrow> (db, error, amendment_row) step" where
  "propose_amendment A E ag user p =
     andThen (\<lambda>s. (get_agreement A ag user s, s)) (\<lambda>a.
     andThen (\<lambda>s. (resolve_party_role A ag user s, s)) (\<lambda>role.
     andThen (guard (\<not> blank_text (apReason p)) (ValidationError ''ReasonRequired'')) (\<lambda>_.
     andThen (raised (build_terms (apProposed p))) (\<lambda>(terms, _).
     andThen (insert_amendment E ag (apChange p)
       (content_of role a (apReason p) (apRelief p) (apEffective p) (apProposed p) terms)) (\<lambda>m.
     andThen (amendment_audit E m user ''amendment_proposed''
       (JObj [(''changeType'', JStr (change_name (apChange p)))]) no_context) (\<lambda>_. ret m))))))"

text \<open>An absent reason, relief or date of a counterproposal is taken from the amendment.\<close>

datatype amendment_decision =
    AcceptAmendment
  | RejectAmendment "string option"
  | CounterAmendment "terms_input option" "string option" "string option" "string option"

definition given_or :: "'a option \<Rightarrow> 'a \<Rightarrow> 'a" where
  "given_or x d = (case x of None \<Rightarrow> d | Some y \<Rightarrow> y)"

definition require_decider :: "party_deps \<Rightarrow> amendment_row \<Rightarrow> uuid \<Rightarrow> (db, error, party_role) step" where
  "require_decider A m user =
     andThen (\<lambda>s. (resolve_party_role A (amAgreement m) user s, s)) (\<lambda>role.
     andThen (guard (role \<noteq> amRole m) (ForbiddenError ''OwnProposal'')) (\<lambda>_.
     andThen (\<lambda>s. (if role = Creditor then require_creditor_capability A (amAgreement m) user ''approve_agreement'' s
        else Inr (), s)) (\<lambda>_. ret role)))"

definition decide_amendment ::
    "party_deps \<Rightarrow> env \<Rightarrow> uuid \<Rightarrow> uuid \<Rightarrow> amendment_decision \<Rightarrow> (db, error, amendment_row) step" where
  "decide_amendment A E i user d =
     andThen (\<lambda>s. (require_amendment i s, s)) (\<lambda>m.
     andThen (guard (amStatus m = AmProposed) (ValidationError ''WrongStatus'')) (\<lambda>_.
     andThen (require_decider A m user) (\<lambda>role.
     case d of
       AcceptAmendment \<Rightarrow>
         andThen (update_amendment_status E i AmAwaitingSignatures) (\<lambda>u.
         andThen (amendment_audit E u user ''amendment_accepted'' JNull no_context) (\<lambda>_.
         andThen (\<lambda>s. (get_agreement A (amAgreement m) user s, s)) (\<lambda>_. ret u)))
     | RejectAmendment why \<Rightarrow>
         andThen (record_amendment_rejection E i why) (\<lambda>u.
         andThen (amendment_audit E u user ''amendment_rejected'' (JObj [(''reason'', json_opt JStr why)]) no_context) (\<lambda>_.
         andThen (\<lambda>s. (get_agreement A (amAgreement m) user s, s)) (\<lambda>_. ret u)))
     | CounterAmendment None _ _ _ \<Rightarrow> throw (ValidationError ''CounterTermsRequired'')
     | CounterAmendment (Some t) why relief effective \<Rightarrow>
         andThen (\<lambda>s. (get_agreement A (amAgreement m) user s, s)) (\<lambda>a.
         andThen (raised (build_terms t)) (\<lambda>(terms, _).
         andThen (update_proposed_terms E i (content_of role a (given_or why (amReason m))
           (case relief of None \<Rightarrow> amRelief m | Some r \<Rightarrow> Some r)
           (case effective of None \<Rightarrow> amEffective m | Some e \<Rightarrow> Some e) t terms)) (\<lambda>u.
         andThen (amendment_audit E u user ''amendment_countered'' JNull no_context) (\<lambda>_. ret u)))))))"

definition withdraw_amendment ::
    "party_deps \<Rightarrow> env \<Rightarrow> uuid \<Rightarrow> uuid \<Rightarrow> string option \<Rightarrow> (db, error, amendment_row) step" where
  "withdraw_amendment A E i user why =
     andThen (\<lambda>s. (require_amendment i s, s)) (\<lambda>m.
     andThen (guard (amStatus m \<in> {AmProposed, AmAwaitingSignatures}) (ValidationError ''NotWithdrawable'')) (\<lambda>_.
     andThen (\<lambda>s. (resolve_party_role A (amAgreement m) user s, s)) (\<lambda>role.
     andThen (guard (role = amRole m) (ForbiddenError ''NotProposer'')) (\<lambda>_.
     andThen (record_withdrawal E i why) (\<lambda>u.
     andThen (amendment_audit E u user ''amendment_withdrawn'' (JObj [(''reason'', json_opt JStr why)]) no_context)
       (\<lambda>_. ret u))))))"

text \<open>\<open>applyAmendment\<close>; \<open>signedAt\<close> of an amendment is never written, so the time is the clock's.\<close>

definition application_of :: "env \<Rightarrow> amendment_row \<Rightarrow> version_row \<Rightarrow> schedule_item list \<Rightarrow> amendment_application" where
  "application_of E m v its =
     \<lparr>apAgreement = amAgreement m, apAmendment = amId m, apNumber = avNumber v + 1, apParent = avId v,
      apFrequency = amFrequency m, apFee = amFee m, apTerms = amTerms m, apSchedule = its,
      apCreditorSigned = amCreditorSigned m, apDebtorSigned = amDebtorSigned m,
      apHash = compute_version_hash E (amAgreement m) (avNumber v + 1) (amTerms m),
      apSignedAt = given_or (amSigned m) (clock E), apPause = (amChange m = TemporaryPause)\<rparr>"

definition apply_amendment :: "party_deps \<Rightarrow> env \<Rightarrow> amendment_row \<Rightarrow> uuid \<Rightarrow> (db, error, amendment_row) step" where
  "apply_amendment A E m user =
     andThen (\<lambda>s. (get_agreement A (amAgreement m) user s, s)) (\<lambda>a.
     andThen (\<lambda>s. (require_current_version a s, s)) (\<lambda>v.
     andThen (raised (compute_schedule (schedule_input_of (tmPrincipal (amTerms m)) (tmFirst (amTerms m))
       (tmInstallment (amTerms m)) (amFrequency m) (tmFirstDate (amTerms m))))) (\<lambda>c.
     andThen (apply_amendment_atomically E (application_of E m v (items c))) (\<lambda>(w, applied).
     andThen (amendment_audit E applied user ''amendment_applied''
       (JObj [(''resultingVersionId'', json_uuid w), (''versionNumber'', JNum (avNumber v + 1))]) no_context)
       (\<lambda>_. ret applied)))))"

definition amendment_signature :: "party_role \<Rightarrow> amendment_row \<Rightarrow> msec option" where
  "amendment_signature role m = (case role of Creditor \<Rightarrow> amCreditorSigned m | Debtor \<Rightarrow> amDebtorSigned m)"

definition sign_amendment ::
    "party_deps \<Rightarrow> env \<Rightarrow> uuid \<Rightarrow> uuid \<Rightarrow> request_context \<Rightarrow> (db, error, amendment_row) step" where
  "sign_amendment A E i user ctx =
     andThen (\<lambda>s. (require_amendment i s, s)) (\<lambda>m.
     andThen (guard (amStatus m = AmAwaitingSignatures) (ValidationError ''WrongStatus'')) (\<lambda>_.
     andThen (\<lambda>s. (resolve_party_role A (amAgreement m) user s, s)) (\<lambda>role.
     andThen (guard (amendment_signature role m = None) (ValidationError ''AlreadySigned'')) (\<lambda>_.
     andThen (record_amendment_signature E i role) (\<lambda>signed.
     andThen (amendment_audit E signed user ''amendment_signed_by_party''
       (JObj [(''role'', JStr (role_name role))]) ctx) (\<lambda>_.
     if amendment_signature (other_party role) signed = None
     then andThen (\<lambda>s. (get_agreement A (amAgreement m) user s, s)) (\<lambda>_. ret signed)
     else andThen (update_amendment_status E i AmSigned) (\<lambda>locked.
       andThen (amendment_audit E locked user ''amendment_fully_signed'' JNull ctx) (\<lambda>_.
       apply_amendment A E locked user))))))))"

definition get_amendment :: "party_deps \<Rightarrow> uuid \<Rightarrow> uuid \<Rightarrow> db \<Rightarrow> error + amendment_row" where
  "get_amendment A i user s = bindE (require_amendment i s) (\<lambda>m.
     bindE (resolve_party_role A (amAgreement m) user s) (\<lambda>_. Inr m))"

definition list_amendments :: "party_deps \<Rightarrow> uuid \<Rightarrow> uuid \<Rightarrow> db \<Rightarrow> error + amendment_row list" where
  "list_amendments A ag user s = bindE (resolve_party_role A ag user s) (\<lambda>_. Inr (list_amendments_for ag s))"

end
