(* ===== verification/AgreementLaws.thy ===== *)
theory AgreementLaws
  imports Amendments
begin

text \<open>
  What holds of agreements and their versions (\<open>Agreements\<close>): under any interleaving of the
  transactions of any number of requests, a signed version is final and an agreement in force is
  signed by both parties; and, operation by operation, the negotiation follows its automaton and
  every schedule adds up to the principal.
\<close>

section \<open>What the transactions do\<close>

lemma signing_cases:
  assumes "apply_signing E ag v role originator t ev s = (Inr r, s')"
  obtains (already) "s' = s" "srAlready r"
  | (signed) a x n sgs where "find_agreement ag s = Some a" "agStatus a = AwaitingSignatures"
      "agCurrentVersion a = Some v" "find_version v s = Some x" "avAgreement x = ag"
      "signature_of role x = None" "role = originator \<longrightarrow> signature_of (other_party role) x \<noteq> None"
      "date_passed E (tmFirstDate (avTerms x)) = None" "\<not> srAlready r"
      "srBoth r \<longleftrightarrow> signature_of (other_party role) x \<noteq> None"
      "srHash r = (if srBoth r then Some (version_hash E x) else None)" "nextId s \<le> n"
      "s' = s\<lparr>nextId := n, signatures := sgs, versions := update_by avId v (\<lambda>y. if srBoth r
           then (signed_by role t y)\<lparr>avHash := Some (version_hash E x), avSigned := Some t\<rparr>
           else signed_by role t y) (versions s),
         agreements := if srBoth r then update_by agId ag (\<lambda>a. a\<lparr>agStatus := FirstPaymentPending\<rparr>) (agreements s)
           else agreements s\<rparr>"
proof -
  have t: "signing_transaction E ag v role originator t ev s = (Inr r, s')"
    using assms by (simp add: apply_signing_def atomically_Inr)
  obtain a x where x: "find_agreement ag s = Some a" "agStatus a = AwaitingSignatures"
      "agCurrentVersion a = Some v" "find_version v s = Some x" "avAgreement x = ag"
    using t by (auto simp: signing_transaction_def signing_checks_def split: option.splits if_splits)
  show thesis
  proof (cases "signature_of role x = None")
    case False
    then show thesis using already t x by (auto simp: signing_transaction_def signing_checks_def)
  next
    case unsigned: True
    have o: "role = originator \<longrightarrow> signature_of (other_party role) x \<noteq> None"
      "date_passed E (tmFirstDate (avTerms x)) = None"
      using t x unsigned by (auto simp: signing_transaction_def signing_checks_def split: if_splits option.splits)
    have u: "update_by agId ag (\<lambda>a. a\<lparr>agStatus := FirstPaymentPending\<rparr>) (update_by agId ag (\<lambda>a. a\<lparr>agStatus := Signed\<rparr>) as)
        = update_by agId ag (\<lambda>a. a\<lparr>agStatus := FirstPaymentPending\<rparr>) as" for as
      by (simp add: update_by_def)
    have w: "update_by avId v f (update_by avId v (signed_by role t) vs) = update_by avId v (\<lambda>y. f (signed_by role t y)) vs" for f vs
      by (simp add: update_by_def signed_by_def split: party_role.split)
    show thesis
      using t x unsigned o signed [OF x unsigned o, of "nextId s'" "signatures s'"]
      by (auto simp: signing_transaction_def signing_checks_def andThen_def record_version_signature_def
          set_version_def lock_version_def set_agreement_status_def insert_signature_event_def u w
          split: option.splits if_splits)
  qed
qed

lemma insert_items_frame:
  assumes "insert_items v its s = (r, s')"
  shows "agreements s' = agreements s" "versions s' = versions s" "signatures s' = signatures s"
    "parties s' = parties s" "nextId s \<le> nextId s'" "amendments s' = amendments s"
  using assms by (auto simp: insert_items_def Let_def split: if_splits)

definition revised_version :: "revision_input \<Rightarrow> version_row \<Rightarrow> uuid \<Rightarrow> version_row" where
  "revised_version r x i = version_of_input i \<lparr>viAgreement = rvAgreement r, viNumber = avNumber x + 1,
     viParent = Some (avId x), viOriginal = False, viProducedBy = rvProducedBy r,
     viFrequency = rvFrequency r, viFee = rvFee r, viTerms = rvTerms r\<rparr>"

lemma revision_cases:
  assumes "revision_transaction r expected st s = (Inr y, s')"
  obtains a x s2 where "find_agreement (rvAgreement r) s = Some a" "agStatus a = expected"
      "agCurrentVersion a = Some (rvBase r)" "find_version (rvBase r) s = Some x"
      "avAgreement x = rvAgreement r" "avSigned x = None"
      "insert_items (nextId s) (rvSchedule r)
         (s\<lparr>versions := versions s @ [revised_version r x (nextId s)], nextId := Suc (nextId s)\<rparr>) = (Inr (), s2)"
      "s' = s2\<lparr>agreements := update_by agId (rvAgreement r)
           (\<lambda>a. a\<lparr>agCurrentVersion := Some (nextId s), agStatus := st\<rparr>) (agreements s)\<rparr>"
proof -
  obtain a x where x: "find_agreement (rvAgreement r) s = Some a" "agStatus a = expected"
      "agCurrentVersion a = Some (rvBase r)" "find_version (rvBase r) s = Some x"
      "avAgreement x = rvAgreement r" "avSigned x = None"
    using assms by (auto simp: revision_transaction_def split: option.splits if_splits)
  let ?s1 = "s\<lparr>versions := versions s @ [revised_version r x (nextId s)], nextId := Suc (nextId s)\<rparr>"
  obtain q s2 where i: "insert_items (nextId s) (rvSchedule r) ?s1 = (q, s2)" by fastforce
  have v: "revised_version r x (nextId s) = version_of_input (nextId s) \<lparr>viAgreement = rvAgreement r,
      viNumber = avNumber x + 1, viParent = Some (avId x), viOriginal = False, viProducedBy = rvProducedBy r,
      viFrequency = rvFrequency r, viFee = rvFee r, viTerms = rvTerms r\<rparr>" by (simp add: revised_version_def)
  have id: "avId (revised_version r x (nextId s)) = nextId s" by (simp add: v version_of_input_def)
  have "agreements s2 = agreements s" using insert_items_frame(1) [OF i] by simp
  then show thesis
    using assms x that [OF x, of s2] i id
    by (cases q) (auto simp: revision_transaction_def andThen_def insert_version_def Let_def v [symmetric]
        set_agreement_def split: if_splits)
qed

section \<open>In force means signed, signed means final\<close>

definition in_force :: "agreement_status \<Rightarrow> bool" where
  "in_force st \<longleftrightarrow> st \<in> {Signed, FirstPaymentPending, Active, PastDue, Disputed, PausedByAmendment,
     PaidInFull, Closed}"

text \<open>A fully signed version carries both signatures and the hash of its own terms.\<close>

definition sealed :: "env \<Rightarrow> version_row \<Rightarrow> bool" where
  "sealed E v \<longleftrightarrow> avSigned v \<noteq> None \<longrightarrow> avCreditorSigned v \<noteq> None \<and> avDebtorSigned v \<noteq> None \<and>
     avHash v = Some (version_hash E v)"

definition bound_by_signatures :: "version_row list \<Rightarrow> agreement_row \<Rightarrow> bool" where
  "bound_by_signatures vs a \<longleftrightarrow> in_force (agStatus a) \<longrightarrow>
     (\<exists>v \<in> set vs. agCurrentVersion a = Some (avId v) \<and> avAgreement v = agId a \<and> avSigned v \<noteq> None)"

definition docs_ok :: "env \<Rightarrow> db \<Rightarrow> bool" where
  "docs_ok E s \<longleftrightarrow> distinct (map avId (versions s)) \<and> distinct (map agId (agreements s)) \<and>
     list_all (\<lambda>v. avId v < nextId s \<and> avAgreement v < nextId s) (versions s) \<and>
     list_all (\<lambda>a. agId a < nextId s) (agreements s) \<and>
     list_all (sealed E) (versions s) \<and> list_all (bound_by_signatures (versions s)) (agreements s)"

definition progresses :: "env \<Rightarrow> db \<Rightarrow> db \<Rightarrow> bool" where
  "progresses E s s' \<longleftrightarrow> (docs_ok E s \<longrightarrow> docs_ok E s' \<and> nextId s \<le> nextId s' \<and>
     (\<forall>a \<in> set (agreements s'). agId a \<in> agId ` set (agreements s) \<or> nextId s \<le> agId a) \<and>
     (\<forall>v \<in> set (versions s). avSigned v \<noteq> None \<longrightarrow>
        v \<in> set (versions s') \<or> avAgreement v \<notin> agId ` set (agreements s')))"

lemma progresses_refl [simp]: "progresses E s s"
  by (auto simp: progresses_def)

lemma progresses_trans:
  assumes "progresses E a b" and "progresses E b c"
  shows "progresses E a c"
  unfolding progresses_def
proof
  assume d: "docs_ok E a"
  then have 1: "docs_ok E b" "nextId a \<le> nextId b"
    "\<forall>x \<in> set (agreements b). agId x \<in> agId ` set (agreements a) \<or> nextId a \<le> agId x"
    "\<forall>v \<in> set (versions a). avSigned v \<noteq> None \<longrightarrow> v \<in> set (versions b) \<or> avAgreement v \<notin> agId ` set (agreements b)"
    using assms(1) unfolding progresses_def by blast+
  then have 2: "docs_ok E c" "nextId b \<le> nextId c"
    "\<forall>x \<in> set (agreements c). agId x \<in> agId ` set (agreements b) \<or> nextId b \<le> agId x"
    "\<forall>v \<in> set (versions b). avSigned v \<noteq> None \<longrightarrow> v \<in> set (versions c) \<or> avAgreement v \<notin> agId ` set (agreements c)"
    using assms(2) unfolding progresses_def by blast+
  have new: "agId x \<in> agId ` set (agreements a) \<or> nextId a \<le> agId x" if "x \<in> set (agreements c)" for x
    using 2(3) that 1(2,3) by fastforce
  have gone: "avAgreement v \<notin> agId ` set (agreements c)"
    if "v \<in> set (versions a)" "avAgreement v \<notin> agId ` set (agreements b)" for v
  proof
    assume "avAgreement v \<in> agId ` set (agreements c)"
    then have "nextId b \<le> avAgreement v" using 2(3) that(2) by fastforce
    then show False using d that(1) 1(2) by (auto simp: docs_ok_def list_all_iff)
  qed
  show "docs_ok E c \<and> nextId a \<le> nextId c \<and>
     (\<forall>x \<in> set (agreements c). agId x \<in> agId ` set (agreements a) \<or> nextId a \<le> agId x) \<and>
     (\<forall>v \<in> set (versions a). avSigned v \<noteq> None \<longrightarrow>
        v \<in> set (versions c) \<or> avAgreement v \<notin> agId ` set (agreements c))"
    using 1 2 new gone by (meson order_trans)
qed

text \<open>Changes of agreements only.\<close>

lemma progresses_agreement:
  assumes "versions s' = versions s" and "nextId s \<le> nextId s'"
    and "agreements s' = update_by agId ag f (agreements s)"
    and "\<And>a. agId (f a) = agId a \<and> (in_force (agStatus (f a)) \<longrightarrow>
       in_force (agStatus a) \<and> agCurrentVersion (f a) = agCurrentVersion a)"
  shows "progresses E s s'"
proof -
  have ids: "map agId (agreements s') = map agId (agreements s)"
    using assms(3,4) by (auto simp: update_by_def)
  have "bound_by_signatures (versions s) (f a)" if "bound_by_signatures (versions s) a" for a
    using that assms(4) [of a] by (auto simp: bound_by_signatures_def)
  then have b: "list_all (bound_by_signatures (versions s')) (agreements s')"
    if "list_all (bound_by_signatures (versions s)) (agreements s)"
    using that unfolding assms(1,3) by (intro list_all_update_by) auto
  have "agId a \<in> agId ` set (agreements s)" if "a \<in> set (agreements s')" for a
    using ids that by (metis image_set imageI)
  moreover have "list_all (\<lambda>a. agId a < nextId s') (agreements s')" if "list_all (\<lambda>a. agId a < nextId s) (agreements s)"
    using that assms(2,4) unfolding assms(3) by (auto simp: list_all_iff dest!: set_update_by)
  ultimately show ?thesis
    using b assms(1,2) ids by (auto simp: progresses_def docs_ok_def list_all_iff)
qed

lemma version_hash_fields:
  "avAgreement w = avAgreement v \<Longrightarrow> avNumber w = avNumber v \<Longrightarrow> avTerms w = avTerms v \<Longrightarrow>
   version_hash E w = version_hash E v"
  by (simp add: version_hash_def)

lemma version_hash_env: "sha256 E' = sha256 E \<Longrightarrow> version_hash E' = version_hash E"
  by (rule ext) (simp add: version_hash_def compute_version_hash_def)

lemma signed_by_fields [simp]:
  "avId (signed_by role t v) = avId v" "avAgreement (signed_by role t v) = avAgreement v"
  "avNumber (signed_by role t v) = avNumber v" "avTerms (signed_by role t v) = avTerms v"
  "avSigned (signed_by role t v) = avSigned v" "avHash (signed_by role t v) = avHash v"
  by (simp_all add: signed_by_def split: party_role.split)

lemma find_mem_eq:
  assumes "distinct (map key xs)" and "lookup_by key k xs = Some x" and "y \<in> set xs" and "key y = k"
  shows "y = x"
  using lookup_by_distinct [OF assms(1,3)] assms(2,4) by simp

text \<open>A signature goes on an unsigned version, and the second one closes it.\<close>

lemma progresses_sign:
  assumes "apply_signing E' ag v role originator t ev s = (r, s')" and "sha256 E' = sha256 E"
  shows "progresses E s s'"
proof (cases r)
  case (Inl e)
  then show ?thesis using assms(1) by (auto simp: apply_signing_def dest: atomically_Inl)
next
  case (Inr res)
  from assms(1) [unfolded Inr] show ?thesis
  proof (cases rule: signing_cases)
    case already
    then show ?thesis by simp
  next
    case (signed a x n sgs)
    let ?f = "\<lambda>y. if srBoth res then (signed_by role t y)\<lparr>avHash := Some (version_hash E' x), avSigned := Some t\<rparr>
        else signed_by role t y"
    have vs: "versions s' = update_by avId v ?f (versions s)" and nx: "nextId s' = n"
      and as: "agreements s' = (if srBoth res then update_by agId ag (\<lambda>a. a\<lparr>agStatus := FirstPaymentPending\<rparr>) (agreements s)
        else agreements s)"
      by (simp_all add: signed)
    have ids: "map avId (versions s') = map avId (versions s)"
      unfolding vs by (rule map_key_update_by) simp
    have aids: "map agId (agreements s') = map agId (agreements s)"
      unfolding as by (auto intro: map_key_update_by)
    show ?thesis unfolding progresses_def
    proof
      assume d: "docs_ok E s"
      have only: "y = x" if "y \<in> set (versions s)" "avId y = v" for y
        using find_mem_eq [OF _ signed(4) that] d by (simp add: docs_ok_def)
      have x: "x \<in> set (versions s)" "avId x = v"
        using signed(4) by (auto dest: lookup_by_Some_mem lookup_by_Some_key)
      have unsigned: "avSigned x = None"
      proof (rule ccontr)
        assume "avSigned x \<noteq> None"
        then have "avCreditorSigned x \<noteq> None" "avDebtorSigned x \<noteq> None"
          using d x(1) by (auto simp: docs_ok_def sealed_def list_all_iff)
        then show False using signed(6) by (cases role) (simp_all add: signature_of_def)
      qed
      have seal: "sealed E (?f x)"
      proof (cases "srBoth res")
        case True
        then have o: "signature_of (other_party role) x \<noteq> None" using signed(10) by simp
        have "avCreditorSigned (signed_by role t x) \<noteq> None \<and> avDebtorSigned (signed_by role t x) \<noteq> None"
          using o by (cases role) (auto simp: signed_by_def signature_of_def other_party_def)
        moreover have "version_hash E (?f x) = version_hash E x"
          by (rule version_hash_fields) (simp_all add: True)
        ultimately show ?thesis using True version_hash_env [OF assms(2)] by (simp add: sealed_def)
      next
        case False
        then show ?thesis using unsigned by (simp add: sealed_def)
      qed
      have "list_all (sealed E) (versions s')" unfolding vs
        by (rule list_all_update_by) (use d seal only in \<open>auto simp: docs_ok_def\<close>)
      moreover have "list_all (bound_by_signatures (versions s')) (agreements s')"
      proof -
        have keep: "y \<in> set (versions s')" if "y \<in> set (versions s)" "avSigned y \<noteq> None" for y
          using that only unsigned by (auto simp: vs update_by_def image_iff)
        have old: "bound_by_signatures (versions s') b" if "b \<in> set (agreements s)" for b
          using d that keep by (fastforce simp: docs_ok_def bound_by_signatures_def list_all_iff)
        have "bound_by_signatures (versions s') (b\<lparr>agStatus := FirstPaymentPending\<rparr>)"
          if "b \<in> set (agreements s)" "agId b = ag" "srBoth res" for b
        proof -
          have "b = a" using find_mem_eq [OF _ signed(1) that(1,2)] d by (simp add: docs_ok_def)
          moreover have "?f x \<in> set (versions s')" using x by (auto simp: vs update_by_def image_iff)
          ultimately show ?thesis using signed(3,5) x(2) that(2,3)
            by (auto simp: bound_by_signatures_def intro!: bexI [of _ "?f x"])
        qed
        then show ?thesis using old by (auto simp: as list_all_iff dest!: set_update_by)
      qed
      moreover have "list_all (\<lambda>v. avId v < nextId s' \<and> avAgreement v < nextId s') (versions s')"
        unfolding vs nx by (rule list_all_update_by)
          (use d signed(12) in \<open>auto simp: docs_ok_def list_all_iff intro: order_less_le_trans\<close>)
      moreover have "list_all (\<lambda>a. agId a < nextId s') (agreements s')"
        using d signed(12) by (auto simp: as nx docs_ok_def list_all_iff dest!: set_update_by intro: order_less_le_trans)
      moreover have "y \<in> set (versions s')" if "y \<in> set (versions s)" "avSigned y \<noteq> None" for y
        using that only unsigned by (auto simp: vs update_by_def image_iff)
      moreover have "agId b \<in> agId ` set (agreements s)" if "b \<in> set (agreements s')" for b
        using aids that by (metis image_set imageI)
      ultimately show "docs_ok E s' \<and> nextId s \<le> nextId s' \<and>
          (\<forall>a \<in> set (agreements s'). agId a \<in> agId ` set (agreements s) \<or> nextId s \<le> agId a) \<and>
          (\<forall>v \<in> set (versions s). avSigned v \<noteq> None \<longrightarrow>
             v \<in> set (versions s') \<or> avAgreement v \<notin> agId ` set (agreements s'))"
        using d ids aids nx signed(12) by (auto simp: docs_ok_def)
    qed
  qed
qed

text \<open>New rows: versions without signatures, agreements not in force.\<close>

lemma progresses_append:
  assumes "agreements s' = agreements s @ bs" and "versions s' = versions s @ ws" and "nextId s \<le> nextId s'"
    and "list_all (\<lambda>a. nextId s \<le> agId a \<and> agId a < nextId s' \<and> \<not> in_force (agStatus a)) bs"
    and "list_all (\<lambda>v. nextId s \<le> avId v \<and> avId v < nextId s' \<and> avAgreement v < nextId s' \<and> avSigned v = None) ws"
    and "distinct (map agId bs)" and "distinct (map avId ws)"
  shows "progresses E s s'"
proof -
  have "docs_ok E s'" if d: "docs_ok E s"
  proof -
    have "distinct (map avId (versions s'))" "distinct (map agId (agreements s'))"
      using d assms by (fastforce simp: docs_ok_def list_all_iff)+
    moreover have "list_all (sealed E) (versions s')"
      using d assms by (auto simp: docs_ok_def sealed_def list_all_iff)
    moreover have "list_all (bound_by_signatures (versions s')) (agreements s')"
      using d assms by (auto simp: docs_ok_def bound_by_signatures_def list_all_iff) blast
    ultimately show ?thesis
      using d assms by (auto simp: docs_ok_def list_all_iff intro: order_less_le_trans)
  qed
  then show ?thesis using assms by (auto simp: progresses_def list_all_iff)
qed

lemma progresses_revise:
  assumes "atomically (revision_transaction r expected st) s = (x, s')" and "\<not> in_force st"
  shows "progresses E s s'"
proof (cases x)
  case (Inl e)
  then show ?thesis using assms(1) by (auto dest: atomically_Inl)
next
  case (Inr y)
  then have "revision_transaction r expected st s = (Inr y, s')" using assms(1) by (simp add: atomically_Inr)
  then show ?thesis
  proof (cases rule: revision_cases)
    case (1 a v s2)
    note f = insert_items_frame [OF 1(7)]
    have v: "v \<in> set (versions s)" using 1(4) by (rule lookup_by_Some_mem)
    have "progresses E s s2" if "docs_ok E s"
      by (rule progresses_append [where bs = "[]" and ws = "[revised_version r v (nextId s)]"])
        (use f v 1(5) that in \<open>auto simp: revised_version_def version_of_input_def docs_ok_def list_all_iff\<close>)
    then have "progresses E s s2" by (auto simp: progresses_def)
    moreover have "progresses E s2 s'"
      by (rule progresses_agreement [where ag = "rvAgreement r"
          and f = "\<lambda>a. a\<lparr>agCurrentVersion := Some (nextId s), agStatus := st\<rparr>"])
        (use 1(8) f assms(2) in auto)
    ultimately show ?thesis by (rule progresses_trans)
  qed
qed

lemma progresses_delete:
  assumes "delete_draft_rows ref ag s = (r, s')"
  shows "progresses E s s'"
proof (cases "s' = s")
  case False
  then have s': "versions s' = filter (\<lambda>v. avAgreement v \<noteq> ag) (versions s)"
    "agreements s' = filter (\<lambda>a. agId a \<noteq> ag) (agreements s)" "nextId s' = nextId s"
    using assms by (auto simp: delete_draft_rows_def Let_def split: if_splits)
  show ?thesis unfolding progresses_def
  proof (intro impI conjI)
    assume d: "docs_ok E s"
    then have "bound_by_signatures (versions s') a" if "a \<in> set (agreements s')" for a
      using that unfolding docs_ok_def list_all_iff s' bound_by_signatures_def by fastforce
    then have "list_all (bound_by_signatures (versions s')) (agreements s')" by (simp add: list_all_iff)
    then show "docs_ok E s'"
      using d by (auto simp: docs_ok_def s' list_all_iff distinct_map_filter)
    show "\<forall>v \<in> set (versions s). avSigned v \<noteq> None \<longrightarrow> v \<in> set (versions s') \<or> avAgreement v \<notin> agId ` set (agreements s')"
      by (auto simp: s')
  qed (auto simp: s')
qed simp

lemma progressesI: "(docs_ok E s \<Longrightarrow> progresses E s s') \<Longrightarrow> progresses E s s'"
  by (auto simp: progresses_def)

lemma progresses_same:
  "agreements s' = agreements s \<Longrightarrow> versions s' = versions s \<Longrightarrow> nextId s \<le> nextId s' \<Longrightarrow> progresses E s s'"
  by (rule progresses_append [where bs = "[]" and ws = "[]"]) simp_all

lemma delete_items_frame:
  assumes "delete_items v s = (r, s')"
  shows "agreements s' = agreements s" "versions s' = versions s" "nextId s' = nextId s"
  using assms by (auto simp: delete_items_def split: if_splits)

lemma replace_frame:
  assumes "replace_for_version v its s = (r, s')"
  shows "agreements s' = agreements s \<and> versions s' = versions s \<and> nextId s \<le> nextId s'"
proof -
  obtain q1 s1 where 1: "delete_items v s = (q1, s1)" by fastforce
  obtain q2 s2 where 2: "insert_items v its s1 = (q2, s2)" by fastforce
  show ?thesis using assms delete_items_frame [OF 1] insert_items_frame [OF 2]
    by (auto simp: replace_for_version_def atomically_def andThen_def 1 2 split: sum.splits)
qed

lemma update_by_fresh: "list_all (\<lambda>x. key x \<noteq> k) xs \<Longrightarrow> update_by key k f xs = xs"
  by (induction xs) auto

text \<open>An amendment puts a version in force that both have signed before.\<close>

lemma application_cases:
  assumes "apply_amendment_atomically E p s = (Inr (v, m), s')"
  obtains s2 m0 where "v = nextId s"
      "insert_items (nextId s) (apSchedule p) (s\<lparr>versions := versions s @ [amended_version p (nextId s)],
         nextId := Suc (nextId s)\<rparr>) = (Inr (), s2)"
      "find_amendment (apAmendment p) s = Some m0"
      "m = m0\<lparr>amStatus := AmApplied, amResulting := Some v, amUpdatedAt := clock E\<rparr>"
      "s' = s2\<lparr>agreements := update_by agId (apAgreement p) (\<lambda>a. a\<lparr>agCurrentVersion := Some v,
           agStatus := (if apPause p then PausedByAmendment else agStatus a)\<rparr>) (agreements s),
         amendments := update_by amId (apAmendment p) (\<lambda>m. m\<lparr>amStatus := AmApplied, amResulting := Some v,
           amUpdatedAt := clock E\<rparr>) (amendments s)\<rparr>"
proof -
  let ?s1 = "s\<lparr>versions := versions s @ [amended_version p (nextId s)], nextId := Suc (nextId s)\<rparr>"
  obtain q s2 where i: "insert_items (nextId s) (apSchedule p) ?s1 = (q, s2)" by fastforce
  note f = insert_items_frame [OF i]
  have id: "avId (amended_version p (nextId s)) = nextId s" by (simp add: amended_version_def)
  show thesis
    using assms that [of s2] i f id
    unfolding apply_amendment_atomically_def application_transaction_def
    by (cases q) (auto simp: atomically_Inr andThen_def insert_amended_version_def Let_def set_agreement_def
        record_amendment_applied_def update_amendment_def split: if_splits option.splits)
qed

lemma progresses_amend:
  assumes "apply_amendment_atomically E' p s = (r, s')" and "apAgreement p < nextId s"
    and "apCreditorSigned p \<noteq> None" and "apDebtorSigned p \<noteq> None"
    and "apHash p = compute_version_hash E (apAgreement p) (apNumber p) (apTerms p)"
  shows "progresses E s s'"
proof (cases r)
  case (Inl e)
  then show ?thesis using assms(1) by (auto simp: apply_amendment_atomically_def dest: atomically_Inl)
next
  case (Inr y)
  define w where "w = amended_version p (nextId s)"
  obtain v m where y: "y = (v, m)" by (cases y)
  obtain s2 where i: "insert_items (nextId s) (apSchedule p) (s\<lparr>versions := versions s @ [w], nextId := Suc (nextId s)\<rparr>) = (Inr (), s2)"
    and s': "agreements s' = update_by agId (apAgreement p) (\<lambda>a. a\<lparr>agCurrentVersion := Some (nextId s),
       agStatus := (if apPause p then PausedByAmendment else agStatus a)\<rparr>) (agreements s)"
      "versions s' = versions s2" "nextId s' = nextId s2"
    using assms(1) [unfolded Inr y] by (rule application_cases) (auto simp: w_def)
  note f = insert_items_frame [OF i]
  have seal: "sealed E w" "avSigned w \<noteq> None" "avId w = nextId s" "avAgreement w = apAgreement p"
    using assms(3-5) by (simp_all add: w_def amended_version_def sealed_def version_hash_def)
  have vs: "versions s' = versions s @ [w]" and nx: "Suc (nextId s) \<le> nextId s'"
    using f s' by simp_all
  let ?f = "\<lambda>a. a\<lparr>agCurrentVersion := Some (nextId s), agStatus := (if apPause p then PausedByAmendment else agStatus a)\<rparr>"
  have as: "agreements s' = update_by agId (apAgreement p) ?f (agreements s)" using s' f by simp
  have ids: "map agId (agreements s') = map agId (agreements s)" unfolding as by (rule map_key_update_by) simp
  show ?thesis unfolding progresses_def
  proof
    assume d: "docs_ok E s"
    have "bound_by_signatures (versions s') b" if b: "b \<in> set (agreements s')" for b
    proof -
      obtain a where a: "a \<in> set (agreements s)" "b = (if agId a = apAgreement p then ?f a else a)"
        using b by (auto simp: as update_by_def)
      show ?thesis
      proof (cases "agId a = apAgreement p")
        case True
        then show ?thesis using a(2) seal by (auto simp: bound_by_signatures_def vs)
      next
        case False
        then show ?thesis using a d by (auto simp: docs_ok_def bound_by_signatures_def vs list_all_iff)
      qed
    qed
    moreover have "list_all (sealed E) (versions s')" using d seal by (simp add: docs_ok_def vs)
    moreover have "distinct (map avId (versions s'))"
      using d seal by (auto simp: docs_ok_def vs list_all_iff)
    moreover have "list_all (\<lambda>v. avId v < nextId s' \<and> avAgreement v < nextId s') (versions s')"
      using d seal assms(2) nx by (auto simp: docs_ok_def vs list_all_iff intro: order_less_le_trans)
    moreover have "list_all (\<lambda>a. agId a < nextId s') (agreements s')"
      using d nx by (force simp: as docs_ok_def list_all_iff update_by_def)
    moreover have "agId b \<in> agId ` set (agreements s)" if "b \<in> set (agreements s')" for b
      using ids that by (metis image_set imageI)
    ultimately show "docs_ok E s' \<and> nextId s \<le> nextId s' \<and>
        (\<forall>a \<in> set (agreements s'). agId a \<in> agId ` set (agreements s) \<or> nextId s \<le> agId a) \<and>
        (\<forall>v \<in> set (versions s). avSigned v \<noteq> None \<longrightarrow>
           v \<in> set (versions s') \<or> avAgreement v \<notin> agId ` set (agreements s'))"
      using d ids nx by (auto simp: docs_ok_def vs list_all_iff)
  qed
qed

section \<open>The transactions, interleaved\<close>

text \<open>
  The steps of all requests that touch agreements or versions: what a request has read before it is
  not consulted, only what the statement or transaction itself checks. Signing checks dates against
  the clock of its own time (\<open>E'\<close>). \<open>elsewhere\<close> stands for every statement on other tables.
\<close>

inductive agreement_step :: "env \<Rightarrow> db \<Rightarrow> db \<Rightarrow> bool" for E where
  signs: "sha256 E' = sha256 E \<Longrightarrow> agreement_step E s (snd (apply_signing E' ag v role originator t ev s))"
| dates: "agreement_step E s (snd (apply_date_revision r s))"
| terms: "st \<in> {AwaitingDebtorAcknowledgment, AwaitingCreditorAcceptance} \<Longrightarrow>
    agreement_step E s (snd (apply_terms_revision r expected st s))"
| accepts: "agreement_step E s (snd (apply_acceptance ag v [AwaitingCreditorAcceptance] AwaitingSignatures s))"
| cancels: "agreement_step E s (snd (update_status_if_currently_in ag expected MutuallyCanceled s))"
| moves: "st \<in> {Draft, AwaitingDebtorAcknowledgment, AwaitingCreditorAcceptance, MutuallyCanceled} \<Longrightarrow>
    agreement_step E s (set_agreement_status ag st s)"
| opens: "agreement_step E s (snd (insert_agreement creditor debtor currency creator s))"
| writes: "viAgreement vi < nextId s \<Longrightarrow> agreement_step E s (snd (insert_version vi s))"
| points: "find_agreement ag s = Some a \<Longrightarrow> agCurrentVersion a = None \<Longrightarrow>
    agreement_step E s (set_current_version_id ag v s)"
| deletes: "agreement_step E s (snd (delete_draft_rows referenced ag s))"
| completes: "agreement_step E s (snd (decide_and_apply E' ag s))"
| reopens: "recompute_after_supersession E' ag event s = Inr s' \<Longrightarrow> agreement_step E s s'"
| amends: "apAgreement p < nextId s \<Longrightarrow> apCreditorSigned p \<noteq> None \<Longrightarrow> apDebtorSigned p \<noteq> None \<Longrightarrow>
    apHash p = compute_version_hash E (apAgreement p) (apNumber p) (apTerms p) \<Longrightarrow>
    agreement_step E s (snd (apply_amendment_atomically E' p s))"
| settles: "agreement_step E s (set_agreement_status ag SettledInFull s)"
| relates: "agreement_step E s (set_agreement ag (\<lambda>a. a\<lparr>agRelationship := r\<rparr>) s)"
| elsewhere: "agreements s' = agreements s \<Longrightarrow> versions s' = versions s \<Longrightarrow> nextId s \<le> nextId s' \<Longrightarrow>
    agreement_step E s s'"

lemma progresses_status:
  assumes "in_force st \<Longrightarrow> \<exists>a. find_agreement ag s = Some a \<and> in_force (agStatus a)"
  shows "progresses E s (set_agreement_status ag st s)"
proof (rule progressesI)
  assume d: "docs_ok E s"
  define f where "f x = (if in_force st \<longrightarrow> in_force (agStatus x) then x\<lparr>agStatus := st\<rparr> else x)" for x :: agreement_row
  have "f x = x\<lparr>agStatus := st\<rparr>" if "x \<in> set (agreements s)" "agId x = ag" for x
    using lookup_by_distinct [of agId, OF _ that(1)] that(2) assms d by (auto simp: docs_ok_def f_def)
  then have "update_by agId ag (\<lambda>x. x\<lparr>agStatus := st\<rparr>) (agreements s) = update_by agId ag f (agreements s)"
    by (simp add: update_by_def)
  then show "progresses E s (set_agreement_status ag st s)"
    by (intro progresses_agreement [where ag = ag and f = f]) (simp_all add: set_agreement_status_def f_def)
qed

lemma progresses_audit: "progresses E s s1 \<Longrightarrow> progresses E s (audit E' p s1)"
  by (erule progresses_trans) (simp add: audit_def progresses_same)

lemma progresses_insert_version:
  assumes "viAgreement vi < nextId s"
  shows "progresses E s (snd (insert_version vi s))"
  by (auto simp: insert_version_def Let_def assms version_of_input_def less_SucI
      intro!: progresses_append [where bs = "[]" and ws = "[version_of_input (nextId s) vi]"])

lemma progresses_points:
  assumes "find_agreement ag s = Some a" and "agCurrentVersion a = None"
  shows "progresses E s (set_current_version_id ag v s)"
proof (rule progressesI)
  assume d: "docs_ok E s"
  then have a: "\<not> in_force (agStatus a)"
    using assms by (auto simp: docs_ok_def list_all_iff bound_by_signatures_def dest!: lookup_by_Some_mem)
  define f where "f x = (if in_force (agStatus x) then x else x\<lparr>agCurrentVersion := Some v\<rparr>)" for x :: agreement_row
  have "f x = x\<lparr>agCurrentVersion := Some v\<rparr>" if "x \<in> set (agreements s)" "agId x = ag" for x
    using find_mem_eq [OF _ assms(1) that] a d by (simp add: docs_ok_def f_def)
  then have "update_by agId ag (\<lambda>x. x\<lparr>agCurrentVersion := Some v\<rparr>) (agreements s) = update_by agId ag f (agreements s)"
    by (simp add: update_by_def)
  then show "progresses E s (set_current_version_id ag v s)"
    by (intro progresses_agreement [where ag = ag and f = f])
      (auto simp: set_current_version_id_def set_agreement_def f_def)
qed

lemma agreement_step_progresses: "agreement_step E s s' \<Longrightarrow> progresses E s s'"
proof (induction rule: agreement_step.induct)
  case (signs E' s ag v role originator t ev)
  then show ?case by (metis progresses_sign prod.collapse)
next
  case (dates s r)
  show ?case unfolding apply_date_revision_def
    by (rule progresses_revise [OF prod.collapse [symmetric]]) (simp add: in_force_def)
next
  case (terms st s r expected)
  then show ?case unfolding apply_terms_revision_def
    by (intro progresses_revise [OF prod.collapse [symmetric]]) (auto simp: in_force_def)
next
  case (accepts s ag v)
  show ?case by (auto simp: apply_acceptance_def in_force_def split: option.split intro!: progresses_status)
next
  case (cancels s ag expected)
  show ?case by (auto simp: update_status_if_currently_in_def in_force_def split: option.split intro!: progresses_status)
next
  case (moves st s ag)
  then show ?case by (intro progresses_status) (auto simp: in_force_def)
next
  case (opens s creditor debtor currency creator)
  show ?case
    by (rule progresses_append [where ws = "[]" and bs = "[fst (insert_agreement creditor debtor currency creator s)]"])
      (simp_all add: insert_agreement_def Let_def in_force_def)
next
  case (deletes s referenced ag)
  show ?case by (rule progresses_delete [OF prod.collapse [symmetric]])
next
  case (completes s E' ag)
  show ?case
    by (auto simp: decide_and_apply_def awaiting_payment_def in_force_def split: option.split
        intro!: progresses_audit progresses_status)
next
  case (reopens E' ag event s s')
  then show ?case
    by (auto simp: recompute_after_supersession_def Let_def bindE_Inr_iff in_force_def split: option.splits if_splits
        intro!: progresses_audit progresses_status)
next
  case (amends p s E')
  then show ?case by (metis progresses_amend prod.collapse)
next
  case (settles s ag)
  show ?case by (rule progresses_status) (simp add: in_force_def)
next
  case (relates s ag r)
  show ?case by (rule progresses_agreement) (auto simp: set_agreement_def)
qed (auto intro: progresses_insert_version progresses_points progresses_same)

lemma agreement_steps_progress: "(agreement_step E)\<^sup>*\<^sup>* s s' \<Longrightarrow> progresses E s s'"
  by (induction rule: rtranclp_induct) (auto intro: progresses_trans agreement_step_progresses)

lemma docs_ok_empty: "docs_ok E empty_db"
  by (simp add: docs_ok_def empty_db_def)

text \<open>
  C12. The agreement that both have signed is the one that stays: from an empty database, whatever the
  interleaving of drafts, revisions, acceptances, rejections, signatures, cancellations, deletions
  and completions, a fully signed version is never changed by a single field as long as its
  agreement exists, and it carries both signatures and the hash of its own terms.
\<close>

theorem signed_terms_are_final:
  assumes "(agreement_step E)\<^sup>*\<^sup>* empty_db s" and "(agreement_step E)\<^sup>*\<^sup>* s s'"
    and "find_version v s = Some x" and "avSigned x \<noteq> None" and "find_agreement (avAgreement x) s' \<noteq> None"
  shows "find_version v s' = Some x \<and> avCreditorSigned x \<noteq> None \<and> avDebtorSigned x \<noteq> None \<and>
    avHash x = Some (version_hash E x)"
proof -
  have d: "docs_ok E s" using agreement_steps_progress [OF assms(1)] docs_ok_empty by (simp add: progresses_def)
  then have d': "docs_ok E s'" and keep: "\<forall>v \<in> set (versions s). avSigned v \<noteq> None \<longrightarrow>
      v \<in> set (versions s') \<or> avAgreement v \<notin> agId ` set (agreements s')"
    using agreement_steps_progress [OF assms(2)] by (simp_all add: progresses_def)
  have x: "x \<in> set (versions s)" "avId x = v"
    using assms(3) by (auto dest: lookup_by_Some_mem lookup_by_Some_key)
  then have "x \<in> set (versions s')" using keep assms(4,5) by (auto simp: lookup_by_None_iff)
  then have "find_version v s' = Some x" using x(2) d' lookup_by_distinct [of avId] by (auto simp: docs_ok_def)
  then show ?thesis using d x(1) assms(4) by (auto simp: docs_ok_def sealed_def list_all_iff)
qed

text \<open>
  C13. What is in force was signed: in every state reachable from an empty database by such an
  interleaving, an agreement that is signed, waiting for its first payment, active, past due,
  disputed, paused, paid or closed has a current version that is its own, that both parties have
  signed, and whose hash is that of the terms it holds.
\<close>

theorem in_force_means_both_signed:
  assumes "(agreement_step E)\<^sup>*\<^sup>* empty_db s" and "find_agreement ag s = Some a" and "in_force (agStatus a)"
  shows "\<exists>x. agCurrentVersion a = Some (avId x) \<and> find_version (avId x) s = Some x \<and> avAgreement x = ag \<and>
    avCreditorSigned x \<noteq> None \<and> avDebtorSigned x \<noteq> None \<and> avHash x = Some (version_hash E x)"
proof -
  have d: "docs_ok E s" using agreement_steps_progress [OF assms(1)] docs_ok_empty by (simp add: progresses_def)
  have a: "a \<in> set (agreements s)" "agId a = ag"
    using assms(2) by (auto dest: lookup_by_Some_mem lookup_by_Some_key)
  then obtain x where x: "x \<in> set (versions s)" "agCurrentVersion a = Some (avId x)" "avAgreement x = ag" "avSigned x \<noteq> None"
    using d assms(3) by (auto simp: docs_ok_def bound_by_signatures_def list_all_iff)
  moreover have "find_version (avId x) s = Some x" using d x(1) lookup_by_distinct by (auto simp: docs_ok_def)
  moreover have "sealed E x" using d x(1) by (simp add: docs_ok_def list_all_iff)
  ultimately show ?thesis by (auto simp: sealed_def)
qed

text \<open>A short life: drafted, submitted, accepted, signed by the debtor and then by the creditor.\<close>

definition early_env :: env where
  "early_env = toy_env\<lparr>clock := 1700000000000\<rparr>"

definition life_start :: db where
  "life_start = set_agreement_status 1 AwaitingCreditorAcceptance (set_current_version_id 1 2
     (snd (insert_version \<lparr>viAgreement = 1, viNumber = 1, viParent = None, viOriginal = True,
        viProducedBy = ''initial_signing'', viFrequency = Monthly, viFee = DebtorPays, viTerms = sample_terms\<rparr>
     (snd (insert_agreement (PersonalProfile, 102) (PersonalProfile, 101) ''USD'' 102 empty_db)))))"

definition life_accepted :: db where
  "life_accepted = snd (apply_acceptance 1 2 [AwaitingCreditorAcceptance] AwaitingSignatures life_start)"

definition life_signed :: db where
  "life_signed = snd (apply_signing early_env 1 2 Creditor Creditor 8 None
     (snd (apply_signing early_env 1 2 Debtor Creditor 7 None life_accepted)))"

definition life_version :: version_row where
  "life_version = sample_version\<lparr>avId := 2, avHash := Some (version_hash toy_env (sample_version\<lparr>avId := 2\<rparr>)),
     avDebtorSigned := Some 7, avCreditorSigned := Some 8, avSigned := Some 8\<rparr>"

lemma life_start_eq:
  "agreements life_start = [(sample_agreement AwaitingCreditorAcceptance)\<lparr>agCurrentVersion := Some 2\<rparr>] \<and>
   versions life_start = [sample_version\<lparr>avId := 2\<rparr>] \<and> signatures life_start = [] \<and> nextId life_start = 3"
  by (simp add: life_start_def insert_agreement_def insert_version_def version_of_input_def Let_def
      set_current_version_id_def set_agreement_def set_agreement_status_def sample_agreement_def
      sample_version_def empty_db_def)

lemma early_date: "date_passed early_env ''2026-01-31'' = None"
  by code_simp

lemma life_signed_eq:
  "agreements life_signed = [(sample_agreement FirstPaymentPending)\<lparr>agCurrentVersion := Some 2\<rparr>] \<and>
   versions life_signed = [life_version]"
  using life_start_eq early_date
  by (simp add: life_signed_def life_accepted_def apply_acceptance_def apply_signing_def atomically_def
      signing_transaction_def signing_checks_def andThen_def record_version_signature_def set_version_def
      lock_version_def set_agreement_status_def signature_of_def signed_by_def other_party_def
      sample_agreement_def sample_version_def sample_terms_def life_version_def version_hash_def
      compute_version_hash_def early_env_def)

lemma life_run: "(agreement_step toy_env)\<^sup>*\<^sup>* empty_db life_signed"
proof -
  note then_step = rtranclp.rtrancl_into_rtrancl [of "agreement_step toy_env" empty_db]
  define s1 where "s1 = snd (insert_agreement (PersonalProfile, 102) (PersonalProfile, 101) ''USD'' 102 empty_db)"
  define s2 where "s2 = snd (insert_version \<lparr>viAgreement = 1, viNumber = 1, viParent = None, viOriginal = True,
     viProducedBy = ''initial_signing'', viFrequency = Monthly, viFee = DebtorPays, viTerms = sample_terms\<rparr> s1)"
  define s3 where "s3 = set_current_version_id 1 2 s2"
  define s6 where "s6 = snd (apply_signing early_env 1 2 Debtor Creditor 7 None life_accepted)"
  have "agreement_step toy_env empty_db s1" unfolding s1_def by (rule opens)
  then have 1: "(agreement_step toy_env)\<^sup>*\<^sup>* empty_db s1" by (rule r_into_rtranclp)
  have "agreement_step toy_env s1 s2" unfolding s2_def
    by (rule writes) (simp add: s1_def insert_agreement_def Let_def empty_db_def)
  note 2 = then_step [OF 1 this]
  have "agreement_step toy_env s2 s3" unfolding s3_def
    by (rule points [where a = "(sample_agreement Draft)\<lparr>agCurrentVersion := None\<rparr>"])
      (simp_all add: s1_def s2_def insert_agreement_def insert_version_def Let_def empty_db_def sample_agreement_def)
  note 3 = then_step [OF 2 this]
  have "agreement_step toy_env s3 life_start"
    unfolding life_start_def s3_def s2_def s1_def by (rule moves) simp
  note 4 = then_step [OF 3 this]
  have "agreement_step toy_env life_start life_accepted"
    unfolding life_accepted_def by (rule accepts)
  note 5 = then_step [OF 4 this]
  have "agreement_step toy_env life_accepted s6"
    unfolding s6_def by (rule signs) (simp add: early_env_def)
  note 6 = then_step [OF 5 this]
  have "agreement_step toy_env s6 life_signed"
    unfolding life_signed_def s6_def by (rule signs) (simp add: early_env_def)
  then show ?thesis by (rule then_step [OF 6])
qed

text \<open>Even a rejection that comes late, on a read from before the acceptance.\<close>

theorem signed_terms_are_final_witness:
  "find_version 2 (set_agreement_status 1 Draft life_signed) = Some life_version"
  using signed_terms_are_final [OF life_run r_into_rtranclp, of "set_agreement_status 1 Draft life_signed" 2 life_version]
    moves [of Draft toy_env life_signed 1] life_signed_eq
  by (simp add: life_version_def set_agreement_status_def sample_agreement_def sample_version_def)

theorem in_force_means_both_signed_witness:
  "\<exists>x. find_version 2 life_signed = Some x \<and> avCreditorSigned x \<noteq> None \<and> avDebtorSigned x \<noteq> None"
  using in_force_means_both_signed [OF life_run, of 1 "(sample_agreement FirstPaymentPending)\<lparr>agCurrentVersion := Some 2\<rparr>"]
    life_signed_eq by (auto simp: in_force_def sample_agreement_def)
      (simp_all add: life_version_def)

section \<open>Requests\<close>

datatype agreement_request =
    CreateDraft profile_ref profile_ref "string option" terms_input
  | DeleteDraft uuid
  | SubmitDraft uuid
  | AcknowledgeDebt uuid
  | ReviseTerms uuid terms_input string
  | CreditorDecide uuid creditor_decision
  | ReviseFirstDate uuid string
  | SignAgreement uuid "signing_evidence option"
  | CancelAgreement uuid string
  | CancelOnRequest uuid uuid
  | LinkRelationship uuid

fun perform :: "agreement_deps \<Rightarrow> env \<Rightarrow> uuid \<Rightarrow> agreement_request \<Rightarrow> (db, error, unit) step" where
  "perform A E user (CreateDraft c d cur t) = andThen (create_draft A E user c d cur t) (\<lambda>_. ret ())"
| "perform A E user (DeleteDraft ag) = delete_draft A ag user"
| "perform A E user (SubmitDraft ag) = submit_draft A E ag user"
| "perform A E user (AcknowledgeDebt ag) = acknowledge_debt A E ag user"
| "perform A E user (ReviseTerms ag t why) = andThen (revise_terms_before_signature A E ag user t why) (\<lambda>_. ret ())"
| "perform A E user (CreditorDecide ag decision) = creditor_decide A E ag user decision"
| "perform A E user (ReviseFirstDate ag d) = andThen (revise_first_payment_date A E ag user d) (\<lambda>_. ret ())"
| "perform A E user (SignAgreement ag ev) = andThen (sign_agreement_with_evidence A E ag user ev) (\<lambda>_. ret ())"
| "perform A E user (CancelAgreement ag why) = andThen (cancel_agreement A E ag user why) (\<lambda>_. ret ())"
| "perform A E user (CancelOnRequest ag q) = andThen (mark_mutually_canceled A E ag user q) (\<lambda>_. ret ())"
| "perform A E user (LinkRelationship ag) = andThen (ensure_relationship_linked A ag user) (\<lambda>_. ret ())"

text \<open>
  The relationship service writes no version and no installment, and of an agreement only the link to the
  relationship (\<open>DrizzleAgreementRelationshipLinker\<close>). \<open>RelationshipLaws\<close> proves it of the service as
  it is modelled there.
\<close>

definition connects_only :: "agreement_deps \<Rightarrow> bool" where
  "connects_only A \<longleftrightarrow> (\<forall>confirm a c d user s. let s' = snd (gdConnect A confirm a c d user s) in
     versions s' = versions s \<and> installments s' = installments s \<and> nextId s \<le> nextId s' \<and> (agreements s' = agreements s \<or>
       (\<exists>r. agreements s' = update_by agId (agId a) (\<lambda>x. x\<lparr>agRelationship := r\<rparr>) (agreements s))))"

definition advances :: "env \<Rightarrow> db \<Rightarrow> db \<Rightarrow> bool" where
  "advances E s s' \<longleftrightarrow> (docs_ok E s \<longrightarrow> (agreement_step E)\<^sup>*\<^sup>* s s')"

lemma advances_refl: "advances E s s"
  by (simp add: advances_def)

lemma advances_trans: "advances E a b \<Longrightarrow> advances E b c \<Longrightarrow> advances E a c"
  using agreement_steps_progress [of E a b] by (auto simp: advances_def progresses_def)

lemma advances_step: "agreement_step E s s' \<Longrightarrow> advances E s s'"
  by (simp add: advances_def r_into_rtranclp)

interpretation advancing: state_preorder "advances E" for E
  by unfold_locales (blast intro: advances_refl advances_trans)+

lemmas advances_simple = advancing.kept_simple

lemmas advances_andThen = advancing.kept_then

lemma advances_elsewhere:
  assumes "\<And>s. agreements (f s) = agreements s \<and> versions (f s) = versions s \<and> nextId s \<le> nextId (f s)"
  shows "keeps (advances E) (update f)"
  using assms by (auto simp: keeps_def intro!: advances_step elsewhere)

lemma advances_audit: "keeps (advances E) (agreement_audit E' ag actor act v)"
  unfolding agreement_audit_def by (rule advances_elsewhere) (simp add: audit_def)

lemma advances_moves:
  "st \<in> {Draft, AwaitingDebtorAcknowledgment, AwaitingCreditorAcceptance, MutuallyCanceled} \<Longrightarrow>
   keeps (advances E) (update (set_agreement_status ag st))"
  by (auto simp: keeps_def intro!: advances_step moves)

lemma advances_connect:
  assumes "connects_only A"
  shows "keeps (advances E) (try_establish_connection A confirm a actor)"
proof -
  have "advances E s (snd (gdConnect A confirm a c d actor s))" for c d s
  proof -
    let ?s = "snd (gdConnect A confirm a c d actor s)"
    have "versions ?s = versions s" "nextId s \<le> nextId ?s"
      "agreements ?s = agreements s \<or>
       (\<exists>r. agreements ?s = update_by agId (agId a) (\<lambda>x. x\<lparr>agRelationship := r\<rparr>) (agreements s))"
      using assms unfolding connects_only_def Let_def by blast+
    moreover have "advances E s ?s" if "agreements ?s = update_by agId (agId a) (\<lambda>x. x\<lparr>agRelationship := r\<rparr>) (agreements s)" for r
    proof -
      have "agreement_step E s (set_agreement (agId a) (\<lambda>x. x\<lparr>agRelationship := r\<rparr>) s)" by (rule relates)
      moreover have "agreement_step E (set_agreement (agId a) (\<lambda>x. x\<lparr>agRelationship := r\<rparr>) s) ?s"
        using calculation that \<open>versions ?s = versions s\<close> \<open>nextId s \<le> nextId ?s\<close>
        by (intro elsewhere) (simp_all add: set_agreement_def)
      ultimately show ?thesis by (blast intro: advances_trans advances_step)
    qed
    ultimately show ?thesis by (blast intro: advances_step elsewhere)
  qed
  then show ?thesis
    by (auto simp: keeps_def try_establish_connection_def advances_refl split: option.split)
qed

lemma advances_replace: "keeps (advances E) (replace_for_version v its)"
  unfolding keeps_def by (metis replace_frame advances_step elsewhere prod.collapse)

lemma advances_party: "keeps (advances E) (insert_party ag role p)"
  by (auto simp: keeps_def insert_party_def intro!: advances_step elsewhere)

lemma advances_draft_rows: "keeps (advances E) (insert_draft_rows creator c d cur t terms sch)"
  unfolding keeps_def
proof
  fix s :: db
  define s1 where "s1 = snd (insert_agreement c d cur creator s)"
  define a where "a = fst (insert_agreement c d cur creator s)"
  define vi where "vi = \<lparr>viAgreement = agId a, viNumber = 1, viParent = None, viOriginal = True,
     viProducedBy = ''initial_signing'', viFrequency = tiFrequency t, viFee = tiFee t, viTerms = terms\<rparr>"
  define rest where "rest y = andThen (insert_party (agId a) Creditor c) (\<lambda>_.
     andThen (insert_party (agId a) Debtor d) (\<lambda>_.
     andThen (replace_for_version (avId y) sch) (\<lambda>_. ret a)))" for y :: version_row
  have r: "insert_draft_rows creator c d cur t terms sch s = andThen (insert_version vi)
      (\<lambda>y. andThen (update (set_current_version_id (agId a) (avId y))) (\<lambda>_. rest y)) s1"
    unfolding insert_draft_rows_def rest_def vi_def
    by (subst andThen_def) (simp add: s1_def a_def insert_agreement_def Let_def)
  obtain q s2 where v: "insert_version vi s1 = (q, s2)" by fastforce
  have 1: "advances E s s1" unfolding s1_def by (rule advances_step) (rule opens)
  have "agreement_step E s1 (snd (insert_version vi s1))"
    by (rule writes) (simp add: vi_def a_def s1_def insert_agreement_def Let_def)
  then have "advances E s1 s2" using v by (intro advances_step) simp
  with 1 have 2: "advances E s s2" by (rule advances_trans)
  have 3: "advances E s (set_current_version_id (agId a) w s2)" for w
    unfolding advances_def
  proof
    assume d: "docs_ok E s"
    then have "find_agreement (nextId s) s = None"
      by (auto simp: docs_ok_def list_all_iff lookup_by_None_iff)
    then have "find_agreement (agId a) s2 = Some a"
      using v by (auto simp: insert_version_def s1_def a_def insert_agreement_def Let_def lookup_by_append split: if_splits)
    then have "agreement_step E s2 (set_current_version_id (agId a) w s2)"
      by (rule points) (simp add: a_def insert_agreement_def Let_def)
    then show "(agreement_step E)\<^sup>*\<^sup>* s (set_current_version_id (agId a) w s2)"
      using 2 d by (auto simp: advances_def intro: rtranclp.rtrancl_into_rtrancl)
  qed
  have "keeps (advances E) (rest y)" for y unfolding rest_def
    by (intro advances_andThen advances_party advances_replace advances_simple)
  then have "advances E (set_current_version_id (agId a) (avId y) s2)
      (snd (rest y (set_current_version_id (agId a) (avId y) s2)))" for y
    by (simp add: keeps_def)
  then have "advances E s (snd (rest y (set_current_version_id (agId a) (avId y) s2)))" for y
    using 3 advances_trans by blast
  then show "advances E s (snd (insert_draft_rows creator c d cur t terms sch s))"
    unfolding r using v 2 by (cases q) (simp_all add: andThen_def)
qed

lemma advances_cond: "keeps (advances E) m \<Longrightarrow> keeps (advances E) n \<Longrightarrow> keeps (advances E) (if b then m else n)"
  by simp

lemma advances_terms:
  "st \<in> {AwaitingDebtorAcknowledgment, AwaitingCreditorAcceptance} \<Longrightarrow>
   keeps (advances E) (apply_terms_revision r expected st)"
  unfolding keeps_def by (blast intro: advances_step terms)

lemma advances_sign:
  "sha256 E' = sha256 E \<Longrightarrow> keeps (advances E) (apply_signing E' ag v role originator t ev)"
  unfolding keeps_def by (blast intro: advances_step signs)

lemma advances_dates: "keeps (advances E) (apply_date_revision r)"
  unfolding keeps_def by (blast intro: advances_step dates)

lemma advances_delete: "keeps (advances E) (delete_draft_rows ref ag)"
  unfolding keeps_def by (blast intro: advances_step deletes)

lemma advances_accept: "keeps (advances E) (\<lambda>s. case apply_acceptance ag v [AwaitingCreditorAcceptance] AwaitingSignatures s of
    (b, s1) \<Rightarrow> (if b then Inr () else Inl e, s1))"
  unfolding keeps_def using accepts [of E _ ag v] by (auto split: prod.split intro: advances_step) (metis advances_step snd_conv)+

lemma advances_cancel: "keeps (advances E) (\<lambda>s. case update_status_if_currently_in ag expected MutuallyCanceled s of
    (b, s1) \<Rightarrow> (if b then Inr () else Inl e, s1))"
  unfolding keeps_def using cancels [of E _ ag expected] by (auto split: prod.split intro: advances_step) (metis advances_step snd_conv)+

lemmas advances_rules = advances_andThen advances_simple advances_audit advances_moves advances_connect
  advances_terms advances_sign advances_dates advances_delete advances_accept advances_cancel advances_draft_rows

lemma advances_revise: "keeps (advances E) (revise_terms_before_signature A E' ag user t why)"
  unfolding revise_terms_before_signature_def with_agreement_def as_either_party_def authorize_as_role_def Let_def
  by (intro advances_rules) (auto split: prod.split intro!: advances_rules)

lemmas request_defs = with_agreement_def as_either_party_def authorize_as_role_def require_status_def not_past_def
  require_complete_name_def

lemma advances_perform:
  assumes "connects_only A" and "sha256 E' = sha256 E"
  shows "keeps (advances E) (perform A E' user q)"
proof (cases q)
  case (CreateDraft c d cur t)
  then show ?thesis unfolding CreateDraft perform.simps create_draft_def request_defs
    by (auto split: prod.split intro!: advances_rules assms)
next
  case (DeleteDraft ag)
  then show ?thesis unfolding DeleteDraft perform.simps delete_draft_def request_defs
    by (auto intro!: advances_rules)
next
  case (SubmitDraft ag)
  then show ?thesis unfolding SubmitDraft perform.simps submit_draft_def request_defs
    by (auto intro!: advances_rules)
next
  case (AcknowledgeDebt ag)
  then show ?thesis unfolding AcknowledgeDebt perform.simps acknowledge_debt_def request_defs
    by (auto intro!: advances_rules)
next
  case (ReviseTerms ag t why)
  then show ?thesis by (auto intro!: advances_rules advances_revise)
next
  case (CreditorDecide ag d)
  then show ?thesis unfolding CreditorDecide perform.simps creditor_decide_def accept_terms_def request_defs
    by (auto split: creditor_decision.split option.split intro!: advances_rules advances_revise assms)
next
  case (ReviseFirstDate ag d)
  then show ?thesis unfolding ReviseFirstDate perform.simps revise_first_payment_date_def request_defs
    by (auto split: prod.split intro!: advances_rules)
next
  case (SignAgreement ag ev)
  then show ?thesis unfolding SignAgreement perform.simps sign_agreement_with_evidence_def request_defs
    by (auto intro!: advances_rules assms)
next
  case (CancelAgreement ag why)
  then show ?thesis unfolding CancelAgreement perform.simps cancel_agreement_def request_defs Let_def
    by (auto intro!: advances_rules)
next
  case (CancelOnRequest ag r)
  then show ?thesis unfolding CancelOnRequest perform.simps mark_mutually_canceled_def request_defs
    by (auto intro!: advances_rules)
next
  case (LinkRelationship ag)
  then show ?thesis unfolding LinkRelationship perform.simps ensure_relationship_linked_def request_defs
    by (auto intro!: advances_rules assms)
qed

text \<open>
  A request is made of these steps: whoever sends which request on agreements, with any outcome, what
  it does to the database is a sequence of the steps above.
\<close>

theorem requests_are_runs:
  assumes "connects_only A" and "sha256 E' = sha256 E" and "(agreement_step E)\<^sup>*\<^sup>* empty_db s"
  shows "(agreement_step E)\<^sup>*\<^sup>* s (snd (perform A E' user q s))"
proof -
  have "docs_ok E s"
    using agreement_steps_progress [OF assms(3)] docs_ok_empty by (simp add: progresses_def)
  then show ?thesis using advances_perform [OF assms(1,2), of user q] by (simp add: keeps_def advances_def)
qed

text \<open>Nobody is connected.\<close>

definition sample_deps :: agreement_deps where
  "sample_deps = \<lparr>gdParty = sample_parties, gdNamed = (\<lambda>_. True),
     gdConnect = (\<lambda>_ _ _ _ _ s. (Inr (), s)), gdReferenced = (\<lambda>_. False)\<rparr>"

lemma sample_connects: "connects_only sample_deps"
  by (simp add: connects_only_def sample_deps_def)

theorem requests_are_runs_witness:
  "(agreement_step toy_env)\<^sup>*\<^sup>* life_signed (snd (perform sample_deps early_env 102 (SignAgreement 1 None) life_signed))"
  by (rule requests_are_runs [OF sample_connects _ life_run]) (simp add: early_env_def)

end
