(* ===== verification/Negotiation.thy ===== *)
theory Negotiation
  imports AgreementLaws
begin

text \<open>
  The negotiation as the parties see it: one automaton that says which request, by whom, leads from
  which status to which, and that the service follows it; every stored schedule adds up to the
  principal of its version.
\<close>

section \<open>The automaton\<close>

definition is_creditor :: "agreement_deps \<Rightarrow> uuid \<Rightarrow> string option \<Rightarrow> agreement_row \<Rightarrow> bool" where
  "is_creditor A user cap a \<longleftrightarrow> authorize_party (gdParty A) user (agCreditor a) cap"

definition is_debtor :: "agreement_deps \<Rightarrow> uuid \<Rightarrow> agreement_row \<Rightarrow> bool" where
  "is_debtor A user a \<longleftrightarrow> authorize_party (gdParty A) user (agDebtor a) None"

definition is_party :: "agreement_deps \<Rightarrow> uuid \<Rightarrow> agreement_row \<Rightarrow> bool" where
  "is_party A user a \<longleftrightarrow> is_creditor A user None a \<or> is_debtor A user a"

fun subject :: "agreement_request \<Rightarrow> uuid option" where
  "subject (SubmitDraft ag) = Some ag"
| "subject (AcknowledgeDebt ag) = Some ag"
| "subject (ReviseTerms ag t why) = Some ag"
| "subject (CreditorDecide ag d) = Some ag"
| "subject (ReviseFirstDate ag d) = Some ag"
| "subject (SignAgreement ag ev) = Some ag"
| "subject (CancelAgreement ag why) = Some ag"
| "subject (CancelOnRequest ag r) = Some ag"
| "subject (LinkRelationship ag) = Some ag"
| "subject (CreateDraft c d cur t) = None"
| "subject (DeleteDraft ag) = None"

text \<open>Who may send the request, from which status, and to which statuses it may lead.\<close>

inductive negotiates :: "agreement_deps \<Rightarrow> uuid \<Rightarrow> agreement_request \<Rightarrow> agreement_row \<Rightarrow> agreement_status \<Rightarrow> bool"
  for A user where
  submits: "is_party A user a \<Longrightarrow> agStatus a = Draft \<Longrightarrow>
    negotiates A user (SubmitDraft ag) a AwaitingDebtorAcknowledgment"
| acknowledges: "is_debtor A user a \<Longrightarrow> agStatus a = AwaitingDebtorAcknowledgment \<Longrightarrow>
    negotiates A user (AcknowledgeDebt ag) a AwaitingCreditorAcceptance"
| debtor_counters: "is_debtor A user a \<Longrightarrow> agStatus a = AwaitingDebtorAcknowledgment \<Longrightarrow>
    negotiates A user (ReviseTerms ag t why) a AwaitingCreditorAcceptance"
| creditor_counters: "is_creditor A user None a \<Longrightarrow> agStatus a = AwaitingCreditorAcceptance \<Longrightarrow>
    negotiates A user (ReviseTerms ag t why) a AwaitingDebtorAcknowledgment"
| accepted: "is_creditor A user (Some ''approve_agreement'') a \<Longrightarrow> agStatus a = AwaitingCreditorAcceptance \<Longrightarrow>
    negotiates A user (CreditorDecide ag AcceptTerms) a AwaitingSignatures"
| rejected: "is_creditor A user (Some ''approve_agreement'') a \<Longrightarrow> agStatus a = AwaitingCreditorAcceptance \<Longrightarrow>
    negotiates A user (CreditorDecide ag (RejectTerms why)) a Draft"
| countered: "is_creditor A user (Some ''approve_agreement'') a \<Longrightarrow> is_creditor A user None a \<Longrightarrow>
    agStatus a = AwaitingCreditorAcceptance \<Longrightarrow>
    negotiates A user (CreditorDecide ag (CounterTerms (Some t) why)) a AwaitingDebtorAcknowledgment"
| redated: "is_party A user a \<Longrightarrow> agStatus a = AwaitingSignatures \<Longrightarrow>
    negotiates A user (ReviseFirstDate ag d) a AwaitingSignatures"
| signed_first: "is_party A user a \<Longrightarrow> agStatus a = AwaitingSignatures \<Longrightarrow>
    negotiates A user (SignAgreement ag ev) a AwaitingSignatures"
| signed_last: "is_party A user a \<Longrightarrow> agStatus a = AwaitingSignatures \<Longrightarrow>
    negotiates A user (SignAgreement ag ev) a FirstPaymentPending"
| withdrawn: "is_party A user a \<Longrightarrow>
    agStatus a \<in> {AwaitingDebtorAcknowledgment, AwaitingCreditorAcceptance, AwaitingSignatures} \<Longrightarrow>
    negotiates A user (CancelAgreement ag why) a MutuallyCanceled"
| canceled: "is_party A user a \<Longrightarrow> agStatus a \<in> {FirstPaymentPending, Active, PastDue} \<Longrightarrow>
    negotiates A user (CancelOnRequest ag r) a MutuallyCanceled"
| linked: "is_party A user a \<Longrightarrow> negotiates A user (LinkRelationship ag) a (agStatus a)"

inductive_cases accepts_cases: "negotiates A user (CreditorDecide ag AcceptTerms) a st"

text \<open>The agreement has the status, its parties and terms of reference stay, no other agreement changes.\<close>

definition same_contract :: "agreement_row \<Rightarrow> agreement_row \<Rightarrow> bool" where
  "same_contract a b \<longleftrightarrow> agCreditor b = agCreditor a \<and> agDebtor b = agDebtor a \<and> agCurrency b = agCurrency a \<and>
     agCreatedBy b = agCreatedBy a"

definition moved_to :: "uuid \<Rightarrow> agreement_status \<Rightarrow> db \<Rightarrow> db \<Rightarrow> bool" where
  "moved_to ag st s s' \<longleftrightarrow> (\<forall>x. x \<noteq> ag \<longrightarrow> find_agreement x s' = find_agreement x s) \<and>
     (\<forall>a. find_agreement ag s = Some a \<longrightarrow>
        (\<exists>b. find_agreement ag s' = Some b \<and> agStatus b = st \<and> same_contract a b))"

lemma moved_row:
  assumes "agreements s' = update_by agId ag f (agreements s)"
    and "\<And>a. find_agreement ag s = Some a \<Longrightarrow> agStatus (f a) = st"
    and "\<And>a. agId (f a) = agId a \<and> same_contract a (f a)"
  shows "moved_to ag st s s'"
  using assms by (simp add: moved_to_def lookup_update_same lookup_update_other)

lemma moved_then:
  assumes "moved_to ag st s s1" and "moved_to ag st' s1 s2"
  shows "moved_to ag st' s s2"
  unfolding moved_to_def
proof (intro conjI allI impI)
  show "find_agreement x s2 = find_agreement x s" if "x \<noteq> ag" for x
    using assms that by (simp add: moved_to_def)
  fix a assume "find_agreement ag s = Some a"
  then obtain b where b: "find_agreement ag s1 = Some b" "same_contract a b"
    using assms(1) by (auto simp: moved_to_def)
  then obtain c where "find_agreement ag s2 = Some c" "agStatus c = st'" "same_contract b c"
    using assms(2) by (auto simp: moved_to_def)
  then show "\<exists>c. find_agreement ag s2 = Some c \<and> agStatus c = st' \<and> same_contract a c"
    using b(2) by (auto simp: same_contract_def)
qed

lemma moved_same: "agreements s' = agreements s \<Longrightarrow> (\<And>a. find_agreement ag s = Some a \<Longrightarrow> agStatus a = st) \<Longrightarrow> moved_to ag st s s'"
  by (simp add: moved_to_def same_contract_def)

lemma moved_connect:
  assumes "connects_only A" and "agId a = ag" and "\<And>x. find_agreement ag s = Some x \<Longrightarrow> agStatus x = st"
    and "try_establish_connection A confirm a user s = (r, s')"
  shows "moved_to ag st s s'"
proof -
  have "moved_to ag st s (snd (gdConnect A confirm a c d user s))" for c d
  proof -
    let ?s = "snd (gdConnect A confirm a c d user s)"
    have "agreements ?s = agreements s \<or>
       (\<exists>r. agreements ?s = update_by agId (agId a) (\<lambda>x. x\<lparr>agRelationship := r\<rparr>) (agreements s))"
      using assms(1) unfolding connects_only_def Let_def by blast
    then show ?thesis
    proof (elim disjE exE)
      assume "agreements ?s = agreements s"
      then show ?thesis using assms(3) by (rule moved_same)
    next
      fix q assume "agreements ?s = update_by agId (agId a) (\<lambda>x. x\<lparr>agRelationship := q\<rparr>) (agreements s)"
      then show ?thesis using assms(2,3)
        by (intro moved_row [where f = "\<lambda>x. x\<lparr>agRelationship := q\<rparr>"]) (simp_all add: same_contract_def)
    qed
  qed
  then show ?thesis using assms(3,4)
    by (auto simp: try_establish_connection_def split: option.splits intro: moved_same)
qed

lemma moved_set_status: "moved_to ag st s (set_agreement_status ag st s)"
  by (rule moved_row [where f = "\<lambda>a. a\<lparr>agStatus := st\<rparr>"]) (auto simp: set_agreement_status_def same_contract_def)

lemma moved_audit: "agreement_audit E ag' user act v s = (r, s') \<Longrightarrow>
    (\<And>a. find_agreement ag s = Some a \<Longrightarrow> agStatus a = st) \<Longrightarrow> moved_to ag st s s'"
  by (auto simp: agreement_audit_def audit_def intro: moved_same)

lemma moved_revision:
  assumes "atomically (revision_transaction r expected st) s = (Inr y, s')"
  shows "moved_to (rvAgreement r) st s s'"
proof -
  have "revision_transaction r expected st s = (Inr y, s')" using assms by (simp add: atomically_Inr)
  then show ?thesis
  proof (cases rule: revision_cases)
    case (1 a x s2)
    then show ?thesis
      by (intro moved_row [where f = "\<lambda>a. a\<lparr>agCurrentVersion := Some (nextId s), agStatus := st\<rparr>"])
        (simp_all add: same_contract_def)
  qed
qed

lemma moved_signing:
  assumes "apply_signing E ag v role originator t ev s = (Inr r, s')" and "\<not> srAlready r"
  shows "moved_to ag (if srBoth r then FirstPaymentPending else AwaitingSignatures) s s'"
  using assms(1)
proof (cases rule: signing_cases)
  case (signed a x n sgs)
  show ?thesis
  proof (cases "srBoth r")
    case True
    then show ?thesis using signed(13)
      by (intro moved_row [where f = "\<lambda>a. a\<lparr>agStatus := FirstPaymentPending\<rparr>"]) (simp_all add: same_contract_def)
  next
    case False
    then show ?thesis using signed(1,2,13) by (auto intro: moved_same)
  qed
qed (use assms(2) in simp)

section \<open>Where a sequence of steps leads\<close>

text \<open>
  From a state whose row of the agreement satisfies \<open>R\<close>, the step, when it succeeds, moves the agreement
  to a status of \<open>Q\<close>. The rules take an operation apart, step by step.
\<close>

definition leads ::
    "uuid \<Rightarrow> (agreement_row \<Rightarrow> bool) \<Rightarrow> (agreement_status \<Rightarrow> bool) \<Rightarrow> (db, error, 'a) step \<Rightarrow> bool" where
  "leads ag R Q m \<longleftrightarrow> (\<forall>s y s' a. m s = (Inr y, s') \<longrightarrow> find_agreement ag s = Some a \<longrightarrow> R a \<longrightarrow>
     (\<exists>st'. Q st' \<and> moved_to ag st' s s'))"

lemma leadsI:
  "(\<And>s y s' a. m s = (Inr y, s') \<Longrightarrow> find_agreement ag s = Some a \<Longrightarrow> R a \<Longrightarrow>
     \<exists>st'. Q st' \<and> moved_to ag st' s s') \<Longrightarrow> leads ag R Q m"
  by (simp add: leads_def)

lemma leadsD:
  "leads ag R Q m \<Longrightarrow> m s = (Inr y, s') \<Longrightarrow> find_agreement ag s = Some a \<Longrightarrow> R a \<Longrightarrow>
   \<exists>st'. Q st' \<and> moved_to ag st' s s'"
  by (simp add: leads_def)

lemma leads_then:
  assumes "leads ag R P m" and "\<And>x st'. P st' \<Longrightarrow> leads ag (\<lambda>b. agStatus b = st') Q (f x)"
  shows "leads ag R Q (andThen m f)"
proof (rule leadsI)
  fix s y s' a
  assume run: "andThen m f s = (Inr y, s')" and a: "find_agreement ag s = Some a" "R a"
  obtain x s1 where x: "m s = (Inr x, s1)" "f x s1 = (Inr y, s')" using run by (auto simp: andThen_Inr_iff)
  obtain st1 where 1: "P st1" "moved_to ag st1 s s1" using leadsD [OF assms(1) x(1) a] by blast
  obtain b where b: "find_agreement ag s1 = Some b" "agStatus b = st1" using 1(2) a(1) by (auto simp: moved_to_def)
  obtain st2 where "Q st2" "moved_to ag st2 s1 s'"
    using leadsD [OF assms(2) [OF 1(1)] x(2) b] by blast
  then show "\<exists>st'. Q st' \<and> moved_to ag st' s s'" using moved_then [OF 1(2)] by blast
qed

lemma leads_same:
  assumes "\<And>a. R a \<Longrightarrow> Q (agStatus a)" and "\<And>s y s'. m s = (Inr y, s') \<Longrightarrow> agreements s' = agreements s"
  shows "leads ag R Q m"
  using assms by (intro leadsI) (metis moved_same option.inject)

lemma leads_end: "(\<And>a. R a \<Longrightarrow> Q (agStatus a)) \<Longrightarrow> leads ag R Q (ret x)"
  "(\<And>a. R a \<Longrightarrow> Q (agStatus a)) \<Longrightarrow> leads ag R Q (\<lambda>s. (r s, s))"
  by (auto intro: leads_same)

lemma leads_throw: "leads ag R Q (throw e)"
  by (simp add: leads_def)

lemma leads_pass:
  assumes "\<And>s y s'. m s = (Inr y, s') \<Longrightarrow> agreements s' = agreements s"
    and "\<And>x. leads ag R Q (f x)"
  shows "leads ag R Q (andThen m f)"
proof (rule leadsI)
  fix s y s' a
  assume run: "andThen m f s = (Inr y, s')" and a: "find_agreement ag s = Some a" "R a"
  obtain x s1 where x: "m s = (Inr x, s1)" "f x s1 = (Inr y, s')" using run by (auto simp: andThen_Inr_iff)
  have e: "agreements s1 = agreements s" using assms(1) [OF x(1)] .
  then show "\<exists>st'. Q st' \<and> moved_to ag st' s s'"
    using leadsD [OF assms(2) x(2), of a] a by (simp add: moved_to_def)
qed

lemma leads_guard: "(b \<Longrightarrow> leads ag R Q (f ())) \<Longrightarrow> leads ag R Q (andThen (guard b e) f)"
  by (cases b) (auto simp: leads_def andThen_def)

lemma leads_raised: "(\<And>x. r = Inr x \<Longrightarrow> leads ag R Q (f x)) \<Longrightarrow> leads ag R Q (andThen (raised r) f)"
  by (cases r) (auto simp: leads_def andThen_def)

lemma leads_read: "(\<And>x. leads ag R Q (f x)) \<Longrightarrow> leads ag R Q (andThen (\<lambda>s. (r s, s)) f)"
  by (rule leads_pass) auto

lemma leads_not_past: "(\<And>x. leads ag R Q (f x)) \<Longrightarrow> leads ag R Q (andThen (not_past E d e) f)"
  by (rule leads_pass) (auto simp: not_past_def andThen_Inr_iff split: if_splits)

lemma leads_with: "leads ag (\<lambda>x. x = a) Q (f a) \<Longrightarrow> leads ag (\<lambda>x. x = a) Q (with_agreement ag f)"
  by (auto simp: leads_def with_agreement_def andThen_Inr_iff require_agreement_def split: option.splits)

lemma leads_audit: "(\<And>x. leads ag R Q (f x)) \<Longrightarrow> leads ag R Q (andThen (agreement_audit E i user act v) f)"
  by (rule leads_pass) (auto simp: agreement_audit_def audit_def)

lemma leads_audit_end: "(\<And>a. R a \<Longrightarrow> Q (agStatus a)) \<Longrightarrow> leads ag R Q (agreement_audit E i user act v)"
  by (rule leads_same) (auto simp: agreement_audit_def audit_def)

lemma leads_status:
  "(\<And>x. leads ag (\<lambda>b. agStatus b = st') Q (f x)) \<Longrightarrow> leads ag R Q (andThen (update (set_agreement_status ag st')) f)"
  by (rule leads_then [where P = "\<lambda>x. x = st'"]) (auto intro!: leadsI intro: moved_set_status)

lemma leads_connect:
  assumes "connects_only A" and "agId a = ag" and "\<And>x. R x \<Longrightarrow> agStatus x = st \<and> Q st"
  shows "leads ag R Q (try_establish_connection A confirm a user)"
  using assms(3) by (intro leadsI) (metis moved_connect [OF assms(1,2)] option.inject)

lemma leads_revision:
  assumes "rvAgreement r = ag" and "\<And>x. leads ag (\<lambda>b. agStatus b = st') Q (f x)"
  shows "leads ag R Q (andThen (atomically (revision_transaction r expected st')) f)"
  by (rule leads_then [where P = "\<lambda>x. x = st'"]) (use assms in \<open>auto intro!: leadsI dest: moved_revision\<close>)

lemma leads_signing:
  assumes "Q AwaitingSignatures" and "Q FirstPaymentPending"
    and "\<And>r s y s'. f r s = (Inr y, s') \<Longrightarrow> \<not> srAlready r \<and> agreements s' = agreements s"
  shows "leads ag R Q (andThen (apply_signing E ag v role originator t ev) f)"
proof (rule leadsI)
  fix s y s' a
  assume "andThen (apply_signing E ag v role originator t ev) f s = (Inr y, s')"
  then obtain r s1 where r: "apply_signing E ag v role originator t ev s = (Inr r, s1)" "f r s1 = (Inr y, s')"
    by (auto simp: andThen_Inr_iff)
  have "moved_to ag (if srBoth r then FirstPaymentPending else AwaitingSignatures) s s1"
    using moved_signing [OF r(1)] assms(3) [OF r(2)] by blast
  then show "\<exists>st'. Q st' \<and> moved_to ag st' s s'"
    using assms(1,2) assms(3) [OF r(2)] by (auto simp: moved_to_def split: if_splits)
qed

lemma leads_acceptance:
  assumes "\<And>x. leads ag (\<lambda>b. agStatus b = st) Q (f x)"
  shows "leads ag R Q (andThen (\<lambda>s. case apply_acceptance ag v expected st s of
    (b, s1) \<Rightarrow> (if b then Inr () else Inl e, s1)) f)"
  by (rule leads_then [where P = "\<lambda>x. x = st"])
    (auto simp: assms apply_acceptance_def intro!: leadsI moved_set_status split: option.splits if_splits)

lemma leads_conditional:
  assumes "\<And>x. leads ag (\<lambda>b. agStatus b = st) Q (f x)"
  shows "leads ag R Q (andThen (\<lambda>s. case update_status_if_currently_in ag expected st s of
    (b, s1) \<Rightarrow> (if b then Inr () else Inl e, s1)) f)"
  by (rule leads_then [where P = "\<lambda>x. x = st"])
    (auto simp: assms update_status_if_currently_in_def intro!: leadsI moved_set_status split: option.splits if_splits)

section \<open>The service follows the automaton\<close>

lemma leads_drop: "leads ag R Q m \<Longrightarrow> leads ag R Q (andThen m (\<lambda>_. ret ()))"
  by (rule leads_then [where P = Q]) (auto intro: leads_end)

lemma either_party: "authorize_either_party (gdParty A) a user = Inr role \<Longrightarrow> is_party A user a"
  by (auto simp: authorize_either_party_def is_party_def is_creditor_def is_debtor_def split: if_splits)

lemma leads_get:
  assumes "is_party A user a \<Longrightarrow> leads ag (\<lambda>x. x = a) Q (f a)"
  shows "leads ag (\<lambda>x. x = a) Q (andThen (\<lambda>s. (get_agreement (gdParty A) ag user s, s)) f)"
  using assms by (auto simp: leads_def andThen_Inr_iff get_agreement_def require_agreement_def bindE_Inr_iff
      dest: either_party split: option.splits)

lemma revision_leads:
  assumes "negotiates A user (ReviseTerms ag t why) a AwaitingCreditorAcceptance \<Longrightarrow> Q AwaitingCreditorAcceptance"
    and "negotiates A user (ReviseTerms ag t why) a AwaitingDebtorAcknowledgment \<Longrightarrow> Q AwaitingDebtorAcknowledgment"
  shows "leads ag (\<lambda>x. x = a) Q (revise_terms_before_signature A E ag user t why)"
  unfolding revise_terms_before_signature_def authorize_as_role_def apply_terms_revision_def Let_def
  by (intro leads_guard leads_with leads_read leads_raised)
    (auto split: prod.split simp: party_of_def is_debtor_def is_creditor_def
      intro!: leads_revision leads_audit leads_end assms debtor_counters creditor_counters)

lemma perform_leads:
  assumes "connects_only A" and "subject q = Some ag" and "agId a = ag"
  shows "leads ag (\<lambda>x. x = a) (negotiates A user q a) (perform A E user q)"
proof (cases q)
  case (SubmitDraft ag')
  then show ?thesis using assms(2)
    by (auto simp: submit_draft_def as_either_party_def require_status_def
        intro!: leads_with leads_raised leads_guard leads_status leads_audit_end submits either_party)
next
  case (AcknowledgeDebt ag')
  then show ?thesis using assms(2)
    by (auto simp: acknowledge_debt_def authorize_as_role_def require_status_def require_complete_name_def
        is_debtor_def party_of_def
        intro!: leads_with leads_raised leads_guard leads_status leads_audit_end acknowledges)
next
  case (ReviseTerms ag' t why)
  then show ?thesis using assms(2)
    by (auto intro!: leads_drop revision_leads)
next
  case (ReviseFirstDate ag' d)
  then show ?thesis using assms(2)
    by (auto simp: revise_first_payment_date_def as_either_party_def require_status_def apply_date_revision_def
        intro!: leads_drop leads_with leads_raised leads_guard leads_read leads_not_past
          leads_revision leads_audit leads_end redated either_party split: prod.split)
next
  case (CancelAgreement ag' why)
  then show ?thesis using assms(2)
    by (auto simp: cancel_agreement_def as_either_party_def Let_def
        intro!: leads_drop leads_with leads_raised leads_guard
          leads_conditional leads_audit leads_end withdrawn either_party)
next
  case (CancelOnRequest ag' r)
  then show ?thesis using assms(2)
    by (auto simp: mark_mutually_canceled_def as_either_party_def
        intro!: leads_drop leads_with leads_raised leads_guard
          leads_status leads_audit leads_end canceled either_party)
next
  case (CreditorDecide ag' d)
  show ?thesis
  proof (cases d)
    case AcceptTerms
    then show ?thesis using CreditorDecide assms
      by (auto simp: creditor_decide_def accept_terms_def authorize_as_role_def require_status_def
          require_complete_name_def is_creditor_def party_of_def
          intro!: leads_with leads_guard leads_acceptance leads_audit leads_connect accepted leads_throw
          split: option.split)
  next
    case (RejectTerms why)
    then show ?thesis using CreditorDecide assms
      by (auto simp: creditor_decide_def authorize_as_role_def require_status_def is_creditor_def party_of_def
          intro!: leads_with leads_guard leads_status leads_audit_end rejected)
  next
    case (CounterTerms t why)
    then show ?thesis using CreditorDecide assms
      by (cases t) (auto simp: creditor_decide_def authorize_as_role_def require_status_def is_creditor_def party_of_def
          intro!: leads_with leads_guard leads_drop revision_leads leads_throw countered elim: negotiates.cases)
  qed
next
  case (SignAgreement ag' ev)
  then show ?thesis using assms(2)
    by (auto simp: sign_agreement_with_evidence_def as_either_party_def require_status_def andThen_Inr_iff
          agreement_audit_def audit_def
        intro!: leads_drop leads_with leads_raised leads_guard leads_read leads_not_past leads_signing
          signed_first signed_last either_party split: if_splits)
next
  case (LinkRelationship ag')
  have "leads ag (\<lambda>x. x = a) (negotiates A user q a) (ensure_relationship_linked A ag user)"
    unfolding ensure_relationship_linked_def
    by (rule leads_get)
      (auto simp: LinkRelationship intro!: leads_end leads_then [where P = "\<lambda>st. st = agStatus a"] leads_connect
        linked leads_read assms)
  then show ?thesis using LinkRelationship assms(2) by (auto intro!: leads_drop)
qed (use assms(2) in auto)

text \<open>
  C14. The negotiation follows its automaton: a request on an existing agreement that succeeds was sent
  by someone entitled to it, in a status that allows it, and leaves the agreement in a status the
  automaton allows, with its parties, currency and creator unchanged, and every other agreement as
  it was; in particular no answer but the creditor's leads to the signatures, and only signing leads
  into force.
\<close>

theorem negotiation_follows_automaton:
  assumes "connects_only A" and "subject q = Some ag" and "find_agreement ag s = Some a"
    and "perform A E user q s = (Inr (), s')"
  shows "\<exists>b. find_agreement ag s' = Some b \<and> negotiates A user q a (agStatus b) \<and> same_contract a b \<and>
    (\<forall>x. x \<noteq> ag \<longrightarrow> find_agreement x s' = find_agreement x s)"
proof -
  have "agId a = ag" using assms(3) by (rule lookup_by_Some_key)
  from leadsD [OF perform_leads [OF assms(1,2) this] assms(4,3)] show ?thesis
    using assms(3) by (auto simp: moved_to_def)
qed

lemma life_accepts: "perform sample_deps early_env 102 (CreditorDecide 1 AcceptTerms) life_start =
    (Inr (), audit early_env ((blank_audit ''creditor_accepted'' (clock early_env))\<lparr>actorUserId := Some 102,
       actorRole := Some ''agreement_party'', auditAgreementId := Some 1, newValue := JNull\<rparr>)
     (set_agreement_status 1 AwaitingSignatures life_start))"
  using life_start_eq
  by (simp add: creditor_decide_def accept_terms_def with_agreement_def require_agreement_def andThen_def
      authorize_as_role_def authorize_party_def party_of_def require_status_def require_complete_name_def
      sample_deps_def sample_parties_def apply_acceptance_def agreement_audit_def try_establish_connection_def
      sample_agreement_def sample_version_def)

theorem negotiation_follows_automaton_witness:
  "\<exists>a b. find_agreement 1 life_start = Some a \<and>
     find_agreement 1 (snd (perform sample_deps early_env 102 (CreditorDecide 1 AcceptTerms) life_start)) = Some b \<and>
     negotiates sample_deps 102 (CreditorDecide 1 AcceptTerms) a (agStatus b) \<and> agStatus b = AwaitingSignatures"
proof -
  let ?s = "snd (perform sample_deps early_env 102 (CreditorDecide 1 AcceptTerms) life_start)"
  let ?a = "(sample_agreement AwaitingCreditorAcceptance)\<lparr>agCurrentVersion := Some 2\<rparr>"
  have a: "find_agreement 1 life_start = Some ?a" using life_start_eq by (simp add: sample_agreement_def)
  have r: "perform sample_deps early_env 102 (CreditorDecide 1 AcceptTerms) life_start = (Inr (), ?s)"
    using life_accepts by (metis snd_conv)
  obtain b where b: "find_agreement 1 ?s = Some b"
    "negotiates sample_deps 102 (CreditorDecide 1 AcceptTerms) ?a (agStatus b)"
    using negotiation_follows_automaton [OF sample_connects _ a r] by auto
  moreover have "agStatus b = AwaitingSignatures" using b(2) by (rule accepts_cases)
  ultimately show ?thesis using a by blast
qed

section \<open>Schedules\<close>

definition items_of :: "uuid \<Rightarrow> db \<Rightarrow> installment_row list" where
  "items_of v s = filter (\<lambda>i. inVersion i = v) (installments s)"

definition scheduled_or_empty :: "version_row \<Rightarrow> db \<Rightarrow> bool" where
  "scheduled_or_empty v s \<longleftrightarrow> items_of (avId v) s = [] \<or> sum_list (map inAmount (items_of (avId v) s)) = avPrincipal v"

definition adds_up :: "db \<Rightarrow> bool" where
  "adds_up s \<longleftrightarrow> list_all (\<lambda>v. avId v < nextId s \<and> scheduled_or_empty v s) (versions s) \<and>
     list_all (\<lambda>i. inVersion i < nextId s) (installments s)"

definition sums_kept :: "db \<Rightarrow> db \<Rightarrow> bool" where
  "sums_kept s s' \<longleftrightarrow> (adds_up s \<longrightarrow> adds_up s')"

lemma sums_refl: "sums_kept s s"
  by (simp add: sums_kept_def)

lemma sums_trans: "sums_kept a b \<Longrightarrow> sums_kept b c \<Longrightarrow> sums_kept a c"
  by (simp add: sums_kept_def)

text \<open>Statements that leave installments alone, and of a version what it owes.\<close>

lemma sums_same:
  assumes "set (map (\<lambda>v. (avId v, avPrincipal v)) (versions s')) \<subseteq> set (map (\<lambda>v. (avId v, avPrincipal v)) (versions s))"
    and "installments s' = installments s" and "nextId s \<le> nextId s'"
  shows "sums_kept s s'"
proof -
  have "scheduled_or_empty v s' \<and> avId v < nextId s'" if d: "adds_up s" and v: "v \<in> set (versions s')" for v
  proof -
    have "(avId v, avPrincipal v) \<in> (\<lambda>v. (avId v, avPrincipal v)) ` set (versions s)"
      using assms(1) v by auto
    then obtain w where "w \<in> set (versions s)" "avId w = avId v" "avPrincipal w = avPrincipal v" by auto
    then show ?thesis using d assms(2,3)
      by (auto simp: adds_up_def list_all_iff scheduled_or_empty_def items_of_def intro: order_less_le_trans)
  qed
  then show ?thesis using assms(2,3)
    by (auto simp: sums_kept_def adds_up_def list_all_iff intro: order_less_le_trans)
qed

text \<open>A new version, and the items that go in with it.\<close>

lemma items_amounts: "map inAmount (map2 (installment_of v) is its) = map itemAmount (take (length is) its)"
  by (induction "is" arbitrary: its) (auto simp: installment_of_def split: list.split, case_tac its, auto simp: installment_of_def)

lemma sums_insert_items:
  assumes "adds_up s" and "v < nextId s" and "items_of v s = []"
    and "\<And>x. x \<in> set (versions s) \<Longrightarrow> avId x = v \<Longrightarrow> avPrincipal x = sum_list (map itemAmount its)"
    and "insert_items v its s = (r, s')"
  shows "adds_up s'"
proof (cases "s' = s")
  case False
  then have s': "s' = s\<lparr>installments := installments s @ map2 (installment_of v) [nextId s..<nextId s + length its] its,
      nextId := nextId s + length its\<rparr>"
    using assms(5) by (auto simp: insert_items_def split: if_splits)
  have new: "filter (\<lambda>i. inVersion i = w) (map2 (installment_of v) ks its) =
      (if w = v then map2 (installment_of v) ks its else [])" for w ks
    by (auto simp: filter_empty_conv filter_id_conv installment_of_def)
  have "scheduled_or_empty x s'" if "x \<in> set (versions s)" for x
    using that assms(1,3,4) items_amounts [of v "[nextId s..<nextId s + length its]" its]
    by (auto simp: s' adds_up_def list_all_iff scheduled_or_empty_def items_of_def new)
  then show ?thesis using assms(1,2)
    by (auto simp: s' adds_up_def list_all_iff installment_of_def intro: trans_less_add1)
qed (use assms(1) in simp)

lemma adds_up_new_version:
  assumes "adds_up s" and "avId v = nextId s" and "versions s' = versions s @ [v]"
    and "installments s' = installments s" and "nextId s' = Suc (nextId s)"
  shows "adds_up s'" and "items_of (avId v) s' = []"
    and "\<And>x. x \<in> set (versions s') \<Longrightarrow> avId x = avId v \<Longrightarrow> x = v"
proof -
  show 1: "items_of (avId v) s' = []"
    using assms by (auto simp: items_of_def adds_up_def list_all_iff filter_empty_conv)
  show "adds_up s'" using assms 1
    by (auto simp: adds_up_def list_all_iff scheduled_or_empty_def items_of_def less_SucI)
  show "x = v" if "x \<in> set (versions s')" "avId x = avId v" for x
    using that assms(1,2,3) by (auto simp: adds_up_def list_all_iff)
qed

lemma sums_revision:
  assumes "sum_list (map itemAmount (rvSchedule r)) = tmPrincipal (rvTerms r)"
  shows "keeps sums_kept (atomically (revision_transaction r expected st))"
  unfolding keeps_def
proof
  fix s
  obtain q s' where m: "atomically (revision_transaction r expected st) s = (q, s')" by fastforce
  have "sums_kept s s'"
  proof (cases q)
    case (Inl e)
    then show ?thesis using m by (auto dest: atomically_Inl simp: sums_refl)
  next
    case (Inr y)
    then have "revision_transaction r expected st s = (Inr y, s')" using m by (simp add: atomically_Inr)
    then show ?thesis
    proof (cases rule: revision_cases)
      case (1 a x s2)
      let ?v = "revised_version r x (nextId s)"
      let ?s1 = "s\<lparr>versions := versions s @ [?v], nextId := Suc (nextId s)\<rparr>"
      have id: "avId ?v = nextId s" "avPrincipal ?v = tmPrincipal (rvTerms r)"
        by (simp_all add: revised_version_def version_of_input_def)
      have "adds_up s2" if d: "adds_up s"
        using adds_up_new_version [OF d id(1), of ?s1] id assms
        by (intro sums_insert_items [OF _ _ _ _ 1(7)]) auto
      then show ?thesis using 1(8) by (auto simp: sums_kept_def adds_up_def scheduled_or_empty_def items_of_def)
    qed
  qed
  then show "sums_kept s (snd (atomically (revision_transaction r expected st) s))" using m by simp
qed

lemma sums_sign: "keeps sums_kept (apply_signing E ag v role originator t ev)"
  unfolding keeps_def
proof
  fix s
  obtain q s' where m: "apply_signing E ag v role originator t ev s = (q, s')" by fastforce
  have "sums_kept s s'"
  proof (cases q)
    case (Inl e)
    then show ?thesis using m by (auto dest: atomically_Inl simp: sums_refl apply_signing_def)
  next
    case (Inr y)
    from m [unfolded Inr] show ?thesis
    proof (cases rule: signing_cases)
      case already
      then show ?thesis by (simp add: sums_refl)
    next
      case (signed a x n sgs)
      show ?thesis
      proof (rule sums_same)
        let ?g = "\<lambda>v. (avId v, avPrincipal v)"
        have "map ?g (versions s') = map ?g (versions s)"
          unfolding signed(13) by (simp add: map_key_update_by)
        then show "set (map ?g (versions s')) \<subseteq> set (map ?g (versions s))" by simp
      qed (use signed in simp_all)
    qed
  qed
  then show "sums_kept s (snd (apply_signing E ag v role originator t ev s))" using m by simp
qed

lemma filter_in_image:
  "filter (\<lambda>i. f i \<notin> D \<and> f i = k) xs = (if k \<in> D then [] else filter (\<lambda>i. f i = k) xs)"
  by (induction xs) auto

lemma sums_delete: "keeps sums_kept (delete_draft_rows ref ag)"
  by (auto simp: keeps_def delete_draft_rows_def Let_def sums_kept_def adds_up_def list_all_iff scheduled_or_empty_def
      items_of_def filter_in_image)

lemma sums_party: "keeps sums_kept (insert_party ag role p)"
  by (auto simp: keeps_def insert_party_def intro!: sums_same)

interpretation summing: state_preorder sums_kept
  by unfold_locales (blast intro: sums_refl sums_trans)+

lemmas sums_simple = summing.kept_simple

lemmas sums_andThen = summing.kept_then

lemmas sums_raised = summing.kept_raised

lemma sums_audit: "keeps sums_kept (agreement_audit E ag user act v)"
  by (auto simp: keeps_def agreement_audit_def audit_def intro!: sums_same)

lemma sums_status: "keeps sums_kept (update (set_agreement_status ag st))"
  by (auto simp: keeps_def intro!: sums_same)

lemma sums_connect: "connects_only A \<Longrightarrow> keeps sums_kept (try_establish_connection A confirm a user)"
  by (auto simp: keeps_def try_establish_connection_def connects_only_def Let_def sums_refl
      split: option.split intro!: sums_same)

lemma sums_accept: "keeps sums_kept (\<lambda>s. case apply_acceptance ag v expected st s of
    (b, s1) \<Rightarrow> (if b then Inr () else Inl e, s1))"
  by (auto simp: keeps_def apply_acceptance_def sums_refl split: option.split intro!: sums_same)

lemma sums_cancel: "keeps sums_kept (\<lambda>s. case update_status_if_currently_in ag expected st s of
    (b, s1) \<Rightarrow> (if b then Inr () else Inl e, s1))"
  by (auto simp: keeps_def update_status_if_currently_in_def sums_refl split: option.split intro!: sums_same)

lemma schedule_sum:
  assumes "compute_schedule inp = Inr c"
  shows "sum_list (map itemAmount (items c)) = currentPrincipal inp"
  using assms
proof (cases rule: compute_schedule_cases)
  case (installments r n later d)
  have "1 \<le> n" using installments ceil_div_pos by simp
  then show ?thesis using installments installments_from_shape [OF installments(7)]
    by (simp add: sum_list_replicate mult.commute)
qed simp

lemma terms_sum: "build_terms t = Inr (terms, sch) \<Longrightarrow> sum_list (map itemAmount sch) = tmPrincipal terms"
  by (auto simp: build_terms_def Let_def bindE_Inr_iff schedule_input_of_def dest!: schedule_sum split: if_splits)

lemma delete_items_none: "items_of v s = [] \<Longrightarrow> delete_items v s = (Inr (), s)"
  by (auto simp: delete_items_def items_of_def filter_empty_conv list_ex_iff filter_id_conv)

definition awaits_items :: "uuid \<Rightarrow> int \<Rightarrow> db \<Rightarrow> bool" where
  "awaits_items v n s \<longleftrightarrow> adds_up s \<and> v < nextId s \<and> items_of v s = [] \<and>
     (\<forall>x \<in> set (versions s). avId x = v \<longrightarrow> avPrincipal x = n)"

lemma awaits_replace:
  assumes "awaits_items v (sum_list (map itemAmount sch)) s"
  shows "adds_up (snd (replace_for_version v sch s))"
proof -
  obtain q s2 where i: "insert_items v sch s = (q, s2)" by fastforce
  have "adds_up s2" using assms by (intro sums_insert_items [OF _ _ _ _ i]) (auto simp: awaits_items_def)
  moreover have "replace_for_version v sch s = atomically (insert_items v sch) s"
    using assms by (simp add: replace_for_version_def atomically_def delete_items_none awaits_items_def)
  ultimately show ?thesis using i assms
    by (cases q) (simp_all add: atomically_def awaits_items_def)
qed

lemma awaits_party:
  assumes "awaits_items v n s" and "\<And>s. awaits_items v n s \<Longrightarrow> adds_up (snd (m s))"
  shows "adds_up (snd (andThen (insert_party ag role p) (\<lambda>_. m) s))"
proof (cases "fst (insert_party ag role p s)")
  case (Inl e)
  then show ?thesis using assms(1)
    by (auto simp: insert_party_def andThen_def awaits_items_def split: if_splits)
next
  case (Inr u)
  then have "insert_party ag role p s = (Inr (), snd (insert_party ag role p s))" by (simp add: prod_eq_iff)
  moreover have "awaits_items v n (snd (insert_party ag role p s))" using assms(1)
    by (auto simp: insert_party_def awaits_items_def adds_up_def scheduled_or_empty_def items_of_def)
  ultimately show ?thesis using assms(2) by (metis andThen_simps(1))
qed

lemma sums_draft_rows:
  assumes "sum_list (map itemAmount sch) = tmPrincipal terms"
  shows "keeps sums_kept (insert_draft_rows creator c d cur t terms sch)"
  unfolding keeps_def sums_kept_def
proof (intro allI impI)
  fix s assume d: "adds_up s"
  define s1 where "s1 = snd (insert_agreement c d cur creator s)"
  define a where "a = fst (insert_agreement c d cur creator s)"
  define vi where "vi = \<lparr>viAgreement = agId a, viNumber = 1, viParent = None, viOriginal = True,
     viProducedBy = ''initial_signing'', viFrequency = tiFrequency t, viFee = tiFee t, viTerms = terms\<rparr>"
  define rest where "rest y = andThen (insert_party (agId a) Creditor c) (\<lambda>_.
     andThen (insert_party (agId a) Debtor d) (\<lambda>_.
     andThen (replace_for_version (avId y) sch) (\<lambda>_. ret a)))" for y :: version_row
  have r: "insert_draft_rows creator c d cur t terms sch s = andThen (insert_version vi)
      (\<lambda>y. andThen (update (set_current_version_id (agId a) (avId y))) (\<lambda>_. rest y)) s1"
    unfolding insert_draft_rows_def rest_def vi_def
    by (subst andThen_def) (simp add: s1_def a_def insert_agreement_def Let_def)
  have d1: "adds_up s1" using d
    by (auto simp: s1_def insert_agreement_def Let_def adds_up_def scheduled_or_empty_def items_of_def list_all_iff less_SucI)
  show "adds_up (snd (insert_draft_rows creator c d cur t terms sch s))"
  proof (cases "insert_version vi s1")
    case (Pair q s2)
    show ?thesis
    proof (cases q)
      case (Inl e)
      then show ?thesis using Pair d1 by (auto simp: r andThen_def insert_version_def Let_def split: if_splits)
    next
      case (Inr y)
      then have s2: "avId y = nextId s1" "avPrincipal y = tmPrincipal terms" "versions s2 = versions s1 @ [y]"
        "installments s2 = installments s1" "nextId s2 = Suc (nextId s1)"
        using Pair by (auto simp: insert_version_def version_of_input_def vi_def Let_def split: if_splits)
      let ?s3 = "set_current_version_id (agId a) (avId y) s2"
      have "awaits_items (avId y) (sum_list (map itemAmount sch)) ?s3"
        using adds_up_new_version [OF d1 s2(1), of ?s3] s2 assms
        by (auto simp: awaits_items_def set_current_version_id_def set_agreement_def)
      moreover have "adds_up (snd (andThen (replace_for_version (avId y) sch) (\<lambda>_. ret a) s'))"
        if "awaits_items (avId y) (sum_list (map itemAmount sch)) s'" for s'
        using awaits_replace [OF that] by (auto simp: andThen_def split: prod.split sum.split)
      ultimately have "adds_up (snd (rest y ?s3))" unfolding rest_def by (intro awaits_party)
      then show ?thesis using Pair Inr by (simp add: r andThen_def)
    qed
  qed
qed

lemmas sums_rules = sums_raised sums_andThen sums_simple sums_audit sums_status sums_connect sums_accept sums_cancel
  sums_delete sums_sign sums_draft_rows sums_revision

lemma sums_revise: "keeps sums_kept (revise_terms_before_signature A E user ag t why)"
  unfolding revise_terms_before_signature_def with_agreement_def authorize_as_role_def apply_terms_revision_def Let_def
  by (auto split: prod.split intro!: sums_rules terms_sum)

lemma sums_perform:
  assumes "connects_only A"
  shows "keeps sums_kept (perform A E user q)"
proof (cases q)
  case (CreateDraft c d cur t)
  then show ?thesis unfolding CreateDraft perform.simps create_draft_def request_defs
    by (auto split: prod.split intro!: sums_rules terms_sum assms)
next
  case (ReviseFirstDate ag d)
  show ?thesis unfolding ReviseFirstDate perform.simps revise_first_payment_date_def request_defs apply_date_revision_def
    by (auto split: prod.split intro!: sums_rules simp: schedule_sum schedule_input_of_def)
next
  case (CreditorDecide ag d)
  show ?thesis unfolding CreditorDecide perform.simps creditor_decide_def accept_terms_def request_defs
    by (auto split: creditor_decision.split option.split intro!: sums_rules sums_revise assms)
qed (auto simp: delete_draft_def submit_draft_def acknowledge_debt_def sign_agreement_with_evidence_def cancel_agreement_def
    mark_mutually_canceled_def ensure_relationship_linked_def request_defs Let_def intro!: sums_rules sums_revise assms)

fun run_requests :: "agreement_deps \<Rightarrow> (env \<times> uuid \<times> agreement_request) list \<Rightarrow> db \<Rightarrow> db" where
  "run_requests A [] s = s"
| "run_requests A ((E, user, q) # rs) s = run_requests A rs (snd (perform A E user q s))"

lemma adds_up_run: "connects_only A \<Longrightarrow> adds_up s \<Longrightarrow> adds_up (run_requests A rs s)"
proof (induction rs arbitrary: s)
  case (Cons r rs)
  obtain E user q where r: "r = (E, user, q)" by (cases r)
  have "adds_up (snd (perform A E user q s))"
    using sums_perform [OF Cons.prems(1), of E user q] Cons.prems(2) by (simp add: keeps_def sums_kept_def)
  then show ?case using Cons.IH Cons.prems(1) by (simp add: r)
qed simp

text \<open>
  C15. Every stored schedule adds up: after any sequence of requests of any users, successful or not, the
  installments of each version of each agreement sum to the principal of that version's terms, to
  the cent, or there are none (an agreement whose schedule the database refused).
\<close>

theorem schedules_add_up:
  assumes "connects_only A" and "v \<in> set (versions (run_requests A rs empty_db))"
  shows "items_of (avId v) (run_requests A rs empty_db) = [] \<or>
    sum_list (map inAmount (items_of (avId v) (run_requests A rs empty_db))) = avPrincipal v"
  using adds_up_run [OF assms(1), of empty_db rs] assms(2)
  by (auto simp: adds_up_def list_all_iff scheduled_or_empty_def empty_db_def)

definition sample_terms_input :: terms_input where
  "sample_terms_input = \<lparr>tiCategory = ''loan'', tiDescription = ''d'', tiOriginal = 650, tiPrevious = 0, tiFirst = 100,
     tiInstallment = 300, tiFrequency = Monthly, tiFirstDate = ''2026-01-31'', tiFee = DebtorPays, tiPayoff = ''p'',
     tiHardship = ''h'', tiPartial = ''q'', tiSettlement = ''s'', tiDispute = ''c'', tiEvidence = None\<rparr>"

definition sample_requests :: "(env \<times> uuid \<times> agreement_request) list" where
  "sample_requests = [(early_env, 102, CreateDraft (PersonalProfile, 102) (PersonalProfile, 101) None sample_terms_input)]"

lemma sample_build: "\<exists>terms. build_terms sample_terms_input = Inr (terms, items sample_schedule) \<and>
    tmPrincipal terms = 650 \<and> tmFirstDate terms = ''2026-01-31''"
  using compute_sample
  by (simp add: build_terms_def sample_terms_input_def sample_input_def schedule_input_of_def safe_int_def max_safe_def
      js_sub_def js_int_def blank_text_def is_space_def Let_def)

lemma sample_dates: "list_all item_ok (items sample_schedule)"
  by code_simp

lemma early_not_past: "is_past_date ''2026-01-31'' (clock early_env) = Inr False"
  by code_simp

lemma sample_requests_run:
  "map (\<lambda>v. (avId v, avPrincipal v)) (versions (run_requests sample_deps sample_requests empty_db)) = [(2, 650)] \<and>
   map inAmount (items_of 2 (run_requests sample_deps sample_requests empty_db)) = [100, 300, 250]"
proof -
  obtain terms where b: "build_terms sample_terms_input = Inr (terms, items sample_schedule)"
    "tmPrincipal terms = 650" "tmFirstDate terms = ''2026-01-31''" using sample_build by blast
  have l: "items sample_schedule \<noteq> []" "distinct (map sequenceNumber (items sample_schedule))"
    "length (items sample_schedule) = 3" "map itemAmount (items sample_schedule) = [100, 300, 250]"
    by (simp_all add: sample_schedule_def)
  show ?thesis
    using b l sample_dates early_not_past
    by (simp add: sample_requests_def create_draft_def sample_deps_def sample_parties_def authorize_party_def andThen_def
        not_past_def insert_draft_rows_def insert_agreement_def insert_version_def version_of_input_def
        set_current_version_id_def set_agreement_def insert_party_def replace_for_version_def atomically_def
        delete_items_def insert_items_def agreement_audit_def audit_def try_establish_connection_def items_of_def
        empty_db_def Let_def get_agreement_def require_agreement_def authorize_either_party_def
        require_current_version_def require_version_def sample_schedule_def installment_of_def upt_conv_Cons)
qed

theorem schedules_add_up_witness:
  "\<exists>v. map inAmount (items_of (avId v) (run_requests sample_deps sample_requests empty_db)) = [100, 300, 250] \<and>
     sum_list (map inAmount (items_of (avId v) (run_requests sample_deps sample_requests empty_db))) = avPrincipal v"
proof -
  let ?s = "run_requests sample_deps sample_requests empty_db"
  obtain v where "v \<in> set (versions ?s)" "avId v = 2"
    using sample_requests_run by (cases "versions ?s") auto
  then show ?thesis
    using schedules_add_up [OF sample_connects, of v sample_requests] sample_requests_run
    by (intro exI [of _ v]) auto
qed

section \<open>What a signature says\<close>

lemma signing_event:
  assumes "apply_signing E ag v role originator t (Some e) s = (Inr r, s')" and "\<not> srAlready r"
    and "find_version v s = Some x"
  shows "\<exists>g. signatures s' = signatures s @ [g] \<and> srEvent r = Some (sgId g) \<and> sgVersion g = v \<and>
    sgRole g = evRole e \<and> sgUser g = evUser e \<and> sgHash g = version_hash E x \<and> sgAt g = t \<and>
    srHashAtSigning r = Some (version_hash E x)"
proof -
  have "signing_transaction E ag v role originator t (Some e) s = (Inr r, s')"
    using assms(1) by (simp add: apply_signing_def atomically_Inr)
  then show ?thesis using assms(2,3)
    by (auto simp: signing_transaction_def signing_checks_def andThen_Inr_iff insert_signature_event_def
        record_version_signature_def set_version_def lock_version_def set_agreement_status_def
        split: option.splits if_splits)
qed

lemma sign_cases:
  assumes "sign_agreement_with_evidence A E ag user ev s = (Inr r, s')"
    and "find_agreement ag s = Some a" and "agCurrentVersion a = Some v" and "find_version v s = Some x"
  obtains role originator s1 res where "authorize_either_party (gdParty A) a user = Inr role"
      "authorize_either_party (gdParty A) a (agCreatedBy a) = Inr originator" "agStatus a = AwaitingSignatures"
      "apply_signing E ag v role originator (clock E) ev s = (Inr res, s1)" "\<not> srAlready res"
      "signatures s' = signatures s1" "versions s' = versions s1" "agreements s' = agreements s1"
      "spEvent r = srEvent res" "spHash r = srHashAtSigning res" "spBoth r = srBoth res"
      "spStatus r = (if srBoth res then FirstPaymentPending else AwaitingSignatures)"
proof -
  have i: "avId x = v" using assms(4) by (rule lookup_by_Some_key)
  show thesis using assms i that
    by (auto simp: sign_agreement_with_evidence_def request_defs andThen_Inr_iff require_agreement_def
        require_current_version_def require_version_def resolve_party_role_def agreement_audit_def audit_def
        split: if_splits option.splits)
qed

text \<open>
  C16. What a signature binds: a successful request to sign, of a user who acts for one party, records
  that party's signature and nobody else's, once, on the current version of an agreement that awaits
  signatures; the evidence row carries the hash of exactly those terms; the originator of the
  agreement signs last; no other version changes; and the second signature seals the version with the same
  hash and puts the agreement's row into force, where the first leaves the rows of all agreements as they are.
\<close>

theorem signature_binds_terms:
  assumes "sign_agreement_with_evidence A E ag user (Some e) s = (Inr r, s')"
    and "find_agreement ag s = Some a" and "agCurrentVersion a = Some v" and "find_version v s = Some x"
  shows "\<exists>role originator g. authorize_either_party (gdParty A) a user = Inr role \<and>
     authorize_either_party (gdParty A) a (agCreatedBy a) = Inr originator \<and>
     agStatus a = AwaitingSignatures \<and> signature_of role x = None \<and>
     (role = originator \<longrightarrow> signature_of (other_party role) x \<noteq> None) \<and>
     signatures s' = signatures s @ [g] \<and> spEvent r = Some (sgId g) \<and> sgVersion g = v \<and> sgRole g = evRole e \<and>
     sgHash g = version_hash E x \<and> spHash r = Some (version_hash E x) \<and>
     (spBoth r \<longleftrightarrow> signature_of (other_party role) x \<noteq> None) \<and>
     spStatus r = (if spBoth r then FirstPaymentPending else AwaitingSignatures) \<and>
     find_version v s' = Some (if spBoth r
       then (signed_by role (clock E) x)\<lparr>avHash := Some (version_hash E x), avSigned := Some (clock E)\<rparr>
       else signed_by role (clock E) x) \<and>
     (\<forall>w. w \<noteq> v \<longrightarrow> find_version w s' = find_version w s) \<and>
     agreements s' = (if spBoth r then update_by agId ag (\<lambda>a. a\<lparr>agStatus := FirstPaymentPending\<rparr>) (agreements s)
       else agreements s)"
  using assms(1-4)
proof (cases rule: sign_cases)
  case (1 role originator s1 res)
  obtain g where g: "signatures s1 = signatures s @ [g]" "srEvent res = Some (sgId g)" "sgVersion g = v"
    "sgRole g = evRole e" "sgHash g = version_hash E x" "srHashAtSigning res = Some (version_hash E x)"
    using signing_event [OF 1(4,5) assms(4)] by blast
  from 1(4) show ?thesis
  proof (cases rule: signing_cases)
    case (signed a' x' n sgs)
    then have "x' = x" using assms(4) by simp
    then show ?thesis using 1 g signed assms(4)
      by (intro exI [of _ role] exI [of _ originator] exI [of _ g])
        (simp add: lookup_update_same lookup_update_other)
  qed (use 1(5) in simp)
qed

definition sample_evidence :: signing_evidence where
  "sample_evidence = \<lparr>evUser = 101, evProfile = (PersonalProfile, 101), evRole = Debtor, evAuthority = None,
     evTitle = None, evConsent = True, evConsentVersion = ''v1'', evMethod = ''totp'', evIp = ''0.0.0.0'',
     evDevice = JNull, evTimezone = ''UTC''\<rparr>"

lemma life_accepted_eq:
  "agreements life_accepted = [(sample_agreement AwaitingSignatures)\<lparr>agCurrentVersion := Some 2\<rparr>] \<and>
   versions life_accepted = [sample_version\<lparr>avId := 2\<rparr>] \<and> signatures life_accepted = [] \<and> nextId life_accepted = 3"
  using life_start_eq
  by (simp add: life_accepted_def apply_acceptance_def set_agreement_status_def sample_agreement_def sample_version_def)

lemma sample_signing: "\<exists>r s'. sign_agreement_with_evidence sample_deps early_env 1 101 (Some sample_evidence) life_accepted = (Inr r, s')"
  using life_accepted_eq early_date early_not_past
  by (simp add: sign_agreement_with_evidence_def request_defs andThen_def require_agreement_def
      authorize_either_party_def authorize_party_def sample_deps_def sample_parties_def require_current_version_def
      require_version_def resolve_party_role_def agreement_audit_def apply_signing_def atomically_def
      signing_transaction_def signing_checks_def insert_signature_event_def sample_agreement_def sample_version_def
      sample_terms_def sample_evidence_def signature_of_def other_party_def record_version_signature_def
      set_version_def Let_def)

theorem signature_binds_terms_witness:
  "\<exists>r s' g. sign_agreement_with_evidence sample_deps early_env 1 101 (Some sample_evidence) life_accepted = (Inr r, s') \<and>
     signatures s' = [g] \<and> sgHash g = version_hash early_env (sample_version\<lparr>avId := 2\<rparr>)"
proof -
  obtain r s' where run: "sign_agreement_with_evidence sample_deps early_env 1 101 (Some sample_evidence) life_accepted = (Inr r, s')"
    using sample_signing by blast
  have "find_agreement 1 life_accepted = Some ((sample_agreement AwaitingSignatures)\<lparr>agCurrentVersion := Some 2\<rparr>)"
    "find_version 2 life_accepted = Some (sample_version\<lparr>avId := 2\<rparr>)"
    using life_accepted_eq by (simp_all add: sample_agreement_def)
  from signature_binds_terms [OF run this(1) _ this(2)] obtain g where
    "signatures s' = signatures life_accepted @ [g]" "sgHash g = version_hash early_env (sample_version\<lparr>avId := 2\<rparr>)"
    by auto
  then show ?thesis using run life_accepted_eq by auto
qed

end
