(* ===== verification/Lifecycles.thy ===== *)
theory Lifecycles
  imports Store
begin

text \<open>
  Tables whose rows follow an automaton: amendments, settlements, requests to cancel, disputes. A
  service reads a row, checks it, and writes it with an unconditional \<open>UPDATE \<dots> WHERE id RETURNING\<close>;
  new rows begin at the start of the automaton, and no row goes. The locale holds what follows from
  that, request by request; each component interprets it on its own table and statements.
\<close>

definition keyed :: "(db \<Rightarrow> 'r list) \<Rightarrow> ('r \<Rightarrow> uuid) \<Rightarrow> db \<Rightarrow> bool" where
  "keyed rows key s \<longleftrightarrow> distinct (map key (rows s)) \<and> list_all (\<lambda>r. key r < nextId s) (rows s)"

lemma keyed_ids:
  "keyed rows key s \<longleftrightarrow> distinct (map key (rows s)) \<and> list_all (\<lambda>i. i < nextId s) (map key (rows s))"
  by (simp add: keyed_def list.pred_map comp_def)

definition evolves ::
    "(db \<Rightarrow> 'r list) \<Rightarrow> ('r \<Rightarrow> uuid) \<Rightarrow> ('r \<Rightarrow> 'r \<Rightarrow> bool) \<Rightarrow> ('r \<Rightarrow> bool) \<Rightarrow> db \<Rightarrow> db \<Rightarrow> bool" where
  "evolves rows key moves fresh s s' \<longleftrightarrow> (keyed rows key s \<longrightarrow> keyed rows key s' \<and> nextId s \<le> nextId s' \<and>
     (\<exists>old new. rows s' = old @ new \<and> list_all2 moves\<^sup>*\<^sup>* (rows s) old \<and>
       list_all (\<lambda>r. \<exists>r0. fresh r0 \<and> moves\<^sup>*\<^sup>* r0 r) new))"

definition tending ::
    "(db \<Rightarrow> 'r list) \<Rightarrow> ('r \<Rightarrow> uuid) \<Rightarrow> ('r \<Rightarrow> 'r \<Rightarrow> bool) \<Rightarrow> ('r \<Rightarrow> bool) \<Rightarrow> (db \<Rightarrow> db \<Rightarrow> bool) \<Rightarrow> db \<Rightarrow> db \<Rightarrow> bool" where
  "tending rows key moves fresh F s s' \<longleftrightarrow> evolves rows key moves fresh s s' \<and> F s s'"

text \<open>One row that is known, in a state that the request has reached from \<open>s0\<close>.\<close>

definition stands ::
    "(db \<Rightarrow> 'r list) \<Rightarrow> ('r \<Rightarrow> uuid) \<Rightarrow> (db \<Rightarrow> db \<Rightarrow> bool) \<Rightarrow> db \<Rightarrow> uuid \<Rightarrow> 'r \<Rightarrow> db \<Rightarrow> bool" where
  "stands rows key T s0 i r s \<longleftrightarrow> T s0 s \<and> lookup_by key i (rows s) = Some r"

lemma leaves_audited:
  assumes "\<And>s p. P s \<Longrightarrow> P (audit E p s)" and "\<And>x. leaves P (f x) Q X"
  shows "leaves P (andThen (update (audit E p)) f) Q X"
  by (rule leaves_then [OF _ assms(2)]) (simp add: leaves_update assms(1))

lemma stands_start:
  assumes "leaves (stands rows key T s0 i r) n Q X" and "T s0 s0"
    and "\<And>s. P s \<Longrightarrow> s = s0 \<and> lookup_by key i (rows s) = Some r"
  shows "leaves P n Q X"
  by (rule leaves_weaken [OF assms(1)]) (auto simp: stands_def assms(2) dest!: assms(3))

lemma stands_end: "(\<And>s. T s0 s \<Longrightarrow> Q x s) \<Longrightarrow> leaves (stands rows key T s0 i r) (ret x) Q X"
  by (rule leaves_ret) (simp add: stands_def)

text \<open>\<open>put\<close> replaces the table, \<open>upd\<close> is the statement that writes one row, \<open>touch\<close> its new time stamp.
  \<open>F\<close> says what else of the database the statements leave alone.\<close>

locale lifecycle = state_preorder F
  for F :: "db \<Rightarrow> db \<Rightarrow> bool" +
  fixes rows :: "db \<Rightarrow> 'r list" and key :: "'r \<Rightarrow> uuid" and moves :: "'r \<Rightarrow> 'r \<Rightarrow> bool" and fresh :: "'r \<Rightarrow> bool"
    and put :: "'r list \<Rightarrow> db \<Rightarrow> db" and touch :: "env \<Rightarrow> 'r \<Rightarrow> 'r"
    and upd :: "env \<Rightarrow> uuid \<Rightarrow> string \<Rightarrow> ('r \<Rightarrow> 'r) \<Rightarrow> (db, error, 'r) step"
  assumes moves_key: "moves r r' \<Longrightarrow> key r' = key r"
    and touch_key: "key (touch E r) = key r"
    and put_laws: "rows (put xs s) = xs" "nextId (put xs s) = nextId s" "F s (put xs s)"
    and audit_laws: "rows (audit E p s) = rows s" "F s (audit E p s)"
    and upd_eq: "upd E i op f s = (case lookup_by key i (rows s) of
        None \<Rightarrow> (Inl (ConfigurationError op), s)
      | Some r \<Rightarrow> (Inr (touch E (f r)), put (update_by key i (\<lambda>r. touch E (f r)) (rows s)) s))"
begin

lemma moves_keys: "moves\<^sup>*\<^sup>* r r' \<Longrightarrow> key r' = key r"
  by (induction rule: rtranclp_induct) (auto dest: moves_key)

lemma evolves_rows:
  assumes "keyed rows key s \<Longrightarrow> list_all2 moves\<^sup>*\<^sup>* (rows s) (rows s')" and "nextId s \<le> nextId s'"
  shows "evolves rows key moves fresh s s'"
  unfolding evolves_def
proof
  assume k: "keyed rows key s"
  note all = assms(1) [OF k]
  then have ids: "map key (rows s') = map key (rows s)"
    by (induction rule: list_all2_induct) (auto dest: moves_keys)
  have "list_all (\<lambda>i. i < nextId s') (map key (rows s'))"
    unfolding ids using k assms(2) by (auto simp: keyed_def list_all_iff)
  then have "list_all (\<lambda>r. key r < nextId s') (rows s')" by (simp add: list_all_iff)
  then have "keyed rows key s'" using ids k by (simp add: keyed_def)
  then show "keyed rows key s' \<and> nextId s \<le> nextId s' \<and> (\<exists>old new. rows s' = old @ new \<and>
      list_all2 moves\<^sup>*\<^sup>* (rows s) old \<and> list_all (\<lambda>r. \<exists>r0. fresh r0 \<and> moves\<^sup>*\<^sup>* r0 r) new)"
    using assms(2) all by (intro conjI exI [of _ "rows s'"] exI [of _ "[]"]) simp_all
qed

lemma evolves_same: "rows s' = rows s \<Longrightarrow> nextId s \<le> nextId s' \<Longrightarrow> evolves rows key moves fresh s s'"
  by (rule evolves_rows) (simp_all add: list_all2_refl)

lemma evolves_trans:
  assumes "evolves rows key moves fresh a b" and "evolves rows key moves fresh b c"
  shows "evolves rows key moves fresh a c"
  unfolding evolves_def
proof
  assume k: "keyed rows key a"
  then obtain old new where 1: "keyed rows key b" "nextId a \<le> nextId b" "rows b = old @ new"
      "list_all2 moves\<^sup>*\<^sup>* (rows a) old" "list_all (\<lambda>r. \<exists>r0. fresh r0 \<and> moves\<^sup>*\<^sup>* r0 r) new"
    using assms(1) by (auto simp: evolves_def)
  then obtain mid new' where 2: "keyed rows key c" "nextId b \<le> nextId c" "rows c = mid @ new'"
      "list_all2 moves\<^sup>*\<^sup>* (old @ new) mid" "list_all (\<lambda>r. \<exists>r0. fresh r0 \<and> moves\<^sup>*\<^sup>* r0 r) new'"
    using assms(2) by (auto simp: evolves_def)
  then obtain old' new2 where m: "mid = old' @ new2" "list_all2 moves\<^sup>*\<^sup>* old old'" "list_all2 moves\<^sup>*\<^sup>* new new2"
    by (auto simp: list_all2_append1)
  have "list_all2 moves\<^sup>*\<^sup>* (rows a) old'" by (rule list_all2_trans [OF rtranclp_trans 1(4) m(2)])
  moreover have "list_all (\<lambda>r. \<exists>r0. fresh r0 \<and> moves\<^sup>*\<^sup>* r0 r) new2"
    using m(3) 1(5) by (induction rule: list_all2_induct) (auto intro: rtranclp_trans)
  ultimately show "keyed rows key c \<and> nextId a \<le> nextId c \<and> (\<exists>old new. rows c = old @ new \<and>
      list_all2 moves\<^sup>*\<^sup>* (rows a) old \<and> list_all (\<lambda>r. \<exists>r0. fresh r0 \<and> moves\<^sup>*\<^sup>* r0 r) new)"
    using 1(2) 2(1,2,3,5) m(1) by (intro conjI exI [of _ old'] exI [of _ "new2 @ new'"]) simp_all
qed

lemma evolves_update:
  assumes "lookup_by key i (rows s) = Some r" and "moves r (f r)"
    and "rows s' = update_by key i f (rows s)" and "nextId s \<le> nextId s'"
  shows "evolves rows key moves fresh s s'"
proof (rule evolves_rows)
  assume "keyed rows key s"
  then have "x = r" if "x \<in> set (rows s)" "key x = i" for x
    using lookup_by_distinct [of key "rows s", OF _ that(1)] that(2) assms(1) by (simp add: keyed_def)
  then show "list_all2 moves\<^sup>*\<^sup>* (rows s) (rows s')"
    unfolding assms(3) update_by_def list_all2_map2 by (rule_tac list.rel_refl_strong) (use assms(2) in auto)
qed (rule assms(4))

lemma evolves_insert:
  assumes "rows s' = rows s @ [r]" and "fresh r" and "key r = nextId s" and "nextId s < nextId s'"
  shows "evolves rows key moves fresh s s'"
  unfolding evolves_def
proof
  assume "keyed rows key s"
  then have "keyed rows key s'"
    using assms(1,3,4) by (auto simp: keyed_def list_all_iff intro: less_trans)
  then show "keyed rows key s' \<and> nextId s \<le> nextId s' \<and> (\<exists>old new. rows s' = old @ new \<and>
      list_all2 moves\<^sup>*\<^sup>* (rows s) old \<and> list_all (\<lambda>r. \<exists>r0. fresh r0 \<and> moves\<^sup>*\<^sup>* r0 r) new)"
    using assms(1,2,4) by (intro conjI exI [of _ "rows s"] exI [of _ "[r]"]) (auto intro: list_all2_refl)
qed

text \<open>A row can be followed through any evolution; from an empty table, it began at the start.\<close>

lemma row_carried:
  assumes "evolves rows key moves fresh s s'" and "keyed rows key s" and "lookup_by key i (rows s) = Some r"
  shows "\<exists>r'. lookup_by key i (rows s') = Some r' \<and> moves\<^sup>*\<^sup>* r r'"
proof -
  obtain old new where 1: "keyed rows key s'" "rows s' = old @ new" "list_all2 moves\<^sup>*\<^sup>* (rows s) old"
    using assms(1,2) by (auto simp: evolves_def)
  have "r \<in> set (rows s)" and i: "key r = i"
    using assms(3) by (auto dest: lookup_by_Some_mem lookup_by_Some_key)
  then obtain r' where r': "r' \<in> set old" "moves\<^sup>*\<^sup>* r r'"
    using 1(3) by (auto simp: list_all2_conv_all_nth in_set_conv_nth) blast
  then have "lookup_by key (key r') (rows s') = Some r'"
    using 1(1,2) by (intro lookup_by_distinct) (auto simp: keyed_def)
  then show ?thesis using moves_keys [OF r'(2)] r'(2) i by auto
qed

lemma row_born:
  assumes "evolves rows key moves fresh s0 s" and "rows s0 = []" and "lookup_by key i (rows s) = Some r"
  shows "keyed rows key s \<and> (\<exists>r0. fresh r0 \<and> moves\<^sup>*\<^sup>* r0 r)"
proof -
  have "keyed rows key s0" using assms(2) by (simp add: keyed_def)
  then have "keyed rows key s" "list_all (\<lambda>r. \<exists>r0. fresh r0 \<and> moves\<^sup>*\<^sup>* r0 r) (rows s)"
    using assms(1,2) by (auto simp: evolves_def)
  then show ?thesis using lookup_by_Some_mem [OF assms(3)] by (auto simp: list_all_iff)
qed

text \<open>What a request does to the table, while \<open>F\<close> holds of the rest.\<close>

lemma tending_refl [simp]: "tending rows key moves fresh F s s"
  by (simp add: tending_def evolves_same stays)

lemma tending_trans:
  "tending rows key moves fresh F a b \<Longrightarrow> tending rows key moves fresh F b c \<Longrightarrow> tending rows key moves fresh F a c"
  unfolding tending_def by (blast intro: evolves_trans chains)

lemma tending_same: "rows s' = rows s \<Longrightarrow> nextId s \<le> nextId s' \<Longrightarrow> F s s' \<Longrightarrow> tending rows key moves fresh F s s'"
  by (simp add: tending_def evolves_same)

lemma tending_audit: "tending rows key moves fresh F s s' \<Longrightarrow> tending rows key moves fresh F s (audit E p s')"
  by (erule tending_trans, rule tending_same) (simp_all add: audit_laws)

lemma stands_audit:
  "stands rows key (tending rows key moves fresh F) s0 i r s \<Longrightarrow>
   stands rows key (tending rows key moves fresh F) s0 i r (audit E p s)"
  by (simp add: stands_def tending_audit audit_laws)

text \<open>The \<open>UPDATE\<close> of a row that is known to be there.\<close>

lemma leaves_upd_to:
  assumes "\<And>s. P s \<Longrightarrow> lookup_by key i (rows s) = Some r"
    and "\<And>s. P s \<Longrightarrow> P' (put (update_by key i (\<lambda>r. touch E (f r)) (rows s)) s)"
    and "leaves P' (g (touch E (f r))) Q X"
  shows "leaves P (andThen (upd E i op f) g) Q X"
  using assms by (auto simp: leaves_def upd_eq)

lemma tending_upd:
  assumes "stands rows key (tending rows key moves fresh F) s0 i r s" and "moves r (touch E (f r))"
    and "\<And>x. key (f x) = key x"
  shows "stands rows key (tending rows key moves fresh F) s0 i (touch E (f r))
    (put (update_by key i (\<lambda>r. touch E (f r)) (rows s)) s)"
proof -
  let ?f = "\<lambda>r. touch E (f r)"
  let ?s = "put (update_by key i ?f (rows s)) s"
  have r: "lookup_by key i (rows s) = Some r" and t: "tending rows key moves fresh F s0 s"
    using assms(1) by (simp_all add: stands_def)
  have "evolves rows key moves fresh s ?s"
    by (rule evolves_update [OF r, where f = ?f]) (simp_all add: assms(2) put_laws)
  then have "tending rows key moves fresh F s ?s" by (simp add: tending_def put_laws)
  with t have "tending rows key moves fresh F s0 ?s" by (rule tending_trans)
  then show ?thesis using r by (simp add: stands_def put_laws lookup_update_same touch_key assms(3))
qed

lemma leaves_upd:
  assumes "moves r (touch E (f r))" and "\<And>x. key (f x) = key x"
    and "leaves (stands rows key (tending rows key moves fresh F) s0 i (touch E (f r))) (g (touch E (f r))) Q X"
  shows "leaves (stands rows key (tending rows key moves fresh F) s0 i r) (andThen (upd E i op f) g) Q X"
  by (rule leaves_upd_to, simp add: stands_def, erule tending_upd [OF _ assms(1,2)], rule assms(3))

end

sublocale lifecycle \<subseteq> tended: state_preorder "tending rows key moves fresh F"
  by unfold_locales (simp, rule tending_trans)

end
