(* ===== verification/AmendmentLaws.thy ===== *)
theory AmendmentLaws
  imports Negotiation Lifecycles
begin

text \<open>
  What holds of amendments (\<open>Amendments\<close>), request by request: an amendment follows its automaton, what
  has been accepted is not changed any more, and until both have signed it the agreement stays as it
  is. An application is one of the steps of \<open>agreement_step\<close>, so what \<open>AgreementLaws\<close> shows of
  agreements in force covers amended ones.
\<close>

section \<open>Requests\<close>

datatype amendment_request =
    ProposeAmendment uuid amendment_proposal
  | DecideAmendment uuid amendment_decision
  | WithdrawAmendment uuid "string option"
  | SignAmendment uuid request_context

fun perform_amendment :: "party_deps \<Rightarrow> env \<Rightarrow> uuid \<Rightarrow> amendment_request \<Rightarrow> (db, error, amendment_row) step" where
  "perform_amendment A E user (ProposeAmendment ag p) = propose_amendment A E ag user p"
| "perform_amendment A E user (DecideAmendment i d) = decide_amendment A E i user d"
| "perform_amendment A E user (WithdrawAmendment i why) = withdraw_amendment A E i user why"
| "perform_amendment A E user (SignAmendment i ctx) = sign_amendment A E i user ctx"

section \<open>The automaton of an amendment\<close>

inductive amendment_moves :: "amendment_row \<Rightarrow> amendment_row \<Rightarrow> bool" where
  counters: "amStatus m = AmProposed \<Longrightarrow> acRole c \<noteq> amRole m \<Longrightarrow>
    amendment_moves m ((with_content c m)\<lparr>amUpdatedAt := t\<rparr>)"
| accepted: "amStatus m = AmProposed \<Longrightarrow> amendment_moves m (m\<lparr>amStatus := AmAwaitingSignatures, amUpdatedAt := t\<rparr>)"
| rejected: "amStatus m = AmProposed \<Longrightarrow> amendment_moves m
    (m\<lparr>amStatus := AmRejected, amRejectedReason := why, amRejectedAt := Some t, amUpdatedAt := t\<rparr>)"
| withdrawn: "amStatus m \<in> {AmProposed, AmAwaitingSignatures} \<Longrightarrow> amendment_moves m
    (m\<lparr>amStatus := AmWithdrawn, amWithdrawnReason := why, amWithdrawnAt := Some t, amUpdatedAt := t\<rparr>)"
| signed: "amStatus m = AmAwaitingSignatures \<Longrightarrow> amendment_signature role m = None \<Longrightarrow>
    amendment_moves m ((amendment_signed_by role t m)\<lparr>amUpdatedAt := t\<rparr>)"
| completed: "amStatus m = AmAwaitingSignatures \<Longrightarrow> amCreditorSigned m \<noteq> None \<Longrightarrow> amDebtorSigned m \<noteq> None \<Longrightarrow>
    amendment_moves m (m\<lparr>amStatus := AmSigned, amUpdatedAt := t\<rparr>)"
| applied: "amStatus m = AmSigned \<Longrightarrow> amendment_moves m
    (m\<lparr>amStatus := AmApplied, amResulting := Some v, amUpdatedAt := t\<rparr>)"

inductive_cases amendment_moves_cases: "amendment_moves m m'"

definition fresh_amendment :: "amendment_row \<Rightarrow> bool" where
  "fresh_amendment m \<longleftrightarrow> amStatus m = AmProposed \<and> amCreditorSigned m = None \<and> amDebtorSigned m = None \<and> amResulting m = None"

lemma amendment_moves_id: "amendment_moves m m' \<Longrightarrow> amId m' = amId m"
  by (erule amendment_moves_cases) (auto simp: with_content_def amendment_signed_by_def split: party_role.split)

section \<open>What a request leaves\<close>

definition contracts_stay :: "db \<Rightarrow> db \<Rightarrow> bool" where
  "contracts_stay s s' \<longleftrightarrow> agreements s' = agreements s \<and> versions s' = versions s \<and>
     installments s' = installments s \<and> nextId s \<le> nextId s'"

interpretation contracts: state_preorder contracts_stay
  by unfold_locales (auto simp: contracts_stay_def)

interpretation am: lifecycle contracts_stay amendments amId amendment_moves fresh_amendment
    "\<lambda>xs s. s\<lparr>amendments := xs\<rparr>" "\<lambda>E m. m\<lparr>amUpdatedAt := clock E\<rparr>" update_amendment
  by unfold_locales (auto simp: amendment_moves_id contracts_stay_def update_amendment_def split: option.split)

abbreviation amendments_evolve :: "db \<Rightarrow> db \<Rightarrow> bool" where
  "amendments_evolve \<equiv> evolves amendments amId amendment_moves fresh_amendment"

abbreviation tends :: "db \<Rightarrow> db \<Rightarrow> bool" where
  "tends \<equiv> tending amendments amId amendment_moves fresh_amendment contracts_stay"

abbreviation amendment_stands :: "db \<Rightarrow> uuid \<Rightarrow> amendment_row \<Rightarrow> db \<Rightarrow> bool" where
  "amendment_stands \<equiv> stands amendments amId tends"

declare am.stands_audit [simp] am.tending_audit [simp]

text \<open>
  The second signature: the amendment's version, signed by both, becomes the current one of the
  agreement, and nothing else changes in the contracts.
\<close>

definition amendment_takes_over :: "party_deps \<Rightarrow> env \<Rightarrow> uuid \<Rightarrow> uuid \<Rightarrow> db \<Rightarrow> db \<Rightarrow> bool" where
  "amendment_takes_over A E i user s s' \<longleftrightarrow> (\<exists>m m' role a v w. find_amendment i s = Some m \<and>
     amStatus m = AmAwaitingSignatures \<and> resolve_party_role A (amAgreement m) user s = Inr role \<and>
     amendment_signature role m = None \<and> amendment_signature (other_party role) m \<noteq> None \<and>
     find_agreement (amAgreement m) s = Some a \<and> agCurrentVersion a = Some (avId v) \<and> find_version (avId v) s = Some v \<and>
     versions s' = versions s @ [w] \<and> avAgreement w = amAgreement m \<and> avNumber w = avNumber v + 1 \<and>
     avParent w = Some (avId v) \<and> avTerms w = amTerms m \<and> signature_of role w = Some (clock E) \<and>
     signature_of (other_party role) w = amendment_signature (other_party role) m \<and>
     avHash w = Some (version_hash E w) \<and>
     agreements s' = update_by agId (amAgreement m) (\<lambda>a. a\<lparr>agCurrentVersion := Some (avId w),
       agStatus := (if amChange m = TemporaryPause then PausedByAmendment else agStatus a)\<rparr>) (agreements s) \<and>
     find_amendment i s' = Some m' \<and> amStatus m' = AmApplied \<and> amResulting m' = Some (avId w))"

text \<open>What \<open>AgreementLaws\<close> and \<open>Negotiation\<close> ask of a step on contracts.\<close>

definition lawful :: "env \<Rightarrow> db \<Rightarrow> db \<Rightarrow> bool" where
  "lawful E s s' \<longleftrightarrow> (\<forall>E0. sha256 E0 = sha256 E \<longrightarrow> advances E0 s s') \<and> sums_kept s s'"

lemma lawful_trans: "lawful E a b \<Longrightarrow> lawful E b c \<Longrightarrow> lawful E a c"
  unfolding lawful_def by (blast intro: advances_trans sums_trans)

lemma contracts_lawful: "contracts_stay s s' \<Longrightarrow> lawful E s s'"
  by (auto simp: lawful_def contracts_stay_def intro!: advances_step elsewhere sums_same)

definition led_on :: "party_deps \<Rightarrow> env \<Rightarrow> uuid \<Rightarrow> uuid \<Rightarrow> db \<Rightarrow> db \<Rightarrow> bool" where
  "led_on A E i user s s' \<longleftrightarrow> amendments_evolve s s' \<and>
     (contracts_stay s s' \<or> amendment_takes_over A E i user s s' \<and> lawful E s s')"

lemma takes_over_audit [simp]:
  "amendment_takes_over A E' i user s (audit E p s') = amendment_takes_over A E' i user s s'"
  by (simp add: amendment_takes_over_def)

lemma tends_led: "tends s s' \<Longrightarrow> led_on A E i user s s'"
  by (simp add: tending_def led_on_def)

lemma led_audit: "led_on A E i user s s' \<Longrightarrow> led_on A E i user s (audit E' p s')"
  using contracts_lawful [of s' "audit E' p s'" E] lawful_trans [of E s s' "audit E' p s'"]
    am.evolves_trans [of s s' "audit E' p s'"] am.evolves_same [of "audit E' p s'" s']
  by (auto simp: led_on_def contracts_stay_def)

lemma leaves_amendment_audit:
  assumes "\<And>s p. P s \<Longrightarrow> P (audit E p s)" and "\<And>x. leaves P (f x) Q X"
  shows "leaves P (andThen (amendment_audit E m user act v ctx) f) Q X"
  unfolding amendment_audit_def using assms by (rule leaves_audited)

lemma stands_led: "amendment_stands s0 i m s \<Longrightarrow> led_on A E j user s0 s"
  by (simp add: stands_def tends_led)

lemma leaves_stands:
  "leaves (amendment_stands s0 i m) (ret x) (\<lambda>_. led_on A E j user s0) X"
  by (rule leaves_ret) (rule stands_led)

lemma starts:
  assumes "leaves (amendment_stands s0 i m) n Q X" and "\<And>s. P s \<Longrightarrow> s = s0 \<and> require_amendment i s = Inr m"
  shows "leaves P n Q X"
  by (rule leaves_weaken [OF assms(1)]) (auto simp: stands_def require_amendment_def dest!: assms(2) split: option.splits)

lemma leaves_terms:
  assumes "amendment_moves m ((with_content c m)\<lparr>amUpdatedAt := clock E\<rparr>)"
    and "\<And>u. leaves (amendment_stands s0 i ((with_content c m)\<lparr>amUpdatedAt := clock E\<rparr>)) (g u) Q X"
    and "\<And>s. amendment_stands s0 i m s \<Longrightarrow> X s"
  shows "leaves (amendment_stands s0 i m) (andThen (update_proposed_terms E i c) g) Q X"
proof (cases "content_ok c")
  case True
  then have u: "update_proposed_terms E i c = update_amendment E i ''amendment updateProposedTerms'' (with_content c)"
    by (simp add: update_proposed_terms_def)
  show ?thesis unfolding u by (rule am.leaves_upd, rule assms(1), simp add: with_content_def, rule assms(2))
next
  case False
  then show ?thesis by (simp add: update_proposed_terms_def leaves_def andThen_def assms(3))
qed

lemma stands_tends: "amendment_stands s0 i m s \<Longrightarrow> tends s0 s"
  by (simp add: stands_def)

lemma leaves_stays: "leaves (amendment_stands s0 i m) (ret x) (\<lambda>_. tends s0) X"
  by (rule leaves_ret) (rule stands_tends)

lemma tends_propose: "leaves (\<lambda>s. s = s0) (propose_amendment A E ag user p) (\<lambda>_. tends s0) (tends s0)"
proof -
  have ins: "leaves (\<lambda>s. s = s0) (insert_amendment E ag ch c) (\<lambda>_. tends s0) (tends s0)" for ch c
  proof -
    have "tends s0 (snd (insert_amendment E ag ch c s0))"
      by (auto simp: insert_amendment_def Let_def tending_def contracts_stay_def fresh_amendment_def
          am.evolves_same intro: am.evolves_insert)
    then show ?thesis by (auto simp: leaves_def am.tending_refl split: prod.split sum.split)
  qed
  show ?thesis unfolding propose_amendment_def
    by (intro leaves_glance leaves_guard leaves_raised) (auto split: prod.split
        intro!: leaves_then [OF ins] leaves_amendment_audit leaves_ret)
qed

lemma tends_withdraw: "leaves (\<lambda>s. s = s0) (withdraw_amendment A E i user why) (\<lambda>_. tends s0) (tends s0)"
  unfolding withdraw_amendment_def record_withdrawal_def
  by (rule leaves_read, simp, rule starts)
    (auto intro!: leaves_glance leaves_guard am.leaves_upd leaves_amendment_audit leaves_stays withdrawn
      intro: stands_tends)

lemma tends_decide: "leaves (\<lambda>s. s = s0) (decide_amendment A E i user d) (\<lambda>_. tends s0) (tends s0)"
proof -
  let ?X = "tends s0"
  have moves: "amendment_moves m ((with_content (content_of role a why relief eff t terms) m)\<lparr>amUpdatedAt := clock E\<rparr>)"
    if "amStatus m = AmProposed" "role \<noteq> amRole m" for m role a why relief eff t terms
    using that by (intro counters) (simp_all add: content_of_def)
  have decider: "leaves (amendment_stands s0 i m) (andThen (require_decider A m user) f) (\<lambda>_. ?X) ?X"
    if "\<And>role. role \<noteq> amRole m \<Longrightarrow> leaves (amendment_stands s0 i m) (f role) (\<lambda>_. ?X) ?X" for m and f :: "party_role \<Rightarrow> (db, error, amendment_row) step"
  proof (rule leaves_then [where Q = "\<lambda>role s. amendment_stands s0 i m s \<and> role \<noteq> amRole m"])
    show "leaves (amendment_stands s0 i m) (require_decider A m user) (\<lambda>role s. amendment_stands s0 i m s \<and> role \<noteq> amRole m) ?X"
      unfolding require_decider_def by (intro leaves_glance leaves_guard leaves_ret) (auto intro: stands_tends)
  next
    show "leaves (\<lambda>s. amendment_stands s0 i m s \<and> role \<noteq> amRole m) (f role) (\<lambda>_. ?X) ?X" for role
      by (rule leaves_facts [of _ "role \<noteq> amRole m"]) (auto intro: leaves_weaken that)
  qed
  show ?thesis
    unfolding decide_amendment_def update_amendment_status_def record_amendment_rejection_def
    by (rule leaves_read, simp, rule starts, rule leaves_guard, erule stands_tends, rule decider)
      (auto split: amendment_decision.split option.split prod.split
        intro!: am.leaves_upd leaves_amendment_audit leaves_glance leaves_raised leaves_terms leaves_throw
          leaves_stays accepted rejected moves intro: stands_tends)
qed

text \<open>The last signature and what it sets off.\<close>

lemma amendment_signature_fields [simp]:
  "amId (amendment_signed_by role t m) = amId m" "amAgreement (amendment_signed_by role t m) = amAgreement m"
  "amStatus (amendment_signed_by role t m) = amStatus m" "amTerms (amendment_signed_by role t m) = amTerms m"
  "amChange (amendment_signed_by role t m) = amChange m"
  "amendment_signature role (amendment_signed_by role t m) = Some t"
  "amendment_signature (other_party role) (amendment_signed_by role t m) = amendment_signature (other_party role) m"
  by (cases role; simp add: amendment_signed_by_def amendment_signature_def other_party_def)+

lemma application_frame:
  assumes "apply_amendment_atomically E p s = (r, s')" and "find_amendment (apAmendment p) s = Some m"
    and "amStatus m = AmSigned"
  shows "amendments_evolve s s'"
proof (cases r)
  case (Inl e)
  then show ?thesis using assms(1) by (auto simp: apply_amendment_atomically_def am.evolves_same dest: atomically_Inl)
next
  case (Inr y)
  obtain v u where y: "y = (v, u)" by (cases y)
  from assms(1) [unfolded Inr y] show ?thesis
  proof (cases rule: application_cases)
    case (1 s2 m0)
    show ?thesis
      by (rule am.evolves_update [OF assms(2), where
          f = "\<lambda>m. m\<lparr>amStatus := AmApplied, amResulting := Some v, amUpdatedAt := clock E\<rparr>"])
        (use 1(5) insert_items_frame(5) [OF 1(2)] assms(3) in \<open>auto intro: applied\<close>)
  qed
qed

lemma application_lawful:
  assumes "apply_amendment_atomically E p s = (r, s')" and "find_agreement (apAgreement p) s = Some a"
    and "apCreditorSigned p \<noteq> None" and "apDebtorSigned p \<noteq> None"
    and "apHash p = compute_version_hash E (apAgreement p) (apNumber p) (apTerms p)"
    and "sum_list (map itemAmount (apSchedule p)) = tmPrincipal (apTerms p)"
  shows "lawful E s s'"
  unfolding lawful_def
proof (intro conjI allI impI)
  fix E0 :: env assume e: "sha256 E0 = sha256 E"
  show "advances E0 s s'" unfolding advances_def
  proof
    assume "docs_ok E0 s"
    then have "apAgreement p < nextId s"
      using lookup_by_Some_mem [OF assms(2)] lookup_by_Some_key [OF assms(2)] by (auto simp: docs_ok_def list_all_iff)
    then have "agreement_step E0 s (snd (apply_amendment_atomically E p s))"
      using assms(3-5) e by (intro amends) (simp_all add: compute_version_hash_def)
    then show "(agreement_step E0)\<^sup>*\<^sup>* s s'" using assms(1) by simp
  qed
next
  show "sums_kept s s'"
  proof (cases r)
    case (Inl e)
    then show ?thesis using assms(1) by (auto simp: apply_amendment_atomically_def sums_refl dest: atomically_Inl)
  next
    case (Inr y)
    obtain v m where y: "y = (v, m)" by (cases y)
    from assms(1) [unfolded Inr y] show ?thesis
    proof (cases rule: application_cases)
      case (1 s2 m0)
      let ?v = "amended_version p (nextId s)"
      let ?s1 = "s\<lparr>versions := versions s @ [?v], nextId := Suc (nextId s)\<rparr>"
      have id: "avId ?v = nextId s" "avPrincipal ?v = tmPrincipal (apTerms p)" by (simp_all add: amended_version_def)
      have "adds_up s2" if d: "adds_up s"
        using adds_up_new_version [OF d id(1), of ?s1] id assms(6)
        by (intro sums_insert_items [OF _ _ _ _ 1(2)]) auto
      then show ?thesis using 1(5) by (auto simp: sums_kept_def adds_up_def scheduled_or_empty_def items_of_def)
    qed
  qed
qed

lemma led_application:
  assumes m: "find_amendment i s0 = Some m" "amStatus m = AmAwaitingSignatures"
      "resolve_party_role A (amAgreement m) user s0 = Inr role" "amendment_signature role m = None"
      "amendment_signature (other_party role) m \<noteq> None"
    and l: "l = (amendment_signed_by role (clock E) m)\<lparr>amStatus := AmSigned, amUpdatedAt := clock E\<rparr>"
    and s: "amendment_stands s0 i l s" "get_agreement A (amAgreement l) user' s = Inr a" "require_current_version a s = Inr v"
    and its: "sum_list (map itemAmount its) = tmPrincipal (amTerms l)"
    and r: "apply_amendment_atomically E (application_of E l v its) s = (r, s')"
  shows "led_on A E i user s0 s'"
proof (cases r)
  case (Inl e)
  then have "s' = s" using r by (auto simp: apply_amendment_atomically_def dest: atomically_Inl)
  then show ?thesis using s(1) by (simp add: stands_led)
next
  case (Inr y)
  obtain x u where y: "y = (x, u)" by (cases y)
  let ?p = "application_of E l v its"
  have lf: "amStatus l = AmSigned" "amAgreement l = amAgreement m" "amTerms l = amTerms m" "amChange l = amChange m"
    "amendment_signature q l = amendment_signature q (amendment_signed_by role (clock E) m)" for q
    by (simp_all add: l amendment_signature_def split: party_role.split)
  have both: "amCreditorSigned l \<noteq> None \<and> amDebtorSigned l \<noteq> None"
    using m(5) by (cases role) (auto simp: l amendment_signed_by_def amendment_signature_def other_party_def)
  have i: "amId l = i" using s(1) by (auto simp: stands_def dest: lookup_by_Some_key)
  have s0: "contracts_stay s0 s" "find_amendment i s = Some l" "amendments_evolve s0 s"
    using s(1) by (simp_all add: stands_def tending_def)
  have a: "find_agreement (amAgreement m) s0 = Some a" "agCurrentVersion a = Some (avId v)" "find_version (avId v) s0 = Some v"
    using get_agreement_row [OF s(2)] current_version_row [OF s(3)] s0(1) l by (simp_all add: contracts_stay_def)
  have "lawful E s s'"
    by (rule application_lawful [OF r, of a]) (use a lf both its s0(1) in
      \<open>simp_all add: application_of_def contracts_stay_def\<close>)
  with contracts_lawful [OF s0(1)] have law: "lawful E s0 s'" by (rule lawful_trans)
  from r [unfolded Inr y] show ?thesis
  proof (cases rule: application_cases)
    case (1 s2 m0)
    define w where "w = amended_version ?p (nextId s)"
    note f = insert_items_frame [OF 1(2)]
    have "amendments_evolve s s'"
      by (rule application_frame [OF r]) (use s0(2) lf i in \<open>simp_all add: application_of_def\<close>)
    with s0(3) have ev: "amendments_evolve s0 s'" by (rule am.evolves_trans)
    have vs: "versions s' = versions s0 @ [w]" using f s0(1) 1(5) by (simp add: contracts_stay_def w_def)
    have w: "avAgreement w = amAgreement m" "avNumber w = avNumber v + 1" "avParent w = Some (avId v)"
      "avTerms w = amTerms m" "avHash w = Some (version_hash E w)" "avId w = x"
      "signature_of r w = amendment_signature r l" for r
      using 1(1) l by (cases r; simp add: w_def amended_version_def application_of_def version_hash_def signature_of_def
          amendment_signature_def)+
    have ags: "agreements s' = update_by agId (amAgreement m) (\<lambda>a. a\<lparr>agCurrentVersion := Some (avId w),
        agStatus := (if amChange m = TemporaryPause then PausedByAmendment else agStatus a)\<rparr>) (agreements s0)"
      using 1(5) s0(1) w(6) l by (simp add: application_of_def contracts_stay_def)
    have "find_amendment i s' = Some (l\<lparr>amStatus := AmApplied, amResulting := Some x, amUpdatedAt := clock E\<rparr>)"
      using 1(5) s0(2) i by (simp add: application_of_def lookup_update_same)
    then have "amendment_takes_over A E i user s0 s'"
      unfolding amendment_takes_over_def using m a vs w lf ags
      by (intro exI [of _ m] exI [of _ "l\<lparr>amStatus := AmApplied, amResulting := Some x, amUpdatedAt := clock E\<rparr>"]
          exI [of _ role] exI [of _ a] exI [of _ v] exI [of _ w]) simp
    then show ?thesis using ev law by (simp add: led_on_def)
  qed
qed

text \<open>\<open>seal\<close>: from the last signature on; \<open>signing\<close>: from the signature on.\<close>

lemma led_sign: "leaves (\<lambda>s. s = s0) (sign_amendment A E i user ctx) (\<lambda>_. led_on A E i user s0) (led_on A E i user s0)"
proof -
  let ?X = "led_on A E i user s0"
  let ?sign = "\<lambda>m role. andThen (record_amendment_signature E i role) (\<lambda>signed.
     andThen (amendment_audit E signed user ''amendment_signed_by_party'' (JObj [(''role'', JStr (role_name role))]) ctx) (\<lambda>_.
     if amendment_signature (other_party role) signed = None
     then andThen (\<lambda>s. (get_agreement A (amAgreement m) user s, s)) (\<lambda>_. ret signed)
     else andThen (update_amendment_status E i AmSigned) (\<lambda>locked.
       andThen (amendment_audit E locked user ''amendment_fully_signed'' JNull ctx) (\<lambda>_.
       apply_amendment A E locked user))))"
  have seal: "leaves (amendment_stands s0 i ((amendment_signed_by role (clock E) m)\<lparr>amUpdatedAt := clock E\<rparr>))
      (andThen (update_amendment_status E i AmSigned) (\<lambda>locked.
       andThen (amendment_audit E locked user ''amendment_fully_signed'' JNull ctx) (\<lambda>_. apply_amendment A E locked user)))
      (\<lambda>_. ?X) ?X"
    if m: "find_amendment i s0 = Some m" "amStatus m = AmAwaitingSignatures"
      "resolve_party_role A (amAgreement m) user s0 = Inr role" "amendment_signature role m = None"
      "amendment_signature (other_party role) m \<noteq> None" for m role
  proof -
    let ?l = "(amendment_signed_by role (clock E) m)\<lparr>amStatus := AmSigned, amUpdatedAt := clock E\<rparr>"
    have last: "leaves (amendment_stands s0 i ?l) (apply_amendment A E ?l user) (\<lambda>_. ?X) ?X"
      unfolding apply_amendment_def
    proof (intro leaves_read leaves_raised)
      fix a v c
      assume "compute_schedule (schedule_input_of (tmPrincipal (amTerms ?l)) (tmFirst (amTerms ?l))
         (tmInstallment (amTerms ?l)) (amFrequency ?l) (tmFirstDate (amTerms ?l))) = Inr c"
      then have c: "sum_list (map itemAmount (items c)) = tmPrincipal (amTerms ?l)"
        by (simp add: schedule_sum schedule_input_of_def)
      show "leaves (\<lambda>s. (amendment_stands s0 i ?l s \<and> get_agreement A (amAgreement ?l) user s = Inr a) \<and> require_current_version a s = Inr v)
          (andThen (apply_amendment_atomically E (application_of E ?l v (items c))) (\<lambda>(w, applied).
           andThen (amendment_audit E applied user ''amendment_applied''
             (JObj [(''resultingVersionId'', json_uuid w), (''versionNumber'', JNum (avNumber v + 1))]) no_context)
           (\<lambda>_. ret applied))) (\<lambda>_. ?X) ?X"
        by (rule leaves_then [where Q = "\<lambda>_. ?X"])
          (use c in \<open>auto simp: leaves_def amendment_audit_def led_audit dest: led_application [OF m refl] split: prod.split sum.split\<close>)
    qed (auto intro: stands_led)
    have both: "amCreditorSigned (amendment_signed_by role (clock E) m) \<noteq> None"
      "amDebtorSigned (amendment_signed_by role (clock E) m) \<noteq> None"
      using m(5) by (cases role; auto simp: amendment_signed_by_def amendment_signature_def other_party_def)+
    let ?s = "(amendment_signed_by role (clock E) m)\<lparr>amUpdatedAt := clock E\<rparr>"
    have "amendment_moves ?s (?s\<lparr>amStatus := AmSigned, amUpdatedAt := clock E\<rparr>)"
      by (rule completed) (use m(2) both in simp_all)
    then have mv: "amendment_moves ?s ?l" by simp
    show ?thesis unfolding update_amendment_status_def
      by (rule am.leaves_upd) (use mv last in \<open>auto intro!: leaves_amendment_audit\<close>)
  qed
  have signing: "leaves (amendment_stands s0 i m) (?sign m role) (\<lambda>_. ?X) ?X"
    if "find_amendment i s0 = Some m" "amStatus m = AmAwaitingSignatures"
      "resolve_party_role A (amAgreement m) user s0 = Inr role" "amendment_signature role m = None" for m role
  proof -
    have o: "amendment_signature (other_party role) ((amendment_signed_by role (clock E) m)\<lparr>amUpdatedAt := clock E\<rparr>) =
        amendment_signature (other_party role) m"
      by (cases role) (simp_all add: amendment_signature_def other_party_def amendment_signed_by_def)
    show ?thesis unfolding record_amendment_signature_def
      by (rule am.leaves_upd, rule signed)
        (use that seal o in \<open>auto intro!: leaves_amendment_audit leaves_glance leaves_stands intro: stands_led\<close>)
  qed
  show ?thesis unfolding sign_amendment_def
  proof (intro leaves_read leaves_guard)
    fix m role
    assume 1: "amStatus m = AmAwaitingSignatures" "amendment_signature role m = None"
    let ?P = "\<lambda>s. (s = s0 \<and> require_amendment i s = Inr m) \<and> resolve_party_role A (amAgreement m) user s = Inr role"
    show "leaves ?P (?sign m role) (\<lambda>_. ?X) ?X"
      by (rule leaves_facts [of ?P "require_amendment i s0 = Inr m \<and> resolve_party_role A (amAgreement m) user s0 = Inr role"],
          blast, rule leaves_weaken [OF signing])
        (use 1 in \<open>auto simp: require_amendment_def stands_def split: option.splits\<close>)
  qed (auto simp: tends_led)
qed

lemma amendment_request_led:
  assumes "perform_amendment A E user q s = (r, s')"
  shows "amendments_evolve s s' \<and> lawful E s s' \<and>
    (contracts_stay s s' \<or> (\<exists>i ctx. q = SignAmendment i ctx \<and> amendment_takes_over A E i user s s'))"
proof (cases q)
  case (ProposeAmendment ag p)
  then show ?thesis using leavesD [OF tends_propose refl, of A E ag user p s r s'] assms by (auto simp: tending_def contracts_lawful split: sum.splits)
next
  case (DecideAmendment i d)
  then show ?thesis using leavesD [OF tends_decide refl, of A E i user d s r s'] assms by (auto simp: tending_def contracts_lawful split: sum.splits)
next
  case (WithdrawAmendment i why)
  then show ?thesis using leavesD [OF tends_withdraw refl, of A E i user why s r s'] assms by (auto simp: tending_def contracts_lawful split: sum.splits)
next
  case (SignAmendment i ctx)
  then show ?thesis using leavesD [OF led_sign refl, of A E i user ctx s r s'] assms by (auto simp: led_on_def contracts_lawful split: sum.splits)
qed

section \<open>The agreement stays until both have signed\<close>

text \<open>
  C17. Until both have signed an amendment the agreement stays as it is: whoever proposes, counters, accepts,
  rejects, withdraws or signs, with whatever outcome, agreements, versions and installments are
  unchanged, except by the second of the two signatures on an accepted amendment: it appends one
  version, with the amendment's terms, the next number, the old version as its parent, both
  signatures and the hash of its terms, and makes it the current one of that agreement alone.
\<close>

theorem existing_agreement_controls:
  "contracts_stay s (snd (perform_amendment A E user q s)) \<or>
   (\<exists>i ctx. q = SignAmendment i ctx \<and> amendment_takes_over A E i user s (snd (perform_amendment A E user q s)))"
proof -
  obtain r s' where "perform_amendment A E user q s = (r, s')" by fastforce
  then show ?thesis using amendment_request_led by fastforce
qed

definition amended_terms :: agreement_terms where
  "amended_terms = sample_terms\<lparr>tmOriginal := 650, tmPrincipal := 650, tmFirst := 100, tmInstallment := 300,
     tmFinal := 250, tmCount := 2\<rparr>"

definition sample_amendment :: amendment_row where
  "sample_amendment = \<lparr>amId = 9, amAgreement = 1, amChange = RevisedSchedule, amStatus = AmAwaitingSignatures,
     amRole = Creditor, amBy = (PersonalProfile, 102), amReason = ''r'', amRelief = None, amEffective = None,
     amFrequency = Monthly, amFee = DebtorPays, amTerms = amended_terms, amCreditorSigned = None,
     amDebtorSigned = Some 7, amSigned = None, amResulting = None, amRejectedReason = None, amRejectedAt = None,
     amWithdrawnReason = None, amWithdrawnAt = None, amUpdatedAt = 7\<rparr>"

definition amendment_start :: db where
  "amendment_start = empty_db\<lparr>agreements := [(sample_agreement FirstPaymentPending)\<lparr>agCurrentVersion := Some 2\<rparr>],
     versions := [life_version], amendments := [sample_amendment], nextId := 20\<rparr>"

lemma amended_schedule: "compute_schedule (schedule_input_of (tmPrincipal amended_terms) (tmFirst amended_terms)
    (tmInstallment amended_terms) Monthly (tmFirstDate amended_terms)) = Inr sample_schedule"
  using compute_sample by (simp add: amended_terms_def sample_terms_def schedule_input_of_def sample_input_def)

lemma sample_items: "list_all item_ok (items sample_schedule)" "distinct (map sequenceNumber (items sample_schedule))"
  by (rule sample_dates) (simp add: sample_schedule_def)

lemma amendment_signed_sample:
  "\<exists>m s'. perform_amendment sample_parties early_env 102 (SignAmendment 9 no_context) amendment_start = (Inr m, s') \<and>
     amStatus m = AmApplied \<and> length (versions s') = 2"
  using amended_schedule sample_items
  apply (simp add: amendment_start_def empty_db_def sign_amendment_def sample_parties_def require_amendment_def resolve_party_role_def require_agreement_def
      authorize_either_party_def authorize_party_def sample_amendment_def sample_agreement_def andThen_def
      amendment_signature_def record_amendment_signature_def update_amendment_def amendment_signed_by_def
      amendment_audit_def other_party_def update_amendment_status_def apply_amendment_def get_agreement_def
      require_current_version_def require_version_def life_version_def sample_version_def)
  apply (simp add: apply_amendment_atomically_def application_transaction_def
      application_of_def insert_amended_version_def amended_version_def insert_items_def atomically_def record_amendment_applied_def
      set_agreement_def audit_def andThen_def Let_def update_amendment_def)
  done

theorem existing_agreement_controls_witness:
  "amendment_takes_over sample_parties early_env 9 102 amendment_start
     (snd (perform_amendment sample_parties early_env 102 (SignAmendment 9 no_context) amendment_start))"
  using existing_agreement_controls [of amendment_start sample_parties early_env 102 "SignAmendment 9 no_context"]
    amendment_signed_sample by (auto simp: contracts_stay_def amendment_start_def)

section \<open>What has been accepted is fixed\<close>

fun run_amendments :: "party_deps \<Rightarrow> (env \<times> uuid \<times> amendment_request) list \<Rightarrow> db \<Rightarrow> db" where
  "run_amendments A [] s = s"
| "run_amendments A ((E, user, q) # rs) s = run_amendments A rs (snd (perform_amendment A E user q s))"

lemma amendments_evolve_run: "amendments_evolve s (run_amendments A rs s)"
proof (induction rs arbitrary: s)
  case (Cons r rs)
  obtain E user q where r: "r = (E, user, q)" by (cases r)
  obtain x s1 where p: "perform_amendment A E user q s = (x, s1)" by fastforce
  then have "amendments_evolve s s1" using amendment_request_led by blast
  then show ?case using Cons.IH [of s1] p by (simp add: r am.evolves_trans)
qed (simp add: am.evolves_same)

text \<open>Signatures begin with acceptance and are complete before an application.\<close>

definition amendment_ok :: "amendment_row \<Rightarrow> bool" where
  "amendment_ok m \<longleftrightarrow> (amStatus m \<in> {AmProposed, AmRejected} \<longrightarrow> amCreditorSigned m = None \<and> amDebtorSigned m = None) \<and>
     (amStatus m \<in> {AmSigned, AmApplied} \<longrightarrow> amCreditorSigned m \<noteq> None \<and> amDebtorSigned m \<noteq> None) \<and>
     (amStatus m = AmApplied \<longleftrightarrow> amResulting m \<noteq> None)"

lemma amendment_ok_signed:
  "amStatus m = AmAwaitingSignatures \<Longrightarrow> amendment_ok m \<Longrightarrow> amendment_ok ((amendment_signed_by role t m)\<lparr>amUpdatedAt := t\<rparr>)"
  unfolding amendment_ok_def by (cases role) (auto simp: amendment_signed_by_def)

lemma amendment_ok_moves: "amendment_moves m m' \<Longrightarrow> amendment_ok m \<Longrightarrow> amendment_ok m'"
proof (induction rule: amendment_moves.induct)
  case (signed m role t)
  then show ?case by (intro amendment_ok_signed)
qed (auto simp: amendment_ok_def with_content_def)

lemma amendment_ok_reached: "amendment_moves\<^sup>*\<^sup>* m m' \<Longrightarrow> amendment_ok m \<Longrightarrow> amendment_ok m'"
  by (induction rule: rtranclp_induct) (auto intro: amendment_ok_moves)

definition amendment_fixed :: "amendment_row \<Rightarrow> amendment_row \<Rightarrow> bool" where
  "amendment_fixed m m' \<longleftrightarrow> amStatus m' \<noteq> AmProposed \<and> amTerms m' = amTerms m \<and> amFrequency m' = amFrequency m \<and>
     amFee m' = amFee m \<and> amRole m' = amRole m \<and>
     (\<forall>role. amendment_signature role m \<noteq> None \<longrightarrow> amendment_signature role m' = amendment_signature role m) \<and>
     (amStatus m \<in> {AmRejected, AmWithdrawn, AmApplied} \<longrightarrow> m' = m)"

lemma amendment_fixedI:
  "amStatus m \<notin> {AmRejected, AmWithdrawn, AmApplied} \<Longrightarrow> amStatus m' \<noteq> AmProposed \<Longrightarrow> amTerms m' = amTerms m \<Longrightarrow>
   amFrequency m' = amFrequency m \<Longrightarrow> amFee m' = amFee m \<Longrightarrow> amRole m' = amRole m \<Longrightarrow>
   (\<And>r. amendment_signature r m \<noteq> None \<Longrightarrow> amendment_signature r m' = amendment_signature r m) \<Longrightarrow> amendment_fixed m m'"
  unfolding amendment_fixed_def by blast

lemma amendment_fixed_moves: "amendment_moves m m' \<Longrightarrow> amStatus m \<noteq> AmProposed \<Longrightarrow> amendment_fixed m m'"
proof (induction rule: amendment_moves.induct)
  case (signed m role t)
  have "amendment_signature r ((amendment_signed_by role t m)\<lparr>amUpdatedAt := t\<rparr>) =
      (if r = role then Some t else amendment_signature r m)" for r
    by (cases r; cases role) (simp_all add: amendment_signature_def amendment_signed_by_def)
  then show ?case using signed by (intro amendment_fixedI) (cases role; auto simp: amendment_signed_by_def)+
qed (intro amendment_fixedI; auto simp: amendment_signature_def split: party_role.split)+

lemma amendment_fixed_trans: "amendment_fixed a b \<Longrightarrow> amendment_fixed b c \<Longrightarrow> amendment_fixed a c"
  unfolding amendment_fixed_def by auto

lemma amendment_fixed_reached:
  assumes "amendment_moves\<^sup>*\<^sup>* m m'" and "amStatus m \<noteq> AmProposed"
  shows "amendment_fixed m m'"
  using assms
proof (induction rule: rtranclp_induct)
  case base
  then show ?case by (simp add: amendment_fixed_def)
next
  case (step m1 m2)
  then have "amendment_fixed m m1" by simp
  moreover have "amStatus m1 \<noteq> AmProposed" using calculation by (simp add: amendment_fixed_def)
  ultimately show ?case using amendment_fixed_moves [OF step.hyps(2)] by (blast intro: amendment_fixed_trans)
qed

lemma fresh_ok: "fresh_amendment m \<Longrightarrow> amendment_ok m"
  by (simp add: fresh_amendment_def amendment_ok_def)

lemma amendments_ok_run:
  assumes "amendments s0 = []" and "find_amendment i (run_amendments A rs s0) = Some m"
  shows "keyed amendments amId (run_amendments A rs s0) \<and> amendment_ok m"
  using am.row_born [OF amendments_evolve_run assms] amendment_ok_reached fresh_ok by blast

text \<open>
  What has been accepted is fixed: after any sequence of requests of any users on amendments, an amendment
  that is no longer a proposal keeps its terms, its frequency, its fee allocation and its proposer
  through any further sequence, a signature on it stays, and a rejected, withdrawn or applied one does
  not change at all; no proposal carries a signature, and one that is signed or applied carries both.
\<close>

theorem accepted_amendment_is_fixed:
  assumes "amendments s0 = []" and "s = run_amendments A rs s0"
    and "find_amendment i s = Some m" and "amStatus m \<noteq> AmProposed"
  shows "\<exists>m'. find_amendment i (run_amendments A rs' s) = Some m' \<and> amendment_fixed m m' \<and> amendment_ok m \<and> amendment_ok m'"
proof -
  have m: "keyed amendments amId s" "amendment_ok m" using amendments_ok_run [OF assms(1)] assms(2,3) by auto
  obtain m' where "find_amendment i (run_amendments A rs' s) = Some m'" "amendment_moves\<^sup>*\<^sup>* m m'"
    using am.row_carried [OF amendments_evolve_run m(1) assms(3)] by blast
  then show ?thesis using m(2) assms(4) by (auto intro: amendment_fixed_reached amendment_ok_reached)
qed

definition amendment_proposed :: amendment_proposal where
  "amendment_proposed = \<lparr>apChange = RevisedSchedule, apReason = ''r'', apRelief = None, apEffective = None,
     apProposed = sample_terms_input\<rparr>"

definition amendment_base :: db where
  "amendment_base = empty_db\<lparr>agreements := [(sample_agreement FirstPaymentPending)\<lparr>agCurrentVersion := Some 2\<rparr>],
     versions := [life_version], nextId := 9\<rparr>"

lemma amendment_accepted_sample:
  "\<exists>m. find_amendment 9 (run_amendments sample_parties [(early_env, 102, ProposeAmendment 1 amendment_proposed),
     (early_env, 101, DecideAmendment 9 AcceptAmendment)] amendment_base) = Some m \<and> amStatus m = AmAwaitingSignatures"
proof -
  obtain terms where "build_terms sample_terms_input = Inr (terms, items sample_schedule)"
    using sample_build by blast
  then show ?thesis
    by (simp add: amendment_base_def empty_db_def propose_amendment_def decide_amendment_def amendment_proposed_def
        sample_parties_def require_amendment_def resolve_party_role_def require_agreement_def
        authorize_either_party_def authorize_party_def sample_agreement_def andThen_def get_agreement_def
        require_current_version_def require_version_def life_version_def sample_version_def
        insert_amendment_def content_ok_def content_of_def Let_def amendment_audit_def audit_def blank_text_def
        is_space_def require_decider_def update_amendment_status_def update_amendment_def party_of_def
        require_creditor_capability_def)
qed

theorem accepted_amendment_is_fixed_witness:
  "\<exists>m m'. find_amendment 9 (run_amendments sample_parties [(early_env, 102, WithdrawAmendment 9 None)]
     (run_amendments sample_parties [(early_env, 102, ProposeAmendment 1 amendment_proposed),
       (early_env, 101, DecideAmendment 9 AcceptAmendment)] amendment_base)) = Some m' \<and> amendment_fixed m m'"
proof -
  have "amendments amendment_base = []" by (simp add: amendment_base_def empty_db_def)
  from accepted_amendment_is_fixed [OF this refl] amendment_accepted_sample show ?thesis by fastforce
qed

end
