(* ===== verification/Settlements.thy ===== *)
theory Settlements
  imports Agreements PartialPayments
begin

text \<open>
  Settlements (\<open>settlements/settlementService.ts\<close> over its repository): a smaller amount, proposed by
  one party and accepted by the other, is paid in one or several payments; each is linked under the
  lock of the proposal, the full amount settles the agreement, and a job applies the agreed consequence
  when the deadline passes. \<open>is_awaiting_payment_for_agreement\<close> is what the payment service asks before it
  binds a payment to a settlement (\<open>payments/drizzleSettlementContextVerifier.ts\<close>).
\<close>

section \<open>The repository\<close>

record settlement_content =
  scRole :: party_role
  scBy :: profile_ref
  scTerms :: settlement_terms

text \<open>The columns: integers of 32 bits and a date.\<close>

definition settlement_columns_ok :: "settlement_terms \<Rightarrow> bool" where
  "settlement_columns_ok t \<longleftrightarrow> int4_ok (stBalance t) \<and> int4_ok (stAmount t) \<and> int4_ok (stForgiven t) \<and>
     date_column_ok (stDeadline t) \<and> (case stStated t of None \<Rightarrow> True | Some n \<Rightarrow> int4_ok n)"

definition insert_settlement :: "env \<Rightarrow> uuid \<Rightarrow> settlement_content \<Rightarrow> (db, error, settlement_row) step" where
  "insert_settlement E ag c s =
     (if \<not> settlement_columns_ok (scTerms c) then (Inl (ForeignError ''invalid column value''), s)
      else let p = \<lparr>seId = nextId s, seAgreement = ag, seStatus = SeProposed, seRole = scRole c, seBy = scBy c,
             seTerms = scTerms c, seRejectedReason = None, seRejectedAt = None, seAcceptedAt = None,
             seCompletedAt = None, seResolved = None, seRestored = None, seForgiven = None, seResolvedAt = None,
             seUpdatedAt = clock E\<rparr>
           in (Inr p, s\<lparr>settlements := settlements s @ [p], nextId := Suc (nextId s)\<rparr>))"

definition update_settlement ::
    "env \<Rightarrow> uuid \<Rightarrow> string \<Rightarrow> (settlement_row \<Rightarrow> settlement_row) \<Rightarrow> (db, error, settlement_row) step" where
  "update_settlement E i op f s =
     (case find_settlement i s of
        None \<Rightarrow> (Inl (ConfigurationError op), s)
      | Some p \<Rightarrow> (Inr ((f p)\<lparr>seUpdatedAt := clock E\<rparr>),
          s\<lparr>settlements := update_by seId i (\<lambda>p. (f p)\<lparr>seUpdatedAt := clock E\<rparr>) (settlements s)\<rparr>))"

definition update_settlement_content :: "env \<Rightarrow> uuid \<Rightarrow> settlement_content \<Rightarrow> (db, error, settlement_row) step" where
  "update_settlement_content E i c =
     (if settlement_columns_ok (scTerms c)
      then update_settlement E i ''settlement_proposal updateProposedContent''
        (\<lambda>p. p\<lparr>seRole := scRole c, seBy := scBy c, seTerms := scTerms c\<rparr>)
      else throw (ForeignError ''invalid column value''))"

definition record_accepted :: "env \<Rightarrow> uuid \<Rightarrow> (db, error, settlement_row) step" where
  "record_accepted E i = update_settlement E i ''settlement_proposal recordAccepted''
     (\<lambda>p. p\<lparr>seStatus := SeAwaitingPayment, seAcceptedAt := Some (clock E)\<rparr>)"

definition record_settlement_rejection :: "env \<Rightarrow> uuid \<Rightarrow> string option \<Rightarrow> (db, error, settlement_row) step" where
  "record_settlement_rejection E i why = update_settlement E i ''settlement_proposal recordRejection''
     (\<lambda>p. p\<lparr>seStatus := SeRejected, seRejectedReason := why, seRejectedAt := Some (clock E)\<rparr>)"

definition record_completed :: "env \<Rightarrow> uuid \<Rightarrow> (db, error, settlement_row) step" where
  "record_completed E i = update_settlement E i ''settlement_proposal recordCompleted''
     (\<lambda>p. p\<lparr>seStatus := SeCompleted, seCompletedAt := Some (clock E)\<rparr>)"

type_synonym settlement_resolution = "settlement_consequence \<times> int option \<times> int option"

definition record_failure_consequence ::
    "env \<Rightarrow> uuid \<Rightarrow> settlement_resolution \<Rightarrow> (db, error, settlement_row) step" where
  "record_failure_consequence E i res = update_settlement E i ''settlement_proposal recordFailureConsequence''
     (\<lambda>p. case res of (c, restored, forgiven) \<Rightarrow> p\<lparr>seStatus := SeConsequenceApplied, seResolved := Some c,
        seRestored := restored, seForgiven := forgiven, seResolvedAt := Some (clock E)\<rparr>)"

text \<open>The newest first.\<close>

definition list_settlements_for :: "uuid \<Rightarrow> db \<Rightarrow> settlement_row list" where
  "list_settlements_for ag s = rev (filter (\<lambda>p. seAgreement p = ag) (settlements s))"

definition awaiting_past_deadline :: "msec \<Rightarrow> db \<Rightarrow> settlement_row list" where
  "awaiting_past_deadline now s =
     filter (\<lambda>p. seStatus p = SeAwaitingPayment \<and> iso_before (stDeadline (seTerms p)) (today_iso now)) (settlements s)"

definition sum_for_settlement :: "uuid \<Rightarrow> db \<Rightarrow> int" where
  "sum_for_settlement i s =
     sum_list (map slAmount (filter (\<lambda>l. slProposal l = i) (settlementPayments s)))"

definition is_awaiting_payment_for_agreement :: "uuid \<Rightarrow> uuid \<Rightarrow> db \<Rightarrow> bool" where
  "is_awaiting_payment_for_agreement i ag s \<longleftrightarrow>
     list_ex (\<lambda>p. seId p = i \<and> seAgreement p = ag \<and> seStatus p = SeAwaitingPayment) (settlements s)"

section \<open>A payment is linked\<close>

datatype ceiling_outcome =
  LinkRecorded int | LinkAlreadyThere | LinkNotAwaiting | LinkWouldExceed int

text \<open>
  The transaction under the lock of the proposal. The sum of 32-bit columns is read as a number, and
  the addition is the one of doubles.
\<close>

definition record_within_settlement_ceiling :: "uuid \<Rightarrow> uuid \<Rightarrow> int \<Rightarrow> db \<Rightarrow> ceiling_outcome \<times> db" where
  "record_within_settlement_ceiling i pay amount s =
     (case find_settlement i s of
        None \<Rightarrow> (LinkNotAwaiting, s)
      | Some p \<Rightarrow>
     (if seStatus p \<noteq> SeAwaitingPayment then (LinkNotAwaiting, s)
      else if list_ex (\<lambda>l. slPayment l = pay) (settlementPayments s) then (LinkAlreadyThere, s)
      else let existing = js_int (sum_for_settlement i s); collected = js_add existing amount
           in if collected > stAmount (seTerms p) then (LinkWouldExceed existing, s)
              else (LinkRecorded collected, s\<lparr>settlementPayments := settlementPayments s @
                [\<lparr>slProposal = i, slPayment = pay, slAmount = amount\<rparr>]\<rparr>)))"

section \<open>The service\<close>

text \<open>\<open>sdStepUp\<close>: has the user, in this session, confirmed the action with a second factor.\<close>

record settlement_deps =
  sdParty :: party_deps
  sdStepUp :: "uuid \<Rightarrow> string \<Rightarrow> bool"

definition validate_terms :: "settlement_terms \<Rightarrow> error + unit" where
  "validate_terms t =
     (if \<not> safe_int (stBalance t) \<or> stBalance t \<le> 0 then Inl (ValidationError ''preSettlementBalanceMinorUnits'')
      else if \<not> safe_int (stAmount t) \<or> stAmount t \<le> 0 then Inl (ValidationError ''settlementAmountMinorUnits'')
      else if stAmount t \<ge> stBalance t then Inl (ValidationError ''settlementAmountNotLess'')
      else if stForgiven t \<noteq> js_sub (stBalance t) (stAmount t) then Inl (ValidationError ''forgivenAmountMinorUnits'')
      else if stConsequence t \<in> {RestoreStated, ForgivePermanently} \<and>
        (case stStated t of None \<Rightarrow> True | Some n \<Rightarrow> \<not> safe_int n \<or> n < 0)
      then Inl (ValidationError ''failureConsequenceStatedAmountMinorUnits'')
      else Inr ())"

definition settlement_audit ::
    "env \<Rightarrow> settlement_row \<Rightarrow> uuid option \<Rightarrow> string \<Rightarrow> json \<Rightarrow> (db, error, unit) step" where
  "settlement_audit E p actor act v = update (audit E ((blank_audit act (clock E))
     \<lparr>actorUserId := actor,
      actorRole := Some (if actor = None then ''scheduler'' else ''agreement_party''),
      profileKind := (if actor = None then None else Some (fst (seBy p))),
      profileId := (if actor = None then None else Some (snd (seBy p))),
      auditAgreementId := Some (seAgreement p), newValue := v,
      targetResourceType := Value ''settlement_proposal'', targetResourceId := Value (seId p)\<rparr>))"

definition require_proposal :: "uuid \<Rightarrow> db \<Rightarrow> error + settlement_row" where
  "require_proposal i s =
     (case find_settlement i s of None \<Rightarrow> Inl (ValidationError ''SettlementNotFound'') | Some p \<Rightarrow> Inr p)"

definition require_creditor_step_up :: "settlement_deps \<Rightarrow> uuid \<Rightarrow> string option \<Rightarrow> (db, error, unit) step" where
  "require_creditor_step_up D user session =
     (case session of
        None \<Rightarrow> throw (ValidationError ''SessionRequired'')
      | Some k \<Rightarrow>
          if k = [] then throw (ValidationError ''SessionRequired'')
          else guard (sdStepUp D user k) StepUpRequiredError)"

definition if_creditor :: "party_role \<Rightarrow> (db, error, unit) step \<Rightarrow> (db, error, unit) step" where
  "if_creditor role m = (if role = Creditor then m else ret ())"

definition settlement_of :: "party_role \<Rightarrow> agreement_row \<Rightarrow> settlement_terms \<Rightarrow> settlement_content" where
  "settlement_of role a t = \<lparr>scRole = role, scBy = party_of role a, scTerms = t\<rparr>"

definition propose_settlement ::
    "settlement_deps \<Rightarrow> env \<Rightarrow> uuid \<Rightarrow> uuid \<Rightarrow> string option \<Rightarrow> settlement_terms \<Rightarrow> (db, error, settlement_row) step" where
  "propose_settlement D E ag user session t =
     andThen (\<lambda>s. (resolve_party_role (sdParty D) ag user s, s)) (\<lambda>role.
     andThen (\<lambda>s. (get_agreement (sdParty D) ag user s, s)) (\<lambda>a.
     andThen (raised (validate_terms t)) (\<lambda>_.
     andThen (if_creditor role (andThen (\<lambda>s. (require_creditor_capability (sdParty D) ag user ''approve_settlement'' s, s))
       (\<lambda>_. require_creditor_step_up D user session))) (\<lambda>_.
     andThen (insert_settlement E ag (settlement_of role a t)) (\<lambda>p.
     andThen (settlement_audit E p (Some user) ''settlement_proposed'' JNull) (\<lambda>_. ret p))))))"

datatype settlement_decision =
    AcceptSettlement
  | RejectSettlement "string option"
  | CounterSettlement "settlement_terms option"

definition decide_settlement ::
    "settlement_deps \<Rightarrow> env \<Rightarrow> uuid \<Rightarrow> uuid \<Rightarrow> string option \<Rightarrow> settlement_decision \<Rightarrow> (db, error, settlement_row) step" where
  "decide_settlement D E i user session d =
     andThen (\<lambda>s. (require_proposal i s, s)) (\<lambda>p.
     andThen (guard (seStatus p = SeProposed) (ValidationError ''WrongStatus'')) (\<lambda>_.
     andThen (\<lambda>s. (resolve_party_role (sdParty D) (seAgreement p) user s, s)) (\<lambda>role.
     andThen (guard (role \<noteq> seRole p) (ForbiddenError ''OwnProposal'')) (\<lambda>_.
     andThen (if_creditor role (\<lambda>s. (require_creditor_capability (sdParty D) (seAgreement p) user ''approve_settlement'' s, s))) (\<lambda>_.
     case d of
       AcceptSettlement \<Rightarrow>
         andThen (if_creditor role (require_creditor_step_up D user session)) (\<lambda>_.
         andThen (record_accepted E i) (\<lambda>u.
         andThen (settlement_audit E u (Some user) ''settlement_accepted'' JNull) (\<lambda>_. ret u)))
     | RejectSettlement why \<Rightarrow>
         andThen (record_settlement_rejection E i why) (\<lambda>u.
         andThen (settlement_audit E u (Some user) ''settlement_rejected'' (JObj [(''reason'', json_opt JStr why)])) (\<lambda>_. ret u))
     | CounterSettlement None \<Rightarrow> throw (ValidationError ''CounterTermsRequired'')
     | CounterSettlement (Some t) \<Rightarrow>
         andThen (if_creditor role (require_creditor_step_up D user session)) (\<lambda>_.
         andThen (raised (validate_terms t)) (\<lambda>_.
         andThen (\<lambda>s. (get_agreement (sdParty D) (seAgreement p) user s, s)) (\<lambda>a.
         andThen (update_settlement_content E i (settlement_of role a t)) (\<lambda>u.
         andThen (settlement_audit E u (Some user) ''settlement_countered'' JNull) (\<lambda>_. ret u))))))))))"

text \<open>The payment must have been bound to this settlement, of this agreement, between its parties.\<close>

definition settlement_payment_checks ::
    "settlement_row \<Rightarrow> agreement_row \<Rightarrow> payment_row \<Rightarrow> error option" where
  "settlement_payment_checks p a x =
     (if paPayer x \<noteq> agDebtor a then Some (ValidationError ''PayerMismatch'')
      else if paRecipient x \<noteq> agCreditor a then Some (ValidationError ''RecipientMismatch'')
      else if stMode (seTerms p) = OneTime \<and> paAmount x \<noteq> stAmount (seTerms p)
      then Some (ValidationError ''OneTimeAmount'')
      else None)"

definition require_settlement_payment :: "settlement_row \<Rightarrow> uuid \<Rightarrow> db \<Rightarrow> error + payment_row" where
  "require_settlement_payment p pay s =
     (case find_payment pay s of
        None \<Rightarrow> Inl (ValidationError ''SucceededPaymentRequired'')
      | Some x \<Rightarrow>
          if paStatus x \<noteq> PSucceeded then Inl (ValidationError ''SucceededPaymentRequired'')
          else if paSettlement x \<noteq> Some (seId p) then Inl (ValidationError ''NotVerifiedForSettlement'')
          else if paAgreement x \<noteq> Some (seAgreement p) then Inl (ValidationError ''OtherAgreement'')
          else Inr x)"

definition complete_settlement :: "env \<Rightarrow> settlement_row \<Rightarrow> uuid option \<Rightarrow> int \<Rightarrow> (db, error, settlement_row) step" where
  "complete_settlement E p actor collected =
     andThen (record_completed E (seId p)) (\<lambda>u.
     andThen (update (set_agreement_status (seAgreement p) SettledInFull)) (\<lambda>_.
     andThen (settlement_audit E u actor ''settlement_completed'' (JObj [(''totalCollectedMinorUnits'', JNum collected)]))
       (\<lambda>_. ret u)))"

definition record_settlement_payment ::
    "settlement_deps \<Rightarrow> env \<Rightarrow> uuid \<Rightarrow> uuid \<Rightarrow> uuid \<Rightarrow> (db, error, settlement_row) step" where
  "record_settlement_payment D E i pay user =
     andThen (\<lambda>s. (require_proposal i s, s)) (\<lambda>p.
     andThen (guard (seStatus p = SeAwaitingPayment) (ValidationError ''WrongStatus'')) (\<lambda>_.
     andThen (\<lambda>s. (resolve_party_role (sdParty D) (seAgreement p) user s, s)) (\<lambda>_.
     andThen (\<lambda>s. (require_settlement_payment p pay s, s)) (\<lambda>x.
     andThen (\<lambda>s. (get_agreement (sdParty D) (seAgreement p) user s, s)) (\<lambda>a.
     andThen (case settlement_payment_checks p a x of None \<Rightarrow> ret () | Some e \<Rightarrow> throw e) (\<lambda>_.
     andThen (\<lambda>s. case record_within_settlement_ceiling i pay (paAmount x) s of
         (LinkRecorded collected, s') \<Rightarrow> (Inr collected, s')
       | (LinkAlreadyThere, s') \<Rightarrow> (Inl (ValidationError ''AlreadyRecorded''), s')
       | (LinkNotAwaiting, s') \<Rightarrow> (Inl (ValidationError ''NoLongerAwaiting''), s')
       | (LinkWouldExceed _, s') \<Rightarrow> (Inl (ValidationError ''Overpayment''), s')) (\<lambda>collected.
     andThen (settlement_audit E p (Some user) ''settlement_payment_recorded''
       (JObj [(''paymentAttemptId'', json_uuid pay), (''amountMinorUnits'', JNum (paAmount x))])) (\<lambda>_.
     if collected < stAmount (seTerms p) then (\<lambda>s. (require_proposal i s, s))
     else complete_settlement E p (Some user) collected))))))))"

section \<open>The deadline passes\<close>

definition resolve_failure_consequence :: "settlement_row \<Rightarrow> int \<Rightarrow> settlement_resolution" where
  "resolve_failure_consequence p collected =
     (let t = seTerms p in
      case stConsequence t of
        RestoreOriginal \<Rightarrow> (RestoreOriginal, Some (js_sub (stBalance t) collected), None)
      | RestoreStated \<Rightarrow> (RestoreStated, stStated t, None)
      | ForgivePermanently \<Rightarrow> (ForgivePermanently, None, stStated t)
      | PriorAgreementControls \<Rightarrow> (PriorAgreementControls, None, None))"

fun consequence_name :: "settlement_consequence \<Rightarrow> string" where
  "consequence_name RestoreOriginal = ''restore_original''"
| "consequence_name RestoreStated = ''restore_stated''"
| "consequence_name ForgivePermanently = ''forgive_permanently''"
| "consequence_name PriorAgreementControls = ''prior_agreement_controls''"

definition resolution_json :: "settlement_resolution \<Rightarrow> int \<Rightarrow> json" where
  "resolution_json res collected = (case res of (c, restored, forgiven) \<Rightarrow>
     JObj [(''resolvedConsequence'', JStr (consequence_name c)),
       (''resolvedRestoredBalanceMinorUnits'', json_opt JNum restored),
       (''resolvedForgivenAmountMinorUnits'', json_opt JNum forgiven),
       (''totalCollectedMinorUnits'', JNum collected)])"

definition expire_settlement :: "env \<Rightarrow> settlement_row \<Rightarrow> (db, error, unit) step" where
  "expire_settlement E p =
     andThen (asks (\<lambda>s. js_int (sum_for_settlement (seId p) s))) (\<lambda>collected.
     if collected \<ge> stAmount (seTerms p)
     then andThen (complete_settlement E p None collected) (\<lambda>_. ret ())
     else let res = resolve_failure_consequence p collected
          in andThen (record_failure_consequence E (seId p) res) (\<lambda>u.
             settlement_audit E u None ''settlement_failure_consequence_applied'' (resolution_json res collected)))"

fun expire_settlements :: "env \<Rightarrow> settlement_row list \<Rightarrow> (db, error, unit) step" where
  "expire_settlements E [] = ret ()"
| "expire_settlements E (p # ps) = andThen (expire_settlement E p) (\<lambda>_. expire_settlements E ps)"

definition expire_overdue_settlements :: "env \<Rightarrow> (db, error, int) step" where
  "expire_overdue_settlements E =
     andThen (asks (awaiting_past_deadline (clock E))) (\<lambda>due.
     andThen (expire_settlements E due) (\<lambda>_. ret (int (length due))))"

definition get_settlement_proposal :: "settlement_deps \<Rightarrow> uuid \<Rightarrow> uuid \<Rightarrow> db \<Rightarrow> error + settlement_row" where
  "get_settlement_proposal D i user s = bindE (require_proposal i s) (\<lambda>p.
     bindE (resolve_party_role (sdParty D) (seAgreement p) user s) (\<lambda>_. Inr p))"

definition list_settlement_proposals :: "settlement_deps \<Rightarrow> uuid \<Rightarrow> uuid \<Rightarrow> db \<Rightarrow> error + settlement_row list" where
  "list_settlement_proposals D ag user s =
     bindE (resolve_party_role (sdParty D) ag user s) (\<lambda>_. Inr (list_settlements_for ag s))"

end
