(* ===== verification/SettlementLaws.thy ===== *)
theory SettlementLaws
  imports Settlements Lifecycles
begin

text \<open>
  What holds of settlements (\<open>Settlements\<close>): however the transactions that link payments interleave with
  each other and with any other statement, no payment is linked beyond the amount the settlement has at
  that moment; request by request a settlement follows its automaton, and it is completed exactly when
  the full amount has been collected.
\<close>

section \<open>Links\<close>

definition links_of :: "uuid \<Rightarrow> db \<Rightarrow> settlement_payment_row list" where
  "links_of i s = filter (\<lambda>l. slProposal l = i) (settlementPayments s)"

lemma sum_links: "sum_for_settlement i s = sum_list (map slAmount (links_of i s))"
  by (simp add: sum_for_settlement_def links_of_def)

definition links_ok :: "db \<Rightarrow> bool" where
  "links_ok s \<longleftrightarrow> distinct (map slPayment (settlementPayments s)) \<and> list_all (\<lambda>l. 0 \<le> slAmount l) (settlementPayments s)"

lemma sum_links_nonneg: "links_ok s \<Longrightarrow> 0 \<le> sum_for_settlement i s"
  unfolding sum_links by (rule sum_list_nonneg_int) (auto simp: links_ok_def links_of_def list_all_iff)

text \<open>On amounts that fit their columns the arithmetic of the transaction is exact.\<close>

lemma ceiling_cases [consumes 5, case_names unchanged recorded]:
  assumes "record_within_settlement_ceiling i pay n s = (out, s')"
    and "links_ok s" and "0 \<le> n" and "int4_ok n" and "sum_for_settlement i s \<le> 2147483647"
  obtains (unchanged) "s' = s" "\<And>m. out \<noteq> LinkRecorded m"
  | (recorded) p where "find_settlement i s = Some p" "seStatus p = SeAwaitingPayment"
      "pay \<notin> slPayment ` set (settlementPayments s)"
      "sum_for_settlement i s + n \<le> stAmount (seTerms p)" "out = LinkRecorded (sum_for_settlement i s + n)"
      "s' = s\<lparr>settlementPayments := settlementPayments s @ [\<lparr>slProposal = i, slPayment = pay, slAmount = n\<rparr>]\<rparr>"
proof (cases "\<exists>m. out = LinkRecorded m")
  case True
  then obtain p where p: "find_settlement i s = Some p" "seStatus p = SeAwaitingPayment"
      "pay \<notin> slPayment ` set (settlementPayments s)"
      "js_add (js_int (sum_for_settlement i s)) n \<le> stAmount (seTerms p)"
      "out = LinkRecorded (js_add (js_int (sum_for_settlement i s)) n)"
      "s' = s\<lparr>settlementPayments := settlementPayments s @ [\<lparr>slProposal = i, slPayment = pay, slAmount = n\<rparr>]\<rparr>"
    using assms(1) by (auto simp: record_within_settlement_ceiling_def Let_def list_ex_iff
        split: option.splits if_splits)
  have b: "0 \<le> sum_for_settlement i s" "sum_for_settlement i s \<le> 2147483647" "n \<le> 2147483647"
    using sum_links_nonneg [OF assms(2)] assms(4,5) by (auto simp: int4_ok_def)
  then have "js_int (sum_for_settlement i s) = sum_for_settlement i s"
    "js_add (sum_for_settlement i s) n = sum_for_settlement i s + n"
    using assms(3) by (simp_all add: js_add_def js_int_exact)
  then show thesis using recorded [OF p(1-3)] p(4-6) by simp
next
  case False
  then show thesis
    using unchanged assms(1) by (auto simp: record_within_settlement_ceiling_def Let_def
        split: option.splits if_splits)
qed

section \<open>Never more than the amount\<close>

text \<open>
  The transactions of any number of requests, for a settlement \<open>i\<close>. Other statements may do whatever
  they like to the settlement and to the rest of the database, as long as its amount never goes above
  \<open>n\<close> (2147483647 is a bound that its column gives) and they do not write links.
\<close>

inductive link_step :: "uuid \<Rightarrow> int \<Rightarrow> db \<Rightarrow> db \<Rightarrow> bool" for i n where
  links: "0 \<le> k \<Longrightarrow> int4_ok k \<Longrightarrow> link_step i n s (snd (record_within_settlement_ceiling j pay k s))"
| others: "settlementPayments s' = settlementPayments s \<Longrightarrow>
    (\<And>p. find_settlement i s' = Some p \<Longrightarrow> stAmount (seTerms p) \<le> n) \<Longrightarrow> link_step i n s s'"

definition collected_ok :: "uuid \<Rightarrow> int \<Rightarrow> db \<Rightarrow> bool" where
  "collected_ok i n s \<longleftrightarrow> links_ok s \<and> sum_for_settlement i s \<le> n \<and>
     (\<forall>p. find_settlement i s = Some p \<longrightarrow> stAmount (seTerms p) \<le> n)"

lemma links_appended:
  "sum_for_settlement i (s\<lparr>settlementPayments := settlementPayments s @ [\<lparr>slProposal = j, slPayment = pay, slAmount = k\<rparr>]\<rparr>) =
   sum_for_settlement i s + (if j = i then k else 0)"
  by (simp add: sum_for_settlement_def)

lemma link_shape:
  "snd (record_within_settlement_ceiling j pay k s) = s \<or>
   (pay \<notin> slPayment ` set (settlementPayments s) \<and> snd (record_within_settlement_ceiling j pay k s) =
     s\<lparr>settlementPayments := settlementPayments s @ [\<lparr>slProposal = j, slPayment = pay, slAmount = k\<rparr>]\<rparr>)"
  by (auto simp: record_within_settlement_ceiling_def Let_def list_ex_iff split: option.split)

lemma link_step_collected:
  assumes "link_step i n s s'" and "int4_ok n" and "collected_ok i n s"
  shows "collected_ok i n s'"
  using assms
proof (induction rule: link_step.induct)
  case (links k s j pay)
  have keep: "links_ok (snd (record_within_settlement_ceiling j pay k s))"
    using link_shape [of j pay k s] links by (auto simp: collected_ok_def links_ok_def)
  have same: "settlements (snd (record_within_settlement_ceiling j pay k s)) = settlements s"
    using link_shape [of j pay k s] by auto
  show ?case
  proof (cases "j = i")
    case False
    then show ?thesis using link_shape [of j pay k s] links keep same links_appended [of i s j pay k]
      by (auto simp: collected_ok_def)
  next
    case True
    obtain out s' where r: "record_within_settlement_ceiling i pay k s = (out, s')" by fastforce
    have ok: "links_ok s" "sum_for_settlement i s \<le> n" "sum_for_settlement i s \<le> 2147483647"
      using links by (auto simp: collected_ok_def int4_ok_def)
    from r ok(1) links(1,2) ok(3) have "sum_for_settlement i s' \<le> n"
    proof (cases rule: ceiling_cases)
      case (recorded p)
      then show ?thesis using links links_appended [of i s i pay k] by (auto simp: collected_ok_def)
    qed (use ok in simp)
    then show ?thesis using True r keep same links by (simp add: collected_ok_def)
  qed
next
  case (others s s')
  then show ?case by (auto simp: collected_ok_def links_ok_def sum_for_settlement_def)
qed

text \<open>
  C18. A settlement never collects more than its amount: whatever requests link payments to it or to
  others, transaction by transaction and in any order, and whatever other statements change in
  between, the amount of the settlement itself included, a payment is linked only while the settlement
  awaits payment, and with it the payments linked sum to at most the amount the settlement has at that
  moment; so they never sum to more than the largest amount it has had. No payment is linked twice, to
  this or to any other settlement.
\<close>

theorem settlement_never_overcollected:
  assumes "(link_step i n)\<^sup>*\<^sup>* s s'" and "find_settlement i s = Some p" and "stAmount (seTerms p) \<le> n"
    and "int4_ok n" and "0 \<le> n" and "settlementPayments s = []"
  shows "sum_list (map slAmount (links_of i s')) \<le> n \<and> distinct (map slPayment (settlementPayments s')) \<and>
    (\<forall>pay k m. 0 \<le> k \<and> int4_ok k \<and> fst (record_within_settlement_ceiling i pay k s') = LinkRecorded m \<longrightarrow>
      (\<exists>q. find_settlement i s' = Some q \<and> seStatus q = SeAwaitingPayment \<and>
         m = sum_list (map slAmount (links_of i s')) + k \<and> m \<le> stAmount (seTerms q)))"
proof -
  have "collected_ok i n s"
    using assms(2,3,5,6) by (simp add: collected_ok_def links_ok_def sum_for_settlement_def)
  with assms(1) have ok: "collected_ok i n s'"
    by (induction rule: rtranclp_induct) (auto intro: link_step_collected assms(4))
  have "\<exists>q. find_settlement i s' = Some q \<and> seStatus q = SeAwaitingPayment \<and>
      m = sum_for_settlement i s' + k \<and> m \<le> stAmount (seTerms q)"
    if k: "0 \<le> k" "int4_ok k" "fst (record_within_settlement_ceiling i pay k s') = LinkRecorded m" for pay k m
  proof -
    obtain s2 where r: "record_within_settlement_ceiling i pay k s' = (LinkRecorded m, s2)"
      using k(3) by (metis prod.collapse)
    have b: "links_ok s'" "sum_for_settlement i s' \<le> 2147483647"
      using ok assms(4) by (auto simp: collected_ok_def int4_ok_def)
    from r b(1) k(1,2) b(2) show ?thesis by (cases rule: ceiling_cases) auto
  qed
  then show ?thesis using ok by (auto simp: collected_ok_def links_ok_def sum_links)
qed

definition sample_settlement :: "settlement_status \<Rightarrow> settlement_row" where
  "sample_settlement st = \<lparr>seId = 5, seAgreement = 1, seStatus = st, seRole = Creditor,
     seBy = (PersonalProfile, 102), seTerms = \<lparr>stBalance = 100, stAmount = 60, stForgiven = 40,
       stDeadline = ''2026-03-31'', stMode = Scheduled, stConsequence = RestoreOriginal, stStated = None\<rparr>,
     seRejectedReason = None, seRejectedAt = None, seAcceptedAt = Some 7, seCompletedAt = None, seResolved = None,
     seRestored = None, seForgiven = None, seResolvedAt = None, seUpdatedAt = 7\<rparr>"

definition settlement_start :: db where
  "settlement_start = empty_db\<lparr>settlements := [sample_settlement SeAwaitingPayment]\<rparr>"

text \<open>Two payments of 40 each race for a settlement of 60: the second is refused.\<close>

theorem settlement_never_overcollected_witness:
  "sum_list (map slAmount (links_of 5 (snd (record_within_settlement_ceiling 5 8 40
     (snd (record_within_settlement_ceiling 5 7 40 settlement_start)))))) \<le> 60 \<and>
   fst (record_within_settlement_ceiling 5 8 40 (snd (record_within_settlement_ceiling 5 7 40 settlement_start))) =
     LinkWouldExceed 40"
proof
  let ?s1 = "snd (record_within_settlement_ceiling 5 7 40 settlement_start)"
  have "link_step 5 60 settlement_start ?s1" and "link_step 5 60 ?s1 (snd (record_within_settlement_ceiling 5 8 40 ?s1))"
    by (rule links; simp add: int4_ok_def)+
  then have "(link_step 5 60)\<^sup>*\<^sup>* settlement_start (snd (record_within_settlement_ceiling 5 8 40 ?s1))"
    by (meson converse_rtranclp_into_rtranclp r_into_rtranclp)
  then show "sum_list (map slAmount (links_of 5 (snd (record_within_settlement_ceiling 5 8 40 ?s1)))) \<le> 60"
    using settlement_never_overcollected [of 5 60 settlement_start _ "sample_settlement SeAwaitingPayment"]
    by (simp add: settlement_start_def sample_settlement_def empty_db_def int4_ok_def)
  show "fst (record_within_settlement_ceiling 5 8 40 ?s1) = LinkWouldExceed 40"
    by (simp add: record_within_settlement_ceiling_def settlement_start_def sample_settlement_def empty_db_def
        sum_for_settlement_def js_add_def js_int_exact Let_def)
qed

section \<open>The automaton of a settlement\<close>

inductive settlement_moves :: "settlement_row \<Rightarrow> settlement_row \<Rightarrow> bool" where
  settlement_countered: "seStatus p = SeProposed \<Longrightarrow> r \<noteq> seRole p \<Longrightarrow>
    settlement_moves p (p\<lparr>seRole := r, seBy := b, seTerms := st, seUpdatedAt := t\<rparr>)"
| settlement_accepted: "seStatus p = SeProposed \<Longrightarrow>
    settlement_moves p (p\<lparr>seStatus := SeAwaitingPayment, seAcceptedAt := Some t, seUpdatedAt := t\<rparr>)"
| settlement_rejected: "seStatus p = SeProposed \<Longrightarrow>
    settlement_moves p (p\<lparr>seStatus := SeRejected, seRejectedReason := why, seRejectedAt := Some t, seUpdatedAt := t\<rparr>)"
| settlement_completed: "seStatus p = SeAwaitingPayment \<Longrightarrow>
    settlement_moves p (p\<lparr>seStatus := SeCompleted, seCompletedAt := Some t, seUpdatedAt := t\<rparr>)"
| settlement_lapsed: "seStatus p = SeAwaitingPayment \<Longrightarrow> settlement_moves p (p\<lparr>seStatus := SeConsequenceApplied,
    seResolved := Some c, seRestored := restored, seForgiven := forgiven, seResolvedAt := Some t, seUpdatedAt := t\<rparr>)"

definition fresh_settlement :: "settlement_row \<Rightarrow> bool" where
  "fresh_settlement p \<longleftrightarrow> seStatus p = SeProposed"

lemma settlement_moves_id: "settlement_moves p p' \<Longrightarrow> seId p' = seId p"
  by (induction rule: settlement_moves.induct) simp_all

definition payments_stay :: "db \<Rightarrow> db \<Rightarrow> bool" where
  "payments_stay s s' \<longleftrightarrow> payments s' = payments s \<and> nextId s \<le> nextId s'"

interpretation paying: state_preorder payments_stay
  by unfold_locales (auto simp: payments_stay_def)

interpretation sm: lifecycle payments_stay settlements seId settlement_moves fresh_settlement
    "\<lambda>xs s. s\<lparr>settlements := xs\<rparr>" "\<lambda>E p. p\<lparr>seUpdatedAt := clock E\<rparr>" update_settlement
  by unfold_locales (auto simp: settlement_moves_id payments_stay_def update_settlement_def split: option.split)

abbreviation settlement_tends :: "db \<Rightarrow> db \<Rightarrow> bool" where
  "settlement_tends \<equiv> tending settlements seId settlement_moves fresh_settlement payments_stay"

text \<open>What is collected in each state; the amounts of payments are positive and fit their column.\<close>

definition row_settled :: "db \<Rightarrow> settlement_row \<Rightarrow> bool" where
  "row_settled s p \<longleftrightarrow> int4_ok (stAmount (seTerms p)) \<and> 0 < stAmount (seTerms p) \<and> sum_for_settlement (seId p) s \<le> stAmount (seTerms p) \<and>
     (seStatus p \<in> {SeProposed, SeRejected} \<longrightarrow> links_of (seId p) s = []) \<and>
     (seStatus p = SeCompleted \<longrightarrow> sum_for_settlement (seId p) s = stAmount (seTerms p)) \<and>
     (seStatus p = SeConsequenceApplied \<longrightarrow> sum_for_settlement (seId p) s < stAmount (seTerms p))"

definition payments_fit :: "db \<Rightarrow> bool" where
  "payments_fit s \<longleftrightarrow> list_all (\<lambda>x. 0 \<le> paAmount x \<and> int4_ok (paAmount x)) (payments s)"

definition settled_ok :: "db \<Rightarrow> bool" where
  "settled_ok s \<longleftrightarrow> keyed settlements seId s \<and> links_ok s \<and> list_all (row_settled s) (settlements s) \<and>
     slProposal ` set (settlementPayments s) \<subseteq> seId ` set (settlements s) \<and> payments_fit s"

definition grows :: "db \<Rightarrow> db \<Rightarrow> bool" where
  "grows s s' \<longleftrightarrow> settlement_tends s s' \<and> (settled_ok s \<longrightarrow> settled_ok s')"

definition known :: "db \<Rightarrow> uuid \<Rightarrow> settlement_row \<Rightarrow> db \<Rightarrow> bool" where
  "known s0 i p s \<longleftrightarrow> grows s0 s \<and> find_settlement i s = Some p"

interpretation growing: state_preorder grows
  by unfold_locales (auto simp: grows_def intro: sm.tending_trans)

lemma row_settled_cong:
  "settlementPayments s' = settlementPayments s \<Longrightarrow> row_settled s' p = row_settled s p"
  by (simp add: row_settled_def links_of_def sum_for_settlement_def)

lemma settled_ok_cong:
  assumes "settlements s' = settlements s" and "settlementPayments s' = settlementPayments s"
    and "nextId s \<le> nextId s'" and "payments s' = payments s" and "settled_ok s"
  shows "settled_ok s'"
  using assms row_settled_cong [OF assms(2)]
  by (auto simp: settled_ok_def keyed_def links_ok_def payments_fit_def list_all_iff intro: order_less_le_trans)

lemma grows_audit: "grows s s' \<Longrightarrow> grows s (audit E p s')"
  by (auto simp: grows_def sm.tending_audit intro: settled_ok_cong [of "audit E p s'" s'])

lemma known_audit: "known s0 i p s \<Longrightarrow> known s0 i p (audit E q s)"
  by (simp add: known_def grows_audit)

lemma settled_ok_update:
  assumes "settled_ok s" and "find_settlement i s = Some p" and "row_settled s (f p)" and "\<And>x. seId (f x) = seId x"
  shows "settled_ok (s\<lparr>settlements := update_by seId i f (settlements s)\<rparr>)"
proof -
  have "x = p" if "x \<in> set (settlements s)" "seId x = i" for x
    using lookup_by_distinct [of seId "settlements s", OF _ that(1)] that(2) assms(1,2) by (simp add: settled_ok_def keyed_def)
  then have "list_all (row_settled s) (update_by seId i f (settlements s))"
    using assms(1,3) by (intro list_all_update_by) (auto simp: settled_ok_def)
  moreover have "map seId (update_by seId i f (settlements s)) = map seId (settlements s)"
    by (rule map_key_update_by) (rule assms(4))
  moreover have "list_all (\<lambda>x. seId x < nextId s) (update_by seId i f (settlements s))"
    using assms(1,4) by (intro list_all_update_by) (auto simp: settled_ok_def keyed_def)
  moreover have "seId ` set (update_by seId i f (settlements s)) = seId ` set (settlements s)"
    using calculation(2) by (metis list.set_map)
  ultimately show ?thesis
    using assms(1) row_settled_cong [of "s\<lparr>settlements := update_by seId i f (settlements s)\<rparr>" s]
    by (simp add: settled_ok_def keyed_def links_ok_def payments_fit_def list_all_iff)
qed

text \<open>\<open>B\<close>: what is known of the amount collected; \<open>G\<close>: of other rows.\<close>

lemma leaves_settlement_beside:
  assumes "settlement_moves p ((f p)\<lparr>seUpdatedAt := clock E\<rparr>)" and "\<And>x. seId (f x) = seId x"
    and "\<And>s. settled_ok s \<Longrightarrow> row_settled s p \<Longrightarrow> B s \<Longrightarrow> row_settled s ((f p)\<lparr>seUpdatedAt := clock E\<rparr>)"
    and "\<And>s. G s \<Longrightarrow> G (s\<lparr>settlements := update_by seId i (\<lambda>p. (f p)\<lparr>seUpdatedAt := clock E\<rparr>) (settlements s)\<rparr>)"
    and "leaves (\<lambda>s. known s0 i ((f p)\<lparr>seUpdatedAt := clock E\<rparr>) s \<and> G s) (g ((f p)\<lparr>seUpdatedAt := clock E\<rparr>)) Q X"
  shows "leaves (\<lambda>s. known s0 i p s \<and> (settled_ok s0 \<longrightarrow> B s) \<and> G s) (andThen (update_settlement E i op f) g) Q X"
proof (rule sm.leaves_upd_to)
  let ?f = "\<lambda>p. (f p)\<lparr>seUpdatedAt := clock E\<rparr>"
  fix s assume s: "known s0 i p s \<and> (settled_ok s0 \<longrightarrow> B s) \<and> G s"
  then show p: "find_settlement i s = Some p" by (simp add: known_def)
  have "settled_ok s0 \<Longrightarrow> settled_ok (s\<lparr>settlements := update_by seId i ?f (settlements s)\<rparr>)"
    using s p assms(3) [of s] lookup_by_Some_mem [OF p]
    by (intro settled_ok_update) (auto simp: known_def grows_def settled_ok_def list_all_iff assms(2))
  moreover have "stands settlements seId settlement_tends s0 i (?f p) (s\<lparr>settlements := update_by seId i ?f (settlements s)\<rparr>)"
    by (rule sm.tending_upd [OF _ assms(1,2)]) (use s in \<open>simp add: stands_def known_def grows_def\<close>)
  ultimately show "known s0 i (?f p) (s\<lparr>settlements := update_by seId i ?f (settlements s)\<rparr>) \<and>
      G (s\<lparr>settlements := update_by seId i ?f (settlements s)\<rparr>)"
    using s assms(4) by (simp add: known_def grows_def stands_def)
qed (rule assms(5))

lemma leaves_settlement_plain:
  assumes "settlement_moves p ((f p)\<lparr>seUpdatedAt := clock E\<rparr>)" and "\<And>x. seId (f x) = seId x"
    and "\<And>s. settled_ok s \<Longrightarrow> row_settled s p \<Longrightarrow> row_settled s ((f p)\<lparr>seUpdatedAt := clock E\<rparr>)"
    and "leaves (known s0 i ((f p)\<lparr>seUpdatedAt := clock E\<rparr>)) (g ((f p)\<lparr>seUpdatedAt := clock E\<rparr>)) Q X"
  shows "leaves (known s0 i p) (andThen (update_settlement E i op f) g) Q X"
  by (rule leaves_weaken [OF leaves_settlement_beside [where B = "\<lambda>_. True" and G = "\<lambda>_. True" and Q = Q and X = X]])
    (use assms in auto)

lemma leaves_settlement_audit:
  assumes "\<And>s q. P s \<Longrightarrow> P (audit E q s)" and "\<And>x. leaves P (f x) Q X"
  shows "leaves P (andThen (settlement_audit E p actor act v) f) Q X"
  unfolding settlement_audit_def using assms by (rule leaves_audited)

lemma known_grows: "known s0 i p s \<Longrightarrow> grows s0 s"
  by (simp add: known_def)

lemma known_ret: "leaves (known s0 i p) (ret x) (\<lambda>_. grows s0) X"
  by (rule leaves_ret) (rule known_grows)

lemma starts_known:
  assumes "leaves (known s0 i p) n Q X" and "\<And>s. P s \<Longrightarrow> s = s0 \<and> require_proposal i s = Inr p"
  shows "leaves P n Q X"
  by (rule leaves_weaken [OF assms(1)])
    (auto simp: known_def require_proposal_def growing.stays dest!: assms(2) split: option.splits)

lemma leaves_if_creditor:
  "leaves P (andThen m f) Q X \<Longrightarrow> leaves P (f ()) Q X \<Longrightarrow> leaves P (andThen (if_creditor role m) f) Q X"
  by (auto simp: if_creditor_def leaves_def andThen_def)

lemma leaves_step_up:
  "(\<And>s. P s \<Longrightarrow> X s) \<Longrightarrow> leaves P (f ()) Q X \<Longrightarrow> leaves P (andThen (require_creditor_step_up D user k) f) Q X"
  by (cases k) (auto simp: require_creditor_step_up_def leaves_def andThen_def)

lemma leaves_nested: "leaves P (andThen m (\<lambda>x. andThen (g x) f)) Q X \<Longrightarrow> leaves P (andThen (andThen m g) f) Q X"
  by (auto simp: leaves_def andThen_def split: prod.splits sum.splits)

lemma valid_amount: "validate_terms t = Inr () \<Longrightarrow> 0 < stAmount t"
  by (auto simp: validate_terms_def split: if_splits)

lemma insert_settlement_grows:
  assumes "0 < stAmount t"
  shows "leaves (\<lambda>s. s = s0) (insert_settlement E ag (settlement_of role a t)) (\<lambda>_. grows s0) (grows s0)"
proof (cases "settlement_columns_ok t")
  case True
  let ?p = "\<lparr>seId = nextId s0, seAgreement = ag, seStatus = SeProposed, seRole = role, seBy = party_of role a,
      seTerms = t, seRejectedReason = None, seRejectedAt = None, seAcceptedAt = None,
      seCompletedAt = None, seResolved = None, seRestored = None, seForgiven = None, seResolvedAt = None,
      seUpdatedAt = clock E\<rparr>"
  let ?s = "s0\<lparr>settlements := settlements s0 @ [?p], nextId := Suc (nextId s0)\<rparr>"
  have "settled_ok ?s" if ok: "settled_ok s0"
  proof -
    have none: "links_of (nextId s0) s0 = []"
      using ok by (fastforce simp: settled_ok_def keyed_def links_of_def list_all_iff filter_empty_conv)
    then have "row_settled s0 ?p"
      using True assms by (simp add: row_settled_def sum_links settlement_columns_ok_def)
    then show ?thesis using ok row_settled_cong [of ?s s0]
      by (auto simp: settled_ok_def keyed_def links_ok_def payments_fit_def list_all_iff intro: less_SucI)
  qed
  moreover have "settlement_tends s0 ?s"
    unfolding tending_def by (auto simp: payments_stay_def fresh_settlement_def intro: sm.evolves_insert)
  ultimately show ?thesis
    using True by (simp add: leaves_def insert_settlement_def settlement_of_def Let_def grows_def)
next
  case False
  then show ?thesis by (simp add: leaves_def insert_settlement_def settlement_of_def growing.stays)
qed

lemma grows_propose: "leaves (\<lambda>s. s = s0) (propose_settlement D E ag user k t) (\<lambda>_. grows s0) (grows s0)"
  unfolding propose_settlement_def
  by (intro leaves_glance leaves_raised)
    (auto simp: growing.stays grows_audit valid_amount
      intro!: leaves_if_creditor leaves_nested leaves_step_up leaves_glance leaves_then [OF insert_settlement_grows]
        leaves_settlement_audit leaves_ret)

lemma unlinked_row: "row_settled s p \<Longrightarrow> seStatus p = SeProposed \<Longrightarrow> sum_for_settlement (seId p) s = 0"
  by (simp add: row_settled_def sum_links)

lemma grows_decide: "leaves (\<lambda>s. s = s0) (decide_settlement D E i user k d) (\<lambda>_. grows s0) (grows s0)"
proof -
  have counter: "leaves (known s0 i p) (andThen (update_settlement_content E i (settlement_of role a t)) f) (\<lambda>_. grows s0) (grows s0)"
    if "seStatus p = SeProposed" "role \<noteq> seRole p" "0 < stAmount t"
      "\<And>u. leaves (known s0 i (p\<lparr>seRole := role, seBy := party_of role a, seTerms := t, seUpdatedAt := clock E\<rparr>)) (f u) (\<lambda>_. grows s0) (grows s0)"
    for p role a t and f :: "settlement_row \<Rightarrow> (db, error, settlement_row) step"
  proof (cases "settlement_columns_ok t")
    case True
    then have u: "update_settlement_content E i (settlement_of role a t) = update_settlement E i
        ''settlement_proposal updateProposedContent'' (\<lambda>p. p\<lparr>seRole := role, seBy := party_of role a, seTerms := t\<rparr>)"
      by (simp add: update_settlement_content_def settlement_of_def)
    have row: "row_settled s (p\<lparr>seRole := role, seBy := party_of role a, seTerms := t, seUpdatedAt := clock E\<rparr>)"
      if "row_settled s p" for s
      using that True \<open>0 < stAmount t\<close> \<open>seStatus p = SeProposed\<close> unlinked_row [OF that]
      by (simp add: row_settled_def settlement_columns_ok_def)
    show ?thesis unfolding u
      by (rule leaves_settlement_plain) (use that row in \<open>auto intro: settlement_countered\<close>)
  next
    case False
    then show ?thesis
      by (auto simp: update_settlement_content_def settlement_of_def leaves_def andThen_def known_grows)
  qed
  have open_row: "row_settled s (p\<lparr>seStatus := SeAwaitingPayment, seAcceptedAt := x, seUpdatedAt := t\<rparr>)"
    "row_settled s (p\<lparr>seStatus := SeRejected, seRejectedReason := y, seRejectedAt := x, seUpdatedAt := t\<rparr>)"
    if "row_settled s p" "seStatus p = SeProposed" for s p x y t
    using that by (simp_all add: row_settled_def)
  show ?thesis unfolding decide_settlement_def record_accepted_def record_settlement_rejection_def
    by (rule leaves_read, simp add: growing.stays, rule starts_known, rule leaves_guard, erule known_grows)
      (auto simp: valid_amount known_grows known_audit open_row split: settlement_decision.split option.split
        intro!: leaves_glance leaves_guard leaves_if_creditor leaves_step_up leaves_settlement_plain leaves_settlement_audit
          known_ret leaves_throw leaves_raised counter settlement_accepted settlement_rejected)
qed

lemma link_recorded:
  assumes "record_within_settlement_ceiling i pay (paAmount x) s = (LinkRecorded c, s')"
    and "find_settlement i s = Some p" and "find_payment pay s = Some x"
  shows "known s i p s' \<and> (settled_ok s \<longrightarrow> sum_for_settlement i s' = c \<and> c \<le> stAmount (seTerms p)) \<and>
    agreements s' = agreements s \<and> (\<exists>l. settlementPayments s' = settlementPayments s @ [l] \<and> slPayment l = pay \<and>
      slProposal l = i \<and> slAmount l = paAmount x) \<and> pay \<notin> slPayment ` set (settlementPayments s)"
proof -
  let ?l = "\<lparr>slProposal = i, slPayment = pay, slAmount = paAmount x\<rparr>"
  have s': "s' = s\<lparr>settlementPayments := settlementPayments s @ [?l]\<rparr>" "pay \<notin> slPayment ` set (settlementPayments s)"
    using assms(1) by (auto simp: record_within_settlement_ceiling_def Let_def list_ex_iff split: option.splits if_splits)
  have p: "p \<in> set (settlements s)" "seId p = i"
    using assms(2) by (auto dest: lookup_by_Some_mem lookup_by_Some_key)
  have "settled_ok s' \<and> sum_for_settlement i s' = c \<and> c \<le> stAmount (seTerms p)" if ok: "settled_ok s"
  proof -
    have row: "row_settled s p" and l: "links_ok s" and n: "0 \<le> paAmount x" "int4_ok (paAmount x)"
      using ok p lookup_by_Some_mem [OF assms(3)] by (auto simp: settled_ok_def payments_fit_def list_all_iff)
    have b: "sum_for_settlement i s \<le> 2147483647"
      using row p(2) by (auto simp: row_settled_def int4_ok_def)
    obtain c': "c = sum_for_settlement i s + paAmount x" "c \<le> stAmount (seTerms p)" "seStatus p = SeAwaitingPayment"
      using assms(1) l n b
    proof (cases rule: ceiling_cases)
      case (recorded q)
      then show ?thesis using that assms(2) by simp
    qed (use that in blast)
    have sums: "sum_for_settlement j s' = sum_for_settlement j s + (if i = j then paAmount x else 0)"
      "links_of j s' = links_of j s @ (if i = j then [?l] else [])" for j
      by (simp_all add: s' links_appended links_of_def)
    have "row_settled s' q" if q: "q \<in> set (settlements s)" for q
    proof (cases "seId q = i")
      case True
      then have "q = p" using lookup_by_distinct [of seId "settlements s" q] q ok assms(2)
        by (simp add: settled_ok_def keyed_def)
      then show ?thesis using row c' sums p(2) by (simp add: row_settled_def)
    next
      case False
      then show ?thesis using ok q sums by (auto simp: settled_ok_def list_all_iff row_settled_def)
    qed
    then have "list_all (row_settled s') (settlements s')" by (simp add: s' list_all_iff)
    moreover have "slProposal ` set (settlementPayments s') \<subseteq> seId ` set (settlements s')"
      using ok p by (auto simp: s' settled_ok_def)
    ultimately show ?thesis using ok s'(2) n c' sums
      by (auto simp: s' settled_ok_def keyed_def links_ok_def payments_fit_def)
  qed
  moreover have "settlement_tends s s'" by (rule sm.tending_same) (simp_all add: s' payments_stay_def)
  ultimately show ?thesis using assms(2) s' by (auto simp: known_def grows_def)
qed

lemma completing:
  assumes "seStatus p = SeAwaitingPayment" and "seId p = i"
    and "\<And>s f. G s \<Longrightarrow> (\<And>x. seId (f x) = seId x) \<Longrightarrow> G (s\<lparr>settlements := update_by seId i f (settlements s)\<rparr>)"
    and "\<And>s st. G s \<Longrightarrow> G (set_agreement_status (seAgreement p) st s)" and "\<And>s q. G s \<Longrightarrow> G (audit E q s)"
  shows "leaves (\<lambda>s. known s0 i p s \<and> (settled_ok s0 \<longrightarrow> sum_for_settlement i s = stAmount (seTerms p)) \<and> G s)
     (complete_settlement E p actor c) (\<lambda>_ s. grows s0 s \<and> G s) (grows s0)"
proof -
  have "grows s (set_agreement_status ag st s)" for s ag st
    using settled_ok_cong [of "set_agreement_status ag st s" s]
    by (auto simp: grows_def payments_stay_def set_agreement_status_def intro: sm.tending_same)
  then have st: "grows s0 s \<Longrightarrow> grows s0 (set_agreement_status ag st s)" for s ag st
    by (blast intro: growing.chains)
  show ?thesis unfolding complete_settlement_def record_completed_def assms(2)
    by (rule leaves_settlement_beside)
      (use assms in \<open>auto simp: row_settled_def known_grows st grows_audit
        intro!: settlement_completed leaves_settlement_audit leaves_ret
          leaves_update_then [where P' = "\<lambda>s. grows s0 s \<and> G s"]\<close>)
qed

lemma grows_record: "leaves (\<lambda>s. s = s0) (record_settlement_payment D E i pay user) (\<lambda>_. grows s0) (grows s0)"
  unfolding record_settlement_payment_def
proof (intro leaves_read leaves_guard)
  fix p :: settlement_row and role :: party_role and x :: payment_row and a :: agreement_row
  assume st: "seStatus p = SeAwaitingPayment"
  let ?P = "\<lambda>s. (((s = s0 \<and> require_proposal i s = Inr p) \<and> resolve_party_role (sdParty D) (seAgreement p) user s = Inr role) \<and>
     require_settlement_payment p pay s = Inr x) \<and> get_agreement (sdParty D) (seAgreement p) user s = Inr a"
  let ?Q = "\<lambda>c s. known s0 i p s \<and> (settled_ok s0 \<longrightarrow> sum_for_settlement i s = c \<and> c \<le> stAmount (seTerms p))"
  let ?link = "\<lambda>s. case record_within_settlement_ceiling i pay (paAmount x) s of
         (LinkRecorded c, s') \<Rightarrow> (Inr c, s')
       | (LinkAlreadyThere, s') \<Rightarrow> (Inl (ValidationError ''AlreadyRecorded''), s')
       | (LinkNotAwaiting, s') \<Rightarrow> (Inl (ValidationError ''NoLongerAwaiting''), s')
       | (LinkWouldExceed _, s') \<Rightarrow> (Inl (ValidationError ''Overpayment''), s')"
  let ?after = "\<lambda>c.
     andThen (settlement_audit E p (Some user) ''settlement_payment_recorded''
       (JObj [(''paymentAttemptId'', json_uuid pay), (''amountMinorUnits'', JNum (paAmount x))])) (\<lambda>_.
     if c < stAmount (seTerms p) then (\<lambda>s. (require_proposal i s, s)) else complete_settlement E p (Some user) c)"
  have link: "leaves ?P ?link ?Q (grows s0)"
    unfolding leaves_def
  proof (intro allI impI)
    fix s assume P: "?P s"
    then have f: "find_settlement i s0 = Some p" "find_payment pay s0 = Some x" "s = s0"
      by (auto simp: require_proposal_def require_settlement_payment_def split: option.splits if_splits)
    obtain out s' where r: "record_within_settlement_ceiling i pay (paAmount x) s0 = (out, s')" by fastforce
    have same: "s' = s0" if "\<And>c. out \<noteq> LinkRecorded c"
      using r that by (auto simp: record_within_settlement_ceiling_def Let_def split: option.splits if_splits)
    show "case ?link s of (Inl e, s') \<Rightarrow> grows s0 s' | (Inr c, s') \<Rightarrow> ?Q c s'"
      using r f(3) link_recorded [OF _ f(1,2)] same growing.stays by (cases out) auto
  qed
  have i: "seId p = i" if "require_proposal i s = Inr p" for s
    using that by (auto simp: require_proposal_def dest: lookup_by_Some_key split: option.splits)
  show "leaves ?P (andThen (case settlement_payment_checks p a x of None \<Rightarrow> ret () | Some e \<Rightarrow> throw e) (\<lambda>_.
     andThen ?link ?after))
     (\<lambda>_. grows s0) (grows s0)"
  proof (rule leaves_facts [of ?P "seId p = i"], blast intro: i, rule leaves_then [where Q = "\<lambda>_. ?P"])
    show "leaves ?P (case settlement_payment_checks p a x of None \<Rightarrow> ret () | Some e \<Rightarrow> throw e) (\<lambda>_. ?P) (grows s0)"
      by (auto simp: leaves_def growing.stays split: option.split)
    assume i: "seId p = i"
    show "leaves ?P (andThen ?link ?after)
     (\<lambda>_. grows s0) (grows s0)"
    proof (rule leaves_then [OF link], rule leaves_settlement_audit)
      fix c s q assume "?Q c s"
      then show "?Q c (audit E q s)" by (simp add: known_audit sum_for_settlement_def)
    next
      fix c
      have "leaves (?Q c) (complete_settlement E p (Some user) c) (\<lambda>_. grows s0) (grows s0)" if "stAmount (seTerms p) \<le> c"
        by (rule leaves_weaken [OF completing [OF st i, where G = "\<lambda>_. True"]]) (use that in auto)
      then show "leaves (?Q c) (if c < stAmount (seTerms p) then (\<lambda>s. (require_proposal i s, s))
          else complete_settlement E p (Some user) c) (\<lambda>_. grows s0) (grows s0)"
        by (auto simp: leaves_def known_grows split: sum.split)
    qed
  qed
qed (auto simp: growing.stays)

text \<open>The job: the proposals it has read are still there, each when its turn comes.\<close>

definition waiting :: "settlement_row list \<Rightarrow> db \<Rightarrow> bool" where
  "waiting ps s \<longleftrightarrow> distinct (map seId ps) \<and>
     list_all (\<lambda>p. find_settlement (seId p) s = Some p \<and> seStatus p = SeAwaitingPayment) ps"

lemma waiting_update:
  assumes "waiting ps s" and "i \<notin> seId ` set ps" and "\<And>x. seId (f x) = seId x"
  shows "waiting ps (s\<lparr>settlements := update_by seId i f (settlements s)\<rparr>)"
proof -
  have "find_settlement (seId p) (s\<lparr>settlements := update_by seId i f (settlements s)\<rparr>) = find_settlement (seId p) s"
    if "p \<in> set ps" for p
    using that assms(2) lookup_update_other [of seId i f "seId p" "settlements s"] assms(3) by auto
  then show ?thesis using assms(1) by (auto simp: waiting_def list_all_iff)
qed

lemma grows_expire_one:
  assumes "seStatus p = SeAwaitingPayment" and "seId p \<notin> seId ` set ps"
  shows "leaves (\<lambda>s. known s0 (seId p) p s \<and> waiting ps s) (expire_settlement E p) (\<lambda>_ s. grows s0 s \<and> waiting ps s) (grows s0)"
proof -
  have read: "leaves P (andThen (asks h) f) Q X" if "\<And>c. leaves (\<lambda>s. P s \<and> h s = c) (f c) Q X"
    for P Q X and h :: "db \<Rightarrow> int" and f :: "int \<Rightarrow> (db, error, unit) step"
    using that by (auto simp: leaves_def)
  have row: "int4_ok (stAmount (seTerms p)) \<and> js_int (sum_for_settlement (seId p) s) = sum_for_settlement (seId p) s \<and>
      sum_for_settlement (seId p) s \<le> stAmount (seTerms p)" if "known s0 (seId p) p s" "settled_ok s0" for s
  proof -
    have ok: "settled_ok s" using that by (simp add: known_def grows_def)
    have "row_settled s p"
      using ok lookup_by_Some_mem [of seId "seId p" "settlements s" p] that(1) by (simp add: settled_ok_def known_def list_all_iff)
    moreover have "0 \<le> sum_for_settlement (seId p) s" using ok by (intro sum_links_nonneg) (simp add: settled_ok_def)
    ultimately show ?thesis by (simp add: row_settled_def int4_ok_def js_int_exact)
  qed
  have ids: "waiting ps s \<Longrightarrow> (\<And>x. seId (f x) = seId x) \<Longrightarrow> waiting ps (s\<lparr>settlements := update_by seId (seId p) f (settlements s)\<rparr>)"
    for s f by (rule waiting_update [OF _ assms(2)])
  have lapse: "leaves (\<lambda>s. known s0 (seId p) p s \<and> (settled_ok s0 \<longrightarrow> sum_for_settlement (seId p) s < stAmount (seTerms p)) \<and> waiting ps s)
      (andThen (record_failure_consequence E (seId p) res) (\<lambda>u. settlement_audit E u None act (v u)))
      (\<lambda>_ s. grows s0 s \<and> waiting ps s) (grows s0)" for res act v
    unfolding record_failure_consequence_def
    by (rule leaves_settlement_beside, cases res)
      (use assms(1) ids in \<open>auto simp: row_settled_def settlement_audit_def known_grows grows_audit waiting_def list_all_iff
        split: prod.split intro!: leaves_update settlement_lapsed\<close>)
  have complete: "leaves (\<lambda>s. known s0 (seId p) p s \<and> (settled_ok s0 \<longrightarrow> sum_for_settlement (seId p) s = stAmount (seTerms p)) \<and> waiting ps s)
      (andThen (complete_settlement E p None c) (\<lambda>_. ret ())) (\<lambda>_ s. grows s0 s \<and> waiting ps s) (grows s0)" for c
    by (rule leaves_then [OF completing [OF assms(1) refl]])
      (use ids in \<open>auto simp: waiting_def list_all_iff set_agreement_status_def intro: leaves_ret\<close>)
  show ?thesis unfolding expire_settlement_def
    by (rule read) (auto simp: Let_def intro!: leaves_weaken [OF lapse] leaves_weaken [OF complete] dest: row)
qed

lemma grows_expire_all:
  "leaves (\<lambda>s. grows s0 s \<and> waiting ps s) (expire_settlements E ps) (\<lambda>_. grows s0) (grows s0)"
proof (induction ps)
  case Nil
  show ?case unfolding expire_settlements.simps by (rule leaves_ret) simp
next
  case (Cons p ps)
  have one: "leaves (\<lambda>s. grows s0 s \<and> waiting (p # ps) s) (expire_settlement E p) (\<lambda>_ s. grows s0 s \<and> waiting ps s) (grows s0)"
  proof (cases "seStatus p = SeAwaitingPayment \<and> seId p \<notin> seId ` set ps")
    case True
    then show ?thesis
      by (intro leaves_weaken [OF grows_expire_one]) (auto simp: known_def waiting_def)
  qed (auto simp: leaves_def waiting_def)
  show ?case unfolding expire_settlements.simps by (rule leaves_then [OF one Cons.IH])
qed

lemma due_waiting: "keyed settlements seId s \<Longrightarrow> waiting (awaiting_past_deadline t s) s"
  by (auto simp: waiting_def awaiting_past_deadline_def keyed_def distinct_map_filter list_all_iff intro: lookup_by_distinct)

datatype settlement_request =
    ProposeSettlement uuid "string option" settlement_terms
  | DecideSettlement uuid "string option" settlement_decision
  | RecordSettlementPayment uuid uuid
  | ExpireSettlements

fun perform_settlement :: "settlement_deps \<Rightarrow> env \<Rightarrow> uuid \<Rightarrow> settlement_request \<Rightarrow> (db, error, unit) step" where
  "perform_settlement D E user (ProposeSettlement ag k t) = andThen (propose_settlement D E ag user k t) (\<lambda>_. ret ())"
| "perform_settlement D E user (DecideSettlement i k d) = andThen (decide_settlement D E i user k d) (\<lambda>_. ret ())"
| "perform_settlement D E user (RecordSettlementPayment i pay) =
     andThen (record_settlement_payment D E i pay user) (\<lambda>_. ret ())"
| "perform_settlement D E user ExpireSettlements = andThen (expire_overdue_settlements E) (\<lambda>_. ret ())"

lemma grows_perform:
  assumes "settled_ok s"
  shows "grows s (snd (perform_settlement D E user q s))"
proof -
  have unit: "snd (andThen m (\<lambda>_. ret ()) s) = snd (m s)" for m :: "(db, error, 'a) step"
    by (simp add: andThen_def split: prod.split sum.split)
  have end_state: "grows s (snd (m s))" if "leaves (\<lambda>x. x = s) m (\<lambda>_. grows s) (grows s)" for m :: "(db, error, 'a) step"
    using that by (auto simp: leaves_def split: prod.splits sum.splits)
  have expire: "leaves (\<lambda>x. x = s) (expire_overdue_settlements E) (\<lambda>_. grows s) (grows s)"
    using leavesD [OF grows_expire_all, of s s "awaiting_past_deadline (clock E) s" E] assms
    by (auto simp: leaves_def expire_overdue_settlements_def andThen_def settled_ok_def due_waiting growing.stays
        split: prod.split sum.splits)
  show ?thesis
    by (cases q) (simp_all add: unit end_state grows_propose grows_decide grows_record expire)
qed

text \<open>
  What linking a payment does: a recorded payment had succeeded, was bound to this settlement when it was
  created, belongs to the settlement's agreement, runs from its debtor to its creditor, and was not
  linked before; the total grows by exactly its amount and stays within the settlement's; with the last
  cent, and only then, the settlement is completed and the agreement settled in full, otherwise
  neither changes.
\<close>

lemma settlement_payment_exact:
  assumes "settled_ok s" and "record_settlement_payment D E i pay user s = (Inr q, s')"
  shows "\<exists>p x a. find_settlement i s = Some p \<and> seStatus p = SeAwaitingPayment \<and> find_payment pay s = Some x \<and>
    paStatus x = PSucceeded \<and> paSettlement x = Some i \<and> paAgreement x = Some (seAgreement p) \<and>
    find_agreement (seAgreement p) s = Some a \<and> paPayer x = agDebtor a \<and> paRecipient x = agCreditor a \<and>
    (stMode (seTerms p) = OneTime \<longrightarrow> paAmount x = stAmount (seTerms p)) \<and>
    pay \<notin> slPayment ` set (settlementPayments s) \<and>
    sum_for_settlement i s' = sum_for_settlement i s + paAmount x \<and> sum_for_settlement i s' \<le> stAmount (seTerms p) \<and>
    (if sum_for_settlement i s' = stAmount (seTerms p)
     then seStatus q = SeCompleted \<and> agreements s' = agreements (set_agreement_status (seAgreement p) SettledInFull s)
     else q = p \<and> agreements s' = agreements s) \<and> find_settlement i s' = Some q \<and>
    settlementPayments s' = settlementPayments s @ [\<lparr>slProposal = i, slPayment = pay, slAmount = paAmount x\<rparr>]"
proof -
  obtain p x a c s1 where p: "find_settlement i s = Some p" "seStatus p = SeAwaitingPayment"
      "require_settlement_payment p pay s = Inr x" "find_agreement (seAgreement p) s = Some a"
      "settlement_payment_checks p a x = None"
    and link: "record_within_settlement_ceiling i pay (paAmount x) s = (LinkRecorded c, s1)"
    and rest: "andThen (settlement_audit E p (Some user) ''settlement_payment_recorded''
       (JObj [(''paymentAttemptId'', json_uuid pay), (''amountMinorUnits'', JNum (paAmount x))])) (\<lambda>_.
       if c < stAmount (seTerms p) then (\<lambda>s. (require_proposal i s, s))
       else complete_settlement E p (Some user) c) s1 = (Inr q, s')"
    using assms(2) unfolding record_settlement_payment_def andThen_Inr_iff
    by (auto simp: require_proposal_def dest!: get_agreement_row split: option.splits prod.splits ceiling_outcome.splits if_splits)
  have x: "find_payment pay s = Some x" "paStatus x = PSucceeded" "paSettlement x = Some i" "paAgreement x = Some (seAgreement p)"
    using p(3) lookup_by_Some_key [OF p(1)] by (auto simp: require_settlement_payment_def split: option.splits if_splits)
  have i: "seId p = i" using p(1) by (rule lookup_by_Some_key)
  note l = link_recorded [OF link p(1) x(1)]
  have c: "sum_for_settlement i s1 = c" "c \<le> stAmount (seTerms p)" "sum_for_settlement i s1 = sum_for_settlement i s + paAmount x"
    "find_settlement i s1 = Some p" "agreements s1 = agreements s"
    using l assms(1) by (auto simp: known_def sum_for_settlement_def)
  have last: "(if c = stAmount (seTerms p)
     then seStatus q = SeCompleted \<and> agreements s' = agreements (set_agreement_status (seAgreement p) SettledInFull s)
     else q = p \<and> agreements s' = agreements s) \<and> find_settlement i s' = Some q \<and> settlementPayments s' = settlementPayments s1"
  proof (cases "c < stAmount (seTerms p)")
    case True
    then show ?thesis using rest c by (auto simp: andThen_def settlement_audit_def require_proposal_def)
  next
    case False
    then show ?thesis using rest c i
      by (auto simp: andThen_def settlement_audit_def complete_settlement_def record_completed_def update_settlement_def
          set_agreement_status_def lookup_update_same)
  qed
  then have "sum_for_settlement i s' = c" using c(1) by (simp add: sum_for_settlement_def)
  then show ?thesis using p x c last l
    by (intro exI [of _ p] exI [of _ x] exI [of _ a]) (auto simp: settlement_payment_checks_def split: if_splits)
qed

definition settlement_fixed :: "settlement_row \<Rightarrow> settlement_row \<Rightarrow> bool" where
  "settlement_fixed p p' \<longleftrightarrow> seStatus p' \<noteq> SeProposed \<and> seTerms p' = seTerms p \<and> seRole p' = seRole p \<and> seBy p' = seBy p \<and>
     (seStatus p \<noteq> SeAwaitingPayment \<longrightarrow> p' = p)"

lemma settlement_fixed_moves: "settlement_moves p p' \<Longrightarrow> seStatus p \<noteq> SeProposed \<Longrightarrow> settlement_fixed p p'"
  by (induction rule: settlement_moves.induct) (simp_all add: settlement_fixed_def)

lemma settlement_fixed_reached:
  "settlement_moves\<^sup>*\<^sup>* p p' \<Longrightarrow> seStatus p \<noteq> SeProposed \<Longrightarrow> settlement_fixed p p'"
proof (induction rule: rtranclp_induct)
  case base
  then show ?case by (simp add: settlement_fixed_def)
next
  case (step p1 p2)
  then have 1: "settlement_fixed p p1" by simp
  then have "settlement_fixed p1 p2" using step.hyps(2) by (intro settlement_fixed_moves) (simp_all add: settlement_fixed_def)
  then show ?case using 1 unfolding settlement_fixed_def by auto
qed

text \<open>Between requests no settlement that still awaits payment has been paid in full.\<close>

definition short :: "db \<Rightarrow> bool" where
  "short s \<longleftrightarrow> list_all (\<lambda>p. seStatus p = SeAwaitingPayment \<longrightarrow>
     sum_for_settlement (seId p) s < stAmount (seTerms p)) (settlements s)"

lemma record_error:
  assumes "record_settlement_payment D E i pay user s = (Inl e, s')"
  shows "s' = s"
proof -
  have linked: "find_settlement j s2 = find_settlement j s"
    if "record_within_settlement_ceiling i pay k s = (r, s2)" for j k r s2
    using link_shape [of i pay k s] that by auto
  have unlinked: "s2 = s" if "record_within_settlement_ceiling i pay k s = (r, s2)" "\<And>m. r \<noteq> LinkRecorded m" for k r s2
    using that by (auto simp: record_within_settlement_ceiling_def Let_def split: option.splits if_splits)
  show ?thesis
  proof (cases "find_settlement i s")
    case None
    then show ?thesis using assms by (simp add: record_settlement_payment_def andThen_def require_proposal_def)
  next
    case (Some p)
    then have "seId p = i" by (rule lookup_by_Some_key)
    then show ?thesis using assms Some linked unlinked
      by (auto simp: record_settlement_payment_def andThen_def require_proposal_def guard_def settlement_audit_def
          complete_settlement_def record_completed_def update_settlement_def
          split: sum.splits prod.splits option.splits if_splits ceiling_outcome.splits)
  qed
qed

text \<open>The other operations write no links.\<close>

definition keeps_links :: "(db, error, 'a) step \<Rightarrow> bool" where
  "keeps_links m \<longleftrightarrow> (\<forall>s. settlementPayments (snd (m s)) = settlementPayments s)"

lemma keeps_links_then: "keeps_links m \<Longrightarrow> (\<And>x. keeps_links (f x)) \<Longrightarrow> keeps_links (andThen m f)"
  by (auto simp: keeps_links_def andThen_def split: prod.splits sum.splits) (metis snd_conv)+

lemma keeps_links_basic:
  "keeps_links (\<lambda>s. (g s, s))" "keeps_links (raised r)" "keeps_links (guard b e)" "keeps_links (ret x)"
  "keeps_links (throw e)" "keeps_links (asks h)" "keeps_links (update_settlement E i op f)"
  "keeps_links (settlement_audit E p actor act v)" "keeps_links (insert_settlement E ag c)"
  "keeps_links (update (set_agreement_status ag st))"
  by (auto simp: keeps_links_def raised_def guard_def update_settlement_def settlement_audit_def insert_settlement_def
      Let_def set_agreement_status_def split: sum.split option.split)

lemmas keeps_links_rules = keeps_links_then keeps_links_basic

lemma keeps_links_if_creditor: "keeps_links m \<Longrightarrow> keeps_links (if_creditor role m)"
  by (simp add: if_creditor_def keeps_links_rules)

lemma keeps_links_step_up: "keeps_links (require_creditor_step_up D user k)"
  by (auto simp: require_creditor_step_up_def keeps_links_rules split: option.split)

lemma links_same_propose: "keeps_links (propose_settlement D E ag user k t)"
  unfolding propose_settlement_def
  by (intro keeps_links_rules keeps_links_if_creditor keeps_links_step_up)

lemma links_same_decide: "keeps_links (decide_settlement D E i user k d)"
  unfolding decide_settlement_def record_accepted_def record_settlement_rejection_def update_settlement_content_def
  by (auto split: settlement_decision.split option.split
      intro!: keeps_links_rules keeps_links_if_creditor keeps_links_step_up)

lemma links_same_expire: "keeps_links (expire_overdue_settlements E)"
proof -
  have "keeps_links (expire_settlement E p)" for p
    unfolding expire_settlement_def complete_settlement_def record_completed_def record_failure_consequence_def Let_def
    by (auto intro!: keeps_links_rules)
  then have "keeps_links (expire_settlements E ps)" for ps
    by (induction ps) (auto intro: keeps_links_rules)
  then show ?thesis unfolding expire_overdue_settlements_def by (intro keeps_links_rules)
qed

lemma unknown_unlinked: "settled_ok s \<Longrightarrow> i \<notin> seId ` set (settlements s) \<Longrightarrow> sum_for_settlement i s = 0"
  by (fastforce simp: settled_ok_def sum_for_settlement_def intro: sum_list_zero)

text \<open>A row after a request: new, decided on just now, or awaiting payment under the same terms before.\<close>

lemma awaiting_before:
  assumes "settled_ok s" and "grows s s'" and "p' \<in> set (settlements s')" and "seStatus p' = SeAwaitingPayment"
  obtains (idle) "sum_for_settlement (seId p') s = 0" "0 < stAmount (seTerms p')"
  | (before) p where "find_settlement (seId p') s = Some p" "seStatus p = SeAwaitingPayment" "seTerms p = seTerms p'"
proof -
  have ok: "settled_ok s'" and ev: "evolves settlements seId settlement_moves fresh_settlement s s'"
    using assms(1,2) by (simp_all add: grows_def tending_def)
  have pos: "0 < stAmount (seTerms p')" using ok assms(3) by (simp add: settled_ok_def list_all_iff row_settled_def)
  show thesis
  proof (cases "find_settlement (seId p') s")
    case None
    then have "seId p' \<notin> seId ` set (settlements s)" by (auto simp: lookup_by_None_iff)
    then show thesis using idle unknown_unlinked [OF assms(1)] pos by blast
  next
    case (Some p)
    have k: "keyed settlements seId s" using assms(1) by (simp add: settled_ok_def)
    obtain r where r: "find_settlement (seId p') s' = Some r" "settlement_moves\<^sup>*\<^sup>* p r"
      using sm.row_carried [OF ev k Some] by blast
    have "find_settlement (seId p') s' = Some p'"
      using lookup_by_distinct [of seId "settlements s'" p'] ok assms(3) by (simp add: settled_ok_def keyed_def)
    then have m: "settlement_moves\<^sup>*\<^sup>* p p'" using r by simp
    show thesis
    proof (cases "seStatus p = SeProposed")
      case True
      have "row_settled s p" "seId p = seId p'"
        using assms(1) Some by (auto simp: settled_ok_def list_all_iff dest: lookup_by_Some_mem lookup_by_Some_key)
      then show thesis using idle pos unlinked_row [of s p] True by simp
    next
      case False
      then have "settlement_fixed p p'" by (rule settlement_fixed_reached [OF m])
      then show thesis using before [OF Some] assms(4) by (auto simp: settlement_fixed_def)
    qed
  qed
qed

lemma short_unlinked:
  assumes "settled_ok s" and "short s" and "grows s s'" and "settlementPayments s' = settlementPayments s"
  shows "short s'"
proof -
  have same: "sum_for_settlement i s' = sum_for_settlement i s" for i by (simp add: sum_for_settlement_def assms(4))
  have "sum_for_settlement (seId p') s' < stAmount (seTerms p')"
    if p': "p' \<in> set (settlements s')" "seStatus p' = SeAwaitingPayment" for p'
    using assms(1,3) p'
  proof (cases rule: awaiting_before)
    case idle
    then show ?thesis by (simp add: same)
  next
    case (before p)
    then show ?thesis using assms(2) lookup_by_Some_mem [OF before(1)] lookup_by_Some_key [OF before(1)]
      by (auto simp: same short_def list_all_iff)
  qed
  then show ?thesis by (auto simp: short_def list_all_iff)
qed

lemma short_linked:
  assumes "settled_ok s" and "short s" and "grows s s'" and "record_settlement_payment D E i pay user s = (Inr q, s')"
  shows "short s'"
proof -
  obtain p and x :: payment_row where e: "find_settlement i s = Some p" "find_settlement i s' = Some q"
      "sum_for_settlement i s' \<le> stAmount (seTerms p)"
      "sum_for_settlement i s' = stAmount (seTerms p) \<longrightarrow> seStatus q = SeCompleted"
      "sum_for_settlement i s' \<noteq> stAmount (seTerms p) \<longrightarrow> q = p"
      "settlementPayments s' = settlementPayments s @ [\<lparr>slProposal = i, slPayment = pay, slAmount = paAmount x\<rparr>]"
    using settlement_payment_exact [OF assms(1,4)]
    by (elim exE conjE) (rule that, assumption, assumption, auto)
  have "sum_for_settlement (seId p') s' < stAmount (seTerms p')"
    if p': "p' \<in> set (settlements s')" "seStatus p' = SeAwaitingPayment" for p'
  proof (cases "seId p' = i")
    case True
    have "settled_ok s'" using assms(1,3) by (simp add: grows_def)
    then have "q = p'" using lookup_by_distinct [of seId "settlements s'" p'] p'(1) e(2) True
      by (simp add: settled_ok_def keyed_def)
    then show ?thesis using e(3-5) p'(2) True by (cases "sum_for_settlement i s' = stAmount (seTerms p)") auto
  next
    case False
    then have same: "sum_for_settlement (seId p') s' = sum_for_settlement (seId p') s"
      by (simp add: sum_for_settlement_def e(6))
    from assms(1,3) p' show ?thesis
    proof (cases rule: awaiting_before)
      case (before r)
      then show ?thesis using assms(2) lookup_by_Some_mem [OF before(1)] lookup_by_Some_key [OF before(1)]
        by (auto simp: same short_def list_all_iff)
    qed (simp add: same)
  qed
  then show ?thesis by (auto simp: short_def list_all_iff)
qed

lemma short_perform:
  assumes "settled_ok s" and "short s"
  shows "short (snd (perform_settlement D E user q s))"
proof (cases "\<exists>i pay. q = RecordSettlementPayment i pay")
  case True
  then obtain i pay where q: "q = RecordSettlementPayment i pay" by blast
  obtain r s' where r: "record_settlement_payment D E i pay user s = (r, s')" by fastforce
  have g: "grows s (snd (perform_settlement D E user q s))" by (rule grows_perform [OF assms(1)])
  have s': "snd (perform_settlement D E user q s) = s'" by (simp add: q r andThen_def split: sum.split)
  show ?thesis
  proof (cases r)
    case (Inl e)
    then show ?thesis using record_error r s' assms(2) by metis
  next
    case (Inr x)
    then show ?thesis using short_linked [OF assms _ r [unfolded Inr]] g s' by simp
  qed
next
  case False
  have "keeps_links (perform_settlement D E user q)"
    using False by (cases q) (auto intro!: keeps_links_rules links_same_propose links_same_decide links_same_expire)
  then show ?thesis using short_unlinked [OF assms grows_perform [OF assms(1)]] by (simp add: keeps_links_def)
qed

text \<open>
  Requests, and between them anything that leaves settlements and links alone; payments keep amounts
  that are positive and fit their column.
\<close>

inductive settlement_life :: "settlement_deps \<Rightarrow> db \<Rightarrow> db \<Rightarrow> bool" for D where
  request: "settlement_life D s (snd (perform_settlement D E user q s))"
| elsewhere: "settlements s' = settlements s \<Longrightarrow> settlementPayments s' = settlementPayments s \<Longrightarrow>
    nextId s \<le> nextId s' \<Longrightarrow> payments_fit s' \<Longrightarrow> settlement_life D s s'"

definition settlement_evolves :: "db \<Rightarrow> db \<Rightarrow> bool" where
  "settlement_evolves s s' \<longleftrightarrow> settled_ok s \<longrightarrow> settled_ok s' \<and> evolves settlements seId settlement_moves fresh_settlement s s'"

lemma settlement_life_evolves: "(settlement_life D)\<^sup>*\<^sup>* s s' \<Longrightarrow> settlement_evolves s s'"
proof (induction rule: rtranclp_induct)
  case base
  then show ?case by (simp add: settlement_evolves_def sm.evolves_same)
next
  case (step s1 s2)
  from step.hyps(2) have "settled_ok s1 \<longrightarrow> settled_ok s2 \<and> evolves settlements seId settlement_moves fresh_settlement s1 s2"
  proof cases
    case (request E user q)
    then show ?thesis using grows_perform [of s1 D E user q] by (auto simp: grows_def tending_def)
  next
    case elsewhere
    then show ?thesis using row_settled_cong [of s2 s1]
      by (auto simp: settled_ok_def keyed_def links_ok_def list_all_iff sm.evolves_same intro: order_less_le_trans)
  qed
  then show ?case using step.IH by (auto simp: settlement_evolves_def intro: sm.evolves_trans)
qed

lemma settled_from_start:
  assumes "(settlement_life D)\<^sup>*\<^sup>* s0 s" and "settlements s0 = []" and "settlementPayments s0 = []" and "payments_fit s0"
  shows "settled_ok s" and "evolves settlements seId settlement_moves fresh_settlement s0 s"
proof -
  have "settled_ok s0" using assms(2-4) by (simp add: settled_ok_def keyed_def links_ok_def)
  then show "settled_ok s" "evolves settlements seId settlement_moves fresh_settlement s0 s"
    using settlement_life_evolves [OF assms(1)] by (simp_all add: settlement_evolves_def)
qed

lemma short_from_start:
  assumes "(settlement_life D)\<^sup>*\<^sup>* s0 s" and "settlements s0 = []" and "settlementPayments s0 = []" and "payments_fit s0"
  shows "short s"
  using assms(1)
proof (induction rule: rtranclp_induct)
  case base
  then show ?case by (simp add: short_def assms(2))
next
  case (step s1 s2)
  have ok: "settled_ok s1" by (rule settled_from_start [OF step.hyps(1) assms(2-4)])
  from step.hyps(2) show ?case
  proof cases
    case request
    then show ?thesis using short_perform ok step.IH by blast
  next
    case elsewhere
    then show ?thesis using step.IH by (simp add: short_def sum_for_settlement_def)
  qed
qed

text \<open>An agreement with a payment bound to the settlement that is about to be proposed.\<close>

definition settlement_deps_sample :: settlement_deps where
  "settlement_deps_sample = \<lparr>sdParty = sample_parties, sdStepUp = (\<lambda>_ _. True)\<rparr>"

definition settlement_base :: db where
  "settlement_base = empty_db\<lparr>agreements := [sample_agreement FirstPaymentPending], versions := [sample_version],
     payments := [(sample_payment 7 PSucceeded 60)\<lparr>paSettlement := Some 5\<rparr>], nextId := 5\<rparr>"

definition settlement_proposed :: db where
  "settlement_proposed = snd (perform_settlement settlement_deps_sample toy_env 101
     (ProposeSettlement 1 None (seTerms (sample_settlement SeProposed))) settlement_base)"

definition settlement_agreed :: db where
  "settlement_agreed = snd (perform_settlement settlement_deps_sample toy_env 102
     (DecideSettlement 5 (Some ''k'') AcceptSettlement) settlement_proposed)"

lemma sample_settlement_terms: "validate_terms (seTerms (sample_settlement st)) = Inr () \<and>
    settlement_columns_ok (seTerms (sample_settlement st))"
  by (simp add: sample_settlement_def) code_simp

lemma settlement_agreed_eq:
  "\<exists>p. settlements settlement_agreed = [p] \<and> seId p = 5 \<and> seStatus p = SeAwaitingPayment \<and> seAgreement p = 1 \<and>
     seTerms p = seTerms (sample_settlement SeProposed)"
  "settlementPayments settlement_agreed = []" "agreements settlement_agreed = agreements settlement_base"
  "versions settlement_agreed = versions settlement_base" "payments settlement_agreed = payments settlement_base"
  "nextId settlement_agreed = 6"
  using sample_settlement_terms
  by (simp_all add: settlement_agreed_def settlement_proposed_def settlement_base_def settlement_deps_sample_def
      sample_parties_def propose_settlement_def decide_settlement_def andThen_def resolve_party_role_def require_agreement_def
      authorize_either_party_def authorize_party_def sample_agreement_def sample_version_def get_agreement_def
      require_current_version_def require_version_def if_creditor_def insert_settlement_def settlement_of_def Let_def
      settlement_audit_def audit_def require_proposal_def require_creditor_capability_def require_creditor_step_up_def
      record_accepted_def update_settlement_def empty_db_def party_of_def)

lemma settlement_agreed_life: "(settlement_life settlement_deps_sample)\<^sup>*\<^sup>* settlement_base settlement_agreed"
proof -
  have "settlement_life settlement_deps_sample settlement_base settlement_proposed"
    "settlement_life settlement_deps_sample settlement_proposed settlement_agreed"
    unfolding settlement_agreed_def settlement_proposed_def by (rule request)+
  then show ?thesis by (meson converse_rtranclp_into_rtranclp r_into_rtranclp)
qed

lemma settlement_base_empty: "settlements settlement_base = []" "settlementPayments settlement_base = []" "payments_fit settlement_base"
  by (simp_all add: settlement_base_def empty_db_def payments_fit_def sample_payment_def int4_ok_def)

text \<open>
  C19. A settlement is completed exactly when it is paid: after any requests of any users on settlements, with
  anything else of the program in between, a settlement is completed if and only if it has collected
  its amount to the cent; one that awaits payment or whose consequence has been applied has collected
  less, and one that was never accepted nothing; once accepted its terms, and once it has ended the whole row,
  do not change any more. Each request is taken as a whole here; transactions of several requests interleaved
  are the subject of settlement_never_overcollected.
\<close>

theorem settlement_settles_exactly:
  assumes "(settlement_life D)\<^sup>*\<^sup>* s0 s" and "settlements s0 = []" and "settlementPayments s0 = []" and "payments_fit s0"
    and "(settlement_life D)\<^sup>*\<^sup>* s s'" and "find_settlement i s = Some p"
  shows "(seStatus p = SeCompleted \<longleftrightarrow> sum_for_settlement i s = stAmount (seTerms p)) \<and>
    (seStatus p \<in> {SeAwaitingPayment, SeConsequenceApplied} \<longrightarrow> sum_for_settlement i s < stAmount (seTerms p)) \<and>
    (seStatus p \<in> {SeProposed, SeRejected} \<longrightarrow> links_of i s = []) \<and>
    (\<exists>p'. find_settlement i s' = Some p' \<and> (seStatus p \<noteq> SeProposed \<longrightarrow> settlement_fixed p p'))"
proof -
  note ok = settled_from_start [OF assms(1-4)]
  have p: "p \<in> set (settlements s)" "seId p = i"
    using assms(6) by (auto dest: lookup_by_Some_mem lookup_by_Some_key)
  then have row: "row_settled s p" using ok(1) by (simp add: settled_ok_def list_all_iff)
  have "evolves settlements seId settlement_moves fresh_settlement s s'"
    using settlement_life_evolves [OF assms(5)] ok(1) by (simp add: settlement_evolves_def)
  moreover have "keyed settlements seId s" using ok(1) by (simp add: settled_ok_def)
  ultimately obtain p' where "find_settlement i s' = Some p'" "settlement_moves\<^sup>*\<^sup>* p p'"
    using sm.row_carried [OF _ _ assms(6)] by blast
  moreover have "seStatus p = SeAwaitingPayment \<longrightarrow> sum_for_settlement i s < stAmount (seTerms p)"
    using short_from_start [OF assms(1-4)] p by (auto simp: short_def list_all_iff)
  ultimately show ?thesis using row p(2) settlement_fixed_reached
    by (cases "seStatus p") (auto simp: row_settled_def sum_links)
qed

theorem settlement_settles_exactly_witness:
  "\<exists>p p'. find_settlement 5 settlement_agreed = Some p \<and>
     find_settlement 5 (snd (perform_settlement settlement_deps_sample toy_env 101 (RecordSettlementPayment 5 7) settlement_agreed)) = Some p' \<and>
     settlement_fixed p p'"
proof -
  obtain p where p: "find_settlement 5 settlement_agreed = Some p" "seStatus p = SeAwaitingPayment"
    using settlement_agreed_eq(1) by auto
  let ?s = "snd (perform_settlement settlement_deps_sample toy_env 101 (RecordSettlementPayment 5 7) settlement_agreed)"
  have "(settlement_life settlement_deps_sample)\<^sup>*\<^sup>* settlement_agreed ?s" by (rule r_into_rtranclp) (rule request)
  from settlement_settles_exactly [OF settlement_agreed_life settlement_base_empty this p(1)] show ?thesis using p by auto
qed

theorem settlement_payment_exact_witness:
  "\<exists>q s'. record_settlement_payment settlement_deps_sample toy_env 5 7 101 settlement_agreed = (Inr q, s') \<and>
     seStatus q = SeCompleted \<and> sum_for_settlement 5 s' = 60"
proof -
  have ok: "settled_ok settlement_agreed" by (rule settled_from_start [OF settlement_agreed_life settlement_base_empty])
  obtain p where p: "settlements settlement_agreed = [p]" "seId p = 5" "seStatus p = SeAwaitingPayment" "seAgreement p = 1"
      "seTerms p = seTerms (sample_settlement SeProposed)"
    using settlement_agreed_eq(1) by auto
  obtain q s' where r: "record_settlement_payment settlement_deps_sample toy_env 5 7 101 settlement_agreed = (Inr q, s')"
    using p settlement_agreed_eq
    by (simp add: record_settlement_payment_def require_proposal_def andThen_def settlement_deps_sample_def sample_parties_def
        resolve_party_role_def require_agreement_def authorize_either_party_def authorize_party_def settlement_base_def
        sample_agreement_def sample_version_def get_agreement_def require_current_version_def require_version_def
        require_settlement_payment_def sample_payment_def settlement_payment_checks_def sample_settlement_def
        record_within_settlement_ceiling_def sum_for_settlement_def js_add_def js_int_exact Let_def settlement_audit_def
        complete_settlement_def record_completed_def update_settlement_def)
  from settlement_payment_exact [OF ok r] show ?thesis
    using p r settlement_agreed_eq(2,5) by (auto simp: settlement_base_def sample_payment_def sample_settlement_def sum_for_settlement_def)
qed

section \<open>The stale counterproposal\<close>

text \<open>The creditor accepts and counters at the same time; both requests read the proposal as proposed.\<close>

definition race_env :: env where
  "race_env = \<lparr>sha256 = (\<lambda>_. ''h''), auditSecret = ''k'', clock = 0\<rparr>"

definition race_proposed :: db where
  "race_proposed = snd (perform_settlement settlement_deps_sample race_env 101
     (ProposeSettlement 1 None (seTerms (sample_settlement SeProposed))) settlement_base)"

definition race_paid :: db where
  "race_paid = snd (perform_settlement settlement_deps_sample race_env 101 (RecordSettlementPayment 5 7)
     (snd (perform_settlement settlement_deps_sample race_env 102
       (DecideSettlement 5 (Some ''k'') AcceptSettlement) race_proposed)))"

text \<open>The creditor's terms, and the last statement of the counterproposal, which writes them.\<close>

definition race_terms :: settlement_terms where
  "race_terms = (seTerms (sample_settlement SeProposed))\<lparr>stAmount := 50, stForgiven := 50\<rparr>"

definition race_countered :: "(error + settlement_row) \<times> db" where
  "race_countered = update_settlement_content race_env 5
     \<lparr>scRole = Creditor, scBy = (PersonalProfile, 102), scTerms = race_terms\<rparr> race_paid"

lemma race_read:
  "isl (fst (decide_settlement settlement_deps_sample race_env 5 102 (Some ''k'') (CounterSettlement (Some race_terms)) race_proposed)) = False"
  by code_simp

lemma race_end:
  "map (\<lambda>p. (seStatus p, stAmount (seTerms p))) (settlements race_paid) = [(SeCompleted, 60)] \<and>
   map (\<lambda>p. (seStatus p, stAmount (seTerms p))) (settlements (snd race_countered)) = [(SeCompleted, 50)] \<and>
   sum_for_settlement 5 (snd race_countered) = 60"
  by code_simp

lemma race_alone:
  "map (\<lambda>p. (seRole p, seStatus p, seTerms p)) (settlements (snd (decide_settlement settlement_deps_sample race_env 5 102
     (Some ''k'') (CounterSettlement (Some race_terms)) race_proposed))) =
   map (\<lambda>p. (seRole p, seStatus p, seTerms p)) (settlements (snd (update_settlement_content race_env 5
     \<lparr>scRole = Creditor, scBy = (PersonalProfile, 102), scTerms = race_terms\<rparr> race_proposed)))"
  by code_simp

lemma race_refused:
  "isl (fst (decide_settlement settlement_deps_sample race_env 5 102 (Some ''k'') (CounterSettlement (Some race_terms)) race_paid))"
  by code_simp


end
