(* ===== verification/Evidence.thy ===== *)
theory Evidence
  imports Agreements
begin

text \<open>
  Evidence attached to an agreement (\<open>evidence/evidenceService.ts\<close>), the check of an uploaded file
  (\<open>evidence/fileValidator.ts\<close>) and the witnesses of an agreement (\<open>evidence/witnessService.ts\<close>). The
  bytes of a file are characters; the private storage, the profiles and the verification of users
  are parameters.
\<close>

section \<open>Checking a file\<close>

record uploaded_file =
  ufName :: string
  ufType :: string
  ufContent :: string

definition max_evidence_bytes :: nat where
  "max_evidence_bytes = 25 * 1024 * 1024"

definition allowed_evidence_types :: "string \<Rightarrow> string list option" where
  "allowed_evidence_types = map_of
     [(''.pdf'', [''application/pdf'']), (''.png'', [''image/png'']), (''.jpg'', [''image/jpeg'']),
      (''.jpeg'', [''image/jpeg'']), (''.heic'', [''image/heic'']), (''.doc'', [''application/msword'']),
      (''.docx'', [''application/vnd.openxmlformats-officedocument.wordprocessingml.document'']),
      (''.xls'', [''application/vnd.ms-excel'']),
      (''.xlsx'', [''application/vnd.openxmlformats-officedocument.spreadsheetml.sheet''])]"

definition known_signatures :: "(string \<times> string list) list" where
  "known_signatures =
     [([CHR 0x25, CHR 0x50, CHR 0x44, CHR 0x46], [''.pdf'']),
      ([CHR 0x89, CHR 0x50, CHR 0x4E, CHR 0x47], [''.png'']),
      ([CHR 0xFF, CHR 0xD8, CHR 0xFF], [''.jpg'', ''.jpeg''])]"

definition dangerous_signatures :: "string list" where
  "dangerous_signatures = [[CHR 0x4D, CHR 0x5A], [CHR 0x7F, CHR 0x45, CHR 0x4C, CHR 0x46], [CHR 0x23, CHR 0x21]]"

definition is_digit_or_letter :: "char \<Rightarrow> bool" where
  "is_digit_or_letter c \<longleftrightarrow> (let n = of_char c :: nat in
     48 \<le> n \<and> n \<le> 57 \<or> 65 \<le> n \<and> n \<le> 90 \<or> 97 \<le> n \<and> n \<le> 122)"

definition lower_ascii :: "char \<Rightarrow> char" where
  "lower_ascii c = (let n = of_char c :: nat in if 65 \<le> n \<and> n \<le> 90 then char_of (n + 32) else c)"

definition js_trim :: "string \<Rightarrow> string" where
  "js_trim s = rev (dropWhile is_space (rev (dropWhile is_space s)))"

text \<open>\<open>/\.[a-z0-9]+$/i\<close>: the longest run of letters and digits at the end, if a dot stands before it.\<close>

definition get_extension :: "string \<Rightarrow> string" where
  "get_extension name =
     (let r = rev (js_trim name); tail = takeWhile is_digit_or_letter r in
      case dropWhile is_digit_or_letter r of
        [] \<Rightarrow> []
      | c # _ \<Rightarrow> if c = CHR ''.'' \<and> tail \<noteq> [] then map lower_ascii (CHR ''.'' # rev tail) else [])"

definition starts_with :: "string \<Rightarrow> string \<Rightarrow> bool" where
  "starts_with content p \<longleftrightarrow> length p \<le> length content \<and> list_all (\<lambda>i. content ! i = p ! i) [0..<length p]"

text \<open>The reason of a refusal, \<open>None\<close> when the file is accepted.\<close>

definition validate_file :: "uploaded_file \<Rightarrow> string option" where
  "validate_file f =
     (if ufContent f = [] then Some ''Empty''
      else if max_evidence_bytes < length (ufContent f) then Some ''TooLarge''
      else let ext = get_extension (ufName f) in
      case allowed_evidence_types ext of
        None \<Rightarrow> Some ''FileType''
      | Some types \<Rightarrow>
      (if ufType f \<notin> set types then Some ''TypeMismatch''
       else if list_ex (starts_with (ufContent f)) dangerous_signatures then Some ''Dangerous''
       else case find (\<lambda>(p, _). starts_with (ufContent f) p) known_signatures of
         Some (_, exts) \<Rightarrow> if ext \<in> set exts then None else Some ''ContentMismatch''
       | None \<Rightarrow> None))"

section \<open>Repositories\<close>

definition list_evidence_for :: "uuid \<Rightarrow> db \<Rightarrow> evidence_row list" where
  "list_evidence_for ag s = filter (\<lambda>v. evAgreement v = ag) (evidences s)"

definition insert_evidence :: "(uuid \<Rightarrow> evidence_row) \<Rightarrow> (db, error, evidence_row) step" where
  "insert_evidence f s = (let v = (f (nextId s))\<lparr>evId := nextId s, evDisputeFlag := False, evWithdrawn := False\<rparr>
     in (Inr v, s\<lparr>evidences := evidences s @ [v], nextId := Suc (nextId s)\<rparr>))"

definition update_withdrawal_state :: "uuid \<Rightarrow> bool \<Rightarrow> db \<Rightarrow> db" where
  "update_withdrawal_state i b s = s\<lparr>evidences := update_by evId i (\<lambda>v. v\<lparr>evWithdrawn := b\<rparr>) (evidences s)\<rparr>"

definition update_dispute_flag :: "uuid \<Rightarrow> bool \<Rightarrow> db \<Rightarrow> db" where
  "update_dispute_flag i b s = s\<lparr>evidences := update_by evId i (\<lambda>v. v\<lparr>evDisputeFlag := b\<rparr>) (evidences s)\<rparr>"

definition list_witnesses_for :: "uuid \<Rightarrow> db \<Rightarrow> witness_row list" where
  "list_witnesses_for ag s = filter (\<lambda>w. wiAgreement w = ag) (witnesses s)"

definition find_witness :: "uuid \<Rightarrow> uuid \<Rightarrow> db \<Rightarrow> witness_row option" where
  "find_witness ag user s = find (\<lambda>w. wiAgreement w = ag \<and> wiUser w = user) (witnesses s)"

text \<open>One row for a user and an agreement (the unique index).\<close>

definition insert_witness :: "uuid \<Rightarrow> uuid \<Rightarrow> uuid \<Rightarrow> (db, error, witness_row) step" where
  "insert_witness ag user adder s =
     (if find_witness ag user s \<noteq> None
      then (Inl (ForeignError ''agreement_witness_agreement_user_unique''), s)
      else let w = \<lparr>wiId = nextId s, wiAgreement = ag, wiUser = user, wiAddedBy = adder, wiVersion = None,
             wiAttestedAt = None, wiIp = None, wiDevice = JNull\<rparr>
           in (Inr w, s\<lparr>witnesses := witnesses s @ [w], nextId := Suc (nextId s)\<rparr>))"

definition record_attestation :: "uuid \<Rightarrow> uuid \<Rightarrow> msec \<Rightarrow> request_context \<Rightarrow> db \<Rightarrow> db" where
  "record_attestation i v t ctx s = s\<lparr>witnesses := update_by wiId i
     (\<lambda>w. w\<lparr>wiVersion := Some v, wiAttestedAt := Some t, wiIp := fst ctx, wiDevice := snd ctx\<rparr>) (witnesses s)\<rparr>"

section \<open>Services\<close>

text \<open>
  The storage takes a path, the bytes and their type, and signs a path for a time; \<open>None\<close> is success.
  \<open>vdProfileOf\<close> is the personal profile of a user, \<open>vdVerified\<close> the verification of that profile.
\<close>

record evidence_deps =
  vdParty :: party_deps
  vdUpload :: "string \<Rightarrow> string \<Rightarrow> string \<Rightarrow> error option"
  vdSign :: "string \<Rightarrow> int \<Rightarrow> error + string"
  vdProfileOf :: "uuid \<Rightarrow> uuid option"
  vdVerified :: "uuid \<Rightarrow> bool"

fun evidence_type_name :: "evidence_type \<Rightarrow> string" where
  "evidence_type_name Invoice = ''invoice''"
| "evidence_type_name Receipt = ''receipt''"
| "evidence_type_name Contract = ''contract''"
| "evidence_type_name Estimate = ''estimate''"
| "evidence_type_name PurchaseOrder = ''purchase_order''"
| "evidence_type_name ProofOfDelivery = ''proof_of_delivery''"
| "evidence_type_name ProofOfCompletedWork = ''proof_of_completed_work''"
| "evidence_type_name PriorPaymentRecord = ''prior_payment_record''"
| "evidence_type_name OtherEvidence = ''other''"

definition visibility_name :: "evidence_visibility \<Rightarrow> string" where
  "visibility_name v = (case v of Shared \<Rightarrow> ''shared'' | Private \<Rightarrow> ''private'')"

definition evidence_audit ::
    "env \<Rightarrow> uuid \<Rightarrow> uuid \<Rightarrow> string \<Rightarrow> uuid \<Rightarrow> request_context \<Rightarrow> json \<Rightarrow> (db, error, unit) step" where
  "evidence_audit E user ag act ev ctx v = update (audit E ((blank_audit act (clock E))
     \<lparr>actorUserId := Some user, actorRole := Some ''agreement_party'', auditAgreementId := Some ag,
      ipAddress := fst ctx, deviceInfo := snd ctx, newValue := v, relatedDocumentId := Some ev\<rparr>))"

definition require_evidence :: "uuid \<Rightarrow> db \<Rightarrow> error + evidence_row" where
  "require_evidence i s =
     (case find_evidence i s of None \<Rightarrow> Inl (ValidationError ''EvidenceNotFound'') | Some v \<Rightarrow> Inr v)"

definition try_resolve_party_role :: "party_deps \<Rightarrow> uuid \<Rightarrow> uuid \<Rightarrow> db \<Rightarrow> party_role option" where
  "try_resolve_party_role A ag user s =
     (case resolve_party_role A ag user s of Inl _ \<Rightarrow> None | Inr role \<Rightarrow> Some role)"

record evidence_upload =
  euAgreement :: uuid
  euUser :: uuid
  euType :: evidence_type
  euDescription :: "string option"
  euFile :: uploaded_file
  euVisibility :: evidence_visibility
  euForWitnesses :: bool
  euContext :: request_context

definition safe_file_name :: "string \<Rightarrow> string" where
  "safe_file_name name = map (\<lambda>c. if is_digit_or_letter c \<or> c \<in> set ''._-'' then c else CHR ''_'') name"

definition evidence_path :: "uuid \<Rightarrow> string \<Rightarrow> string \<Rightarrow> string" where
  "evidence_path ag h name = show_int (int ag) @ ''/'' @ h @ ''-'' @ safe_file_name name"

definition evidence_of :: "env \<Rightarrow> evidence_upload \<Rightarrow> bool \<Rightarrow> uuid \<Rightarrow> evidence_row" where
  "evidence_of E u post i = (let h = sha256 E (ufContent (euFile u)) in
     \<lparr>evId = i, evAgreement = euAgreement u, evUploader = euUser u, evType = euType u,
      evDescription = euDescription u, evPath = evidence_path (euAgreement u) h (ufName (euFile u)), evHash = h,
      evSize = int (length (ufContent (euFile u))), evContentType = ufType (euFile u), evPostSigning = post,
      evVisibility = euVisibility u, evForWitnesses = euForWitnesses u, evDisputeFlag = False, evWithdrawn = False\<rparr>)"

definition upload_evidence :: "evidence_deps \<Rightarrow> env \<Rightarrow> evidence_upload \<Rightarrow> (db, error, evidence_row) step" where
  "upload_evidence D E u =
     andThen (\<lambda>s. (get_agreement (vdParty D) (euAgreement u) (euUser u) s, s)) (\<lambda>a.
     andThen (\<lambda>s. (require_current_version a s, s)) (\<lambda>v.
     andThen (case validate_file (euFile u) of None \<Rightarrow> ret () | Some why \<Rightarrow> throw (ValidationError why)) (\<lambda>_.
     andThen (case vdUpload D (evPath (evidence_of E u False 0)) (ufContent (euFile u)) (ufType (euFile u)) of
         None \<Rightarrow> ret () | Some e \<Rightarrow> throw e) (\<lambda>_.
     let post = avSigned v \<noteq> None
     in andThen (insert_evidence (evidence_of E u post)) (\<lambda>r.
        andThen (evidence_audit E (euUser u) (euAgreement u) ''evidence_uploaded'' (evId r) (euContext u)
          (JObj [(''documentType'', JStr (evidence_type_name (euType u))), (''isPostSigning'', JBool post),
             (''visibility'', JStr (visibility_name (euVisibility u)))])) (\<lambda>_. ret r))))))"

definition list_evidence :: "evidence_deps \<Rightarrow> uuid \<Rightarrow> uuid \<Rightarrow> db \<Rightarrow> error + evidence_row list" where
  "list_evidence D ag user s =
     (let items = list_evidence_for ag s in
      case try_resolve_party_role (vdParty D) ag user s of
        Some role \<Rightarrow> Inr (filter (\<lambda>v. evVisibility v = Shared \<or> evUploader v = user) items)
      | None \<Rightarrow>
          if find_witness ag user s \<noteq> None
          then Inr (filter (\<lambda>v. evVisibility v = Shared \<and> evForWitnesses v) items)
          else Inl (ForbiddenError ''NoAccess''))"

definition withdraw_evidence :: "env \<Rightarrow> uuid \<Rightarrow> uuid \<Rightarrow> request_context \<Rightarrow> (db, error, unit) step" where
  "withdraw_evidence E i user ctx =
     andThen (\<lambda>s. (require_evidence i s, s)) (\<lambda>v.
     andThen (guard (evUploader v = user) (ForbiddenError ''NotUploader'')) (\<lambda>_.
     andThen (guard (\<not> evWithdrawn v) (ValidationError ''AlreadyWithdrawn'')) (\<lambda>_.
     andThen (update (update_withdrawal_state i True)) (\<lambda>_.
     evidence_audit E user (evAgreement v) ''evidence_withdrawn'' i ctx JNull))))"

definition set_dispute_flag ::
    "party_deps \<Rightarrow> env \<Rightarrow> uuid \<Rightarrow> uuid \<Rightarrow> bool \<Rightarrow> request_context \<Rightarrow> (db, error, unit) step" where
  "set_dispute_flag A E i user flag ctx =
     andThen (\<lambda>s. (require_evidence i s, s)) (\<lambda>v.
     andThen (asks (try_resolve_party_role A (evAgreement v) user)) (\<lambda>role.
     andThen (guard (role \<noteq> None) (ForbiddenError ''NotAParty'')) (\<lambda>_.
     andThen (guard (\<not> (evVisibility v = Private \<and> evUploader v \<noteq> user)) (ForbiddenError ''NoAccess'')) (\<lambda>_.
     andThen (update (update_dispute_flag i flag)) (\<lambda>_.
     evidence_audit E user (evAgreement v)
       (if flag then ''evidence_dispute_flagged'' else ''evidence_dispute_unflagged'') i ctx JNull)))))"

definition get_signed_evidence_url :: "evidence_deps \<Rightarrow> uuid \<Rightarrow> uuid \<Rightarrow> db \<Rightarrow> error + string" where
  "get_signed_evidence_url D i user s =
     bindE (require_evidence i s) (\<lambda>v.
     bindE (list_evidence D (evAgreement v) user s) (\<lambda>seen.
     if list_ex (\<lambda>x. evId x = i) seen then vdSign D (evPath v) 300 else Inl (ForbiddenError ''NoAccess'')))"

section \<open>Witnesses\<close>

definition max_witnesses :: nat where "max_witnesses = 2"

definition witness_audit ::
    "env \<Rightarrow> uuid \<Rightarrow> uuid \<Rightarrow> string \<Rightarrow> request_context \<Rightarrow> json \<Rightarrow> (db, error, unit) step" where
  "witness_audit E user ag act ctx v = update (audit E ((blank_audit act (clock E))
     \<lparr>actorUserId := Some user, actorRole := Some ''witness'', auditAgreementId := Some ag,
      ipAddress := fst ctx, deviceInfo := snd ctx, newValue := v\<rparr>))"

definition add_witness ::
    "evidence_deps \<Rightarrow> env \<Rightarrow> uuid \<Rightarrow> uuid \<Rightarrow> uuid \<Rightarrow> request_context \<Rightarrow> (db, error, witness_row) step" where
  "add_witness D E ag user w ctx =
     andThen (\<lambda>s. (resolve_party_role (vdParty D) ag user s, s)) (\<lambda>_.
     andThen (guard (w \<noteq> user) (ValidationError ''OwnWitness'')) (\<lambda>_.
     with_agreement ag (\<lambda>a.
     andThen (guard (Some w \<notin> {partyOwner (vdParty D) (agCreditor a), partyOwner (vdParty D) (agDebtor a)})
       (ValidationError ''PartyAsWitness'')) (\<lambda>_.
     andThen (asks (list_witnesses_for ag)) (\<lambda>existing.
     andThen (guard (\<not> list_ex (\<lambda>x. wiUser x = w) existing) (ValidationError ''AlreadyWitness'')) (\<lambda>_.
     andThen (guard (length existing < max_witnesses) (ValidationError ''TooManyWitnesses'')) (\<lambda>_.
     case vdProfileOf D w of
       None \<Rightarrow> throw (ValidationError ''NoPersonalProfile'')
     | Some p \<Rightarrow>
         andThen (guard (vdVerified D p) (ValidationError ''NotVerified'')) (\<lambda>_.
         andThen (insert_witness ag w user) (\<lambda>r.
         andThen (witness_audit E user ag ''witness_added'' ctx (JObj [(''witnessUserId'', json_uuid w)])) (\<lambda>_.
         ret r))))))))))"

definition list_agreement_witnesses :: "evidence_deps \<Rightarrow> uuid \<Rightarrow> uuid \<Rightarrow> db \<Rightarrow> error + witness_row list" where
  "list_agreement_witnesses D ag user s =
     (if find_witness ag user s = None
      then bindE (resolve_party_role (vdParty D) ag user s) (\<lambda>_. Inr (list_witnesses_for ag s))
      else Inr (list_witnesses_for ag s))"

definition attest :: "env \<Rightarrow> uuid \<Rightarrow> uuid \<Rightarrow> request_context \<Rightarrow> (db, error, unit) step" where
  "attest E ag user ctx =
     andThen (asks (find_witness ag user)) (\<lambda>w.
     case w of
       None \<Rightarrow> throw (ForbiddenError ''NotAWitness'')
     | Some row \<Rightarrow>
         andThen (guard (wiVersion row = None) (ValidationError ''AlreadyAttested'')) (\<lambda>_.
         andThen (asks (\<lambda>s. Option.bind (find_agreement ag s) agCurrentVersion)) (\<lambda>current.
         case current of
           None \<Rightarrow> throw (ValidationError ''NoCurrentVersion'')
         | Some v \<Rightarrow>
             andThen (update (record_attestation (wiId row) v (clock E) ctx)) (\<lambda>_.
             witness_audit E user ag ''witness_attested'' ctx (JObj [(''attestedVersionId'', json_uuid v)])))))"

definition get_witness_view ::
    "uuid \<Rightarrow> uuid \<Rightarrow> db \<Rightarrow> error + (agreement_row \<times> version_row \<times> schedule_item list)" where
  "get_witness_view ag user s =
     (if find_witness ag user s = None then Inl (ForbiddenError ''NotAWitness'')
      else bindE (require_agreement ag s) (\<lambda>a.
           bindE (require_current_version a s) (\<lambda>v. Inr (a, v, list_for_version (avId v) s))))"

end
