(* ===== verification/EvidenceLaws.thy ===== *)
theory EvidenceLaws
  imports Evidence "HOL-Library.Sublist"
begin

text \<open>
  What holds of evidence and witnesses (\<open>Evidence\<close>): which files are accepted, who gets to see what, and
  who may witness an agreement.
\<close>

section \<open>Accepted files\<close>

text \<open>The accepted types, said without the regular expression and the order of the checks.\<close>

definition document_types :: "(string \<times> string) list" where
  "document_types =
     [(''pdf'', ''application/pdf''), (''png'', ''image/png''), (''jpg'', ''image/jpeg''), (''jpeg'', ''image/jpeg''),
      (''heic'', ''image/heic''), (''doc'', ''application/msword''),
      (''docx'', ''application/vnd.openxmlformats-officedocument.wordprocessingml.document''),
      (''xls'', ''application/vnd.ms-excel''),
      (''xlsx'', ''application/vnd.openxmlformats-officedocument.spreadsheetml.sheet'')]"

definition ends_with_type :: "string \<Rightarrow> string \<Rightarrow> bool" where
  "ends_with_type name ty \<longleftrightarrow> (\<exists>stem ext. js_trim name = stem @ ''.'' @ ext \<and> list_all is_digit_or_letter ext \<and>
     map lower_ascii ext = ty \<and> ext \<noteq> [])"

definition acceptable_document :: "uploaded_file \<Rightarrow> bool" where
  "acceptable_document f \<longleftrightarrow> ufContent f \<noteq> [] \<and> length (ufContent f) \<le> 26214400 \<and>
     (\<exists>ty. ends_with_type (ufName f) ty \<and> (ty, ufType f) \<in> set document_types \<and>
       (prefix [CHR 0x25, CHR 0x50, CHR 0x44, CHR 0x46] (ufContent f) \<longrightarrow> ty = ''pdf'') \<and>
       (prefix [CHR 0x89, CHR 0x50, CHR 0x4E, CHR 0x47] (ufContent f) \<longrightarrow> ty = ''png'') \<and>
       (prefix [CHR 0xFF, CHR 0xD8, CHR 0xFF] (ufContent f) \<longrightarrow> ty \<in> {''jpg'', ''jpeg''})) \<and>
     \<not> prefix [CHR 0x4D, CHR 0x5A] (ufContent f) \<and> \<not> prefix [CHR 0x7F, CHR 0x45, CHR 0x4C, CHR 0x46] (ufContent f) \<and>
     \<not> prefix [CHR 0x23, CHR 0x21] (ufContent f)"

lemma starts_with_prefix: "starts_with content p \<longleftrightarrow> prefix p content"
proof
  assume "starts_with content p"
  then have "take (length p) content = p"
    by (intro nth_equalityI) (auto simp: starts_with_def list_all_iff)
  then show "prefix p content" by (metis take_is_prefix)
next
  assume "prefix p content"
  then show "starts_with content p" by (auto simp: starts_with_def prefix_def list_all_iff nth_append)
qed

lemma dot_no_letter: "\<not> is_digit_or_letter CHR ''.''"
  by (simp add: is_digit_or_letter_def)

lemma extension_found:
  assumes "js_trim name = stem @ ''.'' @ ext" and "list_all is_digit_or_letter ext" and "ext \<noteq> []"
  shows "get_extension name = map lower_ascii (CHR ''.'' # ext)"
proof -
  have r: "rev (js_trim name) = rev ext @ CHR ''.'' # rev stem" by (simp add: assms(1))
  have all: "\<forall>c\<in>set (rev ext). is_digit_or_letter c" using assms(2) by (simp add: list_all_iff)
  have "takeWhile is_digit_or_letter (rev ext @ CHR ''.'' # rev stem) = rev ext"
    "dropWhile is_digit_or_letter (rev ext @ CHR ''.'' # rev stem) = CHR ''.'' # rev stem"
    using all dot_no_letter by (simp_all add: takeWhile_append dropWhile_append)
  then show ?thesis using assms(3) by (simp add: get_extension_def r Let_def)
qed

lemma extension_source:
  assumes "get_extension name \<noteq> []"
  obtains stem ext where "js_trim name = stem @ ''.'' @ ext" "list_all is_digit_or_letter ext" "ext \<noteq> []"
    "get_extension name = map lower_ascii (CHR ''.'' # ext)"
proof -
  let ?r = "rev (js_trim name)"
  obtain c rest where d: "dropWhile is_digit_or_letter ?r = c # rest" and c: "c = CHR ''.''"
      and t: "takeWhile is_digit_or_letter ?r \<noteq> []"
    using assms by (auto simp: get_extension_def Let_def split: list.splits if_splits)
  have "?r = takeWhile is_digit_or_letter ?r @ c # rest"
    using takeWhile_dropWhile_id [of is_digit_or_letter ?r] d by simp
  then have "js_trim name = rev rest @ ''.'' @ rev (takeWhile is_digit_or_letter ?r)"
    using arg_cong [of ?r _ rev] c by (metis append.assoc append_Cons append_Nil rev.simps(2) rev_append rev_rev_ident)
  moreover have "list_all is_digit_or_letter (rev (takeWhile is_digit_or_letter ?r))"
    by (auto simp: list_all_iff dest: set_takeWhileD)
  ultimately show thesis using that t extension_found by simp
qed

lemma allowed_iff: "(\<exists>types. allowed_evidence_types (CHR ''.'' # ty) = Some types \<and> t \<in> set types) \<longleftrightarrow> (ty, t) \<in> set document_types"
  by (auto simp: allowed_evidence_types_def document_types_def split: if_splits)

lemma lower_dot [simp]: "lower_ascii CHR ''.'' = CHR ''.''"
  by (simp add: lower_ascii_def)

lemma extension_iff: "ends_with_type name ty \<longleftrightarrow> ty \<noteq> [] \<and> get_extension name = CHR ''.'' # ty"
proof
  assume "ends_with_type name ty"
  then show "ty \<noteq> [] \<and> get_extension name = CHR ''.'' # ty"
    using extension_found by (fastforce simp: ends_with_type_def)
next
  assume ty: "ty \<noteq> [] \<and> get_extension name = CHR ''.'' # ty"
  then have "get_extension name \<noteq> []" by simp
  then show "ends_with_type name ty"
    by (rule extension_source) (use ty in \<open>auto simp: ends_with_type_def\<close>)
qed

lemma extension_shape: "get_extension name = [] \<or> (\<exists>ty. ty \<noteq> [] \<and> get_extension name = CHR ''.'' # ty)"
proof (cases "get_extension name = []")
  case False
  then show ?thesis by (rule extension_source) auto
qed simp

text \<open>The check of the first bytes: the three signatures exclude each other.\<close>

lemma known_signature_iff:
  "(case find (\<lambda>(p, _). starts_with content p) known_signatures of Some (_, exts) \<Rightarrow> CHR ''.'' # ty \<in> set exts | None \<Rightarrow> True) \<longleftrightarrow>
   (prefix [CHR 0x25, CHR 0x50, CHR 0x44, CHR 0x46] content \<longrightarrow> ty = ''pdf'') \<and>
   (prefix [CHR 0x89, CHR 0x50, CHR 0x4E, CHR 0x47] content \<longrightarrow> ty = ''png'') \<and>
   (prefix [CHR 0xFF, CHR 0xD8, CHR 0xFF] content \<longrightarrow> ty \<in> {''jpg'', ''jpeg''})"
  by (cases content) (auto simp: known_signatures_def starts_with_prefix)

text \<open>
  C40. The file check accepts exactly the documents it is meant to: a file of 1 byte to 25 MB whose
  trimmed name ends in a dot and letters or digits naming one of the nine document types, declared
  with that type's content type, that does not begin like a Windows or ELF executable or a
  script, and whose first bytes, when they are those of a PDF, a PNG or a JPEG, agree with its name.
\<close>

theorem file_check_exact: "validate_file f = None \<longleftrightarrow> acceptable_document f"
proof (cases "get_extension (ufName f) = []")
  case True
  then have "\<not> ends_with_type (ufName f) ty" for ty by (simp add: extension_iff)
  then show ?thesis using True by (simp add: validate_file_def acceptable_document_def allowed_evidence_types_def Let_def)
next
  case False
  then obtain ty where ty: "ty \<noteq> []" "get_extension (ufName f) = CHR ''.'' # ty" using extension_shape by blast
  then have e: "ends_with_type (ufName f) x \<longleftrightarrow> x = ty" for x by (auto simp: extension_iff)
  have d: "list_ex (starts_with (ufContent f)) dangerous_signatures \<longleftrightarrow> prefix [CHR 0x4D, CHR 0x5A] (ufContent f) \<or>
      prefix [CHR 0x7F, CHR 0x45, CHR 0x4C, CHR 0x46] (ufContent f) \<or> prefix [CHR 0x23, CHR 0x21] (ufContent f)"
    by (simp add: dangerous_signatures_def starts_with_prefix)
  have k: "(case find (\<lambda>(p, _). starts_with (ufContent f) p) known_signatures of
        Some (_, exts) \<Rightarrow> if CHR ''.'' # ty \<in> set exts then None else Some ''ContentMismatch'' | None \<Rightarrow> None) = None \<longleftrightarrow>
      (case find (\<lambda>(p, _). starts_with (ufContent f) p) known_signatures of Some (_, exts) \<Rightarrow> CHR ''.'' # ty \<in> set exts | None \<Rightarrow> True)"
    by (auto split: option.split)
  show ?thesis
  proof (cases "allowed_evidence_types (CHR ''.'' # ty)")
    case None
    then show ?thesis using e allowed_iff [of ty "ufType f"]
      by (auto simp: validate_file_def acceptable_document_def ty Let_def)
  next
    case (Some types)
    then have "ufType f \<in> set types \<longleftrightarrow> (ty, ufType f) \<in> set document_types"
      using allowed_iff [of ty "ufType f"] by simp
    then show ?thesis
      using Some k [unfolded known_signature_iff] d e
      by (auto simp: validate_file_def acceptable_document_def ty Let_def max_evidence_bytes_def)
  qed
qed

section \<open>Who sees what\<close>

text \<open>The rule as the service documents it.\<close>

definition may_see :: "evidence_deps \<Rightarrow> db \<Rightarrow> uuid \<Rightarrow> evidence_row \<Rightarrow> bool" where
  "may_see D s user v \<longleftrightarrow>
     (if \<exists>role. resolve_party_role (vdParty D) (evAgreement v) user s = Inr role
      then evVisibility v = Shared \<or> evUploader v = user
      else find_witness (evAgreement v) user s \<noteq> None \<and> evVisibility v = Shared \<and> evForWitnesses v)"

lemma party_known: "try_resolve_party_role A ag user s \<noteq> None \<longleftrightarrow> (\<exists>role. resolve_party_role A ag user s = Inr role)"
  by (auto simp: try_resolve_party_role_def split: sum.splits)

lemma list_evidence_seen:
  "list_evidence D ag user s =
     (if try_resolve_party_role (vdParty D) ag user s = None \<and> find_witness ag user s = None then Inl (ForbiddenError ''NoAccess'')
      else Inr (filter (may_see D s user) (list_evidence_for ag s)))"
proof -
  have "filter (may_see D s user) (list_evidence_for ag s) = filter (\<lambda>v.
      if try_resolve_party_role (vdParty D) ag user s \<noteq> None then evVisibility v = Shared \<or> evUploader v = user
      else find_witness ag user s \<noteq> None \<and> evVisibility v = Shared \<and> evForWitnesses v) (list_evidence_for ag s)"
    unfolding party_known by (rule filter_cong) (auto simp: may_see_def list_evidence_for_def)
  then show ?thesis by (auto simp: list_evidence_def Let_def split: option.split)
qed

text \<open>The database as the user may know it: everything he may not see is gone.\<close>

definition as_seen_by :: "evidence_deps \<Rightarrow> uuid \<Rightarrow> db \<Rightarrow> db" where
  "as_seen_by D user s = s\<lparr>evidences := filter (may_see D s user) (evidences s)\<rparr>"

lemma seen_roles:
  "resolve_party_role A ag user (as_seen_by D user s) = resolve_party_role A ag user s"
  "find_witness ag user (as_seen_by D user s) = find_witness ag user s"
  "may_see D (as_seen_by D user s) user v = may_see D s user v"
  by (simp_all add: as_seen_by_def resolve_party_role_def require_agreement_def find_witness_def may_see_def)

text \<open>
  C32. Private evidence stays private: what a user gets listed for an agreement does not depend on the
  evidence that he may not see, so it is the same when that evidence is not there at all; and a
  signed link is only ever issued for evidence that he may see. A party may see what is shared and
  what he uploaded himself, a witness what is shared and marked for witnesses, anyone else nothing.
\<close>

theorem private_evidence_stays_private:
  assumes "distinct (map evId (evidences s))"
  shows "list_evidence D ag user (as_seen_by D user s) = list_evidence D ag user s \<and>
    (get_signed_evidence_url D i user s = Inr url \<longrightarrow> (\<exists>v. find_evidence i s = Some v \<and> may_see D s user v \<and>
       (evVisibility v = Private \<longrightarrow> evUploader v = user)))"
proof
  have f: "may_see D (as_seen_by D user s) user = may_see D s user" by (rule ext) (rule seen_roles)
  have t: "try_resolve_party_role A ag user (as_seen_by D user s) = try_resolve_party_role A ag user s" for A
    by (simp add: try_resolve_party_role_def seen_roles)
  have "filter (may_see D s user) (list_evidence_for ag (as_seen_by D user s)) = filter (may_see D s user) (list_evidence_for ag s)"
    by (auto simp: list_evidence_for_def as_seen_by_def intro: filter_cong)
  then show "list_evidence D ag user (as_seen_by D user s) = list_evidence D ag user s"
    by (simp only: list_evidence_seen f t seen_roles(2))
  show "get_signed_evidence_url D i user s = Inr url \<longrightarrow> (\<exists>v. find_evidence i s = Some v \<and> may_see D s user v \<and>
       (evVisibility v = Private \<longrightarrow> evUploader v = user))"
  proof
    assume "get_signed_evidence_url D i user s = Inr url"
    then obtain v x where v: "find_evidence i s = Some v" and x: "x \<in> set (evidences s)" "evId x = i" "may_see D s user x"
      by (auto simp: get_signed_evidence_url_def require_evidence_def list_evidence_seen list_evidence_for_def
          list_ex_iff bindE_Inr_iff split: option.splits if_splits)
    then have "x = v" using lookup_by_distinct [OF assms x(1)] by simp
    then show "\<exists>v. find_evidence i s = Some v \<and> may_see D s user v \<and> (evVisibility v = Private \<longrightarrow> evUploader v = user)"
      using v x(3) by (auto simp: may_see_def split: if_splits)
  qed
qed

definition evidence_start :: db where
  "evidence_start = empty_db\<lparr>agreements := [sample_agreement Active], nextId := 30,
     evidences := [\<lparr>evId = 5, evAgreement = 1, evUploader = 101, evType = Invoice, evDescription = None, evPath = ''p'',
       evHash = ''h'', evSize = 1, evContentType = ''t'', evPostSigning = False, evVisibility = Private,
       evForWitnesses = True, evDisputeFlag = False, evWithdrawn = False\<rparr>]\<rparr>"

definition evidence_deps_sample :: evidence_deps where
  "evidence_deps_sample = \<lparr>vdParty = sample_parties, vdUpload = (\<lambda>_ _ _. None), vdSign = (\<lambda>p _. Inr p),
     vdProfileOf = (\<lambda>u. Some u), vdVerified = (\<lambda>_. True)\<rparr>"

lemmas evidence_sample_defs = evidence_start_def evidence_deps_sample_def empty_db_def sample_agreement_def
  sample_parties_def list_evidence_def list_evidence_for_def try_resolve_party_role_def resolve_party_role_def
  require_agreement_def authorize_either_party_def authorize_party_def find_witness_def get_signed_evidence_url_def
  require_evidence_def

text \<open>The uploader gets a link, the other party sees nothing.\<close>

theorem private_evidence_stays_private_witness:
  "get_signed_evidence_url evidence_deps_sample 5 101 evidence_start = Inr ''p'' \<and>
   (\<exists>v. find_evidence 5 evidence_start = Some v \<and> may_see evidence_deps_sample evidence_start 101 v) \<and>
   list_evidence evidence_deps_sample 1 102 (as_seen_by evidence_deps_sample 102 evidence_start) = Inr []"
proof -
  have d: "distinct (map evId (evidences evidence_start))" by (simp add: evidence_start_def)
  have u: "get_signed_evidence_url evidence_deps_sample 5 101 evidence_start = Inr ''p''"
    by (simp add: evidence_sample_defs)
  have "list_evidence evidence_deps_sample 1 102 evidence_start = Inr []" by (simp add: evidence_sample_defs)
  then show ?thesis
    using private_evidence_stays_private [OF d, of evidence_deps_sample 1 101 5 "''p''"]
      private_evidence_stays_private [OF d, of evidence_deps_sample 1 102 5 "''p''"] u by auto
qed

section \<open>Witnesses\<close>

datatype witness_request = AddWitness uuid uuid request_context | Attest uuid request_context

fun perform_witness :: "evidence_deps \<Rightarrow> env \<Rightarrow> uuid \<Rightarrow> witness_request \<Rightarrow> db \<Rightarrow> db" where
  "perform_witness D E user (AddWitness ag w ctx) s = snd (add_witness D E ag user w ctx s)"
| "perform_witness D E user (Attest ag ctx) s = snd (attest E ag user ctx s)"

fun run_witnesses :: "evidence_deps \<Rightarrow> (env \<times> uuid \<times> witness_request) list \<Rightarrow> db \<Rightarrow> db" where
  "run_witnesses D [] s = s"
| "run_witnesses D ((E, user, q) # rs) s = run_witnesses D rs (perform_witness D E user q s)"

definition outsider :: "evidence_deps \<Rightarrow> db \<Rightarrow> witness_row \<Rightarrow> bool" where
  "outsider D s w \<longleftrightarrow> (\<exists>a. find_agreement (wiAgreement w) s = Some a \<and> partyOwner (vdParty D) (agCreditor a) \<noteq> Some (wiUser w) \<and>
     partyOwner (vdParty D) (agDebtor a) \<noteq> Some (wiUser w)) \<and> wiAddedBy w \<noteq> wiUser w \<and>
     (\<exists>p. vdProfileOf D (wiUser w) = Some p \<and> vdVerified D p)"

definition witnesses_ok :: "evidence_deps \<Rightarrow> db \<Rightarrow> bool" where
  "witnesses_ok D s \<longleftrightarrow> distinct (map wiId (witnesses s)) \<and> list_all (\<lambda>w. wiId w < nextId s) (witnesses s) \<and>
     distinct (map (\<lambda>w. (wiAgreement w, wiUser w)) (witnesses s)) \<and> list_all (outsider D s) (witnesses s) \<and>
     (\<forall>ag. length (list_witnesses_for ag s) \<le> 2)"

text \<open>What one request does: nothing, one more witness, or one attestation to the current version.\<close>

inductive witness_step :: "evidence_deps \<Rightarrow> db \<Rightarrow> db \<Rightarrow> bool" for D where
  nothing: "witnesses s' = witnesses s \<Longrightarrow> agreements s' = agreements s \<Longrightarrow> nextId s' = nextId s \<Longrightarrow> witness_step D s s'"
| added: "witnesses s' = witnesses s @ [w] \<Longrightarrow> agreements s' = agreements s \<Longrightarrow> nextId s' = Suc (nextId s) \<Longrightarrow>
    wiId w = nextId s \<Longrightarrow> wiVersion w = None \<Longrightarrow> outsider D s w \<Longrightarrow> length (list_witnesses_for (wiAgreement w) s) < 2 \<Longrightarrow>
    wiUser w \<notin> wiUser ` set (list_witnesses_for (wiAgreement w) s) \<Longrightarrow> witness_step D s s'"
| attested: "find_witness ag user s = Some w \<Longrightarrow> wiVersion w = None \<Longrightarrow> find_agreement ag s = Some a \<Longrightarrow>
    agCurrentVersion a = Some v \<Longrightarrow> witnesses s' = witnesses (record_attestation (wiId w) v t ctx s) \<Longrightarrow>
    agreements s' = agreements s \<Longrightarrow> nextId s' = nextId s \<Longrightarrow> witness_step D s s'"

lemma still: "s' = s \<Longrightarrow> witness_step D s s'"
  by (rule nothing) simp_all

lemma add_witness_step: "witness_step D s (snd (add_witness D E ag user w ctx s))"
proof (cases "add_witness D E ag user w ctx s")
  case (Pair r s')
  show ?thesis
  proof (cases r)
    case (Inl e)
    have "s' = s"
      using Pair Inl by (auto simp: add_witness_def with_agreement_def andThen_def insert_witness_def witness_audit_def Let_def
          split: sum.splits option.splits prod.splits if_splits)
    then show ?thesis using Pair by (simp add: still)
  next
    case (Inr row)
    let ?w = "\<lparr>wiId = nextId s, wiAgreement = ag, wiUser = w, wiAddedBy = user, wiVersion = None,
      wiAttestedAt = None, wiIp = None, wiDevice = JNull\<rparr>"
    obtain a p q where "find_agreement ag s = Some a" "partyOwner (vdParty D) (agCreditor a) \<noteq> Some w"
        "partyOwner (vdParty D) (agDebtor a) \<noteq> Some w" "w \<noteq> user" "\<not> list_ex (\<lambda>x. wiUser x = w) (list_witnesses_for ag s)"
        "length (list_witnesses_for ag s) < 2" "vdProfileOf D w = Some p" "vdVerified D p"
        "s' = audit E q (s\<lparr>witnesses := witnesses s @ [?w], nextId := Suc (nextId s)\<rparr>)"
      using Pair Inr by (auto simp: add_witness_def with_agreement_def andThen_Inr_iff insert_witness_def witness_audit_def
          Let_def max_witnesses_def require_agreement_def split: option.splits if_splits)
    then show ?thesis
      using Pair by (intro added [where w = ?w]) (auto simp: outsider_def list_ex_iff)
  qed
qed

lemma attest_step: "witness_step D s (snd (attest E ag user ctx s))"
proof (cases "find_witness ag user s")
  case None
  then show ?thesis by (simp add: attest_def still)
next
  case (Some w)
  show ?thesis
  proof (cases "wiVersion w = None \<and> Option.bind (find_agreement ag s) agCurrentVersion \<noteq> None")
    case True
    then obtain a v where a: "find_agreement ag s = Some a" "agCurrentVersion a = Some v" "wiVersion w = None"
      by (cases "find_agreement ag s") auto
    then have "snd (attest E ag user ctx s) = audit E ((blank_audit ''witness_attested'' (clock E))
        \<lparr>actorUserId := Some user, actorRole := Some ''witness'', auditAgreementId := Some ag, ipAddress := fst ctx,
         deviceInfo := snd ctx, newValue := JObj [(''attestedVersionId'', json_uuid v)]\<rparr>)
        (record_attestation (wiId w) v (clock E) ctx s)"
      using Some by (simp add: attest_def witness_audit_def)
    then show ?thesis using attested [OF Some a(3,1,2)] by (simp add: record_attestation_def)
  next
    case False
    then have "snd (attest E ag user ctx s) = s" using Some by (cases "wiVersion w = None") (auto simp: attest_def split: option.split)
    then show ?thesis by (rule still)
  qed
qed

lemma outsider_cong: "agreements s' = agreements s \<Longrightarrow> outsider D s' = outsider D s"
  by (rule ext) (simp add: outsider_def)

lemma witnesses_okI:
  assumes "distinct (map wiId (witnesses s))" and "list_all (\<lambda>w. wiId w < nextId s) (witnesses s)"
    and "distinct (map (\<lambda>w. (wiAgreement w, wiUser w)) (witnesses s))" and "list_all (outsider D s) (witnesses s)"
    and "\<And>ag. length (list_witnesses_for ag s) \<le> 2"
  shows "witnesses_ok D s"
  using assms by (simp add: witnesses_ok_def)

lemma witness_step_ok:
  assumes "witness_step D s s'" and "witnesses_ok D s"
  shows "witnesses_ok D s' \<and> agreements s' = agreements s \<and>
    (\<forall>w \<in> set (witnesses s). wiVersion w \<noteq> None \<longrightarrow> w \<in> set (witnesses s'))"
  using assms
proof (induction rule: witness_step.induct)
  case (nothing s' s)
  then show ?case by (simp add: witnesses_ok_def list_witnesses_for_def outsider_cong [of s' s])
next
  case (added s' s w)
  have "(wiAgreement w, wiUser w) \<notin> (\<lambda>w. (wiAgreement w, wiUser w)) ` set (witnesses s)"
    using added.hyps(8) by (auto simp: list_witnesses_for_def)
  moreover have "length (list_witnesses_for ag s') \<le> 2" for ag
    using added.prems added.hyps(1,7) by (auto simp: witnesses_ok_def list_witnesses_for_def)
  ultimately have "witnesses_ok D s'"
    using added by (intro witnesses_okI) (auto simp: witnesses_ok_def list_all_iff outsider_cong [of s' s] intro: less_SucI)
  then show ?case using added.hyps(1,2) by simp
next
  case (attested ag user s w a v s' t ctx)
  let ?f = "\<lambda>x. if x = w then w\<lparr>wiVersion := Some v, wiAttestedAt := Some t, wiIp := fst ctx, wiDevice := snd ctx\<rparr> else x"
  have w: "w \<in> set (witnesses s)"
    using attested.hyps(1) by (auto simp: find_witness_def find_Some_iff)
  have d: "distinct (map wiId (witnesses s))" using attested.prems by (simp add: witnesses_ok_def)
  have s': "witnesses s' = map ?f (witnesses s)"
    using update_by_one [OF d lookup_by_distinct [OF d w]] attested.hyps(5) by (simp add: record_attestation_def)
  have keys: "map wiId (map ?f xs) = map wiId xs"
      "map (\<lambda>w. (wiAgreement w, wiUser w)) (map ?f xs) = map (\<lambda>w. (wiAgreement w, wiUser w)) xs"
      "list_all (outsider D s) (map ?f xs) = list_all (outsider D s) xs"
      "list_all (\<lambda>w. wiId w < n) (map ?f xs) = list_all (\<lambda>w. wiId w < n) xs"
      "length (filter (\<lambda>w. wiAgreement w = g) (map ?f xs)) = length (filter (\<lambda>w. wiAgreement w = g) xs)" for xs n g
    by (induction xs) (auto simp: outsider_def)
  have "length (list_witnesses_for g s') = length (list_witnesses_for g s)" for g
    unfolding list_witnesses_for_def s' by (rule keys(5))
  then have "witnesses_ok D s'"
    using attested.prems attested.hyps(7)
    unfolding witnesses_ok_def outsider_cong [OF attested.hyps(6)] s' keys by simp
  moreover have "x \<in> set (witnesses s')" if "x \<in> set (witnesses s)" "wiVersion x \<noteq> None" for x
    using that attested.hyps(2) by (auto simp: s' intro!: image_eqI [of x _ x])
  ultimately show ?case using attested.hyps(6) by simp
qed

lemma perform_witness_step: "witness_step D s (perform_witness D E user q s)"
  by (cases q) (simp_all add: add_witness_step attest_step)

lemma run_witnesses_ok:
  assumes "witnesses_ok D s"
  shows "witnesses_ok D (run_witnesses D rs s) \<and> agreements (run_witnesses D rs s) = agreements s \<and>
    (\<forall>w \<in> set (witnesses s). wiVersion w \<noteq> None \<longrightarrow> w \<in> set (witnesses (run_witnesses D rs s)))"
  using assms
proof (induction rs arbitrary: s)
  case (Cons r rs)
  obtain E user q where r: "r = (E, user, q)" by (cases r)
  show ?case
    using witness_step_ok [OF perform_witness_step Cons.prems, of E user q]
      Cons.IH [of "perform_witness D E user q s"] by (auto simp: r)
qed simp

text \<open>
  Witnesses are outsiders: whatever requests are handled one after the other, an agreement has at
  most two witnesses, no user twice, each a verified user who owns neither party's profile and did not
  add himself; and an attestation, with the version it is for, is never changed.
\<close>

theorem witnesses_are_outsiders:
  assumes "witnesses s0 = []" and "s = run_witnesses D rs s0"
  shows "length (list_witnesses_for ag s) \<le> 2 \<and> distinct (map wiUser (list_witnesses_for ag s)) \<and>
    list_all (outsider D s) (list_witnesses_for ag s) \<and>
    (\<forall>w \<in> set (list_witnesses_for ag s). wiVersion w \<noteq> None \<longrightarrow> w \<in> set (list_witnesses_for ag (run_witnesses D rs' s)))"
proof -
  have "witnesses_ok D s0" using assms(1) by (simp add: witnesses_ok_def list_witnesses_for_def)
  then have ok: "witnesses_ok D s" using run_witnesses_ok assms(2) by blast
  then have "distinct (map (\<lambda>w. (wiAgreement w, wiUser w)) (list_witnesses_for ag s))"
    by (simp add: witnesses_ok_def list_witnesses_for_def distinct_map_filter)
  then have "distinct (map wiUser (list_witnesses_for ag s))"
    by (auto simp: distinct_map inj_on_def list_witnesses_for_def)
  then show ?thesis
    using ok run_witnesses_ok [OF ok, of rs'] by (auto simp: witnesses_ok_def list_witnesses_for_def list_all_iff)
qed

definition witness_run :: "(env \<times> uuid \<times> witness_request) list" where
  "witness_run = [(toy_env, 101, AddWitness 1 7 (None, JNull)), (toy_env, 102, AddWitness 1 8 (None, JNull)),
     (toy_env, 101, AddWitness 1 9 (None, JNull)), (toy_env, 7, Attest 1 (None, JNull))]"

text \<open>The third is one too many; the first attests to version 10.\<close>

theorem witnesses_are_outsiders_witness:
  "map (\<lambda>w. (wiUser w, wiVersion w)) (list_witnesses_for 1 (run_witnesses evidence_deps_sample witness_run evidence_start)) =
     [(7, Some 10), (8, None)] \<and>
   length (list_witnesses_for 1 (run_witnesses evidence_deps_sample witness_run evidence_start)) \<le> 2"
proof
  have "witnesses evidence_start = []" by (simp add: evidence_start_def empty_db_def)
  from witnesses_are_outsiders [OF this refl, where D = evidence_deps_sample and rs = witness_run and ag = 1]
  show "length (list_witnesses_for 1 (run_witnesses evidence_deps_sample witness_run evidence_start)) \<le> 2" by blast
  show "map (\<lambda>w. (wiUser w, wiVersion w)) (list_witnesses_for 1 (run_witnesses evidence_deps_sample witness_run evidence_start)) =
     [(7, Some 10), (8, None)]"
    by (simp add: witness_run_def evidence_sample_defs add_witness_def attest_def with_agreement_def list_witnesses_for_def
        insert_witness_def Let_def witness_audit_def record_attestation_def max_witnesses_def update_by_def audit_def)
qed

end
