(* ===== verification/Cancellations.thy ===== *)
theory Cancellations
  imports Agreements
begin

text \<open>
  Mutual cancellation of an agreement in force
  (\<open>agreements/agreementCancellationService.ts\<close> over its repository): one party asks, the other
  decides. Notifications, whose errors are swallowed, are left out.
\<close>

section \<open>The repository\<close>

definition insert_cancellation ::
    "env \<Rightarrow> uuid \<Rightarrow> party_role \<Rightarrow> profile_ref \<Rightarrow> string \<Rightarrow> (db, error, cancellation_row) step" where
  "insert_cancellation E ag role by why s =
     (let r = \<lparr>crId = nextId s, crAgreement = ag, crStatus = CrPending, crRole = role, crBy = by, crReason = why,
        crDecidedBy = None, crRejectedReason = None, crDecidedAt = None, crUpdatedAt = clock E\<rparr>
      in (Inr r, s\<lparr>cancellations := cancellations s @ [r], nextId := Suc (nextId s)\<rparr>))"

definition update_cancellation ::
    "env \<Rightarrow> uuid \<Rightarrow> string \<Rightarrow> (cancellation_row \<Rightarrow> cancellation_row) \<Rightarrow> (db, error, cancellation_row) step" where
  "update_cancellation E i op f s =
     (case find_cancellation i s of
        None \<Rightarrow> (Inl (ConfigurationError op), s)
      | Some r \<Rightarrow> (Inr ((f r)\<lparr>crUpdatedAt := clock E\<rparr>),
          s\<lparr>cancellations := update_by crId i (\<lambda>r. (f r)\<lparr>crUpdatedAt := clock E\<rparr>) (cancellations s)\<rparr>))"

definition record_cancellation_accepted ::
    "env \<Rightarrow> uuid \<Rightarrow> profile_ref \<Rightarrow> (db, error, cancellation_row) step" where
  "record_cancellation_accepted E i by = update_cancellation E i ''agreement_cancellation_request recordAccepted''
     (\<lambda>r. r\<lparr>crStatus := CrAccepted, crDecidedBy := Some by, crDecidedAt := Some (clock E)\<rparr>)"

definition record_cancellation_rejected ::
    "env \<Rightarrow> uuid \<Rightarrow> profile_ref \<Rightarrow> string option \<Rightarrow> (db, error, cancellation_row) step" where
  "record_cancellation_rejected E i by why = update_cancellation E i ''agreement_cancellation_request recordRejected''
     (\<lambda>r. r\<lparr>crStatus := CrRejected, crDecidedBy := Some by, crRejectedReason := why, crDecidedAt := Some (clock E)\<rparr>)"

text \<open>The newest first.\<close>

definition list_cancellations_for :: "uuid \<Rightarrow> db \<Rightarrow> cancellation_row list" where
  "list_cancellations_for ag s = rev (filter (\<lambda>r. crAgreement r = ag) (cancellations s))"

section \<open>The service\<close>

definition cancellable_statuses :: "agreement_status list" where
  "cancellable_statuses = [FirstPaymentPending, Active, PastDue]"

definition cancellation_audit :: "env \<Rightarrow> cancellation_row \<Rightarrow> uuid \<Rightarrow> string \<Rightarrow> json \<Rightarrow> (db, error, unit) step" where
  "cancellation_audit E r actor act v = update (audit E ((blank_audit act (clock E))
     \<lparr>actorUserId := Some actor, actorRole := Some ''agreement_party'', profileKind := Some (fst (crBy r)),
      profileId := Some (snd (crBy r)), auditAgreementId := Some (crAgreement r), newValue := v,
      targetResourceType := Value ''agreement_cancellation_request'', targetResourceId := Value (crId r)\<rparr>))"

definition require_request :: "uuid \<Rightarrow> db \<Rightarrow> error + cancellation_row" where
  "require_request i s =
     (case find_cancellation i s of None \<Rightarrow> Inl (ValidationError ''RequestNotFound'') | Some r \<Rightarrow> Inr r)"

definition request_cancellation ::
    "agreement_deps \<Rightarrow> env \<Rightarrow> uuid \<Rightarrow> uuid \<Rightarrow> string \<Rightarrow> (db, error, cancellation_row) step" where
  "request_cancellation A E ag user why =
     andThen (guard (\<not> blank_text why) (ValidationError ''ReasonRequired'')) (\<lambda>_.
     andThen (\<lambda>s. (get_agreement (gdParty A) ag user s, s)) (\<lambda>a.
     andThen (guard (agStatus a \<in> set cancellable_statuses) (ValidationError ''NotCancellable'')) (\<lambda>_.
     andThen (\<lambda>s. (resolve_party_role (gdParty A) ag user s, s)) (\<lambda>role.
     andThen (asks (list_cancellations_for ag)) (\<lambda>existing.
     andThen (guard (\<not> list_ex (\<lambda>r. crStatus r = CrPending) existing) (ValidationError ''AlreadyPending'')) (\<lambda>_.
     andThen (insert_cancellation E ag role (party_of role a) why) (\<lambda>r.
     andThen (cancellation_audit E r user ''agreement_cancellation_requested'' (JObj [(''reason'', JStr why)])) (\<lambda>_.
     ret r))))))))"

datatype cancellation_decision = AcceptCancellation | RejectCancellation "string option"

text \<open>The request is marked accepted before the agreement is cancelled; this is no transaction.\<close>

definition decide_cancellation ::
    "agreement_deps \<Rightarrow> env \<Rightarrow> uuid \<Rightarrow> uuid \<Rightarrow> cancellation_decision \<Rightarrow> (db, error, cancellation_row) step" where
  "decide_cancellation A E i user d =
     andThen (\<lambda>s. (require_request i s, s)) (\<lambda>r.
     andThen (guard (crStatus r = CrPending) (ValidationError ''AlreadyDecided'')) (\<lambda>_.
     andThen (\<lambda>s. (resolve_party_role (gdParty A) (crAgreement r) user s, s)) (\<lambda>role.
     andThen (guard (role \<noteq> crRole r) (ForbiddenError ''OwnRequest'')) (\<lambda>_.
     andThen (\<lambda>s. (get_agreement (gdParty A) (crAgreement r) user s, s)) (\<lambda>a.
     case d of
       AcceptCancellation \<Rightarrow>
         andThen (record_cancellation_accepted E i (party_of role a)) (\<lambda>u.
         andThen (mark_mutually_canceled A E (crAgreement r) user i) (\<lambda>_.
         andThen (cancellation_audit E u user ''agreement_cancellation_accepted'' JNull) (\<lambda>_. ret u)))
     | RejectCancellation why \<Rightarrow>
         andThen (record_cancellation_rejected E i (party_of role a) why) (\<lambda>u.
         andThen (cancellation_audit E u user ''agreement_cancellation_rejected''
           (JObj [(''rejectedReason'', json_opt JStr why)])) (\<lambda>_. ret u)))))))"

definition get_cancellation_request :: "party_deps \<Rightarrow> uuid \<Rightarrow> uuid \<Rightarrow> db \<Rightarrow> error + cancellation_row" where
  "get_cancellation_request A i user s =
     bindE (require_request i s) (\<lambda>r. bindE (resolve_party_role A (crAgreement r) user s) (\<lambda>_. Inr r))"

definition list_cancellation_requests :: "party_deps \<Rightarrow> uuid \<Rightarrow> uuid \<Rightarrow> db \<Rightarrow> error + cancellation_row list" where
  "list_cancellation_requests A ag user s =
     bindE (resolve_party_role A ag user s) (\<lambda>_. Inr (list_cancellations_for ag s))"

end
