(* ===== verification/CancellationLaws.thy ===== *)
theory CancellationLaws
  imports Cancellations Lifecycles
begin

text \<open>
  What holds of cancellations (\<open>Cancellations\<close>): an agreement in force is cancelled only when one party
  has asked and the other has agreed, and at most one request of an agreement is open.
\<close>

datatype cancellation_request =
    RequestCancellation uuid string
  | DecideCancellation uuid cancellation_decision

fun perform_cancellation ::
    "agreement_deps \<Rightarrow> env \<Rightarrow> uuid \<Rightarrow> cancellation_request \<Rightarrow> (db, error, cancellation_row) step" where
  "perform_cancellation A E user (RequestCancellation ag why) = request_cancellation A E ag user why"
| "perform_cancellation A E user (DecideCancellation i d) = decide_cancellation A E i user d"

fun run_cancellations :: "agreement_deps \<Rightarrow> (env \<times> uuid \<times> cancellation_request) list \<Rightarrow> db \<Rightarrow> db" where
  "run_cancellations A [] s = s"
| "run_cancellations A ((E, user, q) # rs) s = run_cancellations A rs (snd (perform_cancellation A E user q s))"

section \<open>Consent\<close>

definition agreed_by_both :: "agreement_row \<Rightarrow> cancellation_row \<Rightarrow> bool" where
  "agreed_by_both a r \<longleftrightarrow> crAgreement r = agId a \<and> crStatus r = CrAccepted \<and> crBy r = party_of (crRole r) a \<and>
     crDecidedBy r = Some (party_of (other_party (crRole r)) a)"

definition request_ok :: "db \<Rightarrow> cancellation_row \<Rightarrow> bool" where
  "request_ok s0 r \<longleftrightarrow> (\<exists>a. find_agreement (crAgreement r) s0 = Some a \<and> crBy r = party_of (crRole r) a \<and>
     (crStatus r \<noteq> CrPending \<longrightarrow> crDecidedBy r = Some (party_of (other_party (crRole r)) a)))"

definition pending_for :: "uuid \<Rightarrow> db \<Rightarrow> cancellation_row list" where
  "pending_for ag s = filter (\<lambda>r. crAgreement r = ag \<and> crStatus r = CrPending) (cancellations s)"

definition same_but_status :: "agreement_row \<Rightarrow> agreement_row \<Rightarrow> bool" where
  "same_but_status a a' \<longleftrightarrow> (\<exists>st. a' = a\<lparr>agStatus := st\<rparr>)"

definition cancelled_lawfully :: "cancellation_row list \<Rightarrow> agreement_row \<Rightarrow> agreement_row \<Rightarrow> bool" where
  "cancelled_lawfully rows a a' \<longleftrightarrow> same_but_status a a' \<and> (agStatus a' \<noteq> agStatus a \<longrightarrow>
     agStatus a' = MutuallyCanceled \<and> agStatus a \<in> set cancellable_statuses \<and> list_ex (agreed_by_both a) rows)"

definition consented :: "db \<Rightarrow> db \<Rightarrow> bool" where
  "consented s0 s \<longleftrightarrow> keyed cancellations crId s \<and> list_all (request_ok s0) (cancellations s) \<and>
     (\<forall>ag. length (pending_for ag s) \<le> 1) \<and>
     (\<forall>ag. rel_option (cancelled_lawfully (cancellations s)) (find_agreement ag s0) (find_agreement ag s))"

lemma consented_cong:
  assumes "consented s0 s" and "cancellations s' = cancellations s" and "agreements s' = agreements s" and "nextId s \<le> nextId s'"
  shows "consented s0 s'"
  using assms by (auto simp: consented_def keyed_def pending_for_def list_all_iff intro: order_less_le_trans)

lemma consented_audit: "consented s0 s \<Longrightarrow> consented s0 (audit E p s)"
  by (erule consented_cong) simp_all

lemma party_of_same: "same_but_status a a' \<Longrightarrow> party_of role a' = party_of role a"
  unfolding same_but_status_def by (cases role) (auto simp: party_of_def)

lemma consented_found:
  assumes "consented s0 s" and "find_agreement ag s = Some a'"
  obtains a where "find_agreement ag s0 = Some a" "cancelled_lawfully (cancellations s) a a'"
proof -
  have "rel_option (cancelled_lawfully (cancellations s)) (find_agreement ag s0) (find_agreement ag s)"
    using assms(1) by (simp add: consented_def)
  then show thesis using assms(2) that by (cases "find_agreement ag s0") auto
qed

text \<open>The three writes: a new request, a decision, and the agreement itself.\<close>

lemma lawful_more:
  assumes "cancelled_lawfully rows a a'" and "\<And>r. r \<in> set rows \<Longrightarrow> agreed_by_both a r \<Longrightarrow> r \<in> set rows'"
  shows "cancelled_lawfully rows' a a'"
  using assms by (auto simp: cancelled_lawfully_def list_ex_iff)

lemma rel_lawful_more:
  assumes "rel_option (cancelled_lawfully rows) x y"
    and "\<And>r. r \<in> set rows \<Longrightarrow> crStatus r = CrAccepted \<Longrightarrow> r \<in> set rows'"
  shows "rel_option (cancelled_lawfully rows') x y"
  using assms(1) by (cases x; cases y) (auto intro!: lawful_more [where rows = rows] assms(2) simp: agreed_by_both_def)

lemma consentedI:
  assumes "keyed cancellations crId s" and "list_all (request_ok s0) (cancellations s)"
    and "\<And>ag. length (pending_for ag s) \<le> 1"
    and "\<And>ag. rel_option (cancelled_lawfully (cancellations s)) (find_agreement ag s0) (find_agreement ag s)"
  shows "consented s0 s"
  using assms by (simp add: consented_def)

lemma consentedD:
  assumes "consented s0 s"
  shows "keyed cancellations crId s" and "list_all (request_ok s0) (cancellations s)"
    and "length (pending_for ag s) \<le> 1"
    and "rel_option (cancelled_lawfully (cancellations s)) (find_agreement ag s0) (find_agreement ag s)"
  using assms by (simp_all add: consented_def)

lemma consented_insert:
  assumes "consented s0 s" and "find_agreement ag s = Some a" and "pending_for ag s = []"
  shows "consented s0 (snd (insert_cancellation E ag role (party_of role a) why s))"
proof -
  let ?r = "\<lparr>crId = nextId s, crAgreement = ag, crStatus = CrPending, crRole = role, crBy = party_of role a,
    crReason = why, crDecidedBy = None, crRejectedReason = None, crDecidedAt = None, crUpdatedAt = clock E\<rparr>"
  obtain a0 where a0: "find_agreement ag s0 = Some a0" "cancelled_lawfully (cancellations s) a0 a"
    using consented_found [OF assms(1,2)] .
  have r: "request_ok s0 ?r"
    using a0 by (auto simp: request_ok_def cancelled_lawfully_def party_of_same)
  let ?s = "s\<lparr>cancellations := cancellations s @ [?r], nextId := Suc (nextId s)\<rparr>"
  note ok = consentedD [OF assms(1)]
  have "consented s0 ?s"
  proof (rule consentedI)
    show "keyed cancellations crId ?s"
      using ok(1) by (auto simp: keyed_def list_all_iff)
    show "list_all (request_ok s0) (cancellations ?s)" using ok(2) r by simp
    show "length (pending_for x ?s) \<le> 1" for x
      using ok(3) [of x] assms(3) by (cases "x = ag") (simp_all add: pending_for_def)
    show "rel_option (cancelled_lawfully (cancellations ?s)) (find_agreement x s0) (find_agreement x ?s)" for x
      using rel_lawful_more [OF ok(4) [of x], of "cancellations ?s"] by simp
  qed
  then show ?thesis by (simp add: insert_cancellation_def Let_def)
qed

lemma consented_decided:
  assumes "consented s0 s" and "find_cancellation i s = Some r" and "crStatus r = CrPending"
    and "crId (f r) = crId r" and "crStatus (f r) \<noteq> CrPending" and "request_ok s0 (f r)"
  shows "consented s0 (s\<lparr>cancellations := update_by crId i f (cancellations s)\<rparr>)"
proof -
  let ?g = "\<lambda>x. if x = r then f r else x"
  have ok: "keyed cancellations crId s" "list_all (request_ok s0) (cancellations s)"
    using assms(1) by (simp_all add: consented_def)
  then have u: "update_by crId i f (cancellations s) = map ?g (cancellations s)"
    using update_by_one [OF _ assms(2)] by (simp add: keyed_def)
  have ids: "map crId (map ?g xs) = map crId xs" for xs using assms(4) by (induction xs) auto
  have "length (filter (\<lambda>r. crAgreement r = ag \<and> crStatus r = CrPending) (map ?g (cancellations s))) \<le> 1" for ag
  proof -
    have "length (filter (\<lambda>r. crAgreement r = ag \<and> crStatus r = CrPending) (map ?g xs)) \<le>
        length (filter (\<lambda>r. crAgreement r = ag \<and> crStatus r = CrPending) xs)" for xs
      using assms(5) by (induction xs) auto
    moreover have "length (pending_for ag s) \<le> 1" using assms(1) by (simp add: consented_def)
    ultimately show ?thesis unfolding pending_for_def by (meson order_trans)
  qed
  then have pending: "length (pending_for ag (s\<lparr>cancellations := map ?g (cancellations s)\<rparr>)) \<le> 1" for ag
    by (simp add: pending_for_def)
  have "x \<in> set (map ?g (cancellations s))" if "x \<in> set (cancellations s)" "crStatus x = CrAccepted" for x
  proof -
    have "?g x = x" using that(2) assms(3) by auto
    then show ?thesis using that(1) image_eqI [of x ?g x "set (cancellations s)"] by simp
  qed
  then have rel: "rel_option (cancelled_lawfully (map ?g (cancellations s))) (find_agreement ag s0) (find_agreement ag s)" for ag
    using rel_lawful_more [OF consentedD(4) [OF assms(1)]] by blast
  have "keyed cancellations crId (s\<lparr>cancellations := map ?g (cancellations s)\<rparr>)"
    using ok(1) unfolding keyed_ids by (simp add: ids del: map_map)
  moreover have "list_all (request_ok s0) (map ?g (cancellations s))"
    using ok(2) assms(6) by (auto simp: list_all_iff)
  ultimately show ?thesis unfolding u
    by (intro consentedI) (use pending rel in simp_all)
qed

lemma consented_cancel:
  assumes "consented s0 s" and "find_agreement ag s = Some a" and "agStatus a \<in> set cancellable_statuses"
    and "r \<in> set (cancellations s)" and "crAgreement r = ag" and "crStatus r = CrAccepted"
  shows "consented s0 (set_agreement_status ag MutuallyCanceled s)"
proof -
  obtain a0 where a0: "find_agreement ag s0 = Some a0" "cancelled_lawfully (cancellations s) a0 a"
    using consented_found [OF assms(1,2)] .
  have "request_ok s0 r" using assms(1,4) by (simp add: consented_def list_all_iff)
  then have both: "agreed_by_both a0 r"
    using a0(1) assms(5,6) lookup_by_Some_key [OF a0(1)] by (auto simp: request_ok_def agreed_by_both_def)
  have same: "agStatus a = agStatus a0"
    using a0(2) assms(3) by (auto simp: cancelled_lawfully_def cancellable_statuses_def)
  have "cancelled_lawfully (cancellations s) a0 (a\<lparr>agStatus := MutuallyCanceled\<rparr>)"
    using a0(2) assms(3,4) both same by (auto simp: cancelled_lawfully_def same_but_status_def list_ex_iff)
  then have rel: "rel_option (cancelled_lawfully (cancellations s)) (find_agreement x s0)
      (find_agreement x (set_agreement_status ag MutuallyCanceled s))" for x
    using consentedD(4) [OF assms(1), of x] assms(2) a0(1) by (cases "x = ag") (simp_all add: find_set_status)
  have c: "cancellations (set_agreement_status ag MutuallyCanceled s) = cancellations s"
    by (simp add: set_agreement_status_def)
  show ?thesis
    by (rule consentedI) (use consentedD(1-3) [OF assms(1)] rel in \<open>simp_all add: keyed_def pending_for_def c\<close>)
qed

section \<open>Requests\<close>

lemma pending_none: "\<not> list_ex (\<lambda>r. crStatus r = CrPending) (list_cancellations_for ag s) \<Longrightarrow> pending_for ag s = []"
  by (auto simp: list_cancellations_for_def pending_for_def list_ex_iff filter_empty_conv)

lemma got_agreement: "get_agreement A ag user s = Inr a \<Longrightarrow> find_agreement ag s = Some a"
  by (auto simp: get_agreement_def require_agreement_def bindE_Inr_iff split: option.splits sum.splits)

lemma consents_request: "consented s0 s \<Longrightarrow> consented s0 (snd (request_cancellation A E ag user why s))"
proof -
  assume c: "consented s0 s"
  have ins: "consented s0 (snd (andThen (insert_cancellation E ag role (party_of role a) why)
      (\<lambda>r. andThen (cancellation_audit E r user act v) (\<lambda>_. ret r)) s))"
    if "find_agreement ag s = Some a" "pending_for ag s = []" for role a act v
  proof -
    obtain r s1 where i: "insert_cancellation E ag role (party_of role a) why s = (Inr r, s1)"
      by (simp add: insert_cancellation_def Let_def)
    then have "consented s0 s1" using consented_insert [OF c that, of E role why] by simp
    then show ?thesis by (simp add: i cancellation_audit_def consented_audit)
  qed
  show ?thesis
  proof (cases "get_agreement (gdParty A) ag user s")
    case (Inr a)
    then have a: "find_agreement ag s = Some a" by (rule got_agreement)
    show ?thesis
      using c Inr ins [OF a] pending_none [of ag s]
      by (cases "resolve_party_role (gdParty A) ag user s") (auto simp: request_cancellation_def guard_def asks_def)
  qed (simp add: request_cancellation_def guard_def c)
qed

lemma resolved_role:
  assumes "resolve_party_role A ag user s = Inr role"
  obtains a where "find_agreement ag s = Some a" "authorize_either_party A a user = Inr role"
  using assms by (auto simp: resolve_party_role_def require_agreement_def bindE_Inr_iff split: option.splits sum.splits)

text \<open>A decision of the other party, on a request that is open.\<close>

lemma request_ok_decided:
  assumes "consented s0 s" and "find_cancellation i s = Some r" and "find_agreement (crAgreement r) s = Some a"
    and "role \<noteq> crRole r" and "crAgreement r' = crAgreement r" and "crBy r' = crBy r" and "crRole r' = crRole r"
    and "crDecidedBy r' = Some (party_of role a)"
  shows "request_ok s0 r'"
proof -
  obtain a0 where a0: "find_agreement (crAgreement r) s0 = Some a0" "cancelled_lawfully (cancellations s) a0 a"
    using consented_found [OF assms(1,3)] .
  have "request_ok s0 r"
    using consentedD(2) [OF assms(1)] lookup_by_Some_mem [OF assms(2)] by (simp add: list_all_iff)
  moreover have "role = other_party (crRole r)"
    using assms(4) by (cases role; cases "crRole r") (simp_all add: other_party_def)
  moreover have "party_of role a = party_of role a0"
    using a0(2) by (simp add: cancelled_lawfully_def party_of_same)
  ultimately show ?thesis using a0(1) assms(5-8) by (simp add: request_ok_def)
qed

lemma consents_mark:
  assumes "consented s0 s" and "r \<in> set (cancellations s)" and "crStatus r = CrAccepted" and "crAgreement r = ag"
  shows "consented s0 (snd (mark_mutually_canceled A E ag user i s))"
proof (cases "find_agreement ag s")
  case (Some a)
  have "consented s0 (set_agreement_status ag MutuallyCanceled s)" if "agStatus a \<in> {FirstPaymentPending, Active, PastDue}"
    by (rule consented_cancel [OF assms(1) Some _ assms(2,4,3)]) (use that in \<open>simp add: cancellable_statuses_def\<close>)
  then show ?thesis
    using assms(1) Some by (cases "authorize_either_party (gdParty A) a user")
      (auto simp: mark_mutually_canceled_def with_agreement_def require_agreement_def as_either_party_def raised_def
        guard_def agreement_audit_def consented_audit)
qed (use assms(1) in \<open>simp add: mark_mutually_canceled_def with_agreement_def require_agreement_def\<close>)

lemma consents_decide: "consented s0 s \<Longrightarrow> consented s0 (snd (decide_cancellation A E i user d s))"
proof -
  assume c: "consented s0 s"
  let ?act = "\<lambda>(r :: cancellation_row) role a. case d of
      AcceptCancellation \<Rightarrow>
        andThen (record_cancellation_accepted E i (party_of role a)) (\<lambda>u.
        andThen (mark_mutually_canceled A E (crAgreement r) user i) (\<lambda>_.
        andThen (cancellation_audit E u user ''agreement_cancellation_accepted'' JNull) (\<lambda>_. ret u)))
    | RejectCancellation why \<Rightarrow>
        andThen (record_cancellation_rejected E i (party_of role a) why) (\<lambda>u.
        andThen (cancellation_audit E u user ''agreement_cancellation_rejected''
          (JObj [(''rejectedReason'', json_opt JStr why)])) (\<lambda>_. ret u))"
  have decided: "consented s0 (snd (?act r role a s))"
    if r: "find_cancellation i s = Some r" "crStatus r = CrPending" and role: "role \<noteq> crRole r"
      and a: "find_agreement (crAgreement r) s = Some a" for r role a
  proof (cases d)
    case AcceptCancellation
    let ?f = "\<lambda>r. r\<lparr>crStatus := CrAccepted, crDecidedBy := Some (party_of role a), crDecidedAt := Some (clock E),
      crUpdatedAt := clock E\<rparr>"
    let ?s = "s\<lparr>cancellations := update_by crId i ?f (cancellations s)\<rparr>"
    have s1: "consented s0 ?s"
      by (rule consented_decided [OF c r]) (simp_all add: request_ok_decided [OF c r(1) a role])
    have "find_cancellation i ?s = Some (?f r)" using r(1) by (simp add: lookup_update_same)
    then have "?f r \<in> set (cancellations ?s)" by (rule lookup_by_Some_mem)
    then have s2: "consented s0 (snd (mark_mutually_canceled A E (crAgreement r) user i ?s))"
      by (rule consents_mark [OF s1]) simp_all
    have "record_cancellation_accepted E i (party_of role a) s = (Inr (?f r), ?s)"
      using r(1) by (simp add: record_cancellation_accepted_def update_cancellation_def)
    then show ?thesis
      using AcceptCancellation s2
      by (auto simp: andThen_def cancellation_audit_def consented_audit split: prod.split sum.split)
  next
    case (RejectCancellation why)
    have "consented s0 (s\<lparr>cancellations := update_by crId i (\<lambda>r. r\<lparr>crStatus := CrRejected,
        crDecidedBy := Some (party_of role a), crRejectedReason := why, crDecidedAt := Some (clock E),
        crUpdatedAt := clock E\<rparr>) (cancellations s)\<rparr>)"
      by (rule consented_decided [OF c r]) (simp_all add: request_ok_decided [OF c r(1) a role])
    then show ?thesis
      using RejectCancellation r(1)
      by (simp add: andThen_def record_cancellation_rejected_def update_cancellation_def cancellation_audit_def consented_audit)
  qed
  have leaves: "leaves (\<lambda>x. x = s) (decide_cancellation A E i user d) (\<lambda>_. consented s0) (consented s0)"
    unfolding decide_cancellation_def
  proof (intro leaves_read leaves_guard)
    fix r :: cancellation_row and role a
    assume "crStatus r = CrPending" and "role \<noteq> crRole r"
    then show "leaves (\<lambda>x. ((x = s \<and> require_request i x = Inr r) \<and>
          resolve_party_role (gdParty A) (crAgreement r) user x = Inr role) \<and>
          get_agreement (gdParty A) (crAgreement r) user x = Inr a)
        (?act r role a)
        (\<lambda>_. consented s0) (consented s0)"
      using decided [of r role a] got_agreement [of "gdParty A" "crAgreement r" user s a]
      by (auto simp: leaves_def require_request_def split: option.splits cancellation_decision.splits prod.splits sum.splits)
  qed (auto simp: c)
  obtain x s' where "decide_cancellation A E i user d s = (x, s')" by fastforce
  then show ?thesis using leavesD [OF leaves refl] by (cases x) auto
qed

lemma consents_run:
  fixes s :: db
  shows "consented s0 s \<Longrightarrow> consented s0 (run_cancellations A rs s)"
proof (induction rs arbitrary: s)
  case (Cons r rs)
  obtain E user q where r: "r = (E, user, q)" by (cases r)
  have "consented s0 (snd (perform_cancellation A E user q s))"
    using Cons.prems by (cases q) (simp_all add: consents_request consents_decide)
  then show ?case using Cons.IH r by simp
qed simp

text \<open>
  C26. An agreement in force is cancelled only when both parties agree: whatever requests and
  decisions any users send, in any order, an agreement keeps everything but its status, and the status
  changes only from first payment pending, active or past due to mutually canceled, and only if a
  request recorded in the name of one party has been accepted in the name of the other; an agreement
  has at most one open request.
\<close>

theorem cancelled_only_by_consent:
  assumes "cancellations s0 = []" and "find_agreement ag s0 = Some a"
  shows "\<exists>a'. find_agreement ag (run_cancellations A rs s0) = Some a' \<and>
    cancelled_lawfully (cancellations (run_cancellations A rs s0)) a a' \<and>
    length (pending_for ag (run_cancellations A rs s0)) \<le> 1"
proof -
  have "cancelled_lawfully [] x x" for x
    unfolding cancelled_lawfully_def same_but_status_def by (auto intro: exI [of _ "agStatus x"])
  then have "consented s0 s0"
    using assms(1) by (intro consentedI) (simp_all add: keyed_def pending_for_def option.rel_refl)
  then have c: "consented s0 (run_cancellations A rs s0)" by (rule consents_run)
  show ?thesis
    using consentedD(3,4) [OF c, of ag] assms(2) by (cases "find_agreement ag (run_cancellations A rs s0)") auto
qed

definition cancellation_start :: db where
  "cancellation_start = empty_db\<lparr>agreements := [sample_agreement Active], versions := [sample_version], nextId := 30\<rparr>"

definition cancellation_deps :: agreement_deps where
  "cancellation_deps = \<lparr>gdParty = sample_parties, gdNamed = (\<lambda>_. True), gdConnect = (\<lambda>_ _ _ _ _. ret ()),
     gdReferenced = (\<lambda>_. False)\<rparr>"

definition cancellation_run :: "(env \<times> uuid \<times> cancellation_request) list" where
  "cancellation_run = [(toy_env, 101, RequestCancellation 1 ''r''), (toy_env, 102, DecideCancellation 30 AcceptCancellation)]"

lemma cancellation_run_sample:
  "map agStatus (agreements (run_cancellations cancellation_deps cancellation_run cancellation_start)) = [MutuallyCanceled]"
  by (simp add: cancellation_run_def cancellation_start_def empty_db_def request_cancellation_def decide_cancellation_def
      cancellation_deps_def sample_parties_def require_request_def resolve_party_role_def require_agreement_def
      authorize_either_party_def authorize_party_def sample_agreement_def andThen_def get_agreement_def
      require_current_version_def require_version_def sample_version_def insert_cancellation_def Let_def
      cancellation_audit_def audit_def blank_text_def is_space_def record_cancellation_accepted_def
      update_cancellation_def mark_mutually_canceled_def with_agreement_def as_either_party_def agreement_audit_def
      party_of_def list_cancellations_for_def set_agreement_status_def guard_def asks_def cancellable_statuses_def
      raised_def)

theorem cancelled_only_by_consent_witness:
  "\<exists>a'. find_agreement 1 (run_cancellations cancellation_deps cancellation_run cancellation_start) = Some a' \<and>
     cancelled_lawfully (cancellations (run_cancellations cancellation_deps cancellation_run cancellation_start))
       (sample_agreement Active) a' \<and> agStatus a' = MutuallyCanceled"
proof -
  have "cancellations cancellation_start = []" "find_agreement 1 cancellation_start = Some (sample_agreement Active)"
    by (simp_all add: cancellation_start_def empty_db_def sample_agreement_def)
  from cancelled_only_by_consent [OF this, of cancellation_deps cancellation_run] obtain a' where
    a': "find_agreement 1 (run_cancellations cancellation_deps cancellation_run cancellation_start) = Some a'"
      "cancelled_lawfully (cancellations (run_cancellations cancellation_deps cancellation_run cancellation_start))
         (sample_agreement Active) a'" by blast
  then have "agStatus a' = MutuallyCanceled"
    using cancellation_run_sample lookup_by_Some_mem [OF a'(1)] by auto
  then show ?thesis using a' by blast
qed

end
