(* ===== verification/Disputes.thy ===== *)
theory Disputes
  imports Amendments Evidence Payments
begin

text \<open>
  Disputes. About an agreement (\<open>disputes/agreementDisputeService.ts\<close>): opened by a party, answered by
  the other, resolved without a change or by an amendment, restricted by an administrator. About a
  payment (\<open>disputes/paymentDisputeService.ts\<close>): the payer claims that it was not authorized, and an
  administrator records what the processor decided.
\<close>

section \<open>Roles of the platform\<close>

datatype platform_role = Member | PlatformAdmin | PlatformOwner

definition platform_role_rank :: "platform_role \<Rightarrow> nat" where
  "platform_role_rank r = (case r of Member \<Rightarrow> 0 | PlatformAdmin \<Rightarrow> 1 | PlatformOwner \<Rightarrow> 2)"

definition has_at_least_platform_role :: "platform_role \<Rightarrow> platform_role \<Rightarrow> bool" where
  "has_at_least_platform_role r m \<longleftrightarrow> platform_role_rank m \<le> platform_role_rank r"

definition is_admin_role :: "platform_role \<Rightarrow> bool" where
  "is_admin_role r = has_at_least_platform_role r PlatformAdmin"

definition require_admin :: "platform_role \<Rightarrow> (db, error, unit) step" where
  "require_admin r = guard (is_admin_role r) (ForbiddenError ''AdminRequired'')"

definition platform_role_name :: "platform_role \<Rightarrow> string" where
  "platform_role_name r = (case r of Member \<Rightarrow> ''member'' | PlatformAdmin \<Rightarrow> ''platform_admin'' | PlatformOwner \<Rightarrow> ''platform_owner'')"

section \<open>Disputes about an agreement: the repository\<close>

definition insert_dispute ::
    "env \<Rightarrow> uuid \<Rightarrow> dispute_category \<Rightarrow> string \<Rightarrow> party_role \<Rightarrow> profile_ref \<Rightarrow> uuid \<Rightarrow> (db, error, dispute_row) step" where
  "insert_dispute E ag cat why role by user s =
     (let d = \<lparr>diId = nextId s, diAgreement = ag, diStatus = DiOpened, diCategory = cat, diExplanation = why,
        diRole = role, diBy = by, diByUser = user, diResponse = None, diRespondedBy = None, diRespondedAt = None,
        diNotes = None, diResolvedAt = None, diAmendment = None, diRestrictedReason = None, diRestrictedBy = None,
        diRestrictedAt = None, diLiftedAt = None, diClosedAt = None, diUpdatedAt = clock E\<rparr>
      in (Inr d, s\<lparr>disputes := disputes s @ [d], nextId := Suc (nextId s)\<rparr>))"

definition update_dispute ::
    "env \<Rightarrow> uuid \<Rightarrow> string \<Rightarrow> (dispute_row \<Rightarrow> dispute_row) \<Rightarrow> (db, error, dispute_row) step" where
  "update_dispute E i op f s =
     (case find_dispute i s of
        None \<Rightarrow> (Inl (ConfigurationError op), s)
      | Some d \<Rightarrow> (Inr ((f d)\<lparr>diUpdatedAt := clock E\<rparr>),
          s\<lparr>disputes := update_by diId i (\<lambda>d. (f d)\<lparr>diUpdatedAt := clock E\<rparr>) (disputes s)\<rparr>))"

definition record_dispute_response :: "env \<Rightarrow> uuid \<Rightarrow> string \<Rightarrow> uuid \<Rightarrow> (db, error, dispute_row) step" where
  "record_dispute_response E i text user = update_dispute E i ''agreement_dispute recordResponse''
     (\<lambda>d. d\<lparr>diStatus := DiUnderReview, diResponse := Some text, diRespondedBy := Some user,
        diRespondedAt := Some (clock E)\<rparr>)"

definition record_resolved_no_change :: "env \<Rightarrow> uuid \<Rightarrow> string option \<Rightarrow> (db, error, dispute_row) step" where
  "record_resolved_no_change E i notes = update_dispute E i ''agreement_dispute recordResolvedNoChange''
     (\<lambda>d. d\<lparr>diStatus := DiResolvedNoChange, diNotes := notes, diResolvedAt := Some (clock E)\<rparr>)"

definition record_resolved_with_amendment :: "env \<Rightarrow> uuid \<Rightarrow> uuid \<Rightarrow> (db, error, dispute_row) step" where
  "record_resolved_with_amendment E i m = update_dispute E i ''agreement_dispute recordResolvedWithAmendment''
     (\<lambda>d. d\<lparr>diStatus := DiResolvedWithAmendment, diAmendment := Some m, diResolvedAt := Some (clock E)\<rparr>)"

definition record_restricted :: "env \<Rightarrow> uuid \<Rightarrow> string \<Rightarrow> uuid \<Rightarrow> (db, error, dispute_row) step" where
  "record_restricted E i why user = update_dispute E i ''agreement_dispute recordRestricted''
     (\<lambda>d. d\<lparr>diStatus := DiRestricted, diRestrictedReason := Some why, diRestrictedBy := Some user,
        diRestrictedAt := Some (clock E)\<rparr>)"

datatype lift_target = BackToReview | LiftAndClose

definition record_restriction_lifted :: "env \<Rightarrow> uuid \<Rightarrow> lift_target \<Rightarrow> (db, error, dispute_row) step" where
  "record_restriction_lifted E i target = update_dispute E i ''agreement_dispute recordRestrictionLifted''
     (case target of
        LiftAndClose \<Rightarrow> \<lambda>d. d\<lparr>diStatus := DiClosed, diLiftedAt := Some (clock E), diClosedAt := Some (clock E)\<rparr>
      | BackToReview \<Rightarrow> \<lambda>d. d\<lparr>diStatus := DiUnderReview, diLiftedAt := Some (clock E)\<rparr>)"

definition record_dispute_closed :: "env \<Rightarrow> uuid \<Rightarrow> string option \<Rightarrow> (db, error, dispute_row) step" where
  "record_dispute_closed E i notes = update_dispute E i ''agreement_dispute recordClosed''
     (\<lambda>d. d\<lparr>diStatus := DiClosed, diNotes := notes, diClosedAt := Some (clock E)\<rparr>)"

text \<open>The newest first.\<close>

definition list_disputes_for :: "uuid \<Rightarrow> db \<Rightarrow> dispute_row list" where
  "list_disputes_for ag s = rev (filter (\<lambda>d. diAgreement d = ag) (disputes s))"

section \<open>Disputes about an agreement: the service\<close>

fun dispute_category_name :: "dispute_category \<Rightarrow> string" where
  "dispute_category_name DebtDoesNotExist = ''debt_does_not_exist''"
| "dispute_category_name IncorrectAmount = ''incorrect_amount''"
| "dispute_category_name EvidenceChallenged = ''evidence_challenged''"
| "dispute_category_name AdministrationChallenged = ''administration_challenged''"
| "dispute_category_name OtherDispute = ''other''"

definition dispute_audit :: "env \<Rightarrow> dispute_row \<Rightarrow> uuid \<Rightarrow> string \<Rightarrow> json \<Rightarrow> (db, error, unit) step" where
  "dispute_audit E d actor act v = update (audit E ((blank_audit act (clock E))
     \<lparr>actorUserId := Some actor, actorRole := Some ''agreement_party'', profileKind := Some (fst (diBy d)),
      profileId := Some (snd (diBy d)), auditAgreementId := Some (diAgreement d), newValue := v,
      targetResourceType := Value ''agreement_dispute'', targetResourceId := Value (diId d)\<rparr>))"

definition require_dispute :: "uuid \<Rightarrow> db \<Rightarrow> error + dispute_row" where
  "require_dispute i s =
     (case find_dispute i s of None \<Rightarrow> Inl (ValidationError ''DisputeNotFound'') | Some d \<Rightarrow> Inr d)"

fun flag_evidence :: "party_deps \<Rightarrow> env \<Rightarrow> uuid \<Rightarrow> uuid list \<Rightarrow> (db, error, unit) step" where
  "flag_evidence A E user [] = ret ()"
| "flag_evidence A E user (i # is) =
     andThen (set_dispute_flag A E i user True (None, JNull)) (\<lambda>_. flag_evidence A E user is)"

definition open_dispute ::
    "party_deps \<Rightarrow> env \<Rightarrow> uuid \<Rightarrow> dispute_category \<Rightarrow> string \<Rightarrow> uuid list \<Rightarrow> uuid \<Rightarrow> (db, error, dispute_row) step" where
  "open_dispute A E ag cat why evs user =
     andThen (\<lambda>s. (resolve_party_role A ag user s, s)) (\<lambda>role.
     andThen (\<lambda>s. (get_agreement A ag user s, s)) (\<lambda>a.
     andThen (guard (\<not> blank_text why) (ValidationError ''ExplanationRequired'')) (\<lambda>_.
     andThen (flag_evidence A E user evs) (\<lambda>_.
     andThen (insert_dispute E ag cat why role (party_of role a) user) (\<lambda>d.
     andThen (dispute_audit E d user ''agreement_dispute_opened''
       (JObj [(''category'', JStr (dispute_category_name cat))])) (\<lambda>_. ret d))))))"

definition respond_to_dispute ::
    "party_deps \<Rightarrow> env \<Rightarrow> uuid \<Rightarrow> string \<Rightarrow> uuid list \<Rightarrow> uuid \<Rightarrow> (db, error, dispute_row) step" where
  "respond_to_dispute A E i text evs user =
     andThen (\<lambda>s. (require_dispute i s, s)) (\<lambda>d.
     andThen (guard (diStatus d = DiOpened) (ValidationError ''WrongStatus'')) (\<lambda>_.
     andThen (\<lambda>s. (resolve_party_role A (diAgreement d) user s, s)) (\<lambda>role.
     andThen (guard (role \<noteq> diRole d) (ForbiddenError ''OwnDispute'')) (\<lambda>_.
     andThen (guard (\<not> blank_text text) (ValidationError ''ResponseRequired'')) (\<lambda>_.
     andThen (flag_evidence A E user evs) (\<lambda>_.
     andThen (record_dispute_response E i text user) (\<lambda>u.
     andThen (dispute_audit E u user ''agreement_dispute_responded'' JNull) (\<lambda>_. ret u))))))))"

definition require_open_or_under_review :: "party_deps \<Rightarrow> uuid \<Rightarrow> uuid \<Rightarrow> db \<Rightarrow> error + dispute_row" where
  "require_open_or_under_review A i user s =
     bindE (require_dispute i s) (\<lambda>d.
     bindE (resolve_party_role A (diAgreement d) user s) (\<lambda>_.
     if diStatus d \<notin> {DiOpened, DiUnderReview} then Inl (ValidationError ''WrongStatus'') else Inr d))"

definition resolve_no_change ::
    "party_deps \<Rightarrow> env \<Rightarrow> uuid \<Rightarrow> uuid \<Rightarrow> string option \<Rightarrow> (db, error, dispute_row) step" where
  "resolve_no_change A E i user notes =
     andThen (\<lambda>s. (require_open_or_under_review A i user s, s)) (\<lambda>d.
     andThen (record_resolved_no_change E i notes) (\<lambda>u.
     andThen (dispute_audit E u user ''agreement_dispute_resolved_no_change''
       (JObj [(''resolutionNotes'', json_opt JStr notes)])) (\<lambda>_. ret u)))"

definition close_dispute :: "party_deps \<Rightarrow> env \<Rightarrow> uuid \<Rightarrow> uuid \<Rightarrow> (db, error, dispute_row) step" where
  "close_dispute A E i user =
     andThen (\<lambda>s. (require_dispute i s, s)) (\<lambda>d.
     andThen (\<lambda>s. (resolve_party_role A (diAgreement d) user s, s)) (\<lambda>_.
     andThen (guard (diStatus d = DiResolvedNoChange) (ValidationError ''WrongStatus'')) (\<lambda>_.
     andThen (record_dispute_closed E i (diNotes d)) (\<lambda>u.
     andThen (dispute_audit E u user ''agreement_dispute_closed'' JNull) (\<lambda>_. ret u)))))"

text \<open>The amendment is proposed first; this is no transaction.\<close>

definition resolution_proposal ::
    "uuid \<Rightarrow> amendment_change \<Rightarrow> terms_input \<Rightarrow> string option \<Rightarrow> string option \<Rightarrow> amendment_proposal" where
  "resolution_proposal i change t relief effective = \<lparr>apChange = change,
     apReason = ''Resolution of agreement dispute '' @ show_int (int i), apRelief = relief, apEffective = effective,
     apProposed = t\<rparr>"

definition resolve_with_amendment ::
    "party_deps \<Rightarrow> env \<Rightarrow> uuid \<Rightarrow> uuid \<Rightarrow> amendment_change \<Rightarrow> terms_input \<Rightarrow> string option \<Rightarrow> string option \<Rightarrow>
     (db, error, dispute_row) step" where
  "resolve_with_amendment A E i user change t relief effective =
     andThen (\<lambda>s. (require_open_or_under_review A i user s, s)) (\<lambda>d.
     andThen (propose_amendment A E (diAgreement d) user (resolution_proposal i change t relief effective)) (\<lambda>m.
     andThen (record_resolved_with_amendment E i (amId m)) (\<lambda>u.
     andThen (dispute_audit E u user ''agreement_dispute_resolved_with_amendment''
       (JObj [(''resultingAmendmentId'', json_uuid (amId m))])) (\<lambda>_. ret u))))"

definition sync_amendment_progress :: "party_deps \<Rightarrow> env \<Rightarrow> uuid \<Rightarrow> uuid \<Rightarrow> (db, error, dispute_row) step" where
  "sync_amendment_progress A E i user =
     andThen (\<lambda>s. (require_dispute i s, s)) (\<lambda>d.
     andThen (\<lambda>s. (resolve_party_role A (diAgreement d) user s, s)) (\<lambda>_.
     case diAmendment d of
       None \<Rightarrow> ret d
     | Some m \<Rightarrow>
         if diStatus d \<noteq> DiResolvedWithAmendment then ret d
         else andThen (\<lambda>s. (get_amendment A m user s, s)) (\<lambda>am.
           if amStatus am \<noteq> AmApplied then ret d
           else andThen (record_dispute_closed E i (diNotes d)) (\<lambda>u.
             andThen (dispute_audit E u user ''agreement_dispute_closed''
               (JObj [(''resultingAmendmentId'', json_uuid m)])) (\<lambda>_. ret u)))))"

definition restrict_dispute ::
    "env \<Rightarrow> uuid \<Rightarrow> uuid \<Rightarrow> platform_role \<Rightarrow> string \<Rightarrow> (db, error, dispute_row) step" where
  "restrict_dispute E i user role why =
     andThen (require_admin role) (\<lambda>_.
     andThen (\<lambda>s. (require_dispute i s, s)) (\<lambda>d.
     andThen (guard (diStatus d = DiUnderReview) (ValidationError ''WrongStatus'')) (\<lambda>_.
     andThen (guard (\<not> blank_text why) (ValidationError ''ReasonRequired'')) (\<lambda>_.
     andThen (record_restricted E i why user) (\<lambda>u.
     andThen (dispute_audit E u user ''agreement_dispute_restricted'' (JObj [(''reason'', JStr why)])) (\<lambda>_. ret u))))))"

definition lift_json :: "lift_target \<Rightarrow> json" where
  "lift_json target = JObj [(''target'', JStr (case target of BackToReview \<Rightarrow> ''under_review'' | LiftAndClose \<Rightarrow> ''closed''))]"

definition lift_restriction ::
    "env \<Rightarrow> uuid \<Rightarrow> uuid \<Rightarrow> platform_role \<Rightarrow> lift_target \<Rightarrow> string option \<Rightarrow> (db, error, dispute_row) step" where
  "lift_restriction E i user role target notes =
     andThen (require_admin role) (\<lambda>_.
     andThen (\<lambda>s. (require_dispute i s, s)) (\<lambda>d.
     andThen (guard (diStatus d = DiRestricted) (ValidationError ''WrongStatus'')) (\<lambda>_.
     andThen (record_restriction_lifted E i target) (\<lambda>u.
     if target = LiftAndClose \<and> notes \<notin> {None, Some []}
     then andThen (record_dispute_closed E i notes) (\<lambda>w.
       andThen (dispute_audit E w user ''agreement_dispute_restriction_lifted'' (lift_json target)) (\<lambda>_. ret w))
     else andThen (dispute_audit E u user ''agreement_dispute_restriction_lifted'' (lift_json target)) (\<lambda>_. ret u)))))"

definition get_dispute :: "party_deps \<Rightarrow> uuid \<Rightarrow> uuid \<Rightarrow> db \<Rightarrow> error + dispute_row" where
  "get_dispute A i user s =
     bindE (require_dispute i s) (\<lambda>d. bindE (resolve_party_role A (diAgreement d) user s) (\<lambda>_. Inr d))"

definition list_agreement_disputes :: "party_deps \<Rightarrow> uuid \<Rightarrow> uuid \<Rightarrow> db \<Rightarrow> error + dispute_row list" where
  "list_agreement_disputes A ag user s = bindE (resolve_party_role A ag user s) (\<lambda>_. Inr (list_disputes_for ag s))"

definition export_evidence_package ::
    "evidence_deps \<Rightarrow> uuid \<Rightarrow> uuid \<Rightarrow> db \<Rightarrow> error + (dispute_row \<times> evidence_row list)" where
  "export_evidence_package D i user s =
     bindE (require_dispute i s) (\<lambda>d.
     bindE (resolve_party_role (vdParty D) (diAgreement d) user s) (\<lambda>_.
     bindE (list_evidence D (diAgreement d) user s) (\<lambda>seen. Inr (d, filter evDisputeFlag seen))))"

section \<open>Claims about a payment\<close>

text \<open>
  The newest mandate or card of the agreement and the verification of the payer live in tables that
  are not in \<open>db\<close>: parameters.
\<close>

record claim_deps =
  cmOwner :: "profile_ref \<Rightarrow> uuid option"
  cmMandate :: "uuid \<Rightarrow> payment_method option \<Rightarrow> string option"
  cmIdentity :: "profile_ref \<Rightarrow> string option"

definition signature_reference :: "uuid \<Rightarrow> profile_ref \<Rightarrow> db \<Rightarrow> string option" where
  "signature_reference ag payer s =
     (case Option.bind (find_agreement ag s) agCurrentVersion of
        None \<Rightarrow> None
      | Some v \<Rightarrow> map_option (\<lambda>g. show_int (int (sgId g)))
          (find (\<lambda>g. sgVersion g = v \<and> sgProfile g = payer) (signatures s)))"

definition insert_claim :: "(uuid \<Rightarrow> claim_row) \<Rightarrow> (db, error, claim_row) step" where
  "insert_claim f s = (let c = (f (nextId s))\<lparr>clId := nextId s, clStatus := ClaimOpen, clNotes := None,
     clResolvedBy := None, clResolvedAt := None\<rparr>
     in (Inr c, s\<lparr>claims := claims s @ [c], nextId := Suc (nextId s)\<rparr>))"

definition list_claims_for :: "uuid \<Rightarrow> db \<Rightarrow> claim_row list" where
  "list_claims_for pay s = rev (filter (\<lambda>c. clPayment c = pay) (claims s))"

definition update_claim ::
    "env \<Rightarrow> uuid \<Rightarrow> string \<Rightarrow> (claim_row \<Rightarrow> claim_row) \<Rightarrow> (db, error, claim_row) step" where
  "update_claim E i op f s =
     (case find_claim i s of
        None \<Rightarrow> (Inl (ConfigurationError op), s)
      | Some c \<Rightarrow> (Inr (f c), s\<lparr>claims := update_by clId i f (claims s)\<rparr>))"

definition record_resolution ::
    "env \<Rightarrow> uuid \<Rightarrow> bool \<Rightarrow> string option \<Rightarrow> uuid \<Rightarrow> (db, error, claim_row) step" where
  "record_resolution E i upheld notes user = update_claim E i ''payment_dispute recordResolution''
     (\<lambda>c. c\<lparr>clStatus := (if upheld then ClaimUpheld else ClaimDenied), clNotes := notes, clResolvedBy := Some user,
        clResolvedAt := Some (clock E)\<rparr>)"

fun claim_category_name :: "claim_category \<Rightarrow> string" where
  "claim_category_name UnauthorizedAch = ''unauthorized_ach''"
| "claim_category_name UnauthorizedDebitCard = ''unauthorized_debit_card''"
| "claim_category_name ProcessorDispute = ''processor_dispute''"

definition claim_audit :: "env \<Rightarrow> claim_row \<Rightarrow> uuid \<Rightarrow> string \<Rightarrow> json \<Rightarrow> string \<Rightarrow> (db, error, unit) step" where
  "claim_audit E c actor act v role = update (audit E ((blank_audit act (clock E))
     \<lparr>actorUserId := Some actor, actorRole := Some role, profileKind := Some (fst (clBy c)),
      profileId := Some (snd (clBy c)), ipAddress := clIp c, deviceInfo := clDevice c, newValue := v,
      targetResourceType := Value ''payment_dispute'', targetResourceId := Value (clId c)\<rparr>))"

definition claim_of ::
    "claim_deps \<Rightarrow> payment_row \<Rightarrow> uuid \<Rightarrow> claim_category \<Rightarrow> string \<Rightarrow> uuid \<Rightarrow> request_context \<Rightarrow> db \<Rightarrow> uuid \<Rightarrow> claim_row" where
  "claim_of D p ag cat why user ctx s i = \<lparr>clId = i, clPayment = paId p, clStatus = ClaimOpen, clCategory = cat,
     clExplanation = why, clBy = paPayer p, clByUser = user, clMandate = cmMandate D ag (paMethod p),
     clSignature = signature_reference ag (paPayer p) s, clIdentity = cmIdentity D (paPayer p), clIp = fst ctx,
     clDevice = snd ctx, clNotes = None, clResolvedBy = None, clResolvedAt = None\<rparr>"

definition claim_unauthorized_payment ::
    "claim_deps \<Rightarrow> env \<Rightarrow> uuid \<Rightarrow> claim_category \<Rightarrow> string \<Rightarrow> uuid \<Rightarrow> request_context \<Rightarrow> (db, error, claim_row) step" where
  "claim_unauthorized_payment D E pay cat why user ctx =
     andThen (asks (find_payment pay)) (\<lambda>found. case found of
       None \<Rightarrow> throw (ValidationError ''PaymentNotFound'')
     | Some p \<Rightarrow>
     andThen (guard (cmOwner D (paPayer p) = Some user) (ForbiddenError ''OnlyThePayer'')) (\<lambda>_.
     andThen (guard (paStatus p = PSucceeded) (ValidationError ''NotSucceeded'')) (\<lambda>_.
     andThen (guard (\<not> blank_text why) (ValidationError ''ExplanationRequired'')) (\<lambda>_.
     andThen (guard (\<not> (cat = UnauthorizedAch \<and> paMethod p \<noteq> Some Ach)) (ValidationError ''NotAch'')) (\<lambda>_.
     andThen (guard (\<not> (cat = UnauthorizedDebitCard \<and> paMethod p \<noteq> Some DebitCard)) (ValidationError ''NotDebitCard'')) (\<lambda>_.
     case paAgreement p of
       None \<Rightarrow> throw (ValidationError ''NoAgreement'')
     | Some ag \<Rightarrow>
     andThen (asks (claim_of D p ag cat why user ctx)) (\<lambda>f.
     andThen (insert_claim f) (\<lambda>c.
     andThen (update_status E pay PDisputed no_fields) (\<lambda>_.
     andThen (reverse_payment E pay DisputeAdjustment (Some why)) (\<lambda>_.
     andThen (claim_audit E c user ''payment_dispute_claimed''
       (JObj [(''category'', JStr (claim_category_name cat))]) ''agreement_party'') (\<lambda>_. ret c)))))))))))"

definition require_claim :: "uuid \<Rightarrow> db \<Rightarrow> error + claim_row" where
  "require_claim i s =
     (case find_claim i s of None \<Rightarrow> Inl (ValidationError ''PaymentDisputeNotFound'') | Some c \<Rightarrow> Inr c)"

definition record_processor_outcome ::
    "env \<Rightarrow> uuid \<Rightarrow> bool \<Rightarrow> uuid \<Rightarrow> platform_role \<Rightarrow> string option \<Rightarrow> (db, error, claim_row) step" where
  "record_processor_outcome E i upheld user role notes =
     andThen (require_admin role) (\<lambda>_.
     andThen (\<lambda>s. (require_claim i s, s)) (\<lambda>c.
     andThen (guard (clStatus c = ClaimOpen) (ValidationError ''WrongStatus'')) (\<lambda>_.
     andThen (if upheld
       then andThen (update_status E (clPayment c) PRefunded no_fields) (\<lambda>_.
         andThen (reverse_payment E (clPayment c) Refund
           (Some (case notes of None \<Rightarrow> ''Unauthorized-payment claim upheld'' | Some n \<Rightarrow> n))) (\<lambda>_. ret ()))
       else andThen (update_status E (clPayment c) PSucceeded no_fields) (\<lambda>_. ret ())) (\<lambda>_.
     andThen (record_resolution E i upheld notes user) (\<lambda>u.
     andThen (claim_audit E u user (if upheld then ''payment_dispute_upheld'' else ''payment_dispute_denied'')
       (JObj [(''resolutionNotes'', json_opt JStr notes)]) (platform_role_name role)) (\<lambda>_. ret u))))))"

definition get_payment_dispute :: "claim_deps \<Rightarrow> uuid \<Rightarrow> uuid \<Rightarrow> db \<Rightarrow> error + claim_row" where
  "get_payment_dispute D i user s =
     bindE (require_claim i s) (\<lambda>c.
     if cmOwner D (clBy c) \<noteq> Some user then Inl (ForbiddenError ''NoAccess'') else Inr c)"

definition list_disputes_for_payment :: "claim_deps \<Rightarrow> uuid \<Rightarrow> uuid \<Rightarrow> db \<Rightarrow> error + claim_row list" where
  "list_disputes_for_payment D pay user s =
     (case find_payment pay s of
        None \<Rightarrow> Inl (ValidationError ''PaymentNotFound'')
      | Some p \<Rightarrow>
          if Some user \<notin> {cmOwner D (paPayer p), cmOwner D (paRecipient p)}
          then Inl (ForbiddenError ''NoAccess'') else Inr (list_claims_for pay s))"

end
