(* ===== verification/DisputeLaws.thy ===== *)
theory DisputeLaws
  imports Disputes Lifecycles LedgerLaws
begin

text \<open>
  What holds of disputes (\<open>Disputes\<close>). About an agreement: a dispute follows its automaton, and whatever
  the parties and the administrators do with disputes, contracts, payments and the ledger stay as they
  are. About a payment: a claim takes the money back in the ledger, and what the decision adds to that.
\<close>

section \<open>The automaton of a dispute\<close>

inductive dispute_moves :: "dispute_row \<Rightarrow> dispute_row \<Rightarrow> bool" where
  answered: "diStatus d = DiOpened \<Longrightarrow> dispute_moves d (d\<lparr>diStatus := DiUnderReview, diResponse := Some text,
    diRespondedBy := Some user, diRespondedAt := Some t, diUpdatedAt := t\<rparr>)"
| unchanged: "diStatus d \<in> {DiOpened, DiUnderReview} \<Longrightarrow> dispute_moves d (d\<lparr>diStatus := DiResolvedNoChange,
    diNotes := ns, diResolvedAt := Some t, diUpdatedAt := t\<rparr>)"
| amending: "diStatus d \<in> {DiOpened, DiUnderReview} \<Longrightarrow> dispute_moves d (d\<lparr>diStatus := DiResolvedWithAmendment,
    diAmendment := Some m, diResolvedAt := Some t, diUpdatedAt := t\<rparr>)"
| restricted: "diStatus d = DiUnderReview \<Longrightarrow> dispute_moves d (d\<lparr>diStatus := DiRestricted,
    diRestrictedReason := Some why, diRestrictedBy := Some user, diRestrictedAt := Some t, diUpdatedAt := t\<rparr>)"
| lifted: "diStatus d = DiRestricted \<Longrightarrow> dispute_moves d (d\<lparr>diStatus := DiUnderReview, diLiftedAt := Some t, diUpdatedAt := t\<rparr>)"
| lifted_closed: "diStatus d = DiRestricted \<Longrightarrow> dispute_moves d (d\<lparr>diStatus := DiClosed, diNotes := ns,
    diLiftedAt := Some t, diClosedAt := Some t, diUpdatedAt := t\<rparr>)"
| closed: "diStatus d \<in> {DiResolvedNoChange, DiResolvedWithAmendment} \<Longrightarrow> dispute_moves d
    (d\<lparr>diStatus := DiClosed, diNotes := ns, diClosedAt := Some t, diUpdatedAt := t\<rparr>)"

definition fresh_dispute :: "dispute_row \<Rightarrow> bool" where
  "fresh_dispute d \<longleftrightarrow> diStatus d = DiOpened \<and> diResponse d = None \<and> diAmendment d = None \<and> diRestrictedBy d = None"

lemma dispute_moves_id: "dispute_moves d d' \<Longrightarrow> diId d' = diId d"
  by (induction rule: dispute_moves.induct) simp_all

text \<open>Contracts, money and what is on record of them; amendments are at most proposed.\<close>

definition nothing_binding :: "db \<Rightarrow> db \<Rightarrow> bool" where
  "nothing_binding s s' \<longleftrightarrow> agreements s' = agreements s \<and> versions s' = versions s \<and> signatures s' = signatures s \<and>
     installments s' = installments s \<and> payments s' = payments s \<and> entries s' = entries s \<and> accounts s' = accounts s \<and>
     settlements s' = settlements s \<and> cancellations s' = cancellations s \<and> claims s' = claims s \<and>
     nextId s \<le> nextId s' \<and>
     (\<exists>new. amendments s' = amendments s @ new \<and> list_all (\<lambda>m. amStatus m = AmProposed) new)"

interpretation lenient: state_preorder nothing_binding
proof
  show "nothing_binding s s" for s :: db by (simp add: nothing_binding_def)
  show "nothing_binding a c" if "nothing_binding a b" "nothing_binding b c" for a b c :: db
    using that by (auto simp: nothing_binding_def)
qed

lemma nothing_bindingI:
  assumes "agreements s' = agreements s" "versions s' = versions s" "signatures s' = signatures s"
    "installments s' = installments s" "payments s' = payments s" "entries s' = entries s" "accounts s' = accounts s"
    "settlements s' = settlements s" "cancellations s' = cancellations s" "claims s' = claims s"
    "nextId s \<le> nextId s'" "amendments s' = amendments s"
  shows "nothing_binding s s'"
  using assms by (simp add: nothing_binding_def)

interpretation di: lifecycle nothing_binding disputes diId dispute_moves fresh_dispute
    "\<lambda>xs s. s\<lparr>disputes := xs\<rparr>" "\<lambda>E d. d\<lparr>diUpdatedAt := clock E\<rparr>" update_dispute
  by unfold_locales (auto simp: dispute_moves_id update_dispute_def intro: nothing_bindingI split: option.split)

abbreviation dispute_tends :: "db \<Rightarrow> db \<Rightarrow> bool" where
  "dispute_tends \<equiv> tending disputes diId dispute_moves fresh_dispute nothing_binding"

abbreviation dispute_stands :: "db \<Rightarrow> uuid \<Rightarrow> dispute_row \<Rightarrow> db \<Rightarrow> bool" where
  "dispute_stands \<equiv> stands disputes diId dispute_tends"

section \<open>What a request leaves\<close>

lemma stands_dispute_tends: "dispute_stands s0 i d s \<Longrightarrow> dispute_tends s0 s"
  by (simp add: stands_def)

lemma leaves_dispute_ret: "leaves (dispute_stands s0 i d) (ret x) (\<lambda>_. dispute_tends s0) X"
  by (rule leaves_ret) (rule stands_dispute_tends)

lemma leaves_dispute_audit:
  assumes "\<And>x. leaves (dispute_stands s0 i d) (f x) Q X"
  shows "leaves (dispute_stands s0 i d) (andThen (dispute_audit E d' actor act v) f) Q X"
  unfolding dispute_audit_def using di.stands_audit assms by (rule leaves_audited)

lemma starts_dispute:
  assumes "leaves (dispute_stands s0 i d) n Q X" and "\<And>s. P s \<Longrightarrow> s = s0 \<and> require_dispute i s = Inr d"
  shows "leaves P n Q X"
  by (rule stands_start [OF assms(1)])
    (auto simp: require_dispute_def dest!: assms(2) split: option.splits)

text \<open>A part that writes other tables only: nothing binding, and no dispute.\<close>

lemma stands_beside:
  assumes "dispute_stands s0 i d s" and "disputes s' = disputes s" and "nothing_binding s s'"
  shows "dispute_stands s0 i d s'"
proof -
  have "nextId s \<le> nextId s'" using assms(3) by (simp add: nothing_binding_def)
  then have "dispute_tends s s'" using assms(2,3) by (intro di.tending_same)
  then show ?thesis using assms(1,2) unfolding stands_def by (auto intro: di.tending_trans)
qed

definition beside :: "(db, error, 'a) step \<Rightarrow> bool" where
  "beside m \<longleftrightarrow> (\<forall>s. disputes (snd (m s)) = disputes s \<and> nothing_binding s (snd (m s)))"

lemma leaves_beside:
  assumes "beside m" and "\<And>s. dispute_stands s0 i d s \<Longrightarrow> X s"
    and "\<And>x. leaves (dispute_stands s0 i d) (f x) Q X"
  shows "leaves (dispute_stands s0 i d) (andThen m f) Q X"
proof (rule leaves_then [OF _ assms(3)])
  have "dispute_stands s0 i d (snd (m s))" if "dispute_stands s0 i d s" for s
    using stands_beside [OF that] assms(1) by (simp add: beside_def)
  then show "leaves (dispute_stands s0 i d) m (\<lambda>_. dispute_stands s0 i d) X"
    using assms(2) by (fastforce simp: leaves_def split: prod.split sum.split)
qed

lemma besideI: "(\<And>s. disputes (snd (m s)) = disputes s) \<Longrightarrow> (\<And>s. nothing_binding s (snd (m s))) \<Longrightarrow> beside m"
  by (simp add: beside_def)

lemma beside_read [simp]: "beside (\<lambda>s. (g s, s))" "beside (raised r)" "beside (guard b e)" "beside (ret x)"
    "beside (asks h)"
  by (simp_all add: beside_def raised_def guard_def ret_def throw_def asks_def lenient.stays)

lemma beside_then:
  assumes "beside m" and "\<And>x. beside (f x)"
  shows "beside (andThen m f)"
  unfolding beside_def
proof
  fix s
  obtain r s1 where m: "m s = (r, s1)" by fastforce
  then have 1: "disputes s1 = disputes s" "nothing_binding s s1" using assms(1) by (auto simp: beside_def dest: spec [of _ s])
  show "disputes (snd (andThen m f s)) = disputes s \<and> nothing_binding s (snd (andThen m f s))"
  proof (cases r)
    case (Inr x)
    then have "andThen m f s = f x s1" using m by simp
    then show ?thesis using assms(2) [of x] 1 lenient.chains [of s s1] by (auto simp: beside_def)
  qed (use m 1 in \<open>simp add: andThen_def\<close>)
qed

lemma beside_audit: "beside (update (audit E p))"
  by (intro besideI) (auto simp: update_def intro: nothing_bindingI)

lemma beside_flag: "beside (set_dispute_flag A E j user b ctx)"
  unfolding set_dispute_flag_def evidence_audit_def
  by (intro beside_then beside_audit besideI) (auto simp: update_def update_dispute_flag_def asks_def guard_def
      ret_def throw_def intro: nothing_bindingI lenient.stays)

lemma beside_flags: "beside (flag_evidence A E user js)"
  by (induction js) (auto intro: beside_then beside_flag)

lemma beside_propose: "beside (propose_amendment A E ag user p)"
proof -
  have ins: "beside (insert_amendment E ag ch c)" for ch c
  proof -
    have "nothing_binding s (snd (insert_amendment E ag ch c s)) \<and> disputes (snd (insert_amendment E ag ch c s)) = disputes s" for s
      by (simp add: insert_amendment_def Let_def nothing_binding_def)
    then show ?thesis by (simp add: beside_def)
  qed
  then show ?thesis unfolding propose_amendment_def amendment_audit_def
    by (intro beside_then) (auto intro!: beside_then [OF ins] beside_then [OF beside_audit] split: prod.split)
qed

section \<open>Requests\<close>

datatype dispute_request =
    OpenDispute uuid dispute_category string "uuid list"
  | RespondToDispute uuid string "uuid list"
  | ResolveNoChange uuid "string option"
  | CloseDispute uuid
  | ResolveWithAmendment uuid amendment_change terms_input "string option" "string option"
  | SyncAmendment uuid
  | RestrictDispute uuid platform_role string
  | LiftRestriction uuid platform_role lift_target "string option"

fun perform_dispute :: "party_deps \<Rightarrow> env \<Rightarrow> uuid \<Rightarrow> dispute_request \<Rightarrow> (db, error, dispute_row) step" where
  "perform_dispute A E user (OpenDispute ag cat why evs) = open_dispute A E ag cat why evs user"
| "perform_dispute A E user (RespondToDispute i text evs) = respond_to_dispute A E i text evs user"
| "perform_dispute A E user (ResolveNoChange i notes) = resolve_no_change A E i user notes"
| "perform_dispute A E user (CloseDispute i) = close_dispute A E i user"
| "perform_dispute A E user (ResolveWithAmendment i ch t relief eff) = resolve_with_amendment A E i user ch t relief eff"
| "perform_dispute A E user (SyncAmendment i) = sync_amendment_progress A E i user"
| "perform_dispute A E user (RestrictDispute i role why) = restrict_dispute E i user role why"
| "perform_dispute A E user (LiftRestriction i role target notes) = lift_restriction E i user role target notes"

lemma beside_tends: "beside m \<Longrightarrow> leaves (dispute_tends s0) m (\<lambda>_. dispute_tends s0) (dispute_tends s0)"
proof -
  assume m: "beside m"
  have "dispute_tends s0 (snd (m s))" if "dispute_tends s0 s" for s
  proof (rule di.tending_trans [OF that di.tending_same])
    show "disputes (snd (m s)) = disputes s" "nothing_binding s (snd (m s))" using m by (simp_all add: beside_def)
    then show "nextId s \<le> nextId (snd (m s))" by (simp add: nothing_binding_def)
  qed
  then show ?thesis by (fastforce simp: leaves_def split: prod.split sum.split)
qed

lemma tends_open: "leaves (\<lambda>s. s = s0) (open_dispute A E ag cat why evs user) (\<lambda>_. dispute_tends s0) (dispute_tends s0)"
proof -
  have ins: "leaves (dispute_tends s0) (insert_dispute E ag cat why role pr user) (\<lambda>_. dispute_tends s0) (dispute_tends s0)" for role pr
  proof -
    have "dispute_tends s (snd (insert_dispute E ag cat why role pr user s))" for s
      unfolding tending_def
      by (auto simp: insert_dispute_def Let_def fresh_dispute_def intro: di.evolves_insert nothing_bindingI)
    then show ?thesis by (auto simp: leaves_def insert_dispute_def Let_def intro: di.tending_trans)
  qed
  have "leaves (dispute_tends s0) (open_dispute A E ag cat why evs user) (\<lambda>_. dispute_tends s0) (dispute_tends s0)"
    unfolding open_dispute_def dispute_audit_def
    by (intro leaves_glance leaves_guard) (auto intro!: leaves_then [OF beside_tends [OF beside_flags]]
        leaves_then [OF ins] leaves_audited di.tending_audit leaves_ret)
  then show ?thesis by (rule leaves_weaken) auto
qed

lemma tends_respond: "leaves (\<lambda>s. s = s0) (respond_to_dispute A E i text evs user) (\<lambda>_. dispute_tends s0) (dispute_tends s0)"
  unfolding respond_to_dispute_def record_dispute_response_def
  by (rule leaves_read, simp, rule starts_dispute)
    (auto intro!: leaves_glance leaves_guard leaves_beside [OF beside_flags] di.leaves_upd leaves_dispute_audit
      leaves_dispute_ret answered intro: stands_dispute_tends)

lemma starts_open_dispute:
  assumes "\<And>d. diStatus d \<in> {DiOpened, DiUnderReview} \<Longrightarrow> leaves (dispute_stands s0 i d) (f d) (\<lambda>_. dispute_tends s0) (dispute_tends s0)"
  shows "leaves (\<lambda>s. s = s0) (andThen (\<lambda>s. (require_open_or_under_review A i user s, s)) f) (\<lambda>_. dispute_tends s0) (dispute_tends s0)"
proof (rule leaves_read)
  fix d
  show "leaves (\<lambda>s. s = s0 \<and> require_open_or_under_review A i user s = Inr d) (f d) (\<lambda>_. dispute_tends s0) (dispute_tends s0)"
  proof (rule leaves_facts [where c = "diStatus d \<in> {DiOpened, DiUnderReview}"])
    show "diStatus d \<in> {DiOpened, DiUnderReview}" if "s = s0 \<and> require_open_or_under_review A i user s = Inr d" for s
      using that by (auto simp: require_open_or_under_review_def bindE_Inr_iff split: if_splits)
    show "leaves (\<lambda>s. s = s0 \<and> require_open_or_under_review A i user s = Inr d) (f d) (\<lambda>_. dispute_tends s0) (dispute_tends s0)"
      if "diStatus d \<in> {DiOpened, DiUnderReview}"
      by (rule starts_dispute [OF assms [OF that]]) (auto simp: require_open_or_under_review_def bindE_Inr_iff split: if_splits)
  qed
qed simp

lemma tends_no_change: "leaves (\<lambda>s. s = s0) (resolve_no_change A E i user notes) (\<lambda>_. dispute_tends s0) (dispute_tends s0)"
  unfolding resolve_no_change_def record_resolved_no_change_def
  by (rule starts_open_dispute) (intro di.leaves_upd leaves_dispute_audit leaves_dispute_ret; simp add: unchanged)

lemma tends_close: "leaves (\<lambda>s. s = s0) (close_dispute A E i user) (\<lambda>_. dispute_tends s0) (dispute_tends s0)"
  unfolding close_dispute_def record_dispute_closed_def
  by (rule leaves_read, simp, rule starts_dispute)
    (auto intro!: leaves_glance leaves_guard di.leaves_upd leaves_dispute_audit leaves_dispute_ret closed
      intro: stands_dispute_tends)

lemma tends_amending: "leaves (\<lambda>s. s = s0) (resolve_with_amendment A E i user ch t relief eff) (\<lambda>_. dispute_tends s0) (dispute_tends s0)"
  unfolding resolve_with_amendment_def record_resolved_with_amendment_def
  by (rule starts_open_dispute) (auto intro!: leaves_beside [OF beside_propose] di.leaves_upd leaves_dispute_audit
      leaves_dispute_ret amending intro: stands_dispute_tends)

lemma tends_sync: "leaves (\<lambda>s. s = s0) (sync_amendment_progress A E i user) (\<lambda>_. dispute_tends s0) (dispute_tends s0)"
  unfolding sync_amendment_progress_def record_dispute_closed_def
  by (rule leaves_read, simp, rule starts_dispute)
    (auto split: option.split intro!: leaves_glance leaves_guard di.leaves_upd leaves_dispute_audit leaves_dispute_ret closed
      intro: stands_dispute_tends)

lemma tends_restrict: "leaves (\<lambda>s. s = s0) (restrict_dispute E i user role why) (\<lambda>_. dispute_tends s0) (dispute_tends s0)"
  unfolding restrict_dispute_def record_restricted_def require_admin_def
  by (rule leaves_guard, simp, rule leaves_read, simp, rule starts_dispute)
    (auto intro!: leaves_guard di.leaves_upd leaves_dispute_audit leaves_dispute_ret restricted
      intro: stands_dispute_tends)

text \<open>Lifting a restriction with notes writes the row twice; together this is one move.\<close>

lemma update_by_twice: "(\<And>x. key (f x) = key x) \<Longrightarrow> update_by key i g (update_by key i f xs) = update_by key i (\<lambda>x. g (f x)) xs"
  by (simp add: update_by_def)

lemma leaves_twice:
  assumes "dispute_moves d ((g ((f d)\<lparr>diUpdatedAt := clock E\<rparr>))\<lparr>diUpdatedAt := clock E\<rparr>)"
    and "\<And>x. diId (f x) = diId x" and "\<And>x. diId (g x) = diId x"
    and "\<And>x. leaves (dispute_stands s0 i ((g ((f d)\<lparr>diUpdatedAt := clock E\<rparr>))\<lparr>diUpdatedAt := clock E\<rparr>)) (h x) Q X"
  shows "leaves (dispute_stands s0 i d) (andThen (update_dispute E i op f) (\<lambda>_. andThen (update_dispute E i op' g) h)) Q X"
proof (rule di.leaves_upd_to [where P' = "\<lambda>s. \<exists>s1. dispute_stands s0 i d s1 \<and>
      s = s1\<lparr>disputes := update_by diId i (\<lambda>d. (f d)\<lparr>diUpdatedAt := clock E\<rparr>) (disputes s1)\<rparr>"])
  let ?g = "\<lambda>d. g ((f d)\<lparr>diUpdatedAt := clock E\<rparr>)"
  have final: "dispute_stands s0 i ((?g d)\<lparr>diUpdatedAt := clock E\<rparr>)
      (s1\<lparr>disputes := update_by diId i (\<lambda>d. (?g d)\<lparr>diUpdatedAt := clock E\<rparr>) (disputes s1)\<rparr>)"
    if "dispute_stands s0 i d s1" for s1
    by (rule di.tending_upd [OF that, where f = ?g]) (use assms in simp_all)
  show "leaves (\<lambda>s. \<exists>s1. dispute_stands s0 i d s1 \<and>
      s = s1\<lparr>disputes := update_by diId i (\<lambda>d. (f d)\<lparr>diUpdatedAt := clock E\<rparr>) (disputes s1)\<rparr>)
      (andThen (update_dispute E i op' g) h) Q X"
  proof (rule di.leaves_upd_to [where r = "(f d)\<lparr>diUpdatedAt := clock E\<rparr>"
        and P' = "dispute_stands s0 i ((?g d)\<lparr>diUpdatedAt := clock E\<rparr>)"])
    show "leaves (dispute_stands s0 i ((?g d)\<lparr>diUpdatedAt := clock E\<rparr>)) (h ((?g d)\<lparr>diUpdatedAt := clock E\<rparr>)) Q X"
      by (rule assms(4))
    fix s assume "\<exists>s1. dispute_stands s0 i d s1 \<and>
      s = s1\<lparr>disputes := update_by diId i (\<lambda>d. (f d)\<lparr>diUpdatedAt := clock E\<rparr>) (disputes s1)\<rparr>"
    then obtain s1 where s1: "dispute_stands s0 i d s1"
        "s = s1\<lparr>disputes := update_by diId i (\<lambda>d. (f d)\<lparr>diUpdatedAt := clock E\<rparr>) (disputes s1)\<rparr>" by blast
    then show "find_dispute i s = Some ((f d)\<lparr>diUpdatedAt := clock E\<rparr>)"
      by (simp add: stands_def lookup_update_same assms(2))
    show "dispute_stands s0 i ((?g d)\<lparr>diUpdatedAt := clock E\<rparr>)
        (s\<lparr>disputes := update_by diId i (\<lambda>d. (g d)\<lparr>diUpdatedAt := clock E\<rparr>) (disputes s)\<rparr>)"
      using final [OF s1(1)] by (simp add: s1(2) update_by_twice assms(2))
  qed
qed (auto simp: stands_def)

lemma lifted_plain: "diStatus d = DiRestricted \<Longrightarrow> dispute_moves d
    (d\<lparr>diStatus := DiClosed, diLiftedAt := Some t, diClosedAt := Some t, diUpdatedAt := t\<rparr>)"
  using lifted_closed [where ns = "diNotes d" and d = d and t = t] by simp

lemma lifted_notes: "diStatus d = DiRestricted \<Longrightarrow> dispute_moves d
    (d\<lparr>diLiftedAt := Some t, diStatus := DiClosed, diNotes := ns, diClosedAt := Some t, diUpdatedAt := t\<rparr>)"
proof -
  have "d\<lparr>diLiftedAt := Some t, diStatus := DiClosed, diNotes := ns, diClosedAt := Some t, diUpdatedAt := t\<rparr> =
      d\<lparr>diStatus := DiClosed, diNotes := ns, diLiftedAt := Some t, diClosedAt := Some t, diUpdatedAt := t\<rparr>" by simp
  then show "diStatus d = DiRestricted \<Longrightarrow> dispute_moves d
      (d\<lparr>diLiftedAt := Some t, diStatus := DiClosed, diNotes := ns, diClosedAt := Some t, diUpdatedAt := t\<rparr>)"
    using lifted_closed [where ns = ns and d = d and t = t] by presburger
qed

lemma tends_lift: "leaves (\<lambda>s. s = s0) (lift_restriction E i user role target notes) (\<lambda>_. dispute_tends s0) (dispute_tends s0)"
proof -
  have close: "leaves (dispute_stands s0 i d) (andThen (record_restriction_lifted E i LiftAndClose) (\<lambda>_.
      andThen (record_dispute_closed E i ns) (\<lambda>w.
      andThen (dispute_audit E w user act v) (\<lambda>_. ret w)))) (\<lambda>_. dispute_tends s0) (dispute_tends s0)"
    if "diStatus d = DiRestricted" for d act v ns
    unfolding record_restriction_lifted_def record_dispute_closed_def lift_target.case
    by (rule leaves_twice) (use lifted_notes [OF that, of "clock E" ns] in \<open>auto intro!: leaves_dispute_audit leaves_dispute_ret\<close>)
  have once: "leaves (dispute_stands s0 i d) (andThen (record_restriction_lifted E i target) (\<lambda>u.
      andThen (dispute_audit E u user act v) (\<lambda>_. ret u))) (\<lambda>_. dispute_tends s0) (dispute_tends s0)"
    if "diStatus d = DiRestricted" for d act v
    unfolding record_restriction_lifted_def
    by (cases target) (auto intro!: di.leaves_upd leaves_dispute_audit leaves_dispute_ret lifted [OF that] lifted_plain [OF that])
  show ?thesis unfolding lift_restriction_def require_admin_def
    by (rule leaves_guard, simp, rule leaves_read, simp, rule starts_dispute)
      (cases "target = LiftAndClose \<and> notes \<notin> {None, Some []}"; auto intro!: leaves_guard close once intro: stands_dispute_tends)
qed

lemma dispute_request_tends:
  assumes "perform_dispute A E user q s = (x, s')"
  shows "dispute_tends s s'"
proof -
  have "leaves (\<lambda>x. x = s) (perform_dispute A E user q) (\<lambda>_. dispute_tends s) (dispute_tends s)"
    by (cases q) (simp_all add: tends_open tends_respond tends_no_change tends_close tends_amending tends_sync
        tends_restrict tends_lift)
  from leavesD [OF this refl assms] show ?thesis by (cases x) simp_all
qed

fun run_disputes :: "party_deps \<Rightarrow> (env \<times> uuid \<times> dispute_request) list \<Rightarrow> db \<Rightarrow> db" where
  "run_disputes A [] s = s"
| "run_disputes A ((E, user, q) # rs) s = run_disputes A rs (snd (perform_dispute A E user q s))"

lemma run_disputes_tends: "dispute_tends s (run_disputes A rs s)"
proof (induction rs arbitrary: s)
  case (Cons r rs)
  obtain E user q where r: "r = (E, user, q)" by (cases r)
  obtain x s1 where "perform_dispute A E user q s = (x, s1)" by fastforce
  then show ?case
    using di.tending_trans [OF dispute_request_tends Cons.IH [of s1], of A E user q s x] by (simp add: r)
qed simp

text \<open>
  C27. A dispute about an agreement binds nobody: whatever the parties and the administrators do with
  disputes, in any order, agreements, versions, signatures, schedules, payments, the ledger,
  settlements, cancellations and claims stay exactly as they are, and amendments are at most proposed;
  the platform records a dispute and does not decide it. The status of the agreement stays too: against
  the documents (FR-DISP-003, \<open>docs/STATE_MACHINES.md\<close>), an agreement in dispute does not become disputed.
\<close>

theorem disputes_bind_nobody: "nothing_binding s (run_disputes A rs s)"
  using run_disputes_tends [of s A rs] by (simp add: tending_def)

text \<open>What a dispute keeps, whatever happens to it.\<close>

definition dispute_kept :: "dispute_row \<Rightarrow> dispute_row \<Rightarrow> bool" where
  "dispute_kept d d' \<longleftrightarrow> diAgreement d' = diAgreement d \<and> diCategory d' = diCategory d \<and>
     diExplanation d' = diExplanation d \<and> diRole d' = diRole d \<and> diBy d' = diBy d \<and> diByUser d' = diByUser d \<and>
     (diStatus d \<in> {DiResolvedNoChange, DiResolvedWithAmendment} \<longrightarrow> diStatus d' \<in> {diStatus d, DiClosed} \<and>
        diAmendment d' = diAmendment d) \<and>
     (diStatus d \<noteq> DiOpened \<longrightarrow> diStatus d' \<noteq> DiOpened) \<and> (diStatus d = DiClosed \<longrightarrow> d' = d)"

definition dispute_ok :: "dispute_row \<Rightarrow> bool" where
  "dispute_ok d \<longleftrightarrow> (diStatus d = DiOpened \<longrightarrow> diResponse d = None) \<and>
     (diStatus d = DiRestricted \<longrightarrow> diRestrictedReason d \<noteq> None \<and> diRestrictedBy d \<noteq> None) \<and>
     (diStatus d = DiResolvedWithAmendment \<longrightarrow> diAmendment d \<noteq> None) \<and>
     (diStatus d \<in> {DiUnderReview, DiRestricted} \<longrightarrow> diResponse d \<noteq> None)"

lemma dispute_kept_moves: "dispute_moves d d' \<Longrightarrow> dispute_kept d d'"
  by (induction rule: dispute_moves.induct) (auto simp: dispute_kept_def)

lemma dispute_kept_trans: "dispute_kept a b \<Longrightarrow> dispute_kept b c \<Longrightarrow> dispute_kept a c"
  unfolding dispute_kept_def by auto

lemma dispute_kept_reached: "dispute_moves\<^sup>*\<^sup>* d d' \<Longrightarrow> dispute_kept d d'"
proof (induction rule: rtranclp_induct)
  case base
  show ?case by (simp add: dispute_kept_def)
next
  case (step d1 d2)
  show ?case by (rule dispute_kept_trans [OF step.IH dispute_kept_moves [OF step.hyps(2)]])
qed

lemma dispute_ok_moves: "dispute_moves d d' \<Longrightarrow> dispute_ok d \<Longrightarrow> dispute_ok d'"
  by (induction rule: dispute_moves.induct) (auto simp: dispute_ok_def)

lemma dispute_ok_reached: "dispute_moves\<^sup>*\<^sup>* d d' \<Longrightarrow> dispute_ok d \<Longrightarrow> dispute_ok d'"
  by (induction rule: rtranclp_induct) (auto intro: dispute_ok_moves)

text \<open>
  A dispute keeps its record: through any requests of any users, what the dispute says and who
  raised it never change; a resolution is only ever followed by the closing, a closed dispute does not
  change at all, and an answered one is never open again; one under review or restricted has been
  answered, a restriction carries its reason and its administrator, and a resolution by amendment
  the amendment.
\<close>

theorem dispute_record_is_kept:
  assumes "disputes s0 = []" and "s = run_disputes A rs s0" and "find_dispute i s = Some d"
  shows "\<exists>d'. find_dispute i (run_disputes A rs' s) = Some d' \<and> dispute_kept d d' \<and> dispute_ok d \<and> dispute_ok d'"
proof -
  have e: "evolves disputes diId dispute_moves fresh_dispute s (run_disputes A rs s)" for s rs
    using run_disputes_tends by (simp add: tending_def)
  have born: "keyed disputes diId s \<and> (\<exists>d0. fresh_dispute d0 \<and> dispute_moves\<^sup>*\<^sup>* d0 d)"
    using di.row_born [OF e assms(1)] assms(2,3) by blast
  then have "dispute_ok d" using dispute_ok_reached by (auto simp: dispute_ok_def fresh_dispute_def)
  moreover obtain d' where "find_dispute i (run_disputes A rs' s) = Some d'" "dispute_moves\<^sup>*\<^sup>* d d'"
    using di.row_carried [OF e] born assms(3) by blast
  ultimately show ?thesis using dispute_kept_reached dispute_ok_reached by blast
qed

definition dispute_start :: db where
  "dispute_start = empty_db\<lparr>agreements := [sample_agreement Active], versions := [sample_version], nextId := 30\<rparr>"

definition dispute_opening :: "(env \<times> uuid \<times> dispute_request) list" where
  "dispute_opening = [(toy_env, 101, OpenDispute 1 IncorrectAmount ''w'' []), (toy_env, 102, RespondToDispute 30 ''a'' []),
     (toy_env, 9, RestrictDispute 30 PlatformAdmin ''r'')]"

lemma dispute_restricted_sample:
  "map (\<lambda>d. (diId d, diStatus d)) (disputes (run_disputes sample_parties dispute_opening dispute_start)) = [(30, DiRestricted)]"
  by (simp add: dispute_opening_def dispute_start_def empty_db_def open_dispute_def respond_to_dispute_def restrict_dispute_def
      sample_parties_def require_dispute_def resolve_party_role_def require_agreement_def authorize_either_party_def
      authorize_party_def sample_agreement_def andThen_def get_agreement_def require_current_version_def
      require_version_def sample_version_def insert_dispute_def Let_def dispute_audit_def audit_def blank_text_def
      is_space_def record_dispute_response_def update_dispute_def party_of_def guard_def require_admin_def
      is_admin_role_def has_at_least_platform_role_def platform_role_rank_def record_restricted_def)

theorem dispute_record_is_kept_witness:
  "\<exists>d d'. find_dispute 30 (run_disputes sample_parties [(toy_env, 9, LiftRestriction 30 PlatformAdmin LiftAndClose (Some ''n''))]
     (run_disputes sample_parties dispute_opening dispute_start)) = Some d' \<and> dispute_kept d d' \<and> diStatus d = DiRestricted"
proof -
  let ?s = "run_disputes sample_parties dispute_opening dispute_start"
  obtain d where d: "disputes ?s = [d]" "diId d = 30" "diStatus d = DiRestricted"
    using dispute_restricted_sample by auto
  have "disputes dispute_start = []" "find_dispute 30 ?s = Some d" using d by (simp_all add: dispute_start_def empty_db_def)
  from dispute_record_is_kept [OF this(1) refl this(2)] d(3) show ?thesis by blast
qed

section \<open>Claims\<close>

text \<open>The path of a claim that is accepted.\<close>

lemma claim_accepted:
  assumes "claim_unauthorized_payment D E pay cat why user ctx s = (Inr c, s')"
  obtains p ag e s1 q where "find_payment pay s = Some p" "cmOwner D (paPayer p) = Some user" "paStatus p = PSucceeded"
    "paAgreement p = Some ag" "c = claim_of D p ag cat why user ctx s (nextId s)"
    "reverse_payment E pay DisputeAdjustment (Some why) (set_payment pay (with_status E PDisputed no_fields)
       (s\<lparr>claims := claims s @ [c], nextId := Suc (nextId s)\<rparr>)) = (Inr e, s1)"
    "s' = audit E q s1"
proof -
  obtain p where p: "find_payment pay s = Some p"
    using assms by (auto simp: claim_unauthorized_payment_def asks_def throw_def split: option.splits)
  then obtain ag where ag: "cmOwner D (paPayer p) = Some user" "paStatus p = PSucceeded" "paAgreement p = Some ag"
    using assms by (auto simp: claim_unauthorized_payment_def asks_def guard_def throw_def ret_def split: option.splits if_splits)
  let ?c = "claim_of D p ag cat why user ctx s (nextId s)"
  let ?s = "s\<lparr>claims := claims s @ [?c], nextId := Suc (nextId s)\<rparr>"
  have i: "insert_claim (claim_of D p ag cat why user ctx s) s = (Inr ?c, ?s)"
    by (simp add: insert_claim_def Let_def claim_of_def)
  have u: "update_status E pay PDisputed no_fields ?s = (Inr (with_status E PDisputed no_fields p),
      set_payment pay (with_status E PDisputed no_fields) ?s)"
    using p by (simp add: update_status_def provider_id_taken_def no_fields_def)
  from assms p ag have "andThen (reverse_payment E pay DisputeAdjustment (Some why)) (\<lambda>_.
      andThen (claim_audit E ?c user ''payment_dispute_claimed''
       (JObj [(''category'', JStr (claim_category_name cat))]) ''agreement_party'') (\<lambda>_. ret ?c))
      (set_payment pay (with_status E PDisputed no_fields) ?s) = (Inr c, s')"
    by (auto simp: claim_unauthorized_payment_def asks_def guard_def throw_def i u split: if_splits)
  then obtain e s1 where "reverse_payment E pay DisputeAdjustment (Some why)
      (set_payment pay (with_status E PDisputed no_fields) ?s) = (Inr e, s1)" "c = ?c" "\<exists>q. s' = audit E q s1"
    by (auto simp: andThen_def claim_audit_def split: prod.splits sum.splits)
  then show thesis using that p ag by blast
qed

lemma reversal_posts:
  assumes "ledger_ok s" and "journal_lookup (pay, ty) s = None" and "reverse_payment E pay ty why s = (Inr e, s')"
  shows "only_ledger_grew s s' \<and> ledger_ok s' \<and> entries s' = entries s @ [e] \<and> entry_key e = (pay, ty) \<and>
    (\<exists>c. journal_lookup (pay, PaymentCleared) s = Some c \<and>
       (if journal_lookup (pay, Payout) s = None
        then \<forall>acc. net acc (jePostings c) + net acc (jePostings e) = 0
        else \<exists>leg. find_leg CreditorProceedsPayable c = Some leg \<and>
          map leg_view (jePostings e) = [(CreditorClawbackExposure, Debit, poAmount leg),
            (ProcessorClearing, Credit, poAmount leg)]))"
proof -
  have posted: "only_ledger_grew s s' \<and> ledger_ok s' \<and> entries s' = entries s @ [e] \<and> entry_key e = (pay, ty)"
    if "posts (pay, ty) s (Inr e, s')"
    using that assms(2) journal_lookup_ok(2) [of "(pay, ty)" s' e] by (auto simp: posts_def)
  from assms(3) show ?thesis
  proof (cases rule: reverse_payment_cases [OF assms(1,2), where E = E and why = why])
    case (3 c leg e' s'')
    then show ?thesis using assms(3) posted by auto
  next
    case (4 c e' s'')
    then show ?thesis using assms(3) posted by (auto simp: net_mirror)
  qed auto
qed

lemma journal_lookup_cong: "entries s' = entries s \<Longrightarrow> journal_lookup k s' = journal_lookup k s"
  by (cases k) (simp add: journal_lookup_def find_by_payment_and_type_def)

text \<open>What the books show for a payment and one reversal entry of it.\<close>

definition taken_back :: "uuid \<Rightarrow> db \<Rightarrow> journal_entry \<Rightarrow> bool" where
  "taken_back pay s e \<longleftrightarrow> (\<exists>c. journal_lookup (pay, PaymentCleared) s = Some c \<and>
     (if journal_lookup (pay, Payout) s = None
      then \<forall>acc. net acc (jePostings c) + net acc (jePostings e) = 0
      else \<exists>leg. find_leg CreditorProceedsPayable c = Some leg \<and>
        map leg_view (jePostings e) = [(CreditorClawbackExposure, Debit, poAmount leg),
          (ProcessorClearing, Credit, poAmount leg)]))"

lemma taken_back_cong:
  assumes "entries s' = entries s"
  shows "taken_back pay s' e = taken_back pay s e"
  unfolding taken_back_def journal_lookup_cong [OF assms] ..

lemma claim_effects:
  assumes "claim_unauthorized_payment D E pay cat why user ctx s = (Inr c, s')" and "ledger_ok s"
    and "journal_lookup (pay, DisputeAdjustment) s = None"
  shows "\<exists>p ag e. find_payment pay s = Some p \<and> cmOwner D (paPayer p) = Some user \<and> paStatus p = PSucceeded \<and>
    paAgreement p = Some ag \<and> find_payment pay s' = Some (with_status E PDisputed no_fields p) \<and>
    entries s' = entries s @ [e] \<and> jePayment e = pay \<and> jeType e = DisputeAdjustment \<and> taken_back pay s e \<and>
    claims s' = claims s @ [c] \<and> clId c = nextId s \<and> clPayment c = pay \<and> ledger_ok s' \<and> clStatus c = ClaimOpen \<and> clMandate c = cmMandate D ag (paMethod p) \<and>
    clSignature c = signature_reference ag (paPayer p) s \<and> clIdentity c = cmIdentity D (paPayer p) \<and>
    agreements s' = agreements s \<and> installments s' = installments s"
proof -
  obtain p ag e s1 q where r: "find_payment pay s = Some p" "cmOwner D (paPayer p) = Some user" "paStatus p = PSucceeded"
    "paAgreement p = Some ag" and c: "c = claim_of D p ag cat why user ctx s (nextId s)"
    and rev: "reverse_payment E pay DisputeAdjustment (Some why) (set_payment pay (with_status E PDisputed no_fields)
       (s\<lparr>claims := claims s @ [c], nextId := Suc (nextId s)\<rparr>)) = (Inr e, s1)" and s': "s' = audit E q s1"
    using claim_accepted [OF assms(1)] .
  let ?s = "set_payment pay (with_status E PDisputed no_fields) (s\<lparr>claims := claims s @ [c], nextId := Suc (nextId s)\<rparr>)"
  have same: "entries ?s = entries s" "accounts ?s = accounts s" by simp_all
  then have ok: "ledger_ok ?s" using assms(2) ledger_ok_cong by blast
  have "journal_lookup (pay, DisputeAdjustment) ?s = None" using assms(3) journal_lookup_cong [OF same(1)] by simp
  from reversal_posts [OF ok this rev] have e: "only_ledger_grew ?s s1" "entries s1 = entries s @ [e]"
      "entry_key e = (pay, DisputeAdjustment)" "taken_back pay ?s e" "ledger_ok s1"
    using same by (simp_all add: taken_back_def)
  have p': "find_payment pay ?s = Some (with_status E PDisputed no_fields p)"
    using r(1) by (simp add: lookup_update_same with_status_def)
  have "paId p = pay" "ledger_ok s'"
    using lookup_by_Some_key [OF r(1)] e(5) ledger_ok_cong [of s' s1] s' by simp_all
  then show ?thesis
    using r e p' s' c taken_back_cong [OF same(1), of pay e]
    by (intro exI [of _ p] exI [of _ ag] exI [of _ e]) (simp add: only_ledger_grew_def claim_of_def)
qed

text \<open>
  A claim of the payer takes the money back at once: it is accepted only from the owner of the
  paying profile, about a succeeded payment of an agreement; the payment becomes disputed, one dispute
  adjustment is booked that cancels the clearing entry on every account (after a payout, it claws
  back the creditor's share), the claim is recorded as open, with the mandate, the signature and the
  identity on file at that time. Agreements and installments are left as they are: an agreement that
  this payment had completed stays paid in full.
\<close>

theorem claim_takes_money_back:
  assumes "claim_unauthorized_payment D E pay cat why user ctx s = (Inr c, s')" and "ledger_ok s"
    and "journal_lookup (pay, DisputeAdjustment) s = None"
  shows "\<exists>p ag e. find_payment pay s = Some p \<and> cmOwner D (paPayer p) = Some user \<and> paStatus p = PSucceeded \<and>
    paAgreement p = Some ag \<and> find_payment pay s' = Some (with_status E PDisputed no_fields p) \<and>
    entries s' = entries s @ [e] \<and> jePayment e = pay \<and> jeType e = DisputeAdjustment \<and> taken_back pay s e \<and>
    claims s' = claims s @ [c] \<and> clStatus c = ClaimOpen \<and> clMandate c = cmMandate D ag (paMethod p) \<and>
    clSignature c = signature_reference ag (paPayer p) s \<and> clIdentity c = cmIdentity D (paPayer p) \<and>
    agreements s' = agreements s \<and> installments s' = installments s"
  using claim_effects [OF assms] by auto

text \<open>A claim on the sample payment of 100, which had paid the agreement in full.\<close>

definition sample_claim_deps :: claim_deps where
  "sample_claim_deps = \<lparr>cmOwner = (\<lambda>p. Some (snd p)), cmMandate = (\<lambda>_ _. Some ''m''), cmIdentity = (\<lambda>_. None)\<rparr>"

definition sample_claim :: "db \<Rightarrow> (error + claim_row) \<times> db" where
  "sample_claim = claim_unauthorized_payment sample_claim_deps toy_env 7 UnauthorizedAch ''w'' 101 (None, JNull)"

lemma sample_claim_ok: "ledger_ok (sample_paid_db st)"
  using sample_cleared_ok ledger_ok_cong [of "sample_paid_db st" sample_cleared_db] by simp

lemma sample_claim_lookups:
  "ty \<noteq> PaymentCleared \<Longrightarrow> journal_lookup (7, ty) (sample_paid_db st) = None"
  by (simp add: journal_lookup_def find_by_payment_and_type_def sample_cleared_db_def)

lemma sample_claim_accepted: "\<exists>c s'. sample_claim (sample_paid_db st) = (Inr c, s')"
proof -
  let ?p = "sample_payment 7 PSucceeded 100"
  let ?c = "claim_of sample_claim_deps ?p (Suc 0) UnauthorizedAch ''w'' 101 (None, JNull) (sample_paid_db st) 30"
  let ?s = "set_payment 7 (with_status toy_env PDisputed no_fields)
      ((sample_paid_db st)\<lparr>claims := claims (sample_paid_db st) @ [?c], nextId := 31\<rparr>)"
  have ok: "ledger_ok ?s"
    using sample_claim_ok [of st] ledger_ok_cong [of ?s "sample_paid_db st"] by simp
  have l: "journal_lookup (7, ty) ?s = journal_lookup (7, ty) (sample_paid_db st)" for ty
    by (rule journal_lookup_cong) simp
  have n: "journal_lookup (7, PaymentCleared) (sample_paid_db st) \<noteq> None"
    by (simp add: journal_lookup_def find_by_payment_and_type_def sample_cleared_db_def)
  have d: "journal_lookup (7, DisputeAdjustment) ?s = None" by (simp only: l) (simp add: sample_claim_lookups)
  have p: "journal_lookup (7, Payout) ?s = None" by (simp only: l) (simp add: sample_claim_lookups)
  obtain e s1 where r: "reverse_payment toy_env 7 DisputeAdjustment (Some ''w'') ?s = (Inr e, s1)"
    by (cases rule: reverse_payment_cases [OF ok d, where E = toy_env and why = "Some ''w''"]) (use n l p in auto)
  have i: "insert_claim (claim_of sample_claim_deps ?p (Suc 0) UnauthorizedAch ''w'' 101 (None, JNull) (sample_paid_db st))
      (sample_paid_db st) = (Inr ?c, (sample_paid_db st)\<lparr>claims := claims (sample_paid_db st) @ [?c], nextId := 31\<rparr>)"
    by (simp add: insert_claim_def Let_def claim_of_def sample_paid_db_def)
  have u: "update_status toy_env 7 PDisputed no_fields ((sample_paid_db st)\<lparr>claims := claims (sample_paid_db st) @ [?c], nextId := 31\<rparr>)
      = (Inr (with_status toy_env PDisputed no_fields ?p), ?s)"
    by (simp add: update_status_def provider_id_taken_def no_fields_def sample_payment_def)
  have f: "paId ?p = 7" "paStatus ?p = PSucceeded" "paMethod ?p = Some Ach" "paAgreement ?p = Some (Suc 0)"
      "cmOwner sample_claim_deps (paPayer ?p) = Some 101"
    by (simp_all add: sample_payment_def sample_claim_deps_def)
  show ?thesis
    by (simp add: sample_claim_def claim_unauthorized_payment_def asks_def guard_def i u r claim_audit_def f
        blank_text_def is_space_def)
qed

theorem claim_takes_money_back_witness:
  "\<exists>c s' e. sample_claim (sample_paid_db PaidInFull) = (Inr c, s') \<and> entries s' = entries (sample_paid_db PaidInFull) @ [e] \<and>
     taken_back 7 (sample_paid_db PaidInFull) e \<and> map agStatus (agreements s') = [PaidInFull]"
proof -
  obtain c s' where r: "sample_claim (sample_paid_db PaidInFull) = (Inr c, s')" using sample_claim_accepted by blast
  from claim_takes_money_back [OF r [unfolded sample_claim_def] sample_claim_ok sample_claim_lookups]
  show ?thesis using r by auto
qed

section \<open>The decision of the processor\<close>

lemma outcome_starts:
  "andThen (guard b e) (\<lambda>_. andThen (\<lambda>s. (require_claim i s, s)) (\<lambda>c. andThen (guard (g c) e') (\<lambda>_. f c))) s = (Inr u, s') \<Longrightarrow>
   \<exists>c. b \<and> find_claim i s = Some c \<and> g c \<and> f c s = (Inr u, s')"
  by (cases b; cases "find_claim i s"; cases "g (the (find_claim i s))") (auto simp: require_claim_def)

definition resolved_claims :: "env \<Rightarrow> uuid \<Rightarrow> claim_status \<Rightarrow> string option \<Rightarrow> uuid \<Rightarrow> claim_row list \<Rightarrow> claim_row list" where
  "resolved_claims E i st w user = update_by clId i
     (\<lambda>c. c\<lparr>clStatus := st, clNotes := w, clResolvedBy := Some user, clResolvedAt := Some (clock E)\<rparr>)"

definition only_resolved :: "env \<Rightarrow> uuid \<Rightarrow> claim_status \<Rightarrow> string option \<Rightarrow> uuid \<Rightarrow> db \<Rightarrow> db \<Rightarrow> bool" where
  "only_resolved E i st w user s s' \<longleftrightarrow> entries s' = entries s \<and> payments s' = payments s \<and> agreements s' = agreements s \<and>
     installments s' = installments s \<and> claims s' = resolved_claims E i st w user (claims s)"

lemma resolution_recorded:
  assumes "andThen (record_resolution E i b w user) (\<lambda>u. andThen (claim_audit E u user act v role) (\<lambda>_. ret u)) s = (Inr u, s')"
  shows "only_resolved E i (if b then ClaimUpheld else ClaimDenied) w user s s'"
  using assms by (auto simp: andThen_Inr_iff record_resolution_def update_claim_def claim_audit_def only_resolved_def
      resolved_claims_def split: option.splits)

lemma outcome_recorded:
  assumes "record_processor_outcome E i upheld user role w s = (Inr u, s')"
  obtains (denied) c where "is_admin_role role" "find_claim i s = Some c" "clStatus c = ClaimOpen" "\<not> upheld"
    "only_resolved E i ClaimDenied w user (set_payment (clPayment c) (with_status E PSucceeded no_fields) s) s'"
  | (granted) c why e s1 where "is_admin_role role" "find_claim i s = Some c" "clStatus c = ClaimOpen" "upheld"
    "reverse_payment E (clPayment c) Refund (Some why) (set_payment (clPayment c) (with_status E PRefunded no_fields) s) = (Inr e, s1)"
    "only_resolved E i ClaimUpheld w user s1 s'"
proof -
  have status: "update_status E (clPayment c) st no_fields s = (Inr x, y) \<Longrightarrow>
      y = set_payment (clPayment c) (with_status E st no_fields) s" for st x y and c :: claim_row
    by (auto simp: update_status_def provider_id_taken_def no_fields_def split: option.splits)
  obtain c where c: "is_admin_role role" "find_claim i s = Some c" "clStatus c = ClaimOpen"
    and rest: "andThen (if upheld
       then andThen (update_status E (clPayment c) PRefunded no_fields) (\<lambda>_.
         andThen (reverse_payment E (clPayment c) Refund
           (Some (case w of None \<Rightarrow> ''Unauthorized-payment claim upheld'' | Some n \<Rightarrow> n))) (\<lambda>_. ret ()))
       else andThen (update_status E (clPayment c) PSucceeded no_fields) (\<lambda>_. ret ())) (\<lambda>_.
     andThen (record_resolution E i upheld w user) (\<lambda>u.
     andThen (claim_audit E u user (if upheld then ''payment_dispute_upheld'' else ''payment_dispute_denied'')
       (JObj [(''resolutionNotes'', json_opt JStr w)]) (platform_role_name role)) (\<lambda>_. ret u))) s = (Inr u, s')"
    using outcome_starts [OF assms [unfolded record_processor_outcome_def require_admin_def]] by blast
  show thesis
  proof (cases upheld)
    case False
    then obtain x y where "update_status E (clPayment c) PSucceeded no_fields s = (Inr x, y)"
      and r: "andThen (record_resolution E i False w user) (\<lambda>u. andThen (claim_audit E u user ''payment_dispute_denied''
         (JObj [(''resolutionNotes'', json_opt JStr w)]) (platform_role_name role)) (\<lambda>_. ret u)) y = (Inr u, s')"
      using rest by (auto simp: andThen_Inr_iff)
    then have "y = set_payment (clPayment c) (with_status E PSucceeded no_fields) s" by (intro status)
    then show thesis using resolution_recorded [OF r] denied [OF c False] by simp
  next
    case True
    then obtain x y e s1 where "update_status E (clPayment c) PRefunded no_fields s = (Inr x, y)"
      and rev: "reverse_payment E (clPayment c) Refund
         (Some (case w of None \<Rightarrow> ''Unauthorized-payment claim upheld'' | Some n \<Rightarrow> n)) y = (Inr e, s1)"
      and r: "andThen (record_resolution E i True w user) (\<lambda>u. andThen (claim_audit E u user ''payment_dispute_upheld''
         (JObj [(''resolutionNotes'', json_opt JStr w)]) (platform_role_name role)) (\<lambda>_. ret u)) s1 = (Inr u, s')"
      using rest by (auto simp: andThen_Inr_iff)
    then have "y = set_payment (clPayment c) (with_status E PRefunded no_fields) s" by (intro status)
    then show thesis using resolution_recorded [OF r] granted [OF c True] rev by simp
  qed
qed

text \<open>
  What a decision adds to the books: only an administrator records one, and only on an open claim.
  When the claim is denied, the payment counts as succeeded again, but the money stays taken back: the
  dispute adjustment is not reversed. When it is upheld, the payment becomes refunded and a refund
  entry is booked that mirrors the clearing entry a second time, so on every account the payment is
  now booked with the opposite sign.
\<close>

theorem claim_outcome_books:
  assumes "record_processor_outcome E i upheld user role w s = (Inr u, s')" and "ledger_ok s"
    and "find_claim i s = Some c" and "find_payment (clPayment c) s = Some p"
    and "journal_lookup (clPayment c, PaymentCleared) s = Some k" and "journal_lookup (clPayment c, Payout) s = None"
    and "journal_lookup (clPayment c, DisputeAdjustment) s = Some d" and "taken_back (clPayment c) s d"
    and "journal_lookup (clPayment c, Refund) s = None"
  shows "is_admin_role role \<and> clStatus c = ClaimOpen \<and>
    find_payment (clPayment c) s' = Some (with_status E (if upheld then PRefunded else PSucceeded) no_fields p) \<and>
    claims s' = resolved_claims E i (if upheld then ClaimUpheld else ClaimDenied) w user (claims s) \<and>
    (if upheld
     then \<exists>e. entries s' = entries s @ [e] \<and>
       (\<forall>acc. net acc (jePostings k) + net acc (jePostings d) + net acc (jePostings e) = - net acc (jePostings k))
     else entries s' = entries s \<and> (\<forall>acc. net acc (jePostings k) + net acc (jePostings d) = 0))"
  using assms(1)
proof (cases rule: outcome_recorded)
  case (denied c')
  then show ?thesis
    using assms(3-8) by (simp add: only_resolved_def lookup_update_same with_status_def taken_back_def)
next
  case (granted c' why e s1)
  let ?s = "set_payment (clPayment c) (with_status E PRefunded no_fields) s"
  have c': "c' = c" using granted(2) assms(3) by simp
  have ok: "ledger_ok ?s" using assms(2) ledger_ok_cong [of ?s s] by simp
  have l: "journal_lookup key ?s = journal_lookup key s" for key by (rule journal_lookup_cong) simp
  from reversal_posts [OF ok _ granted(5) [unfolded c']] assms(9)
  have e: "only_ledger_grew ?s s1" "entries s1 = entries s @ [e]" "\<forall>acc. net acc (jePostings k) + net acc (jePostings e) = 0"
    using assms(5,6) by (auto simp: l simp del: set_payment_frame(11) split: if_splits)
  moreover have "\<forall>acc. net acc (jePostings k) + net acc (jePostings d) = 0"
    using assms(5,6,8) by (simp add: taken_back_def)
  ultimately have "net acc (jePostings k) + net acc (jePostings d) + net acc (jePostings e) = - net acc (jePostings k)" for acc
    by (smt (verit))
  then show ?thesis
    using granted(1,3,4,6) c' e(1,2) assms(4)
    by (auto simp: only_resolved_def only_ledger_grew_def lookup_update_same with_status_def)
qed

text \<open>The sample claim is upheld.\<close>

lemma sample_claimed:
  obtains c s' e k where "sample_claim (sample_paid_db PaidInFull) = (Inr c, s')" "find_claim 30 s' = Some c"
    "clPayment c = 7" "clStatus c = ClaimOpen" "ledger_ok s'"
    "find_payment 7 s' = Some (with_status toy_env PDisputed no_fields (sample_payment 7 PSucceeded 100))"
    "entries s' = entries (sample_paid_db PaidInFull) @ [e]" "taken_back 7 s' e"
    "journal_lookup (7, PaymentCleared) s' = Some k" "journal_lookup (7, Payout) s' = None"
    "journal_lookup (7, DisputeAdjustment) s' = Some e" "journal_lookup (7, Refund) s' = None"
proof -
  let ?s = "sample_paid_db PaidInFull"
  obtain c s' where r: "sample_claim ?s = (Inr c, s')" using sample_claim_accepted by blast
  from claim_effects [OF r [unfolded sample_claim_def] sample_claim_ok sample_claim_lookups] obtain e where
    e: "find_payment 7 s' = Some (with_status toy_env PDisputed no_fields (sample_payment 7 PSucceeded 100))"
      "entries s' = entries ?s @ [e]" "jePayment e = 7" "jeType e = DisputeAdjustment" "taken_back 7 ?s e"
      "claims s' = [c]" "clId c = 30" "clPayment c = 7" "clStatus c = ClaimOpen" "ledger_ok s'"
    by (auto simp: sample_paid_db_def sample_cleared_db_def empty_db_def sample_payment_def)
  obtain k where k: "journal_lookup (7, PaymentCleared) ?s = Some k"
    by (simp add: journal_lookup_def find_by_payment_and_type_def sample_cleared_db_def)
  have none: "journal_lookup (7, Payout) ?s = None" "journal_lookup (7, Refund) ?s = None"
      "journal_lookup (7, DisputeAdjustment) ?s = None" by (rule sample_claim_lookups; simp)+
  have l: "journal_lookup (7, ty) s' = (case journal_lookup (7, ty) ?s of Some x \<Rightarrow> Some x
      | None \<Rightarrow> if ty = DisputeAdjustment then Some e else None)" for ty
    using e(2-4) by (auto simp: journal_lookup_def find_by_payment_and_type_def lookup_by_append split: option.split)
  show thesis
    by (rule that [OF r _ e(8,9,10,1,2)]) (use e(5-7) k none in \<open>simp_all add: l taken_back_def\<close>)
qed

theorem claim_outcome_books_witness:
  "\<exists>c s u s' k d e. sample_claim (sample_paid_db PaidInFull) = (Inr c, s) \<and>
     record_processor_outcome toy_env 30 True 9 PlatformAdmin None s = (Inr u, s') \<and> entries s' = entries s @ [e] \<and>
     journal_lookup (7, PaymentCleared) s = Some k \<and> journal_lookup (7, DisputeAdjustment) s = Some d \<and>
     net 1 (jePostings k) + net 1 (jePostings d) + net 1 (jePostings e) = - net 1 (jePostings k)"
proof -
  obtain c s d k where s: "sample_claim (sample_paid_db PaidInFull) = (Inr c, s)" "find_claim 30 s = Some c"
    "clPayment c = 7" "clStatus c = ClaimOpen" "ledger_ok s"
    "find_payment 7 s = Some (with_status toy_env PDisputed no_fields (sample_payment 7 PSucceeded 100))"
    "entries s = entries (sample_paid_db PaidInFull) @ [d]" "taken_back 7 s d"
    "journal_lookup (7, PaymentCleared) s = Some k" "journal_lookup (7, Payout) s = None"
    "journal_lookup (7, DisputeAdjustment) s = Some d" "journal_lookup (7, Refund) s = None"
    using sample_claimed .
  let ?s = "set_payment 7 (with_status toy_env PRefunded no_fields) s"
  have ok: "ledger_ok ?s" using s(5) ledger_ok_cong [of ?s s] by simp
  have l: "journal_lookup key ?s = journal_lookup key s" for key by (rule journal_lookup_cong) simp
  have n: "journal_lookup (7, Refund) ?s = None" unfolding l by (rule s(12))
  obtain e s1 where r: "reverse_payment toy_env 7 Refund (Some ''Unauthorized-payment claim upheld'') ?s = (Inr e, s1)"
    by (cases rule: reverse_payment_cases [OF ok n, where E = toy_env and why = "Some ''Unauthorized-payment claim upheld''"])
      (use s(9,10) l in auto)
  have c1: "claims s1 = claims s"
    using reversal_posts [OF ok n r] by (simp add: only_ledger_grew_def)
  have up: "update_status toy_env 7 PRefunded no_fields s =
      (Inr (with_status toy_env PRefunded no_fields (with_status toy_env PDisputed no_fields (sample_payment 7 PSucceeded 100))), ?s)"
    using s(6) by (simp add: update_status_def provider_id_taken_def no_fields_def)
  obtain u s' where o: "record_processor_outcome toy_env 30 True 9 PlatformAdmin None s = (Inr u, s')"
    using s(2-4) up r c1
    by (simp add: record_processor_outcome_def require_admin_def is_admin_role_def has_at_least_platform_role_def
        platform_role_rank_def require_claim_def record_resolution_def update_claim_def claim_audit_def)
  obtain e where e: "entries s' = entries s @ [e]"
      "\<And>acc. net acc (jePostings k) + net acc (jePostings d) + net acc (jePostings e) = - net acc (jePostings k)"
    using claim_outcome_books [OF o s(5,2), unfolded s(3), OF s(6,9,10,11,8,12)] by auto
  show ?thesis using s(1,9,11) o e by blast
qed

end
