(* ===== verification/Reconciliation.thy ===== *)
theory Reconciliation
  imports RetryExecution Disputes
begin

text \<open>
  Reconciliation (\<open>ledger/reconciliationService.ts\<close>) and its administration
  (\<open>ledger/ledgerAdminService.ts\<close>): the payments and the inbox are compared with the provider and
  the ledger, every disagreement goes into the exception queue, and an entry that is missing from the
  ledger is posted again when the evidence is beyond doubt. The provider's lookup of a payment is a
  parameter, \<open>None\<close> where it throws. An event's payload is an object, as the parser stores it.
\<close>

section \<open>Loops that collect what they found\<close>

fun collect :: "('a \<Rightarrow> ('s, 'e, 'b list) step) \<Rightarrow> 'a list \<Rightarrow> ('s, 'e, 'b list) step" where
  "collect f [] = ret []"
| "collect f (x # xs) = andThen (f x) (\<lambda>ys. andThen (collect f xs) (\<lambda>zs. ret (ys @ zs)))"

context state_preorder
begin

lemma kept_collect: "(\<And>x. x \<in> set xs \<Longrightarrow> keeps R (f x)) \<Longrightarrow> keeps R (collect f xs)"
  by (induction xs) (simp_all add: kept_simple kept_then)

end

section \<open>The exception queue\<close>

definition list_open_exceptions :: "db \<Rightarrow> exception_row list" where
  "list_open_exceptions s = filter exOpen (exceptions s)"

definition list_exceptions_for_payment :: "uuid \<Rightarrow> db \<Rightarrow> exception_row list" where
  "list_exceptions_for_payment p s = filter (\<lambda>x. exPayment x = Some p) (exceptions s)"

text \<open>\<open>recordException\<close>: an exception that is open already is returned as it is.\<close>

definition record_exception ::
    "env \<Rightarrow> exception_type \<Rightarrow> uuid option \<Rightarrow> string option \<Rightarrow> json \<Rightarrow> (db, error, exception_row list) step" where
  "record_exception E ty p ev details s =
     (case find_open_exception ty p ev s of
        Some x \<Rightarrow> (Inr [x], s)
      | None \<Rightarrow> (case insert_exception E ty p ev details s of (x, s') \<Rightarrow> (Inr [x], s')))"

definition record_exception_if ::
    "bool \<Rightarrow> env \<Rightarrow> exception_type \<Rightarrow> uuid option \<Rightarrow> string option \<Rightarrow> json \<Rightarrow>
     (db, error, exception_row list) step" where
  "record_exception_if b E ty p ev details =
     (if b then record_exception E ty p ev details else ret [])"

definition resolved_exception :: "env \<Rightarrow> uuid \<Rightarrow> string \<Rightarrow> exception_row \<Rightarrow> exception_row" where
  "resolved_exception E by_user why x =
     x\<lparr>exOpen := False, exResolvedAt := Some (clock E), exResolvedBy := Some by_user, exResolution := Some why\<rparr>"

text \<open>The row is found by its id alone, open or not.\<close>

definition resolve_exception :: "env \<Rightarrow> uuid \<Rightarrow> uuid \<Rightarrow> string \<Rightarrow> (db, error, exception_row) step" where
  "resolve_exception E i by_user why s =
     (if blank_text why then (Inl (ValidationError ''ResolutionReasonRequired''), s)
      else case lookup_by exId i (exceptions s) of
        None \<Rightarrow> (Inl (ConfigurationError ''reconciliation_exception resolve found no row''), s)
      | Some x \<Rightarrow> (Inr (resolved_exception E by_user why x),
          s\<lparr>exceptions := update_by exId i (resolved_exception E by_user why) (exceptions s)\<rparr>))"

section \<open>Automatic repair of the ledger\<close>

definition stale_pending_threshold_ms :: msec where
  "stale_pending_threshold_ms = 5 * 24 * 60 * 60 * 1000"

definition financial_repair_backoff_ms :: msec where
  "financial_repair_backoff_ms = 60 * 60 * 1000"

definition reversal_status_to_entry_type :: "payment_status \<Rightarrow> entry_type option" where
  "reversal_status_to_entry_type st =
     (case st of PRefunded \<Rightarrow> Some Refund | PReturned \<Rightarrow> Some Reversal | PReversed \<Rightarrow> Some Reversal
      | PDisputed \<Rightarrow> Some DisputeAdjustment | _ \<Rightarrow> None)"

definition find_unambiguous_trusted_event :: "string \<Rightarrow> string \<Rightarrow> string \<Rightarrow> db \<Rightarrow> webhook_row option" where
  "find_unambiguous_trusted_event pr pid ty s =
     (case find_trusted_financial_events pr pid ty s of [w] \<Rightarrow> Some w | _ \<Rightarrow> None)"

text \<open>The provider and its id of the payment, both present and not empty.\<close>

definition provider_reference :: "payment_row \<Rightarrow> (string \<times> string) option" where
  "provider_reference p =
     (case paProviderId p of
        None \<Rightarrow> None
      | Some pid \<Rightarrow> if paProviderName p = [] \<or> pid = [] then None else Some (paProviderName p, pid))"

text \<open>Amount and currency have to be there, and to be those of the payment.\<close>

definition evidence_matches :: "payment_row \<Rightarrow> json \<Rightarrow> bool" where
  "evidence_matches p data \<longleftrightarrow>
     non_negative_integer (data_number ''amountMinorUnits'' data) = Some (paAmount p) \<and>
     json_get_string ''currency'' data = Some (paCurrency p)"

text \<open>\<open>try { ...; return true } catch { return false }\<close>\<close>

definition succeeds :: "(db, error, 'a) step \<Rightarrow> db \<Rightarrow> bool \<times> db" where
  "succeeds m s = (case m s of (Inl e, s') \<Rightarrow> (False, s') | (Inr x, s') \<Rightarrow> (True, s'))"

definition try_repair_missing_ledger_entry :: "env \<Rightarrow> payment_row \<Rightarrow> db \<Rightarrow> bool \<times> db" where
  "try_repair_missing_ledger_entry E p s =
     (case paAgreement p of
        None \<Rightarrow> (False, s)
      | Some ag \<Rightarrow>
     (if paMethod p = Some ManualOffPlatform
      then succeeds (post_payment_cleared E \<lparr>ciPayment = paId p, ciAgreement = ag, ciCurrency = paCurrency p,
             ciGross = paAmount p, ciProcessorFee = None, ciPlatformFee = None\<rparr>) s
      else case provider_reference p of
        None \<Rightarrow> (False, s)
      | Some (pr, pid) \<Rightarrow>
     (case find_unambiguous_trusted_event pr pid ''payment.succeeded'' s of
        None \<Rightarrow> (False, s)
      | Some w \<Rightarrow>
     (if \<not> evidence_matches p (wePayload w) then (False, s)
      else case non_negative_integer (data_number ''processorFeeMinorUnits'' (wePayload w)) of
        None \<Rightarrow> (False, s)
      | Some fee \<Rightarrow>
     (if paAmount p < js_add fee (platform_fee p) then (False, s)
      else succeeds (post_payment_cleared E \<lparr>ciPayment = paId p, ciAgreement = ag, ciCurrency = paCurrency p,
             ciGross = paAmount p, ciProcessorFee = Some fee, ciPlatformFee = Some (platform_fee p)\<rparr>) s)))))"

definition reversal_event_type :: "payment_row \<Rightarrow> entry_type \<Rightarrow> string" where
  "reversal_event_type p ty =
     (case ty of Refund \<Rightarrow> ''payment.refunded''
      | Reversal \<Rightarrow> (if paStatus p = PReturned then ''payment.returned'' else ''payment.reversed'')
      | _ \<Rightarrow> ''payment.disputed'')"

definition try_repair_missing_reversal_entry ::
    "env \<Rightarrow> payment_row \<Rightarrow> entry_type \<Rightarrow> db \<Rightarrow> bool \<times> db" where
  "try_repair_missing_reversal_entry E p ty s =
     (case provider_reference p of
        None \<Rightarrow> (False, s)
      | Some (pr, pid) \<Rightarrow>
     (case find_unambiguous_trusted_event pr pid (reversal_event_type p ty) s of
        None \<Rightarrow> (False, s)
      | Some w \<Rightarrow>
     (if \<not> evidence_matches p (wePayload w) then (False, s)
      else succeeds (reverse_payment E (paId p) ty (json_get_string ''reason'' (wePayload w))) s)))"

text \<open>A repair that is refused goes into the queue and waits an hour.\<close>

definition repair_or_defer ::
    "env \<Rightarrow> msec \<Rightarrow> payment_row \<Rightarrow> json \<Rightarrow> (db \<Rightarrow> bool \<times> db) \<Rightarrow> (db, error, exception_row list) step" where
  "repair_or_defer E now p details repair s =
     (case repair s of
        (True, s1) \<Rightarrow> (Inr [], s1)
      | (False, s1) \<Rightarrow>
          andThen (record_exception E InternalPostingFailure (Some (paId p)) None details)
            (\<lambda>xs. andThen (update (mark_financial_repair_deferred (paId p) (now + financial_repair_backoff_ms)))
              (\<lambda>_. ret xs)) s1)"

definition repair_clearing :: "env \<Rightarrow> msec \<Rightarrow> payment_row \<Rightarrow> (db, error, exception_row list) step" where
  "repair_clearing E now p s =
     (if find_by_payment_and_type (paId p) PaymentCleared s \<noteq> None then (Inr [], s)
      else repair_or_defer E now p (JObj [(''status'', JStr (status_name (paStatus p)))])
             (try_repair_missing_ledger_entry E p) s)"

definition repair_reversal ::
    "env \<Rightarrow> msec \<Rightarrow> payment_row \<Rightarrow> entry_type \<Rightarrow> (db, error, exception_row list) step" where
  "repair_reversal E now p ty s =
     (if find_by_payment_and_type (paId p) ty s \<noteq> None then (Inr [], s)
      else repair_or_defer E now p (JObj [(''status'', JStr (status_name (paStatus p))),
             (''missingEntryType'', JStr (entry_type_name ty))])
             (try_repair_missing_reversal_entry E p ty) s)"

text \<open>The lifecycle of the agreement, once the payment is on the ledger.\<close>

definition repair_lifecycle :: "env \<Rightarrow> payment_row \<Rightarrow> db \<Rightarrow> db" where
  "repair_lifecycle E p s =
     (case paAgreement p of
        None \<Rightarrow> s
      | Some ag \<Rightarrow>
          if paStatus p = PSucceeded \<and> find_by_payment_and_type (paId p) PaymentCleared s \<noteq> None
          then mark_lifecycle_checked (paId p) (clock E) (check_and_advance True True E ag s) else s)"

definition repair_deferred :: "bool \<Rightarrow> msec \<Rightarrow> payment_row \<Rightarrow> bool" where
  "repair_deferred respect now p \<longleftrightarrow>
     respect \<and> (case paRepairNext p of None \<Rightarrow> False | Some t \<Rightarrow> now < t)"

definition repair_financial_effects ::
    "env \<Rightarrow> msec \<Rightarrow> bool \<Rightarrow> payment_row \<Rightarrow> (db, error, exception_row list) step" where
  "repair_financial_effects E now respect p =
     andThen (if paStatus p = PSucceeded \<and> \<not> repair_deferred respect now p
              then repair_clearing E now p else ret []) (\<lambda>xs.
     andThen (case reversal_status_to_entry_type (paStatus p) of
                None \<Rightarrow> ret []
              | Some ty \<Rightarrow> if repair_deferred respect now p then ret [] else repair_reversal E now p ty) (\<lambda>ys.
     andThen (update (repair_lifecycle E p)) (\<lambda>_. ret (xs @ ys))))"

section \<open>Comparison of one payment\<close>

datatype provider_payment_status = ProvPending | ProvSucceeded | ProvFailed

type_synonym provider_lookup = "string \<Rightarrow> provider_payment_status option"

definition provider_status_name :: "provider_payment_status \<Rightarrow> string" where
  "provider_status_name st =
     (case st of ProvPending \<Rightarrow> ''pending'' | ProvSucceeded \<Rightarrow> ''succeeded'' | ProvFailed \<Rightarrow> ''failed'')"

text \<open>The provider's id where it is not empty.\<close>

definition known_provider_id :: "payment_row \<Rightarrow> string option" where
  "known_provider_id p = (case paProviderId p of None \<Rightarrow> None | Some pid \<Rightarrow> if pid = [] then None else Some pid)"

definition optional_string_json :: "string option \<Rightarrow> json" where
  "optional_string_json x = (case x of None \<Rightarrow> JNull | Some t \<Rightarrow> JStr t)"

definition check_provider ::
    "provider_lookup \<Rightarrow> env \<Rightarrow> payment_row \<Rightarrow> (db, error, exception_row list) step" where
  "check_provider retrieve E p =
     (case known_provider_id p of
        None \<Rightarrow> ret []
      | Some pid \<Rightarrow>
     (case retrieve pid of
        None \<Rightarrow> record_exception E UnmatchedProviderTransaction (Some (paId p)) None
                 (JObj [(''providerPaymentId'', JStr pid)])
      | Some st \<Rightarrow>
          record_exception_if (paStatus p \<in> {PPending, PSucceeded, PFailed} \<and>
              provider_status_name st \<noteq> status_name (paStatus p)) E StatusMismatch (Some (paId p)) None
            (JObj [(''ourStatus'', JStr (status_name (paStatus p))),
              (''providerStatus'', JStr (provider_status_name st))])))"

definition record_mismatch ::
    "env \<Rightarrow> payment_row \<Rightarrow> string \<Rightarrow> mismatch \<Rightarrow> (db, error, exception_row list) step" where
  "record_mismatch E p ev m =
     (case m of (ty, expected, actual) \<Rightarrow>
        record_exception E ty (Some (paId p)) (Some ev) (details_json expected actual))"

definition check_event :: "env \<Rightarrow> payment_row \<Rightarrow> string \<Rightarrow> webhook_row \<Rightarrow> (db, error, exception_row list) step" where
  "check_event E p pid w =
     (if json_get_string ''providerPaymentId'' (wePayload w) \<noteq> Some pid then ret []
      else collect (record_mismatch E p (weEventId w)) (material_mismatches p (wePayload w)))"

definition check_events :: "env \<Rightarrow> payment_row \<Rightarrow> (db, error, exception_row list) step" where
  "check_events E p s =
     (case known_provider_id p of
        None \<Rightarrow> (Inr [], s)
      | Some pid \<Rightarrow> collect (check_event E p pid) (webhooks s) s)"

definition check_missing_transaction :: "env \<Rightarrow> payment_row \<Rightarrow> (db, error, exception_row list) step" where
  "check_missing_transaction E p =
     record_exception_if (paStatus p \<notin> {PPending, PScheduled} \<and> known_provider_id p = None)
       E MissingProviderTransaction (Some (paId p)) None (JObj [(''status'', JStr (status_name (paStatus p)))])"

definition check_stale_pending :: "env \<Rightarrow> payment_row \<Rightarrow> (db, error, exception_row list) step" where
  "check_stale_pending E p =
     record_exception_if (paStatus p = PPending \<and> stale_pending_threshold_ms < clock E - paCreatedAt p)
       E StalePendingSettlement (Some (paId p)) None (JObj [(''createdAt'', JStr (to_iso_string (paCreatedAt p)))])"

text \<open>The entries that take money back, with the statuses they belong to, in the order of the table.\<close>

definition reversing_entries :: "(entry_type \<times> payment_status list) list" where
  "reversing_entries =
     [(Refund, [PRefunded]), (Reversal, [PReturned, PReversed]), (DisputeAdjustment, [PDisputed])]"

definition check_reversal ::
    "env \<Rightarrow> payment_row \<Rightarrow> entry_type \<times> payment_status list \<Rightarrow> (db, error, exception_row list) step" where
  "check_reversal E p r s =
     (case r of (ty, sts) \<Rightarrow>
        record_exception_if (find_by_payment_and_type (paId p) ty s \<noteq> None \<and> paStatus p \<notin> set sts)
          E ReversalRefundMismatch (Some (paId p)) None
          (JObj [(''entryType'', JStr (entry_type_name ty)),
            (''expectedStatuses'', JArr (map (JStr \<circ> status_name) sts)),
            (''actualStatus'', JStr (status_name (paStatus p)))]) s)"

definition reconcile_row ::
    "provider_lookup \<Rightarrow> env \<Rightarrow> payment_row \<Rightarrow> (db, error, exception_row list) step" where
  "reconcile_row retrieve E p =
     andThen (check_missing_transaction E p) (\<lambda>a.
     andThen (check_provider retrieve E p) (\<lambda>b.
     andThen (check_events E p) (\<lambda>c.
     andThen (repair_financial_effects E (clock E) False p) (\<lambda>d.
     andThen (check_stale_pending E p) (\<lambda>e.
     andThen (collect (check_reversal E p) reversing_entries) (\<lambda>f.
     ret (a @ b @ c @ d @ e @ f)))))))"

definition reconcile_payment_attempt ::
    "provider_lookup \<Rightarrow> env \<Rightarrow> uuid \<Rightarrow> (db, error, exception_row list) step" where
  "reconcile_payment_attempt retrieve E i s =
     (case find_payment i s of
        None \<Rightarrow> (Inl (ValidationError ''PaymentNotFound''), s)
      | Some p \<Rightarrow> reconcile_row retrieve E p s)"

section \<open>Comparison of everything\<close>

definition sharing :: "payment_row list \<Rightarrow> string \<Rightarrow> payment_row list" where
  "sharing ps pid = filter (\<lambda>p. known_provider_id p = Some pid) ps"

definition check_duplicates :: "env \<Rightarrow> payment_row list \<Rightarrow> string \<Rightarrow> (db, error, exception_row list) step" where
  "check_duplicates E ps pid =
     collect (\<lambda>p. record_exception_if (1 < length (sharing ps pid)) E DuplicateTransaction (Some (paId p)) None
       (JObj [(''providerPaymentId'', JStr pid),
         (''siblingCount'', JNum (int (length (sharing ps pid)) - 1))])) (sharing ps pid)"

text \<open>The provider ids in the order of their first appearance.\<close>

definition provider_ids :: "payment_row list \<Rightarrow> string list" where
  "provider_ids ps = rev (remdups (rev (List.map_filter known_provider_id ps)))"

definition check_orphan :: "env \<Rightarrow> payment_row list \<Rightarrow> webhook_row \<Rightarrow> (db, error, exception_row list) step" where
  "check_orphan E ps w =
     (case json_get_string ''providerPaymentId'' (wePayload w) of
        None \<Rightarrow> ret []
      | Some pid \<Rightarrow>
          record_exception_if (pid \<noteq> [] \<and> (\<forall>p \<in> set ps. paProviderId p \<noteq> Some pid))
            E ProviderEventWithoutState None (Some (weEventId w))
            (JObj [(''providerPaymentId'', JStr pid), (''eventType'', JStr (weType w))]))"

definition reconcile_all :: "provider_lookup \<Rightarrow> env \<Rightarrow> (db, error, exception_row list) step" where
  "reconcile_all retrieve E s =
     andThen (collect (\<lambda>p. reconcile_payment_attempt retrieve E (paId p)) (payments s)) (\<lambda>a.
     andThen (collect (check_duplicates E (payments s)) (provider_ids (payments s))) (\<lambda>b.
     andThen (collect (check_orphan E (payments s)) (webhooks s)) (\<lambda>c.
     ret (a @ b @ c)))) s"

section \<open>The bounded batch of the scheduler\<close>

text \<open>\<open>candidates.set(payment.id, payment)\<close>: the place of the first, the value of the last.\<close>

definition add_candidate :: "payment_row \<Rightarrow> payment_row list \<Rightarrow> payment_row list" where
  "add_candidate p ps =
     (if paId p \<in> paId ` set ps then update_by paId (paId p) (\<lambda>_. p) ps else ps @ [p])"

definition repair_candidates :: "nat \<Rightarrow> msec \<Rightarrow> db \<Rightarrow> payment_row list" where
  "repair_candidates n now s =
     fold add_candidate (list_missing_clearing_candidates n now s @
       list_missing_reversal_candidates n now s @ list_lifecycle_repair_candidates n s) []"

definition repair_batch :: "env \<Rightarrow> nat \<Rightarrow> msec \<Rightarrow> (db, error, nat \<times> nat) step" where
  "repair_batch E n now s =
     andThen (collect (repair_financial_effects E now True) (repair_candidates n now s)) (\<lambda>xs.
     andThen (repair_legacy_lineage E n) (\<lambda>legacy.
     ret (length (repair_candidates n now s) + legacy, length xs))) s"

section \<open>Installments: a report only\<close>

definition list_installments_of :: "uuid \<Rightarrow> db \<Rightarrow> installment_row list" where
  "list_installments_of ag s =
     (case Option.bind (find_agreement ag s) agCurrentVersion of
        None \<Rightarrow> []
      | Some v \<Rightarrow> filter (\<lambda>i. inVersion i = v) (installments s))"

definition installment_reconciliation_text :: "uuid \<Rightarrow> string" where
  "installment_reconciliation_text i = ''installment_reconciliation:'' @ show_int (int i)"

definition expected_status :: "settlement_snapshot \<Rightarrow> installment_status \<Rightarrow> installment_status" where
  "expected_status x st = (if ssSatisfied x then InstPaid else if st = InstPaid then InstScheduled else st)"

definition check_installment :: "env \<Rightarrow> installment_row \<Rightarrow> (db, error, exception_row list) step" where
  "check_installment E i s =
     (if inStatus i = InstWaived then (Inr [], s)
      else case installment_settlement_tx (inId i) s of
        None \<Rightarrow> (Inr [], s)
      | Some (x, _, _) \<Rightarrow>
          record_exception_if (expected_status x (inStatus i) \<noteq> inStatus i) E AmountMismatch None
            (Some (installment_reconciliation_text (inId i)))
            (JObj [(''installmentScheduleItemId'', JStr (show_int (int (inId i)))),
              (''requiredAmountMinorUnits'', JNum (ssAmount x)),
              (''authoritativeNetSettledMinorUnits'', JNum (ssSettled x)),
              (''differenceMinorUnits'', JNum (js_sub (ssAmount x) (ssSettled x))),
              (''currentStatus'', status_json (inStatus i)),
              (''expectedStatus'', status_json (expected_status x (inStatus i))),
              (''contributingPaymentAttemptIds'', JArr (map (\<lambda>p. JStr (show_int (int p))) (ssContributing x)))]) s)"

definition reconcile_installments :: "env \<Rightarrow> uuid \<Rightarrow> (db, error, exception_row list) step" where
  "reconcile_installments E ag s = collect (check_installment E) (list_installments_of ag s) s"

section \<open>Administration of the ledger\<close>

definition is_owner_role :: "platform_role \<Rightarrow> bool" where
  "is_owner_role r = has_at_least_platform_role r PlatformOwner"

definition require_platform_owner :: "platform_role \<Rightarrow> (db, error, unit) step" where
  "require_platform_owner r = guard (is_owner_role r) (ForbiddenError ''OwnerRequired'')"

record ledger_view =
  lvBalance :: agreement_balance
  lvEntries :: "journal_entry list"
  lvExceptions :: "exception_row list"
  lvPayments :: "payment_row list"

definition list_payments_of_agreement :: "uuid \<Rightarrow> db \<Rightarrow> payment_row list" where
  "list_payments_of_agreement ag s = filter (\<lambda>p. paAgreement p = Some ag) (payments s)"

text \<open>The payments of the entries, each once, in the order of the entries. The view also shows the
  active mandate and card of the agreement, which are kept elsewhere (\<open>find_active_mandate\<close>,
  \<open>find_active_card\<close>).\<close>

definition agreement_ledger_view :: "env \<Rightarrow> platform_role \<Rightarrow> uuid \<Rightarrow> (db, error, ledger_view) step" where
  "agreement_ledger_view E role ag =
     andThen (require_admin role) (\<lambda>_.
     andThen (\<lambda>s. (get_agreement_balance ag s, s)) (\<lambda>bal.
     andThen (asks (list_for_agreement ag)) (\<lambda>es.
     andThen (\<lambda>s. case reconcile_installments E ag s of
         (Inl _, s') \<Rightarrow> (Inr [], s') | (Inr xs, s') \<Rightarrow> (Inr xs, s')) (\<lambda>inst.
     asks (\<lambda>s. \<lparr>lvBalance = bal, lvEntries = es,
       lvExceptions = concat (map (\<lambda>p. list_exceptions_for_payment p s) (rev (remdups (rev (map jePayment es))))) @ inst,
       lvPayments = list_payments_of_agreement ag s\<rparr>)))))"

definition admin_list_open_exceptions :: "platform_role \<Rightarrow> (db, error, exception_row list) step" where
  "admin_list_open_exceptions role = andThen (require_admin role) (\<lambda>_. asks list_open_exceptions)"

definition run_reconciliation :: "provider_lookup \<Rightarrow> env \<Rightarrow> platform_role \<Rightarrow> (db, error, exception_row list) step" where
  "run_reconciliation retrieve E role = andThen (require_admin role) (\<lambda>_. reconcile_all retrieve E)"

definition admin_resolve_exception ::
    "env \<Rightarrow> platform_role \<Rightarrow> uuid \<Rightarrow> uuid \<Rightarrow> string \<Rightarrow> (db, error, exception_row) step" where
  "admin_resolve_exception E role user i why =
     andThen (require_admin role) (\<lambda>_. resolve_exception E i user why)"

definition post_adjustment ::
    "env \<Rightarrow> platform_role \<Rightarrow> uuid \<Rightarrow> adjustment_input \<Rightarrow> (db, error, journal_entry) step" where
  "post_adjustment E role user inp =
     andThen (require_platform_owner role) (\<lambda>_. post_admin_adjustment E (inp\<lparr>aiActor := user\<rparr>))"

end
