(* ===== verification/ReconciliationLaws.thy ===== *)
theory ReconciliationLaws
  imports Reconciliation RetryLaws
begin

text \<open>
  What reconciliation guarantees (\<open>Reconciliation\<close>): it never moves a payment, posts only entries
  that belong to a payment's own status, and after a pass every disagreement that is left has its
  open exception.
\<close>

section \<open>Parts that leave payments, ledger, inbox and queue alone\<close>

definition silent :: "db \<Rightarrow> db \<Rightarrow> bool" where
  "silent s s' \<longleftrightarrow> quiet s s' \<and> exceptions s' = exceptions s"

interpretation silence: state_preorder silent
  by unfold_locales (auto simp: silent_def intro: quiet_trans)

lemma silent_refl [simp]: "silent s s"
  by (rule silence.stays)

lemma silent_completion: "silent s (check_and_advance True True E ag s)"
  unfolding silent_def using quiet_completion
  by (auto simp: check_and_advance_def decide_and_apply_def set_agreement_status_def split: option.splits)

lemma exceptions_applied: "apply_if_awaiting E i pay s = (r, s1) \<Longrightarrow> exceptions s1 = exceptions s"
  by (auto simp: apply_if_awaiting_def set_partial_def split: option.splits if_splits)

lemma exceptions_apply_correlated: "exceptions (snd (apply_correlated E p i s)) = exceptions s"
proof -
  obtain r s1 where a: "apply_if_awaiting E i (paId p) s = (r, s1)" by fastforce
  show ?thesis
    by (simp add: apply_correlated_def a record_conflict_evidence_def record_supersession_history_def
        partial_evidence_audit_def exceptions_applied [OF a] split: option.split sum.split prod.split)
qed

lemma silent_apply_cleared: "silent s (snd (apply_cleared_payment E pay s))"
  unfolding silent_def using quiet_apply_cleared
  by (simp add: apply_cleared_payment_def record_conflict_evidence_def partial_evidence_audit_def
      exceptions_apply_correlated split: option.split lineage.split)

lemma silent_set_retry: "silent s (set_retry i f s)"
  by (simp add: silent_def quiet_set_retry) (simp add: set_retry_def)

lemma silent_conflict: "silent s (record_legacy_conflict E i cand kind old s)"
  by (simp add: silent_def quiet_conflict) (simp add: record_legacy_conflict_def)

lemma silent_adopt: "silent s (snd (validate_and_adopt E i cand s))"
  using silent_conflict silent_set_retry by (auto simp: validate_and_adopt_def split: option.split)

lemma silent_deferred: "silent s (mark_resolution_deferred i t s)"
  by (simp add: mark_resolution_deferred_def silent_set_retry)

lemma silent_apply_repaired:
  "silent s (snd (case apply_cleared_payment E cand s of
       (Inl e, s1) \<Rightarrow> (Inr RepairDeferred, mark_resolution_deferred i t s1)
     | (Inr res, s1) \<Rightarrow>
         (case res of
            AppliedTo _ \<Rightarrow> (Inr Repaired, s1)
          | AlreadyApplied _ \<Rightarrow> (Inr AlreadyComplete, s1)
          | LineageNotCorrelated \<Rightarrow> (Inr RepairNotApplicable, s1)
          | ApplyConflict _ \<Rightarrow> (Inr RepairConflict, record_legacy_conflict E i cand kind old s1)
          | NotYetDurable _ \<Rightarrow> (Inr RepairDeferred, s1))))"
  using silent_apply_cleared [of s E cand] silence.chains [OF _ silent_conflict]
    silence.chains [OF _ silent_deferred]
  by (auto split: prod.splits sum.splits apply_outcome.splits)

lemma silent_repair: "keeps silent (repair_and_apply E i cand)"
  unfolding repair_and_apply_def
  by (intro silence.kept_then) (auto simp: keeps_def silent_adopt silent_apply_repaired)

lemma silent_repair_each: "keeps silent (repair_each E rs)"
proof (induction rs)
  case Nil
  show ?case by (simp add: silence.kept_simple)
next
  case (Cons r rs)
  have "silent s (snd (repair_and_apply E i p s))" for s i p
    using silent_repair [of E i p] by (simp add: keeps_def)
  then have "keeps silent (\<lambda>s. case find_by_idempotency_key (retry_key (rtId r)) s of
      None \<Rightarrow> (Inr RepairNotApplicable, s) | Some p \<Rightarrow> repair_and_apply E (rtId r) (paId p) s)"
    by (simp add: keeps_def split: option.split)
  then show ?case by (simp add: silence.kept_then Cons.IH)
qed

lemma silent_lineage: "keeps silent (repair_legacy_lineage E n)"
proof -
  have "keeps silent (andThen (repair_each E rs) (\<lambda>_. ret (length rs)))" for rs
    by (simp add: silence.kept_then silence.kept_simple silent_repair_each)
  then show ?thesis by (simp only: keeps_def repair_legacy_lineage_def Let_def) blast
qed

section \<open>The state since a pass began\<close>

text \<open>A payment without the two marks of reconciliation; an exception without its resolution.\<close>

definition unmarked :: "payment_row \<Rightarrow> payment_row" where
  "unmarked p = p\<lparr>paLifecycleChecked := None, paRepairNext := None\<rparr>"

definition exception_fact :: "exception_row \<Rightarrow> exception_row" where
  "exception_fact x = x\<lparr>exOpen := True, exResolvedAt := None, exResolvedBy := None, exResolution := None\<rparr>"

type_synonym exception_key = "exception_type \<times> uuid option \<times> string option"

definition open_key :: "exception_row \<Rightarrow> exception_key" where
  "open_key x = (exType x, exPayment x, exEvent x)"

definition open_keys :: "db \<Rightarrow> exception_key list" where
  "open_keys s = map open_key (list_open_exceptions s)"

text \<open>An entry that belongs to the status of its payment; one that takes money back has a clearing
  entry to take it from.\<close>

definition rightful :: "db \<Rightarrow> db \<Rightarrow> journal_entry \<Rightarrow> bool" where
  "rightful s0 s e \<longleftrightarrow> (\<exists>p \<in> set (payments s0). paId p = jePayment e \<and>
     (paStatus p = PSucceeded \<and> jeType e = PaymentCleared \<or>
      reversal_status_to_entry_type (paStatus p) = Some (jeType e) \<and>
        (\<exists>c \<in> set (entries s). entry_key c = (jePayment e, PaymentCleared))))"

definition since :: "db \<Rightarrow> db \<Rightarrow> bool" where
  "since s0 s \<longleftrightarrow> ledger_ok s \<and> take (length (entries s0)) (entries s) = entries s0 \<and>
     webhooks s = webhooks s0 \<and> map unmarked (payments s) = map unmarked (payments s0) \<and>
     take (length (exceptions s0)) (map exception_fact (exceptions s)) = map exception_fact (exceptions s0) \<and>
     distinct (open_keys s) \<and> (\<forall>e \<in> set (entries s). e \<in> set (entries s0) \<or> rightful s0 s e)"

definition moves_on :: "db \<Rightarrow> db \<Rightarrow> db \<Rightarrow> bool" where
  "moves_on s0 a b \<longleftrightarrow> (since s0 a \<longrightarrow> since s0 b \<and> set (entries a) \<subseteq> set (entries b) \<and>
     set (open_keys a) \<subseteq> set (open_keys b))"

lemma moves_on_refl [simp]: "moves_on s0 s s"
  by (simp add: moves_on_def)

interpretation moving: state_preorder "moves_on s0" for s0
  by unfold_locales (auto simp: moves_on_def)

lemma since_refl: "ledger_ok s \<Longrightarrow> distinct (open_keys s) \<Longrightarrow> since s s"
  by (simp add: since_def)

lemma since_cong:
  assumes "payments b = payments a" "entries b = entries a" "accounts b = accounts a"
    "webhooks b = webhooks a" "exceptions b = exceptions a"
  shows "since s0 b = since s0 a"
  using assms ledger_ok_cong [of b a]
  by (simp add: since_def open_keys_def list_open_exceptions_def rightful_def)

lemma moves_silent: "silent a b \<Longrightarrow> moves_on s0 a b"
  using since_cong [of b a s0]
  by (simp add: moves_on_def silent_def quiet_def open_keys_def list_open_exceptions_def)

lemma moves_marks:
  assumes "\<And>p. unmarked (f p) = unmarked p"
  shows "moves_on s0 a (set_payment i f a)"
proof -
  have "map unmarked (payments (set_payment i f a)) = map unmarked (payments a)"
    using assms by (simp add: set_payment_def update_by_def)
  then show ?thesis using ledger_ok_cong [of "set_payment i f a" a]
    by (simp add: moves_on_def since_def open_keys_def list_open_exceptions_def rightful_def)
qed

lemma moves_deferred: "moves_on s0 a (mark_financial_repair_deferred i t a)"
  and moves_checked: "moves_on s0 a (mark_lifecycle_checked i t a)"
  by (simp_all add: mark_financial_repair_deferred_def mark_lifecycle_checked_def moves_marks unmarked_def)

section \<open>Steps that only record\<close>

text \<open>
  The step records the keys \<open>K s\<close>: each is open afterwards, those that were not are appended to the
  queue, once each, and nothing else changes.
\<close>

definition records :: "(db \<Rightarrow> exception_key list) \<Rightarrow> (db, error, exception_row list) step \<Rightarrow> bool" where
  "records K m \<longleftrightarrow> (\<forall>s. \<exists>new n xs. m s = (Inr xs, s\<lparr>exceptions := exceptions s @ new, nextId := n\<rparr>) \<and>
     list_all exOpen new \<and> distinct (map open_key new) \<and>
     set (map open_key new) = set (K s) - set (open_keys s))"

definition steady :: "(db \<Rightarrow> exception_key list) \<Rightarrow> bool" where
  "steady K \<longleftrightarrow> (\<forall>s xs n. K (s\<lparr>exceptions := xs, nextId := n\<rparr>) = K s)"

lemma open_keys_append:
  "list_all exOpen new \<Longrightarrow> open_keys (s\<lparr>exceptions := exceptions s @ new, nextId := n\<rparr>) =
     open_keys s @ map open_key new"
  by (simp add: open_keys_def list_open_exceptions_def list_all_iff)

lemma find_open_None: "find_open_exception ty p ev s = None \<longleftrightarrow> (ty, p, ev) \<notin> set (open_keys s)"
  by (auto simp: find_open_exception_def find_None_iff open_keys_def list_open_exceptions_def open_key_def)

lemma records_exception: "records (\<lambda>_. [(ty, p, ev)]) (record_exception E ty p ev d)"
  unfolding records_def
proof
  fix s
  show "\<exists>new n xs. record_exception E ty p ev d s = (Inr xs, s\<lparr>exceptions := exceptions s @ new, nextId := n\<rparr>) \<and>
     list_all exOpen new \<and> distinct (map open_key new) \<and>
     set (map open_key new) = set [(ty, p, ev)] - set (open_keys s)"
  proof (cases "find_open_exception ty p ev s")
    case None
    then show ?thesis using find_open_None [of ty p ev s]
      by (auto simp: record_exception_def insert_exception_def Let_def open_key_def)
  next
    case (Some x)
    then have "(ty, p, ev) \<in> set (open_keys s)" using find_open_None [of ty p ev s] by simp
    then show ?thesis
      by (rule_tac exI [of _ "[]"], rule_tac exI [of _ "nextId s"]) (simp add: record_exception_def Some)
  qed
qed

lemma records_nothing: "records (\<lambda>_. []) (ret [])"
  unfolding records_def
  by (intro allI exI [of _ "[]"]) (rule_tac x = "nextId s" in exI, simp)

lemma records_if:
  "records (\<lambda>_. if b then [(ty, p, ev)] else []) (record_exception_if b E ty p ev d)"
  by (simp add: record_exception_if_def records_exception records_nothing)

lemma records_then:
  assumes "records K m" "\<And>x. records L (f x)" "steady L"
  shows "records (\<lambda>s. K s @ L s) (andThen m (\<lambda>x. andThen (f x) (\<lambda>y. ret (x @ y))))"
  unfolding records_def
proof
  fix s
  obtain new n xs where 1: "m s = (Inr xs, s\<lparr>exceptions := exceptions s @ new, nextId := n\<rparr>)"
      "list_all exOpen new" "distinct (map open_key new)"
      "set (map open_key new) = set (K s) - set (open_keys s)"
    using assms(1) unfolding records_def by blast
  let ?a = "s\<lparr>exceptions := exceptions s @ new, nextId := n\<rparr>"
  have a: "L ?a = L s" "open_keys ?a = open_keys s @ map open_key new"
    using assms(3) open_keys_append [OF 1(2)] by (simp_all add: steady_def)
  obtain new' n' ys where 2: "f xs ?a = (Inr ys, ?a\<lparr>exceptions := exceptions ?a @ new', nextId := n'\<rparr>)"
      "list_all exOpen new'" "distinct (map open_key new')"
      "set (map open_key new') = set (L s) - set (open_keys s @ map open_key new)"
    using assms(2) [of xs] unfolding records_def a(1) [symmetric] a(2) [symmetric] by blast
  have "andThen m (\<lambda>x. andThen (f x) (\<lambda>y. ret (x @ y))) s =
      (Inr (xs @ ys), s\<lparr>exceptions := exceptions s @ (new @ new'), nextId := n'\<rparr>)"
    using 1(1) 2(1) by simp
  moreover have "distinct (map open_key (new @ new'))"
    using 1(3) 2(3,4) by auto
  moreover have "set (map open_key (new @ new')) = set (K s @ L s) - set (open_keys s)"
    using 1(4) 2(4) by auto
  ultimately show "\<exists>new n xs. andThen m (\<lambda>x. andThen (f x) (\<lambda>y. ret (x @ y))) s =
      (Inr xs, s\<lparr>exceptions := exceptions s @ new, nextId := n\<rparr>) \<and>
     list_all exOpen new \<and> distinct (map open_key new) \<and>
     set (map open_key new) = set (K s @ L s) - set (open_keys s)"
    using 1(2) 2(2) by (metis list_all_append)
qed

lemma records_collect:
  assumes "\<And>x. x \<in> set xs \<Longrightarrow> records (K x) (f x)" "\<And>x. x \<in> set xs \<Longrightarrow> steady (K x)"
  shows "records (\<lambda>s. concat (map (\<lambda>x. K x s) xs)) (collect f xs) \<and> steady (\<lambda>s. concat (map (\<lambda>x. K x s) xs))"
  using assms
proof (induction xs)
  case Nil
  show ?case using records_nothing by (simp add: steady_def ret_def)
next
  case (Cons x xs)
  then have "records (\<lambda>s. concat (map (\<lambda>x. K x s) xs)) (collect f xs)"
    "steady (\<lambda>s. concat (map (\<lambda>x. K x s) xs))" "records (K x) (f x)" "steady (K x)" by simp_all
  then show ?case using records_then [of "K x" "f x"] by (simp add: steady_def)
qed

lemma moves_records:
  assumes "records K m"
  shows "keeps (moves_on s0) m"
  unfolding keeps_def
proof
  fix s
  obtain new n xs where 1: "m s = (Inr xs, s\<lparr>exceptions := exceptions s @ new, nextId := n\<rparr>)"
      "list_all exOpen new" "distinct (map open_key new)"
      "set (map open_key new) = set (K s) - set (open_keys s)"
    using assms unfolding records_def by blast
  let ?a = "s\<lparr>exceptions := exceptions s @ new, nextId := n\<rparr>"
  have "moves_on s0 s ?a" unfolding moves_on_def
  proof
    assume c: "since s0 s"
    have "length (map exception_fact (exceptions s0)) \<le> length (exceptions s)"
      using c unfolding since_def by (metis length_map length_take min.cobounded1)
    then have "take (length (exceptions s0)) (map exception_fact (exceptions ?a)) =
        take (length (exceptions s0)) (map exception_fact (exceptions s))" by simp
    moreover have "distinct (open_keys ?a)"
      using c 1(3,4) by (auto simp: open_keys_append [OF 1(2)] since_def)
    moreover have "ledger_ok ?a = ledger_ok s" by (rule ledger_ok_cong) simp_all
    ultimately have "since s0 ?a" using c unfolding since_def rightful_def by simp
    then show "since s0 ?a \<and> set (entries s) \<subseteq> set (entries ?a) \<and> set (open_keys s) \<subseteq> set (open_keys ?a)"
      by (simp add: open_keys_append [OF 1(2)])
  qed
  then show "moves_on s0 s (snd (m s))" by (simp add: 1(1))
qed

section \<open>Postings of a repair\<close>

definition on_table :: "db \<Rightarrow> payment_row \<Rightarrow> bool" where
  "on_table s0 p \<longleftrightarrow> unmarked p \<in> unmarked ` set (payments s0)"

lemma unmarked_simps [simp]:
  "paId (unmarked p) = paId p" "paStatus (unmarked p) = paStatus p"
  "paProviderId (unmarked p) = paProviderId p" "paAmount (unmarked p) = paAmount p"
  "paCurrency (unmarked p) = paCurrency p" "paCreatedAt (unmarked p) = paCreatedAt p"
  by (simp_all add: unmarked_def)

lemma on_tableD: "on_table s0 p \<Longrightarrow> \<exists>q \<in> set (payments s0). paId q = paId p \<and> paStatus q = paStatus p"
  unfolding on_table_def by (metis imageE unmarked_simps(1,2))

lemma since_on_table: "since s0 s \<Longrightarrow> p \<in> set (payments s) \<Longrightarrow> on_table s0 p"
  unfolding on_table_def since_def by (metis image_eqI list.set_map)

lemma moves_posting:
  assumes "ledger_ok a \<Longrightarrow> posts (i, ty) a r"
    and "\<And>e. ledger_ok a \<Longrightarrow> fst r = Inr e \<Longrightarrow> journal_lookup (i, ty) a = None \<Longrightarrow> entry_key e = (i, ty) \<Longrightarrow>
      entries (snd r) = entries a @ [e] \<Longrightarrow> rightful s0 (snd r) e"
  shows "moves_on s0 a (snd r)"
  unfolding moves_on_def
proof
  assume c: "since s0 a"
  then have ok: "ledger_ok a" by (simp add: since_def)
  have g: "only_ledger_grew a (snd r)" "ledger_ok (snd r)" using postsD [OF assms(1) [OF ok]] by blast+
  then have f: "payments (snd r) = payments a" "webhooks (snd r) = webhooks a" "exceptions (snd r) = exceptions a"
      "take (length (entries a)) (entries (snd r)) = entries a"
    by (simp_all add: only_ledger_grew_def)
  have new: "\<forall>e \<in> set (entries (snd r)). e \<in> set (entries a) \<or> rightful s0 (snd r) e"
  proof (cases "entries (snd r) = entries a")
    case False
    have p: "case fst r of Inl x \<Rightarrow> entries (snd r) = entries a
        | Inr e \<Rightarrow> journal_lookup (i, ty) (snd r) = Some e \<and> (case journal_lookup (i, ty) a of
            Some e0 \<Rightarrow> e = e0 \<and> entries (snd r) = entries a | None \<Rightarrow> entries (snd r) = entries a @ [e])"
      using assms(1) [OF ok] unfolding posts_def by blast
    obtain e where e: "fst r = Inr e" "journal_lookup (i, ty) (snd r) = Some e"
      using p False by (cases "fst r") auto
    moreover have e2: "journal_lookup (i, ty) a = None" "entries (snd r) = entries a @ [e]"
      using p False e(1) by (cases "journal_lookup (i, ty) a"; simp)+
    ultimately have e: "fst r = Inr e" "journal_lookup (i, ty) (snd r) = Some e"
        "journal_lookup (i, ty) a = None" "entries (snd r) = entries a @ [e]" by blast+
    have "entry_key e = (i, ty)"
      using e(2) unfolding journal_lookup_def find_by_payment_and_type_def by (auto dest: lookup_by_Some_key)
    then show ?thesis using assms(2) [OF ok] e by simp
  qed simp
  have sub: "set (entries a) \<subseteq> set (entries (snd r))" using f(4) by (metis set_take_subset)
  then have "rightful s0 a e \<Longrightarrow> rightful s0 (snd r) e" for e unfolding rightful_def by blast
  then have right: "\<forall>e \<in> set (entries (snd r)). e \<in> set (entries s0) \<or> rightful s0 (snd r) e"
    using c new unfolding since_def by blast
  have "take (length (entries s0)) (entries (snd r)) = entries s0"
    using c f(4) take_prefix_trans [of "entries s0" "entries a" "entries (snd r)"] by (simp add: since_def)
  then have "since s0 (snd r)"
    using c g(2) right by (simp add: since_def open_keys_def list_open_exceptions_def f(1,2,3))
  then show "since s0 (snd r) \<and> set (entries a) \<subseteq> set (entries (snd r)) \<and>
      set (open_keys a) \<subseteq> set (open_keys (snd r))"
    using sub by (simp add: open_keys_def list_open_exceptions_def f(3))
qed

lemma moves_cleared:
  assumes "on_table s0 p" and "paStatus p = PSucceeded" and "ciPayment i = paId p"
  shows "moves_on s0 a (snd (post_payment_cleared E i a))"
proof (rule moves_posting)
  assume "ledger_ok a"
  then show "posts (paId p, PaymentCleared) a (post_payment_cleared E i a)"
    using run_op_posts [of a "PostCleared i" E] assms(3) by simp
next
  fix e assume "entry_key e = (paId p, PaymentCleared)"
  then show "rightful s0 (snd (post_payment_cleared E i a)) e"
    using on_tableD [OF assms(1)] assms(2) unfolding rightful_def by auto
qed

lemma moves_reversed:
  assumes "on_table s0 p" and "reversal_status_to_entry_type (paStatus p) = Some ty"
  shows "moves_on s0 a (snd (reverse_payment E (paId p) ty why a))"
proof (rule moves_posting)
  assume "ledger_ok a"
  then show "posts (paId p, ty) a (reverse_payment E (paId p) ty why a)"
    using run_op_posts [of a "ReversePayment (paId p) ty why" E] by simp
next
  fix e
  assume ok: "ledger_ok a" and r: "fst (reverse_payment E (paId p) ty why a) = Inr e"
    and free: "journal_lookup (paId p, ty) a = None" and k: "entry_key e = (paId p, ty)"
    and es: "entries (snd (reverse_payment E (paId p) ty why a)) = entries a @ [e]"
  obtain c where "journal_lookup (paId p, PaymentCleared) a = Some c"
    using r by (cases rule: reverse_payment_cases [OF ok free, where E = E and why = why]) auto
  then have "c \<in> set (entries a)" "entry_key c = (paId p, PaymentCleared)"
    by (auto simp: journal_lookup_def find_by_payment_and_type_def lookup_by_Some_mem
        dest: lookup_by_Some_mem lookup_by_Some_key)
  then show "rightful s0 (snd (reverse_payment E (paId p) ty why a)) e"
    using on_tableD [OF assms(1)] assms(2) k es unfolding rightful_def by auto
qed

lemma state_succeeds: "snd (succeeds m s) = snd (m s)"
  by (simp add: succeeds_def split: prod.split sum.split)

lemma moves_repair_clearing_entry:
  assumes "on_table s0 p" and "paStatus p = PSucceeded"
  shows "moves_on s0 a (snd (try_repair_missing_ledger_entry E p a))"
proof -
  have m: "moves_on s0 a (snd (succeeds (post_payment_cleared E i) a))" if "ciPayment i = paId p" for i
    using moves_cleared [OF assms that, of a E] by (simp add: state_succeeds)
  show ?thesis
    by (simp add: try_repair_missing_ledger_entry_def m split: option.split)
qed

lemma moves_repair_reversal_entry:
  assumes "on_table s0 p" and "reversal_status_to_entry_type (paStatus p) = Some ty"
  shows "moves_on s0 a (snd (try_repair_missing_reversal_entry E p ty a))"
proof -
  have m: "moves_on s0 a (snd (succeeds (reverse_payment E (paId p) ty why) a))" for why
    using moves_reversed [OF assms, of a E why] by (simp add: state_succeeds)
  show ?thesis
    by (simp add: try_repair_missing_reversal_entry_def m split: option.split)
qed

lemma moves_repair_or_defer:
  assumes "\<And>a. moves_on s0 a (snd (repair a))"
  shows "keeps (moves_on s0) (repair_or_defer E now p d repair)"
proof -
  have "keeps (moves_on s0) (andThen (record_exception E InternalPostingFailure (Some (paId p)) None d)
      (\<lambda>xs. andThen (update (mark_financial_repair_deferred (paId p) (now + financial_repair_backoff_ms)))
        (\<lambda>_. ret xs)))"
    by (intro moving.kept_then moves_records [OF records_exception] moving.kept_update moving.kept_simple moves_deferred)
  then have "moves_on s0 a (snd (repair_or_defer E now p d repair a))" for a
    using assms [of a] moving.chains
    by (fastforce simp: repair_or_defer_def keeps_def split: prod.split bool.split)
  then show ?thesis by (simp add: keeps_def)
qed

lemma moves_lifecycle: "moves_on s0 a (repair_lifecycle E p a)"
  using moving.chains [OF moves_silent [OF silent_completion] moves_checked]
  by (simp add: repair_lifecycle_def split: option.split)

lemma moves_effects:
  assumes "on_table s0 p"
  shows "keeps (moves_on s0) (repair_financial_effects E now respect p)"
proof -
  have c: "keeps (moves_on s0) (repair_clearing E now p)" if "paStatus p = PSucceeded"
    using moves_repair_or_defer [OF moves_repair_clearing_entry [OF assms that]]
    by (simp add: keeps_def repair_clearing_def)
  have r: "keeps (moves_on s0) (repair_reversal E now p ty)"
    if "reversal_status_to_entry_type (paStatus p) = Some ty" for ty
    using moves_repair_or_defer [OF moves_repair_reversal_entry [OF assms that]]
    by (simp add: keeps_def repair_reversal_def)
  show ?thesis unfolding repair_financial_effects_def
    by (intro moving.kept_then moving.kept_update)
      (auto simp: c r moving.kept_simple moves_lifecycle split: option.split)
qed

section \<open>Every operation of reconciliation\<close>

definition missing_problems :: "payment_row \<Rightarrow> exception_key list" where
  "missing_problems p =
     (if paStatus p \<notin> {PPending, PScheduled} \<and> known_provider_id p = None
      then [(MissingProviderTransaction, Some (paId p), None)] else [])"

definition provider_problems :: "provider_lookup \<Rightarrow> payment_row \<Rightarrow> exception_key list" where
  "provider_problems retrieve p =
     (case known_provider_id p of None \<Rightarrow> [] | Some pid \<Rightarrow>
       (case retrieve pid of
          None \<Rightarrow> [(UnmatchedProviderTransaction, Some (paId p), None)]
        | Some st \<Rightarrow>
            if paStatus p \<in> {PPending, PSucceeded, PFailed} \<and> provider_status_name st \<noteq> status_name (paStatus p)
            then [(StatusMismatch, Some (paId p), None)] else []))"

definition event_problems :: "payment_row \<Rightarrow> string \<Rightarrow> webhook_row \<Rightarrow> exception_key list" where
  "event_problems p pid w =
     (if json_get_string ''providerPaymentId'' (wePayload w) \<noteq> Some pid then []
      else map (\<lambda>m. (fst m, Some (paId p), Some (weEventId w))) (material_mismatches p (wePayload w)))"

definition inbox_problems :: "payment_row \<Rightarrow> db \<Rightarrow> exception_key list" where
  "inbox_problems p s =
     (case known_provider_id p of None \<Rightarrow> [] | Some pid \<Rightarrow> concat (map (event_problems p pid) (webhooks s)))"

text \<open>The entry a payment of this status has to have.\<close>

definition owed_entry :: "payment_status \<Rightarrow> entry_type option" where
  "owed_entry st = (if st = PSucceeded then Some PaymentCleared else reversal_status_to_entry_type st)"

definition posting_problems :: "payment_row \<Rightarrow> db \<Rightarrow> exception_key list" where
  "posting_problems p s =
     (case owed_entry (paStatus p) of None \<Rightarrow> []
      | Some ty \<Rightarrow> if has_entry s (paId p) ty then [] else [(InternalPostingFailure, Some (paId p), None)])"

definition stale_problems :: "env \<Rightarrow> payment_row \<Rightarrow> exception_key list" where
  "stale_problems E p =
     (if paStatus p = PPending \<and> stale_pending_threshold_ms < clock E - paCreatedAt p
      then [(StalePendingSettlement, Some (paId p), None)] else [])"

definition reversal_problem :: "payment_row \<Rightarrow> db \<Rightarrow> entry_type \<times> payment_status list \<Rightarrow> exception_key list" where
  "reversal_problem p s r =
     (if has_entry s (paId p) (fst r) \<and> paStatus p \<notin> set (snd r)
      then [(ReversalRefundMismatch, Some (paId p), None)] else [])"

definition reversal_problems :: "payment_row \<Rightarrow> db \<Rightarrow> exception_key list" where
  "reversal_problems p s = concat (map (reversal_problem p s) reversing_entries)"

definition problems :: "provider_lookup \<Rightarrow> env \<Rightarrow> payment_row \<Rightarrow> db \<Rightarrow> exception_key list" where
  "problems retrieve E p s = missing_problems p @ provider_problems retrieve p @ inbox_problems p s @
     posting_problems p s @ stale_problems E p @ reversal_problems p s"

lemma has_entry_iff: "has_entry s i ty \<longleftrightarrow> find_by_payment_and_type i ty s \<noteq> None"
  by (auto simp: has_entry_def find_by_payment_and_type_def lookup_by_None_iff list_ex_iff)

lemma has_entry_found: "journal_lookup (i, ty) s = Some e \<Longrightarrow> has_entry s i ty"
  by (simp add: has_entry_iff journal_lookup_def)

lemma has_entry_mono: "set (entries a) \<subseteq> set (entries b) \<Longrightarrow> has_entry a i ty \<Longrightarrow> has_entry b i ty"
  by (auto simp: has_entry_def list_ex_iff)

lemma records_missing: "records (\<lambda>_. missing_problems p) (check_missing_transaction E p)"
  unfolding missing_problems_def check_missing_transaction_def by (rule records_if)

lemma records_provider: "records (\<lambda>_. provider_problems retrieve p) (check_provider retrieve E p)"
  unfolding provider_problems_def check_provider_def
  by (cases "known_provider_id p"; cases "retrieve (the (known_provider_id p))")
    (simp_all only: option.case option.sel records_nothing records_if records_exception)

lemma steady_const: "steady (\<lambda>_. ks)"
  by (simp add: steady_def)

lemma records_event: "records (\<lambda>_. event_problems p pid w) (check_event E p pid w)"
proof -
  have 1: "records (\<lambda>_. [(fst m, Some (paId p), Some (weEventId w))]) (record_mismatch E p (weEventId w) m)" for m
    by (cases m) (simp add: record_mismatch_def records_exception)
  have "records (\<lambda>s. concat (map (\<lambda>m. [(fst m, Some (paId p), Some (weEventId w))]) ms))
      (collect (record_mismatch E p (weEventId w)) ms)" for ms
    using records_collect [of ms "\<lambda>m _. [(fst m, Some (paId p), Some (weEventId w))]"] 1 steady_const by blast
  moreover have "concat (map (\<lambda>m. [(fst m, Some (paId p), Some (weEventId w))]) ms) =
      map (\<lambda>m. (fst m, Some (paId p), Some (weEventId w))) ms" for ms :: "mismatch list"
    by (induction ms) auto
  ultimately show ?thesis by (simp add: event_problems_def check_event_def records_nothing)
qed

lemma records_events: "records (inbox_problems p) (check_events E p)"
proof (cases "known_provider_id p")
  case None
  then show ?thesis using records_nothing by (simp add: records_def inbox_problems_def check_events_def)
next
  case (Some pid)
  have "records (\<lambda>s. concat (map (event_problems p pid) ws)) (collect (check_event E p pid) ws)" for ws
    using records_collect [of ws "\<lambda>w _. event_problems p pid w"] records_event steady_const by blast
  then show ?thesis using Some by (simp add: records_def inbox_problems_def check_events_def)
qed

lemma records_stale: "records (\<lambda>_. stale_problems E p) (check_stale_pending E p)"
  unfolding stale_problems_def check_stale_pending_def by (rule records_if)

lemma records_reversal: "records (\<lambda>s. reversal_problem p s r) (check_reversal E p r)"
  using records_if by (cases r) (simp add: records_def reversal_problem_def check_reversal_def has_entry_iff)

lemma records_reversals: "records (reversal_problems p) (collect (check_reversal E p) reversing_entries)"
proof -
  have "steady (\<lambda>s. reversal_problem p s r)" for r
    by (simp add: steady_def reversal_problem_def has_entry_def)
  then show ?thesis
    using records_collect [of reversing_entries "\<lambda>r s. reversal_problem p s r"] records_reversal
    unfolding reversal_problems_def by blast
qed

lemma moves_row:
  assumes "on_table s0 p"
  shows "keeps (moves_on s0) (reconcile_row retrieve E p)"
  unfolding reconcile_row_def
  by (intro moving.kept_then moving.kept_simple moves_effects [OF assms] moves_records [OF records_missing]
      moves_records [OF records_provider] moves_records [OF records_events]
      moves_records [OF records_stale] moves_records [OF records_reversals])

lemma moves_attempt: "keeps (moves_on s0) (reconcile_payment_attempt retrieve E i)"
proof -
  have "moves_on s0 s (snd (reconcile_row retrieve E p s))" if "find_payment i s = Some p" for s p
  proof (cases "since s0 s")
    case True
    then have "on_table s0 p" using that since_on_table lookup_by_Some_mem by metis
    then show ?thesis using moves_row by (simp add: keeps_def)
  qed (simp add: moves_on_def)
  then show ?thesis by (simp add: keeps_def reconcile_payment_attempt_def split: option.split)
qed

definition duplicate_problems :: "payment_row list \<Rightarrow> string \<Rightarrow> exception_key list" where
  "duplicate_problems ps pid = concat (map (\<lambda>p. if 1 < length (sharing ps pid)
     then [(DuplicateTransaction, Some (paId p), None)] else []) (sharing ps pid))"

definition orphan_problems :: "payment_row list \<Rightarrow> webhook_row \<Rightarrow> exception_key list" where
  "orphan_problems ps w =
     (case json_get_string ''providerPaymentId'' (wePayload w) of None \<Rightarrow> []
      | Some pid \<Rightarrow> if pid \<noteq> [] \<and> (\<forall>p \<in> set ps. paProviderId p \<noteq> Some pid)
          then [(ProviderEventWithoutState, None, Some (weEventId w))] else [])"

lemma records_duplicates: "records (\<lambda>_. duplicate_problems ps pid) (check_duplicates E ps pid)"
  unfolding duplicate_problems_def check_duplicates_def
  by (rule records_collect [THEN conjunct1, of _ "\<lambda>p _. if 1 < length (sharing ps pid)
     then [(DuplicateTransaction, Some (paId p), None)] else []"]) (rule records_if, rule steady_const)

lemma records_orphan: "records (\<lambda>_. orphan_problems ps w) (check_orphan E ps w)"
  unfolding orphan_problems_def check_orphan_def
  by (cases "json_get_string ''providerPaymentId'' (wePayload w)")
    (simp_all only: option.case records_nothing records_if)

lemma moves_all: "keeps (moves_on s0) (reconcile_all retrieve E)"
proof -
  have "keeps (moves_on s0)
     (andThen (collect (\<lambda>p. reconcile_payment_attempt retrieve E (paId p)) ps) (\<lambda>a.
      andThen (collect (check_duplicates E ps) (provider_ids ps)) (\<lambda>b.
      andThen (collect (check_orphan E ps) ws) (\<lambda>c. ret (a @ b @ c)))))" for ps ws
    by (intro moving.kept_then moving.kept_collect moving.kept_simple moves_attempt
        moves_records [OF records_duplicates] moves_records [OF records_orphan])
  then show ?thesis by (simp add: keeps_def reconcile_all_def)
qed

lemma add_candidate_set: "set (add_candidate p ps) \<subseteq> insert p (set ps)"
  by (auto simp: add_candidate_def update_by_def)

lemma candidates_on_table: "set (repair_candidates n now s) \<subseteq> set (payments s)"
proof -
  have "set (fold add_candidate qs ps) \<subseteq> set qs \<union> set ps" for qs ps
    using add_candidate_set by (induction qs arbitrary: ps) fastforce+
  then have "set (repair_candidates n now s) \<subseteq> set (list_missing_clearing_candidates n now s) \<union>
      set (list_missing_reversal_candidates n now s) \<union> set (list_lifecycle_repair_candidates n s)"
    unfolding repair_candidates_def by fastforce
  moreover have "set (oldest_first n (filter P (payments s))) \<subseteq> set (payments s)" for P
    using set_take_subset by (fastforce simp: oldest_first_def)
  then have "set (list_missing_clearing_candidates n now s) \<subseteq> set (payments s)"
      "set (list_missing_reversal_candidates n now s) \<subseteq> set (payments s)"
      "set (list_lifecycle_repair_candidates n s) \<subseteq> set (payments s)"
    unfolding list_missing_clearing_candidates_def list_missing_reversal_candidates_def
      list_lifecycle_repair_candidates_def by blast+
  ultimately show ?thesis by blast
qed

lemma moves_batch: "keeps (moves_on s0) (repair_batch E n now)"
proof -
  have "moves_on s0 s (snd (repair_batch E n now s))" if c: "since s0 s" for s
  proof -
    have "keeps (moves_on s0) (andThen (collect (repair_financial_effects E now True) (repair_candidates n now s))
       (\<lambda>xs. andThen (repair_legacy_lineage E n) (\<lambda>legacy.
          ret (length (repair_candidates n now s) + legacy, length xs))))"
    proof (intro moving.kept_then moving.kept_collect moving.kept_simple moves_effects)
      show "keeps (moves_on s0) (repair_legacy_lineage E n)"
        using silent_lineage moves_silent by (simp add: keeps_def)
    qed (use since_on_table [OF c] candidates_on_table in blast)
    then show ?thesis by (simp add: keeps_def repair_batch_def)
  qed
  then show ?thesis by (auto simp: keeps_def moves_on_def)
qed

lemma moves_installments: "keeps (moves_on s0) (reconcile_installments E ag)"
proof -
  have "moves_on s0 s (snd (check_installment E i s))" for i s
    using moves_records [OF records_if, unfolded keeps_def]
    by (simp add: check_installment_def split: option.split prod.split)
  then have "keeps (moves_on s0) (collect (check_installment E) is)" for "is"
    by (intro moving.kept_collect) (simp add: keeps_def)
  then show ?thesis by (simp add: keeps_def reconcile_installments_def)
qed

datatype reconciliation_op =
    ReconcilePayment uuid
  | ReconcileEverything
  | RepairBatch nat msec
  | ReconcileInstallments uuid
  | ResolveException uuid uuid string

fun reconciliation_step :: "provider_lookup \<Rightarrow> env \<Rightarrow> reconciliation_op \<Rightarrow> db \<Rightarrow> db" where
  "reconciliation_step retrieve E (ReconcilePayment i) s = snd (reconcile_payment_attempt retrieve E i s)"
| "reconciliation_step retrieve E ReconcileEverything s = snd (reconcile_all retrieve E s)"
| "reconciliation_step retrieve E (RepairBatch n now) s = snd (repair_batch E n now s)"
| "reconciliation_step retrieve E (ReconcileInstallments ag) s = snd (reconcile_installments E ag s)"
| "reconciliation_step retrieve E (ResolveException i user why) s = snd (resolve_exception E i user why s)"

definition run_reconciliations :: "(provider_lookup \<times> env \<times> reconciliation_op) list \<Rightarrow> db \<Rightarrow> db" where
  "run_reconciliations ops s = fold (\<lambda>(retrieve, E, op) s. reconciliation_step retrieve E op s) ops s"

lemma distinct_filtered:
  assumes "distinct (map f (filter P xs))" and "\<And>x. Q x \<Longrightarrow> P x"
  shows "distinct (map f (filter Q xs))"
proof -
  have "filter Q xs = filter Q (filter P xs)" using assms(2) by (auto intro: filter_cong)
  then show ?thesis using assms(1) distinct_map_filter by metis
qed

lemma since_resolved:
  assumes "since s0 s"
  shows "since s0 (snd (resolve_exception E i user why s))"
proof -
  let ?r = "resolved_exception E user why"
  let ?s = "s\<lparr>exceptions := update_by exId i ?r (exceptions s)\<rparr>"
  have "filter exOpen (update_by exId i ?r xs) = filter (\<lambda>x. exOpen x \<and> exId x \<noteq> i) xs" for xs
    by (induction xs) (auto simp: resolved_exception_def)
  then have "distinct (open_keys ?s)"
    using assms distinct_filtered [of open_key exOpen "exceptions s" "\<lambda>x. exOpen x \<and> exId x \<noteq> i"]
    by (simp add: since_def open_keys_def list_open_exceptions_def)
  moreover have "map exception_fact (exceptions ?s) = map exception_fact (exceptions s)"
    by (simp add: update_by_def exception_fact_def resolved_exception_def)
  ultimately have "since s0 ?s"
    using assms ledger_ok_cong [of ?s s] by (simp add: since_def rightful_def)
  then show ?thesis using assms by (simp add: resolve_exception_def split: option.split)
qed

lemma since_step: "since s0 s \<Longrightarrow> since s0 (reconciliation_step retrieve E op s)"
  using moves_attempt moves_all moves_batch moves_installments since_resolved
  by (cases op) (simp_all add: keeps_def moves_on_def)

lemma since_run: "since s0 s \<Longrightarrow> since s0 (run_reconciliations ops s)"
proof (induction ops arbitrary: s)
  case (Cons op ops)
  then show ?case using since_step by (cases op) (simp add: run_reconciliations_def)
qed (simp add: run_reconciliations_def)

text \<open>
  C22. Reconciliation never moves a payment. Over any passes, batches, reports and resolutions, whatever
  the provider answers: payments keep everything but the two marks of reconciliation, the inbox is
  untouched, the ledger stays balanced and only grows, and every entry it gains is the one the
  payment's own status calls for (a clearing entry only for a payment that succeeded, a reversal only
  on top of a clearing entry). Of the exception queue no row goes and no fact changes, and there is at
  most one open exception for a type, payment and event.
\<close>

theorem reconciliation_keeps_books:
  assumes "ledger_ok s" and "distinct (open_keys s)" and "s' = run_reconciliations ops s"
  shows "ledger_ok s' \<and> take (length (entries s)) (entries s') = entries s \<and>
    (\<forall>e \<in> set (entries s'). e \<in> set (entries s) \<or> rightful s s' e) \<and>
    map unmarked (payments s') = map unmarked (payments s) \<and> webhooks s' = webhooks s \<and>
    take (length (exceptions s)) (map exception_fact (exceptions s')) = map exception_fact (exceptions s) \<and>
    distinct (open_keys s')"
  using since_run [OF since_refl [OF assms(1,2)], of ops] unfolding assms(3) since_def by blast

lemma no_reversal_clears: "reversal_status_to_entry_type st \<noteq> Some PaymentCleared"
  by (simp add: reversal_status_to_entry_type_def split: payment_status.split)

section \<open>What a pass leaves\<close>

definition continues :: "db \<Rightarrow> db \<Rightarrow> db \<Rightarrow> bool" where
  "continues s0 a b \<longleftrightarrow> since s0 a \<and> since s0 b \<and> set (entries a) \<subseteq> set (entries b) \<and>
     set (open_keys a) \<subseteq> set (open_keys b)"

lemma continues_trans: "continues s0 a b \<Longrightarrow> continues s0 b c \<Longrightarrow> continues s0 a c"
  by (auto simp: continues_def)

lemma continues_since: "continues s0 a b \<Longrightarrow> since s0 b"
  by (simp add: continues_def)

lemma continues_keeps: "keeps (moves_on s0) m \<Longrightarrow> since s0 s \<Longrightarrow> m s = (r, s') \<Longrightarrow> continues s0 s s'"
  using keepsD by (fastforce simp: continues_def moves_on_def)

lemma records_run:
  assumes "records K m" and "since s0 s"
  obtains xs s' where "m s = (Inr xs, s')" "continues s0 s s'" "set (K s) \<subseteq> set (open_keys s')"
    "entries s' = entries s" "set (K s) \<subseteq> set (open_keys s) \<longrightarrow> exceptions s' = exceptions s"
proof -
  obtain new n xs where 1: "m s = (Inr xs, s\<lparr>exceptions := exceptions s @ new, nextId := n\<rparr>)"
      "list_all exOpen new" "set (map open_key new) = set (K s) - set (open_keys s)"
    using assms(1) unfolding records_def by blast
  let ?s = "s\<lparr>exceptions := exceptions s @ new, nextId := n\<rparr>"
  show thesis
  proof (rule that [OF 1(1)])
    show "continues s0 s ?s" using continues_keeps [OF moves_records [OF assms(1)] assms(2) 1(1)] .
    show "set (K s) \<subseteq> set (open_keys ?s)" using 1(3) by (auto simp: open_keys_append [OF 1(2)])
    show "set (K s) \<subseteq> set (open_keys s) \<longrightarrow> exceptions ?s = exceptions s"
    proof
      assume "set (K s) \<subseteq> set (open_keys s)"
      then have "set (map open_key new) = {}" unfolding 1(3) by (simp only: Diff_eq_empty_iff)
      then show "exceptions ?s = exceptions s" by simp
    qed
  qed simp
qed

lemma succeeds_exceptions:
  assumes "ledger_ok s" "posts k s (m s)"
  shows "exceptions (snd (succeeds m s)) = exceptions s"
    and "succeeds m s = (True, s1) \<Longrightarrow> journal_lookup k s1 \<noteq> None"
  using postsD(1) [OF assms(2)] assms(2)
  by (auto simp: state_succeeds only_ledger_grew_def succeeds_def posts_def split: prod.splits sum.splits)

lemma posts_cleared: "ledger_ok s \<Longrightarrow> posts (ciPayment i, PaymentCleared) s (post_payment_cleared E i s)"
  using run_op_posts [of s "PostCleared i" E] by simp

lemma posts_reversed: "ledger_ok s \<Longrightarrow> posts (i, ty) s (reverse_payment E i ty why s)"
  using run_op_posts [of s "ReversePayment i ty why" E] by simp

lemma repair_clearing_run:
  assumes "ledger_ok s"
  shows "exceptions (snd (try_repair_missing_ledger_entry E p s)) = exceptions s"
    and "try_repair_missing_ledger_entry E p s = (True, s1) \<Longrightarrow> has_entry s1 (paId p) PaymentCleared"
proof -
  have 1: "exceptions (snd (succeeds (post_payment_cleared E i) s)) = exceptions s" for i
    by (rule succeeds_exceptions(1) [where m = "post_payment_cleared E i", OF assms posts_cleared [OF assms]])
  have 2: "has_entry s1 (ciPayment i) PaymentCleared"
    if "succeeds (post_payment_cleared E i) s = (True, s1)" for i
    using succeeds_exceptions(2) [where m = "post_payment_cleared E i", OF assms posts_cleared [OF assms] that]
      has_entry_found by auto
  show "exceptions (snd (try_repair_missing_ledger_entry E p s)) = exceptions s"
    by (simp add: try_repair_missing_ledger_entry_def 1 split: option.split)
  show "has_entry s1 (paId p) PaymentCleared" if "try_repair_missing_ledger_entry E p s = (True, s1)"
    using that by (auto simp: try_repair_missing_ledger_entry_def split: option.splits if_splits dest!: 2)
qed

lemma repair_reversal_run:
  assumes "ledger_ok s"
  shows "exceptions (snd (try_repair_missing_reversal_entry E p ty s)) = exceptions s"
    and "try_repair_missing_reversal_entry E p ty s = (True, s1) \<Longrightarrow> has_entry s1 (paId p) ty"
proof -
  have 1: "exceptions (snd (succeeds (reverse_payment E (paId p) ty why) s)) = exceptions s" for why
    by (rule succeeds_exceptions(1) [where m = "reverse_payment E (paId p) ty why", OF assms posts_reversed [OF assms]])
  have 2: "has_entry s1 (paId p) ty" if "succeeds (reverse_payment E (paId p) ty why) s = (True, s1)" for why
    using succeeds_exceptions(2) [where m = "reverse_payment E (paId p) ty why", OF assms posts_reversed [OF assms] that]
      has_entry_found by auto
  show "exceptions (snd (try_repair_missing_reversal_entry E p ty s)) = exceptions s"
    by (simp add: try_repair_missing_reversal_entry_def 1 split: option.split)
  show "has_entry s1 (paId p) ty" if "try_repair_missing_reversal_entry E p ty s = (True, s1)"
    using that by (auto simp: try_repair_missing_reversal_entry_def split: option.splits if_splits elim: 2)
qed

lemma defer_run:
  assumes "\<And>a. moves_on s0 a (snd (repair a))" and "since s0 s"
    and "exceptions (snd (repair s)) = exceptions s"
    and "\<And>s1. repair s = (True, s1) \<Longrightarrow> has_entry s1 (paId p) ty"
  obtains xs s' where "repair_or_defer E now p d repair s = (Inr xs, s')"
    "has_entry s' (paId p) ty \<or> (InternalPostingFailure, Some (paId p), None) \<in> set (open_keys s')"
    "(InternalPostingFailure, Some (paId p), None) \<in> set (open_keys s) \<longrightarrow> exceptions s' = exceptions s"
proof -
  obtain b s1 where r: "repair s = (b, s1)" by fastforce
  have c: "since s0 s1" using assms(1) [of s] assms(2) r by (simp add: moves_on_def)
  obtain xs s2 where x: "record_exception E InternalPostingFailure (Some (paId p)) None d s1 = (Inr xs, s2)"
      "(InternalPostingFailure, Some (paId p), None) \<in> set (open_keys s2)"
      "(InternalPostingFailure, Some (paId p), None) \<in> set (open_keys s1) \<longrightarrow> exceptions s2 = exceptions s1"
    using records_run [OF records_exception c, of E InternalPostingFailure "Some (paId p)" None d]
    by (metis empty_subsetI insert_subset list.set(1,2))
  show thesis
  proof (cases b)
    case True
    show thesis by (rule that [of "[]" s1])
        (use True r assms(3,4) in \<open>simp_all add: repair_or_defer_def\<close>)
  next
    case False
    show thesis
      by (rule that [of xs "mark_financial_repair_deferred (paId p) (now + financial_repair_backoff_ms) s2"])
        (use False r x assms(3) in \<open>simp_all add: repair_or_defer_def mark_financial_repair_deferred_def
            set_payment_def open_keys_def list_open_exceptions_def\<close>)
  qed
qed

lemma repair_run:
  assumes "since s0 s" and "on_table s0 p"
  obtains xs s' where "repair_financial_effects E now respect p s = (Inr xs, s')" "continues s0 s s'"
    "\<not> repair_deferred respect now p \<longrightarrow> set (posting_problems p s') \<subseteq> set (open_keys s')"
    "set (posting_problems p s) \<subseteq> set (open_keys s) \<or> repair_deferred respect now p \<longrightarrow>
       exceptions s' = exceptions s"
proof -
  let ?k = "(InternalPostingFailure, Some (paId p), None)"
  let ?m = "repair_financial_effects E now respect p"
  have ok: "ledger_ok s" using assms(1) by (simp add: since_def)
  have life: "exceptions (repair_lifecycle E p a) = exceptions a" "entries (repair_lifecycle E p a) = entries a" for a
    using silent_completion [of _ E]
    by (simp_all add: repair_lifecycle_def mark_lifecycle_checked_def set_payment_def silent_def quiet_def
        split: option.split)
  note give = that
  have fin: thesis if m: "?m s = (Inr xs, repair_lifecycle E p s1)"
    and n: "\<not> repair_deferred respect now p \<longrightarrow> set (posting_problems p s1) \<subseteq> set (open_keys s1)"
    and e: "set (posting_problems p s) \<subseteq> set (open_keys s) \<or> repair_deferred respect now p \<longrightarrow>
      exceptions s1 = exceptions s" for xs s1
    by (rule give [OF m continues_keeps [OF moves_effects [OF assms(2)] assms(1) m]])
      (use n e in \<open>simp_all add: life posting_problems_def has_entry_def open_keys_def list_open_exceptions_def
        cong: option.case_cong\<close>)
  show thesis
  proof (cases "owed_entry (paStatus p)")
    case None
    then have "paStatus p \<noteq> PSucceeded" "reversal_status_to_entry_type (paStatus p) = None"
      by (auto simp: owed_entry_def split: if_splits)
    then show thesis
      by (intro fin [of "[]" s]) (simp_all add: repair_financial_effects_def posting_problems_def None)
  next
    case (Some ty)
    have pp: "posting_problems p a = (if has_entry a (paId p) ty then [] else [?k])" for a
      by (simp add: posting_problems_def Some)
    show thesis
    proof (cases "repair_deferred respect now p \<or> has_entry s (paId p) ty")
      case True
      then have "?m s = (Inr [], repair_lifecycle E p s)"
        using Some no_reversal_clears
        by (auto simp: repair_financial_effects_def repair_clearing_def repair_reversal_def owed_entry_def
            has_entry_iff reversal_status_to_entry_type_def split: if_splits option.split)
      then show thesis by (rule fin) (use True pp in auto)
    next
      case new: False
      show thesis
      proof (cases "paStatus p = PSucceeded")
        case True
        then have ty: "ty = PaymentCleared" "reversal_status_to_entry_type (paStatus p) = None"
          using Some by (auto simp: owed_entry_def reversal_status_to_entry_type_def)
        obtain xs s1 where r: "repair_or_defer E now p (JObj [(''status'', JStr (status_name (paStatus p)))])
              (try_repair_missing_ledger_entry E p) s = (Inr xs, s1)"
            "has_entry s1 (paId p) ty \<or> ?k \<in> set (open_keys s1)"
            "?k \<in> set (open_keys s) \<longrightarrow> exceptions s1 = exceptions s"
          by (rule defer_run [where ty = ty and repair = "try_repair_missing_ledger_entry E p" and p = p
                and E = E and now = now and d = "JObj [(''status'', JStr (status_name (paStatus p)))]",
                OF moves_repair_clearing_entry [OF assms(2) True] assms(1) repair_clearing_run(1) [OF ok]])
            (simp add: ty(1) repair_clearing_run(2) [OF ok], blast)
        show thesis
          by (rule fin [of xs s1]) (use new True ty r pp in \<open>auto simp: repair_financial_effects_def
            repair_clearing_def has_entry_iff\<close>)
      next
        case False
        then have ty: "reversal_status_to_entry_type (paStatus p) = Some ty" using Some by (simp add: owed_entry_def)
        obtain xs s1 where r: "repair_or_defer E now p (JObj [(''status'', JStr (status_name (paStatus p))),
                (''missingEntryType'', JStr (entry_type_name ty))])
              (try_repair_missing_reversal_entry E p ty) s = (Inr xs, s1)"
            "has_entry s1 (paId p) ty \<or> ?k \<in> set (open_keys s1)"
            "?k \<in> set (open_keys s) \<longrightarrow> exceptions s1 = exceptions s"
          by (rule defer_run [where ty = ty and repair = "try_repair_missing_reversal_entry E p ty" and p = p
                and E = E and now = now and d = "JObj [(''status'', JStr (status_name (paStatus p))),
                (''missingEntryType'', JStr (entry_type_name ty))]",
                OF moves_repair_reversal_entry [OF assms(2) ty] assms(1) repair_reversal_run(1) [OF ok]])
            (simp add: repair_reversal_run(2) [OF ok], blast)
        show thesis
          by (rule fin [of xs s1]) (use new False ty r pp in \<open>auto simp: repair_financial_effects_def
            repair_reversal_def has_entry_iff\<close>)
      qed
    qed
  qed
qed

section \<open>Every disagreement is noticed\<close>

definition noticed :: "provider_lookup \<Rightarrow> env \<Rightarrow> payment_row \<Rightarrow> db \<Rightarrow> bool" where
  "noticed retrieve E p s \<longleftrightarrow> set (problems retrieve E p s) \<subseteq> set (open_keys s)"

lemma inbox_steady: "since s0 a \<Longrightarrow> since s0 b \<Longrightarrow> inbox_problems p b = inbox_problems p a"
  by (simp add: since_def inbox_problems_def split: option.split)

lemma entries_problems:
  assumes "entries b = entries a"
  shows "posting_problems p b = posting_problems p a" "reversal_problems p b = reversal_problems p a"
proof -
  have h: "has_entry b i ty = has_entry a i ty" for i ty using assms by (simp add: has_entry_def)
  then have "reversal_problem p b = reversal_problem p a" by (intro ext) (simp add: reversal_problem_def)
  then show "reversal_problems p b = reversal_problems p a" by (simp add: reversal_problems_def)
  show "posting_problems p b = posting_problems p a" by (simp add: posting_problems_def h cong: option.case_cong)
qed

lemma reversal_later:
  assumes "continues s0 a b" and "payments_keyed s0" and "on_table s0 p"
  shows "set (reversal_problems p b) \<subseteq> set (reversal_problems p a)"
proof -
  have "has_entry a (paId p) ty" if h: "has_entry b (paId p) ty" "(ty, sts) \<in> set reversing_entries"
    "paStatus p \<notin> set sts" for ty sts
  proof -
    obtain e where e: "e \<in> set (entries b)" "jePayment e = paId p" "jeType e = ty"
      using h(1) by (auto simp: has_entry_def list_ex_iff)
    obtain q where q: "q \<in> set (payments s0)" "paId q = paId p" "paStatus q = paStatus p"
      using on_tableD [OF assms(3)] by blast
    have "paStatus q' = paStatus p" if "q' \<in> set (payments s0)" "paId q' = paId p" for q'
      using that q assms(2) inj_onD [of paId "set (payments s0)" q' q]
      by (simp add: payments_keyed_def distinct_map)
    moreover have "ty \<noteq> PaymentCleared" "reversal_status_to_entry_type (paStatus p) \<noteq> Some ty"
      using h(2,3) by (auto simp: reversing_entries_def reversal_status_to_entry_type_def split: payment_status.splits)
    ultimately have "\<not> rightful s0 b e" using e(2,3) by (auto simp: rightful_def)
    then have "e \<in> set (entries s0)" using e(1) assms(1) by (auto simp: continues_def since_def)
    moreover have "set (entries s0) \<subseteq> set (entries a)"
      using assms(1) set_take_subset [of "length (entries s0)" "entries a"] by (simp add: continues_def since_def)
    ultimately show ?thesis using e(2,3) by (auto simp: has_entry_def list_ex_iff)
  qed
  then show ?thesis by (fastforce simp: reversal_problems_def reversal_problem_def split: if_splits)
qed

lemma posting_later:
  assumes "continues s0 a b"
  shows "set (posting_problems p b) \<subseteq> set (posting_problems p a)"
  using assms has_entry_mono [of a b]
  by (auto simp: posting_problems_def continues_def split: option.splits if_splits)

lemma problems_later:
  assumes "continues s0 a b" and "payments_keyed s0" and "on_table s0 p"
  shows "set (problems retrieve E p b) \<subseteq> set (problems retrieve E p a)"
proof -
  show ?thesis
    using posting_later [OF assms(1)] reversal_later [OF assms] inbox_steady [of s0 a b p] assms(1)
    unfolding problems_def continues_def by auto
qed

lemma noticed_later:
  assumes "continues s0 a b" and "payments_keyed s0" and "on_table s0 p" and "noticed retrieve E p a"
  shows "noticed retrieve E p b"
  using problems_later [OF assms(1-3)] assms(1,4) unfolding noticed_def continues_def by blast

lemma open_keys_cong: "exceptions b = exceptions a \<Longrightarrow> open_keys b = open_keys a"
  by (simp add: open_keys_def list_open_exceptions_def)

lemma row_run:
  assumes "since s0 s" and "payments_keyed s0" and "on_table s0 p"
  obtains xs s' where "reconcile_row retrieve E p s = (Inr xs, s')" "continues s0 s s'"
    "noticed retrieve E p s'" "noticed retrieve E p s \<longrightarrow> exceptions s' = exceptions s"
proof -
  obtain x1 s1 where 1: "check_missing_transaction E p s = (Inr x1, s1)" "continues s0 s s1"
      "set (missing_problems p) \<subseteq> set (open_keys s1)" "entries s1 = entries s"
      "set (missing_problems p) \<subseteq> set (open_keys s) \<longrightarrow> exceptions s1 = exceptions s"
    by (rule records_run [OF records_missing assms(1)])
  obtain x2 s2 where 2: "check_provider retrieve E p s1 = (Inr x2, s2)" "continues s0 s1 s2"
      "set (provider_problems retrieve p) \<subseteq> set (open_keys s2)" "entries s2 = entries s1"
      "set (provider_problems retrieve p) \<subseteq> set (open_keys s1) \<longrightarrow> exceptions s2 = exceptions s1"
    by (rule records_run [OF records_provider continues_since [OF 1(2)]])
  obtain x3 s3 where 3: "check_events E p s2 = (Inr x3, s3)" "continues s0 s2 s3"
      "set (inbox_problems p s2) \<subseteq> set (open_keys s3)" "entries s3 = entries s2"
      "set (inbox_problems p s2) \<subseteq> set (open_keys s2) \<longrightarrow> exceptions s3 = exceptions s2"
    by (rule records_run [OF records_events continues_since [OF 2(2)]])
  obtain x4 s4 where 4: "repair_financial_effects E (clock E) False p s3 = (Inr x4, s4)" "continues s0 s3 s4"
      "set (posting_problems p s4) \<subseteq> set (open_keys s4)"
      "set (posting_problems p s3) \<subseteq> set (open_keys s3) \<longrightarrow> exceptions s4 = exceptions s3"
    by (rule repair_run [OF continues_since [OF 3(2)] assms(3), of E "clock E" False]) (simp add: repair_deferred_def)
  obtain x5 s5 where 5: "check_stale_pending E p s4 = (Inr x5, s5)" "continues s0 s4 s5"
      "set (stale_problems E p) \<subseteq> set (open_keys s5)" "entries s5 = entries s4"
      "set (stale_problems E p) \<subseteq> set (open_keys s4) \<longrightarrow> exceptions s5 = exceptions s4"
    by (rule records_run [OF records_stale continues_since [OF 4(2)]])
  obtain x6 s6 where 6: "collect (check_reversal E p) reversing_entries s5 = (Inr x6, s6)" "continues s0 s5 s6"
      "set (reversal_problems p s5) \<subseteq> set (open_keys s6)" "entries s6 = entries s5"
      "set (reversal_problems p s5) \<subseteq> set (open_keys s5) \<longrightarrow> exceptions s6 = exceptions s5"
    by (rule records_run [OF records_reversals continues_since [OF 5(2)]])
  have run: "reconcile_row retrieve E p s = (Inr (x1 @ x2 @ x3 @ x4 @ x5 @ x6), s6)"
    by (simp add: reconcile_row_def 1(1) 2(1) 3(1) 4(1) 5(1) 6(1))
  have adv: "continues s0 s s6" using 1(2) 2(2) 3(2) 4(2) 5(2) 6(2) continues_trans by blast
  have o: "set (open_keys s1) \<subseteq> set (open_keys s6)" "set (open_keys s2) \<subseteq> set (open_keys s6)"
      "set (open_keys s3) \<subseteq> set (open_keys s6)" "set (open_keys s4) \<subseteq> set (open_keys s6)"
      "set (open_keys s5) \<subseteq> set (open_keys s6)"
    using 2(2) 3(2) 4(2) 5(2) 6(2) unfolding continues_def by blast+
  have ip: "inbox_problems p s6 = inbox_problems p s2" "inbox_problems p s = inbox_problems p s2"
    using inbox_steady adv 2(2) unfolding continues_def by blast+
  have ep: "posting_problems p s6 = posting_problems p s4" "reversal_problems p s6 = reversal_problems p s5"
      "posting_problems p s3 = posting_problems p s"
    using entries_problems 1(4) 2(4) 3(4) 5(4) 6(4) by metis+
  have "noticed retrieve E p s6"
    unfolding noticed_def problems_def ip ep set_append
    using 1(3) 2(3) 3(3) 4(3) 5(3) 6(3) o by blast
  moreover have "exceptions s6 = exceptions s" if n: "noticed retrieve E p s"
  proof -
    have e: "set (missing_problems p) \<subseteq> set (open_keys s)" "set (provider_problems retrieve p) \<subseteq> set (open_keys s)"
        "set (inbox_problems p s2) \<subseteq> set (open_keys s)" "set (posting_problems p s) \<subseteq> set (open_keys s)"
        "set (stale_problems E p) \<subseteq> set (open_keys s)" "set (reversal_problems p s) \<subseteq> set (open_keys s)"
      using n unfolding noticed_def problems_def ip by auto
    have r: "set (reversal_problems p s5) \<subseteq> set (open_keys s)"
      using reversal_later [OF _ assms(2,3), of s s5] e(6) 1(2) 2(2) 3(2) 4(2) 5(2) continues_trans by blast
    have x1: "exceptions s1 = exceptions s" using 1(5) e(1) by blast
    have x2: "exceptions s2 = exceptions s" using 2(5) e(2) x1 open_keys_cong [OF x1] by simp
    have x3: "exceptions s3 = exceptions s" using 3(5) e(3) x2 open_keys_cong [OF x2] by simp
    have x4: "exceptions s4 = exceptions s" using 4(4) e(4) x3 open_keys_cong [OF x3] ep(3) by simp
    have x5: "exceptions s5 = exceptions s" using 5(5) e(5) x4 open_keys_cong [OF x4] by simp
    show ?thesis using 6(5) r x5 open_keys_cong [OF x5] by simp
  qed
  ultimately show thesis using that [OF run adv] by blast
qed

lemma collect_run:
  assumes "\<And>x s. x \<in> set xs \<Longrightarrow> since s0 s \<Longrightarrow> \<exists>ys s'. f x s = (Inr ys, s') \<and> continues s0 s s' \<and>
      N x s' \<and> (N x s \<longrightarrow> exceptions s' = exceptions s)"
    and "\<And>x a b. x \<in> set xs \<Longrightarrow> continues s0 a b \<Longrightarrow> N x a \<Longrightarrow> N x b"
    and "since s0 s"
  shows "\<exists>ys s'. collect f xs s = (Inr ys, s') \<and> continues s0 s s' \<and> (\<forall>x \<in> set xs. N x s') \<and>
      ((\<forall>x \<in> set xs. N x s) \<longrightarrow> exceptions s' = exceptions s)"
  using assms
proof (induction xs arbitrary: s)
  case Nil
  then show ?case by (simp add: continues_def)
next
  case (Cons x xs)
  obtain ys s1 where 1: "f x s = (Inr ys, s1)" "continues s0 s s1" "N x s1" "N x s \<longrightarrow> exceptions s1 = exceptions s"
    using Cons.prems(1) [of x s] Cons.prems(3) by auto
  obtain zs s2 where 2: "collect f xs s1 = (Inr zs, s2)" "continues s0 s1 s2" "\<forall>x \<in> set xs. N x s2"
      "(\<forall>x \<in> set xs. N x s1) \<longrightarrow> exceptions s2 = exceptions s1"
    using Cons.IH [of s1] Cons.prems(1,2) continues_since [OF 1(2)] by auto
  have "collect f (x # xs) s = (Inr (ys @ zs), s2)" by (simp add: 1(1) 2(1))
  moreover have "continues s0 s s2" using 1(2) 2(2) by (rule continues_trans)
  moreover have "N x s2" using Cons.prems(2) [OF _ 2(2) 1(3)] by simp
  moreover have "exceptions s2 = exceptions s" if "\<forall>y \<in> set (x # xs). N y s"
  proof -
    have "\<forall>y \<in> set xs. N y s1" using that Cons.prems(2) [OF _ 1(2)] by simp
    then show ?thesis using 1(4) 2(4) that by simp
  qed
  ultimately show ?case using 2(3) by (intro exI [of _ "ys @ zs"] exI [of _ s2]) auto
qed

lemma unmarked_views:
  "known_provider_id (unmarked p) = known_provider_id p"
  "material_mismatches (unmarked p) d = material_mismatches p d"
  by (simp_all add: known_provider_id_def material_mismatches_def split: option.split)

lemma problems_unmarked: "problems retrieve E (unmarked p) s = problems retrieve E p s"
proof -
  have "missing_problems (unmarked p) = missing_problems p"
    by (simp add: missing_problems_def unmarked_views)
  moreover have "provider_problems retrieve (unmarked p) = provider_problems retrieve p"
    by (simp add: provider_problems_def unmarked_views split: option.split)
  moreover have "event_problems (unmarked p) pid = event_problems p pid" for pid
    by (rule ext) (simp add: event_problems_def unmarked_views)
  then have "inbox_problems (unmarked p) s = inbox_problems p s"
    by (simp add: inbox_problems_def unmarked_views split: option.split)
  moreover have "posting_problems (unmarked p) s = posting_problems p s"
    by (simp add: posting_problems_def split: option.split)
  moreover have "stale_problems E (unmarked p) = stale_problems E p" by (simp add: stale_problems_def)
  moreover have "reversal_problem (unmarked p) s = reversal_problem p s"
    by (rule ext) (simp add: reversal_problem_def)
  then have "reversal_problems (unmarked p) s = reversal_problems p s" by (simp add: reversal_problems_def)
  ultimately show ?thesis by (simp add: problems_def)
qed

lemma since_find:
  assumes "since s0 s" and "payments_keyed s0" and "p \<in> set (payments s0)"
  obtains p' where "find_payment (paId p) s = Some p'" "unmarked p' = unmarked p"
proof -
  have m: "map unmarked (payments s) = map unmarked (payments s0)" using assms(1) by (simp add: since_def)
  then have "map paId (map unmarked (payments s)) = map paId (map unmarked (payments s0))" by simp
  then have k: "distinct (map paId (payments s))" using assms(2) by (simp add: payments_keyed_def comp_def)
  have "unmarked p \<in> set (map unmarked (payments s))" using assms(3) unfolding m by simp
  then obtain p' where p: "p' \<in> set (payments s)" "unmarked p' = unmarked p" by auto
  then have "paId p' = paId p" by (metis unmarked_simps(1))
  then show thesis using that lookup_by_distinct [OF k p(1)] p(2) by simp
qed

lemma attempt_run:
  assumes "since s0 s" and "payments_keyed s0" and "p \<in> set (payments s0)"
  shows "\<exists>xs s'. reconcile_payment_attempt retrieve E (paId p) s = (Inr xs, s') \<and> continues s0 s s' \<and>
    noticed retrieve E p s' \<and> (noticed retrieve E p s \<longrightarrow> exceptions s' = exceptions s)"
proof -
  obtain p' where p: "find_payment (paId p) s = Some p'" "unmarked p' = unmarked p"
    by (rule since_find [OF assms])
  have t: "on_table s0 p'" using p(2) assms(3) by (auto simp: on_table_def)
  have n: "noticed retrieve E p' a = noticed retrieve E p a" for a
    using p(2) problems_unmarked unfolding noticed_def by metis
  obtain xs s' where "reconcile_row retrieve E p' s = (Inr xs, s')" "continues s0 s s'"
      "noticed retrieve E p' s'" "noticed retrieve E p' s \<longrightarrow> exceptions s' = exceptions s"
    by (rule row_run [OF assms(1,2) t])
  then show ?thesis using p(1) n by (simp add: reconcile_payment_attempt_def)
qed

text \<open>All the disagreements there are, as the exceptions they call for.\<close>

definition all_problems :: "provider_lookup \<Rightarrow> env \<Rightarrow> db \<Rightarrow> exception_key list" where
  "all_problems retrieve E s =
     concat (map (\<lambda>p. problems retrieve E p s) (payments s)) @
     concat (map (duplicate_problems (payments s)) (provider_ids (payments s))) @
     concat (map (orphan_problems (payments s)) (webhooks s))"

lemma sharing_unmarked: "sharing (map unmarked ps) pid = map unmarked (sharing ps pid)"
  by (simp add: sharing_def filter_map comp_def unmarked_views)

lemma duplicates_unmarked: "duplicate_problems (map unmarked ps) = duplicate_problems ps"
proof
  show "duplicate_problems (map unmarked ps) pid = duplicate_problems ps pid" for pid
    by (cases "1 < length (sharing ps pid)") (simp_all add: duplicate_problems_def sharing_unmarked comp_def)
qed

lemma ids_unmarked: "provider_ids (map unmarked ps) = provider_ids ps"
  by (simp add: provider_ids_def List.map_filter_def filter_map comp_def unmarked_views)

lemma orphans_unmarked: "orphan_problems (map unmarked ps) = orphan_problems ps"
  by (rule ext) (simp add: orphan_problems_def cong: option.case_cong)

lemma later_problems:
  assumes "since s0 s"
  shows "set (all_problems retrieve E s) =
    (\<Union>p \<in> set (payments s0). set (problems retrieve E p s)) \<union>
    set (concat (map (duplicate_problems (payments s0)) (provider_ids (payments s0)))) \<union>
    set (concat (map (orphan_problems (payments s0)) (webhooks s0)))"
proof -
  have m: "map unmarked (payments s) = map unmarked (payments s0)" "webhooks s = webhooks s0"
    using assms by (simp_all add: since_def)
  have "duplicate_problems (payments s) = duplicate_problems (payments s0)"
      "provider_ids (payments s) = provider_ids (payments s0)"
      "orphan_problems (payments s) = orphan_problems (payments s0)"
    using duplicates_unmarked [of "payments s"] duplicates_unmarked [of "payments s0"] ids_unmarked [of "payments s"]
      ids_unmarked [of "payments s0"] orphans_unmarked [of "payments s"] orphans_unmarked [of "payments s0"] m(1)
    by simp_all
  moreover have "(\<Union>p \<in> set (payments s). set (problems retrieve E p s)) =
      (\<Union>p \<in> set (payments s0). set (problems retrieve E p s))"
    using arg_cong [OF m(1), of "\<lambda>ps. \<Union>p \<in> set ps. set (problems retrieve E p s)"]
    by (simp add: problems_unmarked)
  ultimately show ?thesis using m(2) by (simp add: all_problems_def Un_assoc)
qed

lemma pass_run:
  assumes "ledger_ok s" and "distinct (open_keys s)" and "payments_keyed s"
  obtains xs s' where "reconcile_all retrieve E s = (Inr xs, s')" "since s s'"
    "set (all_problems retrieve E s') \<subseteq> set (open_keys s')"
    "set (all_problems retrieve E s) \<subseteq> set (open_keys s) \<longrightarrow> exceptions s' = exceptions s"
proof -
  let ?ps = "payments s"
  let ?D = "concat (map (duplicate_problems ?ps) (provider_ids ?ps))"
  let ?O = "concat (map (orphan_problems ?ps) (webhooks s))"
  have s: "since s s" using assms(1,2) by (rule since_refl)
  obtain x1 s1 where 1: "collect (\<lambda>p. reconcile_payment_attempt retrieve E (paId p)) ?ps s = (Inr x1, s1)"
      "continues s s s1" "\<forall>p \<in> set ?ps. noticed retrieve E p s1"
      "(\<forall>p \<in> set ?ps. noticed retrieve E p s) \<longrightarrow> exceptions s1 = exceptions s"
    using collect_run [of ?ps s "\<lambda>p. reconcile_payment_attempt retrieve E (paId p)" "noticed retrieve E" s]
      attempt_run [OF _ assms(3)] noticed_later [OF _ assms(3)] since_on_table [OF s] s by blast
  have d: "records (\<lambda>_. ?D) (collect (check_duplicates E ?ps) (provider_ids ?ps))"
    by (rule records_collect [THEN conjunct1, of _ "\<lambda>pid _. duplicate_problems ?ps pid"])
      (rule records_duplicates, rule steady_const)
  have o: "records (\<lambda>_. ?O) (collect (check_orphan E ?ps) (webhooks s))"
    by (rule records_collect [THEN conjunct1, of _ "\<lambda>w _. orphan_problems ?ps w"])
      (rule records_orphan, rule steady_const)
  obtain x2 s2 where 2: "collect (check_duplicates E ?ps) (provider_ids ?ps) s1 = (Inr x2, s2)"
      "continues s s1 s2" "set ?D \<subseteq> set (open_keys s2)" "entries s2 = entries s1"
      "set ?D \<subseteq> set (open_keys s1) \<longrightarrow> exceptions s2 = exceptions s1"
    by (rule records_run [OF d continues_since [OF 1(2)]])
  obtain x3 s3 where 3: "collect (check_orphan E ?ps) (webhooks s) s2 = (Inr x3, s3)"
      "continues s s2 s3" "set ?O \<subseteq> set (open_keys s3)" "entries s3 = entries s2"
      "set ?O \<subseteq> set (open_keys s2) \<longrightarrow> exceptions s3 = exceptions s2"
    by (rule records_run [OF o continues_since [OF 2(2)]])
  have a: "continues s s1 s3" using 2(2) 3(2) by (rule continues_trans)
  have "\<forall>p \<in> set ?ps. noticed retrieve E p s3"
    using 1(3) noticed_later [OF a assms(3)] since_on_table [OF s] by blast
  then have all: "set (all_problems retrieve E s3) \<subseteq> set (open_keys s3)"
    using 2(3) 3(2,3) unfolding later_problems [OF continues_since [OF a]] noticed_def continues_def by blast
  have "exceptions s3 = exceptions s" if n: "set (all_problems retrieve E s) \<subseteq> set (open_keys s)"
  proof -
    have x1: "exceptions s1 = exceptions s"
      using 1(4) n unfolding later_problems [OF s] noticed_def by blast
    have x2: "exceptions s2 = exceptions s"
      using 2(5) n x1 open_keys_cong [OF x1] unfolding later_problems [OF s] by simp
    show ?thesis using 3(5) n x2 open_keys_cong [OF x2] unfolding later_problems [OF s] by simp
  qed
  then show thesis
    using that [of "x1 @ x2 @ x3" s3] all continues_since [OF a] by (simp add: reconcile_all_def 1(1) 2(1) 3(1))
qed

text \<open>
  C21. A pass over everything notices everything, and only once. It always returns; afterwards every
  disagreement that is left between payments, inbox, ledger and provider (an entry that could not be
  posted again among them) has its open exception, and a second pass, as the database then is, adds
  none.
\<close>

theorem pass_notices_everything_once:
  assumes "ledger_ok s" and "distinct (open_keys s)" and "distinct (map paId (payments s))"
  shows "\<exists>xs s' ys s''. reconcile_all retrieve E s = (Inr xs, s') \<and>
    set (all_problems retrieve E s') \<subseteq> set (open_keys s') \<and>
    reconcile_all retrieve E s' = (Inr ys, s'') \<and> exceptions s'' = exceptions s'"
proof -
  have k: "payments_keyed s" using assms(3) by (simp add: payments_keyed_def)
  obtain xs s' where 1: "reconcile_all retrieve E s = (Inr xs, s')" "since s s'"
      "set (all_problems retrieve E s') \<subseteq> set (open_keys s')"
    by (rule pass_run [OF assms(1,2) k])
  have "map paId (map unmarked (payments s')) = map paId (map unmarked (payments s))"
    using 1(2) by (simp add: since_def)
  then have "ledger_ok s'" "distinct (open_keys s')" "payments_keyed s'"
    using 1(2) k by (simp_all add: since_def payments_keyed_def comp_def)
  then obtain ys s'' where "reconcile_all retrieve E s' = (Inr ys, s'')"
      "set (all_problems retrieve E s') \<subseteq> set (open_keys s') \<longrightarrow> exceptions s'' = exceptions s'"
    by (rule pass_run)
  then show ?thesis using 1 by blast
qed

section \<open>The evidence for a repair\<close>

lemma trusted_event:
  assumes "find_unambiguous_trusted_event pr pid ty s = Some w"
  shows "find_trusted_financial_events pr pid ty s = [w]" "w \<in> set (webhooks s)" "weStatus w = EvProcessed"
    "trusted_source w"
proof -
  show 1: "find_trusted_financial_events pr pid ty s = [w]"
    using assms by (simp add: find_unambiguous_trusted_event_def split: list.splits)
  have "w \<in> set (find_trusted_financial_events pr pid ty s)" unfolding 1 by simp
  then show "w \<in> set (webhooks s)" "weStatus w = EvProcessed" "trusted_source w"
    unfolding find_trusted_financial_events_def by (auto dest: in_set_takeD)
qed

lemma clearing_posted:
  fixes i :: cleared_input
  assumes "ledger_ok s" and "\<not> has_entry s (ciPayment i) PaymentCleared"
  shows "succeeds (post_payment_cleared E i) s = (True, s') \<Longrightarrow>
      \<exists>e. entries s' = entries s @ [e] \<and> map leg_view (jePostings e) =
        cleared_legs (ciGross i) (fee_or_zero (ciProcessorFee i)) (fee_or_zero (ciPlatformFee i))"
    and "succeeds (post_payment_cleared E i) s = (False, s') \<Longrightarrow> entries s' = entries s"
  using clearing_splits_gross [of s i E] assms
  by (auto simp: succeeds_def has_entry_iff journal_lookup_def split: prod.splits sum.splits)

text \<open>
  C23. A lost clearing entry comes back only on evidence beyond doubt. When the repair of a payment
  taken through a provider succeeds, there is exactly one processed event of a trusted source that
  reports its success, with the payment's own amount and currency and a fee no larger than the
  amount, and what is posted is the clearing of that amount with that fee. A repair that does not
  succeed posts nothing.
\<close>

theorem repair_posts_only_the_evidence:
  assumes "ledger_ok s" and "\<not> has_entry s (paId p) PaymentCleared"
    and "paMethod p \<noteq> Some ManualOffPlatform" and "try_repair_missing_ledger_entry E p s = (b, s')"
  shows "if b then \<exists>pid w fee e. paProviderId p = Some pid \<and>
      find_trusted_financial_events (paProviderName p) pid ''payment.succeeded'' s = [w] \<and>
      w \<in> set (webhooks s) \<and> weStatus w = EvProcessed \<and> trusted_source w \<and>
      data_number ''amountMinorUnits'' (wePayload w) = Some (WholeNumber (paAmount p)) \<and>
      json_get_string ''currency'' (wePayload w) = Some (paCurrency p) \<and>
      data_number ''processorFeeMinorUnits'' (wePayload w) = Some (WholeNumber fee) \<and>
      0 \<le> fee \<and> fee \<le> paAmount p \<and> entries s' = entries s @ [e] \<and>
      map leg_view (jePostings e) = cleared_legs (paAmount p) fee 0
    else entries s' = entries s"
proof (cases "b \<or> entries s' \<noteq> entries s")
  case True
  obtain ag where ag: "paAgreement p = Some ag"
    using True assms(4) by (cases "paAgreement p") (auto simp: try_repair_missing_ledger_entry_def)
  obtain pr pid where r: "provider_reference p = Some (pr, pid)"
    using True assms(3,4) ag by (cases "provider_reference p") (auto simp: try_repair_missing_ledger_entry_def)
  have pid: "paProviderId p = Some pid" "pr = paProviderName p"
    using r by (auto simp: provider_reference_def split: option.splits if_splits)
  obtain w where w: "find_unambiguous_trusted_event pr pid ''payment.succeeded'' s = Some w"
    using True assms(3,4) ag r by (cases "find_unambiguous_trusted_event pr pid ''payment.succeeded'' s")
      (auto simp: try_repair_missing_ledger_entry_def)
  have m: "evidence_matches p (wePayload w)"
    using True assms(3,4) ag r w by (auto simp: try_repair_missing_ledger_entry_def split: if_splits)
  obtain fee where fee: "non_negative_integer (data_number ''processorFeeMinorUnits'' (wePayload w)) = Some fee"
    using True assms(3,4) ag r w m
    by (cases "non_negative_integer (data_number ''processorFeeMinorUnits'' (wePayload w))")
      (auto simp: try_repair_missing_ledger_entry_def)
  let ?i = "\<lparr>ciPayment = paId p, ciAgreement = ag, ciCurrency = paCurrency p, ciGross = paAmount p,
    ciProcessorFee = Some fee, ciPlatformFee = Some (platform_fee p)\<rparr>"
  have run: "succeeds (post_payment_cleared E ?i) s = (b, s')"
    using True assms(3,4) ag r w m fee by (auto simp: try_repair_missing_ledger_entry_def split: if_splits)
  have b: b using True clearing_posted(2) [OF assms(1), of ?i E s'] assms(2) run by (cases b) auto
  then obtain e where e: "entries s' = entries s @ [e]" "map leg_view (jePostings e) = cleared_legs (paAmount p) fee 0"
    using clearing_posted(1) [OF assms(1), of ?i E s'] assms(2) run by (auto simp: fee_or_zero_def platform_fee_def)
  have num: "data_number k d = Some (WholeNumber n) \<and> 0 \<le> n"
    if "non_negative_integer (data_number k d) = Some n" for k d n
    using that by (auto simp: non_negative_integer_def split: option.splits number.splits if_splits)
  have "cleared_amounts_ok (paAmount p) fee 0"
    using clearing_splits_gross [of s ?i E] assms(1,2) run b
    by (auto simp: succeeds_def has_entry_iff journal_lookup_def fee_or_zero_def platform_fee_def
        split: prod.splits sum.splits)
  then show ?thesis
    using b e pid trusted_event [OF w] m num [OF fee] num [of "''amountMinorUnits''" "wePayload w" "paAmount p"]
    by (simp add: evidence_matches_def cleared_amounts_ok_def)
qed simp

section \<open>The batch leaves nothing silent\<close>

lemma candidate_kept:
  assumes "distinct (map paId ps)" "set qs \<subseteq> set ps" "set acc \<subseteq> set ps" "p \<in> set qs \<or> p \<in> set acc"
  shows "p \<in> set (fold add_candidate qs acc)"
  using assms(2-4)
proof (induction qs arbitrary: acc)
  case (Cons q qs)
  have same: "r = q" if "r \<in> set acc" "paId r = paId q" for r
    using that Cons.prems(1,2) assms(1) inj_onD [of paId "set ps" r q] by (auto simp: distinct_map)
  then have "set (add_candidate q acc) = insert q (set acc)"
    by (auto simp: add_candidate_def update_by_def)
  then show ?case using Cons.IH [of "add_candidate q acc"] Cons.prems by auto
qed simp

lemma oldest_first_all: "length (filter P ps) \<le> n \<Longrightarrow> set (oldest_first n (filter P ps)) = set (filter P ps)"
  by (simp add: oldest_first_def)

lemma due_is_candidate:
  assumes "payments_keyed s" and "p \<in> set (payments s)" and "owed_entry (paStatus p) = Some ty"
    and "repair_due now p" and "\<not> has_entry s (paId p) ty" and "length (payments s) \<le> n"
  shows "p \<in> set (repair_candidates n now s)"
proof -
  have len: "length (filter P (payments s)) \<le> n" for P
    using assms(6) length_filter_le [of P "payments s"] by linarith
  have "p \<in> set (list_missing_clearing_candidates n now s) \<union> set (list_missing_reversal_candidates n now s)"
    using assms(2-5) unfolding list_missing_clearing_candidates_def list_missing_reversal_candidates_def
      oldest_first_all [OF len]
    by (auto simp: owed_entry_def reversal_status_to_entry_type_def split: if_splits payment_status.splits)
  moreover have "set (list_missing_clearing_candidates n now s @
       list_missing_reversal_candidates n now s @ list_lifecycle_repair_candidates n s) \<subseteq> set (payments s)"
    unfolding list_missing_clearing_candidates_def list_missing_reversal_candidates_def
      list_lifecycle_repair_candidates_def using oldest_first_all [OF len] by auto
  ultimately show ?thesis
    unfolding repair_candidates_def
    by (intro candidate_kept [OF assms(1) [unfolded payments_keyed_def]]) auto
qed

lemma batch_run:
  assumes "ledger_ok s" and "distinct (open_keys s)"
  obtains s1 where "continues s s s1"
    "\<forall>p \<in> set (repair_candidates n now s). \<not> repair_deferred True now p \<longrightarrow>
       set (posting_problems p s1) \<subseteq> set (open_keys s1)"
    "entries (snd (repair_batch E n now s)) = entries s1" "exceptions (snd (repair_batch E n now s)) = exceptions s1"
proof -
  let ?N = "\<lambda>p a. \<not> repair_deferred True now p \<longrightarrow> set (posting_problems p a) \<subseteq> set (open_keys a)"
  have s: "since s s" using assms by (rule since_refl)
  have t: "on_table s p" if "p \<in> set (repair_candidates n now s)" for p
    using that candidates_on_table since_on_table [OF s] by blast
  obtain ys s1 where c: "collect (repair_financial_effects E now True) (repair_candidates n now s) s = (Inr ys, s1)"
      "continues s s s1" "\<forall>p \<in> set (repair_candidates n now s). ?N p s1"
    using collect_run [of "repair_candidates n now s" s "repair_financial_effects E now True" ?N s]
  proof -
    have "\<exists>ys s1. repair_financial_effects E now True p a = (Inr ys, s1) \<and> continues s a s1 \<and> ?N p s1 \<and>
        (?N p a \<longrightarrow> exceptions s1 = exceptions a)"
      if "p \<in> set (repair_candidates n now s)" "since s a" for p a
      by (rule repair_run [OF that(2) t [OF that(1)], of E now True]) blast
    moreover have "?N p b" if "continues s a b" "?N p a" for p a b
      using posting_later [OF that(1), of p] that unfolding continues_def by blast
    ultimately show thesis
      using collect_run [of "repair_candidates n now s" s "repair_financial_effects E now True" ?N s] s that
      by blast
  qed
  have f: "snd (repair_batch E n now s) = snd (repair_legacy_lineage E n s1)"
    by (simp add: repair_batch_def andThen_def c(1) split: prod.split sum.split)
  have "silent s1 (snd (repair_legacy_lineage E n s1))" using silent_lineage by (simp add: keeps_def)
  then show thesis using that [OF c(2,3)] by (simp add: f silent_def quiet_def)
qed

lemma batch_notices:
  assumes "ledger_ok s" and "distinct (open_keys s)" and "distinct (map paId (payments s))"
    and "p \<in> set (payments s)" and "owed_entry (paStatus p) = Some ty" and "repair_due now p"
    and "length (payments s) \<le> n" and "s' = snd (repair_batch E n now s)"
  shows "has_entry s' (paId p) ty \<or> (InternalPostingFailure, Some (paId p), None) \<in> set (open_keys s')"
proof -
  obtain s1 where 1: "continues s s s1" "\<forall>p \<in> set (repair_candidates n now s). \<not> repair_deferred True now p \<longrightarrow>
       set (posting_problems p s1) \<subseteq> set (open_keys s1)"
      "entries s' = entries s1" "exceptions s' = exceptions s1"
    by (rule batch_run [OF assms(1,2), of n now E]) (simp add: assms(8))
  have h: "has_entry s' i t = has_entry s1 i t" for i t by (simp add: has_entry_def 1(3))
  show ?thesis
  proof (cases "has_entry s (paId p) ty")
    case True
    then show ?thesis using has_entry_mono 1(1) unfolding h continues_def by blast
  next
    case False
    have "p \<in> set (repair_candidates n now s)"
      using assms(3-7) False by (intro due_is_candidate) (simp_all add: payments_keyed_def)
    moreover have "\<not> repair_deferred True now p"
      using assms(6) by (auto simp: repair_due_def repair_deferred_def split: option.splits)
    ultimately have "set (posting_problems p s1) \<subseteq> set (open_keys s1)" using 1(2) by blast
    then show ?thesis
      unfolding h open_keys_cong [OF 1(4)] by (cases "has_entry s1 (paId p) ty") (simp_all add: posting_problems_def assms(5))
  qed
qed

text \<open>
  C24. No payment is left short in silence. After a batch of the scheduler that is large enough, each
  payment whose status calls for an entry and whose repair was due has that entry, or an open
  exception tells that it could not be posted.
\<close>

theorem batch_posts_or_reports:
  assumes "ledger_ok s" and "distinct (open_keys s)" and "distinct (map paId (payments s))"
    and "p \<in> set (payments s)" and "owed_entry (paStatus p) = Some ty" and "repair_due now p"
    and "length (payments s) \<le> n" and "s' = snd (repair_batch E n now s)"
  shows "has_entry s' (paId p) ty \<or> (InternalPostingFailure, Some (paId p), None) \<in> set (open_keys s')"
  by (rule batch_notices [OF assms])

lemma run_snoc: "run_reconciliations (ops @ [(r, E, op)]) s = reconciliation_step r E op (run_reconciliations ops s)"
  by (simp add: run_reconciliations_def)

text \<open>Reconciliation posts nothing for a payment that was taken back before it was cleared.\<close>

lemma reversed_unbooked:
  assumes "ledger_ok s" and "distinct (open_keys s)" and "distinct (map paId (payments s))"
    and "p \<in> set (payments s)" and "reversal_status_to_entry_type (paStatus p) \<noteq> None"
    and "\<not> has_entry s (paId p) PaymentCleared"
  shows "\<forall>e \<in> set (entries (run_reconciliations ops s)). jePayment e = paId p \<longrightarrow> e \<in> set (entries s)"
proof (intro ballI impI)
  fix e
  let ?s = "run_reconciliations ops s"
  assume e: "e \<in> set (entries ?s)" "jePayment e = paId p"
  have all: "\<forall>e \<in> set (entries ?s). e \<in> set (entries s) \<or> rightful s ?s e"
    using since_run [OF since_refl [OF assms(1,2)], of ops] unfolding since_def by blast
  have own: "q = p" if "q \<in> set (payments s)" "paId q = paId p" for q
    using that assms(3,4) by (auto simp: distinct_map dest: inj_onD)
  have ns: "paStatus p \<noteq> PSucceeded" using assms(5) by (auto simp: reversal_status_to_entry_type_def)
  have nc: "jeType c \<noteq> PaymentCleared" if c: "c \<in> set (entries ?s)" "jePayment c = paId p" for c
  proof
    assume t: "jeType c = PaymentCleared"
    have "rightful s ?s c"
      using c t assms(6) all by (auto simp: has_entry_def list_ex_iff)
    then obtain q where "q \<in> set (payments s)" "paId q = paId p" "paStatus q = PSucceeded"
      using c(2) t no_reversal_clears by (auto simp: rightful_def)
    then show False using own ns by blast
  qed
  have "\<not> rightful s ?s e"
  proof
    assume "rightful s ?s e"
    then obtain q where q: "q \<in> set (payments s)" "paId q = paId p"
        "paStatus q = PSucceeded \<or> (\<exists>c \<in> set (entries ?s). entry_key c = (paId p, PaymentCleared))"
      using e(2) by (auto simp: rightful_def)
    then show False using own [OF q(1,2)] ns nc by auto
  qed
  then show "e \<in> set (entries s)" using all e(1) by blast
qed

lemma row_after_run:
  assumes "ledger_ok s" and "distinct (open_keys s)" and "p \<in> set (payments s)"
  obtains p' where "p' \<in> set (payments (run_reconciliations ops s))" "unmarked p' = unmarked p"
proof -
  have "map unmarked (payments (run_reconciliations ops s)) = map unmarked (payments s)"
    using since_run [OF since_refl [OF assms(1,2)], of ops] by (simp add: since_def)
  then have "unmarked p \<in> unmarked ` set (payments (run_reconciliations ops s))"
    using assms(3) by (metis image_eqI list.set_map)
  then show thesis using that by auto
qed

text \<open>
  C25. A payment that was taken back before its clearing entry was posted is never repaired: only a
  payment that still succeeded gets its clearing entry again, and without one nothing can be reversed.
  Whatever reconciliation runs, no entry for it appears, and its row stays but for the marks of
  reconciliation; as long as its reversal is not on the ledger, each batch for which it is due (a batch
  that failed on it puts it off for an hour), and whose limit does not cut it off, takes it up again and
  leaves it reported in the queue of exceptions.
\<close>

theorem reversed_unbooked_stays_unbooked:
  assumes "ledger_ok s" and "distinct (open_keys s)" and "distinct (map paId (payments s))"
    and "p \<in> set (payments s)" and "reversal_status_to_entry_type (paStatus p) = Some ty"
    and "\<not> has_entry s (paId p) PaymentCleared" and "s' = run_reconciliations ops s"
  shows "(\<forall>e \<in> set (entries s'). jePayment e = paId p \<longrightarrow> e \<in> set (entries s)) \<and>
    (\<exists>p' \<in> set (payments s'). unmarked p' = unmarked p \<and>
      (\<forall>E n now. repair_due now p' \<and> length (payments s') \<le> n \<and> \<not> has_entry s (paId p) ty \<longrightarrow>
         p' \<in> set (repair_candidates n now s') \<and>
         (InternalPostingFailure, Some (paId p), None) \<in> set (open_keys (snd (repair_batch E n now s')))))"
proof
  have un: "reversal_status_to_entry_type (paStatus p) \<noteq> None" using assms(5) by simp
  note none = reversed_unbooked [OF assms(1-4) un assms(6)]
  then show "\<forall>e \<in> set (entries s'). jePayment e = paId p \<longrightarrow> e \<in> set (entries s)" using assms(7) by simp
  obtain p' where p': "p' \<in> set (payments s')" "unmarked p' = unmarked p"
    using row_after_run [OF assms(1,2,4)] assms(7) by metis
  have row: "paId p' = paId p" "paStatus p' = paStatus p"
    using arg_cong [OF p'(2), of paId] arg_cong [OF p'(2), of paStatus] by (simp_all add: unmarked_def)
  have ids: "map paId (payments s') = map paId (payments s)"
  proof -
    have "map unmarked (payments s') = map unmarked (payments s)"
      using since_run [OF since_refl [OF assms(1,2)], of ops] assms(7) by (simp add: since_def)
    then have "map (paId \<circ> unmarked) (payments s') = map (paId \<circ> unmarked) (payments s)" by (metis map_map)
    then show ?thesis by (simp add: unmarked_def comp_def)
  qed
  have ok: "ledger_ok s'" "distinct (open_keys s')" "distinct (map paId (payments s'))"
    using since_run [OF since_refl [OF assms(1,2)], of ops] assms(3,7) ids by (simp_all add: since_def)
  have owed: "owed_entry (paStatus p') = Some ty"
    using assms(5) by (auto simp: row owed_entry_def reversal_status_to_entry_type_def)
  have "p' \<in> set (repair_candidates n now s') \<and>
      (InternalPostingFailure, Some (paId p), None) \<in> set (open_keys (snd (repair_batch E n now s')))"
    if c: "repair_due now p'" "length (payments s') \<le> n" "\<not> has_entry s (paId p) ty" for E n now
  proof
    have gone: "\<not> has_entry (run_reconciliations ops' s) (paId p) ty" for ops'
      using reversed_unbooked [OF assms(1-4) un assms(6), of ops'] c(3) by (auto simp: has_entry_def list_ex_iff)
    then have before: "\<not> has_entry s' (paId p') ty" by (simp add: assms(7) row)
    show "p' \<in> set (repair_candidates n now s')"
      by (rule due_is_candidate [OF _ p'(1) owed c(1) before c(2)]) (simp add: payments_keyed_def ok)
    have "\<not> has_entry (snd (repair_batch E n now s')) (paId p') ty"
      using gone [of "ops @ [(\<lambda>_. None, E, RepairBatch n now)]"] by (simp add: run_snoc assms(7) row)
    then show "(InternalPostingFailure, Some (paId p), None) \<in> set (open_keys (snd (repair_batch E n now s')))"
      using batch_notices [OF ok p'(1) owed c(1,2) refl] row by auto
  qed
  then show "\<exists>p' \<in> set (payments s'). unmarked p' = unmarked p \<and>
      (\<forall>E n now. repair_due now p' \<and> length (payments s') \<le> n \<and> \<not> has_entry s (paId p) ty \<longrightarrow>
         p' \<in> set (repair_candidates n now s') \<and>
         (InternalPostingFailure, Some (paId p), None) \<in> set (open_keys (snd (repair_batch E n now s'))))"
    using p' by blast
qed

section \<open>The properties at work\<close>

text \<open>A payment of a dollar whose clearing entry was lost, with the event that reported its success.\<close>

definition sample_unposted_event :: webhook_row where
  "sample_unposted_event = (sample_claimed_event 100)\<lparr>weStatus := EvProcessed, weToken := None\<rparr>"

definition sample_unposted_db :: "payment_status \<Rightarrow> db" where
  "sample_unposted_db st = empty_db\<lparr>nextId := 42, agreements := [sample_agreement FirstPaymentPending],
     webhooks := [sample_unposted_event], payments := [(sample_payment 7 st 100)\<lparr>paInstallment := None\<rparr>]\<rparr>"

lemma sample_unposted_tables [simp]:
  "webhooks (sample_unposted_db st) = [sample_unposted_event]"
  "payments (sample_unposted_db st) = [(sample_payment 7 st 100)\<lparr>paInstallment := None\<rparr>]"
  "entries (sample_unposted_db st) = []" "accounts (sample_unposted_db st) = []"
  "exceptions (sample_unposted_db st) = []"
  by (simp_all add: sample_unposted_db_def empty_db_def)

lemma sample_unposted_ok: "ledger_ok (sample_unposted_db st)" "distinct (open_keys (sample_unposted_db st))"
    "distinct (map paId (payments (sample_unposted_db st)))"
  using ledger_ok_cong [of "sample_unposted_db st" empty_db] empty_ledger_ok
  by (simp_all add: empty_db_def open_keys_def list_open_exceptions_def)

theorem reconciliation_keeps_books_witness:
  "map unmarked (payments (run_reconciliations
       [(\<lambda>_. Some ProvPending, toy_env, ReconcileEverything), (\<lambda>_. None, toy_env, RepairBatch 50 0)]
       (sample_unposted_db PSucceeded))) = map unmarked (payments (sample_unposted_db PSucceeded))"
  using reconciliation_keeps_books [OF sample_unposted_ok(1,2) refl] by blast

theorem reversed_unbooked_stays_unbooked_witness:
  "7 \<notin> jePayment ` set (entries (run_reconciliations [(\<lambda>_. None, toy_env, RepairBatch 50 0)] (sample_unposted_db PRefunded)))"
proof -
  let ?p = "(sample_payment 7 PRefunded 100)\<lparr>paInstallment := None\<rparr>"
  have "?p \<in> set (payments (sample_unposted_db PRefunded))" "paId ?p = 7"
    "reversal_status_to_entry_type (paStatus ?p) = Some Refund" "\<not> has_entry (sample_unposted_db PRefunded) (paId ?p) PaymentCleared"
    by (simp_all add: sample_payment_def reversal_status_to_entry_type_def has_entry_def)
  from reversed_unbooked_stays_unbooked [OF sample_unposted_ok this(1,3,4) refl, of "[(\<lambda>_. None, toy_env, RepairBatch 50 0)]"] this(2)
  show ?thesis by auto
qed

theorem pass_notices_everything_once_witness:
  "\<exists>xs s' ys s''. reconcile_all (\<lambda>_. Some ProvFailed) toy_env (sample_unposted_db PSucceeded) = (Inr xs, s') \<and>
    set (all_problems (\<lambda>_. Some ProvFailed) toy_env s') \<subseteq> set (open_keys s') \<and>
    reconcile_all (\<lambda>_. Some ProvFailed) toy_env s' = (Inr ys, s'') \<and> exceptions s'' = exceptions s'"
  by (rule pass_notices_everything_once [OF sample_unposted_ok])

lemma sample_repair:
  "fst (try_repair_missing_ledger_entry toy_env (sample_payment 7 PSucceeded 100) (sample_unposted_db PSucceeded))"
  by code_simp

theorem repair_posts_only_the_evidence_witness:
  "\<exists>e fee. entries (snd (try_repair_missing_ledger_entry toy_env (sample_payment 7 PSucceeded 100)
       (sample_unposted_db PSucceeded))) = [e] \<and> map leg_view (jePostings e) = cleared_legs 100 fee 0"
  using repair_posts_only_the_evidence [OF sample_unposted_ok(1) _ _ prod.collapse [symmetric],
      of PSucceeded "sample_payment 7 PSucceeded 100" toy_env] sample_repair
  by (auto simp: has_entry_def sample_payment_def)

theorem batch_posts_or_reports_witness:
  "has_entry (snd (repair_batch toy_env 50 0 (sample_unposted_db PRefunded))) 7 Refund \<or>
   (InternalPostingFailure, Some 7, None) \<in> set (open_keys (snd (repair_batch toy_env 50 0 (sample_unposted_db PRefunded))))"
  using batch_posts_or_reports [OF sample_unposted_ok _ _ _ _ refl,
      of "(sample_payment 7 PRefunded 100)\<lparr>paInstallment := None\<rparr>" PRefunded Refund 0 50 toy_env]
  by (simp add: sample_payment_def owed_entry_def reversal_status_to_entry_type_def repair_due_def)

end
