(* ===== verification/Relationships.thy ===== *)
theory Relationships
  imports PaymentMethods Disputes
begin

text \<open>
  The connection of two parties (\<open>relationships/relationshipService.ts\<close> and its repositories): it is
  found or created for the exact pair under an advisory lock, every agreement of the pair is linked to
  it, and it carries the account that funds and the account that receives. The tables of this part
  live beside those of the payment core. Staff, owners and notifications are parameters; a
  notification may fail and then ends the operation, as the code awaits it.
\<close>

section \<open>Tables\<close>

datatype relationship_status =
    RlInvited | RlCounterpartyLinked | RlIdentitiesConfirmed | RlFinancialSetupPending
  | RlFinancialAccountsReady | RlAgreementPending | RlAgreementReady | RlSignaturePending | RlSigned
  | RlActive | RlRestricted | RlSuspended | RlClosed | RlCancelled

record relationship_row =
  rlId :: uuid
  rlStatus :: relationship_status
  rlReference :: "string option"
  rlInitiator :: uuid
  rlCurrentAgreement :: "uuid option"
  rlActivatedAt :: "msec option"
  rlRestrictedAt :: "msec option"
  rlClosedAt :: "msec option"
  rlCreatedAt :: msec

datatype participant_status = PcInvited | PcLinked | PcActive | PcRemoved

text \<open>Exactly one of the two profile columns is set: the party.\<close>

record participant_row =
  pcId :: uuid
  pcRelationship :: uuid
  pcParty :: profile_ref
  pcRole :: party_role
  pcStatus :: participant_status
  pcUser :: "uuid option"
  pcJoinedAt :: "msec option"

datatype account_kind = BankAccount | DebitCardAccount

datatype account_status = FaPendingVerification | FaVerified | FaFailed | FaDisabled

datatype account_subtype = Checking | Savings

record financial_account_row =
  faId :: uuid
  faParty :: profile_ref
  faKind :: account_kind
  faProvider :: string
  faRef :: string
  faLast4 :: "string option"
  faInstitution :: "string option"
  faExpiryMonth :: "int option"
  faExpiryYear :: "int option"
  faBrand :: "string option"
  faSubtype :: "account_subtype option"
  faStatus :: account_status
  faAddedBy :: uuid
  faVerifiedAt :: "msec option"
  faDisabledAt :: "msec option"

datatype account_usage = Funding | PayoutUsage

record assignment_row =
  asId :: uuid
  asRelationship :: uuid
  asParticipant :: uuid
  asAccount :: uuid
  asUsage :: account_usage
  asActive :: bool
  asSelectedBy :: uuid
  asFrom :: msec
  asTo :: "msec option"
  asSupersededBy :: "uuid option"

record rel_db =
  rdMethods :: method_db
  rdRelationships :: "relationship_row list"
  rdParticipants :: "participant_row list"
  rdAccounts :: "financial_account_row list"
  rdAssignments :: "assignment_row list"

type_synonym 'a rel_step = "(rel_db, error, 'a) step"

abbreviation rdMain :: "rel_db \<Rightarrow> db" where
  "rdMain s \<equiv> mdDb (rdMethods s)"

definition on_methods :: "'a method_step \<Rightarrow> 'a rel_step" where
  "on_methods m s = (case m (rdMethods s) of (r, d) \<Rightarrow> (r, s\<lparr>rdMethods := d\<rparr>))"

definition on_main :: "(db, error, 'a) step \<Rightarrow> 'a rel_step" where
  "on_main m = on_methods (on_db m)"

text \<open>A new identifier, from the counter of the payment core.\<close>

definition new_id :: "uuid rel_step" where
  "new_id = on_main (\<lambda>d. (Inr (nextId d), d\<lparr>nextId := Suc (nextId d)\<rparr>))"

record rel_deps =
  rlParty :: party_deps
  rlPay :: pay_deps
  rlEvidence :: evidence_deps
  rlReferenceCode :: "uuid \<Rightarrow> string"
  rlNotify :: "uuid \<Rightarrow> string \<Rightarrow> error option"

section \<open>Repositories\<close>

definition find_relationship :: "uuid \<Rightarrow> rel_db \<Rightarrow> relationship_row option" where
  "find_relationship i s = lookup_by rlId i (rdRelationships s)"

definition set_relationship :: "uuid \<Rightarrow> (relationship_row \<Rightarrow> relationship_row) \<Rightarrow> rel_db \<Rightarrow> rel_db" where
  "set_relationship i f s = s\<lparr>rdRelationships := update_by rlId i f (rdRelationships s)\<rparr>"

text \<open>\<open>UPDATE ... RETURNING\<close>: no row is an error, no condition on what the row held.\<close>

definition update_relationship ::
    "uuid \<Rightarrow> (relationship_row \<Rightarrow> relationship_row) \<Rightarrow> relationship_row rel_step" where
  "update_relationship i f s =
     (case find_relationship i s of
        None \<Rightarrow> (Inl (ConfigurationError ''relationship update found no row''), s)
      | Some r \<Rightarrow> (Inr (f r), set_relationship i f s))"

definition update_relationship_status :: "uuid \<Rightarrow> relationship_status \<Rightarrow> relationship_row rel_step" where
  "update_relationship_status i st = update_relationship i (\<lambda>r. r\<lparr>rlStatus := st\<rparr>)"

definition mark_activated :: "env \<Rightarrow> uuid \<Rightarrow> relationship_row rel_step" where
  "mark_activated E i = update_relationship i (\<lambda>r. r\<lparr>rlStatus := RlActive, rlActivatedAt := Some (clock E)\<rparr>)"

definition mark_restricted :: "env \<Rightarrow> uuid \<Rightarrow> relationship_row rel_step" where
  "mark_restricted E i = update_relationship i (\<lambda>r. r\<lparr>rlStatus := RlRestricted, rlRestrictedAt := Some (clock E)\<rparr>)"

definition mark_closed :: "env \<Rightarrow> uuid \<Rightarrow> relationship_row rel_step" where
  "mark_closed E i = update_relationship i (\<lambda>r. r\<lparr>rlStatus := RlClosed, rlClosedAt := Some (clock E)\<rparr>)"

definition mark_counterparty_linked :: "uuid \<Rightarrow> relationship_row rel_step" where
  "mark_counterparty_linked i = update_relationship_status i RlCounterpartyLinked"

definition set_current_agreement_id :: "uuid \<Rightarrow> uuid \<Rightarrow> relationship_row rel_step" where
  "set_current_agreement_id i ag = update_relationship i (\<lambda>r. r\<lparr>rlCurrentAgreement := Some ag\<rparr>)"

text \<open>The reference is unique.\<close>

definition reference_taken :: "uuid \<Rightarrow> string \<Rightarrow> rel_db \<Rightarrow> bool" where
  "reference_taken i ref s \<longleftrightarrow> list_ex (\<lambda>r. rlId r \<noteq> i \<and> rlReference r = Some ref) (rdRelationships s)"

definition set_public_reference :: "uuid \<Rightarrow> string \<Rightarrow> relationship_row rel_step" where
  "set_public_reference i ref s =
     (if reference_taken i ref s then (Inl (ForeignError ''relationship_public_reference_unique''), s)
      else update_relationship i (\<lambda>r. r\<lparr>rlReference := Some ref\<rparr>) s)"

definition insert_relationship :: "rel_deps \<Rightarrow> env \<Rightarrow> uuid \<Rightarrow> relationship_row rel_step" where
  "insert_relationship D E initiator =
     andThen new_id (\<lambda>i. (\<lambda>s.
       let r = \<lparr>rlId = i, rlStatus = RlInvited, rlReference = Some (rlReferenceCode D i), rlInitiator = initiator,
             rlCurrentAgreement = None, rlActivatedAt = None, rlRestrictedAt = None, rlClosedAt = None,
             rlCreatedAt = clock E\<rparr>
       in if reference_taken i (rlReferenceCode D i) s
          then (Inl (ForeignError ''relationship_public_reference_unique''), s)
          else (Inr r, s\<lparr>rdRelationships := rdRelationships s @ [r]\<rparr>)))"

definition list_participants :: "uuid \<Rightarrow> rel_db \<Rightarrow> participant_row list" where
  "list_participants i s = filter (\<lambda>p. pcRelationship p = i) (rdParticipants s)"

text \<open>One participant per role of a relationship.\<close>

definition insert_participant ::
    "uuid \<Rightarrow> profile_ref \<Rightarrow> party_role \<Rightarrow> participant_status \<Rightarrow> uuid option \<Rightarrow> msec option \<Rightarrow> participant_row rel_step" where
  "insert_participant rel party role st user joined =
     andThen new_id (\<lambda>i. (\<lambda>s.
       let p = \<lparr>pcId = i, pcRelationship = rel, pcParty = party, pcRole = role, pcStatus = st, pcUser = user,
             pcJoinedAt = joined\<rparr>
       in if list_ex (\<lambda>q. pcRole q = role) (list_participants rel s)
          then (Inl (ForeignError ''relationship_participant_relationship_role_unique''), s)
          else (Inr p, s\<lparr>rdParticipants := rdParticipants s @ [p]\<rparr>)))"

definition activated_participant :: "env \<Rightarrow> participant_row \<Rightarrow> participant_row" where
  "activated_participant E p = p\<lparr>pcStatus := PcActive, pcJoinedAt := Some (clock E)\<rparr>"

definition activate_participant :: "env \<Rightarrow> uuid \<Rightarrow> participant_row rel_step" where
  "activate_participant E i s =
     (case lookup_by pcId i (rdParticipants s) of
        None \<Rightarrow> (Inl (ConfigurationError ''relationship_participant activate found no row''), s)
      | Some p \<Rightarrow> (Inr (activated_participant E p),
          s\<lparr>rdParticipants := update_by pcId i (activated_participant E) (rdParticipants s)\<rparr>))"

definition list_for_participant :: "profile_ref \<Rightarrow> rel_db \<Rightarrow> relationship_row list" where
  "list_for_participant party s =
     filter (\<lambda>r. list_ex (\<lambda>p. pcRelationship p = rlId r \<and> pcParty p = party) (rdParticipants s)) (rdRelationships s)"

definition find_financial_account :: "uuid \<Rightarrow> rel_db \<Rightarrow> financial_account_row option" where
  "find_financial_account i s = lookup_by faId i (rdAccounts s)"

text \<open>The active assignment of a slot, with its account.\<close>

definition find_active_assignment ::
    "uuid \<Rightarrow> account_usage \<Rightarrow> rel_db \<Rightarrow> (assignment_row \<times> financial_account_row) option" where
  "find_active_assignment rel use s =
     (case find (\<lambda>a. asRelationship a = rel \<and> asUsage a = use \<and> asActive a \<and> find_financial_account (asAccount a) s \<noteq> None)
         (rdAssignments s) of
        None \<Rightarrow> None
      | Some a \<Rightarrow> map_option (\<lambda>x. (a, x)) (find_financial_account (asAccount a) s))"

section \<open>The pair of parties\<close>

definition terminal_statuses :: "relationship_status list" where
  "terminal_statuses = [RlRestricted, RlSuspended, RlClosed, RlCancelled]"

text \<open>The oldest relationship that is not over and has both parties among its participants of the given
  statuses.\<close>

definition relationship_of_pair ::
    "participant_status list \<Rightarrow> profile_ref \<Rightarrow> profile_ref \<Rightarrow> rel_db \<Rightarrow> relationship_row option" where
  "relationship_of_pair sts a b s =
     (let has = (\<lambda>party r. list_ex (\<lambda>p. pcRelationship p = rlId r \<and> pcStatus p \<in> set sts \<and> pcParty p = party)
            (rdParticipants s))
      in case sort_key rlCreatedAt (filter (\<lambda>r. has a r \<and> has b r \<and> rlStatus r \<notin> set terminal_statuses)
            (rdRelationships s)) of
           [] \<Rightarrow> None | r # _ \<Rightarrow> Some r)"

record pair_input =
  piCreditorParty :: profile_ref
  piCreditorUser :: uuid
  piDebtorParty :: profile_ref
  piDebtorUser :: uuid
  piInitiator :: uuid

text \<open>One transaction under the advisory lock of the pair.\<close>

definition resolve_for_exact_parties :: "rel_deps \<Rightarrow> env \<Rightarrow> pair_input \<Rightarrow> uuid rel_step" where
  "resolve_for_exact_parties D E p = atomically (\<lambda>s.
     case relationship_of_pair [PcActive] (piCreditorParty p) (piDebtorParty p) s of
       Some r \<Rightarrow> (Inr (rlId r), s)
     | None \<Rightarrow>
         andThen (insert_relationship D E (piInitiator p)) (\<lambda>r.
         andThen (insert_participant (rlId r) (piCreditorParty p) Creditor PcActive (Some (piCreditorUser p)) (Some (clock E))) (\<lambda>_.
         andThen (insert_participant (rlId r) (piDebtorParty p) Debtor PcActive (Some (piDebtorUser p)) (Some (clock E))) (\<lambda>_.
         ret (rlId r)))) s)"

definition resolve_or_create_pending :: "rel_deps \<Rightarrow> env \<Rightarrow> pair_input \<Rightarrow> uuid rel_step" where
  "resolve_or_create_pending D E p = atomically (\<lambda>s.
     case relationship_of_pair [PcActive, PcInvited] (piCreditorParty p) (piDebtorParty p) s of
       Some r \<Rightarrow> (Inr (rlId r), s)
     | None \<Rightarrow>
         (let isCreditor = (piInitiator p = piCreditorUser p);
              initiator = (if isCreditor then piCreditorParty p else piDebtorParty p);
              initiatorRole = (if isCreditor then Creditor else Debtor);
              counterparty = (if isCreditor then piDebtorParty p else piCreditorParty p);
              counterpartyUser = (if isCreditor then piDebtorUser p else piCreditorUser p)
          in andThen (insert_relationship D E (piInitiator p)) (\<lambda>r.
             andThen (insert_participant (rlId r) initiator initiatorRole PcActive (Some (piInitiator p)) (Some (clock E))) (\<lambda>_.
             andThen (insert_participant (rlId r) counterparty (other_party initiatorRole) PcInvited (Some counterpartyUser) None) (\<lambda>_.
             ret (rlId r))))) s)"

section \<open>Guards\<close>

definition require_relationship :: "uuid \<Rightarrow> rel_db \<Rightarrow> error + relationship_row" where
  "require_relationship i s =
     (case find_relationship i s of None \<Rightarrow> Inl (ValidationError ''RelationshipNotFound'') | Some r \<Rightarrow> Inr r)"

definition with_relationship :: "uuid \<Rightarrow> (relationship_row \<Rightarrow> 'a rel_step) \<Rightarrow> 'a rel_step" where
  "with_relationship i f = andThen (\<lambda>s. (require_relationship i s, s)) f"

definition resolve_acting_participant :: "rel_deps \<Rightarrow> uuid \<Rightarrow> uuid \<Rightarrow> rel_db \<Rightarrow> error + participant_row" where
  "resolve_acting_participant D rel user s =
     (case find (\<lambda>p. mayAct (rlParty D) user (pcParty p)) (list_participants rel s) of
        None \<Rightarrow> Inl (ForbiddenError ''NotAParticipant'') | Some p \<Rightarrow> Inr p)"

definition as_participant :: "rel_deps \<Rightarrow> uuid \<Rightarrow> uuid \<Rightarrow> participant_row rel_step" where
  "as_participant D rel user = (\<lambda>s. (resolve_acting_participant D rel user s, s))"

definition authorize_view_party :: "rel_deps \<Rightarrow> uuid \<Rightarrow> profile_ref \<Rightarrow> error + unit" where
  "authorize_view_party D user party =
     (if mayAct (rlParty D) user party then Inr () else Inl (ForbiddenError ''NoAccess''))"

definition relationship_audit :: "env \<Rightarrow> uuid \<Rightarrow> uuid \<Rightarrow> string \<Rightarrow> json \<Rightarrow> unit rel_step" where
  "relationship_audit E rel user act v = on_main (update (audit E ((blank_audit act (clock E))
     \<lparr>actorUserId := Some user, actorRole := Some ''agreement_party'', newValue := v,
      relatedCaseId := Some rel, targetResourceType := Value ''relationship'', targetResourceId := Value rel\<rparr>)))"

text \<open>\<open>Promise.all\<close> over the participants who have a user; the first failure is thrown.\<close>

fun notify_all :: "rel_deps \<Rightarrow> string \<Rightarrow> uuid list \<Rightarrow> unit rel_step" where
  "notify_all D kind [] = ret ()"
| "notify_all D kind (u # us) =
     (case rlNotify D u kind of Some e \<Rightarrow> throw e | None \<Rightarrow> notify_all D kind us)"

definition notify_participants :: "rel_deps \<Rightarrow> string \<Rightarrow> uuid \<Rightarrow> unit rel_step" where
  "notify_participants D kind rel s =
     notify_all D kind (List.map_filter pcUser (list_participants rel s)) s"

section \<open>Reading\<close>

definition current_agreement_roles :: "rel_deps \<Rightarrow> uuid \<Rightarrow> rel_db \<Rightarrow> (profile_ref \<times> profile_ref) option" where
  "current_agreement_roles D rel s =
     Option.bind (find_relationship rel s) (\<lambda>r. Option.bind (rlCurrentAgreement r) (\<lambda>ag.
       case get_agreement (rlParty D) ag (rlInitiator r) (rdMain s) of
         Inl _ \<Rightarrow> None | Inr a \<Rightarrow> Some (agCreditor a, agDebtor a)))"

definition participant_effective_role :: "participant_row \<Rightarrow> (profile_ref \<times> profile_ref) option \<Rightarrow> party_role" where
  "participant_effective_role p roles =
     (case roles of None \<Rightarrow> pcRole p
      | Some (creditor, debtor) \<Rightarrow>
          if creditor = pcParty p then Creditor else if debtor = pcParty p then Debtor else pcRole p)"

definition ensure_public_reference :: "rel_deps \<Rightarrow> uuid \<Rightarrow> string rel_step" where
  "ensure_public_reference D rel = with_relationship rel (\<lambda>r.
     case rlReference r of
       Some ref \<Rightarrow> ret ref
     | None \<Rightarrow> andThen new_id (\<lambda>i. andThen (set_public_reference rel (rlReferenceCode D i)) (\<lambda>_.
         ret (rlReferenceCode D i))))"

definition get_relationship ::
    "rel_deps \<Rightarrow> uuid \<Rightarrow> uuid \<Rightarrow> (relationship_row \<times> (participant_row \<times> party_role) list) rel_step" where
  "get_relationship D rel user = with_relationship rel (\<lambda>r.
     andThen (as_participant D rel user) (\<lambda>_.
     andThen (if rlReference r \<noteq> None then ret r
       else andThen new_id (\<lambda>i. set_public_reference rel (rlReferenceCode D i))) (\<lambda>r.
     asks (\<lambda>s. (r, map (\<lambda>p. (p, participant_effective_role p (current_agreement_roles D rel s)))
       (list_participants rel s))))))"

definition list_relationships_for_party :: "rel_deps \<Rightarrow> uuid \<Rightarrow> profile_ref \<Rightarrow> rel_db \<Rightarrow> error + relationship_row list" where
  "list_relationships_for_party D user party s =
     bindE (authorize_view_party D user party) (\<lambda>_. Inr (list_for_participant party s))"

text \<open>The participant who is not the one that acts.\<close>

definition other_participant :: "uuid \<Rightarrow> participant_row \<Rightarrow> rel_db \<Rightarrow> participant_row option" where
  "other_participant rel acting s = find (\<lambda>p. pcId p \<noteq> pcId acting) (list_participants rel s)"

fun eligible_among ::
    "rel_deps \<Rightarrow> uuid \<Rightarrow> uuid \<Rightarrow> profile_ref \<Rightarrow> relationship_row list \<Rightarrow> rel_db \<Rightarrow> error + relationship_row list" where
  "eligible_among D ag user counterparty [] s = Inr []"
| "eligible_among D ag user counterparty (r # rs) s =
     (if rlCurrentAgreement r = Some ag \<or> rlStatus r = RlInvited \<or> rlStatus r \<in> set terminal_statuses
      then eligible_among D ag user counterparty rs s
      else bindE (resolve_acting_participant D (rlId r) user s) (\<lambda>acting.
        bindE (eligible_among D ag user counterparty rs s) (\<lambda>xs.
        Inr (if map_option pcParty (other_participant (rlId r) acting s) = Some counterparty then r # xs else xs))))"

definition list_eligible_for_agreement_link ::
    "rel_deps \<Rightarrow> uuid \<Rightarrow> uuid \<Rightarrow> rel_db \<Rightarrow> error + relationship_row list" where
  "list_eligible_for_agreement_link D ag user s =
     bindE (resolve_party_role (rlParty D) ag user (rdMain s)) (\<lambda>role.
     bindE (get_agreement (rlParty D) ag user (rdMain s)) (\<lambda>a.
     bindE (list_relationships_for_party D user (party_of role a) s) (\<lambda>all.
     eligible_among D ag user (party_of (other_party role) a) all s)))"

section \<open>Linking an agreement\<close>

definition terminal_agreement_statuses :: "agreement_status list" where
  "terminal_agreement_statuses = [PaidInFull, SettledInFull, MutuallyCanceled, Closed]"

definition list_agreements_for_relationship :: "uuid \<Rightarrow> db \<Rightarrow> agreement_row list" where
  "list_agreements_for_relationship rel s = rev (filter (\<lambda>a. agRelationship a = Some rel) (agreements s))"

text \<open>Another agreement of the connection that is not over and has the other creditor.\<close>

definition role_conflict :: "uuid \<Rightarrow> agreement_row \<Rightarrow> agreement_row list \<Rightarrow> bool" where
  "role_conflict ag a others = list_ex (\<lambda>b. agId b \<noteq> ag \<and> agStatus b \<notin> set terminal_agreement_statuses \<and>
     agCreditor b \<noteq> agCreditor a) others"

definition link_relationship :: "uuid \<Rightarrow> uuid \<Rightarrow> db \<Rightarrow> db" where
  "link_relationship ag rel = set_agreement ag (\<lambda>a. a\<lparr>agRelationship := Some rel\<rparr>)"

text \<open>The adapters to mandates and cards: an active one stays.\<close>

definition authorize_from_financial_account ::
    "rel_deps \<Rightarrow> env \<Rightarrow> uuid \<Rightarrow> profile_ref \<Rightarrow> uuid \<Rightarrow> string \<Rightarrow> uuid \<Rightarrow> unit method_step" where
  "authorize_from_financial_account D E ag payer account ref user s =
     (if find_active_mandate ag s \<noteq> None then (Inr (), s)
      else andThen (authorize_mandate (rlPay D) E ag payer ref user) (\<lambda>m.
        update (\<lambda>s. s\<lparr>mdMandates := update_by mnId (mnId m) (\<lambda>x. x\<lparr>mnFinancial := Some account\<rparr>) (mdMandates s)\<rparr>)) s)"

definition register_from_financial_account ::
    "rel_deps \<Rightarrow> env \<Rightarrow> uuid \<Rightarrow> profile_ref \<Rightarrow> card_input \<Rightarrow> uuid \<Rightarrow> unit method_step" where
  "register_from_financial_account D E ag payer k user s =
     (if find_active_card ag s \<noteq> None then (Inr (), s)
      else andThen (register_card (rlPay D) E ag payer k user) (\<lambda>_. ret ()) s)"

definition card_details :: "financial_account_row \<Rightarrow> card_input option" where
  "card_details x =
     (case (faLast4 x, faExpiryMonth x, faExpiryYear x) of
        (Some l, Some m, Some y) \<Rightarrow>
          if l = [] \<or> m = 0 \<or> y = 0 then None
          else Some \<lparr>kiToken = faRef x, kiLast4 = l, kiBrand = faBrand x, kiMonth = m, kiYear = y\<rparr>
      | _ \<Rightarrow> None)"

text \<open>The funding account of the connection becomes the method of the agreement, when its owner is the
  debtor.\<close>

definition fund_agreement :: "rel_deps \<Rightarrow> env \<Rightarrow> uuid \<Rightarrow> agreement_row \<Rightarrow> uuid \<Rightarrow> unit rel_step" where
  "fund_agreement D E rel a user s =
     (case find_active_assignment rel Funding s of
        None \<Rightarrow> (Inr (), s)
      | Some (asg, x) \<Rightarrow>
     (if faStatus x \<noteq> FaVerified then (Inr (), s)
      else case find (\<lambda>p. pcId p = asParticipant asg) (list_participants rel s) of
        None \<Rightarrow> (Inr (), s)
      | Some p \<Rightarrow>
     (if pcParty p \<noteq> agDebtor a then (Inr (), s)
      else if faKind x = BankAccount
      then on_methods (authorize_from_financial_account D E (agId a) (pcParty p) (faId x) (faRef x) user) s
      else case card_details x of
        None \<Rightarrow> (Inr (), s)
      | Some k \<Rightarrow> on_methods (register_from_financial_account D E (agId a) (pcParty p) k user) s)))"

definition link_agreement :: "rel_deps \<Rightarrow> env \<Rightarrow> uuid \<Rightarrow> uuid \<Rightarrow> uuid \<Rightarrow> relationship_row rel_step" where
  "link_agreement D E rel ag user = with_relationship rel (\<lambda>r.
     andThen (as_participant D rel user) (\<lambda>acting.
     andThen (\<lambda>s. (get_agreement (rlParty D) ag user (rdMain s), s)) (\<lambda>a.
     if agRelationship a = Some rel then ret r
     else andThen (guard (agRelationship a = None) (ValidationError ''LinkedElsewhere'')) (\<lambda>_.
       andThen (\<lambda>s. (resolve_party_role (rlParty D) ag user (rdMain s), s)) (\<lambda>role.
       andThen (\<lambda>s. (if map_option pcParty (other_participant rel acting s) = Some (party_of (other_party role) a)
           then Inr () else Inl (ValidationError ''NotTheCounterparty''), s)) (\<lambda>_.
       andThen (\<lambda>s. (if role_conflict ag a (list_agreements_for_relationship rel (rdMain s))
           then Inl (ValidationError ''RolesReversed'') else Inr (), s)) (\<lambda>_.
       andThen (asks (list_participants rel)) (\<lambda>ps.
       andThen (set_current_agreement_id rel ag) (\<lambda>_.
       andThen (on_main (update (link_relationship ag rel))) (\<lambda>_.
       andThen (if list_ex (\<lambda>p. pcStatus p = PcInvited) ps then ret r
         else update_relationship_status rel RlAgreementPending) (\<lambda>r'.
       andThen (relationship_audit E rel user ''AGREEMENT_LINKED'' (JObj [(''agreementId'', json_uuid ag)])) (\<lambda>_.
       andThen (fund_agreement D E rel a user) (\<lambda>_. ret r')))))))))))))"

definition establish_agreement_relationship :: "rel_deps \<Rightarrow> env \<Rightarrow> uuid \<Rightarrow> pair_input \<Rightarrow> uuid rel_step" where
  "establish_agreement_relationship D E ag p =
     andThen (\<lambda>s. (get_agreement (rlParty D) ag (piInitiator p) (rdMain s), s)) (\<lambda>a.
     case agRelationship a of
       Some rel \<Rightarrow> ret rel
     | None \<Rightarrow> andThen (resolve_for_exact_parties D E p) (\<lambda>rel.
         andThen (link_agreement D E rel ag (piInitiator p)) (\<lambda>r. ret (rlId r))))"

definition propose_agreement_relationship :: "rel_deps \<Rightarrow> env \<Rightarrow> uuid \<Rightarrow> pair_input \<Rightarrow> uuid rel_step" where
  "propose_agreement_relationship D E ag p =
     andThen (\<lambda>s. (get_agreement (rlParty D) ag (piInitiator p) (rdMain s), s)) (\<lambda>a.
     case agRelationship a of
       Some rel \<Rightarrow> ret rel
     | None \<Rightarrow> andThen (resolve_or_create_pending D E p) (\<lambda>rel.
         andThen (link_agreement D E rel ag (piInitiator p)) (\<lambda>r. ret (rlId r))))"

fun activate_each :: "env \<Rightarrow> uuid list \<Rightarrow> unit rel_step" where
  "activate_each E [] = ret ()"
| "activate_each E (i # is) = andThen (activate_participant E i) (\<lambda>_. activate_each E is)"

definition confirm_agreement_relationship :: "rel_deps \<Rightarrow> env \<Rightarrow> uuid \<Rightarrow> pair_input \<Rightarrow> uuid rel_step" where
  "confirm_agreement_relationship D E ag p =
     andThen (establish_agreement_relationship D E ag p) (\<lambda>rel.
     andThen (asks (\<lambda>s. map pcId (filter (\<lambda>q. pcStatus q = PcInvited) (list_participants rel s)))) (\<lambda>pending.
     andThen (activate_each E pending) (\<lambda>_.
     if pending = [] then ret rel
     else with_relationship rel (\<lambda>r.
       andThen (if rlStatus r = RlInvited \<or> rlStatus r = RlCounterpartyLinked
         then andThen (update_relationship_status rel RlAgreementPending) (\<lambda>_. ret ()) else ret ()) (\<lambda>_.
       andThen (relationship_audit E rel (piInitiator p) ''RELATIONSHIP_PARTICIPANT_CONFIRMED''
         (JObj [(''agreementId'', json_uuid ag), (''confirmedParticipantIds'', JArr (map json_uuid pending))])) (\<lambda>_.
       ret rel))))))"

section \<open>The status of a connection\<close>

definition sync_from_financial_accounts :: "uuid \<Rightarrow> unit rel_step" where
  "sync_from_financial_accounts rel = with_relationship rel (\<lambda>r. (\<lambda>s.
     if rlStatus r = RlFinancialSetupPending \<and>
        map_option (faStatus \<circ> snd) (find_active_assignment rel Funding s) = Some FaVerified \<and>
        map_option (faStatus \<circ> snd) (find_active_assignment rel PayoutUsage s) = Some FaVerified
     then andThen (update_relationship_status rel RlFinancialAccountsReady) (\<lambda>_. ret ()) s else (Inr (), s)))"

text \<open>The status the agreement calls for, if any.\<close>

definition status_from_agreement :: "agreement_row \<Rightarrow> version_row \<Rightarrow> relationship_status option" where
  "status_from_agreement a v =
     (if avSigned v \<noteq> None then Some RlSigned
      else if agStatus a = MutuallyCanceled then Some RlCancelled
      else if agStatus a = AwaitingSignatures then Some RlSignaturePending
      else if agStatus a \<notin> set pre_acceptance_statuses then Some RlAgreementReady else None)"

definition sync_from_agreement :: "rel_deps \<Rightarrow> uuid \<Rightarrow> uuid \<Rightarrow> relationship_row rel_step" where
  "sync_from_agreement D rel user = with_relationship rel (\<lambda>r.
     andThen (as_participant D rel user) (\<lambda>_.
     case rlCurrentAgreement r of
       None \<Rightarrow> ret r
     | Some ag \<Rightarrow>
         (if rlStatus r = RlActive \<or> rlStatus r \<in> set terminal_statuses then ret r
          else andThen (\<lambda>s. (get_agreement (rlParty D) ag user (rdMain s), s)) (\<lambda>a.
            andThen (\<lambda>s. (require_current_version a (rdMain s), s)) (\<lambda>v.
            case status_from_agreement a v of
              None \<Rightarrow> ret r
            | Some st \<Rightarrow> if st = rlStatus r then ret r else update_relationship_status rel st)))))"

datatype missing_prerequisite =
    StatusBlocking relationship_status | CounterpartyMissing | AgreementMissing | SignatureMissing
  | FundingAccountMissing | FundingAccountUnverified | MandateMissing | CardMissing
  | PayoutAccountMissing | PayoutAccountUnverified

definition signed_agreement :: "rel_deps \<Rightarrow> relationship_row \<Rightarrow> uuid \<Rightarrow> db \<Rightarrow> bool" where
  "signed_agreement D r ag s =
     (case bindE (get_agreement (rlParty D) ag (rlInitiator r) s) (\<lambda>a. require_current_version a s) of
        Inl _ \<Rightarrow> False | Inr v \<Rightarrow> avSigned v \<noteq> None)"

definition activation_reasons :: "rel_deps \<Rightarrow> relationship_row \<Rightarrow> rel_db \<Rightarrow> missing_prerequisite list" where
  "activation_reasons D r s =
     (let active = filter (\<lambda>p. pcStatus p = PcActive) (list_participants (rlId r) s) in
      (if rlStatus r \<in> set terminal_statuses then [StatusBlocking (rlStatus r)] else []) @
      (if list_ex (\<lambda>p. pcRole p = Creditor) active \<and> list_ex (\<lambda>p. pcRole p = Debtor) active then []
       else [CounterpartyMissing]) @
      (case rlCurrentAgreement r of None \<Rightarrow> [AgreementMissing]
       | Some ag \<Rightarrow> if signed_agreement D r ag (rdMain s) then [] else [SignatureMissing]) @
      (case find_active_assignment (rlId r) Funding s of
         None \<Rightarrow> [FundingAccountMissing]
       | Some (_, x) \<Rightarrow>
           (if faStatus x \<noteq> FaVerified then [FundingAccountUnverified]
            else case rlCurrentAgreement r of None \<Rightarrow> []
            | Some ag \<Rightarrow>
                (if faKind x = BankAccount
                 then if find_active_mandate ag (rdMethods s) = None then [MandateMissing] else []
                 else if find_active_card ag (rdMethods s) = None then [CardMissing] else []))) @
      (case find_active_assignment (rlId r) PayoutUsage s of
         None \<Rightarrow> [PayoutAccountMissing]
       | Some (_, x) \<Rightarrow> if faStatus x \<noteq> FaVerified then [PayoutAccountUnverified] else []))"

definition check_activation_prerequisites :: "rel_deps \<Rightarrow> uuid \<Rightarrow> rel_db \<Rightarrow> error + missing_prerequisite list" where
  "check_activation_prerequisites D rel s = bindE (require_relationship rel s) (\<lambda>r. Inr (activation_reasons D r s))"

definition activate :: "rel_deps \<Rightarrow> env \<Rightarrow> uuid \<Rightarrow> uuid \<Rightarrow> relationship_row rel_step" where
  "activate D E rel user = with_relationship rel (\<lambda>r.
     andThen (as_participant D rel user) (\<lambda>_.
     if rlStatus r = RlActive then ret r
     else andThen (\<lambda>s. (check_activation_prerequisites D rel s, s)) (\<lambda>missing.
       andThen (guard (missing = []) (ValidationError ''PrerequisitesNotMet'')) (\<lambda>_.
       andThen (mark_activated E rel) (\<lambda>r'.
       andThen (relationship_audit E rel user ''RELATIONSHIP_ACTIVATED'' JNull) (\<lambda>_.
       andThen (notify_participants D ''relationship_activated'' rel) (\<lambda>_. ret r')))))))"

definition restrict_relationship ::
    "rel_deps \<Rightarrow> env \<Rightarrow> uuid \<Rightarrow> uuid \<Rightarrow> platform_role \<Rightarrow> string \<Rightarrow> relationship_row rel_step" where
  "restrict_relationship D E rel user role why =
     andThen (guard (is_admin_role role) (ForbiddenError ''AdminRequired'')) (\<lambda>_. with_relationship rel (\<lambda>_.
     andThen (mark_restricted E rel) (\<lambda>r'.
     andThen (relationship_audit E rel user ''RELATIONSHIP_RESTRICTED'' (JObj [(''reason'', JStr why)])) (\<lambda>_.
     andThen (notify_participants D ''relationship_restricted'' rel) (\<lambda>_. ret r')))))"

definition close_relationship :: "rel_deps \<Rightarrow> env \<Rightarrow> uuid \<Rightarrow> uuid \<Rightarrow> relationship_row rel_step" where
  "close_relationship D E rel user = with_relationship rel (\<lambda>r.
     andThen (as_participant D rel user) (\<lambda>_.
     if rlStatus r = RlClosed then ret r
     else andThen (mark_closed E rel) (\<lambda>r'.
       andThen (relationship_audit E rel user ''RELATIONSHIP_CLOSED'' JNull) (\<lambda>_. ret r'))))"

section \<open>Administration and evidence\<close>

definition get_relationship_for_admin ::
    "env \<Rightarrow> uuid \<Rightarrow> uuid \<Rightarrow> platform_role \<Rightarrow> (relationship_row \<times> participant_row list) rel_step" where
  "get_relationship_for_admin E rel user role =
     andThen (guard (is_admin_role role) (ForbiddenError ''AdminRequired'')) (\<lambda>_. with_relationship rel (\<lambda>r.
     andThen (asks (list_participants rel)) (\<lambda>ps.
     andThen (relationship_audit E rel user ''ADMIN_RELATIONSHIP_VIEWED'' JNull) (\<lambda>_. ret (r, ps)))))"

definition get_relationship_evidence :: "rel_deps \<Rightarrow> uuid \<Rightarrow> uuid \<Rightarrow> rel_db \<Rightarrow> error + evidence_row list" where
  "get_relationship_evidence D rel user s =
     bindE (require_relationship rel s) (\<lambda>r.
     bindE (resolve_acting_participant D rel user s) (\<lambda>_.
     case rlCurrentAgreement r of
       None \<Rightarrow> Inl (ValidationError ''NoAgreementLinked'')
     | Some ag \<Rightarrow> list_evidence (rlEvidence D) ag user (rdMain s)))"

definition get_relationship_evidence_url :: "rel_deps \<Rightarrow> uuid \<Rightarrow> uuid \<Rightarrow> uuid \<Rightarrow> rel_db \<Rightarrow> error + string" where
  "get_relationship_evidence_url D rel ev user s =
     bindE (require_relationship rel s) (\<lambda>_.
     bindE (resolve_acting_participant D rel user s) (\<lambda>_.
     get_signed_evidence_url (rlEvidence D) ev user (rdMain s)))"

end
