(* ===== verification/RelationshipAccounts.thy ===== *)
theory RelationshipAccounts
  imports Relationships
begin

text \<open>
  The accounts that fund a connection and receive its money
  (\<open>relationships/relationshipFinancialAccountService.ts\<close> and its repositories): each belongs to a party,
  is verified by the provider, and is assigned to the one slot its owner's role may fill; a slot has
  one active assignment. Step-up verification is a parameter; the risk signal swallows its errors and is
  left out.
\<close>

section \<open>Repositories\<close>

record account_input =
  acKind :: account_kind
  acProvider :: string
  acRef :: string
  acLast4 :: "string option"
  acInstitution :: "string option"
  acExpiryMonth :: "int option"
  acExpiryYear :: "int option"
  acBrand :: "string option"
  acSubtype :: "account_subtype option"

definition insert_account :: "profile_ref \<Rightarrow> account_input \<Rightarrow> uuid \<Rightarrow> financial_account_row rel_step" where
  "insert_account party k user =
     andThen new_id (\<lambda>i. (\<lambda>s.
       let x = \<lparr>faId = i, faParty = party, faKind = acKind k, faProvider = acProvider k, faRef = acRef k,
             faLast4 = acLast4 k, faInstitution = acInstitution k, faExpiryMonth = acExpiryMonth k,
             faExpiryYear = acExpiryYear k, faBrand = acBrand k, faSubtype = acSubtype k,
             faStatus = FaPendingVerification, faAddedBy = user, faVerifiedAt = None, faDisabledAt = None\<rparr>
       in if list_all int4_ok (List.map_filter id [acExpiryMonth k, acExpiryYear k])
          then (Inr x, s\<lparr>rdAccounts := rdAccounts s @ [x]\<rparr>)
          else (Inl (ForeignError ''integer out of range''), s)))"

definition list_accounts_of :: "profile_ref \<Rightarrow> rel_db \<Rightarrow> financial_account_row list" where
  "list_accounts_of party s = filter (\<lambda>x. faParty x = party) (rdAccounts s)"

definition update_account :: "uuid \<Rightarrow> (financial_account_row \<Rightarrow> financial_account_row) \<Rightarrow> financial_account_row rel_step" where
  "update_account i f s =
     (case find_financial_account i s of
        None \<Rightarrow> (Inl (ConfigurationError ''financial_account update found no row''), s)
      | Some x \<Rightarrow> (Inr (f x), s\<lparr>rdAccounts := update_by faId i f (rdAccounts s)\<rparr>))"

definition mark_verified :: "env \<Rightarrow> uuid \<Rightarrow> financial_account_row rel_step" where
  "mark_verified E i = update_account i (\<lambda>x. x\<lparr>faStatus := FaVerified, faVerifiedAt := Some (clock E)\<rparr>)"

definition mark_account_failed :: "uuid \<Rightarrow> financial_account_row rel_step" where
  "mark_account_failed i = update_account i (\<lambda>x. x\<lparr>faStatus := FaFailed\<rparr>)"

definition mark_disabled :: "env \<Rightarrow> uuid \<Rightarrow> financial_account_row rel_step" where
  "mark_disabled E i = update_account i (\<lambda>x. x\<lparr>faStatus := FaDisabled, faDisabledAt := Some (clock E)\<rparr>)"

record assignment_input =
  aiRelationship :: uuid
  aiParticipant :: uuid
  aiAccount :: uuid
  aiUsage :: account_usage
  aiSelectedBy :: uuid

definition assignment_of :: "env \<Rightarrow> uuid \<Rightarrow> assignment_input \<Rightarrow> assignment_row" where
  "assignment_of E i k = \<lparr>asId = i, asRelationship = aiRelationship k, asParticipant = aiParticipant k,
     asAccount = aiAccount k, asUsage = aiUsage k, asActive = True, asSelectedBy = aiSelectedBy k,
     asFrom = clock E, asTo = None, asSupersededBy = None\<rparr>"

definition in_slot :: "uuid \<Rightarrow> account_usage \<Rightarrow> assignment_row \<Rightarrow> bool" where
  "in_slot rel use a \<longleftrightarrow> asRelationship a = rel \<and> asUsage a = use \<and> asActive a"

text \<open>The unique index on active slots.\<close>

definition insert_assignment :: "env \<Rightarrow> assignment_input \<Rightarrow> assignment_row rel_step" where
  "insert_assignment E k =
     andThen new_id (\<lambda>i. (\<lambda>s.
       if list_ex (in_slot (aiRelationship k) (aiUsage k)) (rdAssignments s)
       then (Inl (ForeignError ''relationship_financial_account_active_slot_unique''), s)
       else (Inr (assignment_of E i k), s\<lparr>rdAssignments := rdAssignments s @ [assignment_of E i k]\<rparr>)))"

definition superseded_assignment :: "env \<Rightarrow> uuid \<Rightarrow> assignment_row \<Rightarrow> assignment_row" where
  "superseded_assignment E new a = a\<lparr>asActive := False, asSupersededBy := Some new, asTo := Some (clock E)\<rparr>"

text \<open>One transaction under the advisory lock of the slot: the active assignment has to be the one the
  caller saw.\<close>

definition replace_assignment_atomically ::
    "env \<Rightarrow> assignment_input \<Rightarrow> uuid option \<Rightarrow> assignment_row rel_step" where
  "replace_assignment_atomically E k expected = atomically (\<lambda>s.
     let current = map_option asId (find (in_slot (aiRelationship k) (aiUsage k)) (rdAssignments s)) in
     if current \<noteq> expected then (Inl (ConflictError ''SlotAlreadyReplaced''), s)
     else andThen new_id (\<lambda>i.
       andThen (update (\<lambda>s. case current of None \<Rightarrow> s
         | Some old \<Rightarrow> s\<lparr>rdAssignments := update_by asId old (superseded_assignment E i) (rdAssignments s)\<rparr>)) (\<lambda>_. (\<lambda>s.
       if list_ex (in_slot (aiRelationship k) (aiUsage k)) (rdAssignments s)
       then (Inl (ForeignError ''relationship_financial_account_active_slot_unique''), s)
       else (Inr (assignment_of E i k), s\<lparr>rdAssignments := rdAssignments s @ [assignment_of E i k]\<rparr>)))) s)"

definition list_assignments :: "uuid \<Rightarrow> rel_db \<Rightarrow> (assignment_row \<times> financial_account_row) list" where
  "list_assignments rel s =
     List.map_filter (\<lambda>a. map_option (\<lambda>x. (a, x)) (find_financial_account (asAccount a) s))
       (filter (\<lambda>a. asRelationship a = rel) (rdAssignments s))"

definition list_active_assignments_for_account :: "uuid \<Rightarrow> rel_db \<Rightarrow> assignment_row list" where
  "list_active_assignments_for_account i s = filter (\<lambda>a. asAccount a = i \<and> asActive a) (rdAssignments s)"

section \<open>Guards\<close>

text \<open>A closed or cancelled connection takes no account; a restricted one does.\<close>

definition require_open_relationship :: "uuid \<Rightarrow> unit rel_step" where
  "require_open_relationship rel = with_relationship rel (\<lambda>r.
     guard (rlStatus r \<noteq> RlClosed \<and> rlStatus r \<noteq> RlCancelled) (ValidationError ''RelationshipOver''))"

definition require_account :: "uuid \<Rightarrow> financial_account_row rel_step" where
  "require_account i s =
     (case find_financial_account i s of None \<Rightarrow> (Inl (ValidationError ''AccountNotFound''), s) | Some x \<Rightarrow> (Inr x, s))"

definition authorize_account_party :: "rel_deps \<Rightarrow> uuid \<Rightarrow> profile_ref \<Rightarrow> unit rel_step" where
  "authorize_account_party D user party =
     guard (authorize_party (rlParty D) user party (Some ''change_payout_configuration'')) (ForbiddenError ''NoAccess'')"

definition usage_for_role :: "party_role \<Rightarrow> account_usage" where
  "usage_for_role role = (case role of Debtor \<Rightarrow> Funding | Creditor \<Rightarrow> PayoutUsage)"

text \<open>The debtor is looked at first here.\<close>

definition effective_role :: "participant_row \<Rightarrow> (profile_ref \<times> profile_ref) option \<Rightarrow> party_role" where
  "effective_role p roles =
     (case roles of None \<Rightarrow> pcRole p
      | Some (creditor, debtor) \<Rightarrow>
          if debtor = pcParty p then Debtor else if creditor = pcParty p then Creditor else pcRole p)"

definition require_usage_matches_role :: "rel_deps \<Rightarrow> uuid \<Rightarrow> participant_row \<Rightarrow> account_usage \<Rightarrow> unit rel_step" where
  "require_usage_matches_role D rel p use s =
     (if usage_for_role (effective_role p (current_agreement_roles D rel s)) = use
      then (Inr (), s) else (Inl (ForbiddenError ''NotThisRole''), s))"

definition account_audit :: "env \<Rightarrow> financial_account_row \<Rightarrow> string \<Rightarrow> uuid \<Rightarrow> string option \<Rightarrow> unit rel_step" where
  "account_audit E x act user why = on_main (update (audit E ((blank_audit act (clock E))
     \<lparr>actorUserId := Some user, actorRole := Some ''agreement_party'', profileKind := Some (fst (faParty x)),
      profileId := Some (snd (faParty x)), newValue := JStr (case faStatus x of
        FaPendingVerification \<Rightarrow> ''pending_verification'' | FaVerified \<Rightarrow> ''verified'' | FaFailed \<Rightarrow> ''failed''
      | FaDisabled \<Rightarrow> ''disabled''), reason := why, targetResourceType := Value ''financial_account'',
      targetResourceId := Value (faId x)\<rparr>)))"

section \<open>Accounts of a party\<close>

text \<open>A card needs its last four digits and a plausible expiry.\<close>

definition card_fields_ok :: "account_input \<Rightarrow> error option" where
  "card_fields_ok k =
     (case (acLast4 k, acExpiryMonth k, acExpiryYear k) of
        (Some l, Some m, Some y) \<Rightarrow>
          if l = [] \<or> m = 0 \<or> y = 0 then Some (ValidationError ''CardFieldsRequired'')
          else if m < 1 \<or> 12 < m then Some (ValidationError ''ExpiryMonth'')
          else if y < 2000 then Some (ValidationError ''ExpiryYear'') else None
      | _ \<Rightarrow> Some (ValidationError ''CardFieldsRequired''))"

definition add_account ::
    "rel_deps \<Rightarrow> env \<Rightarrow> uuid \<Rightarrow> profile_ref \<Rightarrow> account_input \<Rightarrow> financial_account_row rel_step" where
  "add_account D E user party k =
     andThen (authorize_account_party D user party) (\<lambda>_.
     andThen (guard (\<not> blank_text (acRef k)) (ValidationError ''ProviderReferenceRequired'')) (\<lambda>_.
     andThen (raised (if acKind k = DebitCardAccount
         then (case card_fields_ok k of None \<Rightarrow> Inr () | Some e \<Rightarrow> Inl e) else Inr ())) (\<lambda>_.
     andThen (asks (\<lambda>s. find (\<lambda>x. faRef x = acRef k \<and> faStatus x \<noteq> FaDisabled) (list_accounts_of party s))) (\<lambda>dup.
     case dup of
       Some x \<Rightarrow> ret x
     | None \<Rightarrow> andThen (insert_account party k user) (\<lambda>x.
         andThen (account_audit E x ''FINANCIAL_ACCOUNT_ADDED'' user None) (\<lambda>_. ret x))))))"

definition list_accounts_for_party :: "rel_deps \<Rightarrow> uuid \<Rightarrow> profile_ref \<Rightarrow> financial_account_row list rel_step" where
  "list_accounts_for_party D user party =
     andThen (authorize_account_party D user party) (\<lambda>_. asks (list_accounts_of party))"

definition apply_verification_result :: "env \<Rightarrow> uuid \<Rightarrow> bool \<Rightarrow> financial_account_row rel_step" where
  "apply_verification_result E i verified =
     andThen (require_account i) (\<lambda>x.
     andThen (guard (faStatus x = FaPendingVerification) (ValidationError ''NotPending'')) (\<lambda>_.
     andThen (if verified then mark_verified E i else mark_account_failed i) (\<lambda>y.
     andThen (account_audit E y (if verified then ''FINANCIAL_ACCOUNT_VERIFIED''
       else ''FINANCIAL_ACCOUNT_VERIFICATION_FAILED'') (faAddedBy x) None) (\<lambda>_. ret y))))"

definition disable_account ::
    "rel_deps \<Rightarrow> env \<Rightarrow> uuid \<Rightarrow> uuid \<Rightarrow> profile_ref \<Rightarrow> string \<Rightarrow> financial_account_row rel_step" where
  "disable_account D E i user party why =
     andThen (authorize_account_party D user party) (\<lambda>_.
     andThen (require_account i) (\<lambda>x.
     andThen (guard (faParty x = party) (ForbiddenError ''NotThisParty'')) (\<lambda>_.
     if faStatus x = FaDisabled then ret x
     else andThen (asks (list_active_assignments_for_account i)) (\<lambda>used.
       andThen (guard (used = []) (ValidationError ''AccountInUse'')) (\<lambda>_.
       andThen (mark_disabled E i) (\<lambda>y.
       andThen (account_audit E y ''FINANCIAL_ACCOUNT_DISABLED'' user (Some why)) (\<lambda>_. ret y)))))))"

section \<open>The accounts of a connection\<close>

definition get_relationship_accounts ::
    "rel_deps \<Rightarrow> uuid \<Rightarrow> uuid \<Rightarrow> (assignment_row \<times> financial_account_row) list rel_step" where
  "get_relationship_accounts D rel user =
     andThen (require_open_relationship rel) (\<lambda>_.
     andThen (as_participant D rel user) (\<lambda>_. asks (list_assignments rel)))"

text \<open>What one participant sees of a slot: the account only of the own one.\<close>

record slot_view =
  svUsage :: account_usage
  svMine :: bool
  svAssignment :: "uuid option"
  svReady :: bool
  svAccount :: "financial_account_row option"

definition slot_view_of ::
    "account_usage \<Rightarrow> (assignment_row \<times> financial_account_row) list \<Rightarrow> account_usage \<Rightarrow> slot_view" where
  "slot_view_of mine asgs use =
     (let active = find (\<lambda>(a, x). asUsage a = use \<and> asActive a) asgs
      in \<lparr>svUsage = use, svMine = (use = mine), svAssignment = map_option (asId \<circ> fst) active,
          svReady = (map_option (faStatus \<circ> snd) active = Some FaVerified),
          svAccount = (if use = mine then map_option snd active else None)\<rparr>)"

definition get_accounts_for_participant :: "rel_deps \<Rightarrow> uuid \<Rightarrow> uuid \<Rightarrow> slot_view list rel_step" where
  "get_accounts_for_participant D rel user =
     andThen (require_open_relationship rel) (\<lambda>_.
     andThen (as_participant D rel user) (\<lambda>p.
     asks (\<lambda>s. map (slot_view_of (usage_for_role (effective_role p (current_agreement_roles D rel s)))
       (list_assignments rel s)) [Funding, PayoutUsage])))"

definition get_accounts_for_admin ::
    "env \<Rightarrow> uuid \<Rightarrow> uuid \<Rightarrow> platform_role \<Rightarrow> (assignment_row \<times> financial_account_row) list rel_step" where
  "get_accounts_for_admin E rel user role =
     andThen (guard (is_admin_role role) (ForbiddenError ''AdminRequired'')) (\<lambda>_.
     andThen (asks (list_assignments rel)) (\<lambda>xs.
     andThen (relationship_audit E rel user ''ADMIN_RELATIONSHIP_FINANCIAL_ACCOUNTS_VIEWED'' JNull) (\<lambda>_. ret xs)))"

definition usage_json :: "account_usage \<Rightarrow> json" where
  "usage_json use = JStr (case use of Funding \<Rightarrow> ''funding'' | PayoutUsage \<Rightarrow> ''payout'')"

text \<open>The checks both operations begin with.\<close>

definition assignable ::
    "rel_deps \<Rightarrow> uuid \<Rightarrow> uuid \<Rightarrow> uuid \<Rightarrow> account_usage \<Rightarrow> (participant_row \<times> financial_account_row) rel_step" where
  "assignable D rel user account use =
     andThen (require_open_relationship rel) (\<lambda>_.
     andThen (as_participant D rel user) (\<lambda>p.
     andThen (require_usage_matches_role D rel p use) (\<lambda>_.
     andThen (require_account account) (\<lambda>x.
     andThen (guard (faParty x = pcParty p) (ForbiddenError ''NotYourAccount'')) (\<lambda>_.
     andThen (guard (faStatus x = FaVerified) (ValidationError ''OnlyVerified'')) (\<lambda>_. ret (p, x)))))))"

definition assignment_input_of ::
    "uuid \<Rightarrow> participant_row \<Rightarrow> financial_account_row \<Rightarrow> account_usage \<Rightarrow> uuid \<Rightarrow> assignment_input" where
  "assignment_input_of rel p x use user = \<lparr>aiRelationship = rel, aiParticipant = pcId p, aiAccount = faId x,
     aiUsage = use, aiSelectedBy = user\<rparr>"

definition assign_account ::
    "rel_deps \<Rightarrow> env \<Rightarrow> uuid \<Rightarrow> uuid \<Rightarrow> uuid \<Rightarrow> account_usage \<Rightarrow> assignment_row rel_step" where
  "assign_account D E rel user account use =
     andThen (assignable D rel user account use) (\<lambda>(p, x).
     andThen (\<lambda>s. (if find_active_assignment rel use s \<noteq> None then Inl (ConflictError ''SlotTaken'') else Inr (), s)) (\<lambda>_.
     andThen (\<lambda>s. case insert_assignment E (assignment_input_of rel p x use user) s of
         (Inl e, s1) \<Rightarrow> (Inl (if find_active_assignment rel use s1 \<noteq> None then ConflictError ''SlotTaken'' else e), s1)
       | (Inr a, s1) \<Rightarrow> (Inr a, s1)) (\<lambda>a.
     andThen (relationship_audit E rel user ''FINANCIAL_ACCOUNT_ASSIGNMENT_CREATED'' (JObj [(''assignmentId'', json_uuid (asId a)),
       (''financialAccountId'', json_uuid account), (''usage'', usage_json use)])) (\<lambda>_.
     andThen (sync_from_financial_accounts rel) (\<lambda>_. ret a)))))"

text \<open>The counterparty is told when the replacing participant has a user.\<close>

definition notify_counterparty :: "rel_deps \<Rightarrow> uuid \<Rightarrow> participant_row \<Rightarrow> account_usage \<Rightarrow> unit rel_step" where
  "notify_counterparty D rel p use s =
     (if pcUser p = None then (Inr (), s)
      else case find (\<lambda>q. pcId q \<noteq> pcId p \<and> pcUser q \<noteq> None) (list_participants rel s) of
        None \<Rightarrow> (Inr (), s)
      | Some q \<Rightarrow> notify_all D (if use = Funding then ''relationship_funding_account_replaced''
          else ''relationship_payout_account_replaced'') (case pcUser q of None \<Rightarrow> [] | Some u \<Rightarrow> [u]) s)"

definition replace_account ::
    "rel_deps \<Rightarrow> env \<Rightarrow> (uuid \<Rightarrow> uuid \<Rightarrow> bool) \<Rightarrow> uuid \<Rightarrow> uuid \<Rightarrow> uuid \<Rightarrow> uuid \<Rightarrow> account_usage \<Rightarrow> assignment_row rel_step" where
  "replace_account D E stepUp rel user session account use =
     andThen (assignable D rel user account use) (\<lambda>(p, x).
     andThen (guard (stepUp user session) StepUpRequiredError) (\<lambda>_.
     andThen (asks (find_active_assignment rel use)) (\<lambda>existing.
     andThen (guard (\<forall>a \<in> set_option existing. asParticipant (fst a) = pcId p) (ForbiddenError ''NotYourAssignment'')) (\<lambda>_.
     case existing of
       Some (a, y) \<Rightarrow>
         if asAccount a = faId x then ret a
         else andThen (replace_assignment_atomically E (assignment_input_of rel p x use user) (Some (asId a))) (\<lambda>b.
           andThen (relationship_audit E rel user ''FINANCIAL_ACCOUNT_ASSIGNMENT_REPLACED''
             (JObj [(''assignmentId'', json_uuid (asId b)), (''previousAssignmentId'', json_uuid (asId a)),
               (''financialAccountId'', json_uuid account), (''usage'', usage_json use)])) (\<lambda>_.
           andThen (sync_from_financial_accounts rel) (\<lambda>_.
           andThen (notify_counterparty D rel p use) (\<lambda>_. ret b))))
     | None \<Rightarrow>
         andThen (replace_assignment_atomically E (assignment_input_of rel p x use user) None) (\<lambda>b.
         andThen (relationship_audit E rel user ''FINANCIAL_ACCOUNT_ASSIGNMENT_REPLACED''
           (JObj [(''assignmentId'', json_uuid (asId b)), (''previousAssignmentId'', JNull),
             (''financialAccountId'', json_uuid account), (''usage'', usage_json use)])) (\<lambda>_.
         andThen (sync_from_financial_accounts rel) (\<lambda>_. ret b)))))))"

end
