(* ===== verification/RelationshipLaws.thy ===== *)
theory RelationshipLaws
  imports RelationshipAccounts AgreementLaws
begin

text \<open>
  What the connections guarantee (\<open>Relationships\<close>, \<open>RelationshipAccounts\<close>): the service writes nothing of
  an agreement but its link, one pair has one connection, and money only moves through verified accounts
  of the right party.
\<close>

section \<open>What the service writes of an agreement\<close>

definition only_linked :: "uuid \<Rightarrow> db \<Rightarrow> db \<Rightarrow> bool" where
  "only_linked ag d d' \<longleftrightarrow> versions d' = versions d \<and> installments d' = installments d \<and> nextId d \<le> nextId d' \<and>
     (agreements d' = agreements d \<or>
      (\<exists>r. agreements d' = update_by agId ag (\<lambda>x. x\<lparr>agRelationship := r\<rparr>) (agreements d)))"

lemma only_linked_elsewhere:
  "versions d' = versions d \<Longrightarrow> installments d' = installments d \<Longrightarrow> nextId d \<le> nextId d' \<Longrightarrow>
   agreements d' = agreements d \<Longrightarrow> only_linked ag d d'"
  by (simp add: only_linked_def)

lemma only_linked_trans: "only_linked ag a b \<Longrightarrow> only_linked ag b c \<Longrightarrow> only_linked ag a c"
  by (auto simp: only_linked_def update_by_def)

definition connects :: "uuid \<Rightarrow> rel_db \<Rightarrow> rel_db \<Rightarrow> bool" where
  "connects ag a b \<longleftrightarrow> only_linked ag (rdMain a) (rdMain b)"

interpretation connecting: state_preorder "connects ag" for ag
  by unfold_locales (auto simp: connects_def only_linked_elsewhere intro: only_linked_trans)

interpretation method_wise: state_preorder "\<lambda>a b. only_linked ag (mdDb a) (mdDb b)" for ag
  by unfold_locales (auto simp: only_linked_elsewhere intro: only_linked_trans)

lemma connects_rest: "rdMethods b = rdMethods a \<Longrightarrow> connects ag a b"
  by (simp add: connects_def only_linked_elsewhere)

lemma on_methods_lift:
  assumes "keeps (\<lambda>a b. only_linked ag (mdDb a) (mdDb b)) m"
  shows "keeps (connects ag) (on_methods m)"
  using assms by (auto simp: keeps_def connects_def on_methods_def split: prod.split) (metis snd_conv)

lemma on_main_lift:
  assumes "\<And>d. only_linked ag d (snd (m d))"
  shows "keeps (connects ag) (on_main m)"
  unfolding on_main_def
  by (rule on_methods_lift) (use assms in \<open>auto simp: keeps_def on_db_def split: prod.split\<close>, metis snd_conv)

lemma connects_new_id: "keeps (connects ag) new_id"
  unfolding new_id_def by (rule on_main_lift) (simp add: only_linked_elsewhere)

lemma connects_audit: "keeps (connects ag) (relationship_audit E rel user act v)"
  unfolding relationship_audit_def by (rule on_main_lift) (simp add: only_linked_elsewhere)

lemma connects_local: "(\<And>s. rdMethods (snd (m s)) = rdMethods s) \<Longrightarrow> keeps (connects ag) m"
  by (simp add: keeps_def connects_rest)

lemma connects_update: "keeps (connects ag) (update_relationship i f)"
  by (rule connects_local) (simp add: update_relationship_def set_relationship_def split: option.split)

lemma connects_activate: "keeps (connects ag) (activate_participant E i)"
  by (rule connects_local) (simp add: activate_participant_def split: option.split)

lemma connects_insert: "keeps (connects ag) (insert_relationship D E user)"
  unfolding insert_relationship_def
  by (intro connecting.kept_then connects_new_id connects_local) (simp add: Let_def)

lemma connects_participant: "keeps (connects ag) (insert_participant rel party role st user joined)"
  unfolding insert_participant_def
  by (intro connecting.kept_then connects_new_id connects_local) (simp add: Let_def)

lemma kept_cases:
  assumes "\<And>r. keeps R (f r)" and "keeps R g"
  shows "keeps R (\<lambda>s. case h s of Some r \<Rightarrow> f r s | None \<Rightarrow> g s)"
  using assms by (simp add: keeps_def split: option.split)

lemma connects_resolve:
  "keeps (connects ag) (resolve_for_exact_parties D E p)" "keeps (connects ag) (resolve_or_create_pending D E p)"
proof -
  have r: "keeps (connects ag) (\<lambda>s. (Inr (rlId r) :: error + uuid, s))" for r :: relationship_row by (rule connects_local) simp
  show "keeps (connects ag) (resolve_for_exact_parties D E p)"
    unfolding resolve_for_exact_parties_def
    by (intro connecting.kept_atomic kept_cases r connecting.kept_then connects_insert connects_participant
        connecting.kept_simple)
  show "keeps (connects ag) (resolve_or_create_pending D E p)"
    unfolding resolve_or_create_pending_def Let_def
    by (intro connecting.kept_atomic kept_cases r connecting.kept_then connects_insert connects_participant
        connecting.kept_simple)
qed

lemma mandate_only_linked: "keeps (\<lambda>a b. only_linked ag (mdDb a) (mdDb b)) (authorize_mandate D E i payer ref user)"
proof -
  have "keeps (\<lambda>a b. only_linked ag (mdDb a) (mdDb b)) (insert_mandate E i payer ref sup)" for sup
    by (simp add: keeps_def insert_mandate_def only_linked_elsewhere Let_def)
  moreover have "keeps (\<lambda>a b. only_linked ag (mdDb a) (mdDb b)) (mandate_audit E m act user why)" for m act why
    by (simp add: keeps_def mandate_audit_def only_linked_elsewhere)
  ultimately have "keeps (\<lambda>a b. only_linked ag (mdDb a) (mdDb b)) (andThen (insert_mandate E i payer ref None) (\<lambda>m.
      andThen (mandate_audit E m ''ach_mandate_authorized'' user None) (\<lambda>_. ret m)))"
    by (intro method_wise.kept_then method_wise.kept_simple)
  then show ?thesis
    by (auto simp: authorize_mandate_def require_owner_def require_debtor_def keeps_def only_linked_elsewhere
        split: option.split)
qed

lemma card_only_linked: "keeps (\<lambda>a b. only_linked ag (mdDb a) (mdDb b)) (register_card D E i payer k user)"
proof -
  have "keeps (\<lambda>a b. only_linked ag (mdDb a) (mdDb b)) (insert_card E i payer k sup)" for sup
    by (simp add: keeps_def insert_card_def only_linked_elsewhere Let_def)
  moreover have "keeps (\<lambda>a b. only_linked ag (mdDb a) (mdDb b)) (card_audit E m act user why)" for m act why
    by (simp add: keeps_def card_audit_def only_linked_elsewhere)
  ultimately have "keeps (\<lambda>a b. only_linked ag (mdDb a) (mdDb b)) (andThen (insert_card E i payer k None) (\<lambda>c.
      andThen (card_audit E c ''debit_card_method_registered'' user None) (\<lambda>_. ret c)))"
    by (intro method_wise.kept_then method_wise.kept_simple)
  then show ?thesis
    by (auto simp: register_card_def require_owner_def require_debtor_def keeps_def only_linked_elsewhere
        split: option.split)
qed

lemma connects_fund: "keeps (connects ag) (fund_agreement D E rel a user)"
proof -
  have m: "keeps (\<lambda>a b. only_linked ag (mdDb a) (mdDb b)) (authorize_from_financial_account D E i payer acc ref user)" for i payer acc ref
  proof -
    have "keeps (\<lambda>a b. only_linked ag (mdDb a) (mdDb b)) (andThen (authorize_mandate (rlPay D) E i payer ref user) (\<lambda>m.
        update (\<lambda>s. s\<lparr>mdMandates := update_by mnId (mnId m) (\<lambda>x. x\<lparr>mnFinancial := Some acc\<rparr>) (mdMandates s)\<rparr>)))"
      by (intro method_wise.kept_then mandate_only_linked method_wise.kept_update) (simp add: only_linked_elsewhere)
    then show ?thesis by (simp add: keeps_def authorize_from_financial_account_def only_linked_elsewhere)
  qed
  have c: "keeps (\<lambda>a b. only_linked ag (mdDb a) (mdDb b)) (register_from_financial_account D E i payer k user)" for i payer k
  proof -
    have "keeps (\<lambda>a b. only_linked ag (mdDb a) (mdDb b)) (andThen (register_card (rlPay D) E i payer k user) (\<lambda>_. ret ()))"
      by (intro method_wise.kept_then card_only_linked method_wise.kept_simple)
    then show ?thesis by (simp add: keeps_def register_from_financial_account_def only_linked_elsewhere)
  qed
  have "connects ag s (snd (fund_agreement D E rel a user s))" for s
    using on_methods_lift [OF m] on_methods_lift [OF c] connecting.stays
    by (simp add: keeps_def fund_agreement_def split: option.split)
  then show ?thesis by (simp add: keeps_def)
qed

lemma connects_link: "keeps (connects ag) (link_agreement D E rel ag user)"
proof -
  have l: "keeps (connects ag) (on_main (update (link_relationship ag rel)))"
    by (rule on_main_lift) (auto simp: link_relationship_def set_agreement_def only_linked_def)
  show ?thesis
    unfolding link_agreement_def with_relationship_def as_participant_def set_current_agreement_id_def
      update_relationship_status_def
    by (intro connecting.kept_then connecting.kept_if connecting.kept_simple connects_update l connects_audit
        connects_fund)
qed

lemma connects_establish: "keeps (connects ag) (establish_agreement_relationship D E ag p)"
  unfolding establish_agreement_relationship_def
  by (intro connecting.kept_then) (auto intro!: connecting.kept_then connecting.kept_simple connects_resolve connects_link
      split: option.split)

lemma connects_propose: "keeps (connects ag) (propose_agreement_relationship D E ag p)"
  unfolding propose_agreement_relationship_def
  by (intro connecting.kept_then) (auto intro!: connecting.kept_then connecting.kept_simple connects_resolve connects_link
      split: option.split)

lemma connects_activate_each: "keeps (connects ag) (activate_each E is)"
  by (induction "is") (simp_all add: connecting.kept_simple connecting.kept_then connects_activate)

lemma connects_confirm: "keeps (connects ag) (confirm_agreement_relationship D E ag p)"
  unfolding confirm_agreement_relationship_def with_relationship_def update_relationship_status_def
  by (intro connecting.kept_then connecting.kept_if connecting.kept_simple connects_update connects_audit
      connects_establish connects_activate_each)

text \<open>
  The service as the negotiation calls it: with the tables of the connections as they are at the call, on
  the database of the agreements.
\<close>

definition relationship_connector ::
    "rel_deps \<Rightarrow> env \<Rightarrow> rel_db \<Rightarrow> bool \<Rightarrow> agreement_row \<Rightarrow> uuid \<Rightarrow> uuid \<Rightarrow> uuid \<Rightarrow> (db, error, unit) step" where
  "relationship_connector D E R confirm a creditorUser debtorUser user = (\<lambda>d.
     let p = \<lparr>piCreditorParty = agCreditor a, piCreditorUser = creditorUser, piDebtorParty = agDebtor a,
           piDebtorUser = debtorUser, piInitiator = user\<rparr>;
         m = (if confirm then confirm_agreement_relationship D E (agId a) p
              else propose_agreement_relationship D E (agId a) p)
     in case m (R\<lparr>rdMethods := (rdMethods R)\<lparr>mdDb := d\<rparr>\<rparr>) of
          (Inl e, s) \<Rightarrow> (Inl e, rdMain s) | (Inr i, s) \<Rightarrow> (Inr (), rdMain s))"

text \<open>
  C28. The connection service keeps the promise on which the safety of signed terms rests
  (\<open>connects_only\<close>): whatever its tables hold, whoever asks, and whether it fails or not, it writes no
  version and no installment, and of the agreements only the link of the one it was called for.
\<close>

theorem connection_service_connects_only:
  "connects_only (A\<lparr>gdConnect := relationship_connector D E R\<rparr>)"
proof -
  have "only_linked (agId a) d (snd (relationship_connector D E R confirm a c c' user d))" for confirm a c c' user d
  proof -
    define p where "p = \<lparr>piCreditorParty = agCreditor a, piCreditorUser = c, piDebtorParty = agDebtor a,
      piDebtorUser = c', piInitiator = user\<rparr>"
    let ?m = "if confirm then confirm_agreement_relationship D E (agId a) p
      else propose_agreement_relationship D E (agId a) p"
    let ?s = "R\<lparr>rdMethods := (rdMethods R)\<lparr>mdDb := d\<rparr>\<rparr>"
    have "keeps (connects (agId a)) ?m" by (intro connecting.kept_if connects_confirm connects_propose)
    then have "connects (agId a) ?s (snd (?m ?s))" by (simp add: keeps_def)
    then show ?thesis
      by (auto simp: relationship_connector_def Let_def p_def [symmetric] connects_def split: prod.splits sum.splits)
  qed
  then show ?thesis unfolding connects_only_def Let_def by (simp add: only_linked_def)
qed

section \<open>What a link means\<close>

text \<open>Funding an agreement changes no agreement and no connection.\<close>

lemma update_by_absent: "k \<notin> key ` set xs \<Longrightarrow> update_by key k f xs = xs"
  by (induction xs) auto

lemma only_linked_everywhere:
  assumes "\<And>ag. only_linked ag d d'"
  shows "agreements d' = agreements d"
proof -
  obtain ag where "ag \<notin> agId ` set (agreements d)"
    using ex_new_if_finite [of "agId ` set (agreements d)"] by auto
  then show ?thesis using assms [of ag] update_by_absent by (auto simp: only_linked_def)
qed

lemma fund_frame:
  assumes "fund_agreement D E rel a user s = (r, s')"
  shows "agreements (rdMain s') = agreements (rdMain s)" and "rdRelationships s' = rdRelationships s"
    and "rdParticipants s' = rdParticipants s"
proof -
  have "only_linked ag (rdMain s) (rdMain s')" for ag
    using keepsD [OF connects_fund assms] by (simp add: connects_def)
  then show "agreements (rdMain s') = agreements (rdMain s)" by (rule only_linked_everywhere)
  have "rdRelationships s' = rdRelationships s \<and> rdParticipants s' = rdParticipants s"
    using assms by (auto simp: fund_agreement_def on_methods_def split: option.splits if_splits prod.splits)
  then show "rdRelationships s' = rdRelationships s" "rdParticipants s' = rdParticipants s" by blast+
qed

lemma audit_frame_rel:
  assumes "relationship_audit E rel user act v s = (r, s')"
  shows "agreements (rdMain s') = agreements (rdMain s)" "rdRelationships s' = rdRelationships s"
    "rdParticipants s' = rdParticipants s" "rdAccounts s' = rdAccounts s" "rdAssignments s' = rdAssignments s"
    "nextId (rdMain s') = nextId (rdMain s)" "r = Inr ()"
  using assms by (auto simp: relationship_audit_def on_main_def on_methods_def on_db_def)

lemma update_relationshipD:
  assumes "update_relationship i f s = (Inr r, s')"
  shows "s' = set_relationship i f s" "\<exists>r0. find_relationship i s = Some r0 \<and> r = f r0"
  using assms by (auto simp: update_relationship_def split: option.splits)

lemma find_set_relationship:
  assumes "\<And>r. rlId (f r) = rlId r"
  shows "find_relationship i (set_relationship i f s) = map_option f (find_relationship i s)"
proof -
  have "lookup_by rlId i (update_by rlId i f xs) = map_option f (lookup_by rlId i xs)" for xs
    using assms by (induction xs) auto
  then show ?thesis by (simp add: find_relationship_def set_relationship_def)
qed

text \<open>
  C31. A new link joins an agreement that had none to a connection with its counterparty: the caller
  acts for one participant and the other is the other party of the agreement, no agreement of the connection
  that is still running has the roles reversed, and the agreement becomes the current one. The status of the
  connection does not matter: unless a participant is still invited it becomes pending again, also when
  it was restricted or closed.
\<close>

theorem link_joins_counterparties:
  assumes "link_agreement D E rel ag user s = (Inr r, s')" and "find_agreement ag (rdMain s) = Some a"
    and "agRelationship a \<noteq> Some rel"
  shows "\<exists>role p q. agRelationship a = None \<and> resolve_party_role (rlParty D) ag user (rdMain s) = Inr role \<and>
    p \<in> set (list_participants rel s) \<and> q \<in> set (list_participants rel s) \<and> pcId q \<noteq> pcId p \<and>
    mayAct (rlParty D) user (pcParty p) \<and> pcParty q = party_of (other_party role) a \<and>
    \<not> role_conflict ag a (list_agreements_for_relationship rel (rdMain s)) \<and>
    map_option agRelationship (find_agreement ag (rdMain s')) = Some (Some rel) \<and>
    map_option rlCurrentAgreement (find_relationship rel s') = Some (Some ag) \<and>
    (list_all (\<lambda>p. pcStatus p \<noteq> PcInvited) (list_participants rel s) \<longrightarrow>
       map_option rlStatus (find_relationship rel s') = Some RlAgreementPending)"
proof -
  obtain r0 p b role r1 s1 r2 s2 s3 where 1: "resolve_acting_participant D rel user s = Inr p"
      "get_agreement (rlParty D) ag user (rdMain s) = Inr b"
      "agRelationship b \<noteq> Some rel \<longrightarrow> agRelationship b = None \<and> resolve_party_role (rlParty D) ag user (rdMain s) = Inr role \<and>
       map_option pcParty (other_participant rel p s) = Some (party_of (other_party role) b) \<and>
       \<not> role_conflict ag b (list_agreements_for_relationship rel (rdMain s)) \<and>
       set_current_agreement_id rel ag s = (Inr r1, s1) \<and>
       (if list_ex (\<lambda>p. pcStatus p = PcInvited) (list_participants rel s) then ret r0
         else update_relationship_status rel RlAgreementPending) (snd (on_main (update (link_relationship ag rel)) s1)) = (Inr r2, s2) \<and>
       relationship_audit E rel user ''AGREEMENT_LINKED'' (JObj [(''agreementId'', json_uuid ag)]) s2 = (Inr (), s3) \<and>
       fund_agreement D E rel b user s3 = (Inr (), s')"
    using assms(1)
    by (auto simp: link_agreement_def with_relationship_def as_participant_def andThen_Inr_iff on_main_def
        on_methods_def on_db_def split: if_splits)
  have b: "b = a" using get_agreement_row [OF 1(2)] assms(2) by simp
  let ?ps = "list_participants rel s"
  have new: "agRelationship a = None" "resolve_party_role (rlParty D) ag user (rdMain s) = Inr role"
      "map_option pcParty (other_participant rel p s) = Some (party_of (other_party role) a)"
      "\<not> role_conflict ag a (list_agreements_for_relationship rel (rdMain s))"
      "set_current_agreement_id rel ag s = (Inr r1, s1)"
      "(if list_ex (\<lambda>p. pcStatus p = PcInvited) ?ps then ret r0
        else update_relationship_status rel RlAgreementPending) (snd (on_main (update (link_relationship ag rel)) s1)) = (Inr r2, s2)"
      "relationship_audit E rel user ''AGREEMENT_LINKED'' (JObj [(''agreementId'', json_uuid ag)]) s2 = (Inr (), s3)"
      "fund_agreement D E rel a user s3 = (Inr (), s')"
    using 1(3) assms(3) unfolding b by blast+
  have p: "p \<in> set ?ps" "mayAct (rlParty D) user (pcParty p)"
    using 1(1) by (auto simp: resolve_acting_participant_def find_Some_iff split: option.splits)
  obtain q where q: "q \<in> set ?ps" "pcId q \<noteq> pcId p" "pcParty q = party_of (other_party role) a"
    using new(3) by (auto simp: other_participant_def find_Some_iff) (metis nth_mem)
  let ?s1 = "snd (on_main (update (link_relationship ag rel)) s1)"
  have s1: "s1 = set_relationship rel (\<lambda>r. r\<lparr>rlCurrentAgreement := Some ag\<rparr>) s" "find_relationship rel s \<noteq> None"
    using update_relationshipD [OF new(5) [unfolded set_current_agreement_id_def]] by auto
  have link: "rdRelationships ?s1 = rdRelationships s1" "agreements (rdMain ?s1) = agreements (link_relationship ag rel (rdMain s1))"
    by (simp_all add: on_main_def on_methods_def on_db_def)
  have s2: "s2 = (if list_ex (\<lambda>p. pcStatus p = PcInvited) ?ps then ?s1
      else set_relationship rel (\<lambda>r. r\<lparr>rlStatus := RlAgreementPending\<rparr>) ?s1)"
    using new(6) update_relationshipD(1) by (auto simp: update_relationship_status_def split: if_splits)
  have ends: "agreements (rdMain s') = agreements (rdMain s2)" "rdRelationships s' = rdRelationships s2"
    using fund_frame [OF new(8)] audit_frame_rel [OF new(7)] by simp_all
  have "find_agreement ag (rdMain s') = map_option (\<lambda>a. a\<lparr>agRelationship := Some rel\<rparr>) (find_agreement ag (rdMain s))"
  proof -
    have "lookup_by agId ag (update_by agId ag (\<lambda>a. a\<lparr>agRelationship := Some rel\<rparr>) xs) =
        map_option (\<lambda>a. a\<lparr>agRelationship := Some rel\<rparr>) (lookup_by agId ag xs)" for xs :: "agreement_row list"
      by (induction xs) auto
    moreover have "agreements (rdMain s') = update_by agId ag (\<lambda>a. a\<lparr>agRelationship := Some rel\<rparr>) (agreements (rdMain s))"
      unfolding ends(1) s2 using link(2) s1(1)
      by (simp add: link_relationship_def set_agreement_def set_relationship_def)
    ultimately show ?thesis by simp
  qed
  moreover have f: "find_relationship rel x = find_relationship rel y" if "rdRelationships x = rdRelationships y" for x y
    using that by (simp add: find_relationship_def)
  have r1: "find_relationship rel ?s1 =
      map_option (\<lambda>r. r\<lparr>rlCurrentAgreement := Some ag\<rparr>) (find_relationship rel s)"
    using f [OF link(1)] find_set_relationship [of "\<lambda>r. r\<lparr>rlCurrentAgreement := Some ag\<rparr>" rel s]
    by (simp add: s1(1))
  have "find_relationship rel s' = (if list_ex (\<lambda>p. pcStatus p = PcInvited) ?ps then find_relationship rel ?s1
      else map_option (\<lambda>r. r\<lparr>rlStatus := RlAgreementPending\<rparr>) (find_relationship rel ?s1))"
    unfolding f [OF ends(2)] s2 by (simp add: find_set_relationship)
  then have "map_option rlCurrentAgreement (find_relationship rel s') = Some (Some ag)"
      "list_all (\<lambda>p. pcStatus p \<noteq> PcInvited) ?ps \<longrightarrow> map_option rlStatus (find_relationship rel s') = Some RlAgreementPending"
    using s1(2) by (auto simp: r1 list_all_iff list_ex_iff)
  ultimately show ?thesis using new(1,2,4) p q assms(2) by auto
qed

section \<open>One connection for a pair\<close>

definition fresh_relationships :: "rel_db \<Rightarrow> bool" where
  "fresh_relationships s \<longleftrightarrow> list_all (\<lambda>r. rlId r < nextId (rdMain s)) (rdRelationships s) \<and>
     list_all (\<lambda>p. pcRelationship p < nextId (rdMain s)) (rdParticipants s)"

lemma pair_symmetric: "relationship_of_pair sts a b s = relationship_of_pair sts b a s"
  by (simp add: relationship_of_pair_def conj_commute conj_left_commute)

lemma new_idD: "new_id s = (Inr i, s') \<longleftrightarrow> i = nextId (rdMain s) \<and>
    s' = s\<lparr>rdMethods := (rdMethods s)\<lparr>mdDb := (rdMain s)\<lparr>nextId := Suc (nextId (rdMain s))\<rparr>\<rparr>\<rparr>"
  by (auto simp: new_id_def on_main_def on_methods_def on_db_def)

lemma insert_relationshipD:
  assumes "insert_relationship D E user s = (Inr r, s')"
  shows "rdRelationships s' = rdRelationships s @ [r]" "rdParticipants s' = rdParticipants s"
    "rlId r = nextId (rdMain s)" "rlStatus r = RlInvited"
  using assms by (auto simp: insert_relationship_def andThen_Inr_iff new_idD Let_def split: if_splits)

lemma insert_participantD:
  assumes "insert_participant rel party role st user joined s = (Inr p, s')"
  shows "rdRelationships s' = rdRelationships s" "rdParticipants s' = rdParticipants s @ [p]"
    "pcRelationship p = rel" "pcParty p = party" "pcStatus p = st"
  using assms by (auto simp: insert_participant_def andThen_Inr_iff new_idD Let_def split: if_splits)

lemma resolveD:
  assumes "resolve_for_exact_parties D E k s = (Inr i, s')"
    and "relationship_of_pair [PcActive] (piCreditorParty k) (piDebtorParty k) s = None"
  shows "\<exists>r p q. rdRelationships s' = rdRelationships s @ [r] \<and> rdParticipants s' = rdParticipants s @ [p, q] \<and>
    rlId r = nextId (rdMain s) \<and> i = rlId r \<and> rlStatus r = RlInvited \<and>
    pcRelationship p = i \<and> pcParty p = piCreditorParty k \<and> pcStatus p = PcActive \<and>
    pcRelationship q = i \<and> pcParty q = piDebtorParty k \<and> pcStatus q = PcActive"
proof -
  obtain r s1 p s2 q where 1: "insert_relationship D E (piInitiator k) s = (Inr r, s1)"
      "insert_participant (rlId r) (piCreditorParty k) Creditor PcActive (Some (piCreditorUser k)) (Some (clock E)) s1 = (Inr p, s2)"
      "insert_participant (rlId r) (piDebtorParty k) Debtor PcActive (Some (piDebtorUser k)) (Some (clock E)) s2 = (Inr q, s')"
      "i = rlId r"
    using assms by (auto simp: resolve_for_exact_parties_def atomically_Inr andThen_Inr_iff)
  show ?thesis
    using insert_relationshipD [OF 1(1)] insert_participantD [OF 1(2)] insert_participantD [OF 1(3)] 1(4)
    by (intro exI [of _ r] exI [of _ p] exI [of _ q]) simp
qed

text \<open>
  A pair of parties has one connection: once it has been resolved, resolving it again, by either
  party, in the same or in exchanged roles, finds the same one and changes nothing.
\<close>

theorem one_connection_per_pair:
  assumes "resolve_for_exact_parties D E k s = (Inr i, s')" and "fresh_relationships s"
    and "{piCreditorParty k', piDebtorParty k'} = {piCreditorParty k, piDebtorParty k}"
  shows "resolve_for_exact_parties D E' k' s' = (Inr i, s')"
proof -
  let ?pair = "\<lambda>k. relationship_of_pair [PcActive] (piCreditorParty k) (piDebtorParty k)"
  have sym: "?pair k' s' = ?pair k s'"
    using assms(3) pair_symmetric [of _ "piDebtorParty k" "piCreditorParty k"] by (metis doubleton_eq_iff)
  have "map_option rlId (?pair k s') = Some i"
  proof (cases "?pair k s")
    case (Some r)
    then show ?thesis using assms(1) by (auto simp: resolve_for_exact_parties_def atomically_def)
  next
    case None
    obtain r p q where n: "rdRelationships s' = rdRelationships s @ [r]" "rdParticipants s' = rdParticipants s @ [p, q]"
        "rlId r = nextId (rdMain s)" "i = rlId r" "rlStatus r = RlInvited"
        "pcRelationship p = i" "pcParty p = piCreditorParty k" "pcStatus p = PcActive"
        "pcRelationship q = i" "pcParty q = piDebtorParty k" "pcStatus q = PcActive"
      using resolveD [OF assms(1) None] by blast
    let ?has = "\<lambda>ps party x. list_ex (\<lambda>p. pcRelationship p = rlId x \<and> pcStatus p \<in> set [PcActive] \<and> pcParty p = party) ps"
    let ?live = "\<lambda>ps x. ?has ps (piCreditorParty k) x \<and> ?has ps (piDebtorParty k) x \<and> rlStatus x \<notin> set terminal_statuses"
    have none: "filter (?live (rdParticipants s)) (rdRelationships s) = []"
      using None unfolding relationship_of_pair_def Let_def
      by (auto split: list.splits simp: filter_empty_conv dest!: arg_cong [of _ "[]" set])
    have "i \<noteq> rlId x" if "x \<in> set (rdRelationships s)" for x
      using assms(2) that n(3,4) by (auto simp: fresh_relationships_def list_all_iff)
    then have "?has (rdParticipants s') party x = ?has (rdParticipants s) party x"
        if "x \<in> set (rdRelationships s)" for x party
      using that by (simp add: n(2,6,9))
    then have "filter (?live (rdParticipants s')) (rdRelationships s) = filter (?live (rdParticipants s)) (rdRelationships s)"
      by (intro filter_cong refl) simp
    moreover have "?live (rdParticipants s') r"
      using n(4-11) by (simp add: n(2) terminal_statuses_def)
    ultimately have "filter (?live (rdParticipants s')) (rdRelationships s') = [r]"
      by (simp only: none n(1) filter_append filter.simps if_True append_Nil simp_thms)
    then show ?thesis by (simp add: relationship_of_pair_def n(4))
  qed
  then show ?thesis by (auto simp: resolve_for_exact_parties_def atomically_def sym)
qed

section \<open>An example\<close>

definition sample_rel_deps :: rel_deps where
  "sample_rel_deps = \<lparr>rlParty = sample_parties, rlPay = sample_pay_deps,
     rlEvidence = \<lparr>vdParty = sample_parties, vdUpload = (\<lambda>_ _ _. None), vdSign = (\<lambda>_ _. Inr ''url''),
       vdProfileOf = Some, vdVerified = (\<lambda>_. True)\<rparr>,
     rlReferenceCode = (\<lambda>i. replicate i CHR ''R''), rlNotify = (\<lambda>_ _. None)\<rparr>"

definition sample_rel_db :: rel_db where
  "sample_rel_db = \<lparr>rdMethods = sample_method_db, rdRelationships = [], rdParticipants = [], rdAccounts = [],
     rdAssignments = []\<rparr>"

definition sample_pair :: pair_input where
  "sample_pair = \<lparr>piCreditorParty = (PersonalProfile, 102), piCreditorUser = 102, piDebtorParty = (PersonalProfile, 101),
     piDebtorUser = 101, piInitiator = 102\<rparr>"

definition sample_joined :: "(error + uuid) \<times> rel_db" where
  "sample_joined = resolve_for_exact_parties sample_rel_deps toy_env sample_pair sample_rel_db"

lemma sample_joined_id: "fst sample_joined = Inr 1"
  by code_simp

text \<open>The connection is restricted, then a party links the agreement.\<close>

definition sample_restricted :: rel_db where
  "sample_restricted = set_relationship 1 (\<lambda>r. r\<lparr>rlStatus := RlRestricted\<rparr>) (snd sample_joined)"

definition sample_linked :: "(error + relationship_row) \<times> rel_db" where
  "sample_linked = link_agreement sample_rel_deps toy_env 1 1 101 sample_restricted"

lemma sample_linked_facts:
  "\<not> isl (fst sample_linked)" "find_agreement 1 (rdMain sample_restricted) = Some (sample_agreement Active)"
  "list_all (\<lambda>p. pcStatus p \<noteq> PcInvited) (list_participants 1 sample_restricted)"
  by code_simp+

theorem link_joins_counterparties_witness:
  "map_option rlStatus (find_relationship 1 (snd sample_linked)) = Some RlAgreementPending"
proof -
  obtain r where "sample_linked = (Inr r, snd sample_linked)"
    using sample_linked_facts(1) by (metis isl_def old.sum.exhaust prod.collapse)
  from link_joins_counterparties [OF this [unfolded sample_linked_def] sample_linked_facts(2)] sample_linked_facts(3)
  show ?thesis by (auto simp: sample_agreement_def sample_linked_def)
qed

theorem one_connection_per_pair_witness:
  "resolve_for_exact_parties sample_rel_deps toy_env (sample_pair\<lparr>piCreditorParty := (PersonalProfile, 101),
     piDebtorParty := (PersonalProfile, 102)\<rparr>) (snd sample_joined) = (Inr 1, snd sample_joined)"
  by (rule one_connection_per_pair [where k = sample_pair and s = sample_rel_db])
    (use sample_joined_id in \<open>auto simp: sample_joined_def fresh_relationships_def sample_rel_db_def sample_pair_def
      intro: prod_eqI\<close>)

end
