(* ===== verification/RelationshipAccountLaws.thy ===== *)
theory RelationshipAccountLaws
  imports RelationshipLaws
begin

text \<open>
  What the accounts of the connections guarantee (\<open>RelationshipAccounts\<close>): over every run of the operations of
  both services, an assignment joins a participant of the connection to an account of the same party, the
  account of an active one is verified, and a slot has one active assignment.
\<close>

section \<open>Tables that fit together\<close>

definition well_backed :: "rel_db \<Rightarrow> assignment_row \<Rightarrow> bool" where
  "well_backed s a \<longleftrightarrow> (\<exists>p \<in> set (rdParticipants s). pcId p = asParticipant a \<and> pcRelationship p = asRelationship a \<and>
     (\<exists>x \<in> set (rdAccounts s). faId x = asAccount a \<and> faParty x = pcParty p \<and> (asActive a \<longrightarrow> faStatus x = FaVerified)))"

definition slot :: "assignment_row \<Rightarrow> uuid \<times> account_usage" where
  "slot a = (asRelationship a, asUsage a)"

definition active_slots :: "assignment_row list \<Rightarrow> (uuid \<times> account_usage) list" where
  "active_slots as = map slot (filter asActive as)"

definition fresh_ids :: "('r \<Rightarrow> uuid) \<Rightarrow> uuid \<Rightarrow> 'r list \<Rightarrow> bool" where
  "fresh_ids key n rows \<longleftrightarrow> distinct (map key rows) \<and> (\<forall>k \<in> set (map key rows). k < n)"

lemma fresh_ids_append: "fresh_ids key n rows \<Longrightarrow> key r = n \<Longrightarrow> n < m \<Longrightarrow> fresh_ids key m (rows @ [r])"
  by (fastforce simp: fresh_ids_def)

lemma fresh_ids_update: "(\<And>r. key (f r) = key r) \<Longrightarrow> fresh_ids key n (update_by key k f rows) = fresh_ids key n rows"
  by (simp only: fresh_ids_def map_key_update_by)

lemma fresh_ids_later: "fresh_ids key n rows \<Longrightarrow> n \<le> m \<Longrightarrow> fresh_ids key m rows"
  by (fastforce simp: fresh_ids_def)

definition tables_fit :: "rel_db \<Rightarrow> bool" where
  "tables_fit s \<longleftrightarrow> fresh_ids pcId (nextId (rdMain s)) (rdParticipants s) \<and>
     fresh_ids faId (nextId (rdMain s)) (rdAccounts s) \<and> fresh_ids asId (nextId (rdMain s)) (rdAssignments s) \<and>
     (\<forall>a \<in> set (rdAssignments s). well_backed s a) \<and> distinct (active_slots (rdAssignments s))"

lemma fit_elsewhere:
  assumes "tables_fit s" "rdParticipants s' = rdParticipants s" "rdAccounts s' = rdAccounts s"
    "rdAssignments s' = rdAssignments s" "nextId (rdMain s) \<le> nextId (rdMain s')"
  shows "tables_fit s'"
  using assms by (simp add: tables_fit_def well_backed_def fresh_ids_later [OF _ assms(5)])

lemma fit_participant:
  assumes "tables_fit s" "rdParticipants s' = rdParticipants s @ [p]" "rdAccounts s' = rdAccounts s"
    "rdAssignments s' = rdAssignments s" "pcId p = nextId (rdMain s)" "nextId (rdMain s) < nextId (rdMain s')"
  shows "tables_fit s'"
proof -
  have "fresh_ids pcId (nextId (rdMain s')) (rdParticipants s')"
    using assms fresh_ids_append [of pcId "nextId (rdMain s)" "rdParticipants s" p] by (simp add: tables_fit_def)
  moreover have "fresh_ids faId (nextId (rdMain s')) (rdAccounts s')" "fresh_ids asId (nextId (rdMain s')) (rdAssignments s')"
    using assms by (simp_all add: tables_fit_def fresh_ids_later [OF _ less_imp_le [OF assms(6)]])
  moreover have "\<forall>a \<in> set (rdAssignments s'). well_backed s' a"
    using assms(1-4) by (auto simp: tables_fit_def well_backed_def)
  ultimately show ?thesis using assms(1,4) by (simp add: tables_fit_def)
qed

lemma fit_activate:
  assumes "tables_fit s"
  shows "tables_fit (s\<lparr>rdParticipants := update_by pcId i (activated_participant E) (rdParticipants s)\<rparr>)"
proof -
  let ?s = "s\<lparr>rdParticipants := update_by pcId i (activated_participant E) (rdParticipants s)\<rparr>"
  have "well_backed ?s a" if w: "well_backed s a" for a
  proof -
    obtain p where p: "p \<in> set (rdParticipants s)" "pcId p = asParticipant a" "pcRelationship p = asRelationship a"
        "\<exists>x \<in> set (rdAccounts s). faId x = asAccount a \<and> faParty x = pcParty p \<and> (asActive a \<longrightarrow> faStatus x = FaVerified)"
      using w unfolding well_backed_def by blast
    let ?p = "if pcId p = i then activated_participant E p else p"
    have "?p \<in> set (rdParticipants ?s)" using p(1) by (auto simp: update_by_def)
    then show ?thesis
      using p(2-4) by (auto simp: well_backed_def activated_participant_def intro!: bexI [of _ ?p])
  qed
  then show ?thesis using assms by (simp add: tables_fit_def fresh_ids_update activated_participant_def)
qed

lemma fit_account:
  assumes "tables_fit s" "rdParticipants s' = rdParticipants s" "rdAccounts s' = rdAccounts s @ [x]"
    "rdAssignments s' = rdAssignments s" "faId x = nextId (rdMain s)" "nextId (rdMain s) < nextId (rdMain s')"
  shows "tables_fit s'"
proof -
  have "fresh_ids faId (nextId (rdMain s')) (rdAccounts s')"
    using assms fresh_ids_append [of faId "nextId (rdMain s)" "rdAccounts s" x] by (simp add: tables_fit_def)
  moreover have "fresh_ids pcId (nextId (rdMain s')) (rdParticipants s')" "fresh_ids asId (nextId (rdMain s')) (rdAssignments s')"
    using assms by (simp_all add: tables_fit_def fresh_ids_later [OF _ less_imp_le [OF assms(6)]])
  moreover have "\<forall>a \<in> set (rdAssignments s'). well_backed s' a"
    using assms(1-4) by (auto simp: tables_fit_def well_backed_def) metis
  ultimately show ?thesis using assms(1,4) by (simp add: tables_fit_def)
qed

text \<open>An account may change as long as it stays with its party and, when it is in use, verified.\<close>

lemma fit_account_update:
  assumes "tables_fit s" and "\<And>x. faId (f x) = faId x" and "\<And>x. faParty (f x) = faParty x"
    and v: "\<And>x a. x \<in> set (rdAccounts s) \<Longrightarrow> faId x = i \<Longrightarrow> a \<in> set (rdAssignments s) \<Longrightarrow> asActive a \<Longrightarrow> asAccount a = i \<Longrightarrow>
      faStatus x = FaVerified \<Longrightarrow> faStatus (f x) = FaVerified"
  shows "tables_fit (s\<lparr>rdAccounts := update_by faId i f (rdAccounts s)\<rparr>)"
proof -
  let ?s = "s\<lparr>rdAccounts := update_by faId i f (rdAccounts s)\<rparr>"
  have "well_backed ?s a" if a: "a \<in> set (rdAssignments s)" for a
  proof -
    obtain p x where px: "p \<in> set (rdParticipants s)" "pcId p = asParticipant a" "pcRelationship p = asRelationship a"
        "x \<in> set (rdAccounts s)" "faId x = asAccount a" "faParty x = pcParty p" "asActive a \<longrightarrow> faStatus x = FaVerified"
      using assms(1) a by (auto simp: tables_fit_def well_backed_def)
    let ?x = "if faId x = i then f x else x"
    have "?x \<in> set (rdAccounts ?s)" using px(4) by (auto simp: update_by_def)
    moreover have "asActive a \<longrightarrow> faStatus ?x = FaVerified" using px v [of x a] a by auto
    ultimately show ?thesis using px assms(2,3) by (auto simp: well_backed_def intro!: bexI [of _ p] bexI [of _ ?x])
  qed
  then show ?thesis using assms(1,2) by (simp add: tables_fit_def fresh_ids_update)
qed

lemma fit_assignment:
  assumes "tables_fit s" "rdParticipants s' = rdParticipants s" "rdAccounts s' = rdAccounts s"
    "rdAssignments s' = rdAssignments s @ [a]" "asId a = nextId (rdMain s)" "nextId (rdMain s) < nextId (rdMain s')"
    and "well_backed s a" and "slot a \<notin> set (active_slots (rdAssignments s))"
  shows "tables_fit s'"
proof -
  have "fresh_ids asId (nextId (rdMain s')) (rdAssignments s')"
    using assms fresh_ids_append [of asId "nextId (rdMain s)" "rdAssignments s" a] by (simp add: tables_fit_def)
  moreover have "fresh_ids faId (nextId (rdMain s')) (rdAccounts s')" "fresh_ids pcId (nextId (rdMain s')) (rdParticipants s')"
    using assms by (simp_all add: tables_fit_def fresh_ids_later [OF _ less_imp_le [OF assms(6)]])
  moreover have "\<forall>a \<in> set (rdAssignments s'). well_backed s' a" "distinct (active_slots (rdAssignments s'))"
    using assms(1-4,7,8) by (auto simp: tables_fit_def well_backed_def active_slots_def)
  ultimately show ?thesis by (simp add: tables_fit_def)
qed

lemma fit_supersede:
  assumes "tables_fit s"
  shows "tables_fit (s\<lparr>rdAssignments := update_by asId old (superseded_assignment E i) (rdAssignments s)\<rparr>)"
proof -
  let ?as = "update_by asId old (superseded_assignment E i) (rdAssignments s)"
  have "active_slots (update_by asId old (superseded_assignment E i) as) = map slot (filter asActive (filter (\<lambda>a. asId a \<noteq> old) as))" for as
    by (induction as) (auto simp: active_slots_def superseded_assignment_def)
  moreover have "distinct (map slot (filter asActive (filter (\<lambda>a. asId a \<noteq> old) (rdAssignments s))))"
    using assms distinct_map_filter [of slot "filter asActive (rdAssignments s)" "\<lambda>a. asId a \<noteq> old"]
    by (simp add: tables_fit_def active_slots_def conj_commute)
  moreover have "well_backed (s\<lparr>rdAssignments := ?as\<rparr>) a" if "a \<in> set ?as" for a
    using that assms by (fastforce simp: tables_fit_def well_backed_def update_by_def superseded_assignment_def)
  ultimately show ?thesis using assms by (simp add: tables_fit_def fresh_ids_update superseded_assignment_def)
qed

section \<open>Operations on connections\<close>

definition fits :: "rel_db \<Rightarrow> rel_db \<Rightarrow> bool" where
  "fits s s' \<longleftrightarrow> (tables_fit s \<longrightarrow> tables_fit s')"

interpretation fitting: state_preorder fits
  by unfold_locales (auto simp: fits_def)

lemma fits_elsewhere:
  "rdParticipants s' = rdParticipants s \<Longrightarrow> rdAccounts s' = rdAccounts s \<Longrightarrow> rdAssignments s' = rdAssignments s \<Longrightarrow>
   nextId (rdMain s) \<le> nextId (rdMain s') \<Longrightarrow> fits s s'"
  using fit_elsewhere by (auto simp: fits_def)

lemma fits_new_id: "keeps fits new_id"
  by (auto simp: keeps_def new_id_def on_main_def on_methods_def on_db_def intro!: fits_elsewhere)

lemma fits_audit: "keeps fits (relationship_audit E rel user act v)" "keeps fits (account_audit E x act user why)"
  by (auto simp: keeps_def relationship_audit_def account_audit_def on_main_def on_methods_def on_db_def intro!: fits_elsewhere)

lemma fits_update: "keeps fits (update_relationship i f)" "keeps fits (update_relationship_status i st)"
    "keeps fits (mark_activated E i)" "keeps fits (mark_restricted E i)" "keeps fits (mark_closed E i)"
    "keeps fits (set_current_agreement_id i ag)" "keeps fits (set_public_reference i ref)"
proof -
  show u: "keeps fits (update_relationship i f)" for f
    by (auto simp: keeps_def update_relationship_def set_relationship_def intro!: fits_elsewhere split: option.split)
  show "keeps fits (update_relationship_status i st)"
    "keeps fits (mark_activated E i)" "keeps fits (mark_restricted E i)" "keeps fits (mark_closed E i)"
    "keeps fits (set_current_agreement_id i ag)" "keeps fits (set_public_reference i ref)"
    using u fitting.stays by (simp_all add: update_relationship_status_def mark_activated_def mark_restricted_def mark_closed_def
        set_current_agreement_id_def set_public_reference_def keeps_def)
qed

lemma fits_insert: "keeps fits (insert_relationship D E user)"
  unfolding insert_relationship_def
  by (intro fitting.kept_then fits_new_id) (auto simp: keeps_def Let_def intro!: fits_elsewhere)

lemma fits_participant: "keeps fits (insert_participant rel party role st user joined)"
  by (auto simp: keeps_def fits_def insert_participant_def new_id_def on_main_def on_methods_def on_db_def Let_def
      intro: fit_participant fit_elsewhere)

lemma fits_activate: "keeps fits (activate_participant E i)"
  using fit_activate by (auto simp: keeps_def fits_def activate_participant_def split: option.split)

lemma fits_resolve:
  "keeps fits (resolve_for_exact_parties D E p)" "keeps fits (resolve_or_create_pending D E p)"
proof -
  have r: "keeps fits (\<lambda>s. (Inr (rlId r) :: error + uuid, s))" for r :: relationship_row by (simp add: keeps_def fitting.stays)
  show "keeps fits (resolve_for_exact_parties D E p)"
    unfolding resolve_for_exact_parties_def
    by (intro fitting.kept_atomic kept_cases r fitting.kept_then fits_insert fits_participant fitting.kept_simple)
  show "keeps fits (resolve_or_create_pending D E p)"
    unfolding resolve_or_create_pending_def Let_def
    by (intro fitting.kept_atomic kept_cases r fitting.kept_then fits_insert fits_participant fitting.kept_simple)
qed

lemma fits_fund: "keeps fits (fund_agreement D E rel a user)"
proof -
  have "fits s s'" if "fund_agreement D E rel a user s = (r, s')" for s r s'
  proof (rule fits_elsewhere)
    show "nextId (rdMain s) \<le> nextId (rdMain s')"
      using keepsD [OF connects_fund that] by (simp add: connects_def only_linked_def)
    show "rdParticipants s' = rdParticipants s" using that by (rule fund_frame)
    show "rdAccounts s' = rdAccounts s" "rdAssignments s' = rdAssignments s"
      using that by (auto simp: fund_agreement_def on_methods_def split: option.splits if_splits prod.splits)
  qed
  then show ?thesis by (metis keeps_def prod.collapse)
qed

lemma fits_link: "keeps fits (link_agreement D E rel ag user)"
proof -
  have l: "keeps fits (on_main (update (link_relationship ag rel)))"
    by (auto simp: keeps_def on_main_def on_methods_def on_db_def link_relationship_def set_agreement_def intro!: fits_elsewhere)
  show ?thesis
    unfolding link_agreement_def with_relationship_def as_participant_def
    by (intro fitting.kept_then fitting.kept_if fitting.kept_simple fits_update l fits_audit fits_fund)
qed

lemma fits_establish: "keeps fits (establish_agreement_relationship D E ag p)"
  unfolding establish_agreement_relationship_def
  by (intro fitting.kept_then) (auto intro!: fitting.kept_then fitting.kept_simple fits_resolve fits_link split: option.split)

lemma fits_propose: "keeps fits (propose_agreement_relationship D E ag p)"
  unfolding propose_agreement_relationship_def
  by (intro fitting.kept_then) (auto intro!: fitting.kept_then fitting.kept_simple fits_resolve fits_link split: option.split)

lemma fits_activate_each: "keeps fits (activate_each E is)"
  by (induction "is") (simp_all add: fitting.kept_simple fitting.kept_then fits_activate)

lemma fits_confirm: "keeps fits (confirm_agreement_relationship D E ag p)"
  unfolding confirm_agreement_relationship_def with_relationship_def
  by (intro fitting.kept_then fitting.kept_if fitting.kept_simple fits_update fits_audit fits_establish fits_activate_each)

lemma fits_notify: "keeps fits (notify_all D kind us)" "keeps fits (notify_participants D kind rel)"
proof -
  show n: "keeps fits (notify_all D kind us)" for us
    by (induction us) (auto simp: fitting.kept_simple split: option.split)
  show "keeps fits (notify_participants D kind rel)"
    using n by (simp add: keeps_def notify_participants_def)
qed

lemma fits_sync: "keeps fits (sync_from_financial_accounts rel)" "keeps fits (sync_from_agreement D rel user)"
proof -
  have "keeps fits (andThen (update_relationship_status rel RlFinancialAccountsReady) (\<lambda>_. ret ()))"
    by (intro fitting.kept_then fits_update fitting.kept_simple)
  then have "keeps fits (\<lambda>s. if c s then andThen (update_relationship_status rel RlFinancialAccountsReady) (\<lambda>_. ret ()) s
      else (Inr (), s))" for c
    using fitting.stays by (auto simp: keeps_def)
  then show "keeps fits (sync_from_financial_accounts rel)"
    unfolding sync_from_financial_accounts_def with_relationship_def by (intro fitting.kept_then fitting.kept_simple)
  show "keeps fits (sync_from_agreement D rel user)"
    unfolding sync_from_agreement_def with_relationship_def as_participant_def
    by (intro fitting.kept_then fitting.kept_simple)
      (auto intro!: fitting.kept_then fitting.kept_simple fits_update split: option.split)
qed

lemma fits_activation: "keeps fits (activate D E rel user)" "keeps fits (restrict_relationship D E rel user role why)"
    "keeps fits (close_relationship D E rel user)" "keeps fits (get_relationship_for_admin E rel user role)"
  unfolding activate_def restrict_relationship_def close_relationship_def get_relationship_for_admin_def
    with_relationship_def as_participant_def
  by (intro fitting.kept_then fitting.kept_if fitting.kept_simple fits_update fits_audit fits_notify)+

lemma fits_reference: "keeps fits (ensure_public_reference D rel)" "keeps fits (get_relationship D rel user)"
  unfolding ensure_public_reference_def get_relationship_def with_relationship_def as_participant_def
  by (intro fitting.kept_then fitting.kept_simple;
      auto intro!: fitting.kept_then fitting.kept_if fitting.kept_simple fits_update fits_new_id split: option.split)+

section \<open>Operations on accounts\<close>

lemma fits_add_account: "keeps fits (add_account D E user party k)"
proof -
  have "keeps fits (insert_account party k user)"
    by (auto simp: keeps_def fits_def insert_account_def andThen_def new_id_def on_main_def on_methods_def on_db_def Let_def
        intro: fit_account fit_elsewhere)
  then have "keeps fits (case dup of Some x \<Rightarrow> ret x | None \<Rightarrow> andThen (insert_account party k user) (\<lambda>x.
      andThen (account_audit E x ''FINANCIAL_ACCOUNT_ADDED'' user None) (\<lambda>_. ret x)))" for dup
    by (auto intro!: fitting.kept_then fitting.kept_simple fits_audit split: option.split)
  then show ?thesis
    unfolding add_account_def authorize_account_party_def by (intro fitting.kept_then fitting.kept_simple)
qed

lemma the_account:
  "tables_fit s \<Longrightarrow> find_financial_account i s = Some y \<Longrightarrow> x \<in> set (rdAccounts s) \<Longrightarrow> faId x = i \<Longrightarrow> x = y"
  by (metis find_financial_account_def fresh_ids_def lookup_by_distinct option.inject tables_fit_def)

lemma leaves_require_account: "leaves tables_fit (require_account i) (\<lambda>x s. tables_fit s \<and> find_financial_account i s = Some x) tables_fit"
  by (auto simp: leaves_def require_account_def split: option.split)

lemma leavesI:
  assumes "\<And>s x s'. P s \<Longrightarrow> m s = (Inr x, s') \<Longrightarrow> Q x s'" and "\<And>s e s'. P s \<Longrightarrow> m s = (Inl e, s') \<Longrightarrow> X s'"
  shows "leaves P m Q X"
  using assms by (auto simp: leaves_def split: prod.split sum.split)

lemma leaves_kept: "keeps (\<lambda>s s'. P s \<longrightarrow> P s') m \<Longrightarrow> leaves P m (\<lambda>_. P) P"
  by (auto simp: leaves_def dest: keepsD split: prod.split sum.split)

lemma leaves_fits: "keeps fits m \<Longrightarrow> leaves tables_fit m (\<lambda>_. tables_fit) tables_fit"
  by (rule leaves_kept) (simp add: fits_def [abs_def])

lemma fits_leaves:
  assumes "leaves tables_fit m (\<lambda>_. tables_fit) tables_fit"
  shows "keeps fits m"
proof -
  have "tables_fit s'" if "tables_fit s" "m s = (r, s')" for s r s'
    using leavesD [OF assms that] by (simp split: sum.splits)
  then show ?thesis by (auto simp: keeps_def fits_def) (metis prod.collapse)
qed

lemma fits_verification: "keeps fits (apply_verification_result E i verified)"
proof -
  have "leaves tables_fit (apply_verification_result E i verified) (\<lambda>_. tables_fit) tables_fit"
    unfolding apply_verification_result_def
  proof (rule leaves_then [OF leaves_require_account], intro leaves_guard)
    fix x :: financial_account_row assume pending: "faStatus x = FaPendingVerification"
    have "leaves (\<lambda>s. tables_fit s \<and> find_financial_account i s = Some x) (mark_verified E i) (\<lambda>_. tables_fit) tables_fit"
      using fit_account_update [where i = i and f = "\<lambda>x. x\<lparr>faStatus := FaVerified, faVerifiedAt := Some (clock E)\<rparr>"]
      by (auto simp: leaves_def mark_verified_def update_account_def split: option.split)
    moreover have "leaves (\<lambda>s. tables_fit s \<and> find_financial_account i s = Some x) (mark_account_failed i) (\<lambda>_. tables_fit) tables_fit"
    proof -
      have "tables_fit (s\<lparr>rdAccounts := update_by faId i (\<lambda>x. x\<lparr>faStatus := FaFailed\<rparr>) (rdAccounts s)\<rparr>)"
        if t: "tables_fit s" and f: "find_financial_account i s = Some x" for s
        using the_account [OF t f] pending by (intro fit_account_update [OF t]) auto
      then show ?thesis by (auto simp: leaves_def mark_account_failed_def update_account_def split: option.split)
    qed
    ultimately show "leaves (\<lambda>s. tables_fit s \<and> find_financial_account i s = Some x)
        (andThen (if verified then mark_verified E i else mark_account_failed i)
          (\<lambda>y. andThen (account_audit E y (if verified then ''FINANCIAL_ACCOUNT_VERIFIED''
             else ''FINANCIAL_ACCOUNT_VERIFICATION_FAILED'') (faAddedBy x) None) (\<lambda>_. ret y)))
        (\<lambda>_. tables_fit) tables_fit"
      by (intro leaves_then [where Q = "\<lambda>_. tables_fit"] leaves_then [OF leaves_fits [OF fits_audit(2)]] leaves_ret)
        (cases verified, simp_all)
  qed simp_all
  then show ?thesis by (rule fits_leaves)
qed

lemma fits_disable: "keeps fits (disable_account D E i user party why)"
proof -
  have free: "leaves (\<lambda>s. tables_fit s \<and> list_active_assignments_for_account i s = []) (mark_disabled E i) (\<lambda>_. tables_fit) tables_fit"
  proof -
    have "tables_fit (s\<lparr>rdAccounts := update_by faId i (\<lambda>x. x\<lparr>faStatus := FaDisabled, faDisabledAt := Some (clock E)\<rparr>) (rdAccounts s)\<rparr>)"
      if t: "tables_fit s" and f: "list_active_assignments_for_account i s = []" for s
      using f by (intro fit_account_update [OF t]) (auto simp: list_active_assignments_for_account_def filter_empty_conv)
    then show ?thesis by (auto simp: leaves_def mark_disabled_def update_account_def split: option.split)
  qed
  have tail: "leaves tables_fit (andThen (asks (list_active_assignments_for_account i)) (\<lambda>used.
       andThen (guard (used = []) (ValidationError ''AccountInUse'')) (\<lambda>_.
       andThen (mark_disabled E i) (\<lambda>y.
       andThen (account_audit E y ''FINANCIAL_ACCOUNT_DISABLED'' user (Some why)) (\<lambda>_. ret y))))) (\<lambda>_. tables_fit) tables_fit"
  proof (rule leaves_then [where Q = "\<lambda>used s. tables_fit s \<and> list_active_assignments_for_account i s = used"], goal_cases)
    case 1
    show ?case by (simp add: leaves_def)
  next
    case (2 used)
    show ?case
    proof (rule leaves_guard)
      assume "used = []"
      then show "leaves (\<lambda>s. tables_fit s \<and> list_active_assignments_for_account i s = used)
          (andThen (mark_disabled E i) (\<lambda>y. andThen (account_audit E y ''FINANCIAL_ACCOUNT_DISABLED'' user (Some why)) (\<lambda>_. ret y)))
          (\<lambda>_. tables_fit) tables_fit"
        using free by (intro leaves_then [where Q = "\<lambda>_. tables_fit"] leaves_then [OF leaves_fits [OF fits_audit(2)]] leaves_ret) simp_all
    qed simp
  qed
  then have t: "keeps fits (andThen (asks (list_active_assignments_for_account i)) (\<lambda>used.
       andThen (guard (used = []) (ValidationError ''AccountInUse'')) (\<lambda>_.
       andThen (mark_disabled E i) (\<lambda>y.
       andThen (account_audit E y ''FINANCIAL_ACCOUNT_DISABLED'' user (Some why)) (\<lambda>_. ret y)))))"
    by (rule fits_leaves)
  have "keeps fits (require_account i)"
    by (auto simp: keeps_def require_account_def fitting.stays split: option.split)
  then show ?thesis
    unfolding disable_account_def authorize_account_party_def
    by - (rule t fitting.kept_if fitting.kept_simple fitting.kept_then | assumption)+
qed

section \<open>Assignments\<close>

text \<open>What the guards have established when a slot is written.\<close>

definition ready :: "uuid \<Rightarrow> participant_row \<times> financial_account_row \<Rightarrow> rel_db \<Rightarrow> bool" where
  "ready rel px s \<longleftrightarrow> tables_fit s \<and> fst px \<in> set (rdParticipants s) \<and> pcRelationship (fst px) = rel \<and>
     snd px \<in> set (rdAccounts s) \<and> faParty (snd px) = pcParty (fst px) \<and> faStatus (snd px) = FaVerified"

lemma ready_fit: "ready rel px s \<Longrightarrow> tables_fit s"
  by (simp add: ready_def)

lemma leaves_assignable: "leaves tables_fit (assignable D rel user account use) (ready rel) tables_fit"
proof -
  have "leaves tables_fit (require_open_relationship rel) (\<lambda>_. tables_fit) tables_fit"
    unfolding require_open_relationship_def with_relationship_def
    by (intro leaves_fits fitting.kept_then fitting.kept_simple)
  moreover have "leaves tables_fit (as_participant D rel user)
      (\<lambda>p s. tables_fit s \<and> p \<in> set (rdParticipants s) \<and> pcRelationship p = rel) tables_fit"
  proof -
    have "p \<in> set (rdParticipants s) \<and> pcRelationship p = rel" if "resolve_acting_participant D rel user s = Inr p" for s p
      using that nth_mem by (auto simp: resolve_acting_participant_def list_participants_def find_Some_iff split: option.splits) fastforce+
    then show ?thesis by (auto simp: leaves_def as_participant_def split: sum.split)
  qed
  moreover have "leaves (\<lambda>s. tables_fit s \<and> p \<in> set (rdParticipants s) \<and> pcRelationship p = rel)
      (require_usage_matches_role D rel p use) (\<lambda>_ s. tables_fit s \<and> p \<in> set (rdParticipants s) \<and> pcRelationship p = rel) tables_fit" for p
    by (simp add: leaves_def require_usage_matches_role_def)
  moreover have "leaves (\<lambda>s. tables_fit s \<and> p \<in> set (rdParticipants s) \<and> pcRelationship p = rel) (require_account account)
      (\<lambda>x s. tables_fit s \<and> p \<in> set (rdParticipants s) \<and> pcRelationship p = rel \<and> x \<in> set (rdAccounts s)) tables_fit" for p
    by (auto simp: leaves_def require_account_def find_financial_account_def dest: lookup_by_Some_mem split: option.split)
  ultimately show ?thesis
    unfolding assignable_def
    by - (rule leaves_then leaves_guard leaves_ret | assumption | force simp: ready_def)+
qed

lemma ready_backed:
  "ready rel (p, x) s \<Longrightarrow> well_backed s (assignment_of E i (assignment_input_of rel p x use user))"
  by (auto simp: ready_def well_backed_def assignment_of_def assignment_input_of_def)

lemma slot_free:
  "\<not> list_ex (in_slot rel use) as \<longleftrightarrow> (rel, use) \<notin> set (active_slots as)"
  by (auto simp: list_ex_iff in_slot_def active_slots_def slot_def)

lemma new_id_eq: "new_id s = (Inr (nextId (rdMain s)), s\<lparr>rdMethods := (rdMethods s)\<lparr>mdDb := (rdMain s)\<lparr>nextId := Suc (nextId (rdMain s))\<rparr>\<rparr>\<rparr>)"
  by (simp add: new_id_def on_main_def on_methods_def on_db_def)

lemma fit_new_assignment:
  assumes "ready rel (p, x) s" and "\<not> list_ex (in_slot rel use) (rdAssignments s)"
    and "rdParticipants s' = rdParticipants s" "rdAccounts s' = rdAccounts s" "nextId (rdMain s') = Suc (nextId (rdMain s))"
    and "rdAssignments s' = rdAssignments s @ [assignment_of E (nextId (rdMain s)) (assignment_input_of rel p x use user)]"
  shows "tables_fit s'"
  by (rule fit_assignment [OF ready_fit [OF assms(1)] assms(3,4,6) _ _ ready_backed [OF assms(1)]])
    (use assms(2,5) in \<open>simp_all add: slot_free slot_def assignment_of_def assignment_input_of_def\<close>)

lemma leaves_insert_assignment:
  "leaves (ready rel (p, x)) (insert_assignment E (assignment_input_of rel p x use user)) (\<lambda>_. tables_fit) tables_fit"
proof -
  have "tables_fit s'" if r: "ready rel (p, x) s" and i: "insert_assignment E (assignment_input_of rel p x use user) s = (r, s')" for s r s'
  proof (cases "list_ex (in_slot rel use) (rdAssignments s)")
    case True
    then have "s' = s\<lparr>rdMethods := (rdMethods s)\<lparr>mdDb := (rdMain s)\<lparr>nextId := Suc (nextId (rdMain s))\<rparr>\<rparr>\<rparr>"
      using i by (simp add: insert_assignment_def new_id_eq assignment_input_of_def)
    then show ?thesis by (intro fit_elsewhere [OF ready_fit [OF r]]) simp_all
  next
    case False
    then show ?thesis
      using i by (intro fit_new_assignment [OF r False]) (auto simp: insert_assignment_def new_id_eq assignment_input_of_def)
  qed
  then show ?thesis by (fastforce simp: leaves_def split: prod.split sum.split)
qed

lemma ready_supersede:
  "ready rel px s \<Longrightarrow> ready rel px (s\<lparr>rdAssignments := update_by asId old (superseded_assignment E i) (rdAssignments s)\<rparr>)"
  using fit_supersede by (simp add: ready_def)

lemma leaves_replace_assignment:
  "leaves (ready rel (p, x)) (replace_assignment_atomically E (assignment_input_of rel p x use user) old) (\<lambda>_. tables_fit) tables_fit"
proof -
  have "tables_fit s'" if r: "ready rel (p, x) s"
    and i: "replace_assignment_atomically E (assignment_input_of rel p x use user) old s = (Inr a, s')" for s a s'
  proof -
    let ?k = "assignment_input_of rel p x use user"
    let ?i = "nextId (rdMain s)"
    define s1 where "s1 = (case old of None \<Rightarrow> s
        | Some old \<Rightarrow> s\<lparr>rdAssignments := update_by asId old (superseded_assignment E ?i) (rdAssignments s)\<rparr>)"
    have s1: "ready rel (p, x) s1" using r ready_supersede by (simp add: s1_def split: option.split)
    have "\<not> list_ex (in_slot rel use) (rdAssignments s1) \<and> rdParticipants s' = rdParticipants s1 \<and> rdAccounts s' = rdAccounts s1 \<and>
        nextId (rdMain s') = Suc (nextId (rdMain s1)) \<and> rdAssignments s' = rdAssignments s1 @ [assignment_of E (nextId (rdMain s1)) ?k]"
      using i by (auto simp: replace_assignment_atomically_def atomically_Inr Let_def andThen_Inr_iff new_id_eq s1_def
          assignment_input_of_def split: if_splits option.splits)
    then show ?thesis by (intro fit_new_assignment [OF s1]) blast+
  qed
  moreover have "tables_fit s'" if "ready rel (p, x) s"
    and "replace_assignment_atomically E (assignment_input_of rel p x use user) old s = (Inl e, s')" for s e s'
    using that ready_fit by (auto simp: replace_assignment_atomically_def dest: atomically_Inl)
  ultimately show ?thesis by (rule leavesI)
qed

lemma leaves_then_fits:
  "leaves P m (\<lambda>_. tables_fit) tables_fit \<Longrightarrow> (\<And>x. keeps fits (f x)) \<Longrightarrow> leaves P (andThen m f) (\<lambda>_. tables_fit) tables_fit"
  by (rule leaves_then) (auto intro: leaves_fits)

lemma fits_assign: "keeps fits (assign_account D E rel user account use)"
proof -
  have "leaves (ready rel (p, x)) (\<lambda>s. case insert_assignment E (assignment_input_of rel p x use user) s of
         (Inl e, s1) \<Rightarrow> (Inl (if find_active_assignment rel use s1 \<noteq> None then ConflictError ''SlotTaken'' else e), s1)
       | (Inr a, s1) \<Rightarrow> (Inr a, s1)) (\<lambda>_. tables_fit) tables_fit" for p x
    using leaves_insert_assignment [of rel p x E use user] by (auto simp: leaves_def split: prod.splits sum.splits)
  note put = this
  have "leaves (ready rel px) (case px of (p, x) \<Rightarrow>
     andThen (\<lambda>s. (if find_active_assignment rel use s \<noteq> None then Inl (ConflictError ''SlotTaken'') else Inr (), s)) (\<lambda>_.
     andThen (\<lambda>s. case insert_assignment E (assignment_input_of rel p x use user) s of
         (Inl e, s1) \<Rightarrow> (Inl (if find_active_assignment rel use s1 \<noteq> None then ConflictError ''SlotTaken'' else e), s1)
       | (Inr a, s1) \<Rightarrow> (Inr a, s1)) (\<lambda>a.
     andThen (relationship_audit E rel user ''FINANCIAL_ACCOUNT_ASSIGNMENT_CREATED'' (JObj [(''assignmentId'', json_uuid (asId a)),
       (''financialAccountId'', json_uuid account), (''usage'', usage_json use)])) (\<lambda>_.
     andThen (sync_from_financial_accounts rel) (\<lambda>_. ret a))))) (\<lambda>_. tables_fit) tables_fit" for px
  proof (cases px)
    case (Pair p x)
    show ?thesis
      unfolding Pair prod.case
      by (rule leaves_glance [OF ready_fit], assumption, rule leaves_then_fits [OF put])
        (intro fitting.kept_then fitting.kept_simple fits_audit fits_sync)
  qed
  then show ?thesis
    unfolding assign_account_def by (intro fits_leaves leaves_then [OF leaves_assignable])
qed

lemma fits_notify_counterparty: "keeps fits (notify_counterparty D rel p use)"
  using fits_notify fitting.stays by (auto simp: keeps_def notify_counterparty_def split: option.split)

lemma fits_replace: "keeps fits (replace_account D E stepUp rel user session account use)"
proof -
  have tail: "keeps fits (andThen (relationship_audit E rel user act (v b)) (\<lambda>_.
      andThen (sync_from_financial_accounts rel) (\<lambda>_. andThen (notify_counterparty D rel p use) (\<lambda>_. ret b))))"
    "keeps fits (andThen (relationship_audit E rel user act (v b)) (\<lambda>_.
      andThen (sync_from_financial_accounts rel) (\<lambda>_. ret b)))" for act p and b :: assignment_row and v :: "assignment_row \<Rightarrow> json"
    by (intro fitting.kept_then fitting.kept_simple fits_audit fits_sync fits_notify_counterparty)+
  have "leaves (ready rel px) (case px of (p, x) \<Rightarrow>
     andThen (guard (stepUp user session) StepUpRequiredError) (\<lambda>_.
     andThen (asks (find_active_assignment rel use)) (\<lambda>existing.
     andThen (guard (\<forall>a \<in> set_option existing. asParticipant (fst a) = pcId p) (ForbiddenError ''NotYourAssignment'')) (\<lambda>_.
     case existing of
       Some (a, y) \<Rightarrow>
         if asAccount a = faId x then ret a
         else andThen (replace_assignment_atomically E (assignment_input_of rel p x use user) (Some (asId a))) (\<lambda>b.
           andThen (relationship_audit E rel user ''FINANCIAL_ACCOUNT_ASSIGNMENT_REPLACED''
             (JObj [(''assignmentId'', json_uuid (asId b)), (''previousAssignmentId'', json_uuid (asId a)),
               (''financialAccountId'', json_uuid account), (''usage'', usage_json use)])) (\<lambda>_.
           andThen (sync_from_financial_accounts rel) (\<lambda>_.
           andThen (notify_counterparty D rel p use) (\<lambda>_. ret b))))
     | None \<Rightarrow>
         andThen (replace_assignment_atomically E (assignment_input_of rel p x use user) None) (\<lambda>b.
         andThen (relationship_audit E rel user ''FINANCIAL_ACCOUNT_ASSIGNMENT_REPLACED''
           (JObj [(''assignmentId'', json_uuid (asId b)), (''previousAssignmentId'', JNull),
             (''financialAccountId'', json_uuid account), (''usage'', usage_json use)])) (\<lambda>_.
         andThen (sync_from_financial_accounts rel) (\<lambda>_. ret b))))))) (\<lambda>_. tables_fit) tables_fit" for px
  proof (cases px)
    case (Pair p x)
    have 1: "leaves (ready rel (p, x)) (asks (find_active_assignment rel use)) (\<lambda>_. ready rel (p, x)) tables_fit"
      by (simp add: leaves_def)
    show ?thesis
      unfolding Pair prod.case
      by (rule leaves_guard [OF ready_fit], assumption, rule leaves_then [OF 1], rule leaves_guard [OF ready_fit], assumption)
        (auto intro!: leaves_then_fits leaves_replace_assignment tail leaves_ret simp: ready_fit split: option.split)
  qed
  then show ?thesis
    unfolding replace_account_def by (intro fits_leaves leaves_then [OF leaves_assignable])
qed

section \<open>Runs\<close>

text \<open>Every operation of the two services that writes, and whatever the rest of the program does to its
  own tables in between: it never takes an identifier back.\<close>

datatype connection_operation =
    Elsewhere "method_db \<Rightarrow> method_db"
  | LinkTo uuid uuid uuid
  | EstablishFor uuid pair_input
  | ProposeFor uuid pair_input
  | ConfirmFor uuid pair_input
  | ViewConnection uuid uuid
  | EnsureReference uuid
  | SyncAccounts uuid
  | SyncAgreement uuid uuid
  | ActivateConnection uuid uuid
  | RestrictConnection uuid uuid platform_role string
  | CloseConnection uuid uuid
  | AdminView uuid uuid platform_role
  | AddAccount uuid profile_ref account_input
  | VerificationResult uuid bool
  | DisableAccount uuid uuid profile_ref string
  | AssignAccount uuid uuid uuid account_usage
  | ReplaceAccount uuid uuid uuid uuid account_usage
  | AdminViewAccounts uuid uuid platform_role

fun perform_connection ::
    "rel_deps \<Rightarrow> (uuid \<Rightarrow> uuid \<Rightarrow> bool) \<Rightarrow> env \<Rightarrow> connection_operation \<Rightarrow> rel_db \<Rightarrow> rel_db" where
  "perform_connection D su E (Elsewhere f) s =
     (if nextId (rdMain s) \<le> nextId (mdDb (f (rdMethods s))) then s\<lparr>rdMethods := f (rdMethods s)\<rparr> else s)"
| "perform_connection D su E (LinkTo rel ag u) s = snd (link_agreement D E rel ag u s)"
| "perform_connection D su E (EstablishFor ag p) s = snd (establish_agreement_relationship D E ag p s)"
| "perform_connection D su E (ProposeFor ag p) s = snd (propose_agreement_relationship D E ag p s)"
| "perform_connection D su E (ConfirmFor ag p) s = snd (confirm_agreement_relationship D E ag p s)"
| "perform_connection D su E (ViewConnection rel u) s = snd (get_relationship D rel u s)"
| "perform_connection D su E (EnsureReference rel) s = snd (ensure_public_reference D rel s)"
| "perform_connection D su E (SyncAccounts rel) s = snd (sync_from_financial_accounts rel s)"
| "perform_connection D su E (SyncAgreement rel u) s = snd (sync_from_agreement D rel u s)"
| "perform_connection D su E (ActivateConnection rel u) s = snd (activate D E rel u s)"
| "perform_connection D su E (RestrictConnection rel u r why) s = snd (restrict_relationship D E rel u r why s)"
| "perform_connection D su E (CloseConnection rel u) s = snd (close_relationship D E rel u s)"
| "perform_connection D su E (AdminView rel u r) s = snd (get_relationship_for_admin E rel u r s)"
| "perform_connection D su E (AddAccount u party k) s = snd (add_account D E u party k s)"
| "perform_connection D su E (VerificationResult i ok) s = snd (apply_verification_result E i ok s)"
| "perform_connection D su E (DisableAccount i u party why) s = snd (disable_account D E i u party why s)"
| "perform_connection D su E (AssignAccount rel u i use) s = snd (assign_account D E rel u i use s)"
| "perform_connection D su E (ReplaceAccount rel u sess i use) s = snd (replace_account D E su rel u sess i use s)"
| "perform_connection D su E (AdminViewAccounts rel u r) s = snd (get_accounts_for_admin E rel u r s)"

definition run_connections ::
    "rel_deps \<Rightarrow> (uuid \<Rightarrow> uuid \<Rightarrow> bool) \<Rightarrow> (env \<times> connection_operation) list \<Rightarrow> rel_db \<Rightarrow> rel_db" where
  "run_connections D su ops s = fold (\<lambda>(E, op). perform_connection D su E op) ops s"

lemma fits_admin_view: "keeps fits (get_accounts_for_admin E rel user role)"
  unfolding get_accounts_for_admin_def by (intro fitting.kept_then fitting.kept_simple fits_audit)

lemma perform_fits: "fits s (perform_connection D su E op s)"
  using fits_link fits_establish fits_propose fits_confirm fits_reference fits_sync fits_activation
    fits_add_account fits_verification fits_disable fits_assign fits_replace fits_admin_view
  by (cases op) (auto simp: keeps_def fitting.stays intro: fits_elsewhere)

lemma run_fits: "tables_fit s \<Longrightarrow> tables_fit (run_connections D su ops s)"
  unfolding run_connections_def
  by (induction ops arbitrary: s) (use perform_fits in \<open>auto simp: fits_def\<close>)


section \<open>When the roles are reversed\<close>

lemma active_among_assignments:
  "find (\<lambda>(a, x). asUsage a = use \<and> asActive a) (list_assignments rel s) = find_active_assignment rel use s"
proof -
  have "find (\<lambda>(a, x). asUsage a = use \<and> asActive a)
      (List.map_filter (\<lambda>a. map_option (\<lambda>x. (a, x)) (g a)) (filter (\<lambda>a. asRelationship a = rel) as)) =
    (case find (\<lambda>a. asRelationship a = rel \<and> asUsage a = use \<and> asActive a \<and> g a \<noteq> None) as of
       None \<Rightarrow> None | Some a \<Rightarrow> map_option (\<lambda>x. (a, x)) (g a))" for g :: "assignment_row \<Rightarrow> financial_account_row option" and as
    by (induction as) (auto split: option.split)
  then show ?thesis by (simp add: list_assignments_def find_active_assignment_def)
qed

lemma active_assignmentD:
  assumes "find_active_assignment rel use s = Some (a, y)"
  shows "a \<in> set (list_active_assignments_for_account (faId y) s)" "find_financial_account (faId y) s = Some y"
proof -
  have a: "a \<in> set (rdAssignments s)" "asActive a" "find_financial_account (asAccount a) s = Some y"
    using assms nth_mem by (auto simp: find_active_assignment_def find_Some_iff split: option.splits)
  moreover have "faId y = asAccount a" using a(3) unfolding find_financial_account_def by (rule lookup_by_Some_key)
  ultimately show "a \<in> set (list_active_assignments_for_account (faId y) s)" "find_financial_account (faId y) s = Some y"
    by (simp_all add: list_active_assignments_for_account_def)
qed

lemma assignable_cases:
  assumes "assignable D rel user account use s = (r, s')"
  shows "s' = s" and "r = Inr (p, x) \<Longrightarrow> p \<in> set (list_participants rel s) \<and>
    usage_for_role (effective_role p (current_agreement_roles D rel s)) = use"
proof -
  have "p \<in> set (list_participants rel s)" if "resolve_acting_participant D rel user s = Inr p" for p
    using that nth_mem by (auto simp: resolve_acting_participant_def find_Some_iff split: option.splits)
  then show "s' = s" "r = Inr (p, x) \<Longrightarrow> p \<in> set (list_participants rel s) \<and>
      usage_for_role (effective_role p (current_agreement_roles D rel s)) = use"
    using assms by (auto simp: assignable_def andThen_def require_open_relationship_def with_relationship_def as_participant_def
        require_usage_matches_role_def require_account_def split: sum.splits option.splits if_splits)
qed

text \<open>
  C30. Once the current agreement has the roles reversed, the slot that the former payer or payee filled
  is stuck and open to the eyes of the other: nobody can assign an account to it, replace the one that is
  there or disable it, and the party whose slot it is now sees the account of the counterparty as the own one.
\<close>

theorem reversed_roles_lock_and_reveal:
  assumes "find_active_assignment rel use s = Some (a, y)"
    and "\<forall>q \<in> set (list_participants rel s). pcId q = asParticipant a \<longrightarrow>
      usage_for_role (effective_role q (current_agreement_roles D rel s)) \<noteq> use"
  shows "isl (fst (assign_account D E rel user i use s)) \<and> snd (assign_account D E rel user i use s) = s \<and>
    isl (fst (replace_account D E su rel user sess i use s)) \<and> snd (replace_account D E su rel user sess i use s) = s \<and>
    snd (disable_account D E (faId y) user party why s) = s \<and>
    (\<forall>vs s' p. get_accounts_for_participant D rel user s = (Inr vs, s') \<and> resolve_acting_participant D rel user s = Inr p \<and>
      usage_for_role (effective_role p (current_agreement_roles D rel s)) = use \<longrightarrow>
      (\<exists>v \<in> set vs. svUsage v = use \<and> svMine v \<and> svAccount v = Some y))"
proof -
  obtain r s1 where g: "assignable D rel user i use s = (r, s1)" by fastforce
  note c = assignable_cases [OF g]
  have 1: "isl (fst (assign_account D E rel user i use s)) \<and> snd (assign_account D E rel user i use s) = s"
    using c(1) by (cases r) (auto simp: assign_account_def g andThen_def assms(1))
  have "pcId p \<noteq> asParticipant a" if "r = Inr (p, x)" for p x
    using c(2) [OF that] assms(2) by auto
  then have 2: "isl (fst (replace_account D E su rel user sess i use s)) \<and> snd (replace_account D E su rel user sess i use s) = s"
    using c(1) by (cases r) (auto simp: replace_account_def g andThen_def assms(1))
  have "list_active_assignments_for_account (faId y) s \<noteq> []"
    using active_assignmentD(1) [OF assms(1)] by auto
  then have 3: "snd (disable_account D E (faId y) user party why s) = s"
    using active_assignmentD(2) [OF assms(1)]
    by (auto simp: disable_account_def authorize_account_party_def require_account_def andThen_def)
  have "\<exists>v \<in> set vs. svUsage v = use \<and> svMine v \<and> svAccount v = Some y"
    if "get_accounts_for_participant D rel user s = (Inr vs, s')" and p: "resolve_acting_participant D rel user s = Inr p"
      and u: "usage_for_role (effective_role p (current_agreement_roles D rel s)) = use" for vs s' p
  proof -
    have "vs = map (slot_view_of use (list_assignments rel s)) [Funding, PayoutUsage]"
      using that by (auto simp: get_accounts_for_participant_def andThen_Inr_iff as_participant_def require_open_relationship_def
          with_relationship_def require_relationship_def split: if_splits option.splits)
    then have "slot_view_of use (list_assignments rel s) use \<in> set vs" by (cases use) simp_all
    moreover have "svUsage (slot_view_of use (list_assignments rel s) use) = use \<and>
        svMine (slot_view_of use (list_assignments rel s) use) \<and>
        svAccount (slot_view_of use (list_assignments rel s) use) = Some y"
      by (simp add: slot_view_of_def Let_def active_among_assignments assms(1))
    ultimately show ?thesis by blast
  qed
  with 1 2 3 show ?thesis by blast
qed

section \<open>An example\<close>

text \<open>The two agree on a first agreement, the debtor's account funds it, it is paid, and then they agree
  with the roles reversed.\<close>

definition sample_two_agreements :: rel_db where
  "sample_two_agreements = \<lparr>rdMethods = \<lparr>mdDb = empty_db\<lparr>nextId := 50, agreements := [sample_agreement Active,
         (sample_agreement Active)\<lparr>agId := 2, agCreditor := (PersonalProfile, 101), agDebtor := (PersonalProfile, 102)\<rparr>],
         versions := [sample_version]\<rparr>, mdMandates = [], mdCards = []\<rparr>,
     rdRelationships = [], rdParticipants = [], rdAccounts = [], rdAssignments = []\<rparr>"

definition sample_account :: account_input where
  "sample_account = \<lparr>acKind = BankAccount, acProvider = ''sandbox'', acRef = ''ref'', acLast4 = Some ''4321'',
     acInstitution = None, acExpiryMonth = None, acExpiryYear = None, acBrand = None, acSubtype = Some Checking\<rparr>"

definition sample_reversal :: "(env \<times> connection_operation) list" where
  "sample_reversal = map (\<lambda>op. (toy_env\<lparr>sha256 := \<lambda>_. ''h'', clock := 0\<rparr>, op))
     [EstablishFor 1 sample_pair, AddAccount 101 (PersonalProfile, 101) sample_account, VerificationResult 53 True,
      AssignAccount 50 101 53 Funding,
      Elsewhere (\<lambda>m. m\<lparr>mdDb := set_agreement 1 (\<lambda>a. a\<lparr>agStatus := PaidInFull\<rparr>) (mdDb m)\<rparr>), LinkTo 50 2 102]"

definition sample_reversed :: rel_db where
  "sample_reversed = run_connections sample_rel_deps (\<lambda>_ _. True) sample_reversal sample_two_agreements"

lemma sample_assignments: "map (\<lambda>a. (asAccount a, asActive a)) (rdAssignments sample_reversed) = [(53, True)]"
  by code_simp

lemma sample_slot: "map_option (\<lambda>(a, y). (asParticipant a, faParty y, faLast4 y)) (find_active_assignment 50 Funding sample_reversed) =
    Some (52, (PersonalProfile, 101), Some ''4321'')"
  by code_simp

lemma sample_roles: "current_agreement_roles sample_rel_deps 50 sample_reversed =
    Some ((PersonalProfile, 101), (PersonalProfile, 102))"
  by code_simp

lemma sample_members: "map (\<lambda>p. (pcId p, pcParty p)) (list_participants 50 sample_reversed) =
    [(51, (PersonalProfile, 102)), (52, (PersonalProfile, 101))]"
  by code_simp

lemma sample_view: "\<not> isl (fst (get_accounts_for_participant sample_rel_deps 50 102 sample_reversed))"
  by code_simp


theorem reversed_roles_lock_and_reveal_witness:
  "\<exists>vs y s'. get_accounts_for_participant sample_rel_deps 50 102 sample_reversed = (Inr vs, s') \<and>
     faParty y = (PersonalProfile, 101) \<and> faLast4 y = Some ''4321'' \<and> Some y \<in> svAccount ` set vs"
proof -
  obtain a y where y: "find_active_assignment 50 Funding sample_reversed = Some (a, y)" "asParticipant a = 52"
      "faParty y = (PersonalProfile, 101)" "faLast4 y = Some ''4321''"
    using sample_slot by auto
  obtain vs s' where vs: "get_accounts_for_participant sample_rel_deps 50 102 sample_reversed = (Inr vs, s')"
    using sample_view by (metis isl_def old.sum.exhaust prod.collapse)
  obtain p where p: "resolve_acting_participant sample_rel_deps 50 102 sample_reversed = Inr p"
      "usage_for_role (effective_role p (current_agreement_roles sample_rel_deps 50 sample_reversed)) = Funding"
    using sample_members
    by (auto simp: map_eq_Cons_conv resolve_acting_participant_def sample_rel_deps_def sample_parties_def authorize_party_def
        effective_role_def usage_for_role_def sample_roles [unfolded sample_rel_deps_def sample_parties_def])
  have "\<forall>q \<in> set (list_participants 50 sample_reversed). pcId q = asParticipant a \<longrightarrow>
      usage_for_role (effective_role q (current_agreement_roles sample_rel_deps 50 sample_reversed)) \<noteq> Funding"
    using sample_members y(2) by (auto simp: map_eq_Cons_conv effective_role_def usage_for_role_def sample_roles
      dest!: sym [of "(k, n)" for k n])
  from reversed_roles_lock_and_reveal [OF y(1) this] vs p
  have "\<exists>v \<in> set vs. svUsage v = Funding \<and> svMine v \<and> svAccount v = Some y" by blast
  then show ?thesis using vs y(3,4) by force
qed

end
