(* ===== verification/Spec2Isabelle.thy ===== *)
theory Spec2Isabelle
  imports Errors Schedule AuditTrail AuditLaws Ledger LedgerLaws Balances Completion PaymentStates Payments Collection
    Retries PartialPayments Webhooks WebhookLaws PaymentMethods RetryExecution RetryLaws Agreements Amendments AgreementLaws Negotiation
    AmendmentLaws Settlements SettlementLaws Evidence EvidenceLaws Cancellations CancellationLaws Disputes DisputeLaws
    Reconciliation ReconciliationLaws Relationships RelationshipAccounts RelationshipLaws RelationshipAccountLaws
begin

text \<open>
  PAY2PAY lets two parties, a creditor and a debtor, write down a debt, agree on a schedule of
  installments, sign it, and pay it off through a payment provider or by hand. This library models
  the part of the server that decides about money and contracts (TypeScript, under
  \<open>src/src/lib\<close>), as executable definitions over one record of database tables, and proves what makes it
  correct.

  The parts and how they work together. An agreement is drafted, negotiated and signed
  (\<open>agreements/\<close>); its schedule is computed once and stored with the version that is signed. Each
  payment of an installment is an attempt (\<open>payments/\<close>) that is reserved under the locks of its agreement
  and installment, submitted to a provider, and moved by the provider's webhooks, which arrive in any
  order, late, twice, or not at all. A cleared payment is posted to a double-entry ledger (\<open>ledger/\<close>);
  balances, the settlement of an installment and the completion of an agreement are read off the journal
  only. A failed payment is retried once, by a job (\<open>failedPayments/\<close>); a payment taken back reverses its
  entries and reopens its agreement. Smaller payments than the installment are negotiated
  (\<open>partialPayments/\<close>). Bank mandates and cards (\<open>ach/\<close>, \<open>debitCard/\<close>) are the methods of payment. Every
  step leaves a row in a hash-chained audit trail (\<open>audit/\<close>).

  The theories, in the order of their imports:

  \<^item> \<open>Prelude\<close>: results that may be errors, steps on a state, transactions, tables as lists of rows.
  \<^item> \<open>JsNumber\<close>: integers carried in doubles (\<open>Number.isSafeInteger\<close>, rounded arithmetic, division);
    \<open>CalendarDates\<close>: days and ISO dates as \<open>Date.UTC\<close> computes them.
  \<^item> \<open>Errors\<close> (\<open>errors.ts\<close>, \<open>api-handler.ts\<close>): what a client is told of an error.
  \<^item> \<open>Schedule\<close> (\<open>agreements/schedule.ts\<close>): installments and due dates.
  \<^item> \<open>AuditTrail\<close> (\<open>audit/\<close>): canonical text, hash chain, append; \<open>AuditLaws\<close>: what the chain
    protects; \<open>Store\<close> (\<open>db/schema\<close>): rows and tables.
  \<^item> \<open>Ledger\<close>, \<open>LedgerLaws\<close>, \<open>Balances\<close>, \<open>Completion\<close> (\<open>ledger/\<close>): postings, their invariant, the balances
    reconstructed from the journal, completion and reopening.
  \<^item> \<open>PaymentStates\<close>, \<open>Payments\<close>, \<open>Collection\<close> (\<open>payments/paymentService.ts\<close> and its repositories): the legal
    moves of an attempt, its life, when an installment cannot be collected twice, and how a stale status
    write still does it.
  \<^item> \<open>Retries\<close>, \<open>RetryExecution\<close>, \<open>RetryLaws\<close> (\<open>failedPayments/\<close>): what follows a failed, cleared or superseded
    payment; the job that executes a retry; one charge per key, and only what is still owed.
  \<^item> \<open>Webhooks\<close>, \<open>WebhookLaws\<close> (\<open>payments/paymentWebhookService.ts\<close>): the handler and the recovery job; no event
    is lost, none is applied twice, the books stay right over any run of deliveries.
  \<^item> \<open>PartialPayments\<close>, \<open>PaymentMethods\<close>: proposals and their automatic application; mandates, cards, fees.
  \<^item> \<open>Agreements\<close>, \<open>AgreementLaws\<close>, \<open>Negotiation\<close> (\<open>agreements/agreementService.ts\<close> and its repositories):
    negotiation and signing; a signed version is final, an agreement in force was signed by both; the
    automaton of the negotiation, schedules that add up, what a signature binds.
  \<^item> \<open>Lifecycles\<close>: tables whose rows follow an automaton, as a locale; \<open>Amendments\<close>, \<open>AmendmentLaws\<close>
    (\<open>amendments/\<close>): the agreement stays until both have signed, what was accepted is fixed; \<open>Settlements\<close>,
    \<open>SettlementLaws\<close> (\<open>settlements/\<close>): never more than the amount, completed exactly when it is paid, and what a stale
    counterproposal does to it.
  \<^item> \<open>Cancellations\<close>, \<open>CancellationLaws\<close> (\<open>agreements/agreementCancellationService.ts\<close>): an agreement in force
    ends early only when both agree.
  \<^item> \<open>Evidence\<close>, \<open>EvidenceLaws\<close> (\<open>evidence/\<close>): which files are accepted, who sees what, who may be a witness;
    \<open>Disputes\<close>, \<open>DisputeLaws\<close> (\<open>disputes/\<close>): a dispute binds nobody and, against the
    documents, leaves even the agreement's status alone; a claim takes the money back.
  \<^item> \<open>Reconciliation\<close>, \<open>ReconciliationLaws\<close> (\<open>ledger/reconciliationService.ts\<close>, \<open>ledgerAdminService.ts\<close>): every
    disagreement is noticed, once; a lost entry comes back on evidence only.
  \<^item> \<open>Relationships\<close>, \<open>RelationshipAccounts\<close>, \<open>RelationshipLaws\<close>, \<open>RelationshipAccountLaws\<close>
    (\<open>relationships/\<close>): the connection of two parties and the accounts that fund it and are paid; the service
    keeps the promise that \<open>AgreementLaws\<close> rests on, an account in use is verified and of the right party, and
    what goes wrong when the roles are reversed. Their tables (\<open>rel_db\<close>) are a record around those of the
    methods of payment and of the core.

  How state and operations correspond. A table is a list of rows, a row a record with the columns that
  modelled code reads or writes; a statement with a condition, or a transaction under row locks, is one
  function on \<open>db\<close> (\<open>atomically\<close> takes an error back to the state before). A service operation without a
  transaction is a sequence of such steps (\<open>andThen\<close>) that keeps what it has written when a later step
  fails, as the code does. Three step relations have single transactions and statements as their steps,
  so that requests interleave and a check made before a transaction protects nothing: \<open>agreement_step\<close>
  (agreements and their versions), \<open>collect_step\<close> (attempts and the ledger; it includes the service's
  status writes without a condition, and its property names the one kind of write it cannot bear)
  and \<open>link_step\<close> (payments linked to settlements). All other runs take a whole operation as one step:
  a webhook handler or recovery run (\<open>run_handlers\<close>), a retry job (\<open>run_charge_op\<close>), a run of
  reconciliation, a request on amendments, settlements, cancellations, disputes, connections or evidence;
  they say what any sequence of such operations does, not what two of them do when they overlap. An error is a constructor of \<open>error\<close>, one per class of
  the source, with the message cut to a keyword: only \<open>to_safe_error_response\<close> reads it.

  What stands for code or services outside. \<open>env\<close> holds SHA-256, the audit secret and the clock, read once per
  operation. Identifiers are drawn from a counter; they print as decimal numbers. The provider, the profile
  directory, staff and capabilities, verification, the relationship service and notifications that can stop
  an operation are functions in the records \<open>pay_deps\<close>, \<open>workflow_deps\<close>, \<open>party_deps\<close>, \<open>agreement_deps\<close>,
  \<open>fire_deps\<close> and \<open>gateway\<close>; a property that relies on their behaviour names it as a hypothesis
  (\<open>connects_only\<close>, which \<open>RelationshipLaws\<close> proves of the modelled service). A provider is any function of its call: it may answer, refuse or throw.

  Numbers and texts. Amounts are integers; where the code computes on doubles the rounding is written out
  (\<open>js_add\<close>, \<open>js_sub\<close>, \<open>js_int\<close>), and where a column is 32 bits wide the insertion refuses what does not fit
  (\<open>int4_ok\<close>). Dates are texts of a four-digit year as the code writes them; a \<open>date\<close> column refuses days
  that do not exist (\<open>date_column_ok\<close>). A \<open>jsonb\<close> object is read back with its keys by length, then by
  byte, which is the order the hash of a version sees (\<open>terms_json\<close>).

  Fuel. The lineage of a retry is followed over at most 25 links and the chain of causes of an error over 20,
  the limits of the code itself. Other loops are structural, or have a measure (\<open>add_business_days\<close>).

  What is shown. The ledger: every entry balances, one entry per payment and kind, a reversal takes back
  exactly what was posted, balances follow the postings. Payments: the exposure of an installment stays within
  its amount, whatever is interleaved, unless a stale write reopens a closed payment; a webhook never moves a payment against the matrix; a claim that has been lost writes nothing.
  Webhooks: an event once stored is finished or refused by the recovery job, and finishing it twice changes
  nothing. Retries: one retry per failure, one charge per key, for what is still owed. Completion: an
  agreement is completed exactly when its installments are covered, and reopened at most once per event.
  A settlement
  is completed exactly when it has collected its amount. Agreements: signed terms are final, what is in force was signed, and only both parties end it early;
  private evidence is private. Connections: an account in a slot is verified and its owner's. Around them: the hash of the
  last row of the trail fixes the content of every row before it, up to a collision of the digest (rows
  are taken as they were written, although a \<open>jsonb\<close> column orders the keys of its objects anew), and dates
  survive being printed and parsed.

  Not modelled. Pages, components and the route handlers that parse requests (presentation, and the
  framework's); notifications, e-mail, rendered documents, cards issued by the platform, risk signals
  and metrics, whose errors the modelled operations swallow; authentication, sessions, staff and
  administration, which enter through the dependency records; invitations to a connection or an agreement; test hooks and in-memory fakes;
  logging; the requests of both parties to reschedule a failed payment
  (\<open>failedPayments/rescheduleRequestService.ts\<close>, \<open>drizzleRescheduleRequestRepository.ts\<close>): no modelled
  operation reads their rows, but one that is approved moves the due date of an installment
  (\<open>update_due_date\<close>), without a signature. The database itself is assumed to run a transaction that locks its rows first as one step, and
  to enforce the unique indexes and column types written out in the insertions.
\<close>

end
